(* ===== verification/Twin_Prelude.thy ===== *)
theory Twin_Prelude
  imports Complex_Main "HOL-Library.AList" "HOL-Library.Sublist"
begin

text \<open>
  Shared vocabulary of the development: results that may raise, Python dictionaries with their
  insertion order, bounded deques, and the string operations (\<open>split\<close>, \<open>join\<close>, \<open>strip\<close>,
  \<open>lower\<close>, \<open>int\<close>) the components use.

  Conventions. A Python \<open>dict\<close> whose order matters is an association list with distinct keys; an
  assignment \<open>d[k] = v\<close> is \<^term>\<open>dict_put\<close>, which overwrites in place or appends. A function that
  may raise returns a sum, \<^term>\<open>Inl\<close> for the exception. A Python \<open>str\<close> is a \<^typ>\<open>string\<close> (code
  points below 256).
\<close>

named_theorems res_simps
  \<open>inversion rules for results that may raise\<close>

section \<open>Results that may raise\<close>

definition rbind :: "'e + 'a \<Rightarrow> ('a \<Rightarrow> 'e + 'b) \<Rightarrow> 'e + 'b" where
  "rbind r f = (case r of Inl e \<Rightarrow> Inl e | Inr x \<Rightarrow> f x)"

lemma rbind_simps [simp]:
  "rbind (Inl e) f = Inl e"
  "rbind (Inr x) f = f x"
  by (simp_all add: rbind_def)

lemma rbind_Inr_iff [res_simps]: "rbind r f = Inr y \<longleftrightarrow> (\<exists>x. r = Inr x \<and> f x = Inr y)"
  by (cases r) auto

lemma rbind_Inl_iff [res_simps]:
  "rbind r f = Inl e \<longleftrightarrow> r = Inl e \<or> (\<exists>x. r = Inr x \<and> f x = Inl e)"
  by (cases r) auto

text \<open>A comprehension whose body may raise stops at the first exception.\<close>

fun rmap :: "('a \<Rightarrow> 'e + 'b) \<Rightarrow> 'a list \<Rightarrow> 'e + 'b list" where
  "rmap f [] = Inr []"
| "rmap f (x # xs) = rbind (f x) (\<lambda>y. rbind (rmap f xs) (\<lambda>ys. Inr (y # ys)))"

lemma rmap_Inr_iff [res_simps]: "rmap f xs = Inr ys \<longleftrightarrow> list_all2 (\<lambda>x y. f x = Inr y) xs ys"
  by (induction xs arbitrary: ys) (auto simp: res_simps list_all2_Cons1)

lemma rmap_total: "(\<And>x. x \<in> set xs \<Longrightarrow> f x = Inr (g x)) \<Longrightarrow> rmap f xs = Inr (map g xs)"
  by (induction xs) auto

text \<open>
  Two loops in sequence over the same list, the second undoing the first up to a normal form \<open>h\<close>.
\<close>

lemma rmap_inverse:
  assumes "rmap f xs = Inr ys" and "\<And>x y. x \<in> set xs \<Longrightarrow> f x = Inr y \<Longrightarrow> g y = Inr (h x)"
  shows "rmap g ys = Inr (map h xs)"
  using assms
  by (induction xs arbitrary: ys) (auto simp: res_simps)

text \<open>\<open>zip(xs, ys, strict=True)\<close>: \<^term>\<open>None\<close> where Python raises \<open>ValueError\<close>.\<close>

definition zip_strict :: "'a list \<Rightarrow> 'b list \<Rightarrow> ('a \<times> 'b) list option" where
  "zip_strict xs ys = (if length xs = length ys then Some (zip xs ys) else None)"

section \<open>Dictionaries in insertion order\<close>

abbreviation dict_put :: "'k \<Rightarrow> 'v \<Rightarrow> ('k \<times> 'v) list \<Rightarrow> ('k \<times> 'v) list" where
  "dict_put \<equiv> AList.update"

abbreviation dict_keys :: "('k \<times> 'v) list \<Rightarrow> 'k list" where
  "dict_keys d \<equiv> map fst d"

definition dict_ok :: "('k \<times> 'v) list \<Rightarrow> bool" where
  "dict_ok d \<longleftrightarrow> distinct (map fst d)"

text \<open>The loop \<open>for k, v in pairs: d[k] = v\<close> from the empty dictionary.\<close>

definition dict_of :: "('k \<times> 'v) list \<Rightarrow> ('k \<times> 'v) list" where
  "dict_of ps = foldl (\<lambda>d (k, v). dict_put k v d) [] ps"

lemma dict_ok_Nil [simp]: "dict_ok []"
  by (simp add: dict_ok_def)

lemma dict_ok_put [simp]: "dict_ok d \<Longrightarrow> dict_ok (dict_put k v d)"
  by (simp add: dict_ok_def distinct_update)

lemma dict_put_fresh: "k \<notin> set (map fst d) \<Longrightarrow> dict_put k v d = d @ [(k, v)]"
  by (induction d) auto

lemma foldl_dict_put_distinct:
  "distinct (map fst (d @ ps)) \<Longrightarrow> foldl (\<lambda>d (k, v). dict_put k v d) d ps = d @ ps"
proof (induction ps arbitrary: d)
  case Nil
  then show ?case by simp
next
  case (Cons p ps)
  obtain k v where p: "p = (k, v)" by force
  with Cons.prems have "dict_put k v d = d @ [(k, v)]"
    by (intro dict_put_fresh) auto
  with Cons.IH [of "d @ [(k, v)]"] Cons.prems p show ?case by simp
qed

lemma dict_of_distinct [simp]: "dict_ok ps \<Longrightarrow> dict_of ps = ps"
  using foldl_dict_put_distinct [of "[]" ps] by (simp add: dict_of_def dict_ok_def)

lemma foldl_dict_put_ok: "dict_ok d \<Longrightarrow> dict_ok (foldl (\<lambda>d (k, v). dict_put k v d) d ps)"
  by (induction ps arbitrary: d) auto

lemma dict_ok_dict_of [simp]: "dict_ok (dict_of ps)"
  by (simp add: dict_of_def foldl_dict_put_ok)

section \<open>Bounded deques\<close>

text \<open>\<open>deque(maxlen=n)\<close>: appending to a full deque drops from the left.\<close>

definition deque_append :: "nat \<Rightarrow> 'a list \<Rightarrow> 'a \<Rightarrow> 'a list" where
  "deque_append n xs x = (let ys = xs @ [x] in drop (length ys - n) ys)"

lemma length_deque_append [simp]: "length (deque_append n xs x) = min n (Suc (length xs))"
  by (simp add: deque_append_def Let_def)

lemma length_deque_append_le [simp]: "length (deque_append n xs x) \<le> n"
  by simp

lemma last_deque_append: "0 < n \<Longrightarrow> last (deque_append n xs x) = x"
  by (simp add: deque_append_def Let_def last_drop)

lemma set_deque_append: "set (deque_append n xs x) \<subseteq> insert x (set xs)"
  using set_drop_subset [of "Suc (length xs) - n" "xs @ [x]"]
  by (auto simp: deque_append_def Let_def)

text \<open>Appending a whole run keeps exactly its last \<open>n\<close> elements.\<close>

lemma deque_append_suffix:
  "xs = drop (length ys - n) ys \<Longrightarrow> deque_append n xs x = drop (Suc (length ys) - n) (ys @ [x])"
proof (cases "n \<le> length ys")
  case True
  assume xs: "xs = drop (length ys - n) ys"
  show ?thesis
  proof (cases n)
    case 0
    then show ?thesis by (simp add: deque_append_def)
  next
    case (Suc m)
    with True xs have "length xs = n" by simp
    with Suc have "deque_append n xs x = drop 1 xs @ [x]"
      by (simp add: deque_append_def Let_def)
    also have "\<dots> = drop (Suc (length ys) - n) (ys @ [x])"
      using True xs Suc by (simp add: Suc_diff_Suc [symmetric] Suc_diff_le)
    finally show ?thesis .
  qed
next
  case False
  assume "xs = drop (length ys - n) ys"
  with False show ?thesis by (simp add: deque_append_def Let_def)
qed

section \<open>Clamping\<close>

text \<open>\<open>min(max(x, lo), hi)\<close>.\<close>

definition clamp :: "'a::linorder \<Rightarrow> 'a \<Rightarrow> 'a \<Rightarrow> 'a" where
  "clamp lo hi x = min (max x lo) hi"

lemma clamp_le [simp]: "clamp lo hi x \<le> hi"
  by (simp add: clamp_def)

lemma clamp_ge [simp]: "lo \<le> hi \<Longrightarrow> lo \<le> clamp lo hi x"
  by (simp add: clamp_def)

lemma clamp_id [simp]: "lo \<le> x \<Longrightarrow> x \<le> hi \<Longrightarrow> clamp lo hi x = x"
  by (simp add: clamp_def max_def min_def)

lemma clamp_mono: "x \<le> y \<Longrightarrow> clamp lo hi x \<le> clamp lo hi y"
  unfolding clamp_def by (intro min.mono max.mono) auto

lemma those_members: "those xs = Some ys \<Longrightarrow> y \<in> set ys \<Longrightarrow> Some y \<in> set xs"
  by (induction xs arbitrary: ys) (auto split: option.splits)

section \<open>Strings\<close>

text \<open>\<open>s.split(c)\<close> for a one-character separator: always at least one part.\<close>

fun split_on :: "char \<Rightarrow> string \<Rightarrow> string list" where
  "split_on c [] = [[]]"
| "split_on c (x # xs) =
     (if x = c then [] # split_on c xs
      else (case split_on c xs of [] \<Rightarrow> [[x]] | p # ps \<Rightarrow> (x # p) # ps))"

text \<open>\<open>c.join(parts)\<close>.\<close>

fun join_on :: "char \<Rightarrow> string list \<Rightarrow> string" where
  "join_on c [] = []"
| "join_on c [p] = p"
| "join_on c (p # ps) = p @ c # join_on c ps"

lemma split_on_not_Nil [simp]: "split_on c s \<noteq> []"
  by (induction s) (auto split: list.splits)

lemma join_split [simp]: "join_on c (split_on c s) = s"
proof (induction s)
  case Nil
  then show ?case by simp
next
  case (Cons x xs)
  then show ?case
    by (cases "split_on c xs"; cases "tl (split_on c xs)") auto
qed

lemma split_on_no_sep [simp]: "c \<notin> set s \<Longrightarrow> split_on c s = [s]"
  by (induction s) auto

lemma split_on_append: "c \<notin> set p \<Longrightarrow> split_on c (p @ c # s) = p # split_on c s"
  by (induction p) auto

lemma split_join:
  "ps \<noteq> [] \<Longrightarrow> \<forall>p \<in> set ps. c \<notin> set p \<Longrightarrow> split_on c (join_on c ps) = ps"
  by (induction c ps rule: join_on.induct) (auto simp: split_on_append)

lemma split_on_parts: "p \<in> set (split_on c s) \<Longrightarrow> c \<notin> set p"
  by (induction s arbitrary: p) (auto split: if_splits list.splits)

lemma join_on_sub: "p \<in> set ps \<Longrightarrow> set p \<subseteq> set (join_on c ps)"
  by (induction c ps rule: join_on.induct) auto

text \<open>ASCII white space, as \<open>str.strip\<close> and \<open>str.split\<close> see it.\<close>

definition is_space :: "char \<Rightarrow> bool" where
  "is_space c \<longleftrightarrow> (let n = of_char c :: nat in n = 32 \<or> (9 \<le> n \<and> n \<le> 13) \<or> (28 \<le> n \<and> n \<le> 31))"

definition strip :: "string \<Rightarrow> string" where
  "strip s = rev (dropWhile is_space (rev (dropWhile is_space s)))"

text \<open>\<open>s.split()\<close>: maximal runs of non-space characters.\<close>

fun words_acc :: "string \<Rightarrow> string \<Rightarrow> string list" where
  "words_acc acc [] = (if acc = [] then [] else [acc])"
| "words_acc acc (x # xs) =
     (if is_space x then (if acc = [] then words_acc [] xs else acc # words_acc [] xs)
      else words_acc (acc @ [x]) xs)"

definition split_words :: "string \<Rightarrow> string list" where
  "split_words s = words_acc [] s"

definition lower_char :: "char \<Rightarrow> char" where
  "lower_char c = (let n = of_char c :: nat in if 65 \<le> n \<and> n \<le> 90 then char_of (n + 32) else c)"

definition lower :: "string \<Rightarrow> string" where
  "lower s = map lower_char s"

definition is_digit :: "char \<Rightarrow> bool" where
  "is_digit c \<longleftrightarrow> (let n = of_char c :: nat in 48 \<le> n \<and> n \<le> 57)"

definition digit_val :: "char \<Rightarrow> int" where
  "digit_val c = of_char c - 48"

text \<open>Decimal rendering of a natural number, \<open>str(n)\<close>.\<close>

fun nat_str :: "nat \<Rightarrow> string" where
  "nat_str n = (if n < 10 then [char_of (48 + n)] else nat_str (n div 10) @ [char_of (48 + n mod 10)])"

declare nat_str.simps [simp del]

definition int_str :: "int \<Rightarrow> string" where
  "int_str i = (if i < 0 then CHR ''-'' # nat_str (nat (- i)) else nat_str (nat i))"

text \<open>
  \<open>int(s)\<close> on a \<open>str\<close>: surrounding white space, an optional sign, and decimal digits with single
  underscores between digits.
\<close>

fun digits_val :: "int \<Rightarrow> string \<Rightarrow> int option" where
  "digits_val acc [] = Some acc"
| "digits_val acc (x # xs) =
     (if is_digit x then digits_val (10 * acc + digit_val x) xs
      else if x = CHR ''_'' then
        (case xs of [] \<Rightarrow> None
         | y # ys \<Rightarrow> if is_digit y then digits_val (10 * acc + digit_val y) ys else None)
      else None)"

definition parse_nat :: "string \<Rightarrow> int option" where
  "parse_nat s = (case s of [] \<Rightarrow> None
     | x # xs \<Rightarrow> if is_digit x then digits_val (digit_val x) xs else None)"

definition parse_int :: "string \<Rightarrow> int option" where
  "parse_int s = (case strip s of [] \<Rightarrow> None
     | x # xs \<Rightarrow> if x = CHR ''-'' then map_option uminus (parse_nat xs)
        else if x = CHR ''+'' then parse_nat xs
        else parse_nat (x # xs))"

end
