(* ===== verification/Sparkplug_Types.thy ===== *)
theory Sparkplug_Types
  imports Twin_Prelude "HOL-Library.Word"
begin

text \<open>
  The Sparkplug B value layer of \<open>packages/contracts/.../sparkplug/codec.py\<close>: the datatype table,
  \<open>_to_wire\<close>, \<open>_from_wire\<close>, \<open>_infer_property_type\<close>, \<open>_set_value\<close> and \<open>_read_value\<close>.

  Python floats are a type parameter \<^typ>\<open>'f\<close>; what the codec needs of them (\<open>float(int)\<close>,
  \<open>int(float)\<close> and the single-precision rounding a protobuf \<open>float\<close> field performs) is the record
  \<open>float_ops\<close>. Protobuf wire integers keep their width: \<open>int_value\<close> is a \<^typ>\<open>32 word\<close> and
  \<open>long_value\<close> a \<^typ>\<open>64 word\<close>, as in \<open>sparkplug_b.proto\<close>.
\<close>

section \<open>The datatype table\<close>

datatype data_type =
    DInt8 | DInt16 | DInt32 | DInt64 | DUInt8 | DUInt16 | DUInt32 | DUInt64
  | DFloat | DDouble | DBoolean | DString | DDateTime | DText | DUUID

definition all_data_types :: "data_type list" where
  "all_data_types = [DInt8, DInt16, DInt32, DInt64, DUInt8, DUInt16, DUInt32, DUInt64,
     DFloat, DDouble, DBoolean, DString, DDateTime, DText, DUUID]"

fun data_type_value :: "data_type \<Rightarrow> string" where
  "data_type_value DInt8 = ''Int8''"
| "data_type_value DInt16 = ''Int16''"
| "data_type_value DInt32 = ''Int32''"
| "data_type_value DInt64 = ''Int64''"
| "data_type_value DUInt8 = ''UInt8''"
| "data_type_value DUInt16 = ''UInt16''"
| "data_type_value DUInt32 = ''UInt32''"
| "data_type_value DUInt64 = ''UInt64''"
| "data_type_value DFloat = ''Float''"
| "data_type_value DDouble = ''Double''"
| "data_type_value DBoolean = ''Boolean''"
| "data_type_value DString = ''String''"
| "data_type_value DDateTime = ''DateTime''"
| "data_type_value DText = ''Text''"
| "data_type_value DUUID = ''UUID''"

text \<open>\<open>DataType(s)\<close>: the member with that value, a \<open>ValueError\<close> when there is none.\<close>

definition data_type_of :: "string \<Rightarrow> data_type option" where
  "data_type_of s = find (\<lambda>dt. data_type_value dt = s) all_data_types"

datatype pb_field = IntValue | LongValue | FloatValue | DoubleValue | BooleanValue | StringValue

record type_spec =
  ts_code :: int
  ts_field :: pb_field
  ts_bits :: "nat option"
  ts_signed :: bool

definition type_spec_of :: "int \<Rightarrow> pb_field \<Rightarrow> nat option \<Rightarrow> bool \<Rightarrow> type_spec" where
  "type_spec_of c f b s = \<lparr>ts_code = c, ts_field = f, ts_bits = b, ts_signed = s\<rparr>"

fun specs :: "data_type \<Rightarrow> type_spec" where
  "specs DInt8 = type_spec_of 1 IntValue (Some 8) True"
| "specs DInt16 = type_spec_of 2 IntValue (Some 16) True"
| "specs DInt32 = type_spec_of 3 IntValue (Some 32) True"
| "specs DInt64 = type_spec_of 4 LongValue (Some 64) True"
| "specs DUInt8 = type_spec_of 5 IntValue (Some 8) False"
| "specs DUInt16 = type_spec_of 6 IntValue (Some 16) False"
| "specs DUInt32 = type_spec_of 7 IntValue (Some 32) False"
| "specs DUInt64 = type_spec_of 8 LongValue (Some 64) False"
| "specs DFloat = type_spec_of 9 FloatValue None False"
| "specs DDouble = type_spec_of 10 DoubleValue None False"
| "specs DBoolean = type_spec_of 11 BooleanValue None False"
| "specs DString = type_spec_of 12 StringValue None False"
| "specs DDateTime = type_spec_of 13 LongValue (Some 64) False"
| "specs DText = type_spec_of 14 StringValue None False"
| "specs DUUID = type_spec_of 15 StringValue None False"

definition by_code :: "int \<Rightarrow> data_type option" where
  "by_code c = find (\<lambda>dt. ts_code (specs dt) = c) all_data_types"

section \<open>Values\<close>

text \<open>
  A \<open>Scalar\<close> of the codec. \<open>SBytes\<close> and \<open>SMessage\<close> are what \<open>getattr(source, field)\<close> gives when
  the oneof holds a \<open>bytes_value\<close> or one of the nested messages (data set, template, extension,
  property set), which the decoder passes through for non-integer types.
\<close>

datatype 'f scalar = SBool bool | SInt int | SFloat 'f | SStr string | SBytes string | SMessage

datatype 'f pb_value =
    PbInt "32 word" | PbLong "64 word" | PbFloat 'f | PbDouble 'f | PbBool bool
  | PbString string | PbBytes string | PbMessage

record 'f float_ops =
  f_of_int :: "int \<Rightarrow> 'f option"   \<comment> \<open>\<open>float(n)\<close>; \<open>None\<close> is \<open>OverflowError\<close>\<close>
  f_to_int :: "'f \<Rightarrow> int option"   \<comment> \<open>\<open>int(x)\<close>; \<open>None\<close> for NaN and infinities\<close>
  f_single :: "'f \<Rightarrow> 'f"          \<comment> \<open>what a protobuf \<open>float\<close> field gives back\<close>

datatype codec_error =
    RequiresInt data_type
  | OutOfRange data_type int
  | RequiresNumber data_type
  | FloatOverflow
  | RequiresBool data_type
  | RequiresStr data_type
  | NotAnInteger
  | UnsupportedCode int
  | UnknownDataType string
  | FieldRange int
  | SeqRange int
  | PropertyMismatch
  | BadMessage

section \<open>Wire conversion\<close>

definition int_bounds :: "nat \<Rightarrow> bool \<Rightarrow> int \<times> int" where
  "int_bounds bits is_signed =
     (if is_signed then (- (2 ^ (bits - 1)), 2 ^ (bits - 1)) else (0, 2 ^ bits))"

text \<open>\<open>_to_wire\<close>: in branch order, integers, floats, booleans, strings.\<close>

definition to_wire :: "'f float_ops \<Rightarrow> data_type \<Rightarrow> 'f scalar \<Rightarrow> codec_error + 'f scalar" where
  "to_wire F dt value =
     (case ts_bits (specs dt) of
        Some bits \<Rightarrow>
          (case value of
             SInt v \<Rightarrow>
               (let (lo, hi) = int_bounds bits (ts_signed (specs dt))
                in if \<not> (lo \<le> v \<and> v < hi) then Inl (OutOfRange dt v)
                   else Inr (SInt (if v < 0 then v + 2 ^ bits else v)))
           | _ \<Rightarrow> Inl (RequiresInt dt))
      | None \<Rightarrow>
          (case ts_field (specs dt) of
             BooleanValue \<Rightarrow> (case value of SBool b \<Rightarrow> Inr (SBool b) | _ \<Rightarrow> Inl (RequiresBool dt))
           | StringValue \<Rightarrow> (case value of SStr s \<Rightarrow> Inr (SStr s) | _ \<Rightarrow> Inl (RequiresStr dt))
           | _ \<Rightarrow>
               (case value of
                  SInt v \<Rightarrow> (case f_of_int F v of None \<Rightarrow> Inl FloatOverflow | Some x \<Rightarrow> Inr (SFloat x))
                | SFloat x \<Rightarrow> Inr (SFloat x)
                | _ \<Rightarrow> Inl (RequiresNumber dt))))"

text \<open>\<open>int(raw)\<close> for what a oneof can hold.\<close>

definition py_int :: "'f float_ops \<Rightarrow> 'f scalar \<Rightarrow> codec_error + int" where
  "py_int F raw =
     (let lift = (\<lambda>r. case r of None \<Rightarrow> Inl NotAnInteger | Some v \<Rightarrow> Inr v)
      in case raw of
           SInt v \<Rightarrow> Inr v
         | SBool b \<Rightarrow> Inr (if b then 1 else 0)
         | SFloat x \<Rightarrow> lift (f_to_int F x)
         | SStr s \<Rightarrow> lift (parse_int s)
         | SBytes s \<Rightarrow> lift (parse_int s)
         | SMessage \<Rightarrow> Inl NotAnInteger)"

text \<open>
  \<open>_from_wire\<close>. The mask \<open>& (2**bits - 1)\<close> of an unbounded integer is the remainder modulo
  \<open>2 ^ bits\<close>.
\<close>

definition sign_extend :: "nat \<Rightarrow> int \<Rightarrow> int" where
  "sign_extend bits raw =
     (let v = take_bit bits raw in if 2 ^ (bits - 1) \<le> v then v - 2 ^ bits else v)"

definition from_wire :: "'f float_ops \<Rightarrow> data_type \<Rightarrow> 'f scalar \<Rightarrow> codec_error + 'f scalar" where
  "from_wire F dt raw =
     (case ts_bits (specs dt) of
        Some bits \<Rightarrow>
          (if ts_signed (specs dt) then rbind (py_int F raw) (\<lambda>v. Inr (SInt (sign_extend bits v)))
           else Inr raw)
      | None \<Rightarrow> Inr raw)"

definition infer_property_type :: "'f scalar option \<Rightarrow> data_type" where
  "infer_property_type value =
     (case value of
        None \<Rightarrow> DString
      | Some (SStr _) \<Rightarrow> DString
      | Some (SBool _) \<Rightarrow> DBoolean
      | Some (SInt v) \<Rightarrow> if - (2 ^ 31) \<le> v \<and> v < 2 ^ 31 then DInt32 else DInt64
      | _ \<Rightarrow> DDouble)"

section \<open>Writing and reading a oneof\<close>

text \<open>
  \<open>setattr(target, field, v)\<close> of the protobuf runtime: the width of the field is checked
  (\<open>ValueError\<close> outside it), \<open>float\<close> fields round to single precision.
\<close>

definition set_field :: "'f float_ops \<Rightarrow> pb_field \<Rightarrow> 'f scalar \<Rightarrow> codec_error + 'f pb_value" where
  "set_field F field v =
     (case (field, v) of
        (IntValue, SInt i) \<Rightarrow>
          if 0 \<le> i \<and> i < 2 ^ 32 then Inr (PbInt (word_of_int i)) else Inl (FieldRange i)
      | (LongValue, SInt i) \<Rightarrow>
          if 0 \<le> i \<and> i < 2 ^ 64 then Inr (PbLong (word_of_int i)) else Inl (FieldRange i)
      | (FloatValue, SFloat x) \<Rightarrow> Inr (PbFloat (f_single F x))
      | (DoubleValue, SFloat x) \<Rightarrow> Inr (PbDouble x)
      | (BooleanValue, SBool b) \<Rightarrow> Inr (PbBool b)
      | (StringValue, SStr s) \<Rightarrow> Inr (PbString s)
      | _ \<Rightarrow> Inl BadMessage)"

text \<open>
  The mutable part of a metric or property value: \<open>is_null\<close> and the oneof. \<open>_set_value\<close> writes one
  of the two on a fresh message.
\<close>

record 'f cell =
  c_is_null :: bool
  c_value :: "'f pb_value option"

definition empty_cell :: "'f cell" where
  "empty_cell = \<lparr>c_is_null = False, c_value = None\<rparr>"

definition set_value ::
  "'f float_ops \<Rightarrow> 'f cell \<Rightarrow> data_type \<Rightarrow> 'f scalar option \<Rightarrow> bool \<Rightarrow> codec_error + 'f cell" where
  "set_value F target dt value is_null =
     (if is_null \<or> value = None then Inr (target\<lparr>c_is_null := True\<rparr>)
      else rbind (to_wire F dt (the value))
        (\<lambda>w. rbind (set_field F (ts_field (specs dt)) w)
          (\<lambda>p. Inr (target\<lparr>c_value := Some p\<rparr>))))"

definition get_field :: "'f pb_value \<Rightarrow> 'f scalar" where
  "get_field p =
     (case p of
        PbInt w \<Rightarrow> SInt (uint w) | PbLong w \<Rightarrow> SInt (uint w)
      | PbFloat x \<Rightarrow> SFloat x | PbDouble x \<Rightarrow> SFloat x | PbBool b \<Rightarrow> SBool b
      | PbString s \<Rightarrow> SStr s | PbBytes s \<Rightarrow> SBytes s | PbMessage \<Rightarrow> SMessage)"

definition read_value ::
  "'f float_ops \<Rightarrow> 'f cell \<Rightarrow> int \<Rightarrow> codec_error + (data_type \<times> 'f scalar option \<times> bool)" where
  "read_value F source type_code =
     (case by_code type_code of
        None \<Rightarrow> Inl (UnsupportedCode type_code)
      | Some dt \<Rightarrow>
          if c_is_null source then Inr (dt, None, True)
          else (case c_value source of
                  None \<Rightarrow> Inr (dt, None, True)
                | Some p \<Rightarrow> rbind (from_wire F dt (get_field p)) (\<lambda>v. Inr (dt, Some v, False))))"

section \<open>Facts\<close>

lemma data_type_of_value [simp]: "data_type_of (data_type_value dt) = Some dt"
  by (cases dt) (simp_all add: data_type_of_def all_data_types_def)

lemma data_type_of_Some_iff: "data_type_of s = Some dt \<longleftrightarrow> s = data_type_value dt"
proof
  assume "data_type_of s = Some dt"
  then show "s = data_type_value dt" by (auto simp: data_type_of_def find_Some_iff)
qed simp

lemma by_code_specs [simp]: "by_code (ts_code (specs dt)) = Some dt"
  by (cases dt) (simp_all add: by_code_def all_data_types_def type_spec_of_def)

lemma by_code_Some: "by_code c = Some dt \<Longrightarrow> ts_code (specs dt) = c"
  by (auto simp: by_code_def find_Some_iff)

lemma infer_property_type_not_Float: "infer_property_type v \<noteq> DFloat"
  by (auto simp: infer_property_type_def split: option.splits scalar.splits if_splits)

lemma sign_extend_id:
  assumes "0 < bits" and "- (2 ^ (bits - 1)) \<le> v" and "v < 2 ^ (bits - 1)"
  shows "sign_extend bits (if v < 0 then v + 2 ^ bits else v) = v"
proof -
  obtain k where k: "bits = Suc k" using assms(1) by (cases bits) auto
  have "take_bit (Suc k) (if v < 0 then v + 2 ^ Suc k else v) = (if v < 0 then v + 2 ^ Suc k else v)"
    using assms k by (auto simp: take_bit_int_eq_self)
  with assms k show ?thesis by (auto simp: sign_extend_def Let_def)
qed

text \<open>The decoder's sign extension lands in the signed range, whatever the encoder sent.\<close>

lemma sign_extend_range:
  assumes "0 < bits"
  shows "- (2 ^ (bits - 1)) \<le> sign_extend bits r \<and> sign_extend bits r < 2 ^ (bits - 1)"
proof -
  obtain k where k: "bits = Suc k" using assms by (cases bits) auto
  have "0 \<le> take_bit (Suc k) r" by simp
  moreover have "take_bit (Suc k) r < 2 ^ Suc k" by (rule take_bit_int_less_exp)
  moreover have "- (2 ^ k) \<le> take_bit (Suc k) r" by (rule order_trans [of _ 0]) simp_all
  ultimately show ?thesis using k by (auto simp: sign_extend_def Let_def)
qed

text \<open>What a value looks like after one trip through the wire.\<close>

definition canon_scalar :: "'f float_ops \<Rightarrow> data_type \<Rightarrow> 'f scalar \<Rightarrow> 'f scalar" where
  "canon_scalar F dt v =
     (case ts_field (specs dt) of
        DoubleValue \<Rightarrow> (case v of SInt i \<Rightarrow> SFloat (the (f_of_int F i)) | _ \<Rightarrow> v)
      | FloatValue \<Rightarrow>
          (case v of SInt i \<Rightarrow> SFloat (f_single F (the (f_of_int F i)))
           | SFloat x \<Rightarrow> SFloat (f_single F x) | _ \<Rightarrow> v)
      | _ \<Rightarrow> v)"

definition canon_value :: "'f float_ops \<Rightarrow> data_type \<Rightarrow> 'f scalar option \<Rightarrow> bool \<Rightarrow> 'f scalar option" where
  "canon_value F dt value is_null = (if is_null then None else map_option (canon_scalar F dt) value)"

text \<open>A protobuf field gives back what was written, up to single precision.\<close>

lemma get_set_field:
  assumes "set_field F fld w = Inr p"
  shows "get_field p = (case (fld, w) of (FloatValue, SFloat x) \<Rightarrow> SFloat (f_single F x) | _ \<Rightarrow> w)"
  using assms
  by (auto simp: set_field_def get_field_def uint_word_of_int take_bit_int_eq_self
      split: pb_field.splits scalar.splits if_splits)

lemma to_wire_int:
  assumes "to_wire F dt v = Inr w" and "ts_bits (specs dt) = Some bits"
  shows "\<exists>i lo hi. v = SInt i \<and> int_bounds bits (ts_signed (specs dt)) = (lo, hi) \<and> lo \<le> i \<and> i < hi
     \<and> w = SInt (if i < 0 then i + 2 ^ bits else i)"
  using assms by (auto simp: to_wire_def split: scalar.splits prod.splits if_splits)

lemma specs_bits_pos: "ts_bits (specs dt) = Some bits \<Longrightarrow> 0 < bits"
  by (cases dt) (auto simp: type_spec_of_def)

lemma specs_bits_field: "ts_bits (specs dt) = Some bits \<Longrightarrow> ts_field (specs dt) \<in> {IntValue, LongValue}"
  by (cases dt) (auto simp: type_spec_of_def)

lemma specs_no_bits_field: "ts_bits (specs dt) = None \<Longrightarrow> ts_field (specs dt) \<notin> {IntValue, LongValue}"
  by (cases dt) (auto simp: type_spec_of_def)

lemma wire_roundtrip_int:
  assumes w: "to_wire F dt v = Inr w" and p: "set_field F (ts_field (specs dt)) w = Inr p"
    and bits: "ts_bits (specs dt) = Some bits"
  shows "from_wire F dt (get_field p) = Inr v"
proof -
  obtain i lo hi where i: "v = SInt i" and b: "int_bounds bits (ts_signed (specs dt)) = (lo, hi)"
    and r: "lo \<le> i" "i < hi" and wi: "w = SInt (if i < 0 then i + 2 ^ bits else i)"
    using to_wire_int [OF w bits] by blast
  have g: "get_field p = w"
    using get_set_field [OF p] specs_bits_field [OF bits] by auto
  show ?thesis
  proof (cases "ts_signed (specs dt)")
    case True
    with b r have "- (2 ^ (bits - 1)) \<le> i" "i < 2 ^ (bits - 1)" by (auto simp: int_bounds_def)
    then have "sign_extend bits (if i < 0 then i + 2 ^ bits else i) = i"
      by (intro sign_extend_id specs_bits_pos [OF bits])
    with True i g wi bits show ?thesis by (simp add: from_wire_def py_int_def Let_def)
  next
    case False
    with b r have "0 \<le> i" by (auto simp: int_bounds_def)
    with False i g wi bits show ?thesis by (simp add: from_wire_def)
  qed
qed

lemma wire_roundtrip:
  assumes w: "to_wire F dt v = Inr w" and p: "set_field F (ts_field (specs dt)) w = Inr p"
  shows "from_wire F dt (get_field p) = Inr (canon_scalar F dt v)"
proof (cases "ts_bits (specs dt)")
  case (Some bits)
  have "canon_scalar F dt v = v"
    using specs_bits_field [OF Some] by (auto simp: canon_scalar_def)
  with wire_roundtrip_int [OF w p Some] show ?thesis by simp
next
  case None
  with w get_set_field [OF p] specs_no_bits_field [OF None] show ?thesis
    by (auto simp: to_wire_def from_wire_def canon_scalar_def
        split: pb_field.splits scalar.splits option.splits)
qed

lemma set_read_value:
  assumes "set_value F empty_cell dt value is_null = Inr c"
  shows "read_value F c (ts_code (specs dt)) =
    Inr (dt, canon_value F dt value is_null, is_null \<or> value = None)"
proof (cases "is_null \<or> value = None")
  case True
  with assms show ?thesis by (auto simp: set_value_def read_value_def canon_value_def)
next
  case False
  then obtain v where "value = Some v" by auto
  with assms False show ?thesis
    by (auto simp: set_value_def read_value_def canon_value_def empty_cell_def res_simps wire_roundtrip)
qed

end
