(* ===== verification/Sparkplug_Codec.thy ===== *)
theory Sparkplug_Codec
  imports Sparkplug_Types
begin

text \<open>
  Sparkplug B payloads and topics (\<open>codec.py\<close>): \<open>_encode_metric\<close> / \<open>_decode_metric\<close>,
  \<open>encode_payload\<close> / \<open>decode_payload\<close>, the birth, data and death messages, and \<open>build_topic\<close> /
  \<open>parse_topic\<close>. Serialising a protobuf message to bytes is the protobuf runtime's
  (\<open>SerializeToString\<close>, \<open>ParseFromString\<close>): the two functions \<open>ser\<close> and \<open>par\<close> are parameters,
  and the clock \<open>now_ms()\<close> is an argument.
\<close>

section \<open>Messages\<close>

type_synonym 'f properties = "(string \<times> 'f scalar option) list"

text \<open>A \<open>MetricDict\<close>; absent keys and \<open>None\<close> coincide for the codec (\<open>metric.get\<close>).\<close>

record 'f metric_dict =
  m_name :: string
  m_datatype :: string
  m_value :: "'f scalar option"
  m_timestamp :: "int option"
  m_is_null :: bool
  m_properties :: "'f properties"

record 'f pb_property =
  pp_type :: int
  pp_cell :: "'f cell"

text \<open>
  \<open>Payload.Metric\<close> of \<open>sparkplug_b.proto\<close>, the fields the codec touches; \<open>None\<close> is an optional
  field that is not set.
\<close>

record 'f pb_metric =
  pm_name :: string
  pm_datatype :: int
  pm_timestamp :: "64 word option"
  pm_cell :: "'f cell"
  pm_properties :: "(string list \<times> 'f pb_property list) option"

record 'f pb_payload =
  pl_timestamp :: "64 word option"
  pl_seq :: "64 word option"
  pl_metrics :: "'f pb_metric list"

record 'f payload_dict =
  pd_timestamp :: "int option"
  pd_seq :: "int option"
  pd_metrics :: "'f metric_dict list"

definition set_u64 :: "int \<Rightarrow> codec_error + 64 word" where
  "set_u64 i = (if 0 \<le> i \<and> i < 2 ^ 64 then Inr (word_of_int i) else Inl (FieldRange i))"

section \<open>Metrics\<close>

definition encode_property ::
  "'f float_ops \<Rightarrow> string \<times> 'f scalar option \<Rightarrow> codec_error + (string \<times> 'f pb_property)" where
  "encode_property F kv =
     (let pvalue = snd kv; pdt = infer_property_type pvalue
      in rbind (set_value F empty_cell pdt pvalue (pvalue = None))
           (\<lambda>c. Inr (fst kv, \<lparr>pp_type = ts_code (specs pdt), pp_cell = c\<rparr>)))"

definition encode_metric :: "'f float_ops \<Rightarrow> 'f metric_dict \<Rightarrow> codec_error + 'f pb_metric" where
  "encode_metric F m =
     (case data_type_of (m_datatype m) of
        None \<Rightarrow> Inl (UnknownDataType (m_datatype m))
      | Some dt \<Rightarrow>
          rbind (case m_timestamp m of None \<Rightarrow> Inr None | Some ts \<Rightarrow> rbind (set_u64 ts) (\<lambda>w. Inr (Some w)))
            (\<lambda>ts. rbind (set_value F empty_cell dt (m_value m) (m_is_null m))
              (\<lambda>c. rbind (rmap (encode_property F) (m_properties m))
                (\<lambda>ps. Inr \<lparr>pm_name = m_name m, pm_datatype = ts_code (specs dt), pm_timestamp = ts,
                   pm_cell = c,
                   pm_properties = (if ps = [] then None else Some (map fst ps, map snd ps))\<rparr>))))"

definition decode_property ::
  "'f float_ops \<Rightarrow> string \<times> 'f pb_property \<Rightarrow> codec_error + (string \<times> 'f scalar option)" where
  "decode_property F kp =
     rbind (read_value F (pp_cell (snd kp)) (pp_type (snd kp))) (\<lambda>(_, v, _). Inr (fst kp, v))"

definition decode_properties ::
  "'f float_ops \<Rightarrow> (string list \<times> 'f pb_property list) option \<Rightarrow> codec_error + 'f properties" where
  "decode_properties F ps =
     (case ps of
        None \<Rightarrow> Inr []
      | Some (ks, vs) \<Rightarrow>
          (case zip_strict ks vs of
             None \<Rightarrow> Inl PropertyMismatch
           | Some kvs \<Rightarrow> rbind (rmap (decode_property F) kvs) (\<lambda>d. Inr (dict_of d))))"

definition decode_metric :: "'f float_ops \<Rightarrow> 'f pb_metric \<Rightarrow> codec_error + 'f metric_dict" where
  "decode_metric F source =
     rbind (read_value F (pm_cell source) (pm_datatype source))
       (\<lambda>(dt, value, is_null). rbind (decode_properties F (pm_properties source))
         (\<lambda>props. Inr \<lparr>m_name = pm_name source, m_datatype = data_type_value dt, m_value = value,
            m_timestamp = map_option uint (pm_timestamp source), m_is_null = is_null,
            m_properties = props\<rparr>))"

section \<open>Payloads\<close>

definition build_payload ::
  "'f float_ops \<Rightarrow> int \<Rightarrow> 'f metric_dict list \<Rightarrow> int option \<Rightarrow> int option \<Rightarrow> codec_error + 'f pb_payload" where
  "build_payload F now metrics timestamp seq =
     rbind (set_u64 (case timestamp of None \<Rightarrow> now | Some t \<Rightarrow> t))
       (\<lambda>ts. rbind (case seq of None \<Rightarrow> Inr None
              | Some s \<Rightarrow> if 0 \<le> s \<and> s \<le> 255 then rbind (set_u64 s) (\<lambda>w. Inr (Some w)) else Inl (SeqRange s))
         (\<lambda>sq. rbind (rmap (encode_metric F) metrics)
           (\<lambda>ms. Inr \<lparr>pl_timestamp = Some ts, pl_seq = sq, pl_metrics = ms\<rparr>)))"

definition encode_payload ::
  "'f float_ops \<Rightarrow> ('f pb_payload \<Rightarrow> 'b) \<Rightarrow> int \<Rightarrow> 'f metric_dict list \<Rightarrow> int option \<Rightarrow> int option
    \<Rightarrow> codec_error + 'b" where
  "encode_payload F ser now metrics timestamp seq =
     rbind (build_payload F now metrics timestamp seq) (\<lambda>p. Inr (ser p))"

definition decode_payload ::
  "'f float_ops \<Rightarrow> ('b \<Rightarrow> 'f pb_payload option) \<Rightarrow> 'b \<Rightarrow> codec_error + 'f payload_dict" where
  "decode_payload F par data =
     (case par data of
        None \<Rightarrow> Inl BadMessage
      | Some payload \<Rightarrow>
          rbind (rmap (decode_metric F) (pl_metrics payload))
            (\<lambda>ms. Inr \<lparr>pd_timestamp = map_option uint (pl_timestamp payload),
               pd_seq = map_option uint (pl_seq payload), pd_metrics = ms\<rparr>))"

definition BDSEQ_METRIC :: string where
  "BDSEQ_METRIC = ''bdSeq''"

definition REBIRTH_METRIC :: string where
  "REBIRTH_METRIC = ''Node Control/Rebirth''"

definition bdseq_metric :: "int \<Rightarrow> int \<Rightarrow> 'f metric_dict" where
  "bdseq_metric bd_seq timestamp =
     \<lparr>m_name = BDSEQ_METRIC, m_datatype = ''Int64'', m_value = Some (SInt bd_seq),
      m_timestamp = Some timestamp, m_is_null = False, m_properties = []\<rparr>"

definition nbirth ::
  "'f float_ops \<Rightarrow> ('f pb_payload \<Rightarrow> 'b) \<Rightarrow> int \<Rightarrow> int \<Rightarrow> 'f metric_dict list \<Rightarrow> int option \<Rightarrow> codec_error + 'b" where
  "nbirth F ser now bd_seq metrics timestamp =
     (let ts = (case timestamp of None \<Rightarrow> now | Some t \<Rightarrow> t);
          control = \<lparr>m_name = REBIRTH_METRIC, m_datatype = ''Boolean'', m_value = Some (SBool False),
             m_timestamp = Some ts, m_is_null = False, m_properties = []\<rparr>
      in encode_payload F ser now ([bdseq_metric bd_seq ts, control] @ metrics) (Some ts) (Some 0))"

definition ndeath ::
  "'f float_ops \<Rightarrow> ('f pb_payload \<Rightarrow> 'b) \<Rightarrow> int \<Rightarrow> int \<Rightarrow> int option \<Rightarrow> codec_error + 'b" where
  "ndeath F ser now bd_seq timestamp =
     (let ts = (case timestamp of None \<Rightarrow> now | Some t \<Rightarrow> t)
      in encode_payload F ser now [bdseq_metric bd_seq ts] (Some ts) None)"

definition dbirth ::
  "'f float_ops \<Rightarrow> ('f pb_payload \<Rightarrow> 'b) \<Rightarrow> int \<Rightarrow> 'f metric_dict list \<Rightarrow> int \<Rightarrow> int option \<Rightarrow> codec_error + 'b" where
  "dbirth F ser now metrics seq timestamp = encode_payload F ser now metrics timestamp (Some seq)"

definition ddata ::
  "'f float_ops \<Rightarrow> ('f pb_payload \<Rightarrow> 'b) \<Rightarrow> int \<Rightarrow> 'f metric_dict list \<Rightarrow> int \<Rightarrow> int option \<Rightarrow> codec_error + 'b" where
  "ddata F ser now metrics seq timestamp = encode_payload F ser now metrics timestamp (Some seq)"

definition ddeath ::
  "'f float_ops \<Rightarrow> ('f pb_payload \<Rightarrow> 'b) \<Rightarrow> int \<Rightarrow> int \<Rightarrow> int option \<Rightarrow> codec_error + 'b" where
  "ddeath F ser now seq timestamp = encode_payload F ser now [] timestamp (Some seq)"

section \<open>What decoding gives back\<close>

definition canon_metric :: "'f float_ops \<Rightarrow> 'f metric_dict \<Rightarrow> 'f metric_dict" where
  "canon_metric F m =
     m\<lparr>m_value := canon_value F (the (data_type_of (m_datatype m))) (m_value m) (m_is_null m),
       m_is_null := m_is_null m \<or> m_value m = None\<rparr>"

lemma set_u64_Inr: "set_u64 i = Inr w \<Longrightarrow> uint w = i"
  by (auto simp: set_u64_def uint_word_of_int take_bit_int_eq_self split: if_splits)

text \<open>An inferred property type is never the lossy single-precision one.\<close>

lemma canon_property_id: "canon_value F (infer_property_type v) v False = v"
  by (auto simp: canon_value_def canon_scalar_def infer_property_type_def type_spec_of_def
      split: option.splits scalar.splits if_splits)

lemma property_roundtrip:
  assumes "encode_property F kv = Inr kp"
  shows "decode_property F kp = Inr kv"
proof -
  obtain c where c: "set_value F empty_cell (infer_property_type (snd kv)) (snd kv) (snd kv = None) = Inr c"
    and kp: "kp = (fst kv, \<lparr>pp_type = ts_code (specs (infer_property_type (snd kv))), pp_cell = c\<rparr>)"
    using assms by (auto simp: encode_property_def Let_def res_simps)
  have "canon_value F (infer_property_type (snd kv)) (snd kv) (snd kv = None) = snd kv"
    using canon_property_id [of F "snd kv"] by (cases "snd kv") (auto simp: canon_value_def)
  with set_read_value [OF c] kp show ?thesis by (simp add: decode_property_def)
qed

lemma properties_roundtrip:
  assumes "rmap (encode_property F) props = Inr ps" and "dict_ok props"
  shows "decode_properties F (if ps = [] then None else Some (map fst ps, map snd ps)) = Inr props"
proof -
  have "rmap (decode_property F) ps = Inr (map id props)"
    by (rule rmap_inverse [OF assms(1)]) (simp add: property_roundtrip)
  moreover have "zip_strict (map fst ps) (map snd ps) = Some ps"
    by (simp add: zip_strict_def zip_map_fst_snd)
  ultimately show ?thesis using assms by (auto simp: decode_properties_def res_simps)
qed

lemma metric_roundtrip:
  assumes "encode_metric F m = Inr p" and "dict_ok (m_properties m)"
  shows "decode_metric F p = Inr (canon_metric F m)"
proof -
  from assms(1) obtain dt where dt: "data_type_of (m_datatype m) = Some dt"
    by (auto simp: encode_metric_def split: option.splits)
  with assms(1) obtain ts c ps where
      ts: "(case m_timestamp m of None \<Rightarrow> Inr None | Some t \<Rightarrow> rbind (set_u64 t) (\<lambda>w. Inr (Some w))) = Inr ts"
    and c: "set_value F empty_cell dt (m_value m) (m_is_null m) = Inr c"
    and ps: "rmap (encode_property F) (m_properties m) = Inr ps"
    and p: "p = \<lparr>pm_name = m_name m, pm_datatype = ts_code (specs dt), pm_timestamp = ts, pm_cell = c,
        pm_properties = (if ps = [] then None else Some (map fst ps, map snd ps))\<rparr>"
    by (auto simp: encode_metric_def rbind_Inr_iff)
  have "map_option uint ts = m_timestamp m"
    using ts by (auto simp: res_simps dest: set_u64_Inr split: option.splits)
  with set_read_value [OF c] properties_roundtrip [OF ps assms(2)] dt p show ?thesis
    by (simp add: decode_metric_def canon_metric_def data_type_of_Some_iff)
qed

lemma build_payload_roundtrip:
  assumes "build_payload F now ms timestamp seq = Inr p" and "\<forall>m \<in> set ms. dict_ok (m_properties m)"
  shows "decode_payload F Some p =
    Inr \<lparr>pd_timestamp = Some (case timestamp of None \<Rightarrow> now | Some t \<Rightarrow> t), pd_seq = seq,
      pd_metrics = map (canon_metric F) ms\<rparr>"
proof -
  obtain ts sq pms where ts: "set_u64 (case timestamp of None \<Rightarrow> now | Some t \<Rightarrow> t) = Inr ts"
    and sq: "(case seq of None \<Rightarrow> Inr None
        | Some s \<Rightarrow> if 0 \<le> s \<and> s \<le> 255 then rbind (set_u64 s) (\<lambda>w. Inr (Some w)) else Inl (SeqRange s)) = Inr sq"
    and pms: "rmap (encode_metric F) ms = Inr pms"
    and p: "p = \<lparr>pl_timestamp = Some ts, pl_seq = sq, pl_metrics = pms\<rparr>"
    using assms(1) by (auto simp: build_payload_def rbind_Inr_iff)
  have "rmap (decode_metric F) pms = Inr (map (canon_metric F) ms)"
    by (rule rmap_inverse [OF pms]) (use assms(2) in \<open>auto intro: metric_roundtrip\<close>)
  moreover have "map_option uint sq = seq"
    using sq by (auto simp: res_simps dest: set_u64_Inr split: option.splits if_splits)
  ultimately show ?thesis using set_u64_Inr [OF ts] p by (simp add: decode_payload_def)
qed

lemma decode_payload_ser:
  assumes "par (ser p) = Some p"
  shows "decode_payload F par (ser p) = decode_payload F Some p"
  using assms by (simp add: decode_payload_def)

section \<open>Topics\<close>

datatype message_type = NBIRTH | NDEATH | NDATA | NCMD | DBIRTH | DDEATH | DDATA | DCMD

definition all_message_types :: "message_type list" where
  "all_message_types = [NBIRTH, NDEATH, NDATA, NCMD, DBIRTH, DDEATH, DDATA, DCMD]"

fun mt_value :: "message_type \<Rightarrow> string" where
  "mt_value NBIRTH = ''NBIRTH''"
| "mt_value NDEATH = ''NDEATH''"
| "mt_value NDATA = ''NDATA''"
| "mt_value NCMD = ''NCMD''"
| "mt_value DBIRTH = ''DBIRTH''"
| "mt_value DDEATH = ''DDEATH''"
| "mt_value DDATA = ''DDATA''"
| "mt_value DCMD = ''DCMD''"

definition is_device :: "message_type \<Rightarrow> bool" where
  "is_device mt = prefix ''D'' (mt_value mt)"

definition message_type_of :: "string \<Rightarrow> message_type option" where
  "message_type_of s = find (\<lambda>mt. mt_value mt = s) all_message_types"

record topic =
  t_group_id :: string
  t_message_type :: message_type
  t_edge_node_id :: string
  t_device_id :: "string option"

datatype topic_error = InvalidId string string | DeviceMismatch message_type
  | NotSparkplug string | UnknownMessageType string | MalformedTopic string

definition NAMESPACE :: string where
  "NAMESPACE = ''spBv1.0''"

definition check_id :: "string \<Rightarrow> string \<Rightarrow> topic_error + unit" where
  "check_id label value =
     (if value = [] \<or> (\<exists>c \<in> set value. c \<in> set ''/+#'') then Inl (InvalidId label value) else Inr ())"

definition build_topic ::
  "string \<Rightarrow> message_type \<Rightarrow> string \<Rightarrow> string option \<Rightarrow> topic_error + string" where
  "build_topic group_id mt edge_node_id device_id =
     rbind (check_id ''group_id'' group_id) (\<lambda>_.
     rbind (check_id ''edge_node_id'' edge_node_id) (\<lambda>_.
     if is_device mt \<noteq> (device_id \<noteq> None) then Inl (DeviceMismatch mt)
     else (let parts = [NAMESPACE, group_id, mt_value mt, edge_node_id]
           in case device_id of
                None \<Rightarrow> Inr (join_on CHR ''/'' parts)
              | Some d \<Rightarrow> rbind (check_id ''device_id'' d) (\<lambda>_. Inr (join_on CHR ''/'' (parts @ [d]))))))"

definition parse_topic :: "string \<Rightarrow> topic_error + topic" where
  "parse_topic s =
     (let parts = split_on CHR ''/'' s in
      if length parts \<notin> {4, 5} \<or> hd parts \<noteq> NAMESPACE then Inl (NotSparkplug s)
      else (case message_type_of (parts ! 2) of
              None \<Rightarrow> Inl (UnknownMessageType s)
            | Some mt \<Rightarrow>
                (let device = (if length parts = 5 then Some (parts ! 4) else None) in
                 if is_device mt \<noteq> (device \<noteq> None) \<or> \<not> (\<forall>p \<in> set (tl parts). p \<noteq> [])
                 then Inl (MalformedTopic s)
                 else Inr \<lparr>t_group_id = parts ! 1, t_message_type = mt, t_edge_node_id = parts ! 3,
                            t_device_id = device\<rparr>)))"

definition topic_str :: "topic \<Rightarrow> topic_error + string" where
  "topic_str t = build_topic (t_group_id t) (t_message_type t) (t_edge_node_id t) (t_device_id t)"

lemma message_type_of_value [simp]: "message_type_of (mt_value mt) = Some mt"
  by (cases mt) (simp_all add: message_type_of_def all_message_types_def)

lemma message_type_of_Some: "message_type_of s = Some mt \<Longrightarrow> mt_value mt = s"
  by (auto simp: message_type_of_def find_Some_iff)

lemma mt_value_no_slash [simp]: "CHR ''/'' \<notin> set (mt_value mt)"
  by (cases mt) auto

lemma namespace_no_slash [simp]: "CHR ''/'' \<notin> set NAMESPACE"
  by (simp add: NAMESPACE_def)

lemma mt_value_not_Nil [simp]: "mt_value mt \<noteq> []"
  by (cases mt) auto

lemma check_id_Inr [simp]:
  "check_id l v = Inr u \<longleftrightarrow> v \<noteq> [] \<and> CHR ''/'' \<notin> set v \<and> CHR ''+'' \<notin> set v \<and> CHR ''#'' \<notin> set v"
  by (auto simp: check_id_def)

lemma namespace_not_Nil [simp]: "NAMESPACE \<noteq> []"
  by (simp add: NAMESPACE_def)

text \<open>The parts of a built topic come back from \<open>split("/")\<close>.\<close>

lemma split_built_topic:
  assumes "CHR ''/'' \<notin> set g" and "CHR ''/'' \<notin> set e" and "\<forall>d \<in> set_option dev. CHR ''/'' \<notin> set d"
  shows "split_on CHR ''/'' (join_on CHR ''/'' ([NAMESPACE, g, mt_value mt, e] @ (case dev of None \<Rightarrow> [] | Some d \<Rightarrow> [d])))
    = [NAMESPACE, g, mt_value mt, e] @ (case dev of None \<Rightarrow> [] | Some d \<Rightarrow> [d])"
  using assms by (intro split_join) (auto split: option.splits)

lemma build_topic_Inr:
  "build_topic g mt e dev = Inr s \<longleftrightarrow>
     check_id [] g = Inr () \<and> check_id [] e = Inr () \<and> is_device mt = (dev \<noteq> None)
     \<and> (\<forall>d \<in> set_option dev. check_id [] d = Inr ())
     \<and> s = join_on CHR ''/'' ([NAMESPACE, g, mt_value mt, e] @ (case dev of None \<Rightarrow> [] | Some d \<Rightarrow> [d]))"
  unfolding build_topic_def rbind_Inr_iff Let_def
  by (cases dev) (auto simp: res_simps)

section \<open>Properties\<close>

text \<open>
  Property C10. Whatever \<open>encode_payload\<close> accepts, \<open>decode_payload\<close> gives back: the timestamp (the
  clock's when none is given), the sequence number, and every metric with its name, type, value,
  timestamp, null flag and properties, in order. The only changes are the documented ones: a value
  of a float type comes back as a float (single precision for \<open>Float\<close>), and a missing value comes
  back marked null. The protobuf runtime is assumed to parse what it serialised.
\<close>

theorem payload_roundtrip:
  assumes "\<And>p. par (ser p) = Some p"
    and "\<forall>m \<in> set ms. dict_ok (m_properties m)"
    and "encode_payload F ser now ms timestamp seq = Inr data"
  shows "decode_payload F par data =
    Inr \<lparr>pd_timestamp = Some (case timestamp of None \<Rightarrow> now | Some t \<Rightarrow> t), pd_seq = seq,
      pd_metrics = map (canon_metric F) ms\<rparr>"
proof -
  obtain p where p: "build_payload F now ms timestamp seq = Inr p" and "data = ser p"
    using assms(3) by (auto simp: encode_payload_def res_simps)
  with decode_payload_ser [of par ser p] build_payload_roundtrip [OF p assms(2)] assms(1)
  show ?thesis by simp
qed

text \<open>A float type for the witnesses: integers, with a "single precision" that drops the last bit.\<close>

abbreviation demo_floats :: "int float_ops" where
  "demo_floats \<equiv> \<lparr>f_of_int = Some, f_to_int = Some, f_single = (\<lambda>x. 2 * (x div 2))\<rparr>"

abbreviation demo_metric :: "int metric_dict" where
  "demo_metric \<equiv> \<lparr>m_name = ''temp'', m_datatype = ''Float'', m_value = Some (SInt 7), m_timestamp = None,
     m_is_null = False, m_properties = [(''engUnit'', Some (SStr ''C'')), (''Quality'', Some (SInt 192))]\<rparr>"

lemma payload_roundtrip_witness:
  "\<exists>data. encode_payload demo_floats id 7 [bdseq_metric (-3) 5, demo_metric] None (Some 255) = Inr data
     \<and> decode_payload demo_floats Some data =
       Inr \<lparr>pd_timestamp = Some 7, pd_seq = Some 255,
         pd_metrics = [bdseq_metric (-3) 5, demo_metric\<lparr>m_value := Some (SFloat 6)\<rparr>]\<rparr>"
proof -
  let ?ms = "[bdseq_metric (-3) 5, demo_metric]"
  have ok: "\<forall>m \<in> set ?ms. dict_ok (m_properties m)"
    by (simp add: bdseq_metric_def dict_ok_def)
  have "\<exists>data. encode_payload demo_floats id 7 ?ms None (Some 255) = Inr data"
    by (simp add: encode_payload_def build_payload_def set_u64_def encode_metric_def bdseq_metric_def
        data_type_of_def all_data_types_def set_value_def to_wire_def type_spec_of_def int_bounds_def
        set_field_def encode_property_def infer_property_type_def)
  then obtain data where data: "encode_payload demo_floats id 7 ?ms None (Some 255) = Inr data" ..
  have "map (canon_metric demo_floats) ?ms = [bdseq_metric (-3) 5, demo_metric\<lparr>m_value := Some (SFloat 6)\<rparr>]"
    by (simp add: canon_metric_def canon_value_def canon_scalar_def bdseq_metric_def data_type_of_def
        all_data_types_def type_spec_of_def)
  with data payload_roundtrip [OF _ ok data, of Some] show ?thesis by auto
qed

text \<open>
  A metric value of an integer type is accepted exactly when it is an integer (not a
  boolean, float or string) of the type's range, signed or unsigned at its width; nothing is
  wrapped or truncated on the way out.
\<close>

theorem integer_accept_iff:
  assumes "ts_bits (specs dt) = Some bits"
  shows "(\<exists>c. set_value F empty_cell dt (Some v) False = Inr c) \<longleftrightarrow>
    (\<exists>i. v = SInt i \<and> fst (int_bounds bits (ts_signed (specs dt))) \<le> i
        \<and> i < snd (int_bounds bits (ts_signed (specs dt))))"
  using assms
  by (cases dt; cases v)
    (auto simp: set_value_def to_wire_def type_spec_of_def int_bounds_def set_field_def Let_def)

lemma integer_accept_iff_witness:
  "(\<exists>c. set_value demo_floats empty_cell DInt8 (Some (SInt (-128))) False = Inr c)
   \<and> \<not> (\<exists>c. set_value demo_floats empty_cell DInt8 (Some (SInt 128)) False = Inr c)
   \<and> \<not> (\<exists>c. set_value demo_floats empty_cell DInt8 (Some (SBool True)) False = Inr c)"
proof -
  have bits: "ts_bits (specs DInt8) = Some 8" by (simp add: type_spec_of_def)
  show ?thesis
    by (simp add: integer_accept_iff [OF bits] type_spec_of_def int_bounds_def)
qed

text \<open>
  Reading a signed integer metric yields a value of the type's range whatever the wire
  holds: an encoder that sign-extends a narrow integer to 32 bits, or leaves garbage in the high
  bits, cannot push a value out of \<open>-2^(bits-1) .. 2^(bits-1) - 1\<close>.
\<close>

theorem signed_read_in_range:
  assumes "read_value F c code = Inr (dt, Some v, is_null)"
    and "ts_bits (specs dt) = Some bits" and "ts_signed (specs dt)"
  shows "\<exists>i. v = SInt i \<and> - (2 ^ (bits - 1)) \<le> i \<and> i < 2 ^ (bits - 1)"
proof -
  from assms(1) obtain p where "from_wire F dt (get_field p) = Inr v"
    by (auto simp: read_value_def res_simps split: option.splits if_splits)
  with assms(2,3) obtain r where "v = SInt (sign_extend bits r)"
    by (auto simp: from_wire_def res_simps)
  with sign_extend_range [OF specs_bits_pos [OF assms(2)]] show ?thesis by blast
qed

lemma signed_read_in_range_witness:
  "read_value demo_floats (empty_cell\<lparr>c_value := Some (PbInt 0xFFFFFFFB)\<rparr>) 1 = Inr (DInt8, Some (SInt (-5)), False)
   \<and> (\<exists>i. SInt (-5) = (SInt i :: int scalar) \<and> -128 \<le> i \<and> i < 128)"
proof -
  have r: "read_value demo_floats (empty_cell\<lparr>c_value := Some (PbInt 0xFFFFFFFB)\<rparr>) 1 = Inr (DInt8, Some (SInt (-5)), False)"
    by (simp add: read_value_def by_code_def all_data_types_def type_spec_of_def empty_cell_def
        from_wire_def get_field_def py_int_def sign_extend_def take_bit_eq_mod)
  then show ?thesis
    using signed_read_in_range [OF r, of 8] by (simp add: type_spec_of_def)
qed

text \<open>
  Every topic \<open>build_topic\<close> produces is parsed back to the group, message type, edge
  node and device it was built from.
\<close>

theorem topic_roundtrip:
  assumes "build_topic g mt e dev = Inr s"
  shows "parse_topic s =
    Inr \<lparr>t_group_id = g, t_message_type = mt, t_edge_node_id = e, t_device_id = dev\<rparr>"
proof -
  from assms have "split_on CHR ''/'' s = [NAMESPACE, g, mt_value mt, e] @ (case dev of None \<Rightarrow> [] | Some d \<Rightarrow> [d])"
    using split_built_topic [of g e dev mt] by (auto simp: build_topic_Inr)
  with assms show ?thesis
    by (auto simp: parse_topic_def build_topic_Inr Let_def split: option.splits)
qed

lemma topic_roundtrip_witness:
  "build_topic ''plant-01'' DDATA ''line-a'' (Some ''cnc-01'') = Inr ''spBv1.0/plant-01/DDATA/line-a/cnc-01''
   \<and> parse_topic ''spBv1.0/plant-01/DDATA/line-a/cnc-01'' =
     Inr \<lparr>t_group_id = ''plant-01'', t_message_type = DDATA, t_edge_node_id = ''line-a'', t_device_id = Some ''cnc-01''\<rparr>"
proof -
  have b: "build_topic ''plant-01'' DDATA ''line-a'' (Some ''cnc-01'') = Inr ''spBv1.0/plant-01/DDATA/line-a/cnc-01''"
    by (simp add: build_topic_def is_device_def NAMESPACE_def check_id_def)
  with topic_roundtrip [OF b] show ?thesis by simp
qed

text \<open>
  Parsing loses nothing: an accepted topic string is exactly the parsed parts joined
  with slashes, so two accepted topics with the same parts are the same string; and when its ids
  hold no MQTT wildcard, building the topic from the parts gives the string back.
\<close>

theorem parse_topic_exact:
  assumes "parse_topic s = Inr t"
  shows "s = join_on CHR ''/'' ([NAMESPACE, t_group_id t, mt_value (t_message_type t), t_edge_node_id t]
      @ (case t_device_id t of None \<Rightarrow> [] | Some d \<Rightarrow> [d]))
    \<and> (CHR ''+'' \<notin> set s \<and> CHR ''#'' \<notin> set s \<longrightarrow> topic_str t = Inr s)"
proof -
  obtain ps where ps: "split_on CHR ''/'' s = ps" by simp
  then have s: "s = join_on CHR ''/'' ps" using join_split by metis
  have parts: "\<forall>p \<in> set ps. CHR ''/'' \<notin> set p" using ps split_on_parts by metis
  have sub: "\<forall>p \<in> set ps. set p \<subseteq> set s"
    unfolding s by (simp add: join_on_sub)
  from assms ps have len: "length ps = 4 \<or> length ps = 5" by (auto simp: parse_topic_def Let_def split: if_splits)
  with assms ps have shape: "ps = [NAMESPACE, t_group_id t, mt_value (t_message_type t), t_edge_node_id t]
      @ (case t_device_id t of None \<Rightarrow> [] | Some d \<Rightarrow> [d])"
    by (auto simp: parse_topic_def Let_def length_Suc_conv numeral_eq_Suc dest!: message_type_of_Some
        split: if_splits option.splits)
  have "is_device (t_message_type t) = (t_device_id t \<noteq> None) \<and> (\<forall>p \<in> set (tl ps). p \<noteq> [])"
    using assms ps by (auto simp: parse_topic_def Let_def split: if_splits option.splits)
  with shape parts sub s show ?thesis
    by (auto simp: topic_str_def build_topic_Inr split: option.splits)
qed

lemma parse_topic_exact_witness:
  "parse_topic ''spBv1.0/p/NCMD/line'' =
     Inr \<lparr>t_group_id = ''p'', t_message_type = NCMD, t_edge_node_id = ''line'', t_device_id = None\<rparr>
   \<and> topic_str \<lparr>t_group_id = ''p'', t_message_type = NCMD, t_edge_node_id = ''line'', t_device_id = None\<rparr> =
     Inr ''spBv1.0/p/NCMD/line''"
proof -
  have p: "parse_topic ''spBv1.0/p/NCMD/line'' =
      Inr \<lparr>t_group_id = ''p'', t_message_type = NCMD, t_edge_node_id = ''line'', t_device_id = None\<rparr>"
    by (simp add: parse_topic_def is_device_def NAMESPACE_def message_type_of_def all_message_types_def)
  with parse_topic_exact [OF p] show ?thesis by simp
qed

end
