(* ===== verification/Sparkplug_Node.thy ===== *)
theory Sparkplug_Node
  imports Sparkplug_Codec "HOL-Library.List_Lexorder" "HOL-Library.Char_ord"
begin

text \<open>
  \<open>SparkplugEdgeNode\<close> of \<open>apps/simulator/sim/publisher.py\<close>: the birth/death state machine of one edge
  node, its sequence numbers, and the metrics it publishes. The MQTT client is the environment: its
  connection flag, the will it registered and the messages handed to it are fields of the state.
  Clock readings are arguments. An exception inside a handler keeps the state reached so far.
\<close>

section \<open>Metrics of a device\<close>

record metric_def =
  md_name :: string
  md_datatype :: string
  md_unit :: string

type_synonym 'f dev_values = "(string \<times> 'f scalar option) list"
type_synonym jitter = "(string \<times> int) list"

definition GOOD_QUALITY :: int where
  "GOOD_QUALITY = 192"

definition BAD_QUALITY :: int where
  "BAD_QUALITY = 0"

definition build_metrics ::
  "metric_def list \<Rightarrow> 'f dev_values \<Rightarrow> jitter \<Rightarrow> int \<Rightarrow> bool \<Rightarrow> 'f metric_dict list" where
  "build_metrics defs values jitter_ms ts birth =
     map (\<lambda>d.
       let value = (case map_of values (md_name d) of None \<Rightarrow> None | Some v \<Rightarrow> v);
           eng = (if birth \<and> md_unit d \<noteq> [] then [(''engUnit'', Some (SStr (md_unit d)))] else []);
           quality = (if value = None then [(''Quality'', Some (SInt BAD_QUALITY))]
                      else if birth then [(''Quality'', Some (SInt GOOD_QUALITY))] else [])
       in \<lparr>m_name = md_name d, m_datatype = md_datatype d, m_value = value,
           m_timestamp = Some (ts + (case map_of jitter_ms (md_name d) of None \<Rightarrow> 0 | Some j \<Rightarrow> j)),
           m_is_null = False, m_properties = eng @ quality\<rparr>) defs"

section \<open>State\<close>

datatype 'f sp_msg =
    NBirthMsg int
  | NDeathMsg int
  | DBirthMsg string "'f metric_dict list" int
  | DDataMsg string "'f metric_dict list" int
  | DDeathMsg string int

datatype node_error = TopicError topic_error | CodecError codec_error | KeyErr string

record ('f, 'b) edge_node =
  group_id :: string
  edge_node_id :: string
  defs :: "(string \<times> metric_def list) list"
  last_values :: "(string \<times> ('f dev_values \<times> jitter)) list"
  born :: "string list"
  bd_seq :: int
  seq :: int
  connected :: bool
  will :: "(int \<times> string \<times> 'b) option"         \<comment> \<open>the will set on the client, with its bdSeq\<close>
  broker_will :: "(int \<times> string \<times> 'b) option"  \<comment> \<open>the will the broker holds for the session\<close>
  sent :: "('f sp_msg \<times> string \<times> 'b) list"

type_synonym ('f, 'b) step_result = "('f, 'b) edge_node \<times> node_error option"

text \<open>Statement sequencing: the second statement runs only when the first did not raise.\<close>

definition and_then ::
  "('f, 'b) step_result \<Rightarrow> (('f, 'b) edge_node \<Rightarrow> ('f, 'b) step_result) \<Rightarrow> ('f, 'b) step_result" where
  "and_then r f = (case snd r of None \<Rightarrow> f (fst r) | Some e \<Rightarrow> r)"

definition node_topic :: "('f, 'b) edge_node \<Rightarrow> message_type \<Rightarrow> string option \<Rightarrow> node_error + string" where
  "node_topic n mt device =
     (case build_topic (group_id n) mt (edge_node_id n) device of
        Inl e \<Rightarrow> Inl (TopicError e) | Inr t \<Rightarrow> Inr t)"

definition lift_codec :: "codec_error + 'b \<Rightarrow> node_error + 'b" where
  "lift_codec r = (case r of Inl e \<Rightarrow> Inl (CodecError e) | Inr b \<Rightarrow> Inr b)"

definition publish :: "'f sp_msg \<Rightarrow> string \<Rightarrow> 'b \<Rightarrow> ('f, 'b) edge_node \<Rightarrow> ('f, 'b) edge_node" where
  "publish msg topic payload n = n\<lparr>sent := sent n @ [(msg, topic, payload)]\<rparr>"

definition send ::
  "'f sp_msg \<Rightarrow> node_error + string \<Rightarrow> node_error + 'b \<Rightarrow> ('f, 'b) edge_node \<Rightarrow> ('f, 'b) step_result" where
  "send msg topic payload n =
     (case topic of Inl e \<Rightarrow> (n, Some e)
      | Inr t \<Rightarrow> (case payload of Inl e \<Rightarrow> (n, Some e) | Inr b \<Rightarrow> (publish msg t b n, None)))"

section \<open>Operations\<close>

definition set_will ::
  "'f float_ops \<Rightarrow> ('f pb_payload \<Rightarrow> 'b) \<Rightarrow> int \<Rightarrow> ('f, 'b) edge_node \<Rightarrow> ('f, 'b) step_result" where
  "set_will F ser now n =
     (case node_topic n NDEATH None of
        Inl e \<Rightarrow> (n, Some e)
      | Inr t \<Rightarrow> (case lift_codec (ndeath F ser now (bd_seq n) None) of
            Inl e \<Rightarrow> (n, Some e)
          | Inr b \<Rightarrow> (n\<lparr>will := Some (bd_seq n, t, b)\<rparr>, None)))"

definition new_node ::
  "'f float_ops \<Rightarrow> ('f pb_payload \<Rightarrow> 'b) \<Rightarrow> int \<Rightarrow> string \<Rightarrow> string \<Rightarrow> ('f, 'b) step_result" where
  "new_node F ser now g e =
     set_will F ser now \<lparr>group_id = g, edge_node_id = e, defs = [], last_values = [], born = [],
       bd_seq = 0, seq = 0, connected = False, will = None, broker_will = None, sent = []\<rparr>"

definition next_seq :: "('f, 'b) edge_node \<Rightarrow> ('f, 'b) edge_node" where
  "next_seq n = n\<lparr>seq := (seq n + 1) mod 256\<rparr>"

definition add_device :: "string \<Rightarrow> metric_def list \<Rightarrow> ('f, 'b) edge_node \<Rightarrow> ('f, 'b) edge_node" where
  "add_device device ds n = n\<lparr>defs := dict_put device ds (defs n)\<rparr>"

definition publish_dbirth ::
  "'f float_ops \<Rightarrow> ('f pb_payload \<Rightarrow> 'b) \<Rightarrow> int \<Rightarrow> string \<Rightarrow> ('f, 'b) edge_node \<Rightarrow> ('f, 'b) step_result" where
  "publish_dbirth F ser now device n =
     (case (map_of (last_values n) device, map_of (defs n) device) of
        (Some (values, jit), Some ds) \<Rightarrow>
          (let metrics = build_metrics ds values jit now True in
           case node_topic n DBIRTH (Some device) of
             Inl e \<Rightarrow> (n, Some e)
           | Inr t \<Rightarrow>
               (let n' = next_seq n in
                and_then
                  (send (DBirthMsg device metrics (seq n')) (Inr t)
                     (lift_codec (dbirth F ser now metrics (seq n') None)) n')
                  (\<lambda>n''. (n''\<lparr>born := List.insert device (born n'')\<rparr>, None))))
      | _ \<Rightarrow> (n, Some (KeyErr device)))"

definition publish_device ::
  "'f float_ops \<Rightarrow> ('f pb_payload \<Rightarrow> 'b) \<Rightarrow> int \<Rightarrow> string \<Rightarrow> 'f dev_values \<Rightarrow> jitter
    \<Rightarrow> ('f, 'b) edge_node \<Rightarrow> ('f, 'b) step_result" where
  "publish_device F ser now device values jit n0 =
     (let n = n0\<lparr>last_values := dict_put device (values, jit) (last_values n0)\<rparr> in
      if \<not> connected n then (n, None)
      else if device \<notin> set (born n) then publish_dbirth F ser now device n
      else (case map_of (defs n) device of
              None \<Rightarrow> (n, Some (KeyErr device))
            | Some ds \<Rightarrow>
                (let metrics = build_metrics ds values jit now False; n' = next_seq n in
                 case lift_codec (ddata F ser now metrics (seq n') None) of
                   Inl e \<Rightarrow> (n', Some e)
                 | Inr b \<Rightarrow> send (DDataMsg device metrics (seq n')) (node_topic n' DDATA (Some device)) (Inr b) n')))"

fun birth_all ::
  "'f float_ops \<Rightarrow> ('f pb_payload \<Rightarrow> 'b) \<Rightarrow> int \<Rightarrow> string list \<Rightarrow> ('f, 'b) edge_node \<Rightarrow> ('f, 'b) step_result" where
  "birth_all F ser now [] n = (n, None)"
| "birth_all F ser now (d # ds) n = and_then (publish_dbirth F ser now d n) (birth_all F ser now ds)"

definition rebirth ::
  "'f float_ops \<Rightarrow> ('f pb_payload \<Rightarrow> 'b) \<Rightarrow> int \<Rightarrow> ('f, 'b) edge_node \<Rightarrow> ('f, 'b) step_result" where
  "rebirth F ser now n0 =
     (let n = n0\<lparr>seq := 0\<rparr> in
      and_then
        (send (NBirthMsg (bd_seq n)) (node_topic n NBIRTH None)
           (lift_codec (nbirth F ser now (bd_seq n) [] None)) n)
        (\<lambda>n'. let n'' = n'\<lparr>born := []\<rparr> in birth_all F ser now (dict_keys (last_values n'')) n''))"

fun death_all ::
  "'f float_ops \<Rightarrow> ('f pb_payload \<Rightarrow> 'b) \<Rightarrow> int \<Rightarrow> string list \<Rightarrow> ('f, 'b) edge_node \<Rightarrow> ('f, 'b) step_result" where
  "death_all F ser now [] n = (n, None)"
| "death_all F ser now (d # ds) n =
     (case node_topic n DDEATH (Some d) of
        Inl e \<Rightarrow> (n, Some e)
      | Inr t \<Rightarrow>
          (let n' = next_seq n in
           and_then (send (DDeathMsg d (seq n')) (Inr t) (lift_codec (ddeath F ser now (seq n') None)) n')
             (death_all F ser now ds)))"

text \<open>
  \<open>stop\<close>: a clean MQTT disconnect follows, after which the client no longer reports a connection and
  the broker drops the will.
\<close>

definition stop ::
  "'f float_ops \<Rightarrow> ('f pb_payload \<Rightarrow> 'b) \<Rightarrow> int \<Rightarrow> ('f, 'b) edge_node \<Rightarrow> ('f, 'b) step_result" where
  "stop F ser now n =
     (if connected n then
        and_then (death_all F ser now (sort (born n)) n)
          (\<lambda>n'. and_then (send (NDeathMsg (bd_seq n')) (node_topic n' NDEATH None)
                   (lift_codec (ndeath F ser now (bd_seq n') None)) n')
             (\<lambda>n''. (n''\<lparr>born := [], connected := False, broker_will := None\<rparr>, None)))
      else (n, None))"

definition on_connect ::
  "'f float_ops \<Rightarrow> ('f pb_payload \<Rightarrow> 'b) \<Rightarrow> int \<Rightarrow> bool \<Rightarrow> ('f, 'b) edge_node \<Rightarrow> ('f, 'b) step_result" where
  "on_connect F ser now is_failure n = (if is_failure then (n, None) else rebirth F ser now n)"

definition on_disconnect ::
  "'f float_ops \<Rightarrow> ('f pb_payload \<Rightarrow> 'b) \<Rightarrow> int \<Rightarrow> ('f, 'b) edge_node \<Rightarrow> ('f, 'b) step_result" where
  "on_disconnect F ser now n = set_will F ser now (n\<lparr>born := [], bd_seq := (bd_seq n + 1) mod 256\<rparr>)"

definition wants_rebirth :: "'f metric_dict list \<Rightarrow> bool" where
  "wants_rebirth ms = (\<exists>m \<in> set ms. m_name m = REBIRTH_METRIC \<and> m_value m = Some (SBool True))"

definition on_message ::
  "'f float_ops \<Rightarrow> ('f pb_payload \<Rightarrow> 'b) \<Rightarrow> ('b \<Rightarrow> 'f pb_payload option) \<Rightarrow> int \<Rightarrow> 'b
    \<Rightarrow> ('f, 'b) edge_node \<Rightarrow> ('f, 'b) step_result" where
  "on_message F ser par now payload n =
     (case decode_payload F par payload of
        Inl _ \<Rightarrow> (n, None)
      | Inr pd \<Rightarrow> if wants_rebirth (pd_metrics pd) then rebirth F ser now n else (n, None))"

section \<open>The receiving side\<close>

text \<open>
  A Sparkplug host following one edge node: it accepts a device message only from a live node, with
  the next sequence number modulo 256, and data or a death only from a device born since the last
  NBIRTH; it accepts an NDEATH only with the bdSeq of the NBIRTH it ends.
\<close>

record host =
  h_alive :: bool
  h_bd :: int
  h_seq :: int
  h_born :: "string set"

fun host_step :: "host \<Rightarrow> 'f sp_msg \<Rightarrow> host option" where
  "host_step h (NBirthMsg bd) = Some \<lparr>h_alive = True, h_bd = bd, h_seq = 0, h_born = {}\<rparr>"
| "host_step h (NDeathMsg bd) =
     (if h_alive h \<and> bd = h_bd h then Some (h\<lparr>h_alive := False, h_born := {}\<rparr>) else None)"
| "host_step h (DBirthMsg d ms q) =
     (if h_alive h \<and> q = (h_seq h + 1) mod 256
      then Some (h\<lparr>h_seq := q, h_born := insert d (h_born h)\<rparr>) else None)"
| "host_step h (DDataMsg d ms q) =
     (if h_alive h \<and> q = (h_seq h + 1) mod 256 \<and> d \<in> h_born h then Some (h\<lparr>h_seq := q\<rparr>) else None)"
| "host_step h (DDeathMsg d q) =
     (if h_alive h \<and> q = (h_seq h + 1) mod 256 \<and> d \<in> h_born h
      then Some (h\<lparr>h_seq := q, h_born := h_born h - {d}\<rparr>) else None)"

fun host_run :: "host \<Rightarrow> 'f sp_msg list \<Rightarrow> host option" where
  "host_run h [] = Some h"
| "host_run h (m # ms) = (case host_step h m of None \<Rightarrow> None | Some h' \<Rightarrow> host_run h' ms)"

definition host_init :: host where
  "host_init = \<lparr>h_alive = False, h_bd = 0, h_seq = 0, h_born = {}\<rparr>"

lemma host_run_append:
  "host_run h (xs @ ys) = (case host_run h xs of None \<Rightarrow> None | Some h' \<Rightarrow> host_run h' ys)"
  by (induction xs arbitrary: h) (auto split: option.splits)

section \<open>The node in its environment\<close>

text \<open>
  The MQTT client connects, calls \<open>_on_connect\<close>, loses the connection or is stopped, calls
  \<open>_on_disconnect\<close> before it connects again, and hands over messages; the simulation loop publishes.
  On an ungraceful loss the broker publishes the will it holds. \<open>Up\<close> is a session whose
  \<open>_on_connect\<close> has run, \<open>Closing\<close> one whose \<open>_on_disconnect\<close> has not run yet.
\<close>

datatype phase = Idle | Up | Closing

definition lost :: "('f, 'b) edge_node \<Rightarrow> ('f, 'b) edge_node" where
  "lost n = (case broker_will n of
       None \<Rightarrow> n\<lparr>connected := False\<rparr>
     | Some (bd, t, b) \<Rightarrow> (publish (NDeathMsg bd) t b n)\<lparr>connected := False, broker_will := None\<rparr>)"

inductive node_reach ::
  "'f float_ops \<Rightarrow> ('f pb_payload \<Rightarrow> 'b) \<Rightarrow> ('b \<Rightarrow> 'f pb_payload option) \<Rightarrow> phase \<Rightarrow> ('f, 'b) edge_node \<Rightarrow> bool"
  for F ser par
where
  create: "new_node F ser now g e = (n, None) \<Longrightarrow> node_reach F ser par Idle n"
| device: "node_reach F ser par ph n \<Longrightarrow> node_reach F ser par ph (add_device d ds n)"
| connect: "node_reach F ser par Idle n \<Longrightarrow>
     on_connect F ser now False (n\<lparr>connected := True, broker_will := will n\<rparr>) = (n', None) \<Longrightarrow>
     node_reach F ser par Up n'"
| data: "node_reach F ser par ph n \<Longrightarrow> publish_device F ser now d vs jit n = (n', None) \<Longrightarrow>
     node_reach F ser par ph n'"
| command: "node_reach F ser par Up n \<Longrightarrow> on_message F ser par now payload n = (n', None) \<Longrightarrow>
     node_reach F ser par Up n'"
| loss: "node_reach F ser par Up n \<Longrightarrow> node_reach F ser par Closing (lost n)"
| stopped: "node_reach F ser par Up n \<Longrightarrow> stop F ser now n = (n', None) \<Longrightarrow> node_reach F ser par Closing n'"
| disconnect: "node_reach F ser par Closing n \<Longrightarrow> on_disconnect F ser now n = (n', None) \<Longrightarrow>
     node_reach F ser par Idle n'"

section \<open>Invariant\<close>

definition msgs :: "('f, 'b) edge_node \<Rightarrow> 'f sp_msg list" where
  "msgs n = map fst (sent n)"

text \<open>The host's view of the messages sent so far agrees with the node's own fields.\<close>

definition in_step :: "host \<Rightarrow> ('f, 'b) edge_node \<Rightarrow> bool" where
  "in_step h n \<longleftrightarrow> host_run host_init (msgs n) = Some h \<and> h_alive h \<and> h_bd h = bd_seq n
     \<and> h_seq h = seq n \<and> h_born h = set (born n) \<and> distinct (born n)"

definition frame :: "('f, 'b) edge_node \<Rightarrow> bool \<times> (int \<times> string \<times> 'b) option \<times> (int \<times> string \<times> 'b) option \<times> int" where
  "frame n = (connected n, will n, broker_will n, bd_seq n)"

lemma and_then_None [res_simps]:
  "and_then r f = (n', None) \<longleftrightarrow> (\<exists>n. r = (n, None) \<and> f n = (n', None))"
  by (cases r) (auto simp: and_then_def split: option.splits)

lemma send_None [res_simps]:
  "send m t p n = (n', None) \<longleftrightarrow> (\<exists>t' b. t = Inr t' \<and> p = Inr b \<and> n' = publish m t' b n)"
  by (auto simp: send_def split: sum.splits)

lemma msgs_publish [simp]: "msgs (publish m t b n) = msgs n @ [m]"
  by (simp add: msgs_def publish_def)

lemma publish_fields [simp]:
  "frame (publish m t b n) = frame n" "seq (publish m t b n) = seq n" "born (publish m t b n) = born n"
  "bd_seq (publish m t b n) = bd_seq n" "connected (publish m t b n) = connected n"
  "last_values (publish m t b n) = last_values n" "will (publish m t b n) = will n"
  "broker_will (publish m t b n) = broker_will n"
  by (simp_all add: publish_def frame_def)

lemma next_seq_fields [simp]:
  "frame (next_seq n) = frame n" "msgs (next_seq n) = msgs n" "born (next_seq n) = born n"
  "bd_seq (next_seq n) = bd_seq n" "seq (next_seq n) = (seq n + 1) mod 256" "connected (next_seq n) = connected n"
  by (simp_all add: next_seq_def frame_def msgs_def)

lemma frame_upd [simp]:
  "frame (n\<lparr>born := b\<rparr>) = frame n" "frame (n\<lparr>seq := q\<rparr>) = frame n"
  "frame (n\<lparr>last_values := l\<rparr>) = frame n" "frame (n\<lparr>defs := ds\<rparr>) = frame n"
  "msgs (n\<lparr>born := b\<rparr>) = msgs n" "msgs (n\<lparr>seq := q\<rparr>) = msgs n"
  "msgs (n\<lparr>last_values := l\<rparr>) = msgs n" "msgs (n\<lparr>defs := ds\<rparr>) = msgs n"
  "msgs (n\<lparr>connected := c\<rparr>) = msgs n" "msgs (n\<lparr>will := w\<rparr>) = msgs n"
  "msgs (n\<lparr>broker_will := w\<rparr>) = msgs n" "msgs (n\<lparr>bd_seq := q\<rparr>) = msgs n"
  by (simp_all add: frame_def msgs_def)

lemma publish_dbirth_in_step:
  assumes "in_step h n" and "publish_dbirth F ser now d n = (n', None)"
  shows "(\<exists>h'. in_step h' n') \<and> frame n' = frame n"
  using assms
  by (auto simp: publish_dbirth_def in_step_def res_simps host_run_append Let_def distinct_insert
      split: option.splits sum.splits)

lemma birth_all_in_step:
  "in_step h n \<Longrightarrow> birth_all F ser now ds n = (n', None) \<Longrightarrow> (\<exists>h'. in_step h' n') \<and> frame n' = frame n"
proof (induction ds arbitrary: h n)
  case Nil
  then show ?case by auto
next
  case (Cons d ds)
  from Cons.prems(2) obtain m where m: "publish_dbirth F ser now d n = (m, None)"
    and rest: "birth_all F ser now ds m = (n', None)"
    by (auto simp: res_simps)
  from publish_dbirth_in_step [OF Cons.prems(1) m] obtain h' where "in_step h' m" and "frame m = frame n"
    by auto
  with Cons.IH rest show ?case by metis
qed

text \<open>A rebirth brings the node in step whatever the host thought of it before.\<close>

lemma rebirth_in_step:
  assumes "host_run host_init (msgs n) = Some h0" and "rebirth F ser now n = (n', None)"
  shows "(\<exists>h. in_step h n') \<and> frame n' = frame n"
proof -
  from assms(2) obtain t b where all: "birth_all F ser now (dict_keys (last_values n))
      ((publish (NBirthMsg (bd_seq n)) t b (n\<lparr>seq := 0\<rparr>))\<lparr>born := []\<rparr>) = (n', None)"
    by (auto simp: rebirth_def res_simps Let_def)
  have "in_step \<lparr>h_alive = True, h_bd = bd_seq n, h_seq = 0, h_born = {}\<rparr>
      ((publish (NBirthMsg (bd_seq n)) t b (n\<lparr>seq := 0\<rparr>))\<lparr>born := []\<rparr>)"
    using assms(1) by (simp add: in_step_def host_run_append)
  from birth_all_in_step [OF this all] show ?thesis by simp
qed

lemma publish_device_in_step:
  assumes "in_step h n" and "publish_device F ser now d vs jit n = (n', None)"
  shows "(\<exists>h'. in_step h' n') \<and> frame n' = frame n"
proof -
  let ?n = "n\<lparr>last_values := dict_put d (vs, jit) (last_values n)\<rparr>"
  have n: "in_step h ?n" using assms(1) by (simp add: in_step_def)
  consider "\<not> connected n" | "connected n" "d \<notin> set (born n)" | "connected n" "d \<in> set (born n)" by blast
  then show ?thesis
  proof cases
    case 1
    with assms(2) n show ?thesis by (auto simp: publish_device_def Let_def)
  next
    case 2
    with assms(2) have "publish_dbirth F ser now d ?n = (n', None)" by (simp add: publish_device_def Let_def)
    from publish_dbirth_in_step [OF n this] show ?thesis by simp
  next
    case 3
    with assms(2) n show ?thesis
      by (auto simp: publish_device_def in_step_def res_simps host_run_append Let_def
          split: option.splits sum.splits)
  qed
qed

lemma publish_device_offline:
  "\<not> connected n \<Longrightarrow> publish_device F ser now d vs jit n =
     (n\<lparr>last_values := dict_put d (vs, jit) (last_values n)\<rparr>, None)"
  by (simp add: publish_device_def Let_def)

lemma death_all_run:
  "death_all F ser now ds n = (n', None) \<Longrightarrow> host_run host_init (msgs n) = Some h \<Longrightarrow> h_alive h \<Longrightarrow>
    h_seq h = seq n \<Longrightarrow> distinct ds \<Longrightarrow> set ds \<subseteq> h_born h \<Longrightarrow>
    \<exists>h'. host_run host_init (msgs n') = Some h' \<and> h_alive h' \<and> h_bd h' = h_bd h \<and> frame n' = frame n"
proof (induction ds arbitrary: h n)
  case Nil
  then show ?case by auto
next
  case (Cons d ds)
  from Cons.prems(1) obtain t b where
    rest: "death_all F ser now ds (publish (DDeathMsg d (seq (next_seq n))) t b (next_seq n)) = (n', None)"
    by (auto simp: res_simps Let_def split: sum.splits)
  let ?h = "h\<lparr>h_seq := (seq n + 1) mod 256, h_born := h_born h - {d}\<rparr>"
  have run: "host_run host_init (msgs (publish (DDeathMsg d (seq (next_seq n))) t b (next_seq n))) = Some ?h"
    using Cons.prems by (simp add: host_run_append)
  have sub: "set ds \<subseteq> h_born ?h" using Cons.prems by auto
  from Cons.IH [OF rest run _ _ _ sub] Cons.prems show ?case by auto
qed

lemma stop_run:
  assumes "in_step h n" and "connected n" and "stop F ser now n = (n', None)"
  shows "(\<exists>h'. host_run host_init (msgs n') = Some h') \<and> \<not> connected n'"
proof -
  from assms(2,3) obtain n1 t b where d: "death_all F ser now (sort (born n)) n = (n1, None)"
    and n': "n' = (publish (NDeathMsg (bd_seq n1)) t b n1)\<lparr>born := [], connected := False, broker_will := None\<rparr>"
    by (auto simp: stop_def res_simps)
  from death_all_run [OF d] assms(1) obtain h1 where
    "host_run host_init (msgs n1) = Some h1" "h_alive h1" "h_bd h1 = h_bd h" "frame n1 = frame n"
    by (auto simp: in_step_def)
  with assms(1) n' show ?thesis by (auto simp: host_run_append frame_def in_step_def)
qed

lemma lost_run:
  assumes "in_step h n" and "broker_will n = Some (bd_seq n, t, b)"
  shows "(\<exists>h'. host_run host_init (msgs (lost n)) = Some h') \<and> \<not> connected (lost n)"
  using assms by (auto simp: lost_def in_step_def host_run_append)

lemma set_will_None:
  "set_will F ser now n = (n', None) \<Longrightarrow> \<exists>t b. n' = n\<lparr>will := Some (bd_seq n, t, b)\<rparr>"
  by (auto simp: set_will_def split: sum.splits)

definition node_inv :: "phase \<Rightarrow> ('f, 'b) edge_node \<Rightarrow> bool" where
  "node_inv ph n =
     (case ph of
        Up \<Rightarrow> (\<exists>h. in_step h n) \<and> connected n \<and> (\<exists>t b. will n = Some (bd_seq n, t, b)) \<and> broker_will n = will n
      | Closing \<Rightarrow> (\<exists>h. host_run host_init (msgs n) = Some h) \<and> \<not> connected n
      | Idle \<Rightarrow> (\<exists>h. host_run host_init (msgs n) = Some h) \<and> \<not> connected n
          \<and> (\<exists>t b. will n = Some (bd_seq n, t, b)))"

lemma node_inv_run: "node_inv ph n \<Longrightarrow> \<exists>h. host_run host_init (msgs n) = Some h"
  by (auto simp: node_inv_def in_step_def split: phase.splits)

lemma node_inv_frame_Up:
  assumes "node_inv Up n" and "\<exists>h. in_step h n'" and "frame n' = frame n"
  shows "node_inv Up n'"
  using assms by (auto simp: node_inv_def frame_def)

lemma node_inv_device: "node_inv ph n \<Longrightarrow> node_inv ph (add_device d ds n)"
  by (cases ph) (auto simp: node_inv_def in_step_def add_device_def)

lemma node_inv_data:
  assumes "node_inv ph n" and "publish_device F ser now d vs jit n = (n', None)"
  shows "node_inv ph n'"
proof (cases "ph = Up")
  case True
  with assms(1) obtain h where "in_step h n" by (auto simp: node_inv_def)
  from publish_device_in_step [OF this assms(2)] node_inv_frame_Up assms(1) True show ?thesis by blast
next
  case False
  with assms(1) have "\<not> connected n" by (cases ph) (auto simp: node_inv_def)
  with assms False show ?thesis
    by (cases ph) (auto simp: publish_device_offline node_inv_def)
qed

lemma node_inv_connect:
  assumes "node_inv Idle n"
    and "on_connect F ser now False (n\<lparr>connected := True, broker_will := will n\<rparr>) = (n', None)"
  shows "node_inv Up n'"
proof -
  let ?n = "n\<lparr>connected := True, broker_will := will n\<rparr>"
  from assms(1) obtain h where "host_run host_init (msgs ?n) = Some h" by (auto simp: node_inv_def)
  moreover from assms(2) have "rebirth F ser now ?n = (n', None)" by (simp add: on_connect_def)
  ultimately have "(\<exists>h. in_step h n') \<and> frame n' = frame ?n" by (rule rebirth_in_step)
  with assms(1) show ?thesis by (auto simp: node_inv_def frame_def)
qed

lemma node_inv_command:
  assumes "node_inv Up n" and "on_message F ser par now payload n = (n', None)"
  shows "node_inv Up n'"
proof -
  have "n' = n \<or> rebirth F ser now n = (n', None)"
  proof (cases "decode_payload F par payload")
    case (Inr pd)
    with assms(2) show ?thesis by (cases "wants_rebirth (pd_metrics pd)") (simp_all add: on_message_def)
  qed (use assms(2) in \<open>simp add: on_message_def\<close>)
  then consider "n' = n" | "rebirth F ser now n = (n', None)" by blast
  then show ?thesis
  proof cases
    case 2
    from assms(1) obtain h where "host_run host_init (msgs n) = Some h" by (auto dest: node_inv_run)
    from rebirth_in_step [OF this 2] assms(1) show ?thesis by (blast intro: node_inv_frame_Up)
  qed (use assms in simp)
qed

lemma node_reach_inv: "node_reach F ser par ph n \<Longrightarrow> node_inv ph n"
proof (induction rule: node_reach.induct)
  case (create now g e n)
  then show ?case by (auto simp: new_node_def node_inv_def msgs_def dest!: set_will_None)
next
  case (loss n)
  then show ?case using lost_run by (fastforce simp: node_inv_def)
next
  case (stopped n now n')
  then show ?case using stop_run by (fastforce simp: node_inv_def)
next
  case (disconnect n now n')
  then show ?case by (auto simp: on_disconnect_def node_inv_def dest!: set_will_None)
qed (auto intro: node_inv_device node_inv_connect node_inv_data node_inv_command)

section \<open>Properties\<close>


abbreviation demo_defs :: "metric_def list" where
  "demo_defs \<equiv> [\<lparr>md_name = ''temp'', md_datatype = ''Double'', md_unit = ''C''\<rparr>]"

text \<open>A session: create, add a device, connect, publish twice, lose the connection.\<close>

abbreviation demo_created :: "(int, int pb_payload) step_result" where
  "demo_created \<equiv> new_node demo_floats id 1 ''p'' ''l''"

abbreviation demo_up :: "(int, int pb_payload) step_result" where
  "demo_up \<equiv> on_connect demo_floats id 2 False
     ((add_device ''d'' demo_defs (fst demo_created))
       \<lparr>connected := True, broker_will := will (add_device ''d'' demo_defs (fst demo_created))\<rparr>)"

abbreviation demo_first :: "(int, int pb_payload) step_result" where
  "demo_first \<equiv> publish_device demo_floats id 3 ''d'' [(''temp'', Some (SFloat 20))] [] (fst demo_up)"

abbreviation demo_second :: "(int, int pb_payload) step_result" where
  "demo_second \<equiv> publish_device demo_floats id 4 ''d'' [(''temp'', None)] [] (fst demo_first)"

lemma snd_None_eq: "snd r = None \<Longrightarrow> r = (fst r, None)"
  by (cases r) simp


section \<open>Publishing does not raise\<close>

text \<open>A reading that fits its metric definition: missing, or of the metric's type.\<close>

definition reading_fits :: "'f float_ops \<Rightarrow> 'f dev_values \<Rightarrow> metric_def \<Rightarrow> bool" where
  "reading_fits F values d =
     (case data_type_of (md_datatype d) of
        None \<Rightarrow> False
      | Some dt \<Rightarrow>
          (case map_of values (md_name d) of
             Some (Some v) \<Rightarrow> (case to_wire F dt v of Inl _ \<Rightarrow> False | Inr _ \<Rightarrow> True)
           | _ \<Rightarrow> True))"

definition stamp_fits :: "int \<Rightarrow> jitter \<Rightarrow> metric_def \<Rightarrow> bool" where
  "stamp_fits now jit d =
     (let t = now + (case map_of jit (md_name d) of None \<Rightarrow> 0 | Some j \<Rightarrow> j) in 0 \<le> t \<and> t < 2 ^ 64)"

lemma set_field_total: "to_wire F dt v = Inr w \<Longrightarrow> \<exists>p. set_field F (ts_field (specs dt)) w = Inr p"
  by (cases dt)
    (auto simp: to_wire_def type_spec_of_def set_field_def int_bounds_def Let_def
      split: scalar.splits if_splits option.splits)

lemma set_value_total:
  "is_null \<or> v = None \<or> to_wire F dt (the v) = Inr w \<Longrightarrow> \<exists>c. set_value F cell dt v is_null = Inr c"
  using set_field_total [of F dt "the v" w] by (auto simp: set_value_def)

lemma encode_property_str [simp]: "\<exists>a b. encode_property F (k, Some (SStr s)) = Inr (a, b)"
  by (simp add: encode_property_def infer_property_type_def set_value_def to_wire_def type_spec_of_def set_field_def)

lemma encode_property_quality [simp]:
  "\<exists>a b. encode_property F (k, Some (SInt 0)) = Inr (a, b)"
  "\<exists>a b. encode_property F (k, Some (SInt 192)) = Inr (a, b)"
  by (simp_all add: encode_property_def infer_property_type_def set_value_def to_wire_def type_spec_of_def
      int_bounds_def set_field_def)

lemma rmap_total_ex: "\<forall>x \<in> set xs. \<exists>y. f x = Inr y \<Longrightarrow> \<exists>ys. rmap f xs = Inr ys"
  by (induction xs) auto

lemma encode_metric_total:
  assumes dt: "data_type_of (m_datatype m) = Some dt"
    and ts: "m_timestamp m = Some t" "0 \<le> t" "t < 2 ^ 64"
    and v: "m_value m = None \<or> (\<exists>w. to_wire F dt (the (m_value m)) = Inr w)"
    and ps: "\<forall>kv \<in> set (m_properties m). \<exists>kp. encode_property F kv = Inr kp"
  shows "\<exists>p. encode_metric F m = Inr p"
proof -
  obtain c where "set_value F empty_cell dt (m_value m) (m_is_null m) = Inr c"
    using v set_value_total by metis
  moreover obtain qs where "rmap (encode_property F) (m_properties m) = Inr qs"
    using rmap_total_ex [OF ps] by blast
  ultimately show ?thesis using dt ts by (simp add: encode_metric_def set_u64_def)
qed

lemma build_metrics_encode:
  assumes "\<forall>d \<in> set ds. reading_fits F values d \<and> stamp_fits now jit d"
  shows "\<exists>pms. rmap (encode_metric F) (build_metrics ds values jit now birth) = Inr pms"
proof (rule rmap_total_ex, rule ballI)
  fix m assume m: "m \<in> set (build_metrics ds values jit now birth)"
  then obtain d where d: "d \<in> set ds" and md: "build_metrics [d] values jit now birth = [m]"
    by (auto simp: build_metrics_def)
  from assms d obtain dt where dt: "data_type_of (md_datatype d) = Some dt"
    and w: "\<And>v. map_of values (md_name d) = Some (Some v) \<Longrightarrow> \<exists>w. to_wire F dt v = Inr w"
    by (fastforce simp: reading_fits_def split: option.splits sum.splits)
  have props: "\<forall>kv \<in> set (m_properties m). \<exists>kp. encode_property F kv = Inr kp"
    using md by (auto simp: build_metrics_def Let_def GOOD_QUALITY_def BAD_QUALITY_def
        split: if_splits)
  have v: "m_value m = None \<or> (\<exists>w. to_wire F dt (the (m_value m)) = Inr w)"
    using md w by (cases "m_value m") (auto simp: build_metrics_def Let_def split: option.splits)
  have ts: "m_timestamp m = Some (now + (case map_of jit (md_name d) of None \<Rightarrow> 0 | Some j \<Rightarrow> j))"
    and "m_datatype m = md_datatype d"
    using md by (auto simp: build_metrics_def Let_def)
  with assms d dt v props show "\<exists>p. encode_metric F m = Inr p"
    by (intro encode_metric_total [of m dt]) (auto simp: stamp_fits_def Let_def)
qed

lemma encode_payload_total:
  assumes "rmap (encode_metric F) ms = Inr pms" and "0 \<le> now" and "now < 2 ^ 64" and "0 \<le> q" and "q \<le> 255"
  shows "\<exists>b. encode_payload F ser now ms None (Some q) = Inr b"
  using assms by (simp add: encode_payload_def build_payload_def set_u64_def)

lemma node_topic_total:
  assumes "check_id [] (group_id n) = Inr ()" and "check_id [] (edge_node_id n) = Inr ()"
    and "check_id [] d = Inr ()" and "is_device mt"
  shows "\<exists>t. node_topic n mt (Some d) = Inr t"
proof -
  have "\<exists>s. build_topic (group_id n) mt (edge_node_id n) (Some d) = Inr s"
    using assms by (simp only: build_topic_Inr) auto
  then show ?thesis by (auto simp: node_topic_def)
qed

lemma next_seq_range: "0 \<le> seq (next_seq n) \<and> seq (next_seq n) \<le> 255"
  using pos_mod_bound [of 256 "seq n + 1"] pos_mod_sign [of 256 "seq n + 1"] by simp

lemma next_seq_ids [simp]: "group_id (next_seq n) = group_id n" "edge_node_id (next_seq n) = edge_node_id n"
  by (simp_all add: next_seq_def)

text \<open>
  A snapshot whose readings are missing or of their metric's type, published for a
  known device under valid ids, never raises: it is stored, and when the session is up exactly one
  message goes out, a DBIRTH if the device was not born yet and a DDATA otherwise. So no sequence
  number is consumed without its message.
\<close>

theorem publish_device_total:
  assumes "map_of (defs n) d = Some ds"
    and "\<forall>m \<in> set ds. reading_fits F values m \<and> stamp_fits now jit m"
    and "0 \<le> now" and "now < 2 ^ 64"
    and "check_id [] (group_id n) = Inr ()" and "check_id [] (edge_node_id n) = Inr ()" and "check_id [] d = Inr ()"
  shows "\<exists>n'. publish_device F ser now d values jit n = (n', None) \<and>
    msgs n' = msgs n @ (if \<not> connected n then []
      else [(if d \<in> set (born n) then DDataMsg else DBirthMsg) d
              (build_metrics ds values jit now (d \<notin> set (born n))) ((seq n + 1) mod 256)])"
proof -
  let ?n = "n\<lparr>last_values := dict_put d (values, jit) (last_values n)\<rparr>"
  let ?birth = "d \<notin> set (born n)"
  obtain pms where pms: "rmap (encode_metric F) (build_metrics ds values jit now ?birth) = Inr pms"
    using build_metrics_encode [OF assms(2)] by blast
  obtain b where
    b: "encode_payload F ser now (build_metrics ds values jit now ?birth) None (Some (seq (next_seq ?n))) = Inr b"
    using encode_payload_total [OF pms assms(3,4), of "seq (next_seq ?n)" ser] next_seq_range [of ?n] by auto
  obtain t where t: "node_topic ?n DBIRTH (Some d) = Inr t"
    using node_topic_total [of ?n d DBIRTH] assms(5-7) by (auto simp: is_device_def)
  obtain u where u: "node_topic (next_seq ?n) DDATA (Some d) = Inr u"
    using node_topic_total [of "next_seq ?n" d DDATA] assms(5-7) by (auto simp: is_device_def)
  show ?thesis
  proof (cases "connected n")
    case False
    then show ?thesis by (simp add: publish_device_offline)
  next
    case True
    have last: "map_of (last_values ?n) d = Some (values, jit)" by (simp add: update_conv)
    show ?thesis
    proof (cases ?birth)
      case True
      with \<open>connected n\<close> assms(1) b t last show ?thesis
        by (simp add: publish_device_def publish_dbirth_def Let_def lift_codec_def dbirth_def send_def
            and_then_def)
    next
      case False
      with \<open>connected n\<close> assms(1) b u show ?thesis
        by (simp add: publish_device_def Let_def lift_codec_def ddata_def send_def)
    qed
  qed
qed

lemma publish_device_total_witness:
  "\<exists>n'. publish_device demo_floats id 3 ''d'' [(''temp'', Some (SFloat 20))] [] (fst demo_up) = (n', None)
     \<and> length (msgs n') = Suc (length (msgs (fst demo_up)))"
proof -
  have d: "map_of (defs (fst demo_up)) ''d'' = Some demo_defs" by code_simp
  have fits: "\<forall>m \<in> set demo_defs. reading_fits demo_floats [(''temp'', Some (SFloat 20))] m \<and> stamp_fits 3 [] m"
    by (simp add: reading_fits_def stamp_fits_def data_type_of_def all_data_types_def to_wire_def type_spec_of_def)
  have ids: "group_id (fst demo_up) = ''p''" "edge_node_id (fst demo_up) = ''l''" "connected (fst demo_up)"
    by code_simp+
  obtain n' where "publish_device demo_floats id 3 ''d'' [(''temp'', Some (SFloat 20))] [] (fst demo_up) = (n', None)"
    and "length (msgs n') = length (msgs (fst demo_up)) + 1"
    using publish_device_total [OF d fits, of id] ids by auto
  then show ?thesis by simp
qed

end
