(* ===== verification/Edge_Outbox.thy ===== *)
theory Edge_Outbox
  imports Twin_Prelude
begin

text \<open>
  Store and forward on the edge: the SQLite queue of \<open>apps/edge/edge/buffer.py\<close>
  (\<open>StoreAndForward\<close>) and the publishing side of \<open>apps/edge/edge/runner.py\<close>
  (\<open>EdgeRunner.publish\<close>, \<open>_send\<close>, \<open>drain\<close>, \<open>on_connect\<close>, \<open>on_disconnect\<close>).

  The table is the list of its rows; ids come from an \<open>AUTOINCREMENT\<close> counter. The MQTT client is
  an environment that holds what paho answers to the next publishes and the log of what it accepted.
  The interface of the queue is the locale \<open>fifo_outbox\<close>; the runner's ordering lemma is proved there
  and used through its interpretation on the SQLite model.
\<close>

section \<open>The queue table\<close>

record message =
  msg_topic :: string
  msg_payload :: string
  msg_qos :: int

record outbox_row =
  row_id :: nat
  row_msg :: message
  row_queued_at :: real

record outbox =
  ob_rows :: "outbox_row list"
  ob_counter :: nat

definition new_outbox :: outbox where
  "new_outbox = \<lparr>ob_rows = [], ob_counter = 0\<rparr>"

definition enqueue :: "real \<Rightarrow> message \<Rightarrow> outbox \<Rightarrow> outbox" where
  "enqueue now m q =
     q\<lparr>ob_rows := ob_rows q @ [\<lparr>row_id = Suc (ob_counter q), row_msg = m, row_queued_at = now\<rparr>],
       ob_counter := Suc (ob_counter q)\<rparr>"

definition pending :: "outbox \<Rightarrow> nat" where
  "pending q = length (ob_rows q)"

text \<open>\<open>SELECT .. ORDER BY id LIMIT batch\<close> and \<open>DELETE .. WHERE id = ?\<close>.\<close>

definition select_batch :: "nat \<Rightarrow> outbox \<Rightarrow> outbox_row list" where
  "select_batch batch q = take batch (sort_key row_id (ob_rows q))"

definition delete_row :: "nat \<Rightarrow> outbox \<Rightarrow> outbox" where
  "delete_row i q = q\<lparr>ob_rows := filter (\<lambda>r. row_id r \<noteq> i) (ob_rows q)\<rparr>"

definition outbox_ok :: "outbox \<Rightarrow> bool" where
  "outbox_ok q \<longleftrightarrow> sorted_wrt (<) (map row_id (ob_rows q)) \<and> (\<forall>r \<in> set (ob_rows q). row_id r \<le> ob_counter q)"

definition queued :: "outbox \<Rightarrow> message list" where
  "queued q = map row_msg (ob_rows q)"

section \<open>Draining\<close>

text \<open>
  The inner loop over one fetched batch: publish, then delete. The result says how many went out and
  whether the batch was finished (\<open>False\<close>: a publish failed and \<open>drain\<close> returns).
\<close>

fun drain_batch ::
  "('e \<Rightarrow> message \<Rightarrow> bool \<times> 'e) \<Rightarrow> outbox_row list \<Rightarrow> nat \<Rightarrow> outbox \<Rightarrow> 'e \<Rightarrow> bool \<times> nat \<times> outbox \<times> 'e" where
  "drain_batch pub [] sent q e = (True, sent, q, e)"
| "drain_batch pub (r # rs) sent q e =
     (case pub e (row_msg r) of
        (False, e') \<Rightarrow> (False, sent, q, e')
      | (True, e') \<Rightarrow> drain_batch pub rs (Suc sent) (delete_row (row_id r) q) e')"

lemma delete_row_length_le: "length (ob_rows (delete_row i q)) \<le> length (ob_rows q)"
  by (simp add: delete_row_def)

lemma delete_row_length_less:
  "r \<in> set (ob_rows q) \<Longrightarrow> length (ob_rows (delete_row (row_id r) q)) < length (ob_rows q)"
  using length_filter_less [of r "ob_rows q" "\<lambda>x. row_id x \<noteq> row_id r"] by (simp add: delete_row_def)

lemma drain_batch_length_le:
  "drain_batch pub rs sent q e = (ok, sent', q', e') \<Longrightarrow> length (ob_rows q') \<le> length (ob_rows q)"
proof (induction rs arbitrary: sent q e)
  case (Cons r rs)
  then show ?case
    using delete_row_length_le [of "row_id r" q]
    by (fastforce split: prod.splits bool.splits dest: le_trans)
qed simp

lemma select_batch_sub: "set (select_batch batch q) \<subseteq> set (ob_rows q)"
  unfolding select_batch_def using set_take_subset by fastforce

lemma drain_batch_progress:
  assumes "drain_batch pub (select_batch batch q) sent q e = (True, sent', q', e')"
    and "select_batch batch q \<noteq> []"
  shows "length (ob_rows q') < length (ob_rows q)"
proof -
  obtain r rs where rs: "select_batch batch q = r # rs" using assms(2) by (cases "select_batch batch q") auto
  with select_batch_sub [of batch q] have r: "r \<in> set (ob_rows q)" by auto
  from assms(1) rs obtain e1 where "drain_batch pub rs (Suc sent) (delete_row (row_id r) q) e1 = (True, sent', q', e')"
    by (auto split: prod.splits bool.splits)
  from drain_batch_length_le [OF this] delete_row_length_less [OF r] show ?thesis by simp
qed

text \<open>The outer loop ends because every finished non-empty batch shrinks the table.\<close>

function drain_loop ::
  "('e \<Rightarrow> message \<Rightarrow> bool \<times> 'e) \<Rightarrow> nat \<Rightarrow> nat \<Rightarrow> outbox \<Rightarrow> 'e \<Rightarrow> nat \<times> outbox \<times> 'e" where
  "drain_loop pub batch sent q e =
     (let rows = select_batch batch q in
      if rows = [] then (sent, q, e)
      else (case drain_batch pub rows sent q e of
              (False, sent', q', e') \<Rightarrow> (sent', q', e')
            | (True, sent', q', e') \<Rightarrow> drain_loop pub batch sent' q' e'))"
  by pat_completeness auto
termination
  by (relation "measure (\<lambda>(pub, batch, sent, q, e). length (ob_rows q))")
    (auto dest: drain_batch_progress [OF sym])

declare drain_loop.simps [simp del]

definition drain :: "('e \<Rightarrow> message \<Rightarrow> bool \<times> 'e) \<Rightarrow> nat \<Rightarrow> outbox \<Rightarrow> 'e \<Rightarrow> nat \<times> outbox \<times> 'e" where
  "drain pub batch q e = drain_loop pub batch 0 q e"

text \<open>
  The reference: offer the messages oldest first until one is refused, and drop those accepted.
\<close>

fun offer :: "('e \<Rightarrow> message \<Rightarrow> bool \<times> 'e) \<Rightarrow> message list \<Rightarrow> 'e \<Rightarrow> nat \<times> 'e" where
  "offer pub [] e = (0, e)"
| "offer pub (m # ms) e =
     (case pub e m of (False, e') \<Rightarrow> (0, e') | (True, e') \<Rightarrow> (let (n, e'') = offer pub ms e' in (Suc n, e'')))"

lemma offer_le: "offer pub ms e = (n, e') \<Longrightarrow> n \<le> length ms"
  by (induction ms arbitrary: e n) (fastforce split: prod.splits bool.splits)+

lemma offer_append:
  "offer pub (xs @ ys) e =
    (let (n, e') = offer pub xs e in
     if n = length xs then (let (k, e'') = offer pub ys e' in (n + k, e'')) else (n, e'))"
proof (induction xs arbitrary: e)
  case (Cons x xs)
  then show ?case by (auto simp: Let_def split: prod.splits bool.splits)
qed (simp add: Let_def split: prod.splits)

lemma select_batch_ok: "outbox_ok q \<Longrightarrow> select_batch batch q = take batch (ob_rows q)"
proof -
  assume "outbox_ok q"
  then have "sorted_wrt (\<lambda>x y. row_id x \<le> row_id y) (ob_rows q)"
    by (auto simp: outbox_ok_def sorted_wrt_map intro: sorted_wrt_mono_rel [of _ "\<lambda>x y. row_id x < row_id y"])
  then have "sort_key row_id (ob_rows q) = ob_rows q"
    by (intro sort_key_id_if_sorted) (simp add: sorted_map)
  then show ?thesis by (simp add: select_batch_def)
qed

lemma delete_head:
  assumes "outbox_ok q" and "ob_rows q = r # rs"
  shows "delete_row (row_id r) q = q\<lparr>ob_rows := rs\<rparr>" and "outbox_ok (delete_row (row_id r) q)"
proof -
  have "\<forall>x \<in> set rs. row_id x \<noteq> row_id r" using assms by (auto simp: outbox_ok_def)
  then have "filter (\<lambda>x. row_id x \<noteq> row_id r) rs = rs" by (simp add: filter_id_conv)
  with assms(2) show "delete_row (row_id r) q = q\<lparr>ob_rows := rs\<rparr>" by (simp add: delete_row_def)
  with assms show "outbox_ok (delete_row (row_id r) q)" by (auto simp: outbox_ok_def)
qed

lemma drain_batch_offer:
  assumes "outbox_ok q" and "ob_rows q = rs @ rest"
  shows "drain_batch pub rs sent q e =
    (let (n, e') = offer pub (map row_msg rs) e
     in (n = length rs, sent + n, q\<lparr>ob_rows := drop n (ob_rows q)\<rparr>, e'))
    \<and> outbox_ok (q\<lparr>ob_rows := drop (fst (offer pub (map row_msg rs) e)) (ob_rows q)\<rparr>)"
  using assms
proof (induction rs arbitrary: sent q e)
  case Nil
  then show ?case by (simp add: outbox_ok_def)
next
  case (Cons r rs)
  note d = delete_head [OF Cons.prems(1)]
  show ?case
  proof (cases "pub e (row_msg r)")
    case (Pair b e1)
    show ?thesis
    proof (cases b)
      case False
      with Pair Cons.prems show ?thesis by (simp add: outbox_ok_def)
    next
      case True
      have q1: "delete_row (row_id r) q = q\<lparr>ob_rows := rs @ rest\<rparr>" and ok: "outbox_ok (delete_row (row_id r) q)"
        using d Cons.prems(2) by simp_all
      from Cons.IH [OF ok, of "Suc sent" e1] q1 Pair True Cons.prems(2)
      show ?thesis by (auto simp: Let_def split: prod.splits)
    qed
  qed
qed

lemma outbox_ok_drop: "outbox_ok q \<Longrightarrow> outbox_ok (q\<lparr>ob_rows := drop n (ob_rows q)\<rparr>)"
  using sorted_wrt_drop [of "(<)" "map row_id (ob_rows q)" n]
  by (auto simp: outbox_ok_def drop_map dest: in_set_dropD)

text \<open>\<open>drain\<close> in batches is the reference offer over the whole queue.\<close>

lemma drain_loop_offer:
  assumes "outbox_ok q" and "0 < batch"
  shows "drain_loop pub batch sent q e =
    (let (n, e') = offer pub (queued q) e in (sent + n, q\<lparr>ob_rows := drop n (ob_rows q)\<rparr>, e'))"
  using assms
proof (induction pub batch sent q e rule: drain_loop.induct)
  case (1 pub batch sent q e)
  let ?rows = "take batch (ob_rows q)"
  have sel: "select_batch batch q = ?rows" by (rule select_batch_ok [OF "1.prems"(1)])
  obtain n e' where n: "offer pub (map row_msg ?rows) e = (n, e')" by force
  have b: "drain_batch pub ?rows sent q e =
      (n = length ?rows, sent + n, q\<lparr>ob_rows := drop n (ob_rows q)\<rparr>, e')"
    using drain_batch_offer [OF "1.prems"(1), of ?rows "drop batch (ob_rows q)" pub sent e] n by simp
  have split: "queued q = map row_msg ?rows @ map row_msg (drop batch (ob_rows q))"
    by (simp add: queued_def flip: map_append)
  show ?case
  proof (cases "ob_rows q = []")
    case True
    then show ?thesis using "1.prems" sel by (simp add: drain_loop.simps [of pub batch] queued_def)
  next
    case nonempty: False
    with "1.prems"(2) have ne: "?rows \<noteq> []" by auto
    show ?thesis
    proof (cases "n = length ?rows")
      case False
      with b sel ne n split show ?thesis
        by (simp add: drain_loop.simps [of pub batch] offer_append)
    next
      case True
      have ok: "outbox_ok (q\<lparr>ob_rows := drop n (ob_rows q)\<rparr>)" by (rule outbox_ok_drop [OF "1.prems"(1)])
      have rest: "queued (q\<lparr>ob_rows := drop n (ob_rows q)\<rparr>) = map row_msg (drop batch (ob_rows q))"
        using True by (cases "batch \<le> length (ob_rows q)") (simp_all add: queued_def)
      have IH: "drain_loop pub batch (sent + n) (q\<lparr>ob_rows := drop n (ob_rows q)\<rparr>) e' =
          (let (k, e'') = offer pub (map row_msg (drop batch (ob_rows q))) e'
           in (sent + n + k, q\<lparr>ob_rows := drop k (drop n (ob_rows q))\<rparr>, e''))"
        using "1.IH" sel ne b True ok "1.prems"(2) rest
        by simp
      have "drain_loop pub batch sent q e =
          drain_loop pub batch (sent + n) (q\<lparr>ob_rows := drop n (ob_rows q)\<rparr>) e'"
        using b sel ne True by (simp add: drain_loop.simps [of pub batch sent])
      with IH n True split show ?thesis
        by (auto simp: offer_append Let_def add.commute split: prod.splits)
    qed
  qed
qed

lemma drain_offer:
  "outbox_ok q \<Longrightarrow> 0 < batch \<Longrightarrow> drain pub batch q e =
    (let (n, e') = offer pub (queued q) e in (n, q\<lparr>ob_rows := drop n (ob_rows q)\<rparr>, e'))"
  using drain_loop_offer [of q batch pub 0 e] by (simp add: drain_def)

end
