(* ===== verification/Edge_Delivery.thy ===== *)
theory Edge_Delivery
  imports Edge_Outbox
begin

text \<open>
  Delivery guarantees of the edge runner. First the runner's publishing operations over the queue
  and the MQTT client, with their interfaces as locales; then the drain loop in micro-steps, where
  another thread may enqueue between any two of them and the process may crash and restart.
\<close>

section \<open>Interfaces\<close>

text \<open>A queue that keeps what is pushed in order and can be offered to a publisher.\<close>

locale fifo_outbox =
  fixes items :: "'q \<Rightarrow> message list" and valid :: "'q \<Rightarrow> bool"
    and push :: "real \<Rightarrow> message \<Rightarrow> 'q \<Rightarrow> 'q" and size_of :: "'q \<Rightarrow> nat"
    and replay :: "('e \<Rightarrow> message \<Rightarrow> bool \<times> 'e) \<Rightarrow> 'q \<Rightarrow> 'e \<Rightarrow> nat \<times> 'q \<times> 'e"
  assumes items_push: "valid q \<Longrightarrow> items (push t m q) = items q @ [m]"
    and valid_push: "valid q \<Longrightarrow> valid (push t m q)"
    and size_items: "valid q \<Longrightarrow> size_of q = length (items q)"
    and replay_offer: "valid q \<Longrightarrow> replay pub q e = (n, q', e') \<Longrightarrow>
      offer pub (items q) e = (n, e') \<and> items q' = drop n (items q) \<and> valid q'"

text \<open>A client that says truthfully whether the broker took a message.\<close>

locale logged_client =
  fixes transmit :: "'e \<Rightarrow> message \<Rightarrow> bool \<times> 'e" and taken :: "'e \<Rightarrow> message list"
  assumes transmit_True: "transmit e m = (True, e') \<Longrightarrow> taken e' = taken e @ [m]"
    and transmit_False: "transmit e m = (False, e') \<Longrightarrow> taken e' = taken e"
begin

lemma offer_taken: "offer transmit ms e = (n, e') \<Longrightarrow> taken e' = taken e @ take n ms"
proof (induction ms arbitrary: e n)
  case (Cons m ms)
  obtain ok e1 where t: "transmit e m = (ok, e1)" by force
  show ?case
  proof (cases ok)
    case True
    with Cons.prems t obtain k where "offer transmit ms e1 = (k, e')" and "n = Suc k"
      by (auto split: prod.splits)
    with Cons.IH transmit_True t True show ?thesis by simp
  next
    case False
    with Cons.prems t transmit_False show ?thesis by simp
  qed
qed simp

end

text \<open>
  \<open>EdgeRunner.publish\<close> over any queue and client: send at once only when nothing is queued, else
  queue. The result says whether the message went out immediately.
\<close>

definition publish_via ::
  "('q \<Rightarrow> nat) \<Rightarrow> (real \<Rightarrow> message \<Rightarrow> 'q \<Rightarrow> 'q) \<Rightarrow> ('e \<Rightarrow> message \<Rightarrow> bool \<times> 'e)
    \<Rightarrow> real \<Rightarrow> message \<Rightarrow> 'q \<Rightarrow> 'e \<Rightarrow> bool \<times> 'q \<times> 'e" where
  "publish_via size_of push transmit now m q e =
     (if size_of q = 0 then
        (case transmit e m of (True, e') \<Rightarrow> (True, q, e') | (False, e') \<Rightarrow> (False, push now m q, e'))
      else (False, push now m q, e))"

locale ordered_delivery = fifo_outbox items valid push size_of replay + logged_client transmit taken
  for items :: "'q \<Rightarrow> message list" and valid and push and size_of
    and replay :: "('e \<Rightarrow> message \<Rightarrow> bool \<times> 'e) \<Rightarrow> 'q \<Rightarrow> 'e \<Rightarrow> nat \<times> 'q \<times> 'e"
    and transmit :: "'e \<Rightarrow> message \<Rightarrow> bool \<times> 'e" and taken
begin

text \<open>What the broker took, followed by what is queued, is everything published, in order.\<close>

lemma publish_conserves:
  assumes "valid q" and "publish_via size_of push transmit now m q e = (b, q', e')"
  shows "taken e' @ items q' = taken e @ items q @ [m] \<and> valid q'"
proof (cases "size_of q = 0")
  case True
  then have "items q = []" using assms(1) size_items by simp
  with assms True show ?thesis
    using transmit_True transmit_False items_push valid_push
    by (fastforce simp: publish_via_def split: prod.splits bool.splits)
next
  case False
  with assms show ?thesis by (auto simp: publish_via_def items_push valid_push)
qed

lemma replay_conserves:
  assumes "valid q" and "replay transmit q e = (n, q', e')"
  shows "taken e' @ items q' = taken e @ items q \<and> valid q'"
  using replay_offer [OF assms] offer_taken by fastforce

end

section \<open>The runner\<close>

text \<open>
  The client side of \<open>_send\<close>: whether a client object exists, \<open>self.connected\<close>, what paho answers to
  the next publishes (\<open>rc == MQTT_ERR_SUCCESS\<close>), and what it accepted.
\<close>

record mqtt_env =
  has_client :: bool
  is_connected :: bool
  answers :: "bool list"
  accepted :: "message list"

definition mqtt_send :: "mqtt_env \<Rightarrow> message \<Rightarrow> bool \<times> mqtt_env" where
  "mqtt_send e m =
     (if \<not> has_client e \<or> \<not> is_connected e then (False, e)
      else (case answers e of
              [] \<Rightarrow> (False, e)
            | a # as \<Rightarrow> (a, e\<lparr>answers := as, accepted := (if a then accepted e @ [m] else accepted e)\<rparr>)))"

record runner =
  outbox_of :: outbox
  env_of :: mqtt_env
  assets_of :: "string list"
  subscriptions :: "(string \<times> int) list"

definition DRAIN_BATCH :: nat where
  "DRAIN_BATCH = 100"

definition runner_publish :: "real \<Rightarrow> message \<Rightarrow> runner \<Rightarrow> bool \<times> runner" where
  "runner_publish now m r =
     (let (b, q, e) = publish_via pending enqueue mqtt_send now m (outbox_of r) (env_of r)
      in (b, r\<lparr>outbox_of := q, env_of := e\<rparr>))"

definition runner_drain :: "runner \<Rightarrow> nat \<times> runner" where
  "runner_drain r =
     (let (n, q, e) = drain mqtt_send DRAIN_BATCH (outbox_of r) (env_of r)
      in (n, r\<lparr>outbox_of := q, env_of := e\<rparr>))"

definition data_topics :: "string list \<Rightarrow> (string \<times> int) list" where
  "data_topics assets =
     [(''spBv1.0/+/'' @ kind @ ''/+/'' @ asset, 0). asset \<leftarrow> assets, kind \<leftarrow> [''DDATA'', ''DBIRTH'']]"

text \<open>\<open>on_connect\<close> starts the drain in a thread of its own: here a separate event.\<close>

definition runner_on_connect :: "bool \<Rightarrow> runner \<Rightarrow> runner" where
  "runner_on_connect is_failure r =
     (if is_failure then r
      else r\<lparr>env_of := (env_of r)\<lparr>is_connected := True\<rparr>,
             subscriptions := subscriptions r @ data_topics (assets_of r)\<rparr>)"

definition runner_on_disconnect :: "runner \<Rightarrow> runner" where
  "runner_on_disconnect r = r\<lparr>env_of := (env_of r)\<lparr>is_connected := False\<rparr>\<rparr>"

interpretation sqlite: fifo_outbox queued outbox_ok enqueue pending
  "\<lambda>pub. drain pub DRAIN_BATCH"
proof
  fix q :: outbox and t m
  assume "outbox_ok q"
  then show "queued (enqueue t m q) = queued q @ [m]" and "pending q = length (queued q)"
    by (simp_all add: queued_def enqueue_def pending_def)
  show "outbox_ok (enqueue t m q)"
    using \<open>outbox_ok q\<close> by (auto simp: outbox_ok_def enqueue_def sorted_wrt_append le_Suc_eq less_Suc_eq_le)
next
  fix pub :: "'e \<Rightarrow> message \<Rightarrow> bool \<times> 'e" and q :: outbox and e n q' e'
  assume ok: "outbox_ok q" and d: "drain pub DRAIN_BATCH q e = (n, q', e')"
  have "(0::nat) < DRAIN_BATCH" by (simp add: DRAIN_BATCH_def)
  from drain_offer [OF ok this, of pub e] d
  show "offer pub (queued q) e = (n, e') \<and> queued q' = drop n (queued q) \<and> outbox_ok q'"
    by (auto simp: queued_def drop_map outbox_ok_drop [OF ok] split: prod.splits)
qed

interpretation paho: logged_client mqtt_send accepted
  by unfold_locales (auto simp: mqtt_send_def split: if_splits list.splits)

interpretation edge: ordered_delivery queued outbox_ok enqueue pending
  "\<lambda>pub. drain pub DRAIN_BATCH" mqtt_send accepted ..

datatype runner_event =
    Publish real message
  | Drain
  | OnConnect bool
  | OnDisconnect
  | BrokerAnswers "bool list"

fun runner_step :: "runner \<Rightarrow> runner_event \<Rightarrow> runner" where
  "runner_step r (Publish now m) = snd (runner_publish now m r)"
| "runner_step r Drain = snd (runner_drain r)"
| "runner_step r (OnConnect f) = runner_on_connect f r"
| "runner_step r OnDisconnect = runner_on_disconnect r"
| "runner_step r (BrokerAnswers as) = r\<lparr>env_of := (env_of r)\<lparr>answers := as\<rparr>\<rparr>"

fun published :: "runner_event list \<Rightarrow> message list" where
  "published [] = []"
| "published (Publish now m # es) = m # published es"
| "published (_ # es) = published es"

definition new_runner :: "bool \<Rightarrow> string list \<Rightarrow> runner" where
  "new_runner client assets =
     \<lparr>outbox_of = new_outbox,
      env_of = \<lparr>has_client = client, is_connected = False, answers = [], accepted = []\<rparr>,
      assets_of = assets, subscriptions = []\<rparr>"

lemma runner_step_conserves:
  assumes "outbox_ok (outbox_of r)"
  shows "accepted (env_of (runner_step r ev)) @ queued (outbox_of (runner_step r ev)) =
      accepted (env_of r) @ queued (outbox_of r) @ published [ev]
    \<and> outbox_ok (outbox_of (runner_step r ev))"
proof (cases ev)
  case (Publish now m)
  obtain b q e where p: "publish_via pending enqueue mqtt_send now m (outbox_of r) (env_of r) = (b, q, e)"
    using prod_cases3 by blast
  from edge.publish_conserves [OF assms p] p Publish show ?thesis by (simp add: runner_publish_def)
next
  case Drain
  obtain n q e where d: "drain mqtt_send DRAIN_BATCH (outbox_of r) (env_of r) = (n, q, e)"
    using prod_cases3 by blast
  from edge.replay_conserves [OF assms d] d Drain show ?thesis by (simp add: runner_drain_def)
qed (use assms in \<open>simp_all add: runner_on_connect_def runner_on_disconnect_def\<close>)

lemma published_append: "published (xs @ ys) = published xs @ published ys"
  by (induction xs rule: published.induct) auto

lemma runner_run_conserves:
  "outbox_ok (outbox_of r) \<Longrightarrow>
    accepted (env_of (foldl runner_step r evs)) @ queued (outbox_of (foldl runner_step r evs)) =
      accepted (env_of r) @ queued (outbox_of r) @ published evs"
proof (induction evs arbitrary: r)
  case (Cons ev evs)
  from runner_step_conserves [OF Cons.prems, of ev] Cons.IH [of "runner_step r ev"]
    published_append [of "[ev]" evs]
  show ?case by simp
qed simp

text \<open>
  Property C1. Whatever happens (publishes, drains, connections, refused connections, losses, and
  any pattern of broker answers), the messages the broker took followed by those still queued are
  exactly the predictions published, each once and in the order they were made.
\<close>

theorem no_loss_no_reorder:
  "accepted (env_of (foldl runner_step (new_runner client assets) evs))
     @ queued (outbox_of (foldl runner_step (new_runner client assets) evs)) = published evs"
  by (subst runner_run_conserves)
    (simp_all add: new_runner_def new_outbox_def outbox_ok_def queued_def)

lemma offer_all:
  "has_client e \<Longrightarrow> is_connected e \<Longrightarrow> answers e = replicate (length ms) True @ as \<Longrightarrow>
    offer mqtt_send ms e = (length ms, e\<lparr>answers := as, accepted := accepted e @ ms\<rparr>)"
  by (induction ms arbitrary: e) (simp_all add: mqtt_send_def)

text \<open>
  Property C20. Once the broker is reachable and accepts everything that is queued, one drain empties
  the queue and its count is the number of messages that were waiting.
\<close>

theorem drain_delivers_all:
  assumes "outbox_ok (outbox_of r)" and "has_client (env_of r)" and "is_connected (env_of r)"
    and "answers (env_of r) = replicate (pending (outbox_of r)) True @ as"
  shows "fst (runner_drain r) = pending (outbox_of r)
    \<and> pending (outbox_of (snd (runner_drain r))) = 0
    \<and> accepted (env_of (snd (runner_drain r))) = accepted (env_of r) @ queued (outbox_of r)"
proof -
  have len: "pending (outbox_of r) = length (queued (outbox_of r))" by (simp add: pending_def queued_def)
  have "(0::nat) < DRAIN_BATCH" by (simp add: DRAIN_BATCH_def)
  from drain_offer [OF assms(1) this, of mqtt_send "env_of r"] offer_all [OF assms(2,3), of "queued (outbox_of r)" as] assms(4) len
  show ?thesis by (simp add: runner_drain_def pending_def queued_def)
qed

abbreviation demo_msg :: message where
  "demo_msg \<equiv> \<lparr>msg_topic = ''twinvoice/pred/m'', msg_payload = ''a'', msg_qos = 1\<rparr>"

definition demo_runner :: runner where
  "demo_runner = (new_runner True [''cnc-01''])\<lparr>outbox_of := enqueue 0 demo_msg (enqueue 0 demo_msg new_outbox),
     env_of := \<lparr>has_client = True, is_connected = True, answers = [True, True], accepted = []\<rparr>\<rparr>"

lemma drain_delivers_all_witness:
  "fst (runner_drain demo_runner) = 2 \<and> accepted (env_of (snd (runner_drain demo_runner))) = [demo_msg, demo_msg]"
proof -
  have ok: "outbox_ok (outbox_of demo_runner)" and len: "pending (outbox_of demo_runner) = 2"
    and q: "queued (outbox_of demo_runner) = [demo_msg, demo_msg]"
    by (simp_all add: demo_runner_def outbox_ok_def enqueue_def new_outbox_def pending_def queued_def)
  have env: "has_client (env_of demo_runner)" "is_connected (env_of demo_runner)" "accepted (env_of demo_runner) = []"
    "answers (env_of demo_runner) = replicate (pending (outbox_of demo_runner)) True @ []"
    unfolding len by (simp_all add: demo_runner_def numeral_2_eq_2)
  from drain_delivers_all [OF ok env(1,2,4)] show ?thesis unfolding len q env(3) by simp
qed

section \<open>Crashes and concurrent enqueues\<close>

text \<open>
  The drain in micro-steps: fetch a batch, publish its head, delete its row, and so on. The main
  thread may publish between any two steps, and a crash at any point loses the program counter and
  the fetched batch but not the table.
\<close>

datatype drain_pc = Idle | Batch "outbox_row list" | InFlight outbox_row "outbox_row list"

record system =
  table :: outbox
  pc :: drain_pc
  history :: "message list"    \<comment> \<open>everything published so far\<close>
  arrived :: "message list"    \<comment> \<open>what the broker took\<close>
  crashes :: nat

inductive sys_step :: "system \<Rightarrow> system \<Rightarrow> bool" where
  direct: "pending (table s) = 0 \<Longrightarrow>
     sys_step s (s\<lparr>history := history s @ [m], arrived := arrived s @ [m]\<rparr>)"
| store: "sys_step s (s\<lparr>history := history s @ [m], table := enqueue now m (table s)\<rparr>)"
| fetch: "pc s = Idle \<Longrightarrow> sys_step s (s\<lparr>pc := Batch (select_batch DRAIN_BATCH (table s))\<rparr>)"
| sent: "pc s = Batch (r # rs) \<Longrightarrow>
     sys_step s (s\<lparr>pc := InFlight r rs, arrived := arrived s @ [row_msg r]\<rparr>)"
| refused: "pc s = Batch (r # rs) \<Longrightarrow> sys_step s (s\<lparr>pc := Idle\<rparr>)"
| deleted: "pc s = InFlight r rs \<Longrightarrow>
     sys_step s (s\<lparr>pc := Batch rs, table := delete_row (row_id r) (table s)\<rparr>)"
| finished: "pc s = Batch [] \<Longrightarrow> sys_step s (s\<lparr>pc := Idle\<rparr>)"
| crash: "sys_step s (s\<lparr>pc := Idle, crashes := Suc (crashes s)\<rparr>)"

definition sys_init :: system where
  "sys_init = \<lparr>table = new_outbox, pc = Idle, history = [], arrived = [], crashes = 0\<rparr>"

inductive sys_reach :: "system \<Rightarrow> bool" where
  start: "sys_reach sys_init"
| step: "sys_reach s \<Longrightarrow> sys_step s t \<Longrightarrow> sys_reach t"

text \<open>\<open>stutter xs ys\<close>: \<open>ys\<close> is \<open>xs\<close> with some elements repeated on the spot.\<close>

inductive stutter :: "'a list \<Rightarrow> 'a list \<Rightarrow> bool" where
  nil: "stutter [] []"
| once: "stutter xs ys \<Longrightarrow> stutter (xs @ [x]) (ys @ [x])"
| again: "stutter xs ys \<Longrightarrow> xs \<noteq> [] \<Longrightarrow> last xs = x \<Longrightarrow> stutter xs (ys @ [x])"

text \<open>
  The rows still to be delivered, and whether the first of them was already taken by the broker (in
  flight, or left behind by a crash).
\<close>

definition batch_prefix :: "system \<Rightarrow> bool" where
  "batch_prefix s \<longleftrightarrow> (\<exists>rest. ob_rows (table s) =
     (case pc s of Idle \<Rightarrow> [] | Batch rs \<Rightarrow> rs | InFlight r rs \<Rightarrow> r # rs) @ rest)"

definition sys_split :: "system \<Rightarrow> message list \<Rightarrow> message list \<Rightarrow> bool \<Rightarrow> bool" where
  "sys_split s done todo dup \<longleftrightarrow> history s = done @ todo \<and> stutter done (arrived s)
     \<and> queued (table s) = (if dup then last done # todo else todo) \<and> (dup \<longrightarrow> done \<noteq> [])
     \<and> ((\<exists>r rs. pc s = InFlight r rs) \<longrightarrow> dup)
     \<and> length (arrived s) + (if dup \<and> (\<forall>r rs. pc s \<noteq> InFlight r rs) then 1 else 0) \<le> length done + crashes s"

definition sys_inv :: "system \<Rightarrow> bool" where
  "sys_inv s \<longleftrightarrow> outbox_ok (table s) \<and> batch_prefix s \<and> (\<exists>done todo dup. sys_split s done todo dup)"

lemma queued_enqueue [simp]: "queued (enqueue t m q) = queued q @ [m]"
  by (simp add: queued_def enqueue_def)

lemma sys_step_inv:
  assumes "sys_step s t" and "sys_inv s"
  shows "sys_inv t"
  using assms(1)
proof cases
  case (direct m)
  from assms(2) obtain d todo dup where sp: "sys_split s d todo dup" by (auto simp: sys_inv_def)
  have "queued (table s) = []" using direct(2) by (simp add: pending_def queued_def)
  with sp have "todo = []" "\<not> dup" by (auto simp: sys_split_def split: if_splits)
  with sp have "sys_split t (d @ [m]) [] False"
    using direct(1) by (auto simp: sys_split_def intro: stutter.once)
  with assms(2) direct(1) show ?thesis unfolding sys_inv_def batch_prefix_def by auto
next
  case (store now m)
  from assms(2) obtain d todo dup where sp: "sys_split s d todo dup" by (auto simp: sys_inv_def)
  then have "sys_split t d (todo @ [m]) dup" using store by (auto simp: sys_split_def)
  moreover have "batch_prefix t"
    using assms(2) store by (force simp: sys_inv_def batch_prefix_def enqueue_def)
  ultimately show ?thesis using assms(2) store sqlite.valid_push by (auto simp: sys_inv_def)
next
  case fetch
  from assms(2) have "outbox_ok (table s)" by (simp add: sys_inv_def)
  then have "select_batch DRAIN_BATCH (table s) @ drop DRAIN_BATCH (ob_rows (table s)) = ob_rows (table s)"
    by (simp add: select_batch_ok)
  then have "batch_prefix t" using fetch(1) by (auto simp: batch_prefix_def intro: sym)
  moreover have "\<And>d todo dup. sys_split s d todo dup \<Longrightarrow> sys_split t d todo dup"
    using fetch by (auto simp: sys_split_def)
  ultimately show ?thesis using assms(2) fetch(1) by (fastforce simp: sys_inv_def)
next
  case (sent r rs)
  from assms(2) obtain d todo dup rest where sp: "sys_split s d todo dup"
    and rows: "ob_rows (table s) = r # rs @ rest"
    using sent(2) by (auto simp: sys_inv_def batch_prefix_def)
  have "\<exists>d' todo'. sys_split t d' todo' True"
  proof (cases dup)
    case True
    with sp rows have "row_msg r = last d" by (auto simp: sys_split_def queued_def)
    with sp True sent have "sys_split t d todo True"
      by (auto simp: sys_split_def intro: stutter.again)
    then show ?thesis by blast
  next
    case False
    with sp rows obtain todo' where "todo = row_msg r # todo'" by (auto simp: sys_split_def queued_def)
    with sp False sent have "sys_split t (d @ [row_msg r]) todo' True"
      by (auto simp: sys_split_def intro: stutter.once)
    then show ?thesis by blast
  qed
  with assms(2) sent rows show ?thesis by (auto simp: sys_inv_def batch_prefix_def)
next
  case (refused r rs)
  with assms(2) show ?thesis by (fastforce simp: sys_inv_def batch_prefix_def sys_split_def)
next
  case (deleted r rs)
  from assms(2) obtain d todo rest where sp: "sys_split s d todo True"
    and rows: "ob_rows (table s) = r # rs @ rest" and ok: "outbox_ok (table s)"
    using deleted(2) by (fastforce simp: sys_inv_def batch_prefix_def sys_split_def)
  from delete_head [OF ok rows] have q: "table t = (table s)\<lparr>ob_rows := rs @ rest\<rparr>" and "outbox_ok (table t)"
    using deleted(1) by simp_all
  moreover have "sys_split t d todo False"
    using sp deleted q rows by (auto simp: sys_split_def queued_def)
  ultimately show ?thesis using deleted(1) by (auto simp: sys_inv_def batch_prefix_def)
next
  case finished
  with assms(2) show ?thesis by (fastforce simp: sys_inv_def batch_prefix_def sys_split_def)
next
  case crash
  from assms(2) obtain d todo dup where sp: "sys_split s d todo dup" by (auto simp: sys_inv_def)
  then have "sys_split t d todo dup" using crash by (auto simp: sys_split_def)
  with assms(2) crash show ?thesis by (auto simp: sys_inv_def batch_prefix_def)
qed

lemma sys_reach_inv: "sys_reach s \<Longrightarrow> sys_inv s"
proof (induction rule: sys_reach.induct)
  case start
  have "sys_split sys_init [] [] False"
    by (simp add: sys_split_def sys_init_def queued_def new_outbox_def stutter.nil)
  then show ?case by (auto simp: sys_inv_def batch_prefix_def sys_init_def new_outbox_def outbox_ok_def)
qed (rule sys_step_inv)

text \<open>A crash between the broker's taking a message and its deletion: the message is sent again.\<close>

definition demo_twice :: system where
  "demo_twice =
     (let r = \<lparr>row_id = 1, row_msg = demo_msg, row_queued_at = 0\<rparr>
      in \<lparr>table = \<lparr>ob_rows = [r], ob_counter = 1\<rparr>, pc = InFlight r [], history = [demo_msg],
          arrived = [demo_msg, demo_msg], crashes = 1\<rparr>)"

lemma demo_twice_reached: "sys_reach demo_twice"
proof -
  let ?m = demo_msg
  let ?r = "\<lparr>row_id = 1, row_msg = ?m, row_queued_at = 0\<rparr>"
  let ?q = "\<lparr>ob_rows = [?r], ob_counter = 1\<rparr>"
  have sel: "select_batch DRAIN_BATCH ?q = [?r]" by (simp add: select_batch_def DRAIN_BATCH_def)
  have 1: "sys_reach \<lparr>table = ?q, pc = Idle, history = [?m], arrived = [], crashes = 0\<rparr>"
    using sys_reach.step [OF sys_reach.start sys_step.store [of _ 0 ?m]]
    by (simp add: sys_init_def enqueue_def new_outbox_def)
  have 2: "sys_reach \<lparr>table = ?q, pc = Batch [?r], history = [?m], arrived = [], crashes = 0\<rparr>"
    using sys_reach.step [OF 1 sys_step.fetch] sel by simp
  have 3: "sys_reach \<lparr>table = ?q, pc = InFlight ?r [], history = [?m], arrived = [?m], crashes = 0\<rparr>"
    using sys_reach.step [OF 2 sys_step.sent [of _ ?r "[]"]] by simp
  have 4: "sys_reach \<lparr>table = ?q, pc = Idle, history = [?m], arrived = [?m], crashes = 1\<rparr>"
    using sys_reach.step [OF 3 sys_step.crash] by simp
  have 5: "sys_reach \<lparr>table = ?q, pc = Batch [?r], history = [?m], arrived = [?m], crashes = 1\<rparr>"
    using sys_reach.step [OF 4 sys_step.fetch] sel by simp
  show ?thesis
    using sys_reach.step [OF 5 sys_step.sent [of _ ?r "[]"]] by (simp add: demo_twice_def Let_def)
qed

text \<open>
  With concurrent enqueues and crashes at any point, every prediction published is
  either taken by the broker or still in the table; the broker sees them oldest first, a message
  repeated only directly after itself, and there are at most as many repetitions as crashes.
\<close>

theorem at_least_once_in_order:
  assumes "sys_reach s"
  shows "\<exists>done todo. history s = done @ todo \<and> stutter done (arrived s)
    \<and> (queued (table s) = todo \<or> done \<noteq> [] \<and> queued (table s) = last done # todo)
    \<and> length (arrived s) \<le> length done + crashes s"
  using sys_reach_inv [OF assms] by (fastforce simp: sys_inv_def sys_split_def split: if_splits)

lemma at_least_once_in_order_witness:
  "arrived demo_twice = [demo_msg, demo_msg] \<and> (\<exists>done todo. history demo_twice = done @ todo \<and> stutter done (arrived demo_twice)
     \<and> length (arrived demo_twice) \<le> length done + crashes demo_twice)"
proof
  show "arrived demo_twice = [demo_msg, demo_msg]" by (simp add: demo_twice_def Let_def)
qed (use at_least_once_in_order [OF demo_twice_reached] in blast)

end
