(* ===== verification/Edge_Features.thy ===== *)
theory Edge_Features
  imports Twin_Prelude
begin

text \<open>
  Feature extraction (\<open>packages/pdm/.../features/__init__.py\<close>) and the edge's rolling window
  (\<open>apps/edge/edge/features.py\<close>). Measurements are reals: a \<open>float64\<close> operation is its exact value.
  A DataFrame restricted to the sensor columns is the list of its rows, a row the list of the
  sensors' values in column order.
\<close>

section \<open>Specification and statistics\<close>

record feature_spec =
  window_size :: nat
  stride :: nat
  stat_features :: "string list"
  sensor_cols :: "string list"

definition STAT_NAMES :: "string list" where
  "STAT_NAMES = [''mean'', ''std'', ''min'', ''max'', ''slope'', ''rms'', ''kurtosis'', ''last'']"

definition mean :: "real list \<Rightarrow> real" where
  "mean xs = sum_list xs / real (length xs)"

definition centred :: "real list \<Rightarrow> real list" where
  "centred xs = map (\<lambda>x. x - mean xs) xs"

definition std :: "real list \<Rightarrow> real" where
  "std xs = sqrt (mean (map (\<lambda>x. x\<^sup>2) (centred xs)))"

text \<open>The centred time axis \<open>x = arange(n) - (n - 1) / 2\<close>.\<close>

definition time_axis :: "nat \<Rightarrow> real list" where
  "time_axis n = map (\<lambda>t. real t - (real n - 1) / 2) [0..<n]"

definition slope :: "real list \<Rightarrow> real" where
  "slope xs =
     (let x = time_axis (length xs); denominator = (\<Sum>t\<leftarrow>x. t\<^sup>2)
      in if 0 < denominator then (\<Sum>(t, w)\<leftarrow>zip x xs. t * w) / denominator else 0)"

definition kurtosis :: "real list \<Rightarrow> real" where
  "kurtosis xs =
     (if std xs < 1 / 10 ^ 10 \<or> length xs < 4 then 0
      else mean (map (\<lambda>c. (c / std xs) ^ 4) (centred xs)) - 3)"

definition rms :: "real list \<Rightarrow> real" where
  "rms xs = sqrt (mean (map (\<lambda>x. x\<^sup>2) xs))"

text \<open>\<open>_window_stats\<close> for one sensor of one (non-empty) window, as the association list of its result.\<close>

definition window_stats :: "real list \<Rightarrow> (string \<times> real) list" where
  "window_stats xs =
     [(''mean'', mean xs), (''std'', std xs), (''min'', Min (set xs)), (''max'', Max (set xs)),
      (''slope'', slope xs), (''rms'', rms xs), (''kurtosis'', kurtosis xs), (''last'', last xs)]"

text \<open>\<open>compute_stats\<close>: an empty window has every statistic but \<open>last\<close>, all zero.\<close>

definition compute_stats :: "real list \<Rightarrow> (string \<times> real) list" where
  "compute_stats xs =
     (if xs = [] then map (\<lambda>s. (s, 0)) [''mean'', ''std'', ''min'', ''max'', ''slope'', ''rms'', ''kurtosis'']
      else window_stats xs)"

section \<open>Windows\<close>

definition rolling_windows :: "'a list \<Rightarrow> nat \<Rightarrow> nat \<Rightarrow> 'a list list" where
  "rolling_windows arr w s =
     (if length arr < w then []
      else map (\<lambda>k. take w (drop (k * s) arr)) [0..<(length arr - w) div s + 1])"

definition feature_names :: "string list \<Rightarrow> feature_spec \<Rightarrow> string list" where
  "feature_names cols spec =
     [sensor @ ''_'' @ stat. sensor \<leftarrow> cols, stat \<leftarrow> stat_features spec, stat \<in> set STAT_NAMES]"

text \<open>One output row: sensor-major, then statistic, in the order of \<open>feature_names\<close>.\<close>

definition column :: "real list list \<Rightarrow> nat \<Rightarrow> real list" where
  "column rows j = map (\<lambda>r. r ! j) rows"

definition feature_block :: "feature_spec \<Rightarrow> real list list \<Rightarrow> real list" where
  "feature_block spec window =
     [the (map_of (window_stats (column window j)) stat).
        j \<leftarrow> [0..<length (sensor_cols spec)], stat \<leftarrow> stat_features spec, stat \<in> set STAT_NAMES]"

text \<open>
  \<open>build_features\<close> without a group column and with explicit sensor columns: the position of each
  window's last row (the output index) and its features. An empty result is the empty frame.
\<close>

definition build_features :: "feature_spec \<Rightarrow> real list list \<Rightarrow> (nat \<times> real list) list" where
  "build_features spec frame =
     (let windows = rolling_windows frame (window_size spec) (stride spec)
      in zip (map (\<lambda>k. k * stride spec + window_size spec - 1) [0..<length windows])
             (map (feature_block spec) windows))"

section \<open>The rolling window\<close>

record 't rolling_window =
  rw_rows :: "('t \<times> (string \<times> real) list) list"
  rw_last :: "(string \<times> real) list"
  rw_since_emit :: nat

definition new_window :: "'t rolling_window" where
  "new_window = \<lparr>rw_rows = [], rw_last = [], rw_since_emit = 0\<rparr>"

text \<open>The last good value of every sensor, after one sample.\<close>

definition carry :: "string list \<Rightarrow> (string \<times> real option) list \<Rightarrow> (string \<times> real) list \<Rightarrow> (string \<times> real) list" where
  "carry cols metrics last_vals =
     foldl (\<lambda>d name. case map_of metrics name of Some (Some v) \<Rightarrow> dict_put name v d | _ \<Rightarrow> d) last_vals cols"

definition carried_row :: "string list \<Rightarrow> (string \<times> real) list \<Rightarrow> (string \<times> real) list" where
  "carried_row cols last_vals =
     dict_of (map (\<lambda>name. (name, case map_of last_vals name of None \<Rightarrow> 0 | Some v \<Rightarrow> v)) cols)"

definition window_add ::
  "feature_spec \<Rightarrow> 't \<Rightarrow> (string \<times> real option) list \<Rightarrow> 't rolling_window \<Rightarrow> bool \<times> 't rolling_window" where
  "window_add spec time metrics rw =
     (let last' = carry (sensor_cols spec) metrics (rw_last rw);
          rw1 = rw\<lparr>rw_last := last'\<rparr>
      in if \<not> (\<exists>name \<in> set (sensor_cols spec). name \<in> dom (map_of last')) then (False, rw1)
         else (let rows = deque_append (window_size spec) (rw_rows rw) (time, carried_row (sensor_cols spec) last');
                   since = Suc (rw_since_emit rw);
                   rw2 = rw1\<lparr>rw_rows := rows, rw_since_emit := since\<rparr>
               in if length rows = window_size spec \<and> stride spec \<le> since
                  then (True, rw2\<lparr>rw_since_emit := 0\<rparr>) else (False, rw2)))"

definition window_span :: "'t rolling_window \<Rightarrow> ('t \<times> 't) option" where
  "window_span rw = (case rw_rows rw of [] \<Rightarrow> None | r # rs \<Rightarrow> Some (fst r, fst (last (r # rs))))"

text \<open>
  \<open>vector\<close>: the features of the buffered rows with the stride set to the window size; \<open>None\<close> where
  \<open>iloc[-1]\<close> fails on an empty frame.
\<close>

definition row_values :: "string list \<Rightarrow> (string \<times> real) list \<Rightarrow> real list" where
  "row_values cols row = map (\<lambda>c. the (map_of row c)) cols"

definition window_vector :: "feature_spec \<Rightarrow> string list \<Rightarrow> 't rolling_window \<Rightarrow> real list option" where
  "window_vector spec names rw =
     (let frame = map (\<lambda>(_, row). row_values (sensor_cols spec) row) (rw_rows rw);
          feats = build_features (spec\<lparr>stride := window_size spec\<rparr>) frame
      in if feats = [] then None
         else (let row = zip (feature_names (sensor_cols spec) spec) (snd (last feats))
               in Some (map (\<lambda>n. case map_of row n of None \<Rightarrow> 0 | Some v \<Rightarrow> v) names)))"

section \<open>Facts on windows\<close>

lemma rolling_windows_length: "w \<le> length arr \<Longrightarrow> length (rolling_windows arr w s) = (length arr - w) div s + 1"
  by (simp add: rolling_windows_def)

lemma rolling_windows_nth:
  "w \<le> length arr \<Longrightarrow> k \<le> (length arr - w) div s \<Longrightarrow> rolling_windows arr w s ! k = take w (drop (k * s) arr)"
  by (simp add: rolling_windows_def del: upt_Suc)

lemma rolling_windows_size:
  assumes "0 < s" and "win \<in> set (rolling_windows arr w s)"
  shows "length win = w"
proof -
  from assms(2) have w: "w \<le> length arr" by (auto simp: rolling_windows_def split: if_splits)
  with assms(2) obtain k where k: "k \<le> (length arr - w) div s" and win: "win = take w (drop (k * s) arr)"
    by (auto simp: rolling_windows_def less_Suc_eq_le simp del: upt_Suc)
  have "k * s \<le> length arr - w" using k assms(1) by (simp add: less_eq_div_iff_mult_less_eq)
  with w win show ?thesis by simp
qed

lemma build_features_length:
  "window_size spec \<le> length frame \<Longrightarrow>
    length (build_features spec frame) = (length frame - window_size spec) div stride spec + 1"
  by (simp add: build_features_def rolling_windows_length)

lemma build_features_nth:
  assumes "window_size spec \<le> length frame" and "k \<le> (length frame - window_size spec) div stride spec"
  shows "build_features spec frame ! k =
    (k * stride spec + window_size spec - 1,
     feature_block spec (take (window_size spec) (drop (k * stride spec) frame)))"
  using assms by (simp add: build_features_def rolling_windows_length rolling_windows_nth del: upt_Suc)

text \<open>A frame of exactly one window has one row of features.\<close>

lemma build_features_single:
  assumes "length frame = window_size spec" and "0 < window_size spec"
  shows "build_features (spec\<lparr>stride := window_size spec\<rparr>) frame =
    [(window_size spec - 1, feature_block spec frame)]"
  using assms by (simp add: build_features_def rolling_windows_def feature_block_def)

section \<open>The run of a window\<close>

text \<open>
  The samples as \<open>add\<close> receives them; a sample is live once some sensor has had a good value.
\<close>

type_synonym 't sample = "'t \<times> (string \<times> real option) list"

definition run_window :: "feature_spec \<Rightarrow> 't sample list \<Rightarrow> bool list \<times> 't rolling_window" where
  "run_window spec samples =
     foldl (\<lambda>(outs, rw) (t, ms). let (b, rw') = window_add spec t ms rw in (outs @ [b], rw')) ([], new_window) samples"

definition carried :: "feature_spec \<Rightarrow> 't sample list \<Rightarrow> (string \<times> real) list" where
  "carried spec samples = foldl (\<lambda>d (t, ms). carry (sensor_cols spec) ms d) [] samples"

text \<open>The rows the samples amount to: one per sample, each with the values carried to that point.\<close>

definition history_rows :: "feature_spec \<Rightarrow> 't sample list \<Rightarrow> ('t \<times> (string \<times> real) list) list" where
  "history_rows spec samples =
     map (\<lambda>i. (fst (samples ! i), carried_row (sensor_cols spec) (carried spec (take (Suc i) samples))))
       [0..<length samples]"

definition live :: "feature_spec \<Rightarrow> 't sample list \<Rightarrow> bool" where
  "live spec samples \<longleftrightarrow> (\<forall>i < length samples. \<exists>name \<in> set (sensor_cols spec).
     name \<in> dom (map_of (carried spec (take (Suc i) samples))))"

text \<open>When the \<open>i\<close>-th sample (counted from one) is due for scoring.\<close>

definition due :: "feature_spec \<Rightarrow> nat \<Rightarrow> bool" where
  "due spec i \<longleftrightarrow> max (window_size spec) (stride spec) \<le> i
     \<and> (i - max (window_size spec) (stride spec)) mod stride spec = 0"

definition since_spec :: "feature_spec \<Rightarrow> nat \<Rightarrow> nat" where
  "since_spec spec i =
     (let m = max (window_size spec) (stride spec) in if i < m then i else (i - m) mod stride spec)"

lemma history_rows_snoc:
  "history_rows spec (samples @ [x]) =
    history_rows spec samples @ [(fst x, carried_row (sensor_cols spec) (carried spec (samples @ [x])))]"
  by (auto simp: history_rows_def nth_append)

lemma live_snoc:
  "live spec (samples @ [x]) \<longleftrightarrow> live spec samples
    \<and> (\<exists>name \<in> set (sensor_cols spec). name \<in> dom (map_of (carried spec (samples @ [x]))))"
  by (auto simp: live_def less_Suc_eq)

lemma length_history_rows [simp]: "length (history_rows spec samples) = length samples"
  by (simp add: history_rows_def)

lemma since_step:
  assumes "0 < stride spec"
  shows "since_spec spec (Suc i) = (if due spec (Suc i) then 0 else Suc (since_spec spec i))"
    and "due spec (Suc i) \<longleftrightarrow> window_size spec \<le> Suc i \<and> stride spec \<le> Suc (since_spec spec i)"
proof -
  let ?m = "max (window_size spec) (stride spec)"
  have A: "Suc i < ?m \<Longrightarrow> \<not> (window_size spec \<le> Suc i \<and> stride spec \<le> Suc i)" by auto
  have B: "?m \<le> i \<Longrightarrow> Suc i - ?m = Suc (i - ?m)" by (rule Suc_diff_le)
  have C: "(i - ?m) mod stride spec < stride spec" using assms by simp
  show "since_spec spec (Suc i) = (if due spec (Suc i) then 0 else Suc (since_spec spec i))"
    using B C by (cases "?m \<le> i"; cases "Suc i = ?m")
      (auto simp: since_spec_def due_def Let_def mod_Suc not_le)
  show "due spec (Suc i) \<longleftrightarrow> window_size spec \<le> Suc i \<and> stride spec \<le> Suc (since_spec spec i)"
    using B C by (cases "?m \<le> i"; cases "Suc i = ?m")
      (auto simp: since_spec_def due_def Let_def mod_Suc not_le)
qed

lemma run_window_state:
  assumes "0 < stride spec"
  shows "live spec samples \<Longrightarrow> run_window spec samples =
    (map (\<lambda>i. due spec (Suc i)) [0..<length samples],
     \<lparr>rw_rows = drop (length samples - window_size spec) (history_rows spec samples),
      rw_last = carried spec samples, rw_since_emit = since_spec spec (length samples)\<rparr>)"
proof (induction samples rule: rev_induct)
  case Nil
  show ?case using assms
    by (simp add: run_window_def new_window_def carried_def since_spec_def history_rows_def Let_def)
next
  case (snoc x samples)
  obtain t ms where x: "x = (t, ms)" by force
  let ?n = "length samples" and ?hist = "history_rows spec samples"
  from snoc.prems have live: "live spec samples"
    and some: "\<exists>name \<in> set (sensor_cols spec). name \<in> dom (map_of (carried spec (samples @ [x])))"
    by (simp_all add: live_snoc)
  note IH = snoc.IH [OF live]
  have last: "carry (sensor_cols spec) ms (carried spec samples) = carried spec (samples @ [x])"
    by (simp add: carried_def x)
  have rows: "deque_append (window_size spec) (drop (?n - window_size spec) ?hist)
        (t, carried_row (sensor_cols spec) (carried spec (samples @ [x])))
      = drop (Suc ?n - window_size spec) (history_rows spec (samples @ [x]))"
    using deque_append_suffix [of "drop (?n - window_size spec) ?hist" ?hist "window_size spec"]
    by (simp add: history_rows_snoc x)
  have full: "length (drop (Suc ?n - window_size spec) (history_rows spec (samples @ [x]))) = window_size spec
      \<longleftrightarrow> window_size spec \<le> Suc ?n"
    by auto
  have step: "run_window spec (samples @ [x]) =
      (let (outs, rw) = run_window spec samples; (b, rw') = window_add spec t ms rw in (outs @ [b], rw'))"
    by (simp add: run_window_def x split: prod.split)
  let ?rw = "\<lparr>rw_rows = drop (?n - window_size spec) ?hist, rw_last = carried spec samples,
      rw_since_emit = since_spec spec ?n\<rparr>"
  have "window_add spec t ms ?rw = (due spec (Suc ?n),
      \<lparr>rw_rows = drop (Suc ?n - window_size spec) (history_rows spec (samples @ [x])),
       rw_last = carried spec (samples @ [x]), rw_since_emit = since_spec spec (Suc ?n)\<rparr>)"
    using since_step [OF assms, of ?n] some full
    by (simp only: window_add_def Let_def last rows rolling_window.simps rolling_window.update_convs) auto
  then show ?case by (simp add: step IH)
qed

section \<open>Properties\<close>

text \<open>
  Fed live samples, the rolling window reports a window due exactly at the samples
  numbered \<open>m, m + stride, m + 2 stride, ..\<close> with \<open>m\<close> the larger of window size and stride; it then
  holds the last \<open>window_size\<close> rows of the history, where every sensor a message leaves out or
  marks bad keeps its last good value (0 before the first).
\<close>

theorem window_schedule:
  assumes "0 < stride spec" and "live spec samples"
  shows "fst (run_window spec samples) = map (\<lambda>i. due spec (Suc i)) [0..<length samples]
    \<and> rw_rows (snd (run_window spec samples)) = drop (length samples - window_size spec) (history_rows spec samples)"
  using run_window_state [OF assms] by simp

definition demo_spec :: feature_spec where
  "demo_spec = \<lparr>window_size = 2, stride = 2, stat_features = [''min'', ''last''], sensor_cols = [''a'', ''b'']\<rparr>"

definition demo_samples :: "string sample list" where
  "demo_samples = [(''t1'', [(''a'', Some 1)]), (''t2'', [(''b'', Some 5), (''a'', None)]),
     (''t3'', [(''a'', Some 3)]), (''t4'', [(''b'', None)])]"

lemma demo_spec_fields [simp]:
  "window_size demo_spec = 2" "stride demo_spec = 2" "stat_features demo_spec = [''min'', ''last'']"
  "sensor_cols demo_spec = [''a'', ''b'']"
  by (simp_all add: demo_spec_def)

lemma demo_length [simp]: "length demo_samples = 4"
  by (simp add: demo_samples_def)

lemma demo_live: "live demo_spec demo_samples"
  by (simp add: live_def carried_def carry_def demo_samples_def less_Suc_eq numeral_eq_Suc)

lemma demo_history:
  "history_rows demo_spec demo_samples =
     [(''t1'', [(''a'', 1), (''b'', 0)]), (''t2'', [(''a'', 1), (''b'', 5)]),
      (''t3'', [(''a'', 3), (''b'', 5)]), (''t4'', [(''a'', 3), (''b'', 5)])]"
  by (simp add: history_rows_def carried_def carry_def carried_row_def dict_of_def demo_samples_def numeral_eq_Suc)

lemma window_schedule_witness:
  "fst (run_window demo_spec demo_samples) = [False, True, False, True]
   \<and> rw_rows (snd (run_window demo_spec demo_samples)) =
      [(''t3'', [(''a'', 3), (''b'', 5)]), (''t4'', [(''a'', 3), (''b'', 5)])]"
proof -
  have "map (\<lambda>i. due demo_spec (Suc i)) [0..<4] = [False, True, False, True]"
    by (simp add: due_def numeral_eq_Suc)
  then show ?thesis using window_schedule [OF _ demo_live] by (simp add: demo_history)
qed

lemma length_concat_const: "(\<And>x. x \<in> set xs \<Longrightarrow> length (f x) = k) \<Longrightarrow> length (concat (map f xs)) = length xs * k"
  by (induction xs) auto

lemma length_feature_block: "length (feature_block spec win) = length (feature_names (sensor_cols spec) spec)"
proof -
  let ?k = "length (concat (map (\<lambda>stat. if stat \<in> set STAT_NAMES then [()] else []) (stat_features spec)))"
  have len: "length (concat (map (\<lambda>stat. if stat \<in> set STAT_NAMES then [g stat] else []) (stat_features spec))) = ?k"
    for g :: "string \<Rightarrow> 'c"
    by (induction "stat_features spec") (simp_all add: length_concat comp_def if_distrib cong: if_cong)
  have "length (feature_block spec win) = length [0..<length (sensor_cols spec)] * ?k"
    unfolding feature_block_def by (rule length_concat_const) (rule len)
  moreover have "length (feature_names (sensor_cols spec) spec) = length (sensor_cols spec) * ?k"
    unfolding feature_names_def by (rule length_concat_const) (rule len)
  ultimately show ?thesis by simp
qed

lemma map_of_zip_self: "distinct ks \<Longrightarrow> length ks = length vs \<Longrightarrow>
    map (\<lambda>n. case map_of (zip ks vs) n of None \<Rightarrow> d | Some v \<Rightarrow> v) ks = vs"
  by (rule nth_equalityI) (simp_all add: map_of_zip_nth)



section \<open>The statistics\<close>

lemma mean_bounds:
  assumes "xs \<noteq> []"
  shows "Min (set xs) \<le> mean xs \<and> mean xs \<le> Max (set xs)"
proof -
  have "real (length xs) * Min (set xs) \<le> sum_list xs" and "sum_list xs \<le> real (length xs) * Max (set xs)"
    using sum_list_mono [of xs "\<lambda>_. Min (set xs)" "\<lambda>x. x"] sum_list_mono [of xs "\<lambda>x. x" "\<lambda>_. Max (set xs)"]
    by (simp_all add: sum_list_triv)
  moreover have "0 < real (length xs)" using assms by simp
  ultimately show ?thesis by (simp add: mean_def field_simps)
qed

lemma sum_list_squares:
  "(\<Sum>x\<leftarrow>xs. (x - m)\<^sup>2) = (\<Sum>x\<leftarrow>xs. x\<^sup>2) - 2 * m * sum_list xs + real (length xs) * m\<^sup>2"
  by (induction xs) (simp_all add: power2_eq_square algebra_simps)

lemma mean_squares:
  assumes "xs \<noteq> []"
  shows "mean (map (\<lambda>x. x\<^sup>2) xs) = (mean xs)\<^sup>2 + mean (map (\<lambda>x. x\<^sup>2) (centred xs))"
proof -
  have n: "0 < real (length xs)" using assms by simp
  then have "sum_list xs = real (length xs) * mean xs" by (simp add: mean_def)
  then have "(\<Sum>x\<leftarrow>xs. (x - mean xs)\<^sup>2) = (\<Sum>x\<leftarrow>xs. x\<^sup>2) - real (length xs) * (mean xs)\<^sup>2"
    unfolding sum_list_squares by (simp add: power2_eq_square algebra_simps)
  then show ?thesis using n by (simp add: mean_def centred_def comp_def field_simps)
qed

lemma mean_squares_nonneg: "0 \<le> mean (map (\<lambda>x. x\<^sup>2) xs)"
  by (auto simp: mean_def intro!: divide_nonneg_nonneg sum_list_nonneg)

lemma sum_list_all_eq: "\<forall>x \<in> set xs. x = c \<Longrightarrow> sum_list xs = real (length xs) * c"
  by (induction xs) (auto simp: algebra_simps)

text \<open>
  The statistics of a window are consistent: the mean lies between the minimum and the
  maximum, the square of the root mean square is the square of the mean plus that of the standard
  deviation, and a flat window has zero spread and reports zero excess kurtosis.
\<close>

theorem window_stats_consistent:
  assumes "xs \<noteq> []"
  shows "the (map_of (window_stats xs) ''min'') \<le> the (map_of (window_stats xs) ''mean'')
    \<and> the (map_of (window_stats xs) ''mean'') \<le> the (map_of (window_stats xs) ''max'')
    \<and> (rms xs)\<^sup>2 = (mean xs)\<^sup>2 + (std xs)\<^sup>2
    \<and> ((\<forall>x \<in> set xs. x = hd xs) \<longrightarrow> std xs = 0 \<and> kurtosis xs = 0)"
proof -
  have "std xs = 0" if flat: "\<forall>x \<in> set xs. x = hd xs"
  proof -
    have "mean xs = hd xs" using sum_list_all_eq [OF flat] assms by (simp add: mean_def)
    then have "map (\<lambda>x. x\<^sup>2) (centred xs) = map (\<lambda>_. 0) xs" using flat by (simp add: centred_def)
    then show ?thesis by (simp add: std_def mean_def)
  qed
  moreover have "(rms xs)\<^sup>2 = (mean xs)\<^sup>2 + (std xs)\<^sup>2"
    using mean_squares [OF assms] mean_squares_nonneg [of xs] mean_squares_nonneg [of "centred xs"]
    by (simp add: rms_def std_def)
  ultimately show ?thesis using mean_bounds [OF assms] by (simp add: window_stats_def kurtosis_def)
qed

lemma window_stats_consistent_witness:
  "[3, 3, 3] \<noteq> ([]::real list) \<and> std [3, 3, 3] = 0 \<and> kurtosis [3, 3, 3] = 0 \<and> (rms [3, 3, 3])\<^sup>2 = 9"
proof -
  have "(mean [3, 3, 3])\<^sup>2 = 9" by (simp add: mean_def)
  then show ?thesis using window_stats_consistent [of "[3, 3, 3]"] by simp
qed

end
