(* ===== verification/Sim_Physics.thy ===== *)
theory Sim_Physics
  imports Twin_Prelude
begin

text \<open>
  Degradation physics of the simulator (\<open>apps/simulator/sim/physics/\<close>): the abstract
  \<open>DegradationProcess\<close> as a locale, and the Wiener, Gamma, motor-efficiency, Paris and Taylor models.

  Floats are reals. The random generator is the environment: a record of the draws the simulator
  makes, each a function of the generator's state; \<open>rng_ok\<close> states what numpy documents about their
  ranges. \<open>math.inf\<close> as a remaining life is \<^term>\<open>None\<close>.
\<close>

section \<open>Generator\<close>

record 'g rng =
  r_normal :: "'g \<Rightarrow> real \<times> 'g"
  r_lognormal :: "real \<Rightarrow> real \<Rightarrow> 'g \<Rightarrow> real \<times> 'g"
  r_uniform :: "real \<Rightarrow> real \<Rightarrow> 'g \<Rightarrow> real \<times> 'g"
  r_gamma :: "real \<Rightarrow> real \<Rightarrow> 'g \<Rightarrow> real \<times> 'g"
  r_binomial :: "nat \<Rightarrow> real \<Rightarrow> 'g \<Rightarrow> nat \<times> 'g"
  r_standard_normal :: "nat \<Rightarrow> 'g \<Rightarrow> real list \<times> 'g"
  r_random :: "nat \<Rightarrow> 'g \<Rightarrow> real list \<times> 'g"

definition rng_ok :: "'g rng \<Rightarrow> bool" where
  "rng_ok R \<longleftrightarrow> (\<forall>k \<theta> g. 0 < k \<longrightarrow> 0 \<le> \<theta> \<longrightarrow> 0 \<le> fst (r_gamma R k \<theta> g))
     \<and> (\<forall>\<mu> \<sigma> g. 0 < fst (r_lognormal R \<mu> \<sigma> g))
     \<and> (\<forall>a b g. a \<le> b \<longrightarrow> a \<le> fst (r_uniform R a b g) \<and> fst (r_uniform R a b g) \<le> b)
     \<and> (\<forall>n p g. fst (r_binomial R n p g) \<le> n)
     \<and> (\<forall>n g. length (fst (r_standard_normal R n g)) = n)
     \<and> (\<forall>n g. length (fst (r_random R n g)) = n \<and> (\<forall>u \<in> set (fst (r_random R n g)). 0 \<le> u \<and> u < 1))"

lemma rng_draws:
  assumes "rng_ok R"
  shows "0 < fst (r_lognormal R \<mu> \<sigma> g)"
    and "a \<le> b \<Longrightarrow> a \<le> fst (r_uniform R a b g)" and "a \<le> b \<Longrightarrow> fst (r_uniform R a b g) \<le> b"
    and "0 < k \<Longrightarrow> 0 \<le> \<theta> \<Longrightarrow> 0 \<le> fst (r_gamma R k \<theta> g)"
    and "fst (r_binomial R n q g) \<le> n"
    and "length (fst (r_standard_normal R n g)) = n" and "length (fst (r_random R n g)) = n"
    and "u \<in> set (fst (r_random R n g)) \<Longrightarrow> 0 \<le> u \<and> u < 1"
  using assms by (simp_all add: rng_ok_def)

section \<open>Conditions and Arrhenius acceleration\<close>

record conditions =
  cond_load :: real
  cond_speed :: real
  cond_temp :: "real option"

record arrhenius =
  activation_energy_ev :: real
  t_ref_c :: real

definition BOLTZMANN_EV_PER_K :: real where
  "BOLTZMANN_EV_PER_K = 8617333262 / 10 ^ 14"

definition KELVIN :: real where
  "KELVIN = 27315 / 100"

definition arrhenius_factor :: "arrhenius \<Rightarrow> real \<Rightarrow> real" where
  "arrhenius_factor A temp_c =
     (let t_k = max (temp_c + KELVIN) 1;
          inv_diff = 1 / (t_ref_c A + KELVIN) - 1 / t_k
      in exp (min (activation_energy_ev A / BOLTZMANN_EV_PER_K * inv_diff) 50))"

lemma arrhenius_factor_pos: "0 < arrhenius_factor A t"
  by (simp add: arrhenius_factor_def Let_def)

definition HOUR_S :: real where
  "HOUR_S = 3600"

text \<open>Python's \<open>x ** y\<close> for \<open>x \<ge> 0\<close>: \<open>0 ** 0\<close> is 1.\<close>

definition py_pow :: "real \<Rightarrow> real \<Rightarrow> real" where
  "py_pow x y = (if y = 0 then 1 else x powr y)"

lemma py_pow_nonneg [simp]: "0 \<le> py_pow x y"
  by (simp add: py_pow_def)

lemma py_pow_pos [simp]: "0 < x \<Longrightarrow> py_pow x y = x powr y"
  by (simp add: py_pow_def)

section \<open>The abstract process\<close>

text \<open>
  What a subclass defines, for a model state \<^typ>\<open>'s\<close>: damage, failure, acceleration, the advance by
  an equivalent reference duration, the remaining reference duration, a jump and a reset.
\<close>

record ('s, 'g) model_ops =
  m_damage :: "'s \<Rightarrow> real"
  m_failed :: "'s \<Rightarrow> bool"
  m_acceleration :: "'s \<Rightarrow> conditions \<Rightarrow> real"
  m_advance :: "'s \<Rightarrow> real \<Rightarrow> 'g \<Rightarrow> 's \<times> 'g"
  m_remaining :: "'s \<Rightarrow> real"
  m_jump :: "'s \<Rightarrow> real \<Rightarrow> 's"
  m_reset :: "'s \<Rightarrow> 's"

record 's process =
  p_driver :: string
  p_arrhenius :: "arrhenius option"
  p_rate_multiplier :: real
  p_state :: 's

definition process_rate :: "('s, 'g) model_ops \<Rightarrow> 's process \<Rightarrow> conditions \<Rightarrow> real" where
  "process_rate M p cond =
     (let factor = m_acceleration M (p_state p) cond * p_rate_multiplier p
      in case (p_arrhenius p, cond_temp cond) of
           (Some A, Some t) \<Rightarrow> factor * arrhenius_factor A t
         | _ \<Rightarrow> factor)"

definition process_step :: "('s, 'g) model_ops \<Rightarrow> real \<Rightarrow> conditions \<Rightarrow> 's process \<Rightarrow> 'g \<Rightarrow> 's process \<times> 'g" where
  "process_step M dt cond p g =
     (if dt \<le> 0 \<or> m_failed M (p_state p) then (p, g)
      else (let reference_s = dt * process_rate M p cond
            in if 0 < reference_s
               then (let (s, g') = m_advance M (p_state p) reference_s g in (p\<lparr>p_state := s\<rparr>, g'))
               else (p, g)))"

definition true_rul :: "('s, 'g) model_ops \<Rightarrow> 's process \<Rightarrow> conditions \<Rightarrow> real option" where
  "true_rul M p cond =
     (if m_failed M (p_state p) then Some 0
      else (let rate = process_rate M p cond
            in if rate \<le> 0 then None else Some (max (m_remaining M (p_state p)) 0 / rate)))"

definition process_jump :: "('s, 'g) model_ops \<Rightarrow> 's process \<Rightarrow> real \<Rightarrow> 's process" where
  "process_jump M p amount = p\<lparr>p_state := m_jump M (p_state p) amount\<rparr>"

definition process_reset :: "('s, 'g) model_ops \<Rightarrow> 's process \<Rightarrow> 's process" where
  "process_reset M p = p\<lparr>p_rate_multiplier := 1, p_state := m_reset M (p_state p)\<rparr>"

text \<open>The contract of a degradation model.\<close>

locale degradation =
  fixes M :: "('s, 'g) model_ops" and ok :: "'s \<Rightarrow> bool" and R :: "'g rng"
  assumes damage_range: "ok s \<Longrightarrow> 0 \<le> m_damage M s \<and> m_damage M s \<le> 1"
    and failed_iff: "ok s \<Longrightarrow> m_failed M s \<longleftrightarrow> m_damage M s = 1"
    and acceleration_nonneg: "0 \<le> m_acceleration M s c"
    and ok_advance: "rng_ok R \<Longrightarrow> ok s \<Longrightarrow> 0 < ref \<Longrightarrow> ok (fst (m_advance M s ref g))"
    and ok_jump: "ok s \<Longrightarrow> 0 \<le> a \<Longrightarrow> ok (m_jump M s a)"
    and jump_damage: "ok s \<Longrightarrow> 0 \<le> a \<Longrightarrow> m_damage M s \<le> m_damage M (m_jump M s a)"
    and ok_reset: "ok s \<Longrightarrow> ok (m_reset M s)"
    and reset_damage: "ok s \<Longrightarrow> m_damage M (m_reset M s) = 0"
    and remaining_nonneg: "ok s \<Longrightarrow> 0 \<le> m_remaining M s"
begin

lemma rate_nonneg:
  assumes "0 \<le> p_rate_multiplier p"
  shows "0 \<le> process_rate M p c"
  using assms acceleration_nonneg less_imp_le [OF arrhenius_factor_pos]
  by (auto simp: process_rate_def Let_def split: option.splits)

lemma ok_step:
  assumes "rng_ok R" and "ok (p_state p)"
  shows "ok (p_state (fst (process_step M dt c p g)))"
  using assms ok_advance by (auto simp: process_step_def Let_def split: prod.splits) (metis fst_conv)

lemma rul_nonneg: "ok (p_state p) \<Longrightarrow> true_rul M p c = Some r \<Longrightarrow> 0 \<le> r"
  by (auto simp: true_rul_def Let_def split: if_splits)

text \<open>
  Multiplying the rate so that the remaining life becomes \<open>target\<close> (a gradual fault injection).
\<close>

lemma rul_retarget:
  assumes r: "true_rul M p c = Some r" and pos: "0 < target" "target < r"
  shows "true_rul M (p\<lparr>p_rate_multiplier := p_rate_multiplier p * (r / target)\<rparr>) c = Some target"
proof -
  let ?p = "p\<lparr>p_rate_multiplier := p_rate_multiplier p * (r / target)\<rparr>"
  have nf: "\<not> m_failed M (p_state p)" using assms by (auto simp: true_rul_def)
  with r have rate: "0 < process_rate M p c" and r_eq: "r = max (m_remaining M (p_state p)) 0 / process_rate M p c"
    by (auto simp: true_rul_def Let_def split: if_splits)
  have "process_rate M ?p c = process_rate M p c * (r / target)"
    by (simp add: process_rate_def Let_def split: option.splits)
  moreover have "max (m_remaining M (p_state p)) 0 = r * process_rate M p c" using r_eq rate by simp
  ultimately show ?thesis
    using nf rate pos by (simp add: true_rul_def Let_def mult_le_0_iff zero_le_mult_iff not_le)
qed

lemma reset_fresh:
  "ok (p_state p) \<Longrightarrow> m_damage M (p_state (process_reset M p)) = 0 \<and> p_rate_multiplier (process_reset M p) = 1
    \<and> \<not> m_failed M (p_state (process_reset M p))"
  using failed_iff [OF ok_reset] by (simp add: process_reset_def reset_damage)

end

text \<open>Models whose wear never goes back, and models integrated exactly (no randomness).\<close>

locale monotone_degradation = degradation +
  assumes advance_mono: "rng_ok R \<Longrightarrow> ok s \<Longrightarrow> 0 < ref \<Longrightarrow> m_damage M s \<le> m_damage M (fst (m_advance M s ref g))"
begin

lemma step_mono:
  assumes "rng_ok R" and "ok (p_state p)"
  shows "m_damage M (p_state p) \<le> m_damage M (p_state (fst (process_step M dt c p g)))"
  using assms advance_mono [of "p_state p" "dt * process_rate M p c" g]
  by (auto simp: process_step_def Let_def split: prod.splits)

end

locale exact_degradation = degradation +
  assumes advance_failed_iff: "ok s \<Longrightarrow> \<not> m_failed M s \<Longrightarrow> 0 < ref \<Longrightarrow>
      m_failed M (fst (m_advance M s ref g)) \<longleftrightarrow> m_remaining M s \<le> ref"
    and advance_add: "ok s \<Longrightarrow> 0 < a \<Longrightarrow> 0 < b \<Longrightarrow>
      fst (m_advance M (fst (m_advance M s a g)) b g') = fst (m_advance M s (a + b) g'')"
    and advance_saturated: "ok s \<Longrightarrow> 0 < a \<Longrightarrow> 0 < b \<Longrightarrow> m_failed M (fst (m_advance M s a g)) \<Longrightarrow>
      fst (m_advance M s (a + b) g') = fst (m_advance M s a g)"
    and advance_acceleration: "ok s \<Longrightarrow> m_acceleration M (fst (m_advance M s ref g)) c = m_acceleration M s c"
begin

text \<open>At constant conditions the ground-truth remaining life is the exact time of failure.\<close>

lemma rul_exact:
  assumes "ok (p_state p)" and "\<not> m_failed M (p_state p)" and "true_rul M p c = Some r" and "0 < dt"
  shows "m_failed M (p_state (fst (process_step M dt c p g))) \<longleftrightarrow> r \<le> dt"
proof -
  have rate: "0 < process_rate M p c" and r: "r = m_remaining M (p_state p) / process_rate M p c"
    using assms(2,3) remaining_nonneg [OF assms(1)] by (auto simp: true_rul_def Let_def max_def split: if_splits)
  have "m_failed M (p_state (fst (process_step M dt c p g))) \<longleftrightarrow>
      m_failed M (fst (m_advance M (p_state p) (dt * process_rate M p c) g))"
    using assms(2,4) rate by (simp add: process_step_def Let_def split: prod.splits)
  also have "\<dots> \<longleftrightarrow> m_remaining M (p_state p) \<le> dt * process_rate M p c"
    using assms rate by (intro advance_failed_iff) simp_all
  also have "\<dots> \<longleftrightarrow> r \<le> dt" using rate by (simp add: r field_simps)
  finally show ?thesis .
qed

text \<open>Two steps at constant conditions are one: the step size does not matter.\<close>

lemma step_add:
  assumes ok: "ok (p_state p)" and dt: "0 < dt" "0 < dt'"
  shows "fst (process_step M dt' c (fst (process_step M dt c p g)) g') = fst (process_step M (dt + dt') c p g'')"
proof (cases "m_failed M (p_state p) \<or> \<not> 0 < process_rate M p c")
  case True
  then show ?thesis using dt by (auto simp: process_step_def Let_def zero_less_mult_iff)
next
  case False
  let ?r = "process_rate M p c"
  let ?s = "fst (m_advance M (p_state p) (dt * ?r) g)"
  have r: "0 < dt * ?r" "0 < dt' * ?r" "0 < (dt + dt') * ?r" using False dt by simp_all
  have one: "fst (process_step M d c p h) = p\<lparr>p_state := fst (m_advance M (p_state p) (d * ?r) h)\<rparr>"
    if "0 < d * ?r" for d h
    using that False by (auto simp: process_step_def Let_def zero_less_mult_iff split: prod.splits)
  have rate: "process_rate M (p\<lparr>p_state := ?s\<rparr>) c = ?r"
    by (simp add: process_rate_def Let_def advance_acceleration [OF ok])
  have sum: "fst (m_advance M (p_state p) ((dt + dt') * ?r) g'') = fst (m_advance M ?s (dt' * ?r) g')"
    using advance_add [OF ok r(1,2), of g g' g''] by (simp add: distrib_right)
  show ?thesis
  proof (cases "m_failed M ?s")
    case True
    with advance_saturated [OF ok r(1,2), of g g''] show ?thesis
      unfolding one [OF r(1)] one [OF r(3)] by (simp add: distrib_right process_step_def)
  next
    case False
    then show ?thesis
      using dt r unfolding one [OF r(1)] one [OF r(3)] sum
      by (simp add: process_step_def rate Let_def split: prod.splits)
  qed
qed

end

end
