(* ===== verification/Sim_Models.thy ===== *)
theory Sim_Models
  imports Sim_Physics
begin

text \<open>
  The degradation models of \<open>sim/physics\<close>: \<open>gamma.py\<close> and its subclass \<open>motor_efficiency.py\<close> (a record
  extension), \<open>wiener.py\<close>, \<open>paris_law.py\<close> and \<open>taylor_tool_life.py\<close>, each interpreted as an instance of
  the contract of theory \<open>Sim_Physics\<close>. Constructor arguments are assumed to be those of a catalog
  (positive lives and rates).
\<close>

section \<open>Gamma wear and motor efficiency\<close>

record gamma_state =
  shape_rate :: real
  scale :: real
  load_exp :: real
  speed_exp :: real
  x_wear :: real

record motor_state = gamma_state +
  eta0 :: real
  k_loss :: real

definition gamma_init :: "real \<Rightarrow> real \<Rightarrow> real \<Rightarrow> real \<Rightarrow> real \<Rightarrow> gamma_state" where
  "gamma_init life_h cv lexp sexp initial =
     (let life_s = life_h * HOUR_S; sr = 1 / (cv\<^sup>2 * life_s)
      in \<lparr>shape_rate = sr, scale = 1 / (sr * life_s), load_exp = lexp, speed_exp = sexp, x_wear = initial\<rparr>)"

definition motor_init :: "real \<Rightarrow> real \<Rightarrow> real \<Rightarrow> real \<Rightarrow> real \<Rightarrow> real \<Rightarrow> motor_state" where
  "motor_init life_h e0 k cv lexp initial =
     gamma_state.extend (gamma_init life_h cv lexp 0 initial) (motor_state.fields e0 k)"

definition gamma_damage :: "'a gamma_state_scheme \<Rightarrow> real" where
  "gamma_damage s = clamp 0 1 (x_wear s)"

definition mean_rate :: "'a gamma_state_scheme \<Rightarrow> real" where
  "mean_rate s = shape_rate s * scale s"

definition gamma_acceleration :: "'a gamma_state_scheme \<Rightarrow> conditions \<Rightarrow> real" where
  "gamma_acceleration s c =
     py_pow (max (cond_load c) 0) (load_exp s) * py_pow (max (cond_speed c) 0) (speed_exp s)"

definition gamma_advance :: "'g rng \<Rightarrow> 'a gamma_state_scheme \<Rightarrow> real \<Rightarrow> 'g \<Rightarrow> 'a gamma_state_scheme \<times> 'g" where
  "gamma_advance R s ref g =
     (let (draw, g') = r_gamma R (shape_rate s * ref) (scale s) g in (s\<lparr>x_wear := min (x_wear s + draw) 1\<rparr>, g'))"

definition gamma_remaining :: "'a gamma_state_scheme \<Rightarrow> real" where
  "gamma_remaining s = (1 - x_wear s) / mean_rate s"

definition gamma_jump :: "'a gamma_state_scheme \<Rightarrow> real \<Rightarrow> 'a gamma_state_scheme" where
  "gamma_jump s amount = s\<lparr>x_wear := min (x_wear s + amount) 1\<rparr>"

definition gamma_reset :: "'a gamma_state_scheme \<Rightarrow> 'a gamma_state_scheme" where
  "gamma_reset s = s\<lparr>x_wear := 0\<rparr>"

definition motor_efficiency :: "motor_state \<Rightarrow> real" where
  "motor_efficiency s = eta0 s - k_loss s * gamma_damage s"

definition gamma_ops :: "'g rng \<Rightarrow> ('a gamma_state_scheme, 'g) model_ops" where
  "gamma_ops R = \<lparr>m_damage = gamma_damage, m_failed = (\<lambda>s. 1 \<le> gamma_damage s),
     m_acceleration = gamma_acceleration, m_advance = gamma_advance R, m_remaining = gamma_remaining,
     m_jump = gamma_jump, m_reset = gamma_reset\<rparr>"

definition gamma_ok :: "'a gamma_state_scheme \<Rightarrow> bool" where
  "gamma_ok s \<longleftrightarrow> 0 < shape_rate s \<and> 0 < scale s \<and> 0 \<le> x_wear s \<and> x_wear s \<le> 1"

lemma gamma_draw: "rng_ok R \<Longrightarrow> 0 < k \<Longrightarrow> 0 \<le> \<theta> \<Longrightarrow> r_gamma R k \<theta> g = (d, g') \<Longrightarrow> 0 \<le> d"
  by (metis rng_ok_def fst_conv)

lemma clamp_top: "1 \<le> clamp 0 1 x \<longleftrightarrow> clamp 0 1 x = (1::real)"
  by (auto simp: clamp_def)

interpretation gamma: monotone_degradation "gamma_ops R :: ('a gamma_state_scheme, 'g) model_ops" gamma_ok R
  for R :: "'g rng"
proof
  fix s :: "'a gamma_state_scheme" and a ref :: real and c g
  assume ok: "gamma_ok s"
  show "0 \<le> m_damage (gamma_ops R) s \<and> m_damage (gamma_ops R) s \<le> 1"
    by (simp add: gamma_ops_def gamma_damage_def)
  show "m_failed (gamma_ops R) s \<longleftrightarrow> m_damage (gamma_ops R) s = 1"
    by (simp add: gamma_ops_def gamma_damage_def clamp_top)
  show "gamma_ok (m_reset (gamma_ops R) s)" using ok by (simp add: gamma_ops_def gamma_reset_def gamma_ok_def)
  show "m_damage (gamma_ops R) (m_reset (gamma_ops R) s) = 0"
    by (simp add: gamma_ops_def gamma_reset_def gamma_damage_def)
  show "0 \<le> m_remaining (gamma_ops R) s"
    using ok by (simp add: gamma_ops_def gamma_ok_def gamma_remaining_def mean_rate_def)
  have grow: "x_wear s \<le> min (x_wear s + d) 1" if "0 \<le> d" for d using ok that by (simp add: gamma_ok_def)
  show "0 \<le> a \<Longrightarrow> gamma_ok (m_jump (gamma_ops R) s a)"
    using ok by (simp add: gamma_ops_def gamma_jump_def gamma_ok_def)
  show "0 \<le> a \<Longrightarrow> m_damage (gamma_ops R) s \<le> m_damage (gamma_ops R) (m_jump (gamma_ops R) s a)"
    using clamp_mono [OF grow] by (simp add: gamma_ops_def gamma_jump_def gamma_damage_def)
  assume R: "rng_ok R" and ref: "0 < ref"
  obtain d g' where d: "r_gamma R (shape_rate s * ref) (scale s) g = (d, g')" by force
  have d0: "0 \<le> d" by (rule gamma_draw [OF R _ _ d]) (use ok ref in \<open>simp_all add: gamma_ok_def\<close>)
  show "gamma_ok (fst (m_advance (gamma_ops R) s ref g))"
    using ok d d0 by (simp add: gamma_ops_def gamma_advance_def gamma_ok_def)
  show "m_damage (gamma_ops R) s \<le> m_damage (gamma_ops R) (fst (m_advance (gamma_ops R) s ref g))"
    using clamp_mono [OF grow [OF d0]] d by (simp add: gamma_ops_def gamma_advance_def gamma_damage_def)
qed (simp add: gamma_ops_def gamma_acceleration_def)

section \<open>Wiener drift\<close>

record wiener_state =
  drift :: real
  diffusion :: real
  w_load_exp :: real
  w_speed_exp :: real
  level :: real
  w_failed :: bool

definition wiener_init :: "real \<Rightarrow> real \<Rightarrow> real \<Rightarrow> real \<Rightarrow> real \<Rightarrow> wiener_state" where
  "wiener_init life_h cv lexp sexp initial =
     (let life_s = life_h * HOUR_S
      in \<lparr>drift = 1 / life_s, diffusion = cv / sqrt life_s, w_load_exp = lexp, w_speed_exp = sexp,
          level = initial, w_failed = False\<rparr>)"

definition wiener_damage :: "wiener_state \<Rightarrow> real" where
  "wiener_damage s = (if w_failed s then 1 else clamp 0 1 (level s))"

definition wiener_acceleration :: "wiener_state \<Rightarrow> conditions \<Rightarrow> real" where
  "wiener_acceleration s c =
     py_pow (max (cond_load c) 0) (w_load_exp s) * py_pow (max (cond_speed c) 0) (w_speed_exp s)"

definition set_level :: "wiener_state \<Rightarrow> real \<Rightarrow> wiener_state" where
  "set_level s l = s\<lparr>level := min l 1, w_failed := 1 \<le> l\<rparr>"

definition wiener_advance :: "'g rng \<Rightarrow> wiener_state \<Rightarrow> real \<Rightarrow> 'g \<Rightarrow> wiener_state \<times> 'g" where
  "wiener_advance R s ref g =
     (let (z, g') = r_normal R g; noise = diffusion s * sqrt ref * z
      in (set_level s (level s + drift s * ref + noise), g'))"

definition wiener_remaining :: "wiener_state \<Rightarrow> real" where
  "wiener_remaining s = (1 - level s) / drift s"

definition wiener_jump :: "wiener_state \<Rightarrow> real \<Rightarrow> wiener_state" where
  "wiener_jump s amount = set_level s (level s + amount)"

definition wiener_reset :: "wiener_state \<Rightarrow> wiener_state" where
  "wiener_reset s = s\<lparr>level := 0, w_failed := False\<rparr>"

definition wiener_ops :: "'g rng \<Rightarrow> (wiener_state, 'g) model_ops" where
  "wiener_ops R = \<lparr>m_damage = wiener_damage, m_failed = w_failed, m_acceleration = wiener_acceleration,
     m_advance = wiener_advance R, m_remaining = wiener_remaining, m_jump = wiener_jump, m_reset = wiener_reset\<rparr>"

definition wiener_ok :: "wiener_state \<Rightarrow> bool" where
  "wiener_ok s \<longleftrightarrow> 0 < drift s \<and> level s \<le> 1 \<and> (w_failed s \<longleftrightarrow> level s = 1)"

interpretation wiener: degradation "wiener_ops R" wiener_ok R for R :: "'g rng"
proof
  fix s :: wiener_state and a ref :: real and c g
  assume ok: "wiener_ok s"
  show "0 \<le> m_damage (wiener_ops R) s \<and> m_damage (wiener_ops R) s \<le> 1"
    by (simp add: wiener_ops_def wiener_damage_def)
  show "m_failed (wiener_ops R) s \<longleftrightarrow> m_damage (wiener_ops R) s = 1"
    using ok by (auto simp: wiener_ops_def wiener_damage_def wiener_ok_def clamp_def min_def max_def split: if_splits)
  show "wiener_ok (m_reset (wiener_ops R) s)" and "m_damage (wiener_ops R) (m_reset (wiener_ops R) s) = 0"
    and "0 \<le> m_remaining (wiener_ops R) s"
    using ok by (simp_all add: wiener_ops_def wiener_reset_def wiener_ok_def wiener_damage_def wiener_remaining_def)
  show "0 \<le> a \<Longrightarrow> wiener_ok (m_jump (wiener_ops R) s a)"
    and "0 \<le> a \<Longrightarrow> m_damage (wiener_ops R) s \<le> m_damage (wiener_ops R) (m_jump (wiener_ops R) s a)"
    using ok by (auto simp: wiener_ops_def wiener_jump_def set_level_def wiener_ok_def wiener_damage_def clamp_def)
  show "rng_ok R \<Longrightarrow> 0 < ref \<Longrightarrow> wiener_ok (fst (m_advance (wiener_ops R) s ref g))"
    using ok by (auto simp: wiener_ops_def wiener_advance_def set_level_def wiener_ok_def Let_def split: prod.splits)
qed (simp add: wiener_ops_def wiener_acceleration_def)

section \<open>Taylor tool life\<close>

record taylor_state =
  n_exp :: real
  v_ref :: real
  c_const :: real
  life_ref_s :: real
  vb_max_mm :: real
  feed_exp :: real
  wear :: real

definition taylor_init :: "real \<Rightarrow> real \<Rightarrow> real \<Rightarrow> real \<Rightarrow> real \<Rightarrow> real \<Rightarrow> taylor_state" where
  "taylor_init life_h cutting_speed n vb_max feed initial =
     \<lparr>n_exp = n, v_ref = cutting_speed, c_const = cutting_speed * py_pow (life_h * 60) n,
      life_ref_s = life_h * HOUR_S, vb_max_mm = vb_max, feed_exp = feed, wear = min initial 1\<rparr>"

definition flank_wear_mm :: "taylor_state \<Rightarrow> real" where
  "flank_wear_mm s = wear s * vb_max_mm s"

definition tool_life_min :: "taylor_state \<Rightarrow> real \<Rightarrow> real" where
  "tool_life_min s v = py_pow (c_const s / v) (1 / n_exp s)"

definition taylor_acceleration :: "taylor_state \<Rightarrow> conditions \<Rightarrow> real" where
  "taylor_acceleration s c =
     py_pow (max (cond_speed c) 0) (1 / n_exp s) * py_pow (max (cond_load c) 0) (feed_exp s)"

definition taylor_advance :: "taylor_state \<Rightarrow> real \<Rightarrow> 'g \<Rightarrow> taylor_state \<times> 'g" where
  "taylor_advance s ref g = (s\<lparr>wear := min (wear s + ref / life_ref_s s) 1\<rparr>, g)"

definition taylor_remaining :: "taylor_state \<Rightarrow> real" where
  "taylor_remaining s = (1 - wear s) * life_ref_s s"

definition taylor_jump :: "taylor_state \<Rightarrow> real \<Rightarrow> taylor_state" where
  "taylor_jump s amount = s\<lparr>wear := min (wear s + amount) 1\<rparr>"

definition taylor_reset :: "taylor_state \<Rightarrow> taylor_state" where
  "taylor_reset s = s\<lparr>wear := 0\<rparr>"

definition taylor_ops :: "(taylor_state, 'g) model_ops" where
  "taylor_ops = \<lparr>m_damage = wear, m_failed = (\<lambda>s. 1 \<le> wear s), m_acceleration = taylor_acceleration,
     m_advance = taylor_advance, m_remaining = taylor_remaining, m_jump = taylor_jump, m_reset = taylor_reset\<rparr>"

definition taylor_ok :: "taylor_state \<Rightarrow> bool" where
  "taylor_ok s \<longleftrightarrow> 0 < life_ref_s s \<and> 0 \<le> wear s \<and> wear s \<le> 1"

interpretation taylor: monotone_degradation "taylor_ops :: (taylor_state, 'g) model_ops" taylor_ok R
  for R :: "'g rng"
  by unfold_locales
    (auto simp: taylor_ops_def taylor_ok_def taylor_acceleration_def taylor_advance_def taylor_jump_def
      taylor_reset_def taylor_remaining_def)

interpretation taylor: exact_degradation "taylor_ops :: (taylor_state, 'g) model_ops" taylor_ok R
  for R :: "'g rng"
proof
  fix s :: taylor_state and a b ref :: real and g g' g'' :: 'g and c
  assume ok: "taylor_ok s"
  show "\<not> m_failed taylor_ops s \<Longrightarrow> 0 < ref \<Longrightarrow>
      m_failed taylor_ops (fst (m_advance taylor_ops s ref g)) \<longleftrightarrow> m_remaining taylor_ops s \<le> ref"
    using ok by (simp add: taylor_ops_def taylor_advance_def taylor_remaining_def taylor_ok_def field_simps)
  show "m_acceleration taylor_ops (fst (m_advance taylor_ops s ref g)) c = m_acceleration taylor_ops s c"
    by (simp add: taylor_ops_def taylor_advance_def taylor_acceleration_def)
  assume "0 < a" "0 < b"
  then have "0 < a / life_ref_s s" "0 < b / life_ref_s s" using ok by (simp_all add: taylor_ok_def)
  then show "m_failed taylor_ops (fst (m_advance taylor_ops s a g)) \<Longrightarrow>
      fst (m_advance taylor_ops s (a + b) g') = fst (m_advance taylor_ops s a g)"
    by (simp add: taylor_ops_def taylor_advance_def add_divide_distrib)
  from \<open>0 < a / life_ref_s s\<close> \<open>0 < b / life_ref_s s\<close> have "min (min (wear s + a / life_ref_s s) 1 + b / life_ref_s s) 1 = min (wear s + (a / life_ref_s s + b / life_ref_s s)) 1"
    by (simp add: min_def)
  then show "fst (m_advance taylor_ops (fst (m_advance taylor_ops s a g)) b g') =
      fst (m_advance taylor_ops s (a + b) g'')"
    by (simp add: taylor_ops_def taylor_advance_def add_divide_distrib)
qed

section \<open>Paris crack growth\<close>

record paris_state =
  m_exp :: real
  k_exp :: real
  a_zero :: real
  a_crit :: real
  cycles_per_s :: real
  g_rate :: real
  c_paris :: real
  crack :: real

text \<open>\<open>math.isclose\<close> with its default relative tolerance.\<close>

definition is_close :: "real \<Rightarrow> real \<Rightarrow> bool" where
  "is_close x y \<longleftrightarrow> \<bar>x - y\<bar> \<le> max \<bar>x\<bar> \<bar>y\<bar> / 10 ^ 9"

definition paris_damage :: "paris_state \<Rightarrow> real" where
  "paris_damage s = clamp 0 1 ((crack s - a_zero s) / (a_crit s - a_zero s))"

definition crack_mm :: "paris_state \<Rightarrow> real" where
  "crack_mm s = crack s * 1000"

definition paris_acceleration :: "paris_state \<Rightarrow> conditions \<Rightarrow> real" where
  "paris_acceleration s c = max (cond_speed c) 0 * py_pow (max (cond_load c) 0) (m_exp s)"

definition remaining_cycles :: "paris_state \<Rightarrow> real" where
  "remaining_cycles s = (py_pow (a_crit s) (k_exp s) - py_pow (crack s) (k_exp s)) / (k_exp s * g_rate s)"

definition paris_advance :: "paris_state \<Rightarrow> real \<Rightarrow> 'g \<Rightarrow> paris_state \<times> 'g" where
  "paris_advance s ref g =
     (let target = py_pow (crack s) (k_exp s) + k_exp s * g_rate s * ref * cycles_per_s s;
          crit = py_pow (a_crit s) (k_exp s);
          reached = (if k_exp s < 0 then target \<le> crit else crit \<le> target)
      in (s\<lparr>crack := (if reached then a_crit s else min (py_pow target (1 / k_exp s)) (a_crit s))\<rparr>, g))"

definition paris_remaining :: "paris_state \<Rightarrow> real" where
  "paris_remaining s = remaining_cycles s / cycles_per_s s"

definition paris_jump :: "paris_state \<Rightarrow> real \<Rightarrow> paris_state" where
  "paris_jump s amount =
     (let d = min (paris_damage s + amount) 1 in s\<lparr>crack := a_zero s + d * (a_crit s - a_zero s)\<rparr>)"

definition paris_reset :: "paris_state \<Rightarrow> paris_state" where
  "paris_reset s = s\<lparr>crack := a_zero s\<rparr>"

definition paris_init ::
  "real \<Rightarrow> real \<Rightarrow> real \<Rightarrow> real \<Rightarrow> real \<Rightarrow> real \<Rightarrow> real \<Rightarrow> real \<Rightarrow> string + paris_state" where
  "paris_init life_h rpm m a0_mm a_crit_mm stress_mpa y initial =
     (if is_close m 2 then Inl ''Paris exponent m = 2 is not supported by the closed form''
      else let k = 1 - m / 2; a0 = a0_mm / 1000; ac = a_crit_mm / 1000; cps = rpm / 60;
               life_cycles = life_h * HOUR_S * cps;
               g = (py_pow ac k - py_pow a0 k) / (k * life_cycles)
           in Inr (paris_jump
                \<lparr>m_exp = m, k_exp = k, a_zero = a0, a_crit = ac, cycles_per_s = cps, g_rate = g,
                 c_paris = g / py_pow (y * stress_mpa * sqrt pi) m, crack = a0\<rparr> initial))"

definition paris_ops :: "(paris_state, 'g) model_ops" where
  "paris_ops = \<lparr>m_damage = paris_damage, m_failed = (\<lambda>s. 1 \<le> paris_damage s), m_acceleration = paris_acceleration,
     m_advance = paris_advance, m_remaining = paris_remaining, m_jump = paris_jump, m_reset = paris_reset\<rparr>"

definition paris_ok :: "paris_state \<Rightarrow> bool" where
  "paris_ok s \<longleftrightarrow> 0 < a_zero s \<and> a_zero s < a_crit s \<and> k_exp s \<noteq> 0 \<and> 0 < g_rate s \<and> 0 < cycles_per_s s
     \<and> a_zero s \<le> crack s \<and> crack s \<le> a_crit s"

text \<open>Remaining cycles fall strictly as the crack grows, whatever the sign of \<open>k\<close>.\<close>

lemma remaining_cycles_less:
  assumes "paris_ok s" and "0 < x" and "x < y"
  shows "remaining_cycles (s\<lparr>crack := y\<rparr>) < remaining_cycles (s\<lparr>crack := x\<rparr>)"
proof (cases "k_exp s < 0")
  case True
  then have "y powr k_exp s < x powr k_exp s" using assms by (intro powr_less_mono2_neg) auto
  moreover have "k_exp s * g_rate s < 0" using True assms by (simp add: paris_ok_def mult_less_0_iff)
  ultimately show ?thesis using assms by (simp add: remaining_cycles_def divide_strict_right_mono_neg)
next
  case False
  with assms have k: "0 < k_exp s" by (simp add: paris_ok_def)
  then have "x powr k_exp s < y powr k_exp s" using assms by (intro powr_less_mono2) auto
  moreover have "0 < k_exp s * g_rate s" using k assms by (simp add: paris_ok_def)
  ultimately show ?thesis using assms by (simp add: remaining_cycles_def divide_strict_right_mono)
qed

lemma remaining_cycles_le_iff:
  assumes "paris_ok s" and "0 < x" and "0 < y"
  shows "remaining_cycles (s\<lparr>crack := y\<rparr>) \<le> remaining_cycles (s\<lparr>crack := x\<rparr>) \<longleftrightarrow> x \<le> y"
  using remaining_cycles_less [OF assms(1,2), of y] remaining_cycles_less [OF assms(1,3), of x]
  by (cases x y rule: linorder_cases) auto

lemma remaining_cycles_crit [simp]: "remaining_cycles (s\<lparr>crack := a_crit s\<rparr>) = 0"
  by (simp add: remaining_cycles_def)

lemma remaining_cycles_nonneg: "paris_ok s \<Longrightarrow> 0 \<le> remaining_cycles s"
  using remaining_cycles_le_iff [of s "crack s" "a_crit s"] by (simp add: paris_ok_def)

text \<open>One advance: the critical crack, or a crack with exactly that many cycles fewer left.\<close>

lemma paris_advance_cases:
  fixes s ref g
  defines "s' \<equiv> fst (paris_advance s ref g)"
  assumes ok: "paris_ok s" and ref: "0 < ref"
  shows "if remaining_cycles s \<le> ref * cycles_per_s s then s' = s\<lparr>crack := a_crit s\<rparr>
    else (\<exists>x. s' = s\<lparr>crack := x\<rparr> \<and> 0 < x \<and> remaining_cycles s' = remaining_cycles s - ref * cycles_per_s s)"
proof -
  let ?k = "k_exp s" and ?g = "g_rate s" and ?n = "ref * cycles_per_s s"
  let ?t = "crack s powr ?k + ?k * ?g * ?n"
  have pos: "0 < crack s" "0 < a_crit s" "0 < ?g" "?k \<noteq> 0" using ok by (auto simp: paris_ok_def)
  have rem: "remaining_cycles s = (a_crit s powr ?k - crack s powr ?k) / (?k * ?g)"
    using pos by (simp add: remaining_cycles_def)
  have adv: "s' = s\<lparr>crack := (if (if ?k < 0 then ?t \<le> a_crit s powr ?k else a_crit s powr ?k \<le> ?t)
      then a_crit s else min (py_pow ?t (1 / ?k)) (a_crit s))\<rparr>"
    using pos by (simp add: s'_def paris_advance_def Let_def mult.assoc)
  have reached: "(if ?k < 0 then ?t \<le> a_crit s powr ?k else a_crit s powr ?k \<le> ?t) \<longleftrightarrow> remaining_cycles s \<le> ?n"
    using pos by (auto simp: rem divide_le_eq mult_less_0_iff zero_less_mult_iff field_simps)
  show ?thesis
  proof (cases "remaining_cycles s \<le> ?n")
    case True
    then show ?thesis using adv reached by simp
  next
    case False
    with reached have beyond: "if ?k < 0 then a_crit s powr ?k < ?t else ?t < a_crit s powr ?k"
      by (auto split: if_splits)
    have "0 \<le> ?n" using ok ref by (simp add: paris_ok_def)
    have t: "0 < ?t"
    proof (cases "?k < 0")
      case True
      have "0 < a_crit s powr ?k" using pos by simp
      also have "\<dots> < ?t" using beyond True by simp
      finally show ?thesis .
    next
      case False
      with pos \<open>0 \<le> ?n\<close> have "0 \<le> ?k * ?g * ?n" by simp
      then show ?thesis using pos by (simp add: add_pos_nonneg)
    qed
    then have inv: "(?t powr (1 / ?k)) powr ?k = ?t" using pos by (simp add: powr_powr)
    have "?t powr (1 / ?k) \<le> a_crit s"
    proof (rule ccontr)
      assume "\<not> ?thesis"
      then have "if ?k < 0 then (?t powr (1 / ?k)) powr ?k \<le> a_crit s powr ?k else a_crit s powr ?k \<le> (?t powr (1 / ?k)) powr ?k"
        using pos powr_mono2 [of ?k "a_crit s" "?t powr (1 / ?k)"] powr_mono2' [of ?k "a_crit s" "?t powr (1 / ?k)"]
        by simp
      with beyond inv show False by (auto split: if_splits)
    qed
    then have s': "s' = s\<lparr>crack := ?t powr (1 / ?k)\<rparr>" using adv reached False t by (simp add: min_def)
    moreover have "remaining_cycles s' = remaining_cycles s - ?n"
      unfolding s' rem using pos t inv by (simp add: remaining_cycles_def field_simps)
    moreover have "0 < ?t powr (1 / ?k)" using t by simp
    ultimately show ?thesis using False by auto
  qed
qed

lemma paris_advance_state: "\<exists>x. fst (paris_advance s ref g) = s\<lparr>crack := x\<rparr>"
  by (auto simp: paris_advance_def Let_def)

lemma paris_advance_grows:
  assumes ok: "paris_ok s" and ref: "0 < ref"
  shows "crack s \<le> crack (fst (paris_advance s ref g)) \<and>
    (if remaining_cycles s \<le> ref * cycles_per_s s then crack (fst (paris_advance s ref g)) = a_crit s
     else crack (fst (paris_advance s ref g)) < a_crit s)"
proof (cases "remaining_cycles s \<le> ref * cycles_per_s s")
  case True
  then show ?thesis using paris_advance_cases [OF ok ref, of g] ok by (simp add: paris_ok_def)
next
  case False
  then obtain x where x: "fst (paris_advance s ref g) = s\<lparr>crack := x\<rparr>" "0 < x"
    and rem: "remaining_cycles (s\<lparr>crack := x\<rparr>) = remaining_cycles s - ref * cycles_per_s s"
    using paris_advance_cases [OF ok ref, of g] by auto
  have "0 < ref * cycles_per_s s" using ok ref by (simp add: paris_ok_def)
  with rem False remaining_cycles_le_iff [OF ok _ x(2), of "crack s"] remaining_cycles_le_iff [OF ok x(2), of "a_crit s"]
    remaining_cycles_le_iff [OF ok _ x(2), of "a_crit s"] ok
  show ?thesis by (simp add: x paris_ok_def)
qed

lemma paris_advance_ok:
  assumes "paris_ok s" and "0 < ref"
  shows "paris_ok (fst (paris_advance s ref g))"
  using assms(1) paris_advance_grows [OF assms, of g] paris_advance_state [of s ref g]
  by (auto simp: paris_ok_def split: if_splits)

lemma paris_damage_ok:
  "paris_ok s \<Longrightarrow> paris_damage s = (crack s - a_zero s) / (a_crit s - a_zero s)"
  unfolding paris_damage_def by (rule clamp_id) (simp_all add: paris_ok_def)

lemma paris_failed_iff: "paris_ok s \<Longrightarrow> 1 \<le> paris_damage s \<longleftrightarrow> crack s = a_crit s"
  by (auto simp: paris_damage_ok) (auto simp: paris_ok_def)

lemma paris_damage_mono:
  "paris_ok s \<Longrightarrow> crack s \<le> x \<Longrightarrow> paris_damage s \<le> paris_damage (s\<lparr>crack := x\<rparr>)"
  unfolding paris_damage_def by (rule clamp_mono) (simp add: paris_ok_def divide_right_mono)

text \<open>A jump moves the damage itself.\<close>

lemma paris_jump_ok:
  assumes "paris_ok s" and "0 \<le> d"
  shows "paris_ok (paris_jump s d)" and "paris_damage (paris_jump s d) = min (paris_damage s + d) 1"
proof -
  let ?d = "min (paris_damage s + d) 1"
  have d: "0 \<le> ?d" "?d \<le> 1" using assms(2) by (simp_all add: paris_damage_def)
  have w: "0 < a_crit s - a_zero s" using assms(1) by (simp add: paris_ok_def)
  have "?d * (a_crit s - a_zero s) \<le> a_crit s - a_zero s" using d w by (simp add: mult_left_le_one_le)
  then have "a_zero s + ?d * (a_crit s - a_zero s) \<le> a_crit s" by linarith
  moreover have "0 \<le> ?d * (a_crit s - a_zero s)" using d w by simp
  ultimately show ok: "paris_ok (paris_jump s d)"
    using assms(1) unfolding paris_ok_def paris_jump_def Let_def by (simp del: mult_eq_0_iff)
  show "paris_damage (paris_jump s d) = ?d"
    using w unfolding paris_damage_ok [OF ok] by (simp add: paris_jump_def Let_def)
qed

interpretation paris: monotone_degradation "paris_ops :: (paris_state, 'g) model_ops" paris_ok R
  for R :: "'g rng"
proof
  fix s :: paris_state and a ref :: real and c g
  assume ok: "paris_ok s"
  show "0 \<le> m_damage paris_ops s \<and> m_damage paris_ops s \<le> 1"
    by (simp add: paris_ops_def paris_damage_def)
  show "m_failed paris_ops s \<longleftrightarrow> m_damage paris_ops s = 1"
    by (simp add: paris_ops_def paris_damage_def clamp_top)
  show "paris_ok (m_reset paris_ops s)" using ok by (simp add: paris_ops_def paris_reset_def paris_ok_def)
  show "m_damage paris_ops (m_reset paris_ops s) = 0"
    by (simp add: paris_ops_def paris_reset_def paris_damage_def)
  show "0 \<le> m_remaining paris_ops s"
    using ok remaining_cycles_nonneg [OF ok] by (simp add: paris_ops_def paris_remaining_def paris_ok_def)
  show "0 \<le> a \<Longrightarrow> paris_ok (m_jump paris_ops s a)"
    using paris_jump_ok(1) [OF ok] by (simp add: paris_ops_def)
  show "0 \<le> a \<Longrightarrow> m_damage paris_ops s \<le> m_damage paris_ops (m_jump paris_ops s a)"
    using paris_jump_ok(2) [OF ok, of a] by (simp add: paris_ops_def paris_damage_def)
  assume "0 < ref"
  then show "paris_ok (fst (m_advance paris_ops s ref g))"
    using paris_advance_ok [OF ok] by (simp add: paris_ops_def)
  obtain x where x: "fst (paris_advance s ref g) = s\<lparr>crack := x\<rparr>" using paris_advance_state [of s ref g] by auto
  with paris_advance_grows [OF ok \<open>0 < ref\<close>, of g] have "crack s \<le> x" by simp
  from paris_damage_mono [OF ok this] x
  show "m_damage paris_ops s \<le> m_damage paris_ops (fst (m_advance paris_ops s ref g))"
    by (simp add: paris_ops_def)
qed (simp add: paris_ops_def paris_acceleration_def)

text \<open>A crack is determined by the cycles it has left.\<close>

lemma remaining_cycles_inj:
  "paris_ok s \<Longrightarrow> 0 < x \<Longrightarrow> 0 < y \<Longrightarrow> remaining_cycles (s\<lparr>crack := x\<rparr>) = remaining_cycles (s\<lparr>crack := y\<rparr>) \<Longrightarrow> x = y"
  using remaining_cycles_le_iff [of s x y] remaining_cycles_le_iff [of s y x] by simp

lemma paris_advance_remaining:
  assumes "paris_ok s" and "0 < ref"
  shows "remaining_cycles (fst (paris_advance s ref g)) = max (remaining_cycles s - ref * cycles_per_s s) 0"
  using paris_advance_cases [OF assms, of g] by (auto split: if_splits)

lemma paris_advance_add:
  assumes ok: "paris_ok s" and "0 < a" and "0 < b"
  shows "fst (paris_advance (fst (paris_advance s a g)) b g') = fst (paris_advance s (a + b) g'')"
proof -
  let ?s = "fst (paris_advance s a g)"
  have ok': "paris_ok ?s" by (rule paris_advance_ok [OF ok \<open>0 < a\<close>])
  obtain x where x: "?s = s\<lparr>crack := x\<rparr>" using paris_advance_state [of s a g] by auto
  obtain y where y: "fst (paris_advance ?s b g') = ?s\<lparr>crack := y\<rparr>" using paris_advance_state [of "?s" b g'] by auto
  obtain z where z: "fst (paris_advance s (a + b) g'') = s\<lparr>crack := z\<rparr>" using paris_advance_state [of s "a + b" g''] by auto
  have "0 < y" "0 < z"
    using paris_advance_ok [OF ok' \<open>0 < b\<close>, of g'] paris_advance_ok [OF ok, of "a + b" g''] assms(2,3)
    by (auto simp: y z paris_ok_def)
  moreover have "0 < a * cycles_per_s s" "0 < b * cycles_per_s s" using assms by (simp_all add: paris_ok_def)
  then have "remaining_cycles (s\<lparr>crack := y\<rparr>) = remaining_cycles (s\<lparr>crack := z\<rparr>)"
    using paris_advance_remaining [OF ok' \<open>0 < b\<close>, of g'] paris_advance_remaining [OF ok, of "a + b" g'']
      paris_advance_remaining [OF ok \<open>0 < a\<close>, of g] assms(2,3)
    by (simp add: x y [unfolded x] z distrib_right max_def split: if_splits)
  ultimately have "y = z" by (rule remaining_cycles_inj [OF ok])
  then show ?thesis by (simp add: x y [unfolded x] z)
qed

lemma paris_advance_saturated:
  assumes ok: "paris_ok s" and ab: "0 < a" "0 < b" and fail: "1 \<le> paris_damage (fst (paris_advance s a g))"
  shows "fst (paris_advance s (a + b) g') = fst (paris_advance s a g)"
proof -
  have "0 < b * cycles_per_s s" using ok ab by (simp add: paris_ok_def)
  moreover have "crack (fst (paris_advance s a g)) = a_crit s"
    using fail paris_failed_iff [OF paris_advance_ok [OF ok ab(1), of g]] paris_advance_state [of s a g] by auto
  then have "remaining_cycles s \<le> a * cycles_per_s s"
    using paris_advance_grows [OF ok ab(1), of g] by (simp split: if_splits)
  ultimately show ?thesis
    using paris_advance_cases [OF ok ab(1), of g] paris_advance_cases [OF ok, of "a + b" g'] ab
    by (simp add: distrib_right)
qed

interpretation paris: exact_degradation "paris_ops :: (paris_state, 'g) model_ops" paris_ok R
  for R :: "'g rng"
proof
  fix s :: paris_state and a b ref :: real and g g' g'' :: 'g and c
  assume ok: "paris_ok s"
  show "0 < a \<Longrightarrow> 0 < b \<Longrightarrow> fst (m_advance paris_ops (fst (m_advance paris_ops s a g)) b g') =
      fst (m_advance paris_ops s (a + b) g'')"
    using paris_advance_add [OF ok] by (simp add: paris_ops_def)
  show "m_acceleration paris_ops (fst (m_advance paris_ops s ref g)) c = m_acceleration paris_ops s c"
    using paris_advance_state [of s ref g] by (auto simp: paris_ops_def paris_acceleration_def)
  show "0 < a \<Longrightarrow> 0 < b \<Longrightarrow> m_failed paris_ops (fst (m_advance paris_ops s a g)) \<Longrightarrow>
      fst (m_advance paris_ops s (a + b) g') = fst (m_advance paris_ops s a g)"
    using paris_advance_saturated [OF ok] by (simp add: paris_ops_def)
  assume ref: "0 < ref"
  have "m_failed paris_ops (fst (m_advance paris_ops s ref g)) \<longleftrightarrow> remaining_cycles s \<le> ref * cycles_per_s s"
    using paris_advance_grows [OF ok ref, of g] paris_failed_iff [OF paris_advance_ok [OF ok ref, of g]]
      paris_advance_state [of s ref g] by (auto simp: paris_ops_def split: if_splits)
  also have "\<dots> \<longleftrightarrow> m_remaining paris_ops s \<le> ref"
    using ok by (simp add: paris_ops_def paris_remaining_def paris_ok_def divide_le_eq)
  finally show "m_failed paris_ops (fst (m_advance paris_ops s ref g)) \<longleftrightarrow> m_remaining paris_ops s \<le> ref" .
qed

end
