(* ===== verification/Py_Numbers.thy ===== *)
theory Py_Numbers
  imports Twin_Prelude
begin

text \<open>
  Python's \<open>int(x)\<close> and \<open>round(x, n)\<close> on floats, read over the reals: truncation towards zero, and
  rounding to \<open>n\<close> decimals with ties to even. Both are monotone and leave whole numbers alone, so
  a bound by a whole number survives them.
\<close>

definition trunc :: "real \<Rightarrow> int" where
  "trunc x = (if 0 \<le> x then \<lfloor>x\<rfloor> else \<lceil>x\<rceil>)"

definition round_even :: "real \<Rightarrow> int" where
  "round_even x = (let f = \<lfloor>x\<rfloor>; r = x - of_int f
     in if r < 1 / 2 then f else if 1 / 2 < r then f + 1 else if even f then f else f + 1)"

definition round_dec :: "nat \<Rightarrow> real \<Rightarrow> real" where
  "round_dec n x = of_int (round_even (x * 10 ^ n)) / 10 ^ n"

lemma trunc_of_int [simp]: "trunc (of_int i) = i"
  by (simp add: trunc_def)

lemma trunc_zero [simp]: "trunc 0 = 0"
  by (simp add: trunc_def)

lemma trunc_nonneg: "0 \<le> x \<Longrightarrow> 0 \<le> trunc x"
  by (simp add: trunc_def)

lemma trunc_mono: "x \<le> y \<Longrightarrow> trunc x \<le> trunc y"
  unfolding trunc_def by (auto simp: floor_mono ceiling_mono intro: order_trans [of "\<lceil>x\<rceil>" 0 "\<lfloor>y\<rfloor>"])

lemma round_even_of_int [simp]: "round_even (of_int i) = i"
  by (simp add: round_even_def)

lemma round_even_zero [simp]: "round_even 0 = 0"
  using round_even_of_int [of 0] by simp

lemma round_even_cases: "round_even x = \<lfloor>x\<rfloor> \<and> x - of_int \<lfloor>x\<rfloor> \<le> 1 / 2 \<or> round_even x = \<lfloor>x\<rfloor> + 1 \<and> 1 / 2 \<le> x - of_int \<lfloor>x\<rfloor>"
  by (simp add: round_even_def Let_def)

lemma round_even_error: "\<bar>of_int (round_even x) - x\<bar> \<le> 1 / 2"
  using round_even_cases [of x] by (auto simp: abs_if) linarith+

lemma round_even_mono:
  assumes "x \<le> y"
  shows "round_even x \<le> round_even y"
proof (cases "\<lfloor>x\<rfloor> = \<lfloor>y\<rfloor>")
  case True
  with assms show ?thesis by (simp add: round_even_def Let_def)
next
  case False
  with floor_mono [OF assms] have "\<lfloor>x\<rfloor> + 1 \<le> \<lfloor>y\<rfloor>" by simp
  with round_even_cases [of x] round_even_cases [of y] show ?thesis by auto
qed

lemma round_dec_mono: "x \<le> y \<Longrightarrow> round_dec n x \<le> round_dec n y"
  by (simp add: round_dec_def divide_right_mono round_even_mono mult_right_mono)

lemma round_dec_of_int [simp]: "round_dec n (of_int i) = of_int i"
proof -
  have "of_int i * 10 ^ n = (of_int (i * 10 ^ n) :: real)" by simp
  then show ?thesis by (simp only: round_dec_def round_even_of_int) simp
qed

lemma round_dec_0 [simp]: "round_dec n 0 = 0"
  using round_dec_of_int [of n 0] by simp

lemma round_dec_1 [simp]: "round_dec n 1 = 1"
  using round_dec_of_int [of n 1] by simp

lemma round_dec_numeral [simp]: "round_dec n (numeral k) = numeral k"
  using round_dec_of_int [of n "numeral k"] by simp

lemma round_dec_nonneg: "0 \<le> x \<Longrightarrow> 0 \<le> round_dec n x"
  using round_dec_mono [of 0 x n] by simp

lemma round_dec_le_int: "x \<le> of_int i \<Longrightarrow> round_dec n x \<le> of_int i"
  using round_dec_mono [of x "of_int i" n] by simp

lemma round_dec_error: "\<bar>round_dec n x - x\<bar> \<le> 1 / (2 * 10 ^ n)"
proof -
  have "round_dec n x - x = (of_int (round_even (x * 10 ^ n)) - x * 10 ^ n) / 10 ^ n"
    by (simp add: round_dec_def field_simps)
  then have "\<bar>round_dec n x - x\<bar> = \<bar>of_int (round_even (x * 10 ^ n)) - x * 10 ^ n\<bar> / 10 ^ n"
    by (simp add: abs_divide)
  also have "\<dots> \<le> (1 / 2) / 10 ^ n"
    by (rule divide_right_mono) (simp_all only: round_even_error, simp)
  finally show ?thesis by simp
qed

end
