(* ===== verification/Sim_Catalog.thy ===== *)
theory Sim_Catalog
  imports Py_Numbers
begin

text \<open>
  The simulator's catalog, \<open>apps/simulator/sim/catalog.py\<close>: the pydantic models of the YAML files as
  records, their field constraints and validators as bool-valued predicates, and the lookups the
  engine uses. A YAML mapping is a dictionary in file order; a missing key or a failed \<open>raise\<close> is an
  \<^term>\<open>Inl\<close>. Dates, descriptions and other text nobody computes with are strings.
\<close>

section \<open>Specifications\<close>

datatype asset_type = Cnc_Mill | Compressor | Conveyor | Hydraulic_Press | Injection_Moulder

datatype sensor_kind = Vibration | Temperature | Current | Voltage | Power | Pressure | Flow | Speed
  | Torque | Position_Kind | Count | Other_Kind

datatype component_type = Motor | Bearing | Spindle | Pump | Belt | Heater | Valve | Tool | Screw | Seal
  | Other_Component

datatype process_model = Wiener | Gamma | Paris | Arrhenius | Taylor | Motor_Efficiency

record noise_params =
  n_std :: real
  n_drift :: real
  n_spike_prob :: real
  n_spike_scale :: real
  n_dropout_prob :: real
  n_jitter_ms :: nat

record sensor_spec =
  s_code :: string
  s_name :: string
  s_unit :: string
  s_kind :: sensor_kind
  s_rate_hz :: real
  s_min_valid :: real
  s_max_valid :: real
  s_warn_low :: "real option"
  s_warn_high :: "real option"
  s_alarm_low :: "real option"
  s_alarm_high :: "real option"
  s_noise :: noise_params

record process_spec =
  ps_model :: process_model
  ps_params :: "(string \<times> real) list"
  ps_temp_metric :: "string option"

datatype pattern = Trend | Spike | Level

record signature =
  sig_metrics :: "string list"
  sig_pattern :: pattern

record failure_mode_spec =
  fm_code :: string
  fm_name :: string
  fm_description :: string
  fm_signature :: signature
  fm_severity :: int
  fm_driver :: string
  fm_quality_impact :: real
  fm_cycle_impact :: real

record bearing_spec =
  n_balls :: int
  ball_d_mm :: real
  pitch_d_mm :: real
  contact_angle_deg :: real
  shaft_rpm :: real

record component_spec =
  c_code :: string
  c_name :: string
  c_type :: component_type
  c_health_weight :: real
  c_bearing :: "bearing_spec option"
  c_process :: "process_spec option"
  c_failure_mode :: "failure_mode_spec option"
  c_sensors :: "sensor_spec list"

record machine_type_spec =
  t_asset_type :: asset_type
  t_idle_power_fraction :: real
  t_eta_nominal :: real
  t_power_factor_rated :: real
  t_base_reject_rate :: real
  t_params :: "(string \<times> real) list"
  t_power_noise :: noise_params
  t_load_noise :: noise_params
  t_components :: "component_spec list"

record asset_spec =
  a_code :: string
  a_name :: string
  a_type :: asset_type
  a_fidelity :: int
  a_ideal_cycle_time_s :: real
  a_rated_power_kw :: real

record line_spec =
  l_code :: string
  l_name :: string
  l_sequence :: int
  l_plan :: "(string \<times> real) list"
  l_assets :: "asset_spec list"

record shift_spec =
  sh_code :: string
  sh_name :: string
  sh_start :: int
  sh_end :: int

record fleet_spec =
  f_timezone :: string
  f_ambient_c :: real
  f_maintenance_duration_s :: real
  f_working_days :: "int list"
  f_shifts :: "shift_spec list"
  f_lines :: "line_spec list"

datatype event_action = Inject_Fault | Sensor_Fault | Set_Load | Set_Speed | Reset

datatype fault_mode = Gradual | Sudden

record scenario_event =
  ev_at_h :: real
  ev_action :: event_action
  ev_asset :: string
  ev_failure_mode :: "string option"
  ev_mode :: fault_mode
  ev_severity :: real
  ev_metric :: "string option"
  ev_duration_s :: "real option"
  ev_load_pct :: "real option"
  ev_speed_pct :: "real option"
  ev_component_code :: "string option"

record scenario_spec =
  sc_code :: string
  sc_name :: string
  sc_seed :: int
  sc_time_scale :: real
  sc_duration_h :: real
  sc_events :: "scenario_event list"

definition SENSOR_FAULT_KINDS :: "string list" where
  "SENSOR_FAULT_KINDS = [''sensor_stuck'', ''sensor_offset'', ''sensor_dropout'', ''sensor_drift'']"

section \<open>Field constraints and validators\<close>

definition is_code :: "string \<Rightarrow> bool" where
  "is_code s \<longleftrightarrow> s \<noteq> [] \<and> list_all (\<lambda>ch. ch = CHR ''_'' \<or> ch = CHR ''-'' \<or> is_digit ch
     \<or> (97 \<le> (of_char ch :: nat) \<and> (of_char ch :: nat) \<le> 122)) s"

definition process_needs_mode :: "component_spec \<Rightarrow> bool" where
  "process_needs_mode c \<longleftrightarrow> (c_process c = None) = (c_failure_mode c = None)"

definition plans_cover_shifts :: "fleet_spec \<Rightarrow> bool" where
  "plans_cover_shifts f \<longleftrightarrow>
     list_all (\<lambda>l. set (dict_keys (l_plan l)) = set (map sh_code (f_shifts f))) (f_lines f)"

fun needed :: "event_action \<Rightarrow> scenario_event \<Rightarrow> bool" where
  "needed Inject_Fault e = (ev_failure_mode e \<noteq> None)"
| "needed Sensor_Fault e = (ev_failure_mode e \<noteq> None \<and> ev_metric e \<noteq> None)"
| "needed Set_Load e = (ev_load_pct e \<noteq> None)"
| "needed Set_Speed e = (ev_speed_pct e \<noteq> None)"
| "needed Reset e = True"

definition in_field :: "real \<Rightarrow> real \<Rightarrow> real option \<Rightarrow> bool" where
  "in_field lo hi x = (case x of None \<Rightarrow> True | Some v \<Rightarrow> lo \<le> v \<and> v \<le> hi)"

definition scenario_event_ok :: "scenario_event \<Rightarrow> bool" where
  "scenario_event_ok e \<longleftrightarrow> 0 \<le> ev_at_h e \<and> is_code (ev_asset e) \<and> 0 \<le> ev_severity e \<and> ev_severity e \<le> 1
     \<and> in_field 0 110 (ev_load_pct e) \<and> in_field 50 120 (ev_speed_pct e) \<and> needed (ev_action e) e"

definition scenario_ok :: "scenario_spec \<Rightarrow> bool" where
  "scenario_ok s \<longleftrightarrow> is_code (sc_code s) \<and> 1 \<le> sc_time_scale s \<and> sc_time_scale s \<le> 1000 \<and> 0 < sc_duration_h s
     \<and> list_all scenario_event_ok (sc_events s)"

definition failure_modes :: "machine_type_spec \<Rightarrow> (component_spec \<times> failure_mode_spec) list" where
  "failure_modes t = List.map_filter (\<lambda>c. map_option (Pair c) (c_failure_mode c)) (t_components t)"

section \<open>The catalog\<close>

record catalog =
  fleet :: fleet_spec
  types :: "(asset_type \<times> machine_type_spec) list"
  scenarios :: "(string \<times> scenario_spec) list"

definition assets :: "catalog \<Rightarrow> asset_spec list" where
  "assets cat = concat (map l_assets (f_lines (fleet cat)))"

definition assets_by_code :: "catalog \<Rightarrow> (string \<times> line_spec \<times> asset_spec) list" where
  "assets_by_code cat =
     dict_of (concat (map (\<lambda>l. map (\<lambda>a. (a_code a, l, a)) (l_assets l)) (f_lines (fleet cat))))"

definition asset :: "catalog \<Rightarrow> string \<Rightarrow> asset_spec option" where
  "asset cat code = map_option snd (map_of (assets_by_code cat) code)"

definition line_of :: "catalog \<Rightarrow> string \<Rightarrow> line_spec option" where
  "line_of cat code = map_option fst (map_of (assets_by_code cat) code)"

definition type_of :: "catalog \<Rightarrow> string \<Rightarrow> machine_type_spec option" where
  "type_of cat code = Option.bind (asset cat code) (\<lambda>a. map_of (types cat) (a_type a))"

text \<open>\<open>round(x, 1)\<close>: to one decimal, ties to even.\<close>

definition round1 :: "real \<Rightarrow> real" where
  "round1 = round_dec 1"

text \<open>The specs \<open>metric name \<mapsto> (component, sensor)\<close> in canonical order: components, power, load.\<close>

definition metric_name :: "component_spec \<Rightarrow> sensor_spec \<Rightarrow> string" where
  "metric_name c s = c_code c @ ''.'' @ s_code s"

definition component_sensors :: "machine_type_spec \<Rightarrow> (string \<times> string option \<times> sensor_spec) list" where
  "component_sensors t = concat (map (\<lambda>c. map (\<lambda>s. (metric_name c s, Some (c_code c), s)) (c_sensors c)) (t_components t))"

definition power_sensor :: "machine_type_spec \<Rightarrow> asset_spec \<Rightarrow> sensor_spec" where
  "power_sensor t a = \<lparr>s_code = ''power_kw'', s_name = ''Active power'', s_unit = ''kW'', s_kind = Power,
     s_rate_hz = 1, s_min_valid = 0, s_max_valid = round1 (a_rated_power_kw a * (3 / 2)), s_warn_low = None,
     s_warn_high = None, s_alarm_low = None, s_alarm_high = None, s_noise = t_power_noise t\<rparr>"

definition load_sensor :: "machine_type_spec \<Rightarrow> sensor_spec" where
  "load_sensor t = \<lparr>s_code = ''load_pct'', s_name = ''Load'', s_unit = ''%'', s_kind = Other_Kind,
     s_rate_hz = 1, s_min_valid = 0, s_max_valid = 120, s_warn_low = None, s_warn_high = Some 100,
     s_alarm_low = None, s_alarm_high = Some 110, s_noise = t_load_noise t\<rparr>"

definition type_sensor_specs ::
  "machine_type_spec \<Rightarrow> asset_spec \<Rightarrow> (string \<times> string option \<times> sensor_spec) list" where
  "type_sensor_specs t a = dict_put ''load_pct'' (None, load_sensor t)
     (dict_put ''power_kw'' (None, power_sensor t a) (dict_of (component_sensors t)))"

definition sensor_specs :: "catalog \<Rightarrow> string \<Rightarrow> (string \<times> string option \<times> sensor_spec) list option" where
  "sensor_specs cat code = Option.bind (asset cat code) (\<lambda>a.
     map_option (\<lambda>t. type_sensor_specs t a) (map_of (types cat) (a_type a)))"

section \<open>Catalog validation\<close>

definition mode_refs :: "component_spec \<Rightarrow> failure_mode_spec \<Rightarrow> string list" where
  "mode_refs c mode = fm_driver mode # sig_metrics (fm_signature mode)
     @ (case Option.bind (c_process c) ps_temp_metric of Some m \<Rightarrow> if m = [] then [] else [m] | None \<Rightarrow> [])"

definition modes_refer_to_metrics :: "catalog \<Rightarrow> asset_spec \<Rightarrow> bool" where
  "modes_refer_to_metrics cat a = (case (type_of cat (a_code a), sensor_specs cat (a_code a)) of
       (Some t, Some metrics) \<Rightarrow>
         list_all (\<lambda>(c, mode). list_all (\<lambda>r. r \<in> set (dict_keys metrics)) (mode_refs c mode)) (failure_modes t)
     | _ \<Rightarrow> False)"

definition validate_event :: "catalog \<Rightarrow> scenario_event \<Rightarrow> bool" where
  "validate_event cat e = (case (type_of cat (ev_asset e), sensor_specs cat (ev_asset e)) of
       (Some t, Some metrics) \<Rightarrow>
         (ev_action e = Inject_Fault \<longrightarrow> ev_failure_mode e \<in> Some ` set (map (fm_code \<circ> snd) (failure_modes t)))
         \<and> (ev_action e = Sensor_Fault \<longrightarrow> ev_failure_mode e \<in> Some ` set SENSOR_FAULT_KINDS
              \<and> ev_metric e \<in> Some ` set (dict_keys metrics))
         \<and> (case ev_component_code e of None \<Rightarrow> True
            | Some c \<Rightarrow> c = [] \<or> c \<in> set (map c_code (t_components t)))
     | _ \<Rightarrow> False)"

definition validate :: "catalog \<Rightarrow> bool" where
  "validate cat \<longleftrightarrow> list_all (\<lambda>a. a_type a \<in> set (dict_keys (types cat))) (assets cat)
     \<and> list_all (modes_refer_to_metrics cat) (assets cat)
     \<and> list_all (\<lambda>(code, s). list_all (validate_event cat) (sc_events s)) (scenarios cat)"

section \<open>Modbus register map\<close>

definition MODBUS_STATE_REGISTER :: nat where "MODBUS_STATE_REGISTER = 0"

definition MODBUS_GOOD_REGISTER :: nat where "MODBUS_GOOD_REGISTER = 2"

definition MODBUS_REJECT_REGISTER :: nat where "MODBUS_REJECT_REGISTER = 4"

definition MODBUS_METRIC_BASE :: nat where "MODBUS_METRIC_BASE = 10"

definition registers_of :: "string list \<Rightarrow> (string \<times> nat) list" where
  "registers_of metrics = foldl (\<lambda>d (i, m). dict_put m (MODBUS_METRIC_BASE + 2 * i) d)
     [(''state'', MODBUS_STATE_REGISTER), (''good_count'', MODBUS_GOOD_REGISTER),
      (''reject_count'', MODBUS_REJECT_REGISTER)] (enumerate 0 metrics)"

definition modbus_registers :: "catalog \<Rightarrow> string \<Rightarrow> (string \<times> nat) list option" where
  "modbus_registers cat code = map_option (registers_of \<circ> dict_keys) (sensor_specs cat code)"

end
