(* ===== verification/Sim_Process.thy ===== *)
theory Sim_Process
  imports Sim_Models Sim_Catalog
begin

text \<open>
  A component's degradation process: the five model classes as one state type, and
  \<open>build_process\<close> of \<open>sim/machines/base.py\<close>, which instantiates a catalog entry with the asset's own
  life scatter and initial wear.
\<close>

section \<open>The process of any model\<close>

datatype model_state =
    Wiener_State wiener_state
  | Gamma_State gamma_state
  | Paris_State paris_state
  | Taylor_State taylor_state
  | Motor_State motor_state

text \<open>Method dispatch on the class of the process.\<close>

fun any_damage :: "model_state \<Rightarrow> real" where
  "any_damage (Wiener_State s) = wiener_damage s"
| "any_damage (Gamma_State s) = gamma_damage s"
| "any_damage (Paris_State s) = paris_damage s"
| "any_damage (Taylor_State s) = wear s"
| "any_damage (Motor_State s) = gamma_damage s"

fun any_failed :: "model_state \<Rightarrow> bool" where
  "any_failed (Wiener_State s) = w_failed s"
| "any_failed s = (1 \<le> any_damage s)"

fun any_acceleration :: "model_state \<Rightarrow> conditions \<Rightarrow> real" where
  "any_acceleration (Wiener_State s) c = wiener_acceleration s c"
| "any_acceleration (Gamma_State s) c = gamma_acceleration s c"
| "any_acceleration (Paris_State s) c = paris_acceleration s c"
| "any_acceleration (Taylor_State s) c = taylor_acceleration s c"
| "any_acceleration (Motor_State s) c = gamma_acceleration s c"

fun any_advance :: "'g rng \<Rightarrow> model_state \<Rightarrow> real \<Rightarrow> 'g \<Rightarrow> model_state \<times> 'g" where
  "any_advance R (Wiener_State s) ref g = apfst Wiener_State (wiener_advance R s ref g)"
| "any_advance R (Gamma_State s) ref g = apfst Gamma_State (gamma_advance R s ref g)"
| "any_advance R (Paris_State s) ref g = apfst Paris_State (paris_advance s ref g)"
| "any_advance R (Taylor_State s) ref g = apfst Taylor_State (taylor_advance s ref g)"
| "any_advance R (Motor_State s) ref g = apfst Motor_State (gamma_advance R s ref g)"

fun any_remaining :: "model_state \<Rightarrow> real" where
  "any_remaining (Wiener_State s) = wiener_remaining s"
| "any_remaining (Gamma_State s) = gamma_remaining s"
| "any_remaining (Paris_State s) = paris_remaining s"
| "any_remaining (Taylor_State s) = taylor_remaining s"
| "any_remaining (Motor_State s) = gamma_remaining s"

fun any_jump :: "model_state \<Rightarrow> real \<Rightarrow> model_state" where
  "any_jump (Wiener_State s) a = Wiener_State (wiener_jump s a)"
| "any_jump (Gamma_State s) a = Gamma_State (gamma_jump s a)"
| "any_jump (Paris_State s) a = Paris_State (paris_jump s a)"
| "any_jump (Taylor_State s) a = Taylor_State (taylor_jump s a)"
| "any_jump (Motor_State s) a = Motor_State (gamma_jump s a)"

fun any_reset :: "model_state \<Rightarrow> model_state" where
  "any_reset (Wiener_State s) = Wiener_State (wiener_reset s)"
| "any_reset (Gamma_State s) = Gamma_State (gamma_reset s)"
| "any_reset (Paris_State s) = Paris_State (paris_reset s)"
| "any_reset (Taylor_State s) = Taylor_State (taylor_reset s)"
| "any_reset (Motor_State s) = Motor_State (gamma_reset s)"

definition any_ops :: "'g rng \<Rightarrow> (model_state, 'g) model_ops" where
  "any_ops R = \<lparr>m_damage = any_damage, m_failed = any_failed, m_acceleration = any_acceleration,
     m_advance = any_advance R, m_remaining = any_remaining, m_jump = any_jump, m_reset = any_reset\<rparr>"

fun any_ok :: "model_state \<Rightarrow> bool" where
  "any_ok (Wiener_State s) = wiener_ok s"
| "any_ok (Gamma_State s) = gamma_ok s"
| "any_ok (Paris_State s) = paris_ok s"
| "any_ok (Taylor_State s) = taylor_ok s"
| "any_ok (Motor_State s) = gamma_ok s"

lemmas model_ops_defs = wiener_ops_def gamma_ops_def paris_ops_def taylor_ops_def

text \<open>The gamma laws serve two classes, so they are kept polymorphic, over the operations themselves.\<close>

lemmas gamma_laws =
  gamma.acceleration_nonneg [unfolded gamma_ops_def model_ops.simps]
  gamma.damage_range [unfolded gamma_ops_def model_ops.simps]
  gamma.failed_iff [unfolded gamma_ops_def model_ops.simps]
  gamma.ok_advance [unfolded gamma_ops_def model_ops.simps]
  gamma.ok_jump [unfolded gamma_ops_def model_ops.simps]
  gamma.jump_damage [unfolded gamma_ops_def model_ops.simps]
  gamma.ok_reset [unfolded gamma_ops_def model_ops.simps]
  gamma.reset_damage [unfolded gamma_ops_def model_ops.simps]
  gamma.remaining_nonneg [unfolded gamma_ops_def model_ops.simps]

interpretation any: degradation "any_ops R" any_ok R for R :: "'g rng"
proof
  fix s and a ref :: real and c g
  show "0 \<le> m_acceleration (any_ops R) s c"
    using wiener.acceleration_nonneg paris.acceleration_nonneg taylor.acceleration_nonneg
    by (cases s) (simp_all add: any_ops_def model_ops_defs gamma_laws)
  assume ok: "any_ok s"
  show "0 \<le> m_damage (any_ops R) s \<and> m_damage (any_ops R) s \<le> 1"
    using ok wiener.damage_range paris.damage_range taylor.damage_range
    by (cases s) (simp_all add: any_ops_def model_ops_defs gamma_laws)
  show "m_failed (any_ops R) s \<longleftrightarrow> m_damage (any_ops R) s = 1"
    using ok wiener.failed_iff paris.failed_iff taylor.failed_iff
    by (cases s) (simp_all add: any_ops_def model_ops_defs gamma_laws)
  show "rng_ok R \<Longrightarrow> 0 < ref \<Longrightarrow> any_ok (fst (m_advance (any_ops R) s ref g))"
    using ok wiener.ok_advance paris.ok_advance taylor.ok_advance
    by (cases s) (simp_all add: any_ops_def model_ops_defs gamma_laws)
  show "0 \<le> a \<Longrightarrow> any_ok (m_jump (any_ops R) s a)"
    using ok wiener.ok_jump paris.ok_jump taylor.ok_jump
    by (cases s) (simp_all add: any_ops_def model_ops_defs gamma_laws)
  show "0 \<le> a \<Longrightarrow> m_damage (any_ops R) s \<le> m_damage (any_ops R) (m_jump (any_ops R) s a)"
    using ok wiener.jump_damage paris.jump_damage taylor.jump_damage
    by (cases s) (simp_all add: any_ops_def model_ops_defs gamma_laws)
  show "any_ok (m_reset (any_ops R) s)"
    using ok wiener.ok_reset paris.ok_reset taylor.ok_reset
    by (cases s) (simp_all add: any_ops_def model_ops_defs gamma_laws)
  show "m_damage (any_ops R) (m_reset (any_ops R) s) = 0"
    using ok wiener.reset_damage paris.reset_damage taylor.reset_damage
    by (cases s) (simp_all add: any_ops_def model_ops_defs gamma_laws)
  show "0 \<le> m_remaining (any_ops R) s"
    using ok wiener.remaining_nonneg paris.remaining_nonneg taylor.remaining_nonneg
    by (cases s) (simp_all add: any_ops_def model_ops_defs gamma_laws)
qed

text \<open>The models integrated in closed form.\<close>

fun deterministic :: "model_state \<Rightarrow> bool" where
  "deterministic (Paris_State s) = True"
| "deterministic (Taylor_State s) = True"
| "deterministic s = False"

definition exact_ok :: "model_state \<Rightarrow> bool" where
  "exact_ok s \<longleftrightarrow> any_ok s \<and> deterministic s"

lemma exact_okE:
  assumes "exact_ok s"
  obtains p where "s = Paris_State p" "paris_ok p" | t where "s = Taylor_State t" "taylor_ok t"
  using assms by (cases s) (auto simp: exact_ok_def)

lemmas exact_laws = paris.advance_failed_iff [unfolded paris_ops_def model_ops.simps]
  paris.advance_add [unfolded paris_ops_def model_ops.simps]
  paris.advance_saturated [unfolded paris_ops_def model_ops.simps]
  paris.advance_acceleration [unfolded paris_ops_def model_ops.simps]
  taylor.advance_failed_iff [unfolded taylor_ops_def model_ops.simps]
  taylor.advance_add [unfolded taylor_ops_def model_ops.simps]
  taylor.advance_saturated [unfolded taylor_ops_def model_ops.simps]
  taylor.advance_acceleration [unfolded taylor_ops_def model_ops.simps]

interpretation exact: exact_degradation "any_ops R" exact_ok R for R :: "'g rng"
proof
  fix s and a b ref :: real and c and g g' g'' :: 'g
  show "0 \<le> m_acceleration (any_ops R) s c" by (rule any.acceleration_nonneg)
  assume ex: "exact_ok s"
  then have ok: "any_ok s" by (simp add: exact_ok_def)
  show "0 \<le> m_damage (any_ops R) s \<and> m_damage (any_ops R) s \<le> 1" by (rule any.damage_range [OF ok])
  show "m_failed (any_ops R) s \<longleftrightarrow> m_damage (any_ops R) s = 1" by (rule any.failed_iff [OF ok])
  show "m_damage (any_ops R) (m_reset (any_ops R) s) = 0" by (rule any.reset_damage [OF ok])
  show "0 \<le> m_remaining (any_ops R) s" by (rule any.remaining_nonneg [OF ok])
  show "0 \<le> a \<Longrightarrow> m_damage (any_ops R) s \<le> m_damage (any_ops R) (m_jump (any_ops R) s a)"
    by (rule any.jump_damage [OF ok])
  show "exact_ok (m_reset (any_ops R) s)"
    using ex any.ok_reset [OF ok, where R = R] by (cases s) (simp_all add: exact_ok_def any_ops_def)
  show "0 \<le> a \<Longrightarrow> exact_ok (m_jump (any_ops R) s a)"
    using ex any.ok_jump [OF ok, of a R] by (cases s) (simp_all add: exact_ok_def any_ops_def)
  show "rng_ok R \<Longrightarrow> 0 < ref \<Longrightarrow> exact_ok (fst (m_advance (any_ops R) s ref g))"
    using ex any.ok_advance [OF _ ok, of R ref g] by (cases s) (simp_all add: exact_ok_def any_ops_def)
  show "\<not> m_failed (any_ops R) s \<Longrightarrow> 0 < ref \<Longrightarrow>
      m_failed (any_ops R) (fst (m_advance (any_ops R) s ref g)) \<longleftrightarrow> m_remaining (any_ops R) s \<le> ref"
    using ex by (cases rule: exact_okE) (simp_all add: any_ops_def exact_laws)
  show "0 < a \<Longrightarrow> 0 < b \<Longrightarrow> fst (m_advance (any_ops R) (fst (m_advance (any_ops R) s a g)) b g') =
      fst (m_advance (any_ops R) s (a + b) g'')"
    using ex by (cases rule: exact_okE) (simp_all add: any_ops_def exact_laws(2,6) [of _ _ _ g g' g''])
  show "0 < a \<Longrightarrow> 0 < b \<Longrightarrow> m_failed (any_ops R) (fst (m_advance (any_ops R) s a g)) \<Longrightarrow>
      fst (m_advance (any_ops R) s (a + b) g') = fst (m_advance (any_ops R) s a g)"
    using ex by (cases rule: exact_okE) (simp_all add: any_ops_def exact_laws(3,7))
  show "m_acceleration (any_ops R) (fst (m_advance (any_ops R) s ref g)) c = m_acceleration (any_ops R) s c"
    using ex by (cases rule: exact_okE) (simp_all add: any_ops_def exact_laws)
qed

section \<open>Building a component's process\<close>

definition LIFE_SPREAD_SIGMA :: real where "LIFE_SPREAD_SIGMA = 15 / 100"

definition INITIAL_DAMAGE_MAX :: real where "INITIAL_DAMAGE_MAX = 3 / 10"

datatype build_error = Key_Error string | Type_Error | Value_Error string

type_synonym params = "(string \<times> real) list"

text \<open>A keyword argument with its default.\<close>

definition kw :: "params \<Rightarrow> string \<Rightarrow> real \<Rightarrow> real" where
  "kw ps k d = (case map_of ps k of Some v \<Rightarrow> v | None \<Rightarrow> d)"

fun required_args :: "process_model \<Rightarrow> string list" where
  "required_args Paris = [''life_h'', ''rpm'']"
| "required_args Taylor = [''life_h'', ''cutting_speed_m_min'']"
| "required_args m = [''life_h'']"

fun accepted_args :: "process_model \<Rightarrow> string list" where
  "accepted_args Paris = [''life_h'', ''rpm'', ''m'', ''a0_mm'', ''a_crit_mm'', ''stress_mpa'', ''y'', ''initial'']"
| "accepted_args Taylor = [''life_h'', ''cutting_speed_m_min'', ''n'', ''vb_max_mm'', ''feed_exp'', ''initial'']"
| "accepted_args Motor_Efficiency = [''life_h'', ''eta0'', ''k'', ''cv'', ''load_exp'', ''initial'']"
| "accepted_args m = [''life_h'', ''cv'', ''load_exp'', ''speed_exp'', ''initial'']"

text \<open>The call \<open>_PROCESS_TYPES[model](**params)\<close>, with each constructor's defaults.\<close>

fun construct_args :: "process_model \<Rightarrow> params \<Rightarrow> build_error + model_state" where
  "construct_args Wiener ps = Inr (Wiener_State (wiener_init (kw ps ''life_h'' 0) (kw ps ''cv'' (1/10))
     (kw ps ''load_exp'' 1) (kw ps ''speed_exp'' 0) (kw ps ''initial'' 0)))"
| "construct_args Paris ps = (case paris_init (kw ps ''life_h'' 0) (kw ps ''rpm'' 0) (kw ps ''m'' 3)
     (kw ps ''a0_mm'' (1/10)) (kw ps ''a_crit_mm'' 2) (kw ps ''stress_mpa'' 120) (kw ps ''y'' (112/100))
     (kw ps ''initial'' 0) of Inl e \<Rightarrow> Inl (Value_Error e) | Inr s \<Rightarrow> Inr (Paris_State s))"
| "construct_args Taylor ps = Inr (Taylor_State (taylor_init (kw ps ''life_h'' 0) (kw ps ''cutting_speed_m_min'' 0)
     (kw ps ''n'' (1/4)) (kw ps ''vb_max_mm'' (3/10)) (kw ps ''feed_exp'' (1/2)) (kw ps ''initial'' 0)))"
| "construct_args Motor_Efficiency ps = Inr (Motor_State (motor_init (kw ps ''life_h'' 0) (kw ps ''eta0'' (92/100))
     (kw ps ''k'' (12/100)) (kw ps ''cv'' (15/100)) (kw ps ''load_exp'' 2) (kw ps ''initial'' 0)))"
| "construct_args m ps = Inr (Gamma_State (gamma_init (kw ps ''life_h'' 0) (kw ps ''cv'' (2/10))
     (kw ps ''load_exp'' 1) (kw ps ''speed_exp'' 0) (kw ps ''initial'' 0)))"

definition construct :: "process_model \<Rightarrow> params \<Rightarrow> build_error + model_state" where
  "construct m ps =
     (if set (dict_keys ps) \<subseteq> set (accepted_args m) \<and> set (required_args m) \<subseteq> set (dict_keys ps)
      then construct_args m ps else Inl Type_Error)"

definition build_process ::
  "'g rng \<Rightarrow> component_spec \<Rightarrow> 'g \<Rightarrow> build_error + model_state process option \<times> 'g" where
  "build_process R c g = (case (c_process c, c_failure_mode c) of
       (Some ps, Some fm) \<Rightarrow>
         (let all = ps_params ps;
              arr = (case (map_of all ''ea_ev'', map_of all ''t_ref_c'') of
                       (Some ea, Some t) \<Rightarrow> Some \<lparr>activation_energy_ev = ea, t_ref_c = t\<rparr> | _ \<Rightarrow> None);
              params = AList.delete ''t_ref_c'' (AList.delete ''ea_ev'' all)
          in case map_of params ''life_h'' of
               None \<Rightarrow> Inl (Key_Error ''life_h'')
             | Some life \<Rightarrow>
                 (let (scatter, g1) = r_lognormal R 0 LIFE_SPREAD_SIGMA g;
                      (worn, g2) = r_uniform R 0 INITIAL_DAMAGE_MAX g1;
                      args = dict_put ''initial'' worn (dict_put ''life_h'' (life * scatter) params)
                  in rbind (construct (ps_model ps) args)
                       (\<lambda>s. Inr (Some \<lparr>p_driver = fm_driver fm, p_arrhenius = arr, p_rate_multiplier = 1, p_state = s\<rparr>, g2))))
     | _ \<Rightarrow> Inr (None, g))"

section \<open>What a built process satisfies\<close>

text \<open>Catalog parameters with which the constructors are meant to be called.\<close>

fun model_args_ok :: "process_model \<Rightarrow> params \<Rightarrow> bool" where
  "model_args_ok Paris ps = (\<not> is_close (kw ps ''m'' 3) 2 \<and> 0 < kw ps ''rpm'' 0 \<and> 0 < kw ps ''a0_mm'' (1/10)
     \<and> kw ps ''a0_mm'' (1/10) < kw ps ''a_crit_mm'' 2)"
| "model_args_ok Gamma ps = (kw ps ''cv'' (2/10) \<noteq> 0)"
| "model_args_ok Arrhenius ps = (kw ps ''cv'' (2/10) \<noteq> 0)"
| "model_args_ok Motor_Efficiency ps = (kw ps ''cv'' (15/100) \<noteq> 0)"
| "model_args_ok m ps = True"

definition args_ok :: "process_model \<Rightarrow> params \<Rightarrow> bool" where
  "args_ok m ps \<longleftrightarrow> set (dict_keys ps) \<subseteq> set (accepted_args m) \<and> set (required_args m) \<subseteq> set (dict_keys ps)
     \<and> 0 < kw ps ''life_h'' 0 \<and> model_args_ok m ps"

lemma kw_put [simp]: "kw (dict_put k v ps) k' d = (if k' = k then v else kw ps k' d)"
  by (simp add: kw_def update_conv')

lemma args_ok_put:
  assumes "args_ok m ps" and "0 < life"
  shows "args_ok m (dict_put ''initial'' u (dict_put ''life_h'' life ps))"
  using assms by (cases m) (auto simp: args_ok_def dom_update [symmetric] dom_map_of_conv_image_fst [symmetric] update_conv')

lemma gamma_init_ok:
  assumes "0 < life" and "cv \<noteq> 0" and "0 \<le> u" and "u < 1"
  shows "gamma_ok (gamma_init life cv le se u)" and "gamma_damage (gamma_init life cv le se u) = u"
    and "gamma_remaining (gamma_reset (gamma_init life cv le se u)) = life * HOUR_S"
  using assms
  by (simp_all add: gamma_init_def gamma_ok_def gamma_damage_def gamma_remaining_def gamma_reset_def mean_rate_def
      HOUR_S_def Let_def)

lemma motor_init_ok:
  assumes "0 < life" and "cv \<noteq> 0" and "0 \<le> u" and "u < 1"
  shows "gamma_ok (motor_init life e k cv le u)" and "gamma_damage (motor_init life e k cv le u) = u"
    and "gamma_remaining (gamma_reset (motor_init life e k cv le u)) = life * HOUR_S"
  using gamma_init_ok [OF assms, of le 0]
  by (simp_all add: motor_init_def gamma_init_def gamma_state.extend_def gamma_ok_def gamma_damage_def
      gamma_remaining_def gamma_reset_def mean_rate_def Let_def)

lemma paris_rate_pos:
  fixes x y k n :: real
  assumes "0 < x" and "x < y" and "k \<noteq> 0" and "0 < n"
  shows "0 < (y powr k - x powr k) / (k * n)"
proof (cases "k < 0")
  case True
  then have "y powr k < x powr k" using assms by (intro powr_less_mono2_neg) auto
  then show ?thesis using True assms by (intro divide_neg_neg) (auto simp: mult_less_0_iff)
next
  case False
  with assms have "x powr k < y powr k" by (intro powr_less_mono2) auto
  then show ?thesis using False assms by (intro divide_pos_pos) auto
qed

lemma paris_init_ok:
  assumes "0 < life" and "0 < rpm" and "0 < a0" and "a0 < ac" and "\<not> is_close m 2" and "0 \<le> u" and "u < 1"
  obtains s where "paris_init life rpm m a0 ac st y u = Inr s" and "paris_ok s" and "paris_damage s = u"
    and "paris_remaining (paris_reset s) = life * HOUR_S"
proof -
  define k cps where "k = 1 - m / 2" and "cps = rpm / 60"
  define n where "n = life * HOUR_S * cps"
  define g where "g = ((ac / 1000) powr k - (a0 / 1000) powr k) / (k * n)"
  define s0 where "s0 = \<lparr>m_exp = m, k_exp = k, a_zero = a0 / 1000, a_crit = ac / 1000, cycles_per_s = cps,
    g_rate = g, c_paris = g / py_pow (y * st * sqrt pi) m, crack = a0 / 1000\<rparr>"
  have k: "k \<noteq> 0" using assms(5) by (auto simp: k_def is_close_def)
  have n: "0 < n" "0 < cps" using assms by (simp_all add: n_def cps_def HOUR_S_def)
  then have g: "0 < g" unfolding g_def using assms k by (intro paris_rate_pos) auto
  have ok: "paris_ok s0" using assms k n g by (simp add: paris_ok_def s0_def)
  have zero: "paris_damage s0 = 0" by (simp add: s0_def paris_damage_def)
  have init: "paris_init life rpm m a0 ac st y u = Inr (paris_jump s0 u)"
    using assms by (simp add: paris_init_def Let_def s0_def g_def n_def cps_def k_def)
  have "(ac / 1000) powr k - (a0 / 1000) powr k = g * (k * n)" using k n by (simp add: g_def)
  then have "paris_remaining (paris_reset (paris_jump s0 u)) = life * HOUR_S"
    using assms k n g
    by (simp add: paris_remaining_def remaining_cycles_def paris_reset_def paris_jump_def Let_def s0_def)
      (simp add: n_def)
  then show ?thesis
    using that [OF init] paris_jump_ok [OF ok, of u] assms(6,7) zero by simp
qed

text \<open>Every constructor, on such arguments, yields a sound state with the wear it was given and the life it was given.\<close>

lemma construct_ok:
  assumes "args_ok m ps" and "kw ps ''initial'' 0 = u" and "0 \<le> u" and "u < 1"
  obtains s where "construct m ps = Inr s" and "any_ok s" and "any_damage s = u"
    and "any_remaining (any_reset s) = kw ps ''life_h'' 0 * HOUR_S"
proof -
  have life: "0 < kw ps ''life_h'' 0" and margs: "model_args_ok m ps" and "construct m ps = construct_args m ps"
    using assms(1) by (simp_all add: args_ok_def construct_def)
  moreover have "\<exists>s. construct_args m ps = Inr s \<and> any_ok s \<and> any_damage s = u
      \<and> any_remaining (any_reset s) = kw ps ''life_h'' 0 * HOUR_S"
  proof (cases m)
    case Paris
    then show ?thesis
      using margs life assms(2-4)
      by (auto intro: paris_init_ok [of "kw ps ''life_h'' 0" "kw ps ''rpm'' 0" "kw ps ''a0_mm'' (1/10)"
            "kw ps ''a_crit_mm'' 2" "kw ps ''m'' 3" u "kw ps ''stress_mpa'' 120" "kw ps ''y'' (112/100)"])
  next
    case Taylor
    then show ?thesis using life assms(2-4)
      by (simp add: taylor_init_def taylor_ok_def taylor_remaining_def taylor_reset_def HOUR_S_def)
  next
    case Wiener
    then show ?thesis using life assms(2-4)
      by (simp add: wiener_init_def wiener_ok_def wiener_damage_def wiener_remaining_def wiener_reset_def HOUR_S_def
          Let_def)
  qed (use margs life assms(2-4) in \<open>simp_all add: gamma_init_ok motor_init_ok\<close>)
  ultimately show ?thesis using that by auto
qed

text \<open>Operation at the reference conditions: rated load and speed, reference temperature if any.\<close>

definition at_reference :: "model_state process \<Rightarrow> conditions \<Rightarrow> bool" where
  "at_reference p c \<longleftrightarrow> cond_load c = 1 \<and> cond_speed c = 1 \<and> (case (p_arrhenius p, cond_temp c) of
       (Some A, Some t) \<Rightarrow> t = t_ref_c A \<and> 1 \<le> t_ref_c A + KELVIN | _ \<Rightarrow> True)"

lemma arrhenius_factor_ref: "1 \<le> t_ref_c A + KELVIN \<Longrightarrow> arrhenius_factor A (t_ref_c A) = 1"
  by (simp add: arrhenius_factor_def Let_def max_def)

lemma py_pow_1 [simp]: "py_pow 1 y = 1"
  by (simp add: py_pow_def)

lemma rate_at_reference: "at_reference p c \<Longrightarrow> process_rate (any_ops R) p c = p_rate_multiplier p"
  by (cases "p_state p") (auto simp: at_reference_def process_rate_def any_ops_def wiener_acceleration_def
      gamma_acceleration_def paris_acceleration_def taylor_acceleration_def arrhenius_factor_ref Let_def
      split: option.splits)

lemma true_rul_reset:
  assumes "any_ok (p_state p)" and "at_reference p c"
  shows "true_rul (any_ops R) (process_reset (any_ops R) p) c = Some (any_remaining (any_reset (p_state p)))"
proof -
  let ?q = "process_reset (any_ops R) p"
  have fresh: "\<not> m_failed (any_ops R) (p_state ?q)" "p_rate_multiplier ?q = 1"
    using any.reset_fresh [OF assms(1), of R] by auto
  have "at_reference ?q c" using assms(2) by (simp add: at_reference_def process_reset_def)
  then have "process_rate (any_ops R) ?q c = 1" using rate_at_reference [of ?q c R] fresh by simp
  moreover have "0 \<le> m_remaining (any_ops R) (p_state ?q)"
    by (rule any.remaining_nonneg) (use any.ok_reset [OF assms(1), of R] in \<open>simp add: process_reset_def\<close>)
  ultimately show ?thesis using fresh by (simp add: true_rul_def process_reset_def any_ops_def)
qed

section \<open>Properties\<close>

definition clean_params :: "process_spec \<Rightarrow> params" where
  "clean_params ps = AList.delete ''t_ref_c'' (AList.delete ''ea_ev'' (ps_params ps))"

lemma build_process_ok:
  assumes "rng_ok R" and "c_process c = Some ps" and "c_failure_mode c = Some fm"
    and "args_ok (ps_model ps) (clean_params ps)"
  shows "\<exists>p g'. build_process R c g = Inr (Some p, g') \<and> p_driver p = fm_driver fm \<and> p_rate_multiplier p = 1 \<and> any_ok (p_state p)
    \<and> any_damage (p_state p) \<le> INITIAL_DAMAGE_MAX \<and> \<not> m_failed (any_ops R) (p_state p)
    \<and> (\<forall>cond. at_reference p cond \<longrightarrow> true_rul (any_ops R) (process_reset (any_ops R) p) cond
          = Some (kw (clean_params ps) ''life_h'' 0 * fst (r_lognormal R 0 LIFE_SPREAD_SIGMA g) * HOUR_S))"
proof -
  let ?P = "clean_params ps" and ?k = "fst (r_lognormal R 0 LIFE_SPREAD_SIGMA g)"
  let ?u = "r_uniform R 0 INITIAL_DAMAGE_MAX (snd (r_lognormal R 0 LIFE_SPREAD_SIGMA g))"
  obtain life where life: "map_of ?P ''life_h'' = Some life" "0 < life"
    using assms(4) by (auto simp: args_ok_def kw_def split: option.splits)
  have k: "0 < ?k" using assms(1) by (simp add: rng_ok_def)
  have u: "0 \<le> fst ?u" "fst ?u \<le> INITIAL_DAMAGE_MAX" "INITIAL_DAMAGE_MAX < 1"
    using rng_draws(2,3) [OF assms(1), of 0 INITIAL_DAMAGE_MAX] by (simp_all add: INITIAL_DAMAGE_MAX_def)
  let ?A = "dict_put ''initial'' (fst ?u) (dict_put ''life_h'' (life * ?k) ?P)"
  obtain s where s: "construct (ps_model ps) ?A = Inr s" "any_ok s" "any_damage s = fst ?u"
    "any_remaining (any_reset s) = life * ?k * HOUR_S"
    using construct_ok [OF args_ok_put [OF assms(4), of "life * ?k" "fst ?u"], of "fst ?u"] life k u by auto
  let ?arr = "case (map_of (ps_params ps) ''ea_ev'', map_of (ps_params ps) ''t_ref_c'') of
      (Some ea, Some t) \<Rightarrow> Some \<lparr>activation_energy_ev = ea, t_ref_c = t\<rparr> | _ \<Rightarrow> None"
  let ?p = "\<lparr>p_driver = fm_driver fm, p_arrhenius = ?arr, p_rate_multiplier = 1, p_state = s\<rparr>"
  have "build_process R c g = Inr (Some ?p, snd ?u)"
    using assms(2,3) life s(1) by (simp add: build_process_def clean_params_def Let_def case_prod_beta)
  moreover have "\<not> m_failed (any_ops R) (p_state ?p)"
    using any.failed_iff [OF s(2), of R] s(3) u by (simp add: any_ops_def)
  moreover have "kw ?P ''life_h'' 0 = life" using life by (simp add: kw_def)
  ultimately show ?thesis using s u true_rul_reset [of ?p _ R] by (intro exI [of _ ?p] exI [of _ "snd ?u"]) simp
qed

text \<open>
  Whatever the random draws, a component whose catalog parameters are usable gets a
  process: it is sound, at most 30 % worn and not failed, and once reset its ground-truth remaining
  life at the reference conditions is the catalog life times the drawn scatter, for every model
  (the Paris and Gamma constants are derived so that this holds).
\<close>

theorem built_process_calibrated:
  assumes "rng_ok R" and "c_process c = Some ps" and "c_failure_mode c = Some fm"
    and "args_ok (ps_model ps) (clean_params ps)"
  shows "\<exists>p g'. build_process R c g = Inr (Some p, g') \<and> p_driver p = fm_driver fm \<and> p_rate_multiplier p = 1 \<and> any_ok (p_state p)
    \<and> any_damage (p_state p) \<le> INITIAL_DAMAGE_MAX \<and> \<not> m_failed (any_ops R) (p_state p)
    \<and> (\<forall>cond. at_reference p cond \<longrightarrow> true_rul (any_ops R) (process_reset (any_ops R) p) cond
          = Some (kw (clean_params ps) ''life_h'' 0 * fst (r_lognormal R 0 LIFE_SPREAD_SIGMA g) * HOUR_S))"
  by (rule build_process_ok [OF assms])

text \<open>
  For fatigue cracks and tool wear the ground truth is exact: at constant conditions a
  step fails the component if and only if it lasts at least the reported remaining life.
\<close>

theorem rul_is_time_to_failure:
  assumes "any_ok (p_state p)" and "deterministic (p_state p)" and "\<not> m_failed (any_ops R) (p_state p)"
    and "true_rul (any_ops R) p c = Some r" and "0 < dt"
  shows "m_failed (any_ops R) (p_state (fst (process_step (any_ops R) dt c p g))) \<longleftrightarrow> r \<le> dt"
  by (rule exact.rul_exact) (use assms in \<open>simp_all add: exact_ok_def\<close>)

text \<open>
  For the same models the step size is irrelevant: two steps at the same conditions, of
  whatever lengths, leave exactly the process that one step of their sum leaves.
\<close>

theorem step_size_irrelevant:
  assumes "any_ok (p_state p)" and "deterministic (p_state p)" and "0 < dt" and "0 < dt'"
  shows "fst (process_step (any_ops R) dt' c (fst (process_step (any_ops R) dt c p g)) g')
    = fst (process_step (any_ops R) (dt + dt') c p g'')"
  by (rule exact.step_add) (use assms in \<open>simp_all add: exact_ok_def\<close>)

section \<open>Witnesses\<close>

text \<open>A generator whose draws are constant, and the spindle and the cutting tool of the milling machine.\<close>

definition demo_rng :: "unit rng" where
  "demo_rng = \<lparr>r_normal = \<lambda>g. (0, g), r_lognormal = \<lambda>\<mu> \<sigma> g. (1, g), r_uniform = \<lambda>a b g. (a, g),
     r_gamma = \<lambda>k \<theta> g. (k * \<theta>, g), r_binomial = \<lambda>n p g. (0, g),
     r_standard_normal = \<lambda>n g. (replicate n 0, g), r_random = \<lambda>n g. (replicate n 0, g)\<rparr>"

lemma demo_rng_ok: "rng_ok demo_rng"
  by (simp add: rng_ok_def demo_rng_def)

definition demo_process_spec :: process_spec where
  "demo_process_spec = \<lparr>ps_model = Paris, ps_params = [(''life_h'', 1400), (''rpm'', 8000), (''m'', 3)],
     ps_temp_metric = None\<rparr>"

definition demo_mode :: failure_mode_spec where
  "demo_mode = \<lparr>fm_code = ''bearing_wear'', fm_name = ''Spindle bearing wear'', fm_description = [],
     fm_signature = \<lparr>sig_metrics = [''spindle.vib_rms''], sig_pattern = Trend\<rparr>, fm_severity = 3,
     fm_driver = ''spindle.vib_rms'', fm_quality_impact = 5/100, fm_cycle_impact = 0\<rparr>"

definition demo_spindle :: component_spec where
  "demo_spindle = \<lparr>c_code = ''spindle'', c_name = ''Spindle'', c_type = Spindle, c_health_weight = 1,
     c_bearing = None, c_process = Some demo_process_spec, c_failure_mode = Some demo_mode, c_sensors = []\<rparr>"

definition demo_tool :: "model_state process" where
  "demo_tool = \<lparr>p_driver = ''tool.wear'', p_arrhenius = None, p_rate_multiplier = 1,
     p_state = Taylor_State \<lparr>n_exp = 1/4, v_ref = 250, c_const = 1, life_ref_s = 100, vb_max_mm = 3/10,
       feed_exp = 1/2, wear = 1/4\<rparr>\<rparr>"

definition demo_conditions :: conditions where
  "demo_conditions = \<lparr>cond_load = 1, cond_speed = 1, cond_temp = None\<rparr>"

lemma built_process_calibrated_witness:
  "\<exists>p g'. build_process demo_rng demo_spindle () = Inr (Some p, g') \<and> any_damage (p_state p) \<le> INITIAL_DAMAGE_MAX"
proof -
  have "args_ok (ps_model demo_process_spec) (clean_params demo_process_spec)"
    by (simp add: demo_process_spec_def args_ok_def clean_params_def kw_def is_close_def)
  from built_process_calibrated [OF demo_rng_ok _ _ this, of demo_spindle demo_mode "()"]
  show ?thesis by (auto simp: demo_spindle_def)
qed

lemma rul_is_time_to_failure_witness:
  "m_failed (any_ops demo_rng) (p_state (fst (process_step (any_ops demo_rng) 80 demo_conditions demo_tool ())))"
  using rul_is_time_to_failure [of demo_tool demo_rng demo_conditions 75 80 "()"]
  by (simp add: demo_tool_def demo_conditions_def any_ops_def taylor_ok_def true_rul_def process_rate_def
      taylor_acceleration_def taylor_remaining_def)

lemma step_size_irrelevant_witness:
  "fst (process_step (any_ops demo_rng) 20 demo_conditions
      (fst (process_step (any_ops demo_rng) 10 demo_conditions demo_tool ())) ())
    = fst (process_step (any_ops demo_rng) 30 demo_conditions demo_tool ())"
  using step_size_irrelevant [of demo_tool 10 20 demo_rng demo_conditions "()" "()" "()"]
  by (simp add: demo_tool_def taylor_ok_def)

end
