(* ===== verification/Sim_Sensors.thy ===== *)
theory Sim_Sensors
  imports Sim_Physics Sim_Catalog
begin

text \<open>
  What the transmitters report: \<open>sim/noise.py\<close> (\<open>MeasurementModel\<close>: slow bias, noise, spikes, dropout,
  jitter and the injected sensor faults) and \<open>sim/sensors.py\<close> (\<open>SensorArray\<close>). A missing sample and a
  stuck value not yet captured (\<open>math.nan\<close>) are \<^term>\<open>None\<close>.
\<close>

section \<open>Measurement model\<close>

datatype fault_kind = Stuck | Offset | Dropout | Drift

record sensor_fault =
  flt_kind :: fault_kind
  flt_severity :: real
  flt_started_s :: real
  flt_until_s :: "real option"
  flt_stuck_value :: "real option"

record measurement =
  mm_params :: "noise_params list"
  mm_min :: "real list"
  mm_max :: "real list"
  mm_bias :: "real list"
  mm_last :: "real option list"
  mm_faults :: "(nat \<times> sensor_fault) list"

definition DRIFT_CORRELATION_S :: real where "DRIFT_CORRELATION_S = 24 * 3600"

definition OFFSET_SPAN_FRACTION :: real where "OFFSET_SPAN_FRACTION = 2 / 10"

definition DRIFT_SPAN_FRACTION_PER_H :: real where "DRIFT_SPAN_FRACTION_PER_H = 5 / 100"

definition new_measurement :: "noise_params list \<Rightarrow> real list \<Rightarrow> real list \<Rightarrow> measurement" where
  "new_measurement ps lo hi = \<lparr>mm_params = ps, mm_min = lo, mm_max = hi, mm_bias = replicate (length ps) 0,
     mm_last = replicate (length ps) None, mm_faults = []\<rparr>"

definition span :: "measurement \<Rightarrow> nat \<Rightarrow> real" where
  "span m i = mm_max m ! i - mm_min m ! i"

definition inject_at :: "measurement \<Rightarrow> nat \<Rightarrow> fault_kind \<Rightarrow> real \<Rightarrow> real \<Rightarrow> real option \<Rightarrow> measurement" where
  "inject_at m i kind severity now duration =
     m\<lparr>mm_faults := dict_put i \<lparr>flt_kind = kind, flt_severity = severity, flt_started_s = now,
       flt_until_s = map_option (\<lambda>d. now + d) duration, flt_stuck_value = mm_last m ! i\<rparr> (mm_faults m)\<rparr>"

definition clear_at :: "measurement \<Rightarrow> nat list option \<Rightarrow> measurement" where
  "clear_at m indices = (case indices of
       None \<Rightarrow> m\<lparr>mm_faults := []\<rparr>
     | Some js \<Rightarrow> m\<lparr>mm_faults := filter (\<lambda>(i, f). i \<notin> set js) (mm_faults m)\<rparr>)"

fun apply_fault :: "sensor_fault \<Rightarrow> real option \<Rightarrow> real \<Rightarrow> real \<Rightarrow> real \<Rightarrow> sensor_fault \<times> real option" where
  "apply_fault f value clean sp now = (case flt_kind f of
       Dropout \<Rightarrow> (f, None)
     | Stuck \<Rightarrow> (case flt_stuck_value f of
          Some v \<Rightarrow> (f, Some v)
        | None \<Rightarrow> (let v = (case value of None \<Rightarrow> clean | Some x \<Rightarrow> x) in (f\<lparr>flt_stuck_value := Some v\<rparr>, Some v)))
     | Offset \<Rightarrow> (f, map_option (\<lambda>x. x + flt_severity f * OFFSET_SPAN_FRACTION * sp) value)
     | Drift \<Rightarrow> (f, map_option (\<lambda>x. x + flt_severity f * DRIFT_SPAN_FRACTION_PER_H * sp
                     * ((now - flt_started_s f) / 3600)) value))"

text \<open>One iteration of the sampling loop: the random effects on sensor \<open>i\<close>, then its fault, then the clamp.\<close>

definition noisy_value :: "noise_params \<Rightarrow> real \<Rightarrow> real \<Rightarrow> real \<Rightarrow> real list \<Rightarrow> real option" where
  "noisy_value p sp base z us =
     (let value = base + n_std p * z;
          spiked = (if us ! 0 < n_spike_prob p
             then value + (if us ! 2 < 1 / 2 then -1 else 1) * n_spike_scale p * sp * (1 / 2 + \<bar>us ! 2 - 1 / 2\<bar>)
             else value)
      in if us ! 1 < n_dropout_prob p then None else Some spiked)"

definition faulty_value ::
  "measurement \<Rightarrow> nat \<Rightarrow> real option \<Rightarrow> real \<Rightarrow> real \<Rightarrow> measurement \<times> real option" where
  "faulty_value m i value clean now = (case map_of (mm_faults m) i of
       None \<Rightarrow> (m, value)
     | Some f \<Rightarrow>
         if (case flt_until_s f of None \<Rightarrow> False | Some u \<Rightarrow> u \<le> now)
         then (m\<lparr>mm_faults := AList.delete i (mm_faults m)\<rparr>, value)
         else (let (f', v) = apply_fault f value clean (span m i) now
               in (m\<lparr>mm_faults := dict_put i f' (mm_faults m)\<rparr>, v)))"

definition jitter_of :: "noise_params \<Rightarrow> real \<Rightarrow> int" where
  "jitter_of p u = \<lfloor>u * (2 * of_nat (n_jitter_ms p) + 1)\<rfloor> - int (n_jitter_ms p)"

definition sample_one ::
  "real list \<Rightarrow> real \<Rightarrow> real \<Rightarrow> real list \<Rightarrow> real list \<Rightarrow> measurement \<times> (real option \<times> int) list \<Rightarrow> nat
    \<Rightarrow> measurement \<times> (real option \<times> int) list" where
  "sample_one clean now decay zs us acc i =
     (let (m, out) = acc;
          p = mm_params m ! i;
          sp = span m i;
          bias = mm_bias m ! i * decay + n_drift p * sp * sqrt (1 - decay * decay) * zs ! (2 * i);
          m1 = m\<lparr>mm_bias := (mm_bias m)[i := bias]\<rparr>;
          value = noisy_value p sp (clean ! i + bias) (zs ! (2 * i + 1)) (drop (4 * i) us);
          (m2, faulty) = faulty_value m1 i value (clean ! i) now;
          clamped = map_option (clamp (mm_min m ! i) (mm_max m ! i)) faulty;
          m3 = (case clamped of None \<Rightarrow> m2 | Some v \<Rightarrow> m2\<lparr>mm_last := (mm_last m2)[i := Some v]\<rparr>)
      in (m3, out @ [(clamped, jitter_of p (us ! (4 * i + 3)))]))"

definition sample ::
  "'g rng \<Rightarrow> measurement \<Rightarrow> real list \<Rightarrow> real \<Rightarrow> real \<Rightarrow> 'g \<Rightarrow> (measurement \<times> (real option \<times> int) list) \<times> 'g" where
  "sample R m clean now dt g =
     (let n = length clean; (zs, g1) = r_standard_normal R (2 * n) g; (us, g2) = r_random R (4 * n) g1;
          decay = exp (- dt / DRIFT_CORRELATION_S)
      in (foldl (sample_one clean now decay zs us) (m, []) [0..<length (mm_params m)], g2))"

section \<open>Sensor array\<close>

record sensor_array =
  sa_metrics :: "string list"
  sa_components :: "string option list"
  sa_model :: measurement

record reading =
  rd_value :: "real option"
  rd_jitter_ms :: int

definition new_sensor_array :: "(string \<times> string option \<times> sensor_spec) list \<Rightarrow> sensor_array" where
  "new_sensor_array specs = \<lparr>sa_metrics = map fst specs, sa_components = map (fst \<circ> snd) specs,
     sa_model = new_measurement (map (s_noise \<circ> snd \<circ> snd) specs) (map (s_min_valid \<circ> snd \<circ> snd) specs)
       (map (s_max_valid \<circ> snd \<circ> snd) specs)\<rparr>"

text \<open>\<open>self.index[metric]\<close>: with distinct metrics, the position of the metric.\<close>

definition sensor_index :: "sensor_array \<Rightarrow> string \<Rightarrow> nat option" where
  "sensor_index sa metric = map_of (rev (zip (sa_metrics sa) [0..<length (sa_metrics sa)])) metric"

definition sample_array ::
  "'g rng \<Rightarrow> sensor_array \<Rightarrow> (string \<Rightarrow> real) \<Rightarrow> real \<Rightarrow> real \<Rightarrow> 'g
    \<Rightarrow> (sensor_array \<times> (string \<times> reading) list) \<times> 'g" where
  "sample_array R sa clean now dt g =
     (let ((m, out), g') = sample R (sa_model sa) (map clean (sa_metrics sa)) now dt g
      in ((sa\<lparr>sa_model := m\<rparr>,
           dict_of (zip (sa_metrics sa) (map (\<lambda>(v, j). \<lparr>rd_value = v, rd_jitter_ms = j\<rparr>) out))), g'))"

definition inject_sensor ::
  "sensor_array \<Rightarrow> string \<Rightarrow> fault_kind \<Rightarrow> real \<Rightarrow> real \<Rightarrow> real option \<Rightarrow> sensor_array option" where
  "inject_sensor sa metric kind severity now duration =
     map_option (\<lambda>i. sa\<lparr>sa_model := inject_at (sa_model sa) i kind severity now duration\<rparr>) (sensor_index sa metric)"

definition clear_sensors :: "sensor_array \<Rightarrow> string list option \<Rightarrow> sensor_array" where
  "clear_sensors sa components = sa\<lparr>sa_model := clear_at (sa_model sa) (case components of
       None \<Rightarrow> None
     | Some cs \<Rightarrow> Some (filter (\<lambda>i. sa_components sa ! i \<in> Some ` set cs) [0..<length (sa_components sa)]))\<rparr>"

definition sensor_faults :: "sensor_array \<Rightarrow> real \<Rightarrow> (string \<times> sensor_fault) list" where
  "sensor_faults sa now = map (\<lambda>(i, f). (sa_metrics sa ! i, f))
     (filter (\<lambda>(i, f). case flt_until_s f of None \<Rightarrow> True | Some u \<Rightarrow> now < u)
       (sort_key fst (mm_faults (sa_model sa))))"

section \<open>Invariant\<close>

definition measurement_ok :: "measurement \<Rightarrow> bool" where
  "measurement_ok m \<longleftrightarrow> length (mm_min m) = length (mm_params m) \<and> length (mm_max m) = length (mm_params m)
     \<and> length (mm_bias m) = length (mm_params m) \<and> length (mm_last m) = length (mm_params m)
     \<and> (\<forall>i < length (mm_params m). mm_min m ! i \<le> mm_max m ! i)
     \<and> (\<forall>i < length (mm_params m). \<forall>v. mm_last m ! i = Some v \<longrightarrow> mm_min m ! i \<le> v \<and> v \<le> mm_max m ! i)
     \<and> dict_ok (mm_faults m)"

text \<open>The frame of an iteration: sensors, ranges and lengths stay, only entry \<open>i\<close> of the state moves.\<close>

definition same_sensors :: "measurement \<Rightarrow> measurement \<Rightarrow> bool" where
  "same_sensors m m' \<longleftrightarrow> mm_params m' = mm_params m \<and> mm_min m' = mm_min m \<and> mm_max m' = mm_max m"

lemma dict_ok_delete [simp]: "dict_ok d \<Longrightarrow> dict_ok (AList.delete k d)"
  by (simp add: dict_ok_def distinct_delete)

lemma faulty_value_frame:
  assumes "faulty_value m i value clean now = (m', v)"
  shows "same_sensors m m'" and "mm_bias m' = mm_bias m" and "mm_last m' = mm_last m"
    and "dict_ok (mm_faults m) \<Longrightarrow> dict_ok (mm_faults m')"
    and "j \<noteq> i \<Longrightarrow> map_of (mm_faults m') j = map_of (mm_faults m) j"
  using assms
  by (auto simp: faulty_value_def same_sensors_def update_conv' delete_conv' Let_def
      split: option.splits if_splits prod.splits)

lemma sample_one_ok:
  assumes ok: "measurement_ok m" and i: "i < length (mm_params m)"
    and s: "sample_one clean now decay zs us (m, out) i = (m', out')"
  shows "measurement_ok m' \<and> same_sensors m m'
    \<and> (\<exists>v. out' = out @ [(v, jitter_of (mm_params m ! i) (us ! (4 * i + 3)))]
        \<and> (\<forall>x. v = Some x \<longrightarrow> mm_min m ! i \<le> x \<and> x \<le> mm_max m ! i))"
proof -
  obtain m1 bias where m1: "m1 = m\<lparr>mm_bias := (mm_bias m)[i := bias]\<rparr>"
    and bias: "bias = mm_bias m ! i * decay + n_drift (mm_params m ! i) * span m i * sqrt (1 - decay * decay) * zs ! (2 * i)"
    by simp
  obtain m2 faulty where f: "faulty_value m1 i (noisy_value (mm_params m ! i) (span m i) (clean ! i + bias)
      (zs ! (2 * i + 1)) (drop (4 * i) us)) (clean ! i) now = (m2, faulty)" by force
  let ?v = "map_option (clamp (mm_min m ! i) (mm_max m ! i)) faulty"
  have m': "m' = (case ?v of None \<Rightarrow> m2 | Some v \<Rightarrow> m2\<lparr>mm_last := (mm_last m2)[i := Some v]\<rparr>)"
    and out': "out' = out @ [(?v, jitter_of (mm_params m ! i) (us ! (4 * i + 3)))]"
    using s f by (auto simp: sample_one_def Let_def m1 bias)
  note fr = faulty_value_frame [OF f]
  have range: "mm_min m ! i \<le> clamp (mm_min m ! i) (mm_max m ! i) x" for x
    using ok i by (simp add: measurement_ok_def)
  show ?thesis
    using ok i fr range
    by (auto simp: m' out' m1 measurement_ok_def same_sensors_def nth_list_update split: option.splits)
qed

lemma same_sensors_refl [simp]: "same_sensors m m"
  by (simp add: same_sensors_def)

lemma same_sensors_trans: "same_sensors a b \<Longrightarrow> same_sensors b c \<Longrightarrow> same_sensors a c"
  by (simp add: same_sensors_def)

lemma sample_loop:
  assumes ok: "measurement_ok m" and k: "k \<le> length (mm_params m)"
    and f: "foldl (sample_one clean now decay zs us) (m, []) [0..<k] = (m', out)"
  shows "measurement_ok m' \<and> same_sensors m m' \<and> length out = k \<and> (\<forall>i < k.
      snd (out ! i) = jitter_of (mm_params m ! i) (us ! (4 * i + 3))
      \<and> (\<forall>x. fst (out ! i) = Some x \<longrightarrow> mm_min m ! i \<le> x \<and> x \<le> mm_max m ! i))"
  using k f
proof (induction k arbitrary: m' out)
  case 0
  with ok show ?case by simp
next
  case (Suc k)
  obtain m1 out1 where f1: "foldl (sample_one clean now decay zs us) (m, []) [0..<k] = (m1, out1)" by force
  with Suc.prems have step: "sample_one clean now decay zs us (m1, out1) k = (m', out)" by simp
  from Suc.IH [OF _ f1] Suc.prems(1) have ih: "measurement_ok m1" "same_sensors m m1" "length out1 = k"
    "\<forall>i < k. snd (out1 ! i) = jitter_of (mm_params m ! i) (us ! (4 * i + 3))
      \<and> (\<forall>x. fst (out1 ! i) = Some x \<longrightarrow> mm_min m ! i \<le> x \<and> x \<le> mm_max m ! i)" by auto
  moreover have "k < length (mm_params m1)" using ih(2) Suc.prems(1) by (simp add: same_sensors_def)
  note sample_one_ok [OF ih(1) this step]
  ultimately show ?case
    by (auto simp: same_sensors_def nth_append less_Suc_eq)
qed

lemma jitter_bound: "0 \<le> u \<Longrightarrow> u < 1 \<Longrightarrow> \<bar>jitter_of p u\<bar> \<le> int (n_jitter_ms p)"
proof -
  assume u: "0 \<le> u" "u < 1"
  let ?n = "2 * real (n_jitter_ms p) + 1"
  have "0 \<le> u * ?n" "u * ?n < ?n" using u by (simp_all add: mult_less_cancel_right1)
  then have "0 \<le> \<lfloor>u * ?n\<rfloor>" "\<lfloor>u * ?n\<rfloor> < 2 * int (n_jitter_ms p) + 1" by (simp, linarith)
  then show ?thesis unfolding jitter_of_def abs_le_iff by linarith
qed

text \<open>The fault of another sensor is untouched; a stuck one reports what it holds and stays.\<close>

definition stuck_at :: "measurement \<Rightarrow> nat \<Rightarrow> real \<Rightarrow> real \<Rightarrow> bool" where
  "stuck_at m i v now \<longleftrightarrow> (\<exists>f. map_of (mm_faults m) i = Some f \<and> flt_kind f = Stuck
     \<and> flt_stuck_value f = Some v \<and> (\<forall>u. flt_until_s f = Some u \<longrightarrow> now < u))"

lemma sample_one_other:
  assumes "sample_one clean now decay zs us (m, out) j = (m', out')" and "i \<noteq> j"
  shows "map_of (mm_faults m') i = map_of (mm_faults m) i"
  using assms
  by (auto simp: sample_one_def Let_def dest!: faulty_value_frame(5) [of _ _ _ _ _ _ _ i]
      split: prod.splits option.splits)

lemma sample_one_stuck:
  assumes "sample_one clean now decay zs us (m, out) i = (m', out')" and "stuck_at m i v now"
    and "mm_min m ! i \<le> v" and "v \<le> mm_max m ! i"
  shows "map_of (mm_faults m') i = map_of (mm_faults m) i
    \<and> out' = out @ [(Some v, jitter_of (mm_params m ! i) (us ! (4 * i + 3)))]"
proof -
  obtain f where f: "map_of (mm_faults m) i = Some f" "flt_kind f = Stuck" "flt_stuck_value f = Some v"
    "\<not> (case flt_until_s f of None \<Rightarrow> False | Some u \<Rightarrow> u \<le> now)"
    using assms(2) unfolding stuck_at_def by (metis not_le option.case_eq_if option.exhaust_sel)
  have "faulty_value (m\<lparr>mm_bias := bs\<rparr>) i x c now = (m\<lparr>mm_bias := bs, mm_faults := dict_put i f (mm_faults m)\<rparr>, Some v)"
    for bs x c
    using f by (simp add: faulty_value_def)
  with assms(1,3,4) f(1) show ?thesis
    by (auto simp: sample_one_def Let_def update_conv')
qed

lemma sample_loop_stuck:
  assumes ok: "measurement_ok m" and k: "k \<le> length (mm_params m)"
    and f: "foldl (sample_one clean now decay zs us) (m, []) [0..<k] = (m', out)"
    and st: "stuck_at m i v now" and v: "mm_min m ! i \<le> v" "v \<le> mm_max m ! i"
  shows "map_of (mm_faults m') i = map_of (mm_faults m) i \<and> (i < k \<longrightarrow> fst (out ! i) = Some v)"
  using k f
proof (induction k arbitrary: m' out)
  case 0
  then show ?case by simp
next
  case (Suc k)
  obtain m1 out1 where f1: "foldl (sample_one clean now decay zs us) (m, []) [0..<k] = (m1, out1)" by force
  with Suc.prems have step: "sample_one clean now decay zs us (m1, out1) k = (m', out)" by simp
  from Suc.IH [OF _ f1] Suc.prems(1)
  have ih: "map_of (mm_faults m1) i = map_of (mm_faults m) i" "i < k \<longrightarrow> fst (out1 ! i) = Some v" by auto
  have len: "length out1 = k" and same: "same_sensors m m1" and ok1: "measurement_ok m1"
    using sample_loop [OF ok _ f1] Suc.prems(1) by auto
  have k1: "k < length (mm_params m1)" using same Suc.prems(1) by (simp add: same_sensors_def)
  have ext: "\<exists>x. out = out1 @ [x]" using sample_one_ok [OF ok1 k1 step] by auto
  show ?case
  proof (cases "i = k")
    case True
    have "stuck_at m1 k v now" using st ih(1) True by (simp add: stuck_at_def)
    from sample_one_stuck [OF step this] same v ih(1) len True show ?thesis by (auto simp: same_sensors_def nth_append)
  next
    case False
    with sample_one_other [OF step False] ih ext len show ?thesis by (auto simp: nth_append)
  qed
qed

lemma sample_keeps_sensors:
  assumes "measurement_ok m" and "length clean = length (mm_params m)" and "sample R m clean now dt g = ((m', out), g')"
  shows "measurement_ok m' \<and> same_sensors m m'"
proof -
  obtain zs g1 us g2 where draws: "r_standard_normal R (2 * length clean) g = (zs, g1)"
    "r_random R (4 * length clean) g1 = (us, g2)" by force
  have "foldl (sample_one clean now (exp (- dt / DRIFT_CORRELATION_S)) zs us) (m, [])
      [0..<length (mm_params m)] = (m', out)"
    using assms(3) draws by (simp add: sample_def Let_def)
  from sample_loop [OF assms(1) order.refl this] show ?thesis by simp
qed

section \<open>Properties\<close>

text \<open>
  Every sample of every sensor is missing or inside the sensor's valid range, and its
  timestamp jitter is at most the configured one, whatever the clean value, the draws and the faults;
  the sensors' ranges, the recorded last values and the fault table stay consistent.
\<close>

theorem readings_in_range:
  assumes "rng_ok R" and "measurement_ok m" and "length clean = length (mm_params m)"
    and "sample R m clean now dt g = ((m', out), g')"
  shows "measurement_ok m' \<and> same_sensors m m' \<and> length out = length clean \<and> (\<forall>i < length clean.
      \<bar>snd (out ! i)\<bar> \<le> int (n_jitter_ms (mm_params m ! i))
      \<and> (\<forall>x. fst (out ! i) = Some x \<longrightarrow> mm_min m ! i \<le> x \<and> x \<le> mm_max m ! i))"
proof -
  obtain zs g1 us g2 where draws: "r_standard_normal R (2 * length clean) g = (zs, g1)"
    "r_random R (4 * length clean) g1 = (us, g2)" by force
  have loop: "foldl (sample_one clean now (exp (- dt / DRIFT_CORRELATION_S)) zs us) (m, [])
      [0..<length (mm_params m)] = (m', out)"
    using assms(4) draws by (simp add: sample_def Let_def)
  have "length us = 4 * length clean" using rng_draws(7) [OF assms(1), of "4 * length clean" g1] draws by simp
  moreover have "\<forall>u \<in> set us. 0 \<le> u \<and> u < 1" using rng_draws(8) [OF assms(1), of _ "4 * length clean" g1] draws by auto
  ultimately have "0 \<le> us ! (4 * i + 3) \<and> us ! (4 * i + 3) < 1" if "i < length clean" for i
    using that by (auto simp: all_set_conv_all_nth)
  then show ?thesis
    using sample_loop [OF assms(2) order.refl loop] assms(3) jitter_bound by auto
qed

text \<open>A history of samples, with arbitrary clean values, instants and step sizes.\<close>

fun sample_history ::
  "'g rng \<Rightarrow> measurement \<Rightarrow> (real list \<times> real \<times> real) list \<Rightarrow> 'g \<Rightarrow> (real option \<times> int) list list" where
  "sample_history R m [] g = []"
| "sample_history R m ((clean, now, dt) # hs) g =
     (let ((m', out), g') = sample R m clean now dt g in out # sample_history R m' hs g')"

lemma stuck_history:
  assumes "measurement_ok m" and "i < length (mm_params m)"
    and "\<forall>(clean, now, dt) \<in> set hs. length clean = length (mm_params m) \<and> stuck_at m i v now"
    and "mm_min m ! i \<le> v" and "v \<le> mm_max m ! i" and "out \<in> set (sample_history R m hs g)"
  shows "fst (out ! i) = Some v"
  using assms
proof (induction hs arbitrary: m g)
  case Nil
  then show ?case by simp
next
  case (Cons h hs)
  obtain clean now dt where h: "h = (clean, now, dt)" by (cases h)
  obtain m' o1 g' where s: "sample R m clean now dt g = ((m', o1), g')" by (metis prod.exhaust)
  obtain zs g1 us g2 where draws: "r_standard_normal R (2 * length clean) g = (zs, g1)"
    "r_random R (4 * length clean) g1 = (us, g2)" by force
  have loop: "foldl (sample_one clean now (exp (- dt / DRIFT_CORRELATION_S)) zs us) (m, [])
      [0..<length (mm_params m)] = (m', o1)"
    using s draws by (simp add: sample_def Let_def)
  have prem: "length clean = length (mm_params m)" "stuck_at m i v now" using Cons.prems(3) h by auto
  note st = sample_loop_stuck [OF Cons.prems(1) order.refl loop prem(2) Cons.prems(4,5)]
  have m': "measurement_ok m'" "same_sensors m m'"
    using sample_loop [OF Cons.prems(1) order.refl loop] by simp_all
  from Cons.prems(6) h s consider "out = o1" | "out \<in> set (sample_history R m' hs g')" by auto
  then show ?case
  proof cases
    case 1
    then show ?thesis using st Cons.prems(2) by simp
  next
    case 2
    show ?thesis
      by (rule Cons.IH [OF m'(1) _ _ _ _ 2])
        (use m'(2) st Cons.prems in \<open>auto simp: same_sensors_def stuck_at_def\<close>)
  qed
qed

text \<open>
  A stuck sensor freezes at the last value it reported: after the injection, in every
  sequence of later samples up to the end of the fault, each reading is that value (never missing,
  never moved by noise, spikes, drift or dropout).
\<close>

theorem stuck_sensor_freezes:
  assumes "measurement_ok m" and "i < length (mm_params m)" and "mm_last m ! i = Some v"
    and "\<forall>(clean, now, dt) \<in> set hs. length clean = length (mm_params m)
      \<and> (\<forall>d. duration = Some d \<longrightarrow> now < t0 + d)"
    and "out \<in> set (sample_history R (inject_at m i Stuck severity t0 duration) hs g)"
  shows "fst (out ! i) = Some v"
proof (rule stuck_history [OF _ _ _ _ _ assms(5)])
  show "measurement_ok (inject_at m i Stuck severity t0 duration)"
    using assms(1) by (simp add: measurement_ok_def inject_at_def)
qed (use assms in \<open>auto simp: inject_at_def stuck_at_def measurement_ok_def update_conv'\<close>)

definition demo_sensor :: measurement where
  "demo_sensor = \<lparr>mm_params = [\<lparr>n_std = 1, n_drift = 0, n_spike_prob = 0, n_spike_scale = 0, n_dropout_prob = 0,
     n_jitter_ms = 25\<rparr>], mm_min = [0], mm_max = [50], mm_bias = [0], mm_last = [Some 7], mm_faults = []\<rparr>"

definition demo_noise :: "unit rng" where
  "demo_noise = \<lparr>r_normal = \<lambda>g. (0, g), r_lognormal = \<lambda>\<mu> \<sigma> g. (1, g), r_uniform = \<lambda>a b g. (a, g),
     r_gamma = \<lambda>k \<theta> g. (k * \<theta>, g), r_binomial = \<lambda>n p g. (0, g),
     r_standard_normal = \<lambda>n g. (replicate n 1, g), r_random = \<lambda>n g. (replicate n (1 / 2), g)\<rparr>"

lemma demo_noise_ok: "rng_ok demo_noise"
  by (simp add: rng_ok_def demo_noise_def)

lemma demo_sensor_ok: "measurement_ok demo_sensor"
  by (simp add: measurement_ok_def demo_sensor_def)

lemma readings_in_range_witness:
  "\<exists>m' out g'. sample demo_noise demo_sensor [99] 10 1 () = ((m', out), g') \<and> length out = 1
    \<and> (\<forall>x. fst (out ! 0) = Some x \<longrightarrow> 0 \<le> x \<and> x \<le> 50)"
proof -
  obtain m' out g' where s: "sample demo_noise demo_sensor [99] 10 1 () = ((m', out), g')" by (metis prod.exhaust)
  from readings_in_range [OF demo_noise_ok demo_sensor_ok _ s] s show ?thesis by (simp add: demo_sensor_def)
qed

lemma sample_history_length [simp]: "length (sample_history R m hs g) = length hs"
  by (induction R m hs g rule: sample_history.induct) (auto split: prod.split)

lemma stuck_sensor_freezes_witness:
  "map (\<lambda>out. fst (out ! 0))
     (sample_history demo_noise (inject_at demo_sensor 0 Stuck 1 0 (Some 60)) [([3], 1, 1), ([9], 2, 1)] ())
   = [Some 7, Some 7]"
proof -
  define outs where
    "outs = sample_history demo_noise (inject_at demo_sensor 0 Stuck 1 0 (Some 60)) [([3], 1, 1), ([9], 2, 1)] ()"
  have "fst (out ! 0) = Some 7" if "out \<in> set outs" for out
    by (rule stuck_sensor_freezes [OF demo_sensor_ok _ _ _ that [unfolded outs_def]]) (simp_all add: demo_sensor_def)
  moreover have "length outs = 2" unfolding outs_def sample_history_length by simp
  ultimately show ?thesis
    unfolding outs_def [symmetric] by (cases outs; cases "tl outs") auto
qed

end
