(* ===== verification/Sim_Plant.thy ===== *)
theory Sim_Plant
  imports Sim_Physics
begin

text \<open>
  Energy and production of a machine: \<open>sim/energy.py\<close> (electrical operating point, energy meter) and
  \<open>sim/production.py\<close> (load following, good/reject counting).
\<close>

section \<open>Electrical model\<close>

record electrical =
  e_power_kw :: real
  e_power_factor :: real
  e_current_a :: real

definition LINE_VOLTAGE_V :: real where "LINE_VOLTAGE_V = 415"

definition power_factor :: "real \<Rightarrow> real \<Rightarrow> real" where
  "power_factor demand pf_rated = pf_rated * (1 - 4 / 10 * exp (- 4 * max demand 0))"

definition electrical_state ::
  "real \<Rightarrow> real \<Rightarrow> real \<Rightarrow> real \<Rightarrow> real \<Rightarrow> bool \<Rightarrow> real \<Rightarrow> electrical" where
  "electrical_state rated_kw demand efficiency eta_nominal idle_fraction running pf_rated =
     (let (power, pf) =
        (if running
         then (let shaft = idle_fraction + (1 - idle_fraction) * max demand 0
               in (rated_kw * shaft * eta_nominal / max efficiency (5 / 100), power_factor demand pf_rated))
         else (rated_kw * idle_fraction, power_factor 0 pf_rated))
      in \<lparr>e_power_kw = power, e_power_factor = pf, e_current_a = power * 1000 / (sqrt 3 * LINE_VOLTAGE_V * pf)\<rparr>)"

definition meter_add :: "real \<Rightarrow> real \<Rightarrow> real \<Rightarrow> real" where
  "meter_add kwh power_kw dt_s = kwh + power_kw * dt_s / 3600"

lemma power_factor_bounds:
  assumes "0 < pf"
  shows "6 / 10 * pf \<le> power_factor demand pf" and "power_factor demand pf < pf"
proof -
  define e where "e = exp (- 4 * max demand 0)"
  have "e \<le> 1" by (simp add: e_def)
  then have "pf * (1 - 4 / 10) \<le> pf * (1 - 4 / 10 * e)" using assms by (intro mult_left_mono) auto
  then show "6 / 10 * pf \<le> power_factor demand pf" by (simp add: power_factor_def e_def)
  show "power_factor demand pf < pf" using assms by (simp add: power_factor_def algebra_simps)
qed

text \<open>
  The electrical readings are consistent: active power is \<open>sqrt 3\<close> times line voltage,
  current and power factor, the power factor lies in (0.6, 1] of the rated one, a running machine
  draws at least its idle power while its efficiency is not above nominal, and wear that lowers the
  efficiency raises the power at the same demand.
\<close>

theorem electrical_consistent:
  assumes "0 < pf" and "0 \<le> rated" and "0 \<le> idle" and "idle \<le> 1" and "0 < eta" and "5 / 100 \<le> eff" and "eff \<le> eta"
  shows "e_power_kw (electrical_state rated d eff eta idle run pf)
      = sqrt 3 * LINE_VOLTAGE_V * e_current_a (electrical_state rated d eff eta idle run pf)
        * e_power_factor (electrical_state rated d eff eta idle run pf) / 1000
    \<and> 6 / 10 * pf \<le> e_power_factor (electrical_state rated d eff eta idle run pf)
    \<and> e_power_factor (electrical_state rated d eff eta idle run pf) < pf
    \<and> rated * idle \<le> e_power_kw (electrical_state rated d eff eta idle run pf)
    \<and> (\<forall>worn. 0 < worn \<longrightarrow> worn \<le> eff \<longrightarrow> e_power_kw (electrical_state rated d eff eta idle run pf)
          \<le> e_power_kw (electrical_state rated d worn eta idle run pf))"
proof -
  let ?e = "electrical_state rated d eff eta idle run pf"
  have pf: "6 / 10 * pf \<le> e_power_factor ?e" "e_power_factor ?e < pf"
    using power_factor_bounds [OF assms(1)] by (auto simp: electrical_state_def)
  then have pf0: "0 < e_power_factor ?e" using assms(1) by linarith
  have "e_power_kw ?e = sqrt 3 * LINE_VOLTAGE_V * e_current_a ?e * e_power_factor ?e / 1000"
    using pf0 by (simp add: electrical_state_def LINE_VOLTAGE_V_def split: if_splits)
  moreover have "rated * idle \<le> e_power_kw ?e"
  proof (cases run)
    case True
    let ?s = "idle + (1 - idle) * max d 0"
    have s: "idle \<le> ?s" using assms by simp
    have q: "1 \<le> eta / max eff (5 / 100)" using assms by simp
    have "rated * idle * 1 \<le> (rated * ?s) * (eta / max eff (5 / 100))"
      using s q assms by (intro mult_mono) (auto intro: mult_left_mono)
    then show ?thesis using True by (simp add: electrical_state_def Let_def)
  next
    case False
    then show ?thesis by (simp add: electrical_state_def)
  qed
  moreover have "e_power_kw ?e \<le> e_power_kw (electrical_state rated d worn eta idle run pf)"
    if "0 < worn" "worn \<le> eff" for worn
  proof -
    let ?n = "rated * (idle + (1 - idle) * max d 0) * eta"
    have "0 \<le> ?n" using assms by simp
    then have "?n / max eff (5 / 100) \<le> ?n / max worn (5 / 100)"
      using that by (intro divide_left_mono) auto
    then show ?thesis by (simp add: electrical_state_def Let_def)
  qed
  ultimately show ?thesis using pf by simp
qed

section \<open>Production\<close>

definition LOAD_CORRELATION_S :: real where "LOAD_CORRELATION_S = 300"

definition LOAD_WALK_STD_PCT :: real where "LOAD_WALK_STD_PCT = 25 / 10"

definition MAX_LOAD_PCT :: real where "MAX_LOAD_PCT = 110"

definition follow_plan :: "'g rng \<Rightarrow> real \<Rightarrow> real \<Rightarrow> real \<Rightarrow> bool \<Rightarrow> 'g \<Rightarrow> real \<times> 'g" where
  "follow_plan R load_pct target dt walk g =
     (if \<not> walk then (target, g)
      else (let decay = exp (- dt / LOAD_CORRELATION_S); (z, g') = r_normal R g;
                noise = LOAD_WALK_STD_PCT * sqrt (1 - decay * decay) * z
            in (clamp 0 MAX_LOAD_PCT (target + (load_pct - target) * decay + noise), g')))"

record counter =
  ideal_cycle_time_s :: real
  good :: nat
  reject :: nat
  cycle_time_s :: real
  partial :: real

definition new_counter :: "real \<Rightarrow> counter" where
  "new_counter ideal = \<lparr>ideal_cycle_time_s = ideal, good = 0, reject = 0, cycle_time_s = ideal, partial = 0\<rparr>"

definition counter_total :: "counter \<Rightarrow> nat" where
  "counter_total c = good c + reject c"

definition nominal_cycle :: "counter \<Rightarrow> real \<Rightarrow> real \<Rightarrow> real" where
  "nominal_cycle c slowdown speed = ideal_cycle_time_s c / max speed (1 / 10) * (1 + slowdown)"

definition counter_step ::
  "'g rng \<Rightarrow> real \<Rightarrow> real \<Rightarrow> real \<Rightarrow> real \<Rightarrow> real \<Rightarrow> counter \<Rightarrow> 'g \<Rightarrow> counter \<times> 'g" where
  "counter_step R dt utilization slowdown speed reject_prob c g =
     (if dt \<le> 0 \<or> utilization \<le> 0 then (c, g)
      else (let nominal = nominal_cycle c slowdown speed; (z, g1) = r_normal R g;
                work = partial c + dt * min utilization 1 / nominal;
                completed = nat \<lfloor>work\<rfloor>;
                (rejects, g2) = (if completed \<noteq> 0 then r_binomial R completed (clamp 0 1 reject_prob) g1 else (0, g1))
            in (c\<lparr>cycle_time_s := nominal * max (1 + 2 / 100 * z) (1 / 2), partial := work - of_nat completed,
                  good := good c + (completed - rejects), reject := reject c + rejects\<rparr>, g2)))"

definition counter_ok :: "counter \<Rightarrow> bool" where
  "counter_ok c \<longleftrightarrow> 0 < ideal_cycle_time_s c \<and> 0 \<le> partial c \<and> partial c < 1"

text \<open>Cycles of work accounted so far: completed parts plus the fraction in progress.\<close>

definition cycles_done :: "counter \<Rightarrow> real" where
  "cycles_done c = of_nat (counter_total c) + partial c"

lemma counter_step_ok:
  assumes "rng_ok R" and "counter_ok c" and "0 \<le> slowdown" and "counter_step R dt u slowdown speed q c g = (c', g')"
  shows "counter_ok c' \<and> good c \<le> good c' \<and> reject c \<le> reject c'
    \<and> cycles_done c' = cycles_done c
        + (if 0 < dt \<and> 0 < u then dt * min u 1 / nominal_cycle c slowdown speed else 0)"
proof (cases "0 < dt \<and> 0 < u")
  case False
  then show ?thesis using assms(2,4) by (auto simp: counter_step_def)
next
  case True
  let ?n = "nominal_cycle c slowdown speed"
  define w where "w = partial c + dt * min u 1 / ?n"
  define k where "k = nat \<lfloor>w\<rfloor>"
  have "0 < ?n" using assms(2,3) by (simp add: nominal_cycle_def counter_ok_def)
  then have "0 \<le> w" using assms(2) True by (simp add: counter_ok_def w_def)
  then have k: "of_nat k \<le> w" "w < of_nat k + 1" unfolding k_def by linarith+
  obtain z g1 where z: "r_normal R g = (z, g1)" by force
  obtain r g2 where r: "(if k \<noteq> 0 then r_binomial R k (clamp 0 1 q) g1 else (0, g1)) = (r, g2)" by force
  have rk: "r \<le> k" using r rng_draws(5) [OF assms(1), of k "clamp 0 1 q" g1] by (auto split: if_splits)
  have c': "c' = c\<lparr>cycle_time_s := ?n * max (1 + 2 / 100 * z) (1 / 2), partial := w - of_nat k,
      good := good c + (k - r), reject := reject c + r\<rparr>"
    using assms(4) True
    unfolding counter_step_def Let_def z case_prod_conv w_def [symmetric] k_def [symmetric] r by simp
  have "cycles_done c' = of_nat (counter_total c) + w"
    using rk by (simp add: c' cycles_done_def counter_total_def of_nat_diff)
  then show ?thesis
    using assms(2) k True by (simp add: c' counter_ok_def cycles_done_def w_def)
qed

text \<open>
  No part is lost or invented: a step adds to completed parts plus the part in progress
  exactly the cycles worked, \<open>dt * min utilization 1\<close> over the nominal cycle; the fraction stays below
  one part, and the good and reject counts never go back, whatever the draws.
\<close>

theorem production_conserved:
  assumes "rng_ok R" and "counter_ok c" and "0 \<le> slowdown" and "counter_step R dt u slowdown speed q c g = (c', g')"
  shows "counter_ok c' \<and> good c \<le> good c' \<and> reject c \<le> reject c'
    \<and> cycles_done c' = cycles_done c
        + (if 0 < dt \<and> 0 < u then dt * min u 1 / nominal_cycle c slowdown speed else 0)"
  by (rule counter_step_ok [OF assms])

definition demo_draws :: "unit rng" where
  "demo_draws = \<lparr>r_normal = \<lambda>g. (0, g), r_lognormal = \<lambda>\<mu> \<sigma> g. (1, g), r_uniform = \<lambda>a b g. (a, g),
     r_gamma = \<lambda>k \<theta> g. (k * \<theta>, g), r_binomial = \<lambda>n p g. (n div 2, g),
     r_standard_normal = \<lambda>n g. (replicate n 0, g), r_random = \<lambda>n g. (replicate n 0, g)\<rparr>"

lemma electrical_consistent_witness:
  "15 * (8 / 100) \<le> e_power_kw (electrical_state 15 (7 / 10) (9 / 10) (91 / 100) (8 / 100) True (86 / 100))"
  using electrical_consistent [of "86 / 100" 15 "8 / 100" "91 / 100" "9 / 10" "7 / 10" True] by simp

lemma production_conserved_witness:
  "\<exists>c' g'. counter_step demo_draws 25 1 0 1 (1 / 10) (new_counter 10) () = (c', g')
    \<and> cycles_done c' = 25 / 10 \<and> counter_ok c'"
proof -
  have R: "rng_ok demo_draws" by (simp add: rng_ok_def demo_draws_def)
  have c: "counter_ok (new_counter 10)" by (simp add: counter_ok_def new_counter_def)
  obtain c' g' where s: "counter_step demo_draws 25 1 0 1 (1 / 10) (new_counter 10) () = (c', g')" by (metis prod.exhaust)
  have "cycles_done (new_counter 10) = 0" "nominal_cycle (new_counter 10) 0 1 = 10"
    by (simp_all add: cycles_done_def new_counter_def counter_total_def nominal_cycle_def)
  with production_conserved [OF R c _ s] s show ?thesis by simp
qed

end
