(* ===== verification/Sim_Machine.thy ===== *)
theory Sim_Machine
  imports Sim_Process Sim_Sensors Sim_Plant
begin

text \<open>
  The simulated asset, \<open>Machine\<close> of \<open>apps/simulator/sim/machines/base.py\<close>: its state, what its operating
  point derives from it, and the five machine classes (\<open>cnc_mill.py\<close>, \<open>compressor.py\<close>, \<open>conveyor.py\<close>,
  \<open>hydraulic_press.py\<close>, \<open>injection_moulder.py\<close>) with their demand and their clean signals.

  A class reads its catalog parameters \<open>p[...]\<close>, its components and its thermal states by name. A
  machine whose YAML lacks one of them raises in its constructor and never exists, so these lookups
  are written with \<^term>\<open>the\<close>. \<open>run\<close> multiplies as 0 or 1, as Python's bool does.
\<close>

section \<open>State\<close>

datatype op_state = RUNNING | IDLE | DOWN | MAINTENANCE | UNKNOWN

datatype event_level = Info | Warning | Error

record active_mode =
  am_failure_mode :: string
  am_mode :: fault_mode
  am_severity :: real
  am_started_s :: real

record component =
  comp_spec :: component_spec
  comp_process :: "model_state process option"
  comp_active :: "active_mode list"

record 'g machine =
  asset_of :: asset_spec
  spec :: machine_type_spec
  ambient_c :: real
  maintenance_duration_s :: real
  components :: "(string \<times> component) list"
  sensors :: sensor_array
  production :: counter
  meter_kwh :: real
  op_state :: op_state
  load_pct :: real
  speed_setpoint_pct :: real
  load_setpoint_pct :: "real option"
  now_s :: real
  thermal :: "(string \<times> real) list"
  maintenance_left_s :: real
  failed_component :: "string option"
  operating_load_pct :: real
  damage_map :: "(string \<times> real) list"
  electrical_now :: electrical
  clean :: "(string \<times> real) list"
  readings :: "(string \<times> reading) list"
  gen :: 'g

definition comp_damage :: "component \<Rightarrow> real" where
  "comp_damage c = (case comp_process c of None \<Rightarrow> 0 | Some p \<Rightarrow> any_damage (p_state p))"

definition comp_failed :: "component \<Rightarrow> bool" where
  "comp_failed c = (case comp_process c of None \<Rightarrow> False | Some p \<Rightarrow> any_failed (p_state p))"

definition temp_metric :: "component \<Rightarrow> string option" where
  "temp_metric c = Option.bind (c_process (comp_spec c)) ps_temp_metric"

section \<open>Operating point\<close>

definition is_running :: "'g machine \<Rightarrow> bool" where
  "is_running m \<longleftrightarrow> op_state m = RUNNING"

definition load :: "'g machine \<Rightarrow> real" where
  "load m = (if is_running m then load_pct m / 100 else 0)"

definition speed :: "'g machine \<Rightarrow> real" where
  "speed m = (if is_running m then speed_setpoint_pct m / 100 else 0)"

definition set_load_setpoint :: "real \<Rightarrow> 'g machine \<Rightarrow> 'g machine" where
  "set_load_setpoint x m = m\<lparr>load_setpoint_pct := Some x, operating_load_pct := x\<rparr>"

definition damage :: "'g machine \<Rightarrow> string \<Rightarrow> real" where
  "damage m code = the (map_of (damage_map m) code)"

definition refresh_damage :: "'g machine \<Rightarrow> 'g machine" where
  "refresh_damage m = m\<lparr>damage_map := map (\<lambda>(code, c). (code, comp_damage c)) (components m)\<rparr>"

definition param :: "'g machine \<Rightarrow> string \<Rightarrow> real" where
  "param m k = the (map_of (t_params (spec m)) k)"

text \<open>\<open>lag\<close>: the new value and the machine with its thermal state updated.\<close>

definition lag :: "string \<Rightarrow> real \<Rightarrow> real \<Rightarrow> real \<Rightarrow> 'g machine \<Rightarrow> real \<times> 'g machine" where
  "lag key target tau_s dt m =
     (let old = (case map_of (thermal m) key of None \<Rightarrow> ambient_c m | Some x \<Rightarrow> x);
          new = target + (old - target) * exp (- dt / tau_s)
      in (new, m\<lparr>thermal := dict_put key new (thermal m)\<rparr>))"

fun motor_efficiencies :: "(string \<times> component) list \<Rightarrow> real option" where
  "motor_efficiencies [] = None"
| "motor_efficiencies ((code, c) # cs) = (case comp_process c of
       Some p \<Rightarrow> (case p_state p of Motor_State s \<Rightarrow> Some (motor_efficiency s) | _ \<Rightarrow> motor_efficiencies cs)
     | None \<Rightarrow> motor_efficiencies cs)"

definition efficiency :: "'g machine \<Rightarrow> real" where
  "efficiency m = (case motor_efficiencies (components m) of Some e \<Rightarrow> e | None \<Rightarrow> t_eta_nominal (spec m))"

text \<open>Actual conditions, or those of the operating point for the ground truth.\<close>

definition conditions_of :: "'g machine \<Rightarrow> component \<Rightarrow> bool \<Rightarrow> conditions" where
  "conditions_of m c operating =
     (let temp = (case temp_metric c of None \<Rightarrow> None
                  | Some k \<Rightarrow> if k = [] then None else map_of (clean m) k)
      in if \<not> operating then \<lparr>cond_load = load m, cond_speed = speed m, cond_temp = temp\<rparr>
         else (let temp' = (case (temp, Option.bind (comp_process c) p_arrhenius) of
                      (Some t, Some A) \<Rightarrow> Some (max t (t_ref_c A)) | _ \<Rightarrow> temp)
               in \<lparr>cond_load = operating_load_pct m / 100, cond_speed = speed_setpoint_pct m / 100,
                   cond_temp = temp'\<rparr>))"

section \<open>Machine classes\<close>

text \<open>CNC mill.\<close>

definition cnc_demand :: "'g machine \<Rightarrow> real" where
  "cnc_demand m = load m * py_pow (speed m) (1/2) + 8/100 * damage m ''spindle'' + 5/100 * damage m ''axis''"

definition cnc_signals :: "real \<Rightarrow> 'g machine \<Rightarrow> (string \<times> real) list \<times> 'g machine" where
  "cnc_signals dt m =
     (let p = param m; run = is_running m; ld = load m; sp = speed m;
          d_spindle = damage m ''spindle''; d_lube = damage m ''lube'';
          d_tool = damage m ''tool''; d_axis = damage m ''axis'';
          heat = p ''spindle_temp_rise_c'' * ld * sp + p ''bearing_temp_c'' * d_spindle + p ''lube_temp_c'' * d_lube;
          vib = p ''vib_base'' + p ''vib_load'' * ld * sp\<^sup>2 + (p ''vib_damage'' * d_spindle\<^sup>2 + p ''vib_axis'' * d_axis\<^sup>2);
          (temp, m') = lag ''spindle'' (ambient_c m + heat * of_bool run) (p ''spindle_tau_s'') dt m
      in ([(''spindle.vib_rms'', if run then vib else p ''vib_idle''),
           (''spindle.vib_kurtosis'', if run then 3 + p ''kurtosis_damage'' * py_pow d_spindle (3/2) else 3),
           (''spindle.temp'', temp),
           (''spindle.load'', 100 * ld * (1 + 25/100 * d_tool + 1/10 * d_spindle)),
           (''axis.feed_rate'', p ''feed_rate_mm_min'' * sp * (1 - 15/100 * d_axis)),
           (''axis.following_error'', (p ''following_error_mm''
              + p ''following_error_damage_mm'' * py_pow d_axis (3/2)) * of_bool run),
           (''tool.wear'', case Option.bind (map_of (components m) ''tool'') comp_process of
              Some pr \<Rightarrow> (case p_state pr of Taylor_State s \<Rightarrow> flank_wear_mm s | _ \<Rightarrow> 0) | None \<Rightarrow> 0),
           (''motor.current'', e_current_a (electrical_now m))], m'))"

text \<open>Compressor.\<close>

definition compressor_demand :: "'g machine \<Rightarrow> real" where
  "compressor_demand m = load m * (1 + 3/10 * damage m ''valve'') + 1/10 * damage m ''filter''
     + 5/100 * damage m ''bearing''"

definition compressor_signals :: "real \<Rightarrow> 'g machine \<Rightarrow> (string \<times> real) list \<times> 'g machine" where
  "compressor_signals dt m =
     (let p = param m; run = is_running m; ld = load m;
          d_bearing = damage m ''bearing''; d_airend = damage m ''airend'';
          d_valve = damage m ''valve''; d_filter = damage m ''filter'';
          pressure = p ''pressure_bar'' * (85/100 + 15/100 * ld) * (1 - p ''valve_pressure_loss'' * d_valve)
            - p ''filter_pressure_loss_bar'' * d_filter;
          heat = p ''temp_rise_c'' * ld + p ''airend_temp_c'' * d_airend + p ''filter_temp_c'' * d_filter;
          vib = p ''vib_base'' + p ''vib_load'' * ld + p ''vib_damage'' * d_bearing\<^sup>2;
          dp = (p ''filter_dp_base_bar'' + p ''filter_dp_damage_bar'' * py_pow d_filter (3/2)) * (1/2 + 1/2 * ld);
          (discharge, m1) = lag ''pressure'' (pressure * of_bool run) (p ''pressure_tau_s'') dt m;
          (temp, m2) = lag ''airend'' (ambient_c m + heat * of_bool run) (p ''temp_tau_s'') dt m1
      in ([(''bearing.vib_rms'', if run then vib else p ''vib_idle''),
           (''airend.discharge_pressure'', discharge),
           (''airend.discharge_temp'', temp),
           (''filter.dp'', dp * of_bool run),
           (''motor.current'', e_current_a (electrical_now m))], m2))"

text \<open>Conveyor.\<close>

definition conveyor_demand :: "'g machine \<Rightarrow> real" where
  "conveyor_demand m = load m * speed m + 15/100 * damage m ''belt'' + 1/10 * damage m ''drive''
     + 5/100 * damage m ''bearing''"

definition conveyor_signals :: "real \<Rightarrow> 'g machine \<Rightarrow> (string \<times> real) list \<times> 'g machine" where
  "conveyor_signals dt m =
     (let p = param m; run = is_running m; ld = load m; sp = speed m;
          d_bearing = damage m ''bearing''; d_drive = damage m ''drive'';
          d_belt = damage m ''belt''; d_motor = damage m ''motor'';
          vib = p ''vib_base'' + p ''vib_load'' * ld + p ''vib_damage'' * d_bearing\<^sup>2
            + p ''vib_misalign'' * d_drive\<^sup>2;
          axial = p ''axial_base'' + p ''axial_load'' * ld + p ''axial_damage'' * d_drive\<^sup>2;
          heat = p ''motor_temp_rise_c'' * conveyor_demand m + p ''motor_damage_temp_c'' * d_motor;
          (temp, m') = lag ''motor'' (ambient_c m + heat * of_bool run) (p ''motor_tau_s'') dt m
      in ([(''bearing.vib_rms'', if run then vib else p ''vib_idle''),
           (''drive.vib_axial'', if run then axial else p ''vib_idle''),
           (''belt.speed'', p ''belt_speed_m_s'' * sp * (1 - p ''belt_slip'' * py_pow d_belt (12/10))),
           (''motor.current'', e_current_a (electrical_now m) * (1 + 1/10 * d_motor)),
           (''motor.temp'', temp)], m'))"

text \<open>Hydraulic press.\<close>

definition press_demand :: "'g machine \<Rightarrow> real" where
  "press_demand m = load m * speed m + 15/100 * damage m ''pump'' + 1/10 * damage m ''seal''"

definition press_signals :: "real \<Rightarrow> 'g machine \<Rightarrow> (string \<times> real) list \<times> 'g machine" where
  "press_signals dt m =
     (let p = param m; run = is_running m; ld = load m; sp = speed m;
          d_pump = damage m ''pump''; d_seal = damage m ''seal''; d_oil = damage m ''oil''; d_valve = damage m ''valve'';
          pressure = p ''pressure_bar'' * (6/10 + 4/10 * ld) * (1 - p ''seal_pressure_loss'' * d_seal)
            - p ''pump_pressure_loss_bar'' * d_pump;
          heat = p ''oil_temp_rise_c'' * ld + p ''oil_damage_temp_c'' * d_oil + p ''oil_pump_temp_c'' * d_pump;
          (temp, m') = lag ''oil'' (ambient_c m + heat * of_bool run) (p ''oil_tau_s'') dt m
      in ([(''pump.flow'', p ''flow_l_min'' * sp * (1 - p ''pump_flow_loss'' * d_pump)),
           (''pump.pressure'', pressure * of_bool run),
           (''oil.temp'', temp),
           (''valve.switch_time'', p ''valve_ms'' + p ''valve_damage_ms'' * py_pow d_valve (3/2)),
           (''motor.current'', e_current_a (electrical_now m)),
           (''ram.cycle_count'', of_nat (counter_total (production m)))], m'))"

text \<open>Injection moulder.\<close>

definition moulder_demand :: "'g machine \<Rightarrow> real" where
  "moulder_demand m = param m ''heater_demand'' * (1 + 3/10 * damage m ''barrel'')
     + (1 - param m ''heater_demand'') * load m * speed m"

definition zone_lag :: "real \<Rightarrow> string \<Rightarrow> string \<Rightarrow> real \<Rightarrow> 'g machine \<Rightarrow> real \<times> 'g machine" where
  "zone_lag dt zone setpoint_key weight m =
     (let p = param m; setpoint = p setpoint_key;
          target = setpoint - (setpoint - ambient_c m) * p ''heater_sag'' * damage m ''barrel'' * weight
      in lag zone (if is_running m then target else ambient_c m) (p ''barrel_tau_s'') dt m)"

definition moulder_signals :: "real \<Rightarrow> 'g machine \<Rightarrow> (string \<times> real) list \<times> 'g machine" where
  "moulder_signals dt m =
     (let p = param m; run = is_running m; ld = load m; d_screw = damage m ''screw''; d_clamp = damage m ''clamp'';
          (z1, m1) = zone_lag dt ''zone1'' ''zone1_sp_c'' (5/10) m;
          (z2, m2) = zone_lag dt ''zone2'' ''zone2_sp_c'' (8/10) m1;
          (z3, m3) = zone_lag dt ''zone3'' ''zone3_sp_c'' 1 m2;
          injection = p ''injection_pressure_bar'' * (8/10 + 2/10 * ld);
          clamp_force = p ''clamp_force_kn'' * (9/10 + 1/10 * ld);
          cycle_energy_wh = e_power_kw (electrical_now m) * cycle_time_s (production m) / (36/10)
      in ([(''barrel.zone1_temp'', z1), (''barrel.zone2_temp'', z2), (''barrel.zone3_temp'', z3),
           (''screw.injection_pressure'', injection * (1 - p ''screw_pressure_loss'' * d_screw) * of_bool run),
           (''clamp.force'', clamp_force * (1 - p ''clamp_loss'' * d_clamp) * of_bool run),
           (''drive.current'', e_current_a (electrical_now m)),
           (''drive.cycle_energy'', cycle_energy_wh * of_bool run)], m3))"

text \<open>Dispatch on the class registered for the asset type, \<open>MACHINE_CLASSES\<close>.\<close>

definition demand :: "'g machine \<Rightarrow> real" where
  "demand m = (case a_type (asset_of m) of Cnc_Mill \<Rightarrow> cnc_demand m | Compressor \<Rightarrow> compressor_demand m
     | Conveyor \<Rightarrow> conveyor_demand m | Hydraulic_Press \<Rightarrow> press_demand m | Injection_Moulder \<Rightarrow> moulder_demand m)"

definition signals :: "real \<Rightarrow> 'g machine \<Rightarrow> (string \<times> real) list \<times> 'g machine" where
  "signals dt m = (case a_type (asset_of m) of Cnc_Mill \<Rightarrow> cnc_signals dt m | Compressor \<Rightarrow> compressor_signals dt m
     | Conveyor \<Rightarrow> conveyor_signals dt m | Hydraulic_Press \<Rightarrow> press_signals dt m
     | Injection_Moulder \<Rightarrow> moulder_signals dt m)"

text \<open>A class only moves the thermal states.\<close>

lemma lag_frame: "snd (lag k t tau dt m) = m\<lparr>thermal := thermal (snd (lag k t tau dt m))\<rparr>"
  by (simp add: lag_def Let_def)

lemma zone_lag_frame: "snd (zone_lag dt z k w m) = m\<lparr>thermal := thermal (snd (zone_lag dt z k w m))\<rparr>"
  unfolding zone_lag_def Let_def by (rule lag_frame)

definition same_but_thermal :: "'g machine \<Rightarrow> 'g machine \<Rightarrow> bool" where
  "same_but_thermal m m' \<longleftrightarrow> (\<exists>th. m' = m\<lparr>thermal := th\<rparr>)"

lemma same_but_thermal_trans: "same_but_thermal m m1 \<Longrightarrow> same_but_thermal m1 m2 \<Longrightarrow> same_but_thermal m m2"
  by (auto simp: same_but_thermal_def)

lemma signals_frame: "same_but_thermal m (snd (signals dt m))"
proof -
  have l: "same_but_thermal m (snd (lag k t tau dt m))" for k t tau dt and m :: "'a machine"
    using lag_frame same_but_thermal_def by metis
  have z: "same_but_thermal m (snd (zone_lag dt z k w m))" for dt z k w and m :: "'a machine"
    using zone_lag_frame same_but_thermal_def by metis
  show ?thesis
    by (auto simp: signals_def cnc_signals_def compressor_signals_def conveyor_signals_def press_signals_def
        moulder_signals_def Let_def case_prod_beta
        intro!: l z same_but_thermal_trans [OF l l] same_but_thermal_trans [OF same_but_thermal_trans [OF z z] z]
        split: asset_type.split)
qed

end
