(* ===== verification/Sim_Operation.thy ===== *)
theory Sim_Operation
  imports Sim_Machine
begin

text \<open>
  The operations of \<open>Machine\<close> (\<open>machines/base.py\<close>): construction, \<open>step\<close> with everything it calls, fault
  injection, maintenance reset, ground truth and the published metric values. A \<open>KeyError\<close> is
  \<^term>\<open>None\<close>; events are returned in the order they are appended.
\<close>

record operating_context =
  ctx_now_s :: real
  ctx_producing :: bool
  ctx_plan_load_pct :: real

record machine_event =
  me_level :: event_level
  me_message :: string

definition GRADUAL_MIN_H :: real where "GRADUAL_MIN_H = 1"

definition GRADUAL_MAX_H :: real where "GRADUAL_MAX_H = 24"

definition MAX_REJECT_PROB :: real where "MAX_REJECT_PROB = 5 / 10"

section \<open>Electrical, quality and sensor inputs\<close>

definition electrical_of :: "'g machine \<Rightarrow> electrical" where
  "electrical_of m = electrical_state (a_rated_power_kw (asset_of m)) (if is_running m then demand m else 0)
     (efficiency m) (t_eta_nominal (spec m)) (t_idle_power_fraction (spec m)) (is_running m)
     (t_power_factor_rated (spec m))"

definition quality_effects :: "'g machine \<Rightarrow> real \<times> real" where
  "quality_effects m =
     (let (slow, rej) = foldl (\<lambda>(slow, rej) (code, c). case c_failure_mode (comp_spec c) of
            None \<Rightarrow> (slow, rej)
          | Some mode \<Rightarrow> (slow + fm_cycle_impact mode * (damage m code)\<^sup>2, rej + fm_quality_impact mode * (damage m code)\<^sup>2))
            (0, t_base_reject_rate (spec m)) (components m)
      in (slow, min rej MAX_REJECT_PROB))"

definition sensor_inputs :: "'g machine \<Rightarrow> (string \<times> real) list" where
  "sensor_inputs m = dict_put ''load_pct'' (load_pct m) (dict_put ''power_kw'' (e_power_kw (electrical_now m)) (clean m))"

definition take_readings :: "'g rng \<Rightarrow> real \<Rightarrow> real \<Rightarrow> 'g machine \<Rightarrow> 'g machine" where
  "take_readings R now dt m =
     (let ((sa, rs), g) = sample_array R (sensors m) (\<lambda>k. the (map_of (sensor_inputs m) k)) now dt (gen m)
      in m\<lparr>sensors := sa, readings := rs, gen := g\<rparr>)"

definition update_clean :: "real \<Rightarrow> 'g machine \<Rightarrow> 'g machine" where
  "update_clean dt m = (let (vs, m') = signals dt m in m'\<lparr>clean := vs\<rparr>)"

section \<open>Construction\<close>

fun build_components ::
  "'g rng \<Rightarrow> component_spec list \<Rightarrow> 'g \<Rightarrow> build_error + (string \<times> component) list \<times> 'g" where
  "build_components R [] g = Inr ([], g)"
| "build_components R (c # cs) g = rbind (build_process R c g) (\<lambda>(p, g1).
     rbind (build_components R cs g1) (\<lambda>(rest, g2).
       Inr ((c_code c, \<lparr>comp_spec = c, comp_process = p, comp_active = []\<rparr>) # rest, g2)))"

definition new_machine ::
  "'g rng \<Rightarrow> asset_spec \<Rightarrow> machine_type_spec \<Rightarrow> (string \<times> string option \<times> sensor_spec) list \<Rightarrow> real \<Rightarrow> real \<Rightarrow> 'g
    \<Rightarrow> build_error + 'g machine" where
  "new_machine R a t specs ambient maintenance g =
     rbind (build_components R (t_components t) g) (\<lambda>(comps, g1).
       let m0 = \<lparr>asset_of = a, spec = t, ambient_c = ambient, maintenance_duration_s = maintenance,
                 components = dict_of comps, sensors = new_sensor_array specs,
                 production = new_counter (a_ideal_cycle_time_s a), meter_kwh = 0, op_state = IDLE, load_pct = 0,
                 speed_setpoint_pct = 100, load_setpoint_pct = None, now_s = 0, thermal = [],
                 maintenance_left_s = 0, failed_component = None, operating_load_pct = 100, damage_map = [],
                 electrical_now = \<lparr>e_power_kw = 0, e_power_factor = 0, e_current_a = 0\<rparr>, clean = [], readings = [],
                 gen = g1\<rparr>;
           m1 = refresh_damage m0;
           m2 = update_clean 0 (m1\<lparr>electrical_now := electrical_of m1\<rparr>)
       in Inr (take_readings R 0 0 m2))"

section \<open>One step\<close>

definition fail :: "string \<Rightarrow> component \<Rightarrow> 'g machine \<Rightarrow> 'g machine \<times> machine_event" where
  "fail code c m =
     (let name = (case c_failure_mode (comp_spec c) of Some mode \<Rightarrow> fm_name mode | None \<Rightarrow> c_name (comp_spec c))
      in (m\<lparr>op_state := DOWN, load_pct := 0, failed_component := Some (c_code (comp_spec c))\<rparr>,
          \<lparr>me_level = Error, me_message = a_code (asset_of m) @ '' DOWN: '' @ name @ '' ('' @ c_code (comp_spec c) @ '')''\<rparr>))"

definition check_failures :: "'g machine \<Rightarrow> 'g machine \<times> machine_event list" where
  "check_failures m =
     (if op_state m = DOWN then (m, [])
      else case List.find (\<lambda>(code, c). comp_failed c) (components m) of
             None \<Rightarrow> (m, [])
           | Some (code, c) \<Rightarrow> (let (m', e) = fail code c m in (m', [e])))"

definition update_state :: "real \<Rightarrow> bool \<Rightarrow> 'g machine \<Rightarrow> 'g machine \<times> machine_event list" where
  "update_state dt producing m =
     (let next = (if producing then RUNNING else IDLE)
      in if op_state m = DOWN then (m, [])
         else if op_state m = MAINTENANCE then
           (let m' = m\<lparr>maintenance_left_s := maintenance_left_s m - dt\<rparr>
            in if 0 < maintenance_left_s m' then (m', [])
               else (m'\<lparr>op_state := next\<rparr>,
                     [\<lparr>me_level = Info, me_message = a_code (asset_of m) @ '' maintenance complete''\<rparr>]))
         else (m\<lparr>op_state := next\<rparr>, []))"

fun degrade_list ::
  "'g rng \<Rightarrow> 'g machine \<Rightarrow> real \<Rightarrow> (string \<times> component) list \<Rightarrow> 'g \<Rightarrow> (string \<times> component) list \<times> 'g" where
  "degrade_list R m dt [] g = ([], g)"
| "degrade_list R m dt ((code, c) # cs) g =
     (let (c', g1) = (case comp_process c of
            None \<Rightarrow> (c, g)
          | Some p \<Rightarrow> (let (p', g') = process_step (any_ops R) dt (conditions_of m c False) p g
                      in (c\<lparr>comp_process := Some p'\<rparr>, g')));
          (cs', g2) = degrade_list R m dt cs g1
      in ((code, c') # cs', g2))"

definition degrade :: "'g rng \<Rightarrow> real \<Rightarrow> 'g machine \<Rightarrow> 'g machine" where
  "degrade R dt m = (let (cs, g) = degrade_list R m dt (components m) (gen m) in m\<lparr>components := cs, gen := g\<rparr>)"

definition operate :: "'g rng \<Rightarrow> real \<Rightarrow> real \<Rightarrow> bool \<Rightarrow> bool \<Rightarrow> 'g machine \<Rightarrow> 'g machine" where
  "operate R dt target manual was_running m =
     (if is_running m
      then (let start = (if \<not> was_running then target else load_pct m);
                (l, g) = follow_plan R start target dt (\<not> manual) (gen m)
            in refresh_damage (degrade R dt (m\<lparr>operating_load_pct := target, load_pct := l, gen := g\<rparr>)))
      else m\<lparr>load_pct := 0\<rparr>)"

definition count :: "'g rng \<Rightarrow> real \<Rightarrow> 'g machine \<Rightarrow> 'g machine" where
  "count R dt m =
     (if is_running m
      then (let (slowdown, reject_prob) = quality_effects m;
                (ctr, g) = counter_step R dt (min (load_pct m / 100) 1) slowdown (speed m) reject_prob (production m) (gen m)
            in m\<lparr>production := ctr, gen := g\<rparr>)
      else m)"

definition measure_all :: "'g rng \<Rightarrow> real \<Rightarrow> real \<Rightarrow> 'g machine \<Rightarrow> 'g machine" where
  "measure_all R now dt m =
     (let m1 = m\<lparr>electrical_now := electrical_of m\<rparr>;
          m2 = m1\<lparr>meter_kwh := meter_add (meter_kwh m1) (e_power_kw (electrical_now m1)) dt\<rparr>
      in take_readings R now dt (update_clean dt m2))"

definition step :: "'g rng \<Rightarrow> real \<Rightarrow> operating_context \<Rightarrow> 'g machine \<Rightarrow> 'g machine \<times> machine_event list" where
  "step R dt ctx m =
     (let m0 = m\<lparr>now_s := ctx_now_s ctx\<rparr>;
          manual = (load_setpoint_pct m \<noteq> None);
          target = (case load_setpoint_pct m of Some x \<Rightarrow> x | None \<Rightarrow> ctx_plan_load_pct ctx);
          (m1, ev1) = update_state dt (ctx_producing ctx \<and> 0 < target) m0;
          m2 = operate R dt target manual (is_running m) m1;
          (m3, ev2) = check_failures m2
      in (count R dt (measure_all R (ctx_now_s ctx) dt m3), ev1 @ ev2))"

section \<open>Faults, maintenance, ground truth\<close>

definition component_for_mode :: "'g machine \<Rightarrow> string \<Rightarrow> (string \<times> component) option" where
  "component_for_mode m fm = List.find (\<lambda>(code, c). case c_failure_mode (comp_spec c) of
     None \<Rightarrow> False | Some mode \<Rightarrow> fm_code mode = fm) (components m)"

definition target_rul_s :: "real \<Rightarrow> real" where
  "target_rul_s severity = (GRADUAL_MAX_H - (GRADUAL_MAX_H - GRADUAL_MIN_H) * severity) * 3600"

definition hasten :: "'g rng \<Rightarrow> 'g machine \<Rightarrow> component \<Rightarrow> real \<Rightarrow> model_state process \<Rightarrow> model_state process" where
  "hasten R m c severity p =
     (case true_rul (any_ops R) p (conditions_of m c True) of
        Some rul \<Rightarrow> if target_rul_s severity < rul
                   then p\<lparr>p_rate_multiplier := p_rate_multiplier p * (rul / target_rul_s severity)\<rparr> else p
      | None \<Rightarrow> p)"

definition put_component :: "string \<Rightarrow> component \<Rightarrow> 'g machine \<Rightarrow> 'g machine" where
  "put_component code c m = m\<lparr>components := dict_put code c (components m)\<rparr>"

definition inject ::
  "'g rng \<Rightarrow> string \<Rightarrow> fault_mode \<Rightarrow> real \<Rightarrow> 'g machine \<Rightarrow> ('g machine \<times> machine_event list) option" where
  "inject R fm mode severity m = (case component_for_mode m fm of
       None \<Rightarrow> None
     | Some (code, c) \<Rightarrow> (case comp_process c of
         None \<Rightarrow> None
       | Some p \<Rightarrow>
          (let active = comp_active c @ [\<lparr>am_failure_mode = fm, am_mode = mode, am_severity = severity, am_started_s = now_s m\<rparr>]
           in if mode = Gradual
              then Some (put_component code (c\<lparr>comp_process := Some (hasten R m c severity p), comp_active := active\<rparr>) m, [])
              else (let c' = c\<lparr>comp_process := Some (process_jump (any_ops R) p severity)\<rparr>;
                        (m', ev) = check_failures (refresh_damage (put_component code c' m))
                    in Some (put_component code (c'\<lparr>comp_active := active\<rparr>) m', ev)))))"

definition reset_component :: "'g rng \<Rightarrow> component \<Rightarrow> component" where
  "reset_component R c = c\<lparr>comp_process := map_option (process_reset (any_ops R)) (comp_process c), comp_active := []\<rparr>"

definition reset :: "'g rng \<Rightarrow> string option \<Rightarrow> 'g machine \<Rightarrow> ('g machine \<times> string list) option" where
  "reset R component_code m =
     (let codes = (case component_code of None \<Rightarrow> map fst (components m) | Some c \<Rightarrow> [c])
      in if \<not> set codes \<subseteq> set (map fst (components m)) then None
         else (let m1 = refresh_damage (m\<lparr>components :=
                      map (\<lambda>(code, c). (code, if code \<in> set codes then reset_component R c else c)) (components m)\<rparr>);
                   m2 = m1\<lparr>sensors := clear_sensors (sensors m1) (map_option (\<lambda>_. codes) component_code)\<rparr>;
                   m3 = (if failed_component m2 \<in> Some ` set codes then m2\<lparr>failed_component := None\<rparr> else m2)
               in Some (m3\<lparr>op_state := MAINTENANCE, maintenance_left_s := maintenance_duration_s m, load_pct := 0\<rparr>, codes)))"

record ground_truth =
  gt_damage :: "(string \<times> real) list"
  gt_true_rul_s :: "real option"
  gt_driver :: "string option"
  gt_failure_mode :: string

text \<open>\<open>rul < best[0]\<close> on remaining lives, where \<^term>\<open>None\<close> is infinity.\<close>

definition rul_less :: "real option \<Rightarrow> real option \<Rightarrow> bool" where
  "rul_less a b = (case (a, b) of (Some x, Some y) \<Rightarrow> x < y | (Some x, None) \<Rightarrow> True | _ \<Rightarrow> False)"

definition best_rul ::
  "'g rng \<Rightarrow> 'g machine \<Rightarrow> (real option \<times> failure_mode_spec) option \<Rightarrow> string \<times> component
    \<Rightarrow> (real option \<times> failure_mode_spec) option" where
  "best_rul R m best kc = (case (comp_process (snd kc), c_failure_mode (comp_spec (snd kc))) of
       (Some p, Some mode) \<Rightarrow>
         (let rul = true_rul (any_ops R) p (conditions_of m (snd kc) True)
          in case best of None \<Rightarrow> Some (rul, mode)
             | Some (b, _) \<Rightarrow> if rul_less rul b then Some (rul, mode) else best)
     | _ \<Rightarrow> best)"

definition running_truth :: "'g rng \<Rightarrow> 'g machine \<Rightarrow> ground_truth" where
  "running_truth R m = (case foldl (best_rul R m) None (components m) of
       Some (Some rul, mode) \<Rightarrow> \<lparr>gt_damage = damage_map m, gt_true_rul_s = Some rul, gt_driver = Some (fm_driver mode),
         gt_failure_mode = fm_code mode\<rparr>
     | _ \<Rightarrow> \<lparr>gt_damage = damage_map m, gt_true_rul_s = None, gt_driver = None, gt_failure_mode = ''none''\<rparr>)"

definition ground_truth :: "'g rng \<Rightarrow> 'g machine \<Rightarrow> ground_truth" where
  "ground_truth R m = (case failed_component m of
       Some code \<Rightarrow>
         if op_state m = DOWN then
           (let mode = the (c_failure_mode (comp_spec (the (map_of (components m) code))))
            in \<lparr>gt_damage = damage_map m, gt_true_rul_s = Some 0, gt_driver = Some (fm_driver mode),
                gt_failure_mode = fm_code mode\<rparr>)
         else running_truth R m
     | None \<Rightarrow> running_truth R m)"

section \<open>Published values\<close>

datatype metric_value = Float_Value "real option" | Int_Value int | Str_Value string

fun state_value :: "op_state \<Rightarrow> string" where
  "state_value RUNNING = ''RUNNING''"
| "state_value IDLE = ''IDLE''"
| "state_value DOWN = ''DOWN''"
| "state_value MAINTENANCE = ''MAINTENANCE''"
| "state_value UNKNOWN = ''UNKNOWN''"

definition metric_values :: "'g machine \<Rightarrow> (string \<times> metric_value) list" where
  "metric_values m = foldl (\<lambda>d (k, v). dict_put k v d) (map (\<lambda>(k, r). (k, Float_Value (rd_value r))) (readings m))
     [(''speed_pct'', Float_Value (Some (speed m * 100))),
      (''energy_kwh'', Float_Value (Some (meter_kwh m))),
      (''power_factor'', Float_Value (Some (e_power_factor (electrical_now m)))),
      (''state'', Str_Value (state_value (op_state m))),
      (''good_count'', Int_Value (int (good (production m)))),
      (''reject_count'', Int_Value (int (reject (production m)))),
      (''cycle_time_s'', Float_Value (Some (cycle_time_s (production m))))]"

end
