(* ===== verification/Sim_Safety.thy ===== *)
theory Sim_Safety
  imports Sim_Operation
begin

text \<open>
  What every operation of a machine keeps, and the life cycle that follows from it: a failed machine is
  down and stays down until it is reset, maintenance lasts its configured duration, a gradual fault
  injection fixes the remaining life, and the ground truth is the shortest remaining life.
\<close>

section \<open>Invariant\<close>

definition comp_ok :: "component \<Rightarrow> bool" where
  "comp_ok c \<longleftrightarrow> (case comp_process c of None \<Rightarrow> True | Some p \<Rightarrow> any_ok (p_state p) \<and> 0 \<le> p_rate_multiplier p)
     \<and> (comp_process c = None) = (c_failure_mode (comp_spec c) = None)
     \<and> (\<forall>mode. c_failure_mode (comp_spec c) = Some mode \<longrightarrow> 0 \<le> fm_cycle_impact mode)"

definition comps_ok :: "(string \<times> component) list \<Rightarrow> bool" where
  "comps_ok cs \<longleftrightarrow> dict_ok cs \<and> (\<forall>(code, c) \<in> set cs. comp_ok c \<and> c_code (comp_spec c) = code)"

definition damages :: "(string \<times> component) list \<Rightarrow> (string \<times> real) list" where
  "damages cs = map (\<lambda>(code, c). (code, comp_damage c)) cs"

definition none_failed :: "(string \<times> component) list \<Rightarrow> bool" where
  "none_failed cs \<longleftrightarrow> (\<forall>(code, c) \<in> set cs. \<not> comp_failed c)"

definition has_failed :: "string option \<Rightarrow> (string \<times> component) list \<Rightarrow> bool" where
  "has_failed fc cs \<longleftrightarrow> (\<exists>code c. fc = Some code \<and> map_of cs code = Some c \<and> comp_failed c)"

definition wear_ok :: "'g machine \<Rightarrow> bool" where
  "wear_ok m \<longleftrightarrow> comps_ok (components m) \<and> damage_map m = damages (components m)"

definition life_ok :: "'g machine \<Rightarrow> bool" where
  "life_ok m \<longleftrightarrow> (op_state m = RUNNING \<longrightarrow> none_failed (components m))
     \<and> (op_state m = DOWN \<longrightarrow> has_failed (failed_component m) (components m))"

definition load_ok :: "'g machine \<Rightarrow> bool" where
  "load_ok m \<longleftrightarrow> 0 \<le> load_pct m \<and> load_pct m \<le> MAX_LOAD_PCT \<and> (op_state m \<noteq> RUNNING \<longrightarrow> load_pct m = 0)
     \<and> (\<forall>x. load_setpoint_pct m = Some x \<longrightarrow> 0 \<le> x \<and> x \<le> MAX_LOAD_PCT)"

definition sensors_ok :: "sensor_array \<Rightarrow> bool" where
  "sensors_ok sa \<longleftrightarrow> measurement_ok (sa_model sa) \<and> length (sa_metrics sa) = length (mm_params (sa_model sa))"

definition machine_ok :: "'g machine \<Rightarrow> bool" where
  "machine_ok m \<longleftrightarrow> wear_ok m \<and> life_ok m \<and> load_ok m \<and> sensors_ok (sensors m) \<and> counter_ok (production m)"

lemma any_failed_ops [simp]: "m_failed (any_ops R) s = any_failed s"
  by (simp add: any_ops_def)

lemma any_damage_ops [simp]: "m_damage (any_ops R) s = any_damage s"
  by (simp add: any_ops_def)

lemma damages_Cons [simp]: "damages ((k, c) # cs) = (k, comp_damage c) # damages cs"
  by (simp add: damages_def)

text \<open>Components that keep their codes, specs and soundness.\<close>

definition evolves :: "(string \<times> component) list \<Rightarrow> (string \<times> component) list \<Rightarrow> bool" where
  "evolves cs cs' \<longleftrightarrow> list_all2 (\<lambda>(k, c) (k', c'). k' = k \<and> comp_spec c' = comp_spec c \<and> (comp_ok c \<longrightarrow> comp_ok c')) cs cs'"

lemma evolves_keys: "evolves cs cs' \<Longrightarrow> map fst cs' = map fst cs"
  unfolding evolves_def by (induction rule: list_all2_induct) auto

lemma evolves_ok:
  assumes "evolves cs cs'" and "comps_ok cs"
  shows "comps_ok cs'"
proof -
  have "\<exists>c. (k, c) \<in> set cs \<and> comp_spec c' = comp_spec c \<and> (comp_ok c \<longrightarrow> comp_ok c')" if "(k, c') \<in> set cs'" for k c'
    using assms(1) that unfolding evolves_def by (induction rule: list_all2_induct) fastforce+
  with assms evolves_keys [OF assms(1)] show ?thesis by (fastforce simp: comps_ok_def dict_ok_def)
qed

text \<open>What a machine is, as opposed to what it does: asset, component specs, sensor metrics.\<close>

definition specs_of :: "(string \<times> component) list \<Rightarrow> component_spec list" where
  "specs_of cs = map (comp_spec \<circ> snd) cs"

definition identity_of :: "'g machine \<Rightarrow> asset_spec \<times> component_spec list \<times> string list" where
  "identity_of m = (asset_of m, specs_of (components m), sa_metrics (sensors m))"

lemma evolves_specs: "evolves cs cs' \<Longrightarrow> specs_of cs' = specs_of cs"
  unfolding evolves_def specs_of_def by (induction rule: list_all2_induct) auto

lemma process_step_frame:
  "p_rate_multiplier (fst (process_step M dt c p g)) = p_rate_multiplier p
    \<and> p_driver (fst (process_step M dt c p g)) = p_driver p \<and> p_arrhenius (fst (process_step M dt c p g)) = p_arrhenius p"
  by (auto simp: process_step_def Let_def split: prod.splits)

lemma degrade_list_evolves:
  assumes "rng_ok R" and "degrade_list R m dt cs g = (cs', g')"
  shows "evolves cs cs'"
  using assms(2)
proof (induction cs arbitrary: cs' g g')
  case Nil
  then show ?case by (simp add: evolves_def)
next
  case (Cons kc cs)
  obtain k c where kc: "kc = (k, c)" by force
  obtain c1 g1 where c1: "(case comp_process c of None \<Rightarrow> (c, g)
      | Some p \<Rightarrow> (let (p', g') = process_step (any_ops R) dt (conditions_of m c False) p g
                  in (c\<lparr>comp_process := Some p'\<rparr>, g'))) = (c1, g1)" by force
  obtain cs1 g2 where cs1: "degrade_list R m dt cs g1 = (cs1, g2)" by force
  have cs': "cs' = (k, c1) # cs1" using Cons.prems c1 cs1 by (simp add: kc Let_def)
  have "comp_spec c1 = comp_spec c" using c1 by (auto simp: Let_def split: option.splits prod.splits)
  moreover have "comp_ok c1" if "comp_ok c"
    using that c1 process_step_frame [of "any_ops R" dt "conditions_of m c False" "the (comp_process c)" g]
      any.ok_step [OF assms(1), of "the (comp_process c)" dt "conditions_of m c False" g]
    by (auto simp: comp_ok_def Let_def split: option.splits prod.splits)
  ultimately show ?case using Cons.IH [OF cs1] by (simp add: cs' kc evolves_def)
qed

lemma none_failed_find: "List.find (\<lambda>(code, c). comp_failed c) cs = None \<longleftrightarrow> none_failed cs"
  by (auto simp: find_None_iff none_failed_def)

lemma find_failed:
  assumes "comps_ok cs" and "List.find (\<lambda>(code, c). comp_failed c) cs = Some (code, c)"
  shows "map_of cs code = Some c \<and> comp_failed c \<and> c_code (comp_spec c) = code"
proof -
  have "(code, c) \<in> set cs" "comp_failed c" using assms(2) by (auto simp: find_Some_iff) (metis nth_mem)
  with assms(1) show ?thesis by (auto simp: comps_ok_def dict_ok_def)
qed

text \<open>After the check, the life-cycle invariant holds unless the machine was wrongly down.\<close>

lemma check_failures_spec:
  assumes "comps_ok (components m)" and "op_state m = DOWN \<longrightarrow> has_failed (failed_component m) (components m)"
    and "check_failures m = (m', ev)"
  shows "life_ok m' \<and> (none_failed (components m) \<or> op_state m' = DOWN)
    \<and> (\<exists>s l f. m' = m\<lparr>op_state := s, load_pct := l, failed_component := f\<rparr>
         \<and> (s = op_state m \<and> l = load_pct m \<and> f = failed_component m \<or> s = DOWN \<and> l = 0))"
proof (cases "op_state m = DOWN")
  case True
  then show ?thesis using assms(2,3)
    by (auto simp: check_failures_def life_ok_def intro!: exI [of _ DOWN] exI [of _ "load_pct m"] exI [of _ "failed_component m"])
next
  case False
  show ?thesis
  proof (cases "List.find (\<lambda>(code, c). comp_failed c) (components m)")
    case None
    then have "none_failed (components m)" by (simp add: none_failed_find)
    moreover have "m' = m" using None False assms(3) by (simp add: check_failures_def)
    ultimately show ?thesis using False
      by (auto simp: life_ok_def intro!: exI [of _ "op_state m"] exI [of _ "load_pct m"] exI [of _ "failed_component m"])
  next
    case (Some kc)
    obtain code c where kc: "kc = (code, c)" by force
    from find_failed [OF assms(1) Some [unfolded kc]]
    have c: "map_of (components m) code = Some c" "comp_failed c" "c_code (comp_spec c) = code" by auto
    have "m' = m\<lparr>op_state := DOWN, load_pct := 0, failed_component := Some code\<rparr>"
      using Some False assms(3) c(3) by (simp add: kc check_failures_def fail_def Let_def)
    then show ?thesis using c by (auto simp: life_ok_def has_failed_def)
  qed
qed

section \<open>The parts of a step\<close>

lemma sample_array_ok:
  assumes "rng_ok R" and "sensors_ok sa" and "sample_array R sa f now dt g = ((sa', rs), g')"
  shows "sensors_ok sa' \<and> sa_metrics sa' = sa_metrics sa \<and> sa_components sa' = sa_components sa"
proof -
  obtain mm out g1 where s: "sample R (sa_model sa) (map f (sa_metrics sa)) now dt g = ((mm, out), g1)"
    by (metis prod.exhaust)
  have "measurement_ok mm \<and> same_sensors (sa_model sa) mm"
    using sample_keeps_sensors [OF _ _ s] assms(2) by (simp add: sensors_ok_def)
  then show ?thesis using assms(2,3) s by (auto simp: sample_array_def sensors_ok_def same_sensors_def)
qed

lemma measure_all_frame:
  assumes "rng_ok R" and "sensors_ok (sensors m)"
  shows "\<exists>e k th cl sa rs g. measure_all R now dt m = m\<lparr>electrical_now := e, meter_kwh := k, thermal := th,
      clean := cl, sensors := sa, readings := rs, gen := g\<rparr> \<and> sensors_ok sa \<and> sa_metrics sa = sa_metrics (sensors m)"
proof -
  let ?m1 = "m\<lparr>electrical_now := electrical_of m, meter_kwh := meter_add (meter_kwh m) (e_power_kw (electrical_of m)) dt\<rparr>"
  obtain th where "snd (signals dt ?m1) = ?m1\<lparr>thermal := th\<rparr>"
    using signals_frame [of ?m1 dt] by (auto simp: same_but_thermal_def)
  then have u: "update_clean dt ?m1 = ?m1\<lparr>thermal := th, clean := fst (signals dt ?m1)\<rparr>"
    by (simp add: update_clean_def case_prod_beta)
  let ?m2 = "update_clean dt ?m1"
  obtain sa rs g where s: "sample_array R (sensors ?m2) (\<lambda>k. the (map_of (sensor_inputs ?m2) k)) now dt (gen ?m2) = ((sa, rs), g)"
    by (metis prod.exhaust)
  have "sensors_ok sa \<and> sa_metrics sa = sa_metrics (sensors m)"
    using sample_array_ok [OF assms(1) _ s] assms(2) u by simp
  moreover have "measure_all R now dt m = ?m2\<lparr>sensors := sa, readings := rs, gen := g\<rparr>"
    using s by (simp add: measure_all_def take_readings_def Let_def)
  then have "measure_all R now dt m = m\<lparr>electrical_now := electrical_of m,
      meter_kwh := meter_add (meter_kwh m) (e_power_kw (electrical_of m)) dt, thermal := th,
      clean := fst (signals dt ?m1), sensors := sa, readings := rs, gen := g\<rparr>" unfolding u by simp
  ultimately show ?thesis by blast
qed

lemma quality_slowdown_nonneg:
  assumes "comps_ok (components m)"
  shows "0 \<le> fst (quality_effects m)"
proof -
  have "0 \<le> fst (foldl (\<lambda>(slow, rej) (code, c). case c_failure_mode (comp_spec c) of
            None \<Rightarrow> (slow, rej)
          | Some mode \<Rightarrow> (slow + fm_cycle_impact mode * (damage m code)\<^sup>2, rej + fm_quality_impact mode * (damage m code)\<^sup>2)) acc cs)"
    if "0 \<le> fst acc" and "\<forall>(code, c) \<in> set cs. comp_ok c" for acc cs
    using that by (induction cs arbitrary: acc) (auto simp: comp_ok_def split: option.splits prod.splits)
  from this [of "(0, t_base_reject_rate (spec m))" "components m"] assms show ?thesis
    by (auto simp: quality_effects_def comps_ok_def split: prod.splits)
qed

lemma count_frame:
  assumes "rng_ok R" and "comps_ok (components m)" and "counter_ok (production m)"
  shows "\<exists>ctr g. count R dt m = m\<lparr>production := ctr, gen := g\<rparr> \<and> counter_ok ctr
    \<and> good (production m) \<le> good ctr \<and> reject (production m) \<le> reject ctr
    \<and> (op_state m \<noteq> RUNNING \<longrightarrow> ctr = production m)"
proof (cases "is_running m")
  case True
  obtain s q where q: "quality_effects m = (s, q)" by force
  obtain ctr g where c: "counter_step R dt (min (load_pct m / 100) 1) s (speed m) q (production m) (gen m) = (ctr, g)"
    by force
  have "0 \<le> s" using quality_slowdown_nonneg [OF assms(2)] q by simp
  from counter_step_ok [OF assms(1,3) this c] True show ?thesis
    by (auto simp: count_def q c is_running_def Let_def intro!: exI [of _ ctr] exI [of _ g])
next
  case False
  then show ?thesis using assms(3) by (auto simp: count_def is_running_def intro!: exI [of _ "production m"] exI [of _ "gen m"])
qed

lemma operate_spec:
  assumes R: "rng_ok R" and m: "wear_ok m" and load: "0 \<le> load_pct m" "load_pct m \<le> MAX_LOAD_PCT"
    and manual: "manual \<longrightarrow> 0 \<le> target \<and> target \<le> MAX_LOAD_PCT"
  shows "\<exists>cs l ol d g. operate R dt target manual was m
      = m\<lparr>components := cs, load_pct := l, operating_load_pct := ol, damage_map := d, gen := g\<rparr>
    \<and> comps_ok cs \<and> d = damages cs \<and> 0 \<le> l \<and> l \<le> MAX_LOAD_PCT \<and> evolves (components m) cs
    \<and> (op_state m \<noteq> RUNNING \<longrightarrow> l = 0 \<and> cs = components m)"
proof (cases "is_running m")
  case True
  let ?start = "if \<not> was then target else load_pct m"
  obtain l g where l: "follow_plan R ?start target dt (\<not> manual) (gen m) = (l, g)" by force
  have l_ok: "0 \<le> l \<and> l \<le> MAX_LOAD_PCT"
    using l manual by (auto simp: follow_plan_def Let_def MAX_LOAD_PCT_def split: if_splits prod.splits)
  let ?m = "m\<lparr>operating_load_pct := target, load_pct := l, gen := g\<rparr>"
  obtain cs g' where d: "degrade_list R ?m dt (components ?m) (gen ?m) = (cs, g')" by force
  have ev: "evolves (components m) cs" using degrade_list_evolves [OF R d] by simp
  have "operate R dt target manual was m
      = m\<lparr>components := cs, load_pct := l, operating_load_pct := target, damage_map := damages cs, gen := g'\<rparr>"
    using True l d unfolding operate_def degrade_def by (simp add: refresh_damage_def damages_def)
  then show ?thesis using l_ok ev evolves_ok [OF ev] m True
    by (intro exI [of _ cs] exI [of _ l] exI [of _ target] exI [of _ "damages cs"] exI [of _ g'])
      (simp add: wear_ok_def is_running_def)
next
  case False
  have "evolves (components m) (components m)" by (auto simp: evolves_def intro: list_all2_refl)
  with False m show ?thesis
    by (intro exI [of _ "components m"] exI [of _ 0] exI [of _ "operating_load_pct m"] exI [of _ "damage_map m"]
        exI [of _ "gen m"]) (simp add: operate_def wear_ok_def is_running_def MAX_LOAD_PCT_def)
qed

lemma update_state_spec:
  assumes "update_state dt producing m = (m', ev)"
  shows "\<exists>s x. m' = m\<lparr>op_state := s, maintenance_left_s := x\<rparr>
    \<and> (op_state m = DOWN \<longrightarrow> s = DOWN) \<and> (op_state m \<noteq> DOWN \<longrightarrow> s \<noteq> DOWN)
    \<and> (op_state m = MAINTENANCE \<longrightarrow> x = maintenance_left_s m - dt
         \<and> s = (if 0 < x then MAINTENANCE else if producing then RUNNING else IDLE))
    \<and> (op_state m \<noteq> MAINTENANCE \<longrightarrow> x = maintenance_left_s m)
    \<and> (op_state m \<notin> {DOWN, MAINTENANCE} \<longrightarrow> s = (if producing then RUNNING else IDLE))"
  using assms
  by (auto simp: update_state_def Let_def split: if_splits
      intro!: exI [of _ "op_state m'"] exI [of _ "maintenance_left_s m'"])

section \<open>Every operation keeps the invariant\<close>

lemma machine_okI:
  assumes "comps_ok (components m)" and "damage_map m = damages (components m)" and "life_ok m" and "load_ok m"
    and "sensors_ok (sensors m)" and "counter_ok (production m)"
  shows "machine_ok m"
  using assms by (simp add: machine_ok_def wear_ok_def)

lemma step_spec:
  assumes R: "rng_ok R" and ok: "machine_ok m" and s: "step R dt ctx m = (m', ev)"
  shows "machine_ok m' \<and> (op_state m = DOWN \<longrightarrow> op_state m' = DOWN)
    \<and> failed_component m' = (if op_state m = DOWN then failed_component m else failed_component m')
    \<and> (op_state m' \<noteq> RUNNING \<longrightarrow> production m' = production m)
    \<and> (op_state m' = RUNNING \<longrightarrow> none_failed (components m') \<and> ctx_producing ctx)
    \<and> (op_state m = MAINTENANCE \<longrightarrow> maintenance_left_s m' = maintenance_left_s m - dt
        \<and> (none_failed (components m) \<longrightarrow> (op_state m' = MAINTENANCE \<longleftrightarrow> 0 < maintenance_left_s m'))
        \<and> (op_state m' = MAINTENANCE \<longrightarrow> components m' = components m))
    \<and> (op_state m \<noteq> MAINTENANCE \<longrightarrow> op_state m' \<noteq> MAINTENANCE)
    \<and> load_setpoint_pct m' = load_setpoint_pct m \<and> speed_setpoint_pct m' = speed_setpoint_pct m
    \<and> now_s m' = ctx_now_s ctx \<and> maintenance_duration_s m' = maintenance_duration_s m
    \<and> identity_of m' = identity_of m"
proof -
  define manual where "manual = (load_setpoint_pct m \<noteq> None)"
  define target where "target = (case load_setpoint_pct m of Some x \<Rightarrow> x | None \<Rightarrow> ctx_plan_load_pct ctx)"
  define producing where "producing = (ctx_producing ctx \<and> 0 < target)"
  define m0 where "m0 = m\<lparr>now_s := ctx_now_s ctx\<rparr>"
  obtain m1 ev1 where u: "update_state dt producing m0 = (m1, ev1)" by force
  define m2 where "m2 = operate R dt target manual (is_running m) m1"
  obtain m3 ev2 where c: "check_failures m2 = (m3, ev2)" by force
  define m4 where "m4 = measure_all R (ctx_now_s ctx) dt m3"
  have m': "m' = count R dt m4"
    using s u c by (simp add: step_def Let_def manual_def target_def producing_def m0_def m2_def m4_def)
  note ok' = ok [unfolded machine_ok_def wear_ok_def life_ok_def load_ok_def]
  obtain s1 x1 where m1: "m1 = m0\<lparr>op_state := s1, maintenance_left_s := x1\<rparr>"
    and s1: "op_state m = DOWN \<longrightarrow> s1 = DOWN" "op_state m \<noteq> DOWN \<longrightarrow> s1 \<noteq> DOWN"
      "op_state m = MAINTENANCE \<longrightarrow> x1 = maintenance_left_s m - dt
         \<and> s1 = (if 0 < x1 then MAINTENANCE else if producing then RUNNING else IDLE)"
      "op_state m \<notin> {DOWN, MAINTENANCE} \<longrightarrow> s1 = (if producing then RUNNING else IDLE)"
    using update_state_spec [OF u] by (auto simp: m0_def)
  have "wear_ok m1" "0 \<le> load_pct m1" "load_pct m1 \<le> MAX_LOAD_PCT" "manual \<longrightarrow> 0 \<le> target \<and> target \<le> MAX_LOAD_PCT"
    using ok' by (auto simp: m1 m0_def wear_ok_def manual_def target_def)
  from operate_spec [OF R this, of dt "is_running m"]
  obtain cs l ol d g where m2: "m2 = m1\<lparr>components := cs, load_pct := l, operating_load_pct := ol, damage_map := d, gen := g\<rparr>"
    and cs: "comps_ok cs" "d = damages cs" "0 \<le> l" "l \<le> MAX_LOAD_PCT" "evolves (components m1) cs"
      "op_state m1 \<noteq> RUNNING \<longrightarrow> l = 0 \<and> cs = components m1"
    unfolding m2_def by blast
  have comps1: "components m1 = components m" by (simp add: m1 m0_def)
  have down2: "op_state m2 = DOWN \<longrightarrow> has_failed (failed_component m2) (components m2)"
    using ok' s1 cs(6) by (auto simp: m2 m1 m0_def)
  have "comps_ok (components m2)" using cs by (simp add: m2)
  from check_failures_spec [OF this down2 c]
  obtain s3 l3 f3 where life: "life_ok m3" and nf: "none_failed (components m2) \<or> op_state m3 = DOWN"
    and m3: "m3 = m2\<lparr>op_state := s3, load_pct := l3, failed_component := f3\<rparr>"
    and s3: "s3 = op_state m2 \<and> l3 = load_pct m2 \<and> f3 = failed_component m2 \<or> s3 = DOWN \<and> l3 = 0"
    by blast
  have "none_failed (components m2) \<or> op_state m2 = DOWN \<longrightarrow> m3 = m2"
    using c by (auto simp: check_failures_def none_failed_find [symmetric] split: if_splits)
  moreover have "s3 = op_state m3" "f3 = failed_component m3" by (simp_all add: m3)
  ultimately have none: "none_failed (components m2) \<longrightarrow> s3 = op_state m2"
    and down: "op_state m2 = DOWN \<longrightarrow> f3 = failed_component m2 \<and> s3 = DOWN" by auto
  have "sensors_ok (sensors m3)" using ok' by (simp add: m3 m2 m1 m0_def)
  from measure_all_frame [OF R this, of "ctx_now_s ctx" dt]
  obtain e k th cl sa rs g4 where m4_eq: "m4 = m3\<lparr>electrical_now := e, meter_kwh := k,
      thermal := th, clean := cl, sensors := sa, readings := rs, gen := g4\<rparr>" and sa: "sensors_ok sa"
      "sa_metrics sa = sa_metrics (sensors m3)"
    unfolding m4_def by blast
  have "comps_ok (components m4)" "counter_ok (production m4)" using cs ok' by (simp_all add: m4_eq m3 m2 m1 m0_def)
  from count_frame [OF R this, of dt]
  obtain ctr g5 where m5: "m' = m4\<lparr>production := ctr, gen := g5\<rparr>" and ctr: "counter_ok ctr"
    "op_state m4 \<noteq> RUNNING \<longrightarrow> ctr = production m4" unfolding m' by blast
  note all = m5 m4_eq m3 m2 m1 m0_def
  have f: "op_state m' = s3" "components m' = cs" "load_pct m' = l3" "failed_component m' = f3" "damage_map m' = d"
    "sensors m' = sa" "production m' = ctr" "load_setpoint_pct m' = load_setpoint_pct m"
    "maintenance_left_s m' = x1" "now_s m' = ctx_now_s ctx" "speed_setpoint_pct m' = speed_setpoint_pct m"
    "maintenance_duration_s m' = maintenance_duration_s m"
    by (simp_all add: all)
  have s2: "op_state m2 = s1" "load_pct m2 = l" "failed_component m2 = failed_component m" "components m2 = cs"
    by (simp_all add: all)
  have life': "life_ok m'" using life by (simp add: life_ok_def all)
  have load': "load_ok m'"
    using s3 cs ok' unfolding load_ok_def f s2 by (auto simp: m1 MAX_LOAD_PCT_def)
  have "machine_ok m'" by (rule machine_okI) (use cs sa ctr life' load' in \<open>simp_all add: f\<close>)
  moreover have "op_state m' = RUNNING \<longrightarrow> none_failed (components m') \<and> ctx_producing ctx"
  proof
    assume run: "op_state m' = RUNNING"
    then have "s1 = RUNNING" using s3 f s2 by auto
    then have "producing" using s1 by (cases "op_state m") (auto split: if_splits)
    then show "none_failed (components m') \<and> ctx_producing ctx"
      using run life' by (simp add: life_ok_def producing_def)
  qed
  moreover have "op_state m = MAINTENANCE \<longrightarrow> maintenance_left_s m' = maintenance_left_s m - dt
        \<and> (none_failed (components m) \<longrightarrow> (op_state m' = MAINTENANCE \<longleftrightarrow> 0 < maintenance_left_s m'))
        \<and> (op_state m' = MAINTENANCE \<longrightarrow> components m' = components m)"
  proof
    assume mt: "op_state m = MAINTENANCE"
    then have x: "x1 = maintenance_left_s m - dt" "s1 = (if 0 < x1 then MAINTENANCE else if producing then RUNNING else IDLE)"
      using s1 by auto
    have m1s: "op_state m1 = s1" by (simp add: m1)
    have "s3 = MAINTENANCE \<longleftrightarrow> 0 < x1" if nf0: "none_failed (components m)"
    proof (cases "0 < x1")
      case True
      then have "cs = components m" using cs(6) x m1s comps1 by simp
      then show ?thesis using none nf0 s2 x True by simp
    next
      case False
      then show ?thesis using s3 x s2 by (auto split: if_splits)
    qed
    moreover have "cs = components m" if "s3 = MAINTENANCE"
    proof -
      have "s1 = MAINTENANCE" using that s3 s2 by auto
      then show ?thesis using cs(6) m1s comps1 by simp
    qed
    ultimately show "maintenance_left_s m' = maintenance_left_s m - dt
        \<and> (none_failed (components m) \<longrightarrow> (op_state m' = MAINTENANCE \<longleftrightarrow> 0 < maintenance_left_s m'))
        \<and> (op_state m' = MAINTENANCE \<longrightarrow> components m' = components m)"
      using x f by simp
  qed
  moreover have "op_state m = DOWN \<longrightarrow> op_state m' = DOWN \<and> failed_component m' = failed_component m"
    using down s1 s2 f by auto
  moreover have "op_state m \<noteq> MAINTENANCE \<longrightarrow> op_state m' \<noteq> MAINTENANCE"
    using s1 s3 s2 f by (cases "op_state m") (auto split: if_splits)
  moreover have "op_state m' \<noteq> RUNNING \<longrightarrow> production m' = production m"
    using ctr by (simp add: all)
  moreover have "identity_of m' = identity_of m"
    using evolves_specs [OF cs(5)] comps1 sa(2) by (simp add: identity_of_def all)
  ultimately show ?thesis using f by auto
qed

section \<open>Injection and reset\<close>

lemma dict_put_in:
  "dict_ok d \<Longrightarrow> (a, b) \<in> set (dict_put k v d) \<longleftrightarrow> (if a = k then b = v else (a, b) \<in> set d)"
  by (induction d) (force simp: dict_ok_def)+

lemma put_specs:
  "map_of cs code = Some c \<Longrightarrow> comp_spec c' = comp_spec c \<Longrightarrow> specs_of (dict_put code c' cs) = specs_of cs"
  by (induction cs) (auto simp: specs_of_def)

lemma put_comps_ok:
  assumes "comps_ok cs" and "comp_ok c'" and "c_code (comp_spec c') = code"
  shows "comps_ok (dict_put code c' cs)"
  using assms by (auto simp: comps_ok_def dict_put_in split: if_splits)

lemma put_damages: "map_of cs code = Some c \<Longrightarrow> comp_damage c' = comp_damage c \<Longrightarrow> damages (dict_put code c' cs) = damages cs"
  by (induction cs) auto

lemma put_none_failed:
  "map_of cs code = Some c \<Longrightarrow> comp_failed c' = comp_failed c \<Longrightarrow> none_failed (dict_put code c' cs) = none_failed cs"
  by (induction cs) (auto simp: none_failed_def split: if_splits)

lemma put_has_failed:
  assumes "map_of cs code = Some c" and "comp_failed c \<Longrightarrow> comp_failed c'" and "has_failed fc cs"
  shows "has_failed fc (dict_put code c' cs)"
proof -
  obtain k d where k: "fc = Some k" "map_of cs k = Some d" "comp_failed d" using assms(3) by (auto simp: has_failed_def)
  show ?thesis using assms(1,2) k by (cases "k = code") (simp_all add: has_failed_def update_conv')
qed

lemma component_for_mode_in:
  assumes "comps_ok (components m)" and "component_for_mode m fm = Some (code, c)"
  shows "map_of (components m) code = Some c \<and> comp_ok c \<and> c_code (comp_spec c) = code
    \<and> (\<exists>mode. c_failure_mode (comp_spec c) = Some mode \<and> fm_code mode = fm)"
proof -
  have "(code, c) \<in> set (components m)"
    "case c_failure_mode (comp_spec c) of None \<Rightarrow> False | Some mode \<Rightarrow> fm_code mode = fm"
    using assms(2) by (auto simp: component_for_mode_def find_Some_iff) (metis nth_mem)
  with assms(1) show ?thesis by (auto simp: comps_ok_def dict_ok_def split: option.splits)
qed

lemma target_rul_pos: "sev \<le> 1 \<Longrightarrow> 0 < target_rul_s sev"
  by (simp add: target_rul_s_def GRADUAL_MAX_H_def GRADUAL_MIN_H_def)

lemma hasten_ok:
  assumes "any_ok (p_state p)" and "0 \<le> p_rate_multiplier p" and "sev \<le> 1"
  shows "p_state (hasten R m c sev p) = p_state p \<and> 0 \<le> p_rate_multiplier (hasten R m c sev p)"
  using assms any.rul_nonneg [OF assms(1), of R "conditions_of m c True"] target_rul_pos [OF assms(3)]
  by (auto simp: hasten_def split: option.splits)

lemma jump_ok:
  assumes "any_ok (p_state p)" and "0 \<le> sev"
  shows "any_ok (p_state (process_jump (any_ops R) p sev))"
    and "any_damage (p_state p) \<le> any_damage (p_state (process_jump (any_ops R) p sev))"
    and "any_failed (p_state p) \<Longrightarrow> any_failed (p_state (process_jump (any_ops R) p sev))"
    and "p_rate_multiplier (process_jump (any_ops R) p sev) = p_rate_multiplier p"
proof -
  let ?s = "m_jump (any_ops R) (p_state p) sev"
  show ok: "any_ok (p_state (process_jump (any_ops R) p sev))"
    using any.ok_jump [OF assms, of R] by (simp add: process_jump_def)
  show le: "any_damage (p_state p) \<le> any_damage (p_state (process_jump (any_ops R) p sev))"
    using any.jump_damage [OF assms, of R] by (simp add: process_jump_def)
  show "any_failed (p_state p) \<Longrightarrow> any_failed (p_state (process_jump (any_ops R) p sev))"
    using any.failed_iff [OF assms(1), of R] any.failed_iff [OF ok, of R] any.damage_range [OF ok, of R] le by auto
qed (simp add: process_jump_def)

lemma inject_spec:
  assumes ok: "machine_ok m" and sev: "0 \<le> sev" "sev \<le> 1" and inj: "inject R fm mode sev m = Some (m', ev)"
  shows "machine_ok m' \<and> (op_state m' = op_state m \<or> op_state m' = DOWN) \<and> production m' = production m
    \<and> (op_state m = DOWN \<longrightarrow> failed_component m' = failed_component m)
    \<and> load_setpoint_pct m' = load_setpoint_pct m \<and> speed_setpoint_pct m' = speed_setpoint_pct m
    \<and> identity_of m' = identity_of m"
proof -
  obtain code c p where c: "component_for_mode m fm = Some (code, c)" "comp_process c = Some p"
    using inj by (auto simp: inject_def split: option.splits)
  note ok' = ok [unfolded machine_ok_def wear_ok_def life_ok_def]
  have cs: "comps_ok (components m)" and load: "load_ok m" using ok' by auto
  from component_for_mode_in [OF cs c(1)]
  have m: "map_of (components m) code = Some c" "comp_ok c" "c_code (comp_spec c) = code" by auto
  have p: "any_ok (p_state p)" "0 \<le> p_rate_multiplier p" using m(2) c(2) by (auto simp: comp_ok_def)
  define active where "active = comp_active c @ [\<lparr>am_failure_mode = fm, am_mode = mode, am_severity = sev, am_started_s = now_s m\<rparr>]"
  show ?thesis
  proof (cases "mode = Gradual")
    case True
    define c' where "c' = c\<lparr>comp_process := Some (hasten R m c sev p), comp_active := active\<rparr>"
    have m': "m' = put_component code c' m" using inj c True by (simp add: inject_def active_def c'_def)
    have same: "comp_damage c' = comp_damage c" "comp_failed c' = comp_failed c" "comp_ok c'" "c_code (comp_spec c') = code"
      using hasten_ok [OF p sev(2), of R m c] c(2) m by (auto simp: c'_def comp_damage_def comp_failed_def comp_ok_def)
    show ?thesis
      using ok' cs put_comps_ok [OF cs same(3,4)] put_damages [OF m(1) same(1)] put_none_failed [OF m(1) same(2)]
        put_has_failed [OF m(1), of c'] put_specs [OF m(1), of c'] same(2) load
      by (simp add: m' put_component_def machine_ok_def wear_ok_def life_ok_def load_ok_def identity_of_def c'_def)
  next
    case False
    define c1 where "c1 = c\<lparr>comp_process := Some (process_jump (any_ops R) p sev)\<rparr>"
    define c2 where "c2 = c1\<lparr>comp_active := active\<rparr>"
    define m1 where "m1 = refresh_damage (put_component code c1 m)"
    obtain m2 where chk: "check_failures m1 = (m2, ev)" and m': "m' = put_component code c2 m2"
      using inj c False by (auto simp: inject_def active_def c1_def c2_def m1_def Let_def split: prod.splits)
    have c1: "comp_ok c1" "c_code (comp_spec c1) = code" "comp_failed c \<Longrightarrow> comp_failed c1"
      using jump_ok [OF p(1) sev(1), of R] p c(2) m by (auto simp: c1_def comp_ok_def comp_failed_def)
    have c2: "comp_ok c2" "c_code (comp_spec c2) = code" "comp_failed c2 = comp_failed c1" "comp_damage c2 = comp_damage c1"
      using c1 by (auto simp: c2_def comp_ok_def comp_failed_def comp_damage_def)
    have cs1: "comps_ok (components m1)" and m1c: "map_of (components m1) code = Some c1"
      using put_comps_ok [OF cs c1(1,2)] by (simp_all add: m1_def refresh_damage_def put_component_def update_conv')
    have "op_state m1 = DOWN \<longrightarrow> has_failed (failed_component m1) (components m1)"
      using ok' put_has_failed [OF m(1) c1(3)] by (simp add: m1_def refresh_damage_def put_component_def)
    from check_failures_spec [OF cs1 this chk]
    obtain s l f where life: "life_ok m2" and m2: "m2 = m1\<lparr>op_state := s, load_pct := l, failed_component := f\<rparr>"
      and s: "s = op_state m1 \<and> l = load_pct m1 \<and> f = failed_component m1 \<or> s = DOWN \<and> l = 0" by blast
    have "op_state m1 = DOWN \<longrightarrow> m2 = m1" using chk by (auto simp: check_failures_def)
    then have fc: "op_state m = DOWN \<longrightarrow> f = failed_component m"
      using m2 by (cases "op_state m1 = DOWN")
        (auto simp: m1_def refresh_damage_def put_component_def dest: arg_cong [where f = failed_component])
    have m2c: "components m2 = components m1" "map_of (components m2) code = Some c1" "comps_ok (components m2)"
      using cs1 m1c by (simp_all add: m2)
    have wear: "comps_ok (components m')" "damage_map m' = damages (components m')"
      using put_comps_ok [OF m2c(3) c2(1,2)] put_damages [OF m2c(2) c2(4)]
      by (simp_all add: m' put_component_def m2 m1_def refresh_damage_def damages_def)
    have "life_ok m'"
      using life put_none_failed [OF m2c(2) c2(3)] put_has_failed [OF m2c(2), of c2] c2(3)
      by (simp add: m' put_component_def life_ok_def)
    moreover have "load_ok m'"
      using load s by (auto simp: m' put_component_def m2 m1_def refresh_damage_def load_ok_def MAX_LOAD_PCT_def)
    moreover have "sensors_ok (sensors m')" "counter_ok (production m')"
      using ok' by (simp_all add: m' put_component_def m2 m1_def refresh_damage_def)
    ultimately have "machine_ok m'" using wear by (intro machine_okI)
    moreover have "identity_of m' = identity_of m"
      using put_specs [OF m(1), of c1] put_specs [OF m2c(2), of c2]
      by (simp add: m' put_component_def m2 m1_def refresh_damage_def identity_of_def c2_def c1_def)
    ultimately show ?thesis
      using s fc by (auto simp: m' put_component_def m2 m1_def refresh_damage_def)
  qed
qed

lemma reset_component_ok:
  assumes "comp_ok c"
  shows "comp_ok (reset_component R c)" and "comp_damage (reset_component R c) = 0"
    and "\<not> comp_failed (reset_component R c)" and "comp_spec (reset_component R c) = comp_spec c"
proof -
  have "any_ok (p_state p) \<Longrightarrow> any_ok (p_state (process_reset (any_ops R) p))
      \<and> any_damage (p_state (process_reset (any_ops R) p)) = 0
      \<and> p_rate_multiplier (process_reset (any_ops R) p) = 1 \<and> \<not> any_failed (p_state (process_reset (any_ops R) p))" for p
    using any.reset_fresh [of p R] any.ok_reset [of "p_state p" R] by (simp add: process_reset_def)
  then show "comp_ok (reset_component R c)" "comp_damage (reset_component R c) = 0"
    "\<not> comp_failed (reset_component R c)" "comp_spec (reset_component R c) = comp_spec c"
    using assms by (auto simp: comp_ok_def comp_damage_def comp_failed_def reset_component_def split: option.splits)
qed

lemma clear_sensors_ok: "sensors_ok sa \<Longrightarrow> sensors_ok (clear_sensors sa cs)"
  by (auto simp: sensors_ok_def clear_sensors_def clear_at_def measurement_ok_def dict_ok_def distinct_map_filter
      split: option.splits)

definition reset_all :: "'g rng \<Rightarrow> string set \<Rightarrow> (string \<times> component) list \<Rightarrow> (string \<times> component) list" where
  "reset_all R codes cs = map (\<lambda>(code, c). (code, if code \<in> codes then reset_component R c else c)) cs"

lemma reset_all_keys: "map fst (reset_all R codes cs) = map fst cs"
  by (induction cs) (auto simp: reset_all_def)

lemma reset_all_specs: "specs_of (reset_all R codes cs) = specs_of cs"
  by (auto simp: reset_all_def specs_of_def reset_component_def)

lemma reset_all_ok:
  assumes "comps_ok cs"
  shows "comps_ok (reset_all R codes cs)" and "set (map fst cs) \<subseteq> codes \<Longrightarrow> none_failed (reset_all R codes cs)"
proof -
  have keys: "dict_ok (reset_all R codes cs)" using assms by (simp add: comps_ok_def dict_ok_def reset_all_keys)
  have sound: "comp_ok c \<and> c_code (comp_spec c) = code" if "(code, c) \<in> set cs" for code c
    using assms that by (auto simp: comps_ok_def)
  show "comps_ok (reset_all R codes cs)"
    unfolding comps_ok_def using keys sound reset_component_ok(1,4) [where R = R] by (auto simp: reset_all_def)
  show "none_failed (reset_all R codes cs)" if "set (map fst cs) \<subseteq> codes"
    unfolding none_failed_def
  proof clarify
    fix code c'
    assume "(code, c') \<in> set (reset_all R codes cs)" and f: "comp_failed c'"
    then obtain c where "(code, c) \<in> set cs" "c' = (if code \<in> codes then reset_component R c else c)"
      by (auto simp: reset_all_def)
    then show False using that f sound reset_component_ok(3) [of c R] by force
  qed
qed

lemma reset_spec:
  assumes ok: "machine_ok m" and r: "reset R cc m = Some (m', codes)"
  shows "machine_ok m' \<and> op_state m' = MAINTENANCE \<and> maintenance_left_s m' = maintenance_duration_s m
    \<and> maintenance_duration_s m' = maintenance_duration_s m \<and> production m' = production m
    \<and> components m' = reset_all R (set codes) (components m)
    \<and> codes = (case cc of None \<Rightarrow> map fst (components m) | Some c \<Rightarrow> [c])
    \<and> load_setpoint_pct m' = load_setpoint_pct m \<and> speed_setpoint_pct m' = speed_setpoint_pct m
    \<and> identity_of m' = identity_of m"
proof -
  note ok' = ok [unfolded machine_ok_def wear_ok_def life_ok_def]
  have codes: "codes = (case cc of None \<Rightarrow> map fst (components m) | Some c \<Rightarrow> [c])"
    using r by (auto simp: reset_def Let_def split: if_splits)
  define sa where "sa = clear_sensors (sensors m) (map_option (\<lambda>_. codes) cc)"
  define fc where "fc = (if failed_component m \<in> Some ` set codes then None else failed_component m)"
  have m': "m' = m\<lparr>components := reset_all R (set codes) (components m),
      damage_map := damages (reset_all R (set codes) (components m)), sensors := sa, failed_component := fc,
      op_state := MAINTENANCE, maintenance_left_s := maintenance_duration_s m, load_pct := 0\<rparr>"
    using r codes
    by (auto simp: reset_def Let_def refresh_damage_def damages_def [symmetric] reset_all_def [symmetric] sa_def fc_def
        split: if_splits)
  have "machine_ok m'"
    using ok' reset_all_ok(1) [of "components m" R "set codes"] clear_sensors_ok [of "sensors m"]
    by (intro machine_okI) (simp_all add: m' life_ok_def load_ok_def sa_def MAX_LOAD_PCT_def)
  moreover have "identity_of m' = identity_of m"
    by (simp add: m' sa_def identity_of_def reset_all_specs clear_sensors_def)
  ultimately show ?thesis using codes by (simp add: m')
qed

section \<open>Construction\<close>

definition component_spec_ok :: "component_spec \<Rightarrow> bool" where
  "component_spec_ok c \<longleftrightarrow> process_needs_mode c
     \<and> (\<forall>ps. c_process c = Some ps \<longrightarrow> args_ok (ps_model ps) (clean_params ps))
     \<and> (\<forall>mode. c_failure_mode c = Some mode \<longrightarrow> 0 \<le> fm_cycle_impact mode)"

definition sensor_specs_ok :: "(string \<times> string option \<times> sensor_spec) list \<Rightarrow> bool" where
  "sensor_specs_ok specs \<longleftrightarrow> (\<forall>(metric, c, s) \<in> set specs. s_min_valid s \<le> s_max_valid s)"

lemma build_component_ok:
  assumes "rng_ok R" and "component_spec_ok c"
  shows "\<exists>p g'. build_process R c g = Inr (p, g')
    \<and> comp_ok \<lparr>comp_spec = c, comp_process = p, comp_active = []\<rparr>
    \<and> \<not> comp_failed \<lparr>comp_spec = c, comp_process = p, comp_active = []\<rparr>"
proof (cases "c_process c")
  case None
  then have "c_failure_mode c = None" using assms(2) by (simp add: component_spec_ok_def process_needs_mode_def)
  with None show ?thesis by (simp add: build_process_def comp_ok_def comp_failed_def)
next
  case (Some ps)
  then obtain fm where fm: "c_failure_mode c = Some fm"
    using assms(2) by (auto simp: component_spec_ok_def process_needs_mode_def)
  have "args_ok (ps_model ps) (clean_params ps)" using assms(2) Some by (simp add: component_spec_ok_def)
  from build_process_ok [OF assms(1) Some fm this, of g] assms(2) fm Some show ?thesis
    by (auto simp: comp_ok_def comp_failed_def component_spec_ok_def)
qed

lemma build_components_ok:
  assumes "rng_ok R" and "\<forall>c \<in> set cs. component_spec_ok c"
  shows "\<exists>comps g'. build_components R cs g = Inr (comps, g') \<and> map fst comps = map c_code cs
    \<and> none_failed comps \<and> (\<forall>(code, c) \<in> set comps. comp_ok c \<and> c_code (comp_spec c) = code) \<and> specs_of comps = cs"
  using assms(2)
proof (induction cs arbitrary: g)
  case Nil
  then show ?case by (simp add: none_failed_def specs_of_def)
next
  case (Cons c cs)
  obtain p g1 where p: "build_process R c g = Inr (p, g1)"
    "comp_ok \<lparr>comp_spec = c, comp_process = p, comp_active = []\<rparr>"
    "\<not> comp_failed \<lparr>comp_spec = c, comp_process = p, comp_active = []\<rparr>"
    using build_component_ok [OF assms(1), of c g] Cons.prems by auto
  from Cons.IH [of g1] Cons.prems obtain comps g2 where "build_components R cs g1 = Inr (comps, g2)"
    "map fst comps = map c_code cs" "none_failed comps" "\<forall>(code, c) \<in> set comps. comp_ok c \<and> c_code (comp_spec c) = code"
    "specs_of comps = cs"
    by auto
  with p show ?case by (simp add: none_failed_def specs_of_def)
qed

lemma new_sensor_array_ok: "sensor_specs_ok specs \<Longrightarrow> sensors_ok (new_sensor_array specs)"
  by (auto simp: sensors_ok_def new_sensor_array_def measurement_ok_def new_measurement_def sensor_specs_ok_def
      set_conv_nth split: prod.splits) (metis fst_conv snd_conv surj_pair)

lemma new_machine_ok:
  assumes R: "rng_ok R" and cs: "\<forall>c \<in> set (t_components t). component_spec_ok c"
    and dist: "distinct (map c_code (t_components t))" and specs: "sensor_specs_ok specs"
    and cycle: "0 < a_ideal_cycle_time_s a"
  shows "\<exists>m. new_machine R a t specs ambient maint g = Inr m \<and> machine_ok m \<and> op_state m = IDLE
    \<and> counter_total (production m) = 0 \<and> identity_of m = (a, t_components t, map fst specs)"
proof -
  from build_components_ok [OF R cs, of g] obtain comps g1
    where b: "build_components R (t_components t) g = Inr (comps, g1)" "map fst comps = map c_code (t_components t)"
      "none_failed comps" "\<forall>(code, c) \<in> set comps. comp_ok c \<and> c_code (comp_spec c) = code"
      "specs_of comps = t_components t" by auto
  then have comps: "comps_ok comps" "dict_of comps = comps" using dist by (simp_all add: comps_ok_def dict_ok_def)
  let ?m1 = "\<lparr>asset_of = a, spec = t, ambient_c = ambient, maintenance_duration_s = maint,
                 components = comps, sensors = new_sensor_array specs,
                 production = new_counter (a_ideal_cycle_time_s a), meter_kwh = 0, op_state = IDLE, load_pct = 0,
                 speed_setpoint_pct = 100, load_setpoint_pct = None, now_s = 0, thermal = [],
                 maintenance_left_s = 0, failed_component = None, operating_load_pct = 100, damage_map = damages comps,
                 electrical_now = \<lparr>e_power_kw = 0, e_power_factor = 0, e_current_a = 0\<rparr>, clean = [], readings = [],
                 gen = g1\<rparr>"
  obtain m where m: "new_machine R a t specs ambient maint g = Inr m"
    "m = take_readings R 0 0 (update_clean 0 (?m1\<lparr>electrical_now := electrical_of ?m1\<rparr>))"
    using b comps by (simp add: new_machine_def Let_def refresh_damage_def damages_def)
  define m2 where "m2 = ?m1\<lparr>electrical_now := electrical_of ?m1\<rparr>"
  obtain th where "snd (signals 0 m2) = m2\<lparr>thermal := th\<rparr>"
    using signals_frame [of m2 0] by (auto simp: same_but_thermal_def)
  then have u: "update_clean 0 m2 = m2\<lparr>thermal := th, clean := fst (signals 0 m2)\<rparr>"
    by (simp add: update_clean_def case_prod_beta)
  define cl where "cl = fst (signals 0 m2)"
  define m3 where "m3 = update_clean 0 m2"
  have m3_eq: "m3 = m2\<lparr>thermal := th, clean := cl\<rparr>" unfolding m3_def u cl_def ..
  obtain sa rs g2 where s: "sample_array R (sensors m3) (\<lambda>k. the (map_of (sensor_inputs m3) k)) 0 0 (gen m3) = ((sa, rs), g2)"
    by (metis prod.exhaust)
  have mm: "m = m3\<lparr>sensors := sa, readings := rs, gen := g2\<rparr>"
    using s m(2) by (simp add: take_readings_def m3_def m2_def)
  have "sensors_ok (sensors m3)" using new_sensor_array_ok [OF specs] by (simp add: m3_eq m2_def)
  then have sa: "sensors_ok sa" "sa_metrics sa = map fst specs"
    using sample_array_ok [OF R _ s] by (simp_all add: m3_eq m2_def new_sensor_array_def)
  have "machine_ok m"
    by (rule machine_okI)
      (use comps sa b(3) cycle in \<open>simp_all add: mm m3_eq m2_def life_ok_def load_ok_def MAX_LOAD_PCT_def
         counter_ok_def new_counter_def\<close>)
  moreover have "op_state m = IDLE" "counter_total (production m) = 0"
    by (simp_all add: mm m3_eq m2_def new_counter_def counter_total_def)
  moreover have "identity_of m = (a, t_components t, map fst specs)"
    using b(5) sa(2) by (simp add: identity_of_def mm m3_eq m2_def)
  ultimately show ?thesis using m(1) by blast
qed

section \<open>Histories\<close>

text \<open>What the engine and the operators may do to a machine; an operation that raises leaves it as it is.\<close>

datatype machine_op = Do_Step real operating_context | Do_Inject string fault_mode real
  | Do_Reset "string option" | Do_Load real | Do_Speed real

fun exec :: "'g rng \<Rightarrow> machine_op \<Rightarrow> 'g machine \<Rightarrow> 'g machine" where
  "exec R (Do_Step dt ctx) m = fst (step R dt ctx m)"
| "exec R (Do_Inject fm mode severity) m = (case inject R fm mode severity m of None \<Rightarrow> m | Some (m', ev) \<Rightarrow> m')"
| "exec R (Do_Reset code) m = (case reset R code m of None \<Rightarrow> m | Some (m', codes) \<Rightarrow> m')"
| "exec R (Do_Load x) m = set_load_setpoint x m"
| "exec R (Do_Speed x) m = m\<lparr>speed_setpoint_pct := x\<rparr>"

fun op_ok :: "machine_op \<Rightarrow> bool" where
  "op_ok (Do_Inject fm mode severity) = (0 \<le> severity \<and> severity \<le> 1)"
| "op_ok (Do_Load x) = (0 \<le> x \<and> x \<le> MAX_LOAD_PCT)"
| "op_ok op = True"

definition run_ops :: "'g rng \<Rightarrow> machine_op list \<Rightarrow> 'g machine \<Rightarrow> 'g machine" where
  "run_ops R ops m = foldl (\<lambda>m op. exec R op m) m ops"

lemma exec_ok:
  assumes "rng_ok R" and "machine_ok m" and "op_ok op"
  shows "machine_ok (exec R op m) \<and> (op_state m = DOWN \<and> (\<forall>cc. op \<noteq> Do_Reset cc) \<longrightarrow> op_state (exec R op m) = DOWN
    \<and> production (exec R op m) = production m \<and> failed_component (exec R op m) = failed_component m)"
proof (cases op)
  case (Do_Step dt ctx)
  obtain m' ev where s: "step R dt ctx m = (m', ev)" by force
  from step_spec [OF assms(1,2) s] show ?thesis by (auto simp: Do_Step s)
next
  case (Do_Inject fm mode sev)
  show ?thesis
  proof (cases "inject R fm mode sev m")
    case None
    with assms(2) show ?thesis by (simp add: Do_Inject)
  next
    case (Some r)
    obtain m' ev where r: "r = (m', ev)" by force
    from inject_spec [OF assms(2) _ _ Some [unfolded r]] assms(3) show ?thesis by (auto simp: Do_Inject Some r)
  qed
next
  case (Do_Reset cc)
  show ?thesis
  proof (cases "reset R cc m")
    case None
    with assms(2) show ?thesis by (simp add: Do_Reset)
  next
    case (Some r)
    obtain m' codes where r: "r = (m', codes)" by force
    from reset_spec [OF assms(2) Some [unfolded r]] show ?thesis by (simp add: Do_Reset Some r)
  qed
qed (use assms in \<open>auto simp: set_load_setpoint_def machine_ok_def wear_ok_def life_ok_def load_ok_def\<close>)

lemma run_ops_ok:
  assumes "rng_ok R" and "machine_ok m" and "list_all op_ok ops"
  shows "machine_ok (run_ops R ops m)"
  using assms(2,3)
proof (induction ops arbitrary: m)
  case Nil
  then show ?case by (simp add: run_ops_def)
next
  case (Cons op ops)
  then have "machine_ok (exec R op m)" using exec_ok [OF assms(1), of m op] by simp
  with Cons show ?case by (simp add: run_ops_def)
qed

section \<open>Properties\<close>

text \<open>
  Property C9. A machine built from a valid catalog entry is sound after every history of steps,
  fault injections, resets and setpoint changes: it never runs with a failed component, it is down
  only while a recorded component really has failed, its load is zero unless it runs and within
  0..110 % otherwise, and its damage table is the damage of its components.
\<close>

theorem machine_safety:
  assumes "rng_ok R" and "\<forall>c \<in> set (t_components t). component_spec_ok c"
    and "distinct (map c_code (t_components t))" and "sensor_specs_ok specs" and "0 < a_ideal_cycle_time_s a"
    and "new_machine R a t specs ambient maint g = Inr m0" and "list_all op_ok ops" and "m = run_ops R ops m0"
  shows "(op_state m = RUNNING \<longrightarrow> none_failed (components m))
    \<and> (op_state m = DOWN \<longrightarrow> has_failed (failed_component m) (components m))
    \<and> 0 \<le> load_pct m \<and> load_pct m \<le> MAX_LOAD_PCT \<and> (op_state m \<noteq> RUNNING \<longrightarrow> load_pct m = 0)
    \<and> damage_map m = damages (components m) \<and> sensors_ok (sensors m) \<and> counter_ok (production m)"
proof -
  have "machine_ok m0" using new_machine_ok [OF assms(1-5), of ambient maint g] assms(6) by auto
  then have "machine_ok m" unfolding assms(8) by (intro run_ops_ok assms)
  then show ?thesis by (simp add: machine_ok_def wear_ok_def life_ok_def load_ok_def)
qed

text \<open>
  Property C22. A machine that is down stays down, makes no parts and keeps the component that failed,
  through every history of steps, injections and setpoint changes, until it is reset.
\<close>

theorem down_until_reset:
  assumes "rng_ok R" and "machine_ok m" and "op_state m = DOWN" and "list_all op_ok ops"
    and "\<forall>cc. Do_Reset cc \<notin> set ops"
  shows "op_state (run_ops R ops m) = DOWN \<and> production (run_ops R ops m) = production m
    \<and> failed_component (run_ops R ops m) = failed_component m"
  using assms(2-5)
proof (induction ops arbitrary: m)
  case Nil
  then show ?case by (simp add: run_ops_def)
next
  case (Cons op ops)
  then have "op_ok op" and "\<forall>cc. op \<noteq> Do_Reset cc" by auto
  with exec_ok [OF assms(1) Cons.prems(1), of op] Cons.prems
  have "machine_ok (exec R op m)" "op_state (exec R op m) = DOWN" "production (exec R op m) = production m"
    "failed_component (exec R op m) = failed_component m" by auto
  with Cons.IH [of "exec R op m"] Cons.prems show ?case by (simp add: run_ops_def)
qed

definition run_steps :: "'g rng \<Rightarrow> (real \<times> operating_context) list \<Rightarrow> 'g machine \<Rightarrow> 'g machine" where
  "run_steps R steps m = foldl (\<lambda>m (dt, ctx). fst (step R dt ctx m)) m steps"

lemma maintenance_steps:
  assumes "rng_ok R" and "machine_ok m" and "op_state m = MAINTENANCE" and "none_failed (components m)"
    and "\<forall>(dt, ctx) \<in> set steps. 0 \<le> dt" and "sum_list (map fst steps) < maintenance_left_s m"
  shows "machine_ok (run_steps R steps m) \<and> op_state (run_steps R steps m) = MAINTENANCE
    \<and> components (run_steps R steps m) = components m
    \<and> maintenance_left_s (run_steps R steps m) = maintenance_left_s m - sum_list (map fst steps)"
  using assms(2-)
proof (induction steps arbitrary: m)
  case Nil
  then show ?case by (simp add: run_steps_def)
next
  case (Cons d steps)
  obtain dt ctx where d: "d = (dt, ctx)" by force
  obtain m' ev where s: "step R dt ctx m = (m', ev)" by force
  have "0 \<le> sum_list (map fst steps)" using Cons.prems(4) by (intro sum_list_nonneg) auto
  with Cons.prems(5) d have "dt < maintenance_left_s m" by simp
  with step_spec [OF assms(1) Cons.prems(1) s] Cons.prems
  have m': "machine_ok m'" "op_state m' = MAINTENANCE" "components m' = components m"
    "maintenance_left_s m' = maintenance_left_s m - dt" by auto
  with Cons.IH [OF m'(1,2)] Cons.prems d s show ?case by (simp add: run_steps_def algebra_simps)
qed

text \<open>
  A full reset clears all wear and puts the machine in maintenance for exactly the
  configured time: it stays there, fresh, while the steps taken sum to less than it, and leaves with
  the first step that reaches it, whatever the sizes of the steps and the production plan.
\<close>

theorem maintenance_duration_exact:
  assumes "rng_ok R" and "machine_ok m" and "reset R None m = Some (m0, codes)"
    and "\<forall>(dt, ctx) \<in> set steps. 0 \<le> dt" and "sum_list (map fst steps) < maintenance_duration_s m"
  shows "op_state (run_steps R steps m0) = MAINTENANCE
    \<and> (\<forall>(code, c) \<in> set (components (run_steps R steps m0)). comp_damage c = 0)
    \<and> (op_state (fst (step R dt ctx (run_steps R steps m0))) = MAINTENANCE
        \<longleftrightarrow> sum_list (map fst steps) + dt < maintenance_duration_s m)"
proof -
  note r = reset_spec [OF assms(2,3)]
  then have nf: "none_failed (components m0)"
    using assms(2) reset_all_ok(2) [of "components m" "set (map fst (components m))" R]
    by (simp add: machine_ok_def wear_ok_def)
  have ok: "comp_ok c" if "(code, c) \<in> set (components m)" for code c
    using that assms(2) by (auto simp: machine_ok_def wear_ok_def comps_ok_def)
  have "comp_damage c = 0" if "(code, c) \<in> set (components m0)" for code c
  proof -
    from that r obtain b where b: "(code, b) \<in> set (components m)"
      "c = (if code \<in> fst ` set (components m) then reset_component R b else b)" by (auto simp: reset_all_def)
    then have "c = reset_component R b" by force
    then show ?thesis using reset_component_ok(2) [OF ok [OF b(1)]] by simp
  qed
  moreover have st: "machine_ok (run_steps R steps m0)" "op_state (run_steps R steps m0) = MAINTENANCE"
    "components (run_steps R steps m0) = components m0"
    "maintenance_left_s (run_steps R steps m0) = maintenance_duration_s m - sum_list (map fst steps)"
    using maintenance_steps [OF assms(1) _ _ nf assms(4)] r assms(5) by auto
  moreover obtain m' ev where s: "step R dt ctx (run_steps R steps m0) = (m', ev)" by force
  ultimately show ?thesis using step_spec [OF assms(1) st(1) s] nf by auto
qed

lemma conditions_of_cong:
  assumes "clean m' = clean m" and "operating_load_pct m' = operating_load_pct m"
    and "speed_setpoint_pct m' = speed_setpoint_pct m" and "comp_spec c' = comp_spec c"
    and "Option.bind (comp_process c') p_arrhenius = Option.bind (comp_process c) p_arrhenius"
  shows "conditions_of m' c' True = conditions_of m c True"
  unfolding conditions_of_def temp_metric_def assms by simp

text \<open>
  A gradual fault injection of severity \<open>s\<close> makes the component's ground-truth remaining
  life, at the machine's operating point, the smaller of what it was and 24 h down to 1 h, linearly in
  \<open>s\<close>; a component that does not wear there is left alone, and so are all the others.
\<close>

theorem gradual_injection_sets_rul:
  assumes "machine_ok m" and "component_for_mode m fm = Some (code, c)" and "comp_process c = Some p"
    and "severity \<le> 1"
  shows "\<exists>m' c' p'. inject R fm Gradual severity m = Some (m', []) \<and> map_of (components m') code = Some c'
    \<and> comp_process c' = Some p' \<and> p_state p' = p_state p
    \<and> true_rul (any_ops R) p' (conditions_of m' c' True)
        = map_option (\<lambda>r. min r (target_rul_s severity)) (true_rul (any_ops R) p (conditions_of m c True))
    \<and> (\<forall>k. k \<noteq> code \<longrightarrow> map_of (components m') k = map_of (components m) k)"
proof -
  have cs: "comps_ok (components m)" using assms(1) by (simp add: machine_ok_def wear_ok_def)
  from component_for_mode_in [OF cs assms(2)] assms(3) have p: "any_ok (p_state p)" "0 \<le> p_rate_multiplier p"
    by (auto simp: comp_ok_def)
  let ?p = "hasten R m c severity p"
  let ?c = "c\<lparr>comp_process := Some ?p, comp_active := comp_active c @ [\<lparr>am_failure_mode = fm, am_mode = Gradual,
      am_severity = severity, am_started_s = now_s m\<rparr>]\<rparr>"
  let ?m = "put_component code ?c m"
  have arr: "p_arrhenius ?p = p_arrhenius p" by (simp add: hasten_def split: option.splits)
  then have cond: "conditions_of ?m ?c True = conditions_of m c True"
    using assms(3) by (intro conditions_of_cong) (simp_all add: put_component_def)
  have "true_rul (any_ops R) ?p (conditions_of m c True)
      = map_option (\<lambda>r. min r (target_rul_s severity)) (true_rul (any_ops R) p (conditions_of m c True))"
  proof (cases "true_rul (any_ops R) p (conditions_of m c True)")
    case None
    then show ?thesis by (simp add: hasten_def)
  next
    case (Some r)
    show ?thesis
    proof (cases "target_rul_s severity < r")
      case True
      with any.rul_retarget [OF Some target_rul_pos [OF assms(4)]] Some show ?thesis
        by (simp add: hasten_def)
    next
      case False
      with Some show ?thesis by (simp add: hasten_def min_def)
    qed
  qed
  moreover have "inject R fm Gradual severity m = Some (?m, [])" using assms(2,3) by (simp add: inject_def)
  ultimately show ?thesis
    using hasten_ok [OF p assms(4), of R m c] cond
    by (intro exI [of _ ?m] exI [of _ ?c] exI [of _ ?p]) (simp add: put_component_def update_conv')
qed

section \<open>Ground truth\<close>

lemma rul_less_total: "\<not> rul_less a b \<Longrightarrow> b = Some y \<Longrightarrow> a = Some x \<Longrightarrow> y \<le> x"
  by (simp add: rul_less_def)

definition comp_rul :: "'g rng \<Rightarrow> 'g machine \<Rightarrow> component \<Rightarrow> real option" where
  "comp_rul R m c = Option.bind (comp_process c) (\<lambda>p. true_rul (any_ops R) p (conditions_of m c True))"

text \<open>A candidate of the search: a component that can fail, with its life and its mode.\<close>

definition candidate :: "'g rng \<Rightarrow> 'g machine \<Rightarrow> component \<Rightarrow> real option \<Rightarrow> failure_mode_spec \<Rightarrow> bool" where
  "candidate R m c rul mode \<longleftrightarrow> comp_process c \<noteq> None \<and> c_failure_mode (comp_spec c) = Some mode \<and> comp_rul R m c = rul"

lemma best_rul_fold:
  assumes "foldl (best_rul R m) best cs = res"
  shows "(res = best \<or> (\<exists>code c rul mode. (code, c) \<in> set cs \<and> candidate R m c rul mode \<and> res = Some (rul, mode)))
    \<and> (\<forall>rul mode. best = Some (rul, mode) \<longrightarrow> (\<exists>b md. res = Some (b, md) \<and> \<not> rul_less rul b))
    \<and> (\<forall>(code, c) \<in> set cs. \<forall>rul mode. candidate R m c rul mode \<longrightarrow> (\<exists>b md. res = Some (b, md) \<and> \<not> rul_less rul b))"
  using assms
proof (induction cs arbitrary: best)
  case Nil
  then show ?case by (auto simp: rul_less_def split: option.splits)
next
  case (Cons kc cs)
  obtain k c where kc: "kc = (k, c)" by force
  let ?b = "best_rul R m best (k, c)"
  have step: "(?b = best \<and> (\<forall>rul mode. candidate R m c rul mode \<longrightarrow> (\<exists>b md. best = Some (b, md) \<and> \<not> rul_less rul b)))
      \<or> (\<exists>rul mode. candidate R m c rul mode \<and> ?b = Some (rul, mode)
          \<and> (\<forall>b md. best = Some (b, md) \<longrightarrow> rul_less rul b))"
    by (auto simp: best_rul_def candidate_def comp_rul_def Let_def split: option.splits)
  have trans: "\<not> rul_less x z" if "rul_less y x \<or> x = y" "\<not> rul_less y z" for x y z
    using that by (auto simp: rul_less_def split: option.splits)
  have trans2: "\<not> rul_less x z" if "\<not> rul_less x y" "\<not> rul_less y z" for x y z
    using that by (auto simp: rul_less_def split: option.splits)
  have "foldl (best_rul R m) ?b cs = res" using Cons.prems by (simp add: kc)
  note ih = Cons.IH [OF this]
  then have ih1: "res = ?b \<or> (\<exists>code d rul mode. (code, d) \<in> set cs \<and> candidate R m d rul mode \<and> res = Some (rul, mode))"
    and ih2: "\<And>rul mode. ?b = Some (rul, mode) \<Longrightarrow> \<exists>b md. res = Some (b, md) \<and> \<not> rul_less rul b"
    and ih3: "\<And>code d rul mode. (code, d) \<in> set cs \<Longrightarrow> candidate R m d rul mode \<Longrightarrow> \<exists>b md. res = Some (b, md) \<and> \<not> rul_less rul b"
    by blast+
  have "res = best \<or> (\<exists>code d rul mode. (code, d) \<in> set (kc # cs) \<and> candidate R m d rul mode \<and> res = Some (rul, mode))"
    using ih1 step unfolding kc by (metis list.set_intros(1,2))
  moreover have "\<exists>b md. res = Some (b, md) \<and> \<not> rul_less rul b" if best: "best = Some (rul, mode)" for rul mode
    using step
  proof
    assume "?b = best \<and> (\<forall>rul mode. candidate R m c rul mode \<longrightarrow> (\<exists>b md. best = Some (b, md) \<and> \<not> rul_less rul b))"
    then show ?thesis using ih2 best by simp
  next
    assume "\<exists>rul mode. candidate R m c rul mode \<and> ?b = Some (rul, mode) \<and> (\<forall>b md. best = Some (b, md) \<longrightarrow> rul_less rul b)"
    then obtain rul0 mode0 where c0: "?b = Some (rul0, mode0)" "rul_less rul0 rul" using best by blast
    from ih2 [OF c0(1)] trans [of rul0 rul] c0(2) show ?thesis by blast
  qed
  moreover have "\<exists>b md. res = Some (b, md) \<and> \<not> rul_less rul b" if cand: "candidate R m c rul mode" for rul mode
    using step
  proof
    assume "?b = best \<and> (\<forall>rul mode. candidate R m c rul mode \<longrightarrow> (\<exists>b md. best = Some (b, md) \<and> \<not> rul_less rul b))"
    then obtain b0 md where b0: "best = Some (b0, md)" "\<not> rul_less rul b0" "?b = best" using cand by blast
    from ih2 [of b0 md] trans2 [OF b0(2)] b0 show ?thesis by auto
  next
    assume "\<exists>rul mode. candidate R m c rul mode \<and> ?b = Some (rul, mode) \<and> (\<forall>b md. best = Some (b, md) \<longrightarrow> rul_less rul b)"
    then obtain rul0 mode0 where c0: "candidate R m c rul0 mode0" "?b = Some (rul0, mode0)" by blast
    then have "rul0 = rul" using cand by (simp add: candidate_def)
    then show ?thesis using ih2 c0(2) by simp
  qed
  ultimately show ?case using ih3 unfolding kc by auto
qed

text \<open>
  The ground truth is the earliest failure: for a machine that is down it is zero and
  names the failure mode of the failed component; otherwise it is the remaining life, and names the
  mode, of one of the components, no component has less, and it is infinite only if every one is.
\<close>

theorem ground_truth_is_earliest_failure:
  assumes "machine_ok m" and "gt = ground_truth R m"
  shows "(op_state m = DOWN \<longrightarrow> gt_true_rul_s gt = Some 0
        \<and> (\<exists>code c mode. map_of (components m) code = Some c \<and> comp_failed c
              \<and> c_failure_mode (comp_spec c) = Some mode \<and> gt_failure_mode gt = fm_code mode))
    \<and> (op_state m \<noteq> DOWN \<longrightarrow>
        (\<forall>b. gt_true_rul_s gt = Some b \<longrightarrow> (\<exists>code c mode. (code, c) \<in> set (components m)
              \<and> candidate R m c (Some b) mode \<and> gt_failure_mode gt = fm_code mode \<and> gt_driver gt = Some (fm_driver mode)))
        \<and> (\<forall>(code, c) \<in> set (components m). \<forall>r mode. candidate R m c (Some r) mode \<longrightarrow>
              (\<exists>b. gt_true_rul_s gt = Some b \<and> b \<le> r)))"
proof (cases "op_state m = DOWN")
  case True
  then obtain code c where c: "failed_component m = Some code" "map_of (components m) code = Some c" "comp_failed c"
    using assms(1) by (auto simp: machine_ok_def life_ok_def has_failed_def)
  have "(code, c) \<in> set (components m)" using c(2) by (rule map_of_SomeD)
  then have "comp_ok c" using assms(1) by (auto simp: machine_ok_def wear_ok_def comps_ok_def)
  then obtain mode where "c_failure_mode (comp_spec c) = Some mode"
    using c(3) by (auto simp: comp_ok_def comp_failed_def split: option.splits)
  with True c assms(2) show ?thesis by (auto simp: ground_truth_def Let_def)
next
  case False
  then have gt: "gt = running_truth R m" using assms(2) by (simp add: ground_truth_def split: option.splits)
  define res where "res = foldl (best_rul R m) None (components m)"
  from best_rul_fold [OF res_def [symmetric]]
  have one: "res = None \<or> (\<exists>code c rul mode. (code, c) \<in> set (components m) \<and> candidate R m c rul mode \<and> res = Some (rul, mode))"
    and all: "\<And>code c rul mode. (code, c) \<in> set (components m) \<Longrightarrow> candidate R m c rul mode
      \<Longrightarrow> \<exists>b md. res = Some (b, md) \<and> \<not> rul_less rul b" by blast+
  have shape: "gt_true_rul_s gt = (case res of Some (r, mode) \<Rightarrow> r | None \<Rightarrow> None)"
    "\<And>b mode. res = Some (Some b, mode) \<Longrightarrow> gt_failure_mode gt = fm_code mode \<and> gt_driver gt = Some (fm_driver mode)"
    by (auto simp: gt running_truth_def res_def [symmetric] split: option.splits)
  have "\<exists>code c mode. (code, c) \<in> set (components m) \<and> candidate R m c (Some b) mode
      \<and> gt_failure_mode gt = fm_code mode \<and> gt_driver gt = Some (fm_driver mode)" if "gt_true_rul_s gt = Some b" for b
    using one shape that by (fastforce split: option.splits prod.splits)
  moreover have "\<exists>b. gt_true_rul_s gt = Some b \<and> b \<le> r" if "(code, c) \<in> set (components m)" "candidate R m c (Some r) mode"
    for code c r mode
  proof -
    from all [OF that] obtain b md where b: "res = Some (b, md)" "\<not> rul_less (Some r) b" by blast
    then obtain x where "b = Some x" "x \<le> r" by (cases b) (auto simp: rul_less_def)
    then show ?thesis using b(1) shape(1) by simp
  qed
  ultimately show ?thesis using False by blast
qed

section \<open>Witnesses\<close>

definition demo_asset :: asset_spec where
  "demo_asset = \<lparr>a_code = ''conveyor-01'', a_name = ''Infeed conveyor'', a_type = Conveyor, a_fidelity = 3,
     a_ideal_cycle_time_s = 10, a_rated_power_kw = 5\<rparr>"

definition demo_component :: "string \<Rightarrow> component_spec" where
  "demo_component code = \<lparr>c_code = code, c_name = code, c_type = Belt, c_health_weight = 1, c_bearing = None,
     c_process = Some \<lparr>ps_model = Taylor, ps_params = [(''life_h'', 900), (''cutting_speed_m_min'', 250)],
       ps_temp_metric = None\<rparr>,
     c_failure_mode = Some demo_mode, c_sensors = []\<rparr>"

definition demo_type :: machine_type_spec where
  "demo_type = \<lparr>t_asset_type = Conveyor, t_idle_power_fraction = 1/10, t_eta_nominal = 9/10,
     t_power_factor_rated = 85/100, t_base_reject_rate = 1/100,
     t_params = map (\<lambda>k. (k, 1)) [''vib_base'', ''vib_load'', ''vib_damage'', ''vib_misalign'', ''vib_idle'', ''axial_base'',
       ''axial_load'', ''axial_damage'', ''motor_temp_rise_c'', ''motor_damage_temp_c'', ''belt_speed_m_s'', ''belt_slip'',
       ''motor_tau_s''],
     t_power_noise = \<lparr>n_std = 0, n_drift = 0, n_spike_prob = 0, n_spike_scale = 0, n_dropout_prob = 0, n_jitter_ms = 0\<rparr>,
     t_load_noise = \<lparr>n_std = 0, n_drift = 0, n_spike_prob = 0, n_spike_scale = 0, n_dropout_prob = 0, n_jitter_ms = 0\<rparr>,
     t_components = map demo_component [''bearing'', ''drive'', ''belt'', ''motor'']\<rparr>"

definition demo_context :: operating_context where
  "demo_context = \<lparr>ctx_now_s = 100, ctx_producing = True, ctx_plan_load_pct = 80\<rparr>"

definition demo_belt :: "real \<Rightarrow> component" where
  "demo_belt w = \<lparr>comp_spec = demo_component ''belt'', comp_process = Some \<lparr>p_driver = ''belt.speed'',
     p_arrhenius = None, p_rate_multiplier = 1, p_state = Taylor_State \<lparr>n_exp = 1/4, v_ref = 250, c_const = 1,
     life_ref_s = 900 * 3600, vb_max_mm = 3/10, feed_exp = 1/2, wear = w\<rparr>\<rparr>, comp_active = []\<rparr>"

definition demo_machine :: "real \<Rightarrow> op_state \<Rightarrow> string option \<Rightarrow> unit machine" where
  "demo_machine w st failed = \<lparr>asset_of = demo_asset, spec = demo_type, ambient_c = 25, maintenance_duration_s = 60,
     components = [(''belt'', demo_belt w)], sensors = new_sensor_array [], production = new_counter 10, meter_kwh = 0,
     op_state = st, load_pct = 0, speed_setpoint_pct = 100, load_setpoint_pct = None, now_s = 0, thermal = [],
     maintenance_left_s = 0, failed_component = failed, operating_load_pct = 100, damage_map = [(''belt'', w)],
     electrical_now = \<lparr>e_power_kw = 0, e_power_factor = 1, e_current_a = 0\<rparr>, clean = [], readings = [], gen = ()\<rparr>"

lemma demo_machine_ok:
  "machine_ok (demo_machine (1/4) IDLE None)" "machine_ok (demo_machine 1 DOWN (Some ''belt''))"
  by (simp_all add: machine_ok_def wear_ok_def life_ok_def load_ok_def comps_ok_def comp_ok_def demo_machine_def
      demo_belt_def demo_component_def demo_mode_def taylor_ok_def damages_def comp_damage_def has_failed_def
      comp_failed_def sensors_ok_def new_sensor_array_def new_measurement_def measurement_ok_def counter_ok_def
      new_counter_def MAX_LOAD_PCT_def dict_ok_def)

lemma demo_component_ok: "component_spec_ok (demo_component code)"
  by (simp add: component_spec_ok_def process_needs_mode_def demo_component_def demo_mode_def args_ok_def
      clean_params_def kw_def)

lemma machine_safety_witness:
  "\<exists>m0. new_machine demo_rng demo_asset demo_type [] 25 60 () = Inr m0
    \<and> load_pct (run_ops demo_rng [Do_Load 80, Do_Step 1 demo_context, Do_Inject ''bearing_wear'' Sudden 1] m0) \<le> MAX_LOAD_PCT"
proof -
  have 1: "\<forall>c \<in> set (t_components demo_type). component_spec_ok c"
    "distinct (map c_code (t_components demo_type))" "sensor_specs_ok []" "0 < a_ideal_cycle_time_s demo_asset"
    using demo_component_ok by (auto simp: demo_type_def demo_component_def sensor_specs_ok_def demo_asset_def)
  obtain m0 where m0: "new_machine demo_rng demo_asset demo_type [] 25 60 () = Inr m0"
    using new_machine_ok [OF demo_rng_ok 1] by blast
  have "list_all op_ok [Do_Load 80, Do_Step 1 demo_context, Do_Inject ''bearing_wear'' Sudden 1]"
    by (simp add: MAX_LOAD_PCT_def)
  from machine_safety [OF demo_rng_ok 1 m0 this refl] m0 show ?thesis by blast
qed

lemma down_until_reset_witness:
  "op_state (run_ops demo_rng [Do_Step 1 demo_context, Do_Inject ''bearing_wear'' Gradual 1, Do_Load 50]
      (demo_machine 1 DOWN (Some ''belt''))) = DOWN"
  using down_until_reset [OF demo_rng_ok demo_machine_ok(2), of "[Do_Step 1 demo_context, Do_Inject ''bearing_wear'' Gradual 1, Do_Load 50]"]
  by (simp add: demo_machine_def MAX_LOAD_PCT_def)

lemma maintenance_duration_exact_witness:
  "\<exists>m0 codes. reset demo_rng None (demo_machine (1/4) IDLE None) = Some (m0, codes)
    \<and> op_state (run_steps demo_rng [(30, demo_context)] m0) = MAINTENANCE
    \<and> op_state (fst (step demo_rng 30 demo_context (run_steps demo_rng [(30, demo_context)] m0))) \<noteq> MAINTENANCE"
proof -
  let ?m = "demo_machine (1/4) IDLE None"
  obtain m0 codes where r: "reset demo_rng None ?m = Some (m0, codes)" by (simp add: reset_def Let_def)
  have "\<forall>(dt, ctx) \<in> set [(30::real, demo_context)]. 0 \<le> dt"
    "sum_list (map fst [(30::real, demo_context)]) < maintenance_duration_s ?m" by (simp_all add: demo_machine_def)
  from maintenance_duration_exact [OF demo_rng_ok demo_machine_ok(1) r this, of 30 demo_context] r show ?thesis
    by (simp add: demo_machine_def)
qed

lemma gradual_injection_sets_rul_witness:
  "\<exists>m'. inject demo_rng ''bearing_wear'' Gradual (1/2) (demo_machine (1/4) IDLE None) = Some (m', [])"
proof -
  obtain p where p: "comp_process (demo_belt (1/4)) = Some p" by (simp add: demo_belt_def)
  have "component_for_mode (demo_machine (1/4) IDLE None) ''bearing_wear'' = Some (''belt'', demo_belt (1/4))"
    by (simp add: component_for_mode_def demo_machine_def demo_belt_def demo_component_def demo_mode_def)
  from gradual_injection_sets_rul [OF demo_machine_ok(1) this p, of "1/2"] show ?thesis by force
qed

lemma ground_truth_is_earliest_failure_witness:
  "gt_true_rul_s (ground_truth demo_rng (demo_machine 1 DOWN (Some ''belt''))) = Some 0"
  using ground_truth_is_earliest_failure [OF demo_machine_ok(2) refl, of demo_rng] by (simp add: demo_machine_def)

end
