(* ===== verification/Sim_Shifts.thy ===== *)
theory Sim_Shifts
  imports Sim_Catalog
begin

text \<open>
  The shift calendar, \<open>apps/simulator/sim/shifts.py\<close>. An instant is its local wall-clock time as a
  number of microseconds since 1970-01-01 (a Thursday): the code converts to the plant's zone first, and
  two datetimes of the same zone compare and subtract by wall clock. The zone data itself
  (\<open>zoneinfo\<close>) is not part of the repository; the conversion is an argument, \<open>tz\<close>, of \<open>active_at\<close>.
\<close>

definition DAY :: int where "DAY = 86400 * 10 ^ 6"

lemma DAY_pos [simp]: "0 < DAY" "0 \<le> DAY" by (simp_all add: DAY_def)

lemma day_bounds: "t div DAY * DAY \<le> t" "t < (t div DAY + 1) * DAY"
  by (simp_all add: DAY_def)

definition SEARCH_DAYS :: nat where "SEARCH_DAYS = 8"

record calendar =
  cal_shifts :: "shift_spec list"
  cal_working_days :: "int list"

type_synonym instance_of_shift = "shift_spec \<times> int \<times> int"

definition weekday :: "int \<Rightarrow> int" where
  "weekday day = (day + 3) mod 7"

definition day_instances :: "calendar \<Rightarrow> int \<Rightarrow> instance_of_shift list" where
  "day_instances cal day =
     (if weekday day \<notin> set (cal_working_days cal) then []
      else map (\<lambda>s. let start = day * DAY + sh_start s; fin = day * DAY + sh_end s
                    in (s, start, if fin \<le> start then fin + DAY else fin)) (cal_shifts cal))"

fun instances :: "calendar \<Rightarrow> int \<Rightarrow> nat \<Rightarrow> instance_of_shift list" where
  "instances cal day 0 = []"
| "instances cal day (Suc n) = day_instances cal day @ instances cal (day + 1) n"

definition covers :: "int \<Rightarrow> instance_of_shift \<Rightarrow> bool" where
  "covers t i = (case i of (s, start, fin) \<Rightarrow> start \<le> t \<and> t < fin)"

definition active :: "calendar \<Rightarrow> int \<Rightarrow> shift_spec option" where
  "active cal t = map_option fst (List.find (covers t) (instances cal (t div DAY - 1) 2))"

definition active_at :: "(int \<Rightarrow> int) \<Rightarrow> calendar \<Rightarrow> int \<Rightarrow> shift_spec option" where
  "active_at tz cal t = active cal (tz t)"

definition boundaries :: "calendar \<Rightarrow> int \<Rightarrow> int list" where
  "boundaries cal t = filter (\<lambda>e. t < e)
     (concat (map (\<lambda>(s, start, fin). [start, fin]) (instances cal (t div DAY - 1) SEARCH_DAYS)))"

definition next_change :: "calendar \<Rightarrow> int \<Rightarrow> int" where
  "next_change cal t = (case boundaries cal t of [] \<Rightarrow> t + DAY | b # bs \<Rightarrow> Min (set (b # bs)))"

definition calendar_ok :: "calendar \<Rightarrow> bool" where
  "calendar_ok cal \<longleftrightarrow> (\<forall>s \<in> set (cal_shifts cal). 0 \<le> sh_start s \<and> sh_start s < DAY \<and> 0 \<le> sh_end s \<and> sh_end s < DAY)"

lemma instances_add: "instances cal d (m + n) = instances cal d m @ instances cal (d + int m) n"
  by (induction m arbitrary: d) (simp_all add: algebra_simps)

lemma instances_range:
  assumes "calendar_ok cal" and "(s, a, b) \<in> set (instances cal d n)"
  shows "d * DAY \<le> a \<and> a < (d + int n) * DAY \<and> a < b \<and> b \<le> a + DAY"
  using assms(2)
proof (induction n arbitrary: d)
  case 0
  then show ?case by simp
next
  case (Suc n)
  then consider "(s, a, b) \<in> set (day_instances cal d)" | "(s, a, b) \<in> set (instances cal (d + 1) n)" by auto
  then show ?case
  proof cases
    case 1
    then have s: "s \<in> set (cal_shifts cal)" and a: "a = d * DAY + sh_start s"
      and b: "b = (if d * DAY + sh_end s \<le> a then d * DAY + sh_end s + DAY else d * DAY + sh_end s)"
      by (auto simp: day_instances_def Let_def split: if_splits)
    define z where "z = int n * DAY"
    have "(d + int (Suc n)) * DAY = d * DAY + DAY + z" "0 \<le> z" by (simp_all add: z_def algebra_simps)
    moreover have "0 \<le> sh_start s" "sh_start s < DAY" "0 \<le> sh_end s" "sh_end s < DAY"
      using assms(1) s by (auto simp: calendar_ok_def)
    ultimately show ?thesis using a b by (simp split: if_splits)
  next
    case 2
    from Suc.IH [OF this] show ?thesis by (simp add: algebra_simps)
  qed
qed

lemma find_skip: "\<forall>x \<in> set xs. \<not> P x \<Longrightarrow> List.find P (xs @ ys) = List.find P ys"
  by (induction xs) auto

lemma find_stop: "\<forall>y \<in> set ys. \<not> P y \<Longrightarrow> List.find P (xs @ ys) = List.find P xs"
proof (induction xs)
  case Nil
  then show ?case by (metis append_Nil find_None_iff find.simps(1))
qed auto

lemma find_cong_set: "(\<And>x. x \<in> set xs \<Longrightarrow> P x = Q x) \<Longrightarrow> List.find P xs = List.find Q xs"
  by (induction xs) auto

text \<open>Looking at more days, before or after, finds the same shift.\<close>

lemma active_window:
  assumes ok: "calendar_ok cal" and lo: "d \<le> t div DAY - 1" and hi: "t div DAY + 1 \<le> d + int n"
  shows "List.find (covers t) (instances cal d n) = List.find (covers t) (instances cal (t div DAY - 1) 2)"
proof -
  let ?D = "t div DAY"
  define m k where "m = nat (?D - 1 - d)" and "k = n - 2 - m"
  have n: "n = m + (2 + k)" and m: "d + int m = ?D - 1" using lo hi by (simp_all add: m_def k_def)
  note t = day_bounds [of t]
  have early: "\<not> covers t i" if "i \<in> set (instances cal d m)" for i
  proof -
    obtain s a b where i: "i = (s, a, b)" by (cases i)
    have "b < (?D - 1) * DAY + DAY" using instances_range [OF ok that [unfolded i]] m by simp
    then show ?thesis using t by (simp add: i covers_def algebra_simps)
  qed
  have late: "\<not> covers t i" if "i \<in> set (instances cal (?D + 1) k)" for i
  proof -
    obtain s a b where i: "i = (s, a, b)" by (cases i)
    show ?thesis using instances_range [OF ok that [unfolded i]] t by (simp add: i covers_def)
  qed
  have "instances cal d n = instances cal d m @ instances cal (?D - 1) 2 @ instances cal (?D + 1) k"
    using instances_add [of cal d m "2 + k"] instances_add [of cal "?D - 1" 2 k]
    by (simp add: n m add.commute del: instances.simps)
  then show ?thesis using early late by (simp add: find_skip find_stop)
qed

lemma next_change_le:
  assumes ok: "calendar_ok cal"
  shows "next_change cal t \<le> (t div DAY + 7) * DAY"
proof (cases "boundaries cal t")
  case Nil
  then show ?thesis using day_bounds [of t] by (simp add: next_change_def algebra_simps)
next
  case (Cons e es)
  then have next_eq: "next_change cal t = Min (set (boundaries cal t))" by (simp add: next_change_def)
  have "e \<in> set (boundaries cal t)" using Cons by simp
  then obtain s a b where i: "(s, a, b) \<in> set (instances cal (t div DAY - 1) SEARCH_DAYS)" and e: "e = a \<or> e = b" "t < e"
    by (auto simp: boundaries_def)
  note rg = instances_range [OF ok i]
  have edges: "x \<in> set (boundaries cal t)" if "t < x" "x = a \<or> x = b" for x
    using i that by (force simp: boundaries_def)
  have "\<exists>x \<in> set (boundaries cal t). x \<le> (t div DAY + 7) * DAY"
  proof (cases "t < a")
    case True
    then show ?thesis using edges [of a] rg by (auto simp: SEARCH_DAYS_def add.commute intro!: bexI [of _ a])
  next
    case False
    with e have b: "t < b" by auto
    have "b \<le> t + DAY" using False rg by simp
    also have "\<dots> \<le> (t div DAY + 7) * DAY" using day_bounds [of t] by (simp add: algebra_simps)
    finally show ?thesis using edges [OF b] by blast
  qed
  then show ?thesis unfolding next_eq by (meson Min_le List.finite_set order.trans)
qed

lemma next_change_edge:
  assumes "(s, a, b) \<in> set (instances cal (t div DAY - 1) SEARCH_DAYS)" and "t < x" and "x = a \<or> x = b"
  shows "next_change cal t \<le> x"
proof -
  have x: "x \<in> set (boundaries cal t)" using assms by (force simp: boundaries_def)
  then have "next_change cal t = Min (set (boundaries cal t))" by (auto simp: next_change_def split: list.splits)
  with x show ?thesis by simp
qed

text \<open>
  The engine, which sleeps until \<open>next_change\<close>, misses no shift: the next change is later
  than now, and at every instant before it the active shift is the one active now. Shifts may overlap,
  cross midnight, and leave any days off.
\<close>

theorem shift_constant_until_next_change:
  assumes ok: "calendar_ok cal"
  shows "t < next_change cal t \<and> (\<forall>t' \<in> {t ..< next_change cal t}. active cal t' = active cal t)"
proof
  show "t < next_change cal t"
  proof (cases "boundaries cal t")
    case Nil
    then show ?thesis by (simp add: next_change_def)
  next
    case (Cons e es)
    have "\<forall>x \<in> set (boundaries cal t). t < x" by (simp add: boundaries_def)
    with Cons have "\<forall>x \<in> set (e # es). t < x" by metis
    with Cons show ?thesis by (simp add: next_change_def)
  qed
  show "\<forall>t' \<in> {t ..< next_change cal t}. active cal t' = active cal t"
  proof
    fix t'
    assume t': "t' \<in> {t ..< next_change cal t}"
    let ?I = "instances cal (t div DAY - 1) SEARCH_DAYS"
    have mono: "t div DAY \<le> t' div DAY" using t' by (intro zdiv_mono1) auto
    have "t' < (t div DAY + 7) * DAY" using t' next_change_le [OF ok, of t] by simp
    with day_bounds(1) [of t'] have "t' div DAY * DAY < (t div DAY + 7) * DAY" by (rule le_less_trans)
    then have "t' div DAY < t div DAY + 7" by simp
    then have "List.find (covers t') ?I = List.find (covers t') (instances cal (t' div DAY - 1) 2)"
      using mono by (intro active_window [OF ok]) (auto simp: SEARCH_DAYS_def)
    moreover have "List.find (covers t) ?I = List.find (covers t) (instances cal (t div DAY - 1) 2)"
      by (intro active_window [OF ok]) (auto simp: SEARCH_DAYS_def)
    moreover have "covers t' i = covers t i" if "i \<in> set ?I" for i
    proof -
      obtain s a b where i: "i = (s, a, b)" by (cases i)
      have "x \<le> t \<or> t' < x" if "x = a \<or> x = b" for x
        using next_change_edge [OF \<open>i \<in> set ?I\<close> [unfolded i] _ that] t' by fastforce
      from this [of a] this [of b] t' show ?thesis by (auto simp: i covers_def)
    qed
    ultimately show "active cal t' = active cal t"
      unfolding active_def by (metis find_cong_set)
  qed
qed

lemma SEARCH_DAYS_Suc: "SEARCH_DAYS = Suc (Suc (Suc (Suc (Suc (Suc (Suc (Suc 0)))))))"
  by (simp add: SEARCH_DAYS_def)

definition demo_calendar :: calendar where
  "demo_calendar = \<lparr>cal_shifts = [\<lparr>sh_code = ''A'', sh_name = ''Morning'', sh_start = 21600000000, sh_end = 50400000000\<rparr>,
     \<lparr>sh_code = ''C'', sh_name = ''Night'', sh_start = 79200000000, sh_end = 21600000000\<rparr>],
     cal_working_days = [0, 1, 2, 3, 4]\<rparr>"

lemma shift_constant_until_next_change_witness:
  "active demo_calendar 345600000001 = active demo_calendar 345600000000"
proof -
  have ok: "calendar_ok demo_calendar" by (simp add: calendar_ok_def demo_calendar_def DAY_def)
  have "345600000001 < next_change demo_calendar 345600000000"
    by (simp add: next_change_def boundaries_def SEARCH_DAYS_Suc day_instances_def demo_calendar_def weekday_def DAY_def)
  then have "345600000001 \<in> {345600000000 ..< next_change demo_calendar 345600000000}" by simp
  with shift_constant_until_next_change [OF ok, of 345600000000] show ?thesis by blast
qed

end
