(* ===== verification/Sim_Engine.thy ===== *)
theory Sim_Engine
  imports Sim_Safety Sim_Shifts
begin

text \<open>
  The fleet: \<open>Engine\<close> of \<open>apps/simulator/sim/engine.py\<close> (tickers, shift changes, scenario events, control
  operations and the operations log).

  SimPy, which decides when a process resumes, is a library: its events are the steps of an inductive
  relation that may fire at any later instant. The catalog's generators are an argument. The log
  keeps the template of a message and its arguments instead of the formatted text; an exception is
  the value \<^typ>\<open>'a + 'b\<close> carries on the left.
\<close>

section \<open>Errors and log\<close>

datatype invalid_request =
    Severity_Range
  | Duration_Not_Positive
  | Needs_Metric string string
  | Not_A_Mode string asset_type
  | Load_Range
  | Speed_Range
  | No_Component string string
  | Not_Valid_Json
  | Not_An_Object
  | Command_Id_Required
  | Params_Not_Object
  | Number_Expected string
  | Component_Not_String
  | Unknown_Command string
  | Time_Scale_Range

datatype request_error = Unknown_Asset string | Invalid_Request invalid_request

datatype json = J_Null | J_Bool bool | J_Int int | J_Float real | J_Non_Finite | J_Str string
  | J_List "json list" | J_Obj "(string \<times> json) list"

datatype log_message =
    Machine_Message string
  | Off_Shift
  | Shift_Started string string
  | Scenario_Due real event_action
  | Scenario_Failed request_error
  | Sensor_Fault_On string string
  | Injected fault_mode string real
  | Load_Setpoint real
  | Speed_Setpoint real
  | Maintenance_Reset "string list"
  | Time_Scale_Set real
  | Scenario_Started string int real
  | Command_Logged string json "request_error option"

record log_entry =
  le_t :: real
  le_level :: event_level
  le_message :: log_message
  le_asset :: "string option"

definition LOG_SIZE :: nat where "LOG_SIZE = 100"

section \<open>State\<close>

record 'g engine =
  cat :: catalog
  tick_s :: real
  shift :: "shift_spec option"
  machines :: "(string \<times> 'g machine) list"
  oplog :: "log_entry list"
  sim_now_s :: real
  last_tick :: "(string \<times> real) list"

definition record_log :: "event_level \<Rightarrow> log_message \<Rightarrow> string option \<Rightarrow> 'g engine \<Rightarrow> 'g engine" where
  "record_log lvl msg a e =
     e\<lparr>oplog := deque_append LOG_SIZE (oplog e) \<lparr>le_t = sim_now_s e, le_level = lvl, le_message = msg, le_asset = a\<rparr>\<rparr>"

definition context_of :: "'g engine \<Rightarrow> string \<Rightarrow> operating_context" where
  "context_of e code = \<lparr>ctx_now_s = sim_now_s e, ctx_producing = (shift e \<noteq> None),
     ctx_plan_load_pct = (case shift e of None \<Rightarrow> 0
       | Some s \<Rightarrow> the (map_of (l_plan (the (line_of (cat e) code))) (sh_code s)))\<rparr>"

definition get_machine :: "'g engine \<Rightarrow> string \<Rightarrow> request_error + 'g machine" where
  "get_machine e code = (case map_of (machines e) code of None \<Rightarrow> Inl (Unknown_Asset code) | Some m \<Rightarrow> Inr m)"

definition put_machine :: "string \<Rightarrow> 'g machine \<Rightarrow> 'g engine \<Rightarrow> 'g engine" where
  "put_machine code m e = e\<lparr>machines := dict_put code m (machines e)\<rparr>"

fun record_events :: "string \<Rightarrow> machine_event list \<Rightarrow> 'g engine \<Rightarrow> 'g engine" where
  "record_events code [] e = e"
| "record_events code (ev # evs) e =
     record_events code evs (record_log (me_level ev) (Machine_Message (me_message ev)) (Some code) e)"

section \<open>Construction\<close>

fun build_machines ::
  "'g rng \<Rightarrow> catalog \<Rightarrow> (asset_spec \<times> 'g) list \<Rightarrow> build_error + (string \<times> 'g machine) list" where
  "build_machines R c [] = Inr []"
| "build_machines R c ((a, g) # rest) =
     (case (map_of (types c) (a_type a), sensor_specs c (a_code a)) of
        (Some t, Some specs) \<Rightarrow>
          rbind (new_machine R a t specs (f_ambient_c (fleet c)) (f_maintenance_duration_s (fleet c)) g)
            (\<lambda>m. rbind (build_machines R c rest) (\<lambda>ms. Inr ((a_code a, m) # ms)))
      | _ \<Rightarrow> Inl (Key_Error (a_code a)))"

definition prime :: "'g rng \<Rightarrow> 'g engine \<Rightarrow> string \<Rightarrow> 'g engine" where
  "prime R e code = (case map_of (machines e) code of None \<Rightarrow> e
     | Some m \<Rightarrow> put_machine code (fst (step R 0 (context_of e code) m)) e)"

definition new_engine ::
  "'g rng \<Rightarrow> catalog \<Rightarrow> 'g list \<Rightarrow> real \<Rightarrow> shift_spec option \<Rightarrow> build_error + 'g engine" where
  "new_engine R c gens tick first_shift =
     rbind (build_machines R c (zip (assets c) gens)) (\<lambda>ms.
       let e = \<lparr>cat = c, tick_s = tick, shift = first_shift, machines = dict_of ms, oplog = [], sim_now_s = 0,
                last_tick = map (\<lambda>(code, m). (code, 0)) (dict_of ms)\<rparr>
       in Inr (foldl (prime R) e (map fst (machines e))))"

section \<open>Processes\<close>

definition machine_tick :: "'g rng \<Rightarrow> string \<Rightarrow> 'g engine \<Rightarrow> 'g engine" where
  "machine_tick R code e = (case (map_of (machines e) code, map_of (last_tick e) code) of
       (Some m, Some prev) \<Rightarrow>
         (let (m', evs) = step R (sim_now_s e - prev) (context_of e code) m
          in record_events code evs (put_machine code m' (e\<lparr>last_tick := dict_put code (sim_now_s e) (last_tick e)\<rparr>)))
     | _ \<Rightarrow> e)"

definition shift_change :: "shift_spec option \<Rightarrow> 'g engine \<Rightarrow> 'g engine" where
  "shift_change s e = (case s of
       None \<Rightarrow> record_log Info Off_Shift None (e\<lparr>shift := None\<rparr>)
     | Some sh \<Rightarrow> record_log Info (Shift_Started (sh_code sh) (sh_name sh)) None (e\<lparr>shift := Some sh\<rparr>))"

section \<open>Control operations\<close>

fun sensor_kind_of :: "string \<Rightarrow> fault_kind" where
  "sensor_kind_of s = (if s = ''sensor_stuck'' then Stuck else if s = ''sensor_offset'' then Offset
     else if s = ''sensor_dropout'' then Dropout else Drift)"

definition inject_fault ::
  "'g rng \<Rightarrow> string \<Rightarrow> string \<Rightarrow> fault_mode \<Rightarrow> real \<Rightarrow> string option \<Rightarrow> real option \<Rightarrow> 'g engine
    \<Rightarrow> request_error + 'g engine" where
  "inject_fault R a fm mode severity metric duration e =
     rbind (get_machine e a) (\<lambda>m.
       if \<not> (0 \<le> severity \<and> severity \<le> 1) then Inl (Invalid_Request Severity_Range)
       else if (case duration of None \<Rightarrow> False | Some d \<Rightarrow> d \<le> 0) then Inl (Invalid_Request Duration_Not_Positive)
       else if fm \<in> set SENSOR_FAULT_KINDS then
         (case Option.bind metric (\<lambda>k. inject_sensor (sensors m) k (sensor_kind_of fm) severity (sim_now_s e) duration) of
            None \<Rightarrow> Inl (Invalid_Request (Needs_Metric fm a))
          | Some sa \<Rightarrow> Inr (record_log Warning (Sensor_Fault_On fm (the metric)) (Some a)
                             (put_machine a (m\<lparr>sensors := sa\<rparr>) e)))
       else (case inject R fm mode severity m of
               None \<Rightarrow> Inl (Invalid_Request (Not_A_Mode fm (a_type (asset_of m))))
             | Some (m', evs) \<Rightarrow> Inr (record_events a evs
                 (record_log Warning (Injected mode fm severity) (Some a) (put_machine a m' e)))))"

definition set_load :: "string \<Rightarrow> real \<Rightarrow> 'g engine \<Rightarrow> request_error + 'g engine" where
  "set_load a x e = rbind (get_machine e a) (\<lambda>m.
     if \<not> (0 \<le> x \<and> x \<le> 110) then Inl (Invalid_Request Load_Range)
     else Inr (record_log Info (Load_Setpoint x) (Some a) (put_machine a (set_load_setpoint x m) e)))"

definition set_speed :: "string \<Rightarrow> real \<Rightarrow> 'g engine \<Rightarrow> request_error + 'g engine" where
  "set_speed a x e = rbind (get_machine e a) (\<lambda>m.
     if \<not> (50 \<le> x \<and> x \<le> 120) then Inl (Invalid_Request Speed_Range)
     else Inr (record_log Info (Speed_Setpoint x) (Some a) (put_machine a (m\<lparr>speed_setpoint_pct := x\<rparr>) e)))"

definition reset_asset :: "'g rng \<Rightarrow> string \<Rightarrow> string option \<Rightarrow> 'g engine \<Rightarrow> request_error + 'g engine \<times> string list" where
  "reset_asset R a component e = rbind (get_machine e a) (\<lambda>m.
     case reset R component m of
       None \<Rightarrow> Inl (Invalid_Request (No_Component a (the component)))
     | Some (m', codes) \<Rightarrow> Inr (record_log Info (Maintenance_Reset codes) (Some a) (put_machine a m' e), codes))"

section \<open>Scenario events\<close>

definition apply_event :: "'g rng \<Rightarrow> scenario_event \<Rightarrow> 'g engine \<Rightarrow> request_error + 'g engine" where
  "apply_event R ev e = (case ev_action ev of
       Set_Load \<Rightarrow> set_load (ev_asset ev) (the (ev_load_pct ev)) e
     | Set_Speed \<Rightarrow> set_speed (ev_asset ev) (the (ev_speed_pct ev)) e
     | Reset \<Rightarrow> rbind (reset_asset R (ev_asset ev) (ev_component_code ev) e) (\<lambda>(e', codes). Inr e')
     | _ \<Rightarrow> inject_fault R (ev_asset ev) (the (ev_failure_mode ev)) (ev_mode ev) (ev_severity ev) (ev_metric ev)
              (ev_duration_s ev) e)"

definition scenario_event :: "'g rng \<Rightarrow> scenario_event \<Rightarrow> 'g engine \<Rightarrow> 'g engine" where
  "scenario_event R ev e =
     (let e1 = record_log Info (Scenario_Due (ev_at_h ev) (ev_action ev)) (Some (ev_asset ev)) e
      in case apply_event R ev e1 of
           Inr e2 \<Rightarrow> e2
         | Inl err \<Rightarrow> record_log Error (Scenario_Failed err) (Some (ev_asset ev)) e1)"

section \<open>Steps of the fleet\<close>

inductive engine_step :: "'g rng \<Rightarrow> 'g engine \<Rightarrow> 'g engine \<Rightarrow> bool" for R where
  do_tick: "sim_now_s e \<le> t \<Longrightarrow> engine_step R e (machine_tick R code (e\<lparr>sim_now_s := t\<rparr>))"
| do_shift: "sim_now_s e \<le> t \<Longrightarrow> engine_step R e (shift_change s (e\<lparr>sim_now_s := t\<rparr>))"
| do_scenario: "sim_now_s e \<le> t \<Longrightarrow> engine_step R e (scenario_event R ev (e\<lparr>sim_now_s := t\<rparr>))"
| do_fault: "inject_fault R a fm mode severity metric duration e = Inr e' \<Longrightarrow> engine_step R e e'"
| do_load: "set_load a x e = Inr e' \<Longrightarrow> engine_step R e e'"
| do_speed: "set_speed a x e = Inr e' \<Longrightarrow> engine_step R e e'"
| do_reset: "reset_asset R a component e = Inr (e', codes) \<Longrightarrow> engine_step R e e'"
| do_retick: "engine_step R e (e\<lparr>tick_s := x\<rparr>)"
| do_note: "engine_step R e (record_log lvl msg a e)"

inductive_cases engine_stepE: "engine_step R e e'"

section \<open>Fleet invariant\<close>

text \<open>A machine is the one its catalog entry describes.\<close>

definition matches :: "catalog \<Rightarrow> string \<Rightarrow> 'g machine \<Rightarrow> bool" where
  "matches c code m \<longleftrightarrow> (case (asset c code, type_of c code, sensor_specs c code) of
     (Some a, Some t, Some specs) \<Rightarrow> identity_of m = (a, t_components t, map fst specs) | _ \<Rightarrow> False)"

definition fleet_ok :: "catalog \<Rightarrow> (string \<times> 'g machine) list \<Rightarrow> bool" where
  "fleet_ok c ms \<longleftrightarrow> dict_ok ms \<and> map fst ms = map a_code (assets c)
     \<and> (\<forall>(code, m) \<in> set ms. machine_ok m \<and> matches c code m)"

definition log_ok :: "real \<Rightarrow> log_entry list \<Rightarrow> bool" where
  "log_ok now l \<longleftrightarrow> length l \<le> LOG_SIZE \<and> sorted (map le_t l) \<and> (\<forall>x \<in> set l. le_t x \<le> now)"

definition engine_ok :: "'g engine \<Rightarrow> bool" where
  "engine_ok e \<longleftrightarrow> fleet_ok (cat e) (machines e) \<and> log_ok (sim_now_s e) (oplog e)"

lemma log_ok_append:
  assumes "log_ok now l" and "le_t x = now"
  shows "log_ok now (deque_append LOG_SIZE l x)"
proof -
  have "sorted (map le_t (l @ [x]))" using assms by (auto simp: log_ok_def sorted_append)
  then have "sorted (map le_t (drop n (l @ [x])))" for n by (metis drop_map sorted_wrt_drop)
  then have "sorted (map le_t (deque_append LOG_SIZE l x))" unfolding deque_append_def Let_def .
  moreover have "\<forall>y \<in> set (deque_append LOG_SIZE l x). le_t y \<le> now"
    using assms set_deque_append [of LOG_SIZE l x] by (auto simp: log_ok_def)
  ultimately show ?thesis by (simp add: log_ok_def)
qed

lemma engine_ok_update [simp]:
  "engine_ok (e\<lparr>shift := s\<rparr>) = engine_ok e" "engine_ok (e\<lparr>tick_s := x\<rparr>) = engine_ok e"
  "engine_ok (e\<lparr>last_tick := l\<rparr>) = engine_ok e"
  by (simp_all add: engine_ok_def)

lemma record_log_ok: "engine_ok e \<Longrightarrow> engine_ok (record_log lvl msg a e)"
  by (simp add: engine_ok_def record_log_def log_ok_append)

lemma record_log_frame [simp]:
  "machines (record_log lvl msg a e) = machines e" "sim_now_s (record_log lvl msg a e) = sim_now_s e"
  "cat (record_log lvl msg a e) = cat e" "shift (record_log lvl msg a e) = shift e"
  by (simp_all add: record_log_def)

lemma record_events_ok: "engine_ok e \<Longrightarrow> engine_ok (record_events code evs e)"
  by (induction code evs e rule: record_events.induct) (simp_all add: record_log_ok)

lemma record_events_frame [simp]:
  "machines (record_events code evs e) = machines e" "sim_now_s (record_events code evs e) = sim_now_s e"
  "cat (record_events code evs e) = cat e"
  by (induction code evs e rule: record_events.induct) simp_all

lemma dict_put_keys: "map_of d k = Some v \<Longrightarrow> map fst (dict_put k v' d) = map fst d"
  by (induction d) auto

lemma put_machine_ok:
  assumes "engine_ok e" and "map_of (machines e) code = Some m" and "machine_ok m'" and "identity_of m' = identity_of m"
  shows "engine_ok (put_machine code m' e)"
proof -
  have f: "fleet_ok (cat e) (machines e)" using assms(1) by (simp add: engine_ok_def)
  then have d: "dict_ok (machines e)" and all: "\<forall>(k, x) \<in> set (machines e). machine_ok x \<and> matches (cat e) k x"
    by (auto simp: fleet_ok_def)
  have "(code, m) \<in> set (machines e)" using assms(2) by (rule map_of_SomeD)
  with all have "matches (cat e) code m" by blast
  then have m': "matches (cat e) code m'" using assms(4) by (simp add: matches_def split: option.splits)
  have "\<forall>(k, x) \<in> set (dict_put code m' (machines e)). machine_ok x \<and> matches (cat e) k x"
    using all m' assms(3) d by (auto simp: dict_put_in split: if_splits)
  with assms f show ?thesis
    by (simp add: engine_ok_def put_machine_def fleet_ok_def dict_put_keys [OF assms(2)])
qed

lemma get_machine_ok:
  assumes "engine_ok e" and "get_machine e a = Inr m"
  shows "machine_ok m \<and> matches (cat e) a m \<and> map_of (machines e) a = Some m"
proof -
  have m: "map_of (machines e) a = Some m" using assms(2) by (auto simp: get_machine_def split: option.splits)
  then have "(a, m) \<in> set (machines e)" by (rule map_of_SomeD)
  with assms(1) m show ?thesis by (auto simp: engine_ok_def fleet_ok_def)
qed

lemma later_ok: "engine_ok e \<Longrightarrow> sim_now_s e \<le> t \<Longrightarrow> engine_ok (e\<lparr>sim_now_s := t\<rparr>)"
  by (fastforce simp: engine_ok_def log_ok_def)

lemma machine_tick_ok:
  assumes "rng_ok R" and ok: "engine_ok e"
  shows "engine_ok (machine_tick R code e)"
proof (cases "map_of (machines e) code")
  case None
  with ok show ?thesis by (simp add: machine_tick_def)
next
  case (Some m)
  show ?thesis
  proof (cases "map_of (last_tick e) code")
    case None
    with Some ok show ?thesis by (simp add: machine_tick_def)
  next
    case (Some prev)
    obtain m' evs where s: "step R (sim_now_s e - prev) (context_of e code) m = (m', evs)" by force
    have m: "machine_ok m" using ok \<open>map_of (machines e) code = Some m\<close> get_machine_ok [of e code m]
      by (simp add: get_machine_def)
    from step_spec [OF assms(1) m s] have m': "machine_ok m'" "identity_of m' = identity_of m" by auto
    let ?e = "e\<lparr>last_tick := dict_put code (sim_now_s e) (last_tick e)\<rparr>"
    have "engine_ok ?e" "map_of (machines ?e) code = Some m"
      using ok \<open>map_of (machines e) code = Some m\<close> by (simp_all add: engine_ok_def)
    from put_machine_ok [OF this m'] show ?thesis
      using Some \<open>map_of (machines e) code = Some m\<close> s by (simp add: machine_tick_def record_events_ok)
  qed
qed

lemma shift_change_ok: "engine_ok e \<Longrightarrow> engine_ok (shift_change s e)"
  unfolding shift_change_def by (cases s) (simp_all add: record_log_ok)

lemma inject_fault_ok:
  assumes ok: "engine_ok e" and e': "inject_fault R a fm mode severity metric duration e = Inr e'"
  shows "engine_ok e'"
proof -
  obtain m where g: "get_machine e a = Inr m" using e' by (auto simp: inject_fault_def res_simps)
  note m = get_machine_ok [OF ok g]
  have sev: "0 \<le> severity" "severity \<le> 1" using e' g by (auto simp: inject_fault_def split: if_splits)
  show ?thesis
  proof (cases "fm \<in> set SENSOR_FAULT_KINDS")
    case True
    then obtain sa k where sa: "inject_sensor (sensors m) k (sensor_kind_of fm) severity (sim_now_s e) duration = Some sa"
      and e'_eq: "e' = record_log Warning (Sensor_Fault_On fm (the metric)) (Some a) (put_machine a (m\<lparr>sensors := sa\<rparr>) e)"
      using e' g by (auto simp: inject_fault_def bind_eq_Some_conv split: if_splits option.splits)
    have "sensors_ok sa \<and> sa_metrics sa = sa_metrics (sensors m)"
      using sa m by (auto simp: inject_sensor_def inject_at_def machine_ok_def sensors_ok_def measurement_ok_def)
    then have "machine_ok (m\<lparr>sensors := sa\<rparr>)" "identity_of (m\<lparr>sensors := sa\<rparr>) = identity_of m"
      using m by (auto simp: machine_ok_def wear_ok_def life_ok_def load_ok_def identity_of_def)
    with put_machine_ok [OF ok, of a m] m show ?thesis by (simp add: e'_eq record_log_ok)
  next
    case False
    then obtain m' evs where i: "inject R fm mode severity m = Some (m', evs)"
      and e'_eq: "e' = record_events a evs (record_log Warning (Injected mode fm severity) (Some a) (put_machine a m' e))"
      using e' g by (auto simp: inject_fault_def split: if_splits option.splits)
    from inject_spec [OF _ sev i] m have "machine_ok m'" "identity_of m' = identity_of m" by auto
    with put_machine_ok [OF ok, of a m] m show ?thesis by (simp add: e'_eq record_log_ok record_events_ok)
  qed
qed

lemma setpoint_machine_ok:
  "machine_ok m \<Longrightarrow> 0 \<le> x \<Longrightarrow> x \<le> 110 \<Longrightarrow> machine_ok (set_load_setpoint x m)"
  "machine_ok m \<Longrightarrow> machine_ok (m\<lparr>speed_setpoint_pct := x\<rparr>)"
  by (auto simp: machine_ok_def wear_ok_def life_ok_def load_ok_def set_load_setpoint_def MAX_LOAD_PCT_def)

lemma set_load_ok: "engine_ok e \<Longrightarrow> set_load a x e = Inr e' \<Longrightarrow> engine_ok e'"
  using get_machine_ok [of e a]
  by (auto simp: set_load_def res_simps identity_of_def set_load_setpoint_def split: if_splits
      intro!: record_log_ok put_machine_ok setpoint_machine_ok [unfolded set_load_setpoint_def])

lemma set_speed_ok: "engine_ok e \<Longrightarrow> set_speed a x e = Inr e' \<Longrightarrow> engine_ok e'"
  using get_machine_ok [of e a]
  by (auto simp: set_speed_def res_simps identity_of_def split: if_splits
      intro!: record_log_ok put_machine_ok setpoint_machine_ok)

lemma reset_asset_ok:
  assumes "engine_ok e" and "reset_asset R a component e = Inr (e', codes)"
  shows "engine_ok e'"
proof -
  obtain m m' where g: "get_machine e a = Inr m" and r: "reset R component m = Some (m', codes)"
    and e': "e' = record_log Info (Maintenance_Reset codes) (Some a) (put_machine a m' e)"
    using assms(2) by (auto simp: reset_asset_def res_simps split: option.splits)
  from get_machine_ok [OF assms(1) g] reset_spec [OF _ r] put_machine_ok [OF assms(1), of a m m'] show ?thesis
    by (simp add: e' record_log_ok)
qed

lemma apply_event_ok: "engine_ok e \<Longrightarrow> apply_event R ev e = Inr e' \<Longrightarrow> engine_ok e'"
  by (cases "ev_action ev")
    (auto simp: apply_event_def res_simps intro: inject_fault_ok set_load_ok set_speed_ok reset_asset_ok)

lemma scenario_event_run_ok: "engine_ok e \<Longrightarrow> engine_ok (scenario_event R ev e)"
  unfolding scenario_event_def Let_def
  by (auto split: sum.splits intro!: record_log_ok intro: apply_event_ok [OF record_log_ok])

lemma engine_step_ok:
  assumes "rng_ok R" and "engine_step R e e'" and "engine_ok e"
  shows "engine_ok e'"
  using assms(2,3)
  by cases (auto intro: machine_tick_ok [OF assms(1)] shift_change_ok scenario_event_run_ok later_ok inject_fault_ok
      set_load_ok set_speed_ok reset_asset_ok record_log_ok)

section \<open>Construction\<close>

definition asset_ok :: "catalog \<Rightarrow> asset_spec \<Rightarrow> bool" where
  "asset_ok c a \<longleftrightarrow> 0 < a_ideal_cycle_time_s a \<and> (case map_of (types c) (a_type a) of
       None \<Rightarrow> False
     | Some t \<Rightarrow> list_all component_spec_ok (t_components t) \<and> distinct (map c_code (t_components t))
         \<and> sensor_specs_ok (type_sensor_specs t a))"

definition catalog_ok :: "catalog \<Rightarrow> bool" where
  "catalog_ok c \<longleftrightarrow> distinct (map a_code (assets c)) \<and> list_all (asset_ok c) (assets c)"

definition coded :: "catalog \<Rightarrow> (string \<times> line_spec \<times> asset_spec) list" where
  "coded c = concat (map (\<lambda>l. map (\<lambda>a. (a_code a, l, a)) (l_assets l)) (f_lines (fleet c)))"

lemma coded_keys: "map fst (coded c) = map a_code (assets c)"
  by (simp add: coded_def assets_def map_concat comp_def)

lemma assets_by_code_coded: "catalog_ok c \<Longrightarrow> assets_by_code c = coded c"
  by (simp add: assets_by_code_def coded_def [symmetric] dict_ok_def coded_keys catalog_ok_def)

lemma asset_lookup:
  assumes "catalog_ok c" and "a \<in> set (assets c)"
  shows "asset c (a_code a) = Some a"
proof -
  obtain l where "(a_code a, l, a) \<in> set (coded c)" using assms(2) by (force simp: coded_def assets_def)
  moreover have "distinct (map fst (coded c))" using assms(1) by (simp add: coded_keys catalog_ok_def)
  ultimately show ?thesis using assms(1) by (simp add: asset_def assets_by_code_coded)
qed

lemma asset_Some: "catalog_ok c \<Longrightarrow> asset c code = Some a \<Longrightarrow> code \<in> set (map a_code (assets c))"
  by (auto simp: asset_def assets_by_code_coded coded_keys [symmetric] simp del: set_map dest!: map_of_SomeD)
    (metis fst_conv image_eqI list.set_map)

lemma build_machines_ok:
  assumes R: "rng_ok R" and c: "catalog_ok c" and sub: "fst ` set ags \<subseteq> set (assets c)"
  shows "\<exists>ms. build_machines R c ags = Inr ms \<and> map fst ms = map (a_code \<circ> fst) ags
    \<and> (\<forall>(code, m) \<in> set ms. machine_ok m \<and> matches c code m)"
  using sub
proof (induction ags)
  case Nil
  then show ?case by simp
next
  case (Cons ag ags)
  obtain a g where ag: "ag = (a, g)" by force
  then have a: "a \<in> set (assets c)" using Cons.prems by auto
  with c have ok: "asset_ok c a" by (auto simp: catalog_ok_def list_all_iff)
  then obtain t where t: "map_of (types c) (a_type a) = Some t" "\<forall>x \<in> set (t_components t). component_spec_ok x"
    "distinct (map c_code (t_components t))" "sensor_specs_ok (type_sensor_specs t a)" "0 < a_ideal_cycle_time_s a"
    by (auto simp: asset_ok_def list_all_iff split: option.splits)
  have look: "asset c (a_code a) = Some a" by (rule asset_lookup [OF c a])
  then have specs: "sensor_specs c (a_code a) = Some (type_sensor_specs t a)" "type_of c (a_code a) = Some t"
    using t(1) by (simp_all add: sensor_specs_def type_of_def)
  from new_machine_ok [OF R t(2-5), of "f_ambient_c (fleet c)" "f_maintenance_duration_s (fleet c)" g]
  obtain m where m: "new_machine R a t (type_sensor_specs t a) (f_ambient_c (fleet c))
      (f_maintenance_duration_s (fleet c)) g = Inr m" "machine_ok m"
    "identity_of m = (a, t_components t, map fst (type_sensor_specs t a))" by auto
  have "matches c (a_code a) m" using look specs m(3) by (simp add: matches_def)
  with Cons m t(1) specs show ?case by (auto simp: ag)
qed

lemma prime_ok:
  assumes "rng_ok R" and "engine_ok e"
  shows "engine_ok (prime R e code) \<and> cat (prime R e code) = cat e"
proof (cases "map_of (machines e) code")
  case None
  with assms show ?thesis by (simp add: prime_def)
next
  case (Some m)
  obtain m' evs where s: "step R 0 (context_of e code) m = (m', evs)" by force
  have "machine_ok m" using get_machine_ok [OF assms(2), of code m] Some by (simp add: get_machine_def)
  from step_spec [OF assms(1) this s] put_machine_ok [OF assms(2) Some, of m'] show ?thesis
    by (simp add: prime_def Some s) (simp add: put_machine_def)
qed

lemma prime_all_ok: "rng_ok R \<Longrightarrow> engine_ok e \<Longrightarrow> engine_ok (foldl (prime R) e codes) \<and> cat (foldl (prime R) e codes) = cat e"
  by (induction codes arbitrary: e) (use prime_ok in \<open>auto\<close>)

lemma new_engine_ok:
  assumes R: "rng_ok R" and c: "catalog_ok c" and len: "length gens = length (assets c)"
  shows "\<exists>e. new_engine R c gens tick s = Inr e \<and> engine_ok e \<and> cat e = c"
proof -
  have "fst ` set (zip (assets c) gens) \<subseteq> set (assets c)" by (auto dest: set_zip_leftD)
  from build_machines_ok [OF R c this] obtain ms where ms: "build_machines R c (zip (assets c) gens) = Inr ms"
    "map fst ms = map a_code (assets c)" "\<forall>(code, m) \<in> set ms. machine_ok m \<and> matches c code m"
    using len by (auto simp: map_map [symmetric] simp del: map_map)
  then have d: "dict_ok ms" using c by (simp add: dict_ok_def catalog_ok_def)
  let ?e = "\<lparr>cat = c, tick_s = tick, shift = s, machines = ms, oplog = [], sim_now_s = 0,
                last_tick = map (\<lambda>(code, m). (code, 0)) ms\<rparr>"
  have "engine_ok ?e" using ms d by (simp add: engine_ok_def fleet_ok_def log_ok_def)
  from prime_all_ok [OF R this, of "map fst ms"] ms d show ?thesis by (simp add: new_engine_def)
qed

section \<open>Properties\<close>

lemma put_machine_frame [simp]:
  "cat (put_machine code m e) = cat e" "sim_now_s (put_machine code m e) = sim_now_s e"
  by (simp_all add: put_machine_def)

lemma inject_fault_frame: "inject_fault R a fm mode severity metric duration e = Inr e' \<Longrightarrow> cat e' = cat e"
  by (auto simp: inject_fault_def res_simps split: if_splits option.splits)

lemma set_load_frame: "set_load a x e = Inr e' \<Longrightarrow> cat e' = cat e"
  by (auto simp: set_load_def res_simps split: if_splits)

lemma set_speed_frame: "set_speed a x e = Inr e' \<Longrightarrow> cat e' = cat e"
  by (auto simp: set_speed_def res_simps split: if_splits)

lemma reset_asset_frame: "reset_asset R a k e = Inr (e', codes) \<Longrightarrow> cat e' = cat e"
  by (auto simp: reset_asset_def res_simps split: option.splits)

lemma apply_event_frame: "apply_event R ev e = Inr e' \<Longrightarrow> cat e' = cat e"
  by (cases "ev_action ev") (auto simp: apply_event_def res_simps dest: inject_fault_frame set_load_frame
      set_speed_frame reset_asset_frame)

lemma engine_step_frame: "engine_step R e e' \<Longrightarrow> cat e' = cat e"
  by (induction rule: engine_step.induct)
    (auto simp: machine_tick_def shift_change_def scenario_event_def Let_def split: option.splits prod.splits sum.splits
      dest: inject_fault_frame set_load_frame set_speed_frame reset_asset_frame apply_event_frame)


text \<open>A sensor the array has, a mode or a component the machine has.\<close>

lemma sensor_index_Some: "k \<in> set (sa_metrics sa) \<Longrightarrow> sensor_index sa k \<noteq> None"
  by (auto simp: sensor_index_def map_of_eq_None_iff set_zip in_set_conv_nth image_iff)

lemma component_for_mode_Some:
  assumes "machine_ok m" and "c \<in> set (specs_of (components m))" and "c_failure_mode c = Some mode"
  shows "inject R (fm_code mode) md sev m \<noteq> None"
proof -
  obtain k x where x: "(k, x) \<in> set (components m)" "comp_spec x = c" using assms(2) by (auto simp: specs_of_def)
  then have "case (k, x) of (code, c) \<Rightarrow> (case c_failure_mode (comp_spec c) of None \<Rightarrow> False | Some md \<Rightarrow> fm_code md = fm_code mode)"
    using assms(3) by simp
  with x(1) have "component_for_mode m (fm_code mode) \<noteq> None"
    unfolding component_for_mode_def find_None_iff by blast
  then obtain k' y where y: "component_for_mode m (fm_code mode) = Some (k', y)" by force
  have "comps_ok (components m)" using assms(1) by (simp add: machine_ok_def wear_ok_def)
  from component_for_mode_in [OF this y] have "comp_process y \<noteq> None" by (auto simp: comp_ok_def)
  then show ?thesis using y by (auto simp: inject_def Let_def split: prod.splits)
qed

lemma reset_Some:
  assumes "machine_ok m" and "\<forall>k. cc = Some k \<longrightarrow> k \<in> set (map c_code (specs_of (components m)))"
  shows "reset R cc m \<noteq> None"
proof -
  have "map c_code (specs_of cs) = map fst cs" if "\<forall>(code, c) \<in> set cs. c_code (comp_spec c) = code" for cs
    using that by (auto simp: specs_of_def)
  moreover have "\<forall>(code, c) \<in> set (components m). c_code (comp_spec c) = code"
    using assms(1) by (auto simp: machine_ok_def wear_ok_def comps_ok_def)
  ultimately show ?thesis using assms(2) by (cases cc) (auto simp: reset_def Let_def)
qed

text \<open>
  A scenario event that passed the catalog's validation is applied by the engine in every
  reachable state, never rejected, provided its duration is positive and its component code is not the
  empty string (the catalog checks neither) and no failure mode carries the name of a sensor fault.
\<close>

theorem validated_event_applies:
  assumes "catalog_ok (cat e)" and "engine_ok e" and "scenario_event_ok ev" and "validate_event (cat e) ev"
    and "\<forall>d. ev_duration_s ev = Some d \<longrightarrow> 0 < d" and "ev_component_code ev \<noteq> Some []"
    and "ev_action ev = Inject_Fault \<longrightarrow> the (ev_failure_mode ev) \<notin> set SENSOR_FAULT_KINDS"
  shows "\<exists>e'. apply_event R ev e = Inr e' \<and> engine_ok e'"
proof -
  obtain t specs where t: "type_of (cat e) (ev_asset ev) = Some t" "sensor_specs (cat e) (ev_asset ev) = Some specs"
    using assms(4) by (auto simp: validate_event_def split: option.splits)
  then obtain a where a: "asset (cat e) (ev_asset ev) = Some a" by (auto simp: type_of_def bind_eq_Some_conv)
  then have "ev_asset ev \<in> set (map fst (machines e))"
    using asset_Some [OF assms(1)] assms(2) by (simp add: engine_ok_def fleet_ok_def)
  then obtain m where "map_of (machines e) (ev_asset ev) = Some m" by (auto simp: map_of_eq_None_iff dest: weak_map_of_SomeI)
  then have g: "get_machine e (ev_asset ev) = Inr m" by (simp add: get_machine_def)
  from get_machine_ok [OF assms(2) g] t a
  have m: "machine_ok m" "identity_of m = (a, t_components t, map fst specs)" by (auto simp: matches_def)
  note v = assms(3,4) [unfolded scenario_event_ok_def validate_event_def]
  have dur: "\<not> (case ev_duration_s ev of None \<Rightarrow> False | Some d \<Rightarrow> d \<le> 0)" using assms(5) by (auto split: option.splits)
  have "\<exists>e'. apply_event R ev e = Inr e'"
  proof (cases "ev_action ev")
    case Inject_Fault
    then obtain c mode where mode: "(c, mode) \<in> set (failure_modes t)" "ev_failure_mode ev = Some (fm_code mode)"
      using v t by auto
    then have "c \<in> set (specs_of (components m))" "c_failure_mode c = Some mode"
      using m(2) by (auto simp: failure_modes_def identity_of_def map_filter_def)
    from component_for_mode_Some [OF m(1) this] obtain m' evs
      where "inject R (fm_code mode) (ev_mode ev) (ev_severity ev) m = Some (m', evs)" by force
    then show ?thesis using Inject_Fault g v dur assms(7) mode(2) by (simp add: apply_event_def inject_fault_def)
  next
    case Sensor_Fault
    then obtain fm k where k: "ev_failure_mode ev = Some fm" "fm \<in> set SENSOR_FAULT_KINDS"
      "ev_metric ev = Some k" "k \<in> set (map fst specs)" using v t by auto
    then have "k \<in> set (sa_metrics (sensors m))" using m(2) by (simp add: identity_of_def)
    from sensor_index_Some [OF this] obtain i where "sensor_index (sensors m) k = Some i" by blast
    then show ?thesis using Sensor_Fault g v dur k by (simp add: apply_event_def inject_fault_def inject_sensor_def)
  next
    case Set_Load
    then show ?thesis using g v by (auto simp: apply_event_def set_load_def in_field_def)
  next
    case Set_Speed
    then show ?thesis using g v by (auto simp: apply_event_def set_speed_def in_field_def)
  next
    case Reset
    have "\<forall>k. ev_component_code ev = Some k \<longrightarrow> k \<in> set (map c_code (specs_of (components m)))"
      using v t assms(6) m(2) by (auto simp: identity_of_def)
    from reset_Some [OF m(1) this] obtain m' codes where "reset R (ev_component_code ev) m = Some (m', codes)" by force
    then show ?thesis using Reset g by (simp add: apply_event_def reset_asset_def)
  qed
  then show ?thesis using apply_event_ok [OF assms(2)] by blast
qed

section \<open>Witnesses\<close>

definition demo_catalog :: catalog where
  "demo_catalog = \<lparr>fleet = \<lparr>f_timezone = ''Asia/Kolkata'', f_ambient_c = 30, f_maintenance_duration_s = 1800,
       f_working_days = [0, 1, 2, 3, 4, 5],
       f_shifts = [\<lparr>sh_code = ''A'', sh_name = ''Morning'', sh_start = 0, sh_end = 100\<rparr>],
       f_lines = [\<lparr>l_code = ''line-01'', l_name = ''Line'', l_sequence = 1, l_plan = [(''A'', 90)],
         l_assets = [demo_asset]\<rparr>]\<rparr>,
     types = [(Conveyor, demo_type)], scenarios = []\<rparr>"

definition demo_event :: scenario_event where
  "demo_event = \<lparr>ev_at_h = 2, ev_action = Inject_Fault, ev_asset = ''conveyor-01'',
     ev_failure_mode = Some ''bearing_wear'', ev_mode = Sudden, ev_severity = 1/2, ev_metric = None,
     ev_duration_s = None, ev_load_pct = None, ev_speed_pct = None, ev_component_code = None\<rparr>"

lemma demo_catalog_assets: "assets demo_catalog = [demo_asset]"
  by (simp add: demo_catalog_def assets_def)

lemma demo_sensor_specs: "type_sensor_specs demo_type demo_asset
    = [(''power_kw'', None, power_sensor demo_type demo_asset), (''load_pct'', None, load_sensor demo_type)]"
  by (simp add: type_sensor_specs_def component_sensors_def demo_type_def demo_component_def dict_of_def)

lemma demo_catalog_ok: "catalog_ok demo_catalog"
proof -
  have "0 \<le> round1 (5 * (3 / 2))" by (simp add: round1_def round_dec_nonneg)
  then have "sensor_specs_ok (type_sensor_specs demo_type demo_asset)"
    unfolding demo_sensor_specs by (simp add: sensor_specs_ok_def power_sensor_def load_sensor_def demo_asset_def)
  moreover have "list_all component_spec_ok (t_components demo_type)" "distinct (map c_code (t_components demo_type))"
    using demo_component_ok by (simp_all add: demo_type_def) (simp add: demo_component_def)
  moreover have "map_of (types demo_catalog) (a_type demo_asset) = Some demo_type"
    by (simp add: demo_catalog_def demo_asset_def)
  moreover have "0 < a_ideal_cycle_time_s demo_asset" by (simp add: demo_asset_def)
  ultimately show ?thesis by (simp add: catalog_ok_def demo_catalog_assets asset_ok_def)
qed


lemma validated_event_applies_witness:
  "\<exists>e0 e'. new_engine demo_rng demo_catalog [()] 1 None = Inr e0 \<and> apply_event demo_rng demo_event e0 = Inr e'"
proof -
  have "length [()] = length (assets demo_catalog)" by (simp add: demo_catalog_assets)
  from new_engine_ok [OF demo_rng_ok demo_catalog_ok this, of 1 None] obtain e0
    where e0: "new_engine demo_rng demo_catalog [()] 1 None = Inr e0" "engine_ok e0" "cat e0 = demo_catalog" by blast
  have a: "asset demo_catalog ''conveyor-01'' = Some demo_asset"
    using asset_lookup [OF demo_catalog_ok, of demo_asset] by (simp add: demo_catalog_assets demo_asset_def)
  have t: "map_of (types demo_catalog) (a_type demo_asset) = Some demo_type" by (simp add: demo_catalog_def demo_asset_def)
  have "validate_event demo_catalog demo_event"
    using a t by (simp add: validate_event_def type_of_def sensor_specs_def demo_event_def)
      (simp add: failure_modes_def map_filter_def demo_type_def demo_component_def demo_mode_def)
  moreover have "scenario_event_ok demo_event"
    by (simp add: scenario_event_ok_def demo_event_def in_field_def is_code_def is_digit_def)
  ultimately show ?thesis
    using validated_event_applies [of e0 demo_event demo_rng] e0 demo_catalog_ok
    by (auto simp: demo_event_def SENSOR_FAULT_KINDS_def)
qed

end
