(* ===== verification/Sim_Commands.thy ===== *)
theory Sim_Commands
  imports Sim_Engine
begin

text \<open>
  Twin write-back commands and the live runtime: \<open>sim/commands.py\<close>, the engine-owning part of
  \<open>sim/live.py\<close> and the message handler of \<open>CommandChannel\<close> in \<open>sim/publisher.py\<close>.

  A payload is what \<open>json.loads\<close> returns (\<^term>\<open>None\<close> when it raises \<open>JSONDecodeError\<close> or
  \<open>UnicodeDecodeError\<close>); a number that is NaN or infinite is \<^term>\<open>J_Non_Finite\<close>. An exception that
  \<open>handle_command\<close> does not catch makes its result \<^term>\<open>None\<close>. The lock serialises the handlers, so
  each is one step. The generators numpy spawns from a seed are an argument.
\<close>

section \<open>Parsing\<close>

fun truthy :: "json \<Rightarrow> bool" where
  "truthy J_Null = False"
| "truthy (J_Bool b) = b"
| "truthy (J_Int i) = (i \<noteq> 0)"
| "truthy (J_Float x) = (x \<noteq> 0)"
| "truthy J_Non_Finite = True"
| "truthy (J_Str s) = (s \<noteq> [])"
| "truthy (J_List xs) = (xs \<noteq> [])"
| "truthy (J_Obj d) = (d \<noteq> [])"

definition get_key :: "string \<Rightarrow> (string \<times> json) list \<Rightarrow> json" where
  "get_key k d = (case map_of d k of None \<Rightarrow> J_Null | Some v \<Rightarrow> v)"

text \<open>Exceptions inside a command: the two that are caught, and \<open>OverflowError\<close>, which is not.\<close>

datatype command_error = Caught request_error | Overflow_Error

definition reject :: "invalid_request \<Rightarrow> command_error + 'a" where
  "reject r = Inl (Caught (Invalid_Request r))"

definition lift_error :: "request_error + 'a \<Rightarrow> command_error + 'a" where
  "lift_error r = (case r of Inl e \<Rightarrow> Inl (Caught e) | Inr x \<Rightarrow> Inr x)"

text \<open>\<open>float(i)\<close> of an unbounded integer raises from halfway past the largest double on.\<close>

definition DOUBLE_LIMIT :: int where
  "DOUBLE_LIMIT = 2 ^ 1024 - 2 ^ 970"

definition float_of_int :: "int \<Rightarrow> command_error + real option" where
  "float_of_int i = (if DOUBLE_LIMIT \<le> \<bar>i\<bar> then Inl Overflow_Error else Inr (Some (of_int i)))"

definition number :: "(string \<times> json) list \<Rightarrow> string \<Rightarrow> command_error + real option" where
  "number params key = (case get_key key params of
       J_Int i \<Rightarrow> float_of_int i
     | J_Float x \<Rightarrow> Inr (Some x)
     | J_Non_Finite \<Rightarrow> Inr None
     | _ \<Rightarrow> reject (Number_Expected key))"

definition parse :: "json option \<Rightarrow> command_error + (string \<times> json) list" where
  "parse payload = (case payload of
       None \<Rightarrow> reject Not_Valid_Json
     | Some (J_Obj d) \<Rightarrow> Inr d
     | Some _ \<Rightarrow> reject Not_An_Object)"

section \<open>Commands\<close>

record ack =
  ack_command_id :: json
  ack_command :: string
  ack_status :: string
  ack_error :: "request_error option"

text \<open>A setpoint that is not finite fails both range comparisons.\<close>

definition run_setpoint ::
  "invalid_request \<Rightarrow> (real \<Rightarrow> 'g engine \<Rightarrow> request_error + 'g engine) \<Rightarrow> real option \<Rightarrow> 'g engine \<Rightarrow> command_error + 'g engine" where
  "run_setpoint out_of_range op x e = (case x of None \<Rightarrow> reject out_of_range | Some v \<Rightarrow> lift_error (op v e))"

definition execute ::
  "'g rng \<Rightarrow> string \<Rightarrow> string \<Rightarrow> (string \<times> json) list \<Rightarrow> 'g engine \<Rightarrow> command_error + 'g engine" where
  "execute R a command params e =
     rbind (lift_error (get_machine e a)) (\<lambda>_.
       if command = ''set_load'' then
         rbind (number params ''load_pct'') (\<lambda>x. run_setpoint Load_Range (set_load a) x e)
       else if command = ''set_speed'' then
         rbind (number params ''speed_pct'') (\<lambda>x. run_setpoint Speed_Range (set_speed a) x e)
       else if command = ''maintenance_reset'' then
         (case get_key ''component_code'' params of
            J_Null \<Rightarrow> rbind (lift_error (reset_asset R a None e)) (\<lambda>(e', codes). Inr e')
          | J_Str s \<Rightarrow> rbind (lift_error (reset_asset R a (Some s) e)) (\<lambda>(e', codes). Inr e')
          | _ \<Rightarrow> reject Component_Not_String)
       else reject (Unknown_Command command))"

definition checked_params :: "(string \<times> json) list \<Rightarrow> command_error + (string \<times> json) list" where
  "checked_params d =
     (case get_key ''command_id'' d of
        J_Str s \<Rightarrow> if s = [] then reject Command_Id_Required
                   else (let p = get_key ''params'' d
                         in if \<not> truthy p then Inr []
                            else (case p of J_Obj q \<Rightarrow> Inr q | _ \<Rightarrow> reject Params_Not_Object))
      | _ \<Rightarrow> reject Command_Id_Required)"

definition finish ::
  "string \<Rightarrow> string \<Rightarrow> json \<Rightarrow> json \<Rightarrow> request_error option \<Rightarrow> 'g engine \<Rightarrow> ack \<times> 'g engine" where
  "finish a command cid issued err e =
     (\<lparr>ack_command_id = cid, ack_command = command,
       ack_status = (if err = None then ''accepted'' else ''rejected''), ack_error = err\<rparr>,
      record_log (if err = None then Info else Warning) (Command_Logged command issued err)
        (if map_of (machines e) a = None then None else Some a) e)"

definition handle_command ::
  "'g rng \<Rightarrow> string \<Rightarrow> string \<Rightarrow> json option \<Rightarrow> 'g engine \<Rightarrow> (ack \<times> 'g engine) option" where
  "handle_command R a command payload e = (case parse payload of
       Inl Overflow_Error \<Rightarrow> None
     | Inl (Caught err) \<Rightarrow> Some (finish a command J_Null J_Null (Some err) e)
     | Inr d \<Rightarrow>
         (let cid = get_key ''command_id'' d; issued = get_key ''issued_by'' d
          in case rbind (checked_params d) (\<lambda>params. execute R a command params e) of
               Inl Overflow_Error \<Rightarrow> None
             | Inl (Caught err) \<Rightarrow> Some (finish a command cid issued (Some err) e)
             | Inr e' \<Rightarrow> Some (finish a command cid issued None e')))"

text \<open>\<open>CommandChannel._on_message\<close>: the topic names the asset and the command; the ack topic follows.\<close>

definition ack_topic :: "string \<Rightarrow> string" where
  "ack_topic a = ''twinvoice/ack/'' @ a"

definition on_message ::
  "'g rng \<Rightarrow> string \<Rightarrow> json option \<Rightarrow> 'g engine \<Rightarrow> ((string \<times> ack) option \<times> 'g engine) option" where
  "on_message R topic payload e = (case split_on (CHR ''/'') topic of
       [w, x, a, command] \<Rightarrow>
         map_option (\<lambda>(ack, e'). (Some (ack_topic a, ack), e')) (handle_command R a command payload e)
     | _ \<Rightarrow> Some (None, e))"

section \<open>Live runtime\<close>

definition MIN_TIME_SCALE :: real where "MIN_TIME_SCALE = 1"

definition MAX_TIME_SCALE :: real where "MAX_TIME_SCALE = 1000"

record 'g runtime =
  rt_catalog :: catalog
  rt_seed :: int
  rt_time_scale :: real
  rt_engine :: "'g engine"
  rt_scenario :: "(string \<times> string) option"

definition checked_scale :: "real \<Rightarrow> request_error + real" where
  "checked_scale x = (if MIN_TIME_SCALE \<le> x \<and> x \<le> MAX_TIME_SCALE then Inr x else Inl (Invalid_Request Time_Scale_Range))"

definition set_time_scale :: "real \<Rightarrow> 'g runtime \<Rightarrow> request_error + real \<times> 'g runtime" where
  "set_time_scale x rt = rbind (checked_scale x) (\<lambda>f.
     Inr (f, rt\<lparr>rt_time_scale := f,
       rt_engine := record_log Info (Time_Scale_Set f) None ((rt_engine rt)\<lparr>tick_s := f\<rparr>)\<rparr>))"

text \<open>\<open>start_scenario\<close>: \<^term>\<open>None\<close> for an unknown code. \<open>spawn\<close> gives the generators of a seed.\<close>

definition start_scenario ::
  "'g rng \<Rightarrow> (int \<Rightarrow> nat \<Rightarrow> 'g list) \<Rightarrow> shift_spec option \<Rightarrow> string \<Rightarrow> string \<Rightarrow> 'g runtime \<Rightarrow> (build_error + 'g runtime) option" where
  "start_scenario R spawn first_shift started code rt = (case map_of (scenarios (rt_catalog rt)) code of
       None \<Rightarrow> None
     | Some sc \<Rightarrow> Some (rbind
         (new_engine R (rt_catalog rt) (spawn (sc_seed sc) (length (assets (rt_catalog rt)))) (sc_time_scale sc) first_shift)
         (\<lambda>e. Inr (rt\<lparr>rt_engine := record_log Info (Scenario_Started code (sc_seed sc) (sc_time_scale sc)) None e,
            rt_seed := sc_seed sc, rt_time_scale := sc_time_scale sc, rt_scenario := Some (code, started)\<rparr>))))"

section \<open>Properties\<close>

lemma set_load_errors: "set_load a x e = Inl err \<Longrightarrow> get_machine e a = Inr m \<Longrightarrow> err = Invalid_Request Load_Range"
  by (auto simp: set_load_def split: if_splits)

text \<open>Integers a command may carry without overflowing \<open>float\<close>.\<close>

definition float_safe :: "json option \<Rightarrow> bool" where
  "float_safe payload = (case payload of
       Some (J_Obj d) \<Rightarrow> (case get_key ''params'' d of
           J_Obj q \<Rightarrow> (\<forall>k \<in> {''load_pct'', ''speed_pct''}. \<forall>i. get_key k q = J_Int i \<longrightarrow> \<bar>i\<bar> < DOUBLE_LIMIT)
         | _ \<Rightarrow> True)
     | _ \<Rightarrow> True)"

lemma number_overflow: "number q k = Inl Overflow_Error \<longleftrightarrow> (\<exists>i. get_key k q = J_Int i \<and> DOUBLE_LIMIT \<le> \<bar>i\<bar>)"
  by (auto simp: number_def reject_def float_of_int_def split: json.splits)

lemma lift_error_simps [simp]:
  "lift_error r = Inl (Caught err) \<longleftrightarrow> r = Inl err" "lift_error r \<noteq> Inl Overflow_Error" "lift_error r = Inr x \<longleftrightarrow> r = Inr x"
  by (auto simp: lift_error_def split: sum.splits)

lemma execute_overflow:
  assumes "execute R a command params e = Inl Overflow_Error"
  shows "\<exists>k \<in> {''load_pct'', ''speed_pct''}. number params k = Inl Overflow_Error"
  using assms
  by (auto simp: execute_def res_simps run_setpoint_def reject_def split: if_splits option.splits json.splits prod.splits)

lemma execute_steps:
  assumes "execute R a command params e = Inr e'"
  shows "engine_step R e e' \<and> map_of (machines e) a \<noteq> None"
proof
  show "engine_step R e e'"
    using assms
    by (auto simp: execute_def res_simps run_setpoint_def reject_def split: if_splits option.splits json.splits prod.splits
        intro: do_load do_speed do_reset)
  show "map_of (machines e) a \<noteq> None"
    using assms by (auto simp: execute_def res_simps get_machine_def split: option.splits)
qed

text \<open>What a handler returns for a sound fleet: the acknowledgement, and what became of the fleet.\<close>

definition answered_well :: "'g rng \<Rightarrow> string \<Rightarrow> string \<Rightarrow> 'g engine \<Rightarrow> ack \<times> 'g engine \<Rightarrow> bool" where
  "answered_well R a command e r \<longleftrightarrow> (case r of (ack, e') \<Rightarrow> ack_command ack = command
    \<and> (ack_status ack = ''accepted'' \<longleftrightarrow> ack_error ack = None)
    \<and> (ack_error ack \<noteq> None \<longrightarrow> ack_status ack = ''rejected'' \<and> machines e' = machines e)
    \<and> (ack_error ack = None \<longrightarrow> (\<exists>e1. engine_step R e e1 \<and> machines e' = machines e1) \<and> map_of (machines e) a \<noteq> None)
    \<and> engine_ok e' \<and> oplog e' \<noteq> [] \<and> (\<exists>issued. le_message (last (oplog e')) = Command_Logged command issued (ack_error ack)))"

lemma record_log_last [simp]:
  "oplog (record_log lvl msg k x) \<noteq> []" "le_message (last (oplog (record_log lvl msg k x))) = msg"
  by (simp_all add: record_log_def last_deque_append LOG_SIZE_def) (simp add: deque_append_def Let_def)

lemma record_log_machines [simp]: "machines (record_log lvl msg k e) = machines e"
  by (simp add: record_log_def)

lemma finish_rejected: "engine_ok e \<Longrightarrow> answered_well R a command e (finish a command cid issued (Some err) e)"
  by (simp add: finish_def answered_well_def record_log_ok)

lemma finish_accepted:
  assumes "rng_ok R" and "engine_ok e" and "execute R a command params e = Inr e1"
  shows "answered_well R a command e (finish a command cid issued None e1)"
proof -
  from execute_steps [OF assms(3)] have st: "engine_step R e e1" "map_of (machines e) a \<noteq> None" by auto
  have "engine_ok e1" by (rule engine_step_ok [OF assms(1) st(1) assms(2)])
  then show ?thesis using st by (auto simp: finish_def answered_well_def record_log_ok)
qed

lemma no_overflow:
  assumes "float_safe (Some (J_Obj d))"
  shows "rbind (checked_params d) (\<lambda>params. execute R a command params e) \<noteq> Inl Overflow_Error"
proof
  assume ov: "rbind (checked_params d) (\<lambda>params. execute R a command params e) = Inl Overflow_Error"
  have "checked_params d \<noteq> Inl Overflow_Error" by (auto simp: checked_params_def reject_def Let_def split: json.splits)
  with ov obtain q where q: "checked_params d = Inr q" "execute R a command q e = Inl Overflow_Error"
    by (auto simp: res_simps)
  from execute_overflow [OF q(2)] obtain k i where k: "k \<in> {''load_pct'', ''speed_pct''}" "get_key k q = J_Int i"
    "DOUBLE_LIMIT \<le> \<bar>i\<bar>" by (auto simp: number_overflow)
  then have "q \<noteq> []" by (auto simp: get_key_def)
  then have "get_key ''params'' d = J_Obj q"
    using q(1) by (auto simp: checked_params_def reject_def Let_def split: json.splits if_splits)
  with assms k show False by (auto simp: float_safe_def)
qed

lemma handle_command_answers:
  assumes "rng_ok R" and "engine_ok e" and "float_safe payload"
  shows "\<exists>r. handle_command R a command payload e = Some r \<and> answered_well R a command e r"
proof (cases "parse payload")
  case (Inl err)
  then obtain r where "err = Caught r" by (auto simp: parse_def reject_def split: option.splits json.splits)
  with Inl finish_rejected [OF assms(2)] show ?thesis by (auto simp: handle_command_def)
next
  case (Inr d)
  then have payload: "payload = Some (J_Obj d)" by (auto simp: parse_def reject_def split: option.splits json.splits)
  define res where "res = rbind (checked_params d) (\<lambda>params. execute R a command params e)"
  have "res \<noteq> Inl Overflow_Error" using no_overflow assms(3) by (simp add: res_def payload)
  then consider err where "res = Inl (Caught err)" | e1 where "res = Inr e1" by (cases res) (auto, metis command_error.exhaust)
  then show ?thesis
  proof cases
    case 1
    with Inr finish_rejected [OF assms(2)] show ?thesis by (auto simp: handle_command_def res_def [symmetric] Let_def)
  next
    case 2
    then obtain q where "execute R a command q e = Inr e1" by (auto simp: res_def res_simps)
    with 2 Inr finish_accepted [OF assms(1,2)] show ?thesis by (auto simp: handle_command_def res_def [symmetric] Let_def)
  qed
qed

text \<open>
  Property C23. Every command is answered: unless an integer setpoint is too large for a float, the
  handler returns an acknowledgement for the command it was given, accepted exactly when there is no
  error. A rejected command leaves the fleet untouched, an accepted one is a single operation on a known
  asset, the fleet stays sound, and the last log entry records the command and its outcome.
\<close>

theorem command_acknowledged:
  assumes "rng_ok R" and "engine_ok e" and "float_safe payload"
  shows "\<exists>ack e' e1. handle_command R a command payload e = Some (ack, e') \<and> ack_command ack = command
    \<and> (ack_status ack = ''accepted'' \<longleftrightarrow> ack_error ack = None)
    \<and> (ack_error ack \<noteq> None \<longrightarrow> ack_status ack = ''rejected'' \<and> machines e' = machines e)
    \<and> (ack_error ack = None \<longrightarrow> engine_step R e e1 \<and> machines e' = machines e1 \<and> map_of (machines e) a \<noteq> None)
    \<and> engine_ok e' \<and> oplog e' \<noteq> [] \<and> (\<exists>issued. le_message (last (oplog e')) = Command_Logged command issued (ack_error ack))"
proof -
  obtain ack e' where h: "handle_command R a command payload e = Some (ack, e')" and w: "answered_well R a command e (ack, e')"
    using handle_command_answers [OF assms, of a command] by force
  then obtain e1 where "ack_error ack = None \<longrightarrow> engine_step R e e1 \<and> machines e' = machines e1 \<and> map_of (machines e) a \<noteq> None"
    by (auto simp: answered_well_def)
  with h w show ?thesis by (intro exI [of _ ack] exI [of _ e'] exI [of _ e1]) (simp add: answered_well_def)
qed

text \<open>
  The exception is real: a JSON integer beyond the range of a double is accepted by \<open>_number\<close>'s type
  check, and \<open>float\<close> raises \<open>OverflowError\<close>, which \<open>handle_command\<close> does not catch; no ack is sent.
\<close>

lemma oversized_integer_escapes:
  assumes "get_machine e a = Inr m"
  shows "handle_command R a ''set_load''
    (Some (J_Obj [(''command_id'', J_Str ''c1''), (''params'', J_Obj [(''load_pct'', J_Int (2 ^ 1024))])])) e = None"
  using assms
  by (simp add: handle_command_def parse_def checked_params_def get_key_def execute_def number_def float_of_int_def
      DOUBLE_LIMIT_def lift_error_def)

lemma command_acknowledged_witness:
  "\<exists>e0 ack e'. new_engine demo_rng demo_catalog [()] 1 None = Inr e0
    \<and> handle_command demo_rng ''conveyor-01'' ''set_load''
        (Some (J_Obj [(''command_id'', J_Str ''c1''), (''params'', J_Obj [(''load_pct'', J_Int 80)])])) e0 = Some (ack, e')
    \<and> ack_command ack = ''set_load'' \<and> engine_ok e'"
proof -
  have "length [()] = length (assets demo_catalog)" by (simp add: demo_catalog_assets)
  from new_engine_ok [OF demo_rng_ok demo_catalog_ok this, of 1 None] obtain e0
    where e0: "new_engine demo_rng demo_catalog [()] 1 None = Inr e0" "engine_ok e0" by blast
  let ?p = "Some (J_Obj [(''command_id'', J_Str ''c1''), (''params'', J_Obj [(''load_pct'', J_Int 80)])])"
  have "float_safe ?p" by (simp add: float_safe_def get_key_def DOUBLE_LIMIT_def)
  from command_acknowledged [OF demo_rng_ok e0(2) this, of "''conveyor-01''" "''set_load''"] e0(1) show ?thesis by blast
qed

end
