(* ===== verification/Sim_Modbus.thy ===== *)
theory Sim_Modbus
  imports Sim_Operation "HOL-Library.Word"
begin

text \<open>
  The Modbus mirror, \<open>apps/simulator/sim/modbus_server.py\<close>: one image of 16-bit holding registers per
  asset, laid out by \<open>Catalog.modbus_registers\<close>. The IEEE-754 single that \<open>struct.pack\<close> makes of a value
  (NaN for a missing one) is an argument, \<open>bits\<close>; the library serves the image unchanged.
\<close>

unbundle bit_operations_syntax

section \<open>Register map\<close>

lemma foldl_put_fresh:
  assumes "distinct ks" and "set ks \<inter> set (map fst d) = {}"
  shows "foldl (\<lambda>d (i, m). dict_put m (f i) d) d (enumerate n ks) = d @ map (\<lambda>(i, m). (m, f i)) (enumerate n ks)"
  using assms
proof (induction ks arbitrary: d n)
  case Nil
  then show ?case by simp
next
  case (Cons k ks)
  then have "dict_put k (f n) d = d @ [(k, f n)]" by (intro dict_put_fresh) auto
  with Cons show ?case by simp
qed

definition reserved :: "string list" where
  "reserved = [''state'', ''good_count'', ''reject_count'']"

lemma registers_of_eq:
  assumes "distinct ms" and "set ms \<inter> set reserved = {}"
  shows "registers_of ms = [(''state'', 0), (''good_count'', 2), (''reject_count'', 4)]
    @ map (\<lambda>(i, m). (m, 10 + 2 * i)) (enumerate 0 ms)"
  using foldl_put_fresh [OF assms(1), of "[(''state'', 0), (''good_count'', 2), (''reject_count'', 4)]" "\<lambda>i. 10 + 2 * i" 0] assms(2)
  by (simp add: registers_of_def MODBUS_STATE_REGISTER_def MODBUS_GOOD_REGISTER_def MODBUS_REJECT_REGISTER_def
      MODBUS_METRIC_BASE_def reserved_def)

text \<open>Metric names have a dot, or are one of the two added ones; none is reserved.\<close>

lemma component_metric_dot: "m \<in> set (map fst (component_sensors t)) \<Longrightarrow> CHR ''.'' \<in> set m"
  by (auto simp: component_sensors_def metric_name_def)

lemma dict_put_keys_set: "set (map fst (dict_put k v d)) = insert k (set (map fst d))"
  by (simp add: dom_update)

lemma dict_of_keys_set: "set (map fst (foldl (\<lambda>d (k, v). dict_put k v d) d ps)) = set (map fst d) \<union> set (map fst ps)"
proof (induction ps arbitrary: d)
  case Nil
  then show ?case by simp
next
  case (Cons p ps)
  then show ?case by (cases p) (simp add: dom_update)
qed

lemma type_metrics:
  "distinct (map fst (type_sensor_specs t a))" "set (map fst (type_sensor_specs t a)) \<inter> set reserved = {}"
proof -
  have "dict_ok (type_sensor_specs t a)" by (simp add: type_sensor_specs_def)
  then show "distinct (map fst (type_sensor_specs t a))" by (simp add: dict_ok_def)
  have "set (map fst (type_sensor_specs t a)) = {''load_pct'', ''power_kw''} \<union> set (map fst (component_sensors t))"
    using dict_of_keys_set [of "[]" "component_sensors t"]
    by (simp add: type_sensor_specs_def dict_of_def dom_update insert_commute)
  moreover have "x \<notin> set reserved" if "CHR ''.'' \<in> set x" for x using that by (auto simp: reserved_def)
  ultimately show "set (map fst (type_sensor_specs t a)) \<inter> set reserved = {}"
    using component_metric_dot by (fastforce simp: reserved_def)
qed

lemma modbus_registers_eq:
  assumes "modbus_registers c code = Some rs"
  obtains ms where "rs = [(''state'', 0), (''good_count'', 2), (''reject_count'', 4)]
      @ map (\<lambda>(i, m). (m, 10 + 2 * i)) (enumerate 0 ms)" and "distinct ms" and "set ms \<inter> set reserved = {}"
proof -
  obtain t a where "rs = registers_of (map fst (type_sensor_specs t a))"
    using assms by (auto simp: modbus_registers_def sensor_specs_def bind_eq_Some_conv)
  with type_metrics [of t a] show ?thesis by (intro that [of "map fst (type_sensor_specs t a)"]) (simp_all add: registers_of_eq)
qed

section \<open>Encoding\<close>

type_synonym image = "16 word list"

definition words_of :: "32 word \<Rightarrow> 16 word list" where
  "words_of x = [ucast (drop_bit 16 x), ucast x]"

definition uint32_words :: "int \<Rightarrow> 16 word list" where
  "uint32_words v = words_of (word_of_int v)"

definition float32_words :: "(real option \<Rightarrow> 32 word) \<Rightarrow> real option \<Rightarrow> 16 word list" where
  "float32_words bits v = words_of (bits v)"

text \<open>Writing two registers at an address, \<open>image[a : a + 2] = ws\<close>, inside the image.\<close>

definition put_words :: "image \<Rightarrow> nat \<Rightarrow> 16 word list \<Rightarrow> image" where
  "put_words im a ws = im[a := ws ! 0, Suc a := ws ! 1]"

definition state_code :: "string \<Rightarrow> 16 word" where
  "state_code s = (if s = ''RUNNING'' then 0 else if s = ''IDLE'' then 1 else if s = ''DOWN'' then 2
     else if s = ''MAINTENANCE'' then 3 else 4)"

definition value_text :: "metric_value option \<Rightarrow> string" where
  "value_text v = (case v of Some (Str_Value s) \<Rightarrow> s | _ \<Rightarrow> [])"

definition count_of :: "metric_value option \<Rightarrow> int" where
  "count_of v = (case v of Some (Int_Value i) \<Rightarrow> i | _ \<Rightarrow> 0)"

definition float_of :: "metric_value option \<Rightarrow> real option" where
  "float_of v = (case v of Some (Float_Value x) \<Rightarrow> x | Some (Int_Value i) \<Rightarrow> Some (of_int i) | _ \<Rightarrow> None)"

definition put_metric ::
  "(real option \<Rightarrow> 32 word) \<Rightarrow> (string \<times> metric_value) list \<Rightarrow> image \<Rightarrow> string \<times> nat \<Rightarrow> image" where
  "put_metric bits vs im reg = (case reg of (name, a) \<Rightarrow>
     if name \<in> set reserved then im else put_words im a (float32_words bits (float_of (map_of vs name))))"

definition encode ::
  "(real option \<Rightarrow> 32 word) \<Rightarrow> (string \<times> nat) list \<Rightarrow> (string \<times> metric_value) list \<Rightarrow> image \<Rightarrow> image" where
  "encode bits rs vs im =
     (let i1 = im[MODBUS_STATE_REGISTER := state_code (value_text (map_of vs ''state''))];
          i2 = put_words i1 MODBUS_GOOD_REGISTER (uint32_words (count_of (map_of vs ''good_count'')));
          i3 = put_words i2 MODBUS_REJECT_REGISTER (uint32_words (count_of (map_of vs ''reject_count'')))
      in foldl (put_metric bits vs) i3 rs)"

definition new_image :: "(string \<times> nat) list \<Rightarrow> image" where
  "new_image rs = (replicate (Max (set (map snd rs)) + 2) 0)[MODBUS_STATE_REGISTER := 4]"

text \<open>A client reads a 32-bit value from two registers, high word first.\<close>

definition read32 :: "image \<Rightarrow> nat \<Rightarrow> 32 word" where
  "read32 im a = push_bit 16 (ucast (im ! a)) OR ucast (im ! Suc a)"

lemma words_roundtrip: "push_bit 16 (ucast (words_of x ! 0)) OR ucast (words_of x ! 1) = (x :: 32 word)"
  by (rule bit_word_eqI) (auto simp: words_of_def bit_simps not_less)

lemma read32_put: "Suc a < length im \<Longrightarrow> read32 (put_words im a (words_of x)) a = x"
  using words_roundtrip by (simp add: read32_def put_words_def)

lemma read32_other:
  "a \<notin> {b, Suc b} \<Longrightarrow> Suc a \<notin> {b, Suc b} \<Longrightarrow> read32 (put_words im b ws) a = read32 im a"
  by (simp add: read32_def put_words_def)

lemma put_words_nth: "a \<notin> {b, Suc b} \<Longrightarrow> put_words im b ws ! a = im ! a"
  by (simp add: put_words_def)

lemma length_put [simp]: "length (put_words im a ws) = length im"
  by (simp add: put_words_def)

lemma length_put_metric [simp]: "length (put_metric bits vs im reg) = length im"
  by (simp add: put_metric_def split: prod.splits)

lemma length_fold [simp]: "length (foldl (put_metric bits vs) im rs) = length im"
  by (induction rs arbitrary: im) simp_all

text \<open>Registers two or more apart do not disturb each other.\<close>

definition apart :: "(string \<times> nat) list \<Rightarrow> bool" where
  "apart rs \<longleftrightarrow> sorted_wrt (\<lambda>(m, a) (k, b). a + 2 \<le> b) rs"

lemma fold_put_below:
  assumes "\<forall>(m, b) \<in> set rs. a + 2 \<le> b"
  shows "read32 (foldl (put_metric bits vs) im rs) a = read32 im a \<and> foldl (put_metric bits vs) im rs ! a = im ! a"
  using assms
proof (induction rs arbitrary: im)
  case Nil
  then show ?case by simp
next
  case (Cons r rs)
  obtain m b where r: "r = (m, b)" by force
  have "read32 (put_metric bits vs im r) a = read32 im a" "put_metric bits vs im r ! a = im ! a"
    using Cons.prems r by (auto simp: put_metric_def read32_other) (simp add: put_words_def)
  with Cons show ?case by auto
qed

lemma fold_put_read:
  assumes "apart rs" and "(m, a) \<in> set rs" and "m \<notin> set reserved" and "\<forall>(k, b) \<in> set rs. Suc b < length im"
  shows "read32 (foldl (put_metric bits vs) im rs) a = bits (float_of (map_of vs m))"
  using assms
proof (induction rs arbitrary: im)
  case Nil
  then show ?case by simp
next
  case (Cons r rs)
  show ?case
  proof (cases "(m, a) = r")
    case True
    have below: "\<forall>(k, b) \<in> set rs. a + 2 \<le> b" using Cons.prems(1) True by (auto simp: apart_def)
    have "Suc a < length im" using Cons.prems(4) True by auto
    then have "read32 (put_metric bits vs im r) a = bits (float_of (map_of vs m))"
      using Cons.prems(3) True [symmetric] by (simp add: put_metric_def float32_words_def read32_put)
    with fold_put_below [OF below] show ?thesis by simp
  next
    case False
    have "apart rs" using Cons.prems(1) by (simp add: apart_def)
    moreover have "(m, a) \<in> set rs" using Cons.prems(2) False by auto
    moreover have "\<forall>(k, b) \<in> set rs. Suc b < length (put_metric bits vs im r)" using Cons.prems(4) by auto
    ultimately show ?thesis using Cons.IH Cons.prems(3) by simp
  qed
qed

lemma apart_enumerate: "apart (map (\<lambda>(i, m). (m, 10 + 2 * i)) (enumerate n ms)) \<and>
    (\<forall>(m, b) \<in> set (map (\<lambda>(i, m). (m, 10 + 2 * i)) (enumerate n ms)). 10 + 2 * n \<le> b)"
proof (induction ms arbitrary: n)
  case Nil
  then show ?case by (simp add: apart_def)
next
  case (Cons m ms)
  from Cons.IH [of "Suc n"] show ?case by (force simp: apart_def)
qed

lemma registers_apart: "modbus_registers c code = Some rs \<Longrightarrow> apart rs"
proof -
  assume "modbus_registers c code = Some rs"
  then obtain ms where rs: "rs = [(''state'', 0), (''good_count'', 2), (''reject_count'', 4)]
      @ map (\<lambda>(i, m). (m, 10 + 2 * i)) (enumerate 0 ms)" by (rule modbus_registers_eq)
  show "apart rs" using apart_enumerate [of 0 ms] unfolding rs by (force simp: apart_def)
qed

text \<open>
  What a Modbus client reads is what the asset last published: after \<open>encode\<close>, every metric
  of the catalog's register map reads back, high word first, as the single-precision image of its own
  value (no two metrics share a register), the state register holds the state's code and the counters
  their 32-bit values, and nothing is written past the image.
\<close>

theorem modbus_mirror_faithful:
  assumes "modbus_registers c code = Some rs" and "length im = length (new_image rs)"
  shows "length (encode bits rs vs im) = length im
    \<and> encode bits rs vs im ! MODBUS_STATE_REGISTER = state_code (value_text (map_of vs ''state''))
    \<and> read32 (encode bits rs vs im) MODBUS_GOOD_REGISTER = word_of_int (count_of (map_of vs ''good_count''))
    \<and> read32 (encode bits rs vs im) MODBUS_REJECT_REGISTER = word_of_int (count_of (map_of vs ''reject_count''))
    \<and> (\<forall>(m, a) \<in> set rs. m \<notin> set reserved \<longrightarrow>
          read32 (encode bits rs vs im) a = bits (float_of (map_of vs m)))"
proof -
  obtain ms where rs: "rs = [(''state'', 0), (''good_count'', 2), (''reject_count'', 4)]
      @ map (\<lambda>(i, m). (m, 10 + 2 * i)) (enumerate 0 ms)" using assms(1) by (rule modbus_registers_eq)
  define metrics where "metrics = map (\<lambda>(i, m). (m, 10 + 2 * i)) (enumerate 0 ms)"
  note regs = MODBUS_STATE_REGISTER_def MODBUS_GOOD_REGISTER_def MODBUS_REJECT_REGISTER_def
  have low: "b + 2 \<le> a" if "(m, a) \<in> set metrics" "b \<le> 4" for m a b
    using apart_enumerate [of 0 ms] that by (force simp: metrics_def)
  have len: "Suc a < length im" if "(m, a) \<in> set rs" for m a
  proof -
    have "a \<in> set (map snd rs)" using that by force
    then have "a \<le> Max (set (map snd rs))" by simp
    moreover have "length (new_image rs) = Max (set (map snd rs)) + 2"
      unfolding new_image_def length_list_update length_replicate ..
    ultimately show ?thesis using assms(2) by simp
  qed
  have four: "Suc 4 < length im" using len [of "''reject_count''" 4] by (simp add: rs)
  then have zero: "0 < length im" by linarith
  define i3 where "i3 = put_words (put_words (im[0 := state_code (value_text (map_of vs ''state''))]) 2
      (uint32_words (count_of (map_of vs ''good_count'')))) 4 (uint32_words (count_of (map_of vs ''reject_count'')))"
  have skip: "foldl (put_metric bits vs) i3 [(''state'', 0), (''good_count'', 2), (''reject_count'', 4)] = i3"
    by (simp add: put_metric_def reserved_def)
  have enc: "encode bits rs vs im = foldl (put_metric bits vs) i3 metrics"
    unfolding encode_def Let_def regs i3_def [symmetric] rs metrics_def [symmetric] foldl_append skip ..
  have len3: "length i3 = length im" by (simp add: i3_def)
  have i3: "i3 ! 0 = state_code (value_text (map_of vs ''state''))"
    "read32 i3 2 = word_of_int (count_of (map_of vs ''good_count''))"
    "read32 i3 4 = word_of_int (count_of (map_of vs ''reject_count''))"
    using four zero by (simp_all add: i3_def uint32_words_def read32_put read32_other put_words_nth)
  have below: "\<forall>(m, b) \<in> set metrics. a + 2 \<le> b" if "a \<le> 4" for a using low that by auto
  have "read32 (encode bits rs vs im) a = bits (float_of (map_of vs m))"
    if m: "(m, a) \<in> set rs" "m \<notin> set reserved" for m a
  proof -
    have "(m, a) \<in> set metrics" using m by (auto simp: rs metrics_def reserved_def)
    moreover have "apart metrics" using apart_enumerate [of 0 ms] by (simp add: metrics_def)
    moreover have "set metrics \<subseteq> set rs" by (auto simp: rs metrics_def)
    then have "\<forall>(k, b) \<in> set metrics. Suc b < length i3" using len len3 by auto
    ultimately show ?thesis unfolding enc using m(2) by (intro fold_put_read)
  qed
  moreover have "length (encode bits rs vs im) = length im" by (simp add: enc len3)
  ultimately show ?thesis
    using fold_put_below [OF below [of 0]] fold_put_below [OF below [of 2]] fold_put_below [OF below [of 4]] i3
    by (auto simp: enc regs)
qed

definition demo_noise_free :: noise_params where
  "demo_noise_free = \<lparr>n_std = 0, n_drift = 0, n_spike_prob = 0, n_spike_scale = 0, n_dropout_prob = 0, n_jitter_ms = 0\<rparr>"

definition demo_plant :: catalog where
  "demo_plant = \<lparr>fleet = \<lparr>f_timezone = ''Asia/Kolkata'', f_ambient_c = 30, f_maintenance_duration_s = 1800,
       f_working_days = [0], f_shifts = [],
       f_lines = [\<lparr>l_code = ''l1'', l_name = ''Line'', l_sequence = 1, l_plan = [],
         l_assets = [\<lparr>a_code = ''c1'', a_name = ''Conveyor'', a_type = Conveyor, a_fidelity = 3,
           a_ideal_cycle_time_s = 10, a_rated_power_kw = 5\<rparr>]\<rparr>]\<rparr>,
     types = [(Conveyor, \<lparr>t_asset_type = Conveyor, t_idle_power_fraction = 1/10, t_eta_nominal = 9/10,
       t_power_factor_rated = 85/100, t_base_reject_rate = 0, t_params = [], t_power_noise = demo_noise_free,
       t_load_noise = demo_noise_free,
       t_components = [\<lparr>c_code = ''belt'', c_name = ''Belt'', c_type = Belt, c_health_weight = 1, c_bearing = None,
         c_process = None, c_failure_mode = None,
         c_sensors = [\<lparr>s_code = ''speed'', s_name = ''Belt speed'', s_unit = ''m/s'', s_kind = Speed, s_rate_hz = 1,
           s_min_valid = 0, s_max_valid = 2, s_warn_low = None, s_warn_high = None, s_alarm_low = None,
           s_alarm_high = None, s_noise = demo_noise_free\<rparr>]\<rparr>]\<rparr>)],
     scenarios = []\<rparr>"

lemma modbus_mirror_faithful_witness:
  "\<exists>rs. modbus_registers demo_plant ''c1'' = Some rs \<and> (''power_kw'', 12) \<in> set rs
    \<and> read32 (encode (\<lambda>v. case v of None \<Rightarrow> 0x7FC00000 | Some x \<Rightarrow> 0x3FC00000) rs
        [(''state'', Str_Value ''DOWN''), (''power_kw'', Float_Value (Some (3 / 2)))] (new_image rs)) 12 = 0x3FC00000"
proof -
  let ?rs = "registers_of [''belt.speed'', ''power_kw'', ''load_pct'']"
  have r: "modbus_registers demo_plant ''c1'' = Some ?rs"
    by (simp add: modbus_registers_def sensor_specs_def asset_def assets_by_code_def demo_plant_def dict_of_def
        type_sensor_specs_def component_sensors_def metric_name_def)
  moreover have m: "(''power_kw'', 12) \<in> set ?rs"
    by (subst registers_of_eq) (simp_all add: reserved_def)
  ultimately show ?thesis
    using modbus_mirror_faithful [OF r refl, of "\<lambda>v. case v of None \<Rightarrow> 0x7FC00000 | Some x \<Rightarrow> 0x3FC00000"
        "[(''state'', Str_Value ''DOWN''), (''power_kw'', Float_Value (Some (3 / 2)))]"]
    by (intro exI [of _ ?rs]) (force simp: reserved_def float_of_def)
qed

end
