(* ===== verification/Voice_Actions.thy ===== *)
theory Voice_Actions
  imports Twin_Prelude
begin

text \<open>
  VoiceNav, the part that writes: the \<open>voice_actions\<close> table, the risk tiers, and the confirmation
  protocol (\<open>apps/api/app/modules/voice/service.py\<close>, \<open>repository.py\<close>, \<open>models.py\<close>, and
  \<open>packages/nlu/src/twinvoice_nlu/tiers.py\<close>).

  A request runs on a database session: \<^term>\<open>work\<close> is what it has flushed, \<^term>\<open>committed\<close> what survives
  if it raises. A JSON value is a \<open>pval\<close>; a string is split by what it parses as, so that \<open>PIso t\<close> is
  the ISO form of the instant \<open>t\<close>, \<open>PId n\<close> the text of a UUID, and \<open>PStr\<close> any other string. Times are
  microseconds. The tools (\<open>tools.TOOLS\<close>), the identity provider and the other modules' tables are
  inputs; a tool's outcome says whether it returned, raised a \<open>ProblemError\<close>, or raised something else.
\<close>

section \<open>Values\<close>

datatype pval = PNull | PStr string | PIso int | PId nat | PTime int | PNum real | PBool bool

type_synonym params = "(string \<times> pval) list"

fun truthy :: "pval \<Rightarrow> bool" where
  "truthy PNull = False"
| "truthy (PStr s) = (s \<noteq> [])"
| "truthy (PNum x) = (x \<noteq> 0)"
| "truthy (PBool b) = b"
| "truthy _ = True"

definition pget :: "params \<Rightarrow> string \<Rightarrow> pval" where
  "pget d k = (case map_of d k of Some v \<Rightarrow> v | None \<Rightarrow> PNull)"

text \<open>\<open>x or y\<close>.\<close>

definition por :: "pval \<Rightarrow> pval \<Rightarrow> pval" where
  "por x y = (if truthy x then x else y)"

text \<open>The round trip through JSONB: an instant is written as its ISO string.\<close>

fun jsonable_val :: "pval \<Rightarrow> pval" where
  "jsonable_val (PTime t) = PIso t"
| "jsonable_val v = v"

definition jsonable :: "params \<Rightarrow> params" where
  "jsonable d = map (\<lambda>(k, v). (k, jsonable_val v)) d"

definition DATETIME_PARAMS :: "string list" where
  "DATETIME_PARAMS = [''when'', ''planned_start'', ''planned_end'', ''period_start'', ''period_end'']"

text \<open>\<open>revive_params\<close>: ISO strings become instants again, an unreadable string is dropped.\<close>

fun revive_params :: "params \<Rightarrow> params" where
  "revive_params [] = []"
| "revive_params ((k, v) # d) =
     (if k \<in> set DATETIME_PARAMS then
        (case v of PIso t \<Rightarrow> (k, PTime t) # revive_params d
         | PStr s \<Rightarrow> revive_params d
         | PId n \<Rightarrow> revive_params d
         | w \<Rightarrow> (k, w) # revive_params d)
      else (k, v) # revive_params d)"

section \<open>Risk tiers\<close>

definition CONFIRM_WINDOW :: int where
  "CONFIRM_WINDOW = 10 * 1000000"

definition needs_confirmation :: "string \<Rightarrow> bool" where
  "needs_confirmation tier \<longleftrightarrow> tier \<in> {''T2'', ''T3''}"

definition needs_second_factor :: "string \<Rightarrow> bool" where
  "needs_second_factor tier \<longleftrightarrow> tier = ''T3''"

section \<open>Tables\<close>

datatype action_status = Pending | Confirmed | Cancelled | Expired | Executed | Failed | Rejected

record voice_action =
  va_id :: nat
  va_turn :: nat
  va_tool :: string
  va_params :: params
  va_tier :: string
  va_readback :: string
  va_status :: action_status
  va_errors :: "(string \<times> string) list option"
  va_expires :: "int option"
  va_confirmed_at :: "int option"
  va_factor_ok :: "bool option"
  va_executed_at :: "int option"
  va_result :: "params option"
  va_error :: "string option"
  va_created :: int

datatype speech =
    Said string
  | Help string
  | NotUnderstood string
  | DidYouMean "string list" string
  | Composed string params string bool

record voice_turn =
  vt_id :: nat
  vt_session :: nat
  vt_at :: int
  vt_transcript :: string
  vt_intent :: string
  vt_tier :: "string option"
  vt_slots :: params
  vt_text :: "speech option"

record voice_session =
  vs_id :: nat
  vs_user :: string
  vs_channel :: string
  vs_lang :: string
  vs_ended :: "int option"
  vs_context :: params

record database =
  d_sessions :: "voice_session list"
  d_turns :: "voice_turn list"
  d_actions :: "voice_action list"
  d_audits :: "(nat \<times> string) list"
  d_users :: "string list"
  d_next :: nat

text \<open>
  What the other modules own: registry, alarms, technicians and their calendar. Lines and assets are
  listed with \<open>(id, code, name)\<close>, in the order the query returns them.
\<close>

record plant =
  p_assets :: "(nat \<times> string \<times> string) list"
  p_lines :: "(nat \<times> string \<times> string) list"
  p_live_asset :: "nat \<Rightarrow> bool"
  p_open_alarms :: "nat \<Rightarrow> (nat \<times> string) list"
  p_alarm_status :: "nat \<Rightarrow> string option"
  p_live_technician :: "nat \<Rightarrow> bool"
  p_calendar :: "nat \<Rightarrow> (string \<times> int \<times> int) list"

record actor =
  a_sub :: string
  a_roles :: "string list"

datatype exc = NotFound | Conflict string | Forbidden string | Unavailable | Crash

datatype tool_outcome = Done params | Problem string | Raised bool

text \<open>A tool invocation, kept outside the database so that no rollback forgets it.\<close>

datatype via = Direct | Action nat

record tool_call =
  c_via :: via
  c_tool :: string
  c_tier :: string
  c_params :: params
  c_at :: int
  c_pin_ok :: bool
  c_done :: bool

record sess =
  committed :: database
  work :: database
  calls :: "tool_call list"

record env =
  e_allow_t3 :: bool
  e_pin_of :: "string \<Rightarrow> string list option"
  e_tools :: "string \<Rightarrow> params \<Rightarrow> int \<Rightarrow> tool_outcome"

definition commit :: "sess \<Rightarrow> sess" where
  "commit s = s\<lparr>committed := work s\<rparr>"

definition rollback :: "sess \<Rightarrow> sess" where
  "rollback s = s\<lparr>work := committed s\<rparr>"

definition on_work :: "(database \<Rightarrow> database) \<Rightarrow> sess \<Rightarrow> sess" where
  "on_work f s = s\<lparr>work := f (work s)\<rparr>"

section \<open>Repository\<close>

definition action_get :: "database \<Rightarrow> nat \<Rightarrow> voice_action option" where
  "action_get d i = find (\<lambda>a. va_id a = i) (d_actions d)"

definition action_set :: "voice_action \<Rightarrow> database \<Rightarrow> database" where
  "action_set a d = d\<lparr>d_actions := map (\<lambda>b. if va_id b = va_id a then a else b) (d_actions d)\<rparr>"

text \<open>\<open>ActionRepository.create\<close>: the row gets a fresh id.\<close>

definition action_create :: "voice_action \<Rightarrow> database \<Rightarrow> voice_action \<times> database" where
  "action_create a d =
     (let a' = a\<lparr>va_id := d_next d\<rparr> in
      (a', d\<lparr>d_actions := a' # d_actions d, d_next := Suc (d_next d)\<rparr>))"

definition turn_session :: "database \<Rightarrow> nat \<Rightarrow> nat option" where
  "turn_session d i = map_option vt_session (find (\<lambda>t. vt_id t = i) (d_turns d))"

text \<open>Newest first; rows are stored newest first, so the stable sort keeps the last of equals.\<close>

definition pending_for_session :: "nat \<Rightarrow> int \<Rightarrow> database \<Rightarrow> voice_action option" where
  "pending_for_session sid now d =
     (case sort_key (\<lambda>a. - va_created a)
        (filter (\<lambda>a. turn_session d (va_turn a) = Some sid \<and> va_status a = Pending
           \<and> (case va_expires a of Some e \<Rightarrow> e > now | None \<Rightarrow> False)) (d_actions d)) of
        [] \<Rightarrow> None | a # _ \<Rightarrow> Some a)"

definition expire_action :: "int \<Rightarrow> voice_action \<Rightarrow> voice_action" where
  "expire_action now a =
     (if va_status a = Pending \<and> (case va_expires a of Some e \<Rightarrow> e \<le> now | None \<Rightarrow> False)
      then a\<lparr>va_status := Expired\<rparr> else a)"

definition expire_stale :: "int \<Rightarrow> database \<Rightarrow> database" where
  "expire_stale now d = d\<lparr>d_actions := map (expire_action now) (d_actions d)\<rparr>"

definition ensure_user :: "actor \<Rightarrow> database \<Rightarrow> database" where
  "ensure_user u d =
     (if a_sub u \<in> set (d_users d) then d else d\<lparr>d_users := d_users d @ [a_sub u]\<rparr>)"

definition write_audit :: "actor \<Rightarrow> nat \<Rightarrow> string \<Rightarrow> database \<Rightarrow> database" where
  "write_audit u i what d =
     (let d' = ensure_user u d in d'\<lparr>d_audits := d_audits d' @ [(i, what)]\<rparr>)"

section \<open>Validation at confirmation time\<close>

text \<open>\<open>uuid.UUID(str(v))\<close> and \<open>datetime.fromisoformat(str(v))\<close>: \<^term>\<open>None\<close> where Python raises.\<close>

fun uuid_of :: "pval \<Rightarrow> nat option" where
  "uuid_of (PId n) = Some n"
| "uuid_of _ = None"

fun instant_of :: "pval \<Rightarrow> int option" where
  "instant_of (PTime t) = Some t"
| "instant_of (PIso t) = Some t"
| "instant_of _ = None"

definition technician_available :: "plant \<Rightarrow> nat \<Rightarrow> int \<Rightarrow> bool" where
  "technician_available p i t \<longleftrightarrow> p_live_technician p i
     \<and> ((\<exists>(kind, starts, ends) \<in> set (p_calendar p i). kind = ''available'' \<and> starts \<le> t \<and> t < ends)
        \<or> p_calendar p i = [])"

definition check_asset :: "plant \<Rightarrow> params \<Rightarrow> exc + (string \<times> string) list" where
  "check_asset p d =
     (let v = pget d ''asset_id'' in
      if truthy v then
        (case uuid_of v of None \<Rightarrow> Inl Crash
         | Some n \<Rightarrow> Inr (if p_live_asset p n then []
             else [(''asset'', ''That machine is no longer in the registry.'')]))
      else Inr [])"

definition check_when :: "params \<Rightarrow> int \<Rightarrow> exc + (string \<times> string) list" where
  "check_when d now =
     (let v = por (pget d ''when'') (pget d ''planned_start'') in
      if truthy v then
        (case instant_of v of None \<Rightarrow> Inl Crash
         | Some t \<Rightarrow> Inr (if t \<le> now then [(''when'', ''That time is in the past.'')] else []))
      else Inr [])"

definition check_technician :: "plant \<Rightarrow> params \<Rightarrow> exc + (string \<times> string) list" where
  "check_technician p d =
     (let v = por (pget d ''when'') (pget d ''planned_start''); w = pget d ''technician_id'' in
      if truthy w \<and> truthy v then
        (case (instant_of v, uuid_of w) of
           (Some t, Some n) \<Rightarrow> Inr (if technician_available p n t then []
             else [(''technician'', ''That technician is not available then.'')])
         | _ \<Rightarrow> Inl Crash)
      else Inr [])"

definition check_alarm :: "plant \<Rightarrow> string \<Rightarrow> params \<Rightarrow> exc + (string \<times> string) list" where
  "check_alarm p tool d =
     (let v = pget d ''alarm_id'' in
      if tool = ''acknowledge_alarm'' \<and> truthy v then
        (case uuid_of v of None \<Rightarrow> Inl Crash
         | Some n \<Rightarrow> Inr (if p_alarm_status p n = Some ''active'' then []
             else [(''alarm'', ''That alarm is no longer open.'')]))
      else Inr [])"

definition validate :: "plant \<Rightarrow> voice_action \<Rightarrow> int \<Rightarrow> exc + (string \<times> string) list" where
  "validate p a now =
     (let d = revive_params (va_params a) in
      rbind (check_asset p d) (\<lambda>e1. rbind (check_when d now) (\<lambda>e2.
      rbind (check_technician p d) (\<lambda>e3. rbind (check_alarm p (va_tool a) d) (\<lambda>e4.
      Inr (e1 @ e2 @ e3 @ e4))))))"

section \<open>Confirm and cancel\<close>

text \<open>
  \<open>SecondFactor.verify\<close> on the stored attribute the identity provider returns; \<^term>\<open>None\<close> when it
  cannot be reached. A missing PIN never reaches it.
\<close>

definition second_factor_ok :: "env \<Rightarrow> actor \<Rightarrow> string option \<Rightarrow> exc + bool" where
  "second_factor_ok E u pin =
     (case pin of None \<Rightarrow> Inr False
      | Some s \<Rightarrow> if s = [] then Inr False
          else (case e_pin_of E (a_sub u) of
                  None \<Rightarrow> Inl Unavailable
                | Some stored \<Rightarrow> Inr (stored \<noteq> [] \<and> hd stored = s)))"

record reply =
  re_action :: voice_action
  re_text :: speech

definition save :: "voice_action \<Rightarrow> sess \<Rightarrow> sess" where
  "save a s = on_work (action_set a) s"

definition audited :: "actor \<Rightarrow> voice_action \<Rightarrow> string \<Rightarrow> sess \<Rightarrow> sess" where
  "audited u a what s = on_work (write_audit u (va_id a) what) s"

definition log_call :: "tool_call \<Rightarrow> sess \<Rightarrow> sess" where
  "log_call c s = s\<lparr>calls := calls s @ [c]\<rparr>"

text \<open>\<open>TOOLS[...]\<close>; a name that is not in the table is a \<open>KeyError\<close>.\<close>

definition TOOLS :: "string list" where
  "TOOLS = [''get_machine_status'', ''explain_prediction'', ''get_counterfactual'', ''run_what_if'',
     ''list_alarms'', ''acknowledge_alarm'', ''create_work_order'', ''get_kpi'', ''generate_report'',
     ''set_simulation_scenario'', ''navigate_dashboard'', ''give_feedback'', ''help'']"

definition run_tool :: "env \<Rightarrow> string \<Rightarrow> params \<Rightarrow> int \<Rightarrow> tool_outcome" where
  "run_tool E tool d now = (if tool \<in> set TOOLS then e_tools E tool d now else Raised False)"

fun outcome_done :: "tool_outcome \<Rightarrow> bool" where
  "outcome_done (Done out) = True"
| "outcome_done _ = False"

text \<open>The T3 gate: actuation must be enabled and the PIN right, or the action is rejected.\<close>

definition factor_gate ::
    "env \<Rightarrow> actor \<Rightarrow> string option \<Rightarrow> voice_action \<Rightarrow> sess \<Rightarrow> (exc \<times> sess) + voice_action" where
  "factor_gate E u pin a s =
     (if \<not> needs_second_factor (va_tier a) then Inr a
      else if \<not> e_allow_t3 E then
        Inl (Forbidden ''Actuation is disabled on this installation'',
             commit (save (a\<lparr>va_status := Rejected\<rparr>) s))
      else (case second_factor_ok E u pin of
              Inl e \<Rightarrow> Inl (e, s)
            | Inr False \<Rightarrow>
                (let a' = a\<lparr>va_status := Rejected, va_factor_ok := Some False\<rparr> in
                 Inl (Forbidden ''That PIN is not correct'',
                      commit (audited u a' ''second_factor_failed'' (save a' s))))
            | Inr True \<Rightarrow> Inr (a\<lparr>va_factor_ok := Some True\<rparr>)))"

text \<open>The tool runs with the action already marked confirmed; a tool that raises anything but a
  \<open>ProblemError\<close> leaves only what it had itself committed.\<close>

definition execute_action ::
    "env \<Rightarrow> actor \<Rightarrow> string \<Rightarrow> int \<Rightarrow> voice_action \<Rightarrow> sess \<Rightarrow> (exc + reply) \<times> sess" where
  "execute_action E u lang now a s =
     (let a' = a\<lparr>va_status := Confirmed, va_confirmed_at := Some now\<rparr>;
          ps = revive_params (va_params a);
          r = run_tool E (va_tool a) ps now;
          s' = log_call \<lparr>c_via = Action (va_id a), c_tool = va_tool a, c_tier = va_tier a,
                 c_params = ps, c_at = now, c_pin_ok = (va_factor_ok a = Some True),
                 c_done = outcome_done r\<rparr> (save a' s)
      in case r of
           Done out \<Rightarrow>
             (let b = a'\<lparr>va_status := Executed, va_executed_at := Some now,
                        va_result := Some (jsonable out)\<rparr>
              in (Inr \<lparr>re_action = b, re_text = Composed (va_tool a) out lang False\<rparr>,
                  commit (audited u b ''executed'' (save b s'))))
         | Problem msg \<Rightarrow>
             (let b = a'\<lparr>va_status := Failed, va_error := Some msg\<rparr>
              in (Inr \<lparr>re_action = b, re_text = Said msg\<rparr>,
                  commit (audited u b ''failed'' (save b s'))))
         | Raised tool_committed \<Rightarrow> (Inl Crash, if tool_committed then commit s' else s'))"

fun join_semicolon :: "string list \<Rightarrow> string" where
  "join_semicolon [] = []"
| "join_semicolon [x] = x"
| "join_semicolon (x # xs) = x @ ''; '' @ join_semicolon xs"

definition confirm ::
    "env \<Rightarrow> plant \<Rightarrow> actor \<Rightarrow> nat \<Rightarrow> string option \<Rightarrow> string \<Rightarrow> int \<Rightarrow> sess \<Rightarrow> (exc + reply) \<times> sess" where
  "confirm E p u aid pin lang now s =
     (case action_get (work s) aid of
        None \<Rightarrow> (Inl NotFound, s)
      | Some a \<Rightarrow>
          if va_status a \<noteq> Pending then (Inl (Conflict ''That action is already decided''), s)
          else if (case va_expires a of Some e \<Rightarrow> e \<le> now | None \<Rightarrow> False) then
            (Inl (Conflict ''The confirmation window closed. Please say it again.''),
             commit (save (a\<lparr>va_status := Expired\<rparr>) s))
          else (case factor_gate E u pin a s of
                  Inl (e, s') \<Rightarrow> (Inl e, s')
                | Inr a1 \<Rightarrow>
                    (case validate p a1 now of
                       Inl e \<Rightarrow> (Inl e, s)
                     | Inr [] \<Rightarrow> execute_action E u lang now a1 s
                     | Inr errs \<Rightarrow>
                         (let b = a1\<lparr>va_status := Rejected, va_errors := Some errs\<rparr> in
                          (Inr \<lparr>re_action = b, re_text = Said (join_semicolon (map snd errs))\<rparr>,
                           commit (audited u b ''rejected'' (save b s)))))))"

definition cancel :: "actor \<Rightarrow> nat \<Rightarrow> sess \<Rightarrow> (exc + reply) \<times> sess" where
  "cancel u aid s =
     (case action_get (work s) aid of
        None \<Rightarrow> (Inl NotFound, s)
      | Some a \<Rightarrow>
          if va_status a \<noteq> Pending then (Inl (Conflict ''That action is already decided''), s)
          else (let b = a\<lparr>va_status := Cancelled\<rparr> in
                (Inr \<lparr>re_action = b, re_text = Said ''Cancelled.''\<rparr>,
                 commit (audited u b ''cancelled'' (save b s)))))"

end
