(* ===== verification/Nlu_Fuzzy.thy ===== *)
theory Nlu_Fuzzy
  imports Twin_Prelude "HOL-Library.Multiset"
begin

text \<open>
  Spoken references (\<open>packages/nlu/src/twinvoice_nlu/rules.py\<close> \<open>normalise\<close>, \<open>slots.py\<close>
  \<open>parse_asset\<close>, \<open>fuzzy.py\<close>): reducing a machine's code, its name and what the operator said to one
  spoken shape, ranking the registry against it, and accepting a match only when it is clearly ahead.
  Texts are ASCII, where NFKC is the identity. \<open>rapidfuzz\<close> is a parameter: \<open>extract q forms\<close> is what
  \<open>process.extract\<close> returns, triples \<open>(form, score, index)\<close>.
\<close>

section \<open>Normalised text\<close>

definition is_word :: "char \<Rightarrow> bool" where
  "is_word c \<longleftrightarrow> (let n = of_char c :: nat in
     (48 \<le> n \<and> n \<le> 57) \<or> (65 \<le> n \<and> n \<le> 90) \<or> (97 \<le> n \<and> n \<le> 122) \<or> n = 95)"

definition is_apostrophe :: "char \<Rightarrow> bool" where
  "is_apostrophe c \<longleftrightarrow> of_char c \<in> {39, 96 :: nat}"

definition blank_char :: "char \<Rightarrow> char" where
  "blank_char c = (if is_word c \<or> c = CHR ''%'' \<or> is_space c then c else CHR '' '')"

definition join_words :: "string list \<Rightarrow> string" where
  "join_words ws = join_on (CHR '' '') ws"

text \<open>Collapsing runs of white space and stripping the ends leaves the words, joined by one space.\<close>

definition normalise :: "string \<Rightarrow> string" where
  "normalise t = join_words (split_words (map blank_char (filter (\<lambda>c. \<not> is_apostrophe c) (lower t))))"

definition NUMBER_WORDS :: "(string \<times> nat) list" where
  "NUMBER_WORDS = [(''zero'', 0), (''one'', 1), (''two'', 2), (''three'', 3), (''four'', 4), (''five'', 5),
     (''six'', 6), (''seven'', 7), (''eight'', 8), (''nine'', 9), (''ten'', 10), (''eleven'', 11),
     (''twelve'', 12), (''twenty'', 20), (''thirty'', 30), (''forty'', 40), (''fifty'', 50),
     (''sixty'', 60), (''seventy'', 70), (''eighty'', 80), (''ninety'', 90), (''ek'', 1), (''do'', 2),
     (''teen'', 3), (''char'', 4), (''chaar'', 4), (''paanch'', 5), (''panch'', 5), (''chhe'', 6),
     (''saat'', 7), (''aath'', 8), (''nau'', 9), (''das'', 10)]"

definition ASSET_NOISE :: "string list" where
  "ASSET_NOISE = [''the'', ''a'', ''an'', ''machine'', ''asset'', ''ka'', ''ki'', ''ke'', ''wala'',
     ''wali'', ''pe'', ''par'']"

definition spell_number :: "string \<Rightarrow> string" where
  "spell_number t = (case map_of NUMBER_WORDS t of Some n \<Rightarrow> nat_str n | None \<Rightarrow> t)"

definition parse_asset :: "string \<Rightarrow> string option" where
  "parse_asset t =
     (if t = [] then None
      else (let ws = filter (\<lambda>w. w \<notin> set ASSET_NOISE) (split_words (normalise t)) in
            if ws = [] then None else Some (join_words (map spell_number ws))))"

section \<open>Spoken forms\<close>

text \<open>\<open>re.sub(r"[-_/.]+", " ", text)\<close>: a run of separators becomes one space.\<close>

definition is_separator :: "char \<Rightarrow> bool" where
  "is_separator c \<longleftrightarrow> c \<in> set ''-_/.''"

fun blank_separators :: "bool \<Rightarrow> string \<Rightarrow> string" where
  "blank_separators _ [] = []"
| "blank_separators inside (c # cs) =
     (if is_separator c then (if inside then [] else [CHR '' '']) @ blank_separators True cs
      else c # blank_separators False cs)"

text \<open>
  \<open>re.sub(r"\b0+(\d)", r"\1", text)\<close>: at a word boundary a run of zeros loses all but the digit it
  leads to. The flag says whether the previous character was a word character.
\<close>

fun drop_zero_padding :: "bool \<Rightarrow> string \<Rightarrow> string" where
  "drop_zero_padding _ [] = []"
| "drop_zero_padding prev (c # cs) =
     (if \<not> prev \<and> c = CHR ''0'' \<and> cs \<noteq> [] \<and> is_digit (hd cs)
      then drop_zero_padding False cs
      else c # drop_zero_padding (is_word c) cs)"

definition spoken :: "string \<Rightarrow> string" where
  "spoken t = (case parse_asset (drop_zero_padding False (blank_separators False t)) of
     Some s \<Rightarrow> s | None \<Rightarrow> [])"

section \<open>Ranking and resolving\<close>

record asset_ref =
  ar_id :: nat
  ar_code :: string
  ar_name :: string

definition spoken_forms :: "asset_ref \<Rightarrow> string list" where
  "spoken_forms r = dict_keys (dict_of (map (\<lambda>f. (f, ()))
     (filter (\<lambda>f. f \<noteq> []) [spoken (ar_code r), spoken (ar_name r)])))"

record candidate =
  cd_ref :: asset_ref
  cd_score :: real

definition THRESHOLD :: real where "THRESHOLD = 85"
definition AMBIGUOUS_MARGIN :: real where "AMBIGUOUS_MARGIN = 5"

type_synonym extractor = "string \<Rightarrow> string list \<Rightarrow> (string \<times> real \<times> nat) list"

definition forms_of :: "asset_ref list \<Rightarrow> (string \<times> asset_ref) list" where
  "forms_of refs = concat (map (\<lambda>r. map (\<lambda>f. (f, r)) (spoken_forms r)) refs)"

definition keep_best ::
    "(string \<times> asset_ref) list \<Rightarrow> (nat \<times> candidate) list \<Rightarrow> string \<times> real \<times> nat \<Rightarrow> (nat \<times> candidate) list" where
  "keep_best forms best hit =
     (case hit of (form, score, i) \<Rightarrow>
        let r = snd (forms ! i) in
        (case map_of best (ar_id r) of
           Some c \<Rightarrow> if score > cd_score c
             then dict_put (ar_id r) \<lparr>cd_ref = r, cd_score = score\<rparr> best else best
         | None \<Rightarrow> dict_put (ar_id r) \<lparr>cd_ref = r, cd_score = score\<rparr> best))"

definition rank :: "extractor \<Rightarrow> string \<Rightarrow> asset_ref list \<Rightarrow> candidate list" where
  "rank extract query refs =
     (case parse_asset query of
        None \<Rightarrow> []
      | Some q \<Rightarrow>
          if refs = [] then []
          else (let forms = forms_of refs;
                    best = foldl (keep_best forms) [] (extract q (map fst forms))
                in take 2 (sort_key (\<lambda>c. - cd_score c) (map snd best))))"

definition resolve_ref ::
    "extractor \<Rightarrow> string \<Rightarrow> asset_ref list \<Rightarrow> asset_ref option \<times> candidate list" where
  "resolve_ref extract query refs =
     (let cs = rank extract query refs in
      case cs of
        [] \<Rightarrow> (None, cs)
      | c # rest \<Rightarrow>
          if cd_score c < THRESHOLD then (None, cs)
          else (case rest of
                  d # _ \<Rightarrow> if cd_score c - cd_score d < AMBIGUOUS_MARGIN then (None, cs)
                    else (Some (cd_ref c), rest)
                | [] \<Rightarrow> (Some (cd_ref c), rest)))"

section \<open>A match is never ambiguous\<close>

text \<open>What \<open>process.extract\<close> with \<open>limit=len(forms)\<close> is documented to return: one triple for every
  form, with the scorer's value.\<close>

definition extracts_all :: "extractor \<Rightarrow> (string \<Rightarrow> string \<Rightarrow> real) \<Rightarrow> bool" where
  "extracts_all extract scorer \<longleftrightarrow>
     (\<forall>q fs. set (extract q fs) = (\<lambda>i. (fs ! i, scorer q (fs ! i), i)) ` {..<length fs})"

definition best_from :: "(string \<times> asset_ref) list \<Rightarrow> (string \<times> real \<times> nat) set \<Rightarrow> (nat \<times> candidate) list \<Rightarrow> bool" where
  "best_from forms H best \<longleftrightarrow> (\<forall>i c. map_of best i = Some c \<longrightarrow> ar_id (cd_ref c) = i
     \<and> (\<exists>f j. (f, cd_score c, j) \<in> H \<and> snd (forms ! j) = cd_ref c))"

definition best_all :: "(string \<times> asset_ref) list \<Rightarrow> (string \<times> real \<times> nat) set \<Rightarrow> (nat \<times> candidate) list \<Rightarrow> bool" where
  "best_all forms H best \<longleftrightarrow> (\<forall>f s j. (f, s, j) \<in> H \<longrightarrow>
     (\<exists>c. map_of best (ar_id (snd (forms ! j))) = Some c \<and> s \<le> cd_score c))"

definition best_ok :: "(string \<times> asset_ref) list \<Rightarrow> (string \<times> real \<times> nat) set \<Rightarrow> (nat \<times> candidate) list \<Rightarrow> bool" where
  "best_ok forms H best \<longleftrightarrow> dict_ok best \<and> best_from forms H best \<and> best_all forms H best"

lemma best_ok_put:
  assumes ok: "best_ok forms H best"
    and better: "\<And>c. map_of best (ar_id (snd (forms ! j))) = Some c \<Longrightarrow> cd_score c \<le> s"
  shows "best_ok forms (insert (f, s, j) H)
           (dict_put (ar_id (snd (forms ! j))) \<lparr>cd_ref = snd (forms ! j), cd_score = s\<rparr> best)"
proof -
  let ?k = "ar_id (snd (forms ! j))" and ?v = "\<lparr>cd_ref = snd (forms ! j), cd_score = s\<rparr>"
  have "best_from forms (insert (f, s, j) H) (dict_put ?k ?v best)"
    unfolding best_from_def
  proof (intro allI impI)
    fix i c assume c: "map_of (dict_put ?k ?v best) i = Some c"
    show "ar_id (cd_ref c) = i \<and> (\<exists>g l. (g, cd_score c, l) \<in> insert (f, s, j) H \<and> snd (forms ! l) = cd_ref c)"
    proof (cases "i = ?k")
      case True
      with c have "c = ?v" by (simp add: update_conv')
      with True show ?thesis by auto
    next
      case False
      with c have "map_of best i = Some c" by (simp add: update_conv')
      with ok show ?thesis unfolding best_ok_def best_from_def by blast
    qed
  qed
  moreover have "best_all forms (insert (f, s, j) H) (dict_put ?k ?v best)"
    unfolding best_all_def
  proof (intro allI impI)
    fix g t l assume g: "(g, t, l) \<in> insert (f, s, j) H"
    show "\<exists>c. map_of (dict_put ?k ?v best) (ar_id (snd (forms ! l))) = Some c \<and> t \<le> cd_score c"
    proof (cases "(g, t, l) = (f, s, j)")
      case True
      then show ?thesis by (simp add: update_conv')
    next
      case False
      with g ok obtain c where c: "map_of best (ar_id (snd (forms ! l))) = Some c" "t \<le> cd_score c"
        unfolding best_ok_def best_all_def by blast
      show ?thesis
      proof (cases "ar_id (snd (forms ! l)) = ?k")
        case True
        with c better have "t \<le> s" by force
        with True show ?thesis by (simp add: update_conv')
      next
        case False
        with c show ?thesis by (simp add: update_conv')
      qed
    qed
  qed
  ultimately show ?thesis using ok by (simp add: best_ok_def)
qed

lemma best_ok_skip:
  assumes "best_ok forms H best" and "map_of best (ar_id (snd (forms ! j))) = Some c" and "s \<le> cd_score c"
  shows "best_ok forms (insert (f, s, j) H) best"
  using assms unfolding best_ok_def best_from_def best_all_def by blast

lemma keep_best_ok:
  assumes ok: "best_ok forms H best"
  shows "best_ok forms (insert hit H) (keep_best forms best hit)"
proof -
  obtain f s j where hit: "hit = (f, s, j)" by (cases hit)
  let ?r = "snd (forms ! j)"
  show ?thesis
  proof (cases "map_of best (ar_id ?r)")
    case None
    then show ?thesis
      using best_ok_put [OF ok, of j s f] by (simp add: keep_best_def hit Let_def)
  next
    case (Some c)
    show ?thesis
    proof (cases "s > cd_score c")
      case True
      then show ?thesis
        using best_ok_put [OF ok, of j s f] Some by (simp add: keep_best_def hit Let_def)
    next
      case False
      then show ?thesis
        using best_ok_skip [OF ok Some, of s f] Some by (simp add: keep_best_def hit Let_def)
    qed
  qed
qed

lemma fold_keep_best: "best_ok forms H best \<Longrightarrow> best_ok forms (H \<union> set hits) (foldl (keep_best forms) best hits)"
proof (induction hits arbitrary: H best)
  case Nil
  then show ?case by simp
next
  case (Cons h hits)
  from Cons.IH [OF keep_best_ok [OF Cons.prems]] show ?case by simp
qed

text \<open>The two best of a list sorted downwards bound all the others.\<close>

lemma sorted_top2:
  assumes "take 2 (sort_key (\<lambda>c. - g c) xs) = c # rest" and "x \<in> set xs" and "x \<noteq> c"
  shows "\<exists>d ds. rest = d # ds \<and> (g x :: real) \<le> g d"
proof -
  let ?L = "sort_key (\<lambda>c. - g c) xs"
  obtain ys where L: "?L = c # ys" using assms(1) by (cases ?L) auto
  with assms(2,3) have x: "x \<in> set ys" by (metis set_ConsD set_sort)
  then obtain d zs where ys: "ys = d # zs" by (cases ys) auto
  have "sorted (map (\<lambda>c. - g c) ?L)" by simp
  with L ys x have "g x \<le> g d" by auto
  moreover from assms(1) L ys have "rest = [d]" by (simp add: numeral_2_eq_2)
  ultimately show ?thesis by simp
qed

lemma forms_of_nth:
  "j < length (forms_of refs) \<Longrightarrow> snd (forms_of refs ! j) \<in> set refs
     \<and> fst (forms_of refs ! j) \<in> set (spoken_forms (snd (forms_of refs ! j)))"
proof -
  assume "j < length (forms_of refs)"
  then have "forms_of refs ! j \<in> set (forms_of refs)" by simp
  then show ?thesis by (auto simp: forms_of_def)
qed

lemma forms_of_ex:
  assumes "r \<in> set refs" "f \<in> set (spoken_forms r)"
  shows "\<exists>j < length (forms_of refs). forms_of refs ! j = (f, r)"
proof -
  from assms have "(f, r) \<in> set (forms_of refs)" by (auto simp: forms_of_def)
  then show ?thesis by (simp add: in_set_conv_nth)
qed

definition score_table :: "extractor \<Rightarrow> string \<Rightarrow> asset_ref list \<Rightarrow> (nat \<times> candidate) list" where
  "score_table extract q refs =
     foldl (keep_best (forms_of refs)) [] (extract q (map fst (forms_of refs)))"

lemma score_table_spec:
  assumes ex: "extracts_all extract scorer"
  shows "dict_ok (score_table extract q refs)"
    and "(i, c) \<in> set (score_table extract q refs) \<Longrightarrow> ar_id (cd_ref c) = i \<and> cd_ref c \<in> set refs
           \<and> (\<exists>f \<in> set (spoken_forms (cd_ref c)). cd_score c = scorer q f)"
    and "r \<in> set refs \<Longrightarrow> f \<in> set (spoken_forms r) \<Longrightarrow>
           \<exists>c. (ar_id r, c) \<in> set (score_table extract q refs) \<and> scorer q f \<le> cd_score c"
proof -
  let ?F = "forms_of refs"
  let ?H = "extract q (map fst ?F)"
  have H: "set ?H = (\<lambda>i. (fst (?F ! i), scorer q (fst (?F ! i)), i)) ` {..<length ?F}"
    using ex by (force simp: extracts_all_def)
  have "best_ok ?F {} []" by (simp add: best_ok_def best_from_def best_all_def)
  from fold_keep_best [OF this] have ok: "best_ok ?F (set ?H) (score_table extract q refs)"
    by (simp add: score_table_def)
  then show dict: "dict_ok (score_table extract q refs)" by (simp add: best_ok_def)
  have lookup: "(i, c) \<in> set (score_table extract q refs) \<longleftrightarrow> map_of (score_table extract q refs) i = Some c" for i c
    using dict by (simp add: dict_ok_def)
  show "ar_id (cd_ref c) = i \<and> cd_ref c \<in> set refs
           \<and> (\<exists>f \<in> set (spoken_forms (cd_ref c)). cd_score c = scorer q f)"
    if "(i, c) \<in> set (score_table extract q refs)" for i c
  proof -
    from that ok obtain f j where j: "(f, cd_score c, j) \<in> set ?H" "snd (?F ! j) = cd_ref c"
      and i: "ar_id (cd_ref c) = i"
      unfolding best_ok_def best_from_def lookup by blast
    from j(1) have "j < length ?F" and s: "cd_score c = scorer q (fst (?F ! j))" unfolding H by auto
    from forms_of_nth [OF this(1)] j(2) i s show ?thesis by metis
  qed
  show "\<exists>c. (ar_id r, c) \<in> set (score_table extract q refs) \<and> scorer q f \<le> cd_score c"
    if "r \<in> set refs" "f \<in> set (spoken_forms r)" for r f
  proof -
    from forms_of_ex [OF that] obtain j where j: "j < length ?F" "?F ! j = (f, r)" by blast
    then have "(f, scorer q f, j) \<in> set ?H" unfolding H by force
    with ok have "\<exists>c. map_of (score_table extract q refs) (ar_id (snd (?F ! j))) = Some c
        \<and> scorer q f \<le> cd_score c"
      unfolding best_ok_def best_all_def by blast
    with j(2) show ?thesis unfolding lookup by simp
  qed
qed

text \<open>
  Property C24. A spoken reference resolves to a machine only when one of that machine's spoken forms
  scores at least 85 against what was said and every form of every other machine (or line) in the
  registry scores at least 5 points less: a command is never bound to one of two close candidates.
\<close>

theorem resolve_unambiguous:
  assumes "extracts_all extract scorer" and "resolve_ref extract query refs = (Some m, alts)"
  shows "\<exists>q f. parse_asset query = Some q \<and> m \<in> set refs \<and> f \<in> set (spoken_forms m)
           \<and> THRESHOLD \<le> scorer q f
           \<and> (\<forall>r \<in> set refs. ar_id r \<noteq> ar_id m \<longrightarrow>
                (\<forall>g \<in> set (spoken_forms r). scorer q g + AMBIGUOUS_MARGIN \<le> scorer q f))"
proof -
  obtain c rest where rank: "rank extract query refs = c # rest" and m: "m = cd_ref c"
    and high: "THRESHOLD \<le> cd_score c"
    and gap: "\<And>d ds. rest = d # ds \<Longrightarrow> AMBIGUOUS_MARGIN \<le> cd_score c - cd_score d"
    using assms(2) by (auto simp: resolve_ref_def Let_def split: list.splits if_splits)
  then obtain q where q: "parse_asset query = Some q"
    by (auto simp: rank_def split: option.splits)
  let ?T = "score_table extract q refs"
  from rank q have top: "take 2 (sort_key (\<lambda>c. - cd_score c) (map snd ?T)) = c # rest"
    by (simp add: rank_def score_table_def Let_def split: if_splits)
  then have "c \<in> set (sort_key (\<lambda>c. - cd_score c) (map snd ?T))"
    by (metis in_set_takeD list.set_intros(1))
  then obtain i where "(i, c) \<in> set ?T" by auto
  from score_table_spec(2) [OF assms(1) this] obtain f where f: "cd_ref c \<in> set refs"
    "f \<in> set (spoken_forms (cd_ref c))" "cd_score c = scorer q f"
    by blast
  have "scorer q g + AMBIGUOUS_MARGIN \<le> scorer q f"
    if r: "r \<in> set refs" "ar_id r \<noteq> ar_id m" "g \<in> set (spoken_forms r)" for r g
  proof -
    from score_table_spec(3) [OF assms(1) r(1,3)] obtain x where x: "(ar_id r, x) \<in> set ?T"
      "scorer q g \<le> cd_score x" by blast
    from score_table_spec(2) [OF assms(1) x(1)] r(2) m have "x \<noteq> c" by auto
    moreover from x(1) have "x \<in> set (map snd ?T)" by force
    ultimately obtain d ds where "rest = d # ds" "cd_score x \<le> cd_score d"
      using sorted_top2 [OF top] by blast
    with gap x(2) f(3) show ?thesis by fastforce
  qed
  with q f high m show ?thesis by auto
qed

definition demo_scorer :: "string \<Rightarrow> string \<Rightarrow> real" where
  "demo_scorer q f = (if q = f then 100 else 40)"

definition demo_extract :: extractor where
  "demo_extract q fs = sort_key (\<lambda>h. - fst (snd h)) (map (\<lambda>i. (fs ! i, demo_scorer q (fs ! i), i)) [0..<length fs])"

definition demo_refs :: "asset_ref list" where
  "demo_refs = [\<lparr>ar_id = 7, ar_code = ''press-04'', ar_name = ''Press 04''\<rparr>,
                \<lparr>ar_id = 8, ar_code = ''cnc-01'', ar_name = ''CNC Mill 01''\<rparr>]"

lemma demo_extracts: "extracts_all demo_extract demo_scorer"
  by (auto simp: extracts_all_def demo_extract_def)

lemma demo_resolves:
  "resolve_ref demo_extract ''the press four'' demo_refs =
     (Some \<lparr>ar_id = 7, ar_code = ''press-04'', ar_name = ''Press 04''\<rparr>,
      [\<lparr>cd_ref = \<lparr>ar_id = 8, ar_code = ''cnc-01'', ar_name = ''CNC Mill 01''\<rparr>, cd_score = 40\<rparr>])"
  by code_simp

theorem resolve_unambiguous_witness:
  "\<exists>q f. parse_asset ''the press four'' = Some q
     \<and> \<lparr>ar_id = 7, ar_code = ''press-04'', ar_name = ''Press 04''\<rparr> \<in> set demo_refs
     \<and> f \<in> set (spoken_forms \<lparr>ar_id = 7, ar_code = ''press-04'', ar_name = ''Press 04''\<rparr>)
     \<and> THRESHOLD \<le> demo_scorer q f
     \<and> (\<forall>r \<in> set demo_refs. ar_id r \<noteq> ar_id \<lparr>ar_id = 7, ar_code = ''press-04'', ar_name = ''Press 04''\<rparr> \<longrightarrow>
          (\<forall>g \<in> set (spoken_forms r). demo_scorer q g + AMBIGUOUS_MARGIN \<le> demo_scorer q f))"
  by (rule resolve_unambiguous [OF demo_extracts demo_resolves])

end
