(* ===== verification/Voice_Dialogue.thy ===== *)
theory Voice_Dialogue
  imports Voice_Actions Nlu_Fuzzy "HOL-Library.Char_ord" "HOL-Library.List_Lexorder"
begin

text \<open>
  VoiceNav, one turn (\<open>apps/api/app/modules/voice/service.py\<close>): the dialogue context, slot resolution,
  execution by tier, the read-back (\<open>twinvoice_nlu/tiers.py\<close>), the control words, and \<open>handle\<close> itself,
  which composes them. What the router understood is an input; narration is kept as the call it makes
  (\<open>speech\<close>).
\<close>

section \<open>The intent catalogue and the router's result\<close>

record slot_def =
  sl_name :: string
  sl_type :: string
  sl_required :: bool
  sl_context :: "string option"
  sl_values :: "string list"

record intent_def =
  in_name :: string
  in_tier :: string
  in_summary :: string
  in_slots :: "slot_def list"
  in_templates :: "(string \<times> string list) list"
  in_samples :: "(string \<times> string list) list"

record catalogue =
  ct_intents :: "intent_def list"
  ct_control :: "(string \<times> (string \<times> string list) list) list"

definition cat_get :: "catalogue \<Rightarrow> string \<Rightarrow> intent_def option" where
  "cat_get c n = find (\<lambda>i. in_name i = n) (ct_intents c)"

definition control_phrases :: "catalogue \<Rightarrow> string \<Rightarrow> string set" where
  "control_phrases c kind =
     (case map_of (ct_control c) kind of None \<Rightarrow> {} | Some langs \<Rightarrow> \<Union> (set ` snd ` set langs))"

text \<open>\<open>rules.control_word\<close>: the first kind one of whose phrases is exactly the utterance.\<close>

definition control_word :: "catalogue \<Rightarrow> string \<Rightarrow> string option" where
  "control_word c t =
     find (\<lambda>kind. normalise t \<in> normalise ` control_phrases c kind)
       [''confirm'', ''cancel'', ''repeat'', ''slower'']"

record router_result =
  rr_intent :: string
  rr_tier :: string
  rr_slots :: params
  rr_confidence :: real
  rr_router :: string
  rr_control :: "string option"

definition LOW_CONFIDENCE :: real where "LOW_CONFIDENCE = 3 / 5"

definition understood :: "router_result \<Rightarrow> bool" where
  "understood r \<longleftrightarrow> rr_router r \<noteq> ''none'' \<and> rr_confidence r \<ge> LOW_CONFIDENCE"

section \<open>Requests and responses\<close>

record utterance =
  ut_text :: string
  ut_session :: "nat option"
  ut_lang :: "string option"
  ut_channel :: string
  ut_confidence :: "real option"

record response =
  rs_session :: nat
  rs_turn :: nat
  rs_intent :: string
  rs_tier :: string
  rs_text :: speech
  rs_action :: "voice_action option"
  rs_suggestions :: "(string \<times> nat) list"
  rs_hypothetical :: bool
  rs_navigate :: "params option"

text \<open>
  The request's clocks: \<open>k_db\<close> is the transaction's start, which dates new rows; \<open>k_now\<close> is read by
  \<open>handle\<close>, \<open>k_confirm\<close> by \<open>confirm\<close>, \<open>k_tool\<close> by \<open>_execute_now\<close>. The scorer and the rendering of numbers
  and dates come from libraries.
\<close>

record clock =
  k_db :: int
  k_now :: int
  k_confirm :: int
  k_tool :: int

record lib =
  l_extract :: extractor
  l_show :: "pval \<Rightarrow> string"

section \<open>Dialogue context\<close>

definition CONTEXT_TTL :: int where
  "CONTEXT_TTL = 120 * 1000000"

definition live_context :: "voice_session \<Rightarrow> int \<Rightarrow> params" where
  "live_context v now =
     (case instant_of (pget (vs_context v) ''touched_at'') of
        Some t \<Rightarrow> if now - t > CONTEXT_TTL then [] else vs_context v
      | None \<Rightarrow> vs_context v)"

definition put_if :: "string \<Rightarrow> pval \<Rightarrow> params \<Rightarrow> params" where
  "put_if k v d = (if truthy v then dict_put k v d else d)"

text \<open>\<open>_remember(session, now=now, asset_id=..., asset_code=..., last_...=...)\<close>.\<close>

definition remember :: "params \<Rightarrow> int \<Rightarrow> voice_session \<Rightarrow> voice_session" where
  "remember vals now v =
     (let c0 = live_context v now;
          c1 = (if truthy (pget vals ''asset_id'')
                then dict_put ''current_asset_code'' (pget vals ''asset_code'')
                       (dict_put ''current_asset_id'' (pget vals ''asset_id'') c0)
                else c0);
          c2 = foldl (\<lambda>c k. put_if k (pget vals k) c) c1
                 [''last_prediction_id'', ''last_explanation_id'', ''last_alarm_id'']
      in v\<lparr>vs_context := dict_put ''touched_at'' (PIso now) c2\<rparr>)"

definition session_get :: "database \<Rightarrow> nat \<Rightarrow> voice_session option" where
  "session_get d i = find (\<lambda>v. vs_id v = i) (d_sessions d)"

definition session_set :: "voice_session \<Rightarrow> database \<Rightarrow> database" where
  "session_set v d = d\<lparr>d_sessions := map (\<lambda>w. if vs_id w = vs_id v then v else w) (d_sessions d)\<rparr>"

section \<open>Slot resolution\<close>

definition asset_refs :: "(nat \<times> string \<times> string) list \<Rightarrow> asset_ref list" where
  "asset_refs rows = map (\<lambda>(i, c, n). \<lparr>ar_id = i, ar_code = c, ar_name = n\<rparr>) rows"

definition resolve_alarm :: "plant \<Rightarrow> pval \<Rightarrow> params \<Rightarrow> exc + pval" where
  "resolve_alarm p asset ctx =
     (if asset = PNull then Inr (pget ctx ''last_alarm_id'')
      else (case uuid_of asset of
              None \<Rightarrow> Inl Crash
            | Some n \<Rightarrow> Inr (case find (\<lambda>(i, st). st = ''active'') (p_open_alarms p n) of
                               Some (i, _) \<Rightarrow> PId i | None \<Rightarrow> PNull)))"

text \<open>\<open>required_arguments\<close>: the keyword-only parameters of each tool that have no default.\<close>

definition required_arguments :: "string \<Rightarrow> string list" where
  "required_arguments tool =
     (if tool \<in> {''get_machine_status'', ''explain_prediction'', ''get_counterfactual'', ''run_what_if''}
      then [''asset_id'']
      else if tool = ''acknowledge_alarm'' then [''alarm_id'']
      else if tool = ''create_work_order'' then [''asset_id'', ''task'']
      else if tool = ''get_kpi'' then [''kpi'']
      else if tool = ''generate_report'' then [''type'']
      else if tool = ''set_simulation_scenario'' then [''scenario'', ''asset_id'']
      else [])"

definition dict_default :: "string \<Rightarrow> pval \<Rightarrow> params \<Rightarrow> params" where
  "dict_default k v d = (if k \<in> set (dict_keys d) then d else dict_put k v d)"

definition replace_char :: "char \<Rightarrow> char \<Rightarrow> string \<Rightarrow> string" where
  "replace_char a b s = map (\<lambda>c. if c = a then b else c) s"

definition ask_for :: "string \<Rightarrow> string" where
  "ask_for arg =
     (if arg = ''asset_id'' then ''Which machine do you mean?''
      else if arg = ''alarm_id'' then ''Which alarm do you mean?''
      else if arg = ''explanation_id'' then ''Which prediction should I explain?''
      else if arg = ''scope_id'' then ''For which machine or line?''
      else if arg = ''task'' then ''What should the work order say?''
      else ''I need the '' @ replace_char (CHR ''_'') (CHR '' '') arg @ '' as well.'')"

record resolution =
  ro_params :: params
  ro_ask :: "speech option"
  ro_suggestions :: "(string \<times> nat) list"
  ro_session :: voice_session

text \<open>The reference named in the utterance, or the one in the live context.\<close>

definition bind_asset ::
    "lib \<Rightarrow> plant \<Rightarrow> voice_session \<Rightarrow> router_result \<Rightarrow> params \<Rightarrow> int \<Rightarrow> exc + resolution" where
  "bind_asset L p v r ctx now =
     (let slots = rr_slots r;
          ref = por (por (pget slots ''asset'') (pget slots ''alarm'')) (pget slots ''scope'')
      in if truthy ref then
           (case ref of
              PStr s \<Rightarrow>
                (let refs = asset_refs (p_assets p)
                       @ (if rr_intent r = ''get_kpi'' \<or> ''scope'' \<in> set (dict_keys slots)
                          then asset_refs (p_lines p) else [])
                 in case resolve_ref (l_extract L) s refs of
                      (None, alts) \<Rightarrow>
                        (let opts = map (\<lambda>c. (ar_name (cd_ref c), ar_id (cd_ref c))) alts in
                         Inr \<lparr>ro_params = slots,
                              ro_ask = Some (if opts \<noteq> [] then DidYouMean (map fst opts) (vs_lang v)
                                else Said (''I don'' @ [CHR 0x27] @ ''t know a machine called '' @ s @ ''.'')),
                              ro_suggestions = opts, ro_session = v\<rparr>)
                    | (Some m, alts) \<Rightarrow>
                        (let d1 = dict_put ''asset_label'' (PStr (ar_name m))
                                    (dict_put ''asset_id'' (PId (ar_id m)) slots);
                             d2 = (if rr_intent r = ''get_kpi''
                                   then dict_put ''scope_label'' (PStr (ar_name m))
                                          (dict_put ''scope''
                                             (PStr (if ar_id m \<in> fst ` set (p_lines p) then ''line'' else ''asset''))
                                             (dict_put ''scope_id'' (PId (ar_id m)) d1))
                                   else d1)
                         in Inr \<lparr>ro_params = d2, ro_ask = None, ro_suggestions = [],
                                 ro_session = remember [(''asset_id'', PId (ar_id m)),
                                                        (''asset_code'', PStr (ar_code m))] now v\<rparr>))
            | _ \<Rightarrow> Inl Crash)
         else if truthy (pget ctx ''current_asset_id'') then
           (let d1 = dict_put ''asset_label'' (pget ctx ''current_asset_label'')
                       (dict_put ''asset_id'' (pget ctx ''current_asset_id'') slots);
                d2 = (if rr_intent r = ''get_kpi''
                      then dict_default ''scope'' (PStr ''asset'')
                             (dict_default ''scope_id'' (pget ctx ''current_asset_id'') d1)
                      else d1)
            in Inr \<lparr>ro_params = d2, ro_ask = None, ro_suggestions = [], ro_session = v\<rparr>)
         else Inr \<lparr>ro_params = slots, ro_ask = None, ro_suggestions = [], ro_session = v\<rparr>)"

definition missing_slots :: "catalogue \<Rightarrow> router_result \<Rightarrow> params \<Rightarrow> string list" where
  "missing_slots C r d =
     (let required = (case cat_get C (rr_intent r) of None \<Rightarrow> []
            | Some i \<Rightarrow> map sl_name (filter sl_required (in_slots i)));
          scope_slot = (if ''scope'' \<in> set (dict_keys (rr_slots r)) then ''scope'' else ''asset'');
          satisfied = set (dict_keys d) \<union> (if truthy (pget d ''asset_id'') then {scope_slot} else {})
      in sort (remdups (filter (\<lambda>n. n \<notin> satisfied
           \<and> n \<notin> {''asset'', ''alarm'', ''scope'', ''verdict'', ''parameter''}) required)))"

definition asks :: "speech \<Rightarrow> params \<Rightarrow> resolution \<Rightarrow> resolution" where
  "asks t d o1 = o1\<lparr>ro_params := d, ro_ask := Some t\<rparr>"

definition resolve_slots ::
    "lib \<Rightarrow> catalogue \<Rightarrow> plant \<Rightarrow> voice_session \<Rightarrow> router_result \<Rightarrow> int \<Rightarrow> exc + resolution" where
  "resolve_slots L C p v r now =
     (let ctx = live_context v now in
      rbind (bind_asset L p v r ctx now) (\<lambda>o1.
        if ro_ask o1 \<noteq> None then Inr o1
        else
          rbind (if rr_intent r = ''acknowledge_alarm''
                 then resolve_alarm p (pget (ro_params o1) ''asset_id'') ctx else Inr (PStr [])) (\<lambda>alarm.
          if rr_intent r = ''acknowledge_alarm'' \<and> alarm = PNull then
            Inr (asks (Said (''I can'' @ [CHR 0x27] @ ''t find an open alarm on that machine.'')) (ro_params o1) o1)
          else
            (let d1 = (if rr_intent r = ''acknowledge_alarm''
                       then dict_put ''alarm_id'' alarm (ro_params o1) else ro_params o1);
                 d2 = (if rr_intent r = ''give_feedback'' \<and> truthy (pget ctx ''last_explanation_id'')
                       then dict_put ''explanation_id'' (pget ctx ''last_explanation_id'') d1 else d1);
                 lacking = filter (\<lambda>n. n \<notin> set (dict_keys d2)) (required_arguments (rr_intent r))
             in case lacking of
                  n # _ \<Rightarrow> Inr (asks (Said (ask_for n)) d2 o1)
                | [] \<Rightarrow>
                    (case missing_slots C r d2 of
                       n # _ \<Rightarrow> Inr (asks (Said (''I need the '' @ replace_char (CHR ''_'') (CHR '' '') n
                                     @ '' as well.'')) d2 o1)
                     | [] \<Rightarrow> Inr (o1\<lparr>ro_params := d2\<rparr>))))))"

section \<open>Read-back\<close>

text \<open>The text of a value inside an f-string.\<close>

definition render :: "lib \<Rightarrow> pval \<Rightarrow> string" where
  "render L v = (case v of PStr s \<Rightarrow> s | PNull \<Rightarrow> ''None'' | PBool b \<Rightarrow> (if b then ''True'' else ''False'')
     | w \<Rightarrow> l_show L w)"

definition phrase :: "lib \<Rightarrow> pval \<Rightarrow> string \<Rightarrow> string \<Rightarrow> string \<Rightarrow> string" where
  "phrase L v en hi lang =
     (if v = PNull \<or> v = PStr [] then [] else (if lang = ''hi'' then hi else en) @ render L v)"

definition get_or :: "params \<Rightarrow> string \<Rightarrow> pval \<Rightarrow> pval" where
  "get_or d k v = (case map_of d k of Some w \<Rightarrow> w | None \<Rightarrow> v)"

definition tail_text :: "string \<Rightarrow> string" where
  "tail_text lang = (if lang = ''hi'' then '' Confirm ya cancel boliye.'' else '' Say confirm or cancel.'')"

text \<open>The machine a read-back names.\<close>

definition readback_asset :: "lib \<Rightarrow> params \<Rightarrow> string" where
  "readback_asset L d =
     render L (por (por (por (pget d ''asset_label'') (pget d ''asset'')) (pget d ''scope'')) (PStr ''the asset''))"

definition readback :: "lib \<Rightarrow> string \<Rightarrow> params \<Rightarrow> string \<Rightarrow> string" where
  "readback L intent d lang =
     (let hi = (lang = ''hi'');
          task = render L (get_or d ''task'' (PStr ''maintenance''));
          asset = readback_asset L d;
          when = phrase L (pget d ''when'') '', '' '', '' lang;
          technician = phrase L (por (pget d ''technician_label'') (pget d ''technician'')) '', assigned to '' '', '' lang;
          severity = render L (get_or d ''severity'' (PStr ''open''));
          type0 = replace_char (CHR ''_'') (CHR '' '') (render L (get_or d ''type'' (PStr [])));
          type = (if type0 = [] then ''machine health'' else type0);
          scope = render L (por (por (pget d ''scope_label'') (pget d ''scope'')) (PStr ''the plant''));
          period = phrase L (pget d ''period'') '' for this '' '' '' lang;
          scenario = render L (get_or d ''scenario'' (PStr ''a fault''));
          verdict = render L (get_or d ''verdict'' (PStr ''disagree''));
          reason = phrase L (pget d ''reason'') '': '' '': '' lang
      in (if intent = ''create_work_order'' then
            (if hi then ''Work order bana rahe hain: '' @ asset @ '' par '' @ task @ when @ technician @ ''.''
             else ''Creating work order: '' @ task @ '' on '' @ asset @ when @ technician @ ''.'')
          else if intent = ''acknowledge_alarm'' then
            (if hi then asset @ '' ka '' @ severity @ '' alarm acknowledge kar rahe hain.''
             else ''Acknowledging the '' @ severity @ '' alarm on '' @ asset @ ''.'')
          else if intent = ''generate_report'' then
            (if hi then scope @ '' ki '' @ type @ '' report '' @ period @ '' banayi ja rahi hai, PDF mein.''
             else ''Generating the '' @ type @ '' report for '' @ scope @ period @ '', as PDF.'')
          else if intent = ''set_simulation_scenario'' then
            (if hi then asset @ '' mein '' @ scenario @ '' inject kar rahe hain. Yeh live simulation badal dega.''
             else ''Injecting '' @ scenario @ '' into '' @ asset @ ''. This changes the live simulation.'')
          else if intent = ''give_feedback'' then
            (if hi then ''Aapki raay darj kar rahe hain: '' @ verdict @ reason @ ''.''
             else ''Recording that you '' @ verdict @ '' with this explanation'' @ reason @ ''.'')
          else replace_char (CHR ''_'') (CHR '' '') intent @ '': ''
               @ concat (map (\<lambda>(i, k, v). (if i = 0 then [] else '', '') @ k @ '' '' @ render L v)
                   (enumerate 0 (filter (\<lambda>(k, v). v \<noteq> PNull \<and> v \<noteq> PStr []) d))) @ ''.'')
         @ tail_text lang)"

definition merge :: "params \<Rightarrow> params \<Rightarrow> params" where
  "merge d e = foldl (\<lambda>m (k, v). dict_put k v m) d e"

section \<open>Answering\<close>

definition base_response :: "nat \<Rightarrow> nat \<Rightarrow> router_result \<Rightarrow> speech \<Rightarrow> response" where
  "base_response sid tid r t =
     \<lparr>rs_session = sid, rs_turn = tid, rs_intent = rr_intent r, rs_tier = rr_tier r, rs_text = t,
      rs_action = None, rs_suggestions = [], rs_hypothetical = False, rs_navigate = None\<rparr>"

definition read_back ::
    "env \<Rightarrow> lib \<Rightarrow> actor \<Rightarrow> nat \<Rightarrow> nat \<Rightarrow> router_result \<Rightarrow> params \<Rightarrow> string \<Rightarrow> clock \<Rightarrow> sess \<Rightarrow> response \<times> sess" where
  "read_back E L u sid tid r d lang k s =
     (if needs_second_factor (rr_tier r) \<and> \<not> e_allow_t3 E then
        (base_response sid tid r (Said ''Actuation is disabled on this installation.''), s)
      else
        (let text = readback L (rr_intent r) (merge d (rr_slots r)) lang;
             (a, db) = action_create
               \<lparr>va_id = 0, va_turn = tid, va_tool = rr_intent r, va_params = jsonable d, va_tier = rr_tier r,
                va_readback = text, va_status = Pending, va_errors = None,
                va_expires = Some (k_now k + CONFIRM_WINDOW), va_confirmed_at = None, va_factor_ok = None,
                va_executed_at = None, va_result = None, va_error = None, va_created = k_db k\<rparr> (work s)
         in ((base_response sid tid r (Said text))\<lparr>rs_action := Some a\<rparr>,
             audited u a ''read_back'' (s\<lparr>work := db\<rparr>))))"

definition execute_now ::
    "env \<Rightarrow> nat \<Rightarrow> nat \<Rightarrow> router_result \<Rightarrow> params \<Rightarrow> string \<Rightarrow> clock \<Rightarrow> sess \<Rightarrow> (exc + response) \<times> sess" where
  "execute_now E sid tid r d lang k s =
     (let o1 = run_tool E (rr_intent r) d (k_tool k);
          s1 = log_call \<lparr>c_via = Direct, c_tool = rr_intent r, c_tier = rr_tier r, c_params = d,
                 c_at = k_tool k, c_pin_ok = False, c_done = outcome_done o1\<rparr> s;
          hyp = (rr_tier r = ''T1'')
      in case o1 of
           Problem msg \<Rightarrow> (Inr (base_response sid tid r (Said msg)), s1)
         | Raised tool_committed \<Rightarrow> (Inl Crash, if tool_committed then commit s1 else s1)
         | Done out \<Rightarrow>
             (let keep = (\<lambda>v. remember [(''asset_id'', pget out ''asset_id''), (''asset_code'', pget out ''asset_code''),
                            (''last_prediction_id'', pget out ''prediction_id''),
                            (''last_explanation_id'', pget out ''explanation_id'')] (k_tool k) v)
              in (Inr ((base_response sid tid r (Composed (rr_intent r) out lang hyp))
                         \<lparr>rs_hypothetical := hyp,
                          rs_navigate := (if rr_intent r = ''navigate_dashboard'' then Some out else None)\<rparr>),
                  on_work (\<lambda>db. case session_get db sid of Some v \<Rightarrow> session_set (keep v) db | None \<Rightarrow> db) s1)))"

definition LOW_TRANSCRIPT_CONFIDENCE :: real where "LOW_TRANSCRIPT_CONFIDENCE = 3 / 5"

definition suggest :: "lib \<Rightarrow> plant \<Rightarrow> string \<Rightarrow> (string \<times> nat) list" where
  "suggest L p t = map (\<lambda>c. (ar_name (cd_ref c), ar_id (cd_ref c))) (rank (l_extract L) t (asset_refs (p_assets p)))"

definition respond ::
    "env \<Rightarrow> lib \<Rightarrow> catalogue \<Rightarrow> plant \<Rightarrow> actor \<Rightarrow> voice_session \<Rightarrow> nat \<Rightarrow> router_result \<Rightarrow> utterance \<Rightarrow> string
       \<Rightarrow> clock \<Rightarrow> sess \<Rightarrow> (exc + response) \<times> sess" where
  "respond E L C p u v tid r ut lang k s =
     (let sid = vs_id v; say = (\<lambda>t. base_response sid tid r t) in
      if (case ut_confidence ut of Some c \<Rightarrow> c < LOW_TRANSCRIPT_CONFIDENCE | None \<Rightarrow> False) then
        (case por (pget (rr_slots r) ''asset'') (PStr (ut_text ut)) of
           PStr t \<Rightarrow>
             (let opts = suggest L p t in
              (Inr ((say (if opts \<noteq> [] then DidYouMean (map fst opts) lang else NotUnderstood lang))
                      \<lparr>rs_suggestions := opts\<rparr>), s))
         | _ \<Rightarrow> (Inl Crash, s))
      else if \<not> understood r then (Inr (say (Help lang)), s)
      else (case resolve_slots L C p v r (k_now k) of
              Inl e \<Rightarrow> (Inl e, s)
            | Inr o1 \<Rightarrow>
                (let s1 = on_work (session_set (ro_session o1)) s in
                 case ro_ask o1 of
                   Some t \<Rightarrow> (Inr ((say t)\<lparr>rs_suggestions := ro_suggestions o1\<rparr>), s1)
                 | None \<Rightarrow>
                     if needs_confirmation (rr_tier r) then
                       (let (rsp, s2) = read_back E L u sid tid r (ro_params o1) lang k s1 in (Inr rsp, s2))
                     else execute_now E sid tid r (ro_params o1) lang k s1)))"

section \<open>Control words\<close>

definition turn_add :: "voice_turn \<Rightarrow> database \<Rightarrow> nat \<times> database" where
  "turn_add t d = (d_next d, d\<lparr>d_turns := t\<lparr>vt_id := d_next d\<rparr> # d_turns d, d_next := Suc (d_next d)\<rparr>)"

definition turn_text :: "nat \<Rightarrow> speech \<Rightarrow> database \<Rightarrow> database" where
  "turn_text i t d =
     d\<lparr>d_turns := map (\<lambda>x. if vt_id x = i then x\<lparr>vt_text := Some t\<rparr> else x) (d_turns d)\<rparr>"

definition last_turn :: "nat \<Rightarrow> database \<Rightarrow> voice_turn option" where
  "last_turn sid d =
     (case sort_key (\<lambda>t. - vt_at t) (filter (\<lambda>t. vt_session t = sid) (d_turns d)) of
        [] \<Rightarrow> None | t # _ \<Rightarrow> Some t)"

definition control_response :: "nat \<Rightarrow> nat \<Rightarrow> string \<Rightarrow> speech \<Rightarrow> response" where
  "control_response sid tid word t =
     \<lparr>rs_session = sid, rs_turn = tid, rs_intent = ''control:'' @ word, rs_tier = ''T0'', rs_text = t,
      rs_action = None, rs_suggestions = [], rs_hypothetical = False, rs_navigate = None\<rparr>"

definition handle_control ::
    "env \<Rightarrow> plant \<Rightarrow> actor \<Rightarrow> voice_session \<Rightarrow> utterance \<Rightarrow> string \<Rightarrow> clock \<Rightarrow> sess \<Rightarrow> (exc + response) \<times> sess" where
  "handle_control E p u v ut word k s =
     (let sid = vs_id v;
          (tid, db) = turn_add \<lparr>vt_id = 0, vt_session = sid, vt_at = k_db k, vt_transcript = ut_text ut,
                        vt_intent = ''control:'' @ word, vt_tier = None, vt_slots = [], vt_text = None\<rparr> (work s);
          s1 = s\<lparr>work := db\<rparr>;
          lang = (case ut_lang ut of Some l \<Rightarrow> l | None \<Rightarrow> vs_lang v);
          answer = (\<lambda>t s'. commit (on_work (turn_text tid t) s'))
      in if word = ''repeat'' then
           (let t = (case last_turn sid (work s1) of
                       Some x \<Rightarrow> (case vt_text x of Some t \<Rightarrow> t | None \<Rightarrow> NotUnderstood lang)
                     | None \<Rightarrow> NotUnderstood lang)
            in (Inr (control_response sid tid word t), answer t s1))
         else (case pending_for_session sid (k_now k) (work s1) of
             None \<Rightarrow>
               (let t = Said ''There is nothing waiting for confirmation.'' in
                (Inr (control_response sid tid word t), answer t s1))
           | Some a \<Rightarrow>
               (case (if word = ''cancel'' then cancel u (va_id a) s1
                      else confirm E p u (va_id a) None lang (k_confirm k) s1) of
                  (Inl e, s2) \<Rightarrow> (Inl e, s2)
                | (Inr rep, s2) \<Rightarrow>
                    (Inr ((control_response sid tid word (re_text rep))\<lparr>rs_action := Some (re_action rep)\<rparr>),
                     answer (re_text rep) s2))))"

section \<open>The endpoints\<close>

definition start_session :: "actor \<Rightarrow> string \<Rightarrow> string \<Rightarrow> sess \<Rightarrow> voice_session \<times> sess" where
  "start_session u channel lang s =
     (let d = ensure_user u (work s);
          v = \<lparr>vs_id = d_next d, vs_user = a_sub u, vs_channel = channel, vs_lang = lang, vs_ended = None,
               vs_context = []\<rparr>
      in (v, commit (s\<lparr>work := d\<lparr>d_sessions := v # d_sessions d, d_next := Suc (d_next d)\<rparr>\<rparr>)))"

definition end_session :: "nat \<Rightarrow> int \<Rightarrow> sess \<Rightarrow> (exc + voice_session) \<times> sess" where
  "end_session sid now s =
     (case session_get (work s) sid of
        None \<Rightarrow> (Inl NotFound, s)
      | Some v \<Rightarrow> (let v' = v\<lparr>vs_ended := Some now\<rparr> in (Inr v', commit (on_work (session_set v') s))))"

text \<open>The turn itself, once the session is known: \<open>route\<close> is the router, asked with the text and the
  language.\<close>

definition take_turn ::
    "env \<Rightarrow> lib \<Rightarrow> catalogue \<Rightarrow> (string \<Rightarrow> string \<Rightarrow> router_result) \<Rightarrow> plant \<Rightarrow> actor \<Rightarrow> voice_session
       \<Rightarrow> utterance \<Rightarrow> clock \<Rightarrow> sess \<Rightarrow> (exc + response) \<times> sess" where
  "take_turn E L C route p u v ut k s =
     (let lang = (case ut_lang ut of Some l \<Rightarrow> l | None \<Rightarrow> vs_lang v);
          s1 = on_work (expire_stale (k_now k)) s;
          r = route (ut_text ut) lang
      in case rr_control r of
           Some word \<Rightarrow> handle_control E p u v ut word k s1
         | None \<Rightarrow>
             (let (tid, db) = turn_add \<lparr>vt_id = 0, vt_session = vs_id v, vt_at = k_db k,
                    vt_transcript = ut_text ut, vt_intent = rr_intent r, vt_tier = Some (rr_tier r),
                    vt_slots = jsonable (rr_slots r), vt_text = None\<rparr> (work s1)
              in case respond E L C p u v tid r ut lang k (s1\<lparr>work := db\<rparr>) of
                   (Inl e, s2) \<Rightarrow> (Inl e, s2)
                 | (Inr rsp, s2) \<Rightarrow> (Inr rsp, commit (on_work (turn_text tid (rs_text rsp)) s2))))"

definition handle ::
    "env \<Rightarrow> lib \<Rightarrow> catalogue \<Rightarrow> (string \<Rightarrow> string \<Rightarrow> router_result) \<Rightarrow> plant \<Rightarrow> actor \<Rightarrow> utterance \<Rightarrow> clock
       \<Rightarrow> sess \<Rightarrow> (exc + response) \<times> sess" where
  "handle E L C route p u ut k s =
     (case (case ut_session ut of
              Some i \<Rightarrow> (case session_get (work s) i of None \<Rightarrow> Inl NotFound | Some v \<Rightarrow> Inr (v, s))
            | None \<Rightarrow> Inr (start_session u (ut_channel ut)
                             (case ut_lang ut of Some l \<Rightarrow> l | None \<Rightarrow> ''en'') s)) of
        Inl e \<Rightarrow> (Inl e, s)
      | Inr (v, s0) \<Rightarrow> take_turn E L C route p u v ut k s0)"

end
