(* ===== verification/Voice_Safety.thy ===== *)
theory Voice_Safety
  imports Voice_Dialogue
begin

text \<open>
  VoiceNav, what holds of every history of requests: nothing of tier T2 or T3 runs without a read-back
  that was confirmed inside its window (and, for T3, a second factor), and each action goes through its
  life cycle once. The life cycle is the abstract machine \<open>life\<close>; the requests refine it. Then what the
  control words and the dialogue context do.
\<close>

section \<open>Requests\<close>

datatype request =
    Start string string
  | EndSession nat int
  | Turn utterance clock
  | ConfirmAction nat "string option" int
  | CancelAction nat

text \<open>Closing the database session drops what was not committed.\<close>

fun serve ::
    "env \<Rightarrow> lib \<Rightarrow> catalogue \<Rightarrow> (string \<Rightarrow> string \<Rightarrow> router_result) \<Rightarrow> plant \<Rightarrow> actor \<Rightarrow> request \<Rightarrow> sess \<Rightarrow> sess" where
  "serve E L C route p u (Start channel lang) s = rollback (snd (start_session u channel lang s))"
| "serve E L C route p u (EndSession sid t) s = rollback (snd (end_session sid t s))"
| "serve E L C route p u (Turn ut k) s = rollback (snd (handle E L C route p u ut k s))"
| "serve E L C route p u (ConfirmAction i pin t) s = rollback (snd (confirm E p u i pin ''en'' t s))"
| "serve E L C route p u (CancelAction i) s = rollback (snd (cancel u i s))"

definition empty_db :: database where
  "empty_db = \<lparr>d_sessions = [], d_turns = [], d_actions = [], d_audits = [], d_users = [], d_next = 0\<rparr>"

definition fresh_sess :: sess where
  "fresh_sess = \<lparr>committed = empty_db, work = empty_db, calls = []\<rparr>"

text \<open>Any user, any plant state, any router answer at each request; the installation is fixed.\<close>

inductive reachable :: "env \<Rightarrow> lib \<Rightarrow> catalogue \<Rightarrow> sess \<Rightarrow> bool" for E L C where
  reach_fresh: "reachable E L C fresh_sess"
| reach_serve: "reachable E L C s \<Longrightarrow> reachable E L C (serve E L C route p u rq s)"

section \<open>The action table as a function\<close>

lemma action_get_id: "action_get d i = Some a \<Longrightarrow> va_id a = i"
  unfolding action_get_def by (drule find_Some_iff [THEN iffD1]) auto

lemma find_map_if:
  "find (\<lambda>a. va_id a = i) (map (\<lambda>b. if va_id b = va_id a then a else b) xs) =
     (if i = va_id a then map_option (\<lambda>_. a) (find (\<lambda>b. va_id b = i) xs) else find (\<lambda>b. va_id b = i) xs)"
  by (induction xs) auto

lemma action_get_set:
  "action_get (action_set a d) i =
     (if i = va_id a then map_option (\<lambda>_. a) (action_get d i) else action_get d i)"
  unfolding action_get_def action_set_def by (simp add: find_map_if)

lemma expire_action_fields [simp]:
  "va_id (expire_action now a) = va_id a" "va_tier (expire_action now a) = va_tier a"
  "va_tool (expire_action now a) = va_tool a" "va_params (expire_action now a) = va_params a"
  "va_expires (expire_action now a) = va_expires a"
  by (simp_all add: expire_action_def)

lemma find_map_same:
  "(\<And>x. va_id (f x) = va_id x) \<Longrightarrow>
     find (\<lambda>a. va_id a = i) (map f xs) = map_option f (find (\<lambda>a. va_id a = i) xs)"
  by (induction xs) auto

lemma action_get_expire: "action_get (expire_stale now d) i = map_option (expire_action now) (action_get d i)"
  unfolding action_get_def expire_stale_def by (simp add: find_map_same)

text \<open>Changes that leave the actions alone.\<close>

definition neutral :: "database \<Rightarrow> database \<Rightarrow> bool" where
  "neutral d d' \<longleftrightarrow> d_actions d' = d_actions d \<and> d_next d \<le> d_next d' \<and> set (d_audits d) \<subseteq> set (d_audits d')"

named_theorems neutrals

lemma neutral_users [neutrals]: "neutral d (ensure_user u d)"
  by (simp add: neutral_def ensure_user_def)

lemma neutral_audit [neutrals]: "neutral d (write_audit u i w d)"
  by (auto simp: neutral_def write_audit_def ensure_user_def Let_def)

lemma neutral_session [neutrals]: "neutral d (session_set v d)"
  by (simp add: neutral_def session_set_def)

lemma neutral_turn_text [neutrals]: "neutral d (turn_text i t d)"
  by (simp add: neutral_def turn_text_def)

lemma neutral_turn_add [neutrals]: "neutral d (snd (turn_add t d))"
  by (simp add: neutral_def turn_add_def)

lemma neutral_get: "neutral d d' \<Longrightarrow> action_get d' i = action_get d i"
  by (simp add: neutral_def action_get_def)

section \<open>The invariant and the life cycle\<close>

definition core :: "voice_action \<Rightarrow> string \<times> string \<times> params \<times> int option" where
  "core a = (va_tool a, va_tier a, va_params a, va_expires a)"

definition row_ok :: "database \<Rightarrow> nat \<Rightarrow> voice_action \<Rightarrow> bool" where
  "row_ok d i a \<longleftrightarrow> i < d_next d \<and> needs_confirmation (va_tier a)
     \<and> (i, ''read_back'') \<in> set (d_audits d) \<and> va_expires a \<noteq> None"

definition call_ok :: "env \<Rightarrow> database \<Rightarrow> tool_call \<Rightarrow> bool" where
  "call_ok E d c \<longleftrightarrow>
     (case c_via c of
        Direct \<Rightarrow> \<not> needs_confirmation (c_tier c)
      | Action i \<Rightarrow> \<exists>a e. action_get d i = Some a \<and> c_tool c = va_tool a \<and> c_tier c = va_tier a
          \<and> c_params c = revive_params (va_params a) \<and> va_expires a = Some e \<and> c_at c < e
          \<and> (needs_second_factor (va_tier a) \<longrightarrow> c_pin_ok c \<and> e_allow_t3 E))"

definition db_ok :: "env \<Rightarrow> database \<Rightarrow> tool_call list \<Rightarrow> bool" where
  "db_ok E d cs \<longleftrightarrow> (\<forall>i a. action_get d i = Some a \<longrightarrow> row_ok d i a) \<and> (\<forall>c \<in> set cs. call_ok E d c)"

definition done_count :: "tool_call list \<Rightarrow> nat \<Rightarrow> nat" where
  "done_count cs i = length (filter (\<lambda>c. c_via c = Action i \<and> c_done c) cs)"

text \<open>What an observer of the ledger sees of an action: its status and how often its tool has completed.\<close>

definition ledger :: "database \<Rightarrow> tool_call list \<Rightarrow> nat \<Rightarrow> (action_status \<times> nat) option" where
  "ledger d cs i = map_option (\<lambda>a. (va_status a, done_count cs i)) (action_get d i)"

inductive life :: "(action_status \<times> nat) option \<Rightarrow> (action_status \<times> nat) option \<Rightarrow> bool" where
  life_stay: "life e e"
| life_read_back: "life None (Some (Pending, 0))"
| life_close: "st \<in> {Expired, Rejected, Cancelled, Confirmed, Failed} \<Longrightarrow>
     life (Some (Pending, n)) (Some (st, n))"
| life_execute: "life (Some (Pending, n)) (Some (Executed, Suc n))"

inductive_simps life_simps: "life x y"

declare life_stay [intro!, simp]

definition refines :: "database \<Rightarrow> tool_call list \<Rightarrow> database \<Rightarrow> tool_call list \<Rightarrow> bool" where
  "refines D cs d cs' \<longleftrightarrow> (\<forall>i. life (ledger D cs i) (ledger d cs' i))"

text \<open>The state during a request that began with the committed database \<open>D\<close> and the calls \<open>cs\<close>.\<close>

definition during :: "env \<Rightarrow> database \<Rightarrow> tool_call list \<Rightarrow> sess \<Rightarrow> bool" where
  "during E D cs s \<longleftrightarrow> db_ok E (committed s) (calls s) \<and> db_ok E (work s) (calls s)
     \<and> refines D cs (committed s) (calls s) \<and> refines D cs (work s) (calls s)"

lemma during_start:
  "db_ok E (committed s) (calls s) \<Longrightarrow> work s = committed s \<Longrightarrow> during E (committed s) (calls s) s"
  by (simp add: during_def refines_def)

lemma during_commit [simp, intro]: "during E D cs s \<Longrightarrow> during E D cs (commit s)"
  by (simp add: during_def commit_def)

lemma during_rollback [simp, intro]: "during E D cs s \<Longrightarrow> during E D cs (rollback s)"
  by (simp add: during_def rollback_def)

lemma call_ok_mono:
  assumes "call_ok E d c" and keep: "\<And>i a. action_get d i = Some a \<Longrightarrow> \<exists>b. action_get d' i = Some b \<and> core b = core a"
  shows "call_ok E d' c"
proof (cases "c_via c")
  case Direct
  with assms(1) show ?thesis by (simp add: call_ok_def)
next
  case (Action i)
  with assms(1) obtain a e where a: "action_get d i = Some a" "c_tool c = va_tool a" "c_tier c = va_tier a"
    "c_params c = revive_params (va_params a)" "va_expires a = Some e" "c_at c < e"
    "needs_second_factor (va_tier a) \<longrightarrow> c_pin_ok c \<and> e_allow_t3 E"
    by (auto simp: call_ok_def)
  from keep [OF a(1)] obtain b where "action_get d' i = Some b" "core b = core a" by blast
  with a Action show ?thesis by (auto simp: call_ok_def core_def)
qed

lemma row_ok_mono:
  "row_ok d i a \<Longrightarrow> d_next d \<le> d_next d' \<Longrightarrow> set (d_audits d) \<subseteq> set (d_audits d') \<Longrightarrow> core b = core a
     \<Longrightarrow> row_ok d' i b"
  by (auto simp: row_ok_def core_def)

lemma neutral_db_ok:
  assumes "neutral d d'" "db_ok E d cs"
  shows "db_ok E d' cs"
  unfolding db_ok_def
proof (intro conjI allI impI ballI)
  fix i a assume "action_get d' i = Some a"
  with assms have "row_ok d i a" by (simp add: db_ok_def neutral_get)
  with assms(1) show "row_ok d' i a" by (auto simp: neutral_def intro: row_ok_mono)
next
  fix c assume "c \<in> set cs"
  with assms(2) have "call_ok E d c" by (simp add: db_ok_def)
  then show "call_ok E d' c" by (rule call_ok_mono) (simp add: neutral_get [OF assms(1)])
qed

lemma neutral_ledger: "neutral d d' \<Longrightarrow> ledger d' cs = ledger d cs"
  by (auto simp: ledger_def neutral_get)

lemma during_neutral:
  assumes "during E D cs s" "neutral (work s) (work s')" "committed s' = committed s" "calls s' = calls s"
  shows "during E D cs s'"
  using assms by (simp add: during_def refines_def neutral_ledger neutral_db_ok)

lemma during_on_work:
  "during E D cs s \<Longrightarrow> (\<And>d. neutral d (f d)) \<Longrightarrow> during E D cs (on_work f s)"
  by (rule during_neutral) (simp_all add: on_work_def)

lemma during_audited [intro]: "during E D cs s \<Longrightarrow> during E D cs (audited u a w s)"
  unfolding audited_def by (rule during_on_work) (simp_all add: neutrals)

lemma db_ok_set:
  assumes "db_ok E d cs" "action_get d (va_id b) = Some a" "core b = core a"
  shows "db_ok E (action_set b d) cs"
  unfolding db_ok_def
proof (intro conjI allI impI ballI)
  fix i x assume "action_get (action_set b d) i = Some x"
  then have "action_get d i = Some (if i = va_id b then a else x)" "core x = core (if i = va_id b then a else x)"
    using assms(2,3) by (auto simp: action_get_set split: if_splits)
  with assms(1) have "row_ok d i (if i = va_id b then a else x)" by (simp only: db_ok_def)
  then show "row_ok (action_set b d) i x"
    by (rule row_ok_mono) (simp_all add: action_set_def \<open>core x = _\<close>)
next
  fix c assume "c \<in> set cs"
  with assms(1) have "call_ok E d c" by (simp add: db_ok_def)
  then show "call_ok E (action_set b d) c"
    by (rule call_ok_mono) (use assms(2,3) in \<open>auto simp: action_get_set\<close>)
qed

lemma refines_set:
  assumes "refines D cs d cs'" "action_get d (va_id b) = Some a"
    and "life (ledger D cs (va_id b)) (Some (va_status b, done_count cs' (va_id b)))"
  shows "refines D cs (action_set b d) cs'"
  using assms by (auto simp: refines_def ledger_def action_get_set)

lemma during_save:
  assumes "during E D cs s" "action_get (work s) (va_id b) = Some a" "core b = core a"
    and "life (ledger D cs (va_id b)) (Some (va_status b, done_count (calls s) (va_id b)))"
  shows "during E D cs (save b s)"
  using assms by (simp add: during_def save_def on_work_def db_ok_set refines_set)

lemma done_count_append:
  "done_count (cs @ [c]) i = done_count cs i + (if c_via c = Action i \<and> c_done c then 1 else 0)"
  by (simp add: done_count_def)

lemma ledger_append:
  "\<not> (c_via c = Action i \<and> c_done c) \<Longrightarrow> ledger d (cs @ [c]) i = ledger d cs i"
  by (cases "action_get d i") (auto simp: ledger_def done_count_append)

lemma during_log:
  assumes "during E D cs s" "call_ok E (committed s) c" "call_ok E (work s) c"
    and "\<not> c_done c \<or> c_via c = Direct"
  shows "during E D cs (log_call c s)"
  using assms by (auto simp: during_def log_call_def db_ok_def refines_def ledger_append)

text \<open>A confirmation that finds the row in the committed table too, and pending since the request began.\<close>

definition ripe :: "database \<Rightarrow> tool_call list \<Rightarrow> sess \<Rightarrow> nat \<Rightarrow> bool" where
  "ripe D cs s i \<longleftrightarrow> calls s = cs
     \<and> (\<forall>a. action_get (work s) i = Some a \<longrightarrow>
          (\<exists>b. action_get (committed s) i = Some b \<and> core b = core a)
          \<and> (va_status a = Pending \<longrightarrow> (\<exists>c. action_get D i = Some c \<and> va_status c = Pending)))"

lemma ripe_ledger:
  "ripe D cs s i \<Longrightarrow> action_get (work s) i = Some a \<Longrightarrow> va_status a = Pending \<Longrightarrow>
     ledger D cs i = Some (Pending, done_count cs i)"
  by (auto simp: ripe_def ledger_def)

lemma during_close:
  assumes "during E D cs s" "ripe D cs s i" "action_get (work s) i = Some a" "va_status a = Pending"
    and "core b = core a" "va_id b = i" "va_status b \<in> {Expired, Rejected, Cancelled, Confirmed, Failed}"
  shows "during E D cs (save b s)"
proof (rule during_save)
  show "life (ledger D cs (va_id b)) (Some (va_status b, done_count (calls s) (va_id b)))"
    using assms ripe_ledger [OF assms(2-4)] by (auto simp: ripe_def intro: life_close)
qed (use assms in auto)

lemma cancel_during:
  assumes "during E D cs s" "ripe D cs s i"
  shows "during E D cs (snd (cancel u i s))"
proof (cases "action_get (work s) i")
  case None
  with assms show ?thesis by (simp add: cancel_def)
next
  case (Some a)
  let ?b = "a\<lparr>va_status := Cancelled\<rparr>"
  show ?thesis
  proof (cases "va_status a = Pending")
    case True
    have "during E D cs (save ?b s)"
      by (rule during_close [OF assms Some True]) (simp_all add: core_def action_get_id [OF Some])
    with True Some show ?thesis by (simp add: cancel_def Let_def during_audited)
  qed (use assms Some in \<open>simp add: cancel_def\<close>)
qed

lemma factor_gate_Inr:
  assumes "factor_gate E u pin a s = Inr a1"
  shows "va_id a1 = va_id a" "core a1 = core a" "va_status a1 = va_status a"
    and "needs_second_factor (va_tier a1) \<Longrightarrow> e_allow_t3 E \<and> va_factor_ok a1 = Some True"
  using assms
  by (auto simp: factor_gate_def core_def Let_def split: if_splits sum.splits bool.splits)

lemma factor_gate_Inl:
  assumes "factor_gate E u pin a s = Inl (e, s')" "during E D cs s" "ripe D cs s i"
    "action_get (work s) i = Some a" "va_status a = Pending"
  shows "during E D cs s'"
proof -
  have close: "during E D cs (save b s)"
    if "core b = core a" "va_id b = va_id a" "va_status b = Rejected" for b
    by (rule during_close [OF assms(2-5)]) (use that action_get_id [OF assms(4)] in auto)
  from assms(1,2) show ?thesis
    by (auto simp: factor_gate_def Let_def core_def intro!: during_commit during_audited close
        split: if_splits sum.splits bool.splits)
qed

lemma execute_during:
  assumes dur: "during E D cs s" and ripe: "ripe D cs s i" and get: "action_get (work s) i = Some a"
    and pend: "va_status a = Pending" and a1: "core a1 = core a" "va_id a1 = i"
    and window: "va_expires a = Some e" "now < e"
    and factor: "needs_second_factor (va_tier a) \<Longrightarrow> e_allow_t3 E \<and> va_factor_ok a1 = Some True"
  shows "during E D cs (snd (execute_action E u lang now a1 s))"
proof -
  define a' where "a' = a1\<lparr>va_status := Confirmed, va_confirmed_at := Some now\<rparr>"
  define r where "r = run_tool E (va_tool a1) (revive_params (va_params a1)) now"
  define c where "c = \<lparr>c_via = Action (va_id a1), c_tool = va_tool a1, c_tier = va_tier a1,
    c_params = revive_params (va_params a1), c_at = now, c_pin_ok = (va_factor_ok a1 = Some True),
    c_done = outcome_done r\<rparr>"
  define s' where "s' = log_call c (save a' s)"
  have core': "core a' = core a" "va_id a' = i" using a1 by (simp_all add: a'_def core_def)
  have saved: "during E D cs (save a' s)"
    by (rule during_close [OF dur ripe get pend core']) (simp add: a'_def)
  have get': "action_get (work s') i = Some a'"
    using get core' by (simp add: s'_def log_call_def save_def on_work_def action_get_set)
  obtain b where b: "action_get (committed s) i = Some b" "core b = core a"
    using ripe get by (auto simp: ripe_def)
  have c_ok: "call_ok E d c" if "action_get d i = Some x" "core x = core a" for d x
    using that a1 window factor by (auto simp: call_ok_def c_def core_def)
  have c_com: "call_ok E (committed s) c" by (rule c_ok [OF b])
  have c_work: "call_ok E (work (save a' s)) c"
    by (rule c_ok [of _ a']) (use get core' in \<open>simp_all add: save_def on_work_def action_get_set\<close>)
  have ledger: "ledger D cs i = Some (Pending, done_count cs i)" by (rule ripe_ledger [OF ripe get pend])
  have cs: "calls s = cs" using ripe by (simp add: ripe_def)
  have exec: "execute_action E u lang now a1 s =
     (case r of
        Done out \<Rightarrow> (let b = a'\<lparr>va_status := Executed, va_executed_at := Some now, va_result := Some (jsonable out)\<rparr>
           in (Inr \<lparr>re_action = b, re_text = Composed (va_tool a1) out lang False\<rparr>,
               commit (audited u b ''executed'' (save b s'))))
      | Problem msg \<Rightarrow> (let b = a'\<lparr>va_status := Failed, va_error := Some msg\<rparr>
           in (Inr \<lparr>re_action = b, re_text = Said msg\<rparr>, commit (audited u b ''failed'' (save b s'))))
      | Raised tc \<Rightarrow> (Inl Crash, if tc then commit s' else s'))"
    unfolding execute_action_def Let_def a'_def r_def c_def s'_def by simp
  show ?thesis
  proof (cases r)
    case (Done out)
    define b' where "b' = a'\<lparr>va_status := Executed, va_executed_at := Some now, va_result := Some (jsonable out)\<rparr>"
    have b': "core b' = core a'" "va_id b' = i" "va_status b' = Executed"
      using core' by (simp_all add: b'_def core_def)
    have w: "work (save b' s') = action_set b' (work s')" "calls (save b' s') = cs @ [c]"
      using cs by (simp_all add: save_def on_work_def s'_def log_call_def)
    have sw: "work s' = work (save a' s)" by (simp add: s'_def log_call_def)
    from saved have "db_ok E (work s') (calls s)" by (simp add: during_def sw save_def on_work_def)
    with c_work sw cs have "db_ok E (work s') (cs @ [c])" by (simp add: db_ok_def)
    then have db: "db_ok E (action_set b' (work s')) (cs @ [c])"
      using get' b' by (intro db_ok_set) auto
    have "refines D cs (action_set b' (work s')) (cs @ [c])"
      unfolding refines_def
    proof
      fix j
      show "life (ledger D cs j) (ledger (action_set b' (work s')) (cs @ [c]) j)"
      proof (cases "j = i")
        case True
        have "done_count (cs @ [c]) i = Suc (done_count cs i)"
          using a1 Done by (simp add: done_count_append c_def)
        with get' b' have "ledger (action_set b' (work s')) (cs @ [c]) i = Some (Executed, Suc (done_count cs i))"
          by (simp add: ledger_def action_get_set)
        with ledger True show ?thesis by (simp only: life_execute)
      next
        case False
        have "life (ledger D cs j) (ledger (work (save a' s)) cs j)"
          using saved cs by (simp add: during_def refines_def save_def on_work_def)
        moreover have "ledger (action_set b' (work s')) (cs @ [c]) j = ledger (work (save a' s)) cs j"
          using False b' a1 by (simp add: ledger_def action_get_set sw done_count_append c_def)
        ultimately show ?thesis by simp
      qed
    qed
    with db w have settled: "during E D cs (commit (save b' s'))"
      by (simp add: during_def commit_def)
    have "during E D cs (commit (audited u b' ''executed'' (save b' s')))"
      using settled unfolding during_def commit_def audited_def on_work_def
      by (simp add: refines_def neutral_ledger [OF neutral_audit] neutral_db_ok [OF neutral_audit])
    then show ?thesis unfolding exec Done by (simp add: Let_def b'_def)
  next
    case (Problem msg)
    have s': "during E D cs s'"
      unfolding s'_def by (rule during_log [OF saved]) (use c_com c_work Problem in \<open>simp_all add: c_def save_def on_work_def\<close>)
    define b' where "b' = a'\<lparr>va_status := Failed, va_error := Some msg\<rparr>"
    have "during E D cs (save b' s')"
    proof (rule during_save [OF s'])
      show "action_get (work s') (va_id b') = Some a'" using get' core' by (simp add: b'_def)
      have "done_count (calls s') i = done_count cs i"
        using cs Problem by (simp add: s'_def log_call_def save_def on_work_def done_count_append c_def)
      then show "life (ledger D cs (va_id b')) (Some (va_status b', done_count (calls s') (va_id b')))"
        using core' ledger by (simp add: b'_def life_close)
    qed (simp add: b'_def core_def)
    then show ?thesis unfolding exec Problem by (simp add: Let_def b'_def during_audited)
  next
    case (Raised tc)
    have "during E D cs s'"
      unfolding s'_def by (rule during_log [OF saved]) (use c_com c_work Raised in \<open>simp_all add: c_def save_def on_work_def\<close>)
    then show ?thesis unfolding exec Raised by simp
  qed
qed

lemma confirm_during:
  assumes dur: "during E D cs s" and ripe: "ripe D cs s i"
  shows "during E D cs (snd (confirm E p u i pin lang now s))"
proof (cases "action_get (work s) i")
  case None
  with dur show ?thesis by (simp add: confirm_def)
next
  case (Some a)
  note get = this
  have id: "va_id a = i" by (rule action_get_id [OF get])
  from dur get have "row_ok (work s) i a" by (simp add: during_def db_ok_def)
  then obtain e where e: "va_expires a = Some e" by (auto simp: row_ok_def)
  show ?thesis
  proof (cases "va_status a = Pending")
    case False
    with dur get show ?thesis by (simp add: confirm_def)
  next
    case True
    note close = during_close [OF dur ripe get True]
    show ?thesis
    proof (cases "e \<le> now")
      case closed: True
      have "during E D cs (save (a\<lparr>va_status := Expired\<rparr>) s)"
        by (rule close) (simp_all add: core_def id)
      with closed True get e show ?thesis by (simp add: confirm_def during_commit)
    next
      case open_window: False
      show ?thesis
      proof (cases "factor_gate E u pin a s")
        case (Inl es)
        obtain ex s' where es: "es = (ex, s')" by (cases es)
        with factor_gate_Inl [OF _ dur ripe get True] Inl have "during E D cs s'" by blast
        with Inl es True get e open_window show ?thesis by (simp add: confirm_def)
      next
        case (Inr a1)
        note a1 = factor_gate_Inr [OF Inr]
        show ?thesis
        proof (cases "validate p a1 now")
          case (Inl ex)
          with Inr dur True get e open_window show ?thesis by (simp add: confirm_def)
        next
          case valid: (Inr errs)
          show ?thesis
          proof (cases errs)
            case Nil
            have "during E D cs (snd (execute_action E u lang now a1 s))"
            proof (rule execute_during [OF dur ripe get True a1(2)])
              show "va_id a1 = i" using a1(1) id by simp
              show "now < e" using open_window by simp
              show "e_allow_t3 E \<and> va_factor_ok a1 = Some True" if "needs_second_factor (va_tier a)"
                using a1(2,4) that by (simp add: core_def)
            qed (rule e)
            with Nil valid Inr True get e open_window show ?thesis by (simp add: confirm_def)
          next
            case (Cons er ers)
            have "during E D cs (save (a1\<lparr>va_status := Rejected, va_errors := Some errs\<rparr>) s)"
              by (rule close) (use a1(1,2) id in \<open>simp_all add: core_def\<close>)
            then have "during E D cs (audited u (a1\<lparr>va_status := Rejected, va_errors := Some errs\<rparr>) ''rejected''
                (save (a1\<lparr>va_status := Rejected, va_errors := Some errs\<rparr>) s))"
              by (rule during_audited)
            with Cons valid Inr True get e open_window show ?thesis
              by (simp add: confirm_def Let_def during_commit)
          qed
        qed
      qed
    qed
  qed
qed

text \<open>After a reply, everything is committed.\<close>

lemma settle_simps [simp]:
  "work (commit s) = committed (commit s)"
  by (simp add: commit_def)

section \<open>Turns\<close>

lemma during_expire:
  assumes "during E D cs s" "calls s = cs" "work s = D"
  shows "during E D cs (on_work (expire_stale now) s)"
proof -
  have "db_ok E (expire_stale now D) cs"
    unfolding db_ok_def
  proof (intro conjI allI impI ballI)
    fix i a assume "action_get (expire_stale now D) i = Some a"
    then obtain b where b: "action_get D i = Some b" "a = expire_action now b" by (auto simp: action_get_expire)
    with assms have "row_ok D i b" by (simp add: during_def db_ok_def)
    then show "row_ok (expire_stale now D) i a"
      by (rule row_ok_mono) (simp_all add: b core_def expire_stale_def)
  next
    fix c assume "c \<in> set cs"
    with assms have "call_ok E D c" by (simp add: during_def db_ok_def)
    then show "call_ok E (expire_stale now D) c"
      by (rule call_ok_mono) (simp add: action_get_expire core_def)
  qed
  moreover have "refines D cs (expire_stale now D) cs"
    unfolding refines_def
  proof
    fix i
    show "life (ledger D cs i) (ledger (expire_stale now D) cs i)"
      by (cases "action_get D i")
        (auto simp: ledger_def action_get_expire expire_action_def intro: life_close)
  qed
  ultimately show ?thesis using assms by (simp add: during_def on_work_def)
qed

lemma ripe_expired:
  assumes "calls s = cs" and "\<And>i. action_get (work s) i = map_option (expire_action now) (action_get D i)"
    and "\<And>i. action_get (committed s) i = action_get D i"
  shows "ripe D cs s i"
  using assms by (auto simp: ripe_def core_def expire_action_def split: if_splits)

lemma handle_control_during:
  assumes dur: "during E D cs s" and cs: "calls s = cs"
    and get: "\<And>i. action_get (work s) i = map_option (expire_action now) (action_get D i)"
    and com: "\<And>i. action_get (committed s) i = action_get D i"
  shows "during E D cs (snd (handle_control E p u v ut word k s))"
proof -
  define t where "t = \<lparr>vt_id = 0, vt_session = vs_id v, vt_at = k_db k, vt_transcript = ut_text ut,
    vt_intent = ''control:'' @ word, vt_tier = None, vt_slots = [], vt_text = None\<rparr>"
  obtain tid db where add: "turn_add t (work s) = (tid, db)" by force
  define s1 where "s1 = s\<lparr>work := db\<rparr>"
  define lang where "lang = (case ut_lang ut of Some l \<Rightarrow> l | None \<Rightarrow> vs_lang v)"
  have neutral: "neutral (work s) db" using neutral_turn_add [of "work s" t] add by simp
  have dur1: "during E D cs s1"
    by (rule during_neutral [OF dur]) (use neutral in \<open>simp_all add: s1_def\<close>)
  have ripe1: "ripe D cs s1 i" for i
    by (rule ripe_expired) (use cs get com neutral in \<open>simp_all add: s1_def neutral_get\<close>)
  have answer: "during E D cs (commit (on_work (turn_text tid x) s'))" if "during E D cs s'" for x s'
    by (rule during_commit, rule during_on_work [OF that]) (simp add: neutrals)
  note unfold = handle_control_def Let_def t_def [symmetric] add prod.case s1_def [symmetric] lang_def [symmetric]
  show ?thesis
  proof (cases "word = ''repeat''")
    case True
    then show ?thesis unfolding unfold by (simp add: answer [OF dur1])
  next
    case False
    show ?thesis
    proof (cases "pending_for_session (vs_id v) (k_now k) (work s1)")
      case None
      with False show ?thesis unfolding unfold by (simp add: answer [OF dur1])
    next
      case (Some a)
      define out where "out = (if word = ''cancel'' then cancel u (va_id a) s1
        else confirm E p u (va_id a) None lang (k_confirm k) s1)"
      have "during E D cs (snd out)"
        using cancel_during [OF dur1 ripe1] confirm_during [OF dur1 ripe1] by (simp add: out_def)
      moreover obtain r s2 where "out = (r, s2)" by force
      ultimately show ?thesis using False Some
        unfolding unfold by (cases r) (simp_all add: out_def [symmetric] answer)
    qed
  qed
qed

lemma life_None: "life x None \<longleftrightarrow> x = None"
  by (auto simp: life_simps)

lemma fresh_action:
  assumes "db_ok E d cs" and "d_next d \<le> n"
  shows "action_get d n = None" "done_count cs n = 0"
proof -
  show none: "action_get d n = None"
  proof (cases "action_get d n")
    case (Some a)
    with assms(1) have "row_ok d n a" by (simp add: db_ok_def)
    with assms(2) show ?thesis by (simp add: row_ok_def)
  qed
  have "c_via c \<noteq> Action n" if "c \<in> set cs" for c
  proof
    assume "c_via c = Action n"
    moreover from assms(1) that have "call_ok E d c" by (simp add: db_ok_def)
    ultimately show False using none by (simp add: call_ok_def)
  qed
  then show "done_count cs n = 0" by (simp add: done_count_def filter_empty_conv)
qed

lemma read_back_during:
  assumes dur: "during E D cs s" and cs: "calls s = cs" and tier: "needs_confirmation (rr_tier r)"
  shows "during E D cs (snd (read_back E L u sid tid r d lang k s))"
proof (cases "needs_second_factor (rr_tier r) \<and> \<not> e_allow_t3 E")
  case True
  with dur show ?thesis by (simp add: read_back_def)
next
  case False
  define W where "W = work s"
  define rb where "rb = readback L (rr_intent r) (merge d (rr_slots r)) lang"
  define a where "a = \<lparr>va_id = d_next W, va_turn = tid, va_tool = rr_intent r, va_params = jsonable d,
    va_tier = rr_tier r, va_readback = rb, va_status = Pending, va_errors = None,
    va_expires = Some (k_now k + CONFIRM_WINDOW), va_confirmed_at = None, va_factor_ok = None,
    va_executed_at = None, va_result = None, va_error = None, va_created = k_db k\<rparr>"
  define W' where "W' = write_audit u (d_next W) ''read_back'' (W\<lparr>d_actions := a # d_actions W, d_next := Suc (d_next W)\<rparr>)"
  have eq: "snd (read_back E L u sid tid r d lang k s) = s\<lparr>work := W'\<rparr>"
    using False unfolding read_back_def
    by (auto simp: action_create_def Let_def audited_def on_work_def W'_def W_def a_def rb_def)
  have ok: "db_ok E W cs" using dur cs by (simp add: during_def W_def)
  note fresh = fresh_action [OF ok order_refl]
  have get: "action_get W' i = (if i = d_next W then Some a else action_get W i)" for i
    unfolding W'_def neutral_get [OF neutral_audit] by (simp add: action_get_def a_def)
  have W': "d_next W \<le> d_next W'" "set (d_audits W) \<subseteq> set (d_audits W')" "d_next W < d_next W'"
    "(d_next W, ''read_back'') \<in> set (d_audits W')"
    by (auto simp: W'_def write_audit_def Let_def ensure_user_def)
  have "db_ok E W' cs"
    unfolding db_ok_def
  proof (intro conjI allI impI ballI)
    fix i b assume b: "action_get W' i = Some b"
    show "row_ok W' i b"
    proof (cases "i = d_next W")
      case True
      with b get W' tier show ?thesis by (auto simp: row_ok_def a_def)
    next
      case False
      with b get ok have "row_ok W i b" by (simp add: db_ok_def)
      then show ?thesis by (rule row_ok_mono) (use W' in simp_all)
    qed
  next
    fix c assume "c \<in> set cs"
    with ok have "call_ok E W c" by (simp add: db_ok_def)
    then show "call_ok E W' c" by (rule call_ok_mono) (use get fresh in auto)
  qed
  moreover have "refines D cs W' cs"
    unfolding refines_def
  proof
    fix i
    have W: "life (ledger D cs i) (ledger W cs i)" using dur cs by (simp add: during_def refines_def W_def)
    show "life (ledger D cs i) (ledger W' cs i)"
    proof (cases "i = d_next W")
      case True
      with W fresh have "ledger D cs i = None" by (simp add: ledger_def life_None)
      moreover from True fresh get have "ledger W' cs i = Some (Pending, 0)" by (simp add: ledger_def a_def)
      ultimately show ?thesis by (simp only: life_read_back)
    next
      case False
      with get have "ledger W' cs i = ledger W cs i" by (simp add: ledger_def)
      with W show ?thesis by simp
    qed
  qed
  ultimately show ?thesis unfolding eq using dur cs by (simp add: during_def)
qed

lemma execute_now_during:
  assumes dur: "during E D cs s" and tier: "\<not> needs_confirmation (rr_tier r)"
  shows "during E D cs (snd (execute_now E sid tid r d lang k s))"
proof -
  have log: "during E D cs (log_call c s)" if "c_via c = Direct" "c_tier c = rr_tier r" for c
    by (rule during_log [OF dur]) (use that tier in \<open>simp_all add: call_ok_def\<close>)
  have keep: "neutral db (case session_get db sid of Some v \<Rightarrow> session_set (f v) db | None \<Rightarrow> db)" for db f
    by (cases "session_get db sid") (simp_all add: neutrals neutral_def session_set_def)
  have "during E D cs (on_work (\<lambda>db. case session_get db sid of Some v \<Rightarrow> session_set (f v) db | None \<Rightarrow> db)
      (log_call c s))" if "c_via c = Direct" "c_tier c = rr_tier r" for f c
    by (rule during_on_work [OF log [OF that]]) (rule keep)
  with log show ?thesis
    unfolding execute_now_def Let_def by (simp split: tool_outcome.split)
qed

lemma respond_during:
  assumes dur: "during E D cs s" and cs: "calls s = cs"
  shows "during E D cs (snd (respond E L C p u v tid r ut lang k s))"
proof -
  have set: "during E D cs (on_work (session_set x) s)" for x
    by (rule during_on_work [OF dur]) (simp add: neutrals)
  have act: "during E D cs (snd (if needs_confirmation (rr_tier r)
      then (let (rsp, s2) = read_back E L u sid tid r d lang k (on_work (session_set x) s) in (Inr rsp, s2))
      else execute_now E sid tid r d lang k (on_work (session_set x) s)))" for d x sid
    using read_back_during [OF set] execute_now_during [OF set] cs
    by (simp add: case_prod_beta on_work_def)
  define low where "low = (case ut_confidence ut of Some c \<Rightarrow> c < LOW_TRANSCRIPT_CONFIDENCE | None \<Rightarrow> False)"
  consider "low" | "\<not> low" "\<not> understood r" | "\<not> low" "understood r" by blast
  then show ?thesis
  proof cases
    case 1
    then show ?thesis unfolding respond_def Let_def low_def [symmetric]
      using dur by (simp split: pval.split)
  next
    case 2
    then show ?thesis unfolding respond_def Let_def low_def [symmetric] using dur by simp
  next
    case 3
    show ?thesis
    proof (cases "resolve_slots L C p v r (k_now k)")
      case (Inl e)
      with 3 show ?thesis unfolding respond_def Let_def low_def [symmetric] using dur by simp
    next
      case (Inr o1)
      show ?thesis
      proof (cases "ro_ask o1")
        case None
        with 3 Inr show ?thesis unfolding respond_def Let_def low_def [symmetric]
          using act [unfolded Let_def] by simp
      next
        case (Some t)
        with 3 Inr show ?thesis unfolding respond_def Let_def low_def [symmetric] using set by simp
      qed
    qed
  qed
qed

lemma start_session_during:
  assumes "during E D cs s"
  shows "during E D cs (snd (start_session u ch lang s))"
proof -
  define d where "d = ensure_user u (work s)"
  have n: "neutral (work s) d" by (simp add: d_def neutrals)
  have "during E D cs (s\<lparr>work := d\<lparr>d_sessions := x # d_sessions d, d_next := Suc (d_next d)\<rparr>\<rparr>)" for x
    by (rule during_neutral [OF assms]) (use n in \<open>auto simp: neutral_def\<close>)
  then show ?thesis by (simp add: start_session_def Let_def d_def)
qed

lemma start_session_frame:
  "calls (snd (start_session u ch lang s)) = calls s"
  "action_get (work (snd (start_session u ch lang s))) i = action_get (work s) i"
  "action_get (committed (snd (start_session u ch lang s))) i = action_get (work s) i"
  by (simp_all add: start_session_def Let_def commit_def action_get_def ensure_user_def)

lemma take_turn_during:
  assumes dur: "during E D cs s" and cs: "calls s = cs"
    and "\<And>i. action_get (work s) i = action_get D i" "\<And>i. action_get (committed s) i = action_get D i"
    and exp: "during E D cs (on_work (expire_stale (k_now k)) s)"
  shows "during E D cs (snd (take_turn E L C route p u v ut k s))"
proof -
  define lang where "lang = (case ut_lang ut of Some l \<Rightarrow> l | None \<Rightarrow> vs_lang v)"
  define s1 where "s1 = on_work (expire_stale (k_now k)) s"
  define r where "r = route (ut_text ut) lang"
  define t where "t = \<lparr>vt_id = 0, vt_session = vs_id v, vt_at = k_db k, vt_transcript = ut_text ut,
    vt_intent = rr_intent r, vt_tier = Some (rr_tier r), vt_slots = jsonable (rr_slots r), vt_text = None\<rparr>"
  note unfold = take_turn_def Let_def lang_def [symmetric] s1_def [symmetric] r_def [symmetric] t_def [symmetric]
  have s1: "calls s1 = cs" "committed s1 = committed s"
      "action_get (work s1) i = map_option (expire_action (k_now k)) (action_get D i)" for i
    using assms(2,3) by (simp_all add: s1_def on_work_def action_get_expire)
  have dur1: "during E D cs s1" using exp by (simp add: s1_def)
  show ?thesis
  proof (cases "rr_control r")
    case (Some word)
    have "during E D cs (snd (handle_control E p u v ut word k s1))"
      by (rule handle_control_during [OF dur1]) (use s1 assms(4) in simp_all)
    with Some show ?thesis unfolding unfold by simp
  next
    case None
    obtain tid db where add: "turn_add t (work s1) = (tid, db)" by force
    have "during E D cs (s1\<lparr>work := db\<rparr>)"
      by (rule during_neutral [OF dur1]) (use neutral_turn_add [of "work s1" t] add in simp_all)
    from respond_during [OF this, of L C p u v tid r ut lang k] s1(1)
    have resp: "during E D cs (snd (respond E L C p u v tid r ut lang k (s1\<lparr>work := db\<rparr>)))" by simp
    obtain x s2 where out: "respond E L C p u v tid r ut lang k (s1\<lparr>work := db\<rparr>) = (x, s2)" by force
    have "during E D cs (commit (on_work (turn_text tid y) s2))" for y
      by (rule during_commit, rule during_on_work) (use resp out in \<open>simp_all add: neutrals\<close>)
    with resp None show ?thesis unfolding unfold by (cases x) (simp_all add: add out)
  qed
qed

lemma handle_during:
  assumes ok: "db_ok E D (calls s)" and com: "committed s = D" and settled: "work s = D"
  shows "during E D (calls s) (snd (handle E L C route p u ut k s))"
proof -
  have dur0: "during E D (calls s) s" using during_start [of E s] ok com settled by simp
  show ?thesis
  proof (cases "ut_session ut")
    case (Some i)
    have "during E D (calls s) (snd (take_turn E L C route p u v ut k s))" for v
      by (rule take_turn_during [OF dur0 refl _ _ during_expire [OF dur0 refl settled]])
        (simp_all add: com settled)
    with Some dur0 show ?thesis by (cases "session_get (work s) i") (simp_all add: handle_def)
  next
    case None
    define lang where "lang = (case ut_lang ut of Some l \<Rightarrow> l | None \<Rightarrow> ''en'')"
    obtain v s0 where st: "start_session u (ut_channel ut) lang s = (v, s0)" by force
    note frame = start_session_frame [of u "ut_channel ut" lang s, unfolded st snd_conv]
    have dur: "during E D (calls s) s0" using start_session_during [OF dur0, of u "ut_channel ut" lang] st by simp
    have same: "work s0 = committed s0" using st by (auto simp: start_session_def Let_def)
    have "during E (committed s0) (calls s0) (on_work (expire_stale (k_now k)) s0)"
      by (rule during_expire [OF during_start refl]) (use dur same in \<open>simp_all add: during_def\<close>)
    moreover have "ledger (committed s0) (calls s0) = ledger D (calls s)"
      using frame settled com by (simp add: ledger_def fun_eq_iff)
    ultimately have exp: "during E D (calls s) (on_work (expire_stale (k_now k)) s0)"
      by (simp add: during_def refines_def)
    have "during E D (calls s) (snd (take_turn E L C route p u v ut k s0))"
      by (rule take_turn_during [OF dur _ _ _ exp]) (use frame settled in simp_all)
    with None st show ?thesis by (simp add: handle_def lang_def)
  qed
qed

lemma ripe_start: "committed s = D \<Longrightarrow> work s = D \<Longrightarrow> ripe D (calls s) s i"
  by (auto simp: ripe_def)

lemma serve_during:
  assumes ok: "db_ok E (committed s) (calls s)" and settled: "work s = committed s"
  shows "during E (committed s) (calls s) (serve E L C route p u rq s)"
proof -
  note dur = during_start [OF assms]
  show ?thesis
  proof (cases rq)
    case (Start ch lang)
    then show ?thesis using start_session_during [OF dur] by simp
  next
    case (EndSession sid t)
    have "during E (committed s) (calls s) (snd (end_session sid t s))"
      unfolding end_session_def Let_def
      by (auto simp: dur split: option.split intro!: during_commit during_on_work [OF dur] neutrals)
    with EndSession show ?thesis by simp
  next
    case (Turn ut k)
    then show ?thesis using handle_during [OF ok refl settled] by simp
  next
    case (ConfirmAction i pin t)
    then show ?thesis using confirm_during [OF dur ripe_start [OF refl settled]] by simp
  next
    case (CancelAction i)
    then show ?thesis using cancel_during [OF dur ripe_start [OF refl settled]] by simp
  qed
qed

lemma serve_settled [simp]: "work (serve E L C route p u rq s) = committed (serve E L C route p u rq s)"
  by (cases rq) (simp_all add: rollback_def)

lemma reachable_ok: "reachable E L C s \<Longrightarrow> db_ok E (committed s) (calls s) \<and> work s = committed s"
proof (induction rule: reachable.induct)
  case reach_fresh
  show ?case by (simp add: fresh_sess_def db_ok_def empty_db_def action_get_def)
next
  case (reach_serve s route p u rq)
  then show ?case using serve_during [of E s] by (simp add: during_def)
qed

section \<open>Properties\<close>


text \<open>
  Property C12. The requests refine the life cycle of an action: it appears pending, with its tool never
  run; from pending it is executed, its tool having completed exactly once more, or closed as expired,
  rejected, cancelled, failed (or left confirmed, when the tool committed and then raised); a closed or
  executed action never changes again, so no action completes its tool twice.
\<close>

theorem action_life_cycle:
  assumes "reachable E L C s"
  shows "life (ledger (committed s) (calls s) i)
     (ledger (committed (serve E L C route p u rq s)) (calls (serve E L C route p u rq s)) i)"
  using serve_during [of E s L C route p u rq] reachable_ok [OF assms]
  by (simp add: during_def refines_def)

lemma pending_add_turn:
  assumes "\<forall>b \<in> set (d_actions d). va_turn b < d_next d"
  shows "pending_for_session sid now (snd (turn_add t d)) = pending_for_session sid now d"
proof -
  have "filter (\<lambda>a. turn_session (snd (turn_add t d)) (va_turn a) = Some sid \<and> P a) (d_actions d) =
      filter (\<lambda>a. turn_session d (va_turn a) = Some sid \<and> P a) (d_actions d)" for P
    by (rule filter_cong [OF refl]) (use assms in \<open>auto simp: turn_session_def turn_add_def\<close>)
  then show ?thesis by (simp add: pending_for_session_def turn_add_def)
qed

lemma confirm_executes:
  assumes get: "action_get (work s) i = Some a" and "va_status a = Pending"
    and "va_tier a = ''T2''" and "validate p a now = Inr []" and "va_expires a = Some e" and "now < e"
    and tool: "run_tool E (va_tool a) (revive_params (va_params a)) now = Done out"
  shows "\<exists>rep b c. confirm E p u i pin lang now s = (Inr rep, snd (confirm E p u i pin lang now s))
     \<and> action_get (work (snd (confirm E p u i pin lang now s))) i = Some b \<and> va_status b = Executed
     \<and> calls (snd (confirm E p u i pin lang now s)) = calls s @ [c] \<and> c_via c = Action i \<and> c_done c
     \<and> c_tool c = va_tool a"
proof -
  have eq: "confirm E p u i pin lang now s = execute_action E u lang now a s"
    using assms by (simp add: confirm_def factor_gate_def needs_second_factor_def)
  show ?thesis
    unfolding eq execute_action_def Let_def tool
    using get action_get_id [OF get]
    by (simp add: commit_def audited_def save_def on_work_def log_call_def
        neutral_get [OF neutral_audit] action_get_set)
qed

text \<open>
  Any control word other than \<open>repeat\<close> and \<open>cancel\<close> executes the session's pending
  read-back: with a valid T2 action pending inside its window, the tool runs and the action ends
  executed. The router also answers \<open>slower\<close> (the operator asked to hear it again, more slowly), so that
  word confirms too.
\<close>

theorem control_word_executes:
  assumes "word \<noteq> ''repeat''" and "word \<noteq> ''cancel''"
    and pend: "pending_for_session (vs_id v) (k_now k) (work s) = Some a"
    and turns: "\<forall>b \<in> set (d_actions (work s)). va_turn b < d_next (work s)"
    and get: "action_get (work s) (va_id a) = Some a" and status: "va_status a = Pending"
    and tier: "va_tier a = ''T2''"
    and valid: "validate p a (k_confirm k) = Inr []" and window: "va_expires a = Some e" "k_confirm k < e"
    and tool: "run_tool E (va_tool a) (revive_params (va_params a)) (k_confirm k) = Done out"
  shows "\<exists>b c. action_get (committed (snd (handle_control E p u v ut word k s))) (va_id a) = Some b
     \<and> va_status b = Executed
     \<and> calls (snd (handle_control E p u v ut word k s)) = calls s @ [c]
     \<and> c_via c = Action (va_id a) \<and> c_tool c = va_tool a \<and> c_done c"
proof -
  define t where "t = \<lparr>vt_id = 0, vt_session = vs_id v, vt_at = k_db k, vt_transcript = ut_text ut,
    vt_intent = ''control:'' @ word, vt_tier = None, vt_slots = [], vt_text = None\<rparr>"
  obtain tid db where add: "turn_add t (work s) = (tid, db)" by force
  define s1 where "s1 = s\<lparr>work := db\<rparr>"
  define lang where "lang = (case ut_lang ut of Some l \<Rightarrow> l | None \<Rightarrow> vs_lang v)"
  have pend1: "pending_for_session (vs_id v) (k_now k) (work s1) = Some a"
    using pending_add_turn [OF turns, of "vs_id v" "k_now k" t] pend add by (simp add: s1_def)
  have get1: "action_get (work s1) (va_id a) = Some a"
    using neutral_get [OF neutral_turn_add, of t "work s"] get add by (simp add: s1_def)
  define out' where "out' = confirm E p u (va_id a) None lang (k_confirm k) s1"
  from confirm_executes [OF get1 status tier valid window tool, of u None lang]
  obtain rep b c where c: "out' = (Inr rep, snd out')" "action_get (work (snd out')) (va_id a) = Some b"
    "va_status b = Executed" "calls (snd out') = calls s1 @ [c]" "c_via c = Action (va_id a)" "c_done c"
    "c_tool c = va_tool a"
    unfolding out'_def by blast
  have "snd (handle_control E p u v ut word k s) = commit (on_work (turn_text tid (re_text rep)) (snd out'))"
    unfolding handle_control_def Let_def t_def [symmetric] add prod.case s1_def [symmetric] lang_def [symmetric]
    using assms(1,2) pend1 by (simp add: out'_def [symmetric]) (subst c(1), simp)
  with c show ?thesis
    by (simp add: commit_def on_work_def s1_def neutral_get [OF neutral_turn_text])
qed

lemma dict_put_keys_insert: "set (dict_keys (dict_put k v d)) = insert k (set (dict_keys d))"
  by (induction d) auto

lemma dict_default_keys: "set (dict_keys (dict_default k v d)) = insert k (set (dict_keys d))"
  unfolding dict_default_def by (auto simp add: dict_put_keys_insert simp del: set_map)

lemmas key_sets = dict_put_keys_insert dict_default_keys

lemma bind_asset_keys:
  assumes "bind_asset L p v r ctx now = Inr o1"
  shows "set (dict_keys (ro_params o1)) \<subseteq> set (dict_keys (rr_slots r)) \<union> {''asset_id'', ''asset_label''}
     \<union> (if rr_intent r = ''get_kpi'' then {''scope_id'', ''scope'', ''scope_label''} else {})"
  using assms unfolding bind_asset_def Let_def
  by (auto simp: key_sets simp del: set_map split: if_splits pval.splits prod.splits option.splits)

text \<open>
  Property C25. When slot resolution lets a command through without asking, the call it is about to make
  is well formed: every parameter the tool cannot do without is there, and no parameter is passed that
  neither the utterance nor the resolution of its machine, alarm and explanation supplied (in particular
  never a \<open>technician_id\<close>, and a \<open>scope_id\<close> only for a KPI).
\<close>

theorem tool_call_well_typed:
  assumes "resolve_slots L C p v r now = Inr o1" and "ro_ask o1 = None"
  shows "set (required_arguments (rr_intent r)) \<subseteq> set (dict_keys (ro_params o1))
    \<and> set (dict_keys (ro_params o1)) \<subseteq> set (dict_keys (rr_slots r))
      \<union> {''asset_id'', ''asset_label'', ''alarm_id'', ''explanation_id''}
      \<union> (if rr_intent r = ''get_kpi'' then {''scope_id'', ''scope'', ''scope_label''} else {})"
proof
  define ctx where "ctx = live_context v now"
  from assms(1) obtain o0 where o0: "bind_asset L p v r ctx now = Inr o0"
    by (auto simp: resolve_slots_def Let_def rbind_Inr_iff ctx_def)
  with assms have ask0: "ro_ask o0 = None"
    by (auto simp: resolve_slots_def Let_def ctx_def split: if_splits)
  define alarm where "alarm = (if rr_intent r = ''acknowledge_alarm''
    then resolve_alarm p (pget (ro_params o0) ''asset_id'') ctx else Inr (PStr []))"
  obtain w where w: "alarm = Inr w"
  proof (cases alarm)
    case (Inl e)
    have "resolve_slots L C p v r now = Inl e"
      unfolding resolve_slots_def Let_def ctx_def [symmetric] o0 rbind_simps alarm_def [symmetric] Inl
      by (simp add: ask0)
    with assms(1) show ?thesis by simp
  qed
  define d1 where "d1 = (if rr_intent r = ''acknowledge_alarm'' then dict_put ''alarm_id'' w (ro_params o0)
    else ro_params o0)"
  define d2 where "d2 = (if rr_intent r = ''give_feedback'' \<and> truthy (pget ctx ''last_explanation_id'')
    then dict_put ''explanation_id'' (pget ctx ''last_explanation_id'') d1 else d1)"
  have eq: "resolve_slots L C p v r now =
     (if rr_intent r = ''acknowledge_alarm'' \<and> w = PNull
      then Inr (asks (Said (''I can'' @ [CHR 0x27] @ ''t find an open alarm on that machine.'')) (ro_params o0) o0)
      else case filter (\<lambda>n. n \<notin> set (dict_keys d2)) (required_arguments (rr_intent r)) of
             n # _ \<Rightarrow> Inr (asks (Said (ask_for n)) d2 o0)
           | [] \<Rightarrow> (case missing_slots C r d2 of
                 n # _ \<Rightarrow> Inr (asks (Said (''I need the '' @ replace_char (CHR ''_'') (CHR '' '') n
                             @ '' as well.'')) d2 o0)
               | [] \<Rightarrow> Inr (o0\<lparr>ro_params := d2\<rparr>)))"
    unfolding resolve_slots_def Let_def ctx_def [symmetric] o0 rbind_simps alarm_def [symmetric] w
      d1_def [symmetric] d2_def [symmetric]
    by (simp add: ask0)
  from assms have none: "filter (\<lambda>n. n \<notin> set (dict_keys d2)) (required_arguments (rr_intent r)) = []"
    and o1: "ro_params o1 = d2"
    unfolding eq by (auto simp: asks_def split: if_splits list.splits)
  from none o1 show "set (required_arguments (rr_intent r)) \<subseteq> set (dict_keys (ro_params o1))"
    by (auto simp: filter_empty_conv)
  have "set (dict_keys d2) \<subseteq> set (dict_keys (ro_params o0)) \<union> {''alarm_id'', ''explanation_id''}"
    by (auto simp: d2_def d1_def key_sets simp del: set_map)
  with bind_asset_keys [OF o0]
  show "set (dict_keys (ro_params o1)) \<subseteq> set (dict_keys (rr_slots r))
      \<union> {''asset_id'', ''asset_label'', ''alarm_id'', ''explanation_id''}
      \<union> (if rr_intent r = ''get_kpi'' then {''scope_id'', ''scope'', ''scope_label''} else {})"
    unfolding o1 by blast
qed

text \<open>The context never learns the label of the machine it remembers.\<close>

lemma put_if_keys: "set (dict_keys (put_if k v d)) \<subseteq> insert k (set (dict_keys d))"
  by (auto simp: put_if_def key_sets simp del: set_map)

lemma remember_no_label:
  assumes "''current_asset_label'' \<notin> set (dict_keys (vs_context v))"
  shows "''current_asset_label'' \<notin> set (dict_keys (vs_context (remember vals now v)))"
proof -
  have "set (dict_keys (live_context v now)) \<subseteq> set (dict_keys (vs_context v))"
    by (auto simp: live_context_def simp del: set_map split: option.splits)
  with assms show ?thesis
    unfolding remember_def Let_def
    by (simp add: key_sets put_if_def del: set_map) (auto simp add: key_sets simp del: set_map)
qed

lemma map_of_put: "map_of (dict_put k v d) = (map_of d)(k \<mapsto> v)"
  by (rule update_conv')

lemma map_of_merge: "map_of (merge d e) k = (case map_of (rev e) k of Some v \<Rightarrow> Some v | None \<Rightarrow> map_of d k)"
proof (induction e arbitrary: d)
  case Nil
  then show ?case by (simp add: merge_def)
next
  case (Cons x e)
  obtain a b where x: "x = (a, b)" by force
  have "merge d (x # e) = merge (dict_put a b d) e" by (simp add: merge_def x)
  with Cons [of "dict_put a b d"] show ?case
    by (auto simp: x map_of_put map_add_def split: option.splits)
qed


text \<open>
  When the operator leaves the machine to the dialogue context (\<open>create a work order\<close>
  after \<open>how is cnc one\<close>), the read-back they must agree to says \<open>the asset\<close>: the context remembers
  the machine's id and code but never the label the read-back names, so nothing the operator hears
  identifies the machine the order will be written for.
\<close>

theorem context_readback_unnamed:
  assumes "''current_asset_label'' \<notin> set (dict_keys (vs_context v))"
    and "\<And>n. n \<in> {''asset'', ''alarm'', ''scope'', ''asset_label''} \<Longrightarrow> n \<notin> set (dict_keys (rr_slots r))"
    and "rr_intent r \<noteq> ''get_kpi''" and "bind_asset L p v r (live_context v now) now = Inr o1"
    and id: "pget (ro_params o1) ''asset_id'' = PId n"
    and "''asset_id'' \<notin> set (dict_keys (rr_slots r))"
  shows "pget (vs_context v) ''current_asset_id'' = PId n
    \<and> readback_asset L (merge (ro_params o1) (rr_slots r)) = ''the asset''"
proof
  let ?ctx = "live_context v now"
  have none: "map_of (rr_slots r) k = None" "map_of (rev (rr_slots r)) k = None"
    if "k \<in> {''asset'', ''alarm'', ''scope'', ''asset_label'', ''asset_id''}" for k
  proof -
    have "k \<notin> set (dict_keys (rr_slots r))" using assms(2) [of k] assms(6) that by blast
    then have "k \<notin> fst ` set (rr_slots r)" by simp
    then show "map_of (rr_slots r) k = None" "map_of (rev (rr_slots r)) k = None"
      by (simp_all add: map_of_eq_None_iff)
  qed
  then have ref: "\<not> truthy (por (por (pget (rr_slots r) ''asset'') (pget (rr_slots r) ''alarm''))
      (pget (rr_slots r) ''scope''))"
    by (simp add: pget_def por_def)
  have ctx: "?ctx = [] \<or> ?ctx = vs_context v" by (auto simp: live_context_def split: option.splits)
  then have label: "pget ?ctx ''current_asset_label'' = PNull"
  proof -
    have "map_of (vs_context v) ''current_asset_label'' = None"
      using assms(1) by (simp add: map_of_eq_None_iff)
    with ctx show ?thesis by (auto simp: pget_def)
  qed
  have live: "truthy (pget ?ctx ''current_asset_id'')"
    using assms(4) ref id none(1) [of "''asset_id''"]
    by (auto simp: bind_asset_def Let_def pget_def split: if_splits)
  have o1: "ro_params o1 = dict_put ''asset_label'' PNull
      (dict_put ''asset_id'' (pget ?ctx ''current_asset_id'') (rr_slots r))"
    using assms(3,4) ref live label by (auto simp: bind_asset_def Let_def split: if_splits)
  from id have "pget ?ctx ''current_asset_id'' = PId n" by (simp add: o1 pget_def map_of_put)
  with ctx live show "pget (vs_context v) ''current_asset_id'' = PId n"
    by (auto simp: pget_def)
  have "pget (merge (ro_params o1) (rr_slots r)) ''asset_label'' = PNull"
    using none(2) [of "''asset_label''"] by (simp add: pget_def map_of_merge o1 map_of_put)
  moreover have "pget (merge (ro_params o1) (rr_slots r)) ''asset'' = PNull"
    using none [of "''asset''"] by (simp add: pget_def map_of_merge o1 map_of_put)
  moreover have "pget (merge (ro_params o1) (rr_slots r)) ''scope'' = PNull"
    using none [of "''scope''"] by (simp add: pget_def map_of_merge o1 map_of_put)
  ultimately show "readback_asset L (merge (ro_params o1) (rr_slots r)) = ''the asset''"
    by (simp add: readback_asset_def por_def render_def)
qed

section \<open>Witnesses\<close>

definition demo_env :: env where
  "demo_env = \<lparr>e_allow_t3 = False, e_pin_of = (\<lambda>_. None),
     e_tools = (\<lambda>_ _ _. Done [(''number'', PStr ''WO-1'')])\<rparr>"

definition demo_lib :: lib where
  "demo_lib = \<lparr>l_extract = demo_extract, l_show = (\<lambda>_. ''0'')\<rparr>"

definition demo_cat :: catalogue where
  "demo_cat = \<lparr>ct_intents = [], ct_control = []\<rparr>"

definition demo_plant :: plant where
  "demo_plant = \<lparr>p_assets = [(7, ''press-04'', ''Press 04'')], p_lines = [], p_live_asset = (\<lambda>_. True),
     p_open_alarms = (\<lambda>_. []), p_alarm_status = (\<lambda>_. None), p_live_technician = (\<lambda>_. False),
     p_calendar = (\<lambda>_. [])\<rparr>"

definition demo_order :: router_result where
  "demo_order = \<lparr>rr_intent = ''create_work_order'', rr_tier = ''T2'',
     rr_slots = [(''asset'', PStr ''press four''), (''task'', PStr ''grease'')], rr_confidence = 1,
     rr_router = ''rules'', rr_control = None\<rparr>"

definition demo_route :: "string \<Rightarrow> string \<Rightarrow> router_result" where
  "demo_route t lang = (if t = ''slower'' then demo_order\<lparr>rr_control := Some ''slower''\<rparr> else demo_order)"

definition demo_actor :: actor where
  "demo_actor = \<lparr>a_sub = ''op'', a_roles = [''technician'']\<rparr>"

definition demo_turn :: "string \<Rightarrow> nat option \<Rightarrow> int \<Rightarrow> request" where
  "demo_turn t sid now = Turn \<lparr>ut_text = t, ut_session = sid, ut_lang = None, ut_channel = ''voice'', ut_confidence = None\<rparr>
     \<lparr>k_db = now, k_now = now, k_confirm = now, k_tool = now\<rparr>"

definition demo_s1 :: sess where
  "demo_s1 = serve demo_env demo_lib demo_cat demo_route demo_plant demo_actor
     (demo_turn ''grease press four'' None 1000) fresh_sess"

definition demo_s2 :: sess where
  "demo_s2 = serve demo_env demo_lib demo_cat demo_route demo_plant demo_actor
     (demo_turn ''slower'' (Some 0) 2000) demo_s1"

lemma demo_reachable: "reachable demo_env demo_lib demo_cat demo_s1" "reachable demo_env demo_lib demo_cat demo_s2"
  unfolding demo_s2_def demo_s1_def by (intro reach_serve reach_fresh)+

definition demo_call :: tool_call where
  "demo_call = hd (calls demo_s2)"

lemma demo_call_made: "calls demo_s2 = [demo_call]" "needs_confirmation (c_tier demo_call)"
  by code_simp+


theorem action_life_cycle_witness:
  "life (ledger (committed demo_s1) (calls demo_s1) 2) (ledger (committed demo_s2) (calls demo_s2) 2)
     \<and> ledger (committed demo_s1) (calls demo_s1) 2 = Some (Pending, 0)
     \<and> ledger (committed demo_s2) (calls demo_s2) 2 = Some (Executed, 1)"
proof (intro conjI)
  show "life (ledger (committed demo_s1) (calls demo_s1) 2) (ledger (committed demo_s2) (calls demo_s2) 2)"
    unfolding demo_s2_def by (rule action_life_cycle [OF demo_reachable(1)])
qed code_simp+

definition demo_session :: voice_session where
  "demo_session = \<lparr>vs_id = 0, vs_user = ''op'', vs_channel = ''voice'', vs_lang = ''en'', vs_ended = None,
     vs_context = []\<rparr>"

definition demo_action :: voice_action where
  "demo_action = hd (d_actions (committed demo_s1))"

definition demo_clock :: clock where
  "demo_clock = \<lparr>k_db = 2000, k_now = 2000, k_confirm = 2000, k_tool = 2000\<rparr>"

definition demo_slower :: utterance where
  "demo_slower = \<lparr>ut_text = ''slower'', ut_session = Some 0, ut_lang = None, ut_channel = ''voice'', ut_confidence = None\<rparr>"

theorem control_word_executes_witness:
  "\<exists>b c. action_get (committed (snd (handle_control demo_env demo_plant demo_actor demo_session demo_slower
        ''slower'' demo_clock demo_s1))) (va_id demo_action) = Some b
     \<and> va_status b = Executed
     \<and> calls (snd (handle_control demo_env demo_plant demo_actor demo_session demo_slower ''slower'' demo_clock demo_s1))
         = calls demo_s1 @ [c]
     \<and> c_via c = Action (va_id demo_action) \<and> c_tool c = va_tool demo_action \<and> c_done c"
proof (rule control_word_executes [where a = demo_action and e = 10001000 and out = "[(''number'', PStr ''WO-1'')]"])
  show "pending_for_session (vs_id demo_session) (k_now demo_clock) (work demo_s1) = Some demo_action" by code_simp
  show "\<forall>b \<in> set (d_actions (work demo_s1)). va_turn b < d_next (work demo_s1)" by code_simp
  show "action_get (work demo_s1) (va_id demo_action) = Some demo_action" by code_simp
  show "va_status demo_action = Pending" by code_simp
  show "va_tier demo_action = ''T2''" by code_simp
  show "validate demo_plant demo_action (k_confirm demo_clock) = Inr []" by code_simp
  show "va_expires demo_action = Some 10001000" by code_simp
  show "k_confirm demo_clock < 10001000" by code_simp
  show "run_tool demo_env (va_tool demo_action) (revive_params (va_params demo_action)) (k_confirm demo_clock)
      = Done [(''number'', PStr ''WO-1'')]" by code_simp
qed simp_all

definition demo_resolution :: resolution where
  "demo_resolution = (case resolve_slots demo_lib demo_cat demo_plant demo_session demo_order 0 of
     Inr o1 \<Rightarrow> o1 | Inl _ \<Rightarrow> \<lparr>ro_params = [], ro_ask = None, ro_suggestions = [], ro_session = demo_session\<rparr>)"

theorem tool_call_well_typed_witness:
  "set (required_arguments (rr_intent demo_order)) \<subseteq> set (dict_keys (ro_params demo_resolution))
    \<and> set (dict_keys (ro_params demo_resolution)) \<subseteq> set (dict_keys (rr_slots demo_order))
      \<union> {''asset_id'', ''asset_label'', ''alarm_id'', ''explanation_id''}
      \<union> (if rr_intent demo_order = ''get_kpi'' then {''scope_id'', ''scope'', ''scope_label''} else {})"
  by (rule tool_call_well_typed [where L = demo_lib and C = demo_cat and p = demo_plant and v = demo_session
        and now = 0]) code_simp+

definition demo_followup :: router_result where
  "demo_followup = demo_order\<lparr>rr_slots := [(''task'', PStr ''grease'')]\<rparr>"

definition demo_recall :: voice_session where
  "demo_recall = remember [(''asset_id'', PId 7), (''asset_code'', PStr ''press-04'')] 0 demo_session"

definition demo_bound :: resolution where
  "demo_bound = (case bind_asset demo_lib demo_plant demo_recall demo_followup (live_context demo_recall 5) 5 of
     Inr o1 \<Rightarrow> o1 | Inl _ \<Rightarrow> demo_resolution)"

lemma demo_bound: "bind_asset demo_lib demo_plant demo_recall demo_followup (live_context demo_recall 5) 5 = Inr demo_bound"
  by code_simp

theorem context_readback_unnamed_witness:
  "pget (vs_context demo_recall) ''current_asset_id'' = PId 7
    \<and> readback_asset demo_lib (merge (ro_params demo_bound) (rr_slots demo_followup)) = ''the asset''"
proof (rule context_readback_unnamed [OF _ _ _ demo_bound])
  show "''current_asset_label'' \<notin> set (dict_keys (vs_context demo_recall))" by code_simp
  show "n \<notin> set (dict_keys (rr_slots demo_followup))" if "n \<in> {''asset'', ''alarm'', ''scope'', ''asset_label''}" for n
    using that by (auto simp: demo_followup_def demo_order_def)
  show "rr_intent demo_followup \<noteq> ''get_kpi''" by code_simp
  show "pget (ro_params demo_bound) ''asset_id'' = PId 7" by code_simp
  show "''asset_id'' \<notin> set (dict_keys (rr_slots demo_followup))" by code_simp
qed

end
