(* ===== verification/Ingest_Alarms.thy ===== *)
theory Ingest_Alarms
  imports Twin_Prelude "HOL-Library.Sublist"
begin

text \<open>
  The ingest consumer's alarm rules (\<open>apps/api/app/ingest/alarm_engine.py\<close>): threshold rules, adaptive
  rules over a rolling window of readings, and the return-to-normal test. Readings are reals. The window
  lives in Valkey as a list; what RPUSH then LTRIM leave of it is the bounded append of the prelude.
  Rendering a number in a message (\<open>:.2f\<close>, \<open>str\<close>) is a parameter.
\<close>

datatype number_format = Decimals nat | Plain

type_synonym renderer = "number_format \<Rightarrow> real \<Rightarrow> string"

record alarm_rule =
  ru_id :: nat
  ru_kind :: string
  ru_severity :: string
  ru_high :: "real option"
  ru_low :: "real option"
  ru_sigma :: "real option"
  ru_window :: "string option"

record alarm_data =
  ad_rule :: nat
  ad_asset :: nat
  ad_sensor :: nat
  ad_severity :: string
  ad_title :: string
  ad_message :: string
  ad_value :: real
  ad_threshold :: real

text \<open>One instance of \<open>evaluate_threshold\<close>'s result.\<close>

definition threshold_alarm ::
    "renderer \<Rightarrow> alarm_rule \<Rightarrow> nat \<Rightarrow> nat \<Rightarrow> real \<Rightarrow> string \<Rightarrow> real \<Rightarrow> string \<Rightarrow> alarm_data" where
  "threshold_alarm F r sensor asset x metric threshold dir =
     \<lparr>ad_rule = ru_id r, ad_asset = asset, ad_sensor = sensor, ad_severity = ru_severity r,
      ad_title = metric @ '' '' @ dir @ '' threshold'',
      ad_message = metric @ '' = '' @ F (Decimals 2) x @ '' ('' @ dir @ '' '' @ F Plain threshold @ '')'',
      ad_value = x, ad_threshold = threshold\<rparr>"

definition evaluate_threshold ::
    "renderer \<Rightarrow> alarm_rule \<Rightarrow> nat \<Rightarrow> nat \<Rightarrow> real \<Rightarrow> string \<Rightarrow> alarm_data option" where
  "evaluate_threshold F r sensor asset x metric =
     (case ru_high r of
        Some h \<Rightarrow>
          if x > h then Some (threshold_alarm F r sensor asset x metric h ''above'')
          else (case ru_low r of
                  Some l \<Rightarrow> if x < l then Some (threshold_alarm F r sensor asset x metric l ''below'') else None
                | None \<Rightarrow> None)
      | None \<Rightarrow>
          (case ru_low r of
             Some l \<Rightarrow> if x < l then Some (threshold_alarm F r sensor asset x metric l ''below'') else None
           | None \<Rightarrow> None))"

definition check_return_to_normal :: "alarm_rule \<Rightarrow> real \<Rightarrow> bool" where
  "check_return_to_normal r x \<longleftrightarrow>
     \<not> ((case ru_high r of Some h \<Rightarrow> x > h | None \<Rightarrow> False)
        \<or> (case ru_low r of Some l \<Rightarrow> x < l | None \<Rightarrow> False))"

definition WINDOW_SAMPLES :: "(string \<times> nat) list" where
  "WINDOW_SAMPLES = [(''5m'', 300), (''15m'', 900), (''30m'', 1800), (''1h'', 3600), (''6h'', 21600), (''24h'', 86400)]"

definition DEFAULT_WINDOW :: string where "DEFAULT_WINDOW = ''1h''"
definition MIN_SAMPLES :: nat where "MIN_SAMPLES = 30"

definition window_samples :: "alarm_rule \<Rightarrow> nat" where
  "window_samples r =
     (case map_of WINDOW_SAMPLES (case ru_window r of Some w \<Rightarrow> w | None \<Rightarrow> DEFAULT_WINDOW) of
        Some n \<Rightarrow> n
      | None \<Rightarrow> the (map_of WINDOW_SAMPLES DEFAULT_WINDOW))"

definition average :: "real list \<Rightarrow> real" where
  "average xs = sum_list xs / real (length xs)"

definition deviation :: "real list \<Rightarrow> real" where
  "deviation xs = sqrt (sum_list (map (\<lambda>v. (v - average xs)\<^sup>2) xs) / real (length xs))"

text \<open>
  \<open>evaluate_adaptive\<close> on the rule's window as it stands: the new window, and the alarm. The reading
  joins the window before the statistics are taken.
\<close>

definition evaluate_adaptive ::
    "renderer \<Rightarrow> alarm_rule \<Rightarrow> nat \<Rightarrow> nat \<Rightarrow> real \<Rightarrow> string \<Rightarrow> real list \<Rightarrow> real list \<times> alarm_data option" where
  "evaluate_adaptive F r sensor asset x metric window =
     (let sigma = (case ru_sigma r of Some s \<Rightarrow> s | None \<Rightarrow> 3);
          ws = deque_append (window_samples r) window x
      in (ws,
          if length ws < MIN_SAMPLES then None
          else if deviation ws < 1 / 10 ^ 10 then None
          else (let m = average ws; s = deviation ws; z = \<bar>x - m\<bar> / s in
                if z \<le> sigma then None
                else Some \<lparr>ad_rule = ru_id r, ad_asset = asset, ad_sensor = sensor, ad_severity = ru_severity r,
                       ad_title = metric @ '' adaptive alert ('' @ F (Decimals 1) z @ '' sigma)'',
                       ad_message = metric @ '' = '' @ F (Decimals 2) x @ '' (mean='' @ F (Decimals 2) m
                         @ '', std='' @ F (Decimals 2) s @ '', z='' @ F (Decimals 1) z @ '')'',
                       ad_value = x, ad_threshold = m + sigma * s\<rparr>)))"

section \<open>What the rules decide\<close>

text \<open>Raising an alarm and having returned to normal are exactly opposite.\<close>

lemma threshold_iff: "evaluate_threshold F r sensor asset x metric = None \<longleftrightarrow> check_return_to_normal r x"
  by (auto simp: evaluate_threshold_def check_return_to_normal_def split: option.split)

lemma threshold_fields:
  assumes "evaluate_threshold F r sensor asset x metric = Some a"
  shows "ad_rule a = ru_id r \<and> ad_asset a = asset \<and> ad_sensor a = sensor \<and> ad_value a = x
     \<and> (ru_high r = Some (ad_threshold a) \<and> ad_threshold a < x
        \<or> ru_low r = Some (ad_threshold a) \<and> x < ad_threshold a)"
  using assms by (auto simp: evaluate_threshold_def threshold_alarm_def split: option.splits if_splits)

lemma average_centred: "xs \<noteq> [] \<Longrightarrow> sum_list (map (\<lambda>v. v - average xs) xs) = 0"
proof -
  assume "xs \<noteq> []"
  moreover have "sum_list (map (\<lambda>v. v - c) xs) = sum_list xs - real (length xs) * c" for c :: real
    by (induction xs) (auto simp: algebra_simps)
  ultimately show ?thesis by (simp add: average_def)
qed

text \<open>The square of a sum, against the sum of the squares.\<close>

lemma sum_square_le: "(sum_list xs)\<^sup>2 \<le> real (length xs) * sum_list (map (\<lambda>v. v\<^sup>2) (xs :: real list))"
proof (induction xs)
  case Nil
  then show ?case by simp
next
  case (Cons x xs)
  define n S Q where "n = real (length xs)" and "S = sum_list xs" and "Q = sum_list (map (\<lambda>v. v\<^sup>2) xs)"
  have IH: "S\<^sup>2 \<le> n * Q" using Cons by (simp add: n_def S_def Q_def)
  have cross: "2 * x * S \<le> n * x\<^sup>2 + Q"
  proof (cases "n = 0")
    case True
    then show ?thesis by (simp add: n_def S_def Q_def)
  next
    case False
    then have "0 < n" by (simp add: n_def)
    moreover have "n * (2 * x * S) \<le> n * (n * x\<^sup>2 + Q)"
      using IH zero_le_power2 [of "S - n * x"] by (simp add: power2_eq_square algebra_simps)
    ultimately show ?thesis by (simp only: mult_le_cancel_left_pos)
  qed
  have "(x + S)\<^sup>2 \<le> (n + 1) * (x\<^sup>2 + Q)"
    using IH cross by (simp add: power2_eq_square algebra_simps)
  then show ?case by (simp add: n_def S_def Q_def add.commute)
qed

text \<open>
  The reading is one of the samples it is compared with, so its score is at most \<open>sqrt (n - 1)\<close>.
\<close>

lemma score_bound:
  assumes n: "length ws = Suc n" and x: "last ws = x"
  shows "(x - average ws)\<^sup>2 \<le> real n * (deviation ws)\<^sup>2"
proof -
  define ds where "ds = map (\<lambda>v. v - average ws) ws"
  have ne: "ws \<noteq> []" using n by auto
  have "last ds = x - average ws" using ne x by (simp add: ds_def last_map)
  with ne have ds: "ds = butlast ds @ [x - average ws]"
    by (metis append_butlast_last_id ds_def map_is_Nil_conv)
  have len: "length (butlast ds) = n" by (simp add: ds_def n)
  have "sum_list ds = 0" using average_centred [OF ne] by (simp add: ds_def)
  then have s: "sum_list (butlast ds) = - (x - average ws)" by (subst (asm) ds) simp
  let ?q = "sum_list (map (\<lambda>v. v\<^sup>2) (butlast ds))" and ?d = "(x - average ws)\<^sup>2"
  have dev: "(deviation ws)\<^sup>2 * real (Suc n) = ?q + ?d"
  proof -
    have "sum_list (map (\<lambda>v. (v - average ws)\<^sup>2) ws) = sum_list (map (\<lambda>v. v\<^sup>2) ds)"
      by (simp add: ds_def comp_def)
    also have "\<dots> = ?q + ?d" by (subst ds) simp
    finally have eq: "sum_list (map (\<lambda>v. (v - average ws)\<^sup>2) ws) = ?q + ?d" .
    have "0 \<le> ?q + ?d" by (intro add_nonneg_nonneg sum_list_nonneg) auto
    then show ?thesis using n by (simp add: deviation_def eq)
  qed
  have "?d \<le> real n * ?q"
    using sum_square_le [of "butlast ds"] unfolding s len by (simp add: power2_commute)
  then have "real (Suc n) * ?d \<le> real n * (?q + ?d)" by (simp add: algebra_simps)
  with dev have "real (Suc n) * ?d \<le> real (Suc n) * (real n * (deviation ws)\<^sup>2)"
    by (simp add: algebra_simps)
  then show ?thesis by (simp only: mult_le_cancel_left_pos of_nat_0_less_iff zero_less_Suc)
qed

text \<open>An adaptive alarm therefore needs a window of more than \<open>sigma\<^sup>2\<close> earlier samples.\<close>

lemma adaptive_needs_samples:
  assumes alarm: "evaluate_adaptive F r sensor asset x metric window = (ws, Some a)"
    and sigma: "ru_sigma r = Some s" "0 \<le> s"
  shows "s\<^sup>2 < real (length ws - 1) \<and> MIN_SAMPLES \<le> length ws"
proof -
  have ws: "ws = deque_append (window_samples r) window x"
    and len: "MIN_SAMPLES \<le> length ws" and dev: "1 / 10 ^ 10 \<le> deviation ws"
    and z: "s < \<bar>x - average ws\<bar> / deviation ws"
    using alarm sigma(1) by (auto simp: evaluate_adaptive_def Let_def split: if_splits)
  have pos: "0 < deviation ws" by (rule less_le_trans [OF _ dev]) simp
  obtain n where n: "length ws = Suc n" using len by (cases "length ws") (auto simp: MIN_SAMPLES_def)
  have "0 < window_samples r" using n by (simp add: ws)
  then have "last ws = x" by (simp add: ws last_deque_append)
  from score_bound [OF n this] have "(x - average ws)\<^sup>2 \<le> real n * (deviation ws)\<^sup>2" .
  then have "(\<bar>x - average ws\<bar> / deviation ws)\<^sup>2 \<le> real n"
    using pos by (simp add: power_divide divide_le_eq)
  moreover have "s\<^sup>2 < (\<bar>x - average ws\<bar> / deviation ws)\<^sup>2"
    by (rule power_strict_mono [OF z sigma(2)]) simp
  ultimately show ?thesis using n len by simp
qed

end
