(* ===== verification/Alarm_Service.thy ===== *)
theory Alarm_Service
  imports Ingest_Alarms
begin

text \<open>
  The alarm table and its life cycle: \<open>Alarm\<close> in \<open>apps/api/app/modules/telemetry/models.py\<close>, the
  repository that reads and writes it, and \<open>AlarmService.perform_action\<close> and \<open>bulk_ack\<close>. An alarm's id is
  its position in the table, from which nothing is ever deleted. Times are in milliseconds.
\<close>

record stored_alarm =
  sa_data :: alarm_data
  sa_status :: string
  sa_acknowledged_by :: "nat option"
  sa_acknowledged_at :: "int option"
  sa_assigned_to :: "nat option"
  sa_shelved_until :: "real option"
  sa_cleared_at :: "int option"

definition new_alarm :: "alarm_data \<Rightarrow> stored_alarm" where
  "new_alarm d =
     \<lparr>sa_data = d, sa_status = ''active'', sa_acknowledged_by = None, sa_acknowledged_at = None,
      sa_assigned_to = None, sa_shelved_until = None, sa_cleared_at = None\<rparr>"

definition open_status :: "string \<Rightarrow> bool" where
  "open_status st \<longleftrightarrow> st = ''active'' \<or> st = ''acknowledged''"

definition subject_of :: "stored_alarm \<Rightarrow> nat \<times> nat" where
  "subject_of a = (ad_rule (sa_data a), ad_asset (sa_data a))"

definition active_for_rule_and_asset :: "stored_alarm list \<Rightarrow> nat \<Rightarrow> nat \<Rightarrow> stored_alarm option" where
  "active_for_rule_and_asset as rule asset =
     find (\<lambda>a. ad_rule (sa_data a) = rule \<and> ad_asset (sa_data a) = asset \<and> open_status (sa_status a)) as"

section \<open>What a user does to an alarm\<close>

datatype alarm_action = Ack | Assign | Remark | Shelve | Unshelve | Clear

record action_request =
  aq_action :: alarm_action
  aq_note :: "string option"
  aq_assigned_to :: "nat option"
  aq_shelve_hours :: "real option"

datatype alarm_error = AlarmNotFound nat | Unprocessable string

record alarm_db =
  al_rows :: "stored_alarm list"
  al_actions :: "(nat \<times> alarm_action \<times> string option) list"
  al_audits :: "(nat option \<times> string) list"

definition action_name :: "alarm_action \<Rightarrow> string" where
  "action_name a =
     (case a of Ack \<Rightarrow> ''ack'' | Assign \<Rightarrow> ''assign'' | Remark \<Rightarrow> ''comment'' | Shelve \<Rightarrow> ''shelve''
      | Unshelve \<Rightarrow> ''unshelve'' | Clear \<Rightarrow> ''clear'')"

definition acknowledge :: "int \<Rightarrow> stored_alarm \<Rightarrow> stored_alarm" where
  "acknowledge now a = a\<lparr>sa_status := ''acknowledged'', sa_acknowledged_by := None, sa_acknowledged_at := Some now\<rparr>"

definition assign_to :: "nat \<Rightarrow> stored_alarm \<Rightarrow> stored_alarm" where
  "assign_to u a = a\<lparr>sa_assigned_to := Some u\<rparr>"

definition shelve :: "int \<Rightarrow> real option \<Rightarrow> stored_alarm \<Rightarrow> stored_alarm" where
  "shelve now hours a =
     (let h = (case hours of Some x \<Rightarrow> if x \<noteq> 0 then x else 4 | None \<Rightarrow> 4)
      in a\<lparr>sa_status := ''shelved'', sa_shelved_until := Some (real_of_int now + h * 3600000)\<rparr>)"

definition unshelve :: "stored_alarm \<Rightarrow> stored_alarm" where
  "unshelve a =
     a\<lparr>sa_status := (if sa_acknowledged_at a \<noteq> None then ''acknowledged'' else ''active''), sa_shelved_until := None\<rparr>"

definition clear_alarm :: "int \<Rightarrow> stored_alarm \<Rightarrow> stored_alarm" where
  "clear_alarm now a = a\<lparr>sa_status := ''cleared'', sa_cleared_at := Some now\<rparr>"

text \<open>The branches of \<open>perform_action\<close> on the alarm itself.\<close>

definition change_alarm :: "int \<Rightarrow> action_request \<Rightarrow> stored_alarm \<Rightarrow> alarm_error + stored_alarm" where
  "change_alarm now r a =
     (case aq_action r of
        Ack \<Rightarrow> if sa_status a \<noteq> ''active'' then Inl (Unprocessable ''Can only acknowledge active alarms'')
               else Inr (acknowledge now a)
      | Assign \<Rightarrow> (case aq_assigned_to r of
                    None \<Rightarrow> Inl (Unprocessable ''assigned_to required for assign action'')
                  | Some u \<Rightarrow> Inr (assign_to u a))
      | Remark \<Rightarrow> Inr a
      | Shelve \<Rightarrow> Inr (shelve now (aq_shelve_hours r) a)
      | Unshelve \<Rightarrow> Inr (unshelve a)
      | Clear \<Rightarrow> Inr (clear_alarm now a))"

definition perform_action :: "int \<Rightarrow> nat \<Rightarrow> action_request \<Rightarrow> alarm_db \<Rightarrow> alarm_error + alarm_db" where
  "perform_action now i r d =
     (if i \<ge> length (al_rows d) then Inl (AlarmNotFound i)
      else (case change_alarm now r (al_rows d ! i) of
              Inl e \<Rightarrow> Inl e
            | Inr a \<Rightarrow> Inr (d\<lparr>al_rows := (al_rows d)[i := a],
                             al_actions := al_actions d @ [(i, aq_action r, aq_note r)],
                             al_audits := al_audits d @ [(Some i, action_name (aq_action r))]\<rparr>)))"

text \<open>\<open>AlarmRepository.bulk_ack\<close>, one UPDATE, and the service around it.\<close>

definition acknowledge_by :: "nat \<Rightarrow> int \<Rightarrow> stored_alarm \<Rightarrow> stored_alarm" where
  "acknowledge_by user now a =
     a\<lparr>sa_status := ''acknowledged'', sa_acknowledged_by := Some user, sa_acknowledged_at := Some now\<rparr>"

definition bulk_ack_rows :: "int \<Rightarrow> nat list \<Rightarrow> nat \<Rightarrow> stored_alarm list \<Rightarrow> stored_alarm list" where
  "bulk_ack_rows now ids user as =
     map (\<lambda>(i, a). if i \<in> set ids \<and> sa_status a = ''active'' then acknowledge_by user now a else a) (enumerate 0 as)"

definition bulk_ack :: "int \<Rightarrow> nat list \<Rightarrow> nat \<Rightarrow> alarm_db \<Rightarrow> nat \<times> alarm_db" where
  "bulk_ack now ids user d =
     (length (filter (\<lambda>(i, a). i \<in> set ids \<and> sa_status a = ''active'') (enumerate 0 (al_rows d))),
      d\<lparr>al_rows := bulk_ack_rows now ids user (al_rows d), al_audits := al_audits d @ [(None, ''bulk_ack'')]\<rparr>)"

section \<open>One open alarm per rule and machine\<close>

definition open_keys :: "stored_alarm list \<Rightarrow> (nat \<times> nat) list" where
  "open_keys as = map subject_of (filter (\<lambda>a. open_status (sa_status a)) as)"

definition one_open :: "stored_alarm list \<Rightarrow> bool" where
  "one_open as \<longleftrightarrow> distinct (open_keys as)"

lemma open_keys_simps [simp]:
  "open_keys [] = []"
  "open_keys (a # as) = (if open_status (sa_status a) then subject_of a # open_keys as else open_keys as)"
  "open_keys (as @ bs) = open_keys as @ open_keys bs"
  by (simp_all add: open_keys_def)

lemma one_open_Nil [simp]: "one_open []"
  by (simp add: one_open_def)

lemma active_None_iff: "active_for_rule_and_asset as rule asset = None \<longleftrightarrow> (rule, asset) \<notin> set (open_keys as)"
  by (induction as) (auto simp: active_for_rule_and_asset_def subject_of_def)

lemma one_open_raise:
  assumes "one_open as" and "active_for_rule_and_asset as (ad_rule d) (ad_asset d) = None"
  shows "one_open (as @ [new_alarm d])"
  using assms by (simp add: one_open_def active_None_iff open_status_def new_alarm_def subject_of_def)

text \<open>An alarm may become closed, but not about something else, and not open again.\<close>

definition stays_closed :: "stored_alarm \<Rightarrow> stored_alarm \<Rightarrow> bool" where
  "stays_closed a b \<longleftrightarrow> subject_of b = subject_of a \<and> (open_status (sa_status b) \<longrightarrow> open_status (sa_status a))"

lemma stays_closed_refl [simp]: "stays_closed a a"
  by (simp add: stays_closed_def)

lemma open_keys_subseq: "list_all2 stays_closed as bs \<Longrightarrow> subseq (open_keys bs) (open_keys as)"
  by (induction rule: list_all2_induct) (auto simp: open_keys_def stays_closed_def)

lemma one_open_closing: "one_open as \<Longrightarrow> list_all2 stays_closed as bs \<Longrightarrow> one_open bs"
  by (auto simp: one_open_def subseq_conv_nths dest!: open_keys_subseq)

lemma one_open_update:
  assumes "one_open as" and "stays_closed (as ! i) b"
  shows "one_open (as[i := b])"
proof (rule one_open_closing [OF assms(1)])
  show "list_all2 stays_closed as (as[i := b])"
    using assms(2) by (simp add: list_all2_conv_all_nth) (metis nth_list_update_eq nth_list_update_neq stays_closed_refl)
qed

text \<open>A change with that promise keeps the table, made to one alarm or to any choice of alarms.\<close>

locale closing_change =
  fixes change :: "stored_alarm \<Rightarrow> stored_alarm" and allowed :: "stored_alarm \<Rightarrow> bool"
  assumes closing: "allowed a \<Longrightarrow> stays_closed a (change a)"
begin

lemma one_open_change: "one_open as \<Longrightarrow> allowed (as ! i) \<Longrightarrow> one_open (as[i := change (as ! i)])"
  by (rule one_open_update) (simp_all add: closing)

lemma one_open_where:
  assumes "one_open as"
  shows "one_open (map (\<lambda>(i, a). if chosen i \<and> allowed a then change a else a) (enumerate n as))"
proof (rule one_open_closing [OF assms])
  show "list_all2 stays_closed as (map (\<lambda>(i, a). if chosen i \<and> allowed a then change a else a) (enumerate n as))"
    by (auto simp: list_all2_conv_all_nth nth_enumerate_eq closing)
qed

end

definition is_active :: "stored_alarm \<Rightarrow> bool" where
  "is_active a \<longleftrightarrow> sa_status a = ''active''"

interpretation acked: closing_change "acknowledge now" is_active for now
  by unfold_locales (simp add: is_active_def acknowledge_def stays_closed_def subject_of_def open_status_def)

interpretation bulk: closing_change "acknowledge_by user now" is_active for user now
  by unfold_locales (simp add: is_active_def acknowledge_by_def stays_closed_def subject_of_def open_status_def)

interpretation assigned: closing_change "assign_to u" "\<lambda>_. True" for u
  by unfold_locales (simp add: assign_to_def stays_closed_def subject_of_def)

interpretation shelved: closing_change "shelve now hours" "\<lambda>_. True" for now hours
  by unfold_locales (simp add: shelve_def stays_closed_def subject_of_def open_status_def Let_def)

interpretation cleared: closing_change "clear_alarm now" "\<lambda>_. True" for now
  by unfold_locales (simp add: clear_alarm_def stays_closed_def subject_of_def open_status_def)

text \<open>Unshelving opens the alarm whatever became of it, so it needs that no other one is open.\<close>

definition no_rival :: "stored_alarm list \<Rightarrow> nat \<Rightarrow> bool" where
  "no_rival as i \<longleftrightarrow>
     (\<forall>j < length as. j \<noteq> i \<longrightarrow> subject_of (as ! j) = subject_of (as ! i) \<longrightarrow> \<not> open_status (sa_status (as ! j)))"

lemma one_open_unshelve:
  assumes "one_open as" and "i < length as" and "no_rival as i"
  shows "one_open (as[i := unshelve (as ! i)])"
proof -
  have upd: "as[i := unshelve (as ! i)] = take i as @ unshelve (as ! i) # drop (Suc i) as"
    using assms(2) by (rule upd_conv_take_nth_drop)
  have others: "subject_of (as ! i) \<notin> set (open_keys (take i as)) \<union> set (open_keys (drop (Suc i) as))"
    using assms(2,3) by (fastforce simp: open_keys_def no_rival_def in_set_conv_nth)
  have "one_open (take i as @ as ! i # drop (Suc i) as)"
    using assms(1) id_take_nth_drop [OF assms(2)] by simp
  then have "distinct (open_keys (take i as) @ open_keys (drop (Suc i) as))"
    by (auto simp: one_open_def open_keys_def split: if_splits)
  with others show ?thesis
    unfolding upd one_open_def by (auto simp: open_keys_def unshelve_def subject_of_def open_status_def)
qed

lemma perform_action_one_open:
  assumes "perform_action now i r d = Inr d'" and "one_open (al_rows d)"
    and "aq_action r = Unshelve \<Longrightarrow> no_rival (al_rows d) i"
  shows "one_open (al_rows d')"
proof -
  from assms(1) obtain a where i: "i < length (al_rows d)" and a: "change_alarm now r (al_rows d ! i) = Inr a"
    and d': "al_rows d' = (al_rows d)[i := a]"
    by (auto simp: perform_action_def split: if_splits sum.splits)
  show ?thesis
  proof (cases "aq_action r")
    case Ack
    with a acked.one_open_change [OF assms(2), of i now] show ?thesis
      by (auto simp: d' change_alarm_def is_active_def split: if_splits)
  next
    case Assign
    with a assigned.one_open_change [OF assms(2)] show ?thesis
      by (auto simp: d' change_alarm_def split: option.splits)
  next
    case Remark
    with a have "al_rows d ! i = a" by (simp add: change_alarm_def)
    with assms(2) show ?thesis by (metis d' list_update_id)
  next
    case Shelve
    with a shelved.one_open_change [OF assms(2)] show ?thesis by (auto simp: d' change_alarm_def)
  next
    case Unshelve
    with a one_open_unshelve [OF assms(2) i assms(3)] show ?thesis by (auto simp: d' change_alarm_def)
  next
    case Clear
    with a cleared.one_open_change [OF assms(2)] show ?thesis by (auto simp: d' change_alarm_def)
  qed
qed

lemma bulk_ack_one_open: "one_open (al_rows d) \<Longrightarrow> one_open (al_rows (snd (bulk_ack now ids user d)))"
  using bulk.one_open_where [of "al_rows d" "\<lambda>i. i \<in> set ids" user now 0]
  by (simp add: bulk_ack_def bulk_ack_rows_def is_active_def cong: map_cong)

text \<open>
  A shelved alarm is not open, so the next violation of its rule raises a second one, and unshelving the
  first leaves two alarms open for the same rule and machine.
\<close>

lemma unshelve_duplicates:
  assumes i: "i < length (al_rows d)" and kept: "one_open (al_rows d)" "open_status (sa_status (al_rows d ! i))"
    and subj: "(ad_rule a, ad_asset a) = subject_of (al_rows d ! i)"
    and shelve: "perform_action now i r d = Inr d1" "aq_action r = Shelve"
    and unshelve: "aq_action r' = Unshelve"
  shows "active_for_rule_and_asset (al_rows d1) (ad_rule a) (ad_asset a) = None"
    and "\<exists>d2. perform_action now' i r' (d1\<lparr>al_rows := al_rows d1 @ [new_alarm a]\<rparr>) = Inr d2 \<and> \<not> one_open (al_rows d2)"
proof -
  let ?as = "al_rows d"
  define b where "b = shelve now (aq_shelve_hours r) (?as ! i)"
  have d1: "al_rows d1 = ?as[i := b]"
    using shelve i by (auto simp: perform_action_def change_alarm_def b_def)
  have b: "subject_of b = (ad_rule a, ad_asset a)" "\<not> open_status (sa_status b)"
    using subj by (simp_all add: b_def shelve_def subject_of_def open_status_def Let_def)
  have "distinct (open_keys (take i ?as @ ?as ! i # drop (Suc i) ?as))"
    using kept(1) id_take_nth_drop [OF i] by (simp add: one_open_def)
  with kept(2) have "(ad_rule a, ad_asset a) \<notin> set (open_keys (take i ?as)) \<union> set (open_keys (drop (Suc i) ?as))"
    by (auto simp: subj)
  then have "(ad_rule a, ad_asset a) \<notin> set (open_keys (?as[i := b]))"
    using b(2) i by (simp add: upd_conv_take_nth_drop)
  then show none: "active_for_rule_and_asset (al_rows d1) (ad_rule a) (ad_asset a) = None"
    by (simp add: d1 active_None_iff)
  define rows where "rows = al_rows d1 @ [new_alarm a]"
  have nth: "rows ! i = b" "i < length (al_rows d1)" using i by (simp_all add: rows_def d1 nth_append)
  have "open_status (sa_status (unshelve b))" by (simp add: unshelve_def open_status_def)
  moreover have "subject_of (unshelve b) = (ad_rule a, ad_asset a)"
    using b(1) by (simp add: unshelve_def subject_of_def)
  ultimately have "(ad_rule a, ad_asset a) \<in> set (open_keys ((al_rows d1)[i := unshelve b]))"
    using nth(2) by (simp add: upd_conv_take_nth_drop)
  moreover have "open_keys [new_alarm a] = [(ad_rule a, ad_asset a)]"
    by (simp add: new_alarm_def open_status_def subject_of_def)
  ultimately have "\<not> one_open (rows[i := unshelve b])"
    using nth(2) by (simp add: rows_def one_open_def list_update_append1 del: open_keys_simps(2))
  then show "\<exists>d2. perform_action now' i r' (d1\<lparr>al_rows := al_rows d1 @ [new_alarm a]\<rparr>) = Inr d2
      \<and> \<not> one_open (al_rows d2)"
    using unshelve nth by (simp add: perform_action_def change_alarm_def rows_def [symmetric]) (simp add: rows_def)
qed

end
