(* ===== verification/Ingest_Consumer.thy ===== *)
theory Ingest_Consumer
  imports Alarm_Service Sparkplug_Codec Py_Numbers
begin

text \<open>
  The ingest consumer (\<open>apps/api/app/ingest/consumer.py\<close>): one Sparkplug message becomes telemetry rows,
  a state transition, a production row and an energy row, alarms, and fan-outs; rows are buffered under a
  lock and flushed in batches. Readings are reals; a time is in milliseconds. What a \<open>str\<close> or \<open>bytes\<close>
  value parses to as a float is a parameter, as is the plant's local time. \<^term>\<open>None\<close> is a call that
  never returns: \<open>threading.Lock\<close> is not reentrant, and acquiring it twice in one thread blocks.
\<close>

type_synonym metric = "real metric_dict"

definition BATCH_SIZE :: nat where "BATCH_SIZE = 500"

definition ASSET_METRICS :: "string list" where
  "ASSET_METRICS = [''state'', ''good_count'', ''reject_count'', ''cycle_time_s'', ''energy_kwh'', ''power_kw'',
     ''power_factor'']"

definition VALID_STATES :: "string list" where
  "VALID_STATES = [''RUNNING'', ''IDLE'', ''DOWN'', ''MAINTENANCE'', ''UNKNOWN'']"

definition LINE_VOLTAGE_V :: real where "LINE_VOLTAGE_V = 415"

section \<open>Rows and state\<close>

record sensor_info =
  si_sensor :: nat
  si_asset :: nat
  si_unit :: string

record telemetry_row =
  te_time :: int
  te_sensor :: nat
  te_value :: real
  te_quality :: int

record production_row =
  po_time :: int
  po_asset :: nat
  po_good :: real
  po_reject :: real
  po_cycle :: "real option"

record energy_row =
  en_time :: int
  en_asset :: nat
  en_power :: real
  en_energy :: real
  en_factor :: "real option"
  en_current :: "real option"
  en_voltage :: real
  en_rate :: "real option"

record state_event =
  ev_time :: int
  ev_asset :: nat
  ev_state :: string

record tariff =
  tf_days :: "nat list"
  tf_starts :: int
  tf_ends :: int
  tf_rate :: real

datatype shown = Text string | Number real string

datatype fanout =
    Ditto string "(string \<times> shown \<times> int) list"
  | LiveMetrics string "(string \<times> shown) list"
  | AlarmRaised alarm_data

record ingest =
  ig_lock :: bool
  ig_buffer :: "telemetry_row list"
  ig_energy :: "energy_row list"
  ig_production :: "production_row list"
  ig_metric_map :: "(string \<times> string) \<Rightarrow> sensor_info option"
  ig_asset_map :: "string \<Rightarrow> nat option"
  ig_tariffs :: "nat \<Rightarrow> tariff list option"
  ig_rules :: "nat \<Rightarrow> alarm_rule list"
  ig_counters :: "nat \<Rightarrow> (string \<times> real) list"
  ig_last_state :: "nat \<Rightarrow> string option"
  ig_windows :: "nat \<Rightarrow> real list"
  db_telemetry :: "telemetry_row list"
  db_energy :: "energy_row list"
  db_production :: "production_row list"
  db_events :: "state_event list"
  db_alarms :: "stored_alarm list"
  ig_fanout :: "fanout list"

text \<open>\<open>x_db\<close> says whether the database takes transactions while the message is processed; \<open>x_now\<close> is the
  wall clock; \<open>x_local\<close> the weekday and time of day at the plant.\<close>

record ext =
  x_db :: bool
  x_now :: int
  x_local :: "nat \<Rightarrow> nat \<times> int"
  x_float :: "real scalar \<Rightarrow> real option"
  x_str :: "real scalar \<Rightarrow> string"
  x_render :: renderer

section \<open>Helpers\<close>

text \<open>\<open>_as_float\<close>.\<close>

definition as_float :: "ext \<Rightarrow> real scalar option \<Rightarrow> real option" where
  "as_float X v =
     (case v of None \<Rightarrow> None
      | Some (SBool b) \<Rightarrow> Some (if b then 1 else 0)
      | Some (SInt i) \<Rightarrow> Some (real_of_int i)
      | Some (SFloat x) \<Rightarrow> Some x
      | Some SMessage \<Rightarrow> None
      | Some w \<Rightarrow> x_float X w)"

definition counter_delta :: "(string \<times> real) list \<Rightarrow> string \<Rightarrow> real option \<Rightarrow> (string \<times> real) list \<times> real" where
  "counter_delta prev key current =
     (case current of None \<Rightarrow> (prev, 0)
      | Some c \<Rightarrow> (dict_put key c prev,
          (case map_of prev key of None \<Rightarrow> 0 | Some l \<Rightarrow> if c < l then 0 else c - l)))"

text \<open>\<open>_within\<close> and \<open>TariffRepository.rate_at\<close>: inclusive of the start, exclusive of the end.\<close>

definition in_window :: "int \<Rightarrow> int \<Rightarrow> int \<Rightarrow> bool" where
  "in_window t starts ends = (if starts \<le> ends then starts \<le> t \<and> t < ends else t \<ge> starts \<or> t < ends)"

fun rate_at :: "tariff list \<Rightarrow> nat \<times> int \<Rightarrow> real" where
  "rate_at [] at0 = 0"
| "rate_at (t # ts) at0 =
     (if fst at0 \<notin> set (tf_days t) then rate_at ts at0
      else if in_window (snd at0) (tf_starts t) (tf_ends t) then tf_rate t
      else rate_at ts at0)"

definition tariff_rate :: "tariff list option \<Rightarrow> nat \<times> int \<Rightarrow> real option" where
  "tariff_rate entry at0 =
     (case entry of None \<Rightarrow> None | Some ts \<Rightarrow> (let r = rate_at ts at0 in if r \<noteq> 0 then Some r else None))"

section \<open>Buffering and flushing\<close>

definition acquire :: "ingest \<Rightarrow> ingest option" where
  "acquire s = (if ig_lock s then None else Some (s\<lparr>ig_lock := True\<rparr>))"

definition release :: "ingest \<Rightarrow> ingest" where
  "release s = s\<lparr>ig_lock := False\<rparr>"

text \<open>\<open>_insert\<close>, one transaction per table: a failed one is logged and its rows are gone.\<close>

definition insert_rows :: "bool \<Rightarrow> 'r list \<Rightarrow> 'r list \<Rightarrow> 'r list" where
  "insert_rows ok rows table = (if ok then table @ rows else table)"

definition insert_all ::
    "(string \<Rightarrow> bool) \<Rightarrow> telemetry_row list \<Rightarrow> energy_row list \<Rightarrow> production_row list \<Rightarrow> ingest \<Rightarrow> ingest" where
  "insert_all ok te en po s =
     s\<lparr>db_telemetry := insert_rows (ok ''telemetry'') te (db_telemetry s),
        db_energy := insert_rows (ok ''energy'') en (db_energy s),
        db_production := insert_rows (ok ''production'') po (db_production s)\<rparr>"

definition flush_buffer :: "(string \<Rightarrow> bool) \<Rightarrow> ingest \<Rightarrow> ingest option" where
  "flush_buffer ok s =
     Option.bind (acquire s) (\<lambda>s1.
       let te = ig_buffer s1; en = ig_energy s1; po = ig_production s1;
           s2 = release (s1\<lparr>ig_buffer := [], ig_energy := [], ig_production := []\<rparr>)
       in Some (insert_all ok te en po s2))"

definition buffer_rows :: "(string \<Rightarrow> bool) \<Rightarrow> telemetry_row list \<Rightarrow> ingest \<Rightarrow> ingest option" where
  "buffer_rows ok rows s =
     (if rows = [] then Some s
      else Option.bind (acquire s) (\<lambda>s1.
        let s2 = s1\<lparr>ig_buffer := ig_buffer s1 @ rows\<rparr> in
        if length (ig_buffer s2) \<ge> BATCH_SIZE
        then Option.bind (flush_buffer ok s2) (\<lambda>s3. Some (release s3))
        else Some (release s2)))"

section \<open>Asset-level facts\<close>

text \<open>The flag is \<^term>\<open>False\<close> where the handler raised.\<close>

definition handle_state_change :: "ext \<Rightarrow> nat \<Rightarrow> string \<Rightarrow> ingest \<Rightarrow> bool \<times> ingest" where
  "handle_state_change X asset st s =
     (if st \<notin> set VALID_STATES \<or> ig_last_state s asset = Some st then (True, s)
      else (let s1 = s\<lparr>ig_last_state := (ig_last_state s)(asset := Some st)\<rparr> in
            if x_db X then
              (True, s1\<lparr>db_events := db_events s1 @ [\<lparr>ev_time = x_now X, ev_asset = asset, ev_state = st\<rparr>]\<rparr>)
            else (False, s1)))"

definition state_text :: "ext \<Rightarrow> real scalar \<Rightarrow> string" where
  "state_text X v = (case v of SStr t \<Rightarrow> t | w \<Rightarrow> x_str X w)"

definition record_production :: "ext \<Rightarrow> nat \<Rightarrow> (string \<times> real scalar) list \<Rightarrow> ingest \<Rightarrow> ingest" where
  "record_production X asset ms s =
     (let good = as_float X (map_of ms ''good_count''); reject = as_float X (map_of ms ''reject_count'') in
      if good = None \<and> reject = None then s
      else (let (c1, dg) = counter_delta (ig_counters s asset) ''good_count'' good;
                (c2, dr) = counter_delta c1 ''reject_count'' reject;
                s1 = s\<lparr>ig_counters := (ig_counters s)(asset := c2)\<rparr>
            in if dg \<noteq> 0 \<or> dr \<noteq> 0 then
                 s1\<lparr>ig_production := ig_production s1 @
                   [\<lparr>po_time = x_now X, po_asset = asset, po_good = dg, po_reject = dr,
                     po_cycle = as_float X (map_of ms ''cycle_time_s'')\<rparr>]\<rparr>
               else s1))"

definition record_energy :: "ext \<Rightarrow> nat \<Rightarrow> (string \<times> real scalar) list \<Rightarrow> ingest \<Rightarrow> ingest" where
  "record_energy X asset ms s =
     (case (as_float X (map_of ms ''power_kw''), as_float X (map_of ms ''energy_kwh'')) of
        (Some p, Some e) \<Rightarrow>
          (let (c1, de) = counter_delta (ig_counters s asset) ''energy_kwh'' (Some e);
               pf = as_float X (map_of ms ''power_factor'');
               cur = (case pf of Some f \<Rightarrow> if f \<noteq> 0 then Some (p * 1000 / (sqrt 3 * LINE_VOLTAGE_V * f)) else None
                      | None \<Rightarrow> None)
           in s\<lparr>ig_counters := (ig_counters s)(asset := c1),
                ig_energy := ig_energy s @
                  [\<lparr>en_time = x_now X, en_asset = asset, en_power = p, en_energy = de, en_factor = pf,
                    en_current = cur, en_voltage = LINE_VOLTAGE_V,
                    en_rate = tariff_rate (ig_tariffs s asset) (x_local X asset)\<rparr>]\<rparr>)
      | _ \<Rightarrow> s)"

definition handle_asset_metrics :: "ext \<Rightarrow> nat \<Rightarrow> (string \<times> real scalar) list \<Rightarrow> ingest \<Rightarrow> bool \<times> ingest" where
  "handle_asset_metrics X asset ms s =
     (let (ok, s1) = (case map_of ms ''state'' of
                        Some v \<Rightarrow> handle_state_change X asset (state_text X v) s
                      | None \<Rightarrow> (True, s))
      in if ok then (True, record_energy X asset ms (record_production X asset ms s1)) else (False, s1))"

section \<open>Alarms\<close>

definition raise_alarm :: "ext \<Rightarrow> alarm_data \<Rightarrow> ingest \<Rightarrow> bool \<times> ingest" where
  "raise_alarm X a s =
     (if \<not> x_db X then (False, s)
      else if active_for_rule_and_asset (db_alarms s) (ad_rule a) (ad_asset a) \<noteq> None then (True, s)
      else (True, s\<lparr>db_alarms := db_alarms s @ [new_alarm a],
                    ig_fanout := ig_fanout s @ [AlarmRaised a]\<rparr>))"

definition evaluate_rule :: "ext \<Rightarrow> sensor_info \<Rightarrow> real \<Rightarrow> string \<Rightarrow> alarm_rule \<Rightarrow> ingest \<Rightarrow> alarm_data option \<times> ingest" where
  "evaluate_rule X i x name r s =
     (if ru_kind r = ''threshold'' then
        (evaluate_threshold (x_render X) r (si_sensor i) (si_asset i) x name, s)
      else if ru_kind r = ''adaptive'' then
        (let (ws, a) = evaluate_adaptive (x_render X) r (si_sensor i) (si_asset i) x name (ig_windows s (ru_id r))
         in (a, s\<lparr>ig_windows := (ig_windows s)(ru_id r := ws)\<rparr>))
      else (None, s))"

fun run_rules :: "ext \<Rightarrow> sensor_info \<Rightarrow> real \<Rightarrow> string \<Rightarrow> alarm_rule list \<Rightarrow> ingest \<Rightarrow> bool \<times> ingest" where
  "run_rules X i x name [] s = (True, s)"
| "run_rules X i x name (r # rs) s =
     (let (a, s1) = evaluate_rule X i x name r s;
          (ok, s2) = (case a of None \<Rightarrow> (True, s1) | Some d \<Rightarrow> raise_alarm X d s1)
      in if ok then run_rules X i x name rs s2 else (False, s2))"

section \<open>One message\<close>

record gathered =
  ga_rows :: "telemetry_row list"
  ga_patch :: "(string \<times> shown \<times> int) list"
  ga_live :: "(string \<times> shown) list"
  ga_asset :: "(string \<times> real scalar) list"

definition bare_name :: "string \<Rightarrow> string" where
  "bare_name n = last (split_on (CHR ''.'') n)"

definition sensor_of :: "ingest \<Rightarrow> string \<Rightarrow> string \<Rightarrow> sensor_info option" where
  "sensor_of s code name =
     (case ig_metric_map s (code, name) of
        Some i \<Rightarrow> Some i
      | None \<Rightarrow> ig_metric_map s (code, if CHR ''.'' \<in> set name then name else code @ ''.'' @ name))"

text \<open>\<open>a or b or c\<close> on millisecond stamps, and \<open>datetime.fromtimestamp\<close>, which raises past year 9999.\<close>

definition stamp :: "ext \<Rightarrow> int option \<Rightarrow> int option \<Rightarrow> int" where
  "stamp X m p = (if m \<noteq> None \<and> m \<noteq> Some 0 then the m else if p \<noteq> None \<and> p \<noteq> Some 0 then the p else x_now X)"

definition MAX_MILLIS :: int where "MAX_MILLIS = 253402300800000"

text \<open>One iteration of the metric loop.\<close>

definition process_metric ::
    "ext \<Rightarrow> string \<Rightarrow> int option \<Rightarrow> metric \<Rightarrow> ingest \<times> gathered \<Rightarrow> bool \<times> ingest \<times> gathered" where
  "process_metric X code pstamp m sg =
     (case sg of (s, g) \<Rightarrow>
      case m_value m of
        None \<Rightarrow> (True, s, g)
      | Some v \<Rightarrow>
          if prefix ''Node Control'' (m_name m) then (True, s, g)
          else
            (let name = m_name m; bare = bare_name name;
                 g1 = (if bare \<in> set ASSET_METRICS then g\<lparr>ga_asset := dict_put bare v (ga_asset g)\<rparr> else g)
             in if bare = ''state'' then
                  (True, s, g1\<lparr>ga_live := dict_put name (Text (state_text X v)) (ga_live g1),
                               ga_patch := dict_put name (Text (state_text X v), x_now X) (ga_patch g1)\<rparr>)
                else
                  (case (sensor_of s code name, as_float X (Some v)) of
                     (Some i, Some x) \<Rightarrow>
                       (let q = (case as_float X (case map_of (m_properties m) ''Quality'' of Some w \<Rightarrow> w | None \<Rightarrow> None) of
                                   Some y \<Rightarrow> trunc y | None \<Rightarrow> 192);
                            t = stamp X (m_timestamp m) pstamp
                        in if t \<ge> MAX_MILLIS then (False, s, g1)
                           else
                             (let g2 = g1\<lparr>ga_rows := ga_rows g1 @
                                        [\<lparr>te_time = t, te_sensor = si_sensor i, te_value = x, te_quality = q\<rparr>],
                                      ga_patch := dict_put name (Number x (si_unit i), t) (ga_patch g1),
                                      ga_live := dict_put name (Number x (si_unit i)) (ga_live g1)\<rparr>;
                                  (ok, s1) = run_rules X i x name (ig_rules s (si_sensor i)) s
                              in (ok, s1, g2)))
                   | _ \<Rightarrow> (True, s, g1))))"

fun process_metrics ::
    "ext \<Rightarrow> string \<Rightarrow> int option \<Rightarrow> metric list \<Rightarrow> ingest \<times> gathered \<Rightarrow> bool \<times> ingest \<times> gathered" where
  "process_metrics X code pstamp [] sg = (True, sg)"
| "process_metrics X code pstamp (m # ms) sg =
     (case process_metric X code pstamp m sg of
        (True, sg') \<Rightarrow> process_metrics X code pstamp ms sg'
      | (False, sg') \<Rightarrow> (False, sg'))"

definition fan_out :: "string \<Rightarrow> gathered \<Rightarrow> ingest \<Rightarrow> ingest" where
  "fan_out code g s =
     s\<lparr>ig_fanout := ig_fanout s
        @ (if ga_patch g \<noteq> [] then [Ditto (''twinvoice:'' @ code) (ga_patch g)] else [])
        @ (if ga_live g \<noteq> [] then [LiveMetrics (''live:'' @ code) (ga_live g)] else [])\<rparr>"

text \<open>
  \<open>_process_message\<close> up to the asset-level facts: whether it went through, the state, and what is to be
  buffered and fanned out, for which machine.
\<close>

definition gather_message ::
    "ext \<Rightarrow> real float_ops \<Rightarrow> ('b \<Rightarrow> real pb_payload option) \<Rightarrow> string \<Rightarrow> 'b \<Rightarrow> ingest
       \<Rightarrow> bool \<times> ingest \<times> (string \<times> gathered) option" where
  "gather_message X F par topic payload s =
     (case parse_topic topic of
        Inl _ \<Rightarrow> (False, s, None)
      | Inr t \<Rightarrow>
          if t_message_type t \<notin> {DDATA, DBIRTH} then (True, s, None)
          else (case decode_payload F par payload of
                  Inl _ \<Rightarrow> (False, s, None)
                | Inr p \<Rightarrow>
                    (case t_device_id t of
                       None \<Rightarrow> (True, s, None)
                     | Some code \<Rightarrow>
                         (let asset = ig_asset_map s code;
                              (ok, s1, g) = process_metrics X code (pd_timestamp p) (pd_metrics p)
                                (s, \<lparr>ga_rows = [], ga_patch = [], ga_live = [], ga_asset = []\<rparr>)
                          in if \<not> ok then (False, s1, None)
                             else
                               (let (ok2, s2) = (case asset of
                                      Some a \<Rightarrow> if ga_asset g \<noteq> [] then handle_asset_metrics X a (ga_asset g) s1
                                        else (True, s1)
                                    | None \<Rightarrow> (True, s1))
                                in if \<not> ok2 then (False, s2, None) else (True, s2, Some (code, g)))))))"

text \<open>The whole handler, on the bytes of one message.\<close>

definition process_message ::
    "ext \<Rightarrow> real float_ops \<Rightarrow> ('b \<Rightarrow> real pb_payload option) \<Rightarrow> string \<Rightarrow> 'b \<Rightarrow> ingest \<Rightarrow> (bool \<times> ingest) option" where
  "process_message X F par topic payload s =
     (case gather_message X F par topic payload s of
        (ok, s1, None) \<Rightarrow> Some (ok, s1)
      | (ok, s1, Some (code, g)) \<Rightarrow>
          map_option (\<lambda>s2. (True, fan_out code g s2)) (buffer_rows (\<lambda>_. x_db X) (ga_rows g) s1))"

text \<open>\<open>_on_message\<close> logs what the handler raised; here the topic is not an edge prediction's.\<close>

definition on_sparkplug ::
    "ext \<Rightarrow> real float_ops \<Rightarrow> ('b \<Rightarrow> real pb_payload option) \<Rightarrow> string \<Rightarrow> 'b \<Rightarrow> ingest \<Rightarrow> ingest option" where
  "on_sparkplug X F par topic payload s = map_option snd (process_message X F par topic payload s)"

end
