(* ===== verification/Ingest_Safety.thy ===== *)
theory Ingest_Safety
  imports Ingest_Consumer
begin

text \<open>
  The ingest consumer over time: Sparkplug messages, flushes, cache refreshes, restarts, and what the
  other modules do to alarms. What is stored stays consistent (one open alarm per rule and machine,
  strict state transitions, non-negative deltas), and a message returns unless it fills the batch.
\<close>

section \<open>The system\<close>

text \<open>\<open>_load_last_states\<close>: the state of each asset's newest event.\<close>

definition newest :: "state_event list \<Rightarrow> nat \<Rightarrow> state_event option" where
  "newest es asset =
     (case rev (sort_key ev_time (filter (\<lambda>e. ev_asset e = asset) es)) of [] \<Rightarrow> None | e # _ \<Rightarrow> Some e)"

definition load_last_states :: "state_event list \<Rightarrow> nat \<Rightarrow> string option" where
  "load_last_states es asset = map_option ev_state (newest es asset)"

record caches =
  ca_metric_map :: "(string \<times> string) \<Rightarrow> sensor_info option"
  ca_asset_map :: "string \<Rightarrow> nat option"
  ca_tariffs :: "nat \<Rightarrow> tariff list option"
  ca_rules :: "nat \<Rightarrow> alarm_rule list"

definition refresh_caches :: "caches \<Rightarrow> ingest \<Rightarrow> ingest" where
  "refresh_caches c s =
     s\<lparr>ig_metric_map := ca_metric_map c, ig_asset_map := ca_asset_map c, ig_tariffs := ca_tariffs c,
       ig_rules := ca_rules c,
       ig_last_state := (if ig_last_state s = (\<lambda>_. None) then load_last_states (db_events s) else ig_last_state s)\<rparr>"

text \<open>\<open>IngestConsumer.__init__\<close> on what the database and Valkey already hold.\<close>

definition new_consumer :: "ingest \<Rightarrow> ingest" where
  "new_consumer s =
     s\<lparr>ig_lock := False, ig_buffer := [], ig_energy := [], ig_production := [],
       ig_metric_map := (\<lambda>_. None), ig_asset_map := (\<lambda>_. None), ig_tariffs := (\<lambda>_. None), ig_rules := (\<lambda>_. []),
       ig_counters := (\<lambda>_. []), ig_last_state := (\<lambda>_. None)\<rparr>"

definition empty_ingest :: ingest where
  "empty_ingest =
     \<lparr>ig_lock = False, ig_buffer = [], ig_energy = [], ig_production = [],
      ig_metric_map = (\<lambda>_. None), ig_asset_map = (\<lambda>_. None), ig_tariffs = (\<lambda>_. None), ig_rules = (\<lambda>_. []),
      ig_counters = (\<lambda>_. []), ig_last_state = (\<lambda>_. None), ig_windows = (\<lambda>_. []),
      db_telemetry = [], db_energy = [], db_production = [], db_events = [], db_alarms = [], ig_fanout = []\<rparr>"

text \<open>
  Steps. The database takes the transactions of a message (a batch insert may fail) and the clock does
  not run backwards over the stored events. Users act on alarms through the alarm service, short of
  unshelving one beside an open alarm of the same rule and machine, which does break the invariant
  (\<open>unshelve_duplicates\<close>). A Valkey key may expire.
\<close>

inductive ingest_step :: "ingest \<Rightarrow> ingest \<Rightarrow> bool" where
  step_message: "on_sparkplug X F par topic (payload :: nat) s = Some s' \<Longrightarrow> x_db X \<Longrightarrow>
     (\<And>e. e \<in> set (db_events s) \<Longrightarrow> ev_time e \<le> x_now X) \<Longrightarrow> ingest_step s s'"
| step_flush: "flush_buffer ok s = Some s' \<Longrightarrow> ingest_step s s'"
| step_refresh: "ingest_step s (refresh_caches c s)"
| step_restart: "ingest_step s (refresh_caches c (new_consumer s))"
| step_alarm: "perform_action now i r \<lparr>al_rows = db_alarms s, al_actions = acts, al_audits = auds\<rparr> = Inr d \<Longrightarrow>
     (aq_action r = Unshelve \<Longrightarrow> no_rival (db_alarms s) i) \<Longrightarrow> ingest_step s (s\<lparr>db_alarms := al_rows d\<rparr>)"
| step_bulk_ack: "ingest_step s (s\<lparr>db_alarms := bulk_ack_rows now ids user (db_alarms s)\<rparr>)"
| step_expire: "ingest_step s (s\<lparr>ig_windows := (ig_windows s)(r := [])\<rparr>)"

inductive ingest_reachable :: "ingest \<Rightarrow> bool" where
  ingest_start: "ingest_reachable empty_ingest"
| ingest_next: "ingest_reachable s \<Longrightarrow> ingest_step s s' \<Longrightarrow> ingest_reachable s'"

section \<open>Frames\<close>

text \<open>Rules and alarms touch only the windows, the alarms and the fan-out.\<close>

definition alarm_frame :: "ingest \<Rightarrow> ingest \<Rightarrow> bool" where
  "alarm_frame s s' \<longleftrightarrow> (\<exists>w a f. s' = s\<lparr>ig_windows := w, db_alarms := a, ig_fanout := f\<rparr>)"

lemma alarm_frameI: "s' = s\<lparr>ig_windows := w, db_alarms := a, ig_fanout := f\<rparr> \<Longrightarrow> alarm_frame s s'"
  unfolding alarm_frame_def by blast

lemma alarm_frame_refl [simp]: "alarm_frame s s"
  by (rule alarm_frameI [where w = "ig_windows s" and a = "db_alarms s" and f = "ig_fanout s"]) simp

lemma alarm_frame_trans: "alarm_frame s s' \<Longrightarrow> alarm_frame s' s'' \<Longrightarrow> alarm_frame s s''"
proof -
  assume "alarm_frame s s'" "alarm_frame s' s''"
  then obtain w a f w' a' f' where "s' = s\<lparr>ig_windows := w, db_alarms := a, ig_fanout := f\<rparr>"
    "s'' = s'\<lparr>ig_windows := w', db_alarms := a', ig_fanout := f'\<rparr>"
    unfolding alarm_frame_def by blast
  then show ?thesis by (intro alarm_frameI [where w = w' and a = a' and f = f']) simp
qed

lemma alarm_frame_fields:
  assumes "alarm_frame s s'"
  shows "ig_lock s' = ig_lock s" "ig_buffer s' = ig_buffer s" "ig_energy s' = ig_energy s"
    "ig_production s' = ig_production s" "ig_counters s' = ig_counters s" "ig_last_state s' = ig_last_state s"
    "db_telemetry s' = db_telemetry s" "db_energy s' = db_energy s" "db_production s' = db_production s"
    "db_events s' = db_events s"
  using assms unfolding alarm_frame_def by auto

definition alarms_kept :: "ingest \<Rightarrow> ingest \<Rightarrow> bool" where
  "alarms_kept s s' \<longleftrightarrow> alarm_frame s s' \<and> (one_open (db_alarms s) \<longrightarrow> one_open (db_alarms s'))"

lemma alarms_kept_refl [simp]: "alarms_kept s s"
  by (simp add: alarms_kept_def)

lemma alarms_kept_trans: "alarms_kept s s' \<Longrightarrow> alarms_kept s' s'' \<Longrightarrow> alarms_kept s s''"
  by (auto simp: alarms_kept_def intro: alarm_frame_trans)

lemma raise_alarm_kept: "alarms_kept s (snd (raise_alarm X d s))"
proof -
  have "alarm_frame s (s\<lparr>db_alarms := a, ig_fanout := f\<rparr>)" for a f
    by (rule alarm_frameI [where w = "ig_windows s" and a = a and f = f]) simp
  then show ?thesis
    by (auto simp: alarms_kept_def raise_alarm_def intro: one_open_raise)
qed

lemma evaluate_rule_kept: "alarms_kept s (snd (evaluate_rule X i x name r s))"
proof -
  have "alarm_frame s (s\<lparr>ig_windows := w\<rparr>)" for w
    by (rule alarm_frameI [where w = w and a = "db_alarms s" and f = "ig_fanout s"]) simp
  then show ?thesis
    by (simp add: alarms_kept_def evaluate_rule_def split: prod.split)
qed

lemma run_rules_kept: "alarms_kept s (snd (run_rules X i x name rs s))"
proof (induction rs arbitrary: s)
  case Nil
  then show ?case by simp
next
  case (Cons r rs)
  obtain a s1 where ev: "evaluate_rule X i x name r s = (a, s1)" by force
  define out where "out = (case a of None \<Rightarrow> (True, s1) | Some d \<Rightarrow> raise_alarm X d s1)"
  obtain ok s2 where out2: "out = (ok, s2)" by force
  have "alarms_kept s s1" using evaluate_rule_kept [of s X i x name r] ev by simp
  moreover have "alarms_kept s1 s2"
  proof (cases a)
    case None
    with out2 show ?thesis by (simp add: out_def)
  next
    case (Some d)
    with out2 raise_alarm_kept [of s1 X d] show ?thesis by (simp add: out_def)
  qed
  ultimately have "alarms_kept s s2" by (rule alarms_kept_trans)
  with Cons.IH [of s2] show ?case
    by (auto simp: ev out_def [symmetric] out2 intro: alarms_kept_trans)
qed

lemma process_metric_kept: "alarms_kept s (fst (snd (process_metric X code ps m (s, g))))"
proof -
  have "alarms_kept s s'" if "run_rules X i x n rs s = (ok, s')" for i x n rs ok s'
    using run_rules_kept [of s X i x n rs] that by simp
  then show ?thesis
    unfolding process_metric_def Let_def by (auto split: option.split prod.split)
qed

lemma process_metrics_kept: "alarms_kept s (fst (snd (process_metrics X code ps ms (s, g))))"
proof (induction ms arbitrary: s g)
  case Nil
  then show ?case by simp
next
  case (Cons m ms)
  obtain ok s1 g1 where pm: "process_metric X code ps m (s, g) = (ok, s1, g1)" by (cases "process_metric X code ps m (s, g)")
  have "alarms_kept s s1" using process_metric_kept [of s X code ps m g] pm by simp
  with Cons.IH [of s1 g1] show ?case
    by (cases ok) (auto simp: pm intro: alarms_kept_trans)
qed

section \<open>What a message changes\<close>

lemma counter_delta_nonneg: "0 \<le> snd (counter_delta prev key c)"
  by (auto simp: counter_delta_def split: option.split)

text \<open>The telemetry a message contributes; nothing if its handler raised on the way.\<close>

definition accepted_rows ::
    "ext \<Rightarrow> real float_ops \<Rightarrow> ('b \<Rightarrow> real pb_payload option) \<Rightarrow> string \<Rightarrow> 'b \<Rightarrow> ingest \<Rightarrow> telemetry_row list" where
  "accepted_rows X F par topic payload s =
     (case snd (snd (gather_message X F par topic payload s)) of None \<Rightarrow> [] | Some (code, g) \<Rightarrow> ga_rows g)"

definition production_ok :: "production_row \<Rightarrow> bool" where
  "production_ok r \<longleftrightarrow> 0 \<le> po_good r \<and> 0 \<le> po_reject r \<and> (po_good r \<noteq> 0 \<or> po_reject r \<noteq> 0)"

definition facts_ok :: "ingest \<Rightarrow> bool" where
  "facts_ok s \<longleftrightarrow> (\<forall>r \<in> set (ig_production s) \<union> set (db_production s). production_ok r)
     \<and> (\<forall>r \<in> set (ig_energy s) \<union> set (db_energy s). 0 \<le> en_energy r)"

definition states_of :: "state_event list \<Rightarrow> nat \<Rightarrow> string list" where
  "states_of es asset = map ev_state (filter (\<lambda>e. ev_asset e = asset) es)"

definition events_ok :: "ingest \<Rightarrow> bool" where
  "events_ok s \<longleftrightarrow> (\<forall>a. distinct_adj (states_of (db_events s) a)
     \<and> ig_last_state s a = (if states_of (db_events s) a = [] then None else Some (last (states_of (db_events s) a))))
     \<and> sorted (map ev_time (db_events s))"

lemma record_production_frame:
  "ig_lock (record_production X a ms s) = ig_lock s" "ig_buffer (record_production X a ms s) = ig_buffer s"
  "db_telemetry (record_production X a ms s) = db_telemetry s" "db_events (record_production X a ms s) = db_events s"
  "ig_last_state (record_production X a ms s) = ig_last_state s" "db_alarms (record_production X a ms s) = db_alarms s"
  by (simp_all add: record_production_def Let_def split: prod.split)

lemma record_energy_frame:
  "ig_lock (record_energy X a ms s) = ig_lock s" "ig_buffer (record_energy X a ms s) = ig_buffer s"
  "db_telemetry (record_energy X a ms s) = db_telemetry s" "db_events (record_energy X a ms s) = db_events s"
  "ig_last_state (record_energy X a ms s) = ig_last_state s" "db_alarms (record_energy X a ms s) = db_alarms s"
  by (simp_all add: record_energy_def Let_def split: prod.split option.split)

lemma record_production_ok: "facts_ok s \<Longrightarrow> facts_ok (record_production X a ms s)"
proof -
  assume ok: "facts_ok s"
  obtain c1 dg where g: "counter_delta (ig_counters s a) ''good_count'' (as_float X (map_of ms ''good_count'')) = (c1, dg)"
    by force
  obtain c2 dr where r: "counter_delta c1 ''reject_count'' (as_float X (map_of ms ''reject_count'')) = (c2, dr)"
    by force
  have "0 \<le> dg" "0 \<le> dr"
    using counter_delta_nonneg [of "ig_counters s a"] counter_delta_nonneg [of c1] g r by (metis snd_conv)+
  with ok show ?thesis
    unfolding record_production_def Let_def g r prod.case
    by (auto simp: facts_ok_def production_ok_def)
qed

lemma record_energy_ok: "facts_ok s \<Longrightarrow> facts_ok (record_energy X a ms s)"
proof -
  assume ok: "facts_ok s"
  have "0 \<le> d" if "counter_delta p k c = (q, d)" for p k c q d
    using counter_delta_nonneg [of p k c] that by simp
  with ok show ?thesis
    by (auto simp: record_energy_def facts_ok_def Let_def split: option.split prod.split)
qed

lemma handle_state_change_facts: "facts_ok s \<Longrightarrow> facts_ok (snd (handle_state_change X a st s))"
  by (simp add: handle_state_change_def facts_ok_def Let_def)

lemma handle_state_change_frame:
  "ig_lock (snd (handle_state_change X a st s)) = ig_lock s" "ig_buffer (snd (handle_state_change X a st s)) = ig_buffer s"
  "db_telemetry (snd (handle_state_change X a st s)) = db_telemetry s"
  "db_alarms (snd (handle_state_change X a st s)) = db_alarms s"
  by (simp_all add: handle_state_change_def Let_def)

lemma states_of_snoc:
  "states_of (es @ [e]) a = (if ev_asset e = a then states_of es a @ [ev_state e] else states_of es a)"
  by (simp add: states_of_def)

lemma sorted_snoc: "sorted xs \<Longrightarrow> (\<And>x. x \<in> set xs \<Longrightarrow> x \<le> y) \<Longrightarrow> sorted (xs @ [y])"
  by (auto simp: sorted_append)

lemma distinct_adj_snoc:
  "distinct_adj xs \<Longrightarrow> (xs \<noteq> [] \<Longrightarrow> last xs \<noteq> y) \<Longrightarrow> distinct_adj (xs @ [y])"
  by (auto simp: distinct_adj_append_iff)

lemma handle_state_change_events:
  assumes ok: "events_ok s" and db: "x_db X" and clock: "\<And>e. e \<in> set (db_events s) \<Longrightarrow> ev_time e \<le> x_now X"
  shows "events_ok (snd (handle_state_change X asset st s))"
proof (cases "st \<notin> set VALID_STATES \<or> ig_last_state s asset = Some st")
  case True
  with ok show ?thesis by (simp add: handle_state_change_def)
next
  case False
  let ?es = "db_events s" and ?e = "\<lparr>ev_time = x_now X, ev_asset = asset, ev_state = st\<rparr>"
  have new: "snd (handle_state_change X asset st s) =
      s\<lparr>ig_last_state := (ig_last_state s)(asset := Some st), db_events := ?es @ [?e]\<rparr>"
    using False db by (simp add: handle_state_change_def Let_def)
  have "sorted (map ev_time (?es @ [?e]))"
    using ok clock by (auto simp: events_ok_def sorted_append)
  moreover have "distinct_adj (states_of (?es @ [?e]) a)" for a
    using ok False by (auto simp: events_ok_def states_of_snoc intro!: distinct_adj_snoc)
  moreover have "((ig_last_state s)(asset := Some st)) a =
      (if states_of (?es @ [?e]) a = [] then None else Some (last (states_of (?es @ [?e]) a)))" for a
    using ok by (auto simp: events_ok_def states_of_snoc)
  ultimately show ?thesis unfolding new by (simp add: events_ok_def)
qed

lemma handle_asset_metrics_ok:
  assumes "facts_ok s" "events_ok s" "x_db X" "\<And>e. e \<in> set (db_events s) \<Longrightarrow> ev_time e \<le> x_now X"
  shows "facts_ok (snd (handle_asset_metrics X a ms s)) \<and> events_ok (snd (handle_asset_metrics X a ms s))"
proof -
  define out where "out = (case map_of ms ''state'' of
    Some v \<Rightarrow> handle_state_change X a (state_text X v) s | None \<Rightarrow> (True, s))"
  have "facts_ok (snd out)" "events_ok (snd out)" "fst out"
    using assms(1-4) handle_state_change_facts handle_state_change_events [OF assms(2-4)]
    by (auto simp: out_def handle_state_change_def Let_def split: option.split)
  moreover have "events_ok (record_energy X a ms (record_production X a ms t))" if "events_ok t" for t
    using that by (simp add: events_ok_def record_energy_frame record_production_frame)
  moreover have "handle_asset_metrics X a ms s =
      (if fst out then (True, record_energy X a ms (record_production X a ms (snd out))) else (False, snd out))"
    by (simp add: handle_asset_metrics_def out_def case_prod_beta)
  ultimately show ?thesis
    by (simp add: record_energy_ok record_production_ok)
qed

lemma handle_asset_metrics_frame:
  "ig_lock (snd (handle_asset_metrics X a ms s)) = ig_lock s"
  "ig_buffer (snd (handle_asset_metrics X a ms s)) = ig_buffer s"
  "db_telemetry (snd (handle_asset_metrics X a ms s)) = db_telemetry s"
  "db_alarms (snd (handle_asset_metrics X a ms s)) = db_alarms s"
  using handle_state_change_frame
  by (auto simp: handle_asset_metrics_def record_energy_frame record_production_frame case_prod_beta
      split: option.split)

definition consumer_ok :: "ingest \<Rightarrow> bool" where
  "consumer_ok s \<longleftrightarrow> one_open (db_alarms s) \<and> facts_ok s \<and> events_ok s"

text \<open>\<open>gather_message\<close> is the metric loop, then at most the asset-level facts.\<close>

lemma gather_message_induct:
  assumes start: "Q s" and weaken: "\<And>t. Q t \<Longrightarrow> P t"
    and metrics: "\<And>code ps ms g. Q (fst (snd (process_metrics X code ps ms (s, g))))"
    and assets: "\<And>t a ms. Q t \<Longrightarrow> P (snd (handle_asset_metrics X a ms t))"
  shows "P (fst (snd (gather_message X F par topic payload s)))"
proof (cases "parse_topic topic")
  case (Inl e)
  with start weaken show ?thesis by (simp add: gather_message_def)
next
  case (Inr t)
  note topic = this
  show ?thesis
  proof (cases "t_message_type t \<in> {DDATA, DBIRTH}")
    case False
    with topic start weaken show ?thesis by (simp add: gather_message_def)
  next
    case True
    note mt = this
    show ?thesis
    proof (cases "decode_payload F par payload")
      case (Inl e)
      with topic mt start weaken show ?thesis by (simp add: gather_message_def)
    next
      case (Inr p)
      note dec = this
      show ?thesis
      proof (cases "t_device_id t")
        case None
        with topic mt dec start weaken show ?thesis by (simp add: gather_message_def)
      next
        case (Some code)
        define g0 where "g0 = \<lparr>ga_rows = [], ga_patch = [], ga_live = [], ga_asset = []\<rparr>"
        obtain ok s1 g where pm: "process_metrics X code (pd_timestamp p) (pd_metrics p) (s, g0) = (ok, s1, g)"
          by (cases "process_metrics X code (pd_timestamp p) (pd_metrics p) (s, g0)")
        have s1: "Q s1" using metrics [of code "pd_timestamp p" "pd_metrics p" g0] by (simp add: pm)
        define out where "out = (case ig_asset_map s code of
            Some a \<Rightarrow> if ga_asset g \<noteq> [] then handle_asset_metrics X a (ga_asset g) s1 else (True, s1)
          | None \<Rightarrow> (True, s1))"
        have "P (snd out)" using s1 weaken assets by (simp add: out_def split: option.split)
        moreover have "gather_message X F par topic payload s =
            (if \<not> ok then (False, s1, None)
             else if \<not> fst out then (False, snd out, None) else (True, snd out, Some (code, g)))"
          using topic mt dec Some
          by (simp add: gather_message_def Let_def g0_def [symmetric] pm out_def [symmetric] split: prod.split)
        ultimately show ?thesis using s1 weaken by simp
      qed
    qed
  qed
qed

lemma gather_message_frame:
  "ig_lock (fst (snd (gather_message X F par topic payload s))) = ig_lock s
     \<and> ig_buffer (fst (snd (gather_message X F par topic payload s))) = ig_buffer s
     \<and> db_telemetry (fst (snd (gather_message X F par topic payload s))) = db_telemetry s"
proof (rule gather_message_induct [where Q = "\<lambda>t. ig_lock t = ig_lock s \<and> ig_buffer t = ig_buffer s
      \<and> db_telemetry t = db_telemetry s"])
  fix code ps ms g
  have "alarm_frame s (fst (snd (process_metrics X code ps ms (s, g))))"
    using process_metrics_kept by (simp add: alarms_kept_def)
  note alarm_frame_fields [OF this]
  then show "ig_lock (fst (snd (process_metrics X code ps ms (s, g)))) = ig_lock s
     \<and> ig_buffer (fst (snd (process_metrics X code ps ms (s, g)))) = ig_buffer s
     \<and> db_telemetry (fst (snd (process_metrics X code ps ms (s, g)))) = db_telemetry s"
    by simp
qed (simp_all add: handle_asset_metrics_frame)

lemma gather_message_ok:
  assumes ok: "consumer_ok s" and db: "x_db X" and clock: "\<And>e. e \<in> set (db_events s) \<Longrightarrow> ev_time e \<le> x_now X"
  shows "consumer_ok (fst (snd (gather_message X F par topic payload s)))"
proof (rule gather_message_induct [where Q = "\<lambda>t. consumer_ok t \<and> db_events t = db_events s"])
  fix code ps ms g
  let ?t = "fst (snd (process_metrics X code ps ms (s, g)))"
  have frame: "alarm_frame s ?t" and one: "one_open (db_alarms ?t)"
    using process_metrics_kept [of s X code ps ms g] ok by (simp_all add: alarms_kept_def consumer_ok_def)
  note fields = alarm_frame_fields [OF frame]
  have "facts_ok ?t = facts_ok s" "events_ok ?t = events_ok s"
    by (simp_all only: facts_ok_def events_ok_def fields)
  with one ok fields show "consumer_ok ?t \<and> db_events ?t = db_events s" by (simp add: consumer_ok_def)
next
  fix t a ms assume t: "consumer_ok t \<and> db_events t = db_events s"
  then show "consumer_ok (snd (handle_asset_metrics X a ms t))"
    using handle_asset_metrics_ok [of t X a ms] db clock
    by (simp add: consumer_ok_def handle_asset_metrics_frame)
qed (use ok in simp_all)

lemma buffer_rows_cases:
  assumes "\<not> ig_lock s"
  shows "buffer_rows ok rows s =
    (if rows \<noteq> [] \<and> BATCH_SIZE \<le> length (ig_buffer s) + length rows then None
     else Some (s\<lparr>ig_buffer := ig_buffer s @ rows\<rparr>))"
  using assms by (auto simp: buffer_rows_def acquire_def flush_buffer_def release_def Let_def)

lemma fan_out_frame:
  "ig_lock (fan_out code g s) = ig_lock s" "ig_buffer (fan_out code g s) = ig_buffer s"
  "db_telemetry (fan_out code g s) = db_telemetry s"
  by (simp_all add: fan_out_def)

lemma consumer_ok_fields:
  "consumer_ok (fan_out code g s) \<longleftrightarrow> consumer_ok s" "consumer_ok (s\<lparr>ig_buffer := b\<rparr>) \<longleftrightarrow> consumer_ok s"
  by (simp_all add: consumer_ok_def facts_ok_def events_ok_def fan_out_def)

section \<open>Properties\<close>

lemma handler_returns:
  assumes "\<not> ig_lock s"
  shows "let rows = accepted_rows X F par topic payload s in
    (on_sparkplug X F par topic payload s = None
      \<longleftrightarrow> rows \<noteq> [] \<and> BATCH_SIZE \<le> length (ig_buffer s) + length rows)
    \<and> (\<forall>s'. on_sparkplug X F par topic payload s = Some s' \<longrightarrow>
          \<not> ig_lock s' \<and> db_telemetry s' @ ig_buffer s' = db_telemetry s @ ig_buffer s @ rows)"
proof -
  define rows where "rows = accepted_rows X F par topic payload s"
  obtain ok s1 r where g: "gather_message X F par topic payload s = (ok, s1, r)"
    by (cases "gather_message X F par topic payload s")
  have frame: "ig_lock s1 = ig_lock s" "ig_buffer s1 = ig_buffer s" "db_telemetry s1 = db_telemetry s"
    using gather_message_frame [of X F par topic payload s] by (simp_all add: g)
  show ?thesis
  proof (cases r)
    case None
    then show ?thesis
      using assms(1) frame by (simp add: on_sparkplug_def process_message_def accepted_rows_def g)
  next
    case (Some cg)
    obtain code gr where cg: "cg = (code, gr)" by force
    have "\<not> ig_lock s1" using assms(1) frame by simp
    note buf = buffer_rows_cases [OF this, of "\<lambda>_. x_db X" "ga_rows gr"]
    have rows: "rows = ga_rows gr" by (simp add: rows_def accepted_rows_def g Some cg)
    have "on_sparkplug X F par topic payload s =
        (if rows \<noteq> [] \<and> BATCH_SIZE \<le> length (ig_buffer s) + length rows then None
         else Some (fan_out code gr (s1\<lparr>ig_buffer := ig_buffer s @ rows\<rparr>)))"
      unfolding on_sparkplug_def process_message_def g Some cg
      using buf by (auto simp: rows frame)
    then show ?thesis unfolding rows_def [symmetric] using assms(1) frame by (auto simp: Let_def fan_out_frame)
  qed
qed

text \<open>
  Property C26. A Sparkplug message returns unless the telemetry it contributes fills the batch: then the
  handler, holding the buffer lock, calls the flush that waits for the same lock, and never returns. A
  message that returns has appended exactly the rows it accepted, behind everything received before.
\<close>

theorem message_returns_iff:
  assumes "\<not> ig_lock s"
  shows "let rows = accepted_rows X F par topic payload s in
    (on_sparkplug X F par topic payload s = None
      \<longleftrightarrow> rows \<noteq> [] \<and> BATCH_SIZE \<le> length (ig_buffer s) + length rows)
    \<and> (\<forall>s'. on_sparkplug X F par topic payload s = Some s' \<longrightarrow>
          \<not> ig_lock s' \<and> db_telemetry s' @ ig_buffer s' = db_telemetry s @ ig_buffer s @ rows)"
  by (rule handler_returns [OF assms])

lemma sort_key_sorted: "sorted (map f xs) \<Longrightarrow> sort_key f xs = xs"
  by (rule sort_key_id_if_sorted)

lemma load_last_states_ok:
  assumes "sorted (map ev_time es)"
  shows "load_last_states es a = (if states_of es a = [] then None else Some (last (states_of es a)))"
proof -
  let ?fs = "filter (\<lambda>e. ev_asset e = a) es"
  have "sorted (map ev_time ?fs)" using assms by (simp add: sorted_filter)
  then have "sort_key ev_time ?fs = ?fs" by (rule sort_key_sorted)
  then show ?thesis
    by (cases ?fs rule: rev_cases) (auto simp: load_last_states_def newest_def states_of_def)
qed

lemma refresh_caches_ok:
  assumes "consumer_ok s \<or> consumer_ok s0 \<and> s = new_consumer s0"
  shows "consumer_ok (refresh_caches c s)"
  using assms
proof
  assume ok: "consumer_ok s"
  then have "ig_last_state s = load_last_states (db_events s)"
    by (auto simp: consumer_ok_def events_ok_def load_last_states_ok)
  then have "ig_last_state (refresh_caches c s) = ig_last_state s"
    by (simp add: refresh_caches_def)
  with ok show ?thesis by (simp add: consumer_ok_def facts_ok_def events_ok_def) (simp add: refresh_caches_def)
next
  assume new: "consumer_ok s0 \<and> s = new_consumer s0"
  then have ev: "sorted (map ev_time (db_events s0))" "distinct_adj (states_of (db_events s0) a)" for a
    by (simp_all add: consumer_ok_def events_ok_def)
  have "events_ok (refresh_caches c s)"
    unfolding events_ok_def
    using new ev(2) load_last_states_ok [OF ev(1)] by (simp add: refresh_caches_def new_consumer_def ev(1))
  moreover have "facts_ok (refresh_caches c s)" "one_open (db_alarms (refresh_caches c s))"
    using new by (auto simp: refresh_caches_def new_consumer_def consumer_ok_def facts_ok_def)
  ultimately show ?thesis by (simp add: consumer_ok_def)
qed

lemma on_sparkplug_ok:
  assumes "on_sparkplug X F par topic payload s = Some s'" "\<not> ig_lock s" "consumer_ok s" "x_db X"
    and "\<And>e. e \<in> set (db_events s) \<Longrightarrow> ev_time e \<le> x_now X"
  shows "consumer_ok s'"
proof -
  obtain ok s1 r where g: "gather_message X F par topic payload s = (ok, s1, r)"
    by (cases "gather_message X F par topic payload s")
  have s1: "consumer_ok s1" using gather_message_ok [OF assms(3-5), of F par topic payload] by (simp add: g)
  show ?thesis
  proof (cases r)
    case None
    with assms(1) s1 show ?thesis by (simp add: on_sparkplug_def process_message_def g)
  next
    case (Some cg)
    obtain code gr where cg: "cg = (code, gr)" by force
    have "\<not> ig_lock s1" using gather_message_frame [of X F par topic payload s] assms(2) by (simp add: g)
    note buf = buffer_rows_cases [OF this, of "\<lambda>_. x_db X" "ga_rows gr"]
    have "s' = fan_out code gr (s1\<lparr>ig_buffer := ig_buffer s1 @ ga_rows gr\<rparr>)"
      using assms(1) buf by (simp add: on_sparkplug_def process_message_def g Some cg split: if_splits)
    with s1 show ?thesis by (simp add: consumer_ok_fields)
  qed
qed

lemma flush_buffer_ok:
  assumes "flush_buffer ok s = Some s'" "consumer_ok s"
  shows "consumer_ok s' \<and> \<not> ig_lock s'"
proof -
  have s': "s' = insert_all ok (ig_buffer s) (ig_energy s) (ig_production s)
      (s\<lparr>ig_buffer := [], ig_energy := [], ig_production := [], ig_lock := False\<rparr>)"
    using assms(1) by (auto simp: flush_buffer_def acquire_def release_def Let_def split: if_splits)
  show ?thesis
    using assms(2) unfolding s' insert_all_def insert_rows_def
    by (auto simp: consumer_ok_def facts_ok_def events_ok_def)
qed

lemma ingest_step_ok:
  assumes "ingest_step s s'" "consumer_ok s" "\<not> ig_lock s"
  shows "consumer_ok s' \<and> \<not> ig_lock s'"
  using assms
proof (induction rule: ingest_step.induct)
  case (step_message X F par topic payload s s')
  from handler_returns [OF step_message.prems(2), of X F par topic payload] step_message.hyps(1)
  have "\<not> ig_lock s'" by (simp add: Let_def)
  with on_sparkplug_ok [OF step_message.hyps(1) step_message.prems(2,1) step_message.hyps(2)] step_message.hyps(3)
  show ?case by blast
next
  case (step_flush ok s s')
  then show ?case using flush_buffer_ok by blast
next
  case (step_refresh s c)
  then show ?case using refresh_caches_ok [of s] by (auto simp: refresh_caches_def)
next
  case (step_restart s c)
  then show ?case using refresh_caches_ok [of "new_consumer s" s] by (auto simp: refresh_caches_def new_consumer_def)
next
  case (step_alarm now i r s acts auds d)
  from perform_action_one_open [OF step_alarm.hyps(1)] step_alarm.hyps(2) step_alarm.prems
  show ?case by (simp add: consumer_ok_def facts_ok_def events_ok_def)
next
  case (step_bulk_ack s now ids user)
  then show ?case
    using bulk_ack_one_open [of "\<lparr>al_rows = db_alarms s, al_actions = [], al_audits = []\<rparr>" now ids user]
    by (simp add: consumer_ok_def facts_ok_def events_ok_def bulk_ack_def)
next
  case (step_expire s r)
  then show ?case by (simp add: consumer_ok_def facts_ok_def events_ok_def)
qed


text \<open>When the database is down the transition is lost for good: the state is remembered as stored.\<close>

lemma transition_lost:
  assumes "\<not> x_db X" "st \<in> set VALID_STATES" "ig_last_state s a \<noteq> Some st" "x_db Y"
  shows "db_events (snd (handle_state_change Y a st (snd (handle_state_change X a st s)))) = db_events s"
  using assms by (simp add: handle_state_change_def Let_def)

text \<open>A tariff window that starts and ends at the same time never applies.\<close>

lemma round_the_clock_tariff: "\<not> in_window t c c"
  by (simp add: in_window_def)

section \<open>Witnesses\<close>

definition demo_floats :: "real float_ops" where
  "demo_floats = \<lparr>f_of_int = (\<lambda>i. Some (real_of_int i)), f_to_int = (\<lambda>x. Some (trunc x)), f_single = (\<lambda>x. x)\<rparr>"

definition demo_metric :: "string \<Rightarrow> real pb_value \<Rightarrow> int \<Rightarrow> real pb_metric" where
  "demo_metric name v dt = \<lparr>pm_name = name, pm_datatype = dt, pm_timestamp = Some 1000,
     pm_cell = \<lparr>c_is_null = False, c_value = Some v\<rparr>, pm_properties = None\<rparr>"

definition demo_parse :: "nat \<Rightarrow> real pb_payload option" where
  "demo_parse n = Some \<lparr>pl_timestamp = Some 1000, pl_seq = Some 0,
     pl_metrics = [demo_metric ''temp'' (PbDouble 90) 10, demo_metric ''state'' (PbString ''RUNNING'') 12]\<rparr>"

definition demo_ext :: ext where
  "demo_ext = \<lparr>x_db = True, x_now = 1000, x_local = (\<lambda>_. (0, 0)), x_float = (\<lambda>_. None), x_str = (\<lambda>_. []),
     x_render = (\<lambda>_ _. ''0'')\<rparr>"

definition demo_rule :: alarm_rule where
  "demo_rule = \<lparr>ru_id = 5, ru_kind = ''threshold'', ru_severity = ''high'', ru_high = Some 80, ru_low = None,
     ru_sigma = None, ru_window = None\<rparr>"

definition demo_caches :: caches where
  "demo_caches = \<lparr>ca_metric_map = (\<lambda>k. if k = (''cnc-01'', ''temp'')
       then Some \<lparr>si_sensor = 3, si_asset = 1, si_unit = ''C''\<rparr> else None),
     ca_asset_map = (\<lambda>c. if c = ''cnc-01'' then Some 1 else None), ca_tariffs = (\<lambda>_. None),
     ca_rules = (\<lambda>i. if i = 3 then [demo_rule] else [])\<rparr>"

definition demo_s0 :: ingest where
  "demo_s0 = refresh_caches demo_caches (new_consumer empty_ingest)"

definition demo_topic :: string where
  "demo_topic = ''spBv1.0/plant/DDATA/line/cnc-01''"

definition demo_row :: telemetry_row where
  "demo_row = \<lparr>te_time = 1000, te_sensor = 3, te_value = 90, te_quality = 192\<rparr>"

definition demo_nearly_full :: ingest where
  "demo_nearly_full = demo_s0\<lparr>ig_buffer := replicate 499 demo_row\<rparr>"

lemma demo_refresh: "demo_s0 = empty_ingest\<lparr>ig_metric_map := ca_metric_map demo_caches,
    ig_asset_map := ca_asset_map demo_caches, ig_tariffs := ca_tariffs demo_caches, ig_rules := ca_rules demo_caches\<rparr>"
  by (simp add: demo_s0_def refresh_caches_def new_consumer_def empty_ingest_def load_last_states_def newest_def
      fun_eq_iff)

definition demo_decoded :: "real payload_dict" where
  "demo_decoded = (case decode_payload demo_floats demo_parse 0 of Inr p \<Rightarrow> p)"

lemma demo_topic_parsed: "parse_topic demo_topic =
    Inr \<lparr>t_group_id = ''plant'', t_message_type = DDATA, t_edge_node_id = ''line'', t_device_id = Some ''cnc-01''\<rparr>"
  by code_simp

lemma demo_decode: "decode_payload demo_floats demo_parse 0 = Inr demo_decoded"
  by code_simp

lemma demo_metrics: "map (\<lambda>m. (m_name m, m_value m, m_timestamp m, m_properties m)) (pd_metrics demo_decoded) =
    [(''temp'', Some (SFloat 90), Some 1000, []), (''state'', Some (SStr ''RUNNING''), Some 1000, [])]"
  by code_simp

text \<open>What the message does on a free state with these caches.\<close>

lemma demo_gather:
  assumes "ig_metric_map s = ca_metric_map demo_caches" "ig_asset_map s = ca_asset_map demo_caches"
    and "ig_rules s = ca_rules demo_caches" "db_alarms s = []" "ig_last_state s = (\<lambda>_. None)"
  shows "gather_message demo_ext demo_floats demo_parse demo_topic 0 s =
    (True, s\<lparr>db_alarms := [new_alarm (threshold_alarm (\<lambda>_ _. ''0'') demo_rule 3 1 90 ''temp'' 80 ''above'')],
        ig_fanout := ig_fanout s @ [AlarmRaised (threshold_alarm (\<lambda>_ _. ''0'') demo_rule 3 1 90 ''temp'' 80 ''above'')],
        ig_last_state := (\<lambda>_. None)(1 := Some ''RUNNING''),
        db_events := db_events s @ [\<lparr>ev_time = 1000, ev_asset = 1, ev_state = ''RUNNING''\<rparr>]\<rparr>,
     Some (''cnc-01'',
       \<lparr>ga_rows = [demo_row],
        ga_patch = [(''temp'', Number 90 ''C'', 1000), (''state'', Text ''RUNNING'', 1000)],
        ga_live = [(''temp'', Number 90 ''C''), (''state'', Text ''RUNNING'')],
        ga_asset = [(''state'', SStr ''RUNNING'')]\<rparr>))"
proof -
  obtain m1 m2 where ms: "pd_metrics demo_decoded = [m1, m2]"
    and m1: "m_name m1 = ''temp''" "m_value m1 = Some (SFloat 90)" "m_timestamp m1 = Some 1000" "m_properties m1 = []"
    and m2: "m_name m2 = ''state''" "m_value m2 = Some (SStr ''RUNNING'')"
    using demo_metrics by (cases "pd_metrics demo_decoded"; cases "tl (pd_metrics demo_decoded)") auto
  have bare: "bare_name ''temp'' = ''temp''" "bare_name ''state'' = ''state''" by code_simp+
  define al where "al = threshold_alarm (\<lambda>_ _. ''0'') demo_rule 3 1 90 ''temp'' 80 ''above''"
  define s1 where "s1 = s\<lparr>db_alarms := [new_alarm al],
    ig_fanout := ig_fanout s @ [AlarmRaised al]\<rparr>"
  define g0 g1 where "g0 = \<lparr>ga_rows = [], ga_patch = [], ga_live = [], ga_asset = []\<rparr>"
    and "g1 = \<lparr>ga_rows = [demo_row], ga_patch = [(''temp'', Number 90 ''C'', 1000)],
      ga_live = [(''temp'', Number 90 ''C'')], ga_asset = []\<rparr>"
  have rule: "evaluate_rule demo_ext i 90 ''temp'' demo_rule s =
      (Some (threshold_alarm (\<lambda>_ _. ''0'') demo_rule (si_sensor i) (si_asset i) 90 ''temp'' 80 ''above''), s)" for i s
    by (simp add: evaluate_rule_def demo_rule_def evaluate_threshold_def demo_ext_def)
  have rules: "run_rules demo_ext \<lparr>si_sensor = 3, si_asset = 1, si_unit = ''C''\<rparr> 90 ''temp'' [demo_rule] s = (True, s1)"
    using assms(4) by (simp add: rule raise_alarm_def active_for_rule_and_asset_def s1_def al_def) (simp add: demo_ext_def)
  have step1: "process_metric demo_ext ''cnc-01'' t m1 (s, g0) = (True, s1, g1)" for t
    using assms rules by (simp add: process_metric_def m1 bare ASSET_METRICS_def sensor_of_def demo_caches_def
        as_float_def stamp_def MAX_MILLIS_def g0_def g1_def demo_row_def Let_def del: run_rules.simps One_nat_def)
  have step2: "process_metric demo_ext ''cnc-01'' t m2 (s1, g1) = (True, s1, g1\<lparr>
      ga_live := ga_live g1 @ [(''state'', Text ''RUNNING'')], ga_patch := ga_patch g1 @ [(''state'', Text ''RUNNING'', 1000)],
      ga_asset := [(''state'', SStr ''RUNNING'')]\<rparr>)" for t
    by (simp add: process_metric_def m2 bare ASSET_METRICS_def state_text_def g1_def demo_ext_def Let_def)
  have facts: "handle_asset_metrics demo_ext 1 [(''state'', SStr ''RUNNING'')] s1 =
      (True, s1\<lparr>ig_last_state := (\<lambda>_. None)(1 := Some ''RUNNING''),
        db_events := db_events s1 @ [\<lparr>ev_time = 1000, ev_asset = 1, ev_state = ''RUNNING''\<rparr>]\<rparr>)"
    using assms(5) by (simp add: handle_asset_metrics_def state_text_def handle_state_change_def VALID_STATES_def
        s1_def record_production_def record_energy_def as_float_def demo_ext_def)
  have asset: "ig_asset_map s ''cnc-01'' = Some 1" using assms(2) by (simp add: demo_caches_def)
  show ?thesis
    using facts
    by (simp add: gather_message_def demo_topic_parsed demo_decode ms g0_def [symmetric] step1 step2 asset)
       (simp add: g1_def s1_def al_def)
qed

lemma demo_accepted:
  "accepted_rows demo_ext demo_floats demo_parse demo_topic 0 demo_nearly_full = [demo_row]"
  by (simp add: accepted_rows_def demo_gather demo_nearly_full_def demo_refresh empty_ingest_def)

theorem message_returns_iff_witness:
  "\<not> ig_lock demo_nearly_full \<and> on_sparkplug demo_ext demo_floats demo_parse demo_topic 0 demo_nearly_full = None"
proof -
  have free: "\<not> ig_lock demo_nearly_full"
    by (simp add: demo_nearly_full_def demo_refresh empty_ingest_def)
  moreover have "length (ig_buffer demo_nearly_full) = 499" by (simp add: demo_nearly_full_def)
  ultimately show ?thesis
    using message_returns_iff [OF free, of demo_ext demo_floats demo_parse demo_topic 0]
    by (simp add: demo_accepted Let_def BATCH_SIZE_def)
qed

definition demo_s1 :: ingest where
  "demo_s1 = the (on_sparkplug demo_ext demo_floats demo_parse demo_topic 0 demo_s0)"

lemma demo_processed: "on_sparkplug demo_ext demo_floats demo_parse demo_topic 0 demo_s0 = Some demo_s1"
proof -
  have "on_sparkplug demo_ext demo_floats demo_parse demo_topic 0 demo_s0 \<noteq> None"
    by (simp add: on_sparkplug_def process_message_def demo_gather demo_refresh empty_ingest_def buffer_rows_def
        acquire_def BATCH_SIZE_def)
  then show ?thesis by (auto simp: demo_s1_def)
qed

lemma demo_s1_reachable: "ingest_reachable demo_s1"
proof (rule ingest_next)
  show "ingest_reachable demo_s0"
    unfolding demo_s0_def by (rule ingest_next [OF ingest_start step_restart])
  show "ingest_step demo_s0 demo_s1"
    by (rule step_message [OF demo_processed]) (simp_all add: demo_ext_def demo_refresh empty_ingest_def)
qed


end
