(* ===== verification/Maint_Optimiser.thy ===== *)
theory Maint_Optimiser
  imports Py_Numbers
begin

text \<open>
  The maintenance schedule optimiser (\<open>apps/api/app/modules/maintenance/optimiser.py\<close>): the constraint
  model \<open>solve\<close> hands to CP-SAT, what it makes of the answer, and \<open>conflicts\<close>. CP-SAT is a parameter
  with its documented promise: a solution it reports satisfies the model, and is minimal when it
  reports OPTIMAL. Money, energy and risk are reals; how long the solver took is left out. Ids are primary
  keys, so a dictionary keyed by them is a function of the order or technician.
\<close>

section \<open>Inputs and results\<close>

definition SLOT_MINUTES :: int where "SLOT_MINUTES = 15"
definition COST_SCALE :: real where "COST_SCALE = 100"

record order_input =
  oi_id :: string
  oi_asset :: string
  oi_line :: string
  oi_duration_min :: int
  oi_priority :: int
  oi_skills :: "string list"
  oi_downtime_cost :: real
  oi_failure_cost :: real
  oi_risk :: "real list"
  oi_energy_kw :: real

record technician_input =
  ti_id :: string
  ti_skills :: "string list"
  ti_hourly_cost :: real
  ti_slots :: "bool list"

record weights =
  w_downtime :: real
  w_risk :: real
  w_energy :: real

record assignment =
  as_order :: string
  as_technician :: "string option"
  as_start :: int
  as_end :: int
  as_risk :: real
  as_energy :: real

datatype solver_status = OPTIMAL | FEASIBLE | INFEASIBLE | MODEL_INVALID | UNKNOWN

record solve_result =
  sr_status :: solver_status
  sr_assignments :: "assignment list"
  sr_objective :: "real option"
  sr_unscheduled :: "string list"

definition can_do :: "technician_input \<Rightarrow> order_input \<Rightarrow> bool" where
  "can_do t r \<longleftrightarrow> oi_skills r = [] \<or> set (oi_skills r) \<inter> set (ti_skills t) \<noteq> {}"

definition available :: "technician_input \<Rightarrow> nat \<Rightarrow> bool" where
  "available t slot \<longleftrightarrow> ti_slots t = [] \<or> slot < length (ti_slots t) \<and> ti_slots t ! slot"

definition tariff :: "real list \<Rightarrow> nat \<Rightarrow> real" where
  "tariff per_slot slot = (if per_slot = [] then 0 else per_slot ! min slot (length per_slot - 1))"

text \<open>\<open>max(1, -(-d // 15))\<close> and \<open>slot_count\<close>, \<open>slot_time\<close>; a time is in seconds.\<close>

definition duration :: "order_input \<Rightarrow> nat" where
  "duration r = nat (max 1 (- ((- oi_duration_min r) div SLOT_MINUTES)))"

definition slot_count :: "int \<Rightarrow> int \<Rightarrow> int" where
  "slot_count horizon_start horizon_end = max 1 ((horizon_end - horizon_start) div (SLOT_MINUTES * 60))"

definition slot_time :: "int \<Rightarrow> int \<Rightarrow> int" where
  "slot_time horizon_start slot = horizon_start + SLOT_MINUTES * 60 * slot"

section \<open>The constraint model\<close>

datatype cp_var = Start string | Assigned string string | Starts_At string nat

type_synonym interval = "cp_var \<times> nat \<times> cp_var option"

datatype cp_constraint =
    Domain cp_var int int
  | Not_At cp_var int cp_var
  | At_If cp_var int cp_var
  | Not_At_Unless cp_var int cp_var
  | Exactly_One "cp_var list"
  | No_Overlap "interval list"

record cp_model =
  cp_constraints :: "cp_constraint list"
  cp_objective :: "(int \<times> cp_var) list"

type_synonym valuation = "cp_var \<Rightarrow> int"
type_synonym solver = "cp_model \<Rightarrow> solver_status \<times> valuation"

definition present :: "valuation \<Rightarrow> interval \<Rightarrow> bool" where
  "present v i = (case snd (snd i) of None \<Rightarrow> True | Some l \<Rightarrow> v l \<noteq> 0)"

definition before :: "valuation \<Rightarrow> interval \<Rightarrow> interval \<Rightarrow> bool" where
  "before v i j \<longleftrightarrow> v (fst i) + int (fst (snd i)) \<le> v (fst j)"

fun holds :: "valuation \<Rightarrow> cp_constraint \<Rightarrow> bool" where
  "holds v (Domain x a b) = (a \<le> v x \<and> v x \<le> b)"
| "holds v (Not_At x k l) = (v l \<noteq> 0 \<longrightarrow> v x \<noteq> k)"
| "holds v (At_If x k l) = (v l \<noteq> 0 \<longrightarrow> v x = k)"
| "holds v (Not_At_Unless x k l) = (v l = 0 \<longrightarrow> v x \<noteq> k)"
| "holds v (Exactly_One ls) = (length (filter (\<lambda>l. v l \<noteq> 0) ls) = 1)"
| "holds v (No_Overlap is) =
     sorted_wrt (\<lambda>i j. present v i \<and> present v j \<longrightarrow> before v i j \<or> before v j i) is"

definition satisfies :: "valuation \<Rightarrow> cp_model \<Rightarrow> bool" where
  "satisfies v m \<longleftrightarrow> (\<forall>c \<in> set (cp_constraints m). holds v c)"

definition cost :: "valuation \<Rightarrow> cp_model \<Rightarrow> int" where
  "cost v m = sum_list (map (\<lambda>(k, x). k * v x) (cp_objective m))"

text \<open>The order's start variable and, for each technician who can do it, an assignment literal.\<close>

definition startable :: "nat \<Rightarrow> order_input \<Rightarrow> bool" where
  "startable n r \<longleftrightarrow> duration r \<le> n"

definition eligible :: "technician_input list \<Rightarrow> order_input \<Rightarrow> technician_input list" where
  "eligible ts r = filter (\<lambda>t. can_do t r) ts"

definition assignable :: "nat \<Rightarrow> technician_input list \<Rightarrow> order_input \<Rightarrow> technician_input \<Rightarrow> bool" where
  "assignable n ts r t \<longleftrightarrow> startable n r \<and> t \<in> set (eligible ts r)"

definition free_from :: "technician_input \<Rightarrow> order_input \<Rightarrow> nat \<Rightarrow> bool" where
  "free_from t r slot \<longleftrightarrow> (\<forall>k < duration r. available t (slot + k))"

definition start_slots :: "nat \<Rightarrow> order_input \<Rightarrow> nat list" where
  "start_slots n r = [0..<n - duration r + 1]"

definition technician_constraints :: "nat \<Rightarrow> order_input \<Rightarrow> technician_input \<Rightarrow> cp_constraint list" where
  "technician_constraints n r t =
     Domain (Assigned (oi_id r) (ti_id t)) 0 1
     # map (\<lambda>slot. Not_At (Start (oi_id r)) (int slot) (Assigned (oi_id r) (ti_id t)))
         (filter (\<lambda>slot. \<not> free_from t r slot) (start_slots n r))"

definition order_constraints :: "nat \<Rightarrow> technician_input list \<Rightarrow> order_input \<Rightarrow> cp_constraint list" where
  "order_constraints n ts r =
     (if \<not> startable n r then []
      else Domain (Start (oi_id r)) 0 (int (n - duration r))
        # (if eligible ts r = [] then []
           else concat (map (technician_constraints n r) (eligible ts r))
             @ [Exactly_One (map (\<lambda>t. Assigned (oi_id r) (ti_id t)) (eligible ts r))]))"

definition schedulable :: "nat \<Rightarrow> technician_input list \<Rightarrow> order_input list \<Rightarrow> order_input list" where
  "schedulable n ts rs = filter (\<lambda>r. startable n r \<and> (\<exists>t \<in> set ts. assignable n ts r t)) rs"

definition technician_intervals :: "nat \<Rightarrow> technician_input list \<Rightarrow> order_input list \<Rightarrow> technician_input \<Rightarrow> interval list" where
  "technician_intervals n ts rs t =
     map (\<lambda>r. (Start (oi_id r), duration r, Some (Assigned (oi_id r) (ti_id t))))
       (filter (\<lambda>r. assignable n ts r t) (schedulable n ts rs))"

definition line_intervals :: "nat \<Rightarrow> technician_input list \<Rightarrow> order_input list \<Rightarrow> string \<Rightarrow> interval list" where
  "line_intervals n ts rs line =
     map (\<lambda>r. (Start (oi_id r), duration r, None)) (filter (\<lambda>r. oi_line r = line) (schedulable n ts rs))"

definition overlap_constraints :: "nat \<Rightarrow> technician_input list \<Rightarrow> order_input list \<Rightarrow> cp_constraint list" where
  "overlap_constraints n ts rs =
     map No_Overlap (filter (\<lambda>is. is \<noteq> []) (map (technician_intervals n ts rs) ts))
     @ map No_Overlap (filter (\<lambda>is. 1 < length is)
         (map (line_intervals n ts rs) (remdups (map oi_line (schedulable n ts rs)))))"

section \<open>The objective\<close>

definition energy_cost :: "real list \<Rightarrow> order_input \<Rightarrow> nat \<Rightarrow> real" where
  "energy_cost per_slot r slot =
     sum_list (map (\<lambda>k. oi_energy_kw r * (SLOT_MINUTES / 60) * tariff per_slot (slot + k)) [0..<duration r])"

definition wait_penalty :: "weights \<Rightarrow> order_input \<Rightarrow> int" where
  "wait_penalty w r = trunc (w_downtime w * oi_downtime_cost r * real_of_int (6 - oi_priority r) * COST_SCALE)"

definition risk_at :: "order_input \<Rightarrow> nat \<Rightarrow> real" where
  "risk_at r slot = (if slot < length (oi_risk r) then oi_risk r ! slot else 0)"

definition slot_cost :: "weights \<Rightarrow> real list \<Rightarrow> order_input \<Rightarrow> nat \<Rightarrow> int" where
  "slot_cost w per_slot r slot =
     trunc ((w_risk w * risk_at r slot * oi_failure_cost r + w_energy w * energy_cost per_slot r slot) * COST_SCALE)"

definition labour_cost :: "order_input \<Rightarrow> technician_input \<Rightarrow> int" where
  "labour_cost r t = trunc (ti_hourly_cost t * (real (duration r) * SLOT_MINUTES / 60) * COST_SCALE)"

definition order_objective ::
    "nat \<Rightarrow> technician_input list \<Rightarrow> real list \<Rightarrow> weights \<Rightarrow> order_input \<Rightarrow> (int \<times> cp_var) list" where
  "order_objective n ts per_slot w r =
     (if wait_penalty w r \<noteq> 0 then [(wait_penalty w r, Start (oi_id r))] else [])
     @ map (\<lambda>slot. (slot_cost w per_slot r slot, Starts_At (oi_id r) slot))
         (filter (\<lambda>slot. slot_cost w per_slot r slot \<noteq> 0) (start_slots n r))
     @ map (\<lambda>t. (labour_cost r t, Assigned (oi_id r) (ti_id t)))
         (filter (\<lambda>t. assignable n ts r t \<and> ti_hourly_cost t \<noteq> 0) ts)"

definition indicator_constraints :: "nat \<Rightarrow> order_input \<Rightarrow> cp_constraint list" where
  "indicator_constraints n r =
     concat (map (\<lambda>slot. [Domain (Starts_At (oi_id r) slot) 0 1,
                          At_If (Start (oi_id r)) (int slot) (Starts_At (oi_id r) slot),
                          Not_At_Unless (Start (oi_id r)) (int slot) (Starts_At (oi_id r) slot)])
       (start_slots n r))"

definition build_model ::
    "order_input list \<Rightarrow> technician_input list \<Rightarrow> nat \<Rightarrow> real list \<Rightarrow> weights \<Rightarrow> cp_model" where
  "build_model rs ts n per_slot w =
     \<lparr>cp_constraints = concat (map (order_constraints n ts) rs) @ overlap_constraints n ts rs
        @ concat (map (indicator_constraints n) (schedulable n ts rs)),
      cp_objective = concat (map (order_objective n ts per_slot w) (schedulable n ts rs))\<rparr>"

section \<open>Solving\<close>

definition read_assignment ::
    "nat \<Rightarrow> technician_input list \<Rightarrow> real list \<Rightarrow> valuation \<Rightarrow> order_input \<Rightarrow> assignment" where
  "read_assignment n ts per_slot v r =
     (let start = v (Start (oi_id r)) in
      \<lparr>as_order = oi_id r,
       as_technician = map_option ti_id (find (\<lambda>t. assignable n ts r t \<and> v (Assigned (oi_id r) (ti_id t)) \<noteq> 0) ts),
       as_start = start, as_end = start + int (duration r),
       as_risk = risk_at r (nat start), as_energy = round_dec 2 (energy_cost per_slot r (nat start))\<rparr>)"

definition solve ::
    "solver \<Rightarrow> order_input list \<Rightarrow> technician_input list \<Rightarrow> nat \<Rightarrow> real list \<Rightarrow> weights \<Rightarrow> solve_result" where
  "solve S rs ts n per_slot w =
     (if rs = [] then \<lparr>sr_status = OPTIMAL, sr_assignments = [], sr_objective = Some 0, sr_unscheduled = []\<rparr>
      else if ts = [] then
        \<lparr>sr_status = INFEASIBLE, sr_assignments = [], sr_objective = None, sr_unscheduled = map oi_id rs\<rparr>
      else
        (let m = build_model rs ts n per_slot w; (st, v) = S m in
         if st \<notin> {OPTIMAL, FEASIBLE} then
           \<lparr>sr_status = st, sr_assignments = [], sr_objective = None, sr_unscheduled = map oi_id rs\<rparr>
         else
           \<lparr>sr_status = st,
            sr_assignments = map (read_assignment n ts per_slot v) (schedulable n ts rs),
            sr_objective = Some (if cp_objective m \<noteq> [] then real_of_int (cost v m) / COST_SCALE else 0),
            sr_unscheduled = map oi_id (filter (\<lambda>r. r \<notin> set (schedulable n ts rs)) rs)\<rparr>))"

section \<open>Conflicts\<close>

datatype conflict_kind = Same_Technician | Same_Line

definition clash :: "(string \<Rightarrow> order_input option) \<Rightarrow> assignment \<Rightarrow> assignment \<Rightarrow> conflict_kind option" where
  "clash orders f s =
     (if as_technician f \<noteq> None \<and> as_technician f \<noteq> Some [] \<and> as_technician f = as_technician s
      then Some Same_Technician
      else (case (orders (as_order f), orders (as_order s)) of
              (Some a, Some b) \<Rightarrow> if oi_line a = oi_line b then Some Same_Line else None
            | _ \<Rightarrow> None))"

text \<open>The inner loop stops at the first later item that starts after \<open>first\<close> has ended.\<close>

fun clashes_of ::
    "(string \<Rightarrow> order_input option) \<Rightarrow> assignment \<Rightarrow> assignment list \<Rightarrow> (string \<times> string \<times> conflict_kind) list" where
  "clashes_of orders f [] = []"
| "clashes_of orders f (s # ss) =
     (if as_start s \<ge> as_end f then []
      else (case clash orders f s of None \<Rightarrow> [] | Some k \<Rightarrow> [(as_order f, as_order s, k)])
           @ clashes_of orders f ss)"

fun scan ::
    "(string \<Rightarrow> order_input option) \<Rightarrow> assignment list \<Rightarrow> (string \<times> string \<times> conflict_kind) list" where
  "scan orders [] = []"
| "scan orders (f # ss) = clashes_of orders f ss @ scan orders ss"

definition conflicts ::
    "assignment list \<Rightarrow> (string \<Rightarrow> order_input option) \<Rightarrow> (string \<times> string \<times> conflict_kind) list" where
  "conflicts as orders = scan orders (sort_key as_start as)"

end
