(* ===== verification/Maint_Planning.thy ===== *)
theory Maint_Planning
  imports Maint_Optimiser "HOL-Library.Multiset"
begin

text \<open>
  What the optimiser promises: a plan the solver finds is a valid schedule, every order being planned
  or reported, and shows no conflict; when an order cannot be placed at all, nothing is.
\<close>

section \<open>Valid plans\<close>

definition line_of_order :: "order_input list \<Rightarrow> string \<Rightarrow> string option" where
  "line_of_order rs i = map_option oi_line (map_of (map (\<lambda>r. (oi_id r, r)) rs) i)"

definition runs_ok :: "nat \<Rightarrow> technician_input list \<Rightarrow> order_input list \<Rightarrow> assignment \<Rightarrow> bool" where
  "runs_ok n ts rs a \<longleftrightarrow>
     (\<exists>r \<in> set rs. \<exists>t \<in> set ts. as_order a = oi_id r \<and> as_technician a = Some (ti_id t) \<and> can_do t r
        \<and> 0 \<le> as_start a \<and> as_end a = as_start a + int (duration r) \<and> as_end a \<le> int n
        \<and> (\<forall>k. as_start a \<le> int k \<and> int k < as_end a \<longrightarrow> available t k))"

definition apart :: "assignment \<Rightarrow> assignment \<Rightarrow> bool" where
  "apart a b \<longleftrightarrow> as_end a \<le> as_start b \<or> as_end b \<le> as_start a"

definition compatible :: "order_input list \<Rightarrow> assignment \<Rightarrow> assignment \<Rightarrow> bool" where
  "compatible rs a b \<longleftrightarrow>
     (as_technician a = as_technician b \<or> line_of_order rs (as_order a) = line_of_order rs (as_order b)) \<longrightarrow> apart a b"

definition valid_plan :: "nat \<Rightarrow> technician_input list \<Rightarrow> order_input list \<Rightarrow> assignment list \<Rightarrow> bool" where
  "valid_plan n ts rs as \<longleftrightarrow>
     (\<forall>a \<in> set as. runs_ok n ts rs a) \<and> sorted_wrt (compatible rs) as \<and> distinct (map as_order as)"

text \<open>What CP-SAT documents of a solution it reports.\<close>

definition solver_sound :: "solver \<Rightarrow> bool" where
  "solver_sound S \<longleftrightarrow>
     (\<forall>m. fst (S m) \<in> {OPTIMAL, FEASIBLE} \<longrightarrow> satisfies (snd (S m)) m)
     \<and> (\<forall>m v. fst (S m) = OPTIMAL \<and> satisfies v m \<longrightarrow> cost (snd (S m)) m \<le> cost v m)"

section \<open>Solutions are plans\<close>

lemma sorted_wrt_filter_iff:
  "sorted_wrt Q (filter F xs) \<longleftrightarrow> sorted_wrt (\<lambda>x y. F x \<and> F y \<longrightarrow> Q x y) xs"
  by (induction xs) auto

lemma sorted_wrt_short: "length xs \<le> 1 \<Longrightarrow> sorted_wrt Q xs"
  by (cases xs) auto

lemma schedulable_iff:
  "r \<in> set (schedulable n ts rs) \<longleftrightarrow> r \<in> set rs \<and> startable n r \<and> eligible ts r \<noteq> []"
  by (auto simp: schedulable_def assignable_def eligible_def filter_empty_conv)

lemma schedulable_distinct: "distinct (map oi_id rs) \<Longrightarrow> distinct (map oi_id (schedulable n ts rs))"
  by (simp add: schedulable_def distinct_map_filter)

lemma order_constraint:
  assumes "satisfies v (build_model rs ts n p w)" and "r \<in> set rs" and "c \<in> set (order_constraints n ts r)"
  shows "holds v c"
  using assms by (auto simp: satisfies_def build_model_def)

lemma start_range:
  assumes "satisfies v (build_model rs ts n p w)" and "r \<in> set (schedulable n ts rs)"
  shows "0 \<le> v (Start (oi_id r)) \<and> v (Start (oi_id r)) + int (duration r) \<le> int n"
  using order_constraint [OF assms(1), of r "Domain (Start (oi_id r)) 0 (int (n - duration r))"] assms(2)
  by (auto simp: schedulable_iff order_constraints_def startable_def)

lemma assigned_someone:
  assumes "satisfies v (build_model rs ts n p w)" and r: "r \<in> set (schedulable n ts rs)"
  shows "\<exists>t \<in> set ts. assignable n ts r t \<and> v (Assigned (oi_id r) (ti_id t)) \<noteq> 0"
proof -
  have "holds v (Exactly_One (map (\<lambda>t. Assigned (oi_id r) (ti_id t)) (eligible ts r)))"
    using r by (intro order_constraint [OF assms(1), of r]) (auto simp: schedulable_iff order_constraints_def)
  then have "length (filter (\<lambda>t. v (Assigned (oi_id r) (ti_id t)) \<noteq> 0) (eligible ts r)) = 1"
    by (simp add: filter_map comp_def)
  then have "filter (\<lambda>t. v (Assigned (oi_id r) (ti_id t)) \<noteq> 0) (eligible ts r) \<noteq> []" by force
  then obtain t where "t \<in> set (eligible ts r)" "v (Assigned (oi_id r) (ti_id t)) \<noteq> 0"
    by (auto simp: filter_empty_conv)
  with r show ?thesis by (auto simp: assignable_def schedulable_iff eligible_def)
qed

lemma blocked_start:
  "slot \<in> set (start_slots n r) \<Longrightarrow> \<not> free_from t r slot \<Longrightarrow>
     Not_At (Start (oi_id r)) (int slot) (Assigned (oi_id r) (ti_id t)) \<in> set (technician_constraints n r t)"
  by (auto simp: technician_constraints_def)

lemma assigned_free:
  assumes sat: "satisfies v (build_model rs ts n p w)" and r: "r \<in> set (schedulable n ts rs)"
    and t: "assignable n ts r t" "v (Assigned (oi_id r) (ti_id t)) \<noteq> 0"
  shows "free_from t r (nat (v (Start (oi_id r))))"
proof (rule ccontr)
  let ?s = "nat (v (Start (oi_id r)))" and ?l = "Assigned (oi_id r) (ti_id t)"
  assume "\<not> free_from t r ?s"
  moreover have "?s \<in> set (start_slots n r)"
    using start_range [OF sat r] r by (auto simp: start_slots_def schedulable_iff startable_def)
  ultimately have "Not_At (Start (oi_id r)) (int ?s) ?l \<in> set (technician_constraints n r t)"
    by (rule blocked_start [rotated])
  then have "Not_At (Start (oi_id r)) (int ?s) ?l \<in> set (order_constraints n ts r)"
    using t(1) by (auto simp: order_constraints_def assignable_def)
  then have "holds v (Not_At (Start (oi_id r)) (int ?s) ?l)"
    using r by (intro order_constraint [OF sat]) (auto simp: schedulable_iff)
  with t(2) start_range [OF sat r] show False by simp
qed

lemma technician_apart:
  assumes sat: "satisfies v (build_model rs ts n p w)" and t: "t \<in> set ts"
  shows "sorted_wrt (\<lambda>r s. (assignable n ts r t \<and> v (Assigned (oi_id r) (ti_id t)) \<noteq> 0)
      \<and> (assignable n ts s t \<and> v (Assigned (oi_id s) (ti_id t)) \<noteq> 0) \<longrightarrow>
        v (Start (oi_id r)) + int (duration r) \<le> v (Start (oi_id s))
        \<or> v (Start (oi_id s)) + int (duration s) \<le> v (Start (oi_id r))) (schedulable n ts rs)"
proof -
  have "holds v (No_Overlap (technician_intervals n ts rs t))"
  proof (cases "technician_intervals n ts rs t = []")
    case False
    with t have "No_Overlap (technician_intervals n ts rs t) \<in> set (cp_constraints (build_model rs ts n p w))"
      by (auto simp: build_model_def overlap_constraints_def)
    with sat show ?thesis by (auto simp: satisfies_def)
  qed simp
  then show ?thesis
    by (simp add: technician_intervals_def sorted_wrt_map sorted_wrt_filter_iff present_def before_def)
      (rule sorted_wrt_mono_rel, auto)
qed

lemma line_apart:
  assumes sat: "satisfies v (build_model rs ts n p w)"
  shows "sorted_wrt (\<lambda>r s. oi_line r = line \<and> oi_line s = line \<longrightarrow>
        v (Start (oi_id r)) + int (duration r) \<le> v (Start (oi_id s))
        \<or> v (Start (oi_id s)) + int (duration s) \<le> v (Start (oi_id r))) (schedulable n ts rs)"
proof -
  have "holds v (No_Overlap (line_intervals n ts rs line))"
  proof (cases "1 < length (line_intervals n ts rs line)")
    case True
    then have "line \<in> set (map oi_line (schedulable n ts rs))"
      by (cases "filter (\<lambda>r. oi_line r = line) (schedulable n ts rs)")
        (auto simp: line_intervals_def filter_eq_Cons_iff)
    with True have "No_Overlap (line_intervals n ts rs line) \<in> set (cp_constraints (build_model rs ts n p w))"
      by (auto simp: build_model_def overlap_constraints_def)
    with sat show ?thesis by (auto simp: satisfies_def)
  next
    case False
    then show ?thesis by (simp add: sorted_wrt_short)
  qed
  then show ?thesis
    by (simp add: line_intervals_def sorted_wrt_map sorted_wrt_filter_iff present_def before_def)
qed

lemma read_technician:
  assumes sat: "satisfies v (build_model rs ts n p w)" and r: "r \<in> set (schedulable n ts rs)"
  obtains t where "t \<in> set ts" "assignable n ts r t" "v (Assigned (oi_id r) (ti_id t)) \<noteq> 0"
    "as_technician (read_assignment n ts p v r) = Some (ti_id t)"
proof -
  define P where "P = (\<lambda>t. assignable n ts r t \<and> v (Assigned (oi_id r) (ti_id t)) \<noteq> 0)"
  have "find P ts \<noteq> None"
    using assigned_someone [OF assms] by (auto simp: find_None_iff P_def)
  then obtain t where t: "find P ts = Some t" by auto
  then have "t \<in> set ts" "P t" by (auto simp: find_Some_iff)
  moreover have "as_technician (read_assignment n ts p v r) = Some (ti_id t)"
    using t by (simp add: read_assignment_def Let_def P_def [symmetric])
  ultimately show thesis using that by (auto simp: P_def)
qed

lemma read_assignment_simps [simp]:
  "as_order (read_assignment n ts p v r) = oi_id r"
  "as_start (read_assignment n ts p v r) = v (Start (oi_id r))"
  "as_end (read_assignment n ts p v r) = v (Start (oi_id r)) + int (duration r)"
  by (simp_all add: read_assignment_def Let_def)

lemma read_runs_ok:
  assumes sat: "satisfies v (build_model rs ts n p w)" and r: "r \<in> set (schedulable n ts rs)"
  shows "runs_ok n ts rs (read_assignment n ts p v r)"
proof -
  obtain t where t: "t \<in> set ts" "assignable n ts r t" "v (Assigned (oi_id r) (ti_id t)) \<noteq> 0"
    and rt: "as_technician (read_assignment n ts p v r) = Some (ti_id t)"
    by (rule read_technician [OF assms])
  have range: "0 \<le> v (Start (oi_id r))" "v (Start (oi_id r)) + int (duration r) \<le> int n"
    using start_range [OF assms] by simp_all
  have "available t k" if "v (Start (oi_id r)) \<le> int k" "int k < v (Start (oi_id r)) + int (duration r)" for k
  proof -
    from that range(1) have "k - nat (v (Start (oi_id r))) < duration r" by linarith
    moreover have "nat (v (Start (oi_id r))) + (k - nat (v (Start (oi_id r)))) = k" using that(1) by linarith
    ultimately show ?thesis
      using assigned_free [OF assms t(2,3)] unfolding free_from_def by metis
  qed
  moreover have "can_do t r" using t(2) by (simp add: assignable_def eligible_def)
  ultimately show ?thesis
    using r t(1) rt range by (auto simp: runs_ok_def schedulable_iff)
qed

lemma duration_pos: "0 < duration r"
  by (simp add: duration_def)

lemma line_of_orderI: "distinct (map oi_id rs) \<Longrightarrow> r \<in> set rs \<Longrightarrow> line_of_order rs (oi_id r) = Some (oi_line r)"
  using map_of_is_SomeI [of "map (\<lambda>r. (oi_id r, r)) rs" "oi_id r" r] by (simp add: line_of_order_def comp_def image_iff)

lemma read_compatible:
  assumes ids: "distinct (map oi_id rs)" "distinct (map ti_id ts)"
    and sat: "satisfies v (build_model rs ts n p w)"
  shows "sorted_wrt (compatible rs) (map (read_assignment n ts p v) (schedulable n ts rs))"
proof -
  let ?sched = "schedulable n ts rs" and ?a = "read_assignment n ts p v"
  have "compatible rs (?a (?sched ! i)) (?a (?sched ! j))" if ij: "i < j" "j < length ?sched" for i j
  proof -
    let ?r = "?sched ! i" and ?s = "?sched ! j"
    have in_s: "?r \<in> set ?sched" "?s \<in> set ?sched" using ij by simp_all
    obtain t where t: "t \<in> set ts" "assignable n ts ?r t" "v (Assigned (oi_id ?r) (ti_id t)) \<noteq> 0"
      "as_technician (?a ?r) = Some (ti_id t)" by (rule read_technician [OF sat in_s(1)])
    obtain u where u: "u \<in> set ts" "assignable n ts ?s u" "v (Assigned (oi_id ?s) (ti_id u)) \<noteq> 0"
      "as_technician (?a ?s) = Some (ti_id u)" by (rule read_technician [OF sat in_s(2)])
    have "apart (?a ?r) (?a ?s)" if "ti_id t = ti_id u"
    proof -
      from that t(1) u(1) ids(2) have [simp]: "u = t" by (metis distinct_map inj_onD)
      from sorted_wrt_nth_less [OF technician_apart [OF sat t(1)] ij(1) ij(2)] t u
      show ?thesis by (auto simp: apart_def)
    qed
    moreover have "apart (?a ?r) (?a ?s)" if "oi_line ?r = oi_line ?s"
      using sorted_wrt_nth_less [OF line_apart [OF sat, of "oi_line ?s"] ij(1) ij(2)] that
      by (auto simp: apart_def)
    ultimately show ?thesis
      using t(4) u(4) in_s by (auto simp: compatible_def line_of_orderI [OF ids(1)] schedulable_iff)
  qed
  then show ?thesis by (simp add: sorted_wrt_map) (simp add: sorted_wrt_iff_nth_less)
qed

lemma read_valid:
  assumes "distinct (map oi_id rs)" "distinct (map ti_id ts)" and sat: "satisfies v (build_model rs ts n p w)"
  shows "valid_plan n ts rs (map (read_assignment n ts p v) (schedulable n ts rs))"
  using read_compatible [OF assms] read_runs_ok [OF sat] schedulable_distinct [OF assms(1)]
  by (auto simp: valid_plan_def comp_def)

section \<open>Conflicts\<close>

text \<open>Items that pairwise do not overlap where they share a technician or a line raise no conflict.\<close>

definition no_clash :: "(string \<Rightarrow> order_input option) \<Rightarrow> assignment \<Rightarrow> assignment \<Rightarrow> bool" where
  "no_clash orders a b \<longleftrightarrow> clash orders a b = None \<or> as_start b \<ge> as_end a"

text \<open>On a list in order of start the early exit loses nothing.\<close>

lemma clashes_of_filter:
  "sorted (map as_start ss) \<Longrightarrow>
     clashes_of orders f ss =
       concat (map (\<lambda>s. case clash orders f s of None \<Rightarrow> [] | Some k \<Rightarrow> [(as_order f, as_order s, k)])
         (filter (\<lambda>s. as_start s < as_end f) ss))"
proof (induction ss)
  case Nil
  then show ?case by simp
next
  case (Cons s ss)
  show ?case
  proof (cases "as_start s \<ge> as_end f")
    case True
    with Cons.prems have "filter (\<lambda>s. as_start s < as_end f) ss = []" by (auto simp: filter_empty_conv)
    with True show ?thesis by simp
  next
    case False
    with Cons show ?thesis by simp
  qed
qed

lemma scan_empty_iff:
  "sorted (map as_start as) \<Longrightarrow> scan orders as = [] \<longleftrightarrow> sorted_wrt (no_clash orders) as"
  by (induction as) (auto simp: clashes_of_filter no_clash_def not_less split: option.splits)

section \<open>What solving promises\<close>

definition order_table :: "order_input list \<Rightarrow> string \<Rightarrow> order_input option" where
  "order_table rs = map_of (map (\<lambda>r. (oi_id r, r)) rs)"

lemma compatible_no_clash:
  assumes "compatible rs a b" and "as_start a \<le> as_start b" and "as_start b < as_end b"
  shows "no_clash (order_table rs) a b"
  using assms
  by (auto simp: no_clash_def clash_def compatible_def apart_def line_of_order_def order_table_def
      split: option.splits if_splits)

lemma compatible_sym: "compatible rs a b \<Longrightarrow> compatible rs b a"
  by (auto simp: compatible_def apart_def)

lemma sorted_wrt_perm:
  assumes "sorted_wrt R xs" and "\<And>x y. R x y \<Longrightarrow> R y x" and "mset ys = mset xs" and "distinct xs"
  shows "sorted_wrt R ys"
proof -
  have all: "R x y" if "x \<in> set xs" "y \<in> set xs" "x \<noteq> y" for x y
  proof -
    from that obtain i j where "i < length xs" "j < length xs" "x = xs ! i" "y = xs ! j" "i \<noteq> j"
      by (metis in_set_conv_nth)
    then show ?thesis
      using sorted_wrt_nth_less [OF assms(1)] assms(2) by (metis nat_neq_iff)
  qed
  have "distinct ys" "set ys = set xs"
    using assms(3,4) by (metis mset_eq_imp_distinct_iff, metis set_mset_mset)
  then have "R (ys ! i) (ys ! j)" if "i < j" "j < length ys" for i j
    using all [of "ys ! i" "ys ! j"] that by (simp add: nth_eq_iff_index_eq flip: \<open>set ys = set xs\<close>)
  then show ?thesis by (simp add: sorted_wrt_iff_nth_less)
qed

lemma valid_plan_no_conflicts:
  assumes "valid_plan n ts rs as"
  shows "conflicts as (order_table rs) = []"
proof -
  let ?bs = "sort_key as_start as"
  have plan: "sorted_wrt (compatible rs) as" "distinct as" "\<forall>a \<in> set as. runs_ok n ts rs a"
    using assms by (simp_all add: valid_plan_def distinct_map)
  have "sorted_wrt (compatible rs) ?bs"
    by (rule sorted_wrt_perm [OF plan(1) compatible_sym _ plan(2)]) simp_all
  moreover have "sorted_wrt (\<lambda>a b. as_start a \<le> as_start b) ?bs"
    using sorted_sort_key [of as_start as] by (simp add: sorted_wrt_map)
  moreover have "as_start b < as_end b" if "b \<in> set ?bs" for b
    using that plan(3) duration_pos by (fastforce simp: runs_ok_def)
  ultimately have "sorted_wrt (no_clash (order_table rs)) ?bs"
    unfolding sorted_wrt_iff_nth_less by (meson compatible_no_clash nth_mem)
  then show ?thesis
    by (simp add: conflicts_def scan_empty_iff)
qed

lemma solve_sound:
  assumes "solver_sound S" and "distinct (map oi_id rs)" "distinct (map ti_id ts)"
    and "sr_status (solve S rs ts n p w) \<in> {OPTIMAL, FEASIBLE}"
  shows "let r = solve S rs ts n p w; unscheduled = filter (\<lambda>x. \<not> startable n x \<or> eligible ts x = []) rs in
    valid_plan n ts rs (sr_assignments r) \<and> sr_unscheduled r = map oi_id unscheduled
    \<and> map as_order (sr_assignments r) = map oi_id (filter (\<lambda>x. x \<notin> set unscheduled) rs)
    \<and> conflicts (sr_assignments r) (order_table rs) = []"
proof (cases "rs = []")
  case True
  then show ?thesis by (simp add: solve_def valid_plan_def conflicts_def)
next
  case False
  with assms(4) have ts: "ts \<noteq> []" by (auto simp: solve_def)
  obtain st v where S: "S (build_model rs ts n p w) = (st, v)" by force
  let ?as = "map (read_assignment n ts p v) (schedulable n ts rs)"
  have st: "st \<in> {OPTIMAL, FEASIBLE}" using assms(4) False ts by (auto simp: solve_def S Let_def split: if_splits)
  with assms(1) S have sat: "satisfies v (build_model rs ts n p w)" by (auto simp: solver_sound_def) (metis fst_conv snd_conv)+
  have as: "sr_assignments (solve S rs ts n p w) = ?as"
    and un: "sr_unscheduled (solve S rs ts n p w) = map oi_id (filter (\<lambda>r. r \<notin> set (schedulable n ts rs)) rs)"
    using False ts st by (auto simp: solve_def S Let_def)
  have "filter (\<lambda>r. r \<notin> set (schedulable n ts rs)) rs = filter (\<lambda>x. \<not> startable n x \<or> eligible ts x = []) rs"
    by (rule filter_cong) (auto simp: schedulable_iff)
  moreover have "schedulable n ts rs = filter (\<lambda>x. x \<notin> set (filter (\<lambda>x. \<not> startable n x \<or> eligible ts x = []) rs)) rs"
    unfolding schedulable_def by (rule filter_cong) (auto simp: assignable_def eligible_def filter_empty_conv)
  ultimately show ?thesis
    using read_valid [OF assms(2,3) sat] valid_plan_no_conflicts [OF read_valid [OF assms(2,3) sat]]
    by (simp add: as un Let_def comp_def)
qed

text \<open>
  Property C7. Whenever the optimiser reports a plan (OPTIMAL or FEASIBLE), every assignment puts a
  known order on a technician who can do it and is available in every slot it takes, inside the
  horizon and for its whole duration; two orders of one technician or one line never overlap; every
  order is either assigned once or reported unscheduled, the latter exactly when it is longer than the
  horizon or nobody can do it; and \<open>conflicts\<close> finds nothing to report.
\<close>

theorem solve_valid:
  assumes "solver_sound S" and "distinct (map oi_id rs)" "distinct (map ti_id ts)"
    and "sr_status (solve S rs ts n p w) \<in> {OPTIMAL, FEASIBLE}"
  shows "let r = solve S rs ts n p w; unscheduled = filter (\<lambda>x. \<not> startable n x \<or> eligible ts x = []) rs in
    valid_plan n ts rs (sr_assignments r) \<and> sr_unscheduled r = map oi_id unscheduled
    \<and> map as_order (sr_assignments r) = map oi_id (filter (\<lambda>x. x \<notin> set unscheduled) rs)
    \<and> conflicts (sr_assignments r) (order_table rs) = []"
  by (rule solve_sound [OF assms])

text \<open>
  One order that fits the horizon and has someone able to do it, but none of them free
  long enough, makes the whole model infeasible: the optimiser then plans nothing and reports every
  order unscheduled, not only that one.
\<close>

theorem blocked_order_blocks_all:
  assumes "solver_sound S" and r: "r \<in> set rs" "startable n r"
    and blocked: "\<forall>t \<in> set (eligible ts r). \<forall>slot \<in> set (start_slots n r). \<not> free_from t r slot"
    and able: "eligible ts r \<noteq> []"
  shows "sr_assignments (solve S rs ts n p w) = [] \<and> sr_unscheduled (solve S rs ts n p w) = map oi_id rs
    \<and> sr_status (solve S rs ts n p w) \<notin> {OPTIMAL, FEASIBLE}"
proof -
  obtain st v where S: "S (build_model rs ts n p w) = (st, v)" by force
  have sched: "r \<in> set (schedulable n ts rs)" using r able by (simp add: schedulable_iff)
  have "\<not> satisfies v (build_model rs ts n p w)"
  proof
    assume sat: "satisfies v (build_model rs ts n p w)"
    obtain t where t: "assignable n ts r t" "v (Assigned (oi_id r) (ti_id t)) \<noteq> 0"
      by (rule read_technician [OF sat sched])
    have "nat (v (Start (oi_id r))) \<in> set (start_slots n r)"
      using start_range [OF sat sched] by (auto simp: start_slots_def)
    with assigned_free [OF sat sched t] t(1) blocked show False by (auto simp: assignable_def)
  qed
  with assms(1) S have "st \<notin> {OPTIMAL, FEASIBLE}" unfolding solver_sound_def by (metis fst_conv snd_conv)
  moreover have "rs \<noteq> []" "ts \<noteq> []" using r able by (auto simp: eligible_def)
  ultimately show ?thesis by (simp add: solve_def S Let_def)
qed

section \<open>Witnesses\<close>

definition demo_order :: "string \<Rightarrow> int \<Rightarrow> real \<Rightarrow> order_input" where
  "demo_order i minutes c =
     \<lparr>oi_id = i, oi_asset = ''cnc-01'', oi_line = ''line-1'', oi_duration_min = minutes, oi_priority = 1, oi_skills = [],
      oi_downtime_cost = c, oi_failure_cost = 0, oi_risk = [], oi_energy_kw = 0\<rparr>"

definition demo_technician :: "bool list \<Rightarrow> technician_input" where
  "demo_technician slots = \<lparr>ti_id = ''asha'', ti_skills = [], ti_hourly_cost = 0, ti_slots = slots\<rparr>"

definition demo_orders :: "order_input list" where
  "demo_orders = [demo_order ''a'' 30 60, demo_order ''b'' 10 0]"

definition demo_weights :: weights where
  "demo_weights = \<lparr>w_downtime = 1, w_risk = 1, w_energy = 1\<rparr>"

text \<open>Order a in slots 0 and 1, order b in slot 2, both with the one technician.\<close>

definition demo_valuation :: valuation where
  "demo_valuation x =
     (case x of Start i \<Rightarrow> if i = ''b'' then 2 else 0 | Assigned i t \<Rightarrow> 1
      | Starts_At i k \<Rightarrow> if (i = ''a'' \<and> k = 0) \<or> (i = ''b'' \<and> k = 2) then 1 else 0)"

definition demo_solver :: solver where
  "demo_solver m = (if satisfies demo_valuation m then FEASIBLE else UNKNOWN, demo_valuation)"

lemma demo_solver_sound: "solver_sound demo_solver"
  by (simp add: solver_sound_def demo_solver_def)

lemma demo_satisfies:
  "satisfies demo_valuation (build_model demo_orders [demo_technician [True, True, True]] 3 [] demo_weights)"
  by code_simp

lemma demo_ids: "distinct (map oi_id demo_orders)" "distinct (map ti_id [demo_technician slots])"
  by (simp_all add: demo_orders_def demo_order_def)

lemma demo_status: "sr_status (solve demo_solver demo_orders [demo_technician [True, True, True]] 3 [] demo_weights) = FEASIBLE"
  using demo_satisfies by (simp add: solve_def demo_solver_def Let_def) (simp add: demo_orders_def)

theorem solve_valid_witness:
  "valid_plan 3 [demo_technician [True, True, True]] demo_orders
     (sr_assignments (solve demo_solver demo_orders [demo_technician [True, True, True]] 3 [] demo_weights))
   \<and> map as_order (sr_assignments (solve demo_solver demo_orders [demo_technician [True, True, True]] 3 [] demo_weights))
     = [''a'', ''b'']"
proof -
  have "filter (\<lambda>x. x \<notin> set (filter (\<lambda>x. \<not> startable 3 x \<or> eligible [demo_technician [True, True, True]] x = [])
      demo_orders)) demo_orders = demo_orders"
    by (simp add: demo_orders_def demo_order_def startable_def duration_def SLOT_MINUTES_def eligible_def can_do_def)
  then show ?thesis
    using solve_valid [OF demo_solver_sound demo_ids, of "[True, True, True]" 3 "[]" demo_weights] demo_status
    by (simp add: Let_def demo_orders_def demo_order_def)
qed

theorem blocked_order_blocks_all_witness:
  "sr_unscheduled (solve demo_solver demo_orders [demo_technician [True, False, True]] 3 [] demo_weights) = [''a'', ''b'']"
proof -
  have "demo_order ''a'' 30 60 \<in> set demo_orders" by (simp add: demo_orders_def)
  then have "sr_unscheduled (solve demo_solver demo_orders [demo_technician [True, False, True]] 3 [] demo_weights)
      = map oi_id demo_orders"
    using blocked_order_blocks_all [OF demo_solver_sound, of "demo_order ''a'' 30 60" demo_orders 3
        "[demo_technician [True, False, True]]" "[]" demo_weights]
    by (simp add: demo_order_def startable_def duration_def SLOT_MINUTES_def eligible_def can_do_def free_from_def
        available_def demo_technician_def start_slots_def upt_rec numeral_2_eq_2 less_Suc_eq all_conj_distrib)
  then show ?thesis by (simp add: demo_orders_def demo_order_def)
qed

end
