(* ===== verification/Maint_Optimality.thy ===== *)
theory Maint_Optimality
  imports Maint_Planning
begin

text \<open>
  The constraint model is exact: its solutions are the valid plans of the orders that can be
  scheduled, and its objective is the cost of the plan. So an optimal answer is a cheapest plan, and
  INFEASIBLE means that no plan exists.
\<close>

section \<open>The cost of a plan\<close>

definition technician_of :: "technician_input list \<Rightarrow> assignment \<Rightarrow> technician_input option" where
  "technician_of ts a = find (\<lambda>t. as_technician a = Some (ti_id t)) ts"

definition assignment_cost :: "technician_input list \<Rightarrow> real list \<Rightarrow> weights \<Rightarrow> order_input \<Rightarrow> assignment \<Rightarrow> int" where
  "assignment_cost ts p w r a =
     wait_penalty w r * as_start a + slot_cost w p r (nat (as_start a))
     + (case technician_of ts a of None \<Rightarrow> 0 | Some t \<Rightarrow> labour_cost r t)"

definition plan_cost :: "technician_input list \<Rightarrow> order_input list \<Rightarrow> real list \<Rightarrow> weights \<Rightarrow> assignment list \<Rightarrow> int" where
  "plan_cost ts rs p w as = sum_list (map (\<lambda>a. assignment_cost ts p w (the (order_table rs (as_order a))) a) as)"

lemma find_unique: "t \<in> set ts \<Longrightarrow> P t \<Longrightarrow> (\<And>u. u \<in> set ts \<Longrightarrow> P u \<Longrightarrow> u = t) \<Longrightarrow> find P ts = Some t"
proof -
  assume t: "t \<in> set ts" "P t" and u: "\<And>u. u \<in> set ts \<Longrightarrow> P u \<Longrightarrow> u = t"
  from t have "find P ts \<noteq> None" by (auto simp: find_None_iff)
  then obtain x where x: "find P ts = Some x" by blast
  then have "x \<in> set ts" "P x" by (auto simp: find_Some_iff)
  with u x show ?thesis by simp
qed

lemma sum_list_concat_map: "sum_list (map f (concat xss)) = sum_list (map (\<lambda>xs. sum_list (map f xs) :: int) xss)"
  by (induction xss) auto

lemma sum_filter_nonzero:
  "sum_list (map (\<lambda>x. f x * g x) (filter (\<lambda>x. f x \<noteq> 0) xs)) = sum_list (map (\<lambda>x. f x * g x :: int) xs)"
  by (induction xs) auto

lemma sum_indicator:
  assumes "distinct xs" and "x \<in> set xs" and "\<And>y. y \<in> set xs \<Longrightarrow> g y = (if y = x then 1 else 0)"
  shows "sum_list (map (\<lambda>y. f y * g y :: int) xs) = f x"
proof -
  have "sum_list (map (\<lambda>y. f y * g y) xs) = (\<Sum>y\<in>set xs. f y * g y)"
    using assms(1) by (rule sum_list_distinct_conv_sum_set)
  also have "\<dots> = (\<Sum>y\<in>set xs. if y = x then f y else 0)"
    by (rule sum.cong) (simp_all add: assms(3))
  also have "\<dots> = f x" using assms(2) by simp
  finally show ?thesis .
qed

lemma labour_cost_unpaid: "ti_hourly_cost t = 0 \<Longrightarrow> labour_cost r t = 0"
  by (simp add: labour_cost_def)

text \<open>The value of an order's objective terms, from its start and the literals of its technicians.\<close>

lemma order_objective_value:
  assumes slot: "s \<in> set (start_slots n r)" "v (Start (oi_id r)) = int s"
    and ind: "\<And>k. k \<in> set (start_slots n r) \<Longrightarrow> v (Starts_At (oi_id r) k) = (if k = s then 1 else 0)"
    and t: "distinct ts" "t \<in> set ts" "assignable n ts r t"
    and lit: "\<And>u. u \<in> set ts \<Longrightarrow> assignable n ts r u \<Longrightarrow> v (Assigned (oi_id r) (ti_id u)) = (if u = t then 1 else 0)"
  shows "sum_list (map (\<lambda>(k, x). k * v x) (order_objective n ts p w r)) =
    wait_penalty w r * int s + slot_cost w p r s + labour_cost r t"
proof -
  have "sum_list (map (\<lambda>k. slot_cost w p r k * v (Starts_At (oi_id r) k))
      (filter (\<lambda>k. slot_cost w p r k \<noteq> 0) (start_slots n r))) = slot_cost w p r s"
    unfolding sum_filter_nonzero by (rule sum_indicator [OF _ slot(1) ind]) (simp add: start_slots_def)
  moreover have "sum_list (map (\<lambda>u. labour_cost r u * v (Assigned (oi_id r) (ti_id u)))
      (filter (\<lambda>u. assignable n ts r u \<and> ti_hourly_cost u \<noteq> 0) ts)) = labour_cost r t"
  proof (cases "ti_hourly_cost t = 0")
    case True
    have zero: "labour_cost r u * v (Assigned (oi_id r) (ti_id u)) = 0"
      if "u \<in> set (filter (\<lambda>u. assignable n ts r u \<and> ti_hourly_cost u \<noteq> 0) ts)" for u
      using that lit [of u] True by auto
    have "sum_list (map (\<lambda>u. labour_cost r u * v (Assigned (oi_id r) (ti_id u)))
      (filter (\<lambda>u. assignable n ts r u \<and> ti_hourly_cost u \<noteq> 0) ts)) =
      sum_list (map (\<lambda>u. 0) (filter (\<lambda>u. assignable n ts r u \<and> ti_hourly_cost u \<noteq> 0) ts))"
      by (rule arg_cong [of _ _ sum_list], rule map_cong [OF refl zero])
    with True show ?thesis by (simp add: labour_cost_unpaid)
  next
    case False
    with t lit show ?thesis by (intro sum_indicator) auto
  qed
  ultimately show ?thesis
    by (simp add: order_objective_def slot(2) comp_def)
qed

section \<open>The objective of a solution is the cost of its plan\<close>

lemma indicator_value:
  assumes "satisfies v (build_model rs ts n p w)" and "r \<in> set (schedulable n ts rs)" and "k \<in> set (start_slots n r)"
  shows "v (Starts_At (oi_id r) k) = (if v (Start (oi_id r)) = int k then 1 else 0)"
proof -
  have all: "holds v c" if "c \<in> set (indicator_constraints n r)" for c
    using assms(1,2) that by (auto simp: satisfies_def build_model_def)
  have "Domain (Starts_At (oi_id r) k) 0 1 \<in> set (indicator_constraints n r)"
    "At_If (Start (oi_id r)) (int k) (Starts_At (oi_id r) k) \<in> set (indicator_constraints n r)"
    "Not_At_Unless (Start (oi_id r)) (int k) (Starts_At (oi_id r) k) \<in> set (indicator_constraints n r)"
    using assms(3) by (auto simp: indicator_constraints_def)
  from this [THEN all] show ?thesis by auto
qed

lemma literal_value:
  assumes ids: "distinct (map ti_id ts)" and sat: "satisfies v (build_model rs ts n p w)"
    and r: "r \<in> set (schedulable n ts rs)" and t: "assignable n ts r t" "v (Assigned (oi_id r) (ti_id t)) \<noteq> 0"
    and u: "assignable n ts r u"
  shows "v (Assigned (oi_id r) (ti_id u)) = (if u = t then 1 else 0)"
proof -
  let ?l = "\<lambda>t. Assigned (oi_id r) (ti_id t)"
  have cons: "holds v c" if "c \<in> set (order_constraints n ts r)" for c
    using r by (intro order_constraint [OF sat _ that]) (simp add: schedulable_iff)
  have dom_t: "v (?l t) = 1"
  proof -
    have "holds v (Domain (?l t) 0 1)"
      using t(1) by (intro cons) (auto simp: order_constraints_def assignable_def technician_constraints_def)
    with t(2) show ?thesis by auto
  qed
  have "holds v (Exactly_One (map ?l (eligible ts r)))"
    using r by (intro cons) (auto simp: schedulable_iff order_constraints_def)
  then have one: "length (filter (\<lambda>x. v (?l x) \<noteq> 0) (eligible ts r)) = 1"
    by (simp add: filter_map comp_def)
  have only: "u = t" if "v (?l u) \<noteq> 0"
  proof -
    define chosen where "chosen = filter (\<lambda>x. v (?l x) \<noteq> 0) (eligible ts r)"
    have "t \<in> set chosen" "u \<in> set chosen" using t u that by (simp_all add: chosen_def assignable_def)
    moreover have "length chosen = 1" using one by (simp add: chosen_def)
    ultimately show ?thesis by (cases chosen; cases "tl chosen") auto
  qed
  show ?thesis
  proof (cases "u = t")
    case True
    with dom_t show ?thesis by simp
  next
    case False
    with only have "v (?l u) = 0" by blast
    with False show ?thesis by simp
  qed
qed

lemma objective_is_plan_cost:
  assumes ids: "distinct (map oi_id rs)" "distinct (map ti_id ts)" and sat: "satisfies v (build_model rs ts n p w)"
  shows "cost v (build_model rs ts n p w) =
    plan_cost ts rs p w (map (read_assignment n ts p v) (schedulable n ts rs))"
proof -
  have "sum_list (map (\<lambda>(k, x). k * v x) (order_objective n ts p w r)) =
      assignment_cost ts p w (the (order_table rs (oi_id r))) (read_assignment n ts p v r)"
    if r: "r \<in> set (schedulable n ts rs)" for r
  proof -
    let ?a = "read_assignment n ts p v r"
    obtain t where t: "t \<in> set ts" "assignable n ts r t" "v (Assigned (oi_id r) (ti_id t)) \<noteq> 0"
      and rt: "as_technician ?a = Some (ti_id t)" by (rule read_technician [OF sat r])
    define s where "s = nat (v (Start (oi_id r)))"
    have s: "v (Start (oi_id r)) = int s" "s \<in> set (start_slots n r)"
      using start_range [OF sat r] by (auto simp: s_def start_slots_def)
    have "order_table rs (oi_id r) = Some r"
      using r map_of_is_SomeI [of "map (\<lambda>r. (oi_id r, r)) rs" "oi_id r" r] ids(1)
      by (simp add: order_table_def comp_def image_iff schedulable_iff)
    moreover have "technician_of ts ?a = Some t"
    proof -
      have "u = t" if "u \<in> set ts" "ti_id t = ti_id u" for u
        using that t(1) ids(2) by (metis distinct_map inj_onD)
      then show ?thesis
        unfolding technician_of_def rt by (intro find_unique [OF t(1)]) auto
    qed
    moreover have "sum_list (map (\<lambda>(k, x). k * v x) (order_objective n ts p w r)) =
        wait_penalty w r * int s + slot_cost w p r s + labour_cost r t"
    proof (rule order_objective_value [where t = t])
      show "v (Starts_At (oi_id r) k) = (if k = s then 1 else 0)" if "k \<in> set (start_slots n r)" for k
        using indicator_value [OF sat r that] by (auto simp: s(1))
      show "v (Assigned (oi_id r) (ti_id u)) = (if u = t then 1 else 0)" if "assignable n ts r u" for u
        by (rule literal_value [OF ids(2) sat r t(2,3) that])
      show "distinct ts" using ids(2) by (simp add: distinct_map)
    qed (use s t in auto)
    ultimately show ?thesis by (simp add: assignment_cost_def s(1))
  qed
  then show ?thesis
    by (simp add: cost_def plan_cost_def build_model_def sum_list_concat_map comp_def cong: map_cong)
qed

section \<open>Every valid plan is a solution\<close>

definition find_assignment :: "assignment list \<Rightarrow> string \<Rightarrow> assignment option" where
  "find_assignment as = map_of (map (\<lambda>a. (as_order a, a)) as)"

definition valuation_of :: "assignment list \<Rightarrow> valuation" where
  "valuation_of as x =
     (case x of
        Start i \<Rightarrow> (case find_assignment as i of Some a \<Rightarrow> as_start a | None \<Rightarrow> 0)
      | Assigned i t \<Rightarrow> (case find_assignment as i of Some a \<Rightarrow> if as_technician a = Some t then 1 else 0 | None \<Rightarrow> 0)
      | Starts_At i k \<Rightarrow> (case find_assignment as i of Some a \<Rightarrow> if as_start a = int k then 1 else 0 | None \<Rightarrow> 0))"

text \<open>A plan of the orders that can be scheduled, in their order.\<close>

definition plans :: "nat \<Rightarrow> technician_input list \<Rightarrow> order_input list \<Rightarrow> assignment list \<Rightarrow> bool" where
  "plans n ts rs as \<longleftrightarrow> valid_plan n ts rs as \<and> map as_order as = map oi_id (schedulable n ts rs)"

definition keyed :: "technician_input list \<Rightarrow> order_input list \<Rightarrow> bool" where
  "keyed ts rs \<longleftrightarrow> distinct (map oi_id rs) \<and> distinct (map ti_id ts)"

lemma plans_length: "plans n ts rs as \<Longrightarrow> length as = length (schedulable n ts rs)"
  unfolding plans_def by (metis length_map)

lemma plans_order_at:
  "plans n ts rs as \<Longrightarrow> i < length as \<Longrightarrow> as_order (as ! i) = oi_id (schedulable n ts rs ! i)"
  by (metis plans_length plans_def nth_map)

lemma plans_assignment_at:
  assumes "plans n ts rs as" and i: "i < length as"
  shows "find_assignment as (oi_id (schedulable n ts rs ! i)) = Some (as ! i)"
proof -
  have "distinct (map as_order as)" using assms(1) unfolding plans_def valid_plan_def by blast
  then have "distinct (map fst (map (\<lambda>a. (as_order a, a)) as))" by (simp add: comp_def)
  then have "find_assignment as (as_order (as ! i)) = Some (as ! i)"
    unfolding find_assignment_def using i by (intro map_of_is_SomeI) auto
  with plans_order_at [OF assms] show ?thesis by simp
qed

lemma same_order: "keyed ts rs \<Longrightarrow> r \<in> set rs \<Longrightarrow> r' \<in> set rs \<Longrightarrow> oi_id r = oi_id r' \<Longrightarrow> r = r'"
  by (auto simp: keyed_def distinct_map dest: inj_onD)

lemma same_technician: "keyed ts rs \<Longrightarrow> t \<in> set ts \<Longrightarrow> u \<in> set ts \<Longrightarrow> ti_id t = ti_id u \<Longrightarrow> t = u"
  by (auto simp: keyed_def distinct_map dest: inj_onD)

text \<open>The run of a planned order, as \<^const>\<open>runs_ok\<close> has it.\<close>

definition run_of :: "nat \<Rightarrow> order_input \<Rightarrow> technician_input \<Rightarrow> assignment \<Rightarrow> bool" where
  "run_of n r t a \<longleftrightarrow>
     as_technician a = Some (ti_id t) \<and> can_do t r \<and> 0 \<le> as_start a \<and> as_end a = as_start a + int (duration r)
     \<and> as_end a \<le> int n \<and> (\<forall>k. as_start a \<le> int k \<and> int k < as_end a \<longrightarrow> available t k)"

lemma plans_run:
  assumes "keyed ts rs" and plan: "plans n ts rs as" and r: "r \<in> set (schedulable n ts rs)"
  shows "\<exists>a t. find_assignment as (oi_id r) = Some a \<and> t \<in> set ts \<and> run_of n r t a"
proof -
  from r obtain i where i: "i < length as" "r = schedulable n ts rs ! i"
    using plans_length [OF plan] by (auto simp: in_set_conv_nth)
  have "runs_ok n ts rs (as ! i)" using plan i(1) by (simp add: plans_def valid_plan_def)
  then obtain r' t where r': "r' \<in> set rs" "as_order (as ! i) = oi_id r'" and t: "t \<in> set ts" "run_of n r' t (as ! i)"
    unfolding runs_ok_def run_of_def by blast
  moreover have "r' = r"
    using r' plans_order_at [OF plan i(1)] r i(2) by (intro same_order [OF assms(1)]) (auto simp: schedulable_iff)
  ultimately show ?thesis using plans_assignment_at [OF plan i(1)] i(2) by blast
qed

lemma plans_unplanned:
  assumes "keyed ts rs" and plan: "plans n ts rs as" and r: "r \<in> set rs" "r \<notin> set (schedulable n ts rs)"
  shows "find_assignment as (oi_id r) = None"
proof -
  have "oi_id r \<notin> oi_id ` set (schedulable n ts rs)"
  proof
    assume "oi_id r \<in> oi_id ` set (schedulable n ts rs)"
    then obtain x where x: "x \<in> set (schedulable n ts rs)" "oi_id r = oi_id x" by blast
    with same_order [OF assms(1) r(1) _ x(2)] r(2) show False by (simp add: schedulable_iff)
  qed
  then have "oi_id r \<notin> set (map as_order as)" using plan by (simp add: plans_def)
  then show ?thesis by (simp add: find_assignment_def map_of_eq_None_iff image_comp comp_def)
qed

lemma valuation_of_simps:
  assumes "find_assignment as i = Some a"
  shows "valuation_of as (Start i) = as_start a"
    "valuation_of as (Assigned i t) = (if as_technician a = Some t then 1 else 0)"
    "valuation_of as (Starts_At i k) = (if as_start a = int k then 1 else 0)"
  using assms by (simp_all add: valuation_of_def)

lemma technician_constraint_holds:
  assumes a: "find_assignment as (oi_id r) = Some a" and run: "run_of n r t a"
    and c: "c \<in> set (technician_constraints n r u)" and only: "ti_id u = ti_id t \<Longrightarrow> u = t"
  shows "holds (valuation_of as) c"
proof -
  from c consider "c = Domain (Assigned (oi_id r) (ti_id u)) 0 1"
    | slot where "c = Not_At (Start (oi_id r)) (int slot) (Assigned (oi_id r) (ti_id u))" "\<not> free_from u r slot"
    by (auto simp: technician_constraints_def)
  then show ?thesis
  proof cases
    case 1
    then show ?thesis by (simp add: valuation_of_simps [OF a])
  next
    case 2
    have "as_start a \<noteq> int slot" if "ti_id u = ti_id t"
      using 2(2) run only [OF that] by (auto simp: free_from_def run_of_def)
    with 2(1) run show ?thesis by (auto simp: valuation_of_simps [OF a] run_of_def)
  qed
qed

lemma encoded_order:
  assumes key: "keyed ts rs" and plan: "plans n ts rs as" and r: "r \<in> set rs"
    and c: "c \<in> set (order_constraints n ts r)"
  shows "holds (valuation_of as) c"
proof (cases "r \<in> set (schedulable n ts rs)")
  case False
  with r c have "c = Domain (Start (oi_id r)) 0 (int (n - duration r))"
    by (auto simp: schedulable_iff order_constraints_def split: if_splits)
  with plans_unplanned [OF key plan r False] show ?thesis by (simp add: valuation_of_def)
next
  case True
  then obtain a t where a: "find_assignment as (oi_id r) = Some a" and t: "t \<in> set ts" and run: "run_of n r t a"
    using plans_run [OF key plan] by blast
  have only: "u = t" if "u \<in> set (eligible ts r)" "ti_id u = ti_id t" for u
    using that t by (intro same_technician [OF key]) (auto simp: eligible_def)
  have sched: "startable n r" using True by (simp add: schedulable_iff)
  from c True consider
      (dom) "c = Domain (Start (oi_id r)) 0 (int (n - duration r))"
    | (tech) u where "u \<in> set (eligible ts r)" "c \<in> set (technician_constraints n r u)"
    | (one) "c = Exactly_One (map (\<lambda>t. Assigned (oi_id r) (ti_id t)) (eligible ts r))"
    by (auto simp: order_constraints_def schedulable_iff)
  then show ?thesis
  proof cases
    case dom
    with run sched show ?thesis by (auto simp: valuation_of_simps [OF a] startable_def run_of_def of_nat_diff)
  next
    case tech
    then show ?thesis using only by (intro technician_constraint_holds [OF a run tech(2)]) blast
  next
    case one
    have mem: "t \<in> set (eligible ts r)" "distinct (eligible ts r)"
      using t run key by (simp_all add: eligible_def run_of_def keyed_def distinct_map)
    have "valuation_of as (Assigned (oi_id r) (ti_id u)) \<noteq> 0 \<longleftrightarrow> u = t" if "u \<in> set (eligible ts r)" for u
      using only [OF that] run by (auto simp: valuation_of_simps [OF a] run_of_def)
    then have "filter (\<lambda>u. valuation_of as (Assigned (oi_id r) (ti_id u)) \<noteq> 0) (eligible ts r)
        = filter (\<lambda>u. u = t) (eligible ts r)"
      by (rule filter_cong [OF refl])
    moreover have "length (filter (\<lambda>u. u = t) (eligible ts r)) = 1"
      using mem by (simp add: distinct_length_filter)
    ultimately show ?thesis using one by (simp add: filter_map comp_def)
  qed
qed

lemma plans_pair:
  assumes key: "keyed ts rs" and plan: "plans n ts rs as" and ij: "i < j" "j < length (schedulable n ts rs)"
    and shared: "as_technician (as ! i) = as_technician (as ! j)
      \<or> oi_line (schedulable n ts rs ! i) = oi_line (schedulable n ts rs ! j)"
  shows "valuation_of as (Start (oi_id (schedulable n ts rs ! i))) + int (duration (schedulable n ts rs ! i))
      \<le> valuation_of as (Start (oi_id (schedulable n ts rs ! j)))
    \<or> valuation_of as (Start (oi_id (schedulable n ts rs ! j))) + int (duration (schedulable n ts rs ! j))
      \<le> valuation_of as (Start (oi_id (schedulable n ts rs ! i)))"
proof -
  have len: "i < length as" "j < length as" using ij plans_length [OF plan] by simp_all
  have ends: "as_end (as ! k) = as_start (as ! k) + int (duration (schedulable n ts rs ! k))
      \<and> line_of_order rs (as_order (as ! k)) = Some (oi_line (schedulable n ts rs ! k))" if k: "k < length as" for k
  proof -
    let ?r = "schedulable n ts rs ! k"
    have r: "?r \<in> set (schedulable n ts rs)" using k plans_length [OF plan] by simp
    then obtain a t where "find_assignment as (oi_id ?r) = Some a" "run_of n ?r t a"
      using plans_run [OF key plan] by blast
    moreover have "line_of_order rs (oi_id ?r) = Some (oi_line ?r)"
      using r key by (intro line_of_orderI) (simp_all add: keyed_def schedulable_iff)
    ultimately show ?thesis
      using plans_assignment_at [OF plan k] plans_order_at [OF plan k] by (simp add: run_of_def)
  qed
  have "compatible rs (as ! i) (as ! j)"
    using plan ij(1) len(2) by (auto simp: plans_def valid_plan_def intro: sorted_wrt_nth_less)
  then have "apart (as ! i) (as ! j)"
    using shared ends len by (auto simp: compatible_def)
  then show ?thesis
    using ends len by (simp add: apart_def valuation_of_simps [OF plans_assignment_at [OF plan]])
qed

lemma encoded_technician:
  assumes key: "keyed ts rs" and plan: "plans n ts rs as"
  shows "holds (valuation_of as) (No_Overlap (technician_intervals n ts rs t))"
proof -
  let ?xs = "schedulable n ts rs" and ?v = "valuation_of as"
  have "?v (Start (oi_id (?xs ! i))) + int (duration (?xs ! i)) \<le> ?v (Start (oi_id (?xs ! j)))
      \<or> ?v (Start (oi_id (?xs ! j))) + int (duration (?xs ! j)) \<le> ?v (Start (oi_id (?xs ! i)))"
    if ij: "i < j" "j < length ?xs"
      and both: "?v (Assigned (oi_id (?xs ! i)) (ti_id t)) \<noteq> 0" "?v (Assigned (oi_id (?xs ! j)) (ti_id t)) \<noteq> 0" for i j
  proof (rule plans_pair [OF key plan ij], rule disjI1)
    have "i < length as" "j < length as" using ij plans_length [OF plan] by simp_all
    with both show "as_technician (as ! i) = as_technician (as ! j)"
      by (simp add: valuation_of_simps [OF plans_assignment_at [OF plan]] split: if_splits)
  qed
  then show ?thesis
    by (simp add: technician_intervals_def sorted_wrt_map sorted_wrt_filter_iff present_def before_def)
      (simp add: sorted_wrt_iff_nth_less)
qed

lemma encoded_line:
  assumes key: "keyed ts rs" and plan: "plans n ts rs as"
  shows "holds (valuation_of as) (No_Overlap (line_intervals n ts rs line))"
proof -
  let ?xs = "schedulable n ts rs"
  have "oi_line (?xs ! i) = line \<Longrightarrow> oi_line (?xs ! j) = line \<Longrightarrow> i < j \<Longrightarrow> j < length ?xs \<Longrightarrow>
      valuation_of as (Start (oi_id (?xs ! i))) + int (duration (?xs ! i)) \<le> valuation_of as (Start (oi_id (?xs ! j)))
      \<or> valuation_of as (Start (oi_id (?xs ! j))) + int (duration (?xs ! j)) \<le> valuation_of as (Start (oi_id (?xs ! i)))"
    for i j
    by (rule plans_pair [OF key plan]) auto
  then show ?thesis
    by (simp add: line_intervals_def sorted_wrt_map sorted_wrt_filter_iff present_def before_def)
      (simp add: sorted_wrt_iff_nth_less)
qed

lemma encoded_indicator:
  assumes "keyed ts rs" "plans n ts rs as" "r \<in> set (schedulable n ts rs)" and "c \<in> set (indicator_constraints n r)"
  shows "holds (valuation_of as) c"
proof -
  obtain a where "find_assignment as (oi_id r) = Some a"
    using plans_run [OF assms(1-3)] by blast
  with assms(4) show ?thesis
    by (auto simp: indicator_constraints_def valuation_of_simps)
qed

lemma plan_satisfies:
  assumes "keyed ts rs" and "plans n ts rs as"
  shows "satisfies (valuation_of as) (build_model rs ts n p w)"
  using encoded_order [OF assms] encoded_technician [OF assms] encoded_line [OF assms] encoded_indicator [OF assms]
  by (auto simp: satisfies_def build_model_def overlap_constraints_def)

text \<open>The plan read back from its own valuation has the same technicians and starts, so the same cost.\<close>

lemma plan_cost_read_back:
  assumes key: "keyed ts rs" and plan: "plans n ts rs as"
  shows "plan_cost ts rs p w (map (read_assignment n ts p (valuation_of as)) (schedulable n ts rs))
    = plan_cost ts rs p w as"
proof -
  let ?xs = "schedulable n ts rs" and ?b = "read_assignment n ts p (valuation_of as)"
  have "assignment_cost ts p w (the (order_table rs (as_order (?b (?xs ! i))))) (?b (?xs ! i))
      = assignment_cost ts p w (the (order_table rs (as_order (as ! i)))) (as ! i)" if i: "i < length as" for i
  proof -
    let ?r = "?xs ! i"
    have r: "?r \<in> set ?xs" using i plans_length [OF plan] by simp
    note a = plans_assignment_at [OF plan i]
    obtain t where t: "t \<in> set ts" "assignable n ts ?r t" "valuation_of as (Assigned (oi_id ?r) (ti_id t)) \<noteq> 0"
      "as_technician (?b ?r) = Some (ti_id t)"
      by (rule read_technician [OF plan_satisfies [OF assms] r])
    then have "as_technician (?b ?r) = as_technician (as ! i)"
      by (simp add: valuation_of_simps [OF a] split: if_splits)
    moreover have "as_start (?b ?r) = as_start (as ! i)" by (simp add: valuation_of_simps [OF a])
    ultimately show ?thesis
      using plans_order_at [OF plan i] by (simp add: assignment_cost_def technician_of_def)
  qed
  then show ?thesis
    unfolding plan_cost_def
    by (intro arg_cong [of _ _ sum_list] nth_equalityI) (simp_all add: plans_length [OF plan])
qed

section \<open>Exactness\<close>

text \<open>CP-SAT documents that INFEASIBLE means no solution exists.\<close>

definition solver_exact :: "solver \<Rightarrow> bool" where
  "solver_exact S \<longleftrightarrow> solver_sound S \<and> (\<forall>m v. fst (S m) = INFEASIBLE \<longrightarrow> \<not> satisfies v m)"

text \<open>
  Property C3. The optimiser is exact. When it reports OPTIMAL, the objective is the cost of the
  plan it returns (waiting, risk and energy at the start slot, labour; in currency units) and no valid
  plan of the same orders is cheaper; when the solver reports INFEASIBLE, no valid plan of them exists.
\<close>

theorem solve_optimal:
  assumes S: "solver_exact S" and key: "keyed ts rs" and ne: "rs \<noteq> []" "ts \<noteq> []" and plan: "plans n ts rs as"
  shows "let r = solve S rs ts n p w in sr_status r \<noteq> INFEASIBLE
    \<and> (sr_status r = OPTIMAL \<longrightarrow>
        sr_objective r = Some (real_of_int (plan_cost ts rs p w (sr_assignments r)) / 100)
        \<and> plan_cost ts rs p w (sr_assignments r) \<le> plan_cost ts rs p w as)"
proof -
  let ?m = "build_model rs ts n p w"
  obtain st v where sv: "S ?m = (st, v)" by force
  have sat: "satisfies (valuation_of as) ?m" by (rule plan_satisfies [OF key plan])
  have ids: "distinct (map oi_id rs)" "distinct (map ti_id ts)" using key by (simp_all add: keyed_def)
  have feasible: "st \<noteq> INFEASIBLE"
    using S sat sv unfolding solver_exact_def by (metis fst_conv)
  have opt: "sr_objective (solve S rs ts n p w) = Some (real_of_int (plan_cost ts rs p w (sr_assignments (solve S rs ts n p w))) / 100)
      \<and> plan_cost ts rs p w (sr_assignments (solve S rs ts n p w)) \<le> plan_cost ts rs p w as" if st: "st = OPTIMAL"
  proof -
    have v: "satisfies v ?m" "cost v ?m \<le> cost (valuation_of as) ?m"
      using S sat sv st unfolding solver_exact_def solver_sound_def by (metis fst_conv snd_conv insertCI)+
    have r: "sr_assignments (solve S rs ts n p w) = map (read_assignment n ts p v) (schedulable n ts rs)"
      "sr_objective (solve S rs ts n p w) = Some (if cp_objective ?m \<noteq> [] then real_of_int (cost v ?m) / COST_SCALE else 0)"
      using ne sv st by (simp_all add: solve_def Let_def)
    have "cp_objective ?m = [] \<Longrightarrow> cost v ?m = 0" by (simp add: cost_def)
    then show ?thesis
      using v(2) by (simp add: r objective_is_plan_cost [OF ids v(1)] objective_is_plan_cost [OF ids sat]
          plan_cost_read_back [OF key plan] COST_SCALE_def)
  qed
  have "sr_status (solve S rs ts n p w) = st" using ne sv by (simp add: solve_def Let_def)
  with feasible opt show ?thesis by (simp add: Let_def)
qed

section \<open>Witness\<close>

definition demo_crew :: "technician_input list" where
  "demo_crew = [demo_technician [True, True, True]]"

definition demo_model :: cp_model where
  "demo_model = build_model demo_orders demo_crew 3 [] demo_weights"

definition demo_exact :: solver where
  "demo_exact m = (if m = demo_model then OPTIMAL else UNKNOWN, demo_valuation)"

lemma demo_keyed: "keyed demo_crew demo_orders"
  using demo_ids by (simp add: keyed_def demo_crew_def)

lemma demo_model_satisfied: "satisfies demo_valuation demo_model"
  using demo_satisfies by (simp add: demo_model_def demo_crew_def)

lemma demo_schedulable: "schedulable 3 demo_crew demo_orders = demo_orders"
  by (simp add: schedulable_def demo_orders_def demo_order_def startable_def duration_def SLOT_MINUTES_def
      assignable_def eligible_def can_do_def demo_crew_def)

lemma demo_objective: "cp_objective demo_model = [(30000, Start ''a'')]"
proof -
  have free: "energy_cost [] (demo_order i m c) slot = 0" "risk_at (demo_order i m c) slot = 0" for i m c slot
    by (simp_all add: energy_cost_def risk_at_def demo_order_def)
  have "wait_penalty demo_weights (demo_order ''a'' 30 60) = 30000" "wait_penalty demo_weights (demo_order ''b'' 10 0) = 0"
    using trunc_of_int [of 30000] by (simp_all add: wait_penalty_def demo_weights_def demo_order_def COST_SCALE_def)
  moreover have "slot_cost demo_weights [] (demo_order i m c) slot = 0" for i m c slot
    by (simp add: slot_cost_def free)
  ultimately have "order_objective 3 demo_crew [] demo_weights (demo_order ''a'' 30 60) = [(30000, Start ''a'')]"
    "order_objective 3 demo_crew [] demo_weights (demo_order ''b'' 10 0) = []"
    by (simp_all add: order_objective_def demo_crew_def demo_technician_def) (simp add: demo_order_def)
  then show ?thesis
    by (simp add: demo_model_def build_model_def demo_schedulable) (simp add: demo_orders_def)
qed

lemma demo_exact_ok: "solver_exact demo_exact"
proof -
  have "cost demo_valuation demo_model \<le> cost v demo_model" if "satisfies v demo_model" for v
  proof -
    have "0 \<le> v (Start ''a'')"
      using start_range [of v demo_orders demo_crew 3 "[]" demo_weights "demo_order ''a'' 30 60"] that
      by (simp add: demo_model_def [symmetric] demo_schedulable) (simp add: demo_orders_def demo_order_def)
    then show ?thesis by (simp add: cost_def demo_objective demo_valuation_def)
  qed
  then show ?thesis
    using demo_model_satisfied by (simp add: solver_exact_def solver_sound_def demo_exact_def)
qed

definition demo_plan :: "assignment list" where
  "demo_plan = map (read_assignment 3 demo_crew [] demo_valuation) demo_orders"

lemma demo_plans: "plans 3 demo_crew demo_orders demo_plan"
  using read_valid [of demo_orders demo_crew demo_valuation 3 "[]" demo_weights] demo_keyed demo_model_satisfied
  by (simp add: plans_def demo_plan_def demo_schedulable keyed_def demo_model_def comp_def)

theorem solve_optimal_witness:
  "sr_objective (solve demo_exact demo_orders demo_crew 3 [] demo_weights)
     = Some (real_of_int (plan_cost demo_crew demo_orders [] demo_weights
         (sr_assignments (solve demo_exact demo_orders demo_crew 3 [] demo_weights))) / 100)
   \<and> sr_status (solve demo_exact demo_orders demo_crew 3 [] demo_weights) = OPTIMAL"
proof -
  have ne: "demo_orders \<noteq> []" "demo_crew \<noteq> []" by (simp_all add: demo_orders_def demo_crew_def)
  then have "sr_status (solve demo_exact demo_orders demo_crew 3 [] demo_weights) = OPTIMAL"
    by (simp add: solve_def demo_exact_def demo_model_def [symmetric] Let_def)
  with solve_optimal [OF demo_exact_ok demo_keyed ne demo_plans, of "[]" demo_weights] show ?thesis
    by (simp add: Let_def)
qed

end
