(* ===== verification/Maint_Risk.thy ===== *)
theory Maint_Risk
  imports Py_Numbers
begin

text \<open>
  Failure risk before a slot (\<open>apps/api/app/modules/maintenance/risk.py\<close>): a two-parameter Weibull fitted
  to a remaining-life estimate and its interval, and the probability of failing before a time. Lives
  and probabilities are reals; times are in seconds.
\<close>

definition COVERAGE_Z :: real where "COVERAGE_Z = 1645 / 1000"
definition MIN_SHAPE :: real where "MIN_SHAPE = 1 / 2"
definition MAX_SHAPE :: real where "MAX_SHAPE = 20"

record weibull =
  wb_shape :: real
  wb_scale :: real

definition weibull_cdf :: "weibull \<Rightarrow> real \<Rightarrow> real" where
  "weibull_cdf w t = (if t \<le> 0 then 0 else 1 - exp (- ((t / wb_scale w) powr wb_shape w)))"

definition raw_shape :: "real option \<Rightarrow> real option \<Rightarrow> real" where
  "raw_shape low high =
     (case (low, high) of
        (Some l, Some h) \<Rightarrow>
          if h \<le> l then 4
          else (let log_width = ln (max h (1 / 10 ^ 6)) - ln (max l (1 / 10 ^ 6))
                in if log_width > 0 then 2 * COVERAGE_Z / log_width else MAX_SHAPE)
      | _ \<Rightarrow> 4)"

definition fit_weibull :: "real \<Rightarrow> real option \<Rightarrow> real option \<Rightarrow> weibull" where
  "fit_weibull point low high =
     (let p = max point (1 / 10 ^ 6); shape = min (max (raw_shape low high) MIN_SHAPE) MAX_SHAPE
      in \<lparr>wb_shape = shape, wb_scale = p / (ln 2 powr (1 / shape))\<rparr>)"

record rul_estimate =
  re_point :: "real option"
  re_low :: "real option"
  re_high :: "real option"
  re_unit :: string

definition risk_before :: "rul_estimate \<Rightarrow> real \<Rightarrow> real \<Rightarrow> real \<Rightarrow> real" where
  "risk_before e cycles_per_hour now slot_start =
     (case re_point e of None \<Rightarrow> 0
      | Some p \<Rightarrow>
          (let hours = (slot_start - now) / 3600 in
           if hours \<le> 0 then 0
           else (let elapsed = (if re_unit e = ''hours'' then hours else hours * cycles_per_hour)
                 in round_dec 6 (weibull_cdf (fit_weibull p (re_low e) (re_high e)) elapsed))))"

record risk_change =
  rc_risk :: real
  rc_earlier :: real
  rc_later :: real
  rc_shift_hours :: real

definition risk_delta :: "rul_estimate \<Rightarrow> real \<Rightarrow> real \<Rightarrow> real \<Rightarrow> real \<Rightarrow> risk_change" where
  "risk_delta e cycles_per_hour now slot_start shift_hours =
     \<lparr>rc_risk = risk_before e cycles_per_hour now slot_start,
      rc_earlier = risk_before e cycles_per_hour now (slot_start - shift_hours * 3600),
      rc_later = risk_before e cycles_per_hour now (slot_start + shift_hours * 3600),
      rc_shift_hours = shift_hours\<rparr>"

section \<open>The fitted curve\<close>

lemma fit_shape: "MIN_SHAPE \<le> wb_shape (fit_weibull p low high) \<and> wb_shape (fit_weibull p low high) \<le> MAX_SHAPE"
  by (simp add: fit_weibull_def Let_def MIN_SHAPE_def MAX_SHAPE_def)

lemma fit_shape_pos: "0 < wb_shape (fit_weibull p low high)"
  using fit_shape [of p low high] by (simp add: MIN_SHAPE_def)

lemma fit_scale_pos: "0 < wb_scale (fit_weibull p low high)"
  by (simp add: fit_weibull_def Let_def)

lemma fit_scale: "(1 / 10 ^ 6 \<le> p) \<Longrightarrow>
    wb_scale (fit_weibull p low high) * ln 2 powr (1 / wb_shape (fit_weibull p low high)) = p"
  by (simp add: fit_weibull_def Let_def max_def)

lemma cdf_range: "0 \<le> weibull_cdf w t \<and> weibull_cdf w t \<le> 1"
  by (simp add: weibull_cdf_def)

lemma cdf_mono:
  assumes "0 < wb_scale w" and "0 < wb_shape w" and "t \<le> u"
  shows "weibull_cdf w t \<le> weibull_cdf w u"
proof (cases "t \<le> 0")
  case True
  then show ?thesis using cdf_range [of w u] by (simp add: weibull_cdf_def)
next
  case False
  with assms have "(t / wb_scale w) powr wb_shape w \<le> (u / wb_scale w) powr wb_shape w"
    by (intro powr_mono2 divide_right_mono) auto
  with False assms(3) show ?thesis by (simp add: weibull_cdf_def)
qed

text \<open>The median of the fitted curve is the point estimate.\<close>

lemma cdf_median:
  assumes "1 / 10 ^ 6 \<le> p"
  shows "weibull_cdf (fit_weibull p low high) p = 1 / 2"
proof -
  let ?w = "fit_weibull p low high"
  have "p / wb_scale ?w = ln 2 powr (1 / wb_shape ?w)"
    using fit_scale [OF assms, of low high] fit_scale_pos [of p low high] by (simp add: field_simps)
  then have "(p / wb_scale ?w) powr wb_shape ?w = ln 2"
    using fit_shape_pos [of p low high] by (simp add: powr_powr)
  moreover have "0 < p" using assms by (rule less_le_trans [rotated]) simp
  ultimately show ?thesis by (simp add: weibull_cdf_def exp_minus)
qed

lemma risk_before_range: "0 \<le> risk_before e c now s \<and> risk_before e c now s \<le> 1"
proof -
  have "0 \<le> round_dec 6 (weibull_cdf w t) \<and> round_dec 6 (weibull_cdf w t) \<le> 1" for w t
    using cdf_range [of w t] round_dec_nonneg round_dec_le_int [of _ 1] by simp
  then show ?thesis by (simp add: risk_before_def Let_def split: option.split)
qed

lemma risk_before_mono:
  assumes "0 \<le> c" and "s \<le> s'"
  shows "risk_before e c now s \<le> risk_before e c now s'"
proof (cases "re_point e")
  case None
  then show ?thesis by (simp add: risk_before_def)
next
  case (Some p)
  let ?w = "fit_weibull p (re_low e) (re_high e)"
  let ?h = "\<lambda>s. (s - now) / 3600" and ?e = "\<lambda>h. if re_unit e = ''hours'' then h else h * c"
  show ?thesis
  proof (cases "?h s \<le> 0")
    case True
    then have "risk_before e c now s = 0" by (simp add: risk_before_def Some)
    then show ?thesis using risk_before_range [of e c now s'] by simp
  next
    case False
    then have "\<not> ?h s' \<le> 0" using assms(2) by simp
    moreover have "?e (?h s) \<le> ?e (?h s')"
      using assms by (auto intro!: mult_right_mono divide_right_mono)
    then have "round_dec 6 (weibull_cdf ?w (?e (?h s))) \<le> round_dec 6 (weibull_cdf ?w (?e (?h s')))"
      by (intro round_dec_mono cdf_mono fit_scale_pos fit_shape_pos)
    ultimately show ?thesis using False by (simp add: risk_before_def Some Let_def)
  qed
qed

text \<open>
  Property C27. The risk before a slot is a probability; it never falls when the slot moves later, so the
  three numbers shown to the planner are in order; and it is one half when the slot starts exactly
  at the estimated remaining life, whatever the interval.
\<close>

theorem risk_curve:
  assumes "0 < c" and "0 \<le> shift"
  shows "let r = risk_delta e c now slot shift in
     0 \<le> rc_earlier r \<and> rc_earlier r \<le> rc_risk r \<and> rc_risk r \<le> rc_later r \<and> rc_later r \<le> 1
     \<and> (\<forall>p. re_point e = Some p \<and> 1 / 10 ^ 6 \<le> p \<longrightarrow>
          risk_before e c now (now + 3600 * (if re_unit e = ''hours'' then p else p / c)) = 1 / 2)"
proof -
  have half: "risk_before e c now (now + 3600 * (if re_unit e = ''hours'' then p else p / c)) = 1 / 2"
    if p: "re_point e = Some p" "1 / 10 ^ 6 \<le> p" for p
  proof -
    have pos: "0 < p" using p(2) by (rule less_le_trans [rotated]) simp
    have "(1 / 2 :: real) * 10 ^ 6 = of_int 500000" by simp
    then have rounded: "round_dec 6 (1 / 2) = (1 / 2 :: real)"
      unfolding round_dec_def by (simp only: round_even_of_int) simp
    have "risk_before e c now (now + 3600 * (if re_unit e = ''hours'' then p else p / c))
        = round_dec 6 (weibull_cdf (fit_weibull p (re_low e) (re_high e)) p)"
      using assms(1) pos p(1) divide_pos_pos [OF pos assms(1)] by (simp add: risk_before_def Let_def not_le [symmetric])
    also have "\<dots> = 1 / 2" by (simp only: cdf_median [OF p(2)] rounded)
    finally show ?thesis .
  qed
  with risk_before_mono [of c _ _ e now] risk_before_range [of e c now] assms show ?thesis
    by (simp add: risk_delta_def Let_def)
qed

theorem risk_curve_witness:
  "risk_before \<lparr>re_point = Some 100, re_low = Some 60, re_high = Some 150, re_unit = ''hours''\<rparr> 1 0 360000 = 1 / 2"
  using risk_curve [of 1 24 "\<lparr>re_point = Some 100, re_low = Some 60, re_high = Some 150, re_unit = ''hours''\<rparr>" 0 0]
  by (simp add: Let_def)

end
