(* ===== verification/Maint_Orders.thy ===== *)
theory Maint_Orders
  imports Maint_Optimiser Maint_Risk
begin

text \<open>
  Work orders: the tables of \<open>apps/api/app/modules/maintenance/models.py\<close>, creation and update in
  \<open>WorkOrderService\<close>, technicians and their availability, and the worker that raises predictive orders
  and scores closed ones (\<open>app/workers/tasks/maintenance.py\<close>). A row's id is its position in its table;
  nothing is deleted. Requests have passed their schema; a constraint of the database that a request
  can still violate is an error. A time is in seconds, money and probabilities are reals.
\<close>

section \<open>Tables\<close>

datatype wo_type = Corrective | Preventive | Predictive
datatype wo_status = Order_Open | Scheduled | In_Progress | Order_Closed | Cancelled
datatype created_via = Via_UI | Via_Voice | Via_Chat | Via_Auto

definition OPEN_STATUSES :: "wo_status list" where "OPEN_STATUSES = [Order_Open, Scheduled, In_Progress]"
definition TERMINAL_STATUSES :: "wo_status list" where "TERMINAL_STATUSES = [Order_Closed, Cancelled]"

record work_order =
  wo_asset :: nat
  wo_component :: "nat option"
  wo_kind :: wo_type
  wo_priority :: int
  wo_title :: string
  wo_description :: "string option"
  wo_failure_mode :: "nat option"
  wo_prediction :: "nat option"
  wo_status :: wo_status
  wo_planned_start :: "int option"
  wo_planned_end :: "int option"
  wo_actual_start :: "int option"
  wo_actual_end :: "int option"
  wo_technician :: "nat option"
  wo_est_duration :: "int option"
  wo_est_cost :: "real option"
  wo_risk :: "real option"
  wo_via :: created_via
  wo_outcome :: "string option"
  wo_correct :: "bool option"

record asset_row =
  ar_code :: string
  ar_type :: string
  ar_line :: nat
  ar_power_kw :: "real option"

record technician_row =
  tr_code :: string
  tr_name :: string
  tr_skills :: "string list"
  tr_hourly_cost :: "real option"

record availability_window =
  aw_technician :: nat
  aw_starts :: int
  aw_ends :: int
  aw_kind :: string

record schedule_row =
  sh_horizon_start :: int
  sh_horizon_end :: int
  sh_solver_status :: solver_status
  sh_cost :: "real option"
  sh_active :: bool

record schedule_item =
  it_schedule :: nat
  it_order :: nat
  it_technician :: "nat option"
  it_starts :: int
  it_ends :: int
  it_risk :: "real option"
  it_energy :: "real option"
  it_manual :: bool

record maint_db =
  md_assets :: "asset_row list"
  md_technicians :: "technician_row list"
  md_windows :: "availability_window list"
  md_orders :: "work_order list"
  md_tasks :: "(nat \<times> int \<times> string) list"
  md_schedules :: "schedule_row list"
  md_items :: "schedule_item list"
  md_audits :: "(string \<times> nat \<times> string) list"

datatype maint_error =
    Missing string nat
  | Conflict_Error wo_status
  | Code_Taken string
  | Not_Ordered
  | Outside_Horizon
  | Rejected_Reset
  | Gateway_Down
  | Integrity_Error

definition row :: "'r list \<Rightarrow> nat \<Rightarrow> 'r option" where
  "row table i = (if i < length table then Some (table ! i) else None)"

definition get_or_404 :: "string \<Rightarrow> 'r list \<Rightarrow> nat \<Rightarrow> maint_error + 'r" where
  "get_or_404 label table i = (case row table i of None \<Rightarrow> Inl (Missing label i) | Some r \<Rightarrow> Inr r)"

definition audit :: "string \<Rightarrow> nat \<Rightarrow> string \<Rightarrow> maint_db \<Rightarrow> maint_db" where
  "audit entity i what d = d\<lparr>md_audits := md_audits d @ [(entity, i, what)]\<rparr>"

definition put_order :: "nat \<Rightarrow> work_order \<Rightarrow> maint_db \<Rightarrow> maint_db" where
  "put_order i x d = d\<lparr>md_orders := (md_orders d)[i := x]\<rparr>"

section \<open>Technicians\<close>

definition create_technician :: "technician_row \<Rightarrow> maint_db \<Rightarrow> maint_error + maint_db" where
  "create_technician t d =
     (if tr_code t \<in> set (map tr_code (md_technicians d)) then Inl (Code_Taken (tr_code t))
      else Inr (audit ''technicians'' (length (md_technicians d)) ''create''
                  (d\<lparr>md_technicians := md_technicians d @ [t]\<rparr>)))"

definition add_availability :: "availability_window \<Rightarrow> maint_db \<Rightarrow> maint_error + maint_db" where
  "add_availability w d =
     rbind (get_or_404 ''Technician'' (md_technicians d) (aw_technician w))
       (\<lambda>_. Inr (audit ''technician_availability'' (length (md_windows d)) ''create''
                  (d\<lparr>md_windows := md_windows d @ [w]\<rparr>)))"

text \<open>\<open>TechnicianRepository.availability\<close>: the windows that meet the interval, by start.\<close>

definition windows_of :: "maint_db \<Rightarrow> nat \<Rightarrow> int \<Rightarrow> int \<Rightarrow> availability_window list" where
  "windows_of d t starts ends =
     sort_key aw_starts (filter (\<lambda>w. aw_technician w = t \<and> aw_ends w > starts \<and> aw_starts w < ends) (md_windows d))"

section \<open>Creating and updating orders\<close>

record order_create =
  oc_asset :: nat
  oc_component :: "nat option"
  oc_kind :: wo_type
  oc_priority :: int
  oc_title :: string
  oc_description :: "string option"
  oc_failure_mode :: "nat option"
  oc_prediction :: "nat option"
  oc_planned_start :: "int option"
  oc_planned_end :: "int option"
  oc_technician :: "nat option"
  oc_est_duration :: "int option"
  oc_est_cost :: "real option"
  oc_via :: created_via
  oc_tasks :: "(int \<times> string) list"

definition new_order :: "order_create \<Rightarrow> work_order" where
  "new_order c =
     \<lparr>wo_asset = oc_asset c, wo_component = oc_component c, wo_kind = oc_kind c, wo_priority = oc_priority c,
      wo_title = oc_title c, wo_description = oc_description c, wo_failure_mode = oc_failure_mode c,
      wo_prediction = oc_prediction c, wo_status = Order_Open, wo_planned_start = oc_planned_start c,
      wo_planned_end = oc_planned_end c, wo_actual_start = None, wo_actual_end = None,
      wo_technician = oc_technician c, wo_est_duration = oc_est_duration c, wo_est_cost = oc_est_cost c,
      wo_risk = None, wo_via = oc_via c, wo_outcome = None, wo_correct = None\<rparr>"

text \<open>The partial unique index on open automatic orders of one asset and failure mode.\<close>

definition open_auto :: "nat \<Rightarrow> nat \<Rightarrow> work_order \<Rightarrow> bool" where
  "open_auto asset mode r \<longleftrightarrow>
     wo_asset r = asset \<and> wo_failure_mode r = Some mode \<and> wo_status r \<in> set OPEN_STATUSES \<and> wo_via r = Via_Auto"

definition index_violated :: "maint_db \<Rightarrow> work_order \<Rightarrow> bool" where
  "index_violated d r \<longleftrightarrow>
     (case wo_failure_mode r of None \<Rightarrow> False
      | Some m \<Rightarrow> open_auto (wo_asset r) m r \<and> list_ex (open_auto (wo_asset r) m) (md_orders d))"

definition create_order :: "order_create \<Rightarrow> maint_db \<Rightarrow> maint_error + nat \<times> maint_db" where
  "create_order c d =
     (case row (md_assets d) (oc_asset c) of
        None \<Rightarrow> Inl (Missing ''Asset'' (oc_asset c))
      | Some _ \<Rightarrow>
          (let r = new_order c; i = length (md_orders d) in
           if index_violated d r \<or> (\<exists>t. oc_technician c = Some t \<and> row (md_technicians d) t = None)
              \<or> \<not> distinct (map fst (oc_tasks c))
           then Inl Integrity_Error
           else Inr (i, audit ''work_orders'' i ''create''
                  (d\<lparr>md_orders := md_orders d @ [r], md_tasks := md_tasks d @ map (\<lambda>(s, t). (i, s, t)) (oc_tasks c)\<rparr>))))"

text \<open>
  A request sends any subset of the fields (\<open>exclude_unset\<close>), \<^term>\<open>None\<close> for an unset one; the schema
  lets it send an explicit null too, which the three NOT NULL columns refuse.
\<close>

record order_patch =
  op_priority :: "int option option"
  op_title :: "string option option"
  op_description :: "string option option"
  op_status :: "wo_status option option"
  op_planned_start :: "int option option"
  op_planned_end :: "int option option"
  op_technician :: "nat option option"
  op_est_duration :: "int option option"
  op_est_cost :: "real option option"

definition nulls :: "order_patch \<Rightarrow> bool" where
  "nulls p \<longleftrightarrow> op_priority p = Some None \<or> op_title p = Some None \<or> op_status p = Some None"

definition pick :: "'a option \<Rightarrow> 'a \<Rightarrow> 'a" where
  "pick p old = (case p of None \<Rightarrow> old | Some v \<Rightarrow> v)"

definition pick_value :: "'a option option \<Rightarrow> 'a \<Rightarrow> 'a" where
  "pick_value p old = (case p of Some (Some v) \<Rightarrow> v | _ \<Rightarrow> old)"

definition apply_patch :: "order_patch \<Rightarrow> work_order \<Rightarrow> work_order" where
  "apply_patch p r =
     r\<lparr>wo_priority := pick_value (op_priority p) (wo_priority r), wo_title := pick_value (op_title p) (wo_title r),
       wo_description := pick (op_description p) (wo_description r),
       wo_status := pick_value (op_status p) (wo_status r),
       wo_planned_start := pick (op_planned_start p) (wo_planned_start r),
       wo_planned_end := pick (op_planned_end p) (wo_planned_end r),
       wo_technician := pick (op_technician p) (wo_technician r),
       wo_est_duration := pick (op_est_duration p) (wo_est_duration r),
       wo_est_cost := pick (op_est_cost p) (wo_est_cost r)\<rparr>"

definition update_order :: "nat \<Rightarrow> order_patch \<Rightarrow> maint_db \<Rightarrow> maint_error + maint_db" where
  "update_order i p d =
     rbind (get_or_404 ''Work order'' (md_orders d) i) (\<lambda>r.
       if wo_status r \<in> set TERMINAL_STATUSES then Inl (Conflict_Error (wo_status r))
       else
         (let start = pick (op_planned_start p) (wo_planned_start r); end' = pick (op_planned_end p) (wo_planned_end r) in
          if (case (start, end') of (Some a, Some b) \<Rightarrow> b \<le> a | _ \<Rightarrow> False) then Inl Not_Ordered
          else if (case op_technician p of Some (Some t) \<Rightarrow> row (md_technicians d) t = None | _ \<Rightarrow> False)
               then Inl (Missing ''Technician'' (the (the (op_technician p))))
          else if nulls p then Inl Integrity_Error
          else Inr (audit ''work_orders'' i ''update'' (put_order i (apply_patch p r) d))))"

section \<open>Predictive orders\<close>

definition DEFAULT_PROBABILITY_THRESHOLD :: real where "DEFAULT_PROBABILITY_THRESHOLD = 6 / 10"

definition PROBABILITY_THRESHOLDS :: "(string \<times> real) list" where
  "PROBABILITY_THRESHOLDS = [(''compressor'', 55 / 100), (''hydraulic_press'', 65 / 100)]"

definition MAX_PREDICTION_AGE_MIN :: int where "MAX_PREDICTION_AGE_MIN = 30"

record prediction_row =
  pr_id :: nat
  pr_time :: int
  pr_component :: "nat option"
  pr_probabilities :: "(string \<times> real) list"
  pr_rul :: rul_estimate

record failure_mode_row =
  fr_id :: nat
  fr_name :: string
  fr_severity :: int

record kb_entry =
  kb_likely_cause :: string
  kb_est_duration :: "int option"

text \<open>\<open>max(candidates, key=...)\<close>: the first of the largest.\<close>

fun argmax :: "(string \<times> real) list \<Rightarrow> (string \<times> real) option" where
  "argmax [] = None"
| "argmax (x # xs) = (case argmax xs of None \<Rightarrow> Some x | Some y \<Rightarrow> if snd y > snd x then Some y else Some x)"

definition worst_mode :: "(string \<times> real) list \<Rightarrow> (string \<times> real) option" where
  "worst_mode ps = argmax (filter (\<lambda>(m, p). m \<noteq> ''normal'') ps)"

definition order_priority :: "real \<Rightarrow> int \<Rightarrow> int" where
  "order_priority probability severity =
     (let score = probability * real_of_int severity in
      if score \<ge> 3 then 1 else if score \<ge> 2 then 2 else if score \<ge> 1 then 3 else 4)"

definition open_for_mode :: "maint_db \<Rightarrow> nat \<Rightarrow> nat \<Rightarrow> work_order option" where
  "open_for_mode d asset mode =
     find (\<lambda>r. wo_asset r = asset \<and> wo_failure_mode r = Some mode \<and> wo_status r \<in> set OPEN_STATUSES) (md_orders d)"

text \<open>
  What the worker reads: the latest prediction of an asset, the failure modes of its type, the
  knowledge base. \<open>{probability:.0%}\<close> is rendered by a parameter.
\<close>

record predictive_inputs =
  pi_prediction :: "nat \<Rightarrow> prediction_row option"
  pi_modes :: "string \<Rightarrow> string \<Rightarrow> failure_mode_row option"
  pi_kb :: "nat \<Rightarrow> kb_entry option"
  pi_percent :: "real \<Rightarrow> string"

definition predictive_order ::
    "predictive_inputs \<Rightarrow> nat \<Rightarrow> asset_row \<Rightarrow> prediction_row \<Rightarrow> string \<Rightarrow> real \<Rightarrow> failure_mode_row \<Rightarrow> order_create" where
  "predictive_order X i a pr code p m =
     \<lparr>oc_asset = i, oc_component = pr_component pr, oc_kind = Predictive, oc_priority = order_priority p (fr_severity m),
      oc_title = fr_name m @ '' predicted on '' @ ar_code a,
      oc_description = Some (''Calibrated probability '' @ pi_percent X p @ '' for failure mode '' @ [CHR 0x27] @ code
        @ [CHR 0x27] @ ''.'' @ (case pi_kb X (fr_id m) of Some k \<Rightarrow> '' '' @ kb_likely_cause k | None \<Rightarrow> [])),
      oc_failure_mode = Some (fr_id m), oc_prediction = Some (pr_id pr), oc_planned_start = None, oc_planned_end = None,
      oc_technician = None, oc_est_duration = Option.bind (pi_kb X (fr_id m)) kb_est_duration, oc_est_cost = None,
      oc_via = Via_Auto, oc_tasks = []\<rparr>"

definition raise_for_asset :: "predictive_inputs \<Rightarrow> int \<Rightarrow> nat \<Rightarrow> maint_db \<Rightarrow> maint_error + bool \<times> maint_db" where
  "raise_for_asset X now i d =
     rbind (get_or_404 ''Asset'' (md_assets d) i) (\<lambda>a.
       case pi_prediction X i of
         None \<Rightarrow> Inr (False, d)
       | Some pr \<Rightarrow>
           if now - pr_time pr > MAX_PREDICTION_AGE_MIN * 60 then Inr (False, d)
           else (case worst_mode (pr_probabilities pr) of
                   None \<Rightarrow> Inr (False, d)
                 | Some (code, p) \<Rightarrow>
                     if p < (case map_of PROBABILITY_THRESHOLDS (ar_type a) of
                               Some t \<Rightarrow> t | None \<Rightarrow> DEFAULT_PROBABILITY_THRESHOLD)
                     then Inr (False, d)
                     else (case pi_modes X (ar_type a) code of
                             None \<Rightarrow> Inr (False, d)
                           | Some m \<Rightarrow>
                               if open_for_mode d i (fr_id m) \<noteq> None then Inr (False, d)
                               else rbind (create_order (predictive_order X i a pr code p m) d)
                                      (\<lambda>(_, d'). Inr (True, d')))))"

text \<open>One failed asset is logged and rolled back; the others go on.\<close>

fun raise_orders :: "predictive_inputs \<Rightarrow> int \<Rightarrow> nat list \<Rightarrow> maint_db \<Rightarrow> nat \<times> maint_db" where
  "raise_orders X now [] d = (0, d)"
| "raise_orders X now (i # is) d =
     (case raise_for_asset X now i d of
        Inl _ \<Rightarrow> raise_orders X now is d
      | Inr (b, d1) \<Rightarrow> (let (n, d2) = raise_orders X now is d1 in (n + (if b then 1 else 0), d2)))"

definition raise_predictive_orders :: "predictive_inputs \<Rightarrow> int \<Rightarrow> maint_db \<Rightarrow> nat \<times> maint_db" where
  "raise_predictive_orders X now d = raise_orders X now [0..<length (md_assets d)] d"

definition outcome_confirms :: "string \<Rightarrow> bool" where
  "outcome_confirms outcome =
     (\<not> list_ex (\<lambda>phrase. sublist phrase (lower outcome))
        [''no fault'', ''no issue'', ''nothing found'', ''false alarm'', ''healthy'', ''no problem''])"

definition score_order :: "int \<Rightarrow> work_order \<Rightarrow> work_order" where
  "score_order since r =
     (if wo_status r = Order_Closed \<and> wo_kind r = Predictive \<and> wo_correct r = None
         \<and> (case wo_actual_end r of Some t \<Rightarrow> t \<ge> since | None \<Rightarrow> False)
      then r\<lparr>wo_correct := Some (outcome_confirms (case wo_outcome r of Some s \<Rightarrow> s | None \<Rightarrow> []))\<rparr>
      else r)"

definition score_closed_orders :: "int \<Rightarrow> int \<Rightarrow> maint_db \<Rightarrow> maint_db" where
  "score_closed_orders now lookback_hours d =
     d\<lparr>md_orders := map (score_order (now - lookback_hours * 3600)) (md_orders d)\<rparr>"

end
