(* ===== verification/Maint_Schedules.thy ===== *)
theory Maint_Schedules
  imports Maint_Orders Maint_Planning Ingest_Consumer
begin

text \<open>
  Schedules: \<open>ScheduleService\<close> of \<open>apps/api/app/modules/maintenance/service.py\<close>, from the tables to the
  optimiser's inputs and back (\<open>optimise\<close>), and a planner's manual move (\<open>patch_item\<close>). The text of an id is
  its decimal. The weekday and time of day of an instant, in the zone the request was made in, are a
  parameter, as are the latest remaining-life estimates.
\<close>

definition DEFAULT_DURATION_MIN :: int where "DEFAULT_DURATION_MIN = 120"
definition DEFAULT_DOWNTIME_COST_PER_HOUR :: real where "DEFAULT_DOWNTIME_COST_PER_HOUR = 5000"
definition DEFAULT_FAILURE_COST :: real where "DEFAULT_FAILURE_COST = 200000"

record plan_inputs =
  px_rul :: "nat \<Rightarrow> rul_estimate option"
  px_tariffs :: "tariff list"
  px_local :: "int \<Rightarrow> nat \<times> int"

section \<open>Inputs of the optimiser\<close>

definition id_text :: "nat \<Rightarrow> string" where
  "id_text i = nat_str i"

text \<open>\<open>x or default\<close> on an optional number.\<close>

definition or_else :: "'a :: zero option \<Rightarrow> 'a \<Rightarrow> 'a" where
  "or_else x y = (case x of Some v \<Rightarrow> if v \<noteq> 0 then v else y | None \<Rightarrow> y)"

definition risk_for :: "plan_inputs \<Rightarrow> int \<Rightarrow> nat \<Rightarrow> int \<Rightarrow> real" where
  "risk_for X now asset slot_start =
     (case px_rul X asset of None \<Rightarrow> 0
      | Some e \<Rightarrow> risk_before (e\<lparr>re_unit := (if re_unit e = [] then ''cycles'' else re_unit e)\<rparr>) 1 (real_of_int now)
                    (real_of_int slot_start))"

definition order_input_of :: "plan_inputs \<Rightarrow> maint_db \<Rightarrow> int \<Rightarrow> nat \<Rightarrow> int \<Rightarrow> nat \<times> work_order \<Rightarrow> order_input" where
  "order_input_of X d horizon_start n now ir =
     (let r = snd ir; asset = row (md_assets d) (wo_asset r) in
      \<lparr>oi_id = id_text (fst ir), oi_asset = id_text (wo_asset r),
       oi_line = (case asset of Some a \<Rightarrow> id_text (ar_line a) | None \<Rightarrow> id_text (wo_asset r)),
       oi_duration_min = or_else (wo_est_duration r) DEFAULT_DURATION_MIN, oi_priority = wo_priority r, oi_skills = [],
       oi_downtime_cost = DEFAULT_DOWNTIME_COST_PER_HOUR, oi_failure_cost = or_else (wo_est_cost r) DEFAULT_FAILURE_COST,
       oi_risk = map (\<lambda>slot. risk_for X now (wo_asset r) (slot_time horizon_start (int slot))) [0..<n],
       oi_energy_kw = (case asset of Some a \<Rightarrow> or_else (ar_power_kw a) 0 | None \<Rightarrow> 0)\<rparr>)"

definition covers_slot :: "int \<Rightarrow> availability_window \<Rightarrow> nat \<Rightarrow> bool" where
  "covers_slot horizon_start w slot \<longleftrightarrow>
     aw_starts w \<le> slot_time horizon_start (int slot) \<and> slot_time horizon_start (int slot) < aw_ends w"

definition mark_window :: "int \<Rightarrow> bool \<Rightarrow> bool list \<Rightarrow> availability_window \<Rightarrow> bool list" where
  "mark_window horizon_start value slots w =
     map (\<lambda>(slot, b). if covers_slot horizon_start w slot then value else b) (enumerate 0 slots)"

definition slots_of :: "int \<Rightarrow> nat \<Rightarrow> availability_window list \<Rightarrow> bool list" where
  "slots_of horizon_start n ws =
     foldl (mark_window horizon_start False)
       (foldl (mark_window horizon_start True) (replicate n False) (filter (\<lambda>w. aw_kind w = ''available'') ws))
       (filter (\<lambda>w. aw_kind w \<noteq> ''available'') ws)"

definition technician_input_of :: "maint_db \<Rightarrow> int \<Rightarrow> nat \<Rightarrow> nat \<times> technician_row \<Rightarrow> technician_input" where
  "technician_input_of d horizon_start n it =
     (let ws = windows_of d (fst it) horizon_start (slot_time horizon_start (int n)) in
      \<lparr>ti_id = id_text (fst it), ti_skills = tr_skills (snd it), ti_hourly_cost = or_else (tr_hourly_cost (snd it)) 0,
       ti_slots = (if ws = [] then [] else slots_of horizon_start n ws)\<rparr>)"

definition tariff_per_slot :: "plan_inputs \<Rightarrow> int \<Rightarrow> nat \<Rightarrow> real list" where
  "tariff_per_slot X horizon_start n =
     (if px_tariffs X = [] then []
      else map (\<lambda>slot. rate_at (px_tariffs X) (px_local X (slot_time horizon_start (int slot)))) [0..<n])"

section \<open>Optimising\<close>

record optimise_request =
  or_start :: int
  or_end :: int
  or_weights :: weights
  or_assets :: "nat list"
  or_activate :: bool

text \<open>\<open>WorkOrderRepository.schedulable\<close>, with the ids of the rows; rows are stored in order of creation.\<close>

definition schedulable_orders :: "nat list \<Rightarrow> maint_db \<Rightarrow> (nat \<times> work_order) list" where
  "schedulable_orders only d =
     sort_key (\<lambda>ir. wo_priority (snd ir))
       (filter (\<lambda>(i, r). wo_status r \<in> {Order_Open, Scheduled} \<and> (only \<noteq> [] \<longrightarrow> wo_asset r \<in> set only))
         (enumerate 0 (md_orders d)))"

definition id_of_text :: "nat list \<Rightarrow> string \<Rightarrow> nat option" where
  "id_of_text ids s = find (\<lambda>i. id_text i = s) ids"

definition technician_ids :: "maint_db \<Rightarrow> nat list" where
  "technician_ids d = [0..<length (md_technicians d)]"

definition item_of :: "nat \<Rightarrow> int \<Rightarrow> maint_db \<Rightarrow> nat \<Rightarrow> assignment \<Rightarrow> schedule_item" where
  "item_of schedule horizon_start d i a =
     \<lparr>it_schedule = schedule, it_order = i,
      it_technician = Option.bind (as_technician a) (id_of_text (technician_ids d)),
      it_starts = slot_time horizon_start (as_start a), it_ends = slot_time horizon_start (as_end a),
      it_risk = Some (as_risk a), it_energy = Some (as_energy a), it_manual = False\<rparr>"

definition plan_order :: "schedule_item \<Rightarrow> work_order \<Rightarrow> work_order" where
  "plan_order it r =
     r\<lparr>wo_planned_start := Some (it_starts it), wo_planned_end := Some (it_ends it), wo_technician := it_technician it,
       wo_risk := it_risk it, wo_status := (if wo_status r = Order_Open then Scheduled else wo_status r)\<rparr>"

text \<open>The loop over the assignments: one item each, and the order updated.\<close>

fun place :: "nat \<Rightarrow> int \<Rightarrow> nat list \<Rightarrow> assignment list \<Rightarrow> maint_db \<Rightarrow> maint_db" where
  "place schedule horizon_start ids [] d = d"
| "place schedule horizon_start ids (a # as) d =
     (case id_of_text ids (as_order a) of
        None \<Rightarrow> place schedule horizon_start ids as d
      | Some i \<Rightarrow>
          (let it = item_of schedule horizon_start d i a
           in place schedule horizon_start ids as
                (put_order i (plan_order it (md_orders d ! i)) (d\<lparr>md_items := md_items d @ [it]\<rparr>))))"

definition activate :: "nat \<Rightarrow> maint_db \<Rightarrow> maint_db" where
  "activate k d = d\<lparr>md_schedules := map (\<lambda>(j, s). s\<lparr>sh_active := (j = k)\<rparr>) (enumerate 0 (md_schedules d))\<rparr>"

definition optimise :: "solver \<Rightarrow> plan_inputs \<Rightarrow> int \<Rightarrow> optimise_request \<Rightarrow> maint_db \<Rightarrow> solve_result \<times> maint_db" where
  "optimise S X now q d =
     (let orders = schedulable_orders (or_assets q) d;
          n = nat (slot_count (or_start q) (or_end q));
          r = solve S (map (order_input_of X d (or_start q) n now) orders)
                (map (technician_input_of d (or_start q) n) (enumerate 0 (md_technicians d))) n
                (tariff_per_slot X (or_start q) n) (or_weights q);
          k = length (md_schedules d);
          d1 = d\<lparr>md_schedules := md_schedules d @ [\<lparr>sh_horizon_start = or_start q, sh_horizon_end = or_end q,
                   sh_solver_status = sr_status r, sh_cost = sr_objective r, sh_active = False\<rparr>]\<rparr>;
          d2 = place k (or_start q) (map fst orders) (sr_assignments r) d1;
          d3 = (if or_activate q \<and> sr_assignments r \<noteq> [] then activate k d2 else d2)
      in (r, audit ''schedules'' k ''optimise'' d3))"

section \<open>Moving an item by hand\<close>

record item_patch =
  ip_starts :: "int option"
  ip_ends :: "int option"
  ip_technician :: "nat option"

definition slot_of :: "int \<Rightarrow> int \<Rightarrow> int" where
  "slot_of at0 horizon_start = (at0 - horizon_start) div (SLOT_MINUTES * 60)"

definition items_of :: "maint_db \<Rightarrow> nat \<Rightarrow> schedule_item list" where
  "items_of d k = sort_key it_starts (filter (\<lambda>it. it_schedule it = k) (md_items d))"

definition item_assignment :: "int \<Rightarrow> schedule_item \<Rightarrow> assignment" where
  "item_assignment horizon_start it =
     \<lparr>as_order = id_text (it_order it), as_technician = map_option id_text (it_technician it),
      as_start = slot_of (it_starts it) horizon_start, as_end = slot_of (it_ends it) horizon_start,
      as_risk = or_else (it_risk it) 0, as_energy = or_else (it_energy it) 0\<rparr>"

definition conflict_orders :: "maint_db \<Rightarrow> schedule_item list \<Rightarrow> string \<Rightarrow> order_input option" where
  "conflict_orders d its =
     map_of (rev (map (\<lambda>it. (id_text (it_order it),
       (let r = md_orders d ! it_order it in
        \<lparr>oi_id = id_text (it_order it), oi_asset = id_text (wo_asset r),
         oi_line = (case row (md_assets d) (wo_asset r) of Some a \<Rightarrow> id_text (ar_line a) | None \<Rightarrow> []),
         oi_duration_min = or_else (wo_est_duration r) DEFAULT_DURATION_MIN, oi_priority = wo_priority r, oi_skills = [],
         oi_downtime_cost = 0, oi_failure_cost = 0, oi_risk = [], oi_energy_kw = 0\<rparr>)))
       (filter (\<lambda>it. row (md_orders d) (it_order it) \<noteq> None) its)))"

definition schedule_conflicts :: "maint_db \<Rightarrow> schedule_row \<Rightarrow> schedule_item list \<Rightarrow> (string \<times> string \<times> conflict_kind) list" where
  "schedule_conflicts d sh its = conflicts (map (item_assignment (sh_horizon_start sh)) its) (conflict_orders d its)"

definition moved_item :: "plan_inputs \<Rightarrow> int \<Rightarrow> maint_db \<Rightarrow> item_patch \<Rightarrow> int \<Rightarrow> int \<Rightarrow> schedule_item \<Rightarrow> schedule_item" where
  "moved_item X now d p starts ends it =
     it\<lparr>it_starts := starts, it_ends := ends,
        it_technician := (case ip_technician p of Some t \<Rightarrow> Some t | None \<Rightarrow> it_technician it), it_manual := True,
        it_risk := (case row (md_orders d) (it_order it) of
                      Some r \<Rightarrow> Some (risk_for X now (wo_asset r) starts) | None \<Rightarrow> it_risk it)\<rparr>"

definition move_order :: "schedule_item \<Rightarrow> work_order \<Rightarrow> work_order" where
  "move_order it r =
     r\<lparr>wo_planned_start := Some (it_starts it), wo_planned_end := Some (it_ends it), wo_technician := it_technician it,
       wo_risk := it_risk it\<rparr>"

definition patch_item ::
    "plan_inputs \<Rightarrow> int \<Rightarrow> nat \<Rightarrow> nat \<Rightarrow> item_patch \<Rightarrow> maint_db
       \<Rightarrow> maint_error + (string \<times> string \<times> conflict_kind) list \<times> maint_db" where
  "patch_item X now k i p d =
     rbind (get_or_404 ''Schedule'' (md_schedules d) k) (\<lambda>sh.
       case row (md_items d) i of
         None \<Rightarrow> Inl (Missing ''Schedule item'' i)
       | Some it \<Rightarrow>
           if it_schedule it \<noteq> k then Inl (Missing ''Schedule item'' i)
           else
             (let starts = (case ip_starts p of Some t \<Rightarrow> t | None \<Rightarrow> it_starts it);
                  ends = (case (ip_starts p, ip_ends p) of
                            (_, Some t) \<Rightarrow> t
                          | (Some _, None) \<Rightarrow> starts + (it_ends it - it_starts it)
                          | (None, None) \<Rightarrow> it_ends it)
              in if ends \<le> starts then Inl Not_Ordered
                 else if \<not> (sh_horizon_start sh \<le> starts \<and> ends \<le> sh_horizon_end sh) then Inl Outside_Horizon
                 else if (case ip_technician p of Some t \<Rightarrow> row (md_technicians d) t = None | None \<Rightarrow> False)
                      then Inl (Missing ''Technician'' (the (ip_technician p)))
                 else
                   (let it' = moved_item X now d p starts ends it;
                        d1 = d\<lparr>md_items := (md_items d)[i := it']\<rparr>;
                        d2 = (case row (md_orders d) (it_order it) of
                                Some r \<Rightarrow> put_order (it_order it) (move_order it' r) d1 | None \<Rightarrow> d1);
                        d3 = audit ''schedule_items'' i ''adjust'' d2
                    in Inr (schedule_conflicts d3 sh (items_of d3 k), d3))))"

section \<open>What a computed schedule promises\<close>

fun nat_value :: "nat \<Rightarrow> string \<Rightarrow> nat" where
  "nat_value acc [] = acc"
| "nat_value acc (c # cs) = nat_value (10 * acc + (of_char c - 48)) cs"

lemma nat_value_append: "nat_value acc (xs @ ys) = nat_value (nat_value acc xs) ys"
  by (induction xs arbitrary: acc) auto

lemma nat_value_str: "nat_value 0 (nat_str n) = n"
proof (induction n rule: nat_str.induct)
  case (1 n)
  show ?case
  proof (cases "n < 10")
    case True
    then show ?thesis by (subst nat_str.simps) simp
  next
    case False
    with 1 show ?thesis by (subst nat_str.simps) (simp add: nat_value_append)
  qed
qed

lemma id_text_inj [simp]: "id_text i = id_text j \<longleftrightarrow> i = j"
  unfolding id_text_def by (metis nat_value_str)

lemma id_of_text_found: "i \<in> set ids \<Longrightarrow> id_of_text ids (id_text i) = Some i"
  unfolding id_of_text_def by (induction ids) auto

text \<open>The closed form of the two marking loops: an available window, and no other kind, at the slot's start.\<close>

definition works :: "maint_db \<Rightarrow> int \<Rightarrow> nat \<Rightarrow> nat \<Rightarrow> nat \<Rightarrow> bool" where
  "works d horizon_start n t slot \<longleftrightarrow>
     (let ws = windows_of d t horizon_start (slot_time horizon_start (int n)) in
      ws = [] \<or> (\<exists>w \<in> set ws. aw_kind w = ''available'' \<and> covers_slot horizon_start w slot)
        \<and> \<not> (\<exists>w \<in> set ws. aw_kind w \<noteq> ''available'' \<and> covers_slot horizon_start w slot))"

lemma mark_windows:
  "length (foldl (mark_window hs v) slots ws) = length slots \<and>
   (i < length slots \<longrightarrow> foldl (mark_window hs v) slots ws ! i = (if \<exists>w \<in> set ws. covers_slot hs w i then v else slots ! i))"
proof (induction ws arbitrary: slots)
  case Nil
  then show ?case by simp
next
  case (Cons w ws)
  have "length (mark_window hs v slots w) = length slots" by (simp add: mark_window_def)
  moreover have "i < length slots \<Longrightarrow> mark_window hs v slots w ! i = (if covers_slot hs w i then v else slots ! i)"
    by (simp add: mark_window_def nth_enumerate_eq)
  ultimately show ?case using Cons.IH [of "mark_window hs v slots w"] by auto
qed

lemma slots_of_nth:
  "slot < n \<Longrightarrow> slots_of hs n ws ! slot \<longleftrightarrow>
     (\<exists>w \<in> set ws. aw_kind w = ''available'' \<and> covers_slot hs w slot)
     \<and> \<not> (\<exists>w \<in> set ws. aw_kind w \<noteq> ''available'' \<and> covers_slot hs w slot)"
  by (auto simp: slots_of_def mark_windows)

lemma slots_of_length: "length (slots_of hs n ws) = n"
  by (simp add: slots_of_def mark_windows)

lemma available_works:
  assumes "available (technician_input_of d hs n it) slot" and "slot < n"
  shows "works d hs n (fst it) slot"
proof -
  let ?ws = "windows_of d (fst it) hs (slot_time hs (int n))"
  have "slots_of hs n ?ws \<noteq> []" using slots_of_length [of hs n ?ws] assms(2) by force
  with assms show ?thesis
    by (auto simp: available_def technician_input_of_def works_def Let_def slots_of_length slots_of_nth split: if_splits)
qed

text \<open>A slot counts as free when its start is: leave that begins a minute later does not block it.\<close>

lemma leave_mid_slot:
  "slots_of 0 2 [\<lparr>aw_technician = 0, aw_starts = 0, aw_ends = 1800, aw_kind = ''available''\<rparr>,
                 \<lparr>aw_technician = 0, aw_starts = 60, aw_ends = 1800, aw_kind = ''leave''\<rparr>] = [True, False]"
  by code_simp

text \<open>A horizon shorter than one slot still has a slot, which ends after it.\<close>

lemma short_horizon: "slot_time 0 (slot_count 0 600) = 900"
  by (simp add: slot_time_def slot_count_def SLOT_MINUTES_def)

lemma slot_count_fits:
  assumes "hs + 900 \<le> he"
  shows "slot_time hs (slot_count hs he) \<le> he" and "0 \<le> slot_count hs he"
proof -
  have "900 div 900 \<le> (he - hs) div (900 :: int)" using assms by (intro zdiv_mono1) simp_all
  then have c: "slot_count hs he = (he - hs) div 900" by (simp add: slot_count_def SLOT_MINUTES_def)
  have "900 * ((he - hs) div 900) \<le> he - hs"
    using mult_div_mod_eq [of 900 "he - hs"] pos_mod_sign [of 900 "he - hs"] by linarith
  then show "slot_time hs (slot_count hs he) \<le> he" by (simp add: c slot_time_def SLOT_MINUTES_def)
  show "0 \<le> slot_count hs he" by (simp add: slot_count_def)
qed

lemma slot_time_mono: "slot_time hs a \<le> slot_time hs b \<longleftrightarrow> a \<le> b" "slot_time hs a < slot_time hs b \<longleftrightarrow> a < b"
  by (simp_all add: slot_time_def SLOT_MINUTES_def)

lemma slot_time_0 [simp]: "slot_time hs 0 = hs"
  by (simp add: slot_time_def)

text \<open>What the placing loop does, for assignments of known orders.\<close>

lemma place_frame:
  "md_technicians (place k hs ids as d) = md_technicians d \<and> md_assets (place k hs ids as d) = md_assets d
   \<and> length (md_orders (place k hs ids as d)) = length (md_orders d)
   \<and> (\<forall>i. i \<notin> set ids \<longrightarrow> md_orders (place k hs ids as d) ! i = md_orders d ! i)"
proof (induction as arbitrary: d)
  case Nil
  then show ?case by simp
next
  case (Cons a as)
  show ?case
  proof (cases "id_of_text ids (as_order a)")
    case None
    with Cons show ?thesis by simp
  next
    case (Some i)
    then have "i \<in> set ids" by (auto simp: id_of_text_def find_Some_iff)
    then have "j \<notin> set ids \<Longrightarrow> (md_orders d)[i := x] ! j = md_orders d ! j" for j x by (cases "j = i") auto
    with Cons Some show ?thesis by (simp add: Let_def) (simp add: put_order_def)
  qed
qed

lemma place_items:
  assumes "\<forall>a \<in> set as. \<exists>i \<in> set ids. as_order a = id_text i"
  shows "md_items (place k hs ids as d) =
    md_items d @ map (\<lambda>a. item_of k hs d (the (id_of_text ids (as_order a))) a) as"
  using assms
proof (induction as arbitrary: d)
  case Nil
  then show ?case by simp
next
  case (Cons a as)
  then obtain i where i: "i \<in> set ids" "as_order a = id_text i" by auto
  let ?d = "put_order i (plan_order (item_of k hs d i a) (md_orders d ! i)) (d\<lparr>md_items := md_items d @ [item_of k hs d i a]\<rparr>)"
  have "item_of k hs ?d = item_of k hs d" by (auto simp: item_of_def put_order_def technician_ids_def fun_eq_iff)
  then show ?case
    using Cons id_of_text_found [OF i(1)] by (simp add: i(2) Let_def) (simp add: put_order_def)
qed

section \<open>Computed schedules are sound\<close>

definition order_line :: "maint_db \<Rightarrow> nat \<Rightarrow> string" where
  "order_line d i =
     (case row (md_assets d) (wo_asset (md_orders d ! i)) of
        Some a \<Rightarrow> id_text (ar_line a) | None \<Rightarrow> id_text (wo_asset (md_orders d ! i)))"

text \<open>An item a planner can rely on: inside the horizon, with a technician who works every slot of it.\<close>

definition item_sound :: "optimise_request \<Rightarrow> maint_db \<Rightarrow> nat \<Rightarrow> schedule_item \<Rightarrow> bool" where
  "item_sound q d n it \<longleftrightarrow>
     it_order it < length (md_orders d) \<and> wo_status (md_orders d ! it_order it) \<in> {Order_Open, Scheduled}
     \<and> or_start q \<le> it_starts it \<and> it_starts it < it_ends it \<and> it_ends it \<le> or_end q
     \<and> (\<exists>t < length (md_technicians d). it_technician it = Some t
          \<and> (\<forall>slot. it_starts it \<le> slot_time (or_start q) (int slot) \<and> slot_time (or_start q) (int slot) < it_ends it
               \<longrightarrow> works d (or_start q) n t slot))"

definition items_apart :: "maint_db \<Rightarrow> schedule_item \<Rightarrow> schedule_item \<Rightarrow> bool" where
  "items_apart d a b \<longleftrightarrow>
     it_technician a = it_technician b \<or> order_line d (it_order a) = order_line d (it_order b) \<longrightarrow>
       it_ends a \<le> it_starts b \<or> it_ends b \<le> it_starts a"

lemma schedulable_orders_iff:
  "(i, r) \<in> set (schedulable_orders only d) \<longleftrightarrow>
     i < length (md_orders d) \<and> r = md_orders d ! i \<and> wo_status r \<in> {Order_Open, Scheduled}
     \<and> (only \<noteq> [] \<longrightarrow> wo_asset r \<in> set only)"
  by (auto simp: schedulable_orders_def in_set_enumerate_eq)

lemma distinct_fst_sort: "distinct (map fst xs) \<Longrightarrow> distinct (map fst (sort_key k xs))"
  by (metis distinct_map inj_on_def mset_eq_imp_distinct_iff mset_sort set_sort)

lemma schedulable_orders_ids: "distinct (map oi_id (map (order_input_of X d hs n now) (schedulable_orders only d)))"
proof -
  have "distinct (map fst (schedulable_orders only d))"
    unfolding schedulable_orders_def by (intro distinct_fst_sort distinct_map_filter) simp
  then have "distinct (map id_text (map fst (schedulable_orders only d)))"
    by (subst distinct_map) (simp add: inj_on_def)
  then show ?thesis by (simp add: comp_def order_input_of_def Let_def)
qed

lemma technician_input_ids: "distinct (map ti_id (map (technician_input_of d hs n) (enumerate 0 (md_technicians d))))"
  by (auto simp: distinct_map inj_on_def in_set_enumerate_eq technician_input_of_def Let_def)

text \<open>An assignment of a valid plan becomes a sound item.\<close>

lemma assignment_item:
  assumes hor: "or_start q + 900 \<le> or_end q" and n: "n = nat (slot_count (or_start q) (or_end q))"
    and a: "runs_ok n (map (technician_input_of d (or_start q) n) (enumerate 0 (md_technicians d)))
      (map (order_input_of X d (or_start q) n now) (schedulable_orders (or_assets q) d)) a"
  shows "\<exists>i r. (i, r) \<in> set (schedulable_orders (or_assets q) d) \<and> as_order a = id_text i
    \<and> item_sound q d n (item_of k (or_start q) d i a)
    \<and> (\<exists>t. as_technician a = Some (id_text t) \<and> it_technician (item_of k (or_start q) d i a) = Some t)"
proof -
  from a obtain i r t tr where ir: "(i, r) \<in> set (schedulable_orders (or_assets q) d)" "as_order a = id_text i"
    and tt: "(t, tr) \<in> set (enumerate 0 (md_technicians d))" "as_technician a = Some (id_text t)"
    and times: "0 \<le> as_start a" "as_end a \<le> int n" "as_start a < as_end a"
    and free: "\<And>slot. as_start a \<le> int slot \<Longrightarrow> int slot < as_end a \<Longrightarrow>
      available (technician_input_of d (or_start q) n (t, tr)) slot"
    using duration_pos by (auto simp: runs_ok_def order_input_of_def Let_def) (auto simp: technician_input_of_def Let_def)
  have t: "t < length (md_technicians d)" using tt(1) by (simp add: in_set_enumerate_eq)
  then have tech: "it_technician (item_of k (or_start q) d i a) = Some t"
    using id_of_text_found [of t "technician_ids d"] by (simp add: item_of_def tt(2) technician_ids_def)
  have "works d (or_start q) n t slot"
    if "slot_time (or_start q) (as_start a) \<le> slot_time (or_start q) (int slot)"
      "slot_time (or_start q) (int slot) < slot_time (or_start q) (as_end a)" for slot
    using available_works [OF free, of slot] that times(2) by (simp add: slot_time_mono)
  moreover have "slot_time (or_start q) (as_end a) \<le> or_end q"
    using slot_time_mono(1) [of "or_start q" "as_end a" "slot_count (or_start q) (or_end q)"] times(2) n
      slot_count_fits [OF hor] by simp
  moreover have "or_start q \<le> slot_time (or_start q) (as_start a)"
    using times(1) by (simp add: slot_time_def SLOT_MINUTES_def)
  moreover have "i < length (md_orders d)" "wo_status (md_orders d ! i) \<in> {Order_Open, Scheduled}"
    using ir(1) by (auto simp: schedulable_orders_iff)
  ultimately have "item_sound q d n (item_of k (or_start q) d i a)"
    using t tech times(3) by (simp add: item_sound_def) (simp add: item_of_def slot_time_mono)
  with ir tt(2) tech show ?thesis by blast
qed

lemma activate_only: "k < length (md_schedules d) \<Longrightarrow>
    map sh_active (md_schedules (activate k d)) = map (\<lambda>j. j = k) [0..<length (md_schedules d)]"
  by (rule nth_equalityI) (simp_all add: activate_def nth_enumerate_eq split_beta)

lemma place_schedules: "md_schedules (place k hs ids as d) = md_schedules d"
  by (induction as arbitrary: d) (simp_all add: put_order_def Let_def split: option.split)

lemma item_of_time [simp]:
  "it_order (item_of k hs d i a) = i" "it_starts (item_of k hs d i a) = slot_time hs (as_start a)"
  "it_ends (item_of k hs d i a) = slot_time hs (as_end a)"
  by (simp_all add: item_of_def)

text \<open>Two assignments the plan keeps apart give items that are apart.\<close>

lemma compatible_items_apart:
  assumes keys: "distinct (map oi_id (map (order_input_of X d hs n now) (schedulable_orders as' d)))"
    and i: "(i, x) \<in> set (schedulable_orders as' d)" "as_order a = id_text i"
      "as_technician a = Some (id_text t)" "it_technician (item_of k hs d i a) = Some t"
    and j: "(j, y) \<in> set (schedulable_orders as' d)" "as_order b = id_text j"
      "as_technician b = Some (id_text u)" "it_technician (item_of k hs d j b) = Some u"
    and "compatible (map (order_input_of X d hs n now) (schedulable_orders as' d)) a b"
  shows "items_apart d (item_of k hs d i a) (item_of k hs d j b)"
proof -
  let ?rs = "map (order_input_of X d hs n now) (schedulable_orders as' d)"
  have line: "line_of_order ?rs (id_text l) = Some (order_line d l)" if "(l, z) \<in> set (schedulable_orders as' d)" for l z
  proof -
    let ?x = "order_input_of X d hs n now (l, z)"
    have "line_of_order ?rs (oi_id ?x) = Some (oi_line ?x)"
      using that by (intro line_of_orderI [OF keys]) auto
    moreover have "z = md_orders d ! l" using that by (simp add: schedulable_orders_iff)
    ultimately show ?thesis by (simp add: order_input_of_def Let_def order_line_def)
  qed
  have "as_end a \<le> as_start b \<or> as_end b \<le> as_start a"
    if "it_technician (item_of k hs d i a) = it_technician (item_of k hs d j b) \<or> order_line d i = order_line d j"
    using assms(10) that i(2-) j(2-) line [OF i(1)] line [OF j(1)] by (auto simp: compatible_def apart_def)
  then show ?thesis by (simp add: items_apart_def slot_time_mono)
qed

text \<open>What a run leaves alone, and which schedule it leaves active.\<close>

lemma placed_orders_frame:
  assumes "wo_status (md_orders d ! i) \<notin> {Order_Open, Scheduled}" and "md_orders d1 = md_orders d"
  shows "md_orders (place k hs (map fst (schedulable_orders as' d)) as d1) ! i = md_orders d ! i"
proof -
  have "i \<notin> set (map fst (schedulable_orders as' d))" using assms(1) by (auto simp: schedulable_orders_iff)
  then show ?thesis using place_frame [of k hs "map fst (schedulable_orders as' d)" as d1] assms(2) by simp
qed

lemma activated_only:
  assumes "length (md_schedules d2) = Suc k"
  shows "map sh_active (md_schedules (activate k d2)) = map (\<lambda>j. j = k) [0..<Suc k]"
  using activate_only [of k d2] assms by simp


section \<open>Witness\<close>

definition unit_valuation :: valuation where
  "unit_valuation x = (case x of Start i \<Rightarrow> 0 | Assigned i t \<Rightarrow> 1 | Starts_At i k \<Rightarrow> 1)"

definition unit_solver :: solver where
  "unit_solver m = (if satisfies unit_valuation m then FEASIBLE else UNKNOWN, unit_valuation)"

lemma unit_solver_sound: "solver_sound unit_solver"
  by (simp add: solver_sound_def unit_solver_def)

lemma unit_satisfies:
  assumes "duration r = 1" and "oi_skills r = []" and "ti_slots t = []"
  shows "satisfies unit_valuation (build_model [r] [t] 1 p w)"
proof -
  have e: "eligible [t] r = [t]" "startable 1 r" "start_slots 1 r = [0]"
    using assms by (simp_all add: eligible_def can_do_def startable_def start_slots_def)
  then have s: "schedulable 1 [t] [r] = [r]" by (simp add: schedulable_def assignable_def)
  have "free_from t r 0" using assms by (simp add: free_from_def available_def)
  then show ?thesis
    by (simp add: satisfies_def build_model_def order_constraints_def technician_constraints_def overlap_constraints_def
        technician_intervals_def line_intervals_def indicator_constraints_def e s assms(1) unit_valuation_def del: One_nat_def)
qed

definition demo_request :: optimise_request where
  "demo_request = \<lparr>or_start = 0, or_end = 900, or_weights = demo_weights, or_assets = [], or_activate = True\<rparr>"

definition demo_work_order :: work_order where
  "demo_work_order = new_order \<lparr>oc_asset = 0, oc_component = None, oc_kind = Corrective, oc_priority = 3,
     oc_title = ''Replace belt'', oc_description = None, oc_failure_mode = None, oc_prediction = None,
     oc_planned_start = None, oc_planned_end = None, oc_technician = None, oc_est_duration = Some 10,
     oc_est_cost = None, oc_via = Via_UI, oc_tasks = []\<rparr>"

definition demo_maint :: maint_db where
  "demo_maint = \<lparr>md_assets = [\<lparr>ar_code = ''conveyor-01'', ar_type = ''conveyor'', ar_line = 0, ar_power_kw = None\<rparr>],
     md_technicians = [\<lparr>tr_code = ''t1'', tr_name = ''Asha'', tr_skills = [], tr_hourly_cost = None\<rparr>],
     md_windows = [], md_orders = [demo_work_order], md_tasks = [], md_schedules = [], md_items = [], md_audits = []\<rparr>"

definition demo_inputs :: plan_inputs where
  "demo_inputs = \<lparr>px_rul = (\<lambda>_. None), px_tariffs = [], px_local = (\<lambda>_. (0, 0))\<rparr>"

lemma demo_optimised:
  "sr_status (fst (optimise unit_solver demo_inputs 0 demo_request demo_maint)) = FEASIBLE"
proof -
  let ?r = "order_input_of demo_inputs demo_maint 0 1 0 (0, demo_work_order)"
    and ?t = "technician_input_of demo_maint 0 1 (0, md_technicians demo_maint ! 0)"
  have r: "duration ?r = 1" "oi_skills ?r = []"
    by (simp_all add: order_input_of_def demo_work_order_def new_order_def or_else_def duration_def SLOT_MINUTES_def Let_def)
  have t: "ti_slots ?t = []"
    by (simp add: technician_input_of_def demo_maint_def windows_of_def)
  have "schedulable_orders [] demo_maint = [(0, demo_work_order)]"
    by (simp add: schedulable_orders_def demo_maint_def demo_work_order_def new_order_def)
  moreover have "nat (slot_count 0 900) = 1" by (simp add: slot_count_def SLOT_MINUTES_def)
  moreover have "enumerate 0 (md_technicians demo_maint) = [(0, md_technicians demo_maint ! 0)]"
    by (simp add: demo_maint_def)
  ultimately show ?thesis
    using unit_satisfies [OF r t]
    by (simp add: optimise_def demo_request_def Let_def solve_def unit_solver_def)
qed


end
