(* ===== verification/Maint_Closure.thy ===== *)
theory Maint_Closure
  imports Maint_Schedules Sim_Commands
begin

text \<open>
  Closing a work order: \<open>WorkOrderService.close_order\<close>, the command gateway of
  \<open>apps/api/app/modules/twin/commands.py\<close>, and the simulator's command channel at the other end of the broker.
  What the broker does with one command is a parameter. JSON is passed as the value it encodes.
\<close>

section \<open>The command gateway\<close>

text \<open>Connected to the broker, publish accepted, command delivered, acknowledgement in time.\<close>

record link =
  ln_connected :: bool
  ln_published :: bool
  ln_delivered :: bool
  ln_answered :: bool

definition command_payload :: "string \<Rightarrow> (string \<times> json) list \<Rightarrow> string \<Rightarrow> string \<Rightarrow> json" where
  "command_payload cid params issued_by tier =
     J_Obj [(''command_id'', J_Str cid), (''params'', J_Obj params), (''issued_by'', J_Str issued_by), (''tier'', J_Str tier)]"

definition command_topic :: "string \<Rightarrow> string \<Rightarrow> string" where
  "command_topic code command = ''twinvoice/cmd/'' @ code @ ''/'' @ command"

definition gateway_execute ::
    "'g rng \<Rightarrow> link \<Rightarrow> string \<Rightarrow> string \<Rightarrow> string \<Rightarrow> (string \<times> json) list \<Rightarrow> string \<Rightarrow> string \<Rightarrow> 'g engine
       \<Rightarrow> (maint_error + ack option) \<times> 'g engine" where
  "gateway_execute R l cid code command params issued_by tier e =
     (if \<not> ln_connected l then (Inl Gateway_Down, e)
      else if \<not> ln_published l then (Inl Gateway_Down, e)
      else if \<not> ln_delivered l then (Inr None, e)
      else (case on_message R (command_topic code command) (Some (command_payload cid params issued_by tier)) e of
              None \<Rightarrow> (Inr None, e)
            | Some (None, e') \<Rightarrow> (Inr None, e')
            | Some (Some (topic, a), e') \<Rightarrow> (Inr (if ln_answered l then Some a else None), e')))"

section \<open>Closing\<close>

record order_close =
  oz_outcome :: string
  oz_actual_start :: "int option"
  oz_actual_end :: "int option"
  oz_correct :: "bool option"
  oz_reset_damage :: bool

definition closed_order :: "int \<Rightarrow> order_close \<Rightarrow> work_order \<Rightarrow> work_order" where
  "closed_order now c r =
     r\<lparr>wo_status := Order_Closed, wo_outcome := Some (oz_outcome c),
       wo_actual_start := Some (case oz_actual_start c of Some t \<Rightarrow> t | None \<Rightarrow>
         (case wo_actual_start r of Some t \<Rightarrow> t | None \<Rightarrow> (case wo_planned_start r of Some t \<Rightarrow> t | None \<Rightarrow> now))),
       wo_actual_end := Some (case oz_actual_end c of Some t \<Rightarrow> t | None \<Rightarrow> now), wo_correct := oz_correct c\<rparr>"

definition reset_damage ::
    "'g rng \<Rightarrow> link \<Rightarrow> string \<Rightarrow> string \<Rightarrow> string \<Rightarrow> work_order \<Rightarrow> 'g engine \<Rightarrow> (maint_error + unit) \<times> 'g engine" where
  "reset_damage R l cid actor code r e =
     (case gateway_execute R l cid code ''maintenance_reset''
             [(''component_id'', case wo_component r of Some k \<Rightarrow> J_Str (id_text k) | None \<Rightarrow> J_Null)] actor ''T3'' e of
        (Inl err, e') \<Rightarrow> (Inl err, e')
      | (Inr None, e') \<Rightarrow> (Inr (), e')
      | (Inr (Some a), e') \<Rightarrow> (if ack_status a \<noteq> ''accepted'' then Inl Rejected_Reset else Inr (), e'))"

definition close_order ::
    "'g rng \<Rightarrow> link \<Rightarrow> string \<Rightarrow> string \<Rightarrow> int \<Rightarrow> nat \<Rightarrow> order_close \<Rightarrow> maint_db \<times> 'g engine
       \<Rightarrow> (maint_error + maint_db) \<times> 'g engine" where
  "close_order R l cid actor now i c de =
     (case de of (d, e) \<Rightarrow>
      case get_or_404 ''Work order'' (md_orders d) i of
        Inl err \<Rightarrow> (Inl err, e)
      | Inr r \<Rightarrow>
          if wo_status r = Order_Closed then (Inl (Conflict_Error Order_Closed), e)
          else if wo_status r = Cancelled then (Inl (Conflict_Error Cancelled), e)
          else
            (let r' = closed_order now c r;
                 (reset, e') = (case (oz_reset_damage c, row (md_assets d) (wo_asset r)) of
                     (True, Some a) \<Rightarrow> reset_damage R l cid actor (ar_code a) r' e
                   | _ \<Rightarrow> (Inr (), e))
             in (case reset of
                   Inl err \<Rightarrow> (Inl err, e')
                 | Inr _ \<Rightarrow> (Inr (audit ''work_orders'' i ''close'' (put_order i r' d)), e'))))"

section \<open>What reaches the machine\<close>

lemma command_topic_parts:
  assumes "CHR ''/'' \<notin> set code" and "CHR ''/'' \<notin> set command"
  shows "split_on (CHR ''/'') (command_topic code command) = [''twinvoice'', ''cmd'', code, command]"
proof -
  have "command_topic code command = join_on (CHR ''/'') [''twinvoice'', ''cmd'', code, command]"
    by (simp add: command_topic_def)
  then show ?thesis using assms by (simp add: split_on_append)
qed

text \<open>Every component of the machine as new, and the machine in maintenance.\<close>

definition wholly_reset :: "'g engine \<Rightarrow> string \<Rightarrow> bool" where
  "wholly_reset e code \<longleftrightarrow>
     (\<exists>m. map_of (machines e) code = Some m \<and> op_state m = MAINTENANCE
        \<and> (\<forall>(k, c) \<in> set (components m). comp_damage c = 0))"

lemma full_reset:
  assumes "machine_ok m" and "reset R None m = Some (m', codes)"
  shows "op_state m' = MAINTENANCE \<and> (\<forall>(k, c) \<in> set (components m'). comp_damage c = 0)"
proof -
  note r = reset_spec [OF assms]
  have "comp_damage c = 0" if "(k, c) \<in> set (components m')" for k c
  proof -
    from that r obtain b where "(k, b) \<in> set (components m)"
      "c = (if k \<in> fst ` set (components m) then reset_component R b else b)" by (auto simp: reset_all_def)
    moreover from this have "comp_ok b"
      using assms(1) by (auto simp: machine_ok_def wear_ok_def comps_ok_def)
    ultimately show ?thesis using reset_component_ok(2) by force
  qed
  with r show ?thesis by blast
qed

lemma maintenance_reset_delivered:
  assumes ok: "engine_ok e" and m: "map_of (machines e) code = Some m" and code: "CHR ''/'' \<notin> set code"
    and cid: "cid \<noteq> []" and params: "get_key ''component_code'' params = J_Null" "params \<noteq> []"
  shows "\<exists>a e'. on_message R (command_topic code ''maintenance_reset'') (Some (command_payload cid params issued tier)) e
      = Some (Some (ack_topic code, a), e') \<and> ack_status a = ''accepted'' \<and> wholly_reset e' code"
proof -
  have mok: "machine_ok m" using ok m by (auto simp: engine_ok_def fleet_ok_def dest: map_of_SomeD)
  obtain m' codes where r: "reset R None m = Some (m', codes)" by (simp add: reset_def Let_def)
  let ?e1 = "record_log Info (Maintenance_Reset codes) (Some code) (put_machine code m' e)"
  have ex: "execute R code ''maintenance_reset'' params e = Inr ?e1"
    using m params(1) r by (simp add: execute_def get_machine_def reset_asset_def lift_error_def)
  have "handle_command R code ''maintenance_reset'' (Some (command_payload cid params issued tier)) e
      = Some (finish code ''maintenance_reset'' (J_Str cid) (J_Str issued) None ?e1)"
    using cid params(2) ex
    by (simp add: handle_command_def parse_def command_payload_def checked_params_def get_key_def Let_def)
  then obtain a e' where a: "on_message R (command_topic code ''maintenance_reset'')
      (Some (command_payload cid params issued tier)) e = Some (Some (ack_topic code, a), e')"
    "ack_status a = ''accepted''" "machines e' = machines ?e1"
    by (simp add: on_message_def command_topic_parts [OF code] finish_def record_log_def)
  then have "map_of (machines e') code = Some m'"
    by (simp add: record_log_def put_machine_def update_conv')
  with full_reset [OF mok r] have "wholly_reset e' code" by (auto simp: wholly_reset_def)
  with a show ?thesis by blast
qed

section \<open>What closing does\<close>


section \<open>The life of a work order\<close>

text \<open>Everything that writes work orders.\<close>

inductive order_step :: "maint_db \<Rightarrow> maint_db \<Rightarrow> bool" where
  os_create: "create_order c d = Inr (i, d') \<Longrightarrow> order_step d d'"
| os_update: "update_order i p d = Inr d' \<Longrightarrow> order_step d d'"
| os_close: "close_order R l cid actor now i c (d, e :: unit engine) = (Inr d', e') \<Longrightarrow> order_step d d'"
| os_predict: "raise_predictive_orders X now d = (k, d') \<Longrightarrow> order_step d d'"
| os_score: "order_step d (score_closed_orders now hours d)"
| os_optimise: "optimise S P now q d = (r, d') \<Longrightarrow> order_step d d'"
| os_patch_item: "patch_item P now k i ip d = Inr (cs, d') \<Longrightarrow> order_step d d'"

definition record_of :: "work_order \<Rightarrow> wo_status \<times> string option \<times> int option \<times> int option" where
  "record_of r = (wo_status r, wo_outcome r, wo_actual_start r, wo_actual_end r)"

text \<open>The orders of \<open>d\<close> are still there in \<open>d'\<close>, and a closed or cancelled one keeps its record.\<close>

definition keeps_terminal :: "maint_db \<Rightarrow> maint_db \<Rightarrow> bool" where
  "keeps_terminal d d' \<longleftrightarrow> length (md_orders d) \<le> length (md_orders d')
     \<and> (\<forall>i < length (md_orders d). wo_status (md_orders d ! i) \<in> set TERMINAL_STATUSES \<longrightarrow>
          record_of (md_orders d' ! i) = record_of (md_orders d ! i))"

lemma keeps_terminal_refl [simp]: "keeps_terminal d d"
  by (simp add: keeps_terminal_def)

lemma keeps_terminal_same: "md_orders d' = md_orders d \<Longrightarrow> keeps_terminal d d'"
  by (simp add: keeps_terminal_def)

lemma keeps_terminal_put:
  assumes "wo_status (md_orders d ! i) \<in> set TERMINAL_STATUSES \<Longrightarrow> record_of x = record_of (md_orders d ! i)"
    and "md_orders d' = (md_orders d)[i := x]"
  shows "keeps_terminal d d'"
proof -
  have "record_of ((md_orders d)[i := x] ! j) = record_of (md_orders d ! j)"
    if "j < length (md_orders d)" "wo_status (md_orders d ! j) \<in> set TERMINAL_STATUSES" for j
    using that assms(1) by (cases "j = i") auto
  then show ?thesis by (simp add: keeps_terminal_def assms(2))
qed

lemma keeps_terminal_trans:
  assumes "keeps_terminal d d'" "keeps_terminal d' d''"
  shows "keeps_terminal d d''"
proof -
  have "wo_status (md_orders d' ! i) = wo_status (md_orders d ! i)"
    if "record_of (md_orders d' ! i) = record_of (md_orders d ! i)" for i using that by (simp add: record_of_def)
  with assms show ?thesis unfolding keeps_terminal_def by (metis less_le_trans le_trans)
qed

lemma create_order_keeps: "create_order c d = Inr (i, d') \<Longrightarrow> keeps_terminal d d'"
  by (auto simp: create_order_def keeps_terminal_def Let_def audit_def nth_append split: option.splits if_splits)

lemma raise_for_asset_cases:
  "case raise_for_asset X now i d of Inl _ \<Rightarrow> True
   | Inr (b, d') \<Rightarrow> d' = d \<or> (\<exists>c k. create_order c d = Inr (k, d'))"
  unfolding raise_for_asset_def rbind_def Let_def by (simp split: option.split sum.split prod.split) blast

lemma raise_for_asset_keeps: "raise_for_asset X now i d = Inr (b, d') \<Longrightarrow> keeps_terminal d d'"
  using raise_for_asset_cases [where X = X and now = now and i = i and d = d] by (auto dest: create_order_keeps)

lemma raise_orders_keeps: "keeps_terminal d (snd (raise_orders X now is d))"
proof (induction "is" arbitrary: d)
  case Nil
  then show ?case by simp
next
  case (Cons i is')
  show ?case
  proof (cases "raise_for_asset X now i d")
    case (Inl x)
    with Cons show ?thesis by simp
  next
    case (Inr y)
    obtain b d1 where y: "y = (b, d1)" by force
    with Inr raise_for_asset_keeps have "keeps_terminal d d1" by blast
    with Cons [of d1] Inr y show ?thesis by (auto split: prod.split intro: keeps_terminal_trans)
  qed
qed

lemma place_keeps: "keeps_terminal d (place k hs ids as d)"
proof (induction as arbitrary: d)
  case Nil
  then show ?case by simp
next
  case (Cons a as)
  show ?case
  proof (cases "id_of_text ids (as_order a)")
    case None
    with Cons show ?thesis by simp
  next
    case (Some i)
    let ?it = "item_of k hs d i a"
    let ?d = "put_order i (plan_order ?it (md_orders d ! i)) (d\<lparr>md_items := md_items d @ [?it]\<rparr>)"
    have "keeps_terminal d ?d"
      by (rule keeps_terminal_put [of d i "plan_order ?it (md_orders d ! i)"])
        (auto simp: put_order_def plan_order_def record_of_def TERMINAL_STATUSES_def)
    with Cons [of ?d] Some show ?thesis by (auto simp: Let_def intro: keeps_terminal_trans)
  qed
qed

lemma keeps_terminal_frame [simp]:
  "keeps_terminal d (audit ent k what d') = keeps_terminal d d'"
  "keeps_terminal d (activate j d') = keeps_terminal d d'"
  by (simp_all add: keeps_terminal_def audit_def activate_def)

lemma optimise_keeps: "keeps_terminal d (snd (optimise S X now q d))"
proof -
  have "keeps_terminal d (place k hs ids as (d\<lparr>md_schedules := ss\<rparr>))" for k hs ids as ss
    using place_keeps [of "d\<lparr>md_schedules := ss\<rparr>" k hs ids as] by (simp add: keeps_terminal_def)
  then show ?thesis by (simp add: optimise_def Let_def)
qed

lemma patch_item_keeps:
  "case patch_item X now k i p d of Inl _ \<Rightarrow> True | Inr (cs, d') \<Rightarrow> keeps_terminal d d'"
proof -
  have moved: "keeps_terminal d (put_order j (move_order it r) (d\<lparr>md_items := xs\<rparr>))"
    if "row (md_orders d) j = Some r" for j it r xs
    using that by (intro keeps_terminal_put [of d j "move_order it r"])
      (auto simp: row_def put_order_def move_order_def record_of_def split: if_splits)
  have "keeps_terminal d (d\<lparr>md_items := xs\<rparr>)" for xs by (simp add: keeps_terminal_same)
  with moved show ?thesis
    unfolding patch_item_def rbind_def Let_def by (auto split: option.split sum.split prod.split)
qed

lemma order_step_keeps: "order_step d d' \<Longrightarrow> keeps_terminal d d'"
proof (induction rule: order_step.induct)
  case (os_create c d i d')
  then show ?case by (rule create_order_keeps)
next
  case (os_update i p d d')
  then obtain r where "row (md_orders d) i = Some r" "wo_status r \<notin> set TERMINAL_STATUSES"
    "md_orders d' = (md_orders d)[i := apply_patch p r]"
    by (auto simp: update_order_def res_simps get_or_404_def Let_def audit_def put_order_def split: if_splits option.splits)
  then show ?case
    by (intro keeps_terminal_put [of d i "apply_patch p r"]) (auto simp: row_def split: if_splits)
next
  case (os_close R l cid actor now i c d e d' e')
  then obtain r where "row (md_orders d) i = Some r" "wo_status r \<notin> set TERMINAL_STATUSES"
    "md_orders d' = (md_orders d)[i := closed_order now c r]"
    by (auto simp: close_order_def get_or_404_def Let_def audit_def put_order_def TERMINAL_STATUSES_def
        split: if_splits option.splits sum.splits prod.splits bool.splits)
  then show ?case
    by (intro keeps_terminal_put [of d i "closed_order now c r"]) (auto simp: row_def split: if_splits)
next
  case (os_predict X now d k d')
  then show ?case using raise_orders_keeps [of d X now] by (simp add: raise_predictive_orders_def) (metis snd_conv)
next
  case (os_score d now hours)
  then show ?case by (simp add: score_closed_orders_def keeps_terminal_def score_order_def record_of_def)
next
  case (os_optimise S P now q d r d')
  then show ?case using optimise_keeps [of d S P now q] by simp
next
  case (os_patch_item P now k i ip d cs d')
  then show ?case using patch_item_keeps [where X = P and now = now and k = k and i = i and p = ip and d = d] by simp
qed

text \<open>
  Over any sequence of requests and worker runs, a work order is never lost, and once closed
  or cancelled its status, outcome and actual times never change again.
\<close>

theorem terminal_orders_final:
  assumes "order_step\<^sup>*\<^sup>* d d'" and "i < length (md_orders d)" and "wo_status (md_orders d ! i) \<in> set TERMINAL_STATUSES"
  shows "i < length (md_orders d') \<and> record_of (md_orders d' ! i) = record_of (md_orders d ! i)"
proof -
  from assms(1) have "keeps_terminal d d'"
    by (induction rule: rtranclp_induct) (auto intro: keeps_terminal_trans order_step_keeps)
  with assms(2,3) show ?thesis by (simp add: keeps_terminal_def)
qed

text \<open>Its plan can: a planner's move of the item rewrites the planned times of a closed order.\<close>

lemma closed_order_moved:
  assumes "patch_item X now k i p d = Inr (cs, d')" and "row (md_items d) i = Some it"
    and "row (md_orders d) (it_order it) = Some r" and "ip_starts p = Some t"
  shows "wo_planned_start (md_orders d' ! it_order it) = Some t"
  using assms
  by (auto simp: patch_item_def res_simps Let_def put_order_def audit_def move_order_def moved_item_def row_def
      split: if_splits option.splits)

text \<open>And an update may close an order, with no outcome, no actual times and no reset.\<close>

lemma closed_by_update:
  assumes "row (md_orders d) i = Some r" and "wo_status r \<notin> set TERMINAL_STATUSES"
    and "p = \<lparr>op_priority = None, op_title = None, op_description = None, op_status = Some (Some Order_Closed),
      op_planned_start = None, op_planned_end = None, op_technician = None, op_est_duration = None, op_est_cost = None\<rparr>"
    and "wo_planned_start r = None"
  shows "\<exists>d'. update_order i p d = Inr d' \<and> md_orders d' ! i = r\<lparr>wo_status := Order_Closed\<rparr>"
  using assms
  by (simp add: update_order_def get_or_404_def pick_def nulls_def apply_patch_def pick_value_def put_order_def audit_def
      row_def split: if_splits)

section \<open>Witnesses\<close>

definition demo_link :: link where
  "demo_link = \<lparr>ln_connected = True, ln_published = True, ln_delivered = True, ln_answered = True\<rparr>"

definition demo_close :: order_close where
  "demo_close = \<lparr>oz_outcome = ''belt replaced'', oz_actual_start = None, oz_actual_end = None, oz_correct = None,
     oz_reset_damage = True\<rparr>"

text \<open>The order is for component 7 alone.\<close>

definition demo_component_order :: maint_db where
  "demo_component_order = demo_maint\<lparr>md_orders := [demo_work_order\<lparr>wo_component := Some 7\<rparr>]\<rparr>"


definition demo_closed :: maint_db where
  "demo_closed = demo_maint\<lparr>md_orders := [demo_work_order\<lparr>wo_status := Order_Closed, wo_outcome := Some ''done''\<rparr>]\<rparr>"

theorem terminal_orders_final_witness:
  "record_of (md_orders (score_closed_orders 900 24 demo_closed) ! 0) = (Order_Closed, Some ''done'', None, None)"
proof -
  have "order_step\<^sup>*\<^sup>* demo_closed (score_closed_orders 900 24 demo_closed)"
    by (rule r_into_rtranclp, rule os_score)
  moreover have "0 < length (md_orders demo_closed)" "wo_status (md_orders demo_closed ! 0) \<in> set TERMINAL_STATUSES"
    by (simp_all add: demo_closed_def TERMINAL_STATUSES_def)
  ultimately have "record_of (md_orders (score_closed_orders 900 24 demo_closed) ! 0) = record_of (md_orders demo_closed ! 0)"
    by (rule terminal_orders_final [THEN conjunct2])
  then show ?thesis
    by (simp add: demo_closed_def record_of_def demo_work_order_def new_order_def)
qed

end
