(* ===== verification/Kpi_Oee.thy ===== *)
theory Kpi_Oee
  imports Py_Numbers
begin

text \<open>
  OEE and reliability figures (\<open>apps/api/app/modules/analytics/oee.py\<close>): state-change events become
  durations clipped to a period, durations become availability, performance, quality, OEE, MTBF, MTTR
  and the Pareto of downtime causes. A time is in microseconds, a \<open>timedelta\<close>'s \<open>total_seconds\<close> the
  quotient by a million; floats are reals.
\<close>

section \<open>Records and state groups\<close>

definition RUNNING_STATES :: "string list" where "RUNNING_STATES = [''RUNNING'']"

definition UNPLANNED_STATES :: "string list" where "UNPLANNED_STATES = [''DOWN'', ''IDLE'', ''UNKNOWN'']"

datatype kpi_input = In_Real real | In_Int int | In_Text string | In_None

record kpi_result =
  kr_code :: string
  kr_value :: real
  kr_inputs :: "(string \<times> kpi_input) list"

record state_duration =
  sd_state :: string
  sd_seconds :: real
  sd_cause :: "string option"

type_synonym change = "int \<times> string \<times> string option"

abbreviation ch_at :: "change \<Rightarrow> int" where "ch_at \<equiv> fst"

section \<open>The figures\<close>

definition seconds_where :: "(state_duration \<Rightarrow> bool) \<Rightarrow> state_duration list \<Rightarrow> real" where
  "seconds_where P ds = sum_list (map sd_seconds (filter P ds))"

definition run_time :: "state_duration list \<Rightarrow> real" where
  "run_time = seconds_where (\<lambda>d. sd_state d \<in> set RUNNING_STATES)"

definition availability :: "state_duration list \<Rightarrow> kpi_result" where
  "availability ds =
     (let run = run_time ds;
          planned = seconds_where (\<lambda>d. sd_state d \<noteq> ''MAINTENANCE'') ds;
          v = (if 0 < planned then 100 * run / planned else 0)
      in \<lparr>kr_code = ''availability'', kr_value = round_dec 3 v,
          kr_inputs = [(''run_time_s'', In_Real (round_dec 1 run)), (''planned_time_s'', In_Real (round_dec 1 planned))]\<rparr>)"

definition ideal_input :: "real option \<Rightarrow> kpi_input" where
  "ideal_input c = (case c of None \<Rightarrow> In_None | Some x \<Rightarrow> In_Real x)"

definition performance :: "real \<Rightarrow> int \<Rightarrow> real option \<Rightarrow> kpi_result" where
  "performance run whole ideal =
     (if ideal = None \<or> ideal = Some 0 \<or> run \<le> 0 then
        \<lparr>kr_code = ''performance'', kr_value = 0,
         kr_inputs = [(''run_time_s'', In_Real (round_dec 1 run)), (''total_count'', In_Int whole),
           (''ideal_cycle_time_s'', ideal_input ideal),
           (''note'', In_Text (if ideal = None \<or> ideal = Some 0 then ''no ideal cycle time configured''
                               else ''no run time in period''))]\<rparr>
      else
        (let raw = 100 * (the ideal * of_int whole) / run in
         \<lparr>kr_code = ''performance'', kr_value = round_dec 3 (min raw 100),
          kr_inputs = [(''run_time_s'', In_Real (round_dec 1 run)), (''total_count'', In_Int whole),
            (''ideal_cycle_time_s'', ideal_input ideal), (''uncapped'', In_Real (round_dec 3 raw))]\<rparr>))"

definition quality :: "int \<Rightarrow> int \<Rightarrow> kpi_result" where
  "quality good whole =
     \<lparr>kr_code = ''quality'',
      kr_value = round_dec 3 (if 0 < whole then 100 * of_int good / of_int whole else 0),
      kr_inputs = [(''good_count'', In_Int good), (''total_count'', In_Int whole)]\<rparr>"

definition oee :: "real \<Rightarrow> real \<Rightarrow> real \<Rightarrow> kpi_result" where
  "oee a p q =
     \<lparr>kr_code = ''oee'', kr_value = round_dec 3 (a * p * q / 10000),
      kr_inputs = [(''availability'', In_Real a), (''performance'', In_Real p), (''quality'', In_Real q)]\<rparr>"

definition mtbf :: "real \<Rightarrow> int \<Rightarrow> kpi_result" where
  "mtbf run breakdowns =
     (if breakdowns \<le> 0 then
        \<lparr>kr_code = ''mtbf'', kr_value = round_dec 3 (run / 3600),
         kr_inputs = [(''run_time_s'', In_Real (round_dec 1 run)), (''breakdowns'', In_Int 0),
           (''note'', In_Text ''no breakdowns in period'')]\<rparr>
      else
        \<lparr>kr_code = ''mtbf'', kr_value = round_dec 3 (run / 3600 / of_int breakdowns),
         kr_inputs = [(''run_time_s'', In_Real (round_dec 1 run)), (''breakdowns'', In_Int breakdowns)]\<rparr>)"

definition mttr :: "real \<Rightarrow> int \<Rightarrow> kpi_result" where
  "mttr repair_time repairs =
     (if repairs \<le> 0 then
        \<lparr>kr_code = ''mttr'', kr_value = 0, kr_inputs = [(''repair_time_s'', In_Real 0), (''repairs'', In_Int 0)]\<rparr>
      else
        \<lparr>kr_code = ''mttr'', kr_value = round_dec 3 (repair_time / 3600 / of_int repairs),
         kr_inputs = [(''repair_time_s'', In_Real (round_dec 1 repair_time)), (''repairs'', In_Int repairs)]\<rparr>)"

section \<open>Downtime by cause\<close>

record pareto_row =
  pr_cause :: string
  pr_seconds :: real
  pr_share :: real
  pr_cumulative :: real

definition cause_name :: "state_duration \<Rightarrow> string" where
  "cause_name d = (case sd_cause d of None \<Rightarrow> ''unclassified'' | Some [] \<Rightarrow> ''unclassified'' | Some c \<Rightarrow> c)"

definition add_cause :: "state_duration \<Rightarrow> (string \<times> real) list \<Rightarrow> (string \<times> real) list" where
  "add_cause d acc =
     (if sd_state d \<notin> set UNPLANNED_STATES then acc
      else dict_put (cause_name d) (case_option 0 id (map_of acc (cause_name d)) + sd_seconds d) acc)"

definition by_cause :: "state_duration list \<Rightarrow> (string \<times> real) list" where
  "by_cause ds = fold add_cause ds []"

fun pareto_rows :: "real \<Rightarrow> real \<Rightarrow> (string \<times> real) list \<Rightarrow> pareto_row list" where
  "pareto_rows whole cum [] = []"
| "pareto_rows whole cum ((c, s) # rest) =
     (let cum' = cum + s in
      \<lparr>pr_cause = c, pr_seconds = round_dec 1 s,
       pr_share = (if whole \<noteq> 0 then round_dec 4 (s / whole) else 0),
       pr_cumulative = (if whole \<noteq> 0 then round_dec 4 (cum' / whole) else 0)\<rparr> # pareto_rows whole cum' rest)"

definition downtime_pareto :: "nat \<Rightarrow> state_duration list \<Rightarrow> pareto_row list" where
  "downtime_pareto top_n ds =
     (let causes = by_cause ds
      in pareto_rows (sum_list (map snd causes)) 0 (take top_n (sort_key (\<lambda>(c, s). - s) causes)))"

section \<open>Durations from events\<close>

definition hold_until :: "change list \<Rightarrow> int \<Rightarrow> int" where
  "hold_until later end' = min (case later of [] \<Rightarrow> end' | e # _ \<Rightarrow> ch_at e) end'"

fun spans :: "int \<Rightarrow> int \<Rightarrow> change list \<Rightarrow> state_duration list" where
  "spans start end' [] = []"
| "spans start end' ((t, st, c) # rest) =
     (let from = max t start;
          seconds = real_of_int (hold_until rest end' - from) / 10 ^ 6
      in (if 0 < seconds then [\<lparr>sd_state = st, sd_seconds = seconds, sd_cause = c\<rparr>] else [])
         @ spans start end' rest)"

definition durations_from_events :: "change list \<Rightarrow> int \<Rightarrow> int \<Rightarrow> state_duration list" where
  "durations_from_events events start end' = spans start end' (sort_key ch_at events)"

section \<open>The full set for one scope and period\<close>

definition compute_all ::
    "state_duration list \<Rightarrow> int \<Rightarrow> int \<Rightarrow> real option \<Rightarrow> int \<Rightarrow> real \<Rightarrow> int \<Rightarrow> kpi_result list" where
  "compute_all ds good reject ideal breakdowns repair_time repairs =
     (let whole = good + reject; run = run_time ds;
          a = availability ds; p = performance run whole ideal; q = quality good whole
      in [a, p, q, oee (kr_value a) (kr_value p) (kr_value q), mtbf run breakdowns, mttr repair_time repairs])"

section \<open>Durations account for the period\<close>

text \<open>
  The reference: the change in force at an instant is the last one among those with the latest time
  not after it. It names no order of the events.
\<close>

definition in_force :: "change list \<Rightarrow> int \<Rightarrow> change option" where
  "in_force events t =
     (let past = filter (\<lambda>e. ch_at e \<le> t) events in
      if past = [] then None
      else Some (last (filter (\<lambda>e. ch_at e = Max (set (map ch_at past))) events)))"

definition instants :: "change list \<Rightarrow> int \<Rightarrow> int \<Rightarrow> string \<Rightarrow> string option \<Rightarrow> int set" where
  "instants events start end' st c =
     {t. start \<le> t \<and> t < end' \<and> (\<exists>when. in_force events t = Some (when, st, c))}"

lemma in_force_sort: "in_force (sort_key ch_at events) t = in_force events t"
proof -
  have same: "set (filter (\<lambda>e. ch_at e \<le> t) (sort_key ch_at events)) = set (filter (\<lambda>e. ch_at e \<le> t) events)" by auto
  then have "filter (\<lambda>e. ch_at e \<le> t) (sort_key ch_at events) = [] \<longleftrightarrow> filter (\<lambda>e. ch_at e \<le> t) events = []"
    by (metis set_empty)
  moreover have "ch_at ` set (filter (\<lambda>e. ch_at e \<le> t) (sort_key ch_at events)) = ch_at ` set (filter (\<lambda>e. ch_at e \<le> t) events)"
    using same by simp
  moreover have "filter (\<lambda>e. ch_at e = k) (sort_key ch_at events) = filter (\<lambda>e. ch_at e = k) events" for k
    by (rule sort_key_stable)
  ultimately show ?thesis by (simp add: in_force_def)
qed

lemma in_force_Nil [simp]: "in_force [] t = None"
  by (simp add: in_force_def)

lemma in_force_before: "\<forall>e \<in> set es. t < ch_at e \<Longrightarrow> in_force es t = None"
  by (force simp: in_force_def filter_empty_conv)

lemma in_force_Cons:
  assumes "\<forall>e \<in> set es. ch_at x \<le> ch_at e"
  shows "in_force (x # es) t = (case in_force es t of Some e \<Rightarrow> Some e | None \<Rightarrow> if ch_at x \<le> t then Some x else None)"
proof (cases "filter (\<lambda>e. ch_at e \<le> t) es = []")
  case True
  have "filter (\<lambda>e. ch_at e = ch_at x) (x # es) = [x]" if "ch_at x \<le> t"
    using True that by (auto simp: filter_empty_conv)
  with True show ?thesis by (simp add: in_force_def)
next
  case False
  then obtain e where e: "e \<in> set es" "ch_at e \<le> t" by (auto simp: filter_empty_conv)
  let ?past = "filter (\<lambda>e. ch_at e \<le> t) es"
  have xt: "ch_at x \<le> t" using assms e by fastforce
  have nonempty: "ch_at ` set ?past \<noteq> {}" using e by (metis False image_is_empty set_empty)
  have "ch_at x \<le> Max (ch_at ` set ?past)"
    using assms e by (intro order_trans [OF _ Max_ge [of _ "ch_at e"]]) auto
  then have max: "Max (insert (ch_at x) (ch_at ` set ?past)) = Max (ch_at ` set ?past)"
    using nonempty by (simp add: Max_insert)
  have "Max (ch_at ` set ?past) \<in> ch_at ` set ?past" by (rule Max_in) (use nonempty in auto)
  then obtain e' where e': "Max (ch_at ` set ?past) = ch_at e'" "e' \<in> set ?past" by (rule imageE)
  then have "filter (\<lambda>e. ch_at e = Max (ch_at ` set ?past)) es \<noteq> []"
    unfolding e'(1) by (auto simp: filter_empty_conv intro!: bexI [of _ e'])
  then show ?thesis using False xt max by (simp add: in_force_def)
qed

lemma in_force_ge:
  assumes "in_force es t = Some e" and "\<forall>x \<in> set es. b \<le> ch_at x"
  shows "b \<le> t"
proof (rule ccontr)
  assume "\<not> b \<le> t"
  then have "in_force es t = None" using assms(2) by (intro in_force_before) force
  with assms(1) show False by simp
qed

lemma in_force_after_head:
  assumes "\<forall>e \<in> set es. ch_at y \<le> ch_at e" and "ch_at y \<le> t"
  shows "in_force (y # es) t \<noteq> None"
  using assms by (cases "in_force es t") (simp_all add: in_force_Cons)

lemma finite_instants [simp]: "finite (instants es start end' st c)"
  by (rule finite_subset [of _ "{start..<end'}"]) (auto simp: instants_def)

lemma instants_Cons:
  assumes "sorted (map ch_at (x # es))"
  shows "instants (x # es) start end' st c =
      (if snd x = (st, c) then {max (ch_at x) start..<hold_until es end'} else {}) \<union> instants es start end' st c"
    and "{max (ch_at x) start..<hold_until es end'} \<inter> instants es start end' st c = {}"
proof -
  have low: "\<forall>e \<in> set es. ch_at x \<le> ch_at e" using assms(1) by auto
  have head: "(\<exists>when. x = (when, st, c)) \<longleftrightarrow> snd x = (st, c)" by (cases x) auto
  have mine: "start \<le> t \<and> t < end' \<and> ch_at x \<le> t \<and> in_force es t = None \<longleftrightarrow> t \<in> {max (ch_at x) start..<hold_until es end'}" for t
  proof (cases es)
    case Nil
    then show ?thesis by (auto simp: hold_until_def)
  next
    case (Cons y r)
    have "\<forall>e \<in> set r. ch_at y \<le> ch_at e" using assms(1) Cons by auto
    then have "in_force es t = None \<longleftrightarrow> t < ch_at y"
      using in_force_after_head [of r y t] in_force_before [of es t] Cons by force
    then show ?thesis by (auto simp: hold_until_def Cons)
  qed
  show "instants (x # es) start end' st c =
      (if snd x = (st, c) then {max (ch_at x) start..<hold_until es end'} else {}) \<union> instants es start end' st c"
  proof (rule set_eqI)
    fix u
    show "u \<in> instants (x # es) start end' st c \<longleftrightarrow>
        u \<in> (if snd x = (st, c) then {max (ch_at x) start..<hold_until es end'} else {}) \<union> instants es start end' st c"
      using mine [of u] by (cases "in_force es u") (auto simp: instants_def in_force_Cons [OF low] head)
  qed
  show "{max (ch_at x) start..<hold_until es end'} \<inter> instants es start end' st c = {}"
  proof (rule equals0I)
    fix u
    assume "u \<in> {max (ch_at x) start..<hold_until es end'} \<inter> instants es start end' st c"
    with mine [of u] show False by (simp add: instants_def)
  qed
qed

lemma seconds_where_simps [simp]:
  "seconds_where P [] = 0"
  "seconds_where P (d # ds) = (if P d then sd_seconds d else 0) + seconds_where P ds"
  "seconds_where P (xs @ ys) = seconds_where P xs + seconds_where P ys"
  by (simp_all add: seconds_where_def)

lemma spans_account:
  "sorted (map ch_at es) \<Longrightarrow>
   seconds_where (\<lambda>d. sd_state d = st \<and> sd_cause d = c) (spans start end' es) = real (card (instants es start end' st c)) / 10 ^ 6"
proof (induction es)
  case Nil
  then show ?case by (simp add: instants_def)
next
  case (Cons x es)
  obtain t s k where x: "x = (t, s, k)" by (cases x)
  note split = instants_Cons [OF Cons.prems, where start = start and end' = end' and st = st and c = c]
  have "card (instants (x # es) start end' st c) =
      (if snd x = (st, c) then nat (hold_until es end' - max t start) else 0) + card (instants es start end' st c)"
    using split x by (auto simp: card_Un_disjoint)
  moreover have "seconds_where (\<lambda>d. sd_state d = st \<and> sd_cause d = c) (spans start end' es)
      = real (card (instants es start end' st c)) / 10 ^ 6"
    using Cons by simp
  ultimately show ?case
    by (auto simp: x Let_def add_divide_distrib)
qed

text \<open>
  State durations are exact: for any list of state changes, in any order, the seconds
  reported for a state and cause within a period are the measure of the instants of the period at
  which that change is the one in force, in microseconds.
\<close>

theorem durations_account_for_period:
  "seconds_where (\<lambda>d. sd_state d = st \<and> sd_cause d = c) (durations_from_events events start end')
     = real (card (instants events start end' st c)) / 10 ^ 6"
proof -
  have "instants (sort_key ch_at events) start end' st c = instants events start end' st c"
    by (simp add: instants_def in_force_sort)
  then show ?thesis
    using spans_account [of "sort_key ch_at events"] by (simp add: durations_from_events_def)
qed

section \<open>Bounds of the figures\<close>

lemma round_dec_idem [simp]: "round_dec n (round_dec n x) = round_dec n x"
  by (simp add: round_dec_def)

lemma seconds_where_nonneg: "\<forall>d \<in> set ds. 0 \<le> sd_seconds d \<Longrightarrow> 0 \<le> seconds_where P ds"
  by (induction ds) auto

lemma seconds_where_mono:
  "\<forall>d \<in> set ds. 0 \<le> sd_seconds d \<Longrightarrow> (\<And>d. P d \<Longrightarrow> Q d) \<Longrightarrow> seconds_where P ds \<le> seconds_where Q ds"
  by (induction ds) (auto intro: add_mono)

lemma spans_positive: "d \<in> set (spans start end' es) \<Longrightarrow> 0 < sd_seconds d"
proof (induction es)
  case (Cons x es)
  then show ?case by (cases x) (auto simp: Let_def split: if_splits)
qed simp

lemma durations_nonneg: "\<forall>d \<in> set (durations_from_events events start end'). 0 \<le> sd_seconds d"
  by (auto simp: durations_from_events_def dest: spans_positive)

lemma round_dec_percent: "0 \<le> x \<Longrightarrow> x \<le> 100 \<Longrightarrow> round_dec n x \<in> {0..100}"
  using round_dec_mono [of x 100 n] by (simp add: round_dec_nonneg)

lemma percent_of: "0 \<le> x \<Longrightarrow> x \<le> y \<Longrightarrow> round_dec n (if 0 < y then 100 * x / y else 0) \<in> {0..100}"
  by (rule round_dec_percent) (auto simp: field_simps)

lemma availability_percent:
  assumes "\<forall>d \<in> set ds. 0 \<le> sd_seconds d"
  shows "kr_value (availability ds) \<in> {0..100}"
proof -
  have "run_time ds \<le> seconds_where (\<lambda>d. sd_state d \<noteq> ''MAINTENANCE'') ds"
    unfolding run_time_def by (rule seconds_where_mono [OF assms]) (auto simp: RUNNING_STATES_def)
  moreover have "0 \<le> run_time ds" unfolding run_time_def by (rule seconds_where_nonneg [OF assms])
  ultimately show ?thesis
    unfolding availability_def Let_def kpi_result.select_convs by (intro percent_of)
qed

lemma performance_percent:
  assumes "0 \<le> whole" and "case ideal of None \<Rightarrow> True | Some x \<Rightarrow> 0 \<le> x"
  shows "kr_value (performance run whole ideal) \<in> {0..100}"
proof (cases ideal)
  case (Some x)
  have "0 \<le> min (100 * (x * of_int whole) / run) 100" if "0 < run" using assms Some that by simp
  then have "0 < run \<Longrightarrow> round_dec 3 (min (100 * (x * of_int whole) / run) 100) \<in> {0..100}"
    by (intro round_dec_percent) auto
  then show ?thesis using Some by (simp add: performance_def Let_def)
qed (simp add: performance_def)

lemma quality_percent: "0 \<le> good \<Longrightarrow> good \<le> whole \<Longrightarrow> kr_value (quality good whole) \<in> {0..100}"
  using percent_of [of "of_int good" "of_int whole" 3] by (simp add: quality_def)

lemma oee_le_factor:
  assumes "a \<in> {0..100}" and "p \<in> {0..100}" and "q \<in> {0..100}"
  shows "0 \<le> kr_value (oee a p q)" and "kr_value (oee a p q) \<le> round_dec 3 a"
    and "kr_value (oee a p q) \<le> round_dec 3 p" and "kr_value (oee a p q) \<le> round_dec 3 q"
proof -
  have below: "x * y * z / 10000 \<le> x" if "x \<in> {0..100}" "y \<in> {0..100}" "z \<in> {0..100}" for x y z :: real
  proof -
    have "y * z \<le> 100 * 100" using that by (intro mult_mono) auto
    then have "x * (y * z) \<le> x * 10000" using that by (intro mult_left_mono) auto
    then show ?thesis by (simp add: algebra_simps)
  qed
  show "0 \<le> kr_value (oee a p q)" using assms by (simp add: oee_def round_dec_nonneg)
  show "kr_value (oee a p q) \<le> round_dec 3 a" using below [OF assms] by (simp add: oee_def round_dec_mono)
  show "kr_value (oee a p q) \<le> round_dec 3 p" using below [of p a q] assms by (simp add: oee_def round_dec_mono ac_simps)
  show "kr_value (oee a p q) \<le> round_dec 3 q" using below [of q a p] assms by (simp add: oee_def round_dec_mono ac_simps)
qed

lemma percent_rounded:
  "round_dec 3 (kr_value (availability ds)) = kr_value (availability ds)"
  "round_dec 3 (kr_value (performance run whole ideal)) = kr_value (performance run whole ideal)"
  "round_dec 3 (kr_value (quality good whole)) = kr_value (quality good whole)"
  by (simp_all add: availability_def performance_def quality_def Let_def)

text \<open>
  The figures of any period are in range: availability, performance and quality are
  percentages, OEE is no more than any of the three it is the product of, and the mean times
  between failures and to repair are not negative.
\<close>

theorem kpis_in_range:
  assumes "0 \<le> good" and "0 \<le> reject" and "case ideal of None \<Rightarrow> True | Some x \<Rightarrow> 0 \<le> x" and "0 \<le> repair_time"
  shows "\<exists>a p q e b r. compute_all (durations_from_events events start end') good reject ideal breakdowns repair_time repairs
      = [a, p, q, e, b, r]
    \<and> kr_value a \<in> {0..100} \<and> kr_value p \<in> {0..100} \<and> kr_value q \<in> {0..100}
    \<and> 0 \<le> kr_value e \<and> kr_value e \<le> kr_value a \<and> kr_value e \<le> kr_value p \<and> kr_value e \<le> kr_value q
    \<and> 0 \<le> kr_value b \<and> 0 \<le> kr_value r"
proof -
  let ?ds = "durations_from_events events start end'"
  let ?a = "availability ?ds" and ?p = "performance (run_time ?ds) (good + reject) ideal" and ?q = "quality good (good + reject)"
  have ranges: "kr_value ?a \<in> {0..100}" "kr_value ?p \<in> {0..100}" "kr_value ?q \<in> {0..100}"
    using assms by (simp_all only: availability_percent [OF durations_nonneg] performance_percent quality_percent add_nonneg_nonneg
        le_add_same_cancel1)
  have "0 \<le> run_time ?ds" unfolding run_time_def by (rule seconds_where_nonneg [OF durations_nonneg])
  then have "0 \<le> kr_value (mtbf (run_time ?ds) breakdowns)" "0 \<le> kr_value (mttr repair_time repairs)"
    using assms(4) by (simp_all add: mtbf_def mttr_def round_dec_nonneg)
  with ranges oee_le_factor [OF ranges] show ?thesis
    unfolding compute_all_def Let_def percent_rounded by blast
qed

section \<open>Downtime adds up\<close>

definition downtime_of :: "string \<Rightarrow> state_duration list \<Rightarrow> real" where
  "downtime_of c = seconds_where (\<lambda>d. sd_state d \<in> set UNPLANNED_STATES \<and> cause_name d = c)"

lemma fold_add_cause:
  "case_option 0 id (map_of (fold add_cause ds acc) c) = case_option 0 id (map_of acc c) + downtime_of c ds"
  by (induction ds arbitrary: acc) (auto simp: add_cause_def downtime_of_def update_conv' split: option.split)

lemma fold_add_cause_ok: "dict_ok acc \<Longrightarrow> dict_ok (fold add_cause ds acc)"
  by (induction ds arbitrary: acc) (simp_all add: add_cause_def)

lemma by_cause_entry: "(c, s) \<in> set (by_cause ds) \<Longrightarrow> s = downtime_of c ds"
proof -
  assume "(c, s) \<in> set (by_cause ds)"
  moreover have "distinct (map fst (by_cause ds))"
    using fold_add_cause_ok [of "[]" ds] by (simp add: by_cause_def dict_ok_def)
  ultimately have "map_of (by_cause ds) c = Some s" by simp
  then show ?thesis using fold_add_cause [of ds "[]" c] by (simp add: by_cause_def)
qed

lemma sum_list_insort_key: "sum_list (map g (insort_key f x xs)) = g x + (sum_list (map g xs) :: real)"
  by (induction xs) auto

lemma sum_list_sort_key: "sum_list (map g (sort_key f xs)) = (sum_list (map g xs) :: real)"
  by (induction xs) (simp_all add: sum_list_insort_key)

lemma pareto_rows_simps:
  "map pr_cause (pareto_rows whole cum xs) = map fst xs"
  "map pr_seconds (pareto_rows whole cum xs) = map (round_dec 1 \<circ> snd) xs"
  by (induction whole cum xs rule: pareto_rows.induct) (simp_all add: Let_def)

lemma share_range: "0 \<le> s \<Longrightarrow> s \<le> whole \<Longrightarrow> round_dec n (if whole \<noteq> 0 then s / whole else 0) \<in> {0..1}"
  using round_dec_mono [of "s / whole" 1 n] by (auto simp: round_dec_nonneg field_simps)

lemma pareto_rows_shares:
  assumes "\<forall>x \<in> set xs. 0 \<le> snd x" and "0 \<le> cum" and "cum + sum_list (map snd xs) \<le> whole"
  shows "pr_share ` set (pareto_rows whole cum xs) \<subseteq> {0..1} \<and> pr_cumulative ` set (pareto_rows whole cum xs) \<subseteq> {0..1}
    \<and> sorted (map pr_cumulative (pareto_rows whole cum xs))
    \<and> (\<forall>r \<in> set (pareto_rows whole cum xs). round_dec 4 (if whole \<noteq> 0 then cum / whole else 0) \<le> pr_cumulative r)"
  using assms
proof (induction xs arbitrary: cum)
  case (Cons x xs)
  obtain c s where x: "x = (c, s)" by (cases x)
  have rest: "0 \<le> sum_list (map snd xs)" using Cons.prems(1) by (intro sum_list_nonneg) auto
  have cum': "0 \<le> cum + s" "cum + s \<le> whole" "s \<le> whole" "0 \<le> s" using Cons.prems x rest by auto
  have step: "round_dec 4 (if whole \<noteq> 0 then cum / whole else 0) \<le> round_dec 4 (if whole \<noteq> 0 then (cum + s) / whole else 0)"
    using cum' by (auto intro!: round_dec_mono divide_right_mono)
  have *: "(if whole \<noteq> 0 then round_dec 4 y else 0) = round_dec 4 (if whole \<noteq> 0 then y else 0)" for y by simp
  have IH: "pr_share ` set (pareto_rows whole (cum + s) xs) \<subseteq> {0..1} \<and> pr_cumulative ` set (pareto_rows whole (cum + s) xs) \<subseteq> {0..1}
    \<and> sorted (map pr_cumulative (pareto_rows whole (cum + s) xs))
    \<and> (\<forall>r \<in> set (pareto_rows whole (cum + s) xs). round_dec 4 (if whole \<noteq> 0 then (cum + s) / whole else 0) \<le> pr_cumulative r)"
    by (rule Cons.IH) (use Cons.prems x cum' in auto)
  let ?R = "pareto_rows whole (cum + s) xs" and ?lo = "round_dec 4 (if whole \<noteq> 0 then (cum + s) / whole else 0)"
  let ?r = "\<lparr>pr_cause = c, pr_seconds = round_dec 1 s, pr_share = round_dec 4 (if whole \<noteq> 0 then s / whole else 0),
      pr_cumulative = ?lo\<rparr>"
  have rows: "pareto_rows whole cum (x # xs) = ?r # ?R" by (simp add: x Let_def)
  have share: "pr_share ?r \<in> {0..1}" "pr_cumulative ?r \<in> {0..1}"
    using share_range [of s whole 4] share_range [of "cum + s" whole 4] cum' by simp_all
  have above: "\<forall>r \<in> set ?R. ?lo \<le> pr_cumulative r" using IH by blast
  then have "\<forall>r \<in> set (?r # ?R). round_dec 4 (if whole \<noteq> 0 then cum / whole else 0) \<le> pr_cumulative r"
    using step by (metis (no_types, lifting) order_trans pareto_row.select_convs(4) set_ConsD)
  moreover have "sorted (map pr_cumulative (?r # ?R))" using IH above by simp
  ultimately show ?case using IH share unfolding rows list.set by blast
qed simp

lemma by_cause_nonneg: "\<forall>d \<in> set ds. 0 \<le> sd_seconds d \<Longrightarrow> x \<in> set (by_cause ds) \<Longrightarrow> 0 \<le> snd x"
  using by_cause_entry [of "fst x" "snd x" ds] seconds_where_nonneg [of ds] by (simp add: downtime_of_def)

lemma sum_list_take_le:
  "\<forall>x \<in> set xs. 0 \<le> g x \<Longrightarrow> sum_list (map g (take n xs)) \<le> (sum_list (map g xs) :: real)"
proof (induction xs arbitrary: n)
  case (Cons x xs)
  then have "0 \<le> g x" "0 \<le> sum_list (map g xs)" by (auto intro!: sum_list_nonneg)
  with Cons show ?case by (auto simp: take_Cons')
qed simp

lemma pareto_facts:
  fixes n :: nat
  assumes ds: "\<forall>d \<in> set ds. 0 \<le> sd_seconds d"
  defines "rows \<equiv> downtime_pareto n ds"
  shows "length rows = min n (length (by_cause ds)) \<and> distinct (map pr_cause rows)
    \<and> map pr_seconds rows = map (\<lambda>r. round_dec 1 (downtime_of (pr_cause r) ds)) rows
    \<and> sorted (rev (map pr_seconds rows))
    \<and> pr_share ` set rows \<subseteq> {0..1} \<and> pr_cumulative ` set rows \<subseteq> {0..1} \<and> sorted (map pr_cumulative rows)"
proof -
  let ?f = "\<lambda>(c, s). - s :: real"
  define causes where "causes = by_cause ds"
  define top where "top = take n (sort_key ?f causes)"
  have rows: "rows = pareto_rows (sum_list (map snd causes)) 0 top"
    by (simp add: rows_def downtime_pareto_def Let_def causes_def top_def)
  have top: "x \<in> set causes" if "x \<in> set top" for x
    using that set_take_subset [of n "sort_key ?f causes"] by (auto simp: top_def)
  have nonneg: "\<forall>x \<in> set causes. 0 \<le> snd x"
    using by_cause_nonneg [OF ds] by (simp add: causes_def)
  have "distinct (map fst causes)"
    using fold_add_cause_ok [of "[]" ds] by (simp add: causes_def by_cause_def dict_ok_def)
  then have "distinct (map fst (sort_key ?f causes))"
    by (simp add: distinct_map inj_on_def)
  then have dist: "distinct (map pr_cause rows)"
    by (simp add: rows pareto_rows_simps top_def take_map [symmetric] distinct_take)
  have "map (round_dec 1 \<circ> snd) top = map (\<lambda>c. round_dec 1 (downtime_of c ds)) (map fst top)"
    using by_cause_entry [of _ _ ds] top by (force simp: causes_def)
  also have "\<dots> = map (\<lambda>c. round_dec 1 (downtime_of c ds)) (map pr_cause rows)"
    by (simp only: rows pareto_rows_simps)
  finally have "map pr_seconds rows = map (\<lambda>c. round_dec 1 (downtime_of c ds)) (map pr_cause rows)"
    by (simp only: rows pareto_rows_simps(2))
  then have seconds: "map pr_seconds rows = map (\<lambda>r. round_dec 1 (downtime_of (pr_cause r) ds)) rows"
    by (simp only: list.map_comp comp_def)
  have "sorted (map ?f top)" by (simp add: top_def take_map [symmetric] sorted_wrt_take)
  then have "sorted (rev (map (round_dec 1 \<circ> snd) top))"
    by (induction top) (force simp: sorted_append intro!: round_dec_mono)+
  then have desc: "sorted (rev (map pr_seconds rows))" by (simp add: rows pareto_rows_simps)
  have "sum_list (map snd top) \<le> sum_list (map snd causes)"
    using sum_list_take_le [of "sort_key ?f causes" snd n] nonneg by (simp add: top_def sum_list_sort_key)
  then have shares: "pr_share ` set rows \<subseteq> {0..1} \<and> pr_cumulative ` set rows \<subseteq> {0..1} \<and> sorted (map pr_cumulative rows)"
    using pareto_rows_shares [of top 0 "sum_list (map snd causes)"] nonneg top by (simp add: rows)
  have "length rows = length (map pr_cause rows)" by simp
  also have "\<dots> = min n (length causes)" by (simp only: rows pareto_rows_simps) (simp add: top_def)
  finally show ?thesis using dist seconds desc shares by (simp add: causes_def)
qed

text \<open>
  The Pareto of downtime loses nothing: each row carries the whole downtime of its cause,
  the rows are distinct causes in descending order of time, at most \<open>top_n\<close> of them, and the shares
  and running shares are fractions, the latter never falling.
\<close>

theorem downtime_pareto_accounts:
  "let ds = durations_from_events events start end'; rows = downtime_pareto n ds in
    length rows = min n (length (by_cause ds)) \<and> distinct (map pr_cause rows)
    \<and> map pr_seconds rows = map (\<lambda>r. round_dec 1 (downtime_of (pr_cause r) ds)) rows
    \<and> sorted (rev (map pr_seconds rows))
    \<and> pr_share ` set rows \<subseteq> {0..1} \<and> pr_cumulative ` set rows \<subseteq> {0..1} \<and> sorted (map pr_cumulative rows)"
  unfolding Let_def by (rule pareto_facts [OF durations_nonneg])

section \<open>A shift of one machine\<close>

definition demo_changes :: "change list" where
  "demo_changes = [(3600000000, ''DOWN'', Some ''jam''), (-60000000, ''RUNNING'', None), (5400000000, ''RUNNING'', None)]"

lemma kpis_in_range_witness:
  "\<exists>a p q e b r. compute_all (durations_from_events demo_changes 0 7200000000) 90 10 (Some 50) 1 1800 1 = [a, p, q, e, b, r]
    \<and> kr_value a \<in> {0..100} \<and> kr_value p \<in> {0..100} \<and> kr_value q \<in> {0..100}
    \<and> 0 \<le> kr_value e \<and> kr_value e \<le> kr_value a \<and> kr_value e \<le> kr_value p \<and> kr_value e \<le> kr_value q
    \<and> 0 \<le> kr_value b \<and> 0 \<le> kr_value r"
  by (rule kpis_in_range) simp_all

end
