(* ===== verification/Kpi_Energy.thy ===== *)
theory Kpi_Energy
  imports Kpi_Oee
begin

text \<open>
  Energy figures (\<open>apps/api/app/modules/analytics/energy.py\<close>): the baseline regression of energy on
  output, the anomalies above it, and the summary of a period. Floats are reals. The regression is
  shown to be the least-squares line.
\<close>

definition ANOMALY_SIGMA :: real where "ANOMALY_SIGMA = 3"

definition MIN_BASELINE_POINTS :: nat where "MIN_BASELINE_POINTS = 8"

record baseline =
  bl_intercept :: real
  bl_slope :: real
  bl_r2 :: "real option"
  bl_residual_std :: real
  bl_n :: nat

record energy_anomaly =
  ea_time :: int
  ea_scope :: string
  ea_energy :: real
  ea_expected :: real
  ea_units :: real
  ea_sigma :: real
  ea_health :: "real option"

record energy_summary =
  es_energy :: real
  es_cost :: real
  es_co2 :: real
  es_peak :: real
  es_idle :: real
  es_per_unit :: "real option"
  es_idle_share :: real
  es_currency :: string
  es_breakdown :: "(string \<times> string \<times> real) list"

type_synonym point = "real \<times> real"

definition expected :: "baseline \<Rightarrow> real \<Rightarrow> real" where
  "expected b units = bl_intercept b + bl_slope b * units"

definition residual_sigma :: "baseline \<Rightarrow> real \<Rightarrow> real \<Rightarrow> real" where
  "residual_sigma b units actual =
     (if bl_residual_std b \<le> 0 then 0 else (actual - expected b units) / bl_residual_std b)"

section \<open>The regression\<close>

definition mean_of :: "real list \<Rightarrow> real" where
  "mean_of vs = sum_list vs / real (length vs)"

definition sxx :: "point list \<Rightarrow> real" where
  "sxx ps = (\<Sum>p\<leftarrow>ps. (fst p - mean_of (map fst ps)) ^ 2)"

definition slope_of :: "point list \<Rightarrow> real" where
  "slope_of ps = (\<Sum>p\<leftarrow>ps. (fst p - mean_of (map fst ps)) * (snd p - mean_of (map snd ps))) / sxx ps"

definition intercept_of :: "point list \<Rightarrow> real" where
  "intercept_of ps = mean_of (map snd ps) - slope_of ps * mean_of (map fst ps)"

definition squared_error :: "point list \<Rightarrow> real \<Rightarrow> real \<Rightarrow> real" where
  "squared_error ps a b = (\<Sum>p\<leftarrow>ps. (snd p - (a + b * fst p)) * (snd p - (a + b * fst p)))"

definition fit_baseline :: "point list \<Rightarrow> baseline option" where
  "fit_baseline ps =
     (if length ps < MIN_BASELINE_POINTS then None
      else if sxx ps \<le> 0 then None
      else
        (let n = length ps; slope = slope_of ps; intercept = intercept_of ps;
             ss_res = squared_error ps intercept slope;
             ss_tot = (\<Sum>p\<leftarrow>ps. (snd p - mean_of (map snd ps)) ^ 2);
             r2 = (if 0 < ss_tot then Some (1 - ss_res / ss_tot) else None);
             std = (if 2 < n then sqrt (ss_res / (real n - 2)) else 0)
         in Some \<lparr>bl_intercept = round_dec 6 intercept, bl_slope = round_dec 6 slope,
                  bl_r2 = map_option (round_dec 4) r2, bl_residual_std = round_dec 6 std, bl_n = n\<rparr>))"

section \<open>Anomalies and the summary\<close>

definition anomaly_of :: "baseline \<Rightarrow> string \<Rightarrow> real \<Rightarrow> int \<times> real \<times> real \<Rightarrow> energy_anomaly option" where
  "anomaly_of b scope sigma p =
     (case p of (when, units, energy) \<Rightarrow>
        let deviation = residual_sigma b units energy in
        if sigma < deviation then
          Some \<lparr>ea_time = when, ea_scope = scope, ea_energy = round_dec 3 energy,
                ea_expected = round_dec 3 (expected b units), ea_units = units,
                ea_sigma = round_dec 3 deviation, ea_health = None\<rparr>
        else None)"

definition find_anomalies :: "baseline \<Rightarrow> (int \<times> real \<times> real) list \<Rightarrow> string \<Rightarrow> real \<Rightarrow> energy_anomaly list" where
  "find_anomalies b observations scope sigma = List.map_filter (anomaly_of b scope sigma) observations"

definition summarise ::
    "real \<Rightarrow> real \<Rightarrow> real \<Rightarrow> real \<Rightarrow> int \<Rightarrow> real \<Rightarrow> string \<Rightarrow> (string \<times> string \<times> real) list \<Rightarrow> energy_summary" where
  "summarise energy idle peak cost good factor currency breakdown =
     \<lparr>es_energy = round_dec 3 energy, es_cost = round_dec 2 cost, es_co2 = round_dec 3 (energy * factor),
      es_peak = round_dec 3 peak, es_idle = round_dec 3 idle,
      es_per_unit = (if 0 < good then Some (round_dec 4 (energy / of_int good)) else None),
      es_idle_share = (if 0 < energy then round_dec 3 (100 * idle / energy) else 0),
      es_currency = currency, es_breakdown = breakdown\<rparr>"

definition as_kpi_results :: "energy_summary \<Rightarrow> kpi_result list" where
  "as_kpi_results s =
     [\<lparr>kr_code = ''idle_energy_share'', kr_value = es_idle_share s,
       kr_inputs = [(''idle_energy_kwh'', In_Real (es_idle s)), (''energy_kwh'', In_Real (es_energy s))]\<rparr>,
      \<lparr>kr_code = ''peak_demand'', kr_value = es_peak s, kr_inputs = [(''energy_kwh'', In_Real (es_energy s))]\<rparr>]
     @ (case es_per_unit s of None \<Rightarrow> [] | Some v \<Rightarrow>
          [\<lparr>kr_code = ''energy_per_unit'', kr_value = v,
            kr_inputs = [(''energy_kwh'', In_Real (es_energy s)), (''cost'', In_Real (es_cost s)),
              (''currency'', In_Text (es_currency s))]\<rparr>])"

section \<open>The baseline is the least-squares line\<close>

lemma sum_list_scale: "(\<Sum>p\<leftarrow>ps. c * f p) = c * (\<Sum>p\<leftarrow>ps. f p :: real)"
  by (induction ps) (simp_all add: algebra_simps)

lemma sum_list_plus: "(\<Sum>p\<leftarrow>ps. f p + g p) = (\<Sum>p\<leftarrow>ps. f p) + (\<Sum>p\<leftarrow>ps. g p :: real)"
  by (induction ps) (simp_all add: algebra_simps)

lemma sum_list_minus: "(\<Sum>p\<leftarrow>ps. f p - g p) = (\<Sum>p\<leftarrow>ps. f p) - (\<Sum>p\<leftarrow>ps. g p :: real)"
  by (induction ps) (simp_all add: algebra_simps)

lemma sum_list_constant: "(\<Sum>p\<leftarrow>ps. c) = real (length ps) * c"
  by (induction ps) (simp_all add: algebra_simps)

lemma centred_sum:
  assumes "ps \<noteq> []"
  shows "(\<Sum>p\<leftarrow>ps. f p - mean_of (map f ps)) = 0"
  using assms by (simp add: sum_list_minus sum_list_constant mean_of_def)

lemma normal_equations:
  fixes ps :: "point list"
  assumes "0 < sxx ps"
  defines "r \<equiv> \<lambda>p. snd p - (intercept_of ps + slope_of ps * fst p)"
  shows "(\<Sum>p\<leftarrow>ps. r p) = 0" and "(\<Sum>p\<leftarrow>ps. r p * (fst p - mean_of (map fst ps))) = 0"
proof -
  let ?x = "\<lambda>p. fst p - mean_of (map fst ps)" and ?y = "\<lambda>p. snd p - mean_of (map snd ps)"
  have ne: "ps \<noteq> []" using assms by (auto simp: sxx_def)
  have r: "r p = ?y p - slope_of ps * ?x p" for p :: point
    by (simp add: r_def intercept_of_def algebra_simps)
  show "(\<Sum>p\<leftarrow>ps. r p) = 0"
    using centred_sum [OF ne] by (simp add: r sum_list_minus sum_list_scale)
  have "(\<Sum>p\<leftarrow>ps. r p * ?x p) = (\<Sum>p\<leftarrow>ps. ?x p * ?y p - slope_of ps * ?x p ^ 2)"
    by (simp add: r algebra_simps power2_eq_square)
  also have "\<dots> = (\<Sum>p\<leftarrow>ps. ?x p * ?y p) - slope_of ps * sxx ps"
    by (simp only: sum_list_minus sum_list_scale sxx_def)
  also have "\<dots> = 0" using assms by (simp add: slope_of_def)
  finally show "(\<Sum>p\<leftarrow>ps. r p * ?x p) = 0" .
qed

lemma least_squares:
  assumes "0 < sxx ps"
  shows "squared_error ps a b = squared_error ps (intercept_of ps) (slope_of ps)
    + (\<Sum>p\<leftarrow>ps. (intercept_of ps - a + (slope_of ps - b) * fst p) ^ 2)"
proof -
  let ?m = "mean_of (map fst ps)"
  let ?r = "\<lambda>p. snd p - (intercept_of ps + slope_of ps * fst p)"
  let ?d = "\<lambda>p. intercept_of ps - a + (slope_of ps - b) * fst p"
  let ?k = "intercept_of ps - a + (slope_of ps - b) * ?m"
  note normal = normal_equations [OF assms]
  have "(\<Sum>p\<leftarrow>ps. ?r p * ?d p) = (\<Sum>p\<leftarrow>ps. ?k * ?r p + (slope_of ps - b) * (?r p * (fst p - ?m)))"
    by (simp add: algebra_simps)
  also have "\<dots> = 0" by (simp only: sum_list_plus sum_list_scale normal mult_zero_right add_0_left)
  finally have cross: "(\<Sum>p\<leftarrow>ps. ?r p * ?d p) = 0" .
  have "squared_error ps a b = (\<Sum>p\<leftarrow>ps. ?r p * ?r p + (2 * (?r p * ?d p) + ?d p ^ 2))"
    by (simp add: squared_error_def algebra_simps power2_eq_square)
  also have "\<dots> = squared_error ps (intercept_of ps) (slope_of ps) + (\<Sum>p\<leftarrow>ps. ?d p ^ 2)"
    by (simp only: sum_list_plus sum_list_scale cross squared_error_def mult_zero_right add_0_left)
  finally show ?thesis .
qed

lemma fit_baseline_None_iff: "fit_baseline ps = None \<longleftrightarrow> length ps < MIN_BASELINE_POINTS \<or> sxx ps \<le> 0"
  by (simp add: fit_baseline_def Let_def)

lemma squared_error_nonneg: "0 \<le> squared_error ps a b"
  unfolding squared_error_def by (rule sum_list_nonneg) auto

text \<open>
  The stored baseline is the least-squares line of energy on output, rounded to six
  decimals: no other line has a smaller sum of squared residuals, its residual spread is the root of
  that sum over \<open>n - 2\<close>, and an hour is flagged only when its consumption exceeds the expected one by
  more than the given number of spreads, never for using less.
\<close>

theorem baseline_least_squares:
  assumes "fit_baseline ps = Some b" and sig: "0 \<le> sigma"
  shows "\<exists>i s. (\<forall>a c. squared_error ps i s \<le> squared_error ps a c)
      \<and> bl_intercept b = round_dec 6 i \<and> bl_slope b = round_dec 6 s
      \<and> bl_residual_std b = round_dec 6 (sqrt (squared_error ps i s / (real (length ps) - 2)))
      \<and> set (find_anomalies b obs scope sigma) \<subseteq>
          {e. \<exists>t u k. (t, u, k) \<in> set obs \<and> expected b u + sigma * bl_residual_std b < k \<and> ea_time e = t
                \<and> ea_energy e = round_dec 3 k}"
proof -
  have fit: "MIN_BASELINE_POINTS \<le> length ps" "0 < sxx ps"
    using assms by (auto simp: fit_baseline_def split: if_splits)
  have "squared_error ps (intercept_of ps) (slope_of ps) \<le> squared_error ps a c" for a c
    using least_squares [OF fit(2), of a c] by (auto intro!: sum_list_nonneg)
  moreover have "e \<in> {e. \<exists>t u k. (t, u, k) \<in> set obs \<and> expected b u + sigma * bl_residual_std b < k \<and> ea_time e = t
                \<and> ea_energy e = round_dec 3 k}"
    if mem: "e \<in> set (find_anomalies b obs scope sigma)" for e
  proof -
    obtain t u k where p: "(t, u, k) \<in> set obs" "anomaly_of b scope sigma (t, u, k) = Some e"
      using mem by (auto simp: find_anomalies_def map_filter_def)
    then have "sigma < residual_sigma b u k" by (simp add: anomaly_of_def Let_def split: if_splits)
    with sig have "expected b u + sigma * bl_residual_std b < k"
      by (auto simp: residual_sigma_def field_simps split: if_splits)
    moreover have "ea_time e = t" "ea_energy e = round_dec 3 k"
      using p(2) by (auto simp: anomaly_of_def Let_def split: if_splits)
    ultimately show ?thesis using p(1) by blast
  qed
  moreover have "bl_intercept b = round_dec 6 (intercept_of ps) \<and> bl_slope b = round_dec 6 (slope_of ps)
      \<and> bl_residual_std b = round_dec 6 (sqrt (squared_error ps (intercept_of ps) (slope_of ps) / (real (length ps) - 2)))"
    using assms fit by (auto simp: fit_baseline_def MIN_BASELINE_POINTS_def Let_def)
  ultimately show ?thesis by blast
qed

definition demo_points :: "point list" where
  "demo_points = [(1, 3), (2, 5), (3, 7), (4, 9), (5, 11), (6, 13), (7, 15), (8, 17)]"

lemma demo_fitted: "\<exists>b. fit_baseline demo_points = Some b"
  using fit_baseline_None_iff [of demo_points]
  by (simp add: demo_points_def MIN_BASELINE_POINTS_def sxx_def mean_of_def power2_eq_square flip: not_None_eq)

lemma baseline_least_squares_witness:
  "\<exists>b i s. fit_baseline demo_points = Some b \<and> squared_error demo_points i s \<le> squared_error demo_points 0 2
    \<and> bl_slope b = round_dec 6 s
    \<and> set (find_anomalies b [(60, 4, 9)] ''line'' ANOMALY_SIGMA) \<subseteq> {e. ea_time e = 60}"
proof -
  obtain b where b: "fit_baseline demo_points = Some b" using demo_fitted by blast
  have "0 \<le> ANOMALY_SIGMA" by (simp add: ANOMALY_SIGMA_def)
  from baseline_least_squares [OF b this, of "[(60, 4, 9)]" "''line''"] obtain i s where
    "\<forall>a c. squared_error demo_points i s \<le> squared_error demo_points a c" "bl_slope b = round_dec 6 s"
    "set (find_anomalies b [(60, 4, 9)] ''line'' ANOMALY_SIGMA) \<subseteq>
       {e. \<exists>t u k. (t, u, k) \<in> set [(60, 4, 9)] \<and> expected b u + ANOMALY_SIGMA * bl_residual_std b < k \<and> ea_time e = t
         \<and> ea_energy e = round_dec 3 k}"
    by blast
  with b show ?thesis by fastforce
qed

end
