(* ===== verification/Kpi_Store.thy ===== *)
theory Kpi_Store
  imports Kpi_Energy
begin

text \<open>
  The tables analytics reads and the queries over them
  (\<open>apps/api/app/modules/analytics/repository.py\<close>, with the columns of \<open>telemetry/models.py\<close>,
  \<open>assets/models.py\<close> and \<open>analytics/models.py\<close>). A table is the list of its rows; each SQL query is
  written as a list function with its filters, grouping, order and limit. Where SQL leaves the order
  of ties open, table order is taken. A time is in microseconds.
\<close>

section \<open>Rows\<close>

record event_row =
  er_time :: int
  er_asset :: nat
  er_state :: string
  er_cause :: "string option"

record count_row =
  cr_time :: int
  cr_asset :: nat
  cr_good :: int
  cr_reject :: int
  cr_cycle :: "real option"
  cr_planned :: bool

record reading_row =
  rd_time :: int
  rd_asset :: nat
  rd_power :: real
  rd_energy :: real
  rd_rate :: "real option"

record closed_row =
  cl_asset :: nat
  cl_closed :: bool
  cl_deleted :: bool
  cl_start :: "int option"
  cl_end :: "int option"

record registry_asset =
  ra_id :: nat
  ra_line :: nat
  ra_code :: string
  ra_name :: string
  ra_ideal :: "real option"
  ra_deleted :: bool

record registry_line =
  rl_id :: nat
  rl_plant :: nat
  rl_deleted :: bool

record registry_plant =
  rp_id :: nat
  rp_factor :: real
  rp_currency :: string
  rp_deleted :: bool

datatype scope = Plant_Scope | Line_Scope | Asset_Scope

datatype period = Shift | Day | Week | Month

record kpi_key =
  kk_time :: int
  kk_period :: period
  kk_scope :: scope
  kk_scope_id :: nat
  kk_code :: string

record kpi_definition =
  kf_code :: string
  kf_name :: string
  kf_unit :: string
  kf_formula :: string

record stored_baseline =
  sb_scope :: scope
  sb_scope_id :: nat
  sb_start :: int
  sb_end :: int
  sb_intercept :: real
  sb_slope :: real
  sb_r2 :: "real option"
  sb_created :: int

type_synonym kpi_cell = "real \<times> (string \<times> kpi_input) list"

record kpi_db =
  kd_events :: "event_row list"
  kd_counts :: "count_row list"
  kd_readings :: "reading_row list"
  kd_orders :: "closed_row list"
  kd_assets :: "registry_asset list"
  kd_lines :: "registry_line list"
  kd_plants :: "registry_plant list"
  kd_definitions :: "kpi_definition list"
  kd_values :: "(kpi_key \<times> kpi_cell) list"
  kd_baselines :: "stored_baseline list"

definition in_period :: "int \<Rightarrow> int \<Rightarrow> int \<Rightarrow> bool" where
  "in_period start end' t \<longleftrightarrow> start \<le> t \<and> t < end'"

section \<open>Stored values\<close>

definition kpi_definition_of :: "kpi_db \<Rightarrow> string \<Rightarrow> kpi_definition option" where
  "kpi_definition_of db code = List.find (\<lambda>d. kf_code d = code) (kd_definitions db)"

definition kpi_values ::
    "kpi_db \<Rightarrow> scope \<Rightarrow> nat \<Rightarrow> period \<Rightarrow> int \<Rightarrow> int \<Rightarrow> string list \<Rightarrow> (kpi_key \<times> kpi_cell) list" where
  "kpi_values db sc i p start end' codes =
     sort_key (\<lambda>(k, v). kk_time k)
       (filter (\<lambda>(k, v). kk_scope k = sc \<and> kk_scope_id k = i \<and> kk_period k = p
          \<and> in_period start end' (kk_time k) \<and> (codes = [] \<or> kk_code k \<in> set codes)) (kd_values db))"

text \<open>The foreign key on \<open>kpi_code\<close> makes the statement fail; nothing is written then.\<close>

definition upsert_many :: "(kpi_key \<times> kpi_cell) list \<Rightarrow> kpi_db \<Rightarrow> (nat \<times> kpi_db) option" where
  "upsert_many rows db =
     (if rows = [] then Some (0, db)
      else if \<not> set (map (kk_code \<circ> fst) rows) \<subseteq> set (map kf_code (kd_definitions db)) then None
      else Some (length rows, db\<lparr>kd_values := fold (\<lambda>(k, v). dict_put k v) rows (kd_values db)\<rparr>))"

section \<open>Aggregation\<close>

definition line_of :: "kpi_db \<Rightarrow> nat \<Rightarrow> registry_line option" where
  "line_of db i = List.find (\<lambda>l. rl_id l = i) (kd_lines db)"

definition plant_of :: "kpi_db \<Rightarrow> nat \<Rightarrow> registry_plant option" where
  "plant_of db i = List.find (\<lambda>p. rp_id p = i) (kd_plants db)"

definition asset_row :: "kpi_db \<Rightarrow> nat \<Rightarrow> registry_asset option" where
  "asset_row db i = List.find (\<lambda>a. ra_id a = i) (kd_assets db)"

fun asset_ids :: "kpi_db \<Rightarrow> scope \<Rightarrow> nat \<Rightarrow> nat list" where
  "asset_ids db Asset_Scope i = [i]"
| "asset_ids db Line_Scope i = map ra_id (filter (\<lambda>a. ra_line a = i \<and> \<not> ra_deleted a) (kd_assets db))"
| "asset_ids db Plant_Scope i =
     map ra_id (filter (\<lambda>a. \<not> ra_deleted a \<and> (case line_of db (ra_line a) of None \<Rightarrow> False
        | Some l \<Rightarrow> rl_plant l = i \<and> \<not> rl_deleted l)) (kd_assets db))"

definition change_of :: "event_row \<Rightarrow> change" where
  "change_of e = (er_time e, er_state e, er_cause e)"

definition state_events :: "kpi_db \<Rightarrow> nat list \<Rightarrow> int \<Rightarrow> int \<Rightarrow> change list" where
  "state_events db ids start end' =
     (if ids = [] then []
      else
        (let mine = map change_of (filter (\<lambda>e. er_asset e \<in> set ids) (kd_events db));
             inside = filter (\<lambda>c. in_period start end' (ch_at c)) mine;
             before = rev (sort_key ch_at (filter (\<lambda>c. ch_at c < start) mine))
         in sort_key ch_at (inside @ take 1 before)))"

record production_totals =
  pt_good :: int
  pt_reject :: int
  pt_planned :: int
  pt_cycles :: "real list"

definition production :: "kpi_db \<Rightarrow> nat list \<Rightarrow> int \<Rightarrow> int \<Rightarrow> production_totals" where
  "production db ids start end' =
     (if ids = [] then \<lparr>pt_good = 0, pt_reject = 0, pt_planned = 0, pt_cycles = []\<rparr>
      else
        (let rows = filter (\<lambda>r. cr_asset r \<in> set ids \<and> in_period start end' (cr_time r)) (kd_counts db)
         in \<lparr>pt_good = sum_list (map cr_good rows), pt_reject = sum_list (map cr_reject rows),
             pt_planned = sum_list (map (\<lambda>r. cr_good r + cr_reject r) (filter cr_planned rows)),
             pt_cycles = List.map_filter cr_cycle rows\<rparr>))"

definition readings_in :: "kpi_db \<Rightarrow> nat list \<Rightarrow> int \<Rightarrow> int \<Rightarrow> reading_row list" where
  "readings_in db ids start end' = filter (\<lambda>r. rd_asset r \<in> set ids \<and> in_period start end' (rd_time r)) (kd_readings db)"

definition energy_totals :: "kpi_db \<Rightarrow> nat list \<Rightarrow> int \<Rightarrow> int \<Rightarrow> real \<times> real \<times> real" where
  "energy_totals db ids start end' =
     (let rows = readings_in db ids start end'
      in if ids = [] \<or> rows = [] then (0, 0, 0)
         else (sum_list (map rd_energy rows), Max (set (map rd_power rows)),
               sum_list (map (\<lambda>r. rd_energy r * case_option 0 id (rd_rate r)) rows)))"

definition state_before :: "kpi_db \<Rightarrow> nat \<Rightarrow> int \<Rightarrow> string option" where
  "state_before db a t =
     map_option (\<lambda>c. fst (snd c))
       (in_force (map change_of (filter (\<lambda>e. er_asset e = a) (kd_events db))) t)"

definition idle_energy :: "kpi_db \<Rightarrow> nat list \<Rightarrow> int \<Rightarrow> int \<Rightarrow> real" where
  "idle_energy db ids start end' =
     (if ids = [] then 0
      else sum_list (map rd_energy (filter (\<lambda>r. state_before db (rd_asset r) (rd_time r) \<in> {Some ''IDLE'', Some ''DOWN''})
        (readings_in db ids start end'))))"

definition energy_by_asset :: "kpi_db \<Rightarrow> nat list \<Rightarrow> int \<Rightarrow> int \<Rightarrow> (string \<times> string \<times> real) list" where
  "energy_by_asset db ids start end' =
     (let rows = List.map_filter (\<lambda>r. map_option (\<lambda>a. ((ra_code a, ra_name a), rd_energy r)) (asset_row db (rd_asset r)))
                   (readings_in db ids start end');
          groups = map (\<lambda>g. (fst g, snd g, sum_list (map snd (filter (\<lambda>r. fst r = g) rows)))) (remdups (map fst rows))
      in if ids = [] then [] else take 5 (sort_key (\<lambda>(c, n, kwh). - kwh) groups))"

definition HOUR_US :: int where "HOUR_US = 3600 * 10 ^ 6"

definition bucket_of :: "int \<Rightarrow> int" where
  "bucket_of t = t - t mod HOUR_US"

definition hourly_energy_and_output :: "kpi_db \<Rightarrow> nat list \<Rightarrow> int \<Rightarrow> int \<Rightarrow> (int \<times> real \<times> real) list" where
  "hourly_energy_and_output db ids start end' =
     (if ids = [] then []
      else
        (let readings = readings_in db ids start end';
             counts = filter (\<lambda>r. cr_asset r \<in> set ids \<and> in_period start end' (cr_time r)) (kd_counts db)
         in map (\<lambda>b. (b,
               sum_list (map (\<lambda>r. of_int (cr_good r + cr_reject r)) (filter (\<lambda>r. bucket_of (cr_time r) = b) counts)),
               sum_list (map rd_energy (filter (\<lambda>r. bucket_of (rd_time r) = b) readings))))
             (sort (remdups (map (bucket_of \<circ> rd_time) readings)))))"

definition breakdowns :: "kpi_db \<Rightarrow> nat list \<Rightarrow> int \<Rightarrow> int \<Rightarrow> int" where
  "breakdowns db ids start end' =
     (if ids = [] then 0
      else int (length (filter (\<lambda>e. er_asset e \<in> set ids \<and> in_period start end' (er_time e)
        \<and> er_state e = ''DOWN'' \<and> er_cause e = Some ''breakdown'') (kd_events db))))"

definition repairs :: "kpi_db \<Rightarrow> nat list \<Rightarrow> int \<Rightarrow> int \<Rightarrow> real \<times> int" where
  "repairs db ids start end' =
     (if ids = [] then (0, 0)
      else
        (let rows = filter (\<lambda>r. cl_asset r \<in> set ids \<and> cl_closed r \<and> \<not> cl_deleted r \<and> cl_start r \<noteq> None
               \<and> (case cl_end r of None \<Rightarrow> False | Some t \<Rightarrow> in_period start end' t)) (kd_orders db)
         in (sum_list (map (\<lambda>r. real_of_int (the (cl_end r) - the (cl_start r)) / 10 ^ 6) rows), int (length rows))))"

definition ideal_cycle_time :: "kpi_db \<Rightarrow> nat list \<Rightarrow> real option" where
  "ideal_cycle_time db ids =
     (let cs = List.map_filter ra_ideal (filter (\<lambda>a. ra_id a \<in> set ids) (kd_assets db))
      in if ids = [] \<or> cs = [] then None else Some (mean_of cs))"

fun owner_plant :: "kpi_db \<Rightarrow> scope \<Rightarrow> nat \<Rightarrow> registry_plant option" where
  "owner_plant db Plant_Scope i = plant_of db i"
| "owner_plant db Line_Scope i = Option.bind (line_of db i) (\<lambda>l. plant_of db (rl_plant l))"
| "owner_plant db Asset_Scope i =
     Option.bind (asset_row db i) (\<lambda>a. Option.bind (line_of db (ra_line a)) (\<lambda>l. plant_of db (rl_plant l)))"

definition plant_factors :: "kpi_db \<Rightarrow> scope \<Rightarrow> nat \<Rightarrow> real \<times> string" where
  "plant_factors db sc i =
     (case owner_plant db sc i of None \<Rightarrow> (716 / 1000, ''INR'') | Some p \<Rightarrow> (rp_factor p, rp_currency p))"

definition latest_baseline :: "kpi_db \<Rightarrow> scope \<Rightarrow> nat \<Rightarrow> stored_baseline option" where
  "latest_baseline db sc i =
     (case filter (\<lambda>b. sb_scope b = sc \<and> sb_scope_id b = i) (kd_baselines db) of
        [] \<Rightarrow> None
      | b # bs \<Rightarrow> Some (hd (sort_key (\<lambda>b. - sb_created b) (b # bs))))"

section \<open>The events of one asset\<close>

text \<open>One asset has one event per instant: \<open>(time, asset_id)\<close> is the primary key.\<close>

definition events_keyed :: "kpi_db \<Rightarrow> bool" where
  "events_keyed db \<longleftrightarrow> distinct (map (\<lambda>e. (er_time e, er_asset e)) (kd_events db))"

definition history :: "kpi_db \<Rightarrow> nat \<Rightarrow> change list" where
  "history db a = map change_of (filter (\<lambda>e. er_asset e = a) (kd_events db))"

lemma history_distinct:
  assumes "events_keyed db"
  shows "distinct (map ch_at (history db a))"
proof -
  have "distinct (map (\<lambda>e. (er_time e, er_asset e)) es) \<Longrightarrow>
      distinct (map (\<lambda>e. er_time e) (filter (\<lambda>e. er_asset e = a) es))" for es
    by (induction es) (auto simp: image_iff)
  with assms show ?thesis by (simp add: events_keyed_def history_def change_of_def comp_def)
qed

lemma in_force_iff:
  assumes "distinct (map ch_at es)"
  shows "in_force es t = Some e \<longleftrightarrow> e \<in> set es \<and> ch_at e \<le> t \<and> (\<forall>x \<in> set es. ch_at x \<le> t \<longrightarrow> ch_at x \<le> ch_at e)"
proof -
  have uniq: "x = y" if "x \<in> set es" "y \<in> set es" "ch_at x = ch_at y" for x y
    using assms that by (auto simp: distinct_map inj_on_def)
  let ?past = "filter (\<lambda>e. ch_at e \<le> t) es"
  show ?thesis
  proof (cases "?past = []")
    case True
    then show ?thesis by (auto simp: in_force_def filter_empty_conv)
  next
    case False
    let ?m = "Max (ch_at ` set ?past)"
    have "ch_at ` set ?past \<noteq> {}" using False by (metis image_is_empty set_empty)
    then have "?m \<in> ch_at ` set ?past" by (intro Max_in) simp_all
    then obtain y where y: "y \<in> set es" "ch_at y \<le> t" "ch_at y = ?m" by auto
    have latest: "ch_at x \<le> ?m" if "x \<in> set es" "ch_at x \<le> t" for x
      using that by (intro Max_ge) auto
    have "set (filter (\<lambda>e. ch_at e = ?m) es) = {y}" 
    proof (rule set_eqI)
      fix z
      show "z \<in> set (filter (\<lambda>e. ch_at e = ?m) es) \<longleftrightarrow> z \<in> {y}"
        using y(1,3) uniq [of z y] by auto
    qed
    moreover have "filter (\<lambda>e. ch_at e = ?m) es \<noteq> []" using y(1,3) by (auto simp: filter_empty_conv)
    ultimately have "last (filter (\<lambda>e. ch_at e = ?m) es) = y" by (metis last_in_set singletonD)
    with False have "in_force es t = Some y" by (simp add: in_force_def)
    then show ?thesis using y latest uniq by (metis option.inject order_antisym)
  qed
qed

lemma in_force_None_iff: "in_force es t = None \<longleftrightarrow> (\<forall>e \<in> set es. t < ch_at e)"
  by (force simp: in_force_def Let_def filter_empty_conv not_le split: if_splits)

lemma latest_before:
  assumes "e \<in> set es" and "ch_at e < start"
  shows "\<exists>x. take 1 (rev (sort_key ch_at (filter (\<lambda>c. ch_at c < start) es))) = [x]
    \<and> x \<in> set es \<and> ch_at x < start \<and> ch_at e \<le> ch_at x"
proof -
  let ?xs = "sort_key ch_at (filter (\<lambda>c. ch_at c < start) es)"
  have mem: "e \<in> set ?xs" using assms by simp
  then have ne: "?xs \<noteq> []" by (metis empty_iff empty_set)
  have "ch_at e \<le> ch_at (last ?xs)"
  proof -
    obtain i where "i < length ?xs" "?xs ! i = e" using mem by (metis in_set_conv_nth)
    moreover have "sorted (map ch_at ?xs)" by simp
    ultimately have "map ch_at ?xs ! i \<le> map ch_at ?xs ! (length ?xs - 1)"
      by (intro sorted_nth_mono) auto
    then show ?thesis using \<open>i < length ?xs\<close> \<open>?xs ! i = e\<close> ne by (simp add: last_conv_nth del: length_sort)
  qed
  moreover have "last ?xs \<in> set es" "ch_at (last ?xs) < start" using last_in_set [OF ne] by auto
  moreover have "take 1 (rev ?xs) = [last ?xs]" using ne by (cases ?xs rule: rev_cases) auto
  ultimately show ?thesis by blast
qed

lemma state_events_in_force:
  assumes "events_keyed db" and "start \<le> t" and "t < end'"
  shows "in_force (state_events db [a] start end') t = in_force (history db a) t"
proof -
  let ?E = "history db a"
  define old where "old = take 1 (rev (sort_key ch_at (filter (\<lambda>c. ch_at c < start) ?E)))"
  define Q where "Q = filter (\<lambda>c. in_period start end' (ch_at c)) ?E @ old"
  have dist: "distinct (map ch_at ?E)" by (rule history_distinct [OF assms(1)])
  have old: "set old \<subseteq> set (filter (\<lambda>c. ch_at c < start) ?E)"
    unfolding old_def using set_take_subset by (metis (no_types, lifting) set_rev set_sort)
  have sub: "set Q \<subseteq> set ?E" using old by (auto simp: Q_def)
  have "length old \<le> 1" by (simp add: old_def)
  then have "distinct old" by (cases old) auto
  then have "distinct Q" using dist old by (auto simp: Q_def distinct_map in_period_def)
  then have distQ: "distinct (map ch_at Q)"
    using dist sub by (auto simp: distinct_map intro: inj_on_subset)
  have "state_events db [a] start end' = sort_key ch_at Q"
    by (simp add: state_events_def Q_def old_def history_def Let_def)
  then have eq: "in_force (state_events db [a] start end') t = in_force Q t" by (simp add: in_force_sort)
  show ?thesis
  proof (cases "in_force ?E t")
    case None
    then have "in_force Q t = None" using sub unfolding in_force_None_iff by blast
    with None show ?thesis by (simp add: eq)
  next
    case (Some e)
    then have e: "e \<in> set ?E" "ch_at e \<le> t" "\<forall>x \<in> set ?E. ch_at x \<le> t \<longrightarrow> ch_at x \<le> ch_at e"
      by (simp_all add: in_force_iff [OF dist])
    have "e \<in> set Q"
    proof (cases "start \<le> ch_at e")
      case True
      then show ?thesis using e assms by (simp add: Q_def in_period_def)
    next
      case False
      then obtain x where x: "old = [x]" "x \<in> set ?E" "ch_at x < start" "ch_at e \<le> ch_at x"
        using latest_before [OF e(1), of start] by (auto simp: old_def)
      then have "ch_at x = ch_at e" using e(3) assms(2) by force
      then have "x = e" using dist e(1) x(2) by (auto simp: distinct_map inj_on_def)
      then show ?thesis using x(1) by (simp add: Q_def)
    qed
    then have "in_force Q t = Some e" using e sub by (auto simp: in_force_iff [OF distQ])
    then show ?thesis using Some eq by simp
  qed
qed

lemma asset_durations:
  assumes "events_keyed db"
  shows "seconds_where (\<lambda>d. sd_state d = st \<and> sd_cause d = c)
      (durations_from_events (state_events db [a] start end') start end')
    = real (card (instants (history db a) start end' st c)) / 10 ^ 6"
proof -
  have "instants (state_events db [a] start end') start end' st c = instants (history db a) start end' st c"
    using state_events_in_force [OF assms] by (auto simp: instants_def)
  then show ?thesis
    using spans_account [of "sort_key ch_at (state_events db [a] start end')" st c start end']
    by (simp add: durations_from_events_def instants_def in_force_sort)
qed

end
