(* ===== verification/Kpi_Service.thy ===== *)
theory Kpi_Service
  imports Kpi_Store Ingest_Consumer "HOL-Library.List_Lexorder" "HOL-Library.Char_ord"
begin

text \<open>
  The KPI and energy services (\<open>apps/api/app/modules/analytics/service.py\<close>) and the roll-up worker
  (\<open>apps/api/app/workers/tasks/rollup.py\<close>). A local time is the wall clock in microseconds since the
  epoch's midnight; the plant's zone is the function \<open>to_utc\<close> from it to an instant. The latest health
  index of an asset is an input.
\<close>

definition TREND_BUCKETS :: nat where "TREND_BUCKETS = 12"

definition CYCLE_TIME_BINS :: nat where "CYCLE_TIME_BINS = 10"

section \<open>KPI service\<close>

definition durations :: "kpi_db \<Rightarrow> scope \<Rightarrow> nat \<Rightarrow> int \<Rightarrow> int \<Rightarrow> state_duration list" where
  "durations db sc i start end' = durations_from_events (state_events db (asset_ids db sc i) start end') start end'"

definition compute_production :: "kpi_db \<Rightarrow> scope \<Rightarrow> nat \<Rightarrow> int \<Rightarrow> int \<Rightarrow> kpi_result list" where
  "compute_production db sc i start end' =
     (let ids = asset_ids db sc i; made = production db ids start end'; (repair_time, repaired) = repairs db ids start end'
      in compute_all (durations_from_events (state_events db ids start end') start end')
           (pt_good made) (pt_reject made) (ideal_cycle_time db ids) (breakdowns db ids start end') repair_time repaired)"

definition by_code :: "kpi_result list \<Rightarrow> string \<Rightarrow> kpi_result option" where
  "by_code rs code = List.find (\<lambda>r. kr_code r = code) (rev rs)"

definition trend_step :: "int \<Rightarrow> int \<Rightarrow> int" where
  "trend_step start end' = round_even (real_of_int (end' - start) / real TREND_BUCKETS)"

definition oee_trend :: "kpi_db \<Rightarrow> scope \<Rightarrow> nat \<Rightarrow> int \<Rightarrow> int \<Rightarrow> (int \<times> (string \<times> real) list) list" where
  "oee_trend db sc i start end' =
     (let s = trend_step start end' in
      if s \<le> 0 then []
      else map (\<lambda>b. (start + s * int b,
             map (\<lambda>r. (kr_code r, kr_value r)) (compute_production db sc i (start + s * int b) (start + s * int b + s))))
           [0..<TREND_BUCKETS])"

record oee_response =
  or_oee :: real
  or_availability :: real
  or_performance :: real
  or_quality :: real
  or_inputs :: "(string \<times> (string \<times> kpi_input) list) list"
  or_trend :: "(int \<times> (string \<times> real) list) list"

definition kpi_oee :: "kpi_db \<Rightarrow> scope \<Rightarrow> nat \<Rightarrow> int \<Rightarrow> int \<Rightarrow> oee_response" where
  "kpi_oee db sc i start end' =
     (let rs = compute_production db sc i start end'; val = (\<lambda>code. kr_value (the (by_code rs code)))
      in \<lparr>or_oee = val ''oee'', or_availability = val ''availability'', or_performance = val ''performance'',
          or_quality = val ''quality'', or_inputs = map (\<lambda>r. (kr_code r, kr_inputs r)) rs,
          or_trend = oee_trend db sc i start end'\<rparr>)"

definition int_input :: "string \<Rightarrow> kpi_result \<Rightarrow> int" where
  "int_input name r = (case map_of (kr_inputs r) name of Some (In_Int n) \<Rightarrow> n | _ \<Rightarrow> 0)"

definition reliability :: "kpi_db \<Rightarrow> scope \<Rightarrow> nat \<Rightarrow> int \<Rightarrow> int \<Rightarrow> real \<times> real \<times> int \<times> int" where
  "reliability db sc i start end' =
     (let rs = compute_production db sc i start end'; b = the (by_code rs ''mtbf''); r = the (by_code rs ''mttr'')
      in (kr_value b, kr_value r, int_input ''breakdowns'' b, int_input ''repairs'' r))"

definition service_pareto :: "kpi_db \<Rightarrow> scope \<Rightarrow> nat \<Rightarrow> int \<Rightarrow> int \<Rightarrow> real \<times> pareto_row list" where
  "service_pareto db sc i start end' =
     (let rows = downtime_pareto 10 (durations db sc i start end')
      in (round_dec 1 (sum_list (map pr_seconds rows)), rows))"

definition bump :: "nat \<Rightarrow> nat list \<Rightarrow> nat list" where
  "bump i counts = counts[i := Suc (counts ! i)]"

definition bin_of :: "real \<Rightarrow> real \<Rightarrow> nat \<Rightarrow> real \<Rightarrow> nat" where
  "bin_of low width bins v = nat (min (trunc ((v - low) / width)) (int bins - 1))"

definition histogram :: "nat \<Rightarrow> real list \<Rightarrow> (real \<times> real \<times> nat) list" where
  "histogram bins vs =
     (if vs = [] then []
      else (let low = Min (set vs); high = Max (set vs) in
        if high = low then [(low, high, length vs)]
        else (let width = (high - low) / real bins;
                  counts = fold (\<lambda>v. bump (bin_of low width bins v)) vs (replicate bins 0)
              in map (\<lambda>(i, n). (round_dec 4 (low + real i * width), round_dec 4 (low + (real i + 1) * width), n))
                   (enumerate 0 counts))))"

record plan_response =
  pp_planned :: int
  pp_actual :: int
  pp_attainment :: real
  pp_histogram :: "(real \<times> real \<times> nat) list"

definition production_vs_plan :: "kpi_db \<Rightarrow> scope \<Rightarrow> nat \<Rightarrow> int \<Rightarrow> int \<Rightarrow> plan_response" where
  "production_vs_plan db sc i start end' =
     (let made = production db (asset_ids db sc i) start end'; actual = pt_good made + pt_reject made
      in \<lparr>pp_planned = pt_planned made, pp_actual = actual,
          pp_attainment = (if pt_planned made \<noteq> 0 then round_dec 3 (100 * of_int actual / of_int (pt_planned made)) else 0),
          pp_histogram = histogram CYCLE_TIME_BINS (pt_cycles made)\<rparr>)"

definition kpi_series ::
    "kpi_db \<Rightarrow> scope \<Rightarrow> nat \<Rightarrow> period \<Rightarrow> int \<Rightarrow> int \<Rightarrow> string list
      \<Rightarrow> (string \<times> string \<times> string \<times> string \<times> (int \<times> kpi_cell) list) list" where
  "kpi_series db sc i p start end' codes =
     (let rows = kpi_values db sc i p start end' codes
      in map (\<lambda>code. (code,
            (case kpi_definition_of db code of None \<Rightarrow> code | Some d \<Rightarrow> kf_name d),
            (case kpi_definition_of db code of None \<Rightarrow> '''' | Some d \<Rightarrow> kf_unit d),
            (case kpi_definition_of db code of None \<Rightarrow> '''' | Some d \<Rightarrow> kf_formula d),
            map (\<lambda>(k, v). (kk_time k, v)) (filter (\<lambda>(k, v). kk_code k = code) rows)))
          (sort (remdups (map (\<lambda>(k, v). kk_code k) rows))))"

section \<open>Energy service\<close>

definition energy_summary_object :: "kpi_db \<Rightarrow> scope \<Rightarrow> nat \<Rightarrow> int \<Rightarrow> int \<Rightarrow> energy_summary" where
  "energy_summary_object db sc i start end' =
     (let ids = asset_ids db sc i; (energy, peak, cost) = energy_totals db ids start end';
          (factor, currency) = plant_factors db sc i
      in summarise energy (idle_energy db ids start end') peak cost (pt_good (production db ids start end'))
           factor currency (energy_by_asset db ids start end'))"

definition residual_std :: "stored_baseline \<Rightarrow> (int \<times> real \<times> real) list \<Rightarrow> real" where
  "residual_std b obs =
     (let rs = map (\<lambda>(t, units, kwh). kwh - (sb_intercept b + sb_slope b * units)) obs; n = length rs
      in if n < 3 then 0
         else sqrt (sum_list (map (\<lambda>r. (r - mean_of rs) ^ 2) rs) / (real n - 1)))"

definition energy_anomalies ::
    "kpi_db \<Rightarrow> real option \<Rightarrow> scope \<Rightarrow> nat \<Rightarrow> string \<Rightarrow> int \<Rightarrow> int \<Rightarrow> energy_anomaly list" where
  "energy_anomalies db health sc i name start end' =
     (case latest_baseline db sc i of
        None \<Rightarrow> []
      | Some row \<Rightarrow>
          (let obs = hourly_energy_and_output db (asset_ids db sc i) start end' in
           if obs = [] then []
           else map (\<lambda>a. a\<lparr>ea_health := (if sc = Asset_Scope then health else None)\<rparr>)
             (find_anomalies \<lparr>bl_intercept = sb_intercept row, bl_slope = sb_slope row, bl_r2 = sb_r2 row,
                 bl_residual_std = residual_std row obs, bl_n = length obs\<rparr> obs name ANOMALY_SIGMA)))"

datatype analytics_error = No_Assets | Not_Enough_Data nat

definition store_baseline :: "int \<Rightarrow> scope \<Rightarrow> nat \<Rightarrow> int \<Rightarrow> int \<Rightarrow> baseline \<Rightarrow> stored_baseline" where
  "store_baseline now sc i start end' b =
     \<lparr>sb_scope = sc, sb_scope_id = i, sb_start = start, sb_end = end', sb_intercept = bl_intercept b,
      sb_slope = bl_slope b, sb_r2 = bl_r2 b, sb_created = now\<rparr>"

definition create_baseline ::
    "int \<Rightarrow> scope \<Rightarrow> nat \<Rightarrow> int \<Rightarrow> int \<Rightarrow> kpi_db \<Rightarrow> analytics_error + kpi_db" where
  "create_baseline now sc i start end' db =
     (let ids = asset_ids db sc i in
      if ids = [] then Inl No_Assets
      else (let obs = hourly_energy_and_output db ids start end' in
        case fit_baseline (map snd obs) of
          None \<Rightarrow> Inl (Not_Enough_Data (length obs))
        | Some b \<Rightarrow> Inr (db\<lparr>kd_baselines := kd_baselines db @ [store_baseline now sc i start end' b]\<rparr>)))"

definition intensity_trend ::
    "kpi_db \<Rightarrow> scope \<Rightarrow> nat \<Rightarrow> int \<Rightarrow> int \<Rightarrow> (int \<times> real \<times> real \<times> real option \<times> real option) list" where
  "intensity_trend db sc i start end' =
     map (\<lambda>(t, units, kwh). (t, units, round_dec 3 kwh,
         (if 0 < units then Some (round_dec 4 (kwh / units)) else None),
         map_option (\<lambda>b. round_dec 3 (sb_intercept b + sb_slope b * units)) (latest_baseline db sc i)))
       (hourly_energy_and_output db (asset_ids db sc i) start end')"

section \<open>Roll-up\<close>

definition kpi_row :: "period \<Rightarrow> scope \<Rightarrow> nat \<Rightarrow> int \<Rightarrow> kpi_result \<Rightarrow> kpi_key \<times> kpi_cell" where
  "kpi_row p sc i start r =
     (\<lparr>kk_time = start, kk_period = p, kk_scope = sc, kk_scope_id = i, kk_code = kr_code r\<rparr>, (kr_value r, kr_inputs r))"

definition rollup_rows :: "kpi_db \<Rightarrow> scope \<Rightarrow> nat \<Rightarrow> period \<Rightarrow> int \<Rightarrow> int \<Rightarrow> (kpi_key \<times> kpi_cell) list" where
  "rollup_rows db sc i p start end' =
     map (kpi_row p sc i start)
       (compute_production db sc i start end' @ as_kpi_results (energy_summary_object db sc i start end'))"

definition rollup :: "scope \<Rightarrow> nat \<Rightarrow> period \<Rightarrow> int \<Rightarrow> int \<Rightarrow> kpi_db \<Rightarrow> (nat \<times> kpi_db) option" where
  "rollup sc i p start end' db = upsert_many (rollup_rows db sc i p start end') db"

definition DAY_US :: int where "DAY_US = 24 * HOUR_US"

definition weekday :: "int \<Rightarrow> int" where
  "weekday t = (t div DAY_US + 3) mod 7"

definition clock :: "int \<Rightarrow> int" where
  "clock t = t mod DAY_US"

definition midnight :: "int \<Rightarrow> int" where
  "midnight t = t - clock t"

definition within_clock :: "int \<Rightarrow> int \<Rightarrow> int \<Rightarrow> bool" where
  "within_clock c start end' =
     (if start \<le> end' then start \<le> c \<and> c < end' else start \<le> c \<or> c < end')"

record shift_row =
  sh_code :: string
  sh_plant :: nat
  sh_starts :: int
  sh_ends :: int
  sh_days :: "int list"

definition for_plant :: "nat \<Rightarrow> shift_row list \<Rightarrow> shift_row list" where
  "for_plant i shifts = sort_key sh_code (filter (\<lambda>s. sh_plant s = i) shifts)"

definition shift_active :: "int \<Rightarrow> shift_row \<Rightarrow> bool" where
  "shift_active now s \<longleftrightarrow> weekday now \<in> set (sh_days s) \<and> within_clock (clock now) (sh_starts s) (sh_ends s)"

definition shift_span :: "int \<Rightarrow> shift_row \<Rightarrow> int \<times> int" where
  "shift_span now s =
     (if sh_ends s \<le> sh_starts s then
        (let start = midnight now + sh_starts s - (if clock now < sh_ends s then DAY_US else 0)
         in (start, midnight (start + DAY_US) + sh_ends s))
      else (midnight now + sh_starts s, midnight (midnight now + sh_starts s) + sh_ends s))"

definition shift_bounds :: "shift_row list \<Rightarrow> int \<Rightarrow> int \<times> int" where
  "shift_bounds shifts now =
     (case List.find (shift_active now) shifts of
        Some s \<Rightarrow> shift_span now s
      | None \<Rightarrow> (midnight now, midnight now + DAY_US))"

text \<open>The day of the month of a day number, in the proleptic Gregorian calendar of \<open>datetime\<close>.\<close>

definition day_of_month :: "int \<Rightarrow> int" where
  "day_of_month d =
     (let z = (d + 719468) mod 146097;
          y = (z - z div 1460 + z div 36524 - z div 146096) div 365;
          doy = z - (365 * y + y div 4 - y div 100);
          m = (5 * doy + 2) div 153
      in doy - (153 * m + 2) div 5 + 1)"

definition first_of_month :: "int \<Rightarrow> int" where
  "first_of_month t = midnight t - (day_of_month (t div DAY_US) - 1) * DAY_US"

definition period_bounds :: "period \<Rightarrow> shift_row list \<Rightarrow> int \<Rightarrow> int \<times> int" where
  "period_bounds p shifts now =
     (case p of
        Shift \<Rightarrow> shift_bounds shifts now
      | Week \<Rightarrow> (let start = midnight (now - weekday now * DAY_US) in (start, start + 7 * DAY_US))
      | Month \<Rightarrow> (let start = first_of_month now in (start, first_of_month (start + 32 * DAY_US)))
      | Day \<Rightarrow> (midnight now, midnight now + DAY_US))"

definition plant_scopes :: "kpi_db \<Rightarrow> nat \<Rightarrow> (scope \<times> nat) list" where
  "plant_scopes db i =
     (Plant_Scope, i)
     # map (\<lambda>l. (Line_Scope, rl_id l)) (filter (\<lambda>l. rl_plant l = i \<and> \<not> rl_deleted l) (kd_lines db))
     @ map (\<lambda>a. (Asset_Scope, ra_id a)) (filter (\<lambda>a. \<not> ra_deleted a
         \<and> (case line_of db (ra_line a) of None \<Rightarrow> False | Some l \<Rightarrow> rl_plant l = i)) (kd_assets db))"

definition rollup_scope :: "period \<Rightarrow> int \<Rightarrow> int \<Rightarrow> scope \<times> nat \<Rightarrow> nat \<times> kpi_db \<Rightarrow> nat \<times> kpi_db" where
  "rollup_scope p start end' s nd =
     (case (s, nd) of ((sc, i), (n, db)) \<Rightarrow>
        (case rollup sc i p start end' db of None \<Rightarrow> (n, db) | Some (k, db') \<Rightarrow> (n + k, db')))"

definition rollup_plant ::
    "(nat \<Rightarrow> int \<Rightarrow> int) \<Rightarrow> (nat \<Rightarrow> int) \<Rightarrow> shift_row list \<Rightarrow> period \<Rightarrow> registry_plant \<Rightarrow> nat \<times> kpi_db \<Rightarrow> nat \<times> kpi_db" where
  "rollup_plant to_utc local_now shifts p pl nd =
     (let (s, e) = period_bounds p (for_plant (rp_id pl) shifts) (local_now (rp_id pl))
      in fold (rollup_scope p (to_utc (rp_id pl) s) (to_utc (rp_id pl) e)) (plant_scopes (snd nd) (rp_id pl)) nd)"

definition rollup_kpis ::
    "(nat \<Rightarrow> int \<Rightarrow> int) \<Rightarrow> (nat \<Rightarrow> int) \<Rightarrow> shift_row list \<Rightarrow> period \<Rightarrow> kpi_db \<Rightarrow> nat \<times> kpi_db" where
  "rollup_kpis to_utc local_now shifts p db =
     fold (rollup_plant to_utc local_now shifts p) (filter (\<lambda>pl. \<not> rp_deleted pl) (kd_plants db)) (0, db)"

definition refresh_asset :: "int \<Rightarrow> int \<Rightarrow> registry_asset \<Rightarrow> nat \<times> kpi_db \<Rightarrow> nat \<times> kpi_db" where
  "refresh_asset start now a nd =
     (case nd of (n, db) \<Rightarrow>
        (case fit_baseline (map snd (hourly_energy_and_output db [ra_id a] start now)) of
           None \<Rightarrow> (n, db)
         | Some b \<Rightarrow> (Suc n, db\<lparr>kd_baselines := kd_baselines db @ [store_baseline now Asset_Scope (ra_id a) start now b]\<rparr>)))"

definition refresh_energy_baselines :: "int \<Rightarrow> int \<Rightarrow> kpi_db \<Rightarrow> nat \<times> kpi_db" where
  "refresh_energy_baselines lookback_days now db =
     fold (refresh_asset (now - lookback_days * DAY_US) now) (filter (\<lambda>a. \<not> ra_deleted a) (kd_assets db)) (0, db)"

end
