(* ===== verification/Kpi_Facts.thy ===== *)
theory Kpi_Facts
  imports Kpi_Service
begin

text \<open>
  What the KPI services guarantee: the state times of a machine are exact whatever the query returns
  them from, a roll-up can be run again without changing or duplicating a value, the bounds of a
  shift, day or week contain the present. The last section shows where the figures go wrong: lines,
  breakdowns, plan attainment and roll-ups at a shift boundary.
\<close>

section \<open>State times of a machine\<close>

definition demo_event :: "int \<Rightarrow> nat \<Rightarrow> string \<Rightarrow> event_row" where
  "demo_event t a st = \<lparr>er_time = t, er_asset = a, er_state = st, er_cause = None\<rparr>"

definition demo_kpi_db :: kpi_db where
  "demo_kpi_db =
     \<lparr>kd_events = [demo_event 0 1 ''RUNNING'', demo_event 0 2 ''RUNNING'', demo_event (10 ^ 7) 2 ''DOWN''],
      kd_counts = [\<lparr>cr_time = 5, cr_asset = 1, cr_good = 8, cr_reject = 2, cr_cycle = Some 30, cr_planned = True\<rparr>],
      kd_readings = [\<lparr>rd_time = 5, rd_asset = 1, rd_power = 4, rd_energy = 2, rd_rate = Some 7\<rparr>],
      kd_orders = [],
      kd_assets = [\<lparr>ra_id = 1, ra_line = 1, ra_code = ''cnc-01'', ra_name = ''CNC 1'', ra_ideal = Some 30, ra_deleted = False\<rparr>,
                   \<lparr>ra_id = 2, ra_line = 1, ra_code = ''cnc-02'', ra_name = ''CNC 2'', ra_ideal = None, ra_deleted = False\<rparr>],
      kd_lines = [\<lparr>rl_id = 1, rl_plant = 1, rl_deleted = False\<rparr>],
      kd_plants = [\<lparr>rp_id = 1, rp_factor = 716 / 1000, rp_currency = ''INR'', rp_deleted = False\<rparr>],
      kd_definitions = map (\<lambda>c. \<lparr>kf_code = c, kf_name = c, kf_unit = [], kf_formula = []\<rparr>)
        [''availability'', ''performance'', ''quality'', ''oee'', ''mtbf'', ''mttr'', ''idle_energy_share'', ''peak_demand'',
         ''energy_per_unit''],
      kd_values = [], kd_baselines = []\<rparr>"

text \<open>
  Property C28. The time a machine spent in a state, as the KPI service reports it for any period, is
  exactly the time that state was in force according to its whole event history: the query's events
  of the period and the one before it lose nothing.
\<close>

theorem asset_state_time_exact:
  assumes "events_keyed db"
  shows "seconds_where (\<lambda>d. sd_state d = st \<and> sd_cause d = c) (durations db Asset_Scope a start end')
    = real (card (instants (history db a) start end' st c)) / 10 ^ 6"
  using asset_durations [OF assms] by (simp add: durations_def)

lemma asset_state_time_exact_witness:
  "events_keyed demo_kpi_db
    \<and> seconds_where (\<lambda>d. sd_state d = ''DOWN'' \<and> sd_cause d = None) (durations demo_kpi_db Asset_Scope 2 0 (3 * 10 ^ 7))
      = real (card (instants (history demo_kpi_db 2) 0 (3 * 10 ^ 7) ''DOWN'' None)) / 10 ^ 6"
proof -
  have keyed: "events_keyed demo_kpi_db" by (simp add: events_keyed_def demo_kpi_db_def demo_event_def)
  with asset_state_time_exact [OF keyed] show ?thesis by blast
qed

section \<open>Roll-up\<close>

lemma queries_ignore_values [simp]:
  "asset_ids (db\<lparr>kd_values := v\<rparr>) sc i = asset_ids db sc i"
  "state_events (db\<lparr>kd_values := v\<rparr>) ids s e = state_events db ids s e"
  "production (db\<lparr>kd_values := v\<rparr>) ids s e = production db ids s e"
  "readings_in (db\<lparr>kd_values := v\<rparr>) ids s e = readings_in db ids s e"
  "energy_totals (db\<lparr>kd_values := v\<rparr>) ids s e = energy_totals db ids s e"
  "idle_energy (db\<lparr>kd_values := v\<rparr>) ids s e = idle_energy db ids s e"
  "energy_by_asset (db\<lparr>kd_values := v\<rparr>) ids s e = energy_by_asset db ids s e"
  "breakdowns (db\<lparr>kd_values := v\<rparr>) ids s e = breakdowns db ids s e"
  "repairs (db\<lparr>kd_values := v\<rparr>) ids s e = repairs db ids s e"
  "ideal_cycle_time (db\<lparr>kd_values := v\<rparr>) ids = ideal_cycle_time db ids"
  "plant_factors (db\<lparr>kd_values := v\<rparr>) sc i = plant_factors db sc i"
  by (cases sc; simp add: line_of_def state_events_def production_def readings_in_def energy_totals_def idle_energy_def
        state_before_def energy_by_asset_def asset_row_def breakdowns_def repairs_def ideal_cycle_time_def
        plant_factors_def plant_of_def)+

lemma rollup_rows_values [simp]: "rollup_rows (db\<lparr>kd_values := v\<rparr>) sc i p s e = rollup_rows db sc i p s e"
  by (simp add: rollup_rows_def compute_production_def energy_summary_object_def)

definition KPI_CODES :: "string list" where
  "KPI_CODES = [''availability'', ''performance'', ''quality'', ''oee'', ''mtbf'', ''mttr'', ''idle_energy_share'',
     ''peak_demand'', ''energy_per_unit'']"

lemma compute_all_codes: "map kr_code (compute_all ds g r c b t n) = take 6 KPI_CODES"
  by (simp add: compute_all_def Let_def availability_def performance_def quality_def oee_def mtbf_def mttr_def KPI_CODES_def)

lemma rollup_codes: "\<exists>n. map (kk_code \<circ> fst) (rollup_rows db sc i p s e) = take n KPI_CODES"
proof -
  let ?es = "energy_summary_object db sc i s e"
  have "map (kk_code \<circ> fst) (rollup_rows db sc i p s e)
      = map kr_code (compute_production db sc i s e) @ map kr_code (as_kpi_results ?es)"
    by (simp add: rollup_rows_def kpi_row_def comp_def)
  also have "\<dots> = take (if es_per_unit ?es = None then 8 else 9) KPI_CODES"
    by (auto simp: compute_production_def Let_def compute_all_codes as_kpi_results_def KPI_CODES_def split: prod.split)
  finally show ?thesis by blast
qed

lemma rollup_rows_keyed: "distinct (map fst (rollup_rows db sc i p s e))"
proof -
  have "distinct KPI_CODES" by (simp add: KPI_CODES_def)
  then have "distinct (map kk_code (map fst (rollup_rows db sc i p s e)))"
    using rollup_codes [of db sc i p s e] by (auto simp: distinct_take)
  then show ?thesis unfolding distinct_map [of kk_code] by blast
qed

lemma fold_put_keys: "dict_ok d \<Longrightarrow> dict_ok (fold (\<lambda>(k, v). dict_put k v) rows d)"
  by (induction rows arbitrary: d) (auto simp: split_beta)

lemma fold_put_map_of:
  "distinct (map fst rows) \<Longrightarrow>
   map_of (fold (\<lambda>(k, v). dict_put k v) rows d) k = (case map_of rows k of Some v \<Rightarrow> Some v | None \<Rightarrow> map_of d k)"
proof (induction rows arbitrary: d)
  case (Cons r rows)
  obtain k' v where r: "r = (k', v)" by (cases r)
  with Cons.prems have "map_of rows k' = None" by (simp add: map_of_eq_None_iff)
  with Cons r show ?case by (auto simp: update_conv' split: option.split)
qed simp

lemma fold_put_same:
  "\<forall>(k, v) \<in> set rows. map_of d k = Some v \<Longrightarrow> fold (\<lambda>(k, v). dict_put k v) rows d = d"
  by (induction rows) (auto simp: update_triv)

lemma rollup_overwrites:
  assumes "dict_ok (kd_values db)" and "rollup sc i p start end' db = Some (n, db')"
  shows "map_of (kd_values db') k
      = (case map_of (rollup_rows db sc i p start end') k of Some v \<Rightarrow> Some v | None \<Rightarrow> map_of (kd_values db) k)
    \<and> dict_ok (kd_values db') \<and> db' = db\<lparr>kd_values := kd_values db'\<rparr>
    \<and> rollup sc i p start end' db' = Some (n, db')"
proof -
  let ?rows = "rollup_rows db sc i p start end'"
  let ?vs = "fold (\<lambda>(k, v). dict_put k v) ?rows (kd_values db)"
  have ne: "?rows \<noteq> []" by (simp add: rollup_rows_def compute_production_def compute_all_def Let_def split: prod.split)
  have fk: "set (map (kk_code \<circ> fst) ?rows) \<subseteq> set (map kf_code (kd_definitions db))"
    using assms(2) ne by (auto simp: rollup_def upsert_many_def split: if_splits)
  have db': "db' = db\<lparr>kd_values := ?vs\<rparr>" "n = length ?rows"
    using assms(2) ne fk by (auto simp: rollup_def upsert_many_def)
  have look: "map_of ?vs k = (case map_of ?rows k of Some v \<Rightarrow> Some v | None \<Rightarrow> map_of (kd_values db) k)" for k
    by (rule fold_put_map_of [OF rollup_rows_keyed])
  have "map_of ?rows k = Some v" if "(k, v) \<in> set ?rows" for k v
    using that rollup_rows_keyed by (simp add: map_of_eq_Some_iff)
  then have "fold (\<lambda>(k, v). dict_put k v) ?rows ?vs = ?vs"
    by (intro fold_put_same) (auto simp: look)
  then have "rollup sc i p start end' db' = Some (n, db')"
    using ne fk by (simp add: rollup_def upsert_many_def db')
  moreover have "dict_ok (kd_values db')" using fold_put_keys [OF assms(1)] by (simp add: db')
  ultimately show ?thesis using look by (simp add: db')
qed

text \<open>
  The roll-up overwrites and never accumulates: after it the stored value of every KPI of
  the period is the one just computed, every other value is as before, no key is stored twice, and
  running it again over unchanged data changes nothing.
\<close>

theorem rollup_idempotent:
  assumes "dict_ok (kd_values db)" and "rollup sc i p start end' db = Some (n, db')"
  shows "map_of (kd_values db') k
      = (case map_of (rollup_rows db sc i p start end') k of Some v \<Rightarrow> Some v | None \<Rightarrow> map_of (kd_values db) k)
    \<and> dict_ok (kd_values db') \<and> db' = db\<lparr>kd_values := kd_values db'\<rparr>
    \<and> rollup sc i p start end' db' = Some (n, db')"
  by (rule rollup_overwrites [OF assms])

lemma rollup_writes:
  assumes "set KPI_CODES \<subseteq> set (map kf_code (kd_definitions db))"
  shows "\<exists>n db'. rollup sc i p start end' db = Some (n, db')"
proof -
  obtain n where "map (kk_code \<circ> fst) (rollup_rows db sc i p start end') = take n KPI_CODES"
    using rollup_codes by blast
  then have "set (map (kk_code \<circ> fst) (rollup_rows db sc i p start end')) \<subseteq> set KPI_CODES"
    by (simp only: set_take_subset)
  with assms show ?thesis by (auto simp: rollup_def upsert_many_def)
qed

lemma rollup_idempotent_witness:
  "\<exists>n db'. rollup Line_Scope 1 Day 0 (3 * 10 ^ 7) demo_kpi_db = Some (n, db') \<and> dict_ok (kd_values db')
    \<and> rollup Line_Scope 1 Day 0 (3 * 10 ^ 7) db' = Some (n, db')"
proof -
  have "set KPI_CODES \<subseteq> set (map kf_code (kd_definitions demo_kpi_db))" by (simp add: KPI_CODES_def demo_kpi_db_def)
  then obtain n db' where r: "rollup Line_Scope 1 Day 0 (3 * 10 ^ 7) demo_kpi_db = Some (n, db')"
    using rollup_writes by blast
  have "dict_ok (kd_values demo_kpi_db)" by (simp add: demo_kpi_db_def)
  from rollup_idempotent [OF this r] r show ?thesis by blast
qed

lemma rollup_scope_values:
  assumes "dict_ok (kd_values (snd nd))"
  shows "dict_ok (kd_values (snd (rollup_scope p start end' s nd)))
    \<and> snd (rollup_scope p start end' s nd) = (snd nd)\<lparr>kd_values := kd_values (snd (rollup_scope p start end' s nd))\<rparr>"
proof (cases "rollup (fst s) (snd s) p start end' (snd nd)")
  case None
  then show ?thesis using assms by (simp add: rollup_scope_def split_beta)
next
  case (Some r)
  obtain n db' where r: "r = (n, db')" by (cases r)
  from rollup_overwrites [OF assms Some [unfolded r]]
  have "dict_ok (kd_values db')" "db' = (snd nd)\<lparr>kd_values := kd_values db'\<rparr>" by blast+
  with Some r show ?thesis by (simp add: rollup_scope_def split_beta)
qed

section \<open>Periods\<close>

lemma clock_range: "0 \<le> clock t" "clock t < DAY_US"
  by (simp_all add: clock_def DAY_US_def HOUR_US_def)

lemma midnight_clock: "t = midnight t + clock t"
  by (simp add: midnight_def)

lemma midnight_plus [simp]:
  "0 \<le> x \<Longrightarrow> x < DAY_US \<Longrightarrow> midnight (midnight t + x) = midnight t"
proof -
  assume x: "0 \<le> x" "x < DAY_US"
  have "midnight t = t div DAY_US * DAY_US" by (simp add: midnight_def clock_def minus_mod_eq_div_mult)
  then have "clock (midnight t + x) = x" using x by (simp add: clock_def)
  then show ?thesis by (simp add: midnight_def)
qed

lemma midnight_day [simp]: "midnight (t + DAY_US) = midnight t + DAY_US" "midnight (t - DAY_US) = midnight t - DAY_US"
  "midnight (t + k * DAY_US) = midnight t + k * DAY_US"
  by (simp_all add: midnight_def clock_def)

lemma shift_span_contains:
  assumes "0 \<le> sh_starts s" "sh_starts s < DAY_US" "0 \<le> sh_ends s" "sh_ends s < DAY_US"
    and "within_clock (clock now) (sh_starts s) (sh_ends s)"
  shows "fst (shift_span now s) \<le> now \<and> now < snd (shift_span now s)
    \<and> snd (shift_span now s) - fst (shift_span now s) \<le> DAY_US"
proof (cases "sh_ends s \<le> sh_starts s")
  case True
  with assms(5) have lt: "sh_ends s < sh_starts s" by (auto simp: within_clock_def split: if_splits)
  have start: "midnight (midnight now + sh_starts s) = midnight now" using assms by simp
  show ?thesis
  proof (cases "clock now < sh_ends s")
    case True
    then show ?thesis using lt assms midnight_clock [of now] clock_range [of now] start
      by (simp add: shift_span_def Let_def)
  next
    case False
    then have "sh_starts s \<le> clock now" using assms(5) lt by (auto simp: within_clock_def)
    then show ?thesis using False lt assms midnight_clock [of now] clock_range [of now] start
      by (simp add: shift_span_def Let_def)
  qed
next
  case False
  then have "sh_starts s \<le> clock now" "clock now < sh_ends s" using assms(5) by (auto simp: within_clock_def)
  then show ?thesis using False assms midnight_clock [of now] by (simp add: shift_span_def)
qed

text \<open>
  The period a roll-up runs for contains the present and has its length: the shift in
  progress lasts at most a day, also across midnight, and a day or a week starts at a local midnight.
\<close>

theorem period_contains_now:
  assumes "\<forall>s \<in> set shifts. 0 \<le> sh_starts s \<and> sh_starts s < DAY_US \<and> 0 \<le> sh_ends s \<and> sh_ends s < DAY_US"
    and "p \<noteq> Month"
  shows "fst (period_bounds p shifts now) \<le> now \<and> now < snd (period_bounds p shifts now)
    \<and> snd (period_bounds p shifts now) - fst (period_bounds p shifts now) \<le> (if p = Week then 7 * DAY_US else DAY_US)"
proof -
  have day: "midnight now \<le> now \<and> now < midnight now + DAY_US"
    using midnight_clock [of now] clock_range [of now] by linarith
  show ?thesis
  proof (cases p)
    case Shift
    show ?thesis
    proof (cases "List.find (shift_active now) shifts")
      case None
      then show ?thesis using Shift day by (simp add: period_bounds_def shift_bounds_def)
    next
      case (Some s)
      then have "s \<in> set shifts" "within_clock (clock now) (sh_starts s) (sh_ends s)"
        by (auto simp: find_Some_iff shift_active_def)
      with Some Shift shift_span_contains [of s now] assms(1) show ?thesis
        by (simp add: period_bounds_def shift_bounds_def)
    qed
  next
    case Week
    have "0 \<le> weekday now * DAY_US" "weekday now * DAY_US \<le> 6 * DAY_US"
      by (auto simp: weekday_def DAY_US_def HOUR_US_def intro!: mult_right_mono)
    moreover have "midnight (now - weekday now * DAY_US) = midnight now - weekday now * DAY_US"
      using midnight_day(3) [of now "- weekday now"] by simp
    moreover from calculation day have "midnight now - weekday now * DAY_US \<le> now"
      "now < midnight now - weekday now * DAY_US + 7 * DAY_US" by linarith+
    ultimately show ?thesis using Week by (simp add: period_bounds_def Let_def)
  qed (use day assms(2) in \<open>simp_all add: period_bounds_def\<close>)
qed

definition demo_night_shift :: shift_row where
  "demo_night_shift = \<lparr>sh_code = ''C'', sh_plant = 1, sh_starts = 22 * HOUR_US, sh_ends = 6 * HOUR_US, sh_days = [0, 1, 2, 3, 4]\<rparr>"

lemma period_contains_now_witness:
  "fst (period_bounds Shift [demo_night_shift] (5 * HOUR_US)) \<le> 5 * HOUR_US
    \<and> 5 * HOUR_US < snd (period_bounds Shift [demo_night_shift] (5 * HOUR_US))
    \<and> snd (period_bounds Shift [demo_night_shift] (5 * HOUR_US)) - fst (period_bounds Shift [demo_night_shift] (5 * HOUR_US)) \<le> DAY_US"
  using period_contains_now [of "[demo_night_shift]" Shift "5 * HOUR_US"]
  by (simp add: demo_night_shift_def DAY_US_def HOUR_US_def)

section \<open>Where the figures go wrong\<close>

text \<open>A roll-up at the minute a shift starts covers a shift that has just begun, not the one that ended.\<close>

lemma shift_rollup_starts_now:
  assumes "List.find (shift_active now) shifts = Some s" and "clock now = sh_starts s"
  shows "fst (shift_bounds shifts now) = now"
proof -
  have "within_clock (sh_starts s) (sh_starts s) (sh_ends s)"
    using assms by (auto simp: find_Some_iff shift_active_def)
  then have "\<not> sh_starts s < sh_ends s \<Longrightarrow> sh_ends s < sh_starts s" by (auto simp: within_clock_def split: if_splits)
  then show ?thesis using assms midnight_clock [of now] by (auto simp: shift_bounds_def shift_span_def Let_def)
qed

text \<open>After midnight a night shift is looked up under the new day: Saturday at two it is no longer Friday's.\<close>

lemma friday_night_forgotten:
  "shift_bounds [demo_night_shift] (2 * DAY_US + 2 * HOUR_US) = (2 * DAY_US, 3 * DAY_US)"
  "fst (shift_bounds [demo_night_shift] (4 * DAY_US + 2 * HOUR_US)) = 3 * DAY_US + 22 * HOUR_US"
  by (simp_all add: shift_bounds_def shift_active_def demo_night_shift_def weekday_def within_clock_def clock_def midnight_def
        shift_span_def DAY_US_def HOUR_US_def)

text \<open>The last event runs to the end of the period, also when that end is still to come.\<close>

lemma future_time_counted:
  "start < end' \<Longrightarrow> run_time (durations_from_events [(start, ''RUNNING'', c)] start end') = real_of_int (end' - start) / 10 ^ 6"
  by (simp add: durations_from_events_def run_time_def hold_until_def RUNNING_STATES_def)

text \<open>
  The events of a line's machines are read as one sequence: machine 2 going down after ten seconds
  ends machine 1's run, though machine 1 ran for all of the thirty seconds.
\<close>

lemma line_mixes_machines:
  "run_time (durations demo_kpi_db Asset_Scope 1 0 (3 * 10 ^ 7)) = 30"
  "run_time (durations demo_kpi_db Asset_Scope 2 0 (3 * 10 ^ 7)) = 10"
  "run_time (durations demo_kpi_db Line_Scope 1 0 (3 * 10 ^ 7)) = 10"
  by (simp_all add: durations_def state_events_def demo_kpi_db_def demo_event_def change_of_def in_period_def
        durations_from_events_def hold_until_def run_time_def RUNNING_STATES_def)

definition event_of_ingest :: "state_event \<Rightarrow> event_row" where
  "event_of_ingest e = \<lparr>er_time = 1000 * ev_time e, er_asset = ev_asset e, er_state = ev_state e, er_cause = None\<rparr>"

text \<open>The ingest consumer never writes a cause, so no breakdown is ever counted.\<close>

lemma ingested_no_breakdowns:
  assumes "kd_events db = map event_of_ingest es"
  shows "breakdowns db ids start end' = 0"
proof -
  have "filter (\<lambda>e. er_asset e \<in> set ids \<and> in_period start end' (er_time e) \<and> er_state e = ''DOWN''
      \<and> er_cause e = Some ''breakdown'') (kd_events db) = []"
    by (auto simp: assms event_of_ingest_def filter_empty_conv)
  then show ?thesis by (simp add: breakdowns_def)
qed

text \<open>Nothing writes \<open>planned\<close> either; its default is true, and the plan is what was made.\<close>

lemma attainment_is_full:
  assumes "\<forall>r \<in> set (kd_counts db). cr_planned r"
  shows "pp_planned (production_vs_plan db sc i start end') = pp_actual (production_vs_plan db sc i start end')"
proof -
  have "filter cr_planned (filter P (kd_counts db)) = filter P (kd_counts db)" for P
    unfolding filter_filter by (rule filter_cong) (use assms in auto)
  then show ?thesis by (simp add: production_vs_plan_def production_def Let_def sum_list_addf del: filter_filter)
qed

section \<open>Cycle times\<close>

lemma length_bump [simp]: "length (bump i ns) = length ns"
  by (simp add: bump_def)

lemma sum_bump: "i < length ns \<Longrightarrow> sum_list (bump i ns) = Suc (sum_list ns)"
  by (simp add: bump_def sum_list_update)

lemma sum_fold_bump:
  "\<forall>v \<in> set vs. f v < length ns \<Longrightarrow> sum_list (fold (\<lambda>v. bump (f v)) vs ns) = length vs + sum_list ns"
  by (induction vs arbitrary: ns) (simp_all add: sum_bump)

lemma length_fold_bump [simp]: "length (fold (\<lambda>v. bump (f v)) vs ns) = length ns"
  by (induction vs arbitrary: ns) simp_all

lemma counts_of_bins: "map ((\<lambda>(a, b, n). n) \<circ> (\<lambda>(i, n). (f i, g i, n))) (enumerate k ns) = ns"
  by (induction ns arbitrary: k) simp_all

lemma histogram_counts_all:
  assumes "0 < bins"
  shows "sum_list (map (\<lambda>(a, b, n). n) (histogram bins vs)) = length vs"
proof -
  have "bin_of low w bins v < bins" for low w v
    using assms by (simp add: bin_of_def nat_less_iff)
  then have "sum_list (fold (\<lambda>v. bump (bin_of low w bins v)) vs (replicate bins 0)) = length vs" for low w
    by (subst sum_fold_bump) (simp_all add: sum_list_replicate)
  then show ?thesis by (simp add: histogram_def Let_def counts_of_bins)
qed

end
