(* ===== verification/Pdm_Scoring.thy ===== *)
theory Pdm_Scoring
  imports Edge_Features Py_Numbers
begin

text \<open>
  Scoring with a trained bundle: on the server (\<open>apps/api/app/modules/pdm/scoring.py\<close>) and on the edge
  (\<open>apps/edge/edge/onnx_infer.py\<close>), with the calibration of
  \<open>packages/pdm/.../registry/bundle.py\<close>. What a trained estimator or forest returns for a vector is a
  parameter, a field of the loaded model. Floats are reals, a time is in microseconds.
\<close>

section \<open>Bundles\<close>

record knots =
  kn_x :: "real list"
  kn_y :: "real list"

record bundle_meta =
  bm_task :: string
  bm_rul_cap :: "real option"
  bm_rul_unit :: "string option"
  bm_conformal_q :: "real option"
  bm_coverage :: "real option"
  bm_isotonic :: "knots list"
  bm_classes :: "string list"

text \<open>\<open>np.interp\<close> with ascending knots: constant outside, linear between neighbours.\<close>

fun interp :: "real \<Rightarrow> real list \<Rightarrow> real list \<Rightarrow> real" where
  "interp x (a # b # xs) (fa # fb # ys) =
     (if x \<le> a then fa
      else if x < b then fa + (fb - fa) / (b - a) * (x - a)
      else interp x (b # xs) (fb # ys))"
| "interp x xs (fa # ys) = fa"
| "interp x xs [] = 0"

definition calibrated :: "knots list \<Rightarrow> real list \<Rightarrow> real list" where
  "calibrated maps raw = map (\<lambda>(r, m). interp r (kn_x m) (kn_y m)) (zip raw maps)"

definition apply_isotonic :: "knots list \<Rightarrow> real list \<Rightarrow> real list" where
  "apply_isotonic maps raw =
     (let out = calibrated maps raw; whole = sum_list out
      in if 0 < whole then map (\<lambda>v. v / whole) out else raw)"

record loaded_model =
  lm_meta :: bundle_meta
  lm_spec :: feature_spec
  lm_names :: "string list"
  lm_medians :: "real list"
  lm_predict :: "real list \<Rightarrow> real"
  lm_proba :: "real list \<Rightarrow> real list"
  lm_anomaly :: "(real list \<Rightarrow> real) option"

section \<open>Scores\<close>

record rul_interval =
  ri_point :: real
  ri_low :: real
  ri_high :: real
  ri_unit :: string
  ri_coverage :: "real option"

record score =
  sc_health :: "real option"
  sc_anomaly :: "real option"
  sc_rul :: "rul_interval option"
  sc_failure :: "(string \<times> real) list option"
  sc_confidence :: "string option"
  sc_reasons :: "string list"

text \<open>A cap that is missing or zero is infinite.\<close>

definition cap_of :: "bundle_meta \<Rightarrow> real option" where
  "cap_of m = (case bm_rul_cap m of None \<Rightarrow> None | Some c \<Rightarrow> if c = 0 then None else Some c)"

definition clip :: "real option \<Rightarrow> real \<Rightarrow> real" where
  "clip cap x = (case cap of None \<Rightarrow> max x 0 | Some c \<Rightarrow> min (max x 0) c)"

definition interval_confidence :: "real \<Rightarrow> real option \<Rightarrow> string \<times> string list" where
  "interval_confidence width cap =
     (case cap of
        None \<Rightarrow> (''medium'', [])
      | Some c \<Rightarrow>
          if c \<le> 0 then (''medium'', [])
          else if width / c < 15 / 100 then (''high'', [])
          else if width / c < 35 / 100 then (''medium'', [])
          else (''low'', [''wide_interval'']))"

text \<open>\<open>meta.get("conformal_q") or 0.2 * point\<close>: a stored zero counts as missing.\<close>

definition half_width :: "bundle_meta \<Rightarrow> real \<Rightarrow> real" where
  "half_width m point = (case bm_conformal_q m of None \<Rightarrow> 2 / 10 * point | Some q \<Rightarrow> if q = 0 then 2 / 10 * point else q)"

definition rul_score :: "bundle_meta \<Rightarrow> real \<Rightarrow> rul_interval" where
  "rul_score m raw =
     (let cap = cap_of m; point = clip cap raw; q = half_width m point
      in \<lparr>ri_point = point, ri_low = clip cap (point - q), ri_high = clip cap (point + q),
          ri_unit = (case bm_rul_unit m of None \<Rightarrow> ''cycles'' | Some [] \<Rightarrow> ''cycles'' | Some u \<Rightarrow> u),
          ri_coverage = bm_coverage m\<rparr>)"

definition class_names :: "bundle_meta \<Rightarrow> nat \<Rightarrow> string list" where
  "class_names m n = (if bm_classes m = [] then map nat_str [0..<n] else bm_classes m)"

text \<open>\<open>zip(strict=True)\<close> and a map for a missing class raise: no score.\<close>

definition failure_score :: "bundle_meta \<Rightarrow> real list \<Rightarrow> (string \<times> real) list option" where
  "failure_score m raw =
     (if bm_isotonic m \<noteq> [] \<and> length raw < length (bm_isotonic m) then None
      else (let ps = (if bm_isotonic m = [] then raw else apply_isotonic (bm_isotonic m) raw);
                cs = class_names m (length ps)
            in if length cs \<noteq> length ps then None else Some (dict_of (zip cs ps))))"

definition health_of_anomaly :: "real \<Rightarrow> real" where
  "health_of_anomaly a = round_dec 2 (100 * (1 - a))"

definition score_rul :: "loaded_model \<Rightarrow> real list \<Rightarrow> score" where
  "score_rul lm x =
     (let m = lm_meta lm; r = rul_score m (lm_predict lm x);
          (label, reasons) = interval_confidence (2 * half_width m (ri_point r)) (cap_of m);
          a = map_option (\<lambda>f. f x) (lm_anomaly lm)
      in \<lparr>sc_health = (case a of Some v \<Rightarrow> Some (health_of_anomaly v)
            | None \<Rightarrow> (case cap_of m of Some c \<Rightarrow> if 0 < c then Some (round_dec 2 (100 * ri_point r / c)) else None
                | None \<Rightarrow> None)),
          sc_anomaly = a, sc_rul = Some r, sc_failure = None, sc_confidence = Some label, sc_reasons = reasons\<rparr>)"

definition score_failure :: "loaded_model \<Rightarrow> real list \<Rightarrow> score option" where
  "score_failure lm x =
     map_option (\<lambda>ps.
       let a = map_option (\<lambda>f. f x) (lm_anomaly lm)
       in \<lparr>sc_health = map_option health_of_anomaly a, sc_anomaly = a, sc_rul = None, sc_failure = Some ps,
           sc_confidence = Some ''medium'', sc_reasons = []\<rparr>)
       (failure_score (lm_meta lm) (lm_proba lm x))"

definition score :: "loaded_model \<Rightarrow> real list \<Rightarrow> score option" where
  "score lm x = (if bm_task (lm_meta lm) = ''rul'' then Some (score_rul lm x) else score_failure lm x)"

text \<open>The edge's \<open>EdgeModel.predict\<close>: no health without a forest, no confidence for a classifier.\<close>

definition edge_predict :: "loaded_model \<Rightarrow> real list \<Rightarrow> score option" where
  "edge_predict lm x =
     (let m = lm_meta lm; a = map_option (\<lambda>f. f x) (lm_anomaly lm);
          base = \<lparr>sc_health = map_option health_of_anomaly a, sc_anomaly = a, sc_rul = None, sc_failure = None,
                  sc_confidence = None, sc_reasons = []\<rparr>
      in if bm_task m = ''rul'' then
           (let r = rul_score m (lm_predict lm x);
                (label, reasons) = interval_confidence (2 * half_width m (ri_point r)) (cap_of m)
            in Some (base\<lparr>sc_rul := Some r, sc_confidence := Some label, sc_reasons := reasons\<rparr>))
         else map_option (\<lambda>ps. base\<lparr>sc_failure := Some ps\<rparr>) (failure_score m (lm_proba lm x)))"

section \<open>The window from telemetry\<close>

definition SAMPLE_PERIOD_S :: nat where "SAMPLE_PERIOD_S = 10"

definition MIN_WINDOW_FILL :: real where "MIN_WINDOW_FILL = 1 / 2"

definition PERIOD_US :: int where "PERIOD_US = int SAMPLE_PERIOD_S * 10 ^ 6"

text \<open>One telemetry reading of the asset: time, metric, value.\<close>

type_synonym reading = "int \<times> string \<times> real"

definition time_bucket :: "int \<Rightarrow> int" where
  "time_bucket t = t - t mod PERIOD_US"

definition bucket_mean :: "reading list \<Rightarrow> int \<Rightarrow> string \<Rightarrow> real option" where
  "bucket_mean rows b metric =
     (case filter (\<lambda>(t, n, v). time_bucket t = b \<and> n = metric) rows of
        [] \<Rightarrow> None
      | r # rs \<Rightarrow> Some (mean (map (\<lambda>(t, n, v). v) (r # rs))))"

fun ffill :: "'a option \<Rightarrow> 'a option list \<Rightarrow> 'a option list" where
  "ffill prev [] = []"
| "ffill prev (None # xs) = prev # ffill prev xs"
| "ffill prev (Some x # xs) = Some x # ffill (Some x) xs"

definition bfill :: "'a option list \<Rightarrow> 'a option list" where
  "bfill xs = rev (ffill None (rev xs))"

definition filled :: "real option list \<Rightarrow> real list" where
  "filled xs = map (case_option 0 id) (bfill (ffill None xs))"

record scoring_window =
  sw_start :: int
  sw_end :: int
  sw_frame :: "real list list"
  sw_missing :: "string list"
  sw_fill :: real

definition buckets :: "feature_spec \<Rightarrow> int \<Rightarrow> int list" where
  "buckets spec start = map (\<lambda>i. start + int i * PERIOD_US) [0..<window_size spec]"

definition wide :: "feature_spec \<Rightarrow> reading list \<Rightarrow> int \<Rightarrow> int \<Rightarrow> string \<Rightarrow> real option list" where
  "wide spec rows start end' metric =
     map (\<lambda>b. bucket_mean (filter (\<lambda>(t, n, v). start \<le> t \<and> t < end') rows) b metric) (buckets spec start)"

definition populated :: "feature_spec \<Rightarrow> (string \<Rightarrow> real option list) \<Rightarrow> nat \<Rightarrow> bool" where
  "populated spec cells i \<longleftrightarrow> (\<exists>c \<in> set (sensor_cols spec). cells c ! i \<noteq> None)"

definition telemetry_window :: "feature_spec \<Rightarrow> reading list \<Rightarrow> int \<Rightarrow> scoring_window option" where
  "telemetry_window spec rows end' =
     (let start = end' - int (window_size spec) * PERIOD_US;
          cells = wide spec rows start end';
          fill = real (length (filter (populated spec cells) [0..<window_size spec])) / real (window_size spec)
      in if fill < MIN_WINDOW_FILL then None
         else Some \<lparr>sw_start = start, sw_end = end',
             sw_frame = map (\<lambda>i. map (\<lambda>c. filled (cells c) ! i) (sensor_cols spec)) [0..<window_size spec],
             sw_missing = filter (\<lambda>c. set (cells c) \<subseteq> {None}) (sensor_cols spec), sw_fill = fill\<rparr>)"

text \<open>\<open>name.rsplit("_", 1)[0]\<close>.\<close>

definition sensor_of_feature :: "string \<Rightarrow> string" where
  "sensor_of_feature name =
     (if CHR ''_'' \<in> set name then rev (tl (dropWhile (\<lambda>c. c \<noteq> CHR ''_'') (rev name))) else name)"

definition feature_entry :: "(string \<times> real) list \<Rightarrow> string list \<Rightarrow> real \<Rightarrow> string \<Rightarrow> real \<times> bool" where
  "feature_entry row missing median name =
     (case map_of row name of
        None \<Rightarrow> (median, True)
      | Some v \<Rightarrow> if sensor_of_feature name \<in> set missing then (median, True) else (v, False))"

definition window_row :: "feature_spec \<Rightarrow> scoring_window \<Rightarrow> (string \<times> real) list" where
  "window_row base w =
     (let spec = base\<lparr>window_size := length (sw_frame w), stride := length (sw_frame w)\<rparr>;
          feats = build_features spec (sw_frame w)
      in if feats = [] then [] else zip (feature_names (sensor_cols spec) spec) (snd (last feats)))"

definition feature_vector :: "loaded_model \<Rightarrow> scoring_window \<Rightarrow> real list \<times> string list" where
  "feature_vector lm w =
     (let row = window_row (lm_spec lm) w;
          entries = map (\<lambda>(med, name). feature_entry row (sw_missing w) med name) (zip (lm_medians lm) (lm_names lm))
      in (map fst entries, map snd (filter (\<lambda>((v, imp), name). imp) (zip entries (lm_names lm)))))"

section \<open>Qualifying a score\<close>

definition IMPUTED_SHARE_DOWNGRADE :: real where "IMPUTED_SHARE_DOWNGRADE = 25 / 100"

definition lower :: "string \<Rightarrow> string" where
  "lower label = (if label = ''high'' then ''medium'' else ''low'')"

definition qualify :: "scoring_window \<Rightarrow> string list \<Rightarrow> nat \<Rightarrow> score \<Rightarrow> score" where
  "qualify w imputed n s =
     (let s1 = (if sw_fill w < 9 / 10 then s\<lparr>sc_reasons := sc_reasons s @ [''partial_window'']\<rparr> else s)
      in if imputed = [] then s1
         else (let s2 = s1\<lparr>sc_reasons := sc_reasons s1 @ [''imputed_features'']\<rparr>
               in if n \<noteq> 0 \<and> IMPUTED_SHARE_DOWNGRADE < real (length imputed) / real n
                  then s2\<lparr>sc_confidence := map_option lower (sc_confidence s2)\<rparr> else s2))"

end
