(* ===== verification/Pdm_Facts.thy ===== *)
theory Pdm_Facts
  imports Pdm_Scoring
begin

text \<open>
  Scores are in range, the window the server rebuilds holds only values that were measured, and on
  the same rows the server scores the vector the edge scores, with the same outcome.
\<close>

section \<open>A small bundle\<close>

text \<open>A remaining-life model of one sensor that always answers fifty cycles, with a forest that answers a quarter.\<close>

definition demo_meta :: bundle_meta where
  "demo_meta = \<lparr>bm_task = ''rul'', bm_rul_cap = Some 125, bm_rul_unit = None, bm_conformal_q = Some 10,
     bm_coverage = None, bm_isotonic = [], bm_classes = []\<rparr>"

definition demo_spec :: "nat \<Rightarrow> feature_spec" where
  "demo_spec n = \<lparr>window_size = n, stride = 1, stat_features = [''mean''], sensor_cols = [''t'']\<rparr>"

definition demo_model :: loaded_model where
  "demo_model = \<lparr>lm_meta = demo_meta, lm_spec = demo_spec 1, lm_names = [''t_mean''], lm_medians = [0],
     lm_predict = (\<lambda>x. 50), lm_proba = (\<lambda>x. []), lm_anomaly = Some (\<lambda>x. 1 / 4)\<rparr>"

section \<open>Ranges\<close>

lemma clip_range:
  assumes "case cap of None \<Rightarrow> True | Some c \<Rightarrow> 0 < c"
  shows "0 \<le> clip cap x" and "case cap of None \<Rightarrow> True | Some c \<Rightarrow> clip cap x \<le> c"
  using assms by (cases cap; simp add: clip_def)+

lemma clip_mono: "x \<le> y \<Longrightarrow> clip cap x \<le> clip cap y"
  by (auto simp: clip_def split: option.splits)

lemma clip_idem: "case cap of None \<Rightarrow> True | Some c \<Rightarrow> 0 < c \<Longrightarrow> clip cap (clip cap x) = clip cap x"
  by (auto simp: clip_def split: option.splits)

lemma health_range:
  assumes "0 \<le> x" and "x \<le> 100"
  shows "0 \<le> round_dec 2 x \<and> round_dec 2 x \<le> 100"
  using assms round_dec_mono [of x 100 2] by (simp add: round_dec_nonneg)

lemma rul_score_range:
  assumes "case bm_conformal_q m of None \<Rightarrow> True | Some q \<Rightarrow> 0 \<le> q" and "case cap_of m of None \<Rightarrow> True | Some c \<Rightarrow> 0 < c"
  shows "0 \<le> ri_low (rul_score m raw) \<and> ri_low (rul_score m raw) \<le> ri_point (rul_score m raw)
    \<and> ri_point (rul_score m raw) \<le> ri_high (rul_score m raw)
    \<and> (case cap_of m of None \<Rightarrow> True | Some c \<Rightarrow> ri_high (rul_score m raw) \<le> c)"
proof -
  let ?c = "cap_of m" and ?p = "clip (cap_of m) raw"
  have q: "0 \<le> half_width m ?p"
    using assms(1) clip_range(1) [OF assms(2)] by (auto simp: half_width_def split: option.splits)
  have "clip ?c (?p - half_width m ?p) \<le> clip ?c ?p" "clip ?c ?p \<le> clip ?c (?p + half_width m ?p)"
    using q by (auto intro: clip_mono)
  then show ?thesis
    using clip_range [OF assms(2)] clip_idem [OF assms(2)]
    by (cases "cap_of m") (simp_all add: rul_score_def Let_def)
qed

text \<open>
  A score is in range: the remaining life and its interval are ordered, not negative and
  within the modelled range, and a health index lies between 0 and 100, whatever the estimator
  returns and provided the forest's anomaly score is a fraction.
\<close>

theorem score_in_range:
  assumes "case bm_conformal_q (lm_meta lm) of None \<Rightarrow> True | Some q \<Rightarrow> 0 \<le> q"
    and "case cap_of (lm_meta lm) of None \<Rightarrow> True | Some c \<Rightarrow> 0 < c"
    and "case lm_anomaly lm of None \<Rightarrow> True | Some f \<Rightarrow> 0 \<le> f x \<and> f x \<le> 1"
    and "score lm x = Some s"
  shows "(case sc_rul s of None \<Rightarrow> True | Some r \<Rightarrow>
        0 \<le> ri_low r \<and> ri_low r \<le> ri_point r \<and> ri_point r \<le> ri_high r
        \<and> (case cap_of (lm_meta lm) of None \<Rightarrow> True | Some c \<Rightarrow> ri_high r \<le> c))
    \<and> (case sc_health s of None \<Rightarrow> True | Some h \<Rightarrow> 0 \<le> h \<and> h \<le> 100)"
proof -
  let ?m = "lm_meta lm" and ?r = "rul_score (lm_meta lm) (lm_predict lm x)"
  have r: "0 \<le> ri_low ?r \<and> ri_low ?r \<le> ri_point ?r \<and> ri_point ?r \<le> ri_high ?r
      \<and> (case cap_of ?m of None \<Rightarrow> True | Some c \<Rightarrow> ri_high ?r \<le> c)"
    by (rule rul_score_range [OF assms(1,2)])
  have a: "case map_option health_of_anomaly (map_option (\<lambda>f. f x) (lm_anomaly lm)) of None \<Rightarrow> True
      | Some h \<Rightarrow> 0 \<le> h \<and> h \<le> 100"
    using assms(3) by (auto simp: health_of_anomaly_def intro!: health_range split: option.splits)
  have share: "0 \<le> round_dec 2 (100 * ri_point ?r / c) \<and> round_dec 2 (100 * ri_point ?r / c) \<le> 100"
    if "cap_of ?m = Some c" "0 < c" for c
    using r that by (intro health_range) (auto simp: field_simps)
  show ?thesis
  proof (cases "bm_task ?m = ''rul''")
    case True
    then have "s = score_rul lm x" using assms(4) by (simp add: score_def)
    then have "sc_rul s = Some ?r" "sc_health s = (case lm_anomaly lm of Some f \<Rightarrow> Some (health_of_anomaly (f x))
        | None \<Rightarrow> (case cap_of ?m of Some c \<Rightarrow> if 0 < c then Some (round_dec 2 (100 * ri_point ?r / c)) else None | None \<Rightarrow> None))"
      by (auto simp: score_rul_def Let_def split: prod.split option.split)
    then show ?thesis using r a share by (auto split: option.splits)
  next
    case False
    then have "sc_rul s = None" "sc_health s = map_option health_of_anomaly (map_option (\<lambda>f. f x) (lm_anomaly lm))"
      using assms(4) by (auto simp: score_def score_failure_def Let_def)
    then show ?thesis using a by simp
  qed
qed

lemma score_in_range_witness:
  "0 \<le> ri_low (rul_score demo_meta 50) \<and> ri_low (rul_score demo_meta 50) \<le> 50
    \<and> 50 \<le> ri_high (rul_score demo_meta 50) \<and> ri_high (rul_score demo_meta 50) \<le> 125"
  using score_in_range [of demo_model "[3]" "score_rul demo_model [3]"]
  by (simp add: demo_model_def demo_meta_def score_def score_rul_def cap_of_def rul_score_def clip_def half_width_def Let_def
      split: prod.splits)

lemma apply_isotonic_sum:
  assumes "0 < sum_list (calibrated maps raw)"
  shows "sum_list (apply_isotonic maps raw) = 1"
proof -
  have "sum_list (map (\<lambda>v. v / c) xs) = sum_list xs / c" for c and xs :: "real list"
    by (induction xs) (simp_all add: add_divide_distrib)
  then show ?thesis using assms by (simp add: apply_isotonic_def Let_def)
qed

section \<open>The window holds measurements\<close>

lemma length_ffill [simp]: "length (ffill p xs) = length xs"
  by (induction p xs rule: ffill.induct) simp_all

lemma ffill_Nil_iff [simp]: "ffill p xs = [] \<longleftrightarrow> xs = []"
  by (metis length_0_conv length_ffill)

lemma ffill_Some: "i < length xs \<Longrightarrow> xs ! i = Some v \<Longrightarrow> ffill p xs ! i = Some v"
  by (induction p xs arbitrary: i rule: ffill.induct) (auto simp: nth_Cons split: nat.splits)

lemma set_ffill: "set (ffill p xs) \<subseteq> insert p (set xs)"
  by (induction p xs rule: ffill.induct) auto

lemma ffill_no_gap: "p \<noteq> None \<Longrightarrow> None \<notin> set (ffill p xs)"
  by (induction p xs rule: ffill.induct) auto

lemma ffill_last: "xs \<noteq> [] \<Longrightarrow> p \<noteq> None \<or> (\<exists>v. Some v \<in> set xs) \<Longrightarrow> last (ffill p xs) \<noteq> None"
proof (induction p xs rule: ffill.induct)
  case (2 prev xs)
  then show ?case by (cases xs) auto
next
  case (3 prev x xs)
  then show ?case by (cases xs) auto
qed simp

lemma length_filled [simp]: "length (filled xs) = length xs"
  by (simp add: filled_def bfill_def)

lemma filled_cell: "i < length xs \<Longrightarrow> xs ! i = Some v \<Longrightarrow> filled xs ! i = v"
  by (simp add: filled_def bfill_def rev_nth ffill_Some)

lemma filled_observed:
  assumes "Some v \<in> set xs"
  shows "set (filled xs) \<subseteq> {u. Some u \<in> set xs}"
proof -
  let ?f = "ffill None xs"
  have "xs \<noteq> []" using assms by auto
  then have ne: "?f \<noteq> []" by (metis length_ffill length_0_conv)
  have "last ?f \<noteq> None" using assms \<open>xs \<noteq> []\<close> by (intro ffill_last) auto
  then obtain u where "last ?f = Some u" by blast
  then have "rev ?f = Some u # rev (butlast ?f)" using ne by (metis append_butlast_last_id rev_eq_Cons_iff rev_rev_ident)
  then obtain r where "rev ?f = Some u # r" by blast
  then have "None \<notin> set (ffill None (rev ?f))" using ffill_no_gap [of "Some u" r] by simp
  moreover have "set (ffill None (rev ?f)) \<subseteq> insert None (set xs)"
    using set_ffill [of None "rev ?f"] set_ffill [of None xs] by auto
  ultimately have sub: "set (ffill None (rev ?f)) \<subseteq> set xs - {None}" by blast
  show ?thesis
  proof
    fix y
    assume "y \<in> set (filled xs)"
    then obtain z where "z \<in> set (ffill None (rev ?f))" "y = case_option 0 id z" by (auto simp: filled_def bfill_def)
    with sub show "y \<in> {u. Some u \<in> set xs}" by (cases z) auto
  qed
qed

text \<open>
  The window the server scores is made of measurements: a bucket with readings of a sensor
  has their mean, a bucket without carries the mean of another bucket of the same sensor, and only a
  sensor silent for the whole window is filled with zeros, and then listed as missing.
\<close>

theorem window_is_measured:
  assumes "telemetry_window spec rows end' = Some w" and "i < window_size spec" and "j < length (sensor_cols spec)"
  shows "let cells = wide spec rows (sw_start w) end' (sensor_cols spec ! j) in
    length (sw_frame w) = window_size spec
    \<and> (case cells ! i of Some v \<Rightarrow> sw_frame w ! i ! j = v
       | None \<Rightarrow> if sensor_cols spec ! j \<in> set (sw_missing w) then sw_frame w ! i ! j = 0
                else Some (sw_frame w ! i ! j) \<in> set cells)"
proof -
  let ?start = "end' - int (window_size spec) * PERIOD_US"
  have w: "sw_start w = ?start"
      "sw_frame w = map (\<lambda>i. map (\<lambda>c. filled (wide spec rows ?start end' c) ! i) (sensor_cols spec)) [0..<window_size spec]"
      "sw_missing w = filter (\<lambda>c. set (wide spec rows ?start end' c) \<subseteq> {None}) (sensor_cols spec)"
    using assms(1) by (auto simp: telemetry_window_def Let_def split: if_splits)
  define cells where cells: "cells = wide spec rows ?start end' (sensor_cols spec ! j)"
  have len: "length cells = window_size spec" by (simp add: cells wide_def buckets_def)
  have entry: "sw_frame w ! i ! j = filled cells ! i" using assms(2,3) by (simp add: w(2) cells)
  have missing: "sensor_cols spec ! j \<in> set (sw_missing w) \<longleftrightarrow> set cells \<subseteq> {None}"
    using assms(3) by (simp add: w(3) cells)
  have "length (sw_frame w) = window_size spec
    \<and> (case cells ! i of Some v \<Rightarrow> sw_frame w ! i ! j = v
       | None \<Rightarrow> if sensor_cols spec ! j \<in> set (sw_missing w) then sw_frame w ! i ! j = 0
                else Some (sw_frame w ! i ! j) \<in> set cells)" (is ?main)
  proof (cases "cells ! i")
    case (Some v)
    then show ?main using assms(2) entry len by (simp add: w(2) filled_cell)
  next
    case None
    show ?main
    proof (cases "set cells \<subseteq> {None}")
      case True
      then have "set (ffill None (rev (ffill None cells))) \<subseteq> {None}"
        using set_ffill [of None cells] set_ffill [of None "rev (ffill None cells)"] by auto
      then have "filled cells ! i \<in> {0}"
        using assms(2) len nth_mem [of i "filled cells"] by (auto simp: filled_def bfill_def)
      then show ?main using None True missing entry by (simp add: w(2))
    next
      case False
      then obtain v where "Some v \<in> set cells" by (metis insertCI not_None_eq subsetI)
      then have "filled cells ! i \<in> {u. Some u \<in> set cells}"
        using filled_observed assms(2) len nth_mem [of i "filled cells"] by (metis length_filled subsetD)
      then show ?main using None False missing entry by (simp add: w(2))
    qed
  qed
  then show ?thesis unfolding Let_def w(1) cells .
qed

lemma demo_window:
  "telemetry_window (demo_spec 2) [(0, ''t'', 5)] 20000000 = Some \<lparr>sw_start = 0, sw_end = 20000000,
     sw_frame = [[5], [5]], sw_missing = [], sw_fill = 1 / 2\<rparr>"
  "wide (demo_spec 2) [(0, ''t'', 5)] 0 20000000 ''t'' = [Some 5, None]"
  by (simp_all add: telemetry_window_def demo_spec_def wide_def buckets_def bucket_mean_def time_bucket_def PERIOD_US_def
      SAMPLE_PERIOD_S_def MIN_WINDOW_FILL_def populated_def filled_def bfill_def mean_def Let_def upt_rec)

lemma window_is_measured_witness:
  "Some ([[5], [5 :: real]] ! 1 ! 0) \<in> set [Some 5, None]"
  using window_is_measured [OF demo_window(1), of 1 0] by (simp add: demo_window(2) demo_spec_def)

section \<open>Server and edge score alike\<close>

lemma feature_entries:
  assumes "set names \<subseteq> dom (map_of row)" and "length meds = length names"
  shows "map (\<lambda>(med, name). feature_entry row [] med name) (zip meds names) = map (\<lambda>n. (the (map_of row n), False)) names"
  using assms
proof (induction names arbitrary: meds)
  case (Cons n names)
  then obtain d ds where "meds = d # ds" by (cases meds) auto
  with Cons show ?case by (auto simp: feature_entry_def)
qed simp

text \<open>
  The server mirrors the edge: for a remaining-life model with a forest, on a full window
  that holds the rows of the edge's window, with every sensor reporting, both build the same feature
  vector, nothing is imputed, and both arrive at the same interval, health, confidence and reasons.
\<close>

theorem server_mirrors_edge:
  fixes rw :: "'t rolling_window"
  assumes "sw_frame w = map (\<lambda>(_, row). row_values (sensor_cols (lm_spec lm)) row) (rw_rows rw)"
    and "length (rw_rows rw) = window_size (lm_spec lm)" and "0 < window_size (lm_spec lm)" and "sw_missing w = []"
    and "set (lm_names lm) \<subseteq> set (feature_names (sensor_cols (lm_spec lm)) (lm_spec lm))"
    and "length (lm_medians lm) = length (lm_names lm)"
    and "bm_task (lm_meta lm) = ''rul''" and "lm_anomaly lm \<noteq> None"
  shows "window_vector (lm_spec lm) (lm_names lm) rw = Some (fst (feature_vector lm w))
    \<and> snd (feature_vector lm w) = []
    \<and> score lm (fst (feature_vector lm w)) = edge_predict lm (fst (feature_vector lm w))"
proof -
  let ?s = "lm_spec lm" and ?frame = "sw_frame w"
  let ?spec = "?s\<lparr>stride := window_size ?s\<rparr>"
  have len: "length ?frame = window_size ?s" using assms(1,2) by simp
  have "?s\<lparr>window_size := length ?frame, stride := length ?frame\<rparr> = ?spec" by (simp add: len)
  moreover have build: "build_features ?spec ?frame = [(window_size ?s - 1, feature_block ?s ?frame)]"
    by (rule build_features_single [OF len assms(3)])
  ultimately have row: "window_row ?s w = zip (feature_names (sensor_cols ?s) ?s) (feature_block ?s ?frame)"
    by (simp add: window_row_def feature_names_def)
  let ?row = "zip (feature_names (sensor_cols ?s) ?s) (feature_block ?s ?frame)"
  have dom: "set (lm_names lm) \<subseteq> dom (map_of ?row)"
    using assms(5) by (simp add: dom_map_of_zip length_feature_block)
  note entries = feature_entries [OF dom assms(6)]
  have "feature_vector lm w = (map (\<lambda>n. the (map_of ?row n)) (lm_names lm), [])"
    unfolding feature_vector_def Let_def row assms(4) entries
    by (auto simp: comp_def filter_empty_conv in_set_zip)
  then have fv: "fst (feature_vector lm w) = map (\<lambda>n. the (map_of ?row n)) (lm_names lm)" "snd (feature_vector lm w) = []"
    by simp_all
  have "(case map_of ?row n of None \<Rightarrow> 0 | Some v \<Rightarrow> v) = the (map_of ?row n)" if "n \<in> set (lm_names lm)" for n
    using dom that by (auto split: option.split)
  then have "window_vector ?s (lm_names lm) rw = Some (fst (feature_vector lm w))"
    unfolding window_vector_def Let_def assms(1) [symmetric] build fv by (simp cong: map_cong)
  moreover have "score lm x = edge_predict lm x" for x
    using assms(7,8) by (auto simp: score_def edge_predict_def score_rul_def Let_def split: prod.split)
  ultimately show ?thesis using fv(2) by blast
qed

lemma server_mirrors_edge_witness:
  "let w = \<lparr>sw_start = 0, sw_end = 10000000, sw_frame = [[5]], sw_missing = [], sw_fill = 1\<rparr>;
       rw = \<lparr>rw_rows = [((), [(''t'', 5)])], rw_last = [(''t'', 5)], rw_since_emit = 0\<rparr>
   in window_vector (demo_spec 1) [''t_mean''] rw = Some (fst (feature_vector demo_model w))
     \<and> score demo_model (fst (feature_vector demo_model w)) = edge_predict demo_model (fst (feature_vector demo_model w))"
  using server_mirrors_edge [of "\<lparr>sw_start = 0, sw_end = 10000000, sw_frame = [[5]], sw_missing = [], sw_fill = 1\<rparr>" demo_model
      "\<lparr>rw_rows = [((), [(''t'', 5)])], rw_last = [(''t'', 5)], rw_since_emit = 0\<rparr>"]
  by (simp add: demo_model_def demo_spec_def demo_meta_def row_values_def feature_names_def STAT_NAMES_def)

end
