(* ===== verification/Xai_Explain.thy ===== *)
theory Xai_Explain
  imports Edge_Features Py_Numbers "HOL-Library.Sublist"
begin

text \<open>
  The explainability library: labels, ranked attributions, reason cards, confidence and the glass-box
  comparison (\<open>packages/xai/src/twinvoice_xai/{labels,attribution,reason_card,confidence,glassbox}.py\<close>)
  and the failure mode a prediction points at (\<open>apps/api/app/modules/xai/modes.py\<close>). The label file, the
  knowledge base and the failure-mode catalogue are parameters, given as the lists their files hold.
  Floats are reals; where sorting leaves ties open, they stay in feature order.
\<close>

section \<open>Labels\<close>

record label_spec =
  ls_label :: "string option"
  ls_unit :: string
  ls_higher :: string
  ls_actionable :: bool
  ls_min :: "real option"
  ls_max :: "real option"
  ls_step :: "real option"

record feature_labels =
  fl_features :: "(string \<times> label_spec) list"
  fl_suffixes :: "(string \<times> string) list"

record feature_label =
  lb_name :: string
  lb_label :: string
  lb_unit :: string
  lb_higher :: string
  lb_actionable :: bool
  lb_min :: "real option"
  lb_max :: "real option"
  lb_step :: "real option"

definition direction_word :: "real \<Rightarrow> string" where
  "direction_word contribution =
     (if contribution = 0 then ''neutral'' else if 0 < contribution then ''raising'' else ''lowering'')"

definition upper_char :: "char \<Rightarrow> char" where
  "upper_char c = (let n = of_char c :: nat in if 97 \<le> n \<and> n \<le> 122 then char_of (n - 32) else c)"

definition capitalize :: "string \<Rightarrow> string" where
  "capitalize s = (case s of [] \<Rightarrow> [] | c # cs \<Rightarrow> upper_char c # lower cs)"

definition default_label :: "string \<Rightarrow> string" where
  "default_label base =
     capitalize (strip (map (\<lambda>c. if c = CHR ''_'' \<or> c = CHR ''.'' then CHR '' '' else c) base))"

text \<open>\<open>name[:-len(suffix)]\<close>.\<close>

definition drop_suffix :: "string \<Rightarrow> string \<Rightarrow> string" where
  "drop_suffix sf name = (if sf = [] then [] else take (length name - length sf) name)"

definition split_suffix :: "feature_labels \<Rightarrow> string \<Rightarrow> string \<times> string option" where
  "split_suffix L name =
     (if name \<in> fst ` set (fl_features L) then (name, None)
      else (case List.find (\<lambda>(sf, word). suffix sf name \<and> drop_suffix sf name \<in> fst ` set (fl_features L)) (fl_suffixes L) of
              Some (sf, word) \<Rightarrow> (drop_suffix sf name, Some word)
            | None \<Rightarrow>
                (case List.find (\<lambda>(sf, word). suffix sf name) (fl_suffixes L) of
                   Some (sf, word) \<Rightarrow> (drop_suffix sf name, Some word)
                 | None \<Rightarrow> (name, None))))"

definition no_spec :: label_spec where
  "no_spec = \<lparr>ls_label = None, ls_unit = [], ls_higher = ''worse'', ls_actionable = False, ls_min = None, ls_max = None, ls_step = None\<rparr>"

definition get_label :: "feature_labels \<Rightarrow> string \<Rightarrow> feature_label" where
  "get_label L name =
     (let (base, word) = split_suffix L name;
          spec = (case map_of (fl_features L) base of Some s \<Rightarrow> s | None \<Rightarrow> no_spec);
          label = (case ls_label spec of Some l \<Rightarrow> l | None \<Rightarrow> default_label base)
      in \<lparr>lb_name = name,
          lb_label = (case word of Some w \<Rightarrow> if w = [] then label else label @ '' '' @ w | None \<Rightarrow> label),
          lb_unit = ls_unit spec, lb_higher = ls_higher spec, lb_actionable = (ls_actionable spec \<and> word = None),
          lb_min = ls_min spec, lb_max = ls_max spec, lb_step = ls_step spec\<rparr>)"

definition actionable_labels :: "feature_labels \<Rightarrow> feature_label list" where
  "actionable_labels L = map (get_label L \<circ> fst) (filter (ls_actionable \<circ> snd) (fl_features L))"

definition vocabulary :: "feature_labels \<Rightarrow> string list" where
  "vocabulary L = remdups (map (\<lambda>(name, spec). lower (lb_label (get_label L name))) (fl_features L))"

section \<open>Attributions\<close>

record attribution =
  at_feature :: string
  at_label :: string
  at_value :: real
  at_unit :: string
  at_contribution :: real
  at_direction :: string
  at_share :: real
  at_rank :: nat

definition total_weight :: "real list \<Rightarrow> real" where
  "total_weight cs = sum_list (map abs cs)"

definition ranked_order :: "real list \<Rightarrow> nat list" where
  "ranked_order cs = sort_key (\<lambda>i. - \<bar>cs ! i\<bar>) [0..<length cs]"

definition attribution_of :: "feature_labels \<Rightarrow> string list \<Rightarrow> real list \<Rightarrow> real list \<Rightarrow> nat \<Rightarrow> nat \<Rightarrow> attribution" where
  "attribution_of L names xs cs rank idx =
     (let label = get_label L (names ! idx); c = cs ! idx
      in \<lparr>at_feature = names ! idx, at_label = lb_label label, at_value = xs ! idx, at_unit = lb_unit label,
          at_contribution = c, at_direction = direction_word c,
          at_share = (if 0 < total_weight cs then \<bar>c\<bar> / total_weight cs else 0), at_rank = rank\<rparr>)"

definition build_attributions :: "feature_labels \<Rightarrow> string list \<Rightarrow> real list \<Rightarrow> real list \<Rightarrow> attribution list option" where
  "build_attributions L names xs cs =
     (if length names = length xs \<and> length xs = length cs
      then Some (map (\<lambda>(rank, idx). attribution_of L names xs cs rank idx) (enumerate 1 (ranked_order cs)))
      else None)"

text \<open>The share of a feature's weight at each time step; features without any weight are left out.\<close>

definition temporal_column :: "real list list \<Rightarrow> nat \<Rightarrow> real list" where
  "temporal_column contributions j = map (\<lambda>row. \<bar>row ! j\<bar>) contributions"

definition temporal_attribution :: "real list list \<Rightarrow> string list \<Rightarrow> real list \<Rightarrow> (string \<times> (real \<times> real) list) list" where
  "temporal_attribution contributions names timestamps =
     dict_of (map (\<lambda>(j, name). (name, zip timestamps
         (map (\<lambda>w. w / sum_list (temporal_column contributions j)) (temporal_column contributions j))))
       (filter (\<lambda>(j, name). sum_list (temporal_column contributions j) \<noteq> 0) (enumerate 0 names)))"

definition median :: "real list \<Rightarrow> real" where
  "median xs = (let s = sort xs; n = length xs
     in if n = 0 then 0 else if odd n then s ! (n div 2) else (s ! (n div 2 - 1) + s ! (n div 2)) / 2)"

definition concept_segments :: "real list \<Rightarrow> real \<Rightarrow> real \<Rightarrow> string" where
  "concept_segments series spike_sigma shift_ratio =
     (if length series < 4 \<or> std series = 0 then ''steady''
      else (let med = median series; deviations = map (\<lambda>x. \<bar>x - med\<bar>) series;
                robust = 14826 / 10000 * median deviations; worst = Max (set deviations)
            in if robust = 0 then (if 0 < worst then ''spike'' else ''steady'')
               else if spike_sigma * robust < worst then ''spike''
               else (let half = length series div 2; moves = map (\<lambda>i. series ! Suc i - series ! i) [0..<length series - 1]
                     in if shift_ratio * std series < \<bar>mean (drop half series) - mean (take half series)\<bar>
                        then (if 6 / 10 < sum_list (map sgn moves) / real (length moves) then ''trend'' else ''level_shift'')
                        else ''steady'')))"

section \<open>Reason cards\<close>

record kb_entry =
  kb_code :: string
  kb_symptom :: string
  kb_cause :: string
  kb_action :: string
  kb_metrics :: "string list"
  kb_parts :: "string list"
  kb_minutes :: "nat option"

record evidence =
  ev_feature :: string
  ev_label :: string
  ev_value :: real
  ev_unit :: string
  ev_direction :: string
  ev_share :: real
  ev_supports :: bool

record reason_card =
  rc_symptom :: string
  rc_evidence :: "evidence list"
  rc_cause :: string
  rc_action :: string
  rc_confidence :: real
  rc_mode :: string
  rc_parts :: "string list"
  rc_minutes :: "nat option"

definition supports :: "string \<Rightarrow> string list \<Rightarrow> bool" where
  "supports feature metrics \<longleftrightarrow> (\<exists>metric \<in> set metrics. feature = metric \<or> prefix (metric @ ''_'') feature)"

definition card_confidence :: "evidence list \<Rightarrow> kb_entry \<Rightarrow> real option \<Rightarrow> real" where
  "card_confidence evs entry prob =
     (let matched = sum_list (map ev_share (filter ev_supports evs))
      in if kb_metrics entry = [] then round_dec 4 (case prob of Some p \<Rightarrow> p | None \<Rightarrow> 1)
         else (case prob of None \<Rightarrow> round_dec 4 (min 1 matched)
               | Some p \<Rightarrow> round_dec 4 (min 1 (p / 2 + matched / 2))))"

definition evidence_of :: "kb_entry \<Rightarrow> attribution \<Rightarrow> evidence" where
  "evidence_of entry a =
     \<lparr>ev_feature = at_feature a, ev_label = at_label a, ev_value = round_dec 4 (at_value a), ev_unit = at_unit a,
      ev_direction = at_direction a, ev_share = round_dec 4 (at_share a), ev_supports = supports (at_feature a) (kb_metrics entry)\<rparr>"

definition build_reason_card ::
    "(string \<Rightarrow> kb_entry option) \<Rightarrow> string \<Rightarrow> attribution list \<Rightarrow> real option \<Rightarrow> nat \<Rightarrow> reason_card option" where
  "build_reason_card kb mode ats prob top_k =
     (case kb mode of
        None \<Rightarrow> None
      | Some entry \<Rightarrow>
          (let evs = map (evidence_of entry) (take top_k ats)
           in Some \<lparr>rc_symptom = kb_symptom entry, rc_evidence = evs, rc_cause = kb_cause entry, rc_action = kb_action entry,
               rc_confidence = card_confidence evs entry prob, rc_mode = mode, rc_parts = kb_parts entry,
               rc_minutes = kb_minutes entry\<rparr>))"

text \<open>\<open>signature_mode\<close>: the modes of the machine's type, in the order the query returns them.\<close>

definition HEALTHY_INDEX :: real where "HEALTHY_INDEX = 70"

definition mode_share :: "attribution list \<Rightarrow> string list \<Rightarrow> real" where
  "mode_share ats metrics = sum_list (map at_share (filter (\<lambda>a. supports (at_feature a) metrics) (take 5 ats)))"

definition better_mode :: "attribution list \<Rightarrow> string \<times> real \<Rightarrow> string \<times> string list \<Rightarrow> string \<times> real" where
  "better_mode ats best mode = (case mode of (code, metrics) \<Rightarrow>
     if snd best < mode_share ats metrics then (code, mode_share ats metrics) else best)"

definition best_mode :: "attribution list \<Rightarrow> (string \<times> string list) list \<Rightarrow> string \<times> real" where
  "best_mode ats modes = foldl (better_mode ats) (''normal'', 0) modes"

definition signature_mode :: "(string \<times> string list) list option \<Rightarrow> attribution list \<Rightarrow> real option \<Rightarrow> string" where
  "signature_mode modes ats health =
     (if (case health of Some h \<Rightarrow> HEALTHY_INDEX \<le> h | None \<Rightarrow> False) then ''normal''
      else (case modes of None \<Rightarrow> ''normal'' | Some ms \<Rightarrow> fst (best_mode ats ms)))"

section \<open>Confidence\<close>

datatype reason =
    VeryWide real | Wide real | Disagreement | Degraded "string list" | Drifted | OutOfRange | AllNormal

record confidence =
  cf_label :: string
  cf_reasons :: "reason list"
  cf_score :: real

definition interval_width_ratio :: "real option \<Rightarrow> real option \<Rightarrow> real option \<Rightarrow> real option" where
  "interval_width_ratio point low high =
     (case (point, low, high) of
        (Some p, Some l, Some h) \<Rightarrow> if p = 0 then None else Some (\<bar>h - l\<bar> / \<bar>p\<bar>)
      | _ \<Rightarrow> None)"

definition confidence_label :: "real \<Rightarrow> string" where
  "confidence_label score = (if 7 / 10 \<le> score then ''high'' else if 4 / 10 \<le> score then ''medium'' else ''low'')"

record signals =
  sg_ratio :: "real option"
  sg_agreement :: "real option"
  sg_degraded :: "string list"
  sg_drift :: bool
  sg_ood :: "real option"

definition signal_findings :: "signals \<Rightarrow> (reason \<times> real) list" where
  "signal_findings s =
     (case sg_ratio s of None \<Rightarrow> []
      | Some r \<Rightarrow> if 12 / 10 \<le> r then [(VeryWide r, 1 / 2)] else if 6 / 10 \<le> r then [(Wide r, 1 / 4)] else [])
     @ (case sg_agreement s of None \<Rightarrow> [] | Some a \<Rightarrow> if a < 34 / 100 then [(Disagreement, 3 / 10)] else [])
     @ (if sg_degraded s = [] then [] else [(Degraded (sg_degraded s), 1 / 4 * real (min (length (sg_degraded s)) 2))])
     @ (if sg_drift s then [(Drifted, 3 / 10)] else [])
     @ (case sg_ood s of None \<Rightarrow> [] | Some d \<Rightarrow> if 3 < d then [(OutOfRange, 3 / 10)] else [])"

definition assess_confidence :: "signals \<Rightarrow> confidence" where
  "assess_confidence s =
     (let found = signal_findings s; score = max 0 (1 - sum_list (map snd found))
      in \<lparr>cf_label = confidence_label score, cf_reasons = (if found = [] then [AllNormal] else map fst found),
          cf_score = round_dec 4 score\<rparr>)"

section \<open>The second opinion\<close>

definition DISAGREEMENT_THRESHOLD :: real where "DISAGREEMENT_THRESHOLD = 34 / 100"

definition jaccard :: "string list \<Rightarrow> string list \<Rightarrow> real" where
  "jaccard xs ys = (let a = set xs; b = set ys
     in if a \<union> b = {} then 1 else real (card (a \<inter> b)) / real (card (a \<union> b)))"

definition top3_jaccard :: "string list \<Rightarrow> string list \<Rightarrow> real" where
  "top3_jaccard shap_top ebm_top = jaccard (take 3 shap_top) (take 3 ebm_top)"

definition agreement :: "string list \<Rightarrow> string list \<Rightarrow> real \<times> bool" where
  "agreement shap_top ebm_top =
     (let j = top3_jaccard shap_top ebm_top in (round_dec 4 j, j < DISAGREEMENT_THRESHOLD))"

text \<open>Main effects only, by size; names with an interaction mark are folded out.\<close>

definition is_interaction :: "string \<Rightarrow> bool" where
  "is_interaction name \<longleftrightarrow> sublist '' x '' name \<or> sublist '' & '' name"

definition ebm_terms :: "string list \<Rightarrow> real list \<Rightarrow> (string \<times> real) list" where
  "ebm_terms names scores = dict_of (filter (\<lambda>(n, s). \<not> is_interaction n) (zip names scores))"

definition ebm_top :: "nat \<Rightarrow> (string \<times> real) list \<Rightarrow> string list" where
  "ebm_top k terms = take k (map fst (sort_key (\<lambda>(n, s). - \<bar>s\<bar>) terms))"

definition global_importance :: "string list \<Rightarrow> real list list \<Rightarrow> (string \<times> real) list" where
  "global_importance names shap =
     dict_of (zip names (map (\<lambda>j. mean (map (\<lambda>row. \<bar>row ! j\<bar>) shap)) [0..<(case shap of [] \<Rightarrow> 0 | row # _ \<Rightarrow> length row)]))"

definition partial_dependence :: "(real list \<Rightarrow> real) \<Rightarrow> real list list \<Rightarrow> nat \<Rightarrow> nat \<Rightarrow> (real \<times> real) list" where
  "partial_dependence predict rows j grid_size =
     (let column = map (\<lambda>row. row ! j) rows; lo = Min (set column); hi = Max (set column);
          point = (\<lambda>i. if grid_size = 1 then lo else lo + real i * (hi - lo) / real (grid_size - 1))
      in map (\<lambda>i. (point i, mean (map (\<lambda>row. predict (row[j := point i])) rows))) [0..<grid_size])"

end
