(* ===== verification/Pdm_Store.thy ===== *)
theory Pdm_Store
  imports Pdm_Scoring Xai_Explain
begin

text \<open>
  The model registry and the prediction store: \<open>apps/api/app/modules/pdm/{models,repository,service}.py\<close>,
  the edge's messages (\<open>packages/contracts/.../prediction.py\<close>, \<open>app/ingest/edge_predictions.py\<close> and
  \<open>IngestConsumer._process_edge_prediction\<close>), and the server's own scoring and explaining of an asset
  (\<open>app/workers/tasks/{infer,explain}.py\<close>). A table is the list of its rows in insertion order, an id a
  number, a time in microseconds. Columns that nothing writes (the component, the uncalibrated
  probabilities, the physics and fused estimates) are left out.
\<close>

section \<open>Tables\<close>

datatype stage = Candidate | Production | Archived

record registered_model =
  md_id :: nat
  md_name :: string
  md_version :: string
  md_task :: string
  md_algorithm :: string
  md_asset_type :: "string option"
  md_asset :: "nat option"
  md_dataset :: "string \<times> string"
  md_features :: "string list"
  md_window :: "nat option \<times> nat option \<times> nat option"
  md_artifact :: string
  md_onnx :: "string option"
  md_stage :: stage
  md_trained_at :: int

datatype source = Server | Edge

record prediction =
  pr_id :: nat
  pr_time :: int
  pr_asset :: nat
  pr_model :: nat
  pr_window :: "int \<times> int"
  pr_health :: "real option"
  pr_anomaly :: "real option"
  pr_failure :: "(string \<times> real) list option"
  pr_point :: "real option"
  pr_low :: "real option"
  pr_high :: "real option"
  pr_unit :: "string option"
  pr_coverage :: "real option"
  pr_label :: "string option"
  pr_reasons :: "string list"
  pr_drift :: "bool \<times> real option"
  pr_source :: source
  pr_latency :: int

record explanation =
  ex_prediction :: nat
  ex_method :: string
  ex_base :: real
  ex_attributions :: "attribution list"
  ex_card :: "reason_card option"
  ex_compute_ms :: "int option"

record pdm_db =
  models :: "registered_model list"
  predictions :: "prediction list"
  explanations :: "explanation list"
  audits :: "(nat \<times> string) list"

datatype problem = NotFound string | Conflict string

section \<open>The registry\<close>

definition find_model :: "nat \<Rightarrow> pdm_db \<Rightarrow> registered_model option" where
  "find_model i db = List.find (\<lambda>m. md_id m = i) (models db)"

definition get_by_name_version :: "string \<Rightarrow> string \<Rightarrow> pdm_db \<Rightarrow> registered_model option" where
  "get_by_name_version n v db = List.find (\<lambda>m. md_name m = n \<and> md_version m = v) (models db)"

definition production_model :: "string \<Rightarrow> nat option \<Rightarrow> pdm_db \<Rightarrow> registered_model option" where
  "production_model n a db = List.find (\<lambda>m. md_name m = n \<and> md_stage m = Production \<and> md_asset m = a) (models db)"

text \<open>\<open>ModelRepository.promote\<close>: archive the other production models of the name, then promote.\<close>

definition archived :: "registered_model \<Rightarrow> registered_model \<Rightarrow> registered_model" where
  "archived m x = (if md_name x = md_name m \<and> md_stage x = Production \<and> md_id x \<noteq> md_id m
     then x\<lparr>md_stage := Archived\<rparr> else x)"

definition repo_promote :: "registered_model \<Rightarrow> pdm_db \<Rightarrow> pdm_db" where
  "repo_promote m db =
     db\<lparr>models := map (\<lambda>x. if md_id x = md_id m then x\<lparr>md_stage := Production\<rparr> else x)
       (map (archived m) (models db))\<rparr>"

definition promote :: "nat \<Rightarrow> pdm_db \<Rightarrow> (problem + registered_model) \<times> pdm_db" where
  "promote i db =
     (case find_model i db of
        None \<Rightarrow> (Inl (NotFound ''model''), db)
      | Some m \<Rightarrow>
          if md_stage m = Production then (Inl (Conflict ''Model is already in production''), db)
          else (let db' = repo_promote m db
                in (Inr (m\<lparr>md_stage := Production\<rparr>), db'\<lparr>audits := audits db' @ [(i, ''promote'')]\<rparr>)))"

text \<open>The columns the caller gives, with the id, the stage and the time the table gives.\<close>

definition register_model :: "nat \<Rightarrow> int \<Rightarrow> registered_model \<Rightarrow> pdm_db \<Rightarrow> (problem + registered_model) \<times> pdm_db" where
  "register_model fresh now given db =
     (case get_by_name_version (md_name given) (md_version given) db of
        Some _ \<Rightarrow> (Inl (Conflict ''already exists''), db)
      | None \<Rightarrow>
          (let m = given\<lparr>md_id := fresh, md_stage := Candidate, md_trained_at := now\<rparr>
           in (Inr m, db\<lparr>models := models db @ [m], audits := audits db @ [(fresh, ''create'')]\<rparr>)))"

text \<open>\<open>onnx_file\<close>; \<open>is_file\<close> says which paths are files.\<close>

definition uri_path :: "string \<Rightarrow> string" where
  "uri_path uri = (if take 7 uri = ''file://'' then drop 7 uri else uri)"

definition onnx_file :: "(string \<Rightarrow> bool) \<Rightarrow> nat \<Rightarrow> pdm_db \<Rightarrow> problem + registered_model \<times> string" where
  "onnx_file is_file i db =
     (case find_model i db of
        None \<Rightarrow> Inl (NotFound ''model'')
      | Some m \<Rightarrow>
          (case md_onnx m of
             None \<Rightarrow> Inl (NotFound ''no ONNX export'')
           | Some [] \<Rightarrow> Inl (NotFound ''no ONNX export'')
           | Some uri \<Rightarrow> if is_file (uri_path uri) then Inr (m, uri_path uri) else Inl (NotFound ''missing'')))"

section \<open>Predictions\<close>

text \<open>A \<open>numeric(p, s)\<close> column rounds half away from zero and overflows at \<open>10 ^ (p - s)\<close>.\<close>

definition round_away :: "nat \<Rightarrow> real \<Rightarrow> real" where
  "round_away s x = sgn x * of_int \<lfloor>\<bar>x\<bar> * 10 ^ s + 1 / 2\<rfloor> / 10 ^ s"

definition numeric :: "nat \<Rightarrow> nat \<Rightarrow> real option \<Rightarrow> real option option" where
  "numeric p s v =
     (case v of None \<Rightarrow> Some None
      | Some x \<Rightarrow> if \<bar>round_away s x\<bar> < 10 ^ (p - s) then Some (Some (round_away s x)) else None)"

definition LABELS :: "string list" where "LABELS = [''high'', ''medium'', ''low'']"

definition label_ok :: "string option \<Rightarrow> bool" where
  "label_ok l = (case l of None \<Rightarrow> True | Some s \<Rightarrow> s \<in> set LABELS)"

text \<open>An insert with the table's constraints; \<^term>\<open>None\<close> where the database refuses it.\<close>

definition insert_prediction :: "prediction \<Rightarrow> pdm_db \<Rightarrow> pdm_db option" where
  "insert_prediction p db =
     (case (numeric 5 2 (pr_health p), numeric 3 2 (pr_coverage p)) of
        (Some h, Some c) \<Rightarrow>
          if \<not> label_ok (pr_label p) \<or> (\<exists>q \<in> set (predictions db). pr_time q = pr_time p \<and> pr_id q = pr_id p) then None
          else Some (db\<lparr>predictions := predictions db @ [p\<lparr>pr_health := h, pr_coverage := c\<rparr>]\<rparr>)
      | _ \<Rightarrow> None)"

text \<open>One explanation per prediction: a unique index.\<close>

definition by_prediction :: "nat \<Rightarrow> pdm_db \<Rightarrow> explanation option" where
  "by_prediction i db = List.find (\<lambda>e. ex_prediction e = i) (explanations db)"

definition insert_explanation :: "explanation \<Rightarrow> pdm_db \<Rightarrow> pdm_db option" where
  "insert_explanation e db =
     (case by_prediction (ex_prediction e) db of
        Some _ \<Rightarrow> None
      | None \<Rightarrow> Some (db\<lparr>explanations := explanations db @ [e]\<rparr>))"

text \<open>\<open>PredictionRepository.query\<close>: at most \<open>limit\<close> rows, every \<open>step\<close>-th of the range.\<close>

definition ceil_div :: "nat \<Rightarrow> nat \<Rightarrow> nat" where
  "ceil_div a b = nat (- (- int a div int b))"

definition query_step :: "nat \<Rightarrow> nat \<Rightarrow> nat" where
  "query_step n limit = (if limit < n then ceil_div n limit else 1)"

definition in_range :: "nat \<Rightarrow> int \<Rightarrow> int \<Rightarrow> pdm_db \<Rightarrow> prediction list" where
  "in_range a start end' db =
     sort_key pr_time (filter (\<lambda>p. pr_asset p = a \<and> start \<le> pr_time p \<and> pr_time p < end') (predictions db))"

definition query_predictions :: "nat \<Rightarrow> int \<Rightarrow> int \<Rightarrow> nat \<Rightarrow> pdm_db \<Rightarrow> prediction list" where
  "query_predictions a start end' limit db =
     (let rows = in_range a start end' db; k = query_step (length rows) limit
      in take limit (map snd (filter (\<lambda>(rn, p). rn mod k = 0) (enumerate 0 rows))))"

definition latest_prediction :: "nat \<Rightarrow> pdm_db \<Rightarrow> prediction option" where
  "latest_prediction a db =
     (case rev (sort_key pr_time (rev (filter (\<lambda>p. pr_asset p = a) (predictions db)))) of [] \<Rightarrow> None | p # _ \<Rightarrow> Some p)"

section \<open>The edge's message\<close>

definition PRED_TOPIC_PREFIX :: string where "PRED_TOPIC_PREFIX = ''twinvoice/pred''"

definition pred_topic :: "string \<Rightarrow> string" where
  "pred_topic code = PRED_TOPIC_PREFIX @ ''/'' @ code"

definition asset_from_pred_topic :: "string \<Rightarrow> string option" where
  "asset_from_pred_topic topic =
     (case split_on CHR ''/'' topic of
        [a, b, c] \<Rightarrow> if a @ ''/'' @ b = PRED_TOPIC_PREFIX \<and> c \<noteq> [] then Some c else None
      | _ \<Rightarrow> None)"

record edge_explanation =
  ee_base :: real
  ee_attributions :: "attribution list"

record edge_message =
  em_id :: string
  em_asset_code :: string
  em_time :: int
  em_window :: "int \<times> int"
  em_model_version :: string
  em_health :: "real option"
  em_anomaly :: "real option"
  em_failure :: "(string \<times> real) list option"
  em_rul :: "rul_interval option"
  em_label :: "string option"
  em_reasons :: "string list"
  em_drift :: "bool \<times> real option"
  em_explanation :: "edge_explanation option"
  em_infer_ms :: real
  em_explain_ms :: "real option"

text \<open>The schema's own bounds, which pydantic enforces on a decoded message.\<close>

definition message_valid :: "edge_message \<Rightarrow> bool" where
  "message_valid m \<longleftrightarrow> label_ok (em_label m) \<and> (case em_health m of None \<Rightarrow> True | Some h \<Rightarrow> 0 \<le> h \<and> h \<le> 100)"

text \<open>\<open>model_version.partition(":")\<close>.\<close>

definition partition_colon :: "string \<Rightarrow> string \<times> string" where
  "partition_colon s = (takeWhile (\<lambda>c. c \<noteq> CHR '':'') s, tl (dropWhile (\<lambda>c. c \<noteq> CHR '':'') s))"

definition resolve_model :: "string \<Rightarrow> pdm_db \<Rightarrow> registered_model option" where
  "resolve_model mv db =
     (let (name, version) = partition_colon mv
      in if version \<noteq> [] then get_by_name_version name version db else production_model name None db)"

record live_prediction =
  lp_health :: "real option"
  lp_point :: "real option"
  lp_low :: "real option"
  lp_high :: "real option"
  lp_confidence :: "string option"
  lp_source :: source
  lp_time :: int

definition live_of_message :: "edge_message \<Rightarrow> live_prediction" where
  "live_of_message m =
     \<lparr>lp_health = em_health m, lp_point = map_option ri_point (em_rul m), lp_low = map_option ri_low (em_rul m),
      lp_high = map_option ri_high (em_rul m), lp_confidence = em_label m, lp_source = Edge, lp_time = em_time m\<rparr>"

definition edge_row :: "nat \<Rightarrow> nat \<Rightarrow> nat \<Rightarrow> edge_message \<Rightarrow> prediction" where
  "edge_row pid asset_id model_id m =
     \<lparr>pr_id = pid, pr_time = em_time m, pr_asset = asset_id, pr_model = model_id, pr_window = em_window m,
      pr_health = map_option (round_dec 2) (em_health m), pr_anomaly = em_anomaly m, pr_failure = em_failure m,
      pr_point = map_option ri_point (em_rul m), pr_low = map_option ri_low (em_rul m),
      pr_high = map_option ri_high (em_rul m), pr_unit = map_option ri_unit (em_rul m),
      pr_coverage = Option.bind (em_rul m) ri_coverage, pr_label = em_label m, pr_reasons = em_reasons m,
      pr_drift = em_drift m, pr_source = Edge,
      pr_latency = round_even (em_infer_ms m + (case em_explain_ms m of None \<Rightarrow> 0 | Some e \<Rightarrow> e))\<rparr>"

definition edge_explains :: "edge_message \<Rightarrow> edge_explanation option" where
  "edge_explains m = (case em_explanation m of Some e \<Rightarrow> if ee_attributions e = [] then None else Some e | None \<Rightarrow> None)"

definition edge_explanation_row :: "reason_card option \<Rightarrow> nat \<Rightarrow> edge_message \<Rightarrow> edge_explanation \<Rightarrow> explanation" where
  "edge_explanation_row card_found pid m e =
     \<lparr>ex_prediction = pid, ex_method = ''tree_shap'', ex_base = ee_base e, ex_attributions = ee_attributions e,
      ex_card = card_found, ex_compute_ms = map_option round_even (em_explain_ms m)\<rparr>"

text \<open>
  \<open>uuid.UUID\<close> is a parameter, \<^term>\<open>None\<close> where Python raises; the knowledge base and the failure modes
  of the machine's type are given with their tables.
\<close>

definition edge_card ::
    "(string \<Rightarrow> kb_entry option) \<Rightarrow> (string \<times> string list) list option \<Rightarrow> edge_message \<Rightarrow> edge_explanation \<Rightarrow> reason_card option" where
  "edge_card kb modes m e =
     build_reason_card kb (signature_mode modes (ee_attributions e) (em_health m)) (ee_attributions e) None 5"

datatype stored = Failed | Skipped | Stored pdm_db

definition store_edge_prediction ::
    "(string \<Rightarrow> nat option) \<Rightarrow> (string \<Rightarrow> kb_entry option) \<Rightarrow> (string \<times> string list) list option \<Rightarrow> edge_message \<Rightarrow> nat \<Rightarrow> pdm_db \<Rightarrow> stored" where
  "store_edge_prediction parse_uuid kb modes m asset_id db =
     (case resolve_model (em_model_version m) db of
        None \<Rightarrow> Skipped
      | Some model \<Rightarrow>
          (case parse_uuid (em_id m) of
             None \<Rightarrow> Failed
           | Some pid \<Rightarrow>
               if \<exists>q \<in> set (predictions db). pr_id q = pid \<and> pr_time q = em_time m then Skipped
               else (case insert_prediction (edge_row pid asset_id (md_id model) m) db of
                       None \<Rightarrow> Failed
                     | Some db1 \<Rightarrow>
                         (case edge_explains m of
                            None \<Rightarrow> Stored db1
                          | Some e \<Rightarrow>
                              (case insert_explanation (edge_explanation_row (edge_card kb modes m e) pid m e) db1 of
                                 None \<Rightarrow> Failed
                               | Some db2 \<Rightarrow> Stored db2)))))"

text \<open>What is around the store: the registered codes, Ditto and the live channel, and the explain queue.\<close>

record world =
  w_db :: pdm_db
  w_ditto :: "(string \<times> live_prediction \<times> string option) list"
  w_live :: "(string \<times> live_prediction) list"
  w_explain :: "nat list"

record services =
  sv_assets :: "string \<Rightarrow> nat option"
  sv_uuid :: "string \<Rightarrow> nat option"
  sv_kb :: "string \<Rightarrow> kb_entry option"
  sv_modes :: "nat \<Rightarrow> (string \<times> string list) list option"
  sv_ditto :: bool
  sv_valkey :: bool
  sv_queue :: bool

text \<open>Patching Ditto and publishing are tried; a failure is logged.\<close>

definition publish_prediction :: "services \<Rightarrow> string \<Rightarrow> live_prediction \<Rightarrow> string option \<Rightarrow> world \<Rightarrow> world" where
  "publish_prediction V code l unit' w =
     w\<lparr>w_ditto := w_ditto w @ (if sv_ditto V then [(''twinvoice:'' @ code, l, unit')] else []),
       w_live := w_live w @ (if sv_valkey V then [(''live:'' @ code, l)] else [])\<rparr>"

definition process_edge_prediction ::
    "services \<Rightarrow> ('b \<Rightarrow> edge_message option) \<Rightarrow> string \<Rightarrow> 'b \<Rightarrow> world \<Rightarrow> world" where
  "process_edge_prediction V parse topic payload w =
     (case parse payload of
        None \<Rightarrow> w
      | Some m \<Rightarrow>
          if \<not> message_valid m \<or> Some (em_asset_code m) \<noteq> asset_from_pred_topic topic then w
          else (case sv_assets V (em_asset_code m) of
                  None \<Rightarrow> w
                | Some a \<Rightarrow>
                    (case store_edge_prediction (sv_uuid V) (sv_kb V) (sv_modes V a) m a (w_db w) of
                       Stored db \<Rightarrow> publish_prediction V (em_asset_code m) (live_of_message m)
                          (map_option ri_unit (em_rul m)) (w\<lparr>w_db := db\<rparr>)
                     | _ \<Rightarrow> w)))"

section \<open>Scoring on the server\<close>

definition LIVE_TASKS :: "string list" where "LIVE_TASKS = [''rul'', ''failure'']"

definition candidates :: "nat \<Rightarrow> string \<Rightarrow> pdm_db \<Rightarrow> registered_model list" where
  "candidates a ty db =
     sort_key (\<lambda>m. - md_trained_at m)
       (filter (\<lambda>m. md_stage m = Production \<and> md_task m \<in> set LIVE_TASKS
          \<and> (md_asset m = Some a \<or> md_asset m = None \<and> md_asset_type m = Some ty)) (models db))"

definition select_model :: "nat \<Rightarrow> string \<Rightarrow> pdm_db \<Rightarrow> registered_model option" where
  "select_model a ty db =
     (let cs = candidates a ty db; bound = filter (\<lambda>m. md_asset m = Some a) cs
      in (case if bound \<noteq> [] then bound else cs of [] \<Rightarrow> None | m # _ \<Rightarrow> Some m))"

definition EDGE_FRESH_S :: int where "EDGE_FRESH_S = 120"

definition edge_is_fresh :: "nat \<Rightarrow> int \<Rightarrow> pdm_db \<Rightarrow> bool" where
  "edge_is_fresh a now db \<longleftrightarrow>
     (\<exists>p \<in> set (predictions db). pr_asset p = a \<and> pr_source p = Edge \<and> now - EDGE_FRESH_S * 10 ^ 6 \<le> pr_time p)"

definition window_end :: "int \<Rightarrow> int" where
  "window_end now = (let epoch = now div 10 ^ 6 in (epoch - epoch mod int SAMPLE_PERIOD_S) * 10 ^ 6)"

text \<open>
  One scoring run: the wall clock, the id the row will get, how long it took, the bundles on disk and
  the telemetry of each asset.
\<close>

record scoring_run =
  sr_now :: int
  sr_id :: nat
  sr_ms :: int
  sr_load :: "registered_model \<Rightarrow> loaded_model option"
  sr_rows :: "nat \<Rightarrow> reading list"

definition server_row :: "scoring_run \<Rightarrow> nat \<Rightarrow> nat \<Rightarrow> scoring_window \<Rightarrow> score \<Rightarrow> prediction" where
  "server_row R a model_id win s =
     \<lparr>pr_id = sr_id R, pr_time = sr_now R, pr_asset = a, pr_model = model_id, pr_window = (sw_start win, sw_end win),
      pr_health = sc_health s, pr_anomaly = sc_anomaly s, pr_failure = sc_failure s,
      pr_point = map_option ri_point (sc_rul s), pr_low = map_option ri_low (sc_rul s),
      pr_high = map_option ri_high (sc_rul s), pr_unit = map_option ri_unit (sc_rul s),
      pr_coverage = map_option (round_dec 2) (Option.bind (sc_rul s) ri_coverage), pr_label = sc_confidence s,
      pr_reasons = sc_reasons s, pr_drift = (False, None), pr_source = Server, pr_latency = sr_ms R\<rparr>"

definition live_of_score :: "int \<Rightarrow> score \<Rightarrow> live_prediction" where
  "live_of_score now s =
     \<lparr>lp_health = sc_health s, lp_point = map_option ri_point (sc_rul s), lp_low = map_option ri_low (sc_rul s),
      lp_high = map_option ri_high (sc_rul s), lp_confidence = sc_confidence s, lp_source = Server, lp_time = now\<rparr>"

text \<open>The window scored for an asset: its model, its bundle and the rows of the last grid-aligned window.\<close>

definition scoring_input :: "scoring_run \<Rightarrow> nat \<Rightarrow> string \<Rightarrow> pdm_db \<Rightarrow> (registered_model \<times> loaded_model \<times> scoring_window) option" where
  "scoring_input R a ty db =
     (case select_model a ty db of
        None \<Rightarrow> None
      | Some m \<Rightarrow>
          (case sr_load R m of
             None \<Rightarrow> None
           | Some lm \<Rightarrow> map_option (\<lambda>win. (m, lm, win)) (telemetry_window (lm_spec lm) (sr_rows R a) (window_end (sr_now R)))))"

definition infer_asset :: "services \<Rightarrow> scoring_run \<Rightarrow> nat \<Rightarrow> string \<Rightarrow> string \<Rightarrow> world \<Rightarrow> world" where
  "infer_asset V R a code ty w =
     (if edge_is_fresh a (sr_now R) (w_db w) then w
      else (case scoring_input R a ty (w_db w) of
              None \<Rightarrow> w
            | Some (m, lm, win) \<Rightarrow>
                (let (x, imputed) = feature_vector lm win
                 in (case score lm x of
                       None \<Rightarrow> w
                     | Some s0 \<Rightarrow>
                         (let s = qualify win imputed (length (lm_names lm)) s0
                          in (case insert_prediction (server_row R a (md_id m) win s) (w_db w) of
                                None \<Rightarrow> w
                              | Some db \<Rightarrow>
                                  publish_prediction V code (live_of_score (sr_now R) s) (map_option ri_unit (sc_rul s))
                                    (w\<lparr>w_db := db,
                                       w_explain := w_explain w @ (if sv_queue V then [sr_id R] else [])\<rparr>)))))))"

text \<open>\<open>infer_all_assets\<close>: each active asset in turn, whatever happens to the others.\<close>

definition infer_all_assets :: "services \<Rightarrow> (nat \<Rightarrow> scoring_run) \<Rightarrow> (nat \<times> string \<times> string) list \<Rightarrow> world \<Rightarrow> world" where
  "infer_all_assets V R assets w = foldl (\<lambda>w (a, code, ty). infer_asset V (R a) a code ty w) w assets"

section \<open>Explaining\<close>

text \<open>The vector the explain worker rebuilds for a stored prediction.\<close>

definition rebuilt_vector :: "scoring_run \<Rightarrow> prediction \<Rightarrow> registered_model \<Rightarrow> (string list \<times> real list) option" where
  "rebuilt_vector R p m =
     (case sr_load R m of
        None \<Rightarrow> None
      | Some lm \<Rightarrow>
          (case telemetry_window (lm_spec lm) (sr_rows R (pr_asset p)) (snd (pr_window p)) of
             None \<Rightarrow> None
           | Some win \<Rightarrow> Some (lm_names lm, fst (feature_vector lm win))))"

text \<open>
  \<open>explain_prediction\<close>: once per prediction. What the attribution library and the card say of a vector
  is the parameter \<open>attribute\<close>; \<^term>\<open>None\<close> when there is no artefact on disk.
\<close>

definition TOP_K :: nat where "TOP_K = 8"

definition explain_prediction ::
    "scoring_run \<Rightarrow> (registered_model \<Rightarrow> prediction \<Rightarrow> string list \<Rightarrow> real list \<Rightarrow> explanation option) \<Rightarrow> nat \<Rightarrow> pdm_db \<Rightarrow> pdm_db" where
  "explain_prediction R attribute i db =
     (case by_prediction i db of
        Some _ \<Rightarrow> db
      | None \<Rightarrow>
          (case List.find (\<lambda>p. pr_id p = i) (predictions db) of
             None \<Rightarrow> db
           | Some p \<Rightarrow>
               (case find_model (pr_model p) db of
                  None \<Rightarrow> db
                | Some m \<Rightarrow>
                    (case rebuilt_vector R p m of
                       None \<Rightarrow> db
                     | Some (names, x) \<Rightarrow>
                         if names = [] then db
                         else (case attribute m p names x of
                                 None \<Rightarrow> db
                               | Some e \<Rightarrow>
                                   (case insert_explanation (e\<lparr>ex_prediction := i,
                                       ex_attributions := take TOP_K (ex_attributions e)\<rparr>) db of
                                      None \<Rightarrow> db
                                    | Some db' \<Rightarrow> db'))))))"

section \<open>Jobs\<close>

text \<open>\<open>JOB_STATES\<close>; an unknown state is reported in lower case.\<close>

definition JOB_STATES :: "(string \<times> string) list" where
  "JOB_STATES = [(''PENDING'', ''queued''), (''RECEIVED'', ''queued''), (''STARTED'', ''running''), (''RETRY'', ''running''),
     (''SUCCESS'', ''done''), (''FAILURE'', ''failed''), (''REVOKED'', ''failed'')]"

definition job_status :: "string \<Rightarrow> string" where
  "job_status state = (case map_of JOB_STATES state of Some s \<Rightarrow> s | None \<Rightarrow> Twin_Prelude.lower state)"

record benchmark_run =
  br_id :: nat
  br_seed :: int
  br_datasets :: "string list"
  br_status :: string
  br_error :: bool

record bench_db =
  bd_runs :: "benchmark_run list"
  bd_audits :: "(nat \<times> string) list"
  bd_jobs :: "nat list"

definition set_run :: "benchmark_run \<Rightarrow> bench_db \<Rightarrow> bench_db" where
  "set_run r db = db\<lparr>bd_runs := map (\<lambda>x. if br_id x = br_id r then r else x) (bd_runs db)\<rparr>"

definition start_benchmark ::
    "(string \<Rightarrow> bool) \<Rightarrow> bool \<Rightarrow> nat \<Rightarrow> int \<Rightarrow> string list \<Rightarrow> bench_db \<Rightarrow> (problem + benchmark_run) \<times> bench_db" where
  "start_benchmark present broker fresh seed requested db =
     (let datasets = map fst (dict_of (map (\<lambda>d. (d, ())) requested))
      in if \<exists>d \<in> set datasets. \<not> present d then (Inl (Conflict ''Raw data missing''), db)
         else (let run = \<lparr>br_id = fresh, br_seed = seed, br_datasets = datasets, br_status = ''running'', br_error = False\<rparr>;
                   db1 = db\<lparr>bd_runs := bd_runs db @ [run], bd_audits := bd_audits db @ [(fresh, ''run'')]\<rparr>
               in if broker then (Inr run, db1\<lparr>bd_jobs := bd_jobs db1 @ [fresh]\<rparr>)
                  else (let failed = run\<lparr>br_status := ''failed'', br_error := True\<rparr>
                        in (Inr failed, set_run failed db1))))"

end
