(* ===== verification/Pdm_Delivery.thy ===== *)
theory Pdm_Delivery
  imports Pdm_Predictions Pdm_Facts Edge_Delivery
begin

text \<open>
  The prediction store over time. Its step relation interleaves the registry, the edge's messages, the
  scoring runs and the explain worker; its invariant holds in every reachable state. A repeated
  delivery changes nothing, so the edge's at-least-once delivery stores each prediction once.
\<close>

section \<open>What a delivery does\<close>

text \<open>What one step adds: the tables only grow, and the models keep their identity.\<close>

definition grows :: "pdm_db \<Rightarrow> pdm_db \<Rightarrow> bool" where
  "grows db db' \<longleftrightarrow> models db' = models db
     \<and> (\<exists>ps es. predictions db' = predictions db @ ps \<and> explanations db' = explanations db @ es)"

lemma grows_refl [intro, simp]: "grows db db"
  by (simp add: grows_def)

lemma insert_prediction_Some:
  "insert_prediction p db = Some db' \<Longrightarrow> \<exists>q. db' = db\<lparr>predictions := predictions db @ [q]\<rparr>
     \<and> pr_id q = pr_id p \<and> pr_time q = pr_time p \<and> pr_asset q = pr_asset p \<and> pr_source q = pr_source p
     \<and> pr_model q = pr_model p \<and> pr_window q = pr_window p \<and> pr_label q = pr_label p \<and> label_ok (pr_label p)
     \<and> (\<forall>r \<in> set (predictions db). \<not> (pr_time r = pr_time p \<and> pr_id r = pr_id p))"
  by (auto simp: insert_prediction_def split: option.splits if_splits)

lemma insert_explanation_Some:
  "insert_explanation e db = Some db' \<Longrightarrow> db' = db\<lparr>explanations := explanations db @ [e]\<rparr>
     \<and> (\<forall>x \<in> set (explanations db). ex_prediction x \<noteq> ex_prediction e)"
  by (auto simp: insert_explanation_def by_prediction_def find_None_iff split: option.splits)

lemma find_Some_member: "List.find P xs = Some x \<Longrightarrow> x \<in> set xs \<and> P x"
  by (induction xs) (auto split: if_splits)

text \<open>When a message is stored: its model is known, its id parses, and neither its row nor its explanation is taken.\<close>

definition fits :: "edge_message \<Rightarrow> bool" where
  "fits m \<longleftrightarrow> label_ok (em_label m) \<and> numeric 5 2 (map_option (round_dec 2) (em_health m)) \<noteq> None
     \<and> numeric 3 2 (Option.bind (em_rul m) ri_coverage) \<noteq> None"

definition storable :: "(string \<Rightarrow> nat option) \<Rightarrow> edge_message \<Rightarrow> pdm_db \<Rightarrow> bool" where
  "storable parse_uuid m db \<longleftrightarrow> resolve_model (em_model_version m) db \<noteq> None \<and> fits m
     \<and> (case parse_uuid (em_id m) of None \<Rightarrow> False
        | Some pid \<Rightarrow> (\<forall>q \<in> set (predictions db). \<not> (pr_time q = em_time m \<and> pr_id q = pid))
            \<and> (edge_explains m \<noteq> None \<longrightarrow> (\<forall>e \<in> set (explanations db). ex_prediction e \<noteq> pid)))"

definition is_stored :: "stored \<Rightarrow> bool" where
  "is_stored r = (case r of Stored db \<Rightarrow> True | _ \<Rightarrow> False)"

lemma insert_edge_row_iff:
  "insert_prediction (edge_row pid a mid m) db \<noteq> None \<longleftrightarrow>
     fits m \<and> (\<forall>q \<in> set (predictions db). \<not> (pr_time q = em_time m \<and> pr_id q = pid))"
  by (auto simp: insert_prediction_def edge_row_def fits_def split: option.splits)

lemma insert_explanation_iff:
  "insert_explanation e db \<noteq> None \<longleftrightarrow> (\<forall>x \<in> set (explanations db). ex_prediction x \<noteq> ex_prediction e)"
proof (cases "by_prediction (ex_prediction e) db")
  case None
  then have "\<forall>x \<in> set (explanations db). ex_prediction x \<noteq> ex_prediction e"
    by (simp add: by_prediction_def find_None_iff)
  then show ?thesis by (simp add: insert_explanation_def None)
next
  case (Some x)
  then have "x \<in> set (explanations db)" "ex_prediction x = ex_prediction e"
    by (auto simp: by_prediction_def dest: find_Some_member)
  then show ?thesis by (auto simp: insert_explanation_def Some)
qed

lemma store_edge_cases:
  assumes "store_edge_prediction parse_uuid kb ms m a db = Stored db'"
  obtains pid mdl q where "resolve_model (em_model_version m) db = Some mdl" and "parse_uuid (em_id m) = Some pid"
    and "\<forall>r \<in> set (predictions db). \<not> (pr_time r = em_time m \<and> pr_id r = pid)"
    and "pr_id q = pid" and "pr_time q = em_time m" and "pr_asset q = a" and "pr_source q = Edge" and "pr_model q = md_id mdl"
    and "label_ok (pr_label q)"
    and "db' = db\<lparr>predictions := predictions db @ [q]\<rparr> \<or>
      (\<exists>e. ex_prediction e = pid \<and> (\<forall>x \<in> set (explanations db). ex_prediction x \<noteq> pid)
         \<and> db' = db\<lparr>predictions := predictions db @ [q], explanations := explanations db @ [e]\<rparr>)"
proof -
  from assms obtain mdl pid db1 where 1: "resolve_model (em_model_version m) db = Some mdl" "parse_uuid (em_id m) = Some pid"
      "insert_prediction (edge_row pid a (md_id mdl) m) db = Some db1"
    and fin: "db' = db1 \<and> edge_explains m = None \<or> (\<exists>e. edge_explains m = Some e
       \<and> insert_explanation (edge_explanation_row (edge_card kb ms m e) pid m e) db1 = Some db')"
    by (auto simp: store_edge_prediction_def split: option.splits if_splits)
  from insert_prediction_Some [OF 1(3)] obtain q where q: "db1 = db\<lparr>predictions := predictions db @ [q]\<rparr>"
      "pr_id q = pid" "pr_time q = em_time m" "pr_asset q = a" "pr_source q = Edge" "pr_model q = md_id mdl" "label_ok (pr_label q)"
      "\<forall>r \<in> set (predictions db). \<not> (pr_time r = em_time m \<and> pr_id r = pid)"
    by (auto simp: edge_row_def)
  from fin have "db' = db\<lparr>predictions := predictions db @ [q]\<rparr> \<or>
      (\<exists>e. ex_prediction e = pid \<and> (\<forall>x \<in> set (explanations db). ex_prediction x \<noteq> pid)
         \<and> db' = db\<lparr>predictions := predictions db @ [q], explanations := explanations db @ [e]\<rparr>)"
  proof (elim disjE exE conjE)
    fix e
    assume "insert_explanation (edge_explanation_row (edge_card kb ms m e) pid m e) db1 = Some db'"
    then show ?thesis
      using q(1) by (intro disjI2 exI [of _ "edge_explanation_row (edge_card kb ms m e) pid m e"])
        (auto simp: edge_explanation_row_def dest!: insert_explanation_Some)
  qed (simp add: q(1))
  with 1 q show thesis by (intro that) auto
qed

lemma store_edge_iff: "is_stored (store_edge_prediction parse_uuid kb ms m a db) \<longleftrightarrow> storable parse_uuid m db"
proof (cases "resolve_model (em_model_version m) db"; cases "parse_uuid (em_id m)")
  fix mdl pid
  assume r: "resolve_model (em_model_version m) db = Some mdl" "parse_uuid (em_id m) = Some pid"
  let ?ins = "insert_prediction (edge_row pid a (md_id mdl) m) db"
  show ?thesis
  proof (cases ?ins)
    case None
    then show ?thesis
      using r insert_edge_row_iff [of pid a "md_id mdl" m db] by (auto simp: store_edge_prediction_def storable_def is_stored_def)
  next
    case (Some db1)
    then have fresh: "fits m" "\<forall>q \<in> set (predictions db). \<not> (pr_time q = em_time m \<and> pr_id q = pid)"
      using insert_edge_row_iff [of pid a "md_id mdl" m db] by auto
    have same: "explanations db1 = explanations db" using insert_prediction_Some [OF Some] by auto
    have ins: "insert_explanation (edge_explanation_row (edge_card kb ms m e) pid m e) db1 \<noteq> None
        \<longleftrightarrow> (\<forall>x \<in> set (explanations db). ex_prediction x \<noteq> pid)" for e
      unfolding insert_explanation_iff same by (simp add: edge_explanation_row_def)
    show ?thesis
    proof (cases "edge_explains m")
      case None
      then show ?thesis using r Some fresh by (auto simp: store_edge_prediction_def storable_def is_stored_def)
    next
      case expl: (Some e)
      then show ?thesis using r Some fresh ins [of e]
        by (cases "insert_explanation (edge_explanation_row (edge_card kb ms m e) pid m e) db1")
          (auto simp: store_edge_prediction_def storable_def is_stored_def)
    qed
  qed
qed (auto simp: store_edge_prediction_def storable_def is_stored_def)

lemma storable_grows: "grows db db' \<Longrightarrow> storable parse_uuid m db' \<Longrightarrow> storable parse_uuid m db"
  by (auto simp: storable_def grows_def resolve_model_def get_by_name_version_def production_model_def
      split: option.splits prod.splits)


lemma store_edge_grows: "store_edge_prediction parse_uuid kb ms m a db = Stored db' \<Longrightarrow> grows db db' \<and> predictions db' \<noteq> predictions db"
  by (erule store_edge_cases) (auto simp: grows_def)

section \<open>Deliveries that may be repeated\<close>

text \<open>
  A receiver that settles: what a delivery would still change, it changes the first time, and no other
  delivery brings it back. Repetitions then change nothing.
\<close>

locale settling_receiver =
  fixes deliver :: "'m \<Rightarrow> 's \<Rightarrow> 's"
  assumes settles: "deliver m (deliver m s) = deliver m s"
    and stays: "deliver m s = s \<Longrightarrow> deliver m (deliver k s) = deliver k s"
begin

lemma settled_after: "m \<in> set ms \<Longrightarrow> deliver m (foldl (\<lambda>s m. deliver m s) s ms) = foldl (\<lambda>s m. deliver m s) s ms"
proof (induction ms rule: rev_induct)
  case (snoc k ms)
  then show ?case by (cases "m = k") (auto simp: settles intro: stays)
qed simp

lemma repeats_harmless: "foldl (\<lambda>s m. deliver m s) s (rev (remdups (rev ms))) = foldl (\<lambda>s m. deliver m s) s ms"
proof (induction ms rule: rev_induct)
  case (snoc m ms)
  then show ?case using settled_after [of m ms s] by auto
qed simp

lemma stutter_harmless: "stutter xs ys \<Longrightarrow> foldl (\<lambda>s m. deliver m s) s ys = foldl (\<lambda>s m. deliver m s) s xs"
proof (induction rule: stutter.induct)
  case (again xs ys x)
  then have "x \<in> set xs" by auto
  with again show ?case by (simp add: settled_after)
qed simp_all

end

section \<open>The consumer settles\<close>

lemma process_edge_cases:
  obtains (kept) "process_edge_prediction V parse topic payload w = w"
  | (stored) m a db where "parse payload = Some m" and "message_valid m" and "Some (em_asset_code m) = asset_from_pred_topic topic"
      and "sv_assets V (em_asset_code m) = Some a" and "storable (sv_uuid V) m (w_db w)"
      and "store_edge_prediction (sv_uuid V) (sv_kb V) (sv_modes V a) m a (w_db w) = Stored db"
      and "process_edge_prediction V parse topic payload w =
        publish_prediction V (em_asset_code m) (live_of_message m) (map_option ri_unit (em_rul m)) (w\<lparr>w_db := db\<rparr>)"
proof (cases "parse payload")
  case None
  then show thesis by (intro kept) (simp add: process_edge_prediction_def)
next
  case (Some m)
  show thesis
  proof (cases "message_valid m \<and> Some (em_asset_code m) = asset_from_pred_topic topic \<and> sv_assets V (em_asset_code m) \<noteq> None
      \<and> is_stored (store_edge_prediction (sv_uuid V) (sv_kb V) (sv_modes V (the (sv_assets V (em_asset_code m)))) m (the (sv_assets V (em_asset_code m))) (w_db w))")
    case True
    then obtain a db where a: "sv_assets V (em_asset_code m) = Some a"
        "store_edge_prediction (sv_uuid V) (sv_kb V) (sv_modes V a) m a (w_db w) = Stored db"
      by (auto simp: is_stored_def split: stored.splits)
    have "is_stored (store_edge_prediction (sv_uuid V) (sv_kb V) (sv_modes V a) m a (w_db w))" by (simp add: a is_stored_def)
    then have "storable (sv_uuid V) m (w_db w)" by (simp only: store_edge_iff)
    moreover have "process_edge_prediction V parse topic payload w =
        publish_prediction V (em_asset_code m) (live_of_message m) (map_option ri_unit (em_rul m)) (w\<lparr>w_db := db\<rparr>)"
      using True Some a by (simp add: process_edge_prediction_def)
    ultimately show thesis using True Some a by (blast intro: stored)
  next
    case False
    show thesis
    proof (cases "sv_assets V (em_asset_code m)")
      case None
      then show thesis by (intro kept) (simp add: process_edge_prediction_def Some)
    next
      case asset: (Some a)
      then show thesis using False
        by (intro kept; cases "store_edge_prediction (sv_uuid V) (sv_kb V) (sv_modes V a) m a (w_db w)")
          (auto simp: process_edge_prediction_def Some is_stored_def)
    qed
  qed
qed

lemma w_db_publish [simp]: "w_db (publish_prediction V code l u w) = w_db w" "w_explain (publish_prediction V code l u w) = w_explain w"
  by (simp_all add: publish_prediction_def)

lemma process_edge_grows: "grows (w_db w) (w_db (process_edge_prediction V parse topic payload w))"
proof (cases rule: process_edge_cases [of V parse topic payload w])
  case (stored m a db)
  then show ?thesis using store_edge_grows by simp
qed simp

text \<open>A message is settled when nothing of it can be stored any more.\<close>

definition settled :: "services \<Rightarrow> ('b \<Rightarrow> edge_message option) \<Rightarrow> string \<Rightarrow> 'b \<Rightarrow> pdm_db \<Rightarrow> bool" where
  "settled V parse topic payload db \<longleftrightarrow>
     (case parse payload of None \<Rightarrow> True
      | Some m \<Rightarrow> \<not> message_valid m \<or> Some (em_asset_code m) \<noteq> asset_from_pred_topic topic
          \<or> sv_assets V (em_asset_code m) = None \<or> \<not> storable (sv_uuid V) m db)"

lemma settled_iff: "settled V parse topic payload (w_db w) \<longleftrightarrow> process_edge_prediction V parse topic payload w = w"
proof
  assume "settled V parse topic payload (w_db w)"
  then show "process_edge_prediction V parse topic payload w = w"
    by (cases rule: process_edge_cases [of V parse topic payload w]) (auto simp: settled_def)
next
  assume same: "process_edge_prediction V parse topic payload w = w"
  show "settled V parse topic payload (w_db w)"
  proof (rule ccontr)
    assume "\<not> settled V parse topic payload (w_db w)"
    then obtain m a where m: "parse payload = Some m" "message_valid m" "Some (em_asset_code m) = asset_from_pred_topic topic"
        "sv_assets V (em_asset_code m) = Some a" "storable (sv_uuid V) m (w_db w)"
      by (auto simp: settled_def split: option.splits)
    then obtain db where db: "store_edge_prediction (sv_uuid V) (sv_kb V) (sv_modes V a) m a (w_db w) = Stored db"
      using store_edge_iff [of "sv_uuid V" "sv_kb V" "sv_modes V a" m a "w_db w"] by (auto simp: is_stored_def split: stored.splits)
    with m have "w_db (process_edge_prediction V parse topic payload w) = db" by (simp add: process_edge_prediction_def)
    with same db store_edge_grows show False by metis
  qed
qed

lemma settled_grows: "grows db db' \<Longrightarrow> settled V parse topic payload db \<Longrightarrow> settled V parse topic payload db'"
  by (auto simp: settled_def dest: storable_grows split: option.splits)

lemma settled_once: "settled V parse topic payload (w_db (process_edge_prediction V parse topic payload w))"
proof (cases rule: process_edge_cases [of V parse topic payload w])
  case kept
  then show ?thesis by (simp add: settled_iff)
next
  case (stored m a db)
  from stored(6) have "\<not> storable (sv_uuid V) m db" by (rule store_edge_cases) (auto simp: storable_def)
  with stored show ?thesis by (simp add: settled_def)
qed

text \<open>The broker's messages as the consumer gets them: topic and payload.\<close>

definition consume :: "services \<Rightarrow> (string \<Rightarrow> edge_message option) \<Rightarrow> message \<Rightarrow> world \<Rightarrow> world" where
  "consume V parse msg = process_edge_prediction V parse (msg_topic msg) (msg_payload msg)"

interpretation consumer: settling_receiver "consume V parse" for V parse
proof
  fix m s
  show "consume V parse m (consume V parse m s) = consume V parse m s"
    using settled_once [of V parse "msg_topic m" "msg_payload m" s] by (simp add: consume_def settled_iff)
next
  fix m k s
  assume "consume V parse m s = s"
  then have "settled V parse (msg_topic m) (msg_payload m) (w_db s)" by (simp add: consume_def settled_iff)
  then have "settled V parse (msg_topic m) (msg_payload m) (w_db (consume V parse k s))"
    unfolding consume_def by (rule settled_grows [OF process_edge_grows])
  then show "consume V parse m (consume V parse k s) = consume V parse k s" by (simp add: consume_def settled_iff)
qed

text \<open>
  Property C6. From the edge to the platform a prediction arrives once: whatever crashes and repetitions
  there were on the way, the platform's tables, Ditto and the live channel are what they would be had
  each published message that left the edge's queue been delivered exactly once, in order.
\<close>

theorem edge_to_platform_once:
  assumes "sys_reach s"
  shows "\<exists>done todo. history s = done @ todo
    \<and> (queued (table s) = todo \<or> done \<noteq> [] \<and> queued (table s) = last done # todo)
    \<and> foldl (\<lambda>w m. consume V parse m w) w (arrived s) = foldl (\<lambda>w m. consume V parse m w) w done"
proof -
  from sys_reach_inv [OF assms] obtain d todo dup where sp: "sys_split s d todo dup" by (auto simp: sys_inv_def)
  then have 1: "stutter d (arrived s)" and 2: "history s = d @ todo"
      and 3: "queued (table s) = todo \<or> d \<noteq> [] \<and> queued (table s) = last d # todo"
    by (auto simp: sys_split_def)
  show ?thesis by (intro exI [of _ d] exI [of _ todo] conjI 2 3 consumer.stutter_harmless [OF 1])
qed

definition demo_message :: edge_message where
  "demo_message = \<lparr>em_id = ''1'', em_asset_code = ''m'', em_time = 0, em_window = (0, 0), em_model_version = ''rul:1'',
     em_health = Some 80, em_anomaly = None, em_failure = None, em_rul = None, em_label = None, em_reasons = [],
     em_drift = (False, None), em_explanation = None, em_infer_ms = 3, em_explain_ms = None\<rparr>"

definition demo_services :: services where
  "demo_services = \<lparr>sv_assets = (\<lambda>c. if c = ''m'' then Some 7 else None), sv_uuid = (\<lambda>s. if s = ''1'' then Some 1 else None),
     sv_kb = (\<lambda>c. None), sv_modes = (\<lambda>a. None), sv_ditto = True, sv_valkey = True, sv_queue = True\<rparr>"

definition demo_registered :: registered_model where
  "demo_registered = \<lparr>md_id = 5, md_name = ''rul'', md_version = ''1'', md_task = ''rul'', md_algorithm = ''gbm'',
     md_asset_type = Some ''cnc'', md_asset = None, md_dataset = ('''', ''''), md_features = [], md_window = (None, None, None),
     md_artifact = '''', md_onnx = None, md_stage = Candidate, md_trained_at = 0\<rparr>"

definition demo_world :: world where
  "demo_world = \<lparr>w_db = \<lparr>models = [demo_registered], predictions = [], explanations = [], audits = [(5, ''create'')]\<rparr>,
     w_ditto = [], w_live = [], w_explain = []\<rparr>"

lemma demo_stored:
  "predictions (w_db (consume demo_services (\<lambda>_. Some demo_message) demo_msg demo_world)) = [edge_row 1 7 5 demo_message]"
  by (simp add: consume_def process_edge_prediction_def demo_world_def demo_services_def demo_message_def message_valid_def
      label_ok_def asset_from_pred_topic_def PRED_TOPIC_PREFIX_def store_edge_prediction_def resolve_model_def partition_colon_def
      get_by_name_version_def demo_registered_def insert_prediction_def edge_row_def numeric_def round_away_def edge_explains_def
      publish_prediction_def)

lemma edge_to_platform_once_witness:
  "let run = foldl (\<lambda>w m. consume demo_services (\<lambda>_. Some demo_message) m w) demo_world
   in predictions (w_db (run [demo_msg])) = [edge_row 1 7 5 demo_message]
    \<and> (\<exists>done todo. history demo_twice = done @ todo \<and> run (arrived demo_twice) = run done)"
  using edge_to_platform_once [OF demo_twice_reached, of demo_services "\<lambda>_. Some demo_message" demo_world] demo_stored
  unfolding Let_def by auto

section \<open>The store over time\<close>

text \<open>
  What happens to the store: models are registered under fresh ids and promoted, messages arrive,
  assets are scored, predictions explained.
\<close>

inductive pdm_step :: "world \<Rightarrow> world \<Rightarrow> bool" where
  registered: "fresh \<notin> md_id ` set (models (w_db w)) \<Longrightarrow> register_model fresh now given (w_db w) = (r, db) \<Longrightarrow> pdm_step w (w\<lparr>w_db := db\<rparr>)"
| promoted: "promote i (w_db w) = (r, db) \<Longrightarrow> pdm_step w (w\<lparr>w_db := db\<rparr>)"
| delivered: "pdm_step w (process_edge_prediction V parse topic (payload :: string) w)"
| scored: "pdm_step w (infer_asset V R a code ty w)"
| explained: "pdm_step w (w\<lparr>w_db := explain_prediction R attribute i (w_db w)\<rparr>)"

inductive pdm_steps :: "world \<Rightarrow> world \<Rightarrow> bool" where
  stay: "pdm_steps w w"
| more: "pdm_steps w u \<Longrightarrow> pdm_step u v \<Longrightarrow> pdm_steps w v"

definition empty_world :: world where
  "empty_world = \<lparr>w_db = \<lparr>models = [], predictions = [], explanations = [], audits = []\<rparr>, w_ditto = [], w_live = [], w_explain = []\<rparr>"

definition models_ok :: "registered_model list \<Rightarrow> bool" where
  "models_ok ms \<longleftrightarrow> distinct (map md_id ms) \<and> distinct (map (\<lambda>m. (md_name m, md_version m)) ms)
     \<and> distinct (map md_name (filter (\<lambda>m. md_stage m = Production) ms))"

definition pdm_inv :: "pdm_db \<Rightarrow> bool" where
  "pdm_inv db \<longleftrightarrow> models_ok (models db)
     \<and> distinct (map (\<lambda>p. (pr_time p, pr_id p)) (predictions db))
     \<and> (\<forall>p \<in> set (predictions db). pr_model p \<in> md_id ` set (models db) \<and> label_ok (pr_label p))
     \<and> distinct (map ex_prediction (explanations db))
     \<and> ex_prediction ` set (explanations db) \<subseteq> pr_id ` set (predictions db)"

lemma models_ok_append:
  "models_ok ms \<Longrightarrow> md_id m \<notin> md_id ` set ms \<Longrightarrow> (\<forall>x \<in> set ms. \<not> (md_name x = md_name m \<and> md_version x = md_version m))
     \<Longrightarrow> md_stage m \<noteq> Production \<Longrightarrow> models_ok (ms @ [m])"
  by (auto simp: models_ok_def)

definition promoted_to :: "registered_model \<Rightarrow> registered_model \<Rightarrow> registered_model" where
  "promoted_to m x = (if md_id (archived m x) = md_id m then (archived m x)\<lparr>md_stage := Production\<rparr> else archived m x)"

lemma models_promote: "models (repo_promote m db) = map (promoted_to m) (models db)"
  by (simp add: repo_promote_def promoted_to_def)

lemma promoted_to_simps [simp]:
  "md_id (promoted_to m x) = md_id x" "md_name (promoted_to m x) = md_name x" "md_version (promoted_to m x) = md_version x"
  "md_stage (promoted_to m x) = Production \<longleftrightarrow> md_id x = md_id m \<or> md_stage x = Production \<and> md_name x \<noteq> md_name m"
  by (auto simp: promoted_to_def archived_def)

lemma models_ok_promote:
  assumes ok: "models_ok ms" and m: "m \<in> set ms"
  shows "models_ok (map (promoted_to m) ms)"
proof -
  let ?P = "\<lambda>x. md_id x = md_id m \<or> md_stage x = Production \<and> md_name x \<noteq> md_name m"
  have "inj_on md_name (set (filter ?P ms))"
    using ok m by (auto simp: models_ok_def distinct_map inj_on_def)
  then have "distinct (map md_name (filter ?P ms))"
    using ok by (simp add: models_ok_def distinct_map)
  then show ?thesis using ok by (simp add: models_ok_def filter_map comp_def)
qed

lemma models_ok_register:
  assumes "models_ok (models db)" and "fresh \<notin> md_id ` set (models db)" and "register_model fresh now given db = (r, db')"
  shows "models_ok (models db')"
proof (cases "get_by_name_version (md_name given) (md_version given) db")
  case None
  then have "\<forall>x \<in> set (models db). \<not> (md_name x = md_name given \<and> md_version x = md_version given)"
    by (simp add: get_by_name_version_def find_None_iff)
  with None assms show ?thesis by (auto simp: register_model_def Let_def intro!: models_ok_append)
next
  case (Some m)
  with assms show ?thesis by (simp add: register_model_def)
qed

lemma promote_cases:
  assumes "promote i db = (r, db')"
  obtains "db' = db" | m where "m \<in> set (models db)" and "md_id m = i" and "r = Inr (m\<lparr>md_stage := Production\<rparr>)"
    and "models db' = map (promoted_to m) (models db)" and "predictions db' = predictions db" and "explanations db' = explanations db"
proof (cases "find_model i db")
  case None
  with assms that(1) show thesis by (simp add: promote_def)
next
  case (Some m)
  then have m: "m \<in> set (models db)" "md_id m = i" by (auto simp: find_model_def dest: find_Some_member)
  show thesis
  proof (cases "md_stage m = Production")
    case True
    with assms Some that(1) show thesis by (simp add: promote_def)
  next
    case False
    then have "r = Inr (m\<lparr>md_stage := Production\<rparr>)" "db' = (repo_promote m db)\<lparr>audits := audits (repo_promote m db) @ [(i, ''promote'')]\<rparr>"
      using assms Some by (auto simp: promote_def Let_def)
    with m show thesis by (intro that(2)) (simp_all add: models_promote, simp_all add: repo_promote_def)
  qed
qed

lemma select_model_registered: "select_model a ty db = Some m \<Longrightarrow> m \<in> set (models db)"
  using set_sort
  by (fastforce simp: select_model_def candidates_def Let_def filter_empty_conv split: list.splits if_splits dest: arg_cong [where f = set])

lemma infer_asset_cases:
  obtains (kept) "infer_asset V R a code ty w = w"
  | (scored) m lm win s0 s db w1 where "\<not> edge_is_fresh a (sr_now R) (w_db w)" and "scoring_input R a ty (w_db w) = Some (m, lm, win)"
      and "score lm (fst (feature_vector lm win)) = Some s0"
      and "s = qualify win (snd (feature_vector lm win)) (length (lm_names lm)) s0"
      and "insert_prediction (server_row R a (md_id m) win s) (w_db w) = Some db" and "w_db w1 = db"
      and "infer_asset V R a code ty w = publish_prediction V code (live_of_score (sr_now R) s) (map_option ri_unit (sc_rul s)) w1"
proof (cases "edge_is_fresh a (sr_now R) (w_db w) \<or> scoring_input R a ty (w_db w) = None")
  case True
  then show thesis by (intro kept) (auto simp: infer_asset_def)
next
  case False
  then obtain m lm win where i: "scoring_input R a ty (w_db w) = Some (m, lm, win)" by auto
  obtain x im where fv: "feature_vector lm win = (x, im)" by force
  show thesis
  proof (cases "score lm x")
    case None
    with False i fv show thesis by (intro kept) (simp add: infer_asset_def)
  next
    case (Some s0)
    let ?s = "qualify win im (length (lm_names lm)) s0"
    show thesis
    proof (cases "insert_prediction (server_row R a (md_id m) win ?s) (w_db w)")
      case None
      with False i fv Some show thesis by (intro kept) (simp add: infer_asset_def Let_def)
    next
      case ins: (Some db)
      from False i fv Some ins have "infer_asset V R a code ty w =
          publish_prediction V code (live_of_score (sr_now R) ?s) (map_option ri_unit (sc_rul ?s))
            (w\<lparr>w_db := db, w_explain := w_explain w @ (if sv_queue V then [sr_id R] else [])\<rparr>)"
        by (simp add: infer_asset_def Let_def)
      with False i fv Some ins show thesis by (intro scored [of m lm win s0 ?s db]) auto
    qed
  qed
qed

lemma explain_cases:
  obtains (kept) "explain_prediction R attribute i db = db"
  | (explained) e where "\<forall>x \<in> set (explanations db). ex_prediction x \<noteq> i" and "i \<in> pr_id ` set (predictions db)"
      and "ex_prediction e = i" and "explain_prediction R attribute i db = db\<lparr>explanations := explanations db @ [e]\<rparr>"
proof (cases "explain_prediction R attribute i db = db")
  case False
  then obtain p where none: "by_prediction i db = None" and p: "List.find (\<lambda>p. pr_id p = i) (predictions db) = Some p"
    by (auto simp: explain_prediction_def split: option.splits)
  from none have "\<forall>x \<in> set (explanations db). ex_prediction x \<noteq> i" by (simp add: by_prediction_def find_None_iff)
  moreover from p have "i \<in> pr_id ` set (predictions db)" by (auto dest: find_Some_member)
  moreover from False obtain e where "insert_explanation (e\<lparr>ex_prediction := i, ex_attributions := take TOP_K (ex_attributions e)\<rparr>) db
      = Some (explain_prediction R attribute i db)"
    by (auto simp: explain_prediction_def split: option.splits if_splits prod.splits)
  then have "explain_prediction R attribute i db = db\<lparr>explanations := explanations db @
      [e\<lparr>ex_prediction := i, ex_attributions := take TOP_K (ex_attributions e)\<rparr>]\<rparr>"
    by (auto dest: insert_explanation_Some)
  ultimately show thesis by (intro explained) auto
qed (rule kept)

lemma pdm_inv_row:
  assumes "pdm_inv db" and "pr_model q \<in> md_id ` set (models db)" and "label_ok (pr_label q)"
    and "\<forall>r \<in> set (predictions db). \<not> (pr_time r = pr_time q \<and> pr_id r = pr_id q)"
  shows "pdm_inv (db\<lparr>predictions := predictions db @ [q]\<rparr>)"
  using assms by (auto simp: pdm_inv_def)

lemma pdm_inv_explanation:
  assumes "pdm_inv db" and "ex_prediction e \<in> pr_id ` set (predictions db)"
    and "\<forall>x \<in> set (explanations db). ex_prediction x \<noteq> ex_prediction e"
  shows "pdm_inv (db\<lparr>explanations := explanations db @ [e]\<rparr>)"
  using assms by (auto simp: pdm_inv_def)

lemma resolve_model_registered: "resolve_model mv db = Some m \<Longrightarrow> m \<in> set (models db)"
  by (auto simp: resolve_model_def get_by_name_version_def production_model_def split: prod.splits if_splits dest: find_Some_member)

lemma pdm_inv_store:
  assumes "pdm_inv db" and "store_edge_prediction pu kb ms m a db = Stored db'"
  shows "pdm_inv db'"
  using assms(2)
proof (cases rule: store_edge_cases)
  case (1 pid mdl q)
  let ?db1 = "db\<lparr>predictions := predictions db @ [q]\<rparr>"
  have row: "pdm_inv ?db1"
    using 1 assms(1) resolve_model_registered [OF 1(1)] by (intro pdm_inv_row) auto
  from 1(10) show ?thesis
  proof (elim disjE exE conjE)
    fix e
    assume "ex_prediction e = pid" "\<forall>x \<in> set (explanations db). ex_prediction x \<noteq> pid"
      and "db' = db\<lparr>predictions := predictions db @ [q], explanations := explanations db @ [e]\<rparr>"
    then show ?thesis using pdm_inv_explanation [OF row, of e] 1(4) by simp
  qed (simp add: row)
qed

lemma pdm_step_inv:
  assumes "pdm_step w v" and "pdm_inv (w_db w)"
  shows "pdm_inv (w_db v)"
  using assms(1)
proof cases
  case (registered fresh now given r db)
  have "predictions db = predictions (w_db w) \<and> explanations db = explanations (w_db w)
      \<and> md_id ` set (models (w_db w)) \<subseteq> md_id ` set (models db)"
    using registered(3) by (auto simp: register_model_def Let_def split: option.splits)
  then show ?thesis
    using registered models_ok_register [OF _ registered(2,3)] assms(2) by (auto simp: pdm_inv_def)
next
  case (promoted i r db)
  from promoted(2) show ?thesis
  proof (cases rule: promote_cases)
    case (2 m)
    then show ?thesis using promoted assms(2) models_ok_promote [of "models (w_db w)" m] by (auto simp: pdm_inv_def image_image)
  qed (use promoted assms(2) in simp)
next
  case (delivered V parse topic payload)
  show ?thesis
    using assms(2) pdm_inv_store by (cases rule: process_edge_cases [of V parse topic payload w]) (auto simp: delivered)
next
  case (scored V R a code ty)
  show ?thesis
  proof (cases rule: infer_asset_cases [of V R a code ty w])
    case (scored m lm win s0 s db w1)
    then have m: "m \<in> set (models (w_db w))"
      by (auto simp: scoring_input_def dest: select_model_registered split: option.splits)
    from insert_prediction_Some [OF scored(5)] obtain q where q: "db = (w_db w)\<lparr>predictions := predictions (w_db w) @ [q]\<rparr>"
        "pr_model q = md_id m" "pr_time q = sr_now R" "pr_id q = sr_id R" "label_ok (pr_label q)"
        "\<forall>r \<in> set (predictions (w_db w)). \<not> (pr_time r = sr_now R \<and> pr_id r = sr_id R)"
      by (auto simp: server_row_def)
    have "pdm_inv db" unfolding q(1) using assms(2) q m by (intro pdm_inv_row) auto
    then show ?thesis using scored(6,7) \<open>v = infer_asset V R a code ty w\<close> by simp
  qed (use assms(2) scored in simp)
next
  case (explained R attribute i)
  show ?thesis
  proof (cases rule: explain_cases [of R attribute i "w_db w"])
    case (explained e)
    then show ?thesis
      using pdm_inv_explanation [OF assms(2), of e] \<open>v = w\<lparr>w_db := explain_prediction R attribute i (w_db w)\<rparr>\<close> by simp
  qed (use assms(2) explained in simp)
qed

text \<open>
  Property C13. The registry and the prediction store stay consistent, however registrations, promotions,
  edge messages, scoring runs and explanations interleave: a name and version is registered once, a name
  has at most one production model, a prediction is stored once and names a registered model, and an
  explanation belongs to a stored prediction, which has no other.
\<close>

theorem prediction_store_invariant:
  assumes "pdm_steps empty_world w"
  shows "pdm_inv (w_db w)"
  using assms
proof (induction empty_world w rule: pdm_steps.induct)
  case stay
  then show ?case by (simp add: empty_world_def pdm_inv_def models_ok_def)
next
  case (more u v)
  then show ?case by (auto intro: pdm_step_inv)
qed

definition demo_after :: world where
  "demo_after = process_edge_prediction demo_services (\<lambda>_. Some demo_message) ''twinvoice/pred/m'' ''a'' demo_world"

lemma demo_after_steps: "pdm_steps empty_world demo_after"
proof -
  have "pdm_step empty_world (empty_world\<lparr>w_db := w_db demo_world\<rparr>)"
    by (rule pdm_step.registered [of 5 _ 0 demo_registered "Inr demo_registered"])
      (simp_all add: Let_def empty_world_def register_model_def get_by_name_version_def demo_world_def demo_registered_def)
  then have "pdm_step empty_world demo_world" by (simp add: empty_world_def demo_world_def)
  moreover have "pdm_step demo_world demo_after" unfolding demo_after_def by (rule pdm_step.delivered)
  ultimately show ?thesis by (blast intro: pdm_steps.intros)
qed

lemma demo_after_row: "predictions (w_db demo_after) = [edge_row 1 7 5 demo_message]"
  using demo_stored by (simp add: consume_def demo_after_def)

lemma prediction_store_invariant_witness:
  "predictions (w_db demo_after) = [edge_row 1 7 5 demo_message] \<and> pdm_inv (w_db demo_after)"
  using prediction_store_invariant [OF demo_after_steps] demo_after_row by simp

section \<open>Edge first\<close>

lemma pdm_step_keeps_rows:
  assumes "pdm_step w v"
  shows "set (predictions (w_db w)) \<subseteq> set (predictions (w_db v))"
  using assms
proof cases
  case (registered fresh now given r db)
  then show ?thesis by (auto simp: register_model_def Let_def split: option.splits)
next
  case (promoted i r db)
  from promoted(2) show ?thesis by (cases rule: promote_cases) (simp_all add: promoted)
next
  case (delivered V parse topic payload)
  then show ?thesis using process_edge_grows [of w V parse topic payload] by (auto simp: grows_def)
next
  case (scored V R a code ty)
  show ?thesis
  proof (cases rule: infer_asset_cases [of V R a code ty w])
    case (scored m lm win s0 s db w1)
    then show ?thesis
      using insert_prediction_Some [OF scored(5)] \<open>v = infer_asset V R a code ty w\<close> by auto
  qed (simp add: scored)
next
  case (explained R attribute i)
  show ?thesis
    by (cases rule: explain_cases [of R attribute i "w_db w"]) (auto simp: explained)
qed

lemma pdm_steps_keep_rows: "pdm_steps w v \<Longrightarrow> set (predictions (w_db w)) \<subseteq> set (predictions (w_db v))"
  by (induction rule: pdm_steps.induct) (auto dest: pdm_step_keeps_rows)

lemma edge_is_fresh_steps: "pdm_steps w v \<Longrightarrow> edge_is_fresh a now (w_db w) \<Longrightarrow> edge_is_fresh a now (w_db v)"
  using pdm_steps_keep_rows by (fastforce simp: edge_is_fresh_def)

text \<open>
  Edge first: once a prediction of the edge is stored, no scoring run within two minutes of
  its time adds another for that machine, whatever happens in between; and a row the server does add
  says that no such prediction was stored when it ran.
\<close>

theorem edge_first:
  assumes "p \<in> set (predictions (w_db w))" and "pr_source p = Edge" and "pdm_steps w v"
  shows "if sr_now R \<le> pr_time p + 120000000 \<and> a = pr_asset p then infer_asset V R a code ty v = v
    else infer_asset V R a code ty v = v
      \<or> (\<forall>q \<in> set (predictions (w_db v)). pr_asset q = a \<longrightarrow> pr_source q = Edge \<longrightarrow> pr_time q < sr_now R - 120000000)"
proof (cases "sr_now R \<le> pr_time p + 120000000 \<and> a = pr_asset p")
  case True
  then have "edge_is_fresh a (sr_now R) (w_db w)"
    using assms(1,2) by (auto simp: edge_is_fresh_def EDGE_FRESH_S_def)
  then have "edge_is_fresh a (sr_now R) (w_db v)" by (rule edge_is_fresh_steps [OF assms(3)])
  then have "infer_asset V R a code ty v = v" by (simp add: infer_asset_def)
  then show ?thesis using True by simp
next
  case False
  show ?thesis
  proof (cases rule: infer_asset_cases [of V R a code ty v])
    case kept
    then show ?thesis by auto
  next
    case (scored m lm win s0 s db w1)
    have "\<forall>q \<in> set (predictions (w_db v)). pr_asset q = a \<longrightarrow> pr_source q = Edge \<longrightarrow> pr_time q < sr_now R - 120000000"
      using scored(1) by (force simp: edge_is_fresh_def EDGE_FRESH_S_def)
    then show ?thesis unfolding if_not_P [OF False] by blast
  qed
qed

definition demo_run :: scoring_run where
  "demo_run = \<lparr>sr_now = 60000000, sr_id = 9, sr_ms = 4, sr_load = (\<lambda>m. None), sr_rows = (\<lambda>a. [])\<rparr>"

lemma edge_first_witness:
  "infer_asset demo_services demo_run 7 ''m'' ''cnc'' demo_after = demo_after"
  using edge_first [of "edge_row 1 7 5 demo_message" demo_after demo_after demo_run 7 demo_services "''m''" "''cnc''"]
  by (simp add: demo_after_row pdm_steps.stay edge_row_def demo_message_def demo_run_def)

text \<open>A prediction dated ahead holds the server back until two minutes after its own time.\<close>

lemma future_edge_blocks:
  "p \<in> set (predictions (w_db w)) \<Longrightarrow> pr_source p = Edge \<Longrightarrow> sr_now R < pr_time p
     \<Longrightarrow> infer_asset V R (pr_asset p) code ty w = w"
  by (auto simp: infer_asset_def edge_is_fresh_def EDGE_FRESH_S_def)

section \<open>The explanation is of the vector scored\<close>

lemma in_window_rows:
  assumes "filter (\<lambda>(t, n, v). start \<le> t \<and> t < end') rows = filter (\<lambda>(t, n, v). start \<le> t \<and> t < end') rows'"
  shows "wide spec rows start end' metric = wide spec rows' start end' metric"
  by (simp only: wide_def assms)

text \<open>
  The explain worker explains the vector that was scored: for a prediction the server
  stored, with the same bundle on disk and the same telemetry in the stored window, the vector it
  rebuilds is the vector that was given to the model, under the bundle's feature names.
\<close>

theorem explains_what_was_scored:
  assumes "\<not> edge_is_fresh a (sr_now R) (w_db w)" and "scoring_input R a ty (w_db w) = Some (m, lm, win)"
    and "score lm (fst (feature_vector lm win)) = Some s0"
    and "insert_prediction (server_row R a (md_id m) win (qualify win (snd (feature_vector lm win)) (length (lm_names lm)) s0)) (w_db w) = Some db"
    and "sr_load R' m = sr_load R m"
    and "filter (\<lambda>(t, n, v). sw_start win \<le> t \<and> t < sw_end win) (sr_rows R' a)
       = filter (\<lambda>(t, n, v). sw_start win \<le> t \<and> t < sw_end win) (sr_rows R a)"
  shows "let p = last (predictions (w_db (infer_asset V R a code ty w)))
    in pr_source p = Server \<and> pr_id p = sr_id R \<and> rebuilt_vector R' p m = Some (lm_names lm, fst (feature_vector lm win))"
proof -
  from assms(2) have load: "sr_load R m = Some lm"
      and win: "telemetry_window (lm_spec lm) (sr_rows R a) (window_end (sr_now R)) = Some win"
    by (auto simp: scoring_input_def split: option.splits)
  have ends: "sw_end win = window_end (sr_now R)" "sw_start win = sw_end win - int (window_size (lm_spec lm)) * PERIOD_US"
    using win by (auto simp: telemetry_window_def Let_def split: if_splits)
  from insert_prediction_Some [OF assms(4)] obtain q where q: "db = (w_db w)\<lparr>predictions := predictions (w_db w) @ [q]\<rparr>"
      "pr_id q = sr_id R" "pr_asset q = a" "pr_source q = Server" "pr_window q = (sw_start win, sw_end win)"
    by (auto simp: server_row_def)
  obtain x im where fv: "feature_vector lm win = (x, im)" by force
  have "w_db (infer_asset V R a code ty w) = db"
    using assms(1-4) fv by (simp add: infer_asset_def Let_def)
  then have last: "last (predictions (w_db (infer_asset V R a code ty w))) = q" by (simp add: q(1))
  have "wide (lm_spec lm) (sr_rows R' a) (sw_start win) (sw_end win) = wide (lm_spec lm) (sr_rows R a) (sw_start win) (sw_end win)"
    by (intro ext in_window_rows assms(6))
  then have "telemetry_window (lm_spec lm) (sr_rows R' a) (sw_end win) = telemetry_window (lm_spec lm) (sr_rows R a) (sw_end win)"
    by (simp add: telemetry_window_def ends(2))
  then have "rebuilt_vector R' q m = Some (lm_names lm, fst (feature_vector lm win))"
    using load win assms(5) by (simp add: rebuilt_vector_def q ends(1))
  with q show ?thesis unfolding Let_def last by simp
qed

lemma qualify_keeps [simp]:
  "sc_health (qualify w im n s) = sc_health s" "sc_rul (qualify w im n s) = sc_rul s"
  "sc_anomaly (qualify w im n s) = sc_anomaly s" "sc_failure (qualify w im n s) = sc_failure s"
  by (simp_all add: qualify_def Let_def)

lemma qualify_label: "label_ok (sc_confidence s) \<Longrightarrow> label_ok (sc_confidence (qualify w im n s))"
  by (auto simp: qualify_def Let_def label_ok_def LABELS_def Pdm_Scoring.lower_def split: option.splits)

definition live_world :: world where
  "live_world = demo_world\<lparr>w_db := (w_db demo_world)\<lparr>models := [demo_registered\<lparr>md_stage := Production\<rparr>]\<rparr>\<rparr>"

definition live_run :: scoring_run where
  "live_run = \<lparr>sr_now = 60000000, sr_id = 9, sr_ms = 4, sr_load = (\<lambda>m. Some demo_model), sr_rows = (\<lambda>a. [(55000000, ''t'', 5)])\<rparr>"

definition live_window :: scoring_window where
  "live_window = \<lparr>sw_start = 50000000, sw_end = 60000000, sw_frame = [[5]], sw_missing = [], sw_fill = 1\<rparr>"

lemma live_input:
  "scoring_input live_run 7 ''cnc'' (w_db live_world) = Some (demo_registered\<lparr>md_stage := Production\<rparr>, demo_model, live_window)"
proof -
  have "select_model 7 ''cnc'' (w_db live_world) = Some (demo_registered\<lparr>md_stage := Production\<rparr>)"
    by (simp add: select_model_def candidates_def live_world_def demo_world_def demo_registered_def LIVE_TASKS_def)
  moreover have "telemetry_window (demo_spec 1) [(55000000, ''t'', 5)] 60000000 = Some live_window"
    by (simp add: telemetry_window_def demo_spec_def wide_def buckets_def bucket_mean_def time_bucket_def PERIOD_US_def
        SAMPLE_PERIOD_S_def MIN_WINDOW_FILL_def populated_def filled_def bfill_def mean_def Let_def live_window_def)
  ultimately show ?thesis
    by (simp add: scoring_input_def live_run_def demo_model_def window_end_def SAMPLE_PERIOD_S_def)
qed

lemma live_score: "score demo_model x = Some (score_rul demo_model x)" "sc_health (score_rul demo_model x) = Some 75"
    "label_ok (sc_confidence (score_rul demo_model x))" "Option.bind (sc_rul (score_rul demo_model x)) ri_coverage = None"
  by (simp_all add: demo_model_def demo_meta_def score_def score_rul_def cap_of_def rul_score_def half_width_def
      health_of_anomaly_def interval_confidence_def label_ok_def LABELS_def Let_def split: prod.splits)

lemma live_row_fits:
  "\<exists>db. insert_prediction (server_row live_run 7 5 win (qualify win im n (score_rul demo_model x))) (w_db live_world) = Some db"
  using live_score qualify_label [OF live_score(3)]
  by (simp add: insert_prediction_def server_row_def numeric_def round_away_def live_world_def demo_world_def)

lemma explains_what_was_scored_witness:
  "let p = last (predictions (w_db (infer_asset demo_services live_run 7 ''m'' ''cnc'' live_world)))
   in pr_source p = Server \<and> rebuilt_vector live_run p (demo_registered\<lparr>md_stage := Production\<rparr>)
     = Some ([''t_mean''], fst (feature_vector demo_model live_window))"
proof -
  have id: "md_id (demo_registered\<lparr>md_stage := Production\<rparr>) = 5" and names: "lm_names demo_model = [''t_mean'']"
    by (simp_all add: demo_registered_def demo_model_def)
  have stale: "\<not> edge_is_fresh 7 (sr_now live_run) (w_db live_world)"
    by (simp add: edge_is_fresh_def live_world_def demo_world_def)
  obtain db where "insert_prediction (server_row live_run 7 (md_id (demo_registered\<lparr>md_stage := Production\<rparr>)) live_window
      (qualify live_window (snd (feature_vector demo_model live_window)) (length (lm_names demo_model))
        (score_rul demo_model (fst (feature_vector demo_model live_window))))) (w_db live_world) = Some db"
    using live_row_fits unfolding id by blast
  from explains_what_was_scored [OF stale live_input live_score(1) this refl refl, of demo_services "''m''"]
  show ?thesis by (simp add: Let_def names)
qed

end
