(* ===== verification/Xai_Facts.thy ===== *)
theory Xai_Facts
  imports Xai_Explain "HOL-Library.Multiset"
begin

text \<open>
  An attribution list accounts for the whole explanation, a confidence is the sum of its findings, a
  predicted failure mode is the one the evidence supports best, and a reason card only ever repeats the
  knowledge base.
\<close>

section \<open>Attributions\<close>

lemma set_ranked_order [simp]: "set (ranked_order cs) = {..<length cs}"
  by (simp add: ranked_order_def atLeast0LessThan)

lemma mset_ranked_order: "mset (ranked_order cs) = mset [0..<length cs]"
  by (simp only: ranked_order_def mset_sort)

lemma length_ranked_order [simp]: "length (ranked_order cs) = length cs"
  by (simp add: ranked_order_def)

lemma mset_map_ranked: "mset (map f (ranked_order cs)) = mset (map f [0..<length cs])"
  by (simp only: mset_map mset_ranked_order)

lemma sum_map_ranked: "sum_list (map f (ranked_order cs)) = sum_list (map (f :: nat \<Rightarrow> real) [0..<length cs])"
  by (metis mset_map_ranked sum_mset_sum_list)

lemma map_enumerate_snd: "(\<And>r i. f (r, i) = g i) \<Longrightarrow> map f (enumerate n xs) = map g xs"
  by (induction xs arbitrary: n) simp_all

lemma total_weight_pos: "0 < total_weight cs \<longleftrightarrow> (\<exists>c \<in> set cs. c \<noteq> 0)"
proof (induction cs)
  case (Cons c cs)
  have "0 \<le> total_weight cs" unfolding total_weight_def by (rule sum_list_nonneg) auto
  then have "0 < \<bar>c\<bar> + total_weight cs \<longleftrightarrow> c \<noteq> 0 \<or> 0 < total_weight cs" by linarith
  with Cons show ?case by (simp add: total_weight_def)
qed (simp add: total_weight_def)

lemma sum_shares:
  "sum_list (map (\<lambda>c. if 0 < total_weight cs then \<bar>c\<bar> / total_weight cs else 0) cs) = (if \<exists>c \<in> set cs. c \<noteq> 0 then 1 else 0)"
proof -
  have "sum_list (map (\<lambda>c. \<bar>c\<bar> / t) ds) = sum_list (map abs ds) / t" for t :: real and ds
    by (induction ds) (simp_all add: add_divide_distrib)
  then have "sum_list (map (\<lambda>c. if 0 < total_weight cs then \<bar>c\<bar> / total_weight cs else 0) cs) = (if 0 < total_weight cs then 1 else 0)"
    by (auto simp: total_weight_def)
  then show ?thesis by (simp only: total_weight_pos)
qed

lemma attribution_share_range:
  assumes "i \<in> set (ranked_order cs)" and "a = attribution_of L names xs cs r i"
  shows "0 \<le> at_share a \<and> at_share a \<le> 1 \<and> at_direction a = direction_word (at_contribution a)"
proof -
  have "\<bar>cs ! i\<bar> \<le> total_weight cs"
    unfolding total_weight_def using assms(1) by (intro member_le_sum_list) auto
  then show ?thesis by (auto simp: assms(2) attribution_of_def Let_def divide_le_eq)
qed

text \<open>
  An explanation accounts for everything: each feature appears exactly once, ranked from
  one by the size of its contribution, the contributions add up to the explained difference, the shares
  are fractions of the whole, and the direction is the sign of the contribution.
\<close>

theorem attributions_account:
  assumes "build_attributions L names xs cs = Some ats"
  shows "map at_rank ats = [1..<Suc (length names)] \<and> mset (map at_feature ats) = mset names
    \<and> sorted (map (\<lambda>a. - \<bar>at_contribution a\<bar>) ats) \<and> sum_list (map at_contribution ats) = sum_list cs
    \<and> sum_list (map at_share ats) = (if \<exists>c \<in> set cs. c \<noteq> 0 then 1 else 0)
    \<and> (\<forall>a \<in> set ats. 0 \<le> at_share a \<and> at_share a \<le> 1 \<and> at_direction a = direction_word (at_contribution a))"
proof -
  from assms have len: "length names = length cs" "length xs = length cs"
      and ats: "ats = map (\<lambda>(rank, idx). attribution_of L names xs cs rank idx) (enumerate 1 (ranked_order cs))"
    by (auto simp: build_attributions_def split: if_splits)
  let ?share = "\<lambda>c. if 0 < total_weight cs then \<bar>c\<bar> / total_weight cs else 0"
  have idx: "map (\<lambda>i. names ! i) [0..<length cs] = names" "map (\<lambda>i. cs ! i) [0..<length cs] = cs"
    using len by (metis map_nth)+
  have rank: "map at_rank ats = [1..<Suc (length names)]"
    by (simp add: ats comp_def attribution_of_def Let_def split_def len(1) map_fst_enumerate del: upt_Suc)
  have by_idx: "map g ats = map h (ranked_order cs)" if "\<And>r i. g (attribution_of L names xs cs r i) = h i" for g :: "attribution \<Rightarrow> 'z" and h
    unfolding ats map_map by (rule map_enumerate_snd) (simp add: that)
  have feat: "map at_feature ats = map (\<lambda>i. names ! i) (ranked_order cs)"
    unfolding ats map_map by (rule map_enumerate_snd) (simp add: attribution_of_def Let_def)
  have con: "map at_contribution ats = map (\<lambda>i. cs ! i) (ranked_order cs)"
    by (rule by_idx) (simp add: attribution_of_def Let_def)
  have shr: "map at_share ats = map (\<lambda>i. ?share (cs ! i)) (ranked_order cs)"
    by (rule by_idx) (simp add: attribution_of_def Let_def)
  have neg: "map (\<lambda>a. - \<bar>at_contribution a\<bar>) ats = map (\<lambda>i. - \<bar>cs ! i\<bar>) (ranked_order cs)"
    by (rule by_idx) (simp add: attribution_of_def Let_def)
  have "mset (map at_feature ats) = mset names" unfolding feat mset_map_ranked idx ..
  moreover have "sorted (map (\<lambda>a. - \<bar>at_contribution a\<bar>) ats)"
    unfolding neg by (simp add: ranked_order_def)
  moreover have "sum_list (map at_contribution ats) = sum_list cs" unfolding con sum_map_ranked idx ..
  moreover have "sum_list (map at_share ats) = (if \<exists>c \<in> set cs. c \<noteq> 0 then 1 else 0)"
  proof -
    have "sum_list (map at_share ats) = sum_list (map ?share (map (\<lambda>i. cs ! i) [0..<length cs]))"
      unfolding shr sum_map_ranked by (simp add: comp_def)
    also have "\<dots> = sum_list (map ?share cs)" unfolding idx ..
    also have "\<dots> = (if \<exists>c \<in> set cs. c \<noteq> 0 then 1 else 0)" by (rule sum_shares)
    finally show ?thesis .
  qed
  moreover have "0 \<le> at_share a \<and> at_share a \<le> 1 \<and> at_direction a = direction_word (at_contribution a)" if "a \<in> set ats" for a
  proof -
    from that obtain r i where a: "a = attribution_of L names xs cs r i" and ri: "(r, i) \<in> set (enumerate 1 (ranked_order cs))"
      by (auto simp: ats)
    from ri have i: "i \<in> set (ranked_order cs)" by (metis map_snd_enumerate set_map imageI snd_conv)
    show ?thesis by (rule attribution_share_range [OF i a])
  qed
  ultimately show ?thesis using rank by blast
qed

lemma attributions_account_witness:
  "let ats = the (build_attributions \<lparr>fl_features = [], fl_suffixes = []\<rparr> [''a'', ''b''] [1, 2] [1, - 3])
   in sum_list (map at_share ats) = 1 \<and> sum_list (map at_contribution ats) = - 2 \<and> map at_rank ats = [1, 2]"
proof -
  obtain ats where ats: "build_attributions \<lparr>fl_features = [], fl_suffixes = []\<rparr> [''a'', ''b''] [1, 2] [1, - 3] = Some ats"
    by (simp add: build_attributions_def)
  from attributions_account [OF this] ats show ?thesis by (simp add: Let_def upt_rec)
qed

section \<open>The failure mode\<close>

lemma best_mode_bound:
  "let best = foldl (better_mode ats) bs modes
   in snd bs \<le> snd best \<and> (\<forall>(code, metrics) \<in> set modes. mode_share ats metrics \<le> snd best)
      \<and> (best = bs \<or> (\<exists>metrics. (fst best, metrics) \<in> set modes \<and> mode_share ats metrics = snd best))"
proof (induction modes arbitrary: bs)
  case (Cons m modes)
  obtain code metrics where m: "m = (code, metrics)" by force
  define b1 where "b1 = better_mode ats bs m"
  have b1: "snd bs \<le> snd b1" "mode_share ats metrics \<le> snd b1" "b1 = bs \<or> b1 = (code, mode_share ats metrics)"
    by (auto simp: b1_def better_mode_def m)
  have "foldl (better_mode ats) bs (m # modes) = foldl (better_mode ats) b1 modes" by (simp add: b1_def)
  with Cons.IH [of b1] b1 show ?case by (auto simp: Let_def m)
qed simp

text \<open>The mode reported is one no other mode beats, or normal when no mode has any support.\<close>

lemma best_mode_supported:
  "(\<forall>(code, metrics) \<in> set modes. mode_share ats metrics \<le> snd (best_mode ats modes))
   \<and> (best_mode ats modes = (''normal'', 0) \<or> (\<exists>metrics. (fst (best_mode ats modes), metrics) \<in> set modes
       \<and> mode_share ats metrics = snd (best_mode ats modes)))"
  using best_mode_bound [where bs = "(''normal'', 0)" and ats = ats and modes = modes] by (simp add: best_mode_def Let_def)

section \<open>Confidence\<close>

lemma finding_weights: "(r, w) \<in> set (signal_findings s) \<Longrightarrow> 0 \<le> w"
  by (auto simp: signal_findings_def split: option.splits if_splits)

lemma confidence_score_range: "0 \<le> cf_score (assess_confidence s) \<and> cf_score (assess_confidence s) \<le> 1"
proof -
  have "0 \<le> sum_list (map snd (signal_findings s))"
    using finding_weights by (intro sum_list_nonneg) auto
  then show ?thesis
    using round_dec_mono [of "max 0 (1 - sum_list (map snd (signal_findings s)))" 1 4]
    by (simp add: assess_confidence_def Let_def round_dec_nonneg)
qed

lemma no_finding_is_high: "signal_findings s = [] \<Longrightarrow> assess_confidence s = \<lparr>cf_label = ''high'', cf_reasons = [AllNormal], cf_score = 1\<rparr>"
  by (simp add: assess_confidence_def confidence_label_def)

lemma agreement_range: "0 \<le> top3_jaccard a b \<and> top3_jaccard a b \<le> 1"
  by (auto simp: top3_jaccard_def jaccard_def Let_def divide_le_eq intro!: card_mono)

lemma agreement_full: "set (take 3 a) = set (take 3 b) \<Longrightarrow> top3_jaccard a b = 1"
  by (auto simp: top3_jaccard_def jaccard_def Let_def)

section \<open>Reason cards\<close>

lemma card_repeats_knowledge:
  "build_reason_card kb mode ats prob k = Some c \<Longrightarrow> \<exists>e. kb mode = Some e \<and> rc_action c = kb_action e \<and> rc_cause c = kb_cause e
     \<and> rc_parts c = kb_parts e \<and> length (rc_evidence c) \<le> k"
  by (auto simp: build_reason_card_def Let_def split: option.splits)

end
