(* ===== verification/Xai_Counterfactual.thy ===== *)
theory Xai_Counterfactual
  imports Xai_Explain
begin

text \<open>
  The counterfactual search (\<open>packages/xai/src/twinvoice_xai/counterfactual.py\<close>): the cheapest change of
  as few settings as possible that reaches a target. The prediction is a parameter, as in the code.
  Combinations and grid points come in the order of \<open>itertools\<close>.
\<close>

section \<open>The search\<close>

fun combinations :: "nat \<Rightarrow> 'a list \<Rightarrow> 'a list list" where
  "combinations 0 xs = [[]]"
| "combinations (Suc n) [] = []"
| "combinations (Suc n) (x # xs) = map ((#) x) (combinations n xs) @ combinations (Suc n) xs"

text \<open>\<open>itertools.product\<close> is the library's \<^const>\<open>product_lists\<close>.\<close>

definition grid :: "feature_label \<Rightarrow> real \<Rightarrow> real list" where
  "grid l current =
     (let low = (case lb_min l of Some v \<Rightarrow> v | None \<Rightarrow> current * (1 / 2));
          high = (case lb_max l of Some v \<Rightarrow> v | None \<Rightarrow> current * (3 / 2));
          default = max ((high - low) / 10) (1 / 10 ^ 6);
          delta = (case lb_step l of Some s \<Rightarrow> if s = 0 then default else s | None \<Rightarrow> default);
          n = round_even ((high - low) / delta) + 1
      in map (\<lambda>i. round_dec 6 (low + real i * delta)) [0..<nat (max n 2)])"

definition relative_move :: "feature_label \<Rightarrow> real \<Rightarrow> real \<Rightarrow> real" where
  "relative_move l current v =
     (let span = (case (lb_max l, lb_min l) of (Some hi, Some lo) \<Rightarrow> hi - lo
        | _ \<Rightarrow> if \<bar>current\<bar> = 0 then 1 else \<bar>current\<bar>)
      in \<bar>v - current\<bar> / (if span = 0 then 1 else span))"

text \<open>\<open>index\<close>: the last position of a name.\<close>

definition index_of :: "string list \<Rightarrow> string \<Rightarrow> nat option" where
  "index_of names n = map_of (rev (zip names [0..<length names])) n"

definition position :: "string list \<Rightarrow> feature_label \<Rightarrow> nat" where
  "position names l = the (index_of names (lb_name l))"

record problem =
  pb_predict :: "real list \<Rightarrow> real"
  pb_satisfied :: "real \<Rightarrow> bool"
  pb_names :: "string list"
  pb_x :: "real list"

definition current_value :: "problem \<Rightarrow> feature_label \<Rightarrow> real" where
  "current_value P l = pb_x P ! position (pb_names P) l"

text \<open>A probe: which settings take which values.\<close>

type_synonym probe = "(feature_label \<times> real) list"

definition probe_input :: "problem \<Rightarrow> probe \<Rightarrow> real list" where
  "probe_input P pr = foldl (\<lambda>x (l, v). x[position (pb_names P) l := v]) (pb_x P) pr"

definition probe_cost :: "problem \<Rightarrow> probe \<Rightarrow> real" where
  "probe_cost P pr = sum_list (map (\<lambda>(l, v). relative_move l (current_value P l) v) pr)"

definition probes :: "problem \<Rightarrow> feature_label list \<Rightarrow> nat \<Rightarrow> probe list" where
  "probes P candidates k =
     concat (map (\<lambda>combo. map (zip combo) (product_lists (map (\<lambda>l. grid l (current_value P l)) combo)))
       (combinations k candidates))"

definition works :: "problem \<Rightarrow> probe \<Rightarrow> bool" where
  "works P pr \<longleftrightarrow> pb_satisfied P (pb_predict P (probe_input P pr))"

text \<open>The first of the cheapest working probes seen so far.\<close>

definition consider_probe :: "problem \<Rightarrow> probe option \<Rightarrow> probe \<Rightarrow> probe option" where
  "consider_probe P best pr =
     (if \<not> works P pr then best
      else (case best of None \<Rightarrow> Some pr | Some b \<Rightarrow> if probe_cost P pr < probe_cost P b then Some pr else best))"

definition best_of_size :: "problem \<Rightarrow> feature_label list \<Rightarrow> nat \<Rightarrow> probe option" where
  "best_of_size P candidates k = foldl (consider_probe P) None (probes P candidates k)"

fun first_size :: "problem \<Rightarrow> feature_label list \<Rightarrow> nat list \<Rightarrow> probe option" where
  "first_size P candidates [] = None"
| "first_size P candidates (k # ks) =
     (case best_of_size P candidates k of None \<Rightarrow> first_size P candidates ks | Some pr \<Rightarrow> Some pr)"

record change =
  ch_feature :: string
  ch_label :: string
  ch_unit :: string
  ch_from :: real
  ch_to :: real

record counterfactual =
  cx_target :: string
  cx_changes :: "change list"
  cx_outcome :: "(string \<times> real) list"
  cx_feasibility :: real
  cx_found :: bool

definition change_of :: "problem \<Rightarrow> feature_label \<times> real \<Rightarrow> change" where
  "change_of P lv = (case lv of (l, v) \<Rightarrow>
     \<lparr>ch_feature = lb_name l, ch_label = lb_label l, ch_unit = lb_unit l, ch_from = current_value P l, ch_to = v\<rparr>)"

definition candidate_labels :: "feature_labels \<Rightarrow> problem \<Rightarrow> feature_label list" where
  "candidate_labels L P = filter (\<lambda>l. lb_name l \<in> set (pb_names P)) (actionable_labels L)"

definition search_counterfactual :: "feature_labels \<Rightarrow> problem \<Rightarrow> string \<Rightarrow> nat \<Rightarrow> string \<Rightarrow> counterfactual" where
  "search_counterfactual L P target max_changed outcome_key =
     (case first_size P (candidate_labels L P) [1..<Suc max_changed] of
        None \<Rightarrow> \<lparr>cx_target = target, cx_changes = [], cx_outcome = [], cx_feasibility = 0, cx_found = False\<rparr>
      | Some pr \<Rightarrow>
          \<lparr>cx_target = target, cx_changes = map (change_of P) (filter (\<lambda>(l, v). v \<noteq> current_value P l) pr),
           cx_outcome = [(outcome_key, round_dec 4 (pb_predict P (probe_input P pr)))],
           cx_feasibility = round_dec 4 (1 / (1 + probe_cost P pr)), cx_found = True\<rparr>)"

text \<open>What the operator does with the answer.\<close>

definition apply_changes :: "string list \<Rightarrow> real list \<Rightarrow> change list \<Rightarrow> real list" where
  "apply_changes names x chs = foldl (\<lambda>x c. x[the (index_of names (ch_feature c)) := ch_to c]) x chs"

section \<open>Its correctness\<close>

lemma consider_fold:
  "(case foldl (consider_probe P) best prs of
      None \<Rightarrow> best = None \<and> (\<forall>pr \<in> set prs. \<not> works P pr)
    | Some b \<Rightarrow> (Some b = best \<or> b \<in> set prs \<and> works P b)
        \<and> (\<forall>pr \<in> set prs. works P pr \<longrightarrow> probe_cost P b \<le> probe_cost P pr)
        \<and> (\<forall>b0. best = Some b0 \<longrightarrow> probe_cost P b \<le> probe_cost P b0))"
proof (induction prs arbitrary: best)
  case Nil
  then show ?case by (auto split: option.split)
next
  case (Cons pr prs)
  let ?best = "consider_probe P best pr"
  show ?case
  proof (cases "foldl (consider_probe P) ?best prs")
    case None
    then show ?thesis using Cons.IH [of ?best] by (auto simp: consider_probe_def split: if_splits option.splits)
  next
    case (Some b)
    with Cons.IH [of ?best] have ih: "Some b = ?best \<or> b \<in> set prs \<and> works P b"
        "\<forall>q \<in> set prs. works P q \<longrightarrow> probe_cost P b \<le> probe_cost P q" "\<forall>b0. ?best = Some b0 \<longrightarrow> probe_cost P b \<le> probe_cost P b0"
      by simp_all
    have fold: "foldl (consider_probe P) best (pr # prs) = Some b" using Some by simp
    consider (skip) "\<not> works P pr" | (first) "works P pr" "best = None"
      | (better) a where "works P pr" "best = Some a" "probe_cost P pr < probe_cost P a"
      | (worse) a where "works P pr" "best = Some a" "probe_cost P a \<le> probe_cost P pr"
      by (cases best) (auto simp: not_less [symmetric])
    then show ?thesis
    proof cases
      case skip
      then have "?best = best" by (simp add: consider_probe_def)
      with ih skip show ?thesis unfolding fold by auto
    next
      case first
      then have "?best = Some pr" by (simp add: consider_probe_def)
      with ih first show ?thesis unfolding fold by auto
    next
      case better
      then have "?best = Some pr" by (simp add: consider_probe_def)
      with ih better show ?thesis unfolding fold by auto
    next
      case worse
      then have "?best = Some a" by (simp add: consider_probe_def)
      with ih worse show ?thesis unfolding fold by auto
    qed
  qed
qed

lemma best_of_size_None: "best_of_size P cs k = None \<longleftrightarrow> (\<forall>pr \<in> set (probes P cs k). \<not> works P pr)"
  using consider_fold [where P = P and best = None and prs = "probes P cs k"] by (auto simp: best_of_size_def split: option.splits)

lemma best_of_size_Some:
  "best_of_size P cs k = Some b \<Longrightarrow> b \<in> set (probes P cs k) \<and> works P b
     \<and> (\<forall>pr \<in> set (probes P cs k). works P pr \<longrightarrow> probe_cost P b \<le> probe_cost P pr)"
  using consider_fold [where P = P and best = None and prs = "probes P cs k"] by (simp add: best_of_size_def)

lemma first_size_None: "first_size P cs ks = None \<longleftrightarrow> (\<forall>k \<in> set ks. \<forall>pr \<in> set (probes P cs k). \<not> works P pr)"
proof (induction ks)
  case (Cons k ks)
  then show ?case
    using best_of_size_None [of P cs k] best_of_size_Some [of P cs k] by (cases "best_of_size P cs k") auto
qed simp

lemma first_size_Some:
  "first_size P cs [a..<b] = Some pr \<Longrightarrow> \<exists>k. a \<le> k \<and> k < b \<and> best_of_size P cs k = Some pr
     \<and> (\<forall>j. a \<le> j \<longrightarrow> j < k \<longrightarrow> (\<forall>pr \<in> set (probes P cs j). \<not> works P pr))"
proof (induction "b - a" arbitrary: a)
  case (Suc n)
  then have u: "[a..<b] = a # [Suc a..<b]" by (simp add: upt_conv_Cons)
  show ?case
  proof (cases "best_of_size P cs a")
    case None
    with Suc.prems u have "first_size P cs [Suc a..<b] = Some pr" by simp
    moreover have "n = b - Suc a" using Suc.hyps(2) by simp
    ultimately obtain k where k: "Suc a \<le> k" "k < b" "best_of_size P cs k = Some pr"
        "\<forall>j. Suc a \<le> j \<longrightarrow> j < k \<longrightarrow> (\<forall>pr \<in> set (probes P cs j). \<not> works P pr)"
      using Suc.hyps(1) by blast
    have "\<not> works P q" if "a \<le> j" "j < k" "q \<in> set (probes P cs j)" for j q
    proof (cases "j = a")
      case True
      then show ?thesis using that(3) None by (simp add: best_of_size_None)
    next
      case False
      then have "Suc a \<le> j" using that(1) by simp
      with k(4) that show ?thesis by blast
    qed
    with k show ?thesis by (intro exI [of _ k]) auto
  next
    case (Some q)
    with Suc.prems Suc.hyps(2) u show ?thesis by (intro exI [of _ a]) auto
  qed
qed simp

lemma set_combinations: "c \<in> set (combinations k xs) \<Longrightarrow> subseq c xs \<and> length c = k"
  by (induction k xs arbitrary: c rule: combinations.induct) auto

lemma probe_shape:
  assumes "pr \<in> set (probes P cs k)"
  shows "subseq (map fst pr) cs" and "length pr = k" and "\<forall>(l, v) \<in> set pr. v \<in> set (grid l (current_value P l))"
proof -
  from assms obtain combo point where c: "combo \<in> set (combinations k cs)"
      and p: "point \<in> set (product_lists (map (\<lambda>l. grid l (current_value P l)) combo))" and pr: "pr = zip combo point"
    by (auto simp: probes_def)
  from p have all: "list_all2 (\<lambda>v l. v \<in> set (grid l (current_value P l))) point combo"
    by (auto simp: product_lists_set list_all2_map2)
  then have len: "length point = length combo" by (rule list_all2_lengthD)
  show "subseq (map fst pr) cs" "length pr = k" using set_combinations [OF c] len by (simp_all add: pr)
  show "\<forall>(l, v) \<in> set pr. v \<in> set (grid l (current_value P l))"
    using all by (auto simp: pr set_zip list_all2_conv_all_nth)
qed

lemma index_of_Some: "index_of names n = Some i \<Longrightarrow> i < length names \<and> names ! i = n"
  by (auto simp: index_of_def set_zip dest!: map_of_SomeD)

lemma index_of_defined: "n \<in> set names \<Longrightarrow> \<exists>i. index_of names n = Some i"
proof -
  assume n: "n \<in> set names"
  have "fst ` set (rev (zip names [0..<length names])) = set (map fst (zip names [0..<length names]))" by (simp only: set_rev set_map)
  also have "\<dots> = set names" by simp
  finally have "index_of names n \<noteq> None" using n by (simp add: index_of_def map_of_eq_None_iff)
  then show ?thesis by simp
qed

lemma position_inj:
  assumes "lb_name l \<in> set names" and "lb_name k \<in> set names" and "position names l = position names k"
  shows "lb_name l = lb_name k"
proof -
  obtain i j where "index_of names (lb_name l) = Some i" "index_of names (lb_name k) = Some j"
    using index_of_defined assms(1,2) by blast
  with assms(3) show ?thesis by (auto simp: position_def dest!: index_of_Some)
qed

lemma skip_unchanged:
  assumes "distinct (map (position names \<circ> fst) pr)" and "\<forall>(l, v) \<in> set pr. x ! position names l = x0 ! position names l"
  shows "foldl (\<lambda>x (l, v). x[position names l := v]) x (filter (\<lambda>(l, v). v \<noteq> x0 ! position names l) pr)
    = foldl (\<lambda>x (l, v). x[position names l := v]) x pr"
  using assms
proof (induction pr arbitrary: x)
  case (Cons lv pr)
  obtain l v where lv: "lv = (l, v)" by force
  have rest: "\<forall>(k, u) \<in> set pr. x[position names l := v] ! position names k = x0 ! position names k"
  proof clarify
    fix k u
    assume "(k, u) \<in> set pr"
    with Cons.prems lv have "position names l \<noteq> position names k" "x ! position names k = x0 ! position names k"
      by (force simp: comp_def)+
    then show "x[position names l := v] ! position names k = x0 ! position names k" by simp
  qed
  have d: "distinct (map (position names \<circ> fst) pr)" using Cons.prems(1) by (simp add: comp_def)
  show ?case
  proof (cases "v = x0 ! position names l")
    case True
    then have "x ! position names l = v" using Cons.prems(2) lv by simp
    then have "x[position names l := v] = x" using list_update_id [of x "position names l"] by simp
    then show ?thesis using Cons.IH [OF d rest] True lv by simp
  next
    case False
    then show ?thesis using Cons.IH [OF d rest] lv by simp
  qed
qed simp

lemma apply_changes_probe:
  assumes "distinct (map (position (pb_names P) \<circ> fst) pr)"
  shows "apply_changes (pb_names P) (pb_x P) (map (change_of P) (filter (\<lambda>(l, v). v \<noteq> current_value P l) pr)) = probe_input P pr"
proof -
  have "apply_changes (pb_names P) x (map (change_of P) prs) = foldl (\<lambda>x (l, v). x[position (pb_names P) l := v]) x prs" for x prs
    by (induction prs arbitrary: x) (auto simp: apply_changes_def change_of_def position_def)
  then show ?thesis
    using skip_unchanged [OF assms, of "pb_x P" "pb_x P"] by (simp add: probe_input_def current_value_def)
qed

lemma candidates_distinct:
  assumes "distinct (map fst (fl_features L))"
  shows "distinct (map lb_name (candidate_labels L P))"
proof -
  have "map lb_name (actionable_labels L) = map fst (filter (ls_actionable \<circ> snd) (fl_features L))"
    by (simp add: actionable_labels_def get_label_def Let_def comp_def split_def)
  then have "distinct (map lb_name (actionable_labels L))" using assms by (simp add: distinct_map_filter)
  then show ?thesis by (simp add: candidate_labels_def distinct_map_filter)
qed

lemma subseq_members: "subseq xs ys \<Longrightarrow> set xs \<subseteq> set ys"
  by (induction rule: list_emb.induct) auto

lemma distinct_subseq: "subseq xs ys \<Longrightarrow> distinct ys \<Longrightarrow> distinct xs"
  by (induction rule: list_emb.induct) (use subseq_members in auto)

lemma probe_positions:
  assumes "distinct (map fst (fl_features L))" and "pr \<in> set (probes P (candidate_labels L P) k)"
  shows "distinct (map (position (pb_names P) \<circ> fst) pr)"
proof -
  have sub: "subseq (map fst pr) (candidate_labels L P)" by (rule probe_shape(1) [OF assms(2)])
  have names: "distinct (map lb_name (map fst pr))"
    using candidates_distinct [OF assms(1), of P] subseq_map [OF sub, of lb_name] distinct_subseq by metis
  have cands: "lb_name l \<in> set (pb_names P)" if "l \<in> set (map fst pr)" for l
  proof -
    have "l \<in> set (candidate_labels L P)" using that sub by (meson subseq_members subsetD)
    then show ?thesis by (simp add: candidate_labels_def)
  qed
  have "inj_on (position (pb_names P)) (set (map fst pr))"
  proof (rule inj_onI)
    fix l k
    assume lk: "l \<in> set (map fst pr)" "k \<in> set (map fst pr)" "position (pb_names P) l = position (pb_names P) k"
    then have "lb_name l = lb_name k" using position_inj cands by blast
    with lk(1,2) names show "l = k" by (metis distinct_map inj_onD)
  qed
  then have "distinct (map (position (pb_names P)) (map fst pr))" using names by (metis distinct_map)
  then show ?thesis by simp
qed

text \<open>
  Property C29. A counterfactual works: making the changes it lists brings the model to the stated outcome,
  which meets the target; every change is to a setting an operator can make, on that setting's grid; no
  smaller number of settings would do, and no other choice of as few settings is cheaper. When it says
  there is none, no choice of that many settings on their grids meets the target.
\<close>

theorem counterfactual_works:
  assumes "distinct (map fst (fl_features L))"
  shows "let r = search_counterfactual L P target n key; cs = candidate_labels L P;
      y = pb_predict P (apply_changes (pb_names P) (pb_x P) (cx_changes r))
    in if cx_found r then pb_satisfied P y \<and> cx_outcome r = [(key, round_dec 4 y)]
         \<and> (\<exists>pr k. 1 \<le> k \<and> k \<le> n \<and> pr \<in> set (probes P cs k)
             \<and> cx_changes r = map (change_of P) (filter (\<lambda>(l, v). v \<noteq> current_value P l) pr)
             \<and> (\<forall>q \<in> set (probes P cs k). works P q \<longrightarrow> probe_cost P pr \<le> probe_cost P q)
             \<and> (\<forall>j. 1 \<le> j \<longrightarrow> j < k \<longrightarrow> (\<forall>q \<in> set (probes P cs j). \<not> works P q)))
       else cx_changes r = [] \<and> (\<forall>k. 1 \<le> k \<longrightarrow> k \<le> n \<longrightarrow> (\<forall>q \<in> set (probes P cs k). \<not> works P q))"
proof (cases "first_size P (candidate_labels L P) [1..<Suc n]")
  case None
  then have "\<forall>k \<in> {1..<Suc n}. \<forall>q \<in> set (probes P (candidate_labels L P) k). \<not> works P q"
    by (simp only: first_size_None set_upt)
  with None show ?thesis by (auto simp: search_counterfactual_def Let_def)
next
  case (Some pr)
  then obtain k where k: "1 \<le> k" "k < Suc n" "best_of_size P (candidate_labels L P) k = Some pr"
      "\<forall>j. 1 \<le> j \<longrightarrow> j < k \<longrightarrow> (\<forall>q \<in> set (probes P (candidate_labels L P) j). \<not> works P q)"
    using first_size_Some [OF Some] by blast
  from best_of_size_Some [OF k(3)] have best: "pr \<in> set (probes P (candidate_labels L P) k)" "works P pr"
      "\<forall>q \<in> set (probes P (candidate_labels L P) k). works P q \<longrightarrow> probe_cost P pr \<le> probe_cost P q"
    by blast+
  define r where "r = search_counterfactual L P target n key"
  have r: "cx_found r" "cx_changes r = map (change_of P) (filter (\<lambda>(l, v). v \<noteq> current_value P l) pr)"
      "cx_outcome r = [(key, round_dec 4 (pb_predict P (probe_input P pr)))]"
    using Some by (simp_all add: r_def search_counterfactual_def del: upt_Suc)
  have in': "apply_changes (pb_names P) (pb_x P) (cx_changes r) = probe_input P pr"
    unfolding r(2) by (rule apply_changes_probe [OF probe_positions [OF assms best(1)]])
  have "k \<le> n" using k(2) by simp
  with r k best show ?thesis unfolding Let_def r_def [symmetric] in' by (auto simp: works_def)
qed

definition demo_labels :: feature_labels where
  "demo_labels = \<lparr>fl_features = [(''load'', \<lparr>ls_label = Some ''Load'', ls_unit = ''t'', ls_higher = ''worse'', ls_actionable = True,
     ls_min = Some 0, ls_max = Some 2, ls_step = Some 1\<rparr>)], fl_suffixes = []\<rparr>"

definition demo_problem :: problem where
  "demo_problem = \<lparr>pb_predict = (\<lambda>x. 100 - 10 * x ! 0), pb_satisfied = (\<lambda>y. 85 \<le> y), pb_names = [''load''], pb_x = [2]\<rparr>"

definition demo_load :: feature_label where
  "demo_load = get_label demo_labels ''load''"

lemma demo_candidates: "candidate_labels demo_labels demo_problem = [demo_load]"
  by (simp add: candidate_labels_def actionable_labels_def demo_load_def demo_problem_def)
    (simp add: demo_labels_def get_label_def Let_def split_suffix_def)

lemma demo_grid: "grid demo_load (current_value demo_problem demo_load) = [0, 1, 2]"
  using round_even_of_int [of 2]
  by (simp add: grid_def Let_def demo_load_def demo_labels_def get_label_def split_suffix_def upt_rec round_dec_of_int [of _ 1, simplified])

lemma demo_current: "current_value demo_problem demo_load = 2" "position (pb_names demo_problem) demo_load = 0"
  by (simp_all add: current_value_def position_def index_of_def demo_problem_def demo_load_def get_label_def Let_def)
    (simp_all add: demo_labels_def split_suffix_def)

lemma demo_found:
  "cx_changes (search_counterfactual demo_labels demo_problem ''ok'' 2 ''rul'') = [change_of demo_problem (demo_load, 1)]
    \<and> cx_found (search_counterfactual demo_labels demo_problem ''ok'' 2 ''rul'')"
proof -
  have probes: "probes demo_problem [demo_load] (Suc 0) = [[(demo_load, 0)], [(demo_load, 1)], [(demo_load, 2)]]"
    by (simp add: probes_def demo_grid)
  have works: "\<not> works demo_problem [(demo_load, 2)]" "works demo_problem [(demo_load, 1)]" "works demo_problem [(demo_load, 0)]"
    using demo_current by (simp_all add: works_def probe_input_def) (simp_all add: demo_problem_def)
  have cost: "probe_cost demo_problem [(demo_load, 1)] < probe_cost demo_problem [(demo_load, 0)]"
    using demo_current
    by (simp add: probe_cost_def relative_move_def) (simp add: demo_load_def get_label_def Let_def demo_labels_def split_suffix_def)
  have "best_of_size demo_problem [demo_load] (Suc 0) = Some [(demo_load, 1)]"
    by (simp add: best_of_size_def probes consider_probe_def works cost)
  then have "first_size demo_problem (candidate_labels demo_labels demo_problem) [1..<Suc 2] = Some [(demo_load, 1)]"
    by (simp add: demo_candidates upt_conv_Cons)
  then show ?thesis
    using demo_current by (simp add: search_counterfactual_def del: upt_Suc)
qed

lemma counterfactual_works_witness:
  "cx_changes (search_counterfactual demo_labels demo_problem ''ok'' 2 ''rul'') = [change_of demo_problem (demo_load, 1)]
    \<and> pb_satisfied demo_problem (pb_predict demo_problem
        (apply_changes [''load''] [2] [change_of demo_problem (demo_load, 1)]))"
proof -
  have "distinct (map fst (fl_features demo_labels))" by (simp add: demo_labels_def)
  from counterfactual_works [OF this, of demo_problem "''ok''" 2 "''rul''"] demo_found show ?thesis
    by (simp add: Let_def demo_problem_def)
qed

end
