(* ===== verification/Xai_Drift.thy ===== *)
theory Xai_Drift
  imports Edge_Features Py_Numbers "HOL-Library.Multiset"
begin

text \<open>
  Drift detection and the quality metrics of explanations
  (\<open>packages/xai/src/twinvoice_xai/{drift,quality}.py\<close>), over the reals. The pseudo-inverse of the
  covariance and the random perturbations come from numpy and are parameters.
\<close>

section \<open>Drift\<close>

text \<open>The empirical distribution function: \<open>searchsorted(side="right") / len\<close> on the sorted sample.\<close>

definition ecdf :: "real list \<Rightarrow> real \<Rightarrow> real" where
  "ecdf xs t = real (length (takeWhile (\<lambda>x. x \<le> t) (sort xs))) / real (length xs)"

definition ks_statistic :: "real list \<Rightarrow> real list \<Rightarrow> real" where
  "ks_statistic reference current =
     (if reference = [] \<or> current = [] then 0
      else Max (set (map (\<lambda>t. \<bar>ecdf reference t - ecdf current t\<bar>) (reference @ current))))"

definition ks_critical :: "nat \<Rightarrow> nat \<Rightarrow> real \<Rightarrow> real" where
  "ks_critical n_ref n_cur alpha =
     (let a = round_dec 2 alpha;
          c = (if a = 1 / 10 then 122 / 100 else if a = 5 / 100 then 136 / 100 else if a = 1 / 100 then 163 / 100 else 136 / 100)
      in if n_ref = 0 \<or> n_cur = 0 then 1 else c * sqrt ((real n_ref + real n_cur) / (real n_ref * real n_cur)))"

definition adwin_bound :: "real \<Rightarrow> real \<Rightarrow> nat \<Rightarrow> nat \<Rightarrow> real" where
  "adwin_bound variance delta l r =
     (let harmonic = 1 / (1 / real l + 1 / real r)
      in sqrt (2 / harmonic * variance * ln (2 / delta)) + 2 / (3 * harmonic) * ln (2 / delta))"

definition adwin_change_point :: "real list \<Rightarrow> real \<Rightarrow> nat \<Rightarrow> nat option" where
  "adwin_change_point series delta min_window =
     (let n = length series; v0 = mean (map (\<lambda>x. (x - mean series)\<^sup>2) series); variance = (if v0 = 0 then 1 / 10 ^ 12 else v0)
      in if n < 2 * min_window then None
         else List.find (\<lambda>cut. adwin_bound variance delta cut (n - cut) < \<bar>mean (take cut series) - mean (drop cut series)\<bar>)
           [min_window..<n - min_window + 1])"

text \<open>\<open>delta @ inverse @ delta\<close>, with the pseudo-inverse given as its quadratic form.\<close>

definition mahalanobis_ood :: "(real list \<Rightarrow> real) \<Rightarrow> real list \<Rightarrow> real list \<Rightarrow> real" where
  "mahalanobis_ood form x mu = sqrt (max 0 (form (map (\<lambda>(a, b). a - b) (zip x mu))))"

record drift_result =
  df_flag :: bool
  df_score :: real
  df_drifted :: "string list"
  df_ood :: "real option"

text \<open>Columns are the samples of one feature; \<open>dict\<close> keeps one statistic per name.\<close>

definition detect ::
    "(real list \<Rightarrow> real) \<Rightarrow> real list list \<Rightarrow> real list list \<Rightarrow> nat \<Rightarrow> nat \<Rightarrow> string list \<Rightarrow> real \<Rightarrow> real list option \<Rightarrow> drift_result" where
  "detect form reference current n_ref n_cur names alpha x =
     (let stat = (\<lambda>j. ks_statistic (reference ! j) (current ! j)); critical = ks_critical n_ref n_cur alpha;
          statistics = dict_of (map (\<lambda>(j, name). (name, round_dec 4 (stat j))) (enumerate 0 names));
          drifted = map snd (filter (\<lambda>(j, name). critical < stat j) (enumerate 0 names))
      in \<lparr>df_flag = (drifted \<noteq> []),
          df_score = round_dec 4 (if statistics = [] then 0 else Max (snd ` set statistics)), df_drifted = drifted,
          df_ood = (case x of Some v \<Rightarrow> if 1 < n_ref then Some (round_dec 4 (mahalanobis_ood form v (map mean reference))) else None
            | None \<Rightarrow> None)\<rparr>)"

section \<open>Quality of an explanation\<close>

definition by_weight :: "real list \<Rightarrow> nat list" where
  "by_weight cs = sort_key (\<lambda>i. - \<bar>cs ! i\<bar>) [0..<length cs]"

definition by_weight_up :: "real list \<Rightarrow> nat list" where
  "by_weight_up cs = sort_key (\<lambda>i. \<bar>cs ! i\<bar>) [0..<length cs]"

fun chunks :: "nat \<Rightarrow> 'a list \<Rightarrow> 'a list list" where
  "chunks k [] = []"
| "chunks k (x # xs) = (if k = 0 then [] else take k (x # xs) # chunks k (drop k (x # xs)))"

definition set_all :: "(nat \<Rightarrow> real) \<Rightarrow> nat list \<Rightarrow> real list \<Rightarrow> real list" where
  "set_all f idx x = foldl (\<lambda>x i. x[i := f i]) x idx"

text \<open>The predictions as chunks of features are overwritten, starting from the probe itself.\<close>

fun curve_from :: "(real list \<Rightarrow> real) \<Rightarrow> (nat \<Rightarrow> real) \<Rightarrow> real list \<Rightarrow> nat list list \<Rightarrow> real list" where
  "curve_from predict f probe [] = [predict probe]"
| "curve_from predict f probe (c # cs) = predict probe # curve_from predict f (set_all f c probe) cs"

definition normalised_auc :: "real list \<Rightarrow> real" where
  "normalised_auc curve =
     (let lo = Min (set curve); span = Max (set curve) - lo; v = (\<lambda>i. (curve ! i - lo) / span)
      in if span = 0 then 0
         else sum_list (map (\<lambda>i. (v i + v (Suc i)) / 2) [0..<length curve - 1]) / real (length curve - 1))"

definition ablation_curve :: "(real list \<Rightarrow> real) \<Rightarrow> real list \<Rightarrow> real list \<Rightarrow> nat \<Rightarrow> bool \<Rightarrow> real list" where
  "ablation_curve predict x cs steps descending =
     curve_from predict (\<lambda>i. 0) x (chunks (max 1 (length x div steps)) (if descending then by_weight cs else by_weight_up cs))"

definition deletion_auc :: "(real list \<Rightarrow> real) \<Rightarrow> real list \<Rightarrow> real list \<Rightarrow> nat \<Rightarrow> real" where
  "deletion_auc predict x cs steps = normalised_auc (ablation_curve predict x cs steps True)"

definition insertion_auc :: "(real list \<Rightarrow> real) \<Rightarrow> real list \<Rightarrow> real list \<Rightarrow> nat \<Rightarrow> real" where
  "insertion_auc predict x cs steps =
     normalised_auc (curve_from predict (\<lambda>i. x ! i) (map (\<lambda>v. 0) x) (chunks (max 1 (length x div steps)) (by_weight cs)))"

text \<open>The draws are the noise added to the \<open>top_k\<close> features, one list per trial.\<close>

definition pgi :: "(real list \<Rightarrow> real) \<Rightarrow> real list \<Rightarrow> real list \<Rightarrow> nat \<Rightarrow> real list list \<Rightarrow> real" where
  "pgi predict x cs top_k draws =
     (let order = take top_k (by_weight cs)
      in mean (map (\<lambda>noise. \<bar>predict (foldl (\<lambda>p (i, d). p[i := p ! i + d]) x (zip order noise)) - predict x\<bar>) draws))"

definition euclidean :: "real list \<Rightarrow> real" where
  "euclidean v = sqrt (sum_list (map (\<lambda>a. a\<^sup>2) v))"

definition sensitivity_max :: "(real list \<Rightarrow> real list) \<Rightarrow> real list \<Rightarrow> real list list \<Rightarrow> real" where
  "sensitivity_max explain x draws =
     foldl (\<lambda>worst u. max worst (euclidean (map (\<lambda>(a, b). a - b)
         (zip (explain (map (\<lambda>(a, d). a + d * (\<bar>a\<bar> + 1 / 10 ^ 6)) (zip x u))) (explain x))))) 0 draws"

definition sparsity :: "real list \<Rightarrow> real \<Rightarrow> real" where
  "sparsity cs threshold =
     (let total = sum_list (map abs cs)
      in if total = 0 then 1
         else real (length (filter (\<lambda>c. \<bar>c\<bar> / total < threshold) cs)) / real (length cs))"

text \<open>\<open>argmax\<close>: the first of the largest.\<close>

definition argmax :: "real list \<Rightarrow> nat" where
  "argmax v = the (List.find (\<lambda>i. v ! i = Max (set v)) [0..<length v])"

definition truth_top1_agreement :: "real list list \<Rightarrow> nat list \<Rightarrow> real option" where
  "truth_top1_agreement rows drivers =
     (if length rows \<noteq> length drivers then None
      else Some (mean (map (\<lambda>(row, d). if argmax (map abs row) = d then 1 else 0) (zip rows drivers))))"

definition overlap :: "string list \<Rightarrow> string list \<Rightarrow> real" where
  "overlap xs ys = (let a = set xs; b = set ys in if a \<union> b = {} then 1 else real (card (a \<inter> b)) / real (card (a \<union> b)))"

definition window_jaccard :: "nat \<Rightarrow> string list list \<Rightarrow> real" where
  "window_jaccard k windows =
     (if length windows < 2 then 1
      else mean (map (\<lambda>(previous, current). overlap (take k previous) (take k current)) (zip windows (tl windows))))"

section \<open>The statistic is the largest gap\<close>

lemma takeWhile_sorted: "sorted xs \<Longrightarrow> takeWhile (\<lambda>x. x \<le> t) xs = filter (\<lambda>x. x \<le> t) xs"
  for t :: "'a :: linorder"
proof (induction xs)
  case (Cons x xs)
  then show ?case by (cases "x \<le> t") (auto intro!: filter_False [symmetric] dest: order_trans)
qed simp

lemma ecdf_count: "ecdf xs t = real (length (filter (\<lambda>x. x \<le> t) xs)) / real (length xs)"
proof -
  have "mset (takeWhile (\<lambda>x. x \<le> t) (sort xs)) = mset (filter (\<lambda>x. x \<le> t) xs)"
    by (simp only: takeWhile_sorted [OF sorted_sort] mset_filter mset_sort)
  then have "length (takeWhile (\<lambda>x. x \<le> t) (sort xs)) = length (filter (\<lambda>x. x \<le> t) xs)" by (rule mset_eq_length)
  then show ?thesis by (simp add: ecdf_def)
qed

lemma ecdf_range: "0 \<le> ecdf xs t" "ecdf xs t \<le> 1"
  by (cases "xs = []"; simp add: ecdf_count divide_le_eq)+

lemma ecdf_cong: "(\<And>x. x \<in> set xs \<Longrightarrow> x \<le> t \<longleftrightarrow> x \<le> u) \<Longrightarrow> ecdf xs t = ecdf xs u"
  by (simp add: ecdf_count cong: filter_cong)

lemma ecdf_below: "(\<And>x. x \<in> set xs \<Longrightarrow> t < x) \<Longrightarrow> ecdf xs t = 0"
  by (auto simp: ecdf_count filter_empty_conv not_le)

text \<open>
  The drift statistic is the Kolmogorov-Smirnov distance: no threshold whatever separates
  the two empirical distributions by more, some threshold separates them by that much, and it lies
  between 0 and 1; a feature is reported as drifted exactly when the distance exceeds the critical value.
\<close>

theorem ks_is_largest_gap:
  assumes "reference \<noteq> []" and "current \<noteq> []"
  shows "(\<forall>t. \<bar>ecdf reference t - ecdf current t\<bar> \<le> ks_statistic reference current)
    \<and> (\<exists>t. \<bar>ecdf reference t - ecdf current t\<bar> = ks_statistic reference current)
    \<and> 0 \<le> ks_statistic reference current \<and> ks_statistic reference current \<le> 1
    \<and> (df_drifted (detect form [reference] [current] (length reference) (length current) [name] alpha x) \<noteq> []
        \<longleftrightarrow> ks_critical (length reference) (length current) alpha < ks_statistic reference current)"
proof -
  let ?gap = "\<lambda>t. \<bar>ecdf reference t - ecdf current t\<bar>" and ?ks = "ks_statistic reference current"
  let ?grid = "set (reference @ current)"
  have ks: "?ks = Max (?gap ` ?grid)" using assms by (simp add: ks_statistic_def image_Un)
  have fin: "finite (?gap ` ?grid)" "?gap ` ?grid \<noteq> {}" using assms by auto
  have le: "?gap t \<le> ?ks" if "t \<in> ?grid" for t using fin that by (simp add: ks del: set_append)
  have "hd reference \<in> ?grid" using assms by simp
  then have nonneg: "0 \<le> ?ks" by (rule order_trans [OF abs_ge_zero le])
  have all: "?gap t \<le> ?ks" for t
  proof (cases "\<exists>x \<in> ?grid. x \<le> t")
    case True
    let ?B = "{x \<in> ?grid. x \<le> t}"
    have B: "finite ?B" "?B \<noteq> {}" using True by auto
    let ?g = "Max ?B"
    have g: "?g \<in> ?grid" "?g \<le> t" using Max_in [OF B] by auto
    have "x \<le> t \<longleftrightarrow> x \<le> ?g" if "x \<in> ?grid" for x
      using that Max_ge [OF B(1), of x] g(2) by auto
    then have "ecdf reference t = ecdf reference ?g" "ecdf current t = ecdf current ?g"
      by (auto intro: ecdf_cong)
    then show ?thesis using le [OF g(1)] by simp
  next
    case False
    then have "ecdf reference t = 0" "ecdf current t = 0" by (auto intro!: ecdf_below simp: not_le)
    then show ?thesis using nonneg by simp
  qed
  have "?ks \<in> ?gap ` ?grid" unfolding ks using fin by (rule Max_in)
  then obtain t where t: "?gap t = ?ks" by auto
  have "?gap t \<le> 1" using ecdf_range [of reference t] ecdf_range [of current t] by (simp add: abs_le_iff)
  with all t nonneg show ?thesis by (auto simp: detect_def Let_def)
qed

lemma ks_is_largest_gap_witness:
  "\<bar>ecdf [1, 2] (3 / 2) - ecdf [3, 4] (3 / 2)\<bar> \<le> ks_statistic [1, 2] [3, 4] \<and> ks_statistic [1, 2] [3, 4] \<le> 1"
  using ks_is_largest_gap [of "[1, 2]" "[3, 4]"] by simp

section \<open>Quality metrics are fractions\<close>

lemma sum_list_bounds: "(\<And>x. x \<in> set xs \<Longrightarrow> 0 \<le> x \<and> x \<le> 1) \<Longrightarrow> 0 \<le> sum_list xs \<and> sum_list xs \<le> real (length xs)"
  for xs :: "real list"
  by (induction xs) (fastforce+)

lemma mean_within: "(\<And>x. x \<in> set xs \<Longrightarrow> 0 \<le> x \<and> x \<le> 1) \<Longrightarrow> 0 \<le> mean xs \<and> mean xs \<le> 1"
  using sum_list_bounds [of xs] by (cases "xs = []") (auto simp: mean_def divide_le_eq)

lemma overlap_range: "0 \<le> overlap xs ys \<and> overlap xs ys \<le> 1"
  by (auto simp: overlap_def Let_def divide_le_eq intro!: card_mono)

lemma window_jaccard_range: "0 \<le> window_jaccard k ws \<and> window_jaccard k ws \<le> 1"
  unfolding window_jaccard_def using overlap_range by (auto intro!: mean_within)

lemma sparsity_range: "0 \<le> sparsity cs t \<and> sparsity cs t \<le> 1"
  by (cases "cs = []") (auto simp: sparsity_def Let_def divide_le_eq)

lemma normalised_auc_range: "curve \<noteq> [] \<Longrightarrow> 0 \<le> normalised_auc curve \<and> normalised_auc curve \<le> 1"
proof -
  assume ne: "curve \<noteq> []"
  let ?lo = "Min (set curve)" and ?span = "Max (set curve) - Min (set curve)"
  show ?thesis
  proof (cases "?span = 0")
    case False
    have "?lo \<le> hd curve" "hd curve \<le> Max (set curve)" using ne by simp_all
    then have pos: "0 < ?span" using False by linarith
    have v: "0 \<le> (curve ! i - ?lo) / ?span \<and> (curve ! i - ?lo) / ?span \<le> 1" if "i < length curve" for i
      using that pos Min_le [of "set curve" "curve ! i"] Max_ge [of "set curve" "curve ! i"] by (auto simp: divide_le_eq)
    have "0 \<le> mean (map (\<lambda>i. ((curve ! i - ?lo) / ?span + (curve ! Suc i - ?lo) / ?span) / 2) [0..<length curve - 1])
      \<and> mean (map (\<lambda>i. ((curve ! i - ?lo) / ?span + (curve ! Suc i - ?lo) / ?span) / 2) [0..<length curve - 1]) \<le> 1"
    proof (intro mean_within)
      fix x
      assume "x \<in> set (map (\<lambda>i. ((curve ! i - ?lo) / ?span + (curve ! Suc i - ?lo) / ?span) / 2) [0..<length curve - 1])"
      then obtain i where i: "i \<in> set [0..<length curve - 1]" "x = ((curve ! i - ?lo) / ?span + (curve ! Suc i - ?lo) / ?span) / 2"
        unfolding set_map by blast
      then have "Suc i < length curve" by simp
      with v [of i] v [of "Suc i"] show "0 \<le> x \<and> x \<le> 1" unfolding i(2) by simp
    qed
    with False show ?thesis by (simp add: normalised_auc_def mean_def Let_def)
  qed (simp add: normalised_auc_def Let_def)
qed

lemma curve_from_not_Nil: "curve_from predict f probe cs \<noteq> []"
  by (cases cs) simp_all

lemma deletion_auc_range: "0 \<le> deletion_auc predict x cs steps \<and> deletion_auc predict x cs steps \<le> 1"
  unfolding deletion_auc_def ablation_curve_def by (intro normalised_auc_range curve_from_not_Nil)

lemma insertion_auc_range: "0 \<le> insertion_auc predict x cs steps \<and> insertion_auc predict x cs steps \<le> 1"
  unfolding insertion_auc_def by (intro normalised_auc_range curve_from_not_Nil)

end
