(* ===== verification/Xai_Audit.thy ===== *)
theory Xai_Audit
  imports Xai_Explain
begin

text \<open>
  Narrations: the audit of an LLM paraphrase (\<open>packages/xai/src/twinvoice_xai/audit.py\<close>), and the service
  that composes, audits and caches them, records feedback and keeps the knowledge base
  (\<open>apps/api/app/modules/xai/{service,repository}.py\<close>). What the LLM answers, and the text a template
  renders, are parameters. Texts are ASCII.
\<close>

section \<open>The audit\<close>

text \<open>\<open>str.find\<close> of a text that occurs.\<close>

fun find_text :: "string \<Rightarrow> string \<Rightarrow> nat option" where
  "find_text sub [] = (if sub = [] then Some 0 else None)"
| "find_text sub (c # cs) = (if prefix sub (c # cs) then Some 0 else map_option Suc (find_text sub cs))"

definition RAISE_WORDS :: "string list" where
  "RAISE_WORDS = [''raising'', ''increasing'', ''rising'', ''pushing up'', ''driving up'', ''higher'', ''elevated'']"

definition LOWER_WORDS :: "string list" where
  "LOWER_WORDS = [''lowering'', ''decreasing'', ''falling'', ''pushing down'', ''driving down'', ''reducing'', ''lower'']"

definition says :: "string list \<Rightarrow> string \<Rightarrow> bool" where
  "says words text' \<longleftrightarrow> (\<exists>w \<in> set words. sublist w text')"

definition sign_matches :: "string \<Rightarrow> attribution \<Rightarrow> bool" where
  "sign_matches lowered a =
     (let pos = (case find_text (lower (at_label a)) lowered of Some p \<Rightarrow> p | None \<Rightarrow> 0);
          win = take (pos + 160 - (pos - 80)) (drop (pos - 80) lowered);
          up = says RAISE_WORDS win; down = says LOWER_WORDS win
      in up = down \<or> (if at_direction a = ''raising'' then up else down))"

text \<open>
  \<open>findall(r"-?\d+(?:[.,]\d+)?")\<close>, each match with its commas removed and read as a decimal: digits, a
  point that stays, digits.
\<close>

fun digits_prefix :: "string \<Rightarrow> string \<times> string" where
  "digits_prefix [] = ([], [])"
| "digits_prefix (c # cs) = (if is_digit c then (case digits_prefix cs of (ds, r) \<Rightarrow> (c # ds, r)) else ([], c # cs))"

definition number_of :: "string \<Rightarrow> real" where
  "number_of ds = of_int (foldl (\<lambda>n d. 10 * n + digit_val d) 0 ds)"

definition read_number :: "string \<Rightarrow> (real \<times> string) option" where
  "read_number s =
     (let (neg, body) = (case s of c # cs \<Rightarrow> if c = CHR ''-'' then (True, cs) else (False, s) | [] \<Rightarrow> (False, []));
          (ds, rest) = digits_prefix body
      in if ds = [] then None
         else (let (v, rest') = (case rest of
                   c # cs \<Rightarrow>
                     if c = CHR ''.'' \<or> c = CHR '','' then
                       (case digits_prefix cs of (fs, r) \<Rightarrow>
                          if fs = [] then (number_of ds, rest)
                          else if c = CHR ''.'' then (number_of ds + number_of fs / 10 ^ length fs, r)
                          else (number_of (ds @ fs), r))
                     else (number_of ds, rest)
                 | [] \<Rightarrow> (number_of ds, []))
               in Some (if neg then - v else v, rest')))"

lemma digits_prefix_length: "digits_prefix s = (ds, r) \<Longrightarrow> length ds + length r = length s"
  by (induction s arbitrary: ds r) (auto split: if_splits prod.splits)

lemma read_number_shorter:
  assumes "read_number s = Some (v, r)"
  shows "length r < length s"
proof -
  obtain neg body where nb: "(case s of c # cs \<Rightarrow> if c = CHR ''-'' then (True, cs) else (False, s) | [] \<Rightarrow> (False, [])) = (neg, body)"
    by force
  then have body: "length body \<le> length s" by (auto split: list.splits if_splits)
  obtain ds rest where dp: "digits_prefix body = (ds, rest)" by force
  from digits_prefix_length [OF dp] have len: "length ds + length rest = length body" .
  from assms nb dp have "ds \<noteq> [] \<and> length r \<le> length rest"
    by (auto simp: read_number_def Let_def split: if_splits list.splits prod.splits dest!: digits_prefix_length)
  with len body show ?thesis by (cases ds) auto
qed

function numbers_in :: "string \<Rightarrow> real list" where
  "numbers_in s =
     (case read_number s of
        Some (v, r) \<Rightarrow> v # numbers_in r
      | None \<Rightarrow> (case s of [] \<Rightarrow> [] | c # cs \<Rightarrow> numbers_in cs))"
  by auto
termination
  by (relation "measure length") (auto dest: read_number_shorter)

declare numbers_in.simps [simp del]

definition close_to_any :: "real \<Rightarrow> real list \<Rightarrow> bool" where
  "close_to_any v expected \<longleftrightarrow>
     (\<exists>c \<in> set expected. if c = 0 then \<bar>v\<bar> < 1 / 10 ^ 9 else \<bar>v - c\<bar> / \<bar>c\<bar> \<le> 5 / 100)"

definition hallucinated_features :: "string \<Rightarrow> attribution list \<Rightarrow> feature_labels \<Rightarrow> string list" where
  "hallucinated_features lowered ats L =
     filter (\<lambda>w. sublist w lowered \<and> w \<notin> (\<lambda>a. lower (at_label a)) ` set ats) (vocabulary L)"

definition IMPERATIVES :: "string list" where
  "IMPERATIVES = [''replace'', ''shut down'', ''stop the'', ''order '', ''dismantle'', ''rebuild'', ''overhaul'']"

definition unsupported_recommendation :: "string \<Rightarrow> string list \<Rightarrow> bool" where
  "unsupported_recommendation lowered actions =
     (if \<not> says IMPERATIVES lowered then False
      else \<not> (\<exists>w \<in> set IMPERATIVES. sublist w lowered \<and> sublist w (lower (join_on CHR '' '' actions))))"

record audit_result =
  ar_rank :: real
  ar_sign :: real
  ar_numeric :: bool
  ar_hallucinated :: "string list"
  ar_unsupported :: bool
  ar_passed :: bool

definition share_of :: "('a \<Rightarrow> bool) \<Rightarrow> 'a list \<Rightarrow> real" where
  "share_of P xs = (if xs = [] then 1 else real (length (filter P xs)) / real (length xs))"

definition audit_narration ::
    "feature_labels \<Rightarrow> string \<Rightarrow> attribution list \<Rightarrow> real list \<Rightarrow> string list \<Rightarrow> nat \<Rightarrow> audit_result" where
  "audit_narration L txt ats allowed actions top_k =
     (let lowered = lower txt; top = take top_k ats;
          mentioned = filter (\<lambda>a. sublist (lower (at_label a)) lowered) top;
          rank = share_of (\<lambda>a. sublist (lower (at_label a)) lowered) top;
          sign = share_of (sign_matches lowered) mentioned;
          unmatched = filter (\<lambda>n. \<not> close_to_any n (allowed @ map (\<lambda>a. round_dec 4 (at_value a)) ats)) (numbers_in txt);
          hallucinated = hallucinated_features lowered ats L; unsupported = unsupported_recommendation lowered actions
      in \<lparr>ar_rank = round_dec 4 rank, ar_sign = round_dec 4 sign, ar_numeric = (unmatched = []),
          ar_hallucinated = hallucinated, ar_unsupported = unsupported,
          ar_passed = (2 / 3 \<le> rank \<and> 1 \<le> sign \<and> unmatched = [] \<and> hallucinated = [] \<and> \<not> unsupported)\<rparr>)"

definition pass_rate :: "audit_result list \<Rightarrow> real" where
  "pass_rate results = share_of ar_passed results"

section \<open>The narration service\<close>

record narration =
  na_id :: nat
  na_explanation :: nat
  na_kind :: string
  na_lang :: string
  na_template :: string
  na_llm :: "string option"
  na_final :: string

record stored_explanation =
  se_id :: nat
  se_attributions :: "attribution list"
  se_action :: string

record verdict =
  vd_explanation :: nat
  vd_verdict :: string
  vd_sensor :: "nat option"

record sensor_flag =
  sf_sensor :: nat
  sf_flag :: string
  sf_until :: int

record xai_db =
  xd_explanations :: "stored_explanation list"
  xd_narrations :: "narration list"
  xd_audits :: "(nat \<times> audit_result) list"
  xd_feedback :: "verdict list"
  xd_sensors :: "sensor_flag list"
  xd_trail :: "(nat \<times> string) list"

datatype xai_error = NotFound | Unprocessable

definition narration_get :: "nat \<Rightarrow> string \<Rightarrow> string \<Rightarrow> xai_db \<Rightarrow> narration option" where
  "narration_get e kind lang db =
     List.find (\<lambda>n. na_explanation n = e \<and> na_kind n = kind \<and> na_lang n = lang) (xd_narrations db)"

definition audit_for :: "nat \<Rightarrow> xai_db \<Rightarrow> audit_result option" where
  "audit_for i db = map_option snd (List.find (\<lambda>(n, r). n = i) (rev (xd_audits db)))"

definition explanation_get :: "nat \<Rightarrow> xai_db \<Rightarrow> stored_explanation option" where
  "explanation_get i db = List.find (\<lambda>e. se_id e = i) (xd_explanations db)"

text \<open>
  \<open>template\<close> renders the template text of an explanation, \<^term>\<open>None\<close> for a "why" without attributions;
  \<open>llm\<close> is what \<open>paraphrase\<close> gives back, stripped and not empty, or \<^term>\<open>None\<close>.
\<close>

definition narration_service ::
    "feature_labels \<Rightarrow> (stored_explanation \<Rightarrow> string \<Rightarrow> string \<Rightarrow> string option) \<Rightarrow> (string \<Rightarrow> string option) \<Rightarrow> nat
       \<Rightarrow> nat \<Rightarrow> string \<Rightarrow> string \<Rightarrow> xai_db \<Rightarrow> (xai_error + narration \<times> audit_result option) \<times> xai_db" where
  "narration_service L template llm fresh e kind lang db =
     (case narration_get e kind lang db of
        Some n \<Rightarrow> (Inr (n, audit_for (na_id n) db), db)
      | None \<Rightarrow>
          (case explanation_get e db of
             None \<Rightarrow> (Inl NotFound, db)
           | Some ex \<Rightarrow>
               (case template ex kind lang of
                  None \<Rightarrow> (Inl Unprocessable, db)
                | Some t \<Rightarrow>
                    (let n = \<lparr>na_id = fresh, na_explanation = e, na_kind = kind, na_lang = lang, na_template = t,
                              na_llm = None, na_final = t\<rparr>
                     in (case llm t of
                           None \<Rightarrow> (Inr (n, None), db\<lparr>xd_narrations := xd_narrations db @ [n]\<rparr>)
                         | Some c \<Rightarrow>
                             (let r = audit_narration L c (se_attributions ex) [] [se_action ex] 3;
                                  n' = n\<lparr>na_llm := Some c, na_final := (if ar_passed r then c else t)\<rparr>
                              in (Inr (n', Some r),
                                  db\<lparr>xd_narrations := xd_narrations db @ [n'], xd_audits := xd_audits db @ [(fresh, r)]\<rparr>)))))))"

section \<open>Feedback\<close>

definition SENSOR_FLAG_HOURS :: int where "SENSOR_FLAG_HOURS = 1"

definition flag_sensor :: "nat \<Rightarrow> int \<Rightarrow> sensor_flag \<Rightarrow> sensor_flag" where
  "flag_sensor i now s = (if sf_sensor s = i
     then s\<lparr>sf_flag := ''suspect'', sf_until := now + SENSOR_FLAG_HOURS * 3600000000\<rparr> else s)"

text \<open>A sensor that does not exist fails the request after the feedback row was added: nothing is committed.\<close>

definition add_feedback :: "int \<Rightarrow> nat \<Rightarrow> string \<Rightarrow> nat option \<Rightarrow> xai_db \<Rightarrow> (xai_error + verdict) \<times> xai_db" where
  "add_feedback now e v sensor db =
     (case explanation_get e db of
        None \<Rightarrow> (Inl NotFound, db)
      | Some ex \<Rightarrow>
          if sensor \<noteq> None \<and> v \<noteq> ''disagree'' then (Inl Unprocessable, db)
          else (let f = \<lparr>vd_explanation = e, vd_verdict = v, vd_sensor = sensor\<rparr>;
                    db1 = db\<lparr>xd_feedback := xd_feedback db @ [f], xd_trail := xd_trail db @ [(e, ''feedback'')]\<rparr>
                in (case sensor of
                      None \<Rightarrow> (Inr f, db1)
                    | Some i \<Rightarrow>
                        if i \<in> sf_sensor ` set (xd_sensors db)
                        then (Inr f, db1\<lparr>xd_sensors := map (flag_sensor i now) (xd_sensors db)\<rparr>)
                        else (Inl NotFound, db))))"

section \<open>The knowledge base\<close>

record kb_row =
  kr_id :: nat
  kr_mode :: nat
  kr_lang :: string
  kr_symptom :: string
  kr_cause :: string
  kr_action :: string

definition kb_lookup :: "nat \<Rightarrow> string \<Rightarrow> kb_row list \<Rightarrow> kb_row option" where
  "kb_lookup mode lang rows =
     (case List.find (\<lambda>r. kr_mode r = mode \<and> kr_lang r = lang) rows of
        Some r \<Rightarrow> Some r
      | None \<Rightarrow> if lang = ''en'' then None else List.find (\<lambda>r. kr_mode r = mode \<and> kr_lang r = ''en'') rows)"

definition kb_upsert :: "kb_row \<Rightarrow> kb_row list \<Rightarrow> kb_row list" where
  "kb_upsert entry rows =
     (case kb_lookup (kr_mode entry) (kr_lang entry) rows of
        None \<Rightarrow> rows @ [entry]
      | Some old \<Rightarrow>
          map (\<lambda>r. if kr_id r = kr_id old
             then r\<lparr>kr_symptom := kr_symptom entry, kr_cause := kr_cause entry, kr_action := kr_action entry\<rparr> else r) rows)"

text \<open>The lookup falls back to English, so saving another language overwrites the English entry.\<close>

lemma upsert_overwrites_english:
  "kb_upsert (en\<lparr>kr_id := 2, kr_lang := ''hi'', kr_action := a\<rparr>) [en\<lparr>kr_id := 1, kr_lang := ''en''\<rparr>]
    = [en\<lparr>kr_id := 1, kr_lang := ''en'', kr_action := a\<rparr>]"
  by (simp add: kb_upsert_def kb_lookup_def)

section \<open>Only audited text is shown\<close>

text \<open>The calls that reach the service: asking for a narration, and giving feedback.\<close>

inductive xai_step :: "feature_labels \<Rightarrow> xai_db \<Rightarrow> xai_db \<Rightarrow> bool" for L where
  narrated: "fresh \<notin> na_id ` set (xd_narrations db) \<union> fst ` set (xd_audits db)
     \<Longrightarrow> narration_service L template llm fresh e kind lang db = (r, db') \<Longrightarrow> xai_step L db db'"
| judged: "add_feedback now e v sensor db = (r, db') \<Longrightarrow> xai_step L db db'"

inductive xai_reach :: "feature_labels \<Rightarrow> stored_explanation list \<Rightarrow> xai_db \<Rightarrow> bool" for L exs where
  begin': "xd_explanations db = exs \<Longrightarrow> xd_narrations db = [] \<Longrightarrow> xd_audits db = [] \<Longrightarrow> xai_reach L exs db"
| more': "xai_reach L exs db \<Longrightarrow> xai_step L db db' \<Longrightarrow> xai_reach L exs db'"

definition narration_ok :: "feature_labels \<Rightarrow> stored_explanation list \<Rightarrow> (nat \<times> audit_result) list \<Rightarrow> narration \<Rightarrow> bool" where
  "narration_ok L exs audits n \<longleftrightarrow>
     (case na_llm n of
        None \<Rightarrow> na_final n = na_template n \<and> na_id n \<notin> fst ` set audits
      | Some c \<Rightarrow> (\<exists>ex \<in> set exs. \<exists>r. se_id ex = na_explanation n \<and> r = audit_narration L c (se_attributions ex) [] [se_action ex] 3
          \<and> (na_id n, r) \<in> set audits \<and> na_final n = (if ar_passed r then c else na_template n)))"

definition xai_inv :: "feature_labels \<Rightarrow> stored_explanation list \<Rightarrow> xai_db \<Rightarrow> bool" where
  "xai_inv L exs db \<longleftrightarrow> xd_explanations db = exs
     \<and> distinct (map (\<lambda>n. (na_explanation n, na_kind n, na_lang n)) (xd_narrations db))
     \<and> distinct (map na_id (xd_narrations db)) \<and> distinct (map fst (xd_audits db))
     \<and> (\<forall>n \<in> set (xd_narrations db). narration_ok L exs (xd_audits db) n)"

lemma find_member: "List.find P xs = Some x \<Longrightarrow> x \<in> set xs \<and> P x"
  by (induction xs) (auto split: if_splits)

lemma narration_ok_more: "narration_ok L exs au n \<Longrightarrow> na_id n \<noteq> i \<Longrightarrow> narration_ok L exs (au @ [(i, r)]) n"
  by (force simp: narration_ok_def split: option.splits)

lemma narration_cases:
  assumes "narration_service L template llm fresh e kind lang db = (r, db')"
  obtains (same) "db' = db"
  | (plain) t where "narration_get e kind lang db = None" and "db' = db\<lparr>xd_narrations := xd_narrations db @
        [\<lparr>na_id = fresh, na_explanation = e, na_kind = kind, na_lang = lang, na_template = t, na_llm = None, na_final = t\<rparr>]\<rparr>"
  | (llm) t c ex ar where "narration_get e kind lang db = None" and "explanation_get e db = Some ex"
      and "ar = audit_narration L c (se_attributions ex) [] [se_action ex] 3"
      and "db' = db\<lparr>xd_narrations := xd_narrations db @
        [\<lparr>na_id = fresh, na_explanation = e, na_kind = kind, na_lang = lang, na_template = t, na_llm = Some c,
          na_final = (if ar_passed ar then c else t)\<rparr>], xd_audits := xd_audits db @ [(fresh, ar)]\<rparr>"
proof (cases "narration_get e kind lang db")
  case None
  show thesis
  proof (cases "explanation_get e db")
    case None
    with assms \<open>narration_get e kind lang db = None\<close> show thesis by (intro same) (simp add: narration_service_def)
  next
    case ex: (Some ex)
    show thesis
    proof (cases "template ex kind lang")
      case None
      with assms ex \<open>narration_get e kind lang db = None\<close> show thesis by (intro same) (simp add: narration_service_def)
    next
      case t: (Some t)
      show thesis
      proof (cases "llm t")
        case None
        with assms ex t \<open>narration_get e kind lang db = None\<close> show thesis by (intro plain) (auto simp: narration_service_def Let_def)
      next
        case (Some c)
        with assms ex t \<open>narration_get e kind lang db = None\<close> show thesis
          by (intro llm [OF _ ex refl]) (auto simp: narration_service_def Let_def)
      qed
    qed
  qed
next
  case (Some n)
  with assms show thesis by (intro same) (simp add: narration_service_def)
qed

lemma narration_get_None:
  "narration_get e kind lang db = None \<Longrightarrow> n \<in> set (xd_narrations db)
     \<Longrightarrow> (na_explanation n, na_kind n, na_lang n) \<noteq> (e, kind, lang)"
  by (auto simp: narration_get_def find_None_iff)

lemma xai_step_inv:
  assumes "xai_step L db db'" and inv: "xai_inv L exs db"
  shows "xai_inv L exs db'"
  using assms(1)
proof cases
  case (narrated fresh template llm e kind lang r)
  from narrated(2) show ?thesis
  proof (cases rule: narration_cases)
    case (plain t)
    with inv narrated(1) narration_get_None [OF plain(1)] show ?thesis
      by (auto simp: xai_inv_def narration_ok_def)
  next
    case (llm t c ex ar)
    let ?n = "\<lparr>na_id = fresh, na_explanation = e, na_kind = kind, na_lang = lang, na_template = t, na_llm = Some c,
      na_final = (if ar_passed ar then c else t)\<rparr>"
    have old: "narration_ok L exs (xd_audits db @ [(fresh, ar)]) n" if "n \<in> set (xd_narrations db)" for n
      using that inv narrated(1) by (intro narration_ok_more) (auto simp: xai_inv_def)
    have "ex \<in> set exs" "se_id ex = e"
      using llm(2) inv by (auto simp: explanation_get_def xai_inv_def dest: find_member)
    then have "narration_ok L exs (xd_audits db @ [(fresh, ar)]) ?n"
      using llm(3) by (auto simp: narration_ok_def intro!: bexI [of _ ex])
    with old inv narrated(1) llm narration_get_None [OF llm(1)] show ?thesis by (auto simp: xai_inv_def)
  qed (use inv in simp)
next
  case (judged now e v sensor r)
  then have "xd_explanations db' = xd_explanations db \<and> xd_narrations db' = xd_narrations db \<and> xd_audits db' = xd_audits db"
    by (auto simp: add_feedback_def Let_def split: option.splits if_splits)
  with inv show ?thesis by (simp add: xai_inv_def)
qed

text \<open>
  Property C30. What an operator reads is safe: for any answers of the LLM and any order of requests, the
  text shown of a stored narration is its template or an LLM text whose audit passed, the audit of every
  LLM text is stored, and there is one narration per explanation, kind and language.
\<close>

theorem shown_text_is_audited:
  assumes "xai_reach L exs db" and "n \<in> set (xd_narrations db)"
  shows "(na_final n = na_template n \<or> (\<exists>c ex r. na_llm n = Some c \<and> na_final n = c \<and> ex \<in> set exs \<and> se_id ex = na_explanation n
        \<and> audit_for (na_id n) db = Some r \<and> r = audit_narration L c (se_attributions ex) [] [se_action ex] 3 \<and> ar_passed r))
    \<and> (na_llm n = None \<longleftrightarrow> audit_for (na_id n) db = None)
    \<and> (\<forall>m \<in> set (xd_narrations db). na_explanation m = na_explanation n \<and> na_kind m = na_kind n \<and> na_lang m = na_lang n \<longrightarrow> m = n)"
proof -
  have inv: "xai_inv L exs db"
    using assms(1)
  proof (induction rule: xai_reach.induct)
    case (begin' db)
    then show ?case by (simp add: xai_inv_def)
  qed (rule xai_step_inv)
  then have ok: "narration_ok L exs (xd_audits db) n" and d: "distinct (map fst (xd_audits db))"
      and one: "distinct (map (\<lambda>n. (na_explanation n, na_kind n, na_lang n)) (xd_narrations db))"
    using assms(2) by (auto simp: xai_inv_def)
  have find: "audit_for i db = Some r" if "(i, r) \<in> set (xd_audits db)" for i r
  proof -
    have "List.find (\<lambda>(n, r). n = i) (rev (xd_audits db)) \<noteq> None" using that by (auto simp: find_None_iff)
    then obtain m where m: "List.find (\<lambda>(n, r). n = i) (rev (xd_audits db)) = Some m" by blast
    then have "m \<in> set (xd_audits db)" "fst m = i" using find_member [OF m] by auto
    with that d have "m = (i, r)" by (metis distinct_map inj_onD fst_conv)
    with m show ?thesis by (simp add: audit_for_def)
  qed
  have unique: "m = n" if "m \<in> set (xd_narrations db)" "na_explanation m = na_explanation n" "na_kind m = na_kind n" "na_lang m = na_lang n" for m
    using that one assms(2) by (auto simp: distinct_map inj_on_def)
  show ?thesis
  proof (cases "na_llm n")
    case None
    with ok have "audit_for (na_id n) db = None" "na_final n = na_template n"
      by (auto simp: narration_ok_def audit_for_def find_None_iff image_iff)
    with None unique show ?thesis by auto
  next
    case (Some c)
    with ok obtain ex r where ex: "ex \<in> set exs" "se_id ex = na_explanation n"
        "r = audit_narration L c (se_attributions ex) [] [se_action ex] 3" "(na_id n, r) \<in> set (xd_audits db)"
        "na_final n = (if ar_passed r then c else na_template n)"
      by (auto simp: narration_ok_def)
    from find [OF ex(4)] have "audit_for (na_id n) db = Some r" .
    with ex Some unique show ?thesis by (cases "ar_passed r") auto
  qed
qed

definition no_labels :: feature_labels where
  "no_labels = \<lparr>fl_features = [], fl_suffixes = []\<rparr>"

definition demo_explanation :: stored_explanation where
  "demo_explanation = \<lparr>se_id = 4, se_attributions = [], se_action = ''Grease the bearing.''\<rparr>"

definition demo_narration :: narration where
  "demo_narration = \<lparr>na_id = 1, na_explanation = 4, na_kind = ''status'', na_lang = ''en'', na_template = ''Well.'', na_llm = None,
     na_final = ''Well.''\<rparr>"

definition demo_db :: "narration list \<Rightarrow> xai_db" where
  "demo_db ns = \<lparr>xd_explanations = [demo_explanation], xd_narrations = ns, xd_audits = [], xd_feedback = [], xd_sensors = [], xd_trail = []\<rparr>"

lemma demo_reach: "xai_reach no_labels [demo_explanation] (demo_db [demo_narration])"
proof (rule xai_reach.more')
  show "xai_reach no_labels [demo_explanation] (demo_db [])" by (rule xai_reach.begin') (simp_all add: demo_db_def)
  show "xai_step no_labels (demo_db []) (demo_db [demo_narration])"
    by (rule xai_step.narrated [of 1 _ _ "\<lambda>e k l. Some ''Well.''" "\<lambda>t. None" 4 "''status''" "''en''"])
      (auto simp: demo_db_def narration_service_def narration_get_def explanation_get_def demo_explanation_def demo_narration_def Let_def)
qed

lemma shown_text_is_audited_witness:
  "na_final demo_narration = na_template demo_narration \<and> audit_for 1 (demo_db [demo_narration]) = None"
  using shown_text_is_audited [OF demo_reach, of demo_narration] by (simp add: demo_db_def) (simp add: demo_narration_def)

text \<open>One recommended repair in the text is enough: another one beside it passes the audit.\<close>

lemma one_supported_suffices:
  "w \<in> set IMPERATIVES \<Longrightarrow> sublist w lowered \<Longrightarrow> sublist w (lower (join_on CHR '' '' actions))
     \<Longrightarrow> \<not> unsupported_recommendation lowered actions"
  by (auto simp: unsupported_recommendation_def)

text \<open>A comma inside a number is dropped, so a decimal comma multiplies.\<close>

lemma decimal_comma: "read_number ''3,5'' = Some (35, [])"
  by (simp add: read_number_def Let_def number_of_def is_digit_def digit_val_def)

end
