(* ===== verification/Twin_Registry.thy ===== *)
theory Twin_Registry
  imports Twin_Prelude Py_Numbers
begin

text \<open>
  The asset registry and its twins: \<open>apps/api/app/modules/assets/{models,repository,service}.py\<close>, the
  Ditto client (\<open>app/core/ditto.py\<close>) and \<open>TwinSyncService\<close> with the health roll-up of
  \<open>apps/api/app/modules/twin/service.py\<close>. Rows keep a flag for soft deletion. Ditto answers each request
  or refuses it; what it refuses is given as a list, and a commit may fail. JSON columns are opaque.
\<close>

section \<open>Tables\<close>

record plant_row =
  pl_id :: nat
  pl_code :: string
  pl_name :: string
  pl_timezone :: string
  pl_factor :: real
  pl_currency :: string
  pl_gone :: bool

record line_row =
  li_id :: nat
  li_plant :: nat
  li_code :: string
  li_name :: string
  li_sequence :: int
  li_gone :: bool

text \<open>What a request may set on an asset; the rest of the row is given by the service.\<close>

record asset_fields =
  af_name :: string
  af_manufacturer :: "string option"
  af_model :: "string option"
  af_serial :: "string option"
  af_install :: "string option"
  af_fidelity :: int
  af_cycle :: "real option"
  af_power :: "real option"
  af_model3d :: "string option"
  af_position :: "string option"
  af_status :: string
  af_attributes :: string

record asset_row =
  as_id :: nat
  as_line :: nat
  as_code :: string
  as_type :: string
  as_fields :: asset_fields
  as_thing :: string
  as_aas :: string
  as_gone :: bool

text \<open>A value of the JSON column \<open>physics_params\<close>.\<close>

datatype param_value = Null_Param | Number_Param real | Text_Param string

record component_spec =
  co_code :: string
  co_name :: string
  co_type :: string
  co_weight :: real
  co_physics :: "string option"
  co_params :: "(string \<times> param_value) list"

record component_row =
  cr_id :: nat
  cr_asset :: nat
  cr_spec :: component_spec
  cr_gone :: bool

record sensor_spec =
  se_code :: string
  se_component :: "string option"
  se_metric :: string
  se_name :: string
  se_unit :: string
  se_kind :: string
  se_rate :: real
  se_limits :: "real option list"

record sensor_row =
  sn_id :: nat
  sn_asset :: nat
  sn_component :: "nat option"
  sn_spec :: sensor_spec

record registry =
  rg_plants :: "plant_row list"
  rg_lines :: "line_row list"
  rg_assets :: "asset_row list"
  rg_components :: "component_row list"
  rg_sensors :: "sensor_row list"
  rg_audits :: "(nat \<times> string) list"
  rg_next :: nat

datatype registry_error = Not_Found | Conflict_Error | Unprocessable | Integrity | Twin_Store | Commit_Failed

section \<open>The twin store\<close>

definition ACTIVE_POLICY_ID :: string where "ACTIVE_POLICY_ID = ''twinvoice:active''"

definition RETIRED_POLICY_ID :: string where "RETIRED_POLICY_ID = ''twinvoice:retired''"

definition BASE_IRI :: string where "BASE_IRI = ''https://twinvoice.dev''"

definition shell_id :: "string \<Rightarrow> string" where
  "shell_id code = BASE_IRI @ ''/aas/'' @ code"

definition thing_id :: "string \<Rightarrow> string" where
  "thing_id code = ''twinvoice:'' @ code"

record twin_attributes =
  ta_code :: string
  ta_name :: string
  ta_type :: string
  ta_manufacturer :: "string option"
  ta_model :: "string option"
  ta_serial :: "string option"
  ta_install :: "string option"
  ta_fidelity :: int
  ta_aas :: string
  ta_line :: string
  ta_plant :: string

record thing =
  th_policy :: string
  th_attributes :: twin_attributes
  th_status :: string
  th_components :: "(string \<times> real option) list"

record ditto =
  dt_things :: "string \<Rightarrow> thing option"
  dt_answers :: "bool list"
  dt_ready :: bool

text \<open>One request: refused (the client raises) or carried out.\<close>

definition request :: "(ditto \<Rightarrow> ditto) \<Rightarrow> ditto \<Rightarrow> bool \<times> ditto" where
  "request f d =
     (case dt_answers d of
        [] \<Rightarrow> (False, d)
      | ok # rest \<Rightarrow> (ok, (if ok then f d else d)\<lparr>dt_answers := rest\<rparr>))"

definition then_request :: "bool \<times> ditto \<Rightarrow> (ditto \<Rightarrow> ditto) \<Rightarrow> bool \<times> ditto" where
  "then_request r f = (if fst r then request f (snd r) else r)"

definition put_thing :: "string \<Rightarrow> thing \<Rightarrow> ditto \<Rightarrow> ditto" where
  "put_thing i t d = d\<lparr>dt_things := (dt_things d)(i \<mapsto> t)\<rparr>"

text \<open>A request to a thing that does not exist is answered with 404, which the client does not raise.\<close>

definition change_thing :: "string \<Rightarrow> (thing \<Rightarrow> thing) \<Rightarrow> ditto \<Rightarrow> ditto" where
  "change_thing i f d = (case dt_things d i of None \<Rightarrow> d | Some t \<Rightarrow> d\<lparr>dt_things := (dt_things d)(i \<mapsto> f t)\<rparr>)"

definition ensure_policies :: "ditto \<Rightarrow> bool \<times> ditto" where
  "ensure_policies d =
     (if dt_ready d then (True, d)
      else (case then_request (request id d) id of
              (True, d') \<Rightarrow> (True, d'\<lparr>dt_ready := True\<rparr>)
            | (False, d') \<Rightarrow> (False, d')))"

definition attributes :: "asset_row \<Rightarrow> line_row \<Rightarrow> plant_row \<Rightarrow> twin_attributes" where
  "attributes a l p =
     (let f = as_fields a
      in \<lparr>ta_code = as_code a, ta_name = af_name f, ta_type = as_type a, ta_manufacturer = af_manufacturer f, ta_model = af_model f,
          ta_serial = af_serial f, ta_install = af_install f, ta_fidelity = af_fidelity f, ta_aas = as_aas a,
          ta_line = li_code l, ta_plant = pl_code p\<rparr>)"

definition create_thing :: "asset_row \<Rightarrow> line_row \<Rightarrow> plant_row \<Rightarrow> string list \<Rightarrow> ditto \<Rightarrow> bool \<times> ditto" where
  "create_thing a l p codes d =
     then_request (ensure_policies d)
       (put_thing (as_thing a) \<lparr>th_policy = ACTIVE_POLICY_ID, th_attributes = attributes a l p, th_status = af_status (as_fields a),
          th_components = dict_of (map (\<lambda>c. (c, None)) codes)\<rparr>)"

definition update_thing :: "asset_row \<Rightarrow> line_row \<Rightarrow> plant_row \<Rightarrow> ditto \<Rightarrow> bool \<times> ditto" where
  "update_thing a l p =
     request (change_thing (as_thing a) (\<lambda>t. t\<lparr>th_attributes := attributes a l p, th_status := af_status (as_fields a)\<rparr>))"

definition add_component :: "asset_row \<Rightarrow> string \<Rightarrow> ditto \<Rightarrow> bool \<times> ditto" where
  "add_component a code =
     request (change_thing (as_thing a) (\<lambda>t. t\<lparr>th_components := dict_put code None (th_components t)\<rparr>))"

definition retire_thing :: "asset_row \<Rightarrow> ditto \<Rightarrow> bool \<times> ditto" where
  "retire_thing a d = then_request (ensure_policies d) (change_thing (as_thing a) (\<lambda>t. t\<lparr>th_policy := RETIRED_POLICY_ID\<rparr>))"

section \<open>Registry operations\<close>

definition active_line :: "nat \<Rightarrow> registry \<Rightarrow> line_row option" where
  "active_line i r = List.find (\<lambda>l. li_id l = i \<and> \<not> li_gone l) (rg_lines r)"

definition plant_of_line :: "line_row \<Rightarrow> registry \<Rightarrow> plant_row option" where
  "plant_of_line l r = List.find (\<lambda>p. pl_id p = li_plant l) (rg_plants r)"

definition get_asset :: "nat \<Rightarrow> registry \<Rightarrow> asset_row option" where
  "get_asset i r = List.find (\<lambda>a. as_id a = i \<and> \<not> as_gone a) (rg_assets r)"

definition get_by_code :: "string \<Rightarrow> registry \<Rightarrow> asset_row option" where
  "get_by_code c r = List.find (\<lambda>a. as_code a = c \<and> \<not> as_gone a) (rg_assets r)"

definition code_retired :: "string \<Rightarrow> registry \<Rightarrow> bool" where
  "code_retired c r \<longleftrightarrow> (\<exists>a \<in> set (rg_assets r). as_code a = c \<and> as_gone a)"

definition create_plant :: "string \<Rightarrow> string \<Rightarrow> string \<Rightarrow> real \<Rightarrow> string \<Rightarrow> registry \<Rightarrow> registry_error + registry" where
  "create_plant code name zone factor currency r =
     (if \<exists>p \<in> set (rg_plants r). pl_code p = code \<and> \<not> pl_gone p then Inl Conflict_Error
      else Inr (r\<lparr>rg_plants := rg_plants r @ [\<lparr>pl_id = rg_next r, pl_code = code, pl_name = name,
                   pl_timezone = zone, pl_factor = factor, pl_currency = currency, pl_gone = False\<rparr>],
                 rg_audits := rg_audits r @ [(rg_next r, ''create'')], rg_next := Suc (rg_next r)\<rparr>))"

definition create_line :: "nat \<Rightarrow> string \<Rightarrow> string \<Rightarrow> int \<Rightarrow> registry \<Rightarrow> registry_error + registry" where
  "create_line plant code name sequence r =
     (if \<not> (\<exists>p \<in> set (rg_plants r). pl_id p = plant \<and> \<not> pl_gone p) then Inl Unprocessable
      else if \<exists>l \<in> set (rg_lines r). li_plant l = plant \<and> li_code l = code \<and> \<not> li_gone l then Inl Conflict_Error
      else Inr (r\<lparr>rg_lines := rg_lines r @ [\<lparr>li_id = rg_next r, li_plant = plant, li_code = code, li_name = name,
                   li_sequence = sequence, li_gone = False\<rparr>],
                 rg_audits := rg_audits r @ [(rg_next r, ''create'')], rg_next := Suc (rg_next r)\<rparr>))"

text \<open>\<open>_add_structure\<close>: the rows of the components and sensors of a new asset, ids from \<open>n\<close> on.\<close>

definition component_rows :: "nat \<Rightarrow> nat \<Rightarrow> component_spec list \<Rightarrow> component_row list" where
  "component_rows aid n cs = map (\<lambda>(i, c). \<lparr>cr_id = i, cr_asset = aid, cr_spec = c, cr_gone = False\<rparr>) (enumerate n cs)"

definition component_ids :: "component_row list \<Rightarrow> (string \<times> nat) list" where
  "component_ids rows = dict_of (map (\<lambda>c. (co_code (cr_spec c), cr_id c)) rows)"

definition sensor_rows :: "nat \<Rightarrow> nat \<Rightarrow> (string \<times> nat) list \<Rightarrow> sensor_spec list \<Rightarrow> sensor_row list option" where
  "sensor_rows aid n ids ss =
     (if \<exists>s \<in> set ss. \<exists>c. se_component s = Some c \<and> map_of ids c = None then None
      else Some (map (\<lambda>(i, s). \<lparr>sn_id = i, sn_asset = aid,
             sn_component = (case se_component s of Some c \<Rightarrow> if c = [] then None else map_of ids c | None \<Rightarrow> None), sn_spec = s\<rparr>)
           (enumerate n ss)))"

definition finish :: "bool \<Rightarrow> registry \<Rightarrow> registry \<Rightarrow> bool \<times> ditto \<Rightarrow> (registry_error + unit) \<times> registry \<times> ditto" where
  "finish commit_ok old new rd =
     (case rd of
        (False, d) \<Rightarrow> (Inl Twin_Store, old, d)
      | (True, d) \<Rightarrow> if commit_ok then (Inr (), new, d) else (Inl Commit_Failed, old, d))"

definition create_asset ::
    "bool \<Rightarrow> nat \<Rightarrow> string \<Rightarrow> string \<Rightarrow> asset_fields \<Rightarrow> component_spec list \<Rightarrow> sensor_spec list \<Rightarrow> registry \<times> ditto
       \<Rightarrow> (registry_error + unit) \<times> registry \<times> ditto" where
  "create_asset commit_ok line code type given cs ss rd =
     (case rd of (r, d) \<Rightarrow>
      case active_line line r of
        None \<Rightarrow> (Inl Unprocessable, r, d)
      | Some l \<Rightarrow>
          (case plant_of_line l r of
             None \<Rightarrow> (Inl Integrity, r, d)
           | Some p \<Rightarrow>
               if get_by_code code r \<noteq> None \<or> code_retired code r then (Inl Conflict_Error, r, d)
               else if \<not> distinct (map co_code cs) \<or> \<not> distinct (map se_metric ss) then (Inl Integrity, r, d)
               else
                 (let n = rg_next r;
                      a = \<lparr>as_id = n, as_line = line, as_code = code, as_type = type,
                           as_fields = given\<lparr>af_status := ''RUNNING''\<rparr>, as_thing = thing_id code, as_aas = shell_id code, as_gone = False\<rparr>;
                      crs = component_rows n (Suc n) cs
                  in (case sensor_rows n (Suc n + length cs) (component_ids crs) ss of
                        None \<Rightarrow> (Inl Unprocessable, r, d)
                      | Some srs \<Rightarrow>
                          finish commit_ok r
                            (r\<lparr>rg_assets := rg_assets r @ [a], rg_components := rg_components r @ crs, rg_sensors := rg_sensors r @ srs,
                               rg_audits := rg_audits r @ [(n, ''create'')], rg_next := Suc n + length cs + length ss\<rparr>)
                            (create_thing a l p (map co_code cs) d)))))"

text \<open>An update names the fields it sets; the flush fails where a mandatory one is set to null.\<close>

record asset_update =
  up_name :: "string option option"
  up_manufacturer :: "string option option"
  up_model :: "string option option"
  up_serial :: "string option option"
  up_install :: "string option option"
  up_fidelity :: "int option option"
  up_cycle :: "real option option"
  up_power :: "real option option"
  up_model3d :: "string option option"
  up_position :: "string option option"
  up_status :: "string option option"
  up_attributes :: "string option option"

definition set_or_keep :: "'a option \<Rightarrow> 'a \<Rightarrow> 'a" where
  "set_or_keep u old = (case u of None \<Rightarrow> old | Some v \<Rightarrow> v)"

definition apply_update :: "asset_update \<Rightarrow> asset_fields \<Rightarrow> asset_fields option" where
  "apply_update u f =
     (case (set_or_keep (up_name u) (Some (af_name f)), set_or_keep (up_fidelity u) (Some (af_fidelity f)),
            set_or_keep (up_status u) (Some (af_status f)), set_or_keep (up_attributes u) (Some (af_attributes f))) of
        (Some n, Some l, Some s, Some x) \<Rightarrow>
          Some \<lparr>af_name = n, af_manufacturer = set_or_keep (up_manufacturer u) (af_manufacturer f),
            af_model = set_or_keep (up_model u) (af_model f), af_serial = set_or_keep (up_serial u) (af_serial f),
            af_install = set_or_keep (up_install u) (af_install f), af_fidelity = l,
            af_cycle = set_or_keep (up_cycle u) (af_cycle f), af_power = set_or_keep (up_power u) (af_power f),
            af_model3d = set_or_keep (up_model3d u) (af_model3d f), af_position = set_or_keep (up_position u) (af_position f),
            af_status = s, af_attributes = x\<rparr>
      | _ \<Rightarrow> None)"

definition replace_asset :: "asset_row \<Rightarrow> registry \<Rightarrow> registry" where
  "replace_asset a r = r\<lparr>rg_assets := map (\<lambda>x. if as_id x = as_id a then a else x) (rg_assets r)\<rparr>"

definition update_asset ::
    "bool \<Rightarrow> asset_update \<Rightarrow> nat \<Rightarrow> registry \<times> ditto \<Rightarrow> (registry_error + unit) \<times> registry \<times> ditto" where
  "update_asset commit_ok u i rd =
     (case rd of (r, d) \<Rightarrow>
      case get_asset i r of
        None \<Rightarrow> (Inl Not_Found, r, d)
      | Some a \<Rightarrow>
          (case apply_update u (as_fields a) of
             None \<Rightarrow> (Inl Integrity, r, d)
           | Some given \<Rightarrow>
               (let a' = a\<lparr>as_fields := given\<rparr>
                in (case active_line (as_line a) r of
                      None \<Rightarrow> (Inl Unprocessable, r, d)
                    | Some l \<Rightarrow>
                        (case plant_of_line l r of
                           None \<Rightarrow> (Inl Integrity, r, d)
                         | Some p \<Rightarrow>
                             finish commit_ok r ((replace_asset a' r)\<lparr>rg_audits := rg_audits r @ [(i, ''update'')]\<rparr>) (update_thing a' l p d))))))"

definition retire_asset :: "bool \<Rightarrow> nat \<Rightarrow> registry \<times> ditto \<Rightarrow> (registry_error + unit) \<times> registry \<times> ditto" where
  "retire_asset commit_ok i rd =
     (case rd of (r, d) \<Rightarrow>
      case get_asset i r of
        None \<Rightarrow> (Inl Not_Found, r, d)
      | Some a \<Rightarrow>
          finish commit_ok r ((replace_asset (a\<lparr>as_gone := True\<rparr>) r)\<lparr>rg_audits := rg_audits r @ [(i, ''delete'')]\<rparr>) (retire_thing a d))"

text \<open>A clone takes the source's structure; its name and code are new and its serial number is cleared. Lists are in table order.\<close>

definition clone_fields :: "asset_fields \<Rightarrow> string \<Rightarrow> asset_fields" where
  "clone_fields f name = f\<lparr>af_name := name, af_serial := None\<rparr>"

definition asset_components :: "nat \<Rightarrow> registry \<Rightarrow> component_row list" where
  "asset_components i r = filter (\<lambda>c. cr_asset c = i \<and> \<not> cr_gone c) (rg_components r)"

definition clone_sensor :: "component_row list \<Rightarrow> sensor_row \<Rightarrow> sensor_spec" where
  "clone_sensor crs s = (sn_spec s)\<lparr>se_component :=
     (case sn_component s of None \<Rightarrow> None
      | Some i \<Rightarrow> map_option (\<lambda>c. co_code (cr_spec c)) (List.find (\<lambda>c. cr_id c = i) crs))\<rparr>"

definition clone_asset :: "bool \<Rightarrow> nat \<Rightarrow> string \<Rightarrow> string \<Rightarrow> registry \<times> ditto \<Rightarrow> (registry_error + unit) \<times> registry \<times> ditto" where
  "clone_asset commit_ok i code name rd =
     (case get_asset i (fst rd) of
        None \<Rightarrow> (Inl Not_Found, rd)
      | Some a \<Rightarrow>
          (let crs = asset_components i (fst rd)
           in create_asset commit_ok (as_line a) code (as_type a) (clone_fields (as_fields a) name) (map cr_spec crs)
                (map (clone_sensor crs) (filter (\<lambda>s. sn_asset s = i) (rg_sensors (fst rd)))) rd))"

definition create_component ::
    "bool \<Rightarrow> nat \<Rightarrow> component_spec \<Rightarrow> registry \<times> ditto \<Rightarrow> (registry_error + unit) \<times> registry \<times> ditto" where
  "create_component commit_ok i spec rd =
     (case rd of (r, d) \<Rightarrow>
      case get_asset i r of
        None \<Rightarrow> (Inl Not_Found, r, d)
      | Some a \<Rightarrow>
          if \<exists>c \<in> set (rg_components r). cr_asset c = i \<and> co_code (cr_spec c) = co_code spec \<and> \<not> cr_gone c
          then (Inl Conflict_Error, r, d)
          else finish commit_ok r
            (r\<lparr>rg_components := rg_components r @ [\<lparr>cr_id = rg_next r, cr_asset = i, cr_spec = spec, cr_gone = False\<rparr>],
               rg_audits := rg_audits r @ [(rg_next r, ''create'')], rg_next := Suc (rg_next r)\<rparr>)
            (add_component a (co_code spec) d))"

section \<open>Health\<close>

definition machine_health :: "(real option \<times> real) list \<Rightarrow> real option" where
  "machine_health components =
     (let weighted = concat (map (\<lambda>(h, w). case h of None \<Rightarrow> [] | Some x \<Rightarrow> [x * w]) components)
      in if weighted = [] then None else Some (round_dec 2 (Min (set weighted))))"

definition mean_health :: "real option list \<Rightarrow> real option" where
  "mean_health values' =
     (let known = concat (map (\<lambda>v. case v of None \<Rightarrow> [] | Some x \<Rightarrow> [x]) values')
      in if known = [] then None else Some (round_dec 2 (sum_list known / real (length known))))"

text \<open>The tree: the health of a machine from its twin, of a line and of a plant from what is below.\<close>

definition component_state :: "thing option \<Rightarrow> string \<Rightarrow> real option" where
  "component_state t code =
     (case t of None \<Rightarrow> None | Some th \<Rightarrow> (case map_of (th_components th) code of None \<Rightarrow> None | Some h \<Rightarrow> h))"

definition asset_health :: "registry \<Rightarrow> (string \<Rightarrow> thing option) \<Rightarrow> asset_row \<Rightarrow> real option" where
  "asset_health r things a =
     machine_health (map (\<lambda>c. (component_state (things (as_thing a)) (co_code (cr_spec c)), co_weight (cr_spec c)))
       (asset_components (as_id a) r))"

definition line_health :: "registry \<Rightarrow> (string \<Rightarrow> thing option) \<Rightarrow> line_row \<Rightarrow> real option" where
  "line_health r things l =
     mean_health (map (asset_health r things) (filter (\<lambda>a. as_line a = li_id l \<and> \<not> as_gone a) (rg_assets r)))"

definition plant_health :: "registry \<Rightarrow> (string \<Rightarrow> thing option) \<Rightarrow> plant_row \<Rightarrow> real option" where
  "plant_health r things p =
     mean_health (map (line_health r things) (filter (\<lambda>l. li_plant l = pl_id p \<and> \<not> li_gone l) (rg_lines r)))"

end
