(* ===== verification/Twin_Facts.thy ===== *)
theory Twin_Facts
  imports Twin_Registry
begin

text \<open>
  The registry and the twin store agree: in every reachable state each asset ever registered has its own
  twin, a retired asset's twin is read-only, and codes are never used again. Requests Ditto refuses and
  commits that fail are part of the steps.
\<close>

section \<open>Requests\<close>

lemma request_cases:
  assumes "request f d = (ok, d')"
  shows "dt_things d' = (if ok then dt_things (f d) else dt_things d)"
  using assms by (auto simp: request_def split: list.splits)

lemma then_request_things:
  "then_request r f = (ok, d') \<Longrightarrow> dt_things d' = (if ok then dt_things (f (snd r)) else dt_things (snd r))"
  by (cases r) (auto simp: then_request_def split: if_splits dest: request_cases)

lemma ensure_policies_things [simp]: "dt_things (snd (ensure_policies d)) = dt_things d"
proof -
  obtain ok d' where r: "then_request (request id d) id = (ok, d')" by force
  obtain ok1 d1 where q: "request id d = (ok1, d1)" by force
  have "dt_things d1 = dt_things d" using request_cases [OF q] by (simp split: if_splits)
  then have "dt_things d' = dt_things d" using then_request_things [OF r] q by (simp split: if_splits)
  then show ?thesis using r by (cases ok) (simp_all add: ensure_policies_def)
qed

lemma put_thing_things [simp]: "dt_things (put_thing i t d) = (dt_things d)(i \<mapsto> t)"
  by (simp add: put_thing_def)

lemma change_thing_things: "dt_things (change_thing i f d) = (\<lambda>j. if j = i then map_option f (dt_things d i) else dt_things d j)"
  by (auto simp: change_thing_def fun_eq_iff split: option.split)

lemma change_thing_cong: "dt_things d0 = dt_things d \<Longrightarrow> dt_things (change_thing i f d0) = dt_things (change_thing i f d)"
  by (simp only: change_thing_things)

section \<open>The invariant\<close>

definition twin_ok :: "registry \<Rightarrow> (string \<Rightarrow> thing option) \<Rightarrow> asset_row \<Rightarrow> bool" where
  "twin_ok r things a \<longleftrightarrow> as_thing a = thing_id (as_code a)
     \<and> (case things (as_thing a) of None \<Rightarrow> False
        | Some t \<Rightarrow> ta_code (th_attributes t) = as_code a \<and> (as_gone a \<longrightarrow> th_policy t = RETIRED_POLICY_ID)
            \<and> (\<forall>c \<in> set (rg_components r). cr_asset c = as_id a \<longrightarrow> co_code (cr_spec c) \<in> fst ` set (th_components t)))"

definition no_health :: "(string \<Rightarrow> thing option) \<Rightarrow> bool" where
  "no_health things \<longleftrightarrow> (\<forall>i t c h. things i = Some t \<longrightarrow> (c, h) \<in> set (th_components t) \<longrightarrow> h = None)"

definition ids_ok :: "registry \<Rightarrow> bool" where
  "ids_ok r \<longleftrightarrow> distinct (map as_id (rg_assets r)) \<and> (\<forall>a \<in> set (rg_assets r). as_id a < rg_next r)
     \<and> (\<forall>c \<in> set (rg_components r). cr_asset c < rg_next r)"

definition registry_inv :: "registry \<times> ditto \<Rightarrow> bool" where
  "registry_inv rd \<longleftrightarrow> (case rd of (r, d) \<Rightarrow> ids_ok r \<and> distinct (map as_code (rg_assets r))
     \<and> (\<forall>a \<in> set (rg_assets r). twin_ok r (dt_things d) a) \<and> no_health (dt_things d))"

lemma thing_id_inj [simp]: "thing_id a = thing_id b \<longleftrightarrow> a = b"
  by (simp add: thing_id_def)

lemma find_in: "List.find P xs = Some x \<Longrightarrow> x \<in> set xs \<and> P x"
  by (induction xs) (auto split: if_splits)

lemma dict_put_members: "(c, h) \<in> set (dict_put k v d) \<Longrightarrow> (c, h) = (k, v) \<or> (c, h) \<in> set d"
  by (induction d) (auto split: if_splits)

lemma dict_put_key_set: "fst ` set (dict_put k v d) = insert k (fst ` set d)"
  by (induction d) auto

lemma twin_ok_cong: "rg_components r' = rg_components r \<Longrightarrow> things' (as_thing a) = things (as_thing a) \<Longrightarrow> twin_ok r' things' a = twin_ok r things a"
  by (simp add: twin_ok_def split: option.split)

lemma finish_cases:
  assumes "finish commit_ok r new (ok, d) = (res, r', d')"
  shows "d' = d \<and> (r' = r \<or> ok \<and> r' = new)"
  using assms by (auto simp: finish_def split: if_splits bool.splits)

lemma registry_inv_finish:
  assumes "finish commit_ok r new rd = (res, r', d')" and "registry_inv (r, snd rd)" and "fst rd \<Longrightarrow> registry_inv (new, snd rd)"
  shows "registry_inv (r', d')"
proof -
  obtain ok d where rd: "rd = (ok, d)" by force
  from finish_cases [OF assms(1) [unfolded rd]] assms(2,3) show ?thesis by (auto simp: rd)
qed

lemma get_asset_in: "get_asset i r = Some a \<Longrightarrow> a \<in> set (rg_assets r) \<and> as_id a = i \<and> \<not> as_gone a"
  by (auto simp: get_asset_def dest: find_in)

lemma twin_ok_change:
  assumes inv: "registry_inv (r, d)" and a: "a \<in> set (rg_assets r)"
    and code: "\<And>t. ta_code (th_attributes t) = as_code a \<Longrightarrow> ta_code (th_attributes (f t)) = as_code a"
    and parts: "\<And>t. fst ` set (th_components t) \<subseteq> fst ` set (th_components (f t))"
    and none: "\<And>t c h. (\<forall>(c, h) \<in> set (th_components t). h = None) \<Longrightarrow> (c, h) \<in> set (th_components (f t)) \<Longrightarrow> h = None"
    and policy: "\<And>t. th_policy (f t) = (if as_gone a then RETIRED_POLICY_ID else th_policy (f t))"
    and things: "dt_things d' = dt_things (change_thing (as_thing a) f d)"
  shows "registry_inv (r, d')"
proof -
  from inv have old: "twin_ok r (dt_things d) b" if "b \<in> set (rg_assets r)" for b using that by (simp add: registry_inv_def)
  have "twin_ok r (dt_things d') b" if b: "b \<in> set (rg_assets r)" for b
  proof (cases "b = a")
    case True
    from old [OF a] obtain t where t: "dt_things d (as_thing a) = Some t" by (auto simp: twin_ok_def split: option.splits)
    from old [OF a] have o: "as_thing a = thing_id (as_code a)" "ta_code (th_attributes t) = as_code a"
        "\<forall>c \<in> set (rg_components r). cr_asset c = as_id a \<longrightarrow> co_code (cr_spec c) \<in> fst ` set (th_components t)"
      unfolding twin_ok_def t option.case by blast+
    have t': "dt_things d' (as_thing a) = Some (f t)" using t by (simp add: things change_thing_things)
    have p: "as_gone a \<longrightarrow> th_policy (f t) = RETIRED_POLICY_ID" using policy [of t] by (simp split: if_splits)
    show ?thesis unfolding True twin_ok_def t' option.case using o(1,3) code [OF o(2)] parts [of t] p by blast
  next
    case False
    with inv a b have "as_code a \<noteq> as_code b" by (auto simp: registry_inv_def distinct_map inj_on_def)
    with old [OF a] old [OF b] have "as_thing a \<noteq> as_thing b" by (auto simp: twin_ok_def)
    then have "dt_things d' (as_thing b) = dt_things d (as_thing b)" by (simp add: things change_thing_things)
    then show ?thesis using old [OF b] twin_ok_cong [OF refl, of "dt_things d'" b "dt_things d" r] by simp
  qed
  moreover have "no_health (dt_things d')"
    unfolding no_health_def
  proof (intro allI impI)
    fix i t c h
    assume t: "dt_things d' i = Some t" "(c, h) \<in> set (th_components t)"
    from inv have silent: "dt_things d i = Some u \<Longrightarrow> (c', h') \<in> set (th_components u) \<Longrightarrow> h' = None" for i u c' h'
      unfolding registry_inv_def no_health_def by blast
    show "h = None"
    proof (cases "i = as_thing a")
      case True
      with t(1) obtain u where u: "dt_things d (as_thing a) = Some u" "t = f u" by (auto simp: things change_thing_things)
      have "\<forall>(c, h) \<in> set (th_components u). h = None" using silent [OF u(1)] by blast
      then show ?thesis using none t(2) u(2) by blast
    next
      case False
      with t silent show ?thesis by (simp add: things change_thing_things)
    qed
  qed
  ultimately show ?thesis using inv by (simp add: registry_inv_def)
qed

section \<open>Every operation keeps it\<close>

lemma request_change:
  assumes "registry_inv (r, d)" and "a \<in> set (rg_assets r)" and "request (change_thing (as_thing a) f) d0 = (ok, d')"
    and "dt_things d0 = dt_things d"
    and "\<And>t. ta_code (th_attributes t) = as_code a \<Longrightarrow> ta_code (th_attributes (f t)) = as_code a"
    and "\<And>t. fst ` set (th_components t) \<subseteq> fst ` set (th_components (f t))"
    and "\<And>t c h. (\<forall>(c, h) \<in> set (th_components t). h = None) \<Longrightarrow> (c, h) \<in> set (th_components (f t)) \<Longrightarrow> h = None"
    and "\<not> as_gone a"
  shows "registry_inv (r, d')"
proof (cases ok)
  case True
  have "dt_things d' = dt_things (change_thing (as_thing a) f d)"
    using request_cases [OF assms(3)] True change_thing_cong [OF assms(4)] by simp
  then show ?thesis using assms by (intro twin_ok_change [OF assms(1,2,5,6,7)]) simp_all
next
  case False
  then have "dt_things d' = dt_things d" using request_cases [OF assms(3)] assms(4) by simp
  then show ?thesis using assms(1) by (simp add: registry_inv_def)
qed

lemma replace_asset_simps [simp]:
  "rg_components (replace_asset a r) = rg_components r" "rg_next (replace_asset a r) = rg_next r"
  "map as_id (rg_assets (replace_asset a r)) = map as_id (rg_assets r)"
  by (auto simp: replace_asset_def)

lemma registry_inv_replace:
  assumes inv: "registry_inv (r, d)" and a: "a \<in> set (rg_assets r)" and "as_id a' = as_id a" and "as_code a' = as_code a"
    and "as_thing a' = as_thing a" and "as_gone a' \<longrightarrow> as_gone a \<or> (\<forall>t. dt_things d (as_thing a) = Some t \<longrightarrow> th_policy t = RETIRED_POLICY_ID)"
    and "rg_components r' = rg_components r" and "rg_assets r' = rg_assets (replace_asset a' r)" and "rg_next r' = rg_next r"
  shows "registry_inv (r', d)"
proof -
  have same: "b = a" if "b \<in> set (rg_assets r)" "as_id b = as_id a" for b
    using that inv a by (auto simp: registry_inv_def ids_ok_def distinct_map inj_on_def)
  have members: "b \<in> set (rg_assets r') \<Longrightarrow> b = a' \<or> b \<in> set (rg_assets r)" for b
    by (auto simp: assms(8) replace_asset_def split: if_splits)
  have old: "twin_ok r (dt_things d) b" if "b \<in> set (rg_assets r)" for b using that inv by (simp add: registry_inv_def)
  have "twin_ok r (dt_things d) a'"
    using old [OF a] assms(3-6) by (auto simp: twin_ok_def split: option.splits)
  then have "twin_ok r' (dt_things d) b" if "b \<in> set (rg_assets r')" for b
    using old members [OF that] twin_ok_cong [OF assms(7), of "dt_things d" b "dt_things d"] by auto
  moreover have "map as_id (rg_assets r') = map as_id (rg_assets r)" by (simp add: assms(8))
  moreover have "map as_code (rg_assets r') = map as_code (rg_assets r)"
    using same assms(3,4) by (auto simp: assms(8) replace_asset_def)
  moreover have "\<forall>b \<in> set (rg_assets r'). as_id b < rg_next r'"
    using members inv a assms(3,9) by (fastforce simp: registry_inv_def ids_ok_def)
  ultimately show ?thesis using inv by (simp add: registry_inv_def ids_ok_def assms(7,9))
qed

lemma update_asset_inv:
  assumes "registry_inv rd" and "update_asset ok upd i rd = (res, rd')"
  shows "registry_inv rd'"
proof -
  obtain r d where rd: "rd = (r, d)" by force
  show ?thesis
  proof (cases "get_asset i r")
    case None
    with assms rd show ?thesis by (simp add: update_asset_def)
  next
    case (Some a)
    note a = get_asset_in [OF Some]
    show ?thesis
    proof (cases "apply_update upd (as_fields a) = None \<or> active_line (as_line a) r = None \<or> plant_of_line (the (active_line (as_line a) r)) r = None")
      case True
      with assms rd Some show ?thesis by (auto simp: update_asset_def Let_def split: option.splits)
    next
      case False
      then obtain given l p where g: "apply_update upd (as_fields a) = Some given" "active_line (as_line a) r = Some l" "plant_of_line l r = Some p" by auto
      let ?a = "a\<lparr>as_fields := given\<rparr>"
      let ?new = "(replace_asset ?a r)\<lparr>rg_audits := rg_audits r @ [(i, ''update'')]\<rparr>"
      obtain okd d1 where u: "update_thing ?a l p d = (okd, d1)" by force
      obtain r' d' where rd': "rd' = (r', d')" by force
      from assms(2) g Some rd rd' have fin: "finish ok r ?new (okd, d1) = (res, r', d')"
        by (simp add: update_asset_def Let_def u)
      have i1: "registry_inv (r, d1)"
      proof (rule request_change)
        show "request (change_thing (as_thing a) (\<lambda>t. t\<lparr>th_attributes := attributes ?a l p, th_status := af_status (as_fields ?a)\<rparr>)) d = (okd, d1)"
          using u by (simp add: update_thing_def)
      qed (use assms(1) rd a in \<open>auto simp: attributes_def Let_def\<close>)
      then have "registry_inv (?new, d1)" using a by (intro registry_inv_replace [OF i1, of a ?a]) auto
      with i1 show ?thesis unfolding rd' by (intro registry_inv_finish [OF fin]) simp_all
    qed
  qed
qed

lemma retire_asset_inv:
  assumes "registry_inv rd" and "retire_asset ok i rd = (res, rd')"
  shows "registry_inv rd'"
proof -
  obtain r d where rd: "rd = (r, d)" by force
  show ?thesis
  proof (cases "get_asset i r")
    case None
    with assms rd show ?thesis by (simp add: retire_asset_def)
  next
    case (Some a)
    note a = get_asset_in [OF Some]
    let ?new = "(replace_asset (a\<lparr>as_gone := True\<rparr>) r)\<lparr>rg_audits := rg_audits r @ [(i, ''delete'')]\<rparr>"
    let ?f = "\<lambda>t. t\<lparr>th_policy := RETIRED_POLICY_ID\<rparr>"
    obtain okd d1 where u: "retire_thing a d = (okd, d1)" by force
    obtain r' d' where rd': "rd' = (r', d')" by force
    from assms(2) Some rd rd' have fin: "finish ok r ?new (okd, d1) = (res, r', d')" by (simp add: retire_asset_def u)
    have inv: "registry_inv (r, d)" using assms(1) rd by simp
    have things: "dt_things d1 = (if okd then dt_things (change_thing (as_thing a) ?f d) else dt_things d)"
      using then_request_things [OF u [unfolded retire_thing_def]] change_thing_cong [OF ensure_policies_things] by simp
    have i1: "registry_inv (r, d1)"
    proof (cases okd)
      case True
      then show ?thesis using a things by (intro twin_ok_change [OF inv, of a ?f]) auto
    next
      case False
      with things inv show ?thesis by (simp add: registry_inv_def)
    qed
    have "registry_inv (?new, d1)" if okd
      using a things that by (intro registry_inv_replace [OF i1, of a "a\<lparr>as_gone := True\<rparr>"]) (auto simp: change_thing_things)
    with i1 show ?thesis unfolding rd' by (intro registry_inv_finish [OF fin]) simp_all
  qed
qed

lemma add_component_inv:
  assumes "registry_inv rd" and "create_component ok i spec rd = (res, rd')"
  shows "registry_inv rd'"
proof -
  obtain r d where rd: "rd = (r, d)" by force
  have inv: "registry_inv (r, d)" using assms(1) rd by simp
  show ?thesis
  proof (cases "get_asset i r = None \<or> (\<exists>c \<in> set (rg_components r). cr_asset c = i \<and> co_code (cr_spec c) = co_code spec \<and> \<not> cr_gone c)")
    case True
    with assms rd show ?thesis by (auto simp: create_component_def split: option.splits)
  next
    case False
    then obtain a where g: "get_asset i r = Some a" by auto
    note a = get_asset_in [OF g]
    let ?c = "\<lparr>cr_id = rg_next r, cr_asset = i, cr_spec = spec, cr_gone = False\<rparr>"
    let ?new = "r\<lparr>rg_components := rg_components r @ [?c], rg_audits := rg_audits r @ [(rg_next r, ''create'')], rg_next := Suc (rg_next r)\<rparr>"
    let ?f = "\<lambda>t. t\<lparr>th_components := dict_put (co_code spec) None (th_components t)\<rparr>"
    obtain okd d1 where u: "add_component a (co_code spec) d = (okd, d1)" by force
    obtain r' d' where rd': "rd' = (r', d')" by force
    have rq: "request (change_thing (as_thing a) ?f) d = (okd, d1)" using u by (simp add: add_component_def)
    have single: "\<not> (\<exists>c \<in> set (rg_components r). cr_asset c = i \<and> co_code (cr_spec c) = co_code spec \<and> \<not> cr_gone c)"
      using False by blast
    from assms(2) have fin: "finish ok r ?new (okd, d1) = (res, r', d')"
      by (simp only: create_component_def rd rd' prod.case g option.case if_not_P [OF single] u)
    have i1: "registry_inv (r, d1)"
      by (rule request_change [OF inv _ rq refl]) (use a in \<open>auto simp: dict_put_key_set dest: dict_put_members\<close>)
    have "registry_inv (?new, d1)" if okd
    proof -
      have old: "twin_ok r (dt_things d1) b" if "b \<in> set (rg_assets r)" for b using that i1 by (simp add: registry_inv_def)
      have d1: "dt_things d1 = dt_things (change_thing (as_thing a) ?f d)" using request_cases [OF rq] \<open>okd\<close> by simp
      have "twin_ok ?new (dt_things d1) b" if b: "b \<in> set (rg_assets r)" for b
      proof (cases "as_id b = i")
        case True
        then have ba: "b = a" using a b inv by (auto simp: registry_inv_def ids_ok_def distinct_map inj_on_def)
        have "twin_ok r (dt_things d) a" using inv a by (simp add: registry_inv_def)
        then obtain t where "dt_things d (as_thing a) = Some t" by (auto simp: twin_ok_def split: option.splits)
        then have t: "dt_things d1 (as_thing a) = Some (?f t)" by (simp add: d1 change_thing_things)
        from old [OF b] show ?thesis unfolding ba twin_ok_def t option.case by (auto simp: dict_put_key_set)
      next
        case False
        with old [OF b] show ?thesis by (auto simp: twin_ok_def split: option.splits)
      qed
      then show ?thesis using i1 a by (fastforce simp: registry_inv_def ids_ok_def less_Suc_eq)
    qed
    with i1 show ?thesis unfolding rd' by (intro registry_inv_finish [OF fin]) simp_all
  qed
qed

lemma create_asset_inv:
  assumes "registry_inv rd" and "create_asset ok line code type given cs ss rd = (res, rd')"
  shows "registry_inv rd'"
proof -
  obtain r d where rd: "rd = (r, d)" by force
  obtain r' d' where rd': "rd' = (r', d')" by force
  have inv: "registry_inv (r, d)" using assms(1) rd by simp
  let ?crs = "component_rows (rg_next r) (Suc (rg_next r)) cs"
  show ?thesis
  proof (cases "rd' = (r, d)")
    case True
    with inv show ?thesis by simp
  next
    case False
    then obtain l p srs where l: "active_line line r = Some l" "plant_of_line l r = Some p"
        and free: "get_by_code code r = None" "\<not> code_retired code r" "distinct (map co_code cs)" "distinct (map se_metric ss)"
        and srs: "sensor_rows (rg_next r) (Suc (rg_next r) + length cs) (component_ids ?crs) ss = Some srs"
      using assms(2) rd by (auto simp: create_asset_def Let_def split: option.splits if_splits)
    let ?a = "\<lparr>as_id = rg_next r, as_line = line, as_code = code, as_type = type, as_fields = given\<lparr>af_status := ''RUNNING''\<rparr>,
      as_thing = thing_id code, as_aas = shell_id code, as_gone = False\<rparr>"
    let ?new = "r\<lparr>rg_assets := rg_assets r @ [?a], rg_components := rg_components r @ ?crs, rg_sensors := rg_sensors r @ srs,
      rg_audits := rg_audits r @ [(rg_next r, ''create'')], rg_next := Suc (rg_next r) + length cs + length ss\<rparr>"
    let ?t = "\<lparr>th_policy = ACTIVE_POLICY_ID, th_attributes = attributes ?a l p, th_status = ''RUNNING'',
      th_components = dict_of (map (\<lambda>c. (c, None)) (map co_code cs))\<rparr>"
    obtain okd d1 where u: "create_thing ?a l p (map co_code cs) d = (okd, d1)" by force
    from assms(2) l free srs rd rd' have fin: "finish ok r ?new (okd, d1) = (res, r', d')"
      by (simp add: create_asset_def Let_def u)
    have things: "dt_things d1 = (if okd then (dt_things d)(thing_id code \<mapsto> ?t) else dt_things d)"
      using then_request_things [OF u [unfolded create_thing_def]] by (simp add: o_def)
    have fresh: "as_code b \<noteq> code" if "b \<in> set (rg_assets r)" for b
      using that free by (auto simp: get_by_code_def code_retired_def find_None_iff)
    have comps: "dict_of (map (\<lambda>c. (c, None :: real option)) (map co_code cs)) = map (\<lambda>c. (c, None)) (map co_code cs)"
      using free(3) by (intro dict_of_distinct) (simp add: dict_ok_def comp_def)
    have old: "twin_ok r (dt_things d1) b" if b: "b \<in> set (rg_assets r)" for b
    proof -
      have o: "twin_ok r (dt_things d) b" using inv b by (simp add: registry_inv_def)
      then have "as_thing b \<noteq> thing_id code" using fresh [OF b] by (simp add: twin_ok_def)
      then have "dt_things d1 (as_thing b) = dt_things d (as_thing b)" by (simp add: things)
      then show ?thesis using o twin_ok_cong [OF refl, of "dt_things d1" b "dt_things d" r] by simp
    qed
    have silent: "no_health (dt_things d1)"
      unfolding no_health_def
    proof (intro allI impI)
      fix i t c h
      assume t: "dt_things d1 i = Some t" "(c, h) \<in> set (th_components t)"
      show "h = None"
      proof (cases "okd \<and> i = thing_id code")
        case True
        with t(1) have "t = ?t" by (simp add: things)
        then have "th_components t = map (\<lambda>c. (c, None)) (map co_code cs)" by (simp only: comps thing.simps)
        with t(2) show ?thesis by auto
      next
        case False
        with t(1) have "dt_things d i = Some t" by (auto simp: things split: if_splits)
        with t(2) inv show ?thesis unfolding registry_inv_def no_health_def by blast
      qed
    qed
    have i1: "registry_inv (r, d1)" using inv old silent by (simp add: registry_inv_def)
    have "registry_inv (?new, d1)" if okd
    proof -
      have crs: "cr_asset c = rg_next r \<and> co_code (cr_spec c) \<in> set (map co_code cs)" if "c \<in> set ?crs" for c
        using that by (auto simp: component_rows_def in_set_enumerate_eq)
      have known: "cr_asset c < rg_next r" if "c \<in> set (rg_components r)" for c
        using inv that by (simp add: registry_inv_def ids_ok_def)
      have known_a: "as_id b < rg_next r" if "b \<in> set (rg_assets r)" for b
        using inv that by (simp add: registry_inv_def ids_ok_def)
      have olds: "twin_ok ?new (dt_things d1) b" if b: "b \<in> set (rg_assets r)" for b
      proof -
        have "\<forall>c \<in> set ?crs. cr_asset c \<noteq> as_id b" using crs known_a [OF b] by fastforce
        with old [OF b] show ?thesis by (auto simp: twin_ok_def split: option.splits)
      qed
      have "dt_things d1 (as_thing ?a) = Some ?t" using \<open>okd\<close> by (simp only: things asset_row.simps if_True fun_upd_same)
      moreover have "fst ` set (th_components ?t) = set (map co_code cs)" by (simp only: thing.simps comps) force
      moreover have "co_code (cr_spec c) \<in> set (map co_code cs)" if "c \<in> set (rg_components ?new)" "cr_asset c = rg_next r" for c
        using that crs [of c] known [of c] by auto
      moreover have "ta_code (th_attributes ?t) = code" by (simp add: attributes_def Let_def)
      ultimately have new: "twin_ok ?new (dt_things d1) ?a"
        unfolding twin_ok_def by (simp only: option.case asset_row.simps simp_thms) blast
      have "rg_next r \<notin> as_id ` set (rg_assets r)" "code \<notin> as_code ` set (rg_assets r)"
        using known_a fresh by (metis image_iff less_irrefl)+
      then have "distinct (map as_id (rg_assets ?new))" "distinct (map as_code (rg_assets ?new))"
        using inv by (simp_all add: registry_inv_def ids_ok_def)
      moreover have "cr_asset c < rg_next ?new" if "c \<in> set (rg_components ?new)" for c
        using that crs [of c] known [of c] by auto
      moreover have "as_id b < rg_next ?new" if "b \<in> set (rg_assets ?new)" for b
        using that known_a [of b] by auto
      ultimately show ?thesis using olds new silent by (simp add: registry_inv_def ids_ok_def)
    qed
    with i1 show ?thesis unfolding rd' by (intro registry_inv_finish [OF fin]) simp_all
  qed
qed

lemma create_plant_inv: "registry_inv (r, d) \<Longrightarrow> create_plant c n z f u r = Inr r' \<Longrightarrow> registry_inv (r', d)"
  by (auto simp: create_plant_def registry_inv_def ids_ok_def twin_ok_def less_Suc_eq split: if_splits option.splits)

lemma create_line_inv: "registry_inv (r, d) \<Longrightarrow> create_line p c n q r = Inr r' \<Longrightarrow> registry_inv (r', d)"
  by (auto simp: create_line_def registry_inv_def ids_ok_def twin_ok_def less_Suc_eq split: if_splits option.splits)

lemma clone_asset_inv: "registry_inv rd \<Longrightarrow> clone_asset ok i code name rd = (res, rd') \<Longrightarrow> registry_inv rd'"
  by (auto simp: clone_asset_def Let_def split: option.splits intro: create_asset_inv)

section \<open>Histories\<close>

definition empty_registry :: registry where
  "empty_registry = \<lparr>rg_plants = [], rg_lines = [], rg_assets = [], rg_components = [], rg_sensors = [], rg_audits = [], rg_next = 0\<rparr>"

definition empty_ditto :: "bool list \<Rightarrow> ditto" where
  "empty_ditto answers = \<lparr>dt_things = (\<lambda>_. None), dt_answers = answers, dt_ready = False\<rparr>"

text \<open>A new process forgets that it has put the policies, and Ditto may answer anything.\<close>

inductive twin_step :: "registry \<times> ditto \<Rightarrow> registry \<times> ditto \<Rightarrow> bool" where
  plant_added: "create_plant c n z f u r = Inr r' \<Longrightarrow> twin_step (r, d) (r', d)"
| line_added: "create_line p c n q r = Inr r' \<Longrightarrow> twin_step (r, d) (r', d)"
| asset_created: "create_asset ok line code type given cs ss rd = (res, rd') \<Longrightarrow> twin_step rd rd'"
| asset_updated: "update_asset ok u i rd = (res, rd') \<Longrightarrow> twin_step rd rd'"
| asset_retired: "retire_asset ok i rd = (res, rd') \<Longrightarrow> twin_step rd rd'"
| asset_cloned: "clone_asset ok i code name rd = (res, rd') \<Longrightarrow> twin_step rd rd'"
| component_created: "create_component ok i spec rd = (res, rd') \<Longrightarrow> twin_step rd rd'"
| store_changes: "twin_step (r, d) (r, d\<lparr>dt_answers := answers, dt_ready := ready\<rparr>)"

inductive twin_reached :: "registry \<times> ditto \<Rightarrow> bool" where
  twin_start: "twin_reached (empty_registry, empty_ditto answers)"
| twin_more: "twin_reached rd \<Longrightarrow> twin_step rd rd' \<Longrightarrow> twin_reached rd'"

lemma twin_step_inv: "twin_step rd rd' \<Longrightarrow> registry_inv rd \<Longrightarrow> registry_inv rd'"
proof (induction rule: twin_step.induct)
  case (store_changes r d answers ready)
  then show ?case by (simp add: registry_inv_def)
qed (blast intro: create_plant_inv create_line_inv create_asset_inv update_asset_inv retire_asset_inv clone_asset_inv
  add_component_inv)+

lemma twin_reached_inv: "twin_reached rd \<Longrightarrow> registry_inv rd"
proof (induction rule: twin_reached.induct)
  case (twin_start answers)
  show ?case by (simp add: registry_inv_def ids_ok_def no_health_def empty_registry_def empty_ditto_def)
next
  case (twin_more rd rd')
  then show ?case by (blast intro: twin_step_inv)
qed

section \<open>Health is never known\<close>

text \<open>No operation writes a component's health into its twin, so the roll-up has nothing to roll up.\<close>

lemma no_health_state: "no_health things \<Longrightarrow> component_state (things i) code = None"
  by (auto simp: component_state_def no_health_def split: option.splits dest: map_of_SomeD)

lemma machine_health_unknown: "(\<And>h w. (h, w) \<in> set cs \<Longrightarrow> h = None) \<Longrightarrow> machine_health cs = None"
  unfolding machine_health_def Let_def by (auto split: option.splits)

lemma mean_health_unknown: "(\<And>v. v \<in> set vs \<Longrightarrow> v = None) \<Longrightarrow> mean_health vs = None"
  unfolding mean_health_def Let_def by (auto split: option.splits)

lemma health_never_known:
  assumes "twin_reached (r, d)"
  shows "asset_health r (dt_things d) a = None" "line_health r (dt_things d) l = None" "plant_health r (dt_things d) p = None"
proof -
  have silent: "no_health (dt_things d)" using twin_reached_inv [OF assms] by (simp add: registry_inv_def)
  show asset: "asset_health r (dt_things d) a = None" for a
    unfolding asset_health_def by (rule machine_health_unknown) (auto simp: no_health_state [OF silent])
  show line: "line_health r (dt_things d) l = None" for l
    unfolding line_health_def by (rule mean_health_unknown) (auto simp: asset)
  show "plant_health r (dt_things d) p = None"
    unfolding plant_health_def by (rule mean_health_unknown) (auto simp: line)
qed

section \<open>The twins follow the registry\<close>

text \<open>
  Property C14. Whatever requests Ditto refuses and whatever commits fail, every asset ever registered has a
  twin under the id of its code, which names that asset, holds every component registered for it, and is
  under the read-only policy once the asset is retired; and no two assets, retired ones included, have
  the same code.
\<close>

theorem twins_follow_registry:
  assumes "twin_reached (r, d)" and "a \<in> set (rg_assets r)"
  shows "\<exists>t. dt_things d (thing_id (as_code a)) = Some t \<and> as_thing a = thing_id (as_code a)
    \<and> ta_code (th_attributes t) = as_code a \<and> (as_gone a \<longrightarrow> th_policy t = RETIRED_POLICY_ID)
    \<and> {co_code (cr_spec c) | c. c \<in> set (rg_components r) \<and> cr_asset c = as_id a} \<subseteq> fst ` set (th_components t)
    \<and> {b \<in> set (rg_assets r). as_code b = as_code a} = {a}"
proof -
  have inv: "registry_inv (r, d)" using twin_reached_inv [OF assms(1)] .
  then have ok: "twin_ok r (dt_things d) a" using assms(2) by (simp add: registry_inv_def)
  then obtain t where t: "dt_things d (as_thing a) = Some t" by (auto simp: twin_ok_def split: option.splits)
  from ok have o: "as_thing a = thing_id (as_code a)" "ta_code (th_attributes t) = as_code a"
      "as_gone a \<longrightarrow> th_policy t = RETIRED_POLICY_ID"
      "\<forall>c \<in> set (rg_components r). cr_asset c = as_id a \<longrightarrow> co_code (cr_spec c) \<in> fst ` set (th_components t)"
    unfolding twin_ok_def t option.case by blast+
  have "{b \<in> set (rg_assets r). as_code b = as_code a} = {a}"
    using inv assms(2) by (auto simp: registry_inv_def distinct_map inj_on_def)
  moreover have "dt_things d (thing_id (as_code a)) = Some t" using t o(1) by simp
  moreover have "{co_code (cr_spec c) | c. c \<in> set (rg_components r) \<and> cr_asset c = as_id a} \<subseteq> fst ` set (th_components t)"
    using o(4) by blast
  ultimately show ?thesis using o(1-3) by blast
qed

definition demo_fields :: asset_fields where
  "demo_fields = \<lparr>af_name = ''Mill'', af_manufacturer = None, af_model = None, af_serial = None, af_install = None,
     af_fidelity = 2, af_cycle = None, af_power = None, af_model3d = None, af_position = None, af_status = ''RUNNING'',
     af_attributes = ''{}''\<rparr>"

definition demo_component :: component_spec where
  "demo_component = \<lparr>co_code = ''spindle'', co_name = ''Spindle'', co_type = ''spindle'', co_weight = 1, co_physics = None,
     co_params = []\<rparr>"

definition demo_line :: registry where
  "demo_line = empty_registry\<lparr>
     rg_plants := [\<lparr>pl_id = 0, pl_code = ''p'', pl_name = ''P'', pl_timezone = ''UTC'', pl_factor = 0, pl_currency = ''INR'', pl_gone = False\<rparr>],
     rg_lines := [\<lparr>li_id = Suc 0, li_plant = 0, li_code = ''l'', li_name = ''L'', li_sequence = 0, li_gone = False\<rparr>],
     rg_audits := [(0, ''create''), (Suc 0, ''create'')], rg_next := Suc (Suc 0)\<rparr>"

definition demo_mill :: "registry \<times> ditto" where
  "demo_mill = snd (create_asset True (Suc 0) ''cnc-01'' ''cnc_mill'' demo_fields [demo_component] []
     (demo_line, empty_ditto (replicate 5 True)))"

definition demo_retired :: "registry \<times> ditto" where
  "demo_retired = snd (retire_asset True 2 demo_mill)"

lemma demo_retired_reached: "twin_reached demo_retired"
proof -
  let ?d = "empty_ditto (replicate 5 True)"
  obtain r1 where r1: "create_plant ''p'' ''P'' ''UTC'' 0 ''INR'' empty_registry = Inr r1" "rg_plants r1 = rg_plants demo_line"
      "rg_next r1 = Suc 0" "r1 = empty_registry\<lparr>rg_plants := rg_plants demo_line, rg_audits := [(0, ''create'')], rg_next := Suc 0\<rparr>"
    by (simp add: create_plant_def empty_registry_def demo_line_def)
  have "twin_reached (r1, ?d)" using twin_more [OF twin_start plant_added [OF r1(1)]] .
  moreover have "create_line 0 ''l'' ''L'' 0 r1 = Inr demo_line"
    by (simp add: create_line_def r1(4) demo_line_def empty_registry_def)
  ultimately have "twin_reached (demo_line, ?d)" using twin_more line_added by blast
  moreover have "twin_step (demo_line, ?d) demo_mill"
    unfolding demo_mill_def by (rule asset_created [OF prod.collapse [symmetric]])
  moreover have "twin_step demo_mill demo_retired"
    unfolding demo_retired_def by (rule asset_retired [OF prod.collapse [symmetric]])
  ultimately show ?thesis using twin_more by blast
qed

lemma twins_follow_registry_witness:
  "let (r, d) = demo_retired; a = hd (rg_assets r)
   in as_gone a \<and> map_option th_policy (dt_things d ''twinvoice:cnc-01'') = Some RETIRED_POLICY_ID
     \<and> get_by_code ''cnc-01'' r = None \<and> (\<exists>t. dt_things d (thing_id (as_code a)) = Some t)"
proof -
  obtain r d where rd: "demo_retired = (r, d)" by force
  have ev: "fst demo_retired = r" "snd demo_retired = d" by (simp_all add: rd)
  have "rg_assets r = [hd (rg_assets r)] \<and> as_gone (hd (rg_assets r))
      \<and> map_option th_policy (dt_things d ''twinvoice:cnc-01'') = Some RETIRED_POLICY_ID"
    unfolding ev [symmetric] demo_retired_def demo_mill_def demo_line_def empty_registry_def empty_ditto_def demo_component_def
    by (simp add: numeral_2_eq_2 create_asset_def active_line_def plant_of_line_def get_by_code_def code_retired_def component_rows_def
      component_ids_def sensor_rows_def create_thing_def ensure_policies_def then_request_def request_def put_thing_def
      finish_def retire_asset_def get_asset_def retire_thing_def change_thing_def replace_asset_def thing_id_def
      eval_nat_numeral enumerate_eq_zip Let_def)
  then have e: "rg_assets r = [hd (rg_assets r)]" "as_gone (hd (rg_assets r))"
      "map_option th_policy (dt_things d ''twinvoice:cnc-01'') = Some RETIRED_POLICY_ID" by blast+
  have "hd (rg_assets r) \<in> set (rg_assets r)" by (subst e(1)) simp
  then have "\<exists>t. dt_things d (thing_id (as_code (hd (rg_assets r)))) = Some t"
    using twins_follow_registry [OF demo_retired_reached [unfolded rd]] by blast
  moreover have "get_by_code ''cnc-01'' r = None" using e(2) by (subst get_by_code_def, subst e(1)) simp
  ultimately show ?thesis using e(2,3) by (simp add: rd Let_def)
qed

end
