(* ===== verification/Twin_Whatif.thy ===== *)
theory Twin_Whatif
  imports Twin_Registry Sim_Process Ingest_Consumer
begin

text \<open>
  What-if questions, \<open>apps/api/app/modules/twin/{whatif,whatif_service}.py\<close>: the clone of a machine's
  components, the Monte-Carlo projection and its summary. The generator is a parameter: \<open>wald\<close> with the
  state it leaves, and \<open>default_rng\<close>. Of \<open>physics_params\<close>, numbers, nulls and other texts are told apart;
  a text Python reads as a number is outside the model. Exponents are not negative. The narrative is not modelled.
\<close>

section \<open>Clones\<close>

definition DEFAULT_TRIALS :: nat where "DEFAULT_TRIALS = 500"

definition MIN_REMAINING :: real where "MIN_REMAINING = 1 / 10000"

definition DEFAULT_CV :: real where "DEFAULT_CV = 15 / 100"

record wconditions =
  wc_load :: real
  wc_speed :: real
  wc_ambient :: "real option"

record whatif_state =
  ws_code :: string
  ws_name :: string
  ws_model :: string
  ws_damage :: real
  ws_life :: real
  ws_cv :: real
  ws_load_exp :: real
  ws_speed_exp :: real
  ws_ea :: "real option"
  ws_t_ref :: "real option"

definition exact :: "whatif_state \<Rightarrow> bool" where
  "exact s \<longleftrightarrow> ws_model s = ''wiener''"

definition acceleration :: "whatif_state \<Rightarrow> wconditions \<Rightarrow> real" where
  "acceleration s cond =
     (let factor = py_pow (max (wc_load cond) 0) (ws_load_exp s) * py_pow (max (wc_speed cond) 0) (ws_speed_exp s)
      in case (ws_ea s, ws_t_ref s, wc_ambient cond) of
           (Some ea, Some t_ref, Some ambient) \<Rightarrow>
             (let t_k = max (ambient + KELVIN) 1; inv_diff = 1 / (t_ref + KELVIN) - 1 / t_k
              in factor * exp (min (ea / BOLTZMANN_EV_PER_K * inv_diff) 50))
         | _ \<Rightarrow> factor)"

fun truthy :: "param_value option \<Rightarrow> bool" where
  "truthy (Some (Number_Param x)) = (x \<noteq> 0)"
| "truthy (Some (Text_Param t)) = (t \<noteq> [])"
| "truthy _ = False"

text \<open>\<open>float(params.get(k) or default)\<close>: a text that is not a number raises.\<close>

fun number_of :: "param_value option \<Rightarrow> real option" where
  "number_of (Some (Number_Param x)) = Some x"
| "number_of _ = None"

definition number_or :: "real \<Rightarrow> param_value option \<Rightarrow> real option" where
  "number_or d v = (if truthy v then number_of v else Some d)"

definition clone_component :: "Twin_Registry.component_spec \<Rightarrow> real \<Rightarrow> whatif_state option" where
  "clone_component c damage =
     (let p = map_of (co_params c)
      in case (number_or 0 (p ''life_h''), number_or DEFAULT_CV (p ''cv''), number_or 1 (p ''load_exp''), number_or 0 (p ''speed_exp'')) of
           (Some life, Some cv, Some le, Some se) \<Rightarrow>
             Some \<lparr>ws_code = co_code c, ws_name = co_name c,
               ws_model = (case co_physics c of None \<Rightarrow> ''wiener'' | Some m \<Rightarrow> if m = [] then ''wiener'' else m),
               ws_damage = min (max damage 0) 1, ws_life = life, ws_cv = cv, ws_load_exp = le, ws_speed_exp = se,
               ws_ea = number_of (p ''ea_ev''), ws_t_ref = number_of (p ''t_ref_c'')\<rparr>
         | _ \<Rightarrow> None)"

section \<open>Trajectories\<close>

record 'g wald_rng =
  w_seed :: "nat \<Rightarrow> 'g"
  w_wald :: "real \<Rightarrow> real \<Rightarrow> nat \<Rightarrow> 'g \<Rightarrow> real list \<times> 'g"

definition time_to_failure_h :: "'g wald_rng \<Rightarrow> whatif_state \<Rightarrow> wconditions \<Rightarrow> nat \<Rightarrow> 'g \<Rightarrow> real list \<times> 'g" where
  "time_to_failure_h W s cond trials g =
     (let remaining = 1 - ws_damage s
      in if ws_life s \<le> 0 \<or> remaining \<le> MIN_REMAINING then (replicate trials 0, g)
         else
           (let life_s = ws_life s * HOUR_S;
                mean_ref_s = remaining * life_s;
                shape_ref_s = remaining\<^sup>2 * life_s / (max (ws_cv s) (1 / 10 ^ 6))\<^sup>2;
                (reference_s, g') = w_wald W mean_ref_s shape_ref_s trials g;
                a = acceleration s cond
            in if a \<le> 0 then (replicate trials (mean_ref_s / HOUR_S * 1000), g')
               else (map (\<lambda>t. t / a / HOUR_S) reference_s, g')))"

fun draw_all :: "'g wald_rng \<Rightarrow> whatif_state list \<Rightarrow> wconditions \<Rightarrow> nat \<Rightarrow> 'g \<Rightarrow> real list list" where
  "draw_all W [] cond trials g = []"
| "draw_all W (s # ss) cond trials g =
     (let (row, g') = time_to_failure_h W s cond trials g in row # draw_all W ss cond trials g')"

text \<open>\<open>numpy.percentile\<close>: linear interpolation between the order statistics.\<close>

definition percentile :: "real list \<Rightarrow> real \<Rightarrow> real" where
  "percentile xs q =
     (let s = sort xs; h = q / 100 * real (length xs - 1); k = nat \<lfloor>h\<rfloor>
      in s ! k + (s ! min (Suc k) (length xs - 1) - s ! k) * (h - real k))"

definition min_row :: "real list list \<Rightarrow> nat \<Rightarrow> real" where
  "min_row rows j = Min (set (map (\<lambda>r. r ! j) rows))"

definition argmin_row :: "real list list \<Rightarrow> nat \<Rightarrow> nat" where
  "argmin_row rows j = hd (filter (\<lambda>i. rows ! i ! j = min_row rows j) [0..<length rows])"

definition bincount :: "nat \<Rightarrow> nat list \<Rightarrow> nat list" where
  "bincount n is = map (\<lambda>i. length (filter ((=) i) is)) [0..<n]"

record projection =
  pj_trials :: nat
  pj_percentiles :: "(real \<times> real \<times> real) option"
  pj_mean :: "real option"
  pj_first :: "(string \<times> real) list"
  pj_samples :: "real list"

definition project :: "'g wald_rng \<Rightarrow> whatif_state list \<Rightarrow> wconditions \<Rightarrow> nat \<Rightarrow> 'g \<Rightarrow> projection" where
  "project W ss cond trials g =
     (if ss = [] then \<lparr>pj_trials = 0, pj_percentiles = None, pj_mean = None, pj_first = [], pj_samples = []\<rparr>
      else
        (let rows = draw_all W ss cond trials g;
             life = map (min_row rows) [0..<trials];
             counts = bincount (length ss) (map (argmin_row rows) [0..<trials]);
             order = filter (\<lambda>i. counts ! i \<noteq> 0) (sort_key (\<lambda>i. - int (counts ! i)) [0..<length ss])
         in \<lparr>pj_trials = trials,
             pj_percentiles = Some (round_dec 2 (percentile life 10), round_dec 2 (percentile life 50), round_dec 2 (percentile life 90)),
             pj_mean = Some (round_dec 2 (sum_list life / real (length life))),
             pj_first = dict_of (map (\<lambda>i. (ws_code (ss ! i), round_dec 4 (real (counts ! i) / real trials))) order),
             pj_samples = life\<rparr>))"

definition risk_within :: "real list \<Rightarrow> real \<Rightarrow> real" where
  "risk_within samples horizon =
     (if samples = [] \<or> horizon \<le> 0 then 0
      else round_dec 4 (real (length (filter (\<lambda>x. x \<le> horizon) samples)) / real (length samples)))"

record energy_change =
  ec_baseline :: "real option"
  ec_hypothetical :: "real option"
  ec_delta :: "real option"
  ec_cost :: "real option"

definition energy_impact :: "real option \<Rightarrow> wconditions \<Rightarrow> wconditions \<Rightarrow> real \<Rightarrow> real option \<Rightarrow> energy_change" where
  "energy_impact rated baseline hypothetical horizon rate =
     (case rated of
        Some rated_kw \<Rightarrow>
          if rated_kw = 0 \<or> horizon \<le> 0 then \<lparr>ec_baseline = None, ec_hypothetical = None, ec_delta = None, ec_cost = None\<rparr>
          else
            (let base = rated_kw * max (wc_load baseline) 0 * horizon;
                 hyp = rated_kw * max (wc_load hypothetical) 0 * horizon;
                 delta = hyp - base
             in \<lparr>ec_baseline = Some (round_dec 2 base), ec_hypothetical = Some (round_dec 2 hyp), ec_delta = Some (round_dec 2 delta),
                 ec_cost = (case rate of Some x \<Rightarrow> if x = 0 then None else Some (round_dec 2 (delta * x)) | None \<Rightarrow> None)\<rparr>)
      | None \<Rightarrow> \<lparr>ec_baseline = None, ec_hypothetical = None, ec_delta = None, ec_cost = None\<rparr>)"

section \<open>Service\<close>

definition SEED :: nat where "SEED = 42"

record whatif_request =
  wq_load :: "real option"
  wq_speed :: "real option"
  wq_ambient :: "real option"
  wq_maintenance :: "real option"
  wq_horizon :: real
  wq_trials :: nat

record live_asset =
  lv_code :: string
  lv_load :: "real option"
  lv_speed :: "real option"
  lv_damage :: "(string \<times> real) list"

record distribution =
  ds_trials :: nat
  ds_mean :: "real option"
  ds_percentiles :: "(real \<times> real \<times> real) option"
  ds_risk :: real
  ds_first :: "(string \<times> real) list"

record whatif_result =
  wr_code :: string
  wr_name :: string
  wr_horizon :: real
  wr_baseline_conditions :: wconditions
  wr_hypothetical_conditions :: wconditions
  wr_baseline :: distribution
  wr_hypothetical :: distribution
  wr_delta :: "real option"
  wr_energy :: energy_change
  wr_currency :: "string option"
  wr_modelled :: nat
  wr_exact :: nat

datatype whatif_error = Simulator_Unavailable | No_State | No_Model | Bad_Parameter

definition live_state :: "live_asset list option \<Rightarrow> string \<Rightarrow> whatif_error + live_asset" where
  "live_state status code =
     (case status of
        None \<Rightarrow> Inl Simulator_Unavailable
      | Some items \<Rightarrow> (case List.find (\<lambda>i. lv_code i = code) items of None \<Rightarrow> Inl No_State | Some i \<Rightarrow> Inr i))"

definition clone_all :: "component_row list \<Rightarrow> (string \<times> real) list \<Rightarrow> whatif_state list option" where
  "clone_all rows damage =
     those (map (\<lambda>c. clone_component (cr_spec c) (case map_of damage (co_code (cr_spec c)) of None \<Rightarrow> 0 | Some d \<Rightarrow> d))
       (filter (\<lambda>c. truthy (map_of (co_params (cr_spec c)) ''life_h'')) rows))"

definition hypothetical :: "wconditions \<Rightarrow> whatif_request \<Rightarrow> wconditions" where
  "hypothetical baseline q =
     \<lparr>wc_load = (case wq_load q of Some l \<Rightarrow> l / 100 | None \<Rightarrow> wc_load baseline),
      wc_speed = (case wq_speed q of Some s \<Rightarrow> s / 100 | None \<Rightarrow> wc_speed baseline),
      wc_ambient = (case wq_ambient q of Some a \<Rightarrow> Some a | None \<Rightarrow> wc_ambient baseline)\<rparr>"

definition after_maintenance :: "whatif_state list \<Rightarrow> whatif_request \<Rightarrow> whatif_state list" where
  "after_maintenance ss q = (case wq_maintenance q of None \<Rightarrow> ss | Some _ \<Rightarrow> map (\<lambda>s. s\<lparr>ws_damage := 0\<rparr>) ss)"

text \<open>\<open>_tariff\<close>: the tariff windows are local times, the clock they are asked for is UTC.\<close>

definition whatif_tariff :: "asset_row \<Rightarrow> registry \<Rightarrow> (nat \<Rightarrow> tariff list) \<Rightarrow> nat \<times> int \<Rightarrow> real option \<times> string option" where
  "whatif_tariff a r tariffs utc =
     (case active_line (as_line a) r of
        None \<Rightarrow> (None, None)
      | Some l \<Rightarrow>
          (case List.find (\<lambda>p. pl_id p = li_plant l \<and> \<not> pl_gone p) (rg_plants r) of
             None \<Rightarrow> (None, None)
           | Some p \<Rightarrow>
               (let rate = (if tariffs (pl_id p) = [] then 0 else rate_at (tariffs (pl_id p)) utc)
                in (if rate = 0 then None else Some rate, Some (pl_currency p)))))"

definition distribution_of :: "projection \<Rightarrow> real \<Rightarrow> distribution" where
  "distribution_of p horizon =
     \<lparr>ds_trials = pj_trials p, ds_mean = pj_mean p, ds_percentiles = pj_percentiles p,
      ds_risk = risk_within (pj_samples p) horizon, ds_first = pj_first p\<rparr>"

definition median_of :: "distribution \<Rightarrow> real option" where
  "median_of d = map_option (\<lambda>(p10, p50, p90). p50) (ds_percentiles d)"

definition conditions_out :: "wconditions \<Rightarrow> wconditions" where
  "conditions_out c = \<lparr>wc_load = round_dec 1 (wc_load c * 100), wc_speed = round_dec 1 (wc_speed c * 100), wc_ambient = wc_ambient c\<rparr>"

definition run_whatif ::
    "'g wald_rng \<Rightarrow> live_asset list option \<Rightarrow> (nat \<Rightarrow> tariff list) \<Rightarrow> nat \<times> int \<Rightarrow> registry \<Rightarrow> asset_row \<Rightarrow> whatif_request
       \<Rightarrow> whatif_error + whatif_result" where
  "run_whatif W status tariffs utc r a q =
     rbind (live_state status (as_code a)) (\<lambda>live.
       case clone_all (asset_components (as_id a) r) (lv_damage live) of
         None \<Rightarrow> Inl Bad_Parameter
       | Some ss \<Rightarrow>
           if ss = [] then Inl No_Model
           else
             (let baseline_cond = \<lparr>wc_load = (case lv_load live of Some l \<Rightarrow> l | None \<Rightarrow> 100) / 100,
                    wc_speed = (case lv_speed live of Some s \<Rightarrow> s | None \<Rightarrow> 100) / 100, wc_ambient = wq_ambient q\<rparr>;
                  hyp_cond = hypothetical baseline_cond q;
                  base = distribution_of (project W ss baseline_cond (wq_trials q) (w_seed W SEED)) (wq_horizon q);
                  hyp = distribution_of (project W (after_maintenance ss q) hyp_cond (wq_trials q) (w_seed W (Suc SEED))) (wq_horizon q);
                  (rate, currency) = whatif_tariff a r tariffs utc
              in Inr \<lparr>wr_code = as_code a, wr_name = af_name (as_fields a), wr_horizon = wq_horizon q,
                   wr_baseline_conditions = conditions_out baseline_cond, wr_hypothetical_conditions = conditions_out hyp_cond,
                   wr_baseline = base, wr_hypothetical = hyp,
                   wr_delta = (case (median_of hyp, median_of base) of
                       (Some h, Some b) \<Rightarrow> Some (round_dec 2 (h - b)) | _ \<Rightarrow> None),
                   wr_energy = energy_impact (af_power (as_fields a)) baseline_cond hyp_cond (wq_horizon q) rate,
                   wr_currency = currency, wr_modelled = length ss, wr_exact = length (filter exact ss)\<rparr>))"

end
