(* ===== verification/Twin_Whatif_Facts.thy ===== *)
theory Twin_Whatif_Facts
  imports Twin_Whatif
begin

text \<open>
  What a what-if answer promises: percentiles in order, shares and risks that are shares, and the rate at
  which the clone of a component wears, which is the simulator's own for the processes with a load exponent.
\<close>

section \<open>Percentiles\<close>

lemma nth_mono_sort: "i \<le> j \<Longrightarrow> j < length xs \<Longrightarrow> sort xs ! i \<le> sort xs ! j" for xs :: "real list"
  by (rule sorted_nth_mono) simp_all

lemma min_index: "xs \<noteq> [] \<Longrightarrow> min k (length xs - 1) < length xs"
  by (cases xs) auto

lemma nth_next_sort: "xs \<noteq> [] \<Longrightarrow> k \<le> length xs - 1 \<Longrightarrow> sort xs ! k \<le> sort xs ! min (Suc k) (length xs - 1)" for xs :: "real list"
  by (rule nth_mono_sort [OF _ min_index]) auto

text \<open>The interpolated value lies between its two neighbours.\<close>

lemma percentile_between:
  fixes xs :: "real list"
  assumes "xs \<noteq> []" and "0 \<le> q" and "q \<le> 100"
  defines "h \<equiv> q / 100 * real (length xs - 1)"
  shows "sort xs ! nat \<lfloor>h\<rfloor> \<le> percentile xs q" "percentile xs q \<le> sort xs ! min (Suc (nat \<lfloor>h\<rfloor>)) (length xs - 1)"
    "nat \<lfloor>h\<rfloor> \<le> length xs - 1"
proof -
  let ?k = "nat \<lfloor>h\<rfloor>" and ?n = "length xs - 1"
  have "q / 100 * real ?n \<le> 1 * real ?n" using assms(3) by (intro mult_right_mono) simp_all
  then have h: "0 \<le> h" "h \<le> real ?n" using assms(2) by (simp_all add: h_def)
  then show k: "?k \<le> ?n" by linarith
  have frac: "0 \<le> h - real ?k" "h - real ?k \<le> 1" using h by linarith+
  have step: "sort xs ! ?k \<le> sort xs ! min (Suc ?k) ?n" by (rule nth_next_sort [OF assms(1) k])
  let ?d = "sort xs ! min (Suc ?k) ?n - sort xs ! ?k"
  have d: "0 \<le> ?d" using step by simp
  have "0 \<le> ?d * (h - real ?k)" by (rule mult_nonneg_nonneg [OF d frac(1)])
  moreover have "?d * (h - real ?k) \<le> ?d * 1" by (rule mult_left_mono [OF frac(2) d])
  moreover have "percentile xs q = sort xs ! ?k + ?d * (h - real ?k)" by (simp add: percentile_def Let_def h_def)
  ultimately show "sort xs ! ?k \<le> percentile xs q" "percentile xs q \<le> sort xs ! min (Suc ?k) ?n" by simp_all
qed

lemma percentile_mono:
  fixes xs :: "real list"
  assumes "xs \<noteq> []" and "0 \<le> p" and "p \<le> q" and "q \<le> 100"
  shows "percentile xs p \<le> percentile xs q"
proof -
  let ?h = "\<lambda>q. q / 100 * real (length xs - 1)"
  have hm: "?h p \<le> ?h q" using assms(3) by (intro mult_right_mono) simp_all
  show ?thesis
  proof (cases "nat \<lfloor>?h p\<rfloor> = nat \<lfloor>?h q\<rfloor>")
    case True
    let ?k = "nat \<lfloor>?h q\<rfloor>"
    have k: "?k \<le> length xs - 1" using percentile_between(3) [OF assms(1), of q] assms by simp
    have "0 \<le> sort xs ! min (Suc ?k) (length xs - 1) - sort xs ! ?k" using nth_next_sort [OF assms(1) k] by simp
    then have "(sort xs ! min (Suc ?k) (length xs - 1) - sort xs ! ?k) * (?h p - real ?k)
        \<le> (sort xs ! min (Suc ?k) (length xs - 1) - sort xs ! ?k) * (?h q - real ?k)" using hm by (intro mult_left_mono) simp_all
    then show ?thesis unfolding percentile_def Let_def True by simp
  next
    case False
    have "nat \<lfloor>?h p\<rfloor> \<le> nat \<lfloor>?h q\<rfloor>" using hm by (intro nat_mono floor_mono)
    with False have less: "Suc (nat \<lfloor>?h p\<rfloor>) \<le> nat \<lfloor>?h q\<rfloor>" by simp
    have k: "nat \<lfloor>?h q\<rfloor> \<le> length xs - 1" using percentile_between(3) [OF assms(1), of q] assms by simp
    have "percentile xs p \<le> sort xs ! min (Suc (nat \<lfloor>?h p\<rfloor>)) (length xs - 1)"
      using percentile_between(2) [OF assms(1), of p] assms by simp
    also have "\<dots> \<le> sort xs ! nat \<lfloor>?h q\<rfloor>"
    proof (rule nth_mono_sort)
      show "min (Suc (nat \<lfloor>?h p\<rfloor>)) (length xs - 1) \<le> nat \<lfloor>?h q\<rfloor>" using less by (rule min.coboundedI1)
      show "nat \<lfloor>?h q\<rfloor> < length xs" by (rule le_less_trans [OF k]) (use assms(1) in \<open>cases xs; simp\<close>)
    qed
    also have "\<dots> \<le> percentile xs q" using percentile_between(1) [OF assms(1), of q] assms by simp
    finally show ?thesis .
  qed
qed

lemma percentile_nonneg:
  fixes xs :: "real list"
  assumes "xs \<noteq> []" and "0 \<le> q" and "q \<le> 100" and "\<And>x. x \<in> set xs \<Longrightarrow> 0 \<le> x"
  shows "0 \<le> percentile xs q"
proof -
  have "nat \<lfloor>q / 100 * real (length xs - 1)\<rfloor> < length (sort xs)"
    using percentile_between(3) [OF assms(1-3)] assms(1) by (cases "length xs") auto
  then have "sort xs ! nat \<lfloor>q / 100 * real (length xs - 1)\<rfloor> \<in> set (sort xs)" by (rule nth_mem)
  then have "0 \<le> sort xs ! nat \<lfloor>q / 100 * real (length xs - 1)\<rfloor>" using assms(4) by (simp only: set_sort)
  then show ?thesis using percentile_between(1) [OF assms(1-3)] by (rule order_trans)
qed

section \<open>Risk\<close>

lemma counted_share_range: "0 \<le> round_dec n (real (length (filter P xs)) / real (length xs)) \<and> round_dec n (real (length (filter P xs)) / real (length xs)) \<le> 1"
proof -
  have "real (length (filter P xs)) / real (length xs) \<le> 1" by (cases "xs = []") (simp_all add: divide_le_eq_1)
  then show ?thesis using round_dec_nonneg [of "real (length (filter P xs)) / real (length xs)" n]
      round_dec_mono [of "real (length (filter P xs)) / real (length xs)" 1 n] by simp
qed

lemma risk_range: "0 \<le> risk_within xs h" "risk_within xs h \<le> 1"
  using counted_share_range [of 4 "\<lambda>x. x \<le> h" xs] by (simp_all add: risk_within_def)

lemma filter_length_mono: "(\<And>x. x \<in> set xs \<Longrightarrow> P x \<Longrightarrow> Q x) \<Longrightarrow> length (filter P xs) \<le> length (filter Q xs)"
  by (induction xs) auto

lemma risk_mono: "h \<le> h' \<Longrightarrow> risk_within xs h \<le> risk_within xs h'"
  using risk_range [of xs h'] filter_length_mono [of xs "\<lambda>x. x \<le> h" "\<lambda>x. x \<le> h'"]
  by (auto simp: risk_within_def intro!: round_dec_mono divide_right_mono)

section \<open>Draws\<close>

text \<open>What numpy documents of \<open>wald\<close>: as many samples as asked for, none negative, for positive mean and shape.\<close>

definition wald_ok :: "'g wald_rng \<Rightarrow> bool" where
  "wald_ok W \<longleftrightarrow> (\<forall>m s n g. 0 < m \<longrightarrow> 0 < s \<longrightarrow>
     length (fst (w_wald W m s n g)) = n \<and> (\<forall>t \<in> set (fst (w_wald W m s n g)). 0 \<le> t))"

lemma time_to_failure_ok:
  assumes "wald_ok W"
  shows "length (fst (time_to_failure_h W s cond n g)) = n \<and> (\<forall>t \<in> set (fst (time_to_failure_h W s cond n g)). 0 \<le> t)"
proof (cases "ws_life s \<le> 0 \<or> 1 - ws_damage s \<le> MIN_REMAINING")
  case True
  then show ?thesis by (simp add: time_to_failure_h_def Let_def)
next
  case False
  let ?r = "1 - ws_damage s" and ?l = "ws_life s * HOUR_S"
  let ?m = "?r * ?l" and ?s = "?r\<^sup>2 * ?l / (max (ws_cv s) (1 / 10 ^ 6))\<^sup>2"
  have r: "0 < ?r" "0 < ?l" using False by (simp_all add: MIN_REMAINING_def HOUR_S_def)
  have "0 < ?m" by (rule mult_pos_pos [OF r])
  moreover have "0 < ?s"
    by (rule divide_pos_pos [OF mult_pos_pos [OF zero_less_power [OF r(1)] r(2)] zero_less_power]) (simp add: less_max_iff_disj)
  ultimately have w: "length (fst (w_wald W ?m ?s n g)) = n" "\<And>t. t \<in> set (fst (w_wald W ?m ?s n g)) \<Longrightarrow> 0 \<le> t"
    using assms by (simp_all add: wald_ok_def)
  have "0 \<le> ?m / HOUR_S * 1000" using \<open>0 < ?m\<close> by (simp add: HOUR_S_def)
  moreover have "0 \<le> t / acceleration s cond / HOUR_S" if "0 < acceleration s cond" "t \<in> set (fst (w_wald W ?m ?s n g))" for t
    using w(2) [OF that(2)] that(1) by (simp add: HOUR_S_def)
  moreover have "time_to_failure_h W s cond n g = (if acceleration s cond \<le> 0 then (replicate n (?m / HOUR_S * 1000), snd (w_wald W ?m ?s n g))
      else (map (\<lambda>t. t / acceleration s cond / HOUR_S) (fst (w_wald W ?m ?s n g)), snd (w_wald W ?m ?s n g)))"
    using False by (simp add: time_to_failure_h_def Let_def case_prod_beta)
  ultimately show ?thesis using w(1) by auto
qed

lemma draw_all_length [simp]: "length (draw_all W ss cond n g) = length ss"
  by (induction ss arbitrary: g) (auto simp: Let_def split: prod.split)

lemma draw_all_ok:
  assumes "wald_ok W"
  shows "row \<in> set (draw_all W ss cond n g) \<Longrightarrow> length row = n \<and> (\<forall>t \<in> set row. 0 \<le> t)"
proof (induction ss arbitrary: g)
  case (Cons s ss)
  obtain r g' where r: "time_to_failure_h W s cond n g = (r, g')" by force
  then have "length r = n \<and> (\<forall>t \<in> set r. 0 \<le> t)" using time_to_failure_ok [OF assms, of s cond n g] by simp
  then show ?case using Cons r by (auto simp: Let_def)
qed simp

lemma min_row_nonneg:
  assumes "wald_ok W" and "ss \<noteq> []" and "j < n"
  shows "0 \<le> min_row (draw_all W ss cond n g) j"
proof -
  let ?rows = "draw_all W ss cond n g"
  have "?rows \<noteq> []" using assms(2) draw_all_length [of W ss cond n g] by (metis length_0_conv)
  moreover have "0 \<le> r ! j" if "r \<in> set ?rows" for r
    using draw_all_ok [OF assms(1) that] assms(3) nth_mem by blast
  ultimately show ?thesis by (simp add: min_row_def)
qed

definition distribution_ok :: "string list \<Rightarrow> distribution \<Rightarrow> bool" where
  "distribution_ok codes d \<longleftrightarrow> 0 \<le> ds_risk d \<and> ds_risk d \<le> 1
     \<and> (\<exists>p10 p50 p90. ds_percentiles d = Some (p10, p50, p90) \<and> 0 \<le> p10 \<and> p10 \<le> p50 \<and> p50 \<le> p90)
     \<and> (\<forall>(c, share) \<in> set (ds_first d). c \<in> set codes \<and> 0 \<le> share \<and> share \<le> 1)"

lemma dict_of_members: "(k, v) \<in> set (dict_of ps) \<Longrightarrow> (k, v) \<in> set ps"
proof -
  have put: "(k, v) \<in> set (dict_put a b d) \<Longrightarrow> (k, v) = (a, b) \<or> (k, v) \<in> set d" for a b and d :: "('a \<times> 'b) list"
    by (induction d) (auto split: if_splits)
  have "(k, v) \<in> set (foldl (\<lambda>d (k, v). dict_put k v d) d ps) \<Longrightarrow> (k, v) \<in> set d \<union> set ps" for d
    by (induction ps arbitrary: d) (auto dest: put)
  from this [of "[]"] show "(k, v) \<in> set (dict_of ps) \<Longrightarrow> (k, v) \<in> set ps" by (simp add: dict_of_def)
qed

lemma project_ok:
  assumes "wald_ok W" and "ss \<noteq> []" and "0 < n"
  shows "distribution_ok (map ws_code ss) (distribution_of (project W ss cond n g) horizon)"
proof -
  let ?rows = "draw_all W ss cond n g"
  let ?life = "map (min_row ?rows) [0..<n]"
  have life: "?life \<noteq> []" "\<And>x. x \<in> set ?life \<Longrightarrow> 0 \<le> x" using assms min_row_nonneg [OF assms(1,2)] by auto
  have p: "0 \<le> percentile ?life 10" "percentile ?life 10 \<le> percentile ?life 50" "percentile ?life 50 \<le> percentile ?life 90"
    using percentile_nonneg [OF life(1), of 10] percentile_mono [OF life(1), of 10 50] percentile_mono [OF life(1), of 50 90] life(2) by auto
  let ?d = "distribution_of (project W ss cond n g) horizon"
  have "ds_percentiles ?d = Some (round_dec 2 (percentile ?life 10), round_dec 2 (percentile ?life 50), round_dec 2 (percentile ?life 90))"
    using assms(2) by (simp add: distribution_of_def project_def Let_def)
  moreover have "c \<in> set (map ws_code ss) \<and> 0 \<le> share \<and> share \<le> 1" if "(c, share) \<in> set (ds_first ?d)" for c share
  proof -
    let ?is = "map (argmin_row ?rows) [0..<n]"
    from that assms(2) obtain i where i: "i < length ss" "c = ws_code (ss ! i)" "share = round_dec 4 (real (bincount (length ss) ?is ! i) / real n)"
      by (auto simp: distribution_of_def project_def Let_def dest!: dict_of_members)
    then have "share = round_dec 4 (real (length (filter ((=) i) ?is)) / real (length ?is))" by (simp add: bincount_def)
    then show ?thesis using counted_share_range [of 4 "(=) i" ?is] i by simp
  qed
  ultimately show ?thesis using p round_dec_mono round_dec_nonneg risk_range unfolding distribution_ok_def
    by (auto simp: distribution_of_def)
qed

section \<open>Answers\<close>

lemma clone_code: "clone_component c d = Some s \<Longrightarrow> ws_code s = co_code c"
  by (auto simp: clone_component_def Let_def split: option.splits)

lemma clone_all_codes: "clone_all rows damage = Some ss \<Longrightarrow> set (map ws_code ss) \<subseteq> (\<lambda>c. co_code (cr_spec c)) ` set rows"
  by (auto simp: clone_all_def dest!: those_members clone_code [OF sym])

lemma distribution_ok_mono: "distribution_ok cs d \<Longrightarrow> set cs \<subseteq> set cs' \<Longrightarrow> distribution_ok cs' d"
  unfolding distribution_ok_def by blast

lemma maintenance_codes: "map ws_code (after_maintenance ss q) = map ws_code ss" "after_maintenance ss q \<noteq> [] \<longleftrightarrow> ss \<noteq> []"
  by (auto simp: after_maintenance_def split: option.split)

text \<open>
  Property C31. Whatever the machine's live state, its registered parameters and the question: an answer's
  two distributions have their percentiles in order and not negative, their risk is a probability, and the
  components they name as first to fail are the machine's own, with shares between 0 and 1.
\<close>

theorem whatif_answer_sound:
  assumes "wald_ok W" and "0 < wq_trials q" and "run_whatif W status tariffs utc r a q = Inr res"
  shows "distribution_ok (map (\<lambda>c. co_code (cr_spec c)) (asset_components (as_id a) r)) (wr_baseline res)
    \<and> distribution_ok (map (\<lambda>c. co_code (cr_spec c)) (asset_components (as_id a) r)) (wr_hypothetical res)"
proof -
  let ?rows = "asset_components (as_id a) r"
  from assms(3) obtain live where l: "live_state status (as_code a) = Inr live"
    by (auto simp: run_whatif_def res_simps)
  from assms(3) l obtain ss where ss: "clone_all ?rows (lv_damage live) = Some ss" "ss \<noteq> []"
    by (auto simp: run_whatif_def split: option.splits if_splits)
  from assms(3) l ss obtain bc hc where b: "wr_baseline res = distribution_of (project W ss bc (wq_trials q) (w_seed W SEED)) (wq_horizon q)"
    and h: "wr_hypothetical res = distribution_of (project W (after_maintenance ss q) hc (wq_trials q) (w_seed W (Suc SEED))) (wq_horizon q)"
    by (auto simp: run_whatif_def Let_def split: prod.splits)
  have codes: "set (map ws_code ss) \<subseteq> set (map (\<lambda>c. co_code (cr_spec c)) ?rows)" using clone_all_codes [OF ss(1)] by simp
  have "distribution_ok (map ws_code ss) (wr_baseline res)" unfolding b by (rule project_ok [OF assms(1) ss(2) assms(2)])
  moreover have "distribution_ok (map ws_code ss) (wr_hypothetical res)"
    unfolding h using project_ok [OF assms(1) _ assms(2), of "after_maintenance ss q" hc] ss(2) maintenance_codes by metis
  ultimately show ?thesis using distribution_ok_mono [OF _ codes] by blast
qed

section \<open>The rate of wear\<close>

text \<open>\<open>_physics_params\<close> of the simulator's catalog, from which the registry's rows are seeded.\<close>

definition physics_params :: "Sim_Catalog.component_spec \<Rightarrow> (string \<times> param_value) list" where
  "physics_params c =
     (case c_process c of
        None \<Rightarrow> []
      | Some ps \<Rightarrow>
          (let d = map (\<lambda>(k, v). (k, Number_Param v)) (ps_params ps)
           in case ps_temp_metric ps of None \<Rightarrow> d | Some t \<Rightarrow> if t = [] then d else dict_put ''temp_metric'' (Text_Param t) d))"

lemma physics_params_lookup:
  "c_process c = Some ps \<Longrightarrow> k \<noteq> ''temp_metric'' \<Longrightarrow> map_of (physics_params c) k = map_option Number_Param (map_of (ps_params ps) k)"
  by (auto simp: physics_params_def Let_def map_of_map update_conv' split: option.split)

lemma number_or_lookup:
  "number_or d (map_option Number_Param v) = Some (case v of None \<Rightarrow> d | Some x \<Rightarrow> if x = 0 then d else x)"
  by (auto simp: number_or_def split: option.split)

lemma number_of_lookup: "number_of (map_option Number_Param v) = v"
  by (cases v) simp_all

text \<open>The exponents and the temperature constants of the clone and of the simulated process.\<close>

lemma clone_exponents:
  assumes "c_process c = Some ps" and "clone_component r d = Some s" and "co_params r = physics_params c"
  shows "ws_load_exp s = (case map_of (ps_params ps) ''load_exp'' of None \<Rightarrow> 1 | Some e \<Rightarrow> if e = 0 then 1 else e)"
    and "ws_speed_exp s = kw (ps_params ps) ''speed_exp'' 0"
    and "ws_ea s = map_of (ps_params ps) ''ea_ev''" and "ws_t_ref s = map_of (ps_params ps) ''t_ref_c''"
  using assms(2)
  by (auto simp: clone_component_def assms(3) Let_def physics_params_lookup [OF assms(1)] number_or_lookup number_of_lookup kw_def
      split: option.splits)

lemma construct_acceleration:
  assumes "construct m args = Inr st" and "m \<noteq> Paris" and "m \<noteq> Taylor"
  shows "any_acceleration st c = py_pow (max (cond_load c) 0) (kw args ''load_exp'' (if m = Motor_Efficiency then 2 else 1))
    * py_pow (max (cond_speed c) 0) (kw args ''speed_exp'' 0)"
proof -
  from assms(1) have known: "set (dict_keys args) \<subseteq> set (accepted_args m)" and c: "construct_args m args = Inr st"
    by (auto simp: construct_def split: if_splits)
  have "m = Motor_Efficiency \<Longrightarrow> kw args ''speed_exp'' 0 = 0"
    using known by (auto simp: kw_def split: option.split dest!: map_of_SomeD)
  then show ?thesis using c assms(2,3)
    by (cases m) (auto simp: wiener_init_def wiener_acceleration_def gamma_init_def gamma_acceleration_def motor_init_def
      gamma_state.extend_def Let_def)
qed

lemma kw_delete: "k \<noteq> k' \<Longrightarrow> kw (AList.delete k' ps) k d = kw ps k d"
  by (simp add: kw_def delete_conv')


text \<open>
  Where the catalog gives exponent 0 the clone has exponent 1, and for cracks and tool wear, whose
  sensitivities are no load exponent at all, it always has exponent 1.
\<close>

lemma zero_exponent_lost:
  assumes "c_process c = Some ps" and "clone_component row d = Some s" and "co_params row = physics_params c"
    and "map_of (ps_params ps) ''load_exp'' \<in> {None, Some 0}"
  shows "ws_load_exp s = 1"
  using clone_exponents(1) [OF assms(1-3)] assms(4) by auto

text \<open>A stopped machine with little life left still fails within the horizon.\<close>

lemma stopped_machine_fails:
  assumes "ws_life s = 100" and "ws_damage s = 9998 / 10000" and "acceleration s cond \<le> 0"
  shows "fst (time_to_failure_h W s cond 50 g) = replicate 50 20" and "risk_within (replicate 50 20) 168 = 1"
  using assms by (auto simp: time_to_failure_h_def MIN_REMAINING_def HOUR_S_def risk_within_def Let_def split: prod.split)

text \<open>An ambient temperature is put on both arms, so on its own it is never compared with anything.\<close>

lemma ambient_changes_nothing:
  assumes "wq_load q = None" and "wq_speed q = None"
  shows "hypothetical \<lparr>wc_load = l, wc_speed = v, wc_ambient = wq_ambient q\<rparr> q = \<lparr>wc_load = l, wc_speed = v, wc_ambient = wq_ambient q\<rparr>"
  using assms by (simp add: hypothetical_def split: option.split)

text \<open>When the service is due does not matter: it resets the damage at once.\<close>

lemma maintenance_time_ignored:
  "wq_maintenance q \<noteq> None \<Longrightarrow> wq_maintenance q' \<noteq> None \<Longrightarrow> after_maintenance ss q = after_maintenance ss q'"
  by (auto simp: after_maintenance_def)

section \<open>Witnesses\<close>

text \<open>The winding of the milling machine's motor, and a generator whose draws are the mean.\<close>

definition demo_winding_spec :: process_spec where
  "demo_winding_spec = \<lparr>ps_model = Gamma, ps_params = [(''life_h'', 2000), (''cv'', 1/5), (''load_exp'', 2), (''ea_ev'', 2/5), (''t_ref_c'', 45)],
     ps_temp_metric = None\<rparr>"

definition demo_winding :: Sim_Catalog.component_spec where
  "demo_winding = demo_spindle\<lparr>c_code := ''motor'', c_type := Motor, c_process := Some demo_winding_spec\<rparr>"

definition demo_motor_row :: Twin_Registry.component_spec where
  "demo_motor_row = \<lparr>co_code = ''motor'', co_name = ''Motor'', co_type = ''motor'', co_weight = 1, co_physics = Some ''gamma'',
     co_params = physics_params demo_winding\<rparr>"

definition demo_motor_clone :: whatif_state where
  "demo_motor_clone = \<lparr>ws_code = ''motor'', ws_name = ''Motor'', ws_model = ''gamma'', ws_damage = 1/4, ws_life = 2000, ws_cv = 1/5,
     ws_load_exp = 2, ws_speed_exp = 0, ws_ea = Some (2/5), ws_t_ref = Some 45\<rparr>"

lemma demo_params: "co_params demo_motor_row = physics_params demo_winding" "c_process demo_winding = Some demo_winding_spec"
  by (simp_all add: demo_motor_row_def demo_winding_def)

lemma demo_motor_cloned: "clone_component demo_motor_row (1/4) = Some demo_motor_clone"
proof -
  have p: "map_of (co_params demo_motor_row) k = map_option Number_Param (map_of (ps_params demo_winding_spec) k)" if "k \<noteq> ''temp_metric''" for k
    unfolding demo_params(1) by (rule physics_params_lookup [OF demo_params(2) that])
  show ?thesis
    unfolding clone_component_def Let_def
    by (simp add: p number_or_def demo_winding_spec_def demo_motor_clone_def) (simp add: demo_motor_row_def)
qed


definition demo_wald :: "unit wald_rng" where
  "demo_wald = \<lparr>w_seed = (\<lambda>_. ()), w_wald = (\<lambda>m s n g. (replicate n m, g))\<rparr>"

definition demo_asset_fields :: asset_fields where
  "demo_asset_fields = \<lparr>af_name = ''Mill'', af_manufacturer = None, af_model = None, af_serial = None, af_install = None,
     af_fidelity = 2, af_cycle = None, af_power = None, af_model3d = None, af_position = None, af_status = ''RUNNING'',
     af_attributes = ''{}''\<rparr>"

definition demo_asset :: asset_row where
  "demo_asset = \<lparr>as_id = 2, as_line = 1, as_code = ''cnc-01'', as_type = ''cnc_mill'', as_fields = demo_asset_fields,
     as_thing = thing_id ''cnc-01'', as_aas = shell_id ''cnc-01'', as_gone = False\<rparr>"

definition demo_registry :: registry where
  "demo_registry = \<lparr>rg_plants = [], rg_lines = [], rg_assets = [demo_asset],
     rg_components = [\<lparr>cr_id = 3, cr_asset = 2, cr_spec = demo_motor_row, cr_gone = False\<rparr>], rg_sensors = [], rg_audits = [], rg_next = 4\<rparr>"

definition demo_question :: whatif_request where
  "demo_question = \<lparr>wq_load = Some 50, wq_speed = None, wq_ambient = None, wq_maintenance = None, wq_horizon = 168, wq_trials = 50\<rparr>"

lemma whatif_answer_sound_witness:
  "\<exists>res. run_whatif demo_wald (Some [\<lparr>lv_code = ''cnc-01'', lv_load = Some 100, lv_speed = None, lv_damage = [(''motor'', 1/4)]\<rparr>])
      (\<lambda>_. []) (0, 0) demo_registry demo_asset demo_question = Inr res \<and> distribution_ok [''motor''] (wr_hypothetical res)"
proof -
  let ?status = "Some [\<lparr>lv_code = ''cnc-01'', lv_load = Some 100, lv_speed = None, lv_damage = [(''motor'', 1/4 :: real)]\<rparr>]"
  let ?live = "\<lparr>lv_code = ''cnc-01'', lv_load = Some 100, lv_speed = None, lv_damage = [(''motor'', 1/4 :: real)]\<rparr>"
  have rows: "asset_components (as_id demo_asset) demo_registry = [\<lparr>cr_id = 3, cr_asset = 2, cr_spec = demo_motor_row, cr_gone = False\<rparr>]"
    by (simp add: asset_components_def demo_asset_def demo_registry_def)
  have code: "co_code demo_motor_row = ''motor''" by (simp add: demo_motor_row_def)
  have "map_of (co_params demo_motor_row) ''life_h'' = Some (Number_Param 2000)"
    unfolding demo_params(1) by (simp add: physics_params_lookup [OF demo_params(2)] demo_winding_spec_def)
  then have clones: "clone_all (asset_components (as_id demo_asset) demo_registry) (lv_damage ?live) = Some [demo_motor_clone]"
    by (simp add: clone_all_def rows code demo_motor_cloned)
  have live: "live_state ?status (as_code demo_asset) = Inr ?live" by (simp add: live_state_def demo_asset_def)
  obtain res where res: "run_whatif demo_wald ?status (\<lambda>_. []) (0, 0) demo_registry demo_asset demo_question = Inr res"
    by (simp only: run_whatif_def live rbind_simps clones option.case Let_def case_prod_beta) simp
  have "wald_ok demo_wald" by (simp add: wald_ok_def demo_wald_def)
  moreover have "0 < wq_trials demo_question" by (simp add: demo_question_def)
  ultimately have "distribution_ok (map (\<lambda>c. co_code (cr_spec c)) (asset_components (as_id demo_asset) demo_registry)) (wr_hypothetical res)"
    using whatif_answer_sound [OF _ _ res] by blast
  then have "distribution_ok [''motor''] (wr_hypothetical res)" by (simp add: rows code)
  with res show ?thesis by blast
qed

end
