(* ===== verification/Twin_Command.thy ===== *)
theory Twin_Command
  imports Twin_Registry Maint_Closure
begin

text \<open>
  Write-back to a machine, \<open>TwinService.send_command\<close>: the server's switch, the asset, the PIN, the command
  gateway and the simulator behind it, and the audit row. The requests are those the schemas let through.
\<close>

datatype write_back = Write_Load real | Write_Speed real | Write_Reset "string option"

record command_request =
  cq_command :: write_back
  cq_pin :: "string option"

text \<open>The constraints of \<open>CommandRequest\<close>.\<close>

fun write_back_ok :: "write_back \<Rightarrow> bool" where
  "write_back_ok (Write_Load x) = (0 \<le> x \<and> x \<le> 110)"
| "write_back_ok (Write_Speed x) = (50 \<le> x \<and> x \<le> 120)"
| "write_back_ok (Write_Reset c) = True"

fun write_back_name :: "write_back \<Rightarrow> string" where
  "write_back_name (Write_Load x) = ''set_load''"
| "write_back_name (Write_Speed x) = ''set_speed''"
| "write_back_name (Write_Reset c) = ''maintenance_reset''"

fun write_back_params :: "write_back \<Rightarrow> (string \<times> json) list" where
  "write_back_params (Write_Load x) = [(''load_pct'', J_Float x)]"
| "write_back_params (Write_Speed x) = [(''speed_pct'', J_Float x)]"
| "write_back_params (Write_Reset c) = [(''component_code'', case c of None \<Rightarrow> J_Null | Some s \<Rightarrow> J_Str s)]"

record command_audit =
  cm_asset :: nat
  cm_id :: string
  cm_command :: string
  cm_params :: "(string \<times> json) list"
  cm_status :: string
  cm_error :: "request_error option"

datatype send_error = T3_Disabled | No_Such_Asset | Pin_Required | Identity_Down | Broker_Down | Ack_Timeout

text \<open>\<open>verify\<close> asks the identity provider, which may be unreachable.\<close>

definition second_factor :: "(string \<Rightarrow> string \<Rightarrow> bool option) \<Rightarrow> string \<Rightarrow> string option \<Rightarrow> send_error + unit" where
  "second_factor verify sub pin =
     (case pin of
        None \<Rightarrow> Inl Pin_Required
      | Some p \<Rightarrow> if p = [] then Inl Pin_Required
                 else (case verify sub p of None \<Rightarrow> Inl Identity_Down | Some ok \<Rightarrow> if ok then Inr () else Inl Pin_Required))"

definition command_row :: "nat \<Rightarrow> string \<Rightarrow> write_back \<Rightarrow> ack option \<Rightarrow> command_audit" where
  "command_row i cid w a =
     \<lparr>cm_asset = i, cm_id = cid, cm_command = write_back_name w, cm_params = write_back_params w,
      cm_status = (case a of None \<Rightarrow> ''timeout'' | Some x \<Rightarrow> ack_status x),
      cm_error = (case a of None \<Rightarrow> None | Some x \<Rightarrow> ack_error x)\<rparr>"

definition send_command ::
    "'g rng \<Rightarrow> link \<Rightarrow> string \<Rightarrow> bool \<Rightarrow> (string \<Rightarrow> string \<Rightarrow> bool option) \<Rightarrow> string \<Rightarrow> string \<Rightarrow> command_request \<Rightarrow> registry
       \<Rightarrow> command_audit list \<times> 'g engine \<Rightarrow> (send_error + ack) \<times> command_audit list \<times> 'g engine" where
  "send_command R l cid allow_t3 verify sub code q r ae =
     (case ae of (audits, e) \<Rightarrow>
      if \<not> allow_t3 then (Inl T3_Disabled, audits, e)
      else
        (case get_by_code code r of
           None \<Rightarrow> (Inl No_Such_Asset, audits, e)
         | Some a \<Rightarrow>
             (case second_factor verify sub (cq_pin q) of
                Inl err \<Rightarrow> (Inl err, audits, e)
              | Inr u \<Rightarrow>
                  (case gateway_execute R l cid (as_code a) (write_back_name (cq_command q)) (write_back_params (cq_command q)) sub ''T3'' e of
                     (Inl err, e') \<Rightarrow> (Inl Broker_Down, audits, e')
                   | (Inr answer, e') \<Rightarrow>
                       ((case answer of None \<Rightarrow> Inl Ack_Timeout | Some x \<Rightarrow> Inr x),
                        audits @ [command_row (as_id a) cid (cq_command q) answer], e')))))"

section \<open>The gateway in front of the simulator\<close>

lemma write_back_float_safe: "float_safe (Some (command_payload cid (write_back_params w) sub tier))"
  by (cases w) (auto simp: float_safe_def command_payload_def get_key_def split: option.splits)

lemma name_no_slash: "CHR ''/'' \<notin> set (write_back_name w)"
  by (cases w) simp_all

text \<open>What one call of the gateway can do to a sound fleet.\<close>

lemma gateway_cases:
  assumes "rng_ok R" and "engine_ok e" and code: "CHR ''/'' \<notin> set code"
    and run: "gateway_execute R l cid code (write_back_name w) (write_back_params w) sub tier e = (res, e')"
  shows "res = Inl Gateway_Down \<and> e' = e \<or> res = Inr None \<and> e' = e
    \<or> (\<exists>a. answered_well R code (write_back_name w) e (a, e') \<and> res = Inr (if ln_answered l then Some a else None))"
proof (cases "ln_connected l \<and> ln_published l \<and> ln_delivered l")
  case False
  with run show ?thesis by (auto simp: gateway_execute_def split: if_splits)
next
  case True
  let ?p = "Some (command_payload cid (write_back_params w) sub tier)"
  obtain a e1 where h: "handle_command R code (write_back_name w) ?p e = Some (a, e1)" "answered_well R code (write_back_name w) e (a, e1)"
    using handle_command_answers [OF assms(1,2) write_back_float_safe, of code "write_back_name w" cid w sub tier] by force
  have "split_on (CHR ''/'') (command_topic code (write_back_name w)) = [''twinvoice'', ''cmd'', code, write_back_name w]"
    by (rule command_topic_parts [OF code name_no_slash])
  then have "on_message R (command_topic code (write_back_name w)) ?p e = Some (Some (ack_topic code, a), e1)"
    using h(1) by (simp add: on_message_def)
  with run True h(2) show ?thesis by (auto simp: gateway_execute_def)
qed

section \<open>Write-back, end to end\<close>

text \<open>A command that is not let through leaves everything as it was.\<close>

lemma refused:
  assumes "\<not> (allow \<and> get_by_code code r \<noteq> None \<and> second_factor verify sub (cq_pin q) = Inr ())"
    and "send_command R l cid allow verify sub code q r (audits, e) = (res, audits', e')"
  shows "(\<exists>err. res = Inl err \<and> err \<noteq> Ack_Timeout) \<and> audits' = audits \<and> e' = e"
proof -
  have "second_factor verify sub (cq_pin q) \<noteq> Inl Ack_Timeout" by (auto simp: second_factor_def split: option.splits)
  with assms show ?thesis by (auto simp: send_command_def split: if_splits option.splits sum.splits)
qed

text \<open>
  Property C5. A command reaches the machine only if the server allows write-back, the asset is registered
  and not retired, and the PIN was checked. Then the fleet stays sound and changes, if at all, by one
  operation of the engine. An acknowledged command is answered with, and audited as, what the machine said,
  and one not acknowledged in time is audited as a timeout. Every other refusal leaves the audit as it was.
\<close>

theorem write_back_gated:
  assumes "rng_ok R" and "engine_ok e" and "\<And>a. a \<in> set (rg_assets r) \<Longrightarrow> CHR ''/'' \<notin> set (as_code a)"
    and "send_command R l cid allow verify sub code q r (audits, e) = (res, audits', e')"
  shows "engine_ok e'
    \<and> (machines e' \<noteq> machines e \<longrightarrow> allow \<and> get_by_code code r \<noteq> None \<and> second_factor verify sub (cq_pin q) = Inr ()
         \<and> (\<exists>e1. engine_step R e e1 \<and> machines e' = machines e1))
    \<and> (case res of
         Inr x \<Rightarrow> (\<exists>a. get_by_code code r = Some a \<and> audits' = audits @ [command_row (as_id a) cid (cq_command q) (Some x)]
             \<and> (ack_status x = ''accepted'' \<longleftrightarrow> ack_error x = None) \<and> (ack_error x \<noteq> None \<longrightarrow> machines e' = machines e))
       | Inl Ack_Timeout \<Rightarrow> (\<exists>a. get_by_code code r = Some a \<and> audits' = audits @ [command_row (as_id a) cid (cq_command q) None])
       | Inl err \<Rightarrow> audits' = audits \<and> e' = e)"
proof (cases "allow \<and> get_by_code code r \<noteq> None \<and> second_factor verify sub (cq_pin q) = Inr ()")
  case False
  from refused [OF this assms(4)] assms(2) show ?thesis by (auto split: send_error.splits)
next
  case True
  then obtain a where a: "get_by_code code r = Some a" by auto
  then have "a \<in> set (rg_assets r)" by (auto simp: get_by_code_def find_Some_iff)
  then have slash: "CHR ''/'' \<notin> set (as_code a)" by (rule assms(3))
  obtain g e1 where g: "gateway_execute R l cid (as_code a) (write_back_name (cq_command q)) (write_back_params (cq_command q)) sub ''T3'' e = (g, e1)"
    by force
  from assms(4) True a g have out: "(case g of Inl err \<Rightarrow> res = Inl Broker_Down \<and> audits' = audits \<and> e' = e1
      | Inr answer \<Rightarrow> res = (case answer of None \<Rightarrow> Inl Ack_Timeout | Some x \<Rightarrow> Inr x)
          \<and> audits' = audits @ [command_row (as_id a) cid (cq_command q) answer] \<and> e' = e1)"
    by (auto simp: send_command_def split: sum.splits)
  from gateway_cases [OF assms(1,2) slash g] consider
      "g = Inl Gateway_Down" "e1 = e" | "g = Inr None" "e1 = e"
    | x where "answered_well R (as_code a) (write_back_name (cq_command q)) e (x, e1)" "g = Inr (if ln_answered l then Some x else None)"
    by blast
  then show ?thesis
  proof cases
    case 1
    with out assms(2) show ?thesis by simp
  next
    case 2
    with out assms(2) a show ?thesis by simp
  next
    case 3
    have w: "engine_ok e1" "ack_status x = ''accepted'' \<longleftrightarrow> ack_error x = None" "ack_error x \<noteq> None \<Longrightarrow> machines e1 = machines e"
        "ack_error x = None \<Longrightarrow> \<exists>e2. engine_step R e e2 \<and> machines e1 = machines e2"
      using 3(1) by (auto simp: answered_well_def)
    have "machines e1 \<noteq> machines e \<longrightarrow> (\<exists>e2. engine_step R e e2 \<and> machines e1 = machines e2)" using w(3,4) by blast
    with out 3(2) a True w(1-3) show ?thesis by (cases "ln_answered l") auto
  qed
qed

definition demo_conveyor :: registry where
  "demo_conveyor = \<lparr>rg_plants = [], rg_lines = [], rg_assets = [\<lparr>as_id = 2, as_line = 1, as_code = ''conveyor-01'', as_type = ''conveyor'',
     as_fields = \<lparr>af_name = ''Conveyor'', af_manufacturer = None, af_model = None, af_serial = None, af_install = None, af_fidelity = 2,
       af_cycle = None, af_power = None, af_model3d = None, af_position = None, af_status = ''RUNNING'', af_attributes = ''{}''\<rparr>,
     as_thing = ''twinvoice:conveyor-01'', as_aas = [], as_gone = False\<rparr>],
     rg_components = [], rg_sensors = [], rg_audits = [], rg_next = 3\<rparr>"

definition demo_command :: command_request where
  "demo_command = \<lparr>cq_command = Write_Load 80, cq_pin = Some ''1234''\<rparr>"

definition demo_link :: link where
  "demo_link = \<lparr>ln_connected = True, ln_published = True, ln_delivered = True, ln_answered = False\<rparr>"

lemma write_back_gated_witness:
  "\<exists>e0 row e'. new_engine demo_rng demo_catalog [()] 1 None = Inr e0
    \<and> send_command demo_rng demo_link ''c1'' True (\<lambda>s p. Some (p = ''1234'')) ''ana'' ''conveyor-01'' demo_command demo_conveyor ([], e0)
        = (Inl Ack_Timeout, [row], e')
    \<and> cm_status row = ''timeout'' \<and> engine_ok e'"
proof -
  have "length [()] = length (assets demo_catalog)" by (simp add: demo_catalog_assets)
  from new_engine_ok [OF demo_rng_ok demo_catalog_ok this, of 1 None] obtain e0
    where e0: "new_engine demo_rng demo_catalog [()] 1 None = Inr e0" "engine_ok e0" by blast
  let ?go = "send_command demo_rng demo_link ''c1'' True (\<lambda>s p. Some (p = ''1234'')) ''ana'' ''conveyor-01'' demo_command demo_conveyor"
  obtain res audits' e' where run: "?go ([], e0) = (res, audits', e')" by (metis prod.exhaust)
  have codes: "CHR ''/'' \<notin> set (as_code a)" if "a \<in> set (rg_assets demo_conveyor)" for a
    using that by (simp add: demo_conveyor_def)
  note sound = write_back_gated [OF demo_rng_ok e0(2) codes run]
  obtain a where a: "get_by_code ''conveyor-01'' demo_conveyor = Some a" by (simp add: get_by_code_def demo_conveyor_def)
  obtain g e1 where g: "gateway_execute demo_rng demo_link ''c1'' (as_code a) (write_back_name (cq_command demo_command))
      (write_back_params (cq_command demo_command)) ''ana'' ''T3'' e0 = (g, e1)" by force
  then have "g = Inr None"
    by (auto simp: gateway_execute_def demo_link_def split: option.splits prod.splits)
  then have "res = Inl Ack_Timeout" using run a g by (simp add: send_command_def second_factor_def demo_command_def)
  with sound obtain b where "audits' = [command_row b ''c1'' (cq_command demo_command) None]" "engine_ok e'" by auto
  with e0(1) run \<open>res = Inl Ack_Timeout\<close> show ?thesis by (simp add: command_row_def)
qed

end
