(* ===== verification/Nlu_Slots.thy ===== *)
theory Nlu_Slots
  imports Nlu_Fuzzy Voice_Dialogue Kpi_Service
begin

text \<open>
  Slot parsing, \<open>packages/nlu/src/twinvoice_nlu/{slots,vocab}.py\<close>: the span a template captured becomes a
  typed value. Instants are microseconds of the plant's wall clock, as \<open>datetime\<close> computes with them inside
  one zone. Texts are ASCII.
\<close>

section \<open>Vocabularies\<close>

definition KPI_TERMS :: "(string \<times> string) list" where
  "KPI_TERMS = [(''oee'', ''oee''), (''o e e'', ''oee''), (''overall equipment effectiveness'', ''oee''),
     (''availability'', ''availability''), (''uptime'', ''availability''), (''performance'', ''performance''),
     (''quality'', ''quality''), (''mtbf'', ''mtbf''), (''mean time between failures'', ''mtbf''), (''mttr'', ''mttr''),
     (''mean time to repair'', ''mttr''), (''energy per unit'', ''energy_per_unit''),
     (''energy intensity'', ''energy_per_unit''), (''specific energy'', ''energy_per_unit''),
     (''idle energy share'', ''idle_energy_share''), (''idle share'', ''idle_energy_share''),
     (''peak demand'', ''peak_demand''), (''peak power'', ''peak_demand'')]"

definition PERIOD_TERMS :: "(string \<times> string \<times> int) list" where
  "PERIOD_TERMS = [(''today'', ''day'', 0), (''aaj'', ''day'', 0), (''yesterday'', ''day'', -1), (''kal'', ''day'', -1),
     (''this week'', ''week'', 0), (''is hafte'', ''week'', 0), (''last week'', ''week'', -1), (''pichle hafte'', ''week'', -1),
     (''this month'', ''month'', 0), (''last month'', ''month'', -1), (''this shift'', ''shift'', 0), (''last shift'', ''shift'', -1),
     (''last hour'', ''hour'', -1), (''last 24 hours'', ''day'', -1), (''right now'', ''hour'', 0), (''now'', ''hour'', 0),
     (''abhi'', ''hour'', 0)]"

definition SEVERITY_TERMS :: "(string \<times> string) list" where
  "SEVERITY_TERMS = [(''critical'', ''critical''), (''high'', ''high''), (''warning'', ''warning''), (''warn'', ''warning''),
     (''info'', ''info''), (''minor'', ''info'')]"

definition VIEW_TERMS :: "(string \<times> string) list" where
  "VIEW_TERMS = [(''fleet'', ''/''), (''dashboard'', ''/''), (''home'', ''/''), (''twin'', ''/twin''), (''explorer'', ''/explorer''),
     (''trends'', ''/explorer''), (''alarms'', ''/alarms''), (''maintenance'', ''/maintenance''),
     (''work orders'', ''/maintenance''), (''schedule'', ''/maintenance/schedule''), (''gantt'', ''/maintenance/schedule''),
     (''production'', ''/analytics/production''), (''oee'', ''/analytics/production''), (''energy'', ''/analytics/energy''),
     (''power'', ''/analytics/energy''), (''models'', ''/models''), (''reports'', ''/reports''),
     (''simulation'', ''/simulation''), (''voice'', ''/voice'')]"

definition REPORT_TYPE_TERMS :: "(string \<times> string) list" where
  "REPORT_TYPE_TERMS = [(''machine health'', ''machine_health''), (''health'', ''machine_health''),
     (''weekly maintenance'', ''weekly_maintenance''), (''weekly'', ''weekly_maintenance''),
     (''maintenance'', ''weekly_maintenance''), (''energy'', ''energy''), (''benchmark'', ''benchmark''),
     (''model benchmark'', ''benchmark''), (''incident'', ''incident''), (''failure'', ''incident'')]"

definition VERDICT_TERMS :: "(string \<times> string) list" where
  "VERDICT_TERMS = [(''wrong'', ''disagree''), (''incorrect'', ''disagree''), (''not right'', ''disagree''),
     (''disagree'', ''disagree''), (''galat'', ''disagree''), (''right'', ''agree''), (''correct'', ''agree''),
     (''agree'', ''agree''), (''sahi'', ''agree'')]"

definition WEEKDAYS :: "(string \<times> int) list" where
  "WEEKDAYS = [(''monday'', 0), (''tuesday'', 1), (''wednesday'', 2), (''thursday'', 3), (''friday'', 4), (''saturday'', 5),
     (''sunday'', 6), (''somwar'', 0), (''mangalwar'', 1), (''budhwar'', 2), (''guruwar'', 3), (''shukrawar'', 4),
     (''shanivar'', 5), (''ravivar'', 6)]"

definition TIME_OF_DAY :: "(string \<times> int) list" where
  "TIME_OF_DAY = [(''morning'', 8), (''subah'', 8), (''noon'', 12), (''afternoon'', 14), (''dopahar'', 14), (''evening'', 18),
     (''shaam'', 18), (''night'', 22), (''raat'', 22)]"

section \<open>Numbers\<close>

definition too_large :: "int \<Rightarrow> bool" where
  "too_large n \<longleftrightarrow> 2 ^ 1024 - 2 ^ 970 \<le> n"

datatype py_float = Finite real | Infinite | Not_A_Number

text \<open>\<open>float(token)\<close> on the tokens \<open>normalise\<close> leaves: digits with single underscores, an exponent, or a name.\<close>

fun digit_run :: "bool \<Rightarrow> string \<Rightarrow> int \<Rightarrow> int option" where
  "digit_run after [] n = (if after then Some n else None)"
| "digit_run after (c # cs) n =
     (if is_digit c then digit_run True cs (10 * n + digit_val c)
      else if c = CHR ''_'' \<and> after then digit_run False cs n else None)"

definition read_float :: "string \<Rightarrow> py_float option" where
  "read_float t =
     (if t \<in> {''inf'', ''infinity''} then Some Infinite
      else if t = ''nan'' then Some Not_A_Number
      else (case split_on (CHR ''e'') t of
              [m] \<Rightarrow> map_option (\<lambda>n. if too_large n then Infinite else Finite (of_int n)) (digit_run False m 0)
            | [m, e] \<Rightarrow> (case (digit_run False m 0, digit_run False e 0) of
                 (Some n, Some k) \<Rightarrow> Some (if too_large (n * 10 ^ nat k) then Infinite else Finite (of_int (n * 10 ^ nat k)))
               | _ \<Rightarrow> None)
            | _ \<Rightarrow> None))"

text \<open>\<open>text.replace(sub, "")\<close>.\<close>

function remove_sub :: "string \<Rightarrow> string \<Rightarrow> string" where
  "remove_sub sub s =
     (if s = [] then [] else if sub \<noteq> [] \<and> take (length sub) s = sub then remove_sub sub (drop (length sub) s)
      else hd s # remove_sub sub (tl s))"
  by pat_completeness auto
termination
  by (relation "measure (\<lambda>(sub, s). length s)") (auto simp: neq_Nil_conv)

declare remove_sub.simps [simp del]

definition number_token :: "string \<Rightarrow> py_float option" where
  "number_token t = (case read_float t of Some x \<Rightarrow> Some x | None \<Rightarrow> map_option (\<lambda>n. Finite (of_nat n)) (map_of NUMBER_WORDS t))"

fun first_some :: "('a \<Rightarrow> 'b option) \<Rightarrow> 'a list \<Rightarrow> 'b option" where
  "first_some f [] = None"
| "first_some f (x # xs) = (case f x of Some y \<Rightarrow> Some y | None \<Rightarrow> first_some f xs)"

definition parse_number :: "string \<Rightarrow> py_float option" where
  "parse_number t =
     (if t = [] then None else first_some number_token (split_words (remove_sub ''%'' (remove_sub ''percent'' (normalise t)))))"

section \<open>Times\<close>

record spoken_period =
  sp_code :: string
  sp_start :: int
  sp_end :: int

definition next_month :: "int \<Rightarrow> int" where
  "next_month first = first_of_month (first + 31 * DAY_US)"

definition previous_month :: "int \<Rightarrow> int" where
  "previous_month first = first_of_month (first - DAY_US)"

definition bucket_bounds :: "string \<Rightarrow> int \<Rightarrow> int \<Rightarrow> spoken_period" where
  "bucket_bounds bucket offset now =
     (if bucket = ''hour'' then
        (let start = now - now mod HOUR_US + offset * HOUR_US in \<lparr>sp_code = ''hour'', sp_start = start, sp_end = start + HOUR_US\<rparr>)
      else if bucket = ''day'' then
        (let start = midnight now + offset * DAY_US in \<lparr>sp_code = ''day'', sp_start = start, sp_end = start + DAY_US\<rparr>)
      else if bucket = ''week'' then
        (let start = midnight now - weekday now * DAY_US + offset * (7 * DAY_US)
         in \<lparr>sp_code = ''week'', sp_start = start, sp_end = start + 7 * DAY_US\<rparr>)
      else if bucket = ''month'' then
        (let first = ((if offset < 0 then previous_month else next_month) ^^ nat \<bar>offset\<bar>) (first_of_month now)
         in \<lparr>sp_code = ''month'', sp_start = first, sp_end = next_month first\<rparr>)
      else
        (let start = midnight now + 8 * offset * HOUR_US in \<lparr>sp_code = ''shift'', sp_start = start, sp_end = start + 8 * HOUR_US\<rparr>))"

definition parse_period :: "string \<Rightarrow> int \<Rightarrow> string \<Rightarrow> spoken_period" where
  "parse_period t now default_bucket =
     (case map_of PERIOD_TERMS (normalise t) of
        Some (bucket, offset) \<Rightarrow> bucket_bounds bucket offset now
      | None \<Rightarrow> bucket_bounds default_bucket 0 now)"

definition parse_datetime :: "string \<Rightarrow> int \<Rightarrow> int option" where
  "parse_datetime t now =
     (if t = [] then None
      else
        (let tokens = split_words (normalise t);
             hour = (case first_some (map_of TIME_OF_DAY) tokens of Some h \<Rightarrow> h | None \<Rightarrow> 8);
             base = midnight now + hour * HOUR_US
         in if ''tomorrow'' \<in> set tokens \<or> ''kal'' \<in> set tokens then Some (base + DAY_US)
            else if ''today'' \<in> set tokens \<or> ''aaj'' \<in> set tokens then Some base
            else (case first_some (map_of WEEKDAYS) tokens of
                    Some wd \<Rightarrow>
                      (let ahead = (wd - weekday now) mod 7;
                           ahead' = (if ahead = 0 \<or> ''next'' \<in> set tokens
                                     then ahead + (if base \<le> now \<or> ''next'' \<in> set tokens then 7 else 0) else ahead)
                       in Some (base + ahead' * DAY_US))
                  | None \<Rightarrow>
                      if ''week'' \<in> set tokens \<or> ''hafte'' \<in> set tokens then Some (base + 7 * DAY_US)
                      else if \<exists>w \<in> set tokens. map_of TIME_OF_DAY w \<noteq> None then Some (if now < base then base else base + DAY_US)
                      else None)))"

section \<open>Slots\<close>

datatype slot_value = V_Text string | V_Number py_float | V_Time int

definition lookup_term :: "(string \<times> string) list \<Rightarrow> string \<Rightarrow> string option" where
  "lookup_term vocab t = (if t = [] then None else map_of vocab (normalise t))"

definition WHAT_IF_PARAMETERS :: "(string \<times> string list) list" where
  "WHAT_IF_PARAMETERS =
     [(''maintenance_at'', [''service'', ''maintain'', ''maintenance'', ''wait'', ''repair'']),
      (''speed'', [''speed'', ''rpm'', ''feed'']), (''load'', [''load'', ''utilisation'', ''utilization'', ''duty''])]"

definition infer_missing :: "string \<Rightarrow> string \<Rightarrow> (string \<times> string) list \<Rightarrow> (string \<times> string) list" where
  "infer_missing intent_name utterance slots =
     (let t = normalise utterance;
          d1 = (if intent_name = ''run_what_if'' \<and> map_of slots ''parameter'' = None
                then dict_put ''parameter''
                  (case List.find (\<lambda>(p, markers). \<exists>w \<in> set markers. w \<in> set (split_words t)) WHAT_IF_PARAMETERS of
                     Some (p, markers) \<Rightarrow> p | None \<Rightarrow> ''load'') slots
                else slots);
          d2 = (if intent_name = ''give_feedback'' \<and> map_of d1 ''verdict'' = None
                then dict_put ''verdict''
                  (case List.find (\<lambda>(term, v). sublist term t) VERDICT_TERMS of Some (term, v) \<Rightarrow> v | None \<Rightarrow> ''disagree'') d1
                else d1)
      in if intent_name = ''navigate_dashboard'' \<and> map_of d2 ''view'' = None \<and> map_of d2 ''asset'' = None
            \<and> (sublist ''back'' t \<or> sublist ''wapas'' t)
         then dict_put ''view'' ''back'' d2 else d2)"

definition slot_values :: "string \<Rightarrow> string \<Rightarrow> string \<Rightarrow> int \<Rightarrow> (string \<times> slot_value) list" where
  "slot_values name kind v now =
     (let one = (\<lambda>r. case r of None \<Rightarrow> [] | Some x \<Rightarrow> [(name, x)])
      in if kind = ''asset'' \<or> kind = ''alarm'' then one (map_option V_Text (parse_asset v))
         else if kind = ''number'' then one (map_option V_Number (parse_number v))
         else if kind = ''kpi'' then one (map_option V_Text (lookup_term KPI_TERMS v))
         else if kind = ''severity'' then one (map_option V_Text (lookup_term SEVERITY_TERMS v))
         else if kind = ''report_type'' then one (map_option V_Text (lookup_term REPORT_TYPE_TERMS v))
         else if kind = ''verdict'' then [(name, V_Text (case lookup_term VERDICT_TERMS v of Some x \<Rightarrow> x | None \<Rightarrow> v))]
         else if kind = ''view'' then [(name, V_Text (case map_of VIEW_TERMS (normalise v) of Some x \<Rightarrow> x | None \<Rightarrow> v))]
         else if kind = ''period'' then
           (let p = parse_period v now ''day''
            in [(name, V_Text (sp_code p)), (''period_start'', V_Time (sp_start p)), (''period_end'', V_Time (sp_end p))])
         else if kind = ''datetime'' then one (map_option V_Time (parse_datetime v now))
         else [(name, V_Text (normalise v))])"

definition put_all :: "(string \<times> 'v) list \<Rightarrow> (string \<times> 'v) list \<Rightarrow> (string \<times> 'v) list" where
  "put_all ps d = foldl (\<lambda>d (k, v). dict_put k v d) d ps"

text \<open>A slot without a value of its own loses what an earlier slot of the same name left.\<close>

definition parse_slot :: "(string \<times> string) list \<Rightarrow> int \<Rightarrow> slot_def \<Rightarrow> (string \<times> slot_value) list \<Rightarrow> (string \<times> slot_value) list" where
  "parse_slot raw now s d =
     (case map_of raw (sl_name s) of
        None \<Rightarrow> d
      | Some v \<Rightarrow>
          (let vs = slot_values (sl_name s) (sl_type s) v now
           in if vs = [] then AList.delete (sl_name s) d else put_all vs d))"

definition parse_slots :: "intent_def \<Rightarrow> (string \<times> string) list \<Rightarrow> int \<Rightarrow> (string \<times> slot_value) list" where
  "parse_slots intent raw now = fold (parse_slot raw now) (in_slots intent) []"

end
