(* ===== verification/Nlu_Rules.thy ===== *)
theory Nlu_Rules
  imports Nlu_Slots
begin

text \<open>
  The rule stage of the router, \<open>packages/nlu/src/twinvoice_nlu/{rules,vocab,router}.py\<close>: templates compiled
  to regular expressions, matched against an utterance. \<open>re\<close> is modelled for the constructs the templates
  use: a matcher that lists what Python's backtracking would try, in its order, so that \<open>fullmatch\<close> is the
  first result that consumes everything. A text with an unclosed bracket raises when it is compiled.
\<close>

section \<open>Regular expressions\<close>

datatype char_class = Word_Pct | Digit_Class | Lower_Class | Space_Class | Any_Class

fun in_class :: "char_class \<Rightarrow> char \<Rightarrow> bool" where
  "in_class Word_Pct c = (is_word c \<or> c = CHR ''%'')"
| "in_class Digit_Class c = is_digit c"
| "in_class Lower_Class c = (let n = of_char c :: nat in 97 \<le> n \<and> n \<le> 122)"
| "in_class Space_Class c = is_space c"
| "in_class Any_Class c = (of_char c \<noteq> (10 :: nat))"

text \<open>\<open>R_Run False k n\<close> is \<open>k{n,}\<close>, \<open>R_Run True\<close> the lazy form; \<open>R_Opt True\<close> is \<open>??\<close>.\<close>

datatype regex =
    R_Lit string
  | R_One char_class
  | R_Run bool char_class nat
  | R_Cat regex regex
  | R_Alt "regex list"
  | R_Opt bool regex
  | R_Group string regex

definition R_Eps :: regex where "R_Eps = R_Lit []"

text \<open>A capture is the text and what followed it, so that its end is known.\<close>

type_synonym captures = "(string \<times> string \<times> string) list"

fun matches :: "regex \<Rightarrow> string \<Rightarrow> captures \<Rightarrow> (string \<times> captures) list" where
  "matches (R_Lit w) s e = (if take (length w) s = w then [(drop (length w) s, e)] else [])"
| "matches (R_One k) s e = (if s \<noteq> [] \<and> in_class k (hd s) then [(tl s, e)] else [])"
| "matches (R_Run lazy k n) s e =
     (let most = length (takeWhile (in_class k) s); ls = [n..<Suc most]
      in map (\<lambda>i. (drop i s, e)) (if lazy then ls else rev ls))"
| "matches (R_Cat r q) s e = concat (map (\<lambda>(s', e'). matches q s' e') (matches r s e))"
| "matches (R_Alt rs) s e = concat (map (\<lambda>r. matches r s e) rs)"
| "matches (R_Opt lazy r) s e = (if lazy then (s, e) # matches r s e else matches r s e @ [(s, e)])"
| "matches (R_Group name r) s e =
     map (\<lambda>(s', e'). (s', dict_put name (take (length s - length s') s, s') e')) (matches r s e)"

definition fullmatch :: "regex \<Rightarrow> string \<Rightarrow> captures option" where
  "fullmatch r s = map_option snd (List.find (\<lambda>(s', e). s' = []) (matches r s []))"

section \<open>Slot patterns\<close>

definition by_length :: "string list \<Rightarrow> string list" where
  "by_length ts = sort_key (\<lambda>t. - int (length t)) ts"

definition spaces :: regex where "spaces = R_Run False Space_Class 1"

definition alternation :: "string list \<Rightarrow> regex" where
  "alternation terms = R_Alt (map R_Lit (by_length terms))"

definition words_regex :: regex where "words_regex = R_Run False Word_Pct 1"

definition INDEX :: regex where
  "INDEX = R_Alt (R_Run False Digit_Class 1 # map R_Lit (by_length (map fst NUMBER_WORDS)))"

fun more_words :: "bool \<Rightarrow> nat \<Rightarrow> regex" where
  "more_words lazy 0 = R_Eps"
| "more_words lazy (Suc n) = R_Opt lazy (R_Cat spaces (R_Cat words_regex (more_words lazy n)))"

definition REFERENCE :: regex where
  "REFERENCE = R_Cat words_regex (R_Cat (more_words True 2) (R_Opt False (R_Cat spaces INDEX)))"

definition CLOSED_VOCABS :: "(string \<times> string list) list" where
  "CLOSED_VOCABS = [(''kpi'', map fst KPI_TERMS), (''period'', map fst PERIOD_TERMS), (''severity'', map fst SEVERITY_TERMS),
     (''view'', map fst VIEW_TERMS), (''report_type'', map fst REPORT_TYPE_TERMS), (''verdict'', map fst VERDICT_TERMS)]"

definition slot_pattern :: "string \<Rightarrow> regex" where
  "slot_pattern kind =
     (case map_of CLOSED_VOCABS kind of
        Some terms \<Rightarrow> alternation terms
      | None \<Rightarrow>
          if kind = ''asset'' \<or> kind = ''alarm'' then REFERENCE
          else if kind = ''datetime'' then R_Cat words_regex (more_words False 3)
          else if kind = ''number'' then R_Alt [R_Run False Digit_Class 1, R_Run False Lower_Class 1]
          else if kind = ''enum'' then words_regex
          else R_Cat words_regex (more_words False 6))"

section \<open>Template compilation\<close>

text \<open>\<open>FILLER\<close> is a set, whose order the alternation does not depend on.\<close>

definition FILLER :: "string list" where
  "FILLER = [''the'', ''a'', ''an'', ''is'', ''its'', ''are'', ''me'', ''do'', ''please'', ''of'', ''we'', ''i'', ''to'']"

definition FILLER_PATTERN :: regex where "FILLER_PATTERN = alternation FILLER"

definition ASR_CONFUSIONS :: "(string \<times> string list) list" where
  "ASR_CONFUSIONS = [(''two'', [''to'', ''too'']), (''to'', [''two'', ''too'']), (''four'', [''for'']), (''for'', [''four'']),
     (''one'', [''on'', ''won'']), (''on'', [''one'']), (''what'', [''watt'']), (''how'', [''now'']), (''show'', [''so'']),
     (''line'', [''lane'']), (''is'', [''its'']), (''kya'', [''kia'']), (''hai'', [''he'']), (''batao'', [''bata'']), (''ka'', [''ke''])]"

definition token_alternatives :: "string \<Rightarrow> string list" where
  "token_alternatives t = t # (case map_of ASR_CONFUSIONS t of None \<Rightarrow> [] | Some ts \<Rightarrow> ts)"

type_synonym part = "regex \<times> bool"

definition literal :: "string \<Rightarrow> part" where
  "literal t =
     (if t \<in> set FILLER then (FILLER_PATTERN, True)
      else (let ts = token_alternatives t in (if length ts = 1 then R_Lit t else R_Alt (map R_Lit ts), False)))"

text \<open>\<open>_join\<close>: the separator belongs to whichever side is present.\<close>

fun join_parts :: "bool \<Rightarrow> part list \<Rightarrow> regex" where
  "join_parts anchored [] = R_Eps"
| "join_parts anchored ((f, optional) # ps) =
     (if optional
      then R_Cat (R_Opt False (if anchored then R_Cat spaces f else R_Cat f spaces)) (join_parts anchored ps)
      else R_Cat (if anchored then R_Cat spaces f else f) (join_parts True ps))"

definition join :: "part list \<Rightarrow> regex" where
  "join ps = join_parts False ps"

definition keep_an_anchor :: "part list \<Rightarrow> part list" where
  "keep_an_anchor ps =
     (case ps of [] \<Rightarrow> [] | (f, optional) # rest \<Rightarrow> if \<exists>p \<in> set ps. \<not> snd p then ps else (f, False) # rest)"

text \<open>\<open>_group\<close>: the tokens from an opening bracket to the first that ends with its closer.\<close>

fun take_group :: "char \<Rightarrow> string list \<Rightarrow> (string list \<times> string list) option" where
  "take_group closer [] = None"
| "take_group closer (t # ts) =
     (if t \<noteq> [] \<and> last t = closer then Some ([t], ts)
      else map_option (apfst ((#) t)) (take_group closer ts))"

definition inner :: "string list \<Rightarrow> string" where
  "inner ts = (let s = join_on (CHR '' '') ts in take (length s - 2) (tl s))"

definition is_slot :: "string \<Rightarrow> bool" where
  "is_slot t \<longleftrightarrow> t \<noteq> [] \<and> hd t = CHR ''{'' \<and> last t = CHR ''}''"

definition slot_type_of :: "intent_def \<Rightarrow> string \<Rightarrow> string" where
  "slot_type_of intent name =
     (case List.find (\<lambda>s. sl_name s = name) (in_slots intent) of None \<Rightarrow> ''text'' | Some s \<Rightarrow> sl_type s)"

definition slot_part :: "intent_def \<Rightarrow> string \<Rightarrow> part" where
  "slot_part intent t =
     (let name = take (length t - 2) (tl t) in (R_Group name (slot_pattern (slot_type_of intent name)), False))"

definition text_size :: "string list \<Rightarrow> nat" where
  "text_size ts = sum_list (map (\<lambda>t. Suc (length t)) ts)"

lemma text_size_split [simp]: "text_size (split_on c s) = Suc (length s)"
proof -
  have "length (join_on c ts) + 1 = text_size ts" if "ts \<noteq> []" for ts
    using that by (induction c ts rule: join_on.induct) (auto simp: text_size_def)
  from this [of "split_on c s"] show ?thesis by simp
qed

lemma length_strip: "length (strip s) \<le> length s"
  unfolding strip_def by (metis length_dropWhile_le length_rev le_trans)

lemma length_join_on: "ts \<noteq> [] \<Longrightarrow> Suc (length (join_on c ts)) = text_size ts"
  by (induction c ts rule: join_on.induct) (auto simp: text_size_def)

lemma split_on_length: "p \<in> set (split_on c s) \<Longrightarrow> length p \<le> length s"
  using text_size_split [of c s] member_le_sum_list [of "Suc (length p)" "map (\<lambda>t. Suc (length t)) (split_on c s)"]
  by (auto simp: text_size_def simp del: text_size_split)

lemma take_group_parts:
  assumes "take_group closer ts = Some (g, rest)"
  shows "ts = g @ rest \<and> g \<noteq> [] \<and> last g \<noteq> [] \<and> last (last g) = closer"
  using assms by (induction closer ts arbitrary: g rule: take_group.induct) (auto split: if_splits)

lemma inner_length:
  assumes "take_group closer (t # ts) = Some (g, rest)" and "t \<noteq> []" and "hd t \<noteq> closer"
  shows "Suc (length (inner g)) < text_size g"
proof -
  note g = take_group_parts [OF assms(1)]
  then obtain g' where g': "g = t # g'" by (cases g) auto
  have "2 \<le> length (join_on (CHR '' '') g)"
  proof (cases g')
    case Nil
    with g g' assms(2,3) show ?thesis by (cases t; cases "tl t") auto
  next
    case (Cons a list)
    with g' assms(2) show ?thesis by (cases t) auto
  qed
  then show ?thesis using length_join_on [of g "CHR '' ''"] g' by (simp add: inner_def Let_def)
qed

lemma text_size_append [simp]: "text_size (xs @ ys) = text_size xs + text_size ys"
  by (simp add: text_size_def)

lemma text_size_Cons [simp]: "text_size (t # ts) = Suc (length t) + text_size ts"
  by (simp add: text_size_def)

text \<open>\<open>_parse\<close>: one part per literal token, slot or group; \<open>parse\<close> keeps an anchor.\<close>

function parse_tokens :: "intent_def \<Rightarrow> string list \<Rightarrow> part list option" where
  "parse_tokens I [] = Some []"
| "parse_tokens I (t # ts) =
     (if is_slot t then map_option ((#) (slot_part I t)) (parse_tokens I ts)
      else if t \<noteq> [] \<and> hd t = CHR ''('' then
        (case take_group (CHR '')'') (t # ts) of
           None \<Rightarrow> None
         | Some (g, rest) \<Rightarrow>
             (case those (map (\<lambda>opt. parse_tokens I (split_on (CHR '' '') (strip opt))) (split_on (CHR ''|'') (inner g))) of
                None \<Rightarrow> None
              | Some alts \<Rightarrow>
                  map_option ((#) (R_Alt (map (\<lambda>ps. join (keep_an_anchor ps)) alts), False)) (parse_tokens I rest)))
      else if t \<noteq> [] \<and> hd t = CHR ''['' then
        (case take_group (CHR '']'') (t # ts) of
           None \<Rightarrow> None
         | Some (g, rest) \<Rightarrow>
             (case parse_tokens I (split_on (CHR '' '') (inner g)) of
                None \<Rightarrow> None
              | Some ps \<Rightarrow> map_option ((#) (join (keep_an_anchor ps), True)) (parse_tokens I rest)))
      else map_option ((#) (literal t)) (parse_tokens I ts))"
  by pat_completeness auto
termination
proof (relation "measure (\<lambda>(I, ts). text_size ts)", goal_cases)
  case (3 I t ts x g rest opt)
  then have g: "take_group (CHR '')'') (t # ts) = Some (g, rest)" by simp
  have "length (strip opt) \<le> length (inner g)" using 3 split_on_length length_strip le_trans by blast
  moreover have "text_size g \<le> text_size (t # ts)" using take_group_parts [OF g] by (metis le_add1 text_size_append)
  ultimately show ?case using inner_length [OF g] 3 by (auto simp del: text_size_Cons)
next
  case (4 I t ts x g rest alts)
  then have g: "take_group (CHR '')'') (t # ts) = Some (g, rest)" by simp
  have "text_size (t # ts) = text_size g + text_size rest" "0 < text_size g"
    using take_group_parts [OF g] by (metis text_size_append, cases g) auto
  then show ?case by (simp del: text_size_Cons)
next
  case (5 I t ts x g rest)
  then have g: "take_group (CHR '']'') (t # ts) = Some (g, rest)" by simp
  have "text_size g \<le> text_size (t # ts)" using take_group_parts [OF g] by (metis le_add1 text_size_append)
  then show ?case using inner_length [OF g] 5 by (auto simp del: text_size_Cons)
next
  case (6 I t ts x g rest ps)
  then have g: "take_group (CHR '']'') (t # ts) = Some (g, rest)" by simp
  have "text_size (t # ts) = text_size g + text_size rest" "0 < text_size g"
    using take_group_parts [OF g] by (metis text_size_append, cases g) auto
  then show ?case by (simp del: text_size_Cons)
qed simp_all

declare parse_tokens.simps(2) [simp del]

definition parse_template :: "intent_def \<Rightarrow> string \<Rightarrow> part list option" where
  "parse_template I t = map_option keep_an_anchor (parse_tokens I (split_on (CHR '' '') t))"

fun group_names :: "regex \<Rightarrow> string list" where
  "group_names (R_Cat r q) = group_names r @ group_names q"
| "group_names (R_Alt rs) = concat (map group_names rs)"
| "group_names (R_Opt lazy r) = group_names r"
| "group_names (R_Group n r) = n # group_names r"
| "group_names r = []"

record template =
  tm_intent :: string
  tm_lang :: string
  tm_source :: string
  tm_pattern :: regex
  tm_relaxed :: regex
  tm_slots :: "string list"
  tm_open :: nat

definition relaxed :: "regex \<Rightarrow> regex" where
  "relaxed body =
     R_Cat (R_Opt False (R_Cat (R_Run True Any_Class 0) (R_One Space_Class)))
       (R_Cat body (R_Opt False (R_Cat (R_One Space_Class) (R_Run True Any_Class 0))))"

text \<open>A group name may stand once: \<open>re.compile\<close> raises on a second.\<close>

definition compile_template :: "intent_def \<Rightarrow> string \<Rightarrow> string \<Rightarrow> template option" where
  "compile_template I l t =
     (case parse_template I t of
        None \<Rightarrow> None
      | Some ps \<Rightarrow>
          (let body = join ps; names = group_names body
           in if \<not> distinct names then None
              else Some \<lparr>tm_intent = in_name I, tm_lang = l, tm_source = t, tm_pattern = body, tm_relaxed = relaxed body,
                tm_slots = names,
                tm_open = length (filter (\<lambda>n. map_of CLOSED_VOCABS (slot_type_of I n) = None) names)\<rparr>))"

definition compile_all :: "catalogue \<Rightarrow> template list option" where
  "compile_all c =
     those (concat (map (\<lambda>I. concat (map (\<lambda>(l, ts). map (compile_template I l) ts) (in_templates I))) (ct_intents c)))"

section \<open>Matching\<close>

definition EXACT_CONFIDENCE :: real where "EXACT_CONFIDENCE = 95 / 100"

definition RELAXED_CONFIDENCE :: real where "RELAXED_CONFIDENCE = 80 / 100"

record rule_match =
  rm_intent :: string
  rm_lang :: string
  rm_slots :: "(string \<times> string) list"
  rm_confidence :: real
  rm_template :: string
  rm_open :: nat
  rm_split :: bool

definition captured_slots :: "string list \<Rightarrow> captures \<Rightarrow> (string \<times> string) list" where
  "captured_slots names e =
     concat (map (\<lambda>n. case map_of e n of None \<Rightarrow> [] | Some (v, after) \<Rightarrow> if strip v = [] then [] else [(n, strip v)]) names)"

definition REFERENCE_SLOTS :: "string list" where "REFERENCE_SLOTS = [''asset'', ''alarm'', ''scope'']"

definition splits_a_reference :: "captures \<Rightarrow> bool" where
  "splits_a_reference e \<longleftrightarrow>
     (\<exists>n \<in> set REFERENCE_SLOTS. case map_of e n of
        None \<Rightarrow> False
      | Some (v, after) \<Rightarrow> (case split_words after of [] \<Rightarrow> False | w # _ \<Rightarrow> map_of NUMBER_WORDS w \<noteq> None))"

definition try_template :: "(template \<Rightarrow> regex) \<Rightarrow> real \<Rightarrow> string \<Rightarrow> template \<Rightarrow> rule_match option" where
  "try_template pat confidence utterance t =
     map_option (\<lambda>e. \<lparr>rm_intent = tm_intent t, rm_lang = tm_lang t, rm_slots = captured_slots (tm_slots t) e,
         rm_confidence = confidence, rm_template = tm_source t, rm_open = tm_open t, rm_split = splits_a_reference e\<rparr>)
       (fullmatch (pat t) utterance)"

definition match_key :: "rule_match \<Rightarrow> nat list" where
  "match_key m = [of_bool (rm_split m), sum_list (map (\<lambda>(n, v). length v) (rm_slots m)), rm_open m, length (rm_slots m)]"

fun lex_less :: "nat list \<Rightarrow> nat list \<Rightarrow> bool" where
  "lex_less (a # as) (b # bs) = (a < b \<or> a = b \<and> lex_less as bs)"
| "lex_less [] (b # bs) = True"
| "lex_less as [] = False"

text \<open>\<open>min\<close> returns the first of the least.\<close>

definition best_match :: "rule_match list \<Rightarrow> rule_match option" where
  "best_match ms =
     (case ms of [] \<Rightarrow> None | m # rest \<Rightarrow> Some (foldl (\<lambda>b x. if lex_less (match_key x) (match_key b) then x else b) m rest))"

definition candidates :: "(template \<Rightarrow> regex) \<Rightarrow> real \<Rightarrow> string \<Rightarrow> template list \<Rightarrow> rule_match list" where
  "candidates pat confidence utterance ts = List.map_filter (try_template pat confidence utterance) ts"

definition match_rules :: "template list \<Rightarrow> string \<Rightarrow> rule_match option" where
  "match_rules ts t =
     (let u = normalise t
      in if u = [] then None
         else (case best_match (candidates tm_pattern EXACT_CONFIDENCE u ts) of
                 Some m \<Rightarrow> Some m
               | None \<Rightarrow> best_match (candidates tm_relaxed RELAXED_CONFIDENCE u ts)))"

section \<open>The router\<close>

definition LLM_CONFIDENCE :: real where "LLM_CONFIDENCE = 75 / 100"

definition HELP_INTENT :: string where "HELP_INTENT = ''help''"

text \<open>
  The LLM's tool call: its name and its arguments as texts, nulls and empty ones gone, or no dictionary at
  all. No endpoint, an exception and an empty reply are all \<open>None\<close>.
\<close>

type_synonym llm_call = "string option \<times> (string \<times> string) list option"

definition llm_route :: "catalogue \<Rightarrow> (string \<Rightarrow> llm_call option) \<Rightarrow> string \<Rightarrow> (string \<times> (string \<times> string) list) option" where
  "llm_route c llm t =
     (case llm t of
        Some (Some name, Some args) \<Rightarrow> if cat_get c name = None then None else Some (name, args)
      | _ \<Rightarrow> None)"

record routed =
  ru_intent :: string
  ru_tier :: string
  ru_slots :: "(string \<times> slot_value) list"
  ru_raw :: "(string \<times> string) list"
  ru_confidence :: real
  ru_router :: string
  ru_lang :: string
  ru_control :: "string option"
  ru_template :: "string option"
  ru_missing :: "string list"

definition route_result ::
    "catalogue \<Rightarrow> string \<Rightarrow> (string \<times> string) list \<Rightarrow> real \<Rightarrow> string \<Rightarrow> string \<Rightarrow> int \<Rightarrow> string option \<Rightarrow> string option \<Rightarrow> string
       \<Rightarrow> routed option" where
  "route_result c name raw confidence router l now control tmpl utterance =
     (case cat_get c name of
        None \<Rightarrow> None
      | Some I \<Rightarrow>
          (let filled = (if utterance = [] then raw else infer_missing name utterance raw);
               slots = parse_slots I filled now
           in Some \<lparr>ru_intent = in_name I, ru_tier = in_tier I, ru_slots = slots, ru_raw = filled, ru_confidence = confidence,
                ru_router = router, ru_lang = l, ru_control = control, ru_template = tmpl,
                ru_missing = map sl_name (filter (\<lambda>s. sl_required s \<and> map_of slots (sl_name s) = None
                    \<and> sl_context s \<in> {None, Some []}) (in_slots I))\<rparr>))"

text \<open>\<open>None\<close> is the failed assertion: the catalogue lacks the intent.\<close>

definition route :: "catalogue \<Rightarrow> template list \<Rightarrow> (string \<Rightarrow> llm_call option) \<Rightarrow> string \<Rightarrow> int \<Rightarrow> string \<Rightarrow> routed option" where
  "route c ts llm t now l =
     (case control_word c t of
        Some w \<Rightarrow> route_result c HELP_INTENT [] 1 ''rules'' l now (Some w) None []
      | None \<Rightarrow>
          (case match_rules ts t of
             Some m \<Rightarrow> route_result c (rm_intent m) (rm_slots m) (rm_confidence m) ''rules'' (rm_lang m) now None (Some (rm_template m)) t
           | None \<Rightarrow>
               (case llm_route c llm t of
                  Some (name, args) \<Rightarrow> route_result c name args LLM_CONFIDENCE ''llm'' l now None None t
                | None \<Rightarrow> route_result c HELP_INTENT [] 0 ''none'' l now None None [])))"

definition route_understood :: "routed \<Rightarrow> bool" where
  "route_understood r \<longleftrightarrow> ru_router r \<noteq> ''none'' \<and> LOW_CONFIDENCE \<le> ru_confidence r"

end
