(* ===== verification/Nlu_Language.thy ===== *)
theory Nlu_Language
  imports Nlu_Rules
begin

text \<open>
  What a template of \<open>packages/nlu/src/twinvoice_nlu/rules.py\<close> recognises: the language of an expression, in
  which the backtracking matcher is sound and complete; the language of a compiled template, which is that
  of its parts said in order with white space between; and where the captures of a match come from.
\<close>

section \<open>The language of an expression\<close>

primrec denotes :: "regex \<Rightarrow> string set" where
  "denotes (R_Lit w) = {w}"
| "denotes (R_One k) = {[c] |c. in_class k c}"
| "denotes (R_Run lazy k n) = {s. n \<le> length s \<and> list_all (in_class k) s}"
| "denotes (R_Cat r q) = {u @ v |u v. u \<in> denotes r \<and> v \<in> denotes q}"
| "denotes (R_Alt rs) = \<Union> (set (map denotes rs))"
| "denotes (R_Opt lazy r) = insert [] (denotes r)"
| "denotes (R_Group n r) = denotes r"

lemma takeWhile_run: "i \<le> length (takeWhile P s) \<Longrightarrow> list_all P (take i s)"
proof -
  assume i: "i \<le> length (takeWhile P s)"
  have "take i s = take i (take (length (takeWhile P s)) s)" using i by (simp add: min.absorb1)
  then have "set (take i s) \<subseteq> set (takeWhile P s)" by (metis set_take_subset takeWhile_eq_take)
  then show ?thesis using set_takeWhileD by (fastforce simp: list_all_iff)
qed

lemma run_takeWhile: "list_all P u \<Longrightarrow> length u \<le> length (takeWhile P (u @ v))"
  by (simp add: list_all_iff takeWhile_append)

lemma matches_lang: "fst ` set (matches r s e) = {v. \<exists>u \<in> denotes r. s = u @ v}"
proof (induction r arbitrary: s e)
  case (R_Lit w)
  then show ?case by (auto, metis append_take_drop_id)
next
  case (R_One k)
  then show ?case by (cases s) auto
next
  case (R_Run lazy k n)
  have "v \<in> (\<lambda>i. drop i s) ` {n..<Suc (length (takeWhile (in_class k) s))} \<longleftrightarrow> (\<exists>u \<in> denotes (R_Run lazy k n). s = u @ v)" for v
  proof
    assume "v \<in> (\<lambda>i. drop i s) ` {n..<Suc (length (takeWhile (in_class k) s))}"
    then obtain i where i: "n \<le> i" "i \<le> length (takeWhile (in_class k) s)" "v = drop i s" by auto
    moreover have "i \<le> length s" using i(2) length_takeWhile_le le_trans by blast
    ultimately have "take i s \<in> denotes (R_Run lazy k n)" using takeWhile_run [OF i(2)] by simp
    then show "\<exists>u \<in> denotes (R_Run lazy k n). s = u @ v" using i(3) by (metis append_take_drop_id)
  next
    assume "\<exists>u \<in> denotes (R_Run lazy k n). s = u @ v"
    then obtain u where "n \<le> length u" "list_all (in_class k) u" "s = u @ v" by auto
    then show "v \<in> (\<lambda>i. drop i s) ` {n..<Suc (length (takeWhile (in_class k) s))}"
      using run_takeWhile [of "in_class k" u v] by (intro image_eqI [where x = "length u"]) auto
  qed
  moreover have "fst ` set (matches (R_Run lazy k n) s e) = (\<lambda>i. drop i s) ` {n..<Suc (length (takeWhile (in_class k) s))}"
    by (cases lazy) (auto simp: Let_def image_image simp del: upt_Suc)
  ultimately show ?case by blast
next
  case (R_Cat r q)
  have "fst ` set (matches (R_Cat r q) s e) = (\<Union>(s', e') \<in> set (matches r s e). {v. \<exists>u \<in> denotes q. s' = u @ v})"
    using R_Cat(2) by (auto simp: image_UN split_beta)
  also have "\<dots> = (\<Union>s' \<in> fst ` set (matches r s e). {v. \<exists>u \<in> denotes q. s' = u @ v})" by force
  also have "\<dots> = {v. \<exists>u \<in> denotes (R_Cat r q). s = u @ v}"
    unfolding R_Cat(1) by auto (metis append_assoc)+
  finally show ?case .
next
  case (R_Alt rs)
  then show ?case by (auto simp: image_UN)
next
  case (R_Opt lazy r)
  then show ?case by auto
next
  case (R_Group n r)
  have "fst ` set (matches (R_Group n r) s e) = fst ` set (matches r s e)" by (force simp: split_beta image_image)
  then show ?case using R_Group by simp
qed

lemma fullmatch_lang: "fullmatch r s \<noteq> None \<longleftrightarrow> s \<in> denotes r"
proof -
  have "fullmatch r s \<noteq> None \<longleftrightarrow> [] \<in> fst ` set (matches r s [])"
    by (force simp: fullmatch_def find_None_iff split_beta)
  then show ?thesis unfolding matches_lang by simp
qed

section \<open>The sentences of a template\<close>

text \<open>
  The abstract reading of a list of parts: the texts of the parts that are said, every required one among
  them, with white space between each two and none at the ends.
\<close>

fun picks :: "part list \<Rightarrow> string list set" where
  "picks [] = {[]}"
| "picks ((f, optional) # ps) = {w # ws |w ws. w \<in> denotes f \<and> ws \<in> picks ps} \<union> (if optional then picks ps else {})"

definition blank :: "string \<Rightarrow> bool" where
  "blank g \<longleftrightarrow> g \<noteq> [] \<and> list_all is_space g"

fun tailed :: "string list \<Rightarrow> string set" where
  "tailed [] = {[]}"
| "tailed (w # ws) = {g @ w @ r |g r. blank g \<and> r \<in> tailed ws}"

fun spaced :: "string list \<Rightarrow> string set" where
  "spaced [] = {[]}"
| "spaced (w # ws) = {w @ r |r. r \<in> tailed ws}"

lemma lang_spaces [simp]: "denotes spaces = {g. blank g}"
  by (auto simp: spaces_def blank_def Suc_le_eq) (simp_all add: list_all_iff)

lemma spaced_step: "ws \<noteq> [] \<Longrightarrow> spaced (w # ws) = {w @ g @ r |g r. blank g \<and> r \<in> spaced ws}"
  by (cases ws) auto

lemma tailed_Cons:
  "x \<in> \<Union> (tailed ` {w # ws |w ws. w \<in> A \<and> ws \<in> B}) \<longleftrightarrow>
     (\<exists>g w r. x = g @ w @ r \<and> blank g \<and> w \<in> A \<and> r \<in> \<Union> (tailed ` B))"
proof -
  have "x \<in> \<Union> (tailed ` {w # ws |w ws. w \<in> A \<and> ws \<in> B}) \<longleftrightarrow> (\<exists>w \<in> A. \<exists>ws \<in> B. x \<in> tailed (w # ws))" by blast
  then show ?thesis unfolding tailed.simps by blast
qed

lemma spaced_Cons:
  "x \<in> \<Union> (spaced ` {w # ws |w ws. w \<in> A \<and> ws \<in> B}) \<longleftrightarrow> (\<exists>w r. x = w @ r \<and> w \<in> A \<and> r \<in> \<Union> (tailed ` B))"
proof -
  have "x \<in> \<Union> (spaced ` {w # ws |w ws. w \<in> A \<and> ws \<in> B}) \<longleftrightarrow> (\<exists>w \<in> A. \<exists>ws \<in> B. x \<in> spaced (w # ws))" by blast
  then show ?thesis unfolding spaced.simps by blast
qed

lemma lang_cat: "x \<in> denotes (R_Cat r q) \<longleftrightarrow> (\<exists>u v. x = u @ v \<and> u \<in> denotes r \<and> v \<in> denotes q)"
  by simp

lemma lang_tail:
  "x \<in> denotes (R_Cat (R_Cat spaces f) q) \<longleftrightarrow> (\<exists>g w r. x = g @ w @ r \<and> blank g \<and> w \<in> denotes f \<and> r \<in> denotes q)"
  unfolding lang_cat lang_spaces mem_Collect_eq by (metis append_assoc)

lemma lang_head:
  "x \<in> denotes (R_Cat (R_Cat f spaces) q) \<longleftrightarrow> (\<exists>w g r. x = w @ g @ r \<and> w \<in> denotes f \<and> blank g \<and> r \<in> denotes q)"
  unfolding lang_cat lang_spaces mem_Collect_eq by (metis append_assoc)

lemma lang_opt: "denotes (R_Cat (R_Opt lazy r) q) = denotes (R_Cat r q) \<union> denotes q"
  by auto

lemma join_anchored: "denotes (join_parts True ps) = \<Union> (tailed ` picks ps)"
proof (induction ps)
  case Nil
  then show ?case by (simp add: R_Eps_def)
next
  case (Cons p ps)
  obtain f optional where p: "p = (f, optional)" by (cases p)
  have head: "denotes (R_Cat (R_Cat spaces f) (join_parts True ps)) = \<Union> (tailed ` {w # ws |w ws. w \<in> denotes f \<and> ws \<in> picks ps})"
    unfolding set_eq_iff lang_tail tailed_Cons Cons by blast
  show ?case
  proof (cases optional)
    case True
    then show ?thesis unfolding p by (simp add: head lang_opt Cons image_Un del: denotes.simps(4))
  next
    case False
    then show ?thesis unfolding p by (simp add: head del: denotes.simps(4))
  qed
qed

lemma picks_some: "ws \<in> picks ps \<Longrightarrow> \<exists>p \<in> set ps. \<not> snd p \<Longrightarrow> ws \<noteq> []"
  by (induction ps rule: picks.induct) (auto split: if_splits)

lemma join_required:
  assumes "\<exists>p \<in> set ps. \<not> snd p"
  shows "denotes (join ps) = \<Union> (spaced ` picks ps)"
  unfolding join_def using assms
proof (induction ps)
  case Nil
  then show ?case by simp
next
  case (Cons p ps)
  obtain f optional where p: "p = (f, optional)" by (cases p)
  show ?case
  proof (cases optional)
    case True
    then have req: "\<exists>p \<in> set ps. \<not> snd p" using Cons(2) p by auto
    have spread: "x \<in> \<Union> (spaced ` {w # ws |w ws. w \<in> denotes f \<and> ws \<in> picks ps}) \<longleftrightarrow>
        (\<exists>w g r. x = w @ g @ r \<and> w \<in> denotes f \<and> blank g \<and> r \<in> \<Union> (spaced ` picks ps))" for x
    proof -
      have "x \<in> \<Union> (spaced ` {w # ws |w ws. w \<in> denotes f \<and> ws \<in> picks ps}) \<longleftrightarrow>
          (\<exists>w \<in> denotes f. \<exists>ws \<in> picks ps. x \<in> spaced (w # ws))" by blast
      also have "\<dots> \<longleftrightarrow> (\<exists>w \<in> denotes f. \<exists>ws \<in> picks ps. x \<in> {w @ g @ r |g r. blank g \<and> r \<in> spaced ws})"
        using spaced_step [OF picks_some [OF _ req]] by simp
      finally show ?thesis by blast
    qed
    have head: "denotes (R_Cat (R_Cat f spaces) (join_parts False ps)) =
        \<Union> (spaced ` {w # ws |w ws. w \<in> denotes f \<and> ws \<in> picks ps})"
      by (rule set_eqI) (simp only: lang_head Cons(1) [OF req] spread)
    show ?thesis unfolding p using True
      by (simp add: lang_opt head Cons(1) [OF req] image_Un del: denotes.simps(4))
  next
    case False
    have "denotes (R_Cat f (join_parts True ps)) = \<Union> (spaced ` {w # ws |w ws. w \<in> denotes f \<and> ws \<in> picks ps})"
      by (rule set_eqI) (simp only: lang_cat spaced_Cons join_anchored)
    then show ?thesis unfolding p using False by (simp del: denotes.simps(4))
  qed
qed

lemma keep_an_anchor_required: "ps \<noteq> [] \<Longrightarrow> \<exists>p \<in> set (keep_an_anchor ps). \<not> snd p"
  by (cases ps) (auto simp: keep_an_anchor_def split_beta)

lemma join_kept: "denotes (join (keep_an_anchor ps)) = \<Union> (spaced ` picks (keep_an_anchor ps))"
proof (cases "ps = []")
  case True
  then show ?thesis by (simp add: keep_an_anchor_def join_def R_Eps_def)
next
  case False
  then show ?thesis by (rule join_required [OF keep_an_anchor_required])
qed


section \<open>Captures\<close>

fun groups :: "regex \<Rightarrow> (string \<times> regex) list" where
  "groups (R_Cat r q) = groups r @ groups q"
| "groups (R_Alt rs) = concat (map groups rs)"
| "groups (R_Opt lazy r) = groups r"
| "groups (R_Group n r) = (n, r) # groups r"
| "groups r = []"

lemma group_names_groups: "group_names r = map fst (groups r)"
  by (induction r rule: groups.induct) (auto simp: map_concat intro: arg_cong [where f = concat])

lemma matches_step: "(s', e') \<in> set (matches r s e) \<Longrightarrow> \<exists>u \<in> denotes r. s = u @ s'"
proof -
  assume "(s', e') \<in> set (matches r s e)"
  then have "s' \<in> fst ` set (matches r s e)" by (metis fst_conv imageI)
  then show ?thesis unfolding matches_lang by simp
qed

text \<open>A capture is a piece of the utterance, and a word of its slot's pattern.\<close>

definition taken :: "regex \<Rightarrow> string \<Rightarrow> string \<Rightarrow> string \<times> string \<Rightarrow> bool" where
  "taken r s n c \<longleftrightarrow> (\<exists>pre q. s = pre @ fst c @ snd c \<and> (n, q) \<in> set (groups r) \<and> fst c \<in> denotes q)"

lemma matches_taken:
  "(s', e') \<in> set (matches r s e) \<Longrightarrow> map_of e' n = Some c \<Longrightarrow> map_of e n = Some c \<or> taken r s n c"
proof (induction r arbitrary: s e s' e')
  case (R_Cat r q)
  from R_Cat.prems(1) obtain s1 e1 where
    one: "(s1, e1) \<in> set (matches r s e)" and two: "(s', e') \<in> set (matches q s1 e1)" by auto
  obtain u where u: "s = u @ s1" using matches_step [OF one] by auto
  from R_Cat.IH(2) [OF two R_Cat.prems(2)] show ?case
  proof
    assume "map_of e1 n = Some c"
    from R_Cat.IH(1) [OF one this] show ?thesis by (auto simp: taken_def)
  next
    assume "taken q s1 n c"
    then obtain pre where "s1 = pre @ fst c @ snd c" and "\<exists>p. (n, p) \<in> set (groups q) \<and> fst c \<in> denotes p"
      by (auto simp: taken_def)
    moreover have "s = (u @ pre) @ fst c @ snd c" using u calculation(1) by simp
    ultimately have "taken (R_Cat r q) s n c" unfolding taken_def by auto
    then show ?thesis ..
  qed
next
  case (R_Alt rs)
  then obtain r where r: "r \<in> set rs" "(s', e') \<in> set (matches r s e)" by auto
  have "taken r s n c \<Longrightarrow> taken (R_Alt rs) s n c" using r(1) unfolding taken_def by fastforce
  then show ?case using R_Alt.IH [OF r R_Alt.prems(2)] by blast
next
  case (R_Opt lazy r)
  then show ?case by (auto simp: taken_def split: if_splits) blast+
next
  case (R_Group m r)
  from R_Group.prems(1) obtain e1 where
    one: "(s', e1) \<in> set (matches r s e)" and e': "e' = dict_put m (take (length s - length s') s, s') e1" by auto
  obtain u where u: "s = u @ s'" "u \<in> denotes r" using matches_step [OF one] by auto
  show ?case
  proof (cases "n = m")
    case True
    then have "c = (u, s')" using R_Group.prems(2) e' u by (simp add: update_conv')
    then show ?thesis using u True by (auto simp: taken_def)
  next
    case False
    then have "map_of e1 n = Some c" using R_Group.prems(2) e' by (simp add: update_conv')
    from R_Group.IH [OF one this] show ?thesis by (auto simp: taken_def)
  qed
qed (auto split: if_splits simp: Let_def)

lemma fullmatch_taken:
  assumes "fullmatch r s = Some e" and "map_of e n = Some c"
  shows "taken r s n c"
proof -
  from assms(1) obtain s' where "(s', e) \<in> set (matches r s [])"
    by (auto simp: fullmatch_def find_Some_iff) (metis nth_mem)
  from matches_taken [OF this assms(2)] show ?thesis by simp
qed

section \<open>The groups of a template\<close>

text \<open>Every group of a compiled template is one of its slots, with the pattern of the slot's type.\<close>

definition slots_of :: "intent_def \<Rightarrow> regex \<Rightarrow> bool" where
  "slots_of I r \<longleftrightarrow> (\<forall>(n, q) \<in> set (groups r). q = slot_pattern (slot_type_of I n))"

lemma slots_of_simps [simp]:
  "slots_of I (R_Lit w)" "slots_of I (R_One k)" "slots_of I (R_Run lazy k m)"
  "slots_of I (R_Cat r q) \<longleftrightarrow> slots_of I r \<and> slots_of I q"
  "slots_of I (R_Alt rs) \<longleftrightarrow> list_all (slots_of I) rs"
  "slots_of I (R_Opt lazy r) \<longleftrightarrow> slots_of I r"
  by (auto simp: slots_of_def list_all_iff)

lemma groups_alternation [simp]: "groups (alternation ts) = []"
  by (simp add: alternation_def)

lemma groups_more_words [simp]: "groups (more_words lazy k) = []"
  by (induction k) (simp_all add: R_Eps_def spaces_def words_regex_def)

lemma groups_slot_pattern [simp]: "groups (slot_pattern kind) = []"
  by (auto simp: slot_pattern_def REFERENCE_def INDEX_def spaces_def words_regex_def comp_def split: option.split)

lemma slots_of_slot_part: "slots_of I (fst (slot_part I t))"
  by (simp add: slots_of_def slot_part_def Let_def)

lemma slots_of_literal: "slots_of I (fst (literal t))"
  by (auto simp: slots_of_def literal_def FILLER_PATTERN_def Let_def)

lemma slots_of_join_parts: "list_all (slots_of I) (map fst ps) \<Longrightarrow> slots_of I (join_parts anchored ps)"
  by (induction anchored ps rule: join_parts.induct) (auto simp: R_Eps_def spaces_def)

lemma slots_of_join_kept: "list_all (slots_of I) (map fst ps) \<Longrightarrow> slots_of I (join (keep_an_anchor ps))"
  unfolding join_def by (rule slots_of_join_parts) (auto simp: keep_an_anchor_def split: list.split if_splits)

lemma slots_of_parse_tokens: "parse_tokens I ts = Some ps \<Longrightarrow> list_all (slots_of I) (map fst ps)"
proof (induction I ts arbitrary: ps rule: parse_tokens.induct)
  case (1 I)
  then show ?case by simp
next
  case (2 I t ts)
  consider (slot) "is_slot t" | (alt) "\<not> is_slot t" "t \<noteq> []" "hd t = CHR ''(''"
    | (opt) "\<not> is_slot t" "t \<noteq> []" "hd t = CHR ''[''"
    | (lit) "\<not> is_slot t" "\<not> (t \<noteq> [] \<and> hd t = CHR ''('')" "\<not> (t \<noteq> [] \<and> hd t = CHR ''['')" by blast
  then show ?case
  proof cases
    case slot
    then show ?thesis using 2 slots_of_slot_part by (auto simp: parse_tokens.simps(2))
  next
    case lit
    then have "parse_tokens I (t # ts) = map_option ((#) (literal t)) (parse_tokens I ts)"
      by (simp only: parse_tokens.simps(2) if_False simp_thms)
    with 2(7) obtain ps' where "parse_tokens I ts = Some ps'" "ps = literal t # ps'"
      by (cases "parse_tokens I ts") auto
    then show ?thesis using 2(6) [OF lit] slots_of_literal by simp
  next
    case alt
    then obtain g rest where g: "take_group (CHR '')'') (t # ts) = Some (g, rest)"
      using 2(7) by (cases "take_group (CHR '')'') (t # ts)") (auto simp: parse_tokens.simps(2))
    let ?part = "\<lambda>opt. parse_tokens I (split_on (CHR '' '') (strip opt))"
    obtain alts ps' where alts: "those (map ?part (split_on (CHR ''|'') (inner g))) = Some alts"
      and ps': "parse_tokens I rest = Some ps'"
      and ps: "ps = (R_Alt (map (\<lambda>ps. join (keep_an_anchor ps)) alts), False) # ps'"
      using 2(7) alt g by (auto simp: parse_tokens.simps(2) split: option.splits)
    have "slots_of I (join (keep_an_anchor x))" if "x \<in> set alts" for x
    proof -
      have "Some x \<in> set (map ?part (split_on (CHR ''|'') (inner g)))" using those_members [OF alts that] .
      then obtain opt' where "opt' \<in> set (split_on (CHR ''|'') (inner g))" "?part opt' = Some x" by auto
      then show ?thesis using 2(2) alt g slots_of_join_kept by blast
    qed
    moreover have "list_all (slots_of I) (map fst ps')" using 2(3) alt g alts ps' by blast
    ultimately show ?thesis unfolding ps by (simp add: list_all_iff)
  next
    case opt
    then obtain g rest where g: "take_group (CHR '']'') (t # ts) = Some (g, rest)"
      using 2(7) by (cases "take_group (CHR '']'') (t # ts)") (auto simp: parse_tokens.simps(2))
    obtain xs ps' where xs: "parse_tokens I (split_on (CHR '' '') (inner g)) = Some xs"
      and ps': "parse_tokens I rest = Some ps'" and ps: "ps = (join (keep_an_anchor xs), True) # ps'"
      using 2(7) opt g by (auto simp: parse_tokens.simps(2) split: option.splits)
    have "slots_of I (join (keep_an_anchor xs))" using 2(4) opt g xs slots_of_join_kept by fastforce
    moreover have "list_all (slots_of I) (map fst ps')" using 2(5) opt g xs ps' by fastforce
    ultimately show ?thesis unfolding ps by simp
  qed
qed

section \<open>Compiled templates\<close>

lemma compile_body:
  assumes "compile_template I l t = Some T"
  obtains ps where "parse_template I t = Some ps" and "tm_pattern T = join ps" and "tm_relaxed T = relaxed (join ps)"
    and "tm_slots T = map fst (groups (join ps))" and "tm_intent T = in_name I" and "slots_of I (join ps)"
proof -
  from assms obtain ps where ps: "parse_template I t = Some ps" by (auto simp: compile_template_def split: option.splits)
  moreover from ps obtain qs where "parse_tokens I (split_on (CHR '' '') t) = Some qs" "ps = keep_an_anchor qs"
    by (auto simp: parse_template_def)
  then have "slots_of I (join ps)" using slots_of_parse_tokens slots_of_join_kept by blast
  moreover have "T = \<lparr>tm_intent = in_name I, tm_lang = l, tm_source = t, tm_pattern = join ps, tm_relaxed = relaxed (join ps),
      tm_slots = group_names (join ps),
      tm_open = length (filter (\<lambda>n. map_of CLOSED_VOCABS (slot_type_of I n) = None) (group_names (join ps)))\<rparr>"
    using assms ps by (simp add: compile_template_def Let_def split: if_splits)
  ultimately show ?thesis by (intro that) (simp_all add: group_names_groups)
qed

lemma groups_relaxed [simp]: "groups (relaxed r) = groups r"
  by (simp add: relaxed_def)

lemma compiled_taken:
  assumes "compile_template I l t = Some T" and "fullmatch r s = Some e" and "r = tm_pattern T \<or> r = tm_relaxed T"
    and "map_of e n = Some (v, after)"
  shows "(\<exists>pre. s = pre @ v @ after) \<and> v \<in> denotes (slot_pattern (slot_type_of I n))"
proof -
  from assms(1) obtain ps where ps: "tm_pattern T = join ps" "tm_relaxed T = relaxed (join ps)" "slots_of I (join ps)"
    by (rule compile_body)
  have "groups r = groups (join ps)" using assms(3) ps by auto
  with fullmatch_taken [OF assms(2,4)] ps(3) show ?thesis by (auto simp: taken_def slots_of_def)
qed

text \<open>
  Property C17. A compiled template recognises exactly its sentences: the words of its parts in order, every
  required part and any of the optional ones, separated by white space, with none before the first or after
  the last. The backtracking matcher finds a match whenever there is one.
\<close>

theorem template_recognises:
  assumes "compile_template I l t = Some T"
  shows "fullmatch (tm_pattern T) s \<noteq> None \<longleftrightarrow> (\<exists>ps ws. parse_template I t = Some ps \<and> ws \<in> picks ps \<and> s \<in> spaced ws)"
proof -
  from assms obtain ps where ps: "parse_template I t = Some ps" "tm_pattern T = join ps" by (rule compile_body)
  from ps(1) obtain qs where "ps = keep_an_anchor qs" by (auto simp: parse_template_def)
  then show ?thesis unfolding ps(2) fullmatch_lang using ps(1) by (auto simp: join_kept)
qed

definition status_intent :: intent_def where
  "status_intent = \<lparr>in_name = ''get_machine_status'', in_tier = ''T0'', in_summary = [],
     in_slots = [\<lparr>sl_name = ''asset'', sl_type = ''asset'', sl_required = True, sl_context = Some ''current_asset'', sl_values = []\<rparr>],
     in_templates = [(''en'', [''[what is the] status of {asset}''])], in_samples = []\<rparr>"

definition status_template :: template where
  "status_template = the (compile_template status_intent ''en'' ''[what is the] status of {asset}'')"

lemma compile_status: "compile_template status_intent ''en'' ''[what is the] status of {asset}'' = Some status_template"
  by code_simp

lemma status_matches: "fullmatch (tm_pattern status_template) ''status press two'' \<noteq> None"
  by code_simp

theorem template_recognises_witness:
  "\<exists>ps ws. parse_template status_intent ''[what is the] status of {asset}'' = Some ps \<and> ws \<in> picks ps
     \<and> ''status press two'' \<in> spaced ws"
  using template_recognises [OF compile_status, of "''status press two''"] status_matches by simp

end
