(* ===== verification/Nlu_Router.thy ===== *)
theory Nlu_Router
  imports Nlu_Language
begin

text \<open>
  What the router of \<open>packages/nlu/src/twinvoice_nlu/{rules,router}.py\<close> guarantees: the rule stage invents no
  slot value, a closed slot is never captured without a meaning, the match chosen is the least of its pass,
  and the router understands exactly what a control word, a template or the LLM explains.
\<close>

section \<open>The candidates of a pass\<close>

lemma compile_all_member:
  assumes "compile_all c = Some ts" and "T \<in> set ts"
  obtains I l t where "I \<in> set (ct_intents c)" and "compile_template I l t = Some T"
proof -
  from those_members [OF assms [unfolded compile_all_def]] show ?thesis
    by (auto intro: that)
qed

lemma candidates_member:
  assumes "m \<in> set (candidates pat confidence u ts)"
  obtains T e where "T \<in> set ts" and "fullmatch (pat T) u = Some e"
    and "m = \<lparr>rm_intent = tm_intent T, rm_lang = tm_lang T, rm_slots = captured_slots (tm_slots T) e,
           rm_confidence = confidence, rm_template = tm_source T, rm_open = tm_open T, rm_split = splits_a_reference e\<rparr>"
  using assms by (auto simp: candidates_def List.map_filter_def try_template_def)

lemma candidates_Nil: "candidates pat confidence u ts = [] \<longleftrightarrow> (\<forall>T \<in> set ts. fullmatch (pat T) u = None)"
  by (auto simp: candidates_def List.map_filter_def try_template_def filter_empty_conv)

text \<open>\<open>lex_less\<close> orders keys strictly.\<close>

lemma lex_less_irrefl: "\<not> lex_less as as"
  by (induction as) auto

lemma lex_less_trans: "lex_less as bs \<Longrightarrow> lex_less bs cs \<Longrightarrow> lex_less as cs"
proof (induction as bs arbitrary: cs rule: lex_less.induct)
  case (1 a as b bs)
  then show ?case by (cases cs) auto
next
  case (2 b bs)
  then show ?case by (cases cs) auto
qed simp

lemma lex_less_total: "\<not> lex_less as bs \<Longrightarrow> lex_less bs cs \<or> \<not> lex_less as cs"
proof (induction as bs arbitrary: cs rule: lex_less.induct)
  case (1 a as b bs)
  then show ?case by (cases cs) auto
next
  case (3 as)
  then show ?case by (cases as; cases cs) auto
qed simp

definition keep_least :: "rule_match \<Rightarrow> rule_match \<Rightarrow> rule_match" where
  "keep_least b x = (if lex_less (match_key x) (match_key b) then x else b)"

lemma foldl_least:
  "foldl keep_least m ms \<in> insert m (set ms)
   \<and> (\<forall>x \<in> insert m (set ms). \<not> lex_less (match_key x) (match_key (foldl keep_least m ms)))"
proof (induction ms arbitrary: m)
  case Nil
  then show ?case by (simp add: lex_less_irrefl)
next
  case (Cons y ms)
  define b where "b = foldl keep_least (keep_least m y) ms"
  from Cons [of "keep_least m y"] have mem: "b \<in> insert (keep_least m y) (set ms)"
    and least: "\<not> lex_less (match_key (keep_least m y)) (match_key b)"
    and rest: "\<forall>x \<in> set ms. \<not> lex_less (match_key x) (match_key b)" by (auto simp: b_def)
  have both: "keep_least m y \<in> {m, y} \<and> \<not> lex_less (match_key m) (match_key b) \<and> \<not> lex_less (match_key y) (match_key b)"
  proof (cases "lex_less (match_key y) (match_key m)")
    case True
    then have "keep_least m y = y" by (simp add: keep_least_def)
    then show ?thesis using least lex_less_trans [OF True] by auto
  next
    case False
    then have "keep_least m y = m" by (simp add: keep_least_def)
    then show ?thesis using least lex_less_total [OF False] by auto
  qed
  have "foldl keep_least m (y # ms) = b" by (simp add: b_def)
  then show ?case using mem rest both by auto
qed

lemma best_match_least:
  assumes "best_match ms = Some m"
  shows "m \<in> set ms" and "m' \<in> set ms \<Longrightarrow> \<not> lex_less (match_key m') (match_key m)"
proof -
  from assms obtain x xs where ms: "ms = x # xs" and m: "m = foldl keep_least x xs"
    by (auto simp: best_match_def keep_least_def [abs_def] split: list.splits)
  show "m \<in> set ms" and "m' \<in> set ms \<Longrightarrow> \<not> lex_less (match_key m') (match_key m)"
    using foldl_least [of x xs] unfolding ms m by auto
qed

lemma best_match_None [simp]: "best_match ms = None \<longleftrightarrow> ms = []"
  by (simp add: best_match_def split: list.split)

text \<open>The pass a match comes from: the exact one, or the relaxed one when the exact one found nothing.\<close>

definition the_pass :: "template list \<Rightarrow> string \<Rightarrow> rule_match list" where
  "the_pass ts u =
     (if \<exists>T \<in> set ts. fullmatch (tm_pattern T) u \<noteq> None then candidates tm_pattern EXACT_CONFIDENCE u ts
      else candidates tm_relaxed RELAXED_CONFIDENCE u ts)"

lemma match_rules_pass: "match_rules ts t = (if normalise t = [] then None else best_match (the_pass ts (normalise t)))"
proof (cases "candidates tm_pattern EXACT_CONFIDENCE (normalise t) ts = []")
  case True
  then have "\<not> (\<exists>T \<in> set ts. fullmatch (tm_pattern T) (normalise t) \<noteq> None)" by (simp add: candidates_Nil)
  then show ?thesis using True by (simp add: match_rules_def the_pass_def Let_def best_match_def)
next
  case False
  then have "\<exists>T \<in> set ts. fullmatch (tm_pattern T) (normalise t) \<noteq> None" by (simp add: candidates_Nil)
  moreover obtain m where "best_match (candidates tm_pattern EXACT_CONFIDENCE (normalise t) ts) = Some m"
    using False by (cases "best_match (candidates tm_pattern EXACT_CONFIDENCE (normalise t) ts)") auto
  ultimately show ?thesis by (simp add: match_rules_def the_pass_def Let_def)
qed

lemma match_rules_member:
  assumes "match_rules ts t = Some m"
  shows "m \<in> set (the_pass ts (normalise t))"
  using assms best_match_least(1) by (auto simp: match_rules_pass split: if_splits)

lemma pass_template:
  assumes "m \<in> set (the_pass ts u)"
  obtains T r e where "T \<in> set ts" and "r = tm_pattern T \<or> r = tm_relaxed T" and "fullmatch r u = Some e"
    and "rm_intent m = tm_intent T" and "rm_slots m = captured_slots (tm_slots T) e" and "rm_split m = splits_a_reference e"
    and "rm_confidence m \<in> {EXACT_CONFIDENCE, RELAXED_CONFIDENCE}"
proof -
  from assms have "m \<in> set (candidates tm_pattern EXACT_CONFIDENCE u ts) \<or> m \<in> set (candidates tm_relaxed RELAXED_CONFIDENCE u ts)"
    by (auto simp: the_pass_def split: if_splits)
  then show ?thesis
  proof (elim disjE candidates_member, goal_cases)
    case (1 T e)
    then show ?case by (intro that [of T "tm_pattern T" e]) simp_all
  next
    case (2 T e)
    then show ?case by (intro that [of T "tm_relaxed T" e]) simp_all
  qed
qed

section \<open>Captured slots\<close>

lemma captured_slots_member:
  assumes "(n, v) \<in> set (captured_slots names e)"
  obtains raw after where "map_of e n = Some (raw, after)" and "v = strip raw" and "v \<noteq> []" and "n \<in> set names"
  using assms by (auto simp: captured_slots_def split: option.splits if_splits intro: that [OF sym])

text \<open>
  Property C33. The rule stage invents nothing: every slot value it returns is a piece of the utterance, less
  the white space around it, and a text of the pattern its slot's type contributes; the intent is one of the
  catalogue's.
\<close>

theorem slots_are_spoken:
  assumes "compile_all c = Some ts" and "match_rules ts t = Some m" and "(n, v) \<in> set (rm_slots m)"
  shows "\<exists>I \<in> set (ct_intents c). rm_intent m = in_name I
    \<and> (\<exists>pre raw post. normalise t = pre @ raw @ post \<and> v = strip raw \<and> v \<noteq> [] \<and> raw \<in> denotes (slot_pattern (slot_type_of I n)))"
proof -
  from match_rules_member [OF assms(2)] obtain T r e where T: "T \<in> set ts" "r = tm_pattern T \<or> r = tm_relaxed T"
    "fullmatch r (normalise t) = Some e" "rm_intent m = tm_intent T" "rm_slots m = captured_slots (tm_slots T) e"
    by (rule pass_template)
  from assms(1) T(1) obtain I l tmpl where I: "I \<in> set (ct_intents c)" "compile_template I l tmpl = Some T"
    by (rule compile_all_member)
  from assms(3) [unfolded T(5)] obtain raw after where raw: "map_of e n = Some (raw, after)" "v = strip raw" "v \<noteq> []"
    by (rule captured_slots_member)
  have "tm_intent T = in_name I" using I(2) by (rule compile_body)
  then show ?thesis using compiled_taken [OF I(2) T(3,2) raw(1)] I(1) T(4) raw(2,3) by auto
qed

section \<open>Closed vocabularies\<close>

lemma lang_alternation: "denotes (alternation ts) = set ts"
  by (auto simp: alternation_def by_length_def)

definition VOCABS :: "(string \<times> (string \<times> string) list) list" where
  "VOCABS = [(''kpi'', KPI_TERMS), (''severity'', SEVERITY_TERMS), (''report_type'', REPORT_TYPE_TERMS),
     (''verdict'', VERDICT_TERMS), (''view'', VIEW_TERMS)]"

text \<open>Lower-case words and digits with one space between two are their own normal form.\<close>

definition PLAIN :: string where
  "PLAIN = ''abcdefghijklmnopqrstuvwxyz0123456789''"

definition plain_term :: "string \<Rightarrow> bool" where
  "plain_term w \<longleftrightarrow> list_all (\<lambda>p. p \<noteq> [] \<and> list_all (\<lambda>c. c \<in> set PLAIN) p) (split_on (CHR '' '') w)"

lemma plain_char:
  "c \<in> set PLAIN \<Longrightarrow> lower_char c = c \<and> \<not> is_apostrophe c \<and> blank_char c = c \<and> \<not> is_space c"
proof -
  have "list_all (\<lambda>c. lower_char c = c \<and> \<not> is_apostrophe c \<and> blank_char c = c \<and> \<not> is_space c) PLAIN"
    by (simp add: PLAIN_def lower_char_def is_apostrophe_def blank_char_def is_word_def is_space_def)
  then show "c \<in> set PLAIN \<Longrightarrow> ?thesis" by (simp add: list_all_iff)
qed

lemma words_acc_word: "list_all (\<lambda>c. \<not> is_space c) p \<Longrightarrow> words_acc acc (p @ s) = words_acc (acc @ p) s"
  by (induction p arbitrary: acc) auto

lemma split_words_join:
  "list_all (\<lambda>p. p \<noteq> [] \<and> list_all (\<lambda>c. \<not> is_space c) p) ws \<Longrightarrow> split_words (join_words ws) = ws"
proof (induction ws rule: induct_list012)
  case 1
  then show ?case by (simp add: split_words_def join_words_def)
next
  case (2 p)
  then show ?case using words_acc_word [of p "[]" "[]"] by (simp add: split_words_def join_words_def)
next
  case (3 p q ws)
  have "is_space (CHR '' '')" by (simp add: is_space_def)
  then show ?case using 3 words_acc_word [of p "[]" "CHR '' '' # join_words (q # ws)"]
    by (simp add: split_words_def join_words_def)
qed

lemma join_on_set: "set (join_on c ps) \<subseteq> insert c (\<Union> (set ` set ps))"
  by (induction c ps rule: join_on.induct) auto

lemma join_on_ends:
  "ps \<noteq> [] \<Longrightarrow> hd ps \<noteq> [] \<Longrightarrow> hd (join_on c ps) = hd (hd ps)"
  "ps \<noteq> [] \<Longrightarrow> last ps \<noteq> [] \<Longrightarrow> join_on c ps \<noteq> [] \<and> last (join_on c ps) = last (last ps)"
  by (induction c ps rule: join_on.induct) auto

lemma strip_tight: "w \<noteq> [] \<Longrightarrow> \<not> is_space (hd w) \<Longrightarrow> \<not> is_space (last w) \<Longrightarrow> strip w = w"
proof -
  assume w: "w \<noteq> []" "\<not> is_space (hd w)" "\<not> is_space (last w)"
  have "dropWhile is_space w = w" using w by (cases w) auto
  moreover have "dropWhile is_space (rev w) = rev w" using w by (cases w rule: rev_cases) auto
  ultimately show ?thesis by (simp add: strip_def)
qed

lemma plain_term:
  assumes "plain_term w"
  shows "w \<noteq> []" and "strip w = w" and "normalise w = w"
proof -
  let ?ws = "split_on (CHR '' '') w"
  have w: "join_words ?ws = w" by (simp add: join_words_def)
  have ws: "p \<noteq> []" "set p \<subseteq> set PLAIN" if "p \<in> set ?ws" for p
    using assms that by (auto simp: plain_term_def list_all_iff)
  show "w \<noteq> []" using ws(1) by (cases w) auto
  have chars: "c \<in> set PLAIN \<or> c = CHR '' ''" if "c \<in> set w" for c
    using ws(2) that join_on_set [of "CHR '' ''" ?ws] by auto
  have "hd w = hd (hd ?ws)" "last w = last (last ?ws)"
    using join_on_ends [of ?ws "CHR '' ''"] ws(1) by auto
  moreover have "hd (hd ?ws) \<in> set PLAIN" "last (last ?ws) \<in> set PLAIN"
    using ws by (meson hd_in_set last_in_set split_on_not_Nil subsetD)+
  ultimately show "strip w = w" using \<open>w \<noteq> []\<close> plain_char by (intro strip_tight) auto
  have kept: "lower_char c = c \<and> \<not> is_apostrophe c \<and> blank_char c = c" if "c \<in> set w" for c
    using chars [OF that]
  proof
    assume "c = CHR '' ''"
    then show ?thesis by (simp add: lower_char_def is_apostrophe_def blank_char_def is_space_def)
  qed (simp add: plain_char)
  have "map lower_char w = w" "filter (\<lambda>c. \<not> is_apostrophe c) w = w" "map blank_char w = w"
    using kept by (auto intro!: map_idI filter_True)
  moreover have "split_words w = ?ws"
    using split_words_join [of ?ws] ws plain_char unfolding w by (auto simp: list_all_iff)
  ultimately show "normalise w = w" by (simp add: normalise_def lower_def w)
qed

lemma vocab_terms_plain:
  "list_all (\<lambda>(kind, vocab). map_of CLOSED_VOCABS kind = Some (map fst vocab) \<and> list_all plain_term (map fst vocab)) VOCABS"
  by (simp add: VOCABS_def CLOSED_VOCABS_def KPI_TERMS_def SEVERITY_TERMS_def REPORT_TYPE_TERMS_def VERDICT_TERMS_def
      VIEW_TERMS_def plain_term_def PLAIN_def)

lemma period_terms_plain:
  "map_of CLOSED_VOCABS ''period'' = Some (map fst PERIOD_TERMS) \<and> list_all plain_term (map fst PERIOD_TERMS)"
  by (simp add: CLOSED_VOCABS_def PERIOD_TERMS_def plain_term_def PLAIN_def)

lemma vocab_value:
  assumes "(kind, vocab) \<in> set VOCABS" and "raw \<in> denotes (slot_pattern kind)"
  shows "\<exists>x. map_of vocab raw = Some x \<and> slot_values n kind (strip raw) now = [(n, V_Text x)]"
proof -
  from vocab_terms_plain assms(1) have plain: "map_of CLOSED_VOCABS kind = Some (map fst vocab)"
    "w \<in> fst ` set vocab \<Longrightarrow> plain_term w" for w by (auto simp: list_all_iff)
  have raw: "raw \<in> fst ` set vocab" using assms(2) plain(1) by (simp add: slot_pattern_def lang_alternation)
  then obtain x where x: "map_of vocab raw = Some x" by (metis map_of_eq_None_iff not_None_eq)
  have "strip raw = raw" "normalise raw = raw" "raw \<noteq> []" using plain_term [OF plain(2) [OF raw]] by auto
  then show ?thesis using assms(1) x by (auto simp: VOCABS_def slot_values_def lookup_term_def)
qed

lemma period_value:
  assumes "raw \<in> denotes (slot_pattern ''period'')"
  shows "\<exists>b k. map_of PERIOD_TERMS (normalise (strip raw)) = Some (b, k)"
proof -
  have raw: "raw \<in> fst ` set PERIOD_TERMS"
    using assms period_terms_plain by (simp add: slot_pattern_def lang_alternation)
  then have "plain_term raw" using period_terms_plain by (auto simp: list_all_iff)
  then have "normalise (strip raw) = raw" by (simp add: plain_term)
  then show ?thesis using raw by (metis map_of_eq_None_iff not_None_eq old.prod.exhaust)
qed

text \<open>
  A closed slot never reaches a tool without a meaning: whatever a template captured for a KPI,
  a severity, a report type, a verdict or a view parses to one of the codes of its vocabulary, and a captured
  period is one of the listed ones, so the fall-back to the current day is never taken.
\<close>

theorem closed_slots_resolve:
  assumes "compile_all c = Some ts" and "match_rules ts t = Some m" and "(n, v) \<in> set (rm_slots m)"
  shows "\<exists>I \<in> set (ct_intents c). rm_intent m = in_name I
    \<and> (\<forall>vocab. (slot_type_of I n, vocab) \<in> set VOCABS \<longrightarrow>
          (\<exists>x \<in> snd ` set vocab. slot_values n (slot_type_of I n) v now = [(n, V_Text x)]))
    \<and> (slot_type_of I n = ''period'' \<longrightarrow> (\<exists>b k. map_of PERIOD_TERMS (normalise v) = Some (b, k)))"
proof -
  from match_rules_member [OF assms(2)] obtain T r e where T: "T \<in> set ts" "r = tm_pattern T \<or> r = tm_relaxed T"
    "fullmatch r (normalise t) = Some e" "rm_intent m = tm_intent T" "rm_slots m = captured_slots (tm_slots T) e"
    by (rule pass_template)
  from assms(1) T(1) obtain I l tmpl where I: "I \<in> set (ct_intents c)" "compile_template I l tmpl = Some T"
    by (rule compile_all_member)
  from assms(3) [unfolded T(5)] obtain raw after where raw: "map_of e n = Some (raw, after)" "v = strip raw"
    by (rule captured_slots_member)
  have pat: "raw \<in> denotes (slot_pattern (slot_type_of I n))" using compiled_taken [OF I(2) T(3,2) raw(1)] by simp
  have "tm_intent T = in_name I" using I(2) by (rule compile_body)
  moreover have "\<exists>x \<in> snd ` set vocab. slot_values n (slot_type_of I n) v now = [(n, V_Text x)]"
    if "(slot_type_of I n, vocab) \<in> set VOCABS" for vocab
    using vocab_value [OF that pat, of n now] raw(2) by (force dest: map_of_SomeD)
  moreover have "\<exists>b k. map_of PERIOD_TERMS (normalise v) = Some (b, k)" if "slot_type_of I n = ''period''"
    using period_value pat that raw(2) by simp
  ultimately show ?thesis using I(1) T(4) by (intro bexI [of _ I]) simp_all
qed

section \<open>The match chosen\<close>

text \<open>
  Property C18. The match returned is the best of its pass: an exact reading is taken whenever some template
  reads the whole utterance, no other reading of the pass has a smaller key, and so a reading that tears a
  machine reference in half is returned only when every reading of the pass does.
\<close>

theorem best_reading:
  assumes "match_rules ts t = Some m"
  shows "m \<in> set (the_pass ts (normalise t))
    \<and> (\<forall>m' \<in> set (the_pass ts (normalise t)). \<not> lex_less (match_key m') (match_key m) \<and> (rm_split m \<longrightarrow> rm_split m'))
    \<and> rm_confidence m = (if \<exists>T \<in> set ts. fullmatch (tm_pattern T) (normalise t) \<noteq> None then EXACT_CONFIDENCE else RELAXED_CONFIDENCE)"
proof (intro conjI ballI)
  show mem: "m \<in> set (the_pass ts (normalise t))" using assms by (rule match_rules_member)
  show "rm_confidence m = (if \<exists>T \<in> set ts. fullmatch (tm_pattern T) (normalise t) \<noteq> None then EXACT_CONFIDENCE else RELAXED_CONFIDENCE)"
    using mem by (auto simp: the_pass_def split: if_splits elim!: candidates_member)
  fix m' assume "m' \<in> set (the_pass ts (normalise t))"
  moreover have "best_match (the_pass ts (normalise t)) = Some m" using assms by (simp add: match_rules_pass split: if_splits)
  ultimately show least: "\<not> lex_less (match_key m') (match_key m)" using best_match_least(2) by blast
  then show "rm_split m \<longrightarrow> rm_split m'" by (auto simp: match_key_def)
qed

section \<open>The router's answer\<close>

lemma match_intent:
  assumes "compile_all c = Some ts" and "match_rules ts t = Some m"
  shows "cat_get c (rm_intent m) \<noteq> None" and "LOW_CONFIDENCE \<le> rm_confidence m"
proof -
  from match_rules_member [OF assms(2)] obtain T r e where T: "T \<in> set ts" "rm_intent m = tm_intent T"
    and conf: "rm_confidence m \<in> {EXACT_CONFIDENCE, RELAXED_CONFIDENCE}"
    by (rule pass_template)
  from assms(1) T(1) obtain I l tmpl where I: "I \<in> set (ct_intents c)" "compile_template I l tmpl = Some T"
    by (rule compile_all_member)
  have "tm_intent T = in_name I" using I(2) by (rule compile_body)
  then show "cat_get c (rm_intent m) \<noteq> None" using I(1) T(2) by (auto simp: cat_get_def find_None_iff)
  show "LOW_CONFIDENCE \<le> rm_confidence m"
    using conf by (auto simp: LOW_CONFIDENCE_def EXACT_CONFIDENCE_def RELAXED_CONFIDENCE_def)
qed

lemma route_result_fields:
  assumes "cat_get c name = Some I"
  shows "\<exists>r. route_result c name raw conf router l now control tmpl u = Some r \<and> ru_intent r = name \<and> ru_tier r = in_tier I
    \<and> ru_confidence r = conf \<and> ru_router r = router \<and> ru_control r = control
    \<and> (raw = [] \<longrightarrow> u = [] \<longrightarrow> ru_slots r = [])"
proof -
  have "in_name I = name" using assms by (auto simp: cat_get_def find_Some_iff)
  moreover have "fold (parse_slot [] now) xs [] = []" for xs by (induction xs) (auto simp: parse_slot_def)
  ultimately show ?thesis using assms by (simp add: route_result_def Let_def parse_slots_def)
qed

definition explained :: "catalogue \<Rightarrow> template list \<Rightarrow> (string \<Rightarrow> llm_call option) \<Rightarrow> string \<Rightarrow> bool" where
  "explained c ts llm t \<longleftrightarrow> control_word c t \<noteq> None \<or> match_rules ts t \<noteq> None \<or> llm_route c llm t \<noteq> None"

lemma llm_route_intent: "llm_route c llm t = Some (name, args) \<Longrightarrow> cat_get c name \<noteq> None"
  by (auto simp: llm_route_def split: option.splits if_splits)

text \<open>
  The router always answers, with an intent of the catalogue and that intent's tier, and it
  understands exactly the utterances that a control word, a template or the LLM explains; on any other it
  answers with the help intent, no slot and no confidence.
\<close>

theorem route_answers:
  assumes "compile_all c = Some ts" and "cat_get c HELP_INTENT \<noteq> None"
  shows "\<exists>r I. route c ts llm t now l = Some r \<and> cat_get c (ru_intent r) = Some I \<and> ru_tier r = in_tier I
    \<and> (route_understood r \<longleftrightarrow> explained c ts llm t) \<and> ru_control r = control_word c t
    \<and> (explained c ts llm t \<or> ru_intent r = HELP_INTENT \<and> ru_slots r = [] \<and> ru_confidence r = 0)"
proof -
  obtain H where H: "cat_get c HELP_INTENT = Some H" using assms(2) by blast
  note fields = route_result_fields
  show ?thesis
  proof (cases "control_word c t")
    case (Some w)
    from fields [OF H, of "[]" 1 "''rules''" l now "Some w" None "[]"] show ?thesis
      by (auto simp: route_def Some explained_def route_understood_def LOW_CONFIDENCE_def H)
  next
    case no_word: None
    show ?thesis
    proof (cases "match_rules ts t")
      case (Some m)
      obtain I where I: "cat_get c (rm_intent m) = Some I" using match_intent(1) [OF assms(1) Some] by blast
      from fields [OF I, of "rm_slots m" "rm_confidence m" "''rules''" "rm_lang m" now None "Some (rm_template m)" t]
      show ?thesis using match_intent(2) [OF assms(1) Some]
        by (auto simp: route_def no_word Some explained_def route_understood_def I)
    next
      case no_match: None
      show ?thesis
      proof (cases "llm_route c llm t")
        case (Some x)
        obtain name args where x: "x = (name, args)" by (cases x)
        obtain I where I: "cat_get c name = Some I" using llm_route_intent Some x by blast
        from fields [OF I, of args LLM_CONFIDENCE "''llm''" l now None None t] I show ?thesis
          by (auto simp: route_def no_word no_match Some x explained_def route_understood_def LLM_CONFIDENCE_def
              LOW_CONFIDENCE_def)
      next
        case None
        from fields [OF H, of "[]" 0 "''none''" l now None None "[]"] show ?thesis
          by (auto simp: route_def no_word no_match None explained_def route_understood_def H)
      qed
    qed
  qed
qed

section \<open>Witnesses\<close>

definition kpi_intent :: intent_def where
  "kpi_intent = \<lparr>in_name = ''get_kpi'', in_tier = ''T0'', in_summary = [],
     in_slots = [\<lparr>sl_name = ''kpi'', sl_type = ''kpi'', sl_required = True, sl_context = None, sl_values = []\<rparr>,
       \<lparr>sl_name = ''scope'', sl_type = ''asset'', sl_required = False, sl_context = Some ''current_asset'', sl_values = []\<rparr>],
     in_templates = [(''en'', [''{kpi} of {scope}'', ''{kpi} for {scope}''])], in_samples = []\<rparr>"

definition help_intent :: intent_def where
  "help_intent = \<lparr>in_name = ''help'', in_tier = ''T0'', in_summary = [], in_slots = [],
     in_templates = [(''en'', [''help''])], in_samples = []\<rparr>"

definition demo_catalogue :: catalogue where
  "demo_catalogue = \<lparr>ct_intents = [kpi_intent, help_intent], ct_control = [(''cancel'', [(''en'', [''no''])])]\<rparr>"

definition demo_templates :: "template list" where
  "demo_templates = the (compile_all demo_catalogue)"

definition demo_text :: string where "demo_text = ''oee for press two''"

definition demo_match :: rule_match where
  "demo_match = \<lparr>rm_intent = ''get_kpi'', rm_lang = ''en'', rm_slots = [(''kpi'', ''oee''), (''scope'', ''press two'')],
     rm_confidence = EXACT_CONFIDENCE, rm_template = ''{kpi} for {scope}'', rm_open = 1, rm_split = False\<rparr>"

lemma demo_compiles: "compile_all demo_catalogue = Some demo_templates"
  by code_simp

lemma demo_normal: "normalise demo_text = demo_text"
  unfolding demo_text_def by (rule plain_term(3)) (simp add: plain_term_def PLAIN_def)

lemma demo_reading: "best_match (candidates tm_pattern EXACT_CONFIDENCE demo_text demo_templates) = Some demo_match"
  by code_simp

lemma demo_rules: "match_rules demo_templates demo_text = Some demo_match"
  by (simp add: match_rules_def demo_normal demo_reading demo_text_def [symmetric]) (simp add: demo_text_def)

theorem slots_are_spoken_witness:
  "\<exists>I \<in> set (ct_intents demo_catalogue). rm_intent demo_match = in_name I
    \<and> (\<exists>pre raw post. normalise demo_text = pre @ raw @ post \<and> ''press two'' = strip raw \<and> ''press two'' \<noteq> []
         \<and> raw \<in> denotes (slot_pattern (slot_type_of I ''scope'')))"
  by (rule slots_are_spoken [OF demo_compiles demo_rules]) (simp add: demo_match_def)

theorem closed_slots_resolve_witness:
  "\<exists>x \<in> snd ` set KPI_TERMS. slot_values ''kpi'' ''kpi'' ''oee'' 0 = [(''kpi'', V_Text x)]"
proof -
  have "(''kpi'', ''oee'') \<in> set (rm_slots demo_match)" by (simp add: demo_match_def)
  from closed_slots_resolve [OF demo_compiles demo_rules this, of 0] obtain I where
    "I \<in> set (ct_intents demo_catalogue)" "rm_intent demo_match = in_name I"
    and kpi: "\<And>vocab. (slot_type_of I ''kpi'', vocab) \<in> set VOCABS \<Longrightarrow>
        \<exists>x \<in> snd ` set vocab. slot_values ''kpi'' (slot_type_of I ''kpi'') ''oee'' 0 = [(''kpi'', V_Text x)]" by blast
  then have "I = kpi_intent" by (auto simp: demo_catalogue_def demo_match_def help_intent_def)
  then have "slot_type_of I ''kpi'' = ''kpi''" by (simp add: slot_type_of_def kpi_intent_def)
  then show ?thesis using kpi [of KPI_TERMS] by (simp add: VOCABS_def)
qed

theorem best_reading_witness:
  "demo_match \<in> set (the_pass demo_templates (normalise demo_text))
    \<and> (\<exists>x \<in> set (the_pass demo_templates (normalise demo_text)). lex_less (match_key demo_match) (match_key x))"
proof
  show "demo_match \<in> set (the_pass demo_templates (normalise demo_text))"
    using best_reading [OF demo_rules] by blast
  have "\<exists>x \<in> set (candidates tm_pattern EXACT_CONFIDENCE demo_text demo_templates). lex_less (match_key demo_match) (match_key x)"
    by code_simp
  moreover have "candidates tm_pattern EXACT_CONFIDENCE demo_text demo_templates = the_pass demo_templates (normalise demo_text)"
    using best_reading [OF demo_rules] by (auto simp: the_pass_def demo_normal demo_match_def EXACT_CONFIDENCE_def
        RELAXED_CONFIDENCE_def split: if_splits)
  ultimately show "\<exists>x \<in> set (the_pass demo_templates (normalise demo_text)). lex_less (match_key demo_match) (match_key x)"
    by simp
qed

lemma demo_no_word: "control_word demo_catalogue demo_text = None"
proof -
  have "normalise ''no'' = ''no''" by (rule plain_term(3)) (simp add: plain_term_def PLAIN_def)
  then show ?thesis
    by (simp add: control_word_def control_phrases_def demo_catalogue_def demo_normal) (simp add: demo_text_def)
qed

theorem route_answers_witness:
  "\<exists>r. route demo_catalogue demo_templates (\<lambda>t. None) demo_text 0 ''en'' = Some r \<and> ru_tier r = ''T0'' \<and> route_understood r"
proof -
  have "cat_get demo_catalogue HELP_INTENT \<noteq> None"
    by (simp add: cat_get_def demo_catalogue_def HELP_INTENT_def kpi_intent_def help_intent_def)
  from route_answers [OF demo_compiles this, of "\<lambda>t. None" demo_text 0 "''en''"] obtain r I where
    r: "route demo_catalogue demo_templates (\<lambda>t. None) demo_text 0 ''en'' = Some r"
    and I: "cat_get demo_catalogue (ru_intent r) = Some I" "ru_tier r = in_tier I"
    and u: "route_understood r \<longleftrightarrow> explained demo_catalogue demo_templates (\<lambda>t. None) demo_text" by blast
  have "in_tier I = ''T0''"
    using I(1) by (auto simp: cat_get_def demo_catalogue_def kpi_intent_def help_intent_def split: if_splits)
  moreover have "explained demo_catalogue demo_templates (\<lambda>t. None) demo_text" by (simp add: explained_def demo_rules)
  ultimately show ?thesis using r I(2) u by simp
qed

end
