(* ===== verification/Nlu_Voice.thy ===== *)
theory Nlu_Voice
  imports Nlu_Router Voice_Safety
begin

text \<open>
  The router inside the dialogue: \<open>VoiceService.handle\<close> asks \<open>twinvoice_nlu.router.route\<close>, with the text and
  the language, and acts on what it returns.
\<close>

fun param_of :: "(py_float \<Rightarrow> pval) \<Rightarrow> slot_value \<Rightarrow> pval" where
  "param_of other (V_Text t) = PStr t"
| "param_of other (V_Time i) = PTime i"
| "param_of other (V_Number (Finite x)) = PNum x"
| "param_of other (V_Number x) = other x"

definition as_result :: "(py_float \<Rightarrow> pval) \<Rightarrow> routed \<Rightarrow> router_result" where
  "as_result other r =
     \<lparr>rr_intent = ru_intent r, rr_tier = ru_tier r, rr_slots = map (\<lambda>(k, v). (k, param_of other v)) (ru_slots r),
      rr_confidence = ru_confidence r, rr_router = ru_router r, rr_control = ru_control r\<rparr>"

lemma understood_as_result [simp]: "understood (as_result other r) \<longleftrightarrow> route_understood r"
  by (simp add: understood_def route_understood_def as_result_def)

definition asked :: "catalogue \<Rightarrow> template list \<Rightarrow> (string \<Rightarrow> llm_call option) \<Rightarrow> (py_float \<Rightarrow> pval) \<Rightarrow> int \<Rightarrow> string \<Rightarrow> string \<Rightarrow> router_result" where
  "asked c ts llm other now t l = as_result other (the (route c ts llm t now l))"

text \<open>Nothing but the session, the turn and the expiry of stale actions.\<close>

definition only_talk :: "int \<Rightarrow> sess \<Rightarrow> sess \<Rightarrow> bool" where
  "only_talk now s s' \<longleftrightarrow> calls s' = calls s \<and> d_actions (work s') = map (expire_action now) (d_actions (work s))
     \<and> d_audits (work s') = d_audits (work s)"

lemma respond_unknown:
  assumes "\<not> understood r" and "rr_slots r = []"
  shows "\<exists>x. respond E L C p u v tid r ut lang k s = (Inr x, s) \<and> rs_action x = None \<and> rs_navigate x = None
    \<and> (ut_confidence ut = None \<longrightarrow> rs_text x = Help lang)"
proof (cases "case ut_confidence ut of Some c \<Rightarrow> c < LOW_TRANSCRIPT_CONFIDENCE | None \<Rightarrow> False")
  case True
  have "por (pget (rr_slots r) ''asset'') (PStr (ut_text ut)) = PStr (ut_text ut)"
    by (simp add: assms(2) por_def pget_def)
  with True show ?thesis unfolding respond_def Let_def by (auto simp: base_response_def split: option.splits)
next
  case False
  with assms(1) show ?thesis unfolding respond_def Let_def by (simp add: base_response_def)
qed

lemma turn_unknown:
  assumes "\<not> understood (R (ut_text ut) (case ut_lang ut of Some l \<Rightarrow> l | None \<Rightarrow> vs_lang v))"
    and "rr_slots (R (ut_text ut) (case ut_lang ut of Some l \<Rightarrow> l | None \<Rightarrow> vs_lang v)) = []"
    and "rr_control (R (ut_text ut) (case ut_lang ut of Some l \<Rightarrow> l | None \<Rightarrow> vs_lang v)) = None"
  shows "\<exists>x s'. take_turn E L C R p u v ut k s = (Inr x, s') \<and> only_talk (k_now k) s s' \<and> rs_action x = None
    \<and> rs_navigate x = None
    \<and> (ut_confidence ut = None \<longrightarrow> rs_text x = Help (case ut_lang ut of Some l \<Rightarrow> l | None \<Rightarrow> vs_lang v))"
proof -
  define lang where "lang = (case ut_lang ut of Some l \<Rightarrow> l | None \<Rightarrow> vs_lang v)"
  define r where "r = R (ut_text ut) lang"
  define s1 where "s1 = on_work (expire_stale (k_now k)) s"
  obtain tid db where td: "turn_add \<lparr>vt_id = 0, vt_session = vs_id v, vt_at = k_db k, vt_transcript = ut_text ut,
      vt_intent = rr_intent r, vt_tier = Some (rr_tier r), vt_slots = jsonable (rr_slots r), vt_text = None\<rparr> (work s1) = (tid, db)"
    by (cases "turn_add \<lparr>vt_id = 0, vt_session = vs_id v, vt_at = k_db k, vt_transcript = ut_text ut,
      vt_intent = rr_intent r, vt_tier = Some (rr_tier r), vt_slots = jsonable (rr_slots r), vt_text = None\<rparr> (work s1)")
  have r: "\<not> understood r" "rr_slots r = []" "rr_control r = None" using assms by (simp_all add: r_def lang_def)
  from respond_unknown [OF r(1,2), of E L C p u v tid ut lang k "s1\<lparr>work := db\<rparr>"] obtain x where
    answer: "respond E L C p u v tid r ut lang k (s1\<lparr>work := db\<rparr>) = (Inr x, s1\<lparr>work := db\<rparr>) \<and> rs_action x = None
      \<and> rs_navigate x = None \<and> (ut_confidence ut = None \<longrightarrow> rs_text x = Help lang)" by (rule exE)
  note x = answer [THEN conjunct1] and shape = answer [THEN conjunct2]
  have "take_turn E L C R p u v ut k s = (Inr x, commit (on_work (turn_text tid (rs_text x)) (s1\<lparr>work := db\<rparr>)))"
    unfolding take_turn_def lang_def [symmetric] s1_def [symmetric] r_def [symmetric] Let_def
    by (simp only: r(3) option.case td prod.case x sum.case)
  moreover have "only_talk (k_now k) s (commit (on_work (turn_text tid (rs_text x)) (s1\<lparr>work := db\<rparr>)))"
    using td by (auto simp: only_talk_def commit_def on_work_def turn_text_def turn_add_def s1_def expire_stale_def)
  ultimately show ?thesis using shape unfolding lang_def [symmetric]
    by (intro exI [of _ x] exI [of _ "commit (on_work (turn_text tid (rs_text x)) (s1\<lparr>work := db\<rparr>))"]) (intro conjI; simp)
qed


definition demo_mumble :: utterance where
  "demo_mumble = \<lparr>ut_text = ''hm'', ut_session = Some 0, ut_lang = Some ''en'', ut_channel = ''voice'', ut_confidence = None\<rparr>"

lemma mumble_unexplained: "\<not> explained demo_catalogue demo_templates (\<lambda>t. None) (ut_text demo_mumble)"
proof -
  have n: "normalise ''hm'' = ''hm''" "normalise ''no'' = ''no''"
    by (rule plain_term(3), simp add: plain_term_def PLAIN_def)+
  have "match_rules demo_templates ''hm'' = None"
    unfolding match_rules_def n Let_def by code_simp
  moreover have "control_word demo_catalogue ''hm'' = None"
    by (simp add: control_word_def control_phrases_def demo_catalogue_def n)
  ultimately show ?thesis by (simp add: explained_def demo_mumble_def llm_route_def)
qed


end
