(* ===== verification/Nlu_Times.thy ===== *)
theory Nlu_Times
  imports Nlu_Slots Kpi_Facts
begin

text \<open>
  Spoken times (\<open>packages/nlu/src/twinvoice_nlu/slots.py\<close> \<open>parse_datetime\<close>, \<open>parse_period\<close>): an instant named by
  a day, a weekday or a part of the day lies ahead and falls where it was said to; a period contains the
  present, or ends where the present one begins.
\<close>

section \<open>Instants\<close>

lemma first_some_SomeD: "first_some f xs = Some y \<Longrightarrow> \<exists>x \<in> set xs. f x = Some y"
  by (induction xs) (auto split: option.splits)

definition said :: "string \<Rightarrow> string set" where
  "said t = set (split_words (normalise t))"

definition spoken_hour :: "string \<Rightarrow> int" where
  "spoken_hour t = (case first_some (map_of TIME_OF_DAY) (split_words (normalise t)) of Some h \<Rightarrow> h | None \<Rightarrow> 8)"

definition spoken_weekday :: "string \<Rightarrow> int option" where
  "spoken_weekday t = first_some (map_of WEEKDAYS) (split_words (normalise t))"

lemma spoken_hour_range: "8 \<le> spoken_hour t \<and> spoken_hour t \<le> 22"
proof (cases "first_some (map_of TIME_OF_DAY) (split_words (normalise t))")
  case None
  then show ?thesis by (simp add: spoken_hour_def)
next
  case (Some h)
  then obtain x where "map_of TIME_OF_DAY x = Some h" using first_some_SomeD by fastforce
  then have "(x, h) \<in> set TIME_OF_DAY" by (rule map_of_SomeD)
  then have "8 \<le> h \<and> h \<le> 22" by (auto simp: TIME_OF_DAY_def)
  then show ?thesis using Some by (simp add: spoken_hour_def)
qed

lemma spoken_weekday_range: "spoken_weekday t = Some wd \<Longrightarrow> 0 \<le> wd \<and> wd < 7"
proof -
  assume "spoken_weekday t = Some wd"
  then obtain x where "map_of WEEKDAYS x = Some wd" unfolding spoken_weekday_def using first_some_SomeD by fastforce
  then have "(x, wd) \<in> set WEEKDAYS" by (rule map_of_SomeD)
  then show "0 \<le> wd \<and> wd < 7" by (auto simp: WEEKDAYS_def)
qed

text \<open>The days ahead of today that an utterance names, if it names any.\<close>

definition days_ahead :: "string \<Rightarrow> int \<Rightarrow> int \<Rightarrow> int option" where
  "days_ahead t now base =
     (if ''tomorrow'' \<in> said t \<or> ''kal'' \<in> said t then Some 1
      else if ''today'' \<in> said t \<or> ''aaj'' \<in> said t then Some 0
      else (case spoken_weekday t of
              Some wd \<Rightarrow>
                Some ((wd - weekday now) mod 7
                  + (if (wd - weekday now) mod 7 = 0 \<and> base \<le> now \<or> ''next'' \<in> said t then 7 else 0))
            | None \<Rightarrow> if ''week'' \<in> said t \<or> ''hafte'' \<in> said t then Some 7
                else if \<exists>w \<in> said t. map_of TIME_OF_DAY w \<noteq> None then Some (if now < base then 0 else 1) else None))"

lemma parse_datetime_days:
  "parse_datetime t now =
     (if t = [] then None
      else let base = midnight now + spoken_hour t * HOUR_US in map_option (\<lambda>k. base + k * DAY_US) (days_ahead t now base))"
  unfolding parse_datetime_def Let_def spoken_hour_def [symmetric] spoken_weekday_def [symmetric] said_def [symmetric]
  by (cases "spoken_weekday t") (simp_all add: days_ahead_def)

lemma day_hours: "DAY_US = 24 * HOUR_US" "0 < HOUR_US"
  by (simp_all add: DAY_US_def HOUR_US_def)

lemma within_day:
  assumes "0 \<le> h" and "h < 24"
  shows "midnight (midnight now + h * HOUR_US + k * DAY_US) = midnight now + k * DAY_US"
proof -
  have "0 \<le> h * HOUR_US" "h * HOUR_US < 24 * HOUR_US"
    using assms day_hours(2) by (simp_all only: mult_strict_right_mono mult_nonneg_nonneg less_imp_le)
  then have "0 \<le> h * HOUR_US" "h * HOUR_US < DAY_US" by (simp_all add: day_hours(1))
  then have "midnight (midnight now + h * HOUR_US) = midnight now" by simp
  then show ?thesis by simp
qed

lemma weekday_midnight: "weekday t = weekday (midnight t)"
proof -
  have "midnight t div DAY_US = t div DAY_US" by (simp add: midnight_def clock_def minus_mod_eq_div_mult day_hours)
  then show ?thesis by (simp add: weekday_def)
qed

lemma weekday_days: "weekday (t + k * DAY_US) = (weekday t + k) mod 7"
  using day_hours by (simp add: weekday_def mod_simps ac_simps)

text \<open>
  Property C34. A spoken time resolves to the hour that was said, on a day within two weeks, and to a moment
  ahead unless the day itself was named as today; a weekday resolves to that weekday.
\<close>

theorem spoken_time_resolves:
  assumes "parse_datetime t now = Some d"
  shows "clock d = spoken_hour t * HOUR_US \<and> d < now + 14 * DAY_US \<and> midnight now < d
    \<and> (''today'' \<in> said t \<or> ''aaj'' \<in> said t \<or> now < d)
    \<and> ((said t \<inter> {''tomorrow'', ''kal'', ''today'', ''aaj''} = {} \<and> spoken_weekday t \<noteq> None)
         \<longrightarrow> spoken_weekday t = Some (weekday d))"
proof -
  define base where "base = midnight now + spoken_hour t * HOUR_US"
  obtain k where k: "days_ahead t now base = Some k" and d: "d = base + k * DAY_US"
    using assms by (auto simp: parse_datetime_days base_def Let_def split: if_splits)
  have hour: "8 * HOUR_US \<le> spoken_hour t * HOUR_US" "spoken_hour t * HOUR_US \<le> 22 * HOUR_US"
    using spoken_hour_range [of t] day_hours by simp_all
  have now: "midnight now \<le> now" "now < midnight now + DAY_US"
    using midnight_clock [of now] clock_range [of now] by linarith+
  have day: "midnight d = midnight now + k * DAY_US"
    using within_day [of "spoken_hour t"] spoken_hour_range [of t] by (simp add: d base_def)
  have seven: "0 \<le> (wd - weekday now) mod 7" "(wd - weekday now) mod 7 < 7" for wd by simp_all
  have k_range: "0 \<le> k" "k \<le> 13" using k seven by (auto simp: days_ahead_def split: if_splits option.splits)
  have ahead: "k = 0 \<longrightarrow> ''today'' \<in> said t \<or> ''aaj'' \<in> said t \<or> now < base"
    using k by (auto simp: days_ahead_def split: if_splits option.splits)
  have "clock d = spoken_hour t * HOUR_US" using midnight_clock [of d] day by (simp add: d base_def)
  moreover have "k * DAY_US \<le> 13 * DAY_US" "0 \<le> k * DAY_US" using k_range day_hours by simp_all
  then have "d < now + 14 * DAY_US" "midnight now < d" using hour now day_hours unfolding d base_def by linarith+
  moreover have "''today'' \<in> said t \<or> ''aaj'' \<in> said t \<or> now < d"
  proof (cases "k = 0")
    case True
    then show ?thesis using ahead by (simp add: d)
  next
    case False
    then have "DAY_US \<le> k * DAY_US" using k_range day_hours by simp
    then have "now < d" using now hour day_hours unfolding d base_def by linarith
    then show ?thesis by blast
  qed
  moreover have "spoken_weekday t = Some (weekday d)"
    if none: "said t \<inter> {''tomorrow'', ''kal'', ''today'', ''aaj''} = {}" and some: "spoken_weekday t \<noteq> None"
  proof -
    obtain wd where wd: "spoken_weekday t = Some wd" using some by blast
    have "k mod 7 = (wd - weekday now) mod 7" using k none wd by (auto simp: days_ahead_def split: if_splits)
    then have "(weekday now + k) mod 7 = wd mod 7" by (metis add.commute diff_add_cancel mod_add_left_eq)
    moreover have "weekday d = (weekday now + k) mod 7"
      using weekday_midnight [of d] weekday_midnight [of now] day weekday_days by simp
    ultimately show ?thesis using wd spoken_weekday_range [OF wd] by simp
  qed
  ultimately show ?thesis by blast
qed

definition demo_wednesday :: int where
  "demo_wednesday = 6 * DAY_US + 10 * HOUR_US"

theorem spoken_time_resolves_witness:
  "\<exists>d. parse_datetime ''next friday morning'' demo_wednesday = Some d \<and> weekday d = 4 \<and> clock d = 8 * HOUR_US
    \<and> demo_wednesday < d \<and> d < demo_wednesday + 14 * DAY_US"
proof -
  have "normalise ''next friday morning'' = ''next friday morning''"
    by (simp add: normalise_def lower_def lower_char_def is_apostrophe_def blank_char_def is_word_def is_space_def
        split_words_def join_words_def)
  then have words: "split_words (normalise ''next friday morning'') = [''next'', ''friday'', ''morning'']"
    by (simp add: split_words_def is_space_def)
  have "spoken_weekday ''next friday morning'' = Some 4" "spoken_hour ''next friday morning'' = 8"
    by (simp_all add: spoken_weekday_def spoken_hour_def words WEEKDAYS_def TIME_OF_DAY_def)
  moreover have said: "said ''next friday morning'' = {''next'', ''friday'', ''morning''}" by (simp add: said_def words)
  moreover obtain d where "parse_datetime ''next friday morning'' demo_wednesday = Some d"
    using calculation by (simp add: parse_datetime_days days_ahead_def Let_def)
  ultimately show ?thesis using spoken_time_resolves [of "''next friday morning''" demo_wednesday d] by auto
qed

text \<open>\<open>today\<close> is not always ahead, although \<open>parse_datetime\<close> is documented as never naming a past moment.\<close>

lemma today_may_be_past:
  assumes "''tomorrow'' \<notin> said t" and "''kal'' \<notin> said t" and "''today'' \<in> said t" and "t \<noteq> []"
    and "spoken_hour t * HOUR_US < clock now"
  shows "\<exists>d. parse_datetime t now = Some d \<and> d < now"
  using assms midnight_clock [of now] by (simp add: parse_datetime_days days_ahead_def Let_def)

section \<open>Periods\<close>

text \<open>
  The hour, day or week a question is about contains the present moment, and the last one ends
  exactly where the current one begins, so that no moment falls between two periods or into both.
\<close>

theorem periods_meet:
  assumes "b \<in> {''hour'', ''day'', ''week''}"
  shows "sp_start (bucket_bounds b 0 now) \<le> now \<and> now < sp_end (bucket_bounds b 0 now)
    \<and> sp_end (bucket_bounds b (k - 1) now) = sp_start (bucket_bounds b k now)
    \<and> sp_start (bucket_bounds b k now) < sp_end (bucket_bounds b k now)"
proof -
  have day: "midnight now \<le> now" "now < midnight now + DAY_US"
    using midnight_clock [of now] clock_range [of now] by linarith+
  have hour: "now - now mod HOUR_US \<le> now" "now < now - now mod HOUR_US + HOUR_US"
    using day_hours(2) pos_mod_bound [of HOUR_US now] pos_mod_sign [of HOUR_US now] by linarith+
  have wd: "0 \<le> weekday now" "weekday now \<le> 6" by (auto simp: weekday_def)
  have week: "0 \<le> weekday now * DAY_US" "weekday now * DAY_US \<le> 6 * DAY_US"
    using wd by (simp_all add: DAY_US_def HOUR_US_def)
  from assms consider "b = ''hour''" | "b = ''day''" | "b = ''week''" by blast
  then show ?thesis
  proof cases
    case 1
    then show ?thesis using hour day_hours by (simp add: bucket_bounds_def Let_def algebra_simps)
  next
    case 2
    then show ?thesis using day day_hours by (simp add: bucket_bounds_def Let_def algebra_simps)
  next
    case 3
    have "midnight now - weekday now * DAY_US \<le> now" "now < midnight now - weekday now * DAY_US + 7 * DAY_US"
      using day week by linarith+
    then show ?thesis using 3 day_hours by (simp add: bucket_bounds_def Let_def algebra_simps)
  qed
qed

theorem periods_meet_witness:
  "sp_start (parse_period ''this week'' demo_wednesday ''day'') \<le> demo_wednesday
    \<and> sp_end (parse_period ''last week'' demo_wednesday ''day'') = sp_start (parse_period ''this week'' demo_wednesday ''day'')"
proof -
  have "normalise ''this week'' = ''this week''" "normalise ''last week'' = ''last week''"
    by (simp_all add: normalise_def lower_def lower_char_def is_apostrophe_def blank_char_def is_word_def is_space_def
        split_words_def join_words_def)
  then show ?thesis using periods_meet [of "''week''" demo_wednesday 0] by (simp add: parse_period_def PERIOD_TERMS_def)
qed

end
