(* ===== verification/Report_Summary.thy ===== *)
theory Report_Summary
  imports Xai_Audit Py_Numbers
begin

text \<open>
  The executive summary of a report and its numeric audit (\<open>apps/api/app/modules/reports/summary.py\<close>): the
  figures, every number in them, the template texts, and the choice between the template and what the LLM
  wrote. What the LLM answers, and \<open>str()\<close> of a value that is no text and no integer, are parameters. Numbers
  are found in a text as the audit of narrations finds them.
\<close>

section \<open>Figures\<close>

text \<open>
  The data of a report. \<open>F_Time\<close> is a \<open>datetime\<close> and \<open>F_Id\<close> a \<open>UUID\<close>: objects a builder can place among the
  figures, but that \<open>json.dumps\<close>, and so the column \<open>reports.data\<close>, refuses.
\<close>

datatype figure =
    F_Null
  | F_Bool bool
  | F_Int int
  | F_Num real
  | F_Text string
  | F_Time int
  | F_Id nat
  | F_List "figure list"
  | F_Dict "(string \<times> figure) list"

fun supported_numbers :: "figure \<Rightarrow> real set" where
  "supported_numbers F_Null = {}"
| "supported_numbers (F_Bool b) = {}"
| "supported_numbers (F_Int i) = {of_int i}"
| "supported_numbers (F_Num x) = {x}"
| "supported_numbers (F_Text t) = set (numbers_in t)"
| "supported_numbers (F_Time i) = {}"
| "supported_numbers (F_Id i) = {}"
| "supported_numbers (F_List xs) = (\<Union>x \<in> set xs. supported_numbers x)"
| "supported_numbers (F_Dict kvs) = (\<Union>(k, v) \<in> set kvs. set (numbers_in k) \<union> supported_numbers v)"

fun storable :: "figure \<Rightarrow> bool" where
  "storable (F_Time i) = False"
| "storable (F_Id i) = False"
| "storable (F_List xs) = list_all storable xs"
| "storable (F_Dict kvs) = list_all (\<lambda>(k, v). storable v) kvs"
| "storable f = True"

definition get_or :: "string \<Rightarrow> figure \<Rightarrow> figure \<Rightarrow> figure" where
  "get_or k d f = (case f of F_Dict kvs \<Rightarrow> (case map_of kvs k of Some v \<Rightarrow> v | None \<Rightarrow> d) | _ \<Rightarrow> d)"

definition get :: "string \<Rightarrow> figure \<Rightarrow> figure" where
  "get k f = get_or k F_Null f"

fun true_figure :: "figure \<Rightarrow> bool" where
  "true_figure F_Null = False"
| "true_figure (F_Bool b) = b"
| "true_figure (F_Int i) = (i \<noteq> 0)"
| "true_figure (F_Num x) = (x \<noteq> 0)"
| "true_figure (F_Text t) = (t \<noteq> [])"
| "true_figure (F_Time i) = True"
| "true_figure (F_Id i) = True"
| "true_figure (F_List xs) = (xs \<noteq> [])"
| "true_figure (F_Dict kvs) = (kvs \<noteq> [])"

section \<open>The audit\<close>

definition WORD_LIMIT :: nat where "WORD_LIMIT = 150"

definition TOLERANCE :: real where "TOLERANCE = 5 / 1000"

definition ALLOWED_ALWAYS :: "real list" where
  "ALLOWED_ALWAYS = [0, 1, 2, 3, 4, 5, 6, 7, 10, 12, 24]"

definition is_supported :: "real \<Rightarrow> real set \<Rightarrow> bool" where
  "is_supported v supported \<longleftrightarrow>
     v \<in> set ALLOWED_ALWAYS \<or> (\<exists>x \<in> supported. \<bar>v - x\<bar> \<le> TOLERANCE * max \<bar>x\<bar> 1)"

datatype audit_reason = Unsupported_Numbers | Too_Long nat

record summary_audit =
  sm_passed :: bool
  sm_used_llm :: bool
  sm_words :: nat
  sm_unsupported :: "real list"
  sm_reason :: "audit_reason option"

definition audit_summary :: "string \<Rightarrow> figure \<Rightarrow> bool \<Rightarrow> summary_audit" where
  "audit_summary t d used_llm =
     (let unsupported = filter (\<lambda>v. \<not> is_supported v (supported_numbers d)) (numbers_in t);
          words = length (split_words t);
          reason = (if unsupported \<noteq> [] then Some Unsupported_Numbers
                    else if WORD_LIMIT < words then Some (Too_Long words) else None)
      in \<lparr>sm_passed = (reason = None), sm_used_llm = used_llm, sm_words = words,
          sm_unsupported = sort (remdups unsupported), sm_reason = reason\<rparr>)"

section \<open>Template texts\<close>

text \<open>\<open>f"{x:.1f}"\<close> without its trailing zeros and point: one decimal, ties to even.\<close>

definition one_decimal :: "real \<Rightarrow> string" where
  "one_decimal x =
     (let k = round_even (\<bar>x\<bar> * 10); w = int_str (k div 10); d = k mod 10
      in (if x < 0 then ''-'' else '''') @ w @ (if d = 0 then '''' else ''.'' @ int_str d))"

text \<open>\<open>float()\<close> of a text or a container, and \<open>str()\<close> of one, are the parameter.\<close>

definition fmt_figure :: "(figure \<Rightarrow> string) \<Rightarrow> figure \<Rightarrow> string" where
  "fmt_figure show f =
     (case f of
        F_Null \<Rightarrow> ''an unknown''
      | F_Int i \<Rightarrow> one_decimal (of_int i)
      | F_Num x \<Rightarrow> one_decimal x
      | F_Bool b \<Rightarrow> one_decimal (of_bool b)
      | _ \<Rightarrow> show f)"

text \<open>A value placed in a formatted text as it is.\<close>

definition plain :: "(figure \<Rightarrow> string) \<Rightarrow> figure \<Rightarrow> string" where
  "plain show f = (case f of F_Int i \<Rightarrow> int_str i | F_Text t \<Rightarrow> t | _ \<Rightarrow> show f)"

definition items :: "figure \<Rightarrow> figure list" where
  "items f = (case f of F_List xs \<Rightarrow> xs | _ \<Rightarrow> [])"

fun join_with :: "string \<Rightarrow> string list \<Rightarrow> string" where
  "join_with sep [] = []"
| "join_with sep [p] = p"
| "join_with sep (p # ps) = p @ sep @ join_with sep ps"

definition machine_health_text :: "(figure \<Rightarrow> string) \<Rightarrow> figure \<Rightarrow> string" where
  "machine_health_text show d =
     (let a = get_or ''asset'' (F_Dict []) d
      in plain show (get_or ''name'' (F_Text ''The machine'') a) @ '' ('' @ plain show (get_or ''code'' (F_Text '''') a) @ '') is at ''
         @ fmt_figure show (get ''health_pct'' d) @ '' percent health with '' @ fmt_figure show (get ''rul'' d) @ '' ''
         @ plain show (get_or ''rul_unit'' (F_Text ''cycles'') d) @ '' of remaining life. OEE over the period was ''
         @ fmt_figure show (get ''oee_pct'' d) @ '' percent. '' @ plain show (get_or ''alarm_count'' (F_Int 0) d)
         @ '' alarms were raised and '' @ plain show (get_or ''open_work_orders'' (F_Int 0) d) @ '' work orders are still open.'')"

definition weekly_text :: "(figure \<Rightarrow> string) \<Rightarrow> figure \<Rightarrow> string" where
  "weekly_text show d =
     plain show (get_or ''raised'' (F_Int 0) d) @ '' work orders were raised on ''
     @ plain show (get_or ''scope_name'' (F_Text ''the plant'') d) @ '' and '' @ plain show (get_or ''closed'' (F_Int 0) d)
     @ '' were closed. MTBF was '' @ fmt_figure show (get ''mtbf_h'' d) @ '' hours and MTTR '' @ fmt_figure show (get ''mttr_h'' d)
     @ '' hours across '' @ plain show (get_or ''breakdowns'' (F_Int 0) d) @ '' breakdowns. ''
     @ (if get ''prediction_accuracy_pct'' d = F_Null
        then ''No closed order was scored against its prediction this period.''
        else ''Prediction accuracy on '' @ plain show (get_or ''predictions_scored'' (F_Int 0) d) @ '' scored orders was ''
          @ fmt_figure show (get ''prediction_accuracy_pct'' d) @ '' percent.'')"

definition energy_text :: "(figure \<Rightarrow> string) \<Rightarrow> figure \<Rightarrow> string" where
  "energy_text show d =
     plain show (get_or ''scope_name'' (F_Text ''The plant'') d) @ '' consumed '' @ fmt_figure show (get ''energy_kwh'' d)
     @ '' kWh, costing '' @ fmt_figure show (get ''cost'' d) @ '' '' @ plain show (get_or ''currency'' (F_Text '''') d)
     @ '' and emitting '' @ fmt_figure show (get ''co2_kg'' d) @ '' kg of CO2. Peak demand reached ''
     @ fmt_figure show (get ''peak_demand_kw'' d) @ '' kW and idle consumption was '' @ fmt_figure show (get ''idle_energy_share_pct'' d)
     @ '' percent of the total. '' @ plain show (get_or ''anomaly_count'' (F_Int 0) d) @ '' consumption anomalies were detected.''"

definition benchmark_text :: "(figure \<Rightarrow> string) \<Rightarrow> figure \<Rightarrow> string" where
  "benchmark_text show d =
     (let r = get ''run'' d
      in if \<not> true_figure r then ''No completed benchmark run is on record yet.''
         else ''The most recent benchmark ran on '' @ join_with '', '' (map (plain show) (items (get_or ''datasets'' (F_List []) r)))
           @ '' with seed '' @ plain show (get ''seed'' r) @ ''. '' @ plain show (get_or ''model_count'' (F_Int 0) d)
           @ '' models are in production.'')"

definition incident_text :: "(figure \<Rightarrow> string) \<Rightarrow> figure \<Rightarrow> string" where
  "incident_text show d =
     (let a = get_or ''asset'' (F_Dict []) d
      in plain show (get_or ''name'' (F_Text ''The machine'') a) @ '' failed at '' @ plain show (get_or ''failure_at'' (F_Text '''') d)
         @ ''. In the '' @ plain show (get_or ''window_hours'' (F_Int 48) d) @ '' hours either side there were ''
         @ plain show (get_or ''prediction_count'' (F_Int 0) d) @ '' predictions, '' @ plain show (get_or ''alarm_count'' (F_Int 0) d)
         @ '' alarms and '' @ plain show (get_or ''work_order_count'' (F_Int 0) d) @ '' work orders. ''
         @ (if true_figure (get ''recommended_actions'' d)
            then ''The recommended action was: '' @ join_with ''; '' (map (plain show) (items (get ''recommended_actions'' d))) @ ''.''
            else ''No action had been recommended before the failure.''))"

datatype report_type = Machine_Health | Weekly_Maintenance | Energy_Report | Benchmark_Report | Incident_Report

definition template_summary :: "(figure \<Rightarrow> string) \<Rightarrow> report_type \<Rightarrow> figure \<Rightarrow> string" where
  "template_summary show k d =
     (case k of
        Machine_Health \<Rightarrow> machine_health_text show d
      | Weekly_Maintenance \<Rightarrow> weekly_text show d
      | Energy_Report \<Rightarrow> energy_text show d
      | Benchmark_Report \<Rightarrow> benchmark_text show d
      | Incident_Report \<Rightarrow> incident_text show d)"

section \<open>The composed summary\<close>

definition compose_summary ::
    "(figure \<Rightarrow> string) \<Rightarrow> (report_type \<Rightarrow> figure \<Rightarrow> string option) \<Rightarrow> report_type \<Rightarrow> figure \<Rightarrow> string \<times> summary_audit" where
  "compose_summary show llm k d =
     (let t = template_summary show k d
      in case llm k d of
           None \<Rightarrow> (t, audit_summary t d False)
         | Some c \<Rightarrow> (let r = audit_summary c d True in if sm_passed r then (c, r) else (t, r)))"

lemma audit_passed:
  "sm_passed (audit_summary t d l) \<longleftrightarrow>
     (\<forall>v \<in> set (numbers_in t). is_supported v (supported_numbers d)) \<and> length (split_words t) \<le> WORD_LIMIT"
  by (auto simp: audit_summary_def Let_def filter_empty_conv not_less)

lemma compose_cases:
  "fst (compose_summary show llm k d) = template_summary show k d
   \<or> llm k d = Some (fst (compose_summary show llm k d)) \<and> sm_passed (audit_summary (fst (compose_summary show llm k d)) d True)"
  by (auto simp: compose_summary_def Let_def split: option.splits)

text \<open>The template text of an energy report can fail the audit it is the ground truth of: 1.45 is printed as 1.4.\<close>

definition small_figures :: figure where
  "small_figures = F_Dict [(''energy_kwh'', F_Num (145 / 100))]"

lemma one_decimal_off: "one_decimal (145 / 100) = ''1.4''"
  by code_simp

end
