(* ===== verification/Report_Data.thy ===== *)
theory Report_Data
  imports Report_Summary Kpi_Service "HOL-Library.Char_ord" "HOL-Library.List_Lexorder"
begin

text \<open>
  Report data assembly (\<open>apps/api/app/modules/reports/data.py\<close>): one builder per report type over the tables
  of the other modules and the KPI and energy services. Ids are unique over all tables. \<open>isof\<close> is
  \<open>datetime.isoformat\<close>, whose texts sort as the instants do. Rows of equal time keep their insertion order,
  where the database promises none.
\<close>

section \<open>Rows\<close>

record machine_row =
  mw_id :: nat
  mw_line :: nat
  mw_code :: string
  mw_name :: string
  mw_type :: string
  mw_status :: string
  mw_deleted :: bool

record prediction_view =
  pv_id :: nat
  pv_asset :: nat
  pv_time :: int
  pv_health :: "real option"
  pv_rul :: "real option"
  pv_rul_low :: "real option"
  pv_rul_high :: "real option"
  pv_unit :: "string option"
  pv_label :: "string option"

record alarm_view =
  av_asset :: nat
  av_raised :: int
  av_severity :: string
  av_title :: string
  av_status :: string

record order_view =
  ov_asset :: nat
  ov_created :: int
  ov_deleted :: bool
  ov_number :: int
  ov_title :: string
  ov_type :: string
  ov_priority :: int
  ov_status :: string
  ov_planned_start :: "int option"
  ov_actual_end :: "int option"
  ov_technician :: "nat option"
  ov_outcome :: "string option"
  ov_correct :: "bool option"

record driver =
  dr_rank :: "int option"
  dr_label :: "string option"
  dr_feature :: "string option"

record explanation_view =
  xv_prediction :: nat
  xv_attributions :: "driver list"
  xv_action :: "string option"

record model_view =
  mv_name :: string
  mv_version :: string
  mv_task :: string
  mv_algorithm :: string
  mv_trained :: int
  mv_stage :: string

record run_view =
  rv_started :: int
  rv_status :: string
  rv_sha :: string
  rv_seed :: int
  rv_datasets :: "string list"
  rv_results :: figure

record report_db =
  rb_kpi :: kpi_db
  rb_plants :: "(nat \<times> string \<times> bool) list"
  rb_lines :: "(nat \<times> string \<times> nat) list"
  rb_machines :: "machine_row list"
  rb_predictions :: "prediction_view list"
  rb_alarms :: "alarm_view list"
  rb_orders :: "order_view list"
  rb_technicians :: "(nat \<times> string) list"
  rb_explanations :: "explanation_view list"
  rb_models :: "model_view list"
  rb_runs :: "run_view list"

definition machine_of :: "report_db \<Rightarrow> nat \<Rightarrow> machine_row option" where
  "machine_of db i = List.find (\<lambda>a. mw_id a = i) (rb_machines db)"

definition INCIDENT_WINDOW :: int where "INCIDENT_WINDOW = 48 * HOUR_US"

text \<open>Either no plant is configured, the machine is not in the registry, or the report lacks its period or scope.\<close>

datatype data_error = No_Plant | Unknown_Machine | No_Period

definition live_plant :: "report_db \<Rightarrow> (nat \<times> string \<times> bool) option" where
  "live_plant db = List.find (\<lambda>(i, name, deleted). \<not> deleted) (rb_plants db)"

definition scope_name :: "report_db \<Rightarrow> scope option \<Rightarrow> nat option \<Rightarrow> string" where
  "scope_name db sc i =
     (case i of
        None \<Rightarrow> (case live_plant db of Some (k, name, d) \<Rightarrow> name | None \<Rightarrow> ''the plant'')
      | Some k \<Rightarrow>
          (if sc = Some Line_Scope then (case map_of (rb_lines db) k of Some (name, p) \<Rightarrow> name | None \<Rightarrow> ''the plant'')
           else (case machine_of db k of Some a \<Rightarrow> mw_name a | None \<Rightarrow> ''the plant'')))"

definition resolve_scope :: "report_db \<Rightarrow> scope option \<Rightarrow> nat option \<Rightarrow> data_error + scope \<times> nat" where
  "resolve_scope db sc i =
     (case i of
        Some k \<Rightarrow> Inr (case sc of Some s \<Rightarrow> s | None \<Rightarrow> Asset_Scope, k)
      | None \<Rightarrow> (case live_plant db of None \<Rightarrow> Inl No_Plant | Some (k, name, d) \<Rightarrow> Inr (Plant_Scope, k)))"

definition report_assets :: "report_db \<Rightarrow> scope \<Rightarrow> nat \<Rightarrow> nat list" where
  "report_assets db sc i =
     (let live = filter (\<lambda>a. \<not> mw_deleted a) (rb_machines db)
      in case sc of
           Asset_Scope \<Rightarrow> [i]
         | Line_Scope \<Rightarrow> map mw_id (filter (\<lambda>a. mw_line a = i) live)
         | Plant_Scope \<Rightarrow>
             map mw_id (filter (\<lambda>a. case map_of (rb_lines db) (mw_line a) of Some (name, p) \<Rightarrow> p = i | None \<Rightarrow> False) live))"

section \<open>Helpers\<close>

definition opt_num :: "real option \<Rightarrow> figure" where
  "opt_num x = (case x of Some v \<Rightarrow> F_Num v | None \<Rightarrow> F_Null)"

definition opt_text :: "string option \<Rightarrow> figure" where
  "opt_text x = (case x of Some t \<Rightarrow> F_Text t | None \<Rightarrow> F_Null)"

definition opt_bool :: "bool option \<Rightarrow> figure" where
  "opt_bool x = (case x of Some b \<Rightarrow> F_Bool b | None \<Rightarrow> F_Null)"

definition order_row :: "(int \<Rightarrow> string) \<Rightarrow> report_db \<Rightarrow> order_view \<Rightarrow> figure" where
  "order_row isof db r =
     F_Dict [(''number'', F_Int (ov_number r)),
       (''asset'', F_Text (case machine_of db (ov_asset r) of Some a \<Rightarrow> mw_name a | None \<Rightarrow> [])),
       (''title'', F_Text (ov_title r)), (''type'', F_Text (ov_type r)), (''priority'', F_Int (ov_priority r)),
       (''status'', F_Text (ov_status r)), (''planned_start'', opt_text (map_option isof (ov_planned_start r))),
       (''technician'', opt_text (case ov_technician r of None \<Rightarrow> None | Some t \<Rightarrow> map_of (rb_technicians db) t)),
       (''prediction_was_correct'', opt_bool (ov_correct r))]"

text \<open>\<open>min\<close> by rank, 99 without one, the first of equals; its label, or its feature when the label is empty.\<close>

definition rank_of :: "driver \<Rightarrow> int" where
  "rank_of a = (case dr_rank a of Some r \<Rightarrow> r | None \<Rightarrow> 99)"

definition top_driver :: "explanation_view option \<Rightarrow> string option" where
  "top_driver x =
     (case x of
        None \<Rightarrow> None
      | Some e \<Rightarrow>
          (case sort_key rank_of (xv_attributions e) of
             [] \<Rightarrow> None
           | a # _ \<Rightarrow> (if dr_label a = None \<or> dr_label a = Some [] then dr_feature a else dr_label a)))"

definition count_by :: "('a \<Rightarrow> string) \<Rightarrow> 'a list \<Rightarrow> (string \<times> nat) list" where
  "count_by f xs = map (\<lambda>k. (k, length (filter (\<lambda>x. f x = k) xs))) (rev (remdups (rev (map f xs))))"

definition counts :: "(string \<times> nat) list \<Rightarrow> figure" where
  "counts ks = F_Dict (map (\<lambda>(k, n). (k, F_Int (int n))) ks)"

definition latest_failure_at :: "report_db \<Rightarrow> nat \<Rightarrow> int option" where
  "latest_failure_at db i =
     (let ts = map av_raised (filter (\<lambda>a. av_asset a = i \<and> av_severity a \<in> {''critical'', ''high''}) (rb_alarms db))
      in if ts = [] then None else Some (Max (set ts)))"

definition predictions_in :: "report_db \<Rightarrow> nat \<Rightarrow> int \<Rightarrow> int \<Rightarrow> prediction_view list" where
  "predictions_in db i start end' =
     sort_key pv_time (filter (\<lambda>p. pv_asset p = i \<and> start \<le> pv_time p \<and> pv_time p < end') (rb_predictions db))"

definition alarms_in :: "report_db \<Rightarrow> nat \<Rightarrow> int \<Rightarrow> int \<Rightarrow> alarm_view list" where
  "alarms_in db i start end' =
     sort_key av_raised (filter (\<lambda>a. av_asset a = i \<and> start \<le> av_raised a \<and> av_raised a < end') (rb_alarms db))"

section \<open>Builders\<close>

definition machine_health ::
    "(int \<Rightarrow> string) \<Rightarrow> report_db \<Rightarrow> nat \<Rightarrow> int \<Rightarrow> int \<Rightarrow> data_error + figure" where
  "machine_health isof db i start end' =
     (case machine_of db i of
        None \<Rightarrow> Inl Unknown_Machine
      | Some a \<Rightarrow>
          (let ps = predictions_in db i start end';
               latest = (if ps = [] then None else Some (last ps));
               alarms = sort_key (\<lambda>a. - av_raised a)
                 (filter (\<lambda>a. av_asset a = i \<and> start \<le> av_raised a \<and> av_raised a < end') (rb_alarms db));
               orders = sort_key (\<lambda>r. - ov_created r)
                 (filter (\<lambda>r. ov_asset r = i \<and> start \<le> ov_created r \<and> \<not> ov_deleted r) (rb_orders db));
               oee = kpi_oee (rb_kpi db) Asset_Scope i start end'
           in Inr (F_Dict
             [(''asset'', F_Dict [(''code'', F_Text (mw_code a)), (''name'', F_Text (mw_name a)),
                 (''type'', F_Text (mw_type a)), (''status'', F_Text (mw_status a))]),
              (''health_pct'', opt_num (Option.bind latest pv_health)), (''rul'', opt_num (Option.bind latest pv_rul)),
              (''rul_low'', opt_num (Option.bind latest pv_rul_low)), (''rul_high'', opt_num (Option.bind latest pv_rul_high)),
              (''rul_unit'', F_Text (case Option.bind latest pv_unit of Some u \<Rightarrow> if u = [] then ''cycles'' else u | None \<Rightarrow> ''cycles'')),
              (''confidence'', opt_text (Option.bind latest pv_label)),
              (''oee_pct'', F_Num (or_oee oee)), (''availability_pct'', F_Num (or_availability oee)),
              (''performance_pct'', F_Num (or_performance oee)), (''quality_pct'', F_Num (or_quality oee)),
              (''alarm_count'', F_Int (int (length alarms))),
              (''open_work_orders'', F_Int (int (length
                 (filter (\<lambda>r. ov_status r \<in> {''open'', ''scheduled'', ''in_progress''}) orders)))),
              (''health_series'', F_List (map (\<lambda>p. F_Dict [(''t'', F_Text (isof (pv_time p))), (''health'', opt_num (pv_health p))]) ps)),
              (''rul_series'', F_List (map (\<lambda>p. F_Dict [(''t'', F_Text (isof (pv_time p))), (''rul'', opt_num (pv_rul p))])
                 (filter (\<lambda>p. pv_rul p \<noteq> None) ps))),
              (''alarms'', F_List (map (\<lambda>a. F_Dict [(''at'', F_Text (isof (av_raised a))), (''severity'', F_Text (av_severity a)),
                  (''title'', F_Text (av_title a)), (''status'', F_Text (av_status a))]) (take 20 alarms))),
              (''work_orders'', F_List (map (order_row isof db) (take 20 orders)))])))"

definition orders_raised :: "report_db \<Rightarrow> nat list \<Rightarrow> int \<Rightarrow> int \<Rightarrow> order_view list" where
  "orders_raised db ids start end' =
     sort_key ov_created
       (filter (\<lambda>r. ov_asset r \<in> set ids \<and> start \<le> ov_created r \<and> ov_created r < end' \<and> \<not> ov_deleted r) (rb_orders db))"

definition orders_closed :: "report_db \<Rightarrow> nat list \<Rightarrow> int \<Rightarrow> int \<Rightarrow> order_view list" where
  "orders_closed db ids start end' =
     filter (\<lambda>r. ov_asset r \<in> set ids \<and> (case ov_actual_end r of Some e \<Rightarrow> start \<le> e \<and> e < end' | None \<Rightarrow> False) \<and> \<not> ov_deleted r)
       (rb_orders db)"

definition accuracy :: "order_view list \<Rightarrow> real option" where
  "accuracy shut =
     (let scored = filter (\<lambda>r. ov_correct r \<noteq> None) shut; correct = length (filter (\<lambda>r. ov_correct r = Some True) scored)
      in if scored = [] then None else Some (round_dec 1 (100 * real correct / real (length scored))))"

definition weekly_maintenance ::
    "(int \<Rightarrow> string) \<Rightarrow> report_db \<Rightarrow> scope \<Rightarrow> nat \<Rightarrow> int \<Rightarrow> int \<Rightarrow> figure" where
  "weekly_maintenance isof db sc i start end' =
     (let ids = report_assets db sc i;
          orders = orders_raised db ids start end';
          shut = orders_closed db ids start end';
          scored = filter (\<lambda>r. ov_correct r \<noteq> None) shut;
          (mtbf, mttr, downs, repaired) = reliability (rb_kpi db) sc i start end'
      in F_Dict
        [(''scope_name'', F_Text (scope_name db (Some sc) (Some i))), (''raised'', F_Int (int (length orders))),
         (''closed'', F_Int (int (length shut))), (''by_status'', counts (count_by ov_status orders)),
         (''by_type'', counts (count_by ov_type orders)), (''predictions_scored'', F_Int (int (length scored))),
         (''predictions_correct'', F_Int (int (length (filter (\<lambda>r. ov_correct r = Some True) scored)))),
         (''prediction_accuracy_pct'', opt_num (accuracy shut)), (''mtbf_h'', F_Num mtbf), (''mttr_h'', F_Num mttr),
         (''breakdowns'', F_Int downs), (''orders'', F_List (map (order_row isof db) (take 50 orders)))])"

definition consumer :: "string \<times> string \<times> real \<Rightarrow> figure" where
  "consumer r = (case r of (c, n, kwh) \<Rightarrow> F_Dict [(''asset_code'', F_Text c), (''asset_name'', F_Text n), (''energy_kwh'', F_Num kwh)])"

definition anomaly_row :: "nat \<Rightarrow> energy_anomaly \<Rightarrow> figure" where
  "anomaly_row i a =
     F_Dict [(''time'', F_Time (ea_time a)), (''scope_id'', F_Id i), (''energy_kwh'', F_Num (ea_energy a)),
       (''expected_kwh'', F_Num (ea_expected a)), (''units'', F_Num (ea_units a)), (''sigma'', F_Num (ea_sigma a)),
       (''health_index'', opt_num (ea_health a))]"

definition trend_row :: "int \<times> real \<times> real \<times> real option \<times> real option \<Rightarrow> figure" where
  "trend_row r =
     (case r of (t, units, kwh, intensity, hoped) \<Rightarrow>
        F_Dict [(''time'', F_Time t), (''units'', F_Num units), (''energy_kwh'', F_Num kwh), (''intensity'', opt_num intensity),
          (''expected_kwh'', opt_num hoped)])"

definition energy_figures ::
    "(nat \<Rightarrow> real option) \<Rightarrow> (nat \<Rightarrow> string) \<Rightarrow> report_db \<Rightarrow> scope \<Rightarrow> nat \<Rightarrow> int \<Rightarrow> int \<Rightarrow> figure" where
  "energy_figures health id_text db sc i start end' =
     (let s = energy_summary_object (rb_kpi db) sc i start end';
          anomalies = energy_anomalies (rb_kpi db) (health i) sc i (id_text i) start end'
      in F_Dict
        [(''scope_name'', F_Text (scope_name db (Some sc) (Some i))), (''energy_kwh'', F_Num (es_energy s)),
         (''cost'', F_Num (es_cost s)), (''currency'', F_Text (es_currency s)), (''co2_kg'', F_Num (es_co2 s)),
         (''peak_demand_kw'', F_Num (es_peak s)), (''idle_energy_kwh'', F_Num (es_idle s)),
         (''idle_energy_share_pct'', F_Num (es_idle_share s)), (''energy_per_unit'', opt_num (es_per_unit s)),
         (''top_consumers'', F_List (map consumer (take 5 (es_breakdown s)))),
         (''intensity_trend'', F_List (map trend_row (intensity_trend (rb_kpi db) sc i start end'))),
         (''anomaly_count'', F_Int (int (length anomalies))),
         (''anomalies'', F_List (map (anomaly_row i) (take 20 anomalies)))])"

definition benchmark_figures :: "(int \<Rightarrow> string) \<Rightarrow> report_db \<Rightarrow> figure" where
  "benchmark_figures isof db =
     (let run = (case sort_key (\<lambda>r. - rv_started r) (filter (\<lambda>r. rv_status r = ''done'') (rb_runs db)) of [] \<Rightarrow> None | r # _ \<Rightarrow> Some r);
          models = sort_key (\<lambda>m. - mv_trained m) (filter (\<lambda>m. mv_stage m = ''production'') (rb_models db))
      in F_Dict
        [(''run'', case run of None \<Rightarrow> F_Null | Some r \<Rightarrow>
            F_Dict [(''started_at'', F_Text (isof (rv_started r))), (''git_sha'', F_Text (rv_sha r)), (''seed'', F_Int (rv_seed r)),
              (''datasets'', F_List (map F_Text (rv_datasets r))),
              (''results'', if true_figure (rv_results r) then rv_results r else F_Dict [])]),
         (''production_models'', F_List (map (\<lambda>m. F_Dict [(''name'', F_Text (mv_name m)), (''version'', F_Text (mv_version m)),
            (''task'', F_Text (mv_task m)), (''algorithm'', F_Text (mv_algorithm m)), (''trained_at'', F_Text (isof (mv_trained m)))]) models)),
         (''model_count'', F_Int (int (length models)))])"

text \<open>The window around a failure. An entry of the timeline is its instant and its row.\<close>

definition explanation_of :: "report_db \<Rightarrow> prediction_view \<Rightarrow> explanation_view option" where
  "explanation_of db p = List.find (\<lambda>e. xv_prediction e = pv_id p) (rev (rb_explanations db))"

definition recommended :: "report_db \<Rightarrow> prediction_view \<Rightarrow> string option" where
  "recommended db p = Option.bind (explanation_of db p) xv_action"

definition prediction_entry ::
    "(int \<Rightarrow> string) \<Rightarrow> (real option \<Rightarrow> string) \<Rightarrow> report_db \<Rightarrow> prediction_view \<Rightarrow> int \<times> figure" where
  "prediction_entry isof num db p =
     (pv_time p, F_Dict [(''at'', F_Text (isof (pv_time p))), (''kind'', F_Text ''prediction''),
        (''detail'', F_Text (''RUL '' @ num (pv_rul p) @ '' ''
           @ (case pv_unit p of Some u \<Rightarrow> if u = [] then ''cycles'' else u | None \<Rightarrow> ''cycles''))),
        (''top_driver'', opt_text (top_driver (explanation_of db p))), (''recommended'', opt_text (recommended db p))])"

definition alarm_entry :: "(int \<Rightarrow> string) \<Rightarrow> alarm_view \<Rightarrow> int \<times> figure" where
  "alarm_entry isof a =
     (av_raised a, F_Dict [(''at'', F_Text (isof (av_raised a))), (''kind'', F_Text ''alarm''),
        (''detail'', F_Text (av_severity a @ '': '' @ av_title a))])"

definition order_entry :: "(int \<Rightarrow> string) \<Rightarrow> order_view \<Rightarrow> int \<times> figure" where
  "order_entry isof r =
     (ov_created r, F_Dict [(''at'', F_Text (isof (ov_created r))), (''kind'', F_Text ''work_order''),
        (''detail'', F_Text (''#'' @ int_str (ov_number r) @ '' '' @ ov_title r @ '' ('' @ ov_status r @ '')'')),
        (''outcome'', opt_text (ov_outcome r))])"

definition timeline ::
    "(int \<Rightarrow> string) \<Rightarrow> (real option \<Rightarrow> string) \<Rightarrow> report_db \<Rightarrow> nat \<Rightarrow> int \<Rightarrow> (int \<times> figure) list" where
  "timeline isof num db i at0 =
     (let start = at0 - INCIDENT_WINDOW; end' = at0 + INCIDENT_WINDOW
      in sort_key fst
        (map (prediction_entry isof num db) (predictions_in db i start end')
         @ map (alarm_entry isof) (alarms_in db i start end')
         @ map (order_entry isof) (orders_raised db [i] start end')))"

definition incident ::
    "(int \<Rightarrow> string) \<Rightarrow> (real option \<Rightarrow> string) \<Rightarrow> report_db \<Rightarrow> nat \<Rightarrow> int \<Rightarrow> data_error + figure" where
  "incident isof num db i at0 =
     (case machine_of db i of
        None \<Rightarrow> Inl Unknown_Machine
      | Some a \<Rightarrow>
          (let start = at0 - INCIDENT_WINDOW; end' = at0 + INCIDENT_WINDOW;
               ps = predictions_in db i start end'; orders = orders_raised db [i] start end'
           in Inr (F_Dict
             [(''asset'', F_Dict [(''code'', F_Text (mw_code a)), (''name'', F_Text (mw_name a))]),
              (''failure_at'', F_Text (isof at0)), (''window_hours'', F_Int (INCIDENT_WINDOW div HOUR_US)),
              (''prediction_count'', F_Int (int (length ps))), (''alarm_count'', F_Int (int (length (alarms_in db i start end')))),
              (''work_order_count'', F_Int (int (length orders))),
              (''recommended_actions'', F_List (map F_Text (sort (remdups (filter (\<lambda>t. t \<noteq> []) (List.map_filter (recommended db) ps)))))),
              (''actions_taken'', F_List (map F_Text (filter (\<lambda>t. t \<noteq> []) (List.map_filter ov_outcome orders)))),
              (''timeline'', F_List (map snd (timeline isof num db i at0)))])))"

end
