(* ===== verification/Report_Service.thy ===== *)
theory Report_Service
  imports Report_Data
begin

text \<open>
  Reports (\<open>apps/api/app/modules/reports/service.py\<close>, \<open>schemas.py\<close>, and the worker
  \<open>apps/api/app/workers/tasks/report.py\<close>): a request queues a row, the worker assembles, summarises, renders and
  archives it, a reader fetches the file, and schedules raise requests. The renderer with its charts, the disk,
  the LLM and Celery's crontab parser are parameters. One worker runs a report at a time.
\<close>

section \<open>State\<close>

datatype report_status = Queued | Running | Done | Failed

type_synonym path = "string \<times> nat \<times> string"

record report =
  rt_id :: nat
  rt_type :: report_type
  rt_scope :: "scope option"
  rt_scope_id :: "nat option"
  rt_start :: "int option"
  rt_end :: "int option"
  rt_format :: string
  rt_status :: report_status
  rt_file :: "path option"
  rt_text :: "string option"
  rt_audit :: "summary_audit option"
  rt_data :: "figure option"
  rt_error :: "string option"
  rt_by :: "nat option"
  rt_via :: string
  rt_created :: int
  rt_finished :: "int option"

record schedule =
  sd_id :: nat
  sd_type :: report_type
  sd_scope :: "scope option"
  sd_scope_id :: "nat option"
  sd_format :: string
  sd_cron :: string
  sd_enabled :: bool
  sd_last :: "int option"
  sd_deleted :: bool

record report_state =
  rs_reports :: "report list"
  rs_schedules :: "schedule list"
  rs_files :: "(path \<times> string) list"
  rs_audits :: "(nat \<times> string) list"

text \<open>What a rendering reads: everything \<open>build_context\<close> is given.\<close>

record render_context =
  cx_id :: nat
  cx_type :: report_type
  cx_scope :: string
  cx_start :: "int option"
  cx_end :: "int option"
  cx_generated :: int
  cx_data :: figure
  cx_text :: string
  cx_audit :: summary_audit

record cron_sets =
  cs_minute :: "int list"
  cs_hour :: "int list"
  cs_day_of_week :: "int list"
  cs_day_of_month :: "int list"
  cs_month :: "int list"

text \<open>
  \<open>le_render\<close> is the renderer, which may fail and may answer in another format than asked; \<open>le_write\<close> is the
  disk, \<open>Some\<close> an error; \<open>le_month\<close> the year and month in a path; \<open>le_cron\<close> the crontab parser, \<open>None\<close> an
  expression it refuses.
\<close>

record report_lib =
  le_iso :: "int \<Rightarrow> string"
  le_num :: "real option \<Rightarrow> string"
  le_show :: "figure \<Rightarrow> string"
  le_id :: "nat \<Rightarrow> string"
  le_health :: "nat \<Rightarrow> real option"
  le_llm :: "report_type \<Rightarrow> figure \<Rightarrow> string option"
  le_render :: "render_context \<Rightarrow> string \<Rightarrow> string + string \<times> string"
  le_write :: "path \<Rightarrow> string option"
  le_month :: "int \<Rightarrow> string"
  le_cron :: "string \<Rightarrow> string \<Rightarrow> string \<Rightarrow> string \<Rightarrow> string \<Rightarrow> cron_sets option"
  le_data_error :: "data_error \<Rightarrow> string"

datatype report_error = Not_Found | Forbidden | Conflict report_status | Unprocessable | Bad_Period | Invalid | Store_Failed
  | Bad_Cron

section \<open>Requests\<close>

definition DEFAULT_WINDOW :: "report_type \<Rightarrow> int" where
  "DEFAULT_WINDOW k = (case k of Benchmark_Report \<Rightarrow> 30 * DAY_US | Incident_Report \<Rightarrow> 2 * DAY_US | _ \<Rightarrow> 7 * DAY_US)"

record report_create =
  rq_type :: report_type
  rq_scope :: "scope option"
  rq_scope_id :: "nat option"
  rq_start :: "int option"
  rq_end :: "int option"
  rq_format :: string

text \<open>\<open>ReportCreate\<close>'s validator.\<close>

definition valid_request :: "report_create \<Rightarrow> bool" where
  "valid_request q \<longleftrightarrow>
     (case (rq_start q, rq_end q) of (Some s, Some e) \<Rightarrow> s < e | _ \<Rightarrow> True)
     \<and> (rq_type q \<in> {Machine_Health, Incident_Report} \<longrightarrow> rq_scope_id q \<noteq> None)"

definition report_get :: "nat \<Rightarrow> report_state \<Rightarrow> report option" where
  "report_get i s = List.find (\<lambda>r. rt_id r = i) (rs_reports s)"

definition report_put :: "report \<Rightarrow> report_state \<Rightarrow> report_state" where
  "report_put r s = s\<lparr>rs_reports := map (\<lambda>x. if rt_id x = rt_id r then r else x) (rs_reports s)\<rparr>"

definition fresh_id :: "report_state \<Rightarrow> nat" where
  "fresh_id s = Suc (Max (insert 0 (rt_id ` set (rs_reports s))))"

text \<open>\<open>ReportService.request\<close>. Enqueueing may fail; the row stays queued either way.\<close>

definition request ::
    "report_db \<Rightarrow> nat option \<Rightarrow> report_create \<Rightarrow> string \<Rightarrow> int \<Rightarrow> report_state \<Rightarrow> (report_error + report) \<times> report_state" where
  "request db actor q via now s =
     (case resolve_scope db (rq_scope q) (rq_scope_id q) of
        Inl e \<Rightarrow> (Inl Unprocessable, s)
      | Inr (sc, sid) \<Rightarrow>
          (let end' = (case rq_end q of Some e \<Rightarrow> e | None \<Rightarrow> now);
               start = (case rq_start q of Some t \<Rightarrow> t | None \<Rightarrow> end' - DEFAULT_WINDOW (rq_type q))
           in if end' \<le> start then (Inl Bad_Period, s)
              else (let r = \<lparr>rt_id = fresh_id s, rt_type = rq_type q, rt_scope = Some sc, rt_scope_id = Some sid,
                          rt_start = Some start, rt_end = Some end', rt_format = rq_format q, rt_status = Queued,
                          rt_file = None, rt_text = None, rt_audit = None, rt_data = None, rt_error = None, rt_by = actor,
                          rt_via = via, rt_created = now, rt_finished = None\<rparr>
                    in (Inr r, s\<lparr>rs_reports := rs_reports s @ [r], rs_audits := rs_audits s @ [(rt_id r, ''create'')]\<rparr>))))"

section \<open>Reading\<close>

text \<open>\<open>None\<close> is every type; the first role of the table that the actor has decides.\<close>

definition ROLE_VISIBLE_TYPES :: "(string \<times> report_type list) list" where
  "ROLE_VISIBLE_TYPES =
     [(''technician'', [Machine_Health, Weekly_Maintenance, Incident_Report]),
      (''manager'', [Machine_Health, Weekly_Maintenance, Energy_Report, Incident_Report])]"

definition visible_types :: "string set \<Rightarrow> report_type list option" where
  "visible_types roles =
     (if ''engineer'' \<in> roles \<or> ''admin'' \<in> roles then None
      else (case List.find (\<lambda>(role, ts). role \<in> roles) ROLE_VISIBLE_TYPES of Some (role, ts) \<Rightarrow> Some ts | None \<Rightarrow> Some []))"

definition may_see :: "string set \<Rightarrow> report_type \<Rightarrow> bool" where
  "may_see roles k \<longleftrightarrow> (case visible_types roles of None \<Rightarrow> True | Some ts \<Rightarrow> k \<in> set ts)"

definition list_reports :: "string set \<Rightarrow> report_type option \<Rightarrow> report_status option \<Rightarrow> report_state \<Rightarrow> report list" where
  "list_reports roles k st s =
     filter (\<lambda>r. may_see roles (rt_type r) \<and> (case k of None \<Rightarrow> True | Some x \<Rightarrow> rt_type r = x)
       \<and> (case st of None \<Rightarrow> True | Some x \<Rightarrow> rt_status r = x)) (rs_reports s)"

definition report_file :: "string set \<Rightarrow> nat \<Rightarrow> report_state \<Rightarrow> report_error + string \<times> string" where
  "report_file roles i s =
     (case report_get i s of
        None \<Rightarrow> Inl Not_Found
      | Some r \<Rightarrow>
          if \<not> may_see roles (rt_type r) then Inl Forbidden
          else if rt_status r \<noteq> Done \<or> rt_file r = None then Inl (Conflict (rt_status r))
          else (case map_of (rs_files s) (the (rt_file r)) of None \<Rightarrow> Inl Not_Found | Some c \<Rightarrow> Inr (c, rt_format r)))"

section \<open>Generating\<close>

definition assemble :: "report_lib \<Rightarrow> report_db \<Rightarrow> report \<Rightarrow> data_error + figure" where
  "assemble L db r =
     (case (rt_start r, rt_end r, rt_scope_id r) of
        (Some start, Some end', Some i) \<Rightarrow>
          (let sc = (case rt_scope r of Some x \<Rightarrow> x | None \<Rightarrow> Plant_Scope)
           in case rt_type r of
                Machine_Health \<Rightarrow> machine_health (le_iso L) db i start end'
              | Weekly_Maintenance \<Rightarrow> Inr (weekly_maintenance (le_iso L) db sc i start end')
              | Energy_Report \<Rightarrow> Inr (energy_figures (le_health L) (le_id L) db sc i start end')
              | Benchmark_Report \<Rightarrow> Inr (benchmark_figures (le_iso L) db)
              | Incident_Report \<Rightarrow>
                  incident (le_iso L) (le_num L) db i (case latest_failure_at db i of Some t \<Rightarrow> t | None \<Rightarrow> end'))
      | _ \<Rightarrow> Inl No_Period)"

definition archive_path :: "report_lib \<Rightarrow> report \<Rightarrow> string \<Rightarrow> path" where
  "archive_path L r fmt = (le_month L (rt_created r), rt_id r, fmt)"

definition context_of :: "report_db \<Rightarrow> report \<Rightarrow> int \<Rightarrow> figure \<Rightarrow> string \<Rightarrow> summary_audit \<Rightarrow> render_context" where
  "context_of db r now d t a =
     \<lparr>cx_id = rt_id r, cx_type = rt_type r, cx_scope = scope_name db (rt_scope r) (rt_scope_id r), cx_start = rt_start r,
      cx_end = rt_end r, cx_generated = now, cx_data = d, cx_text = t, cx_audit = a\<rparr>"

text \<open>What the \<open>try\<close> block produces: the error that is caught, or the finished row and its file.\<close>

definition produce :: "report_lib \<Rightarrow> report_db \<Rightarrow> int \<Rightarrow> report \<Rightarrow> string + report \<times> path \<times> string" where
  "produce L db now r =
     (case assemble L db r of
        Inl e \<Rightarrow> Inl (le_data_error L e)
      | Inr d \<Rightarrow>
          (let (t, a) = compose_summary (le_show L) (le_llm L) (rt_type r) d
           in case le_render L (context_of db r now d t a) (rt_format r) of
                Inl e \<Rightarrow> Inl e
              | Inr (content, fmt) \<Rightarrow>
                  (let p = archive_path L r fmt
                   in case le_write L p of
                        Some e \<Rightarrow> Inl e
                      | None \<Rightarrow> Inr (r\<lparr>rt_data := Some d, rt_text := Some t, rt_audit := Some a, rt_format := fmt,
                          rt_file := Some p, rt_status := Done, rt_error := None\<rparr>, p, content))))"

text \<open>
  \<open>ReportService.generate\<close>: \<open>running\<close> is committed before the work starts. The last commit stands outside the
  \<open>try\<close>, so figures the column refuses raise, and leave the row running.
\<close>

definition generate ::
    "report_lib \<Rightarrow> report_db \<Rightarrow> int \<Rightarrow> nat \<Rightarrow> report_state \<Rightarrow> (report_error + report) \<times> report_state" where
  "generate L db now i s =
     (case report_get i s of
        None \<Rightarrow> (Inl Not_Found, s)
      | Some r \<Rightarrow>
          if rt_status r = Done then (Inr r, s)
          else (let r1 = r\<lparr>rt_status := Running\<rparr>; s1 = report_put r1 s
                in case produce L db now r1 of
                     Inl e \<Rightarrow>
                       (let r2 = r1\<lparr>rt_status := Failed, rt_error := Some (take 2000 e), rt_finished := Some now\<rparr>
                        in (Inr r2, report_put r2 s1))
                   | Inr (r2, p, content) \<Rightarrow>
                       (let s2 = s1\<lparr>rs_files := dict_put p content (rs_files s1)\<rparr>; r3 = r2\<lparr>rt_finished := Some now\<rparr>
                        in if \<not> storable (the (rt_data r3)) then (Inl Store_Failed, s2) else (Inr r3, report_put r3 s2))))"

section \<open>Schedules\<close>

definition CATCHUP_WINDOW :: int where "CATCHUP_WINDOW = 10 * (60 * 10 ^ 6)"

definition MINUTE_US :: int where "MINUTE_US = 60 * 10 ^ 6"

text \<open>The month of a day number, in the calendar of \<^const>\<open>day_of_month\<close>.\<close>

definition month_of_year :: "int \<Rightarrow> int" where
  "month_of_year d =
     (let z = (d + 719468) mod 146097;
          y = (z - z div 1460 + z div 36524 - z div 146096) div 365;
          doy = z - (365 * y + y div 4 - y div 100);
          m = (5 * doy + 2) div 153
      in if m < 10 then m + 3 else m - 9)"

text \<open>\<open>None\<close> is the exception of an expression that is not five fields or that the parser refuses.\<close>

definition cron_matches :: "report_lib \<Rightarrow> string \<Rightarrow> int \<Rightarrow> bool option" where
  "cron_matches L expression local =
     (case split_words expression of
        [mins, hrs, mday, mon, wday] \<Rightarrow>
          map_option (\<lambda>c. (local div MINUTE_US) mod 60 \<in> set (cs_minute c) \<and> (local div HOUR_US) mod 24 \<in> set (cs_hour c)
             \<and> (weekday local + 1) mod 7 \<in> set (cs_day_of_week c) \<and> day_of_month (local div DAY_US) \<in> set (cs_day_of_month c)
             \<and> month_of_year (local div DAY_US) \<in> set (cs_month c))
            (le_cron L mins hrs wday mday mon)
      | _ \<Rightarrow> None)"

definition is_due :: "report_lib \<Rightarrow> string \<Rightarrow> int \<Rightarrow> int \<Rightarrow> int option \<Rightarrow> bool option" where
  "is_due L expression local now last_run =
     map_option (\<lambda>m. m \<and> (case last_run of None \<Rightarrow> True | Some t \<Rightarrow> CATCHUP_WINDOW \<le> now - t)) (cron_matches L expression local)"

definition mark_run :: "schedule \<Rightarrow> int \<Rightarrow> report_state \<Rightarrow> report_state" where
  "mark_run c now s = s\<lparr>rs_schedules := map (\<lambda>x. if sd_id x = sd_id c then x\<lparr>sd_last := Some now\<rparr> else x) (rs_schedules s)\<rparr>"

definition schedule_request :: "schedule \<Rightarrow> report_create" where
  "schedule_request c =
     \<lparr>rq_type = sd_type c, rq_scope = sd_scope c, rq_scope_id = sd_scope_id c, rq_start = None, rq_end = None, rq_format = sd_format c\<rparr>"

definition fire :: "report_lib \<Rightarrow> report_db \<Rightarrow> int \<Rightarrow> int \<Rightarrow> schedule \<Rightarrow> report_state \<Rightarrow> report_error option \<times> bool \<times> report_state" where
  "fire L db local now c s =
     (case is_due L (sd_cron c) local now (sd_last c) of
        None \<Rightarrow> (Some Bad_Cron, False, s)
      | Some False \<Rightarrow> (None, False, s)
      | Some True \<Rightarrow>
          if \<not> valid_request (schedule_request c) then (Some Invalid, False, s)
          else (case request db None (schedule_request c) ''schedule'' now s of
                  (Inl e, s') \<Rightarrow> (Some e, False, s')
                | (Inr r, s') \<Rightarrow> (None, True, mark_run c now s')))"

text \<open>An exception ends the run; the schedules before it have committed.\<close>

fun fire_all ::
    "report_lib \<Rightarrow> report_db \<Rightarrow> int \<Rightarrow> int \<Rightarrow> schedule list \<Rightarrow> report_state \<Rightarrow> report_error option \<times> nat \<times> report_state" where
  "fire_all L db local now [] s = (None, 0, s)"
| "fire_all L db local now (c # cs) s =
     (case fire L db local now c s of
        (Some e, f, s') \<Rightarrow> (Some e, 0, s')
      | (None, f, s') \<Rightarrow> (case fire_all L db local now cs s' of (e, n, s'') \<Rightarrow> (e, of_bool f + n, s'')))"

definition enabled_schedules :: "report_state \<Rightarrow> schedule list" where
  "enabled_schedules s = filter (\<lambda>c. sd_enabled c \<and> \<not> sd_deleted c) (rs_schedules s)"

definition run_report_schedules ::
    "report_lib \<Rightarrow> report_db \<Rightarrow> int \<Rightarrow> int \<Rightarrow> report_state \<Rightarrow> report_error option \<times> nat \<times> report_state" where
  "run_report_schedules L db local now s = fire_all L db local now (enabled_schedules s) s"

text \<open>The event triggers.\<close>

definition event_report :: "report_db \<Rightarrow> nat \<Rightarrow> report_type \<Rightarrow> int \<Rightarrow> report_state \<Rightarrow> (report_error + report) \<times> report_state" where
  "event_report db asset k now s =
     request db None \<lparr>rq_type = k, rq_scope = Some Asset_Scope, rq_scope_id = Some asset, rq_start = None, rq_end = None,
       rq_format = ''pdf''\<rparr> ''event'' now s"

end
