(* ===== verification/Report_Facts.thy ===== *)
theory Report_Facts
  imports Report_Service "HOL-Library.Multiset"
begin

text \<open>
  What reporting guarantees: a finished report is never touched again, the file a reader gets is the rendering
  of the stored figures and of a summary that says only what they say, a report ends unless its figures
  cannot be stored, and schedules fire apart.
\<close>

section \<open>Rows and files\<close>

lemma report_get_id: "report_get i s = Some r \<Longrightarrow> rt_id r = i \<and> r \<in> set (rs_reports s)"
  by (auto simp: report_get_def find_Some_iff)

lemma report_put_ids [simp]: "map rt_id (rs_reports (report_put r s)) = map rt_id (rs_reports s)"
  by (auto simp: report_put_def)

lemma report_put_files [simp]: "rs_files (report_put r s) = rs_files s"
  by (simp add: report_put_def)

lemma find_map_report:
  "List.find (\<lambda>x. rt_id x = i) (map (\<lambda>x. if rt_id x = rt_id r then r else x) xs) =
     (if i = rt_id r then map_option (\<lambda>x. r) (List.find (\<lambda>x. rt_id x = i) xs) else List.find (\<lambda>x. rt_id x = i) xs)"
  by (induction xs) auto

lemma report_get_put:
  "report_get i (report_put r s) = (if i = rt_id r then map_option (\<lambda>x. r) (report_get i s) else report_get i s)"
  by (simp add: report_get_def report_put_def find_map_report)

lemma report_get_files [simp]: "report_get i (s\<lparr>rs_files := f\<rparr>) = report_get i s"
  by (simp add: report_get_def)

lemma fresh_id_new: "r \<in> set (rs_reports s) \<Longrightarrow> rt_id r < fresh_id s"
  by (auto simp: fresh_id_def less_Suc_eq_le intro!: Max_ge)

text \<open>What the row and the file of a finished report hold.\<close>

definition says_only :: "report_lib \<Rightarrow> report_type \<Rightarrow> figure \<Rightarrow> string \<Rightarrow> bool" where
  "says_only L k d t \<longleftrightarrow>
     t = template_summary (le_show L) k d
     \<or> (\<forall>v \<in> set (numbers_in t). is_supported v (supported_numbers d)) \<and> length (split_words t) \<le> WORD_LIMIT"

definition finished_ok :: "report_lib \<Rightarrow> (path \<times> string) list \<Rightarrow> report \<Rightarrow> bool" where
  "finished_ok L files r \<longleftrightarrow>
     (\<exists>d t a p c ctx f. rt_data r = Some d \<and> rt_text r = Some t \<and> rt_audit r = Some a \<and> rt_file r = Some p
        \<and> rt_finished r \<noteq> None \<and> storable d \<and> map_of files p = Some c \<and> fst (snd p) = rt_id r
        \<and> cx_data ctx = d \<and> cx_text ctx = t \<and> cx_audit ctx = a \<and> le_render L ctx f = Inr (c, rt_format r)
        \<and> says_only L (rt_type r) d t)"

definition report_inv :: "report_lib \<Rightarrow> report_state \<Rightarrow> bool" where
  "report_inv L s \<longleftrightarrow>
     distinct (map rt_id (rs_reports s)) \<and> (\<forall>r \<in> set (rs_reports s). rt_status r = Done \<longrightarrow> finished_ok L (rs_files s) r)"

lemma compose_says_only:
  assumes "compose_summary (le_show L) (le_llm L) k d = (t, a)"
  shows "says_only L k d t"
  using compose_cases [of "le_show L" "le_llm L" k d] assms by (auto simp: says_only_def audit_passed)

lemma produce_shape:
  assumes "produce L db now r = Inr (r2, p, content)"
  shows "\<exists>d t a fmt. assemble L db r = Inr d \<and> compose_summary (le_show L) (le_llm L) (rt_type r) d = (t, a)
    \<and> le_render L (context_of db r now d t a) (rt_format r) = Inr (content, fmt) \<and> p = archive_path L r fmt
    \<and> r2 = r\<lparr>rt_data := Some d, rt_text := Some t, rt_audit := Some a, rt_format := fmt, rt_file := Some p,
        rt_status := Done, rt_error := None\<rparr>"
  using assms by (auto simp: produce_def Let_def split: sum.splits prod.splits option.splits)

lemma finished_ok_files:
  assumes "finished_ok L files r" and "\<And>p. fst (snd p) = rt_id r \<Longrightarrow> map_of files' p = map_of files p"
  shows "finished_ok L files' r"
  using assms unfolding finished_ok_def by metis

lemma report_inv_put:
  assumes "report_inv L s" and "rt_status r = Done \<longrightarrow> finished_ok L (rs_files s) r"
  shows "report_inv L (report_put r s)"
  using assms by (auto simp: report_inv_def report_put_def comp_def if_distrib cong: if_cong)

lemma request_inv:
  assumes "report_inv L s"
  shows "report_inv L (snd (request db actor q via now s))"
  using assms fresh_id_new [of _ s]
  by (fastforce simp: request_def report_inv_def Let_def split: sum.split prod.split)

lemma find_app: "List.find P xs = Some x \<Longrightarrow> List.find P (xs @ ys) = Some x"
  by (induction xs) auto

lemma request_keeps:
  "report_get i s = Some r \<Longrightarrow> report_get i (snd (request db actor q via now s)) = Some r"
  by (auto simp: request_def report_get_def Let_def find_app split: sum.split prod.split)

section \<open>Generating\<close>

lemma produce_finished:
  assumes "produce L db now r = Inr (r2, p, content)" and "storable (the (rt_data r2))"
  shows "finished_ok L (dict_put p content files) (r2\<lparr>rt_finished := Some now\<rparr>)" and "rt_id r2 = rt_id r"
    and "fst (snd p) = rt_id r" and "rt_status r2 = Done"
proof -
  from produce_shape [OF assms(1)] obtain d t a fmt where
    d: "assemble L db r = Inr d" and c: "compose_summary (le_show L) (le_llm L) (rt_type r) d = (t, a)"
    and render: "le_render L (context_of db r now d t a) (rt_format r) = Inr (content, fmt)" and p: "p = archive_path L r fmt"
    and r2: "r2 = r\<lparr>rt_data := Some d, rt_text := Some t, rt_audit := Some a, rt_format := fmt, rt_file := Some p,
        rt_status := Done, rt_error := None\<rparr>" by blast
  show "rt_id r2 = rt_id r" "fst (snd p) = rt_id r" "rt_status r2 = Done" by (simp_all add: r2 p archive_path_def)
  have "map_of (dict_put p content files) p = Some content" by (simp add: update_conv')
  then show "finished_ok L (dict_put p content files) (r2\<lparr>rt_finished := Some now\<rparr>)"
    unfolding finished_ok_def
    using compose_says_only [OF c] assms(2) render
    by (intro exI [of _ d] exI [of _ t] exI [of _ a] exI [of _ p] exI [of _ content] exI [of _ "context_of db r now d t a"]
        exI [of _ "rt_format r"]) (simp add: r2 p archive_path_def context_of_def)
qed

lemma inv_write:
  assumes "report_inv L s" and "report_get i s = Some r" and "rt_status r \<noteq> Done" and "fst (snd p) = i"
  shows "report_inv L (s\<lparr>rs_files := dict_put p content (rs_files s)\<rparr>)"
proof -
  have "finished_ok L (dict_put p content (rs_files s)) x" if x: "x \<in> set (rs_reports s)" "rt_status x = Done" for x
  proof -
    have "rt_id x \<noteq> i"
    proof
      assume "rt_id x = i"
      then have "x = r" using assms(1,2) x(1) report_get_id [OF assms(2)]
        by (metis (no_types) distinct_map inj_onD report_inv_def)
      then show False using x(2) assms(3) by simp
    qed
    have "finished_ok L (rs_files s) x" using assms(1) x by (simp add: report_inv_def)
    then show ?thesis using \<open>rt_id x \<noteq> i\<close> assms(4) by (rule_tac finished_ok_files) (auto simp: update_conv')
  qed
  then show ?thesis using assms(1) by (simp add: report_inv_def)
qed

lemma generate_inv:
  assumes "report_inv L s"
  shows "report_inv L (snd (generate L db now i s))"
proof (cases "report_get i s")
  case None
  then show ?thesis using assms by (simp add: generate_def)
next
  case (Some r)
  note id = report_get_id [OF Some]
  define r1 where "r1 = r\<lparr>rt_status := Running\<rparr>"
  define s1 where "s1 = report_put r1 s"
  show ?thesis
  proof (cases "rt_status r = Done")
    case True
    then show ?thesis using Some assms by (simp add: generate_def)
  next
    case False
    have r1: "rt_id r1 = i" "rt_status r1 = Running" using id by (simp_all add: r1_def)
    have inv1: "report_inv L s1" unfolding s1_def by (rule report_inv_put [OF assms]) (simp add: r1)
    have get1: "report_get i s1 = Some r1" using Some by (simp add: s1_def report_get_put r1)
    show ?thesis
    proof (cases "produce L db now r1")
      case (Inl e)
      have "report_inv L (report_put (r1\<lparr>rt_status := Failed, rt_error := Some (take 2000 e), rt_finished := Some now\<rparr>) s1)"
        by (rule report_inv_put [OF inv1]) simp
      then show ?thesis using Some False Inl by (simp add: generate_def r1_def s1_def Let_def)
    next
      case (Inr x)
      obtain r2 p content where x: "x = (r2, p, content)" by (cases x)
      note p = produce_shape [OF Inr [unfolded x]]
      have path: "fst (snd p) = i" using p r1 by (auto simp: archive_path_def)
      have inv2: "report_inv L (s1\<lparr>rs_files := dict_put p content (rs_files s1)\<rparr>)"
        by (rule inv_write [OF inv1 get1 _ path]) (simp add: r1)
      show ?thesis
      proof (cases "storable (the (rt_data r2))")
        case True
        note fin = produce_finished [OF Inr [unfolded x] True]
        have "report_inv L (report_put (r2\<lparr>rt_finished := Some now\<rparr>) (s1\<lparr>rs_files := dict_put p content (rs_files s1)\<rparr>))"
          by (rule report_inv_put [OF inv2]) (simp add: fin(1) [where files = "rs_files s1"])
        then show ?thesis using Some False Inr x True by (simp add: generate_def r1_def [symmetric] s1_def [symmetric] Let_def)
      next
        case no: False
        then show ?thesis using Some False Inr x inv2 by (simp add: generate_def r1_def [symmetric] s1_def [symmetric] Let_def)
      qed
    qed
  qed
qed

lemma generate_keeps:
  assumes "report_get k s = Some r" and "rt_status r = Done"
  shows "report_get k (snd (generate L db now i s)) = Some r"
proof (cases "report_get i s")
  case None
  then show ?thesis using assms by (simp add: generate_def)
next
  case (Some x)
  show ?thesis
  proof (cases "rt_status x = Done")
    case True
    then show ?thesis using Some assms by (simp add: generate_def)
  next
    case False
    then have "k \<noteq> i" using Some assms by auto
    moreover have "rt_id x = i" using report_get_id [OF Some] by simp
    ultimately show ?thesis using Some False assms(1)
      by (auto simp: generate_def Let_def report_get_put produce_finished(2) split: sum.split prod.split
          dest!: produce_shape)
  qed
qed

section \<open>Schedules\<close>

lemma mark_run_reports [simp]: "rs_reports (mark_run c now s) = rs_reports s" "rs_files (mark_run c now s) = rs_files s"
  by (simp_all add: mark_run_def)

lemma request_shape:
  assumes "request db actor q via now s = (res, s')"
  shows "(\<exists>e. res = Inl e \<and> s' = s)
    \<or> (\<exists>r. res = Inr r \<and> rs_reports s' = rs_reports s @ [r] \<and> rt_status r = Queued \<and> rt_via r = via \<and> rt_created r = now
         \<and> (\<exists>a b. rt_start r = Some a \<and> rt_end r = Some b \<and> a < b) \<and> rt_scope_id r \<noteq> None
         \<and> rs_schedules s' = rs_schedules s \<and> rs_files s' = rs_files s)"
  using assms by (auto simp: request_def Let_def not_le split: sum.splits prod.splits if_splits)

lemma fire_cases:
  assumes "fire L db local now c s = (e, f, s')"
  shows "(\<not> f \<and> s' = s)
    \<or> (f \<and> e = None \<and> is_due L (sd_cron c) local now (sd_last c) = Some True \<and> valid_request (schedule_request c)
       \<and> (\<exists>r. rs_reports s' = rs_reports s @ [r] \<and> rt_status r = Queued \<and> rt_via r = ''schedule'' \<and> rt_created r = now
            \<and> rt_type r = sd_type c \<and> rs_files s' = rs_files s
            \<and> rs_schedules s' = map (\<lambda>x. if sd_id x = sd_id c then x\<lparr>sd_last := Some now\<rparr> else x) (rs_schedules s)))"
proof -
  consider "is_due L (sd_cron c) local now (sd_last c) \<noteq> Some True \<or> \<not> valid_request (schedule_request c)"
    | (due) "is_due L (sd_cron c) local now (sd_last c) = Some True" "valid_request (schedule_request c)" by blast
  then show ?thesis
  proof cases
    case 1
    then show ?thesis using assms by (auto simp: fire_def split: option.splits bool.splits if_splits prod.splits sum.splits)
  next
    case due
    obtain res s1 where req: "request db None (schedule_request c) ''schedule'' now s = (res, s1)"
      by (cases "request db None (schedule_request c) ''schedule'' now s")
    have kind: "res = Inr r \<Longrightarrow> rt_type r = sd_type c" for r
      using req by (auto simp: request_def schedule_request_def Let_def split: sum.splits prod.splits if_splits)
    from request_shape [OF req] show ?thesis
    proof (elim disjE exE conjE)
      fix x assume "res = Inl x" "s1 = s"
      then show ?thesis using assms due req by (simp add: fire_def)
    next
      fix r assume "res = Inr r" "rs_reports s1 = rs_reports s @ [r]" "rt_status r = Queued" "rt_via r = ''schedule''"
        "rt_created r = now" "rs_schedules s1 = rs_schedules s" "rs_files s1 = rs_files s"
      then show ?thesis using assms due req kind by (auto simp: fire_def mark_run_def)
    qed
  qed
qed

text \<open>A schedule's run time moves only when it is due.\<close>

definition lasts :: "schedule list \<Rightarrow> nat \<Rightarrow> int option option" where
  "lasts cs i = map_of (map (\<lambda>c. (sd_id c, sd_last c)) cs) i"

lemma lasts_mark:
  "lasts (map (\<lambda>x. if sd_id x = k then x\<lparr>sd_last := Some now\<rparr> else x) cs) i =
     (if i = k then map_option (\<lambda>l. Some now) (lasts cs i) else lasts cs i)"
  by (induction cs) (auto simp: lasts_def)

lemma fire_all_apart:
  assumes "fire_all L db local now cs s = (e, n, s')" and "distinct (map sd_id cs)"
    and "\<forall>c \<in> set cs. lasts (rs_schedules s) (sd_id c) = Some (sd_last c)"
  shows "(\<exists>new. rs_reports s' = rs_reports s @ new \<and> length new = n
      \<and> (\<forall>r \<in> set new. rt_status r = Queued \<and> rt_via r = ''schedule'' \<and> rt_created r = now))
    \<and> rs_files s' = rs_files s
    \<and> (\<forall>i. lasts (rs_schedules s') i = lasts (rs_schedules s) i
         \<or> lasts (rs_schedules s') i = Some (Some now)
           \<and> (\<exists>c \<in> set cs. sd_id c = i \<and> (case sd_last c of None \<Rightarrow> True | Some u \<Rightarrow> CATCHUP_WINDOW \<le> now - u)))"
  using assms
proof (induction cs arbitrary: s e n s')
  case Nil
  then show ?case by auto
next
  case (Cons c cs)
  obtain e1 f s1 where fire: "fire L db local now c s = (e1, f, s1)" by (cases "fire L db local now c s")
  show ?case
  proof (cases e1)
    case (Some x)
    then have "s' = s1" "n = 0" using Cons.prems(1) fire by auto
    moreover have "s1 = s" using fire_cases [OF fire] Some by auto
    ultimately show ?thesis by auto
  next
    case None
    obtain e2 m s2 where rest: "fire_all L db local now cs s1 = (e2, m, s2)" by (cases "fire_all L db local now cs s1")
    then have res: "s' = s2" "n = of_bool f + m" using Cons.prems(1) fire None by auto
    show ?thesis
    proof (cases f)
      case False
      then have "s1 = s" using fire_cases [OF fire] by auto
      with Cons.IH [OF rest] Cons.prems(2,3) res False show ?thesis by auto
    next
      case True
      with fire_cases [OF fire] obtain r where
        r: "rs_reports s1 = rs_reports s @ [r]" "rt_status r = Queued" "rt_via r = ''schedule''" "rt_created r = now"
        and files: "rs_files s1 = rs_files s" and due: "is_due L (sd_cron c) local now (sd_last c) = Some True"
        and sched: "rs_schedules s1 = map (\<lambda>x. if sd_id x = sd_id c then x\<lparr>sd_last := Some now\<rparr> else x) (rs_schedules s)" by auto
      have moved: "lasts (rs_schedules s1) i = (if i = sd_id c then Some (Some now) else lasts (rs_schedules s) i)" for i
        using Cons.prems(3) by (simp add: sched lasts_mark)
      have "sd_id d \<noteq> sd_id c" if "d \<in> set cs" for d
        using Cons.prems(2) image_eqI [of "sd_id c" sd_id d "set cs"] that by (metis distinct.simps(2) list.simps(9) list.set_map)
      then have "\<forall>d \<in> set cs. lasts (rs_schedules s1) (sd_id d) = Some (sd_last d)"
        using Cons.prems(3) moved by simp
      with Cons.IH [OF rest] Cons.prems(2) obtain new where
        new: "rs_reports s2 = rs_reports s1 @ new" "length new = m"
          "\<forall>r \<in> set new. rt_status r = Queued \<and> rt_via r = ''schedule'' \<and> rt_created r = now"
        and files2: "rs_files s2 = rs_files s1"
        and times: "\<forall>i. lasts (rs_schedules s2) i = lasts (rs_schedules s1) i \<or> lasts (rs_schedules s2) i = Some (Some now)
           \<and> (\<exists>c \<in> set cs. sd_id c = i \<and> (case sd_last c of None \<Rightarrow> True | Some u \<Rightarrow> CATCHUP_WINDOW \<le> now - u))" by auto
      have gap: "case sd_last c of None \<Rightarrow> True | Some u \<Rightarrow> CATCHUP_WINDOW \<le> now - u"
        using due by (auto simp: is_due_def split: option.splits)
      have "lasts (rs_schedules s2) i = lasts (rs_schedules s) i \<or> lasts (rs_schedules s2) i = Some (Some now)
           \<and> (\<exists>d \<in> set (c # cs). sd_id d = i \<and> (case sd_last d of None \<Rightarrow> True | Some u \<Rightarrow> CATCHUP_WINDOW \<le> now - u))" for i
        using times [rule_format, of i] moved [of i] gap by (cases "i = sd_id c") auto
      moreover have "\<exists>new. rs_reports s2 = rs_reports s @ new \<and> length new = n
          \<and> (\<forall>r \<in> set new. rt_status r = Queued \<and> rt_via r = ''schedule'' \<and> rt_created r = now)"
        using new r res True by (intro exI [of _ "r # new"]) auto
      ultimately show ?thesis using files files2 res by simp
    qed
  qed
qed

section \<open>Histories\<close>

text \<open>
  Requests, generation, the worker that dies after it marked the report running, schedule runs, and edits of
  the schedules, over tables that change in between.
\<close>

inductive report_step :: "report_lib \<Rightarrow> report_state \<Rightarrow> report_state \<Rightarrow> bool" for L where
  asked: "report_step L s (snd (request db actor q via now s))"
| generated: "report_step L s (snd (generate L db now i s))"
| died: "report_get i s = Some r \<Longrightarrow> rt_status r \<noteq> Done \<Longrightarrow> report_step L s (report_put (r\<lparr>rt_status := Running\<rparr>) s)"
| ticked: "report_step L s (snd (snd (run_report_schedules L db local now s)))"
| edited: "report_step L s (s\<lparr>rs_schedules := cs\<rparr>)"

inductive report_reach :: "report_lib \<Rightarrow> report_state \<Rightarrow> bool" for L where
  empty: "rs_reports s = [] \<Longrightarrow> report_reach L s"
| steps: "report_reach L s \<Longrightarrow> report_step L s s' \<Longrightarrow> report_reach L s'"

lemma fire_all_keeps:
  "report_inv L s \<Longrightarrow> report_inv L (snd (snd (fire_all L db local now cs s)))
   \<and> (report_get i s = Some r \<longrightarrow> report_get i (snd (snd (fire_all L db local now cs s))) = Some r)"
proof (induction cs arbitrary: s)
  case Nil
  then show ?case by simp
next
  case (Cons c cs)
  obtain e f s1 where fire: "fire L db local now c s = (e, f, s1)" by (cases "fire L db local now c s")
  have same: "report_inv L (mark_run c now x) = report_inv L x" "report_get i (mark_run c now x) = report_get i x" for x
    by (simp_all add: report_inv_def report_get_def)
  have one: "report_inv L s1 \<and> (report_get i s = Some r \<longrightarrow> report_get i s1 = Some r)"
    using fire Cons.prems request_inv [OF Cons.prems, of db None "schedule_request c" "''schedule''" now]
      request_keeps [of i s r db None "schedule_request c" "''schedule''" now] same
    by (auto simp: fire_def split: option.splits bool.splits if_splits prod.splits sum.splits)
  then have "report_inv L s1" by simp
  from Cons.IH [OF this] one fire show ?case
    by (auto split: option.splits prod.splits)
qed

lemma report_step_inv:
  assumes "report_step L s s'" and "report_inv L s"
  shows "report_inv L s'" and "report_get i s = Some r \<Longrightarrow> rt_status r = Done \<Longrightarrow> report_get i s' = Some r"
proof -
  show "report_inv L s'"
    using assms
  proof cases
    case (ticked db local now)
    then show ?thesis using fire_all_keeps [OF assms(2)] by (simp add: run_report_schedules_def)
  next
    case (died i r)
    have "report_inv L (report_put (r\<lparr>rt_status := Running\<rparr>) s)" by (rule report_inv_put [OF assms(2)]) simp
    then show ?thesis using died by simp
  next
    case (edited cs)
    then show ?thesis using assms(2) by (simp add: report_inv_def)
  qed (use assms(2) request_inv generate_inv in blast)+
  show "report_get i s' = Some r" if r: "report_get i s = Some r" "rt_status r = Done"
    using assms(1)
  proof cases
    case (ticked db local now)
    then show ?thesis using fire_all_keeps [OF assms(2)] r by (simp add: run_report_schedules_def)
  next
    case (died k x)
    then have "i \<noteq> rt_id x" using r report_get_id [OF died(2)] by auto
    then show ?thesis using died r by (simp add: report_get_put)
  next
    case (edited cs)
    then show ?thesis using r by (simp add: report_get_def)
  qed (use r request_keeps generate_keeps in blast)+
qed

lemma report_reach_inv: "report_reach L s \<Longrightarrow> report_inv L s"
  by (induction rule: report_reach.induct) (auto simp: report_inv_def [of L s for s] dest: report_step_inv(1))



section \<open>Reports end\<close>

lemma storable_options [simp]: "storable (opt_num x)" "storable (opt_text y)" "storable (opt_bool b)"
  by (simp_all add: opt_num_def opt_text_def opt_bool_def split: option.split)

lemma storable_order_row [simp]: "storable (order_row f db r)"
  by (simp add: order_row_def)

lemma storable_rows: "(\<And>x. storable (f x)) \<Longrightarrow> list_all storable (map f xs)"
  by (simp add: list_all_iff)

lemma storable_timeline: "list_all storable (map snd (timeline f num db i at0))"
  by (auto simp: list_all_iff timeline_def Let_def prediction_entry_def alarm_entry_def order_entry_def)

lemma storable_machine_health: "machine_health f db i start end' = Inr d \<Longrightarrow> storable d"
  by (auto simp: machine_health_def Let_def list_all_iff split: option.splits)

lemma storable_weekly: "storable (weekly_maintenance f db sc i start end')"
  by (simp add: weekly_maintenance_def counts_def list_all_iff Let_def split: prod.split)

lemma storable_incident: "incident f num db i at0 = Inr d \<Longrightarrow> storable d"
  using storable_timeline [of f num db i at0] by (auto simp: incident_def Let_def list_all_iff split: option.splits)

lemma storable_benchmark:
  assumes "\<forall>r \<in> set (rb_runs db). storable (rv_results r)"
  shows "storable (benchmark_figures f db)"
proof -
  define rs where "rs = sort_key (\<lambda>r. - rv_started r) (filter (\<lambda>r. rv_status r = ''done'') (rb_runs db))"
  have "\<forall>r \<in> set rs. storable (rv_results r)" using assms by (auto simp: rs_def)
  then show ?thesis unfolding benchmark_figures_def rs_def [symmetric] by (cases rs) (auto simp: list_all_iff Let_def)
qed

lemma storable_energy:
  "storable (energy_figures h g db sc i start end') \<longleftrightarrow> hourly_energy_and_output (rb_kpi db) (asset_ids (rb_kpi db) sc i) start end' = []"
proof
  assume "storable (energy_figures h g db sc i start end')"
  then show "hourly_energy_and_output (rb_kpi db) (asset_ids (rb_kpi db) sc i) start end' = []"
    by (cases "hourly_energy_and_output (rb_kpi db) (asset_ids (rb_kpi db) sc i) start end'")
      (auto simp: energy_figures_def intensity_trend_def trend_row_def Let_def split: prod.splits)
next
  assume "hourly_energy_and_output (rb_kpi db) (asset_ids (rb_kpi db) sc i) start end' = []"
  then show "storable (energy_figures h g db sc i start end')"
    by (auto simp: energy_figures_def intensity_trend_def energy_anomalies_def consumer_def Let_def list_all_iff
        split: option.split prod.split)
qed

text \<open>The figures of a report that the database takes: all but those of an energy report with readings.\<close>

definition storable_report :: "report_db \<Rightarrow> report \<Rightarrow> bool" where
  "storable_report db r \<longleftrightarrow>
     (\<forall>x \<in> set (rb_runs db). storable (rv_results x))
     \<and> (rt_type r = Energy_Report \<longrightarrow>
          (case (rt_start r, rt_end r, rt_scope_id r) of
             (Some a, Some b, Some i) \<Rightarrow>
               hourly_energy_and_output (rb_kpi db)
                 (asset_ids (rb_kpi db) (case rt_scope r of Some x \<Rightarrow> x | None \<Rightarrow> Plant_Scope) i) a b = []
           | _ \<Rightarrow> True))"

lemma assemble_storable:
  assumes "assemble L db r = Inr d" and "storable_report db r"
  shows "storable d"
proof -
  obtain a b i where some: "rt_start r = Some a" "rt_end r = Some b" "rt_scope_id r = Some i"
    using assms(1) by (auto simp: assemble_def split: option.splits)
  show ?thesis
  proof (cases "rt_type r")
    case Machine_Health
    then show ?thesis using assms(1) some storable_machine_health by (simp add: assemble_def)
  next
    case Weekly_Maintenance
    then show ?thesis using assms(1) some storable_weekly by (auto simp: assemble_def)
  next
    case Energy_Report
    then show ?thesis using assms some by (auto simp: assemble_def storable_report_def storable_energy)
  next
    case Benchmark_Report
    then show ?thesis using assms some storable_benchmark by (auto simp: assemble_def storable_report_def)
  next
    case Incident_Report
    then show ?thesis using assms(1) some storable_incident by (simp add: assemble_def)
  qed
qed


section \<open>Where it goes wrong\<close>

text \<open>
  The figures of an energy report hold \<open>datetime\<close> objects as soon as there is one hour of readings, which the
  JSON column refuses: the report is left running, and is never marked failed.
\<close>

lemma energy_report_stuck:
  assumes "report_get i s = Some r" and "rt_status r \<noteq> Done" and "rt_type r = Energy_Report" and "\<not> storable_report db r"
    and "\<forall>x \<in> set (rb_runs db). storable (rv_results x)"
    and "\<And>ctx f. \<exists>c. le_render L ctx f = Inr (c, f)" and "\<And>p. le_write L p = None"
  shows "fst (generate L db now i s) = Inl Store_Failed
    \<and> (\<exists>r'. report_get i (snd (generate L db now i s)) = Some r' \<and> rt_status r' = Running)"
proof -
  define r1 where "r1 = r\<lparr>rt_status := Running\<rparr>"
  have r1: "rt_id r1 = i" using report_get_id [OF assms(1)] by (simp add: r1_def)
  obtain a b k where some: "rt_start r = Some a" "rt_end r = Some b" "rt_scope_id r = Some k"
    using assms(3,4,5) by (auto simp: storable_report_def split: option.splits)
  let ?d = "energy_figures (le_health L) (le_id L) db (case rt_scope r of Some x \<Rightarrow> x | None \<Rightarrow> Plant_Scope) k a b"
  have d: "assemble L db r1 = Inr ?d" using some assms(3) by (simp add: assemble_def r1_def)
  have bad: "\<not> storable ?d" using some assms(3,4,5) by (auto simp: storable_report_def storable_energy)
  obtain t au where c: "compose_summary (le_show L) (le_llm L) (rt_type r1) ?d = (t, au)" by force
  obtain content where "le_render L (context_of db r1 now ?d t au) (rt_format r1) = Inr (content, rt_format r1)"
    using assms(6) by blast
  then obtain r2 p where "produce L db now r1 = Inr (r2, p, content)" "rt_data r2 = Some ?d"
    using d c assms(7) by (auto simp: produce_def Let_def)
  then show ?thesis using assms(1,2) bad r1
    by (simp add: generate_def r1_def [symmetric] Let_def report_get_put) (simp add: r1_def)
qed

text \<open>
  \<open>ScheduleCreate\<close> accepts a machine health or incident schedule without a machine, which \<open>ReportCreate\<close>
  refuses: when it is due, the run ends there, and the schedules after it never fire.
\<close>

lemma broken_schedule_stops_the_rest:
  assumes "enabled_schedules s = c # cs" and "is_due L (sd_cron c) local now (sd_last c) = Some True"
    and "sd_type c \<in> {Machine_Health, Incident_Report}" and "sd_scope_id c = None"
  shows "run_report_schedules L db local now s = (Some Invalid, 0, s)"
  using assms by (auto simp: run_report_schedules_def fire_def valid_request_def schedule_request_def)

text \<open>A firing missed while the worker was down is not made up for: only the current minute is looked at.\<close>

lemma missed_firing_is_lost:
  "cron_matches L (sd_cron c) local = Some False \<Longrightarrow> fire L db local now c s = (None, False, s)"
  by (simp add: fire_def is_due_def)

section \<open>Figures\<close>

lemma accuracy_range: "accuracy xs = Some x \<Longrightarrow> 0 \<le> x \<and> x \<le> 100"
proof -
  assume x: "accuracy xs = Some x"
  define scored where "scored = filter (\<lambda>r. ov_correct r \<noteq> None) xs"
  define correct where "correct = length (filter (\<lambda>r. ov_correct r = Some True) scored)"
  have "scored \<noteq> []" "x = round_dec 1 (100 * real correct / real (length scored))"
    using x by (auto simp: accuracy_def scored_def correct_def Let_def split: if_splits)
  moreover have "correct \<le> length scored" by (simp add: correct_def)
  then have "100 * real correct / real (length scored) \<le> of_int 100"
    using calculation(1) by (simp add: divide_le_eq)
  ultimately show ?thesis using round_dec_le_int [of _ 100 1] round_dec_nonneg by simp
qed

text \<open>
  Property C44. The timeline of an incident is complete and in order: it holds one entry for every prediction,
  alarm and live work order of the machine within 48 hours of the failure, and nothing else, by time.
\<close>

theorem timeline_complete:
  "sorted (map fst (timeline f num db i at0))
    \<and> mset (timeline f num db i at0) =
        image_mset (prediction_entry f num db)
          (filter_mset (\<lambda>p. pv_asset p = i \<and> at0 - INCIDENT_WINDOW \<le> pv_time p \<and> pv_time p < at0 + INCIDENT_WINDOW) (mset (rb_predictions db)))
        + image_mset (alarm_entry f)
          (filter_mset (\<lambda>a. av_asset a = i \<and> at0 - INCIDENT_WINDOW \<le> av_raised a \<and> av_raised a < at0 + INCIDENT_WINDOW) (mset (rb_alarms db)))
        + image_mset (order_entry f)
          (filter_mset (\<lambda>r. ov_asset r = i \<and> at0 - INCIDENT_WINDOW \<le> ov_created r \<and> ov_created r < at0 + INCIDENT_WINDOW
             \<and> \<not> ov_deleted r) (mset (rb_orders db)))"
  by (simp add: timeline_def predictions_in_def alarms_in_def orders_raised_def Let_def)

section \<open>Witnesses\<close>

definition no_kpis :: kpi_db where
  "no_kpis = \<lparr>kd_events = [], kd_counts = [], kd_readings = [], kd_orders = [], kd_assets = [], kd_lines = [], kd_plants = [],
     kd_definitions = [], kd_values = [], kd_baselines = []\<rparr>"

definition demo_tables :: report_db where
  "demo_tables = \<lparr>rb_kpi = no_kpis, rb_plants = [(1, ''Plant'', False)], rb_lines = [], rb_machines = [], rb_predictions = [],
     rb_alarms = [], rb_orders = [], rb_technicians = [], rb_explanations = [], rb_models = [], rb_runs = []\<rparr>"

definition demo_report_lib :: report_lib where
  "demo_report_lib = \<lparr>le_iso = (\<lambda>t. []), le_num = (\<lambda>x. []), le_show = (\<lambda>f. []), le_id = (\<lambda>i. []), le_health = (\<lambda>i. None),
     le_llm = (\<lambda>k d. None), le_render = (\<lambda>ctx f. Inr (cx_text ctx, f)), le_write = (\<lambda>p. None), le_month = (\<lambda>t. ''2026/01''),
     le_cron = (\<lambda>a b c d e. Some \<lparr>cs_minute = [0..59], cs_hour = [0..23], cs_day_of_week = [0..6], cs_day_of_month = [1..31],
        cs_month = [1..12]\<rparr>), le_data_error = (\<lambda>e. [])\<rparr>"

definition demo_ask :: report_create where
  "demo_ask = \<lparr>rq_type = Benchmark_Report, rq_scope = Some Plant_Scope, rq_scope_id = None, rq_start = None, rq_end = None, rq_format = ''md''\<rparr>"

definition demo_weekly :: schedule where
  "demo_weekly = \<lparr>sd_id = 1, sd_type = Weekly_Maintenance, sd_scope = Some Plant_Scope, sd_scope_id = None, sd_format = ''md'',
     sd_cron = ''a b c d e'', sd_enabled = True, sd_last = None, sd_deleted = False\<rparr>"

definition no_reports :: report_state where
  "no_reports = \<lparr>rs_reports = [], rs_schedules = [demo_weekly], rs_files = [], rs_audits = []\<rparr>"

definition demo_queued :: report_state where
  "demo_queued = snd (request demo_tables None demo_ask ''ui'' 1000 no_reports)"

definition demo_done :: report_state where
  "demo_done = snd (generate demo_report_lib demo_tables 2000 1 demo_queued)"

lemma demo_done_reach: "report_reach demo_report_lib demo_done"
  unfolding demo_done_def demo_queued_def
  by (intro report_reach.steps [OF report_reach.steps [OF report_reach.empty asked] generated]) (simp add: no_reports_def)

definition demo_row :: report where
  "demo_row = hd (rs_reports demo_queued)"

lemma demo_report_stored: "report_get 1 demo_queued = Some demo_row"
  by code_simp

lemma demo_row: "rt_type demo_row = Benchmark_Report" "rt_status demo_row = Queued" "rt_format demo_row = ''md''" "rt_id demo_row = 1"
  "rt_start demo_row = Some (1000 - 30 * DAY_US)" "rt_end demo_row = Some 1000" "rt_scope_id demo_row = Some 1"
  by code_simp+

definition demo_sentence :: string where
  "demo_sentence = ''No completed benchmark run is on record yet.''"

lemma demo_summary: "fst (compose_summary (\<lambda>f. []) (\<lambda>k d. None) Benchmark_Report (benchmark_figures (\<lambda>t. []) demo_tables)) = demo_sentence"
  by code_simp

lemma demo_figures_stored: "storable (benchmark_figures (\<lambda>t. []) demo_tables)"
  by code_simp

definition demo_running :: report where
  "demo_running = demo_row\<lparr>rt_status := Running\<rparr>"

lemma demo_produced:
  "\<exists>r2 p. produce demo_report_lib demo_tables 2000 demo_running = Inr (r2, p, demo_sentence)"
proof -
  obtain t a where c: "compose_summary (\<lambda>f. []) (\<lambda>k d. None) Benchmark_Report (benchmark_figures (\<lambda>t. []) demo_tables) = (t, a)" by force
  then have "t = demo_sentence" using demo_summary by simp
  then show ?thesis using c
    by (simp add: produce_def assemble_def demo_running_def demo_row demo_report_lib_def context_of_def archive_path_def Let_def)
qed

lemma demo_served: "\<exists>f. report_file {''admin''} 1 demo_done = Inr (demo_sentence, f)"
proof -
  obtain r2 p where p: "produce demo_report_lib demo_tables 2000 demo_running = Inr (r2, p, demo_sentence)"
    using demo_produced by blast
  note shape = produce_shape [OF p]
  have id: "rt_id demo_running = 1" by (simp add: demo_running_def demo_row)
  then have r2: "rt_id r2 = 1" "rt_file r2 = Some p" "rt_status r2 = Done" "storable (the (rt_data r2))"
    using shape demo_figures_stored
    by (auto simp: assemble_def demo_running_def demo_row demo_report_lib_def)
  have "report_get 1 (report_put demo_running demo_queued) = Some demo_running"
    using demo_report_stored id by (simp add: report_get_put)
  then have done_eq: "demo_done = report_put (r2\<lparr>rt_finished := Some 2000\<rparr>)
      ((report_put demo_running demo_queued)\<lparr>rs_files := dict_put p demo_sentence (rs_files demo_queued)\<rparr>)"
    unfolding demo_done_def generate_def using demo_report_stored demo_row(2) p r2 by (simp add: demo_running_def [symmetric] Let_def)
  have "report_get 1 demo_done = Some (r2\<lparr>rt_finished := Some 2000\<rparr>)" "map_of (rs_files demo_done) p = Some demo_sentence"
    unfolding done_eq using demo_report_stored id r2 by (simp_all add: report_get_put update_conv')
  then show ?thesis using r2 by (simp add: report_file_def may_see_def visible_types_def)
qed



lemma demo_tick: "fst (run_report_schedules demo_report_lib demo_tables 5000 5000 no_reports) = None
    \<and> fst (snd (run_report_schedules demo_report_lib demo_tables 5000 5000 no_reports)) = 1"
  by code_simp


end
