(* ===== verification/Live_Hub.thy ===== *)
theory Live_Hub
  imports Sim_Commands Ingest_Consumer "HOL-Library.List_Lexorder" "HOL-Library.Char_ord"
begin

text \<open>
  The live feed of the API: \<open>apps/api/app/core/ws_hub.py\<close>. One handler per browser socket keeps its
  topics, one task forwards what the channels of Valkey carry, one sends a heartbeat. The tasks share the
  event loop, so what lies between two \<open>await\<close>s is one step: an event of the hub below. A frame from a
  browser is the JSON value it holds; a disconnection and a frame that is not JSON end the handler alike.
  A send succeeds or raises. What is published while the subscription to Valkey is down never reaches the
  hub, and is no event here.
\<close>

section \<open>Topics and messages\<close>

definition HEARTBEAT_S :: nat where "HEARTBEAT_S = 20"

definition is_lower_char :: "char \<Rightarrow> bool" where
  "is_lower_char c \<longleftrightarrow> CHR ''a'' \<le> c \<and> c \<le> CHR ''z''"

definition is_upper_char :: "char \<Rightarrow> bool" where
  "is_upper_char c \<longleftrightarrow> CHR ''A'' \<le> c \<and> c \<le> CHR ''Z''"

text \<open>\<open>TOPIC_RE\<close>; the final \<open>$\<close> also matches before a line feed that ends the text.\<close>

definition topic_text :: "string \<Rightarrow> bool" where
  "topic_text t \<longleftrightarrow>
     (take 6 t = ''asset:'' \<and>
        (case drop 6 t of [] \<Rightarrow> False
         | c # cs \<Rightarrow> (is_lower_char c \<or> is_digit c)
             \<and> list_all (\<lambda>d. is_lower_char d \<or> is_digit d \<or> d = CHR ''_'' \<or> d = CHR ''-'') cs))
     \<or> t = ''alarms''
     \<or> (take 6 t = ''voice:'' \<and> drop 6 t \<noteq> []
         \<and> list_all (\<lambda>d. is_lower_char d \<or> is_upper_char d \<or> is_digit d \<or> d = CHR ''-'') (drop 6 t))"

definition topic_ok :: "string \<Rightarrow> bool" where
  "topic_ok t \<longleftrightarrow> topic_text t \<or> (t \<noteq> [] \<and> last t = CHR 0x0A \<and> topic_text (butlast t))"

definition channel_to_topic :: "string \<Rightarrow> string" where
  "channel_to_topic ch = (if take 5 ch = ''live:'' then ''asset:'' @ drop 5 ch else ch)"

text \<open>
  \<open>to_client_message\<close>: \<^term>\<open>None\<close> where it raises one of the three exceptions the listener catches. A
  key of the payload overrides \<open>type\<close>.
\<close>

definition to_client_message :: "string \<Rightarrow> json option \<Rightarrow> (string \<times> json) list option" where
  "to_client_message topic raw = (case raw of
       Some (J_Obj d) \<Rightarrow> (case (map_of d ''kind'', map_of d ''payload'') of
           (Some k, Some (J_Obj p)) \<Rightarrow>
             (let m = foldl (\<lambda>e (x, v). dict_put x v e) [(''type'', k)] p
              in Some (if take 6 topic = ''asset:'' \<and> map_of m ''asset'' = None
                       then dict_put ''asset'' (J_Str (drop 6 topic)) m else m))
         | _ \<Rightarrow> None)
     | _ \<Rightarrow> None)"

text \<open>
  What the ingest consumer publishes for a message of a machine: the channel and the JSON value that
  \<open>json.loads\<close> gives back.
\<close>

definition shown_json :: "shown \<Rightarrow> json" where
  "shown_json x = (case x of
       Text t \<Rightarrow> J_Obj [(''v'', J_Str t), (''u'', J_Str [])]
     | Number v u \<Rightarrow> J_Obj [(''v'', J_Float v), (''u'', J_Str u)])"

definition telemetry_item :: "string \<Rightarrow> string \<Rightarrow> (string \<times> shown) list \<Rightarrow> string \<times> json" where
  "telemetry_item now code metrics =
     (''live:'' @ code,
      J_Obj [(''kind'', J_Str ''telemetry''),
        (''payload'', J_Obj [(''asset'', J_Str code), (''t'', J_Str now),
           (''metrics'', J_Obj (map (\<lambda>(k, x). (k, shown_json x)) metrics))])])"

text \<open>\<open>CODE_PATTERN\<close> of \<open>modules/assets/schemas.py\<close>, as pydantic checks it.\<close>

definition code_ok :: "string \<Rightarrow> bool" where
  "code_ok s = (case s of [] \<Rightarrow> False
     | c # cs \<Rightarrow> (is_lower_char c \<or> is_digit c) \<and> 1 \<le> length cs \<and> length cs \<le> 48
         \<and> list_all (\<lambda>d. is_lower_char d \<or> is_digit d \<or> d = CHR ''-'') cs)"

section \<open>The hub\<close>

datatype frame = Data "(string \<times> json) list" | Heartbeat string | Subscribed "string list"

text \<open>
  A handler is reading, or has computed an answer and awaits its sending, or is over. The dictionary
  \<open>_sockets\<close> is in insertion order; the sends under way of the listener and of the heartbeat are the
  sockets still to serve and the message; the wire is all that was sent, in order.
\<close>

datatype phase = Unseen | Reading | Answering "string set" | Over

record 's hub =
  hb_sockets :: "('s \<times> string set) list"
  hb_phase :: "'s \<Rightarrow> phase"
  hb_fan :: "'s list \<times> frame"
  hb_beats :: "'s list \<times> frame"
  hb_wire :: "('s \<times> frame) list"

definition new_hub :: "'s hub" where
  "new_hub = \<lparr>hb_sockets = [], hb_phase = (\<lambda>_. Unseen), hb_fan = ([], Data []), hb_beats = ([], Heartbeat []), hb_wire = []\<rparr>"

text \<open>The topics a message names: a text is read character by character, an object key by key.\<close>

definition named_topics :: "(string \<times> json) list \<Rightarrow> string set option" where
  "named_topics d = (case map_of d ''topics'' of
       None \<Rightarrow> Some {}
     | Some (J_List xs) \<Rightarrow> Some (set (filter topic_ok (concat (map (\<lambda>x. case x of J_Str t \<Rightarrow> [t] | _ \<Rightarrow> []) xs))))
     | Some (J_Obj o1) \<Rightarrow> Some (set (filter topic_ok (map fst o1)))
     | Some (J_Str t) \<Rightarrow> Some (set (filter topic_ok (map (\<lambda>c. [c]) t)))
     | Some _ \<Rightarrow> None)"

text \<open>
  What one message makes of the topics its socket holds, \<^term>\<open>None\<close> for a socket that is not in the
  dictionary. The result is \<^term>\<open>None\<close> where the handler raises: \<open>AttributeError\<close>, \<open>TypeError\<close>, or the
  \<open>KeyError\<close> of \<open>self._sockets[ws]\<close>.
\<close>

definition serve_message :: "json \<Rightarrow> string set option \<Rightarrow> string set option" where
  "serve_message msg topics = (case msg of
       J_Obj d \<Rightarrow> (case (named_topics d, topics) of
           (Some ts, Some T) \<Rightarrow>
             Some (if get_key ''type'' d = J_Str ''subscribe'' then T \<union> ts
                   else if get_key ''type'' d = J_Str ''unsubscribe'' then T - ts else T)
         | _ \<Rightarrow> None)
     | _ \<Rightarrow> None)"

definition open_socket :: "'s \<Rightarrow> 's hub \<Rightarrow> 's hub" where
  "open_socket w h = h\<lparr>hb_sockets := dict_put w {} (hb_sockets h), hb_phase := (hb_phase h)(w := Reading)\<rparr>"

text \<open>The \<open>finally\<close> of \<open>handle\<close>.\<close>

definition close_socket :: "'s \<Rightarrow> 's hub \<Rightarrow> 's hub" where
  "close_socket w h = h\<lparr>hb_sockets := AList.delete w (hb_sockets h), hb_phase := (hb_phase h)(w := Over)\<rparr>"

definition receive :: "'s \<Rightarrow> json \<Rightarrow> 's hub \<Rightarrow> 's hub" where
  "receive w msg h = (case serve_message msg (map_of (hb_sockets h) w) of
       None \<Rightarrow> close_socket w h
     | Some T \<Rightarrow> h\<lparr>hb_sockets := dict_put w T (hb_sockets h), hb_phase := (hb_phase h)(w := Answering T)\<rparr>)"

definition answer :: "'s \<Rightarrow> string set \<Rightarrow> bool \<Rightarrow> 's hub \<Rightarrow> 's hub" where
  "answer w T ok h =
     (if ok then h\<lparr>hb_wire := hb_wire h @ [(w, Subscribed (sorted_list_of_set T))], hb_phase := (hb_phase h)(w := Reading)\<rparr>
      else close_socket w h)"

text \<open>One send of \<open>_send_all\<close>: a socket whose send raises is dropped from the dictionary.\<close>

definition send_to :: "'s \<Rightarrow> frame \<Rightarrow> bool \<Rightarrow> 's hub \<Rightarrow> 's hub" where
  "send_to w f ok h =
     (if ok then h\<lparr>hb_wire := hb_wire h @ [(w, f)]\<rparr> else h\<lparr>hb_sockets := AList.delete w (hb_sockets h)\<rparr>)"

definition publish_local :: "string \<Rightarrow> (string \<times> json) list \<Rightarrow> 's hub \<Rightarrow> 's hub" where
  "publish_local topic m h = h\<lparr>hb_fan := (map fst (filter (\<lambda>(w, ts). topic \<in> ts) (hb_sockets h)), Data m)\<rparr>"

definition listen_item :: "string \<Rightarrow> json option \<Rightarrow> 's hub \<Rightarrow> 's hub" where
  "listen_item ch raw h = (case to_client_message (channel_to_topic ch) raw of
       None \<Rightarrow> h | Some m \<Rightarrow> publish_local (channel_to_topic ch) m h)"

definition heartbeat :: "string \<Rightarrow> 's hub \<Rightarrow> 's hub" where
  "heartbeat t h = h\<lparr>hb_beats := (map fst (hb_sockets h), Heartbeat t)\<rparr>"

text \<open>The wait before the next attempt to subscribe to Valkey.\<close>

definition next_backoff :: "nat \<Rightarrow> nat" where
  "next_backoff b = min (b * 2) 30"

section \<open>Runs of the hub\<close>

datatype 's hub_event =
    Opened 's | Received 's json | Answered 's bool | Left 's
  | Item string "json option" | Fanned 's bool | Beat string | Beaten 's bool

inductive hub_step :: "'s hub \<Rightarrow> 's hub_event \<Rightarrow> 's hub \<Rightarrow> bool" where
  opened: "hb_phase h w = Unseen \<Longrightarrow> hub_step h (Opened w) (open_socket w h)"
| received: "hb_phase h w = Reading \<Longrightarrow> hub_step h (Received w msg) (receive w msg h)"
| answered: "hb_phase h w = Answering T \<Longrightarrow> hub_step h (Answered w ok) (answer w T ok h)"
| left: "hb_phase h w = Reading \<Longrightarrow> hub_step h (Left w) (close_socket w h)"
| item: "fst (hb_fan h) = [] \<Longrightarrow> hub_step h (Item ch raw) (listen_item ch raw h)"
| fanned: "hb_fan h = (w # ws, f) \<Longrightarrow> hub_step h (Fanned w ok) ((send_to w f ok h)\<lparr>hb_fan := (ws, f)\<rparr>)"
| beat: "fst (hb_beats h) = [] \<Longrightarrow> hub_step h (Beat t) (heartbeat t h)"
| beaten: "hb_beats h = (w # ws, f) \<Longrightarrow> hub_step h (Beaten w ok) ((send_to w f ok h)\<lparr>hb_beats := (ws, f)\<rparr>)"

inductive_cases hub_stepE: "hub_step h e h'"

inductive hub_run :: "'s hub_event list \<Rightarrow> 's hub \<Rightarrow> bool" where
  started: "hub_run [] new_hub"
| stepped: "hub_run es h \<Longrightarrow> hub_step h e h' \<Longrightarrow> hub_run (es @ [e]) h'"

end
