(* ===== verification/Live_View.thy ===== *)
theory Live_View
  imports Live_Hub
begin

text \<open>
  What a browser sees of the live feed: the view of one socket as a function of the events alone, and the hub
  against it. The topics the hub holds for a socket are those of its view, and what was sent to it are the
  messages its view is due, in order, without gaps.
\<close>

section \<open>The view of one socket\<close>

record view =
  v_topics :: "string set option"
  v_due :: "(string \<times> json) list list"

definition no_view :: view where
  "no_view = \<lparr>v_topics = None, v_due = []\<rparr>"

definition due_of :: "string \<Rightarrow> json option \<Rightarrow> string set option \<Rightarrow> (string \<times> json) list list" where
  "due_of ch raw topics = (case (topics, to_client_message (channel_to_topic ch) raw) of
       (Some T, Some m) \<Rightarrow> if channel_to_topic ch \<in> T then [m] else []
     | _ \<Rightarrow> [])"

fun view_step :: "'s \<Rightarrow> 's hub_event \<Rightarrow> view \<Rightarrow> view" where
  "view_step s (Opened w) v = (if w = s then v\<lparr>v_topics := Some {}\<rparr> else v)"
| "view_step s (Received w msg) v = (if w = s then v\<lparr>v_topics := serve_message msg (v_topics v)\<rparr> else v)"
| "view_step s (Answered w ok) v = (if w = s \<and> \<not> ok then v\<lparr>v_topics := None\<rparr> else v)"
| "view_step s (Left w) v = (if w = s then v\<lparr>v_topics := None\<rparr> else v)"
| "view_step s (Item ch raw) v = v\<lparr>v_due := v_due v @ due_of ch raw (v_topics v)\<rparr>"
| "view_step s (Fanned w ok) v = (if w = s \<and> \<not> ok then v\<lparr>v_topics := None\<rparr> else v)"
| "view_step s (Beat t) v = v"
| "view_step s (Beaten w ok) v = (if w = s \<and> \<not> ok then v\<lparr>v_topics := None\<rparr> else v)"

definition view_of :: "'s \<Rightarrow> 's hub_event list \<Rightarrow> view" where
  "view_of s es = foldl (\<lambda>v e. view_step s e v) no_view es"

lemma view_of_Nil [simp]: "view_of s [] = no_view"
  by (simp add: view_of_def)

lemma view_of_snoc [simp]: "view_of s (es @ [e]) = view_step s e (view_of s es)"
  by (simp add: view_of_def)

section \<open>What was sent\<close>

text \<open>The messages a socket was sent, and the one that still waits for its turn.\<close>

fun sent_data :: "'s \<Rightarrow> ('s \<times> frame) list \<Rightarrow> (string \<times> json) list list" where
  "sent_data s [] = []"
| "sent_data s ((w, f) # xs) = (case f of Data m \<Rightarrow> if w = s then m # sent_data s xs else sent_data s xs | _ \<Rightarrow> sent_data s xs)"

lemma sent_data_append [simp]: "sent_data s (xs @ ys) = sent_data s xs @ sent_data s ys"
  by (induction xs rule: sent_data.induct) (auto split: frame.splits)

definition waiting :: "'s \<Rightarrow> 's hub \<Rightarrow> (string \<times> json) list list" where
  "waiting s h = (case hb_fan h of (ws, Data m) \<Rightarrow> if s \<in> set ws then [m] else [] | _ \<Rightarrow> [])"

definition data_frame :: "frame \<Rightarrow> bool" where
  "data_frame f = (case f of Data _ \<Rightarrow> True | _ \<Rightarrow> False)"

text \<open>Only the message whose sending raised is missing, and the socket is due no more after it.\<close>

definition follows :: "'s \<Rightarrow> 's hub_event list \<Rightarrow> 's hub \<Rightarrow> bool" where
  "follows s es h \<longleftrightarrow>
     map_of (hb_sockets h) s = v_topics (view_of s es)
     \<and> (v_due (view_of s es) = sent_data s (hb_wire h) @ waiting s h
        \<or> (\<exists>m. v_due (view_of s es) = sent_data s (hb_wire h) @ [m]) \<and> waiting s h = []
          \<and> v_topics (view_of s es) = None \<and> Fanned s False \<in> set es)
     \<and> (hb_phase h s = Unseen \<longrightarrow> Fanned s False \<notin> set es)"

definition topics_ok :: "string set \<Rightarrow> bool" where
  "topics_ok T \<longleftrightarrow> finite T \<and> (\<forall>t \<in> T. topic_ok t)"

definition hub_sound :: "'s hub \<Rightarrow> bool" where
  "hub_sound h \<longleftrightarrow> distinct (map fst (hb_sockets h)) \<and> distinct (fst (hb_fan h)) \<and> data_frame (snd (hb_fan h))
     \<and> \<not> data_frame (snd (hb_beats h))
     \<and> (\<forall>w. hb_phase h w \<in> {Unseen, Over} \<longrightarrow> w \<notin> fst ` set (hb_sockets h))
     \<and> (\<forall>w \<in> set (fst (hb_fan h)). hb_phase h w \<noteq> Unseen)
     \<and> (\<forall>p \<in> set (hb_sockets h). topics_ok (snd p))"

section \<open>The hub stays sound\<close>

lemma named_topics_set: "named_topics d = Some ts \<Longrightarrow> \<exists>xs. ts = set (filter topic_ok xs)"
  by (cases "map_of d ''topics''")
    (auto simp: named_topics_def simp del: set_filter split: json.splits intro: exI [of _ "[]"])

lemma named_topics_ok: "named_topics d = Some ts \<Longrightarrow> topics_ok ts"
  by (auto simp: topics_ok_def dest: named_topics_set)

lemma serve_message_ok:
  assumes "serve_message msg T = Some T'" and "\<And>S. T = Some S \<Longrightarrow> topics_ok S"
  shows "topics_ok T'"
  using assms
  by (auto simp: serve_message_def topics_ok_def split: json.splits option.splits if_splits dest!: named_topics_ok)

lemma serve_message_None [simp]: "serve_message msg None = None"
  by (simp add: serve_message_def split: json.split option.split)

lemma data_frame_simps [simp]: "data_frame (Data m)" "\<not> data_frame (Heartbeat t)" "\<not> data_frame (Subscribed ts)"
  by (simp_all add: data_frame_def)

lemma fst_in_keys: "(w, T) \<in> set xs \<Longrightarrow> w \<in> fst ` set xs"
  by force

lemma keys_delete [simp]: "fst ` set (AList.delete w xs) = fst ` set xs - {w}"
  by (induction xs) auto

lemma keys_update [simp]: "fst ` set (AList.update w T xs) = insert w (fst ` set xs)"
  by (induction xs) auto

lemma in_update: "p \<in> set (AList.update w T xs) \<Longrightarrow> p = (w, T) \<or> p \<in> set xs"
  by (induction xs) (auto split: if_splits)

lemma in_delete: "p \<in> set (AList.delete w xs) \<Longrightarrow> p \<in> set xs"
  by (induction xs) (auto split: if_splits)

lemma sound_close: "hub_sound h \<Longrightarrow> hub_sound (close_socket w h)"
  unfolding hub_sound_def close_socket_def by (auto simp: distinct_delete dest: in_delete)

lemma sound_put:
  assumes "hub_sound h" "topics_ok T" "p \<notin> {Unseen, Over}"
  shows "hub_sound (h\<lparr>hb_sockets := dict_put w T (hb_sockets h), hb_phase := (hb_phase h)(w := p)\<rparr>)"
  using assms unfolding hub_sound_def
  by (auto simp: distinct_update dest!: in_update)

lemma sound_open: "hub_sound h \<Longrightarrow> hub_sound (open_socket w h)"
  unfolding open_socket_def by (rule sound_put) (auto simp: topics_ok_def)

lemma sound_socket: "hub_sound h \<Longrightarrow> map_of (hb_sockets h) w = Some T \<Longrightarrow> topics_ok T"
  by (auto simp: hub_sound_def dest!: map_of_SomeD)

lemma sound_receive:
  assumes "hub_sound h" shows "hub_sound (receive w msg h)"
proof (cases "serve_message msg (map_of (hb_sockets h) w)")
  case None
  with assms show ?thesis by (simp add: receive_def sound_close)
next
  case (Some T)
  from serve_message_ok [OF Some] sound_socket [OF assms] have "topics_ok T" by blast
  with Some sound_put [OF assms] show ?thesis by (simp add: receive_def)
qed

lemma sound_send: "hub_sound h \<Longrightarrow> hub_sound (send_to w f ok h)"
  unfolding hub_sound_def send_to_def by (auto simp: distinct_delete dest: in_delete)

lemma sound_fan: "hub_sound h \<Longrightarrow> hb_fan h = (w # ws, f) \<Longrightarrow> hub_sound ((send_to w f ok h)\<lparr>hb_fan := (ws, f)\<rparr>)"
  using sound_send [of h w f ok] by (auto simp: hub_sound_def send_to_def split: if_splits)

lemma sound_beat: "hub_sound h \<Longrightarrow> hb_beats h = (w # ws, f) \<Longrightarrow> hub_sound ((send_to w f ok h)\<lparr>hb_beats := (ws, f)\<rparr>)"
  using sound_send [of h w f ok] by (auto simp: hub_sound_def send_to_def split: if_splits)

lemma distinct_filter_keys: "distinct (map fst xs) \<Longrightarrow> distinct (map fst (filter P xs))"
  by (induction xs) auto

lemma sound_publish:
  assumes "hub_sound h" shows "hub_sound (publish_local topic m h)"
proof -
  have "hb_phase h w \<noteq> Unseen" if "(w, T) \<in> set (hb_sockets h)" for w T
    using assms fst_in_keys [OF that] by (auto simp: hub_sound_def)
  with assms show ?thesis by (auto simp: hub_sound_def publish_local_def distinct_filter_keys)
qed

lemma sound_step: "hub_step h e h' \<Longrightarrow> hub_sound h \<Longrightarrow> hub_sound h'"
proof (induction rule: hub_step.induct)
  case (answered h w T ok)
  then show ?case using sound_close [of h w] by (auto simp: answer_def hub_sound_def)
next
  case (item h ch raw)
  then show ?case by (auto simp: listen_item_def sound_publish split: option.split)
next
  case (beat h t)
  then show ?case by (auto simp: heartbeat_def hub_sound_def)
qed (simp_all add: sound_open sound_receive sound_close sound_fan sound_beat)


section \<open>The hub follows the view\<close>

lemma follows_quiet:
  assumes "follows s es h"
    and "sent_data s (hb_wire h') = sent_data s (hb_wire h)" and "waiting s h' = waiting s h"
    and "v_due (view_step s e (view_of s es)) = v_due (view_of s es)"
    and "map_of (hb_sockets h') s = v_topics (view_step s e (view_of s es))"
    and "v_topics (view_of s es) = None \<Longrightarrow> hb_phase h s \<noteq> Unseen \<Longrightarrow> v_topics (view_step s e (view_of s es)) = None"
    and "e \<noteq> Fanned s False" and "hb_phase h' s = Unseen \<Longrightarrow> hb_phase h s = Unseen"
  shows "follows s (es @ [e]) h'"
  using assms unfolding follows_def by auto

lemma socket_close [simp]: "map_of (hb_sockets (close_socket w h)) s = (if s = w then None else map_of (hb_sockets h) s)"
  by (simp add: close_socket_def delete_conv')

lemma close_rest [simp]:
  "hb_wire (close_socket w h) = hb_wire h" "hb_fan (close_socket w h) = hb_fan h"
  "hb_phase (close_socket w h) s = (if s = w then Over else hb_phase h s)"
  by (simp_all add: close_socket_def)

lemma receive_rest [simp]: "hb_wire (receive w msg h) = hb_wire h" "hb_fan (receive w msg h) = hb_fan h"
  by (simp_all add: receive_def split: option.split)

lemma socket_receive [simp]:
  "map_of (hb_sockets (receive w msg h)) s =
     (if s = w then serve_message msg (map_of (hb_sockets h) w) else map_of (hb_sockets h) s)"
  by (auto simp: receive_def update_conv' split: option.split)

lemma phase_receive: "hb_phase (receive w msg h) s = Unseen \<Longrightarrow> s \<noteq> w \<and> hb_phase h s = Unseen"
  by (auto simp: receive_def split: option.splits if_splits)

lemma waiting_cong: "hb_fan h' = hb_fan h \<Longrightarrow> waiting s h' = waiting s h"
  by (simp add: waiting_def)

lemma follows_topics: "follows s es h \<Longrightarrow> map_of (hb_sockets h) s = v_topics (view_of s es)"
  by (simp add: follows_def)

lemma sent_other: "\<not> data_frame f \<Longrightarrow> sent_data s (xs @ [(w, f)]) = sent_data s xs"
  by (cases f) auto

lemma send_rest [simp]:
  "hb_fan (send_to w f ok h) = hb_fan h" "hb_phase (send_to w f ok h) = hb_phase h" "hb_beats (send_to w f ok h) = hb_beats h"
  "map_of (hb_sockets (send_to w f ok h)) s = (if s = w \<and> \<not> ok then None else map_of (hb_sockets h) s)"
  "hb_wire (send_to w f ok h) = (if ok then hb_wire h @ [(w, f)] else hb_wire h)"
  by (simp_all add: send_to_def delete_conv')

lemma publish_waiting:
  assumes "distinct (map fst (hb_sockets h))"
  shows "waiting s (publish_local t m h) =
    (case map_of (hb_sockets h) s of Some T \<Rightarrow> if t \<in> T then [m] else [] | None \<Rightarrow> [])"
proof -
  have "s \<in> set (map fst (filter (\<lambda>(w, ts). t \<in> ts) (hb_sockets h))) \<longleftrightarrow>
      (\<exists>T. map_of (hb_sockets h) s = Some T \<and> t \<in> T)"
    using assms by (force simp: map_of_eq_Some_iff)
  then show ?thesis by (auto simp: waiting_def publish_local_def split: option.split)
qed

lemma follows_item:
  assumes "follows s es h" and "hub_sound h" and "fst (hb_fan h) = []"
  shows "follows s (es @ [Item ch raw]) (listen_item ch raw h)"
proof -
  have idle: "waiting s h = []" using assms(3) by (auto simp: waiting_def split: prod.split frame.split)
  show ?thesis
  proof (cases "to_client_message (channel_to_topic ch) raw")
    case None
    then have "due_of ch raw T = []" for T by (simp add: due_of_def split: option.split)
    with None assms(1) show ?thesis by (auto simp: follows_def listen_item_def)
  next
    case (Some m)
    have "distinct (map fst (hb_sockets h))" using assms(2) by (simp add: hub_sound_def)
    from publish_waiting [OF this] have "waiting s (listen_item ch raw h) = due_of ch raw (v_topics (view_of s es))"
      unfolding listen_item_def due_of_def Some follows_topics [OF assms(1), symmetric]
      by (simp split: option.split)
    with assms(1) idle Some show ?thesis
      by (auto simp: follows_def listen_item_def publish_local_def due_of_def)
  qed
qed

lemma follows_fan:
  assumes "follows s es h" and "hub_sound h" and fan: "hb_fan h = (w # ws, f)"
  shows "follows s (es @ [Fanned w ok]) ((send_to w f ok h)\<lparr>hb_fan := (ws, f)\<rparr>)"
proof -
  from assms(2) fan obtain m where f: "f = Data m" by (cases f) (auto simp: hub_sound_def)
  from assms(2) fan have w: "w \<notin> set ws" "hb_phase h w \<noteq> Unseen" by (auto simp: hub_sound_def)
  have "waiting s h = (if s = w \<or> s \<in> set ws then [m] else [])" using fan f by (simp add: waiting_def)
  moreover have "waiting s ((send_to w f ok h)\<lparr>hb_fan := (ws, f)\<rparr>) = (if s \<in> set ws then [m] else [])"
    using f by (simp add: waiting_def)
  ultimately show ?thesis using assms(1) w f by (auto simp: follows_def)
qed

lemma follows_step: "hub_step h e h' \<Longrightarrow> hub_sound h \<Longrightarrow> follows s es h \<Longrightarrow> follows s (es @ [e]) h'"
proof (induction rule: hub_step.induct)
  case (opened h w)
  then show ?case
    by (intro follows_quiet [OF opened(3)])
      (auto simp: open_socket_def update_conv' follows_topics waiting_def split: if_splits)
next
  case (received h w msg)
  then show ?case
    by (intro follows_quiet [OF received(3)]) (auto simp: follows_topics intro: waiting_cong dest: phase_receive)
next
  case (answered h w T ok)
  then show ?case
    by (intro follows_quiet [OF answered(3)])
      (auto simp: answer_def follows_topics simp del: sent_data_append intro: waiting_cong sent_other split: if_splits)
next
  case (left h w)
  then show ?case
    by (intro follows_quiet [OF left(3)]) (auto simp: follows_topics intro: waiting_cong split: if_splits)
next
  case (item h ch raw)
  then show ?case by (simp add: follows_item)
next
  case (fanned h w ws f ok)
  then show ?case by (simp add: follows_fan)
next
  case (beat h t)
  then show ?case
    by (intro follows_quiet [OF beat(3)]) (auto simp: heartbeat_def follows_topics intro: waiting_cong)
next
  case (beaten h w ws f ok)
  then have "\<not> data_frame f" by (simp add: hub_sound_def)
  with beaten show ?case
    by (intro follows_quiet [OF beaten(3)])
      (auto simp: follows_topics sent_other simp del: sent_data_append intro: waiting_cong split: if_splits)
qed

lemma hub_run_follows: "hub_run es h \<Longrightarrow> hub_sound h \<and> follows s es h"
proof (induction rule: hub_run.induct)
  case started
  show ?case by (simp add: hub_sound_def follows_def new_hub_def no_view_def waiting_def)
next
  case (stepped es h e h')
  from stepped(3) have "hub_sound h" "follows s es h" by auto
  then show ?case using sound_step [OF stepped(2)] follows_step [OF stepped(2)] by simp
qed


section \<open>The feed of a machine\<close>

text \<open>Every code the registry accepts is a topic, and its telemetry reaches the browser under its code.\<close>

lemma code_is_topic: "code_ok code \<Longrightarrow> topic_ok (''asset:'' @ code)"
  by (auto simp: code_ok_def topic_ok_def topic_text_def list_all_iff split: list.splits)

definition subscribe_to :: "string \<Rightarrow> json" where
  "subscribe_to topic = J_Obj [(''type'', J_Str ''subscribe''), (''topics'', J_List [J_Str topic])]"

lemma subscribed: "topic_ok t \<Longrightarrow> serve_message (subscribe_to t) (Some T) = Some (insert t T)"
  by (simp add: serve_message_def subscribe_to_def named_topics_def get_key_def)

lemma live_topic: "channel_to_topic (''live:'' @ code) = ''asset:'' @ code"
  by (simp add: channel_to_topic_def)

lemma telemetry_message:
  "telemetry_item now code metrics = (ch, raw) \<Longrightarrow> channel_to_topic ch = ''asset:'' @ code
     \<and> to_client_message (channel_to_topic ch) (Some raw) =
       Some [(''type'', J_Str ''telemetry''), (''asset'', J_Str code), (''t'', J_Str now),
         (''metrics'', J_Obj (map (\<lambda>(k, x). (k, shown_json x)) metrics))]"
  by (auto simp: telemetry_item_def to_client_message_def channel_to_topic_def)

text \<open>After a telemetry message of a machine exactly the sockets that hold its topic wait for it.\<close>

lemma machine_feed:
  assumes "hub_run es h" and "telemetry_item now code metrics = (ch, raw)"
    and "hub_step h (Item ch (Some raw)) h'"
  shows "waiting s h' \<noteq> [] \<longleftrightarrow> (\<exists>T. map_of (hb_sockets h) s = Some T \<and> ''asset:'' @ code \<in> T)"
proof -
  have "distinct (map fst (hb_sockets h))" using hub_run_follows [OF assms(1)] by (auto simp: hub_sound_def)
  from publish_waiting [OF this] telemetry_message [OF assms(2)] assms(3) show ?thesis
    by (auto simp: listen_item_def elim!: hub_stepE split: option.splits if_splits)
qed

text \<open>
  A socket whose send has failed is out of the dictionary while its handler still reads: the next message of
  that browser ends the handler with a \<open>KeyError\<close>, which \<open>handle\<close> does not catch, whatever it asks for.
\<close>

lemma dropped_socket_raises:
  "map_of (hb_sockets h) w = None \<Longrightarrow> receive w msg h = close_socket w h"
  by (simp add: receive_def)

text \<open>The \<open>$\<close> of the expression lets a topic end in a line feed: it is confirmed and never served.\<close>

lemma topic_with_line_feed: "topic_ok (''alarms'' @ [CHR 0x0A])"
  by (simp add: topic_ok_def topic_text_def)

lemma backoff_bounds: "1 \<le> b \<Longrightarrow> b \<le> 30 \<Longrightarrow> b \<le> next_backoff b \<and> next_backoff b \<le> 30"
  by (auto simp: next_backoff_def)


text \<open>A browser that asks for one machine, and the telemetry of that machine and of another one.\<close>

definition demo_item :: "string \<Rightarrow> nat hub_event" where
  "demo_item code = Item (''live:'' @ code) (Some (snd (telemetry_item ''t'' code [])))"

definition demo_feed :: "nat hub_event list" where
  "demo_feed = [Opened 0, Received 0 (subscribe_to ''asset:cnc-01''), Answered 0 True,
     demo_item ''cnc-01'', Fanned 0 True, demo_item ''cnc-02'']"

lemma demo_feed_runs:
  "\<exists>h. hub_run demo_feed h \<and> map (\<lambda>(w, f). (w, data_frame f)) (hb_wire h) = [(0, False), (0, True)]"
proof -
  have ok: "topic_ok ''asset:cnc-01''" using code_is_topic [of "''cnc-01''"] by code_simp
  define h1 where "h1 = open_socket (0::nat) new_hub"
  define h2 where "h2 = receive 0 (subscribe_to ''asset:cnc-01'') h1"
  have s2: "hb_sockets h2 = [(0, {''asset:cnc-01''})]" "hb_phase h2 0 = Answering {''asset:cnc-01''}"
      "hb_fan h2 = ([], Data [])" "hb_wire h2 = []"
    using subscribed [OF ok, of "{}"] by (simp_all add: h2_def h1_def receive_def open_socket_def new_hub_def)
  define h3 where "h3 = answer 0 {''asset:cnc-01''} True h2"
  have s3: "hb_sockets h3 = hb_sockets h2" "hb_fan h3 = ([], Data [])"
      "hb_wire h3 = [(0, Subscribed (sorted_list_of_set {''asset:cnc-01''}))]"
    by (simp_all add: h3_def answer_def s2)
  obtain m where m: "to_client_message ''asset:cnc-01'' (Some (snd (telemetry_item ''t'' ''cnc-01'' []))) = Some m"
    using telemetry_message [of "''t''" "''cnc-01''" "[]"] by (auto simp: telemetry_item_def channel_to_topic_def)
  define h4 where "h4 = listen_item (''live:'' @ ''cnc-01'') (Some (snd (telemetry_item ''t'' ''cnc-01'' []))) h3"
  have s4: "hb_fan h4 = ([0], Data m)" "hb_wire h4 = hb_wire h3" "hb_sockets h4 = hb_sockets h3"
    using m by (simp_all add: h4_def listen_item_def channel_to_topic_def publish_local_def s3 s2)
  define h5 where "h5 = (send_to 0 (Data m) True h4)\<lparr>hb_fan := ([], Data m)\<rparr>"
  define h6 where "h6 = listen_item (''live:'' @ ''cnc-02'') (Some (snd (telemetry_item ''t'' ''cnc-02'' []))) h5"
  have "hb_wire h6 = hb_wire h3 @ [(0, Data m)]"
    by (simp add: h6_def listen_item_def publish_local_def h5_def s4 split: option.split)
  moreover have "hub_run demo_feed h6"
  proof -
    have "hub_run ([] @ [Opened 0]) h1" unfolding h1_def by (rule stepped [OF started]) (rule opened, simp add: new_hub_def)
    then have "hub_run (([] @ [Opened 0]) @ [Received 0 (subscribe_to ''asset:cnc-01'')]) h2"
      unfolding h2_def by (rule stepped) (rule received, simp add: h1_def open_socket_def)
    then have "hub_run ((([] @ [Opened 0]) @ [Received 0 (subscribe_to ''asset:cnc-01'')]) @ [Answered 0 True]) h3"
      unfolding h3_def by (rule stepped) (rule answered, simp add: s2)
    then have "hub_run (((([] @ [Opened 0]) @ [Received 0 (subscribe_to ''asset:cnc-01'')]) @ [Answered 0 True])
        @ [demo_item ''cnc-01'']) h4"
      unfolding h4_def demo_item_def by (rule stepped) (rule item, simp add: s3)
    then have "hub_run ((((([] @ [Opened 0]) @ [Received 0 (subscribe_to ''asset:cnc-01'')]) @ [Answered 0 True])
        @ [demo_item ''cnc-01'']) @ [Fanned 0 True]) h5"
      unfolding h5_def by (rule stepped) (rule fanned, simp add: s4)
    then have "hub_run (((((([] @ [Opened 0]) @ [Received 0 (subscribe_to ''asset:cnc-01'')]) @ [Answered 0 True])
        @ [demo_item ''cnc-01'']) @ [Fanned 0 True]) @ [demo_item ''cnc-02'']) h6"
      unfolding h6_def demo_item_def by (rule stepped) (rule item, simp add: h5_def)
    then show ?thesis by (simp add: demo_feed_def)
  qed
  ultimately show ?thesis by (intro exI [of _ h6]) (simp add: s3)
qed

lemma demo_feed_view: "length (v_due (view_of 0 demo_feed)) = 1 \<and> v_topics (view_of 0 demo_feed) = Some {''asset:cnc-01''}"
  by code_simp


end
