(* ===== verification/Sim_Control.thy ===== *)
theory Sim_Control
  imports Sim_Commands
begin

text \<open>
  Control of the simulator from the platform: the simulator's own HTTP API (\<open>apps/simulator/sim/api.py\<close>),
  the client in front of it and the audited service (\<open>apps/api/app/modules/simulation/{client,service,router,
  models,schemas}.py\<close>). A response is its status, the JSON value of its body (none when it is not JSON) and
  its text. What reads the clock, draws generators, renders a value as text, and the export of a data set are
  parameters. An exception nobody catches is \<open>Uncaught\<close>; the session is then closed without a commit.
\<close>

section \<open>The simulator's control API\<close>

datatype sim_request =
    Get_Status
  | Post_Scenario string
  | Post_Faults string string fault_mode real "string option" "real option"
  | Post_Time_Scale real
  | Post_Reset string "string option"
  | Post_Export "string option" real real "int option"

record response =
  rp_status :: nat
  rp_json :: "json option"
  rp_text :: string

record 'g sim_ext =
  sx_rng :: "'g rng"
  sx_spawn :: "int \<Rightarrow> nat \<Rightarrow> 'g list"
  sx_shift :: "shift_spec option"
  sx_now :: string
  sx_status :: "'g runtime \<Rightarrow> json"
  sx_export :: "string option \<Rightarrow> real \<Rightarrow> real \<Rightarrow> int option \<Rightarrow> string \<times> nat \<times> string list"
  sx_reason :: "invalid_request \<Rightarrow> string"
  sx_str :: "json \<Rightarrow> string"

definition json_reply :: "nat \<Rightarrow> json \<Rightarrow> response" where
  "json_reply n j = \<lparr>rp_status = n, rp_json = Some j, rp_text = []\<rparr>"

text \<open>\<open>HTTPException\<close>, and the body FastAPI gives a request that fails validation.\<close>

definition refuse :: "nat \<Rightarrow> string \<Rightarrow> response" where
  "refuse n detail = json_reply n (J_Obj [(''detail'', J_Str detail)])"

definition not_valid :: response where
  "not_valid = json_reply 422 (J_Obj [(''detail'', J_List [])])"

definition internal_error :: response where
  "internal_error = \<lparr>rp_status = 500, rp_json = None, rp_text = ''Internal Server Error''\<rparr>"

definition refuse_error :: "'g sim_ext \<Rightarrow> string \<Rightarrow> request_error \<Rightarrow> response" where
  "refuse_error X a err = (case err of
       Unknown_Asset _ \<Rightarrow> refuse 404 (''unknown asset '' @ a)
     | Invalid_Request r \<Rightarrow> refuse 422 (sx_reason X r))"

definition MAX_HOURS :: real where "MAX_HOURS = 168"

definition serve_scenario :: "'g sim_ext \<Rightarrow> string \<Rightarrow> 'g runtime \<Rightarrow> response \<times> 'g runtime" where
  "serve_scenario X code rt =
     (case start_scenario (sx_rng X) (sx_spawn X) (sx_shift X) (sx_now X) code rt of
        None \<Rightarrow> (refuse 404 (''unknown scenario '' @ code), rt)
      | Some (Inl _) \<Rightarrow> (internal_error, rt)
      | Some (Inr rt') \<Rightarrow> (json_reply 200 (J_Obj [(''scenario_code'', J_Str code), (''started_at'', J_Str (sx_now X)),
            (''seed'', J_Int (rt_seed rt')), (''time_scale'', J_Float (rt_time_scale rt'))]), rt'))"

definition serve_faults ::
  "'g sim_ext \<Rightarrow> string \<Rightarrow> string \<Rightarrow> fault_mode \<Rightarrow> real \<Rightarrow> string option \<Rightarrow> real option \<Rightarrow> 'g runtime \<Rightarrow> response \<times> 'g runtime" where
  "serve_faults X a fm mode severity metric duration rt =
     (if \<not> (0 \<le> severity \<and> severity \<le> 1) \<or> (case duration of None \<Rightarrow> False | Some d \<Rightarrow> d \<le> 0) then (not_valid, rt)
      else case inject_fault (sx_rng X) a fm mode severity metric duration (rt_engine rt) of
        Inl err \<Rightarrow> (refuse_error X a err, rt)
      | Inr e \<Rightarrow> (json_reply 200 (J_Obj [(''accepted'', J_Bool True), (''asset'', J_Str a), (''failure_mode'', J_Str fm)]),
                  rt\<lparr>rt_engine := e\<rparr>))"

definition serve_time_scale :: "real \<Rightarrow> 'g runtime \<Rightarrow> response \<times> 'g runtime" where
  "serve_time_scale x rt =
     (if \<not> (MIN_TIME_SCALE \<le> x \<and> x \<le> MAX_TIME_SCALE) then (not_valid, rt)
      else case set_time_scale x rt of
        Inl _ \<Rightarrow> (internal_error, rt)
      | Inr (f, rt') \<Rightarrow> (json_reply 200 (J_Obj [(''time_scale'', J_Float f)]), rt'))"

definition serve_reset :: "'g sim_ext \<Rightarrow> string \<Rightarrow> string option \<Rightarrow> 'g runtime \<Rightarrow> response \<times> 'g runtime" where
  "serve_reset X a component rt =
     (case reset_asset (sx_rng X) a component (rt_engine rt) of
        Inl err \<Rightarrow> (refuse_error X a err, rt)
      | Inr (e, codes) \<Rightarrow>
          (json_reply 200 (J_Obj [(''asset'', J_Str a), (''reset_components'', J_List (map J_Str codes))]), rt\<lparr>rt_engine := e\<rparr>))"

definition serve_export ::
  "'g sim_ext \<Rightarrow> string option \<Rightarrow> real \<Rightarrow> real \<Rightarrow> int option \<Rightarrow> 'g runtime \<Rightarrow> response \<times> 'g runtime" where
  "serve_export X code hours period seed rt =
     (if \<not> (0 < hours \<and> hours \<le> MAX_HOURS) \<or> \<not> 0 < period then (not_valid, rt)
      else if (case code of None \<Rightarrow> False | Some c \<Rightarrow> map_of (scenarios (rt_catalog rt)) c = None)
        then (refuse 404 (''unknown scenario '' @ the code), rt)
      else (case sx_export X code hours period seed of (path, rows, columns) \<Rightarrow>
        (json_reply 200 (J_Obj [(''path'', J_Str path), (''rows'', J_Int (int rows)),
           (''columns'', J_List (map J_Str columns))]), rt)))"

definition sim_serve :: "'g sim_ext \<Rightarrow> sim_request \<Rightarrow> 'g runtime \<Rightarrow> response \<times> 'g runtime" where
  "sim_serve X req rt = (case req of
       Get_Status \<Rightarrow> (json_reply 200 (sx_status X rt), rt)
     | Post_Scenario code \<Rightarrow> serve_scenario X code rt
     | Post_Faults a fm mode severity metric duration \<Rightarrow> serve_faults X a fm mode severity metric duration rt
     | Post_Time_Scale x \<Rightarrow> serve_time_scale x rt
     | Post_Reset a component \<Rightarrow> serve_reset X a component rt
     | Post_Export code hours period seed \<Rightarrow> serve_export X code hours period seed rt)"

section \<open>The client\<close>

datatype proxy_error =
    Forbidden | Asset_Missing string | Scenario_Missing string
  | Unavailable | Sim_Not_Found string | Unprocessable string | Bad_Gateway nat string | Uncaught

text \<open>\<open>_detail\<close>: \<^term>\<open>None\<close> where \<open>.get\<close> raises, on JSON that is no object.\<close>

definition detail :: "(json \<Rightarrow> string) \<Rightarrow> response \<Rightarrow> string option" where
  "detail str r = (case rp_json r of
       None \<Rightarrow> Some (rp_text r)
     | Some (J_Obj d) \<Rightarrow> (case map_of d ''detail'' of
           None \<Rightarrow> Some (rp_text r) | Some (J_Str s) \<Rightarrow> Some s | Some j \<Rightarrow> Some (str j))
     | Some _ \<Rightarrow> None)"

definition with_detail :: "(json \<Rightarrow> string) \<Rightarrow> response \<Rightarrow> (string \<Rightarrow> proxy_error) \<Rightarrow> proxy_error + json" where
  "with_detail str r f = (case detail str r of None \<Rightarrow> Inl Uncaught | Some d \<Rightarrow> Inl (f d))"

definition client_request :: "(json \<Rightarrow> string) \<Rightarrow> response option \<Rightarrow> proxy_error + json" where
  "client_request str resp = (case resp of
       None \<Rightarrow> Inl Unavailable
     | Some r \<Rightarrow>
         if rp_status r = 404 then with_detail str r Sim_Not_Found
         else if rp_status r = 422 then with_detail str r Unprocessable
         else if 400 \<le> rp_status r then with_detail str r (Bad_Gateway (rp_status r))
         else (case rp_json r of None \<Rightarrow> Inl Uncaught | Some j \<Rightarrow> Inr j))"

section \<open>The service\<close>

record scenario_run =
  sr_id :: nat
  sr_scenario :: "string option"
  sr_started :: int
  sr_ended :: "int option"
  sr_time_scale :: real
  sr_seed :: "int option"
  sr_export :: "string option"

record control_audit =
  ca_actor :: string
  ca_entity :: string
  ca_entity_id :: "nat option"
  ca_action :: string

record control_db =
  cd_scenarios :: "string list"
  cd_assets :: "string \<Rightarrow> nat option"
  cd_runs :: "scenario_run list"
  cd_audits :: "control_audit list"

record actor =
  ac_sub :: string
  ac_roles :: "string list"

text \<open>What surrounds one request: the clock of the database, and whether its commit goes through.\<close>

record request_env =
  rq_now :: int
  rq_commit :: bool

definition WRITE_ROLES :: "string list" where "WRITE_ROLES = [''engineer'', ''admin'']"

definition has_any :: "actor \<Rightarrow> string list \<Rightarrow> bool" where
  "has_any u roles \<longleftrightarrow> list_ex (\<lambda>r. r \<in> set roles) (ac_roles u)"

text \<open>Where the session is committed or closed without a commit.\<close>

definition commit :: "request_env \<Rightarrow> json \<Rightarrow> control_db \<Rightarrow> control_db \<Rightarrow> (proxy_error + json) \<times> control_db" where
  "commit Q result before after = (if rq_commit Q then (Inr result, after) else (Inl Uncaught, before))"

definition write_audit :: "actor \<Rightarrow> string \<Rightarrow> nat option \<Rightarrow> string \<Rightarrow> control_db \<Rightarrow> control_db" where
  "write_audit u entity eid action db =
     db\<lparr>cd_audits := cd_audits db @ [\<lparr>ca_actor = ac_sub u, ca_entity = entity, ca_entity_id = eid, ca_action = action\<rparr>]\<rparr>"

definition is_open :: "scenario_run \<Rightarrow> bool" where
  "is_open r \<longleftrightarrow> sr_ended r = None \<and> sr_export r = None"

definition end_open_runs :: "int \<Rightarrow> control_db \<Rightarrow> control_db" where
  "end_open_runs now db = db\<lparr>cd_runs := map (\<lambda>r. if is_open r then r\<lparr>sr_ended := Some now\<rparr> else r) (cd_runs db)\<rparr>"

definition add_run :: "scenario_run \<Rightarrow> control_db \<Rightarrow> control_db" where
  "add_run r db = db\<lparr>cd_runs := cd_runs db @ [r]\<rparr>"

definition next_run :: "control_db \<Rightarrow> nat" where
  "next_run db = length (cd_runs db)"

text \<open>
  \<open>result["k"]\<close> on the reply, and the values the columns take: \<^term>\<open>None\<close> where the code or the database
  raises.
\<close>

definition json_field :: "string \<Rightarrow> json \<Rightarrow> json option" where
  "json_field k j = (case j of J_Obj d \<Rightarrow> map_of d k | _ \<Rightarrow> None)"

definition scale_value :: "json \<Rightarrow> real option" where
  "scale_value j = (case json_field ''time_scale'' j of
       Some (J_Float x) \<Rightarrow> Some x | Some (J_Int i) \<Rightarrow> Some (of_int i) | _ \<Rightarrow> None)"

definition seed_value :: "json \<Rightarrow> int option option" where
  "seed_value j = (case json_field ''seed'' j of
       None \<Rightarrow> Some None | Some J_Null \<Rightarrow> Some None | Some (J_Int i) \<Rightarrow> Some (Some i) | _ \<Rightarrow> None)"

definition path_value :: "json \<Rightarrow> string option" where
  "path_value j = (case json_field ''path'' j of Some (J_Str p) \<Rightarrow> Some p | _ \<Rightarrow> None)"

text \<open>One request through the client; \<open>sim\<close> answers it or fails, and changes its own state.\<close>

definition ask :: "(json \<Rightarrow> string) \<Rightarrow> (sim_request \<Rightarrow> 'w \<Rightarrow> response option \<times> 'w) \<Rightarrow> sim_request \<Rightarrow> 'w \<Rightarrow> (proxy_error + json) \<times> 'w" where
  "ask str sim req w = (case sim req w of (resp, w') \<Rightarrow> (client_request str resp, w'))"

definition record_start :: "request_env \<Rightarrow> actor \<Rightarrow> string \<Rightarrow> json \<Rightarrow> control_db \<Rightarrow> (proxy_error + json) \<times> control_db" where
  "record_start Q u code result db = (case (scale_value result, seed_value result) of
       (Some factor, Some seed) \<Rightarrow>
         (let db1 = end_open_runs (rq_now Q) db; i = next_run db1;
              run = \<lparr>sr_id = i, sr_scenario = Some code, sr_started = rq_now Q, sr_ended = None, sr_time_scale = factor,
                     sr_seed = seed, sr_export = None\<rparr>
          in commit Q result db (write_audit u ''scenario_runs'' (Some i) ''create'' (add_run run db1)))
     | _ \<Rightarrow> (Inl Uncaught, db))"

definition record_export ::
  "request_env \<Rightarrow> actor \<Rightarrow> string option \<Rightarrow> int option \<Rightarrow> json \<Rightarrow> control_db \<Rightarrow> (proxy_error + json) \<times> control_db" where
  "record_export Q u code seed result db = (case path_value result of
       Some path \<Rightarrow>
         (let i = next_run db;
              run = \<lparr>sr_id = i, sr_scenario = code, sr_started = rq_now Q, sr_ended = Some (rq_now Q), sr_time_scale = 1,
                     sr_seed = seed, sr_export = Some path\<rparr>
          in commit Q result db (write_audit u ''scenario_runs'' (Some i) ''export'' (add_run run db)))
     | None \<Rightarrow> (Inl Uncaught, db))"

datatype control_op =
    Start_Scenario string
  | Inject_Fault string string fault_mode real "string option" "real option"
  | Set_Time_Scale real
  | Reset_Machine string "string option"
  | Export_Data "string option" real real "int option"

text \<open>\<open>schemas.py\<close>: what a body must satisfy before the service is called.\<close>

definition body_ok :: "control_op \<Rightarrow> bool" where
  "body_ok oper = (case oper of
       Inject_Fault a fm mode severity metric duration \<Rightarrow>
         0 \<le> severity \<and> severity \<le> 1 \<and> (case duration of None \<Rightarrow> True | Some d \<Rightarrow> 0 < d)
     | Set_Time_Scale x \<Rightarrow> 1 \<le> x \<and> x \<le> 1000
     | Export_Data code hours period seed \<Rightarrow> 0 < hours \<and> hours \<le> 168 \<and> 0 < period \<and> period \<le> 3600
     | _ \<Rightarrow> True)"

definition service_start_scenario ::
  "(json \<Rightarrow> string) \<Rightarrow> (sim_request \<Rightarrow> 'w \<Rightarrow> response option \<times> 'w) \<Rightarrow> request_env \<Rightarrow> actor \<Rightarrow> string
     \<Rightarrow> control_db \<times> 'w \<Rightarrow> (proxy_error + json) \<times> control_db \<times> 'w" where
  "service_start_scenario str sim Q u code s = (case s of (db, w) \<Rightarrow>
     if code \<notin> set (cd_scenarios db) then (Inl (Scenario_Missing code), db, w)
     else (case ask str sim (Post_Scenario code) w of
         (Inl err, w') \<Rightarrow> (Inl err, db, w')
       | (Inr result, w') \<Rightarrow> (case record_start Q u code result db of (r, db') \<Rightarrow> (r, db', w'))))"

definition service_inject_fault ::
  "(json \<Rightarrow> string) \<Rightarrow> (sim_request \<Rightarrow> 'w \<Rightarrow> response option \<times> 'w) \<Rightarrow> request_env \<Rightarrow> actor \<Rightarrow> string \<Rightarrow> string
     \<Rightarrow> fault_mode \<Rightarrow> real \<Rightarrow> string option \<Rightarrow> real option \<Rightarrow> control_db \<times> 'w \<Rightarrow> (proxy_error + json) \<times> control_db \<times> 'w" where
  "service_inject_fault str sim Q u a fm mode severity metric duration s = (case s of (db, w) \<Rightarrow>
     (case cd_assets db a of
        None \<Rightarrow> (Inl (Asset_Missing a), db, w)
      | Some i \<Rightarrow> (case ask str sim (Post_Faults a fm mode severity metric duration) w of
          (Inl err, w') \<Rightarrow> (Inl err, db, w')
        | (Inr result, w') \<Rightarrow>
            (case commit Q result db (write_audit u ''assets'' (Some i) ''inject_fault'' db) of (r, db') \<Rightarrow> (r, db', w')))))"

definition service_set_time_scale ::
  "(json \<Rightarrow> string) \<Rightarrow> (sim_request \<Rightarrow> 'w \<Rightarrow> response option \<times> 'w) \<Rightarrow> request_env \<Rightarrow> actor \<Rightarrow> real
     \<Rightarrow> control_db \<times> 'w \<Rightarrow> (proxy_error + json) \<times> control_db \<times> 'w" where
  "service_set_time_scale str sim Q u x s = (case s of (db, w) \<Rightarrow>
     (case ask str sim (Post_Time_Scale x) w of
        (Inl err, w') \<Rightarrow> (Inl err, db, w')
      | (Inr result, w') \<Rightarrow>
          (case commit Q result db (write_audit u ''simulation'' None ''time_scale'' db) of (r, db') \<Rightarrow> (r, db', w'))))"

definition service_reset ::
  "(json \<Rightarrow> string) \<Rightarrow> (sim_request \<Rightarrow> 'w \<Rightarrow> response option \<times> 'w) \<Rightarrow> request_env \<Rightarrow> actor \<Rightarrow> string \<Rightarrow> string option
     \<Rightarrow> control_db \<times> 'w \<Rightarrow> (proxy_error + json) \<times> control_db \<times> 'w" where
  "service_reset str sim Q u a component s = (case s of (db, w) \<Rightarrow>
     (case cd_assets db a of
        None \<Rightarrow> (Inl (Asset_Missing a), db, w)
      | Some i \<Rightarrow> (case ask str sim (Post_Reset a component) w of
          (Inl err, w') \<Rightarrow> (Inl err, db, w')
        | (Inr result, w') \<Rightarrow>
            (case commit Q result db (write_audit u ''assets'' (Some i) ''reset'' db) of (r, db') \<Rightarrow> (r, db', w')))))"

definition service_export ::
  "(json \<Rightarrow> string) \<Rightarrow> (sim_request \<Rightarrow> 'w \<Rightarrow> response option \<times> 'w) \<Rightarrow> request_env \<Rightarrow> actor \<Rightarrow> string option \<Rightarrow> real
     \<Rightarrow> real \<Rightarrow> int option \<Rightarrow> control_db \<times> 'w \<Rightarrow> (proxy_error + json) \<times> control_db \<times> 'w" where
  "service_export str sim Q u code hours period seed s = (case s of (db, w) \<Rightarrow>
     if code \<noteq> None \<and> code \<noteq> Some [] \<and> the code \<notin> set (cd_scenarios db) then (Inl (Scenario_Missing (the code)), db, w)
     else (case ask str sim (Post_Export code hours period seed) w of
         (Inl err, w') \<Rightarrow> (Inl err, db, w')
       | (Inr result, w') \<Rightarrow> (case record_export Q u code seed result db of (r, db') \<Rightarrow> (r, db', w'))))"

text \<open>A request: the role, the body, the service.\<close>

definition control ::
  "(json \<Rightarrow> string) \<Rightarrow> (sim_request \<Rightarrow> 'w \<Rightarrow> response option \<times> 'w) \<Rightarrow> request_env \<Rightarrow> actor \<Rightarrow> control_op
     \<Rightarrow> control_db \<times> 'w \<Rightarrow> (proxy_error + json) \<times> control_db \<times> 'w" where
  "control str sim Q u oper s =
     (if \<not> has_any u WRITE_ROLES then (Inl Forbidden, s)
      else if \<not> body_ok oper then (Inl (Unprocessable []), s)
      else (case oper of
          Start_Scenario code \<Rightarrow> service_start_scenario str sim Q u code s
        | Inject_Fault a fm mode severity metric duration \<Rightarrow> service_inject_fault str sim Q u a fm mode severity metric duration s
        | Set_Time_Scale x \<Rightarrow> service_set_time_scale str sim Q u x s
        | Reset_Machine a component \<Rightarrow> service_reset str sim Q u a component s
        | Export_Data code hours period seed \<Rightarrow> service_export str sim Q u code hours period seed s))"

end
