(* ===== verification/Control_Facts.thy ===== *)
theory Control_Facts
  imports Sim_Control
begin

text \<open>
  What the audited control of the simulator guarantees with the simulator's own API behind it: an operation is
  recorded exactly when it was carried out, except in the window between the simulator's action and the
  commit, and the open run of the database is the scenario the simulator runs.
\<close>

section \<open>The network\<close>

text \<open>A request may be lost on the way, its answer may be lost or come too late, or all goes well.\<close>

datatype net = Lost | Answer_Lost | Arrives

definition simulator :: "'g sim_ext \<Rightarrow> net \<Rightarrow> sim_request \<Rightarrow> 'g runtime \<Rightarrow> response option \<times> 'g runtime" where
  "simulator X n req rt = (case n of
       Lost \<Rightarrow> (None, rt)
     | Answer_Lost \<Rightarrow> (None, snd (sim_serve X req rt))
     | Arrives \<Rightarrow> (case sim_serve X req rt of (resp, rt') \<Rightarrow> (Some resp, rt')))"

abbreviation controlled ::
  "'g sim_ext \<Rightarrow> net \<Rightarrow> request_env \<Rightarrow> actor \<Rightarrow> control_op \<Rightarrow> control_db \<times> 'g runtime
     \<Rightarrow> (proxy_error + json) \<times> control_db \<times> 'g runtime" where
  "controlled X n Q u oper s \<equiv> control (sx_str X) (simulator X n) Q u oper s"

section \<open>The simulator's answers\<close>

text \<open>A refused request leaves the simulator as it was; an accepted one answers with the JSON its client reads.\<close>

lemma refuse_status [simp]: "rp_status (refuse n d) = n" "rp_status not_valid = 422" "rp_status internal_error = 500"
  "rp_status (json_reply n j) = n" "rp_json (json_reply n j) = Some j" "rp_json (refuse n d) = Some (J_Obj [(''detail'', J_Str d)])"
  by (simp_all add: refuse_def not_valid_def internal_error_def json_reply_def)

lemma refuse_error_status [simp]: "400 \<le> rp_status (refuse_error X a err)"
  by (cases err) (simp_all add: refuse_error_def)

definition accepts :: "response \<Rightarrow> bool" where
  "accepts r \<longleftrightarrow> rp_status r = 200 \<and> rp_json r \<noteq> None"

lemma serve_cases: "accepts (fst (sim_serve X req rt)) \<or> 400 \<le> rp_status (fst (sim_serve X req rt)) \<and> snd (sim_serve X req rt) = rt"
  by (cases req)
    (auto simp: sim_serve_def serve_scenario_def serve_faults_def serve_time_scale_def serve_reset_def serve_export_def
       accepts_def split: option.split sum.split prod.split)

lemma client_refused: "400 \<le> rp_status r \<Longrightarrow> \<exists>err. client_request str (Some r) = Inl err"
  by (auto simp: client_request_def with_detail_def split: option.split)

lemma client_accepted: "accepts r \<Longrightarrow> client_request str (Some r) = Inr (the (rp_json r))"
  by (auto simp: client_request_def accepts_def)

text \<open>What one request through the client does: it is answered, or refused, or unanswered.\<close>

lemma ask_cases:
  obtains (answered) "n = Arrives" "accepts (fst (sim_serve X req rt))"
      "ask str (simulator X n) req rt = (Inr (the (rp_json (fst (sim_serve X req rt)))), snd (sim_serve X req rt))"
    | (kept) err where "ask str (simulator X n) req rt = (Inl err, rt)" 
    | (unheard) "n = Answer_Lost" "ask str (simulator X n) req rt = (Inl Unavailable, snd (sim_serve X req rt))"
proof -
  obtain resp rt' where s: "sim_serve X req rt = (resp, rt')" by force
  show ?thesis
  proof (cases n)
    case Lost
    then show ?thesis using kept by (simp add: ask_def simulator_def client_request_def)
  next
    case Answer_Lost
    then show ?thesis using unheard by (simp add: ask_def simulator_def client_request_def)
  next
    case Arrives
    show ?thesis
    proof (cases "accepts resp")
      case True
      then show ?thesis using answered Arrives s client_accepted [OF True, of str] by (simp add: ask_def simulator_def)
    next
      case False
      with serve_cases [of X req rt] s have "400 \<le> rp_status resp" "rt' = rt" by auto
      with client_refused [of resp str] Arrives s kept show ?thesis by (auto simp: ask_def simulator_def)
    qed
  qed
qed

section \<open>Recorded as done\<close>

definition request_of :: "control_op \<Rightarrow> sim_request" where
  "request_of oper = (case oper of
       Start_Scenario code \<Rightarrow> Post_Scenario code
     | Inject_Fault a fm mode severity metric duration \<Rightarrow> Post_Faults a fm mode severity metric duration
     | Set_Time_Scale x \<Rightarrow> Post_Time_Scale x
     | Reset_Machine a component \<Rightarrow> Post_Reset a component
     | Export_Data code hours period seed \<Rightarrow> Post_Export code hours period seed)"

lemma scenario_reply:
  assumes "accepts (fst (serve_scenario X code rt))"
  shows "scale_value (the (rp_json (fst (serve_scenario X code rt)))) = Some (rt_time_scale (snd (serve_scenario X code rt)))
    \<and> seed_value (the (rp_json (fst (serve_scenario X code rt)))) = Some (Some (rt_seed (snd (serve_scenario X code rt))))
    \<and> rt_scenario (snd (serve_scenario X code rt)) = Some (code, sx_now X)"
  using assms
  by (auto simp: serve_scenario_def accepts_def scale_value_def seed_value_def json_field_def start_scenario_def res_simps
      split: option.splits sum.splits)

lemma export_reply:
  "accepts (fst (serve_export X code hours period seed rt)) \<Longrightarrow>
    path_value (the (rp_json (fst (serve_export X code hours period seed rt)))) \<noteq> None"
  by (auto simp: serve_export_def accepts_def path_value_def json_field_def split: option.splits prod.splits if_splits)

text \<open>What an operation that was answered leaves in the database when its commit goes through.\<close>

definition audit_of :: "actor \<Rightarrow> control_op \<Rightarrow> control_db \<Rightarrow> control_audit" where
  "audit_of u oper db = (case oper of
       Start_Scenario code \<Rightarrow> \<lparr>ca_actor = ac_sub u, ca_entity = ''scenario_runs'', ca_entity_id = Some (next_run db), ca_action = ''create''\<rparr>
     | Inject_Fault a _ _ _ _ _ \<Rightarrow> \<lparr>ca_actor = ac_sub u, ca_entity = ''assets'', ca_entity_id = cd_assets db a, ca_action = ''inject_fault''\<rparr>
     | Set_Time_Scale x \<Rightarrow> \<lparr>ca_actor = ac_sub u, ca_entity = ''simulation'', ca_entity_id = None, ca_action = ''time_scale''\<rparr>
     | Reset_Machine a _ \<Rightarrow> \<lparr>ca_actor = ac_sub u, ca_entity = ''assets'', ca_entity_id = cd_assets db a, ca_action = ''reset''\<rparr>
     | Export_Data _ _ _ _ \<Rightarrow> \<lparr>ca_actor = ac_sub u, ca_entity = ''scenario_runs'', ca_entity_id = Some (next_run db), ca_action = ''export''\<rparr>)"

definition runs_after :: "request_env \<Rightarrow> control_op \<Rightarrow> 'g runtime \<Rightarrow> control_db \<Rightarrow> control_db \<Rightarrow> bool" where
  "runs_after Q oper rt' db db' = (case oper of
       Start_Scenario code \<Rightarrow> cd_runs db' = cd_runs (end_open_runs (rq_now Q) db)
         @ [\<lparr>sr_id = next_run db, sr_scenario = Some code, sr_started = rq_now Q, sr_ended = None,
             sr_time_scale = rt_time_scale rt', sr_seed = Some (rt_seed rt'), sr_export = None\<rparr>]
         \<and> map_option fst (rt_scenario rt') = Some code
     | Export_Data code _ _ _ \<Rightarrow> (\<exists>r. cd_runs db' = cd_runs db @ [r] \<and> sr_id r = next_run db \<and> sr_ended r \<noteq> None \<and> sr_export r \<noteq> None)
     | _ \<Rightarrow> cd_runs db' = cd_runs db)"

definition done_as_recorded ::
  "'g sim_ext \<Rightarrow> net \<Rightarrow> request_env \<Rightarrow> actor \<Rightarrow> control_op \<Rightarrow> control_db \<times> 'g runtime
     \<Rightarrow> (proxy_error + json) \<times> control_db \<times> 'g runtime \<Rightarrow> bool" where
  "done_as_recorded X n Q u oper s res \<longleftrightarrow> (case (s, res) of ((db, rt), (r, db', rt')) \<Rightarrow>
     (case r of
        Inl _ \<Rightarrow> db' = db \<and> (rt' = rt \<or> (n = Answer_Lost \<or> \<not> rq_commit Q) \<and> rt' = snd (sim_serve X (request_of oper) rt))
      | Inr _ \<Rightarrow> n = Arrives \<and> rq_commit Q \<and> accepts (fst (sim_serve X (request_of oper) rt))
          \<and> rt' = snd (sim_serve X (request_of oper) rt)
          \<and> cd_audits db' = cd_audits db @ [audit_of u oper db] \<and> runs_after Q oper rt' db db'
          \<and> cd_scenarios db' = cd_scenarios db \<and> cd_assets db' = cd_assets db))"

lemma recorded_rest [simp]:
  "cd_audits (write_audit u t i a db) = cd_audits db @ [\<lparr>ca_actor = ac_sub u, ca_entity = t, ca_entity_id = i, ca_action = a\<rparr>]"
  "cd_runs (write_audit u t i a db) = cd_runs db" "cd_scenarios (write_audit u t i a db) = cd_scenarios db"
  "cd_assets (write_audit u t i a db) = cd_assets db"
  "cd_runs (add_run r db) = cd_runs db @ [r]" "cd_audits (add_run r db) = cd_audits db"
  "cd_scenarios (add_run r db) = cd_scenarios db" "cd_assets (add_run r db) = cd_assets db"
  "cd_audits (end_open_runs now db) = cd_audits db" "cd_scenarios (end_open_runs now db) = cd_scenarios db"
  "cd_assets (end_open_runs now db) = cd_assets db" "next_run (end_open_runs now db) = next_run db"
  by (simp_all add: write_audit_def add_run_def end_open_runs_def next_run_def)

lemma start_done: "done_as_recorded X n Q u (Start_Scenario code) (db, rt)
    (service_start_scenario (sx_str X) (simulator X n) Q u code (db, rt))"
proof (cases "code \<in> set (cd_scenarios db)")
  case False
  then show ?thesis by (simp add: service_start_scenario_def done_as_recorded_def)
next
  case True
  show ?thesis
  proof (cases rule: ask_cases [of n X "Post_Scenario code" rt "sx_str X"])
    case answered
    then have acc: "accepts (fst (serve_scenario X code rt))" by (simp add: sim_serve_def)
    from True answered scenario_reply [OF acc] show ?thesis
      by (simp add: service_start_scenario_def record_start_def commit_def Let_def done_as_recorded_def
          request_of_def audit_of_def runs_after_def sim_serve_def)
  next
    case (kept err)
    with True show ?thesis by (simp add: service_start_scenario_def done_as_recorded_def)
  next
    case unheard
    with True show ?thesis by (simp add: service_start_scenario_def done_as_recorded_def request_of_def)
  qed
qed

lemma fault_done: "done_as_recorded X n Q u (Inject_Fault a fm mode severity metric duration) (db, rt)
    (service_inject_fault (sx_str X) (simulator X n) Q u a fm mode severity metric duration (db, rt))"
  by (cases rule: ask_cases [of n X "Post_Faults a fm mode severity metric duration" rt "sx_str X"])
    (auto simp: service_inject_fault_def commit_def done_as_recorded_def request_of_def audit_of_def runs_after_def
       split: option.split)

lemma scale_done: "done_as_recorded X n Q u (Set_Time_Scale x) (db, rt)
    (service_set_time_scale (sx_str X) (simulator X n) Q u x (db, rt))"
  by (cases rule: ask_cases [of n X "Post_Time_Scale x" rt "sx_str X"])
    (auto simp: service_set_time_scale_def commit_def done_as_recorded_def request_of_def audit_of_def runs_after_def)

lemma reset_done: "done_as_recorded X n Q u (Reset_Machine a component) (db, rt)
    (service_reset (sx_str X) (simulator X n) Q u a component (db, rt))"
  by (cases rule: ask_cases [of n X "Post_Reset a component" rt "sx_str X"])
    (auto simp: service_reset_def commit_def done_as_recorded_def request_of_def audit_of_def runs_after_def
       split: option.split)

lemma export_done: "done_as_recorded X n Q u (Export_Data code hours period seed) (db, rt)
    (service_export (sx_str X) (simulator X n) Q u code hours period seed (db, rt))"
proof (cases rule: ask_cases [of n X "Post_Export code hours period seed" rt "sx_str X"])
  case answered
  then have "accepts (fst (serve_export X code hours period seed rt))" by (simp add: sim_serve_def)
  from export_reply [OF this] answered show ?thesis
    by (auto simp: service_export_def record_export_def commit_def Let_def done_as_recorded_def request_of_def audit_of_def
        runs_after_def sim_serve_def split: if_splits)
next
  case (kept err)
  then show ?thesis by (simp add: service_export_def done_as_recorded_def)
next
  case unheard
  then show ?thesis by (simp add: service_export_def done_as_recorded_def request_of_def)
qed

lemma control_done: "done_as_recorded X n Q u oper (db, rt) (controlled X n Q u oper (db, rt))"
proof (cases "has_any u WRITE_ROLES \<and> body_ok oper")
  case False
  then show ?thesis by (auto simp: control_def done_as_recorded_def)
next
  case True
  then show ?thesis
    by (cases oper) (simp_all add: control_def start_done fault_done scale_done reset_done export_done)
qed

section \<open>Histories\<close>

definition is_start :: "control_op \<Rightarrow> bool" where
  "is_start oper = (case oper of Start_Scenario _ \<Rightarrow> True | _ \<Rightarrow> False)"

text \<open>
  The database and the simulator from a fresh installation on; the flag says that no start of a scenario was
  cut off between the simulator and the commit. In between the fleet runs and takes commands of its own.
\<close>

inductive control_reach :: "control_db \<Rightarrow> 'g runtime \<Rightarrow> bool \<Rightarrow> bool" where
  installed: "cd_runs db = [] \<Longrightarrow> rt_scenario rt = None \<Longrightarrow> control_reach db rt True"
| requested: "control_reach db rt c \<Longrightarrow> controlled X n Q u oper (db, rt) = (r, db', rt')
    \<Longrightarrow> control_reach db' rt' (c \<and> (is_start oper \<longrightarrow> n \<noteq> Answer_Lost \<and> rq_commit Q))"
| fleet_runs: "control_reach db rt c \<Longrightarrow> control_reach db (rt\<lparr>rt_engine := e\<rparr>) c"

definition open_runs :: "control_db \<Rightarrow> scenario_run list" where
  "open_runs db = filter is_open (cd_runs db)"

definition runs_ok :: "control_db \<Rightarrow> bool" where
  "runs_ok db \<longleftrightarrow> length (open_runs db) \<le> 1 \<and> map sr_id (cd_runs db) = [0..<length (cd_runs db)]
     \<and> (\<forall>r \<in> set (cd_runs db). sr_export r \<noteq> None \<longrightarrow> sr_ended r \<noteq> None)"

definition in_step :: "control_db \<Rightarrow> 'g runtime \<Rightarrow> bool" where
  "in_step db rt \<longleftrightarrow> (case open_runs db of
       [] \<Rightarrow> rt_scenario rt = None
     | r # _ \<Rightarrow> map_option fst (rt_scenario rt) = sr_scenario r \<and> sr_scenario r \<noteq> None \<and> sr_seed r = Some (rt_seed rt))"

lemma no_open_after_end: "filter is_open (cd_runs (end_open_runs now db)) = []"
  by (auto simp: end_open_runs_def is_open_def filter_empty_conv)

lemma runs_ok_start:
  assumes "runs_ok db" and "runs_after Q (Start_Scenario code) rt' db db'"
  shows "runs_ok db' \<and> in_step db' rt'"
proof -
  let ?r = "\<lparr>sr_id = next_run db, sr_scenario = Some code, sr_started = rq_now Q, sr_ended = None,
             sr_time_scale = rt_time_scale rt', sr_seed = Some (rt_seed rt'), sr_export = None\<rparr>"
  have runs: "cd_runs db' = cd_runs (end_open_runs (rq_now Q) db) @ [?r]"
    and code: "map_option fst (rt_scenario rt') = Some code"
    using assms(2) by (simp_all add: runs_after_def)
  have "open_runs db' = [?r]" by (simp add: open_runs_def runs no_open_after_end is_open_def)
  moreover have ids: "map sr_id (cd_runs (end_open_runs now db)) = map sr_id (cd_runs db)"
    and len: "length (cd_runs (end_open_runs now db)) = length (cd_runs db)" for now
    by (simp_all add: end_open_runs_def)
  have "map sr_id (cd_runs db') = [0..<length (cd_runs db')]"
    unfolding runs map_append ids length_append len using assms(1) by (simp add: runs_ok_def next_run_def)
  moreover have "\<forall>r \<in> set (cd_runs db'). sr_export r \<noteq> None \<longrightarrow> sr_ended r \<noteq> None"
    using assms(1) by (auto simp: runs runs_ok_def end_open_runs_def)
  ultimately show ?thesis using code by (simp add: runs_ok_def in_step_def)
qed

lemma run_states: "runs_after Q oper rt' db db' \<Longrightarrow> \<not> is_start oper \<Longrightarrow>
    open_runs db' = open_runs db \<and> (runs_ok db \<longrightarrow> runs_ok db')"
  by (cases oper) (auto simp: runs_after_def is_start_def open_runs_def runs_ok_def is_open_def next_run_def)

text \<open>No other request changes which scenario the simulator runs, or its seed.\<close>

lemma serve_scenario_kept:
  "\<not> is_start oper \<Longrightarrow> rt_scenario (snd (sim_serve X (request_of oper) rt)) = rt_scenario rt
     \<and> rt_seed (snd (sim_serve X (request_of oper) rt)) = rt_seed rt"
  by (cases oper)
    (auto simp: is_start_def request_of_def sim_serve_def serve_faults_def serve_time_scale_def serve_reset_def
       serve_export_def set_time_scale_def res_simps split: option.split sum.split prod.split)

lemma request_keeps_runs:
  assumes "runs_ok db" and "c \<longrightarrow> in_step db rt" and "controlled X n Q u oper (db, rt) = (r, db', rt')"
  shows "runs_ok db' \<and> (c \<and> (is_start oper \<longrightarrow> n \<noteq> Answer_Lost \<and> rq_commit Q) \<longrightarrow> in_step db' rt')"
proof -
  from control_done [of X n Q u oper db rt] assms(3) have d: "done_as_recorded X n Q u oper (db, rt) (r, db', rt')" by simp
  show ?thesis
  proof (cases r)
    case (Inl err)
    with d have "db' = db" and rt': "rt' = rt \<or> (n = Answer_Lost \<or> \<not> rq_commit Q) \<and> rt' = snd (sim_serve X (request_of oper) rt)"
      by (simp_all add: done_as_recorded_def)
    with assms(1,2) serve_scenario_kept [of oper X rt] show ?thesis
      by (cases "is_start oper") (auto simp: in_step_def split: list.split)
  next
    case (Inr j)
    with d have runs: "runs_after Q oper rt' db db'" and rt': "rt' = snd (sim_serve X (request_of oper) rt)"
      unfolding done_as_recorded_def Inr prod.case sum.case by blast+
    show ?thesis
    proof (cases "is_start oper")
      case True
      then obtain code where "oper = Start_Scenario code" by (cases oper) (auto simp: is_start_def)
      with runs_ok_start [OF assms(1)] runs show ?thesis by blast
    next
      case False
      with run_states [OF runs] serve_scenario_kept [of oper X rt] rt' assms(1,2) show ?thesis
        by (auto simp: in_step_def split: list.splits)
    qed
  qed
qed

lemma control_reach_inv: "control_reach db rt c \<Longrightarrow> runs_ok db \<and> (c \<longrightarrow> in_step db rt)"
proof (induction rule: control_reach.induct)
  case (installed db rt)
  then show ?case by (simp add: runs_ok_def in_step_def open_runs_def)
next
  case (requested db rt c X n Q u oper r db' rt')
  then show ?case using request_keeps_runs by blast
next
  case (fleet_runs db rt c e)
  then show ?case by (auto simp: in_step_def split: list.splits)
qed

section \<open>Properties\<close>

text \<open>
  Property C39. Control of the simulator is recorded as it is done. An operation that succeeds was asked for by
  an engineer or administrator, was accepted by the simulator, which did it once, and adds exactly one audit
  entry with its author, and a run where the operation makes one. An operation that fails leaves the database
  as it was; the simulator then has done nothing either, unless its answer was lost or the commit failed.
\<close>

theorem control_recorded:
  assumes "controlled X n Q u oper (db, rt) = (r, db', rt')"
  shows "(\<forall>j. r = Inr j \<longrightarrow> has_any u WRITE_ROLES \<and> body_ok oper \<and> accepts (fst (sim_serve X (request_of oper) rt))
       \<and> rt' = snd (sim_serve X (request_of oper) rt) \<and> cd_audits db' = cd_audits db @ [audit_of u oper db]
       \<and> runs_after Q oper rt' db db')
    \<and> (\<forall>err. r = Inl err \<longrightarrow> db' = db \<and> (rt' \<noteq> rt \<longrightarrow> n = Answer_Lost \<or> \<not> rq_commit Q))"
proof -
  from control_done [of X n Q u oper db rt] assms have d: "done_as_recorded X n Q u oper (db, rt) (r, db', rt')" by simp
  have "has_any u WRITE_ROLES \<and> body_ok oper" if "r = Inr j" for j
    using assms that by (auto simp: control_def split: if_splits)
  with d show ?thesis by (auto simp: done_as_recorded_def)
qed


section \<open>Witnesses\<close>

text \<open>An engineer starts a scenario on the demonstration plant.\<close>

definition demo_plan :: catalog where
  "demo_plan = demo_catalog\<lparr>scenarios := [(''wear'', \<lparr>sc_code = ''wear'', sc_name = ''Wear'', sc_seed = 7, sc_time_scale = 60,
     sc_duration_h = 24, sc_events = [demo_event]\<rparr>)]\<rparr>"

definition demo_sim :: "unit sim_ext" where
  "demo_sim = \<lparr>sx_rng = demo_rng, sx_spawn = (\<lambda>seed n. replicate n ()), sx_shift = None, sx_now = ''now'',
     sx_status = (\<lambda>_. J_Null), sx_export = (\<lambda>_ _ _ _. (''f'', 0, [])), sx_reason = (\<lambda>_. []), sx_str = (\<lambda>_. [])\<rparr>"

definition demo_engineer :: actor where
  "demo_engineer = \<lparr>ac_sub = ''u1'', ac_roles = [''engineer'']\<rparr>"

definition demo_control :: control_db where
  "demo_control = \<lparr>cd_scenarios = [''wear''], cd_assets = (\<lambda>_. None), cd_runs = [], cd_audits = []\<rparr>"

definition demo_request :: request_env where
  "demo_request = \<lparr>rq_now = 5, rq_commit = True\<rparr>"

definition demo_runtime :: "unit engine \<Rightarrow> unit runtime" where
  "demo_runtime e = \<lparr>rt_catalog = demo_plan, rt_seed = 1, rt_time_scale = 1, rt_engine = e, rt_scenario = None\<rparr>"

lemma demo_plan_ok: "catalog_ok demo_plan" "assets demo_plan = [demo_asset]"
proof -
  show a: "assets demo_plan = [demo_asset]" using demo_catalog_assets by (simp add: demo_plan_def assets_def)
  show "catalog_ok demo_plan"
    using demo_catalog_ok by (simp add: catalog_ok_def a demo_catalog_assets asset_ok_def) (simp add: demo_plan_def)
qed

lemma demo_start:
  "\<exists>j db' rt'. controlled demo_sim Arrives demo_request demo_engineer (Start_Scenario ''wear'') (demo_control, demo_runtime e)
     = (Inr j, db', rt')"
proof -
  have "length [()] = length (assets demo_plan)" by (simp add: demo_plan_ok)
  from new_engine_ok [OF demo_rng_ok demo_plan_ok(1) this, of 60 None] obtain e1
    where e1: "new_engine demo_rng demo_plan [()] 60 None = Inr e1" by blast
  have acc: "accepts (fst (serve_scenario demo_sim ''wear'' (demo_runtime e)))"
    using e1 by (simp add: serve_scenario_def start_scenario_def demo_sim_def demo_runtime_def demo_plan_ok(2) accepts_def
        split: option.split) (simp add: demo_plan_def)
  obtain resp rt' where srv: "serve_scenario demo_sim ''wear'' (demo_runtime e) = (resp, rt')" by force
  with acc client_accepted [of resp "sx_str demo_sim"] have
    "ask (sx_str demo_sim) (simulator demo_sim Arrives) (Post_Scenario ''wear'') (demo_runtime e) = (Inr (the (rp_json resp)), rt')"
    by (simp add: ask_def simulator_def sim_serve_def)
  with scenario_reply [OF acc] srv show ?thesis
    by (auto simp: control_def has_any_def demo_engineer_def WRITE_ROLES_def body_ok_def service_start_scenario_def
        demo_control_def record_start_def commit_def demo_request_def Let_def)
qed

lemma control_recorded_witness:
  "\<exists>e j db' rt'. controlled demo_sim Arrives demo_request demo_engineer (Start_Scenario ''wear'') (demo_control, demo_runtime e)
      = (Inr j, db', rt') \<and> length (cd_audits db') = 1 \<and> map sr_scenario (cd_runs db') = [Some ''wear'']"
proof -
  fix e
  obtain j db' rt' where c: "controlled demo_sim Arrives demo_request demo_engineer (Start_Scenario ''wear'')
      (demo_control, demo_runtime e) = (Inr j, db', rt')" using demo_start by blast
  from control_recorded [OF c] have "cd_audits db' = cd_audits demo_control @ [audit_of demo_engineer (Start_Scenario ''wear'') demo_control]"
    "runs_after demo_request (Start_Scenario ''wear'') rt' demo_control db'" by auto
  then have "length (cd_audits db') = 1 \<and> map sr_scenario (cd_runs db') = [Some ''wear'']"
    by (simp add: demo_control_def runs_after_def end_open_runs_def)
  then show ?thesis by (intro exI [of _ e] exI [of _ j] exI [of _ db'] exI [of _ rt']) (simp add: c)
qed


end
