(* ===== verification/Spec2Isabelle.thy ===== *)
theory Spec2Isabelle
  imports Sparkplug_Node Edge_Delivery Edge_Features Sim_Safety Sim_Sensors Sim_Plant Sim_Shifts
    Sim_Commands Sim_Modbus Voice_Safety Ingest_Safety Maint_Optimality Maint_Closure Kpi_Facts
    Pdm_Facts Pdm_Delivery Xai_Facts Xai_Counterfactual Xai_Drift Xai_Audit
    Twin_Facts Twin_Whatif_Facts Twin_Command Nlu_Voice Nlu_Times
    Report_Facts Live_View Control_Facts
begin

text \<open>
  \<^bold>\<open>TwinVoice: a verification library.\<close> TwinVoice is a digital-twin platform for a factory. A simulator
  (\<open>apps/simulator/sim\<close>) plays the machines and publishes Sparkplug B. An edge runner (\<open>apps/edge/edge\<close>)
  computes features, scores them and forwards predictions through a store-and-forward queue. The API
  (\<open>apps/api/app\<close>) ingests telemetry and predictions, raises alarms, keeps the asset registry and its
  twins in Eclipse Ditto, serves models, explanations, KPIs, maintenance planning, what-if questions and
  reports, and takes spoken requests. The packages (\<open>packages/{sparkplug,nlu,pdm,xai}\<close>) hold the codec, the language
  rules, the features and the explanation algorithms.

  \<^bold>\<open>Parts and theories.\<close> Every theory opens with what it models; definitions carry the names of the code.

  \<^item> \<open>Twin_Prelude\<close>, \<open>Py_Numbers\<close>: results as sums, dictionaries in insertion order, bounded deques,
    strings, Python's \<open>int\<close> and \<open>round\<close>.
  \<^item> \<open>Sparkplug_Types\<close>, \<open>Sparkplug_Codec\<close>, \<open>Sparkplug_Node\<close>: the data types of \<open>sparkplug_codec\<close> at their
    widths, payload and topic encoding (round trips, the integer range), and the publisher's birth, data and
    death messages with their sequence numbers, which a host that follows the specification accepts.
  \<^item> \<open>Edge_Outbox\<close>, \<open>Edge_Delivery\<close>, \<open>Edge_Features\<close>: the SQLite queue with its quota, the publisher over
    a broker that may fail at any point, crashes included (nothing lost or overtaken, everything delivered
    once the broker is back), and the rolling window, whose vector is the row the trainer computes.
  \<^item> \<open>Sim_Catalog\<close>, \<open>Sim_Physics\<close>, \<open>Sim_Models\<close>, \<open>Sim_Process\<close>: the catalog, the contract of a degradation
    process as a locale with the Wiener, Gamma, motor, Paris and Taylor models as interpretations, and
    \<open>build_process\<close>. \<open>Sim_Sensors\<close>, \<open>Sim_Plant\<close>, \<open>Sim_Shifts\<close>: sensors and their faults, production and
    energy, the shift calendar. \<open>Sim_Machine\<close>, \<open>Sim_Operation\<close>, \<open>Sim_Safety\<close>: a machine's classes, its
    operating states and its invariant. \<open>Sim_Engine\<close>, \<open>Sim_Commands\<close>, \<open>Sim_Modbus\<close>: the fleet, the
    command channel and the Modbus mirror.
  \<^item> \<open>Ingest_Alarms\<close>, \<open>Ingest_Consumer\<close>, \<open>Ingest_Safety\<close>, \<open>Alarm_Service\<close>: the alarm engine, the consumer
    with its buffer and lock, what every message keeps, and the life of an alarm.
  \<^item> \<open>Nlu_Fuzzy\<close>, \<open>Voice_Dialogue\<close>, \<open>Voice_Actions\<close>, \<open>Voice_Safety\<close>: spoken references, the dialogue, and
    actions with confirmation, second factor and expiry, refining an abstract life cycle.
  \<^item> \<open>Nlu_Slots\<close>, \<open>Nlu_Rules\<close>: slot values, and the templates compiled to expressions with the matcher that
    tries them. \<open>Nlu_Language\<close>: the language of a template and its captures. \<open>Nlu_Router\<close>, \<open>Nlu_Times\<close>,
    \<open>Nlu_Voice\<close>: what the router answers, what a spoken time means, and the router inside the dialogue.
  \<^item> \<open>Maint_Risk\<close>, \<open>Maint_Optimiser\<close>, \<open>Maint_Planning\<close>, \<open>Maint_Optimality\<close>: the failure risk, the model
    given to CP-SAT, what a solution of it means, and that its objective is the cost of the plan.
    \<open>Maint_Orders\<close>, \<open>Maint_Schedules\<close>, \<open>Maint_Closure\<close>: work orders, schedules, closing an order with a
    damage reset through the command gateway into the simulator.
  \<^item> \<open>Kpi_Oee\<close>, \<open>Kpi_Energy\<close>, \<open>Kpi_Store\<close>, \<open>Kpi_Service\<close>, \<open>Kpi_Facts\<close>: OEE and energy, the queries over the
    tables, and the services; state times against a reference timeline, the roll-up.
  \<^item> \<open>Pdm_Scoring\<close>, \<open>Pdm_Facts\<close>, \<open>Pdm_Store\<close>, \<open>Pdm_Predictions\<close>, \<open>Pdm_Delivery\<close>: scoring on the edge and
    on the server, the model registry and prediction store, the workers, and the way of a prediction from
    the edge's queue into the store, with a locale for a receiver that settles each message once.
  \<^item> \<open>Xai_Explain\<close>, \<open>Xai_Facts\<close>, \<open>Xai_Counterfactual\<close>, \<open>Xai_Drift\<close>, \<open>Xai_Audit\<close>: attributions, reason
    cards, confidence, the counterfactual search, drift and quality measures, and the audit a narration
    passes before it is shown.
  \<^item> \<open>Twin_Registry\<close>, \<open>Twin_Facts\<close>: assets and their twins under refused requests and failed commits, and the
    roll-up of health. \<open>Twin_Command\<close>: write-back, gated, composed with the gateway and the simulator.
    \<open>Twin_Whatif\<close>, \<open>Twin_Whatif_Facts\<close>: what-if projections, against the simulator's own rates.
  \<^item> \<open>Sim_Control\<close>, \<open>Control_Facts\<close>: the simulator's HTTP API and the audited proxy in front of it, over a
    network that loses requests and answers: what is recorded is what was done.
  \<^item> \<open>Report_Summary\<close>, \<open>Report_Data\<close>, \<open>Report_Service\<close>, \<open>Report_Facts\<close>: a report's figures, its audited
    summary, its life from the request to the file, and the schedules that raise one.
  \<^item> \<open>Live_Hub\<close>, \<open>Live_View\<close>: the WebSocket hub, and what one browser sees of the live feed.

  \<^bold>\<open>State and errors.\<close> Tables are lists in insertion order, rows are records, in-memory dictionaries are
  association lists. A handler maps the state to a result and the new state; each \<open>raise\<close> and early return
  is a branch, a sum or an option. Handlers under a lock or in one transaction are one step. The
  interleavings are the inductive relations of \<open>Edge_Delivery\<close>, \<open>Ingest_Safety\<close>, \<open>Voice_Safety\<close>,
  \<open>Maint_Closure\<close>, \<open>Pdm_Delivery\<close>, \<open>Xai_Audit\<close>, \<open>Twin_Facts\<close>, \<open>Report_Facts\<close>, \<open>Live_Hub\<close> and \<open>Control_Facts\<close>.

  \<^bold>\<open>Bounds.\<close> Machine integers are modelled at their widths in the codec and the Modbus registers. No fuel
  is used: every loop of the model is structural or has a measure, and where the code may not return
  (the consumer's own lock) the result is an option and the condition is proved.

  \<^bold>\<open>Parameters and what is assumed of them.\<close> The random generator (ranges numpy documents), CP-SAT (a
  solution it reports satisfies the model, OPTIMAL is optimal, INFEASIBLE is infeasible), the broker, Ditto
  and commits (arbitrary answers), time zones, the fuzzy ratio of rapidfuzz, trained estimators, the identity
  provider, the LLM and the template texts. Floats are real numbers, so rounding is that of \<open>round\<close> only.
  Strings are ASCII where the code compares or splits them.

  \<^bold>\<open>Not modelled.\<close> Generated protobuf classes; HTTP routes and settings; the OPC UA mirror, dataset export and
  replay, the bearing waveform; training, SHAP and the neural models, which run on third-party packages;
  report rendering and charts; AAS, DTDL and NGSI-LD renderings; narration templates and the
  LLM clients; the voice tools, each one call into a module modelled here; migrations.

  \<^bold>\<open>Plan.\<close> Next: the training worker's dispatch and the replay of recorded data sets.
\<close>

end
